(* ===== verification/Prelude.thy ===== *)
theory Prelude
  imports
    Complex_Main
    "HOL-Library.Char_ord"
    "HOL-Library.List_Lexorder"
begin

text \<open>
  Shared vocabulary of the development.

  \<^item> The types of the model: UUIDs, organisation identifiers, clock readings. A UUID is
    represented by its canonical text, so that \<^verbatim>\<open>uuid::text\<close> in SQL and
    \<^verbatim>\<open>id.String()\<close> in Go are the identity.
  \<^item> The error values of \<^verbatim>\<open>internal/model/errors.go\<close> and the result type
    \<open>model_error + 'a\<close>. An operation that fails is always run in a transaction that is then
    rolled back, so a failing operation carries no new state.
  \<^item> The standard-library string functions the code calls (\<^verbatim>\<open>strings.TrimSpace\<close>,
    \<^verbatim>\<open>strings.Split\<close>, \<^verbatim>\<open>strings.HasPrefix\<close>); Go strings are byte sequences and so is
    \<^typ>\<open>string\<close>.
  \<^item> Lemmas on tables. A table is a list of rows in insertion order; \<open>upd_where\<close> is
    \<^verbatim>\<open>UPDATE ... WHERE\<close>, \<^const>\<open>find\<close> is a \<^verbatim>\<open>SELECT\<close> of one row.

  The collection \<open>result_simps\<close> holds the rewriting of results, \<open>table_simps\<close> the rewriting
  of tables; component proofs use both.
\<close>

named_theorems result_simps \<open>rewriting of fallible computations\<close>
named_theorems table_simps \<open>rewriting of row lookups and updates\<close>

section \<open>Types\<close>

type_synonym uuid = string
type_synonym timestamp = int

definition Nil_uuid :: uuid where
  "Nil_uuid = ''00000000-0000-0000-0000-000000000000''"

text \<open>
  A decoded JSON value. A number is the value of the Go \<^verbatim>\<open>float64\<close> it is decoded into, which is
  a rational; an object lists its members, with distinct keys.
\<close>

datatype json =
    JNull
  | JBool bool
  | JNum rat
  | JStr string
  | JArr "json list"
  | JObj "(string \<times> json) list"

type_synonym json_object = "(string \<times> json) list"

section \<open>Errors\<close>

text \<open>
  \<open>ErrConflict code message\<close> keeps the stable code of the conflict, empty for
  \<^verbatim>\<open>NewErrConflict\<close>. \<open>ErrConstraint name\<close> is a violation of the named database constraint,
  \<open>ErrNoRows\<close> is \<^verbatim>\<open>sql.ErrNoRows\<close>, and \<open>ErrInternal\<close> stands for every other error without a
  model class (a wrapped error, \<^verbatim>\<open>errors.New\<close>); the HTTP layer answers all three with status 500.
  Where the source formats run-time values into a message only the constant part is kept.
  \<^verbatim>\<open>errors.Wrap\<close> adds context to an error and keeps its class and cause, by which every caller
  tells errors apart, so it is the identity.
\<close>

datatype model_error =
    ErrBadRequest string
  | ErrConflict string string
  | ErrNotFound string
  | ErrConstraint string
  | ErrNoRows
  | ErrInternal string

type_synonym 'a result = "model_error + 'a"

definition NewErrBadRequest :: "string \<Rightarrow> model_error" where
  "NewErrBadRequest message = ErrBadRequest message"

definition NewErrConflict :: "string \<Rightarrow> model_error" where
  "NewErrConflict message = ErrConflict '''' message"

definition NewErrNotFound :: "string \<Rightarrow> model_error" where
  "NewErrNotFound message = ErrNotFound message"

fun IsErrBadRequest :: "model_error \<Rightarrow> bool" where
  "IsErrBadRequest (ErrBadRequest m) = True"
| "IsErrBadRequest _ = False"

fun IsErrConflict :: "model_error \<Rightarrow> bool" where
  "IsErrConflict (ErrConflict c m) = True"
| "IsErrConflict _ = False"

fun IsErrNotFound :: "model_error \<Rightarrow> bool" where
  "IsErrNotFound (ErrNotFound m) = True"
| "IsErrNotFound _ = False"

text \<open>\<^verbatim>\<open>isUniqueViolation(err, constraints...)\<close>.\<close>

fun isUniqueViolation :: "model_error \<Rightarrow> string list \<Rightarrow> bool" where
  "isUniqueViolation (ErrConstraint c) constraints = (c \<in> set constraints)"
| "isUniqueViolation _ constraints = False"

text \<open>\<open>map_error f m\<close> rewrites the error of a call: \<^verbatim>\<open>if err != nil { return nil, f(err) }\<close>.\<close>

fun map_error :: "(model_error \<Rightarrow> model_error) \<Rightarrow> 'a result \<Rightarrow> 'a result" where
  "map_error f (Inl e) = Inl (f e)"
| "map_error f (Inr x) = Inr x"

lemma map_error_Inr_iff [simp, result_simps]: "map_error f m = Inr x \<longleftrightarrow> m = Inr x"
  by (cases m) auto

text \<open>Continue with the value of a call, or return its error.\<close>

fun try_then :: "'a result \<Rightarrow> ('a \<Rightarrow> 'b result) \<Rightarrow> 'b result" where
  "try_then (Inl e) f = Inl e"
| "try_then (Inr x) f = f x"

lemma try_then_Inr_iff [simp, result_simps]:
  "try_then m f = Inr y \<longleftrightarrow> (\<exists>x. m = Inr x \<and> f x = Inr y)"
  by (cases m) auto

lemma try_then_Inl_iff [result_simps]:
  "try_then m f = Inl e \<longleftrightarrow> m = Inl e \<or> (\<exists>x. m = Inr x \<and> f x = Inl e)"
  by (cases m) auto

lemma try_then_assoc: "try_then (try_then m f) g = try_then m (\<lambda>x. try_then (f x) g)"
  by (cases m) auto

lemma try_then_cong [fundef_cong]:
  "\<lbrakk>m = m'; \<And>x. m' = Inr x \<Longrightarrow> f x = f' x\<rbrakk> \<Longrightarrow> try_then m f = try_then m' f'"
  by (cases m') auto

text \<open>An early return: \<^verbatim>\<open>if cond { return nil, err }\<close>.\<close>

definition fail_if :: "bool \<Rightarrow> model_error \<Rightarrow> 'a result \<Rightarrow> 'a result" where
  "fail_if c e k = (if c then Inl e else k)"

lemma fail_if_Inr_iff [simp, result_simps]: "fail_if c e k = Inr y \<longleftrightarrow> \<not> c \<and> k = Inr y"
  by (simp add: fail_if_def)

lemma fail_if_simps [simp, result_simps]:
  "fail_if True e k = Inl e" "fail_if False e k = k"
  by (simp_all add: fail_if_def)

text \<open>A row that has to be there.\<close>

fun require_some :: "model_error \<Rightarrow> 'a option \<Rightarrow> 'a result" where
  "require_some e None = Inl e"
| "require_some e (Some x) = Inr x"

lemma require_some_Inr_iff [simp, result_simps]: "require_some e r = Inr x \<longleftrightarrow> r = Some x"
  by (cases r) auto

lemma require_some_Inl_iff [simp, result_simps]: "require_some e r = Inl e' \<longleftrightarrow> r = None \<and> e' = e"
  by (cases r) auto

section \<open>Strings\<close>

fun has_prefix :: "string \<Rightarrow> string \<Rightarrow> bool" where
  "has_prefix s [] = True"
| "has_prefix [] (c # p) = False"
| "has_prefix (d # s) (c # p) = (d = c \<and> has_prefix s p)"

lemma has_prefix_iff: "has_prefix s p \<longleftrightarrow> (\<exists>r. s = p @ r)"
  by (induction s p rule: has_prefix.induct) auto

lemma has_prefix_take: "has_prefix s p \<Longrightarrow> s = p @ drop (length p) s"
  by (auto simp: has_prefix_iff)

text \<open>
  The UTF-8 encodings of the runes \<^verbatim>\<open>unicode.IsSpace\<close> accepts, which is what
  \<^verbatim>\<open>strings.TrimSpace\<close> removes at both ends.
\<close>

definition space_runes :: "string list" where
  "space_runes =
     [[CHR 0x20], [CHR 0x09], [CHR 0x0A], [CHR 0x0B], [CHR 0x0C], [CHR 0x0D],
      [CHR 0xC2, CHR 0x85], [CHR 0xC2, CHR 0xA0], [CHR 0xE1, CHR 0x9A, CHR 0x80],
      [CHR 0xE2, CHR 0x80, CHR 0x80], [CHR 0xE2, CHR 0x80, CHR 0x81], [CHR 0xE2, CHR 0x80, CHR 0x82],
      [CHR 0xE2, CHR 0x80, CHR 0x83], [CHR 0xE2, CHR 0x80, CHR 0x84], [CHR 0xE2, CHR 0x80, CHR 0x85],
      [CHR 0xE2, CHR 0x80, CHR 0x86], [CHR 0xE2, CHR 0x80, CHR 0x87], [CHR 0xE2, CHR 0x80, CHR 0x88],
      [CHR 0xE2, CHR 0x80, CHR 0x89], [CHR 0xE2, CHR 0x80, CHR 0x8A], [CHR 0xE2, CHR 0x80, CHR 0xA8],
      [CHR 0xE2, CHR 0x80, CHR 0xA9], [CHR 0xE2, CHR 0x80, CHR 0xAF], [CHR 0xE2, CHR 0x81, CHR 0x9F],
      [CHR 0xE3, CHR 0x80, CHR 0x80]]"

lemma space_runes_nonempty: "w \<in> set space_runes \<Longrightarrow> w \<noteq> []"
  by (auto simp: space_runes_def)

text \<open>\<open>strip ws s\<close> removes words of \<open>ws\<close> from the front as long as one of them is there.\<close>

function strip :: "string list \<Rightarrow> string \<Rightarrow> string" where
  "strip ws s =
     (case find (\<lambda>w. w \<noteq> [] \<and> has_prefix s w) ws of
        None \<Rightarrow> s
      | Some w \<Rightarrow> strip ws (drop (length w) s))"
  by pat_completeness auto
termination
  by (relation "measure (\<lambda>(ws, s). length s)") (auto simp: find_Some_iff has_prefix_iff)

declare strip.simps [simp del]

definition TrimSpace :: "string \<Rightarrow> string" where
  "TrimSpace s = rev (strip (map rev space_runes) (rev (strip space_runes s)))"

lemma find_in_set: "find P xs = Some x \<Longrightarrow> x \<in> set xs \<and> P x"
  by (induction xs) (auto split: if_splits)

text \<open>\<open>prefix_free ws\<close>: no word of \<open>ws\<close> starts with another one, so that a text has at most one
  decomposition into words.\<close>

definition prefix_free :: "string list \<Rightarrow> bool" where
  "prefix_free ws \<longleftrightarrow> list_all (\<lambda>u. u \<noteq> [] \<and> list_all (\<lambda>v. has_prefix u v \<longrightarrow> u = v) ws) ws"

definition strip_word :: "string list \<Rightarrow> string \<Rightarrow> string option" where
  "strip_word ws s = find (\<lambda>w. w \<noteq> [] \<and> has_prefix s w) ws"

lemma strip_word_None: "strip_word ws s = None \<Longrightarrow> strip ws s = s"
  by (subst strip.simps) (simp add: strip_word_def)

lemma strip_word_Some: "strip_word ws s = Some w \<Longrightarrow> strip ws s = strip ws (drop (length w) s)"
  by (subst strip.simps) (simp add: strip_word_def)

lemma strip_word_SomeD: "strip_word ws s = Some w \<Longrightarrow> w \<in> set ws \<and> w \<noteq> [] \<and> has_prefix s w"
  unfolding strip_word_def by (drule find_in_set) simp

lemma strip_word_NoneD: "strip_word ws s = None \<Longrightarrow> w \<in> set ws \<Longrightarrow> w \<noteq> [] \<Longrightarrow> \<not> has_prefix s w"
  by (auto simp: strip_word_def find_None_iff)

lemma strip_Nil [simp]: "strip ws [] = []"
proof (cases "strip_word ws []")
  case (Some w)
  then show ?thesis using strip_word_SomeD [OF Some] by (cases w) auto
qed (simp add: strip_word_None)

lemma strip_decompose: "\<exists>ps. set ps \<subseteq> set ws \<and> s = concat ps @ strip ws s"
proof (induction "length s" arbitrary: s rule: less_induct)
  case less
  show ?case
  proof (cases "strip_word ws s")
    case None
    then show ?thesis by (intro exI [of _ "[]"]) (simp add: strip_word_None)
  next
    case (Some w)
    note w = strip_word_SomeD [OF Some]
    then have len: "length (drop (length w) s) < length s" by (auto simp: has_prefix_iff)
    obtain ps where ps: "set ps \<subseteq> set ws"
      "drop (length w) s = concat ps @ strip ws (drop (length w) s)"
      using less [OF len] by blast
    have "s = w @ drop (length w) s" using w has_prefix_take by blast
    then have "s = concat (w # ps) @ strip ws s"
      using ps(2) strip_word_Some [OF Some] by (metis append.assoc concat.simps(2))
    then show ?thesis using ps(1) w by (intro exI [of _ "w # ps"]) simp
  qed
qed

lemma strip_no_prefix: "w \<in> set ws \<Longrightarrow> w \<noteq> [] \<Longrightarrow> \<not> has_prefix (strip ws s) w"
proof (induction "length s" arbitrary: s rule: less_induct)
  case less
  show ?case
  proof (cases "strip_word ws s")
    case None
    then show ?thesis using less.prems strip_word_NoneD strip_word_None by metis
  next
    case (Some v)
    have "length (drop (length v) s) < length s"
      using strip_word_SomeD [OF Some] by (auto simp: has_prefix_iff)
    from less.hyps [OF this less.prems] show ?thesis by (simp add: strip_word_Some [OF Some])
  qed
qed

lemma strip_blank: "prefix_free ws \<Longrightarrow> set ps \<subseteq> set ws \<Longrightarrow> strip ws (concat ps) = []"
proof (induction ps)
  case (Cons p ps)
  let ?s = "concat (p # ps)"
  have p: "p \<in> set ws" "p \<noteq> []" using Cons.prems by (auto simp: prefix_free_def list_all_iff)
  have "has_prefix ?s p" by (simp add: has_prefix_iff)
  then obtain w where w: "strip_word ws ?s = Some w"
    using p strip_word_NoneD by (cases "strip_word ws ?s") auto
  note wD = strip_word_SomeD [OF w]
  then have "has_prefix w p \<or> has_prefix p w"
    by (auto simp: has_prefix_iff append_eq_append_conv2)
  then have "w = p" using wD p Cons.prems(1) by (auto simp: prefix_free_def list_all_iff)
  then show ?case using Cons strip_word_Some [OF w] by simp
qed simp

lemma space_runes_prefix_free: "prefix_free space_runes"
  by (simp add: prefix_free_def space_runes_def)

lemma TrimSpace_blank: "TrimSpace s = [] \<longleftrightarrow> (\<exists>ps. set ps \<subseteq> set space_runes \<and> s = concat ps)"
proof
  assume "TrimSpace s = []"
  then obtain ps where ps: "set ps \<subseteq> set (map rev space_runes)" "rev (strip space_runes s) = concat ps"
    using strip_decompose [of "map rev space_runes" "rev (strip space_runes s)"]
    by (auto simp: TrimSpace_def)
  have "concat ps = []"
  proof (cases ps rule: rev_cases)
    case (snoc qs q)
    then obtain w where w: "q = rev w" "w \<in> set space_runes" using ps(1) by auto
    then have "strip space_runes s = w @ rev (concat qs)"
      using arg_cong [OF ps(2), of rev] snoc by simp
    then have "has_prefix (strip space_runes s) w" by (simp add: has_prefix_iff)
    then show ?thesis using strip_no_prefix [OF w(2)] space_runes_nonempty [OF w(2)] by simp
  qed simp
  with ps strip_decompose [of space_runes s]
  show "\<exists>ps. set ps \<subseteq> set space_runes \<and> s = concat ps" by auto
next
  assume "\<exists>ps. set ps \<subseteq> set space_runes \<and> s = concat ps"
  then have "strip space_runes s = []" using strip_blank [OF space_runes_prefix_free] by blast
  then show "TrimSpace s = []" by (simp add: TrimSpace_def)
qed

text \<open>\<open>split_on c s\<close> is \<^verbatim>\<open>strings.Split(s, c)\<close> for a one-byte separator.\<close>

fun split_on :: "char \<Rightarrow> string \<Rightarrow> string list" where
  "split_on c [] = [[]]"
| "split_on c (x # xs) =
     (if x = c then [] # split_on c xs
      else (case split_on c xs of [] \<Rightarrow> [[x]] | p # ps \<Rightarrow> (x # p) # ps))"

fun join_with :: "char \<Rightarrow> string list \<Rightarrow> string" where
  "join_with c [] = []"
| "join_with c [p] = p"
| "join_with c (p # ps) = p @ c # join_with c ps"

lemma split_on_not_Nil [simp]: "split_on c s \<noteq> []"
  by (induction s) (auto split: list.splits)

lemma join_split_on [simp]: "join_with c (split_on c s) = s"
proof (induction s)
  case (Cons x xs)
  obtain p ps where "split_on c xs = p # ps"
    using split_on_not_Nil by (cases "split_on c xs") auto
  with Cons.IH show ?case by (cases ps) auto
qed simp

lemma split_on_no_sep: "p \<in> set (split_on c s) \<Longrightarrow> c \<notin> set p"
proof (induction s arbitrary: p)
  case (Cons x xs)
  obtain q qs where "split_on c xs = q # qs"
    using split_on_not_Nil by (cases "split_on c xs") auto
  with Cons show ?case by (auto split: if_splits)
qed simp

lemma split_on_single: "c \<notin> set p \<Longrightarrow> split_on c p = [p]"
  by (induction p) auto

lemma split_on_append: "c \<notin> set p \<Longrightarrow> split_on c (p @ c # s) = p # split_on c s"
  by (induction p) auto

lemma split_join_with:
  "ps \<noteq> [] \<Longrightarrow> \<forall>p\<in>set ps. c \<notin> set p \<Longrightarrow> split_on c (join_with c ps) = ps"
  by (induction c ps rule: join_with.induct) (auto simp: split_on_single split_on_append)

text \<open>\<open>show_nat\<close> is the decimal text of a number, without leading zeros: \<^verbatim>\<open>strconv.Itoa\<close>.\<close>

fun show_nat :: "nat \<Rightarrow> string" where
  "show_nat n =
     (if n < 10 then [char_of (48 + n)] else show_nat (n div 10) @ [char_of (48 + n mod 10)])"

declare show_nat.simps [simp del]

section \<open>Loops that may fail\<close>

text \<open>A \<^verbatim>\<open>for\<close> loop over a slice that returns at the first error.\<close>

fun try_fold :: "('a \<Rightarrow> 's \<Rightarrow> 'e + 's) \<Rightarrow> 'a list \<Rightarrow> 's \<Rightarrow> 'e + 's" where
  "try_fold f [] s = Inr s"
| "try_fold f (x # xs) s = (case f x s of Inl e \<Rightarrow> Inl e | Inr s' \<Rightarrow> try_fold f xs s')"

lemma try_fold_cong [fundef_cong]:
  "\<lbrakk>xs = ys; s = t; \<And>x s. x \<in> set ys \<Longrightarrow> f x s = g x s\<rbrakk> \<Longrightarrow> try_fold f xs s = try_fold g ys t"
  by (induction ys arbitrary: xs s t) (auto split: sum.splits)

lemma try_fold_append:
  "try_fold f (xs @ ys) s = (case try_fold f xs s of Inl e \<Rightarrow> Inl e | Inr s' \<Rightarrow> try_fold f ys s')"
  by (induction xs arbitrary: s) (auto split: sum.splits)

lemma try_fold_invariant:
  assumes "try_fold f xs s = Inr s'" and "I s"
    and "\<And>x s s'. x \<in> set xs \<Longrightarrow> I s \<Longrightarrow> f x s = Inr s' \<Longrightarrow> I s'"
  shows "I s'"
  using assms
proof (induction xs arbitrary: s)
  case (Cons x xs)
  then obtain t where "f x s = Inr t" "try_fold f xs t = Inr s'" by (auto split: sum.splits)
  moreover have "I t" using Cons.prems(2,3) \<open>f x s = Inr t\<close> by auto
  ultimately show ?case using Cons.IH Cons.prems(3) by (meson list.set_intros(2))
qed simp

text \<open>A check of every element of a slice; the first failure is the result.\<close>

fun first_failure :: "('a \<Rightarrow> 'e option) \<Rightarrow> 'a list \<Rightarrow> 'e option" where
  "first_failure f [] = None"
| "first_failure f (x # xs) = (case f x of None \<Rightarrow> first_failure f xs | Some e \<Rightarrow> Some e)"

lemma first_failure_None_iff [simp]: "first_failure f xs = None \<longleftrightarrow> (\<forall>x\<in>set xs. f x = None)"
  by (induction xs) (auto split: option.splits)

section \<open>Tables\<close>

definition upd_where :: "('r \<Rightarrow> bool) \<Rightarrow> ('r \<Rightarrow> 'r) \<Rightarrow> 'r list \<Rightarrow> 'r list" where
  "upd_where P f rows = map (\<lambda>r. if P r then f r else r) rows"

lemma upd_where_Nil [simp, table_simps]: "upd_where P f [] = []"
  by (simp add: upd_where_def)

lemma upd_where_Cons [simp, table_simps]:
  "upd_where P f (r # rs) = (if P r then f r else r) # upd_where P f rs"
  by (simp add: upd_where_def)

lemma set_upd_where [table_simps]:
  "set (upd_where P f rows) = (\<lambda>r. if P r then f r else r) ` set rows"
  by (simp add: upd_where_def)

lemma in_upd_where:
  "r \<in> set (upd_where P f rows) \<longleftrightarrow> (\<exists>x\<in>set rows. r = (if P x then f x else x))"
  by (auto simp: upd_where_def)

lemma upd_where_intro: "x \<in> set rows \<Longrightarrow> (if P x then f x else x) \<in> set (upd_where P f rows)"
  by (auto simp: upd_where_def)

lemma length_upd_where [simp]: "length (upd_where P f rows) = length rows"
  by (simp add: upd_where_def)

lemma map_upd_where [table_simps]:
  "(\<And>r. P r \<Longrightarrow> k (f r) = k r) \<Longrightarrow> map k (upd_where P f rows) = map k rows"
  by (auto simp: upd_where_def)

lemma find_upd_where:
  "(\<And>r. P r \<Longrightarrow> Q (f r) = Q r) \<Longrightarrow>
   find Q (upd_where P f rows) = map_option (\<lambda>r. if P r then f r else r) (find Q rows)"
  by (induction rows) auto

text \<open>Rows with a unique key: at most one row for a key, and \<^const>\<open>find\<close> finds it.\<close>

lemma unique_key_eq: "distinct (map k rows) \<Longrightarrow> r \<in> set rows \<Longrightarrow> r' \<in> set rows \<Longrightarrow> k r = k r' \<Longrightarrow> r = r'"
  by (metis inj_onD distinct_map)

lemma find_unique_key:
  "distinct (map k rows) \<Longrightarrow> r \<in> set rows \<Longrightarrow> find (\<lambda>x. k x = k r) rows = Some r"
proof (induction rows)
  case (Cons a rows)
  then show ?case by (auto simp: image_iff)
qed simp

end
