(* ===== verification/SemVer.thy ===== *)
theory SemVer
  imports
    Prelude
    "HOL-Library.Word"
    "HOL-Library.Product_Lexorder"
begin

text \<open>
  Semantic versions: \<^verbatim>\<open>internal/moduleversions/semver.go\<close> and the digest check of
  \<^verbatim>\<open>internal/moduleversions/artifact.go\<close>.

  \<open>ParseVersion\<close> recognises the language of \<^verbatim>\<open>canonicalSemVerPattern\<close> by cutting at the first
  \<open>+\<close> and the first \<open>-\<close>; the pattern itself is transcribed as a regular expression
  (\<open>canonicalSemVerPattern\<close>) and the two are proved equal. \<open>Version_Compare\<close> follows the loop of
  \<^verbatim>\<open>Version.Compare\<close>; it is proved to be the comparison of a key in a linear order, which gives
  every ordering law through the locale \<open>comparison\<close>.
\<close>

type_synonym u64 = "64 word"
type_synonym go_error = string

section \<open>Decimal numbers\<close>

definition is_digit :: "char \<Rightarrow> bool" where
  "is_digit c \<longleftrightarrow> CHR ''0'' \<le> c \<and> c \<le> CHR ''9''"

definition digit_value :: "char \<Rightarrow> nat" where
  "digit_value c = of_char c - 48"

definition digits_value :: "string \<Rightarrow> nat" where
  "digits_value s = foldl (\<lambda>n c. 10 * n + digit_value c) 0 s"

text \<open>\<^verbatim>\<open>strconv.ParseUint(s, 10, 64)\<close>: \<open>None\<close> for its syntax and range errors.\<close>

definition ParseUint :: "string \<Rightarrow> u64 option" where
  "ParseUint s =
     (if s = [] \<or> \<not> list_all is_digit s then None
      else if digits_value s < 2 ^ 64 then Some (of_nat (digits_value s)) else None)"

section \<open>The canonical pattern\<close>

definition is_letter :: "char \<Rightarrow> bool" where
  "is_letter c \<longleftrightarrow> CHR ''A'' \<le> c \<and> c \<le> CHR ''Z'' \<or> CHR ''a'' \<le> c \<and> c \<le> CHR ''z''"

definition ident_char :: "char \<Rightarrow> bool" where
  "ident_char c \<longleftrightarrow> is_digit c \<or> is_letter c \<or> c = CHR ''-''"

fun is_numeric :: "string \<Rightarrow> bool" where
  "is_numeric [] = False"
| "is_numeric (c # cs) = (if c = CHR ''0'' then cs = [] else is_digit c \<and> list_all is_digit cs)"

definition is_alnum_ident :: "string \<Rightarrow> bool" where
  "is_alnum_ident s \<longleftrightarrow> list_all ident_char s \<and> list_ex (\<lambda>c. \<not> is_digit c) s"

definition is_pre_ident :: "string \<Rightarrow> bool" where
  "is_pre_ident s \<longleftrightarrow> is_numeric s \<or> is_alnum_ident s"

definition is_build_ident :: "string \<Rightarrow> bool" where
  "is_build_ident s \<longleftrightarrow> s \<noteq> [] \<and> list_all ident_char s"

text \<open>Cut at the first occurrence of a byte; \<open>None\<close> when it does not occur.\<close>

definition cut_at :: "char \<Rightarrow> string \<Rightarrow> string \<times> string option" where
  "cut_at c s =
     (takeWhile (\<lambda>x. x \<noteq> c) s,
      case dropWhile (\<lambda>x. x \<noteq> c) s of [] \<Rightarrow> None | _ # r \<Rightarrow> Some r)"

text \<open>
  \<open>semver_groups s\<close> is \<^verbatim>\<open>canonicalSemVerPattern.FindStringSubmatch(s)\<close>: the five groups, a group
  that did not take part being empty.
\<close>

definition semver_groups :: "string \<Rightarrow> (string list \<times> string \<times> string) option" where
  "semver_groups s =
     (let (front, build) = cut_at CHR ''+'' s;
          (core, pre) = cut_at CHR ''-'' front;
          nums = split_on CHR ''.'' core
      in if length nums = 3 \<and> list_all is_numeric nums
           \<and> (case pre of None \<Rightarrow> True | Some p \<Rightarrow> list_all is_pre_ident (split_on CHR ''.'' p))
           \<and> (case build of None \<Rightarrow> True | Some b \<Rightarrow> list_all is_build_ident (split_on CHR ''.'' b))
         then Some (nums, case_option [] id pre, case_option [] id build)
         else None)"

record Version =
  Major :: u64
  Minor :: u64
  Patch :: u64
  PreRelease :: "string list"
  Build :: "string list"
  raw :: string

definition ParseVersion :: "string \<Rightarrow> go_error + Version" where
  "ParseVersion value =
     (case semver_groups value of
        None \<Rightarrow> Inl ''not canonical Semantic Versioning''
      | Some (nums, pre, build) \<Rightarrow>
          (case map ParseUint nums of
             [Some major, Some minor, Some patch] \<Rightarrow>
               Inr \<lparr>Major = major, Minor = minor, Patch = patch,
                    PreRelease = (if pre \<noteq> [] then split_on CHR ''.'' pre else []),
                    Build = (if build \<noteq> [] then split_on CHR ''.'' build else []),
                    raw = value\<rparr>
           | _ \<Rightarrow> Inl ''invalid semantic version''))"

definition Version_String :: "Version \<Rightarrow> string" where
  "Version_String v = raw v"

section \<open>Precedence\<close>

definition cmp3 :: "'a::linorder \<Rightarrow> 'a \<Rightarrow> int" where
  "cmp3 a b = (if a < b then - 1 else if a > b then 1 else 0)"

definition compare_ident :: "string \<Rightarrow> string \<Rightarrow> int" where
  "compare_ident left right =
     (case (ParseUint left, ParseUint right) of
        (Some leftNumber, Some rightNumber) \<Rightarrow>
          if leftNumber < rightNumber then - 1 else if leftNumber > rightNumber then 1 else 0
      | (Some _, None) \<Rightarrow> - 1
      | (None, Some _) \<Rightarrow> 1
      | (None, None) \<Rightarrow> if left < right then - 1 else if left > right then 1 else 0)"

fun compare_pre :: "string list \<Rightarrow> string list \<Rightarrow> int" where
  "compare_pre [] [] = 0"
| "compare_pre [] (r # rs) = - 1"
| "compare_pre (l # ls) [] = 1"
| "compare_pre (l # ls) (r # rs) =
     (let c = compare_ident l r in if c \<noteq> 0 then c else compare_pre ls rs)"

fun compare_pairs :: "(u64 \<times> u64) list \<Rightarrow> int" where
  "compare_pairs [] = 0"
| "compare_pairs ((a, b) # ps) = (if a < b then - 1 else if a > b then 1 else compare_pairs ps)"

definition Version_Compare :: "Version \<Rightarrow> Version \<Rightarrow> int" where
  "Version_Compare v other =
     (let c = compare_pairs [(Major v, Major other), (Minor v, Minor other), (Patch v, Patch other)]
      in if c \<noteq> 0 then c
         else if PreRelease v = [] \<and> PreRelease other = [] then 0
         else if PreRelease v = [] then 1
         else if PreRelease other = [] then - 1
         else compare_pre (PreRelease v) (PreRelease other))"

section \<open>Artifact digests\<close>

definition is_lower_hex :: "char \<Rightarrow> bool" where
  "is_lower_hex c \<longleftrightarrow> is_digit c \<or> CHR ''a'' \<le> c \<and> c \<le> CHR ''f''"

definition ValidateArtifactDigest :: "string \<Rightarrow> go_error option" where
  "ValidateArtifactDigest value =
     (if has_prefix value ''sha256:'' \<and> length value = 71 \<and> list_all is_lower_hex (drop 7 value)
      then None
      else Some ''artifact digest must be sha256 followed by 64 lowercase hexadecimal characters'')"

text \<open>A version given by its fields, for concrete examples.\<close>

definition version_of :: "u64 \<Rightarrow> u64 \<Rightarrow> u64 \<Rightarrow> string list \<Rightarrow> Version" where
  "version_of a b c pre = \<lparr>Major = a, Minor = b, Patch = c, PreRelease = pre, Build = [], raw = []\<rparr>"

section \<open>The order laws\<close>

text \<open>A three-way comparison that behaves like the comparison of a linear preorder.\<close>

locale comparison =
  fixes cmp :: "'a \<Rightarrow> 'a \<Rightarrow> int"
  assumes cmp_values: "cmp a b \<in> {- 1, 0, 1}"
    and cmp_swap: "cmp b a = - cmp a b"
    and cmp_le_trans: "cmp a b \<le> 0 \<Longrightarrow> cmp b c \<le> 0 \<Longrightarrow> cmp a c \<le> 0"
begin

lemma cmp_refl: "cmp a a = 0"
  using cmp_swap [of a a] by simp

lemma cmp_total: "cmp a b \<le> 0 \<or> cmp b a \<le> 0"
  using cmp_swap [of a b] by linarith

lemma cmp_less_le_trans: "cmp a b < 0 \<Longrightarrow> cmp b c \<le> 0 \<Longrightarrow> cmp a c < 0"
proof (rule ccontr)
  assume ab: "cmp a b < 0" and bc: "cmp b c \<le> 0" and "\<not> cmp a c < 0"
  then have "cmp c a \<le> 0" using cmp_swap [of c a] by linarith
  with bc have "cmp b a \<le> 0" by (rule cmp_le_trans)
  with ab show False using cmp_swap [of a b] by linarith
qed

lemma cmp_le_less_trans: "cmp a b \<le> 0 \<Longrightarrow> cmp b c < 0 \<Longrightarrow> cmp a c < 0"
proof (rule ccontr)
  assume ab: "cmp a b \<le> 0" and bc: "cmp b c < 0" and "\<not> cmp a c < 0"
  then have "cmp c a \<le> 0" using cmp_swap [of c a] by linarith
  from this ab have "cmp c b \<le> 0" by (rule cmp_le_trans)
  with bc show False using cmp_swap [of b c] by linarith
qed

lemma cmp_greater_trans: "cmp a b > 0 \<Longrightarrow> cmp b c > 0 \<Longrightarrow> cmp a c > 0"
  using cmp_less_le_trans [of c b a] cmp_swap [of a b] cmp_swap [of b c] cmp_swap [of a c] by simp

lemma cmp_eq_trans: "cmp a b = 0 \<Longrightarrow> cmp b c = 0 \<Longrightarrow> cmp a c = 0"
  using cmp_le_trans [of a b c] cmp_le_trans [of c b a] cmp_swap [of a b] cmp_swap [of b c]
    cmp_swap [of a c] by linarith

end

lemma cmp3_key_comparison: "comparison (\<lambda>a b. cmp3 (f a) (f b))"
  by unfold_locales (auto simp: cmp3_def split: if_splits)

text \<open>
  The key of a version: the three numbers, then releases above prereleases, then the prerelease
  identifiers, numbers below words.
\<close>

type_synonym ident_key = "bool \<times> u64 \<times> string"

definition ident_key :: "string \<Rightarrow> ident_key" where
  "ident_key s = (case ParseUint s of Some n \<Rightarrow> (False, n, []) | None \<Rightarrow> (True, 0, s))"

definition precedence_key :: "Version \<Rightarrow> u64 \<times> u64 \<times> u64 \<times> bool \<times> ident_key list" where
  "precedence_key v =
     (Major v, Minor v, Patch v, PreRelease v = [], map ident_key (PreRelease v))"

lemma compare_ident_key: "compare_ident a b = cmp3 (ident_key a) (ident_key b)"
  by (auto simp: compare_ident_def ident_key_def cmp3_def split: option.splits)

lemma compare_pre_key: "compare_pre xs ys = cmp3 (map ident_key xs) (map ident_key ys)"
  by (induction xs ys rule: compare_pre.induct)
     (auto simp: cmp3_def compare_ident_key Let_def)

lemma compare_pairs_key:
  "compare_pairs [(a, a'), (b, b'), (c, c')] = cmp3 (a, b, c) (a', b', c')"
  by (auto simp: cmp3_def)

lemma Version_Compare_key: "Version_Compare v w = cmp3 (precedence_key v) (precedence_key w)"
proof (cases "(Major v, Minor v, Patch v) = (Major w, Minor w, Patch w)")
  case True
  then show ?thesis
    by (auto simp: Version_Compare_def Let_def compare_pre_key precedence_key_def cmp3_def)
next
  case False
  then show ?thesis
    by (auto simp: Version_Compare_def Let_def precedence_key_def cmp3_def)
qed

interpretation precedence: comparison Version_Compare
  using cmp3_key_comparison [of precedence_key] by (simp add: Version_Compare_key [abs_def])

section \<open>Decimal numerals and their values\<close>

lemma is_digit_iff: "is_digit c \<longleftrightarrow> 48 \<le> (of_char c :: nat) \<and> of_char c \<le> (57 :: nat)"
  by (simp add: is_digit_def less_eq_char_def)

lemma is_digit_value: "is_digit c \<Longrightarrow> digit_value c < 10 \<and> char_of (48 + digit_value c) = c"
  by (auto simp: is_digit_iff digit_value_def)

lemma digits_value_snoc: "digits_value (s @ [c]) = 10 * digits_value s + digit_value c"
  by (simp add: digits_value_def)

lemma is_num_digits: "is_numeric s \<Longrightarrow> s \<noteq> [] \<and> list_all is_digit s"
  by (cases s) (auto simp: is_digit_def split: if_splits)

lemma is_num_snoc: "is_numeric (s @ [c]) \<Longrightarrow> s \<noteq> [] \<Longrightarrow> is_numeric s \<and> s \<noteq> ''0'' \<and> is_digit c"
  by (cases s) (auto split: if_splits)

lemma of_char_zero_digit: "(of_char c :: nat) = 48 \<longleftrightarrow> c = CHR ''0''"
proof -
  have "(of_char CHR ''0'' :: nat) = 48" by simp
  then show ?thesis by (metis of_char_eq_iff)
qed

lemma digits_value_pos: "is_numeric s \<Longrightarrow> s \<noteq> ''0'' \<Longrightarrow> 0 < digits_value s"
proof (induction s rule: rev_induct)
  case (snoc c s)
  show ?case
  proof (cases "s = []")
    case True
    with snoc.prems have "is_digit c" "c \<noteq> CHR ''0''" by (auto split: if_splits)
    then have "0 < digit_value c"
      using of_char_zero_digit [of c] by (simp add: is_digit_iff digit_value_def)
    with True show ?thesis by (simp add: digits_value_def)
  next
    case False
    with snoc have "0 < digits_value s" using is_num_snoc by blast
    then show ?thesis by (simp add: digits_value_snoc)
  qed
qed simp

lemma show_digits_value: "is_numeric s \<Longrightarrow> show_nat (digits_value s) = s"
proof (induction s rule: rev_induct)
  case (snoc c s)
  show ?case
  proof (cases "s = []")
    case True
    with snoc.prems have "is_digit c" by (auto simp: is_digit_def split: if_splits)
    with True is_digit_value [of c] show ?thesis
      by (simp add: digits_value_def show_nat.simps)
  next
    case False
    with snoc.prems have s: "is_numeric s" "s \<noteq> ''0''" "is_digit c" using is_num_snoc by blast+
    then have pos: "0 < digits_value s" by (rule_tac digits_value_pos)
    from s is_digit_value have c: "digit_value c < 10" "char_of (48 + digit_value c) = c" by blast+
    from pos c have "show_nat (10 * digits_value s + digit_value c) =
        show_nat (digits_value s) @ [char_of (48 + digit_value c)]"
      by (subst show_nat.simps) simp
    with snoc.IH s c show ?thesis by (simp add: digits_value_snoc)
  qed
qed simp

lemma is_num_value_inj: "is_numeric a \<Longrightarrow> is_numeric b \<Longrightarrow> digits_value a = digits_value b \<Longrightarrow> a = b"
  using show_digits_value by metis

lemma ParseUint_num: "is_numeric s \<Longrightarrow> ParseUint s = Some n \<Longrightarrow> show_nat (unat n) = s"
  by (auto simp: ParseUint_def unat_of_nat take_bit_nat_eq_self show_digits_value split: if_splits)

lemma ParseUint_alnum: "is_alnum_ident s \<Longrightarrow> ParseUint s = None"
  by (auto simp: ParseUint_def is_alnum_ident_def list_ex_iff list_all_iff)

lemma ident_key_inj:
  "is_pre_ident a \<Longrightarrow> is_pre_ident b \<Longrightarrow> ident_key a = ident_key b \<Longrightarrow> a = b"
  by (auto simp: ident_key_def is_pre_ident_def split: option.splits
      dest: ParseUint_num ParseUint_alnum)

lemma map_ident_key_inj:
  "list_all is_pre_ident as \<Longrightarrow> list_all is_pre_ident bs \<Longrightarrow>
   map ident_key as = map ident_key bs \<Longrightarrow> as = bs"
proof (induction as arbitrary: bs)
  case (Cons a as)
  then show ?case by (cases bs) (auto dest: ident_key_inj)
qed simp

section \<open>What a parsed version looks like\<close>

lemma cut_at_cases:
  "(cut_at c s = (a, None) \<longleftrightarrow> s = a \<and> c \<notin> set a)
   \<and> (cut_at c s = (a, Some r) \<longleftrightarrow> s = a @ c # r \<and> c \<notin> set a)"
proof (induction s arbitrary: a)
  case (Cons x xs)
  show ?case
  proof (cases "x = c")
    case True
    then show ?thesis by (cases a) (auto simp: cut_at_def)
  next
    case False
    then have "cut_at c (x # xs) = (x # fst (cut_at c xs), snd (cut_at c xs))"
      by (simp add: cut_at_def)
    with False Cons show ?thesis
      by (cases a) (auto simp: prod_eq_iff)
  qed
qed (auto simp: cut_at_def)

lemmas cut_at_None = cut_at_cases [THEN conjunct1]
lemmas cut_at_Some = cut_at_cases [THEN conjunct2]

definition opt_part :: "char \<Rightarrow> string option \<Rightarrow> string" where
  "opt_part c p = (case p of None \<Rightarrow> [] | Some r \<Rightarrow> c # r)"

lemma cut_at_iff: "cut_at c s = (a, p) \<longleftrightarrow> s = a @ opt_part c p \<and> c \<notin> set a"
  by (cases p) (auto simp: cut_at_None cut_at_Some opt_part_def)

text \<open>The pattern as a grammar: three numbers, a prerelease, a build.\<close>

definition semver_shape :: "string \<Rightarrow> string list \<Rightarrow> string option \<Rightarrow> string option \<Rightarrow> bool" where
  "semver_shape s nums pre build \<longleftrightarrow>
     s = join_with CHR ''.'' nums @ opt_part CHR ''-'' pre @ opt_part CHR ''+'' build
     \<and> length nums = 3 \<and> list_all is_numeric nums
     \<and> (\<forall>p. pre = Some p \<longrightarrow> list_all is_pre_ident (split_on CHR ''.'' p))
     \<and> (\<forall>b. build = Some b \<longrightarrow> list_all is_build_ident (split_on CHR ''.'' b))"

lemma is_pre_ident_chars: "is_pre_ident s \<Longrightarrow> s \<noteq> [] \<and> list_all ident_char s"
  by (auto simp: is_pre_ident_def is_alnum_ident_def ident_char_def list_all_iff dest: is_num_digits)

lemma set_join_with: "set (join_with c ps) \<subseteq> insert c (\<Union> (set ` set ps))"
  by (induction c ps rule: join_with.induct) auto

lemma set_split_parts: "set s \<subseteq> insert c (\<Union> (set ` set (split_on c s)))"
  using set_join_with [of c "split_on c s"] by simp

lemma core_chars:
  assumes "list_all is_numeric nums" and "x \<in> set (join_with CHR ''.'' nums)"
  shows "is_digit x \<or> x = CHR ''.''"
  using assms set_join_with [of "CHR ''.''" nums]
  by (fastforce simp: list_all_iff dest: is_num_digits)

lemma pre_chars:
  assumes "list_all is_pre_ident (split_on CHR ''.'' p)" and "x \<in> set p"
  shows "ident_char x \<or> x = CHR ''.''"
  using assms set_split_parts [of p "CHR ''.''"]
  by (fastforce simp: list_all_iff dest: is_pre_ident_chars)

lemma plain_chars:
  "\<not> is_digit CHR ''+''" "\<not> is_digit CHR ''-''" "\<not> ident_char CHR ''+''" "\<not> is_digit CHR ''.''"
  "\<not> ident_char CHR ''.''"
  by (simp_all add: is_digit_def ident_char_def is_letter_def)

lemma shape_cuts:
  assumes "semver_shape s nums pre build"
  shows "cut_at CHR ''+'' s = (join_with CHR ''.'' nums @ opt_part CHR ''-'' pre, build)"
    and "cut_at CHR ''-'' (join_with CHR ''.'' nums @ opt_part CHR ''-'' pre) =
         (join_with CHR ''.'' nums, pre)"
    and "split_on CHR ''.'' (join_with CHR ''.'' nums) = nums"
proof -
  let ?core = "join_with CHR ''.'' nums"
  from assms have nums: "list_all is_numeric nums" by (simp add: semver_shape_def)
  then have "CHR ''+'' \<notin> set ?core" "CHR ''-'' \<notin> set ?core"
    using core_chars plain_chars by (auto dest!: core_chars)
  moreover have "CHR ''+'' \<notin> set (opt_part CHR ''-'' pre)"
    using assms plain_chars by (auto simp: semver_shape_def opt_part_def split: option.splits dest: pre_chars)
  ultimately show "cut_at CHR ''+'' s = (?core @ opt_part CHR ''-'' pre, build)"
    and "cut_at CHR ''-'' (?core @ opt_part CHR ''-'' pre) = (?core, pre)"
    using assms by (simp_all add: cut_at_iff semver_shape_def)
  show "split_on CHR ''.'' ?core = nums"
  proof (rule split_join_with)
    show "nums \<noteq> []" using assms by (auto simp: semver_shape_def)
    show "\<forall>p\<in>set nums. CHR ''.'' \<notin> set p"
      using nums plain_chars by (fastforce simp: list_all_iff dest: is_num_digits)
  qed
qed

lemma semver_groups_shape:
  "semver_groups s = Some (nums, pre, build) \<longleftrightarrow>
     (\<exists>p b. semver_shape s nums p b \<and> pre = case_option [] id p \<and> build = case_option [] id b)"
  (is "?L \<longleftrightarrow> ?R")
proof
  assume ?L
  obtain front b where f: "cut_at CHR ''+'' s = (front, b)" by fastforce
  obtain core p where c: "cut_at CHR ''-'' front = (core, p)" by fastforce
  from f c have "s = join_with CHR ''.'' (split_on CHR ''.'' core) @ opt_part CHR ''-'' p @ opt_part CHR ''+'' b"
    by (simp add: cut_at_iff)
  with \<open>?L\<close> f c have "semver_shape s nums p b \<and> pre = case_option [] id p \<and> build = case_option [] id b"
    by (auto simp: semver_groups_def semver_shape_def Let_def split: if_splits option.splits)
  then show ?R by blast
next
  assume ?R
  then obtain p b where sh: "semver_shape s nums p b"
    and "pre = case_option [] id p" "build = case_option [] id b" by blast
  with shape_cuts [OF sh] show ?L
    by (auto simp: semver_groups_def Let_def semver_shape_def split: option.splits)
qed

section \<open>The regular expression of the source\<close>

datatype rexp = Eps | Cls "char \<Rightarrow> bool" | Seq rexp rexp | Alt rexp rexp | Star rexp

inductive matches :: "rexp \<Rightarrow> string \<Rightarrow> bool" where
  match_eps: "matches Eps []"
| match_cls: "P c \<Longrightarrow> matches (Cls P) [c]"
| match_seq: "matches r u \<Longrightarrow> matches q v \<Longrightarrow> matches (Seq r q) (u @ v)"
| match_left: "matches r u \<Longrightarrow> matches (Alt r q) u"
| match_right: "matches q u \<Longrightarrow> matches (Alt r q) u"
| match_stop: "matches (Star r) []"
| match_more: "matches r u \<Longrightarrow> matches (Star r) v \<Longrightarrow> matches (Star r) (u @ v)"

inductive_simps matches_simps [simp]:
  "matches Eps s" "matches (Cls P) s" "matches (Alt r q) s"
inductive_simps matches_Seq: "matches (Seq r q) s"
inductive_cases matches_SeqE: "matches (Seq r q) s"
inductive_cases matches_ClsE: "matches (Cls P) s"

lemma matches_Seq_cls [simp]:
  "matches (Seq (Cls P) r) s \<longleftrightarrow> (\<exists>c u. s = c # u \<and> P c \<and> matches r u)"
proof
  show "matches (Seq (Cls P) r) s \<Longrightarrow> \<exists>c u. s = c # u \<and> P c \<and> matches r u"
    by (auto simp: matches_Seq)
  show "\<exists>c u. s = c # u \<and> P c \<and> matches r u \<Longrightarrow> matches (Seq (Cls P) r) s"
    using match_seq [of "Cls P" "[c]" r for c] by auto
qed

abbreviation Lit :: "char \<Rightarrow> rexp" where
  "Lit c \<equiv> Cls (\<lambda>x. x = c)"

abbreviation Optional :: "rexp \<Rightarrow> rexp" where
  "Optional r \<equiv> Alt r Eps"

definition num_re :: rexp where
  "num_re = Alt (Lit CHR ''0'') (Seq (Cls (\<lambda>c. is_digit c \<and> c \<noteq> CHR ''0'')) (Star (Cls is_digit)))"

definition pre_ident_re :: rexp where
  "pre_ident_re =
     Alt num_re
       (Seq (Star (Cls is_digit))
         (Seq (Cls (\<lambda>c. is_letter c \<or> c = CHR ''-'')) (Star (Cls ident_char))))"

definition build_ident_re :: rexp where
  "build_ident_re = Seq (Cls ident_char) (Star (Cls ident_char))"

definition dotted_re :: "rexp \<Rightarrow> rexp" where
  "dotted_re r = Seq r (Star (Seq (Lit CHR ''.'') r))"

definition canonicalSemVerPattern :: rexp where
  "canonicalSemVerPattern =
     Seq num_re (Seq (Lit CHR ''.'') (Seq num_re (Seq (Lit CHR ''.'') (Seq num_re
       (Seq (Optional (Seq (Lit CHR ''-'') (dotted_re pre_ident_re)))
            (Optional (Seq (Lit CHR ''+'') (dotted_re build_ident_re))))))))"

lemma matches_star_cls [simp]: "matches (Star (Cls P)) s \<longleftrightarrow> list_all P s"
proof
  show "matches (Star (Cls P)) s \<Longrightarrow> list_all P s"
    by (induction "Star (Cls P)" s rule: matches.induct) auto
  show "list_all P s \<Longrightarrow> matches (Star (Cls P)) s"
  proof (induction s)
    case (Cons c s)
    then have "matches (Star (Cls P)) ([c] @ s)" by (intro match_more match_cls) auto
    then show ?case by simp
  qed (rule match_stop)
qed

lemma matches_num: "matches num_re s \<longleftrightarrow> is_numeric s"
proof -
  have "matches num_re s \<longleftrightarrow>
      s = ''0'' \<or> (\<exists>c u. s = c # u \<and> is_digit c \<and> c \<noteq> CHR ''0'' \<and> list_all is_digit u)"
    by (auto simp: num_re_def)
  also have "\<dots> \<longleftrightarrow> is_numeric s" by (cases s) auto
  finally show ?thesis .
qed

lemma is_alnum_ident_split:
  "is_alnum_ident s \<longleftrightarrow>
     (\<exists>u c v. s = u @ c # v \<and> list_all is_digit u \<and> (is_letter c \<or> c = CHR ''-'') \<and> list_all ident_char v)"
  (is "?L \<longleftrightarrow> ?R")
proof
  assume ?L
  then have "\<exists>c \<in> set s. \<not> is_digit c" by (auto simp: is_alnum_ident_def list_ex_iff)
  then obtain u c v where "s = u @ c # v" "\<not> is_digit c" "\<forall>x\<in>set u. is_digit x"
    using split_list_first_prop [of s "\<lambda>c. \<not> is_digit c"] by auto
  with \<open>?L\<close> show ?R
    by (intro exI [of _ u] exI [of _ c] exI [of _ v]) (auto simp: is_alnum_ident_def ident_char_def list_all_iff)
next
  assume ?R
  then obtain u c v where s: "s = u @ c # v" "list_all is_digit u" "list_all ident_char v"
    and c: "is_letter c \<or> c = CHR ''-''" by blast
  from c have "\<not> is_digit c" by (auto simp: is_letter_def is_digit_def less_eq_char_def)
  with s c show ?L by (auto simp: is_alnum_ident_def ident_char_def list_all_iff)
qed

lemma matches_pre_ident: "matches pre_ident_re s \<longleftrightarrow> is_pre_ident s"
proof -
  let ?word = "Seq (Cls (\<lambda>c. is_letter c \<or> c = CHR ''-'')) (Star (Cls ident_char))"
  have word: "matches ?word v \<longleftrightarrow>
      (\<exists>c w. v = c # w \<and> (is_letter c \<or> c = CHR ''-'') \<and> list_all ident_char w)" for v
    by simp
  have "matches (Seq (Star (Cls is_digit)) ?word) s \<longleftrightarrow> is_alnum_ident s"
  proof
    assume "matches (Seq (Star (Cls is_digit)) ?word) s"
    then obtain u v where "s = u @ v" "list_all is_digit u" "matches ?word v"
      by (auto simp: matches_Seq [of "Star (Cls is_digit)"] simp del: matches_Seq_cls)
    then show "is_alnum_ident s" unfolding is_alnum_ident_split word by auto
  next
    assume "is_alnum_ident s"
    then obtain u c v where s: "s = u @ c # v" "list_all is_digit u"
      and v: "is_letter c \<or> c = CHR ''-''" "list_all ident_char v"
      unfolding is_alnum_ident_split by auto
    have "matches ?word (c # v)" unfolding word using v by simp
    with s match_seq [of "Star (Cls is_digit)" u ?word "c # v"]
    show "matches (Seq (Star (Cls is_digit)) ?word) s" by (simp del: matches_Seq_cls)
  qed
  then show ?thesis
    by (simp add: pre_ident_re_def is_pre_ident_def matches_num del: matches_Seq_cls)
qed

lemma matches_build_ident: "matches build_ident_re s \<longleftrightarrow> is_build_ident s"
  by (cases s) (auto simp: build_ident_re_def is_build_ident_def)

lemma matches_dot_star:
  assumes P: "\<And>s. matches r s \<longleftrightarrow> P s" and nodot: "\<And>s. P s \<Longrightarrow> CHR ''.'' \<notin> set s"
  shows "matches (Star (Seq (Lit CHR ''.'') r)) s \<longleftrightarrow>
    s = [] \<or> (\<exists>t. s = CHR ''.'' # t \<and> list_all P (split_on CHR ''.'' t))"
proof
  show "matches (Star (Seq (Lit CHR ''.'') r)) s \<Longrightarrow>
    s = [] \<or> (\<exists>t. s = CHR ''.'' # t \<and> list_all P (split_on CHR ''.'' t))"
    by (induction "Star (Seq (Lit CHR ''.'') r)" s rule: matches.induct)
       (auto simp: P split_on_append split_on_single nodot)
  have step: "matches (Star (Seq (Lit CHR ''.'') r)) (CHR ''.'' # p @ v)"
    if "P p" "matches (Star (Seq (Lit CHR ''.'') r)) v" for p v
    using match_more [of "Seq (Lit CHR ''.'') r" "CHR ''.'' # p" v] that P by simp
  have "list_all P ps \<Longrightarrow> ps \<noteq> [] \<Longrightarrow>
    matches (Star (Seq (Lit CHR ''.'') r)) (CHR ''.'' # join_with CHR ''.'' ps)" for ps
  proof (induction "CHR ''.''" ps rule: join_with.induct)
    case (2 p)
    with step [of p "[]"] match_stop show ?case by simp
  next
    case (3 p q qs)
    with step [of p "CHR ''.'' # join_with CHR ''.'' (q # qs)"] show ?case by simp
  qed simp
  from this [of "split_on CHR ''.'' (tl s)"]
  show "s = [] \<or> (\<exists>t. s = CHR ''.'' # t \<and> list_all P (split_on CHR ''.'' t)) \<Longrightarrow>
    matches (Star (Seq (Lit CHR ''.'') r)) s"
    by (auto intro: match_stop)
qed

lemma matches_dotted:
  assumes P: "\<And>s. matches r s \<longleftrightarrow> P s" and nodot: "\<And>s. P s \<Longrightarrow> CHR ''.'' \<notin> set s"
  shows "matches (dotted_re r) s \<longleftrightarrow> list_all P (split_on CHR ''.'' s)"
proof
  assume "matches (dotted_re r) s"
  then show "list_all P (split_on CHR ''.'' s)"
    by (auto simp: dotted_re_def matches_Seq [of r] P matches_dot_star [OF P nodot] split_on_single
        split_on_append nodot)
next
  assume all: "list_all P (split_on CHR ''.'' s)"
  obtain p ps where ps: "split_on CHR ''.'' s = p # ps"
    using split_on_not_Nil by (cases "split_on CHR ''.'' s") auto
  have sep: "\<forall>q\<in>set (p # ps). CHR ''.'' \<notin> set q" using split_on_no_sep ps by metis
  have s: "s = p @ (if ps = [] then [] else CHR ''.'' # join_with CHR ''.'' ps)"
    using ps join_split_on [of "CHR ''.''" s] by (cases ps) auto
  have "matches (Star (Seq (Lit CHR ''.'') r)) (if ps = [] then [] else CHR ''.'' # join_with CHR ''.'' ps)"
    using all ps sep by (auto simp: matches_dot_star [OF P nodot] split_join_with)
  moreover have "P p" using all ps by simp
  ultimately show "matches (dotted_re r) s"
    unfolding dotted_re_def using s P match_seq by metis
qed

lemma nodot_idents: "is_pre_ident s \<Longrightarrow> CHR ''.'' \<notin> set s" "is_build_ident s \<Longrightarrow> CHR ''.'' \<notin> set s"
  using plain_chars by (auto simp: is_build_ident_def list_all_iff dest!: is_pre_ident_chars)

lemma matches_optional_dotted:
  assumes "\<And>s. matches r s \<longleftrightarrow> P s" and "\<And>s. P s \<Longrightarrow> CHR ''.'' \<notin> set s"
  shows "matches (Optional (Seq (Lit c) (dotted_re r))) s \<longleftrightarrow>
    (\<exists>p. s = opt_part c p \<and> (\<forall>t. p = Some t \<longrightarrow> list_all P (split_on CHR ''.'' t)))"
  by (auto simp: matches_dotted [OF assms] opt_part_def split: option.splits) 

lemmas matches_pre_part = matches_optional_dotted [OF matches_pre_ident nodot_idents(1)]
lemmas matches_build_part = matches_optional_dotted [OF matches_build_ident nodot_idents(2)]

lemma length3_iff: "length xs = 3 \<longleftrightarrow> (\<exists>a b c. xs = [a, b, c])"
  by (auto simp: numeral_3_eq_3 length_Suc_conv)

lemma pattern_shape:
  "matches canonicalSemVerPattern s \<longleftrightarrow> (\<exists>nums p b. semver_shape s nums p b)" (is "?L \<longleftrightarrow> ?R")
proof
  assume ?L
  then obtain a b c p q where "matches num_re a" "matches num_re b" "matches num_re c"
    and pq: "matches (Optional (Seq (Lit CHR ''-'') (dotted_re pre_ident_re))) p"
      "matches (Optional (Seq (Lit CHR ''+'') (dotted_re build_ident_re))) q"
    and s: "s = a @ CHR ''.'' # b @ CHR ''.'' # c @ p @ q"
    unfolding canonicalSemVerPattern_def
    by (elim matches_SeqE matches_ClsE) (simp del: matches_simps)
  then have "list_all is_numeric [a, b, c]" by (simp add: matches_num)
  moreover obtain po qo where "p = opt_part CHR ''-'' po" "q = opt_part CHR ''+'' qo"
    "\<forall>t. po = Some t \<longrightarrow> list_all is_pre_ident (split_on CHR ''.'' t)"
    "\<forall>t. qo = Some t \<longrightarrow> list_all is_build_ident (split_on CHR ''.'' t)"
    using pq by (auto simp: matches_pre_part matches_build_part simp del: matches_simps(3))
  ultimately have "semver_shape s [a, b, c] po qo" using s by (simp add: semver_shape_def)
  then show ?R by blast
next
  assume ?R
  then obtain a b c p q where sh: "semver_shape s [a, b, c] p q"
    by (auto simp: semver_shape_def length3_iff)
  then have "matches num_re a" "matches num_re b" "matches num_re c"
    by (simp_all add: semver_shape_def matches_num)
  moreover have "matches (Optional (Seq (Lit CHR ''-'') (dotted_re pre_ident_re))) (opt_part CHR ''-'' p)"
    using sh by (intro iffD2 [OF matches_pre_part]) (auto simp: semver_shape_def)
  moreover have "matches (Optional (Seq (Lit CHR ''+'') (dotted_re build_ident_re))) (opt_part CHR ''+'' q)"
    using sh by (intro iffD2 [OF matches_build_part]) (auto simp: semver_shape_def)
  ultimately have "matches canonicalSemVerPattern
      (a @ [CHR ''.''] @ b @ [CHR ''.''] @ c @ opt_part CHR ''-'' p @ opt_part CHR ''+'' q)"
    unfolding canonicalSemVerPattern_def by (intro match_seq match_cls) auto
  with sh show ?L by (simp add: semver_shape_def)
qed

section \<open>Parsing\<close>

definition core_numbers :: "string \<Rightarrow> string list" where
  "core_numbers s = split_on CHR ''.'' (fst (cut_at CHR ''-'' (fst (cut_at CHR ''+'' s))))"

lemma shape_core_numbers: "semver_shape s nums p b \<Longrightarrow> core_numbers s = nums"
  by (simp add: core_numbers_def shape_cuts)

lemma ParseUint_is_num: "is_numeric s \<Longrightarrow> ParseUint s \<noteq> None \<longleftrightarrow> digits_value s < 2 ^ 64"
  by (auto simp: ParseUint_def dest: is_num_digits)

lemma split_nonempty_part: "list_all P (split_on c p) \<Longrightarrow> \<not> P [] \<Longrightarrow> p \<noteq> []"
  by (cases p) auto

lemma ParseVersion_groups:
  assumes "semver_groups s = Some ([a, b, c], pre, build)"
  shows "ParseVersion s = Inr v \<longleftrightarrow>
    ParseUint a = Some (Major v) \<and> ParseUint b = Some (Minor v) \<and> ParseUint c = Some (Patch v)
    \<and> PreRelease v = (if pre \<noteq> [] then split_on CHR ''.'' pre else [])
    \<and> Build v = (if build \<noteq> [] then split_on CHR ''.'' build else []) \<and> raw v = s"
  by (cases v; cases "ParseUint a"; cases "ParseUint b"; cases "ParseUint c")
     (auto simp add: ParseVersion_def assms)

lemma ParseVersion_Inr:
  "ParseVersion s = Inr v \<longleftrightarrow>
     (\<exists>a b c p q. semver_shape s [a, b, c] p q
        \<and> ParseUint a = Some (Major v) \<and> ParseUint b = Some (Minor v) \<and> ParseUint c = Some (Patch v)
        \<and> PreRelease v = (case p of None \<Rightarrow> [] | Some t \<Rightarrow> split_on CHR ''.'' t)
        \<and> Build v = (case q of None \<Rightarrow> [] | Some t \<Rightarrow> split_on CHR ''.'' t)
        \<and> raw v = s)" (is "?L \<longleftrightarrow> ?R")
proof -
  have nonempty: "p \<noteq> Some []" "q \<noteq> Some []" if "semver_shape s nums p q" for nums p q
    using that by (auto simp: semver_shape_def is_pre_ident_def is_alnum_ident_def is_build_ident_def)
  show ?thesis
  proof
    assume ?L
    then obtain nums pre build where g: "semver_groups s = Some (nums, pre, build)"
      by (auto simp: ParseVersion_def split: option.splits)
    then obtain p q where sh: "semver_shape s nums p q"
      and pq: "pre = case_option [] id p" "build = case_option [] id q"
      using semver_groups_shape by blast
    then obtain a b c where "nums = [a, b, c]" by (auto simp: semver_shape_def length3_iff)
    with \<open>?L\<close> g sh pq nonempty [OF sh] show ?R
      by (intro exI [of _ a] exI [of _ b] exI [of _ c] exI [of _ p] exI [of _ q])
         (cases p; cases q; simp add: ParseVersion_groups)
  next
    assume ?R
    then obtain a b c p q where sh: "semver_shape s [a, b, c] p q"
      and rest: "ParseUint a = Some (Major v)" "ParseUint b = Some (Minor v)" "ParseUint c = Some (Patch v)"
        "PreRelease v = (case p of None \<Rightarrow> [] | Some t \<Rightarrow> split_on CHR ''.'' t)"
        "Build v = (case q of None \<Rightarrow> [] | Some t \<Rightarrow> split_on CHR ''.'' t)" "raw v = s" by blast
    then have "semver_groups s = Some ([a, b, c], case_option [] id p, case_option [] id q)"
      using semver_groups_shape by blast
    with rest nonempty [OF sh] show ?L
      by (cases p; cases q; simp add: ParseVersion_groups)
  qed
qed

lemma ParseVersion_idents:
  "ParseVersion s = Inr v \<Longrightarrow> list_all is_pre_ident (PreRelease v) \<and> raw v = s"
  by (auto simp: ParseVersion_Inr semver_shape_def split: option.splits)

text \<open>The text of a version from its fields.\<close>

definition render_version :: "Version \<Rightarrow> string" where
  "render_version v =
     show_nat (unat (Major v)) @ CHR ''.'' # show_nat (unat (Minor v)) @ CHR ''.'' # show_nat (unat (Patch v))
     @ (if PreRelease v = [] then [] else CHR ''-'' # join_with CHR ''.'' (PreRelease v))
     @ (if Build v = [] then [] else CHR ''+'' # join_with CHR ''.'' (Build v))"

text \<open>
  The order of Semantic Versioning 2.0.0, paragraph 11, in the words of the specification:
  numeric identifiers compare as unbounded numbers and come below the others, the others compare
  as ASCII text, and a longer list of fields is higher when all the earlier fields are equal.
\<close>

definition numeric_ident :: "string \<Rightarrow> bool" where
  "numeric_ident s \<longleftrightarrow> list_all is_digit s"

definition ident_precedes :: "string \<Rightarrow> string \<Rightarrow> bool" where
  "ident_precedes l r =
     (if numeric_ident l \<and> numeric_ident r then digits_value l < digits_value r
      else if numeric_ident l then True
      else if numeric_ident r then False
      else l < r)"

fun idents_precede :: "string list \<Rightarrow> string list \<Rightarrow> bool" where
  "idents_precede ls [] = False"
| "idents_precede [] (r # rs) = True"
| "idents_precede (l # ls) (r # rs) = (ident_precedes l r \<or> l = r \<and> idents_precede ls rs)"

definition semver_precedes :: "Version \<Rightarrow> Version \<Rightarrow> bool" where
  "semver_precedes v w \<longleftrightarrow>
     (Major v, Minor v, Patch v) < (Major w, Minor w, Patch w)
     \<or> (Major v, Minor v, Patch v) = (Major w, Minor w, Patch w)
        \<and> (PreRelease v \<noteq> [] \<and> PreRelease w = []
           \<or> PreRelease v \<noteq> [] \<and> PreRelease w \<noteq> [] \<and> idents_precede (PreRelease v) (PreRelease w))"

definition idents_fit :: "Version \<Rightarrow> bool" where
  "idents_fit v \<longleftrightarrow>
     list_all (\<lambda>i. \<not> numeric_ident i \<or> digits_value i < 2 ^ 64) (PreRelease v)"

lemma numeric_pre_ident: "is_pre_ident s \<Longrightarrow> numeric_ident s \<longleftrightarrow> is_numeric s"
  by (auto simp: numeric_ident_def is_pre_ident_def is_alnum_ident_def list_ex_iff list_all_iff
      dest: is_num_digits)

lemma ParseUint_fit:
  assumes "is_pre_ident s" and "\<not> numeric_ident s \<or> digits_value s < 2 ^ 64"
  shows "ParseUint s = (if numeric_ident s then Some (of_nat (digits_value s)) else None)"
proof -
  from assms have "s \<noteq> []" using is_pre_ident_chars by blast
  with assms show ?thesis by (auto simp: ParseUint_def numeric_ident_def)
qed

lemma of_nat_less_u64:
  "m < 2 ^ 64 \<Longrightarrow> n < 2 ^ 64 \<Longrightarrow> (of_nat m :: u64) < of_nat n \<longleftrightarrow> m < n"
  by (simp add: word_less_nat_alt unat_of_nat take_bit_nat_eq_self)

lemma ident_key_less:
  assumes "is_pre_ident a" "is_pre_ident b"
    and "\<not> numeric_ident a \<or> digits_value a < 2 ^ 64" "\<not> numeric_ident b \<or> digits_value b < 2 ^ 64"
  shows "ident_key a < ident_key b \<longleftrightarrow> ident_precedes a b"
  using assms by (auto simp: ident_key_def ParseUint_fit ident_precedes_def of_nat_less_u64)

lemma idents_key_less:
  assumes "list_all is_pre_ident as" "list_all is_pre_ident bs"
    and "list_all (\<lambda>i. \<not> numeric_ident i \<or> digits_value i < 2 ^ 64) as"
    and "list_all (\<lambda>i. \<not> numeric_ident i \<or> digits_value i < 2 ^ 64) bs"
  shows "map ident_key as < map ident_key bs \<longleftrightarrow> idents_precede as bs"
  using assms
proof (induction as bs rule: idents_precede.induct)
  case (3 l ls r rs)
  then have "ident_key l = ident_key r \<longleftrightarrow> l = r" by (auto dest: ident_key_inj)
  with 3 show ?case by (auto simp: ident_key_less)
qed auto

text \<open>Evaluation of the parser and the comparison on literals.\<close>

lemmas semver_eval =
  ParseVersion_def semver_groups_def cut_at_def ParseUint_def digits_value_def digit_value_def
  is_digit_def is_letter_def ident_char_def is_alnum_ident_def is_pre_ident_def is_build_ident_def
  Version_Compare_def compare_ident_def Let_def

section \<open>Properties\<close>

text \<open>
  \<^verbatim>\<open>ParseVersion\<close> accepts exactly the strings that the regular expression
  \<^verbatim>\<open>canonicalSemVerPattern\<close> matches and whose three numbers fit in 64 bits.
\<close>

theorem ParseVersion_accepts_pattern:
  "(\<exists>v. ParseVersion s = Inr v) \<longleftrightarrow>
     matches canonicalSemVerPattern s \<and> list_all (\<lambda>n. digits_value n < 2 ^ 64) (core_numbers s)"
proof -
  have "(\<exists>v. ParseVersion s = Inr v) \<longleftrightarrow>
      (\<exists>a b c p q. semver_shape s [a, b, c] p q
         \<and> ParseUint a \<noteq> None \<and> ParseUint b \<noteq> None \<and> ParseUint c \<noteq> None)" (is "_ \<longleftrightarrow> ?fits")
  proof
    assume ?fits
    then obtain a b c p q i j k where "semver_shape s [a, b, c] p q"
      "ParseUint a = Some i" "ParseUint b = Some j" "ParseUint c = Some k" by blast
    then have "ParseVersion s = Inr \<lparr>Major = i, Minor = j, Patch = k,
        PreRelease = (case p of None \<Rightarrow> [] | Some t \<Rightarrow> split_on CHR ''.'' t),
        Build = (case q of None \<Rightarrow> [] | Some t \<Rightarrow> split_on CHR ''.'' t), raw = s\<rparr>"
      unfolding ParseVersion_Inr
      by (intro exI [of _ a] exI [of _ b] exI [of _ c] exI [of _ p] exI [of _ q]) simp
    then show "\<exists>v. ParseVersion s = Inr v" by blast
  qed (fastforce simp: ParseVersion_Inr)
  also have "?fits \<longleftrightarrow> (\<exists>a b c p q. semver_shape s [a, b, c] p q
         \<and> list_all (\<lambda>n. digits_value n < 2 ^ 64) [a, b, c])"
  proof -
    have "semver_shape s [a, b, c] p q \<Longrightarrow>
      (ParseUint a \<noteq> None \<and> ParseUint b \<noteq> None \<and> ParseUint c \<noteq> None) =
      list_all (\<lambda>n. digits_value n < 2 ^ 64) [a, b, c]" for a b c p q
      using ParseUint_is_num by (simp add: semver_shape_def)
    then show ?thesis by blast
  qed
  also have "\<dots> \<longleftrightarrow> (\<exists>nums p q. semver_shape s nums p q)
      \<and> list_all (\<lambda>n. digits_value n < 2 ^ 64) (core_numbers s)"
    (is "?A \<longleftrightarrow> ?B")
  proof
    assume ?A
    then obtain a b c p q where "semver_shape s [a, b, c] p q"
      and "list_all (\<lambda>n. digits_value n < 2 ^ 64) [a, b, c]" by blast
    moreover from this have "core_numbers s = [a, b, c]" by (blast intro: shape_core_numbers)
    ultimately show ?B by auto
  next
    assume ?B
    then obtain nums p q where sh: "semver_shape s nums p q" by blast
    then obtain a b c where "nums = [a, b, c]" by (auto simp: semver_shape_def length3_iff)
    with sh \<open>?B\<close> shape_core_numbers [OF sh] show ?A by metis
  qed
  finally show ?thesis by (simp add: pattern_shape)
qed

text \<open>
  Round trip: the fields of a parsed version determine its text, so printing them gives back
  the parsed string, which is also what \<^verbatim>\<open>Version.String\<close> returns.
\<close>

theorem ParseVersion_roundtrip:
  assumes "ParseVersion s = Inr v"
  shows "render_version v = s \<and> Version_String v = s"
proof -
  from assms obtain a b c p q where sh: "semver_shape s [a, b, c] p q"
    and nums: "ParseUint a = Some (Major v)" "ParseUint b = Some (Minor v)" "ParseUint c = Some (Patch v)"
    and rest: "PreRelease v = (case p of None \<Rightarrow> [] | Some t \<Rightarrow> split_on CHR ''.'' t)"
      "Build v = (case q of None \<Rightarrow> [] | Some t \<Rightarrow> split_on CHR ''.'' t)" "raw v = s"
    unfolding ParseVersion_Inr by blast
  from sh nums have "show_nat (unat (Major v)) = a" "show_nat (unat (Minor v)) = b"
    "show_nat (unat (Patch v)) = c" by (simp_all add: semver_shape_def ParseUint_num)
  with sh rest show ?thesis
    by (cases p; cases q) (simp_all add: render_version_def Version_String_def semver_shape_def opt_part_def)
qed

theorem ParseVersion_roundtrip_witness:
  "\<exists>v. ParseVersion ''2.10.0-rc.1+b7'' = Inr v \<and> render_version v = ''2.10.0-rc.1+b7''"
proof -
  have "\<not> isl (ParseVersion ''2.10.0-rc.1+b7'')" by (simp add: semver_eval)
  then obtain v where v: "ParseVersion ''2.10.0-rc.1+b7'' = Inr v"
    by (cases "ParseVersion ''2.10.0-rc.1+b7''") auto
  with ParseVersion_roundtrip [OF v] show ?thesis by blast
qed

text \<open>
  \<^verbatim>\<open>Version.Compare\<close> is a total preorder on all versions: reflexive, antisymmetric in its
  sign, transitive, and strict precedence composes with non-strict precedence.
\<close>

theorem Version_Compare_total_preorder:
  "Version_Compare v v = 0 \<and> Version_Compare w v = - Version_Compare v w
   \<and> (Version_Compare u v \<le> 0 \<longrightarrow> Version_Compare v w \<le> 0 \<longrightarrow> Version_Compare u w \<le> 0)
   \<and> (Version_Compare u v < 0 \<longrightarrow> Version_Compare v w \<le> 0 \<longrightarrow> Version_Compare u w < 0)"
  using precedence.cmp_refl precedence.cmp_swap precedence.cmp_le_trans precedence.cmp_less_le_trans
  by blast

theorem Version_Compare_total_preorder_witness:
  "Version_Compare (version_of 1 0 0 [''rc'', ''2'']) (version_of 1 0 0 []) < 0"
proof -
  have "Version_Compare (version_of 1 0 0 [''rc'', ''2'']) (version_of 1 0 0 [''rc'', ''10'']) < 0"
    and "Version_Compare (version_of 1 0 0 [''rc'', ''10'']) (version_of 1 0 0 []) \<le> 0"
    by (simp_all add: semver_eval version_of_def)
  with Version_Compare_total_preorder
    [of "version_of 1 0 0 [''rc'', ''10'']" "version_of 1 0 0 []" "version_of 1 0 0 [''rc'', ''2'']"]
  show ?thesis by blast
qed

text \<open>
  Two parsed versions compare equal exactly when they agree on the three numbers and on every
  prerelease identifier: build metadata never matters and nothing else is identified.
\<close>

theorem Version_Compare_eq_iff:
  assumes "ParseVersion s = Inr v" and "ParseVersion t = Inr w"
  shows "Version_Compare v w = 0 \<longleftrightarrow>
    Major v = Major w \<and> Minor v = Minor w \<and> Patch v = Patch w \<and> PreRelease v = PreRelease w"
proof -
  have "map ident_key (PreRelease v) = map ident_key (PreRelease w) \<longleftrightarrow> PreRelease v = PreRelease w"
    using assms [THEN ParseVersion_idents] map_ident_key_inj by auto
  then show ?thesis
    by (auto simp: Version_Compare_key cmp3_def precedence_key_def)
qed

theorem Version_Compare_eq_iff_witness:
  "\<exists>v w. ParseVersion ''1.0.0+one'' = Inr v \<and> ParseVersion ''1.0.0+two'' = Inr w \<and> Version_Compare v w = 0"
proof -
  have "\<not> isl (ParseVersion ''1.0.0+one'')" "\<not> isl (ParseVersion ''1.0.0+two'')"
    by (simp_all add: semver_eval)
  then obtain v w where v: "ParseVersion ''1.0.0+one'' = Inr v" and w: "ParseVersion ''1.0.0+two'' = Inr w"
    by (cases "ParseVersion ''1.0.0+one''"; cases "ParseVersion ''1.0.0+two''") auto
  from v w have "Major v = Major w \<and> Minor v = Minor w \<and> Patch v = Patch w \<and> PreRelease v = PreRelease w"
    by (auto simp: semver_eval)
  with v w Version_Compare_eq_iff [OF v w] show ?thesis by blast
qed

text \<open>
  C40. As long as every numeric prerelease identifier is below \<open>2 ^ 64\<close>, \<^verbatim>\<open>Version.Compare\<close> is
  the precedence of Semantic Versioning 2.0.0, paragraph 11.
\<close>

theorem Version_Compare_semver:
  assumes "ParseVersion s = Inr v" and "ParseVersion t = Inr w"
    and "idents_fit v" and "idents_fit w"
  shows "Version_Compare v w < 0 \<longleftrightarrow> semver_precedes v w"
proof -
  have "map ident_key (PreRelease v) < map ident_key (PreRelease w) \<longleftrightarrow>
      idents_precede (PreRelease v) (PreRelease w)"
    using assms ParseVersion_idents by (intro idents_key_less) (auto simp: idents_fit_def)
  then show ?thesis
    by (auto simp: Version_Compare_key cmp3_def precedence_key_def semver_precedes_def)
qed

theorem Version_Compare_semver_witness:
  "\<exists>v w. ParseVersion ''2.4.0-alpha.9'' = Inr v \<and> ParseVersion ''2.4.0-alpha.10'' = Inr w
     \<and> semver_precedes v w"
proof -
  have "\<not> isl (ParseVersion ''2.4.0-alpha.9'')" "\<not> isl (ParseVersion ''2.4.0-alpha.10'')"
    by (simp_all add: semver_eval)
  then obtain v w where v: "ParseVersion ''2.4.0-alpha.9'' = Inr v" and w: "ParseVersion ''2.4.0-alpha.10'' = Inr w"
    by (cases "ParseVersion ''2.4.0-alpha.9''"; cases "ParseVersion ''2.4.0-alpha.10''") auto
  have "idents_fit v" "idents_fit w"
    using v w by (auto simp: semver_eval idents_fit_def numeric_ident_def)
  moreover have "Version_Compare v w < 0" using v w by (auto simp: semver_eval)
  ultimately show ?thesis using v w Version_Compare_semver [OF v w] by blast
qed

text \<open>
  Beyond 64 bits the comparison leaves the specification: \<^verbatim>\<open>strconv.ParseUint\<close> fails on a
  larger numeric identifier, which is then compared as text, so that \<open>10 ^ 20\<close> comes below
  \<open>10 ^ 20 - 1\<close>.
\<close>

theorem Version_Compare_large_numeric_identifier:
  "\<exists>v w. ParseVersion ''1.0.0-100000000000000000000'' = Inr v
     \<and> ParseVersion ''1.0.0-99999999999999999999'' = Inr w
     \<and> Version_Compare v w = - 1 \<and> \<not> semver_precedes v w \<and> semver_precedes w v"
proof -
  let ?a = "''1.0.0-100000000000000000000''" and ?b = "''1.0.0-99999999999999999999''"
  have "\<not> isl (ParseVersion ?a)" "\<not> isl (ParseVersion ?b)" by (simp_all add: semver_eval)
  then obtain v w where v: "ParseVersion ?a = Inr v" and w: "ParseVersion ?b = Inr w"
    by (cases "ParseVersion ?a"; cases "ParseVersion ?b") auto
  then have "Version_Compare v w = - 1" by (auto simp: semver_eval)
  moreover have "\<not> semver_precedes v w \<and> semver_precedes w v"
    using v w by (auto simp: semver_eval semver_precedes_def ident_precedes_def numeric_ident_def)
  ultimately show ?thesis using v w by blast
qed

end
