(* ===== verification/Lifecycle.thy ===== *)
theory Lifecycle
  imports SemVer
begin

text \<open>
  The domain rules of \<^verbatim>\<open>internal/moduleversions/domain.go\<close>: the lifecycle of a module version,
  the catalogue status of a module, the status of an environment pin, and the functions that decide
  which transitions are allowed. The errors of this package are plain messages, which the storage
  layer wraps; only their constant part is kept.

  The last section treats the two transition functions as step relations and shows what no sequence
  of accepted transitions can do.
\<close>

section \<open>Status values\<close>

datatype LifecycleStatus =
  LifecycleProposed | LifecycleDefault | LifecycleDeprecated | LifecycleDefective

datatype VerificationStatus = VerificationUnverified

datatype CatalogueStatus = CatalogueActive | CatalogueArchived

datatype PinStatus = PinActive | PinOverridePending | PinOverridden | PinRemoved

text \<open>The text of a catalogue status, as it travels in requests.\<close>

fun CatalogueStatus_text :: "CatalogueStatus \<Rightarrow> string" where
  "CatalogueStatus_text CatalogueActive = ''active''"
| "CatalogueStatus_text CatalogueArchived = ''archived''"

definition CatalogueStatus_of_text :: "string \<Rightarrow> CatalogueStatus option" where
  "CatalogueStatus_of_text s =
     find (\<lambda>c. CatalogueStatus_text c = s) [CatalogueActive, CatalogueArchived]"

lemma CatalogueStatus_of_text_iff:
  "CatalogueStatus_of_text s = Some c \<longleftrightarrow> CatalogueStatus_text c = s"
  by (cases c) (auto simp: CatalogueStatus_of_text_def)

section \<open>Transition rules\<close>

definition ValidatePublicationVersion :: "Version \<Rightarrow> Version option \<Rightarrow> go_error option" where
  "ValidatePublicationVersion candidate currentDefault =
     (case currentDefault of
        None \<Rightarrow> None
      | Some c \<Rightarrow>
          if Version_Compare candidate c \<le> 0
          then Some ''published version must have higher precedence than the current default''
          else None)"

fun lifecycle_allowed :: "LifecycleStatus \<Rightarrow> LifecycleStatus list" where
  "lifecycle_allowed LifecycleProposed = [LifecycleDefault, LifecycleDeprecated, LifecycleDefective]"
| "lifecycle_allowed LifecycleDefault = [LifecycleDeprecated, LifecycleDefective]"
| "lifecycle_allowed LifecycleDeprecated = [LifecycleDefault, LifecycleDefective]"
| "lifecycle_allowed LifecycleDefective = []"

definition ValidateLifecycleTransition ::
  "LifecycleStatus \<Rightarrow> LifecycleStatus \<Rightarrow> Version \<Rightarrow> go_error option" where
  "ValidateLifecycleTransition from to version =
     (if from = to then None
      else if to = LifecycleDefault \<and> length (PreRelease version) \<noteq> 0
      then Some ''prerelease version cannot become default''
      else if \<not> List.member (lifecycle_allowed from) to
      then Some ''invalid module version lifecycle transition''
      else None)"

definition RequireTransitionReason :: "string \<Rightarrow> go_error option" where
  "RequireTransitionReason reason =
     (if TrimSpace reason = '''' then Some ''a human-readable reason is required'' else None)"

fun pin_allowed :: "PinStatus \<Rightarrow> PinStatus list" where
  "pin_allowed PinActive = [PinOverridePending, PinRemoved]"
| "pin_allowed PinOverridePending = [PinActive, PinOverridden]"
| "pin_allowed PinOverridden = [PinActive, PinRemoved]"
| "pin_allowed PinRemoved = []"

definition ValidatePinTransition :: "PinStatus \<Rightarrow> PinStatus \<Rightarrow> go_error option" where
  "ValidatePinTransition from to =
     (if from = to then None
      else if \<not> List.member (pin_allowed from) to
      then Some ''invalid module version pin transition''
      else None)"

lemma RequireTransitionReason_None_iff [simp]:
  "RequireTransitionReason reason = None \<longleftrightarrow> TrimSpace reason \<noteq> ''''"
  by (simp add: RequireTransitionReason_def)

section \<open>Sequences of transitions\<close>

inductive lifecycle_run :: "Version \<Rightarrow> LifecycleStatus \<Rightarrow> LifecycleStatus \<Rightarrow> bool" for v where
  lifecycle_refl [intro]: "lifecycle_run v a a"
| lifecycle_trans [intro]:
    "lifecycle_run v a b \<Longrightarrow> ValidateLifecycleTransition b c v = None \<Longrightarrow> lifecycle_run v a c"

inductive pin_run :: "PinStatus \<Rightarrow> PinStatus \<Rightarrow> bool" where
  pin_refl [intro]: "pin_run a a"
| pin_trans [intro]: "pin_run a b \<Longrightarrow> ValidatePinTransition b c = None \<Longrightarrow> pin_run a c"

lemma ValidateLifecycleTransition_None_iff:
  "ValidateLifecycleTransition a b v = None \<longleftrightarrow>
     a = b \<or> a \<noteq> LifecycleDefective \<and> b \<noteq> LifecycleProposed
       \<and> (b = LifecycleDefault \<longrightarrow> PreRelease v = [])"
  by (cases a; cases b) (auto simp: ValidateLifecycleTransition_def)

lemma ValidatePinTransition_None_iff:
  "ValidatePinTransition a b = None \<longleftrightarrow> a = b \<or> b \<in> set (pin_allowed a)"
  by (auto simp: ValidatePinTransition_def)

lemma pin_run_step: "ValidatePinTransition a b = None \<Longrightarrow> pin_run a b"
  by blast

lemma pin_run_connected: "a \<noteq> PinRemoved \<Longrightarrow> pin_run a b"
proof -
  have step: "pin_run a b \<Longrightarrow> c \<in> set (pin_allowed b) \<Longrightarrow> pin_run a c" for a b c
    by (rule pin_trans) (auto simp: ValidatePinTransition_None_iff)
  have "pin_run a PinActive" if "a \<noteq> PinRemoved"
    using that step [OF pin_refl, of PinActive] by (cases a) auto
  moreover assume "a \<noteq> PinRemoved"
  ultimately have act: "pin_run a PinActive" by blast
  then have pen: "pin_run a PinOverridePending" and "pin_run a PinRemoved" by (auto intro: step)
  moreover from pen have "pin_run a PinOverridden" by (auto intro: step)
  ultimately show ?thesis using act by (cases b) auto
qed

section \<open>Reachability\<close>

text \<open>
  Reachability in the version lifecycle: by any number of accepted transitions a version gets
  from one status to another exactly when it is not already \<^verbatim>\<open>defective\<close>, the target is not
  \<^verbatim>\<open>proposed\<close>, and a prerelease is not to become \<^verbatim>\<open>default\<close>.
\<close>

lemma lifecycle_run_iff:
  "lifecycle_run v a b \<longleftrightarrow>
     a = b \<or> a \<noteq> LifecycleDefective \<and> b \<noteq> LifecycleProposed
       \<and> (b = LifecycleDefault \<longrightarrow> PreRelease v = [])"
proof
  show "lifecycle_run v a b \<Longrightarrow> a = b \<or> a \<noteq> LifecycleDefective \<and> b \<noteq> LifecycleProposed
       \<and> (b = LifecycleDefault \<longrightarrow> PreRelease v = [])"
    by (induction rule: lifecycle_run.induct) (auto simp: ValidateLifecycleTransition_None_iff)
next
  assume "a = b \<or> a \<noteq> LifecycleDefective \<and> b \<noteq> LifecycleProposed
       \<and> (b = LifecycleDefault \<longrightarrow> PreRelease v = [])"
  then show "lifecycle_run v a b"
    by (intro lifecycle_trans [OF lifecycle_refl]) (simp add: ValidateLifecycleTransition_None_iff)
qed

text \<open>
  A pin can reach every status from every status but \<^verbatim>\<open>removed\<close>, which it never leaves.
\<close>

lemma pin_run_iff: "pin_run a b \<longleftrightarrow> a = b \<or> a \<noteq> PinRemoved"
proof
  show "pin_run a b \<Longrightarrow> a = b \<or> a \<noteq> PinRemoved"
    by (induction rule: pin_run.induct) (auto simp: ValidatePinTransition_None_iff)
qed (use pin_run_connected in blast)

text \<open>
  A transition reason is refused exactly when it consists of white space only, in the sense of
  \<^verbatim>\<open>unicode.IsSpace\<close>: the encodings of white-space runes, one after the other.
\<close>

lemma RequireTransitionReason_blank:
  "RequireTransitionReason reason \<noteq> None \<longleftrightarrow>
     (\<exists>ps. set ps \<subseteq> set space_runes \<and> reason = concat ps)"
  by (simp add: TrimSpace_blank)

end
