(* ===== verification/Database.thy ===== *)
theory Database
  imports Lifecycle
begin

text \<open>
  The rows and tables of the control-plane database that the modelled operations read and write
  (\<^verbatim>\<open>internal/model\<close> and its migrations), and the record \<open>db\<close> that holds them.

  A table is the list of its rows in insertion order. The \<^verbatim>\<open>sequence\<close> column of an event table is
  the position of the row, so \<^verbatim>\<open>ORDER BY sequence\<close> is list order. A row that Go reads into a struct
  of the same fields is that struct; the two tables whose rows differ from the struct
  (\<^verbatim>\<open>definitions\<close>, \<^verbatim>\<open>definition_versions\<close>) have a row record and a scan function. Values that
  PostgreSQL or Go draws at random (\<^verbatim>\<open>gen_random_uuid()\<close>, \<^verbatim>\<open>uuid.New()\<close>) and clock readings are
  arguments of the operations; a drawn UUID that is already a key runs into the key constraint like
  any other.

  Version counters are Go \<^verbatim>\<open>int64\<close> backed by \<^verbatim>\<open>BIGINT\<close>: they start at 1 and go up by one per
  committed command, so they are unbounded integers here.

  An \<^verbatim>\<open>INSERT\<close> is \<open>insert_row\<close>: it checks the key constraints that the migrations declare, in the
  order in which they are declared, and fails with the name of the first one violated.
\<close>

section \<open>Texts of statuses\<close>

fun LifecycleStatus_text :: "LifecycleStatus \<Rightarrow> string" where
  "LifecycleStatus_text LifecycleProposed = ''proposed''"
| "LifecycleStatus_text LifecycleDefault = ''default''"
| "LifecycleStatus_text LifecycleDeprecated = ''deprecated''"
| "LifecycleStatus_text LifecycleDefective = ''defective''"

fun PinStatus_text :: "PinStatus \<Rightarrow> string" where
  "PinStatus_text PinActive = ''active''"
| "PinStatus_text PinOverridePending = ''override_pending''"
| "PinStatus_text PinOverridden = ''overridden''"
| "PinStatus_text PinRemoved = ''removed''"

section \<open>Resource types\<close>

record ResourceType =
  rt_uuid :: uuid
  rt_OrgId :: "string option"
  rt_Id :: string
  rt_Description :: string
  rt_OutputsSchema :: "json_object option"
  rt_ModuleContract :: "json_object option"
  rt_CreatedAt :: timestamp
  rt_IsDeveloperAccessible :: bool
  rt_CatalogueStatus :: CatalogueStatus
  rt_ResourceVersion :: int
  rt_ArchivedAt :: "timestamp option"
  rt_ArchivedBy :: "uuid option"
  rt_ArchiveReason :: string

record ResourceTypeVersion =
  rtv_UUID :: uuid
  rtv_ResourceTypeUUID :: uuid
  rtv_Version :: int
  rtv_OutputSchema :: "json_object option"
  rtv_ModuleContract :: "json_object option"
  rtv_CreatedAt :: timestamp
  rtv_CreatedBy :: "uuid option"
  rtv_Reason :: "string option"

record resource_type_event =
  rte_OrgID :: string
  rte_ResourceTypeID :: string
  rte_EventType :: string
  rte_ResourceVersion :: int
  rte_Actor :: uuid
  rte_Reason :: string

record ModuleProvider =
  pr_OrgId :: string
  pr_ProviderType :: string
  pr_Id :: string
  pr_CreatedAt :: timestamp
  pr_Description :: "string option"
  pr_Source :: string
  pr_VersionConstraint :: string
  pr_Config :: json_object

section \<open>Modules and their versions\<close>

record definitions_row =
  d_org_id :: string
  d_uuid :: uuid
  d_id :: string
  d_display_name :: string
  d_description :: "string option"
  d_resource_type :: string
  d_resource_type_uuid :: uuid
  d_tags :: "(string \<times> string) list"
  d_catalogue_status :: CatalogueStatus
  d_resource_version :: int
  d_latest_version_id :: "string option"
  d_current_default_version_uuid :: "uuid option"
  d_previous_default_version_uuid :: "uuid option"
  d_managed_default_generation :: int
  d_created_at :: timestamp
  d_archived_at :: "timestamp option"
  d_archived_by :: "uuid option"
  d_archive_reason :: "string option"

record ModuleDefinitionDependency =
  dep_Type :: string
  dep_Class :: "string option"
  dep_Id :: "string option"
  dep_Params :: "json_object option"

record ModuleDefinitionCoProvision =
  cp_Type :: string
  cp_Class :: "string option"
  cp_Id :: "string option"
  cp_Params :: "json_object option"
  cp_IsDependentOnCurrent :: bool
  cp_CopyDependentsFromCurrent :: bool

record ModuleParam =
  mp_Type :: string
  mp_IsOptional :: bool
  mp_Description :: string

text \<open>The part of a version that its author declares and that no operation changes.\<close>

record module_content =
  c_Description :: "string option"
  c_ModuleSource :: string
  c_ModuleSourceCode :: "string option"
  c_ModuleInputs :: "json_object option"
  c_OutputSchema :: "json_object option"
  c_ModuleParams :: "(string \<times> ModuleParam) list option"
  c_Dependencies :: "(string \<times> ModuleDefinitionDependency) list option"
  c_CoProvisioned :: "ModuleDefinitionCoProvision list option"
  c_ProviderMapping :: "(string \<times> string) list"
  c_ArtifactDigest :: string
  c_SourceRevision :: string
  c_ReleaseNotes :: "string option"

record definition_versions_row =
  v_org_id :: string
  v_definition_id :: string
  v_module_uuid :: uuid
  v_version_id :: string
  v_uuid :: uuid
  v_semantic_version :: "string option"
  v_migration_generation :: string
  v_verification_status :: VerificationStatus
  v_semantic_status :: LifecycleStatus
  v_resource_version :: int
  v_published_by :: "uuid option"
  v_created_at :: timestamp
  v_resource_type_version_uuid :: uuid
  v_provider_values :: "string list"
  v_content :: module_content

record lifecycle_event =
  le_OrgID :: string
  le_ModuleUUID :: uuid
  le_VersionUUID :: uuid
  le_FromStatus :: "LifecycleStatus option"
  le_ToStatus :: LifecycleStatus
  le_ResourceVersion :: int
  le_Actor :: uuid
  le_Reason :: "string option"
  le_CorrelationID :: "uuid option"
  le_Payload :: json

record catalogue_event =
  ce_OrgID :: string
  ce_ModuleUUID :: uuid
  ce_EventType :: string
  ce_ResourceVersion :: int
  ce_Actor :: uuid
  ce_Reason :: string

section \<open>Reservations, drafts, commands\<close>

record ModuleOperationReservation =
  mr_ID :: uuid
  mr_OrgID :: string
  mr_ModuleUUID :: uuid
  mr_Namespace :: string
  mr_OperationID :: uuid
  mr_RelatedResourceID :: string
  mr_Reason :: string
  mr_ResourceVersion :: int
  mr_AcquiredBy :: uuid
  mr_AcquiredAt :: timestamp
  mr_ReleasedBy :: "uuid option"
  mr_ReleasedAt :: "timestamp option"
  mr_ReleaseReason :: string

record ModuleExtensionContribution =
  ec_ID :: uuid
  ec_OrgID :: string
  ec_ModuleUUID :: uuid
  ec_VersionUUID :: "uuid option"
  ec_EnvironmentUUID :: "uuid option"
  ec_Namespace :: string
  ec_ExternalResourceID :: string
  ec_Kind :: string
  ec_LifecycleState :: string
  ec_Label :: string
  ec_TargetURL :: string
  ec_Payload :: "json_object option"
  ec_CreatedBy :: uuid
  ec_CreatedAt :: timestamp
  ec_UpdatedAt :: timestamp

record ModuleDraft =
  md_ID :: uuid
  md_OrgID :: string
  md_ModuleUUID :: uuid
  md_ResourceVersion :: int
  md_Content :: json
  md_Status :: string
  md_PublishedVersionUUID :: "uuid option"
  md_CreatedAt :: timestamp
  md_CreatedBy :: uuid
  md_UpdatedAt :: timestamp
  md_UpdatedBy :: uuid

record ModuleDraftRevision =
  dr_DraftID :: uuid
  dr_ResourceVersion :: int
  dr_Content :: json
  dr_Status :: string
  dr_PublishedVersionUUID :: "uuid option"
  dr_CreatedAt :: timestamp
  dr_Actor :: uuid
  dr_Reason :: string

record ModuleDraftTestSnapshot =
  ds_ID :: uuid
  ds_OrgID :: string
  ds_ModuleUUID :: uuid
  ds_DraftID :: uuid
  ds_DraftRevision :: int
  ds_ResourceTypeVersionUUID :: uuid
  ds_ProjectUUID :: uuid
  ds_EnvironmentUUID :: uuid
  ds_Content :: json
  ds_CapturedAt :: timestamp
  ds_CapturedBy :: uuid
  ds_Reason :: string

section \<open>Projects, environment types, runners and rules\<close>

datatype ProjectStatus = ProjectStatusActive | ProjectStatusDeleting

record Project =
  pj_Id :: string
  pj_Uuid :: uuid
  pj_DisplayName :: string
  pj_CreatedAt :: timestamp
  pj_UpdatedAt :: timestamp
  pj_OrgId :: string
  pj_OrgUuid :: uuid
  pj_Status :: ProjectStatus

record EnvType =
  et_OrgId :: string
  et_OrgUuid :: uuid
  et_Id :: string
  et_Uuid :: uuid
  et_DisplayName :: string
  et_IsProduction :: bool
  et_CreatedAt :: timestamp

record RunnerConfigurationSecret =
  rs_Path :: string
  rs_Version :: int

record Runner =
  rn_OrgId :: string
  rn_Id :: string
  rn_CreatedAt :: timestamp
  rn_UpdatedAt :: timestamp
  rn_Description :: "string option"
  rn_RunnerType :: string
  rn_RunnerConfiguration :: json_object
  rn_RunnerConfigurationSecret :: "RunnerConfigurationSecret option"
  rn_StateStorageType :: string
  rn_StateStorageConfiguration :: json_object

record DefinitionRule =
  ru_OrgId :: string
  ru_DefinitionId :: string
  ru_CreatedAt :: timestamp
  ru_Id :: uuid
  ru_ResourceType :: string
  ru_ResourceClass :: string
  ru_ResourceId :: "string option"
  ru_ProjectId :: "string option"
  ru_EnvTypeId :: "string option"
  ru_EnvId :: "string option"

record RunnerRule =
  rr_OrgId :: string
  rr_RunnerId :: string
  rr_CreatedAt :: timestamp
  rr_Id :: uuid
  rr_ProjectId :: "string option"
  rr_EnvTypeId :: "string option"

section \<open>Environments and pins\<close>

datatype EnvironmentStatus =
  EnvironmentStatusActive | EnvironmentStatusDeleting | EnvironmentStatusDeleteFailed

record Environment =
  en_OrgId :: string
  en_ProjectId :: string
  en_ProjectUuid :: uuid
  en_Id :: string
  en_EnvTypeId :: string
  en_EnvTypeUuid :: uuid
  en_OrgUuid :: uuid
  en_Uuid :: uuid
  en_DisplayName :: string
  en_CreatedAt :: timestamp
  en_UpdatedAt :: timestamp
  en_RunnerId :: "string option"
  en_Status :: EnvironmentStatus
  en_StatusMessage :: "string option"
  en_Labels :: "(string \<times> string) list"
  en_DeletionForce :: "bool option"
  en_DeletionDeleteRules :: "bool option"

record EnvironmentModuleVersionPin =
  pn_ID :: uuid
  pn_OrgID :: string
  pn_ProjectUUID :: uuid
  pn_ProjectID :: string
  pn_EnvironmentUUID :: uuid
  pn_EnvironmentID :: string
  pn_ModuleUUID :: uuid
  pn_VersionUUID :: uuid
  pn_Status :: PinStatus
  pn_ResourceVersion :: int
  pn_ActivationEventID :: uuid
  pn_BulkOperationID :: "uuid option"
  pn_OverrideOperationID :: "uuid option"
  pn_OverrideTargetVersionUUID :: "uuid option"
  pn_OverrideActor :: "uuid option"
  pn_OverrideReason :: string
  pn_OverrideDeploymentID :: "uuid option"
  pn_CreatedBy :: uuid
  pn_CreatedAt :: timestamp
  pn_UpdatedAt :: timestamp
  pn_RemovedAt :: "timestamp option"

record ModuleVersionPinEvent =
  pe_ID :: uuid
  pe_PinID :: uuid
  pe_Revision :: int
  pe_EventType :: string
  pe_FromStatus :: "PinStatus option"
  pe_ToStatus :: PinStatus
  pe_ActivationEventID :: uuid
  pe_Actor :: uuid
  pe_ActorType :: string
  pe_Reason :: string
  pe_OperationID :: "uuid option"
  pe_DeploymentID :: "uuid option"
  pe_BulkOperationID :: "uuid option"

section \<open>Deployment admission and delegated operations\<close>

record DeploymentAdmission =
  da_OrgID :: string
  da_AdmissionID :: uuid
  da_ProjectUUID :: uuid
  da_EnvironmentUUID :: uuid
  da_ActorID :: uuid
  da_RequestDigest :: string
  da_Mode :: string
  da_ModuleVersions :: "(string \<times> uuid) list option"
  da_CarryForwardModuleVersions :: "(string \<times> uuid) list option"
  da_ConfirmedRestrictedVersionUUIDs :: "uuid list option"
  da_DraftTestSnapshots :: "(string \<times> uuid) list option"

record admission_guard =
  ag_org_id :: string
  ag_admission_id :: uuid
  ag_environment_uuid :: uuid
  ag_project_uuid :: uuid
  ag_intent :: DeploymentAdmission
  ag_epoch :: int
  ag_outcome :: "string option"

record ExternalOperationEnvironment =
  oe_ProjectID :: uuid
  oe_EnvironmentID :: uuid

record ExternalOperationIntent =
  oi_Fingerprint :: string
  oi_Modules :: "uuid list"
  oi_TargetVersions :: "(string \<times> uuid) list"
  oi_Environments :: "ExternalOperationEnvironment list"
  oi_Actions :: "string list"

record ExternalOperationGrant =
  gr_OrgID :: string
  gr_PluginID :: string
  gr_OperationID :: uuid
  gr_ActorID :: uuid
  gr_SourceOperation :: string
  gr_Intent :: ExternalOperationIntent
  gr_BaselineDefaults :: "(string \<times> uuid option) list"
  gr_Revision :: int
  gr_State :: string
  gr_SafetyActivation :: bool

record grant_command_row =
  gc_org_id :: string
  gc_plugin_id :: string
  gc_operation_id :: uuid
  gc_request_id :: string
  gc_actor_id :: uuid
  gc_request_digest :: string
  gc_reason :: string
  gc_response :: ExternalOperationGrant

record ExternalDispatchApproval =
  ap_ActorID :: uuid
  ap_Scope :: string

record ExternalDispatch =
  ed_OrgID :: string
  ed_PluginID :: string
  ed_OperationID :: uuid
  ed_Fence :: int
  ed_Action :: string
  ed_DispatchID :: string
  ed_ProjectUUID :: uuid
  ed_EnvironmentUUID :: uuid
  ed_RequestDigest :: string
  ed_ActorID :: uuid
  ed_TargetVersions :: "(string \<times> uuid) list option"
  ed_ApprovedPins :: "(string \<times> uuid) list option"
  ed_Approval :: "ExternalDispatchApproval option"

record ExternalDispatchCompletion =
  co_DeploymentID :: uuid
  co_EnvironmentUUID :: uuid
  co_ProjectUUID :: uuid
  co_RequestDigest :: string
  co_Status :: string
  co_NoEffect :: bool

datatype dispatch_state = DispatchActive | DispatchWithdrawn | DispatchSettled

record dispatch_row =
  di_intent :: ExternalDispatch
  di_state :: dispatch_state
  di_completion :: "ExternalDispatchCompletion option"

record ExternalModuleReceipt =
  er_OrgID :: string
  er_PluginID :: string
  er_OperationID :: uuid
  er_RequestID :: string
  er_Action :: string
  er_Fence :: int
  er_State :: string
  er_ModuleUUIDs :: "uuid list"

record module_operation_row =
  eo_org_id :: string
  eo_plugin_id :: string
  eo_operation_id :: uuid
  eo_fence :: int
  eo_state :: string
  eo_module_uuids :: "uuid list"

record module_receipt_row =
  mo_request_digest :: string
  mo_actor_id :: uuid
  mo_response :: ExternalModuleReceipt

record ExternalPinReceipt =
  pc_OperationID :: uuid
  pc_RequestID :: string
  pc_Action :: string
  pc_Pins :: "EnvironmentModuleVersionPin list"

text \<open>
  The response column of \<^verbatim>\<open>module_core_commands\<close> holds the encoding of the response of the
  command: a JSON document for the API commands, the receipt for the operation-bound pin commands, and
  only the array of the pins for pin commands of earlier releases.
\<close>

datatype command_response =
    ResponseJSON json
  | ResponsePins ExternalPinReceipt
  | ResponsePinArray "EnvironmentModuleVersionPin list"

record core_command =
  cc_OrgID :: string
  cc_Scope :: string
  cc_Key :: string
  cc_Fingerprint :: string
  cc_Actor :: uuid
  cc_Response :: command_response

text \<open>A pending message of the transactional outbox.\<close>

record outbox_event =
  ob_Type :: string
  ob_Data :: "(string \<times> json) list"

section \<open>The database\<close>

record db =
  orgs :: "string list"
  providers :: "ModuleProvider list"
  resource_types :: "ResourceType list"
  resource_type_versions :: "ResourceTypeVersion list"
  resource_type_events :: "resource_type_event list"
  definitions :: "definitions_row list"
  definition_versions :: "definition_versions_row list"
  lifecycle_events :: "lifecycle_event list"
  catalogue_events :: "catalogue_event list"
  definition_rules :: "DefinitionRule list"
  runner_rules :: "RunnerRule list"
  projects :: "Project list"
  env_types :: "EnvType list"
  runners :: "Runner list"
  reservations :: "ModuleOperationReservation list"
  contributions :: "ModuleExtensionContribution list"
  drafts :: "ModuleDraft list"
  draft_revisions :: "ModuleDraftRevision list"
  draft_snapshots :: "ModuleDraftTestSnapshot list"
  core_commands :: "core_command list"
  envs :: "Environment list"
  pins :: "EnvironmentModuleVersionPin list"
  pin_events :: "ModuleVersionPinEvent list"
  epochs :: "((string \<times> uuid) \<times> int) list"
  guards :: "admission_guard list"
  grants :: "ExternalOperationGrant list"
  grant_commands :: "grant_command_row list"
  dispatches :: "dispatch_row list"
  module_operations :: "module_operation_row list"
  module_receipts :: "module_receipt_row list"
  outbox :: "outbox_event list"

definition empty_db :: db where
  "empty_db = \<lparr>orgs = [], providers = [], resource_types = [], resource_type_versions = [],
     resource_type_events = [], definitions = [], definition_versions = [], lifecycle_events = [],
     catalogue_events = [], definition_rules = [], runner_rules = [], projects = [], env_types = [],
     runners = [], reservations = [], contributions = [], drafts = [],
     draft_revisions = [], draft_snapshots = [], core_commands = [], envs = [], pins = [],
     pin_events = [], epochs = [], guards = [], grants = [], grant_commands = [], dispatches = [],
     module_operations = [], module_receipts = [], outbox = []\<rparr>"

text \<open>
  The key constraints of a table: a name, a key, and the rows the constraint covers (a partial
  unique index has a \<^verbatim>\<open>WHERE\<close> clause). A key with a null component is \<open>None\<close> and is never equal
  to another.
\<close>

type_synonym ('r, 'k) constraint = "string \<times> ('r \<Rightarrow> 'k option)"

definition violates :: "('r \<Rightarrow> 'k option) \<Rightarrow> 'r \<Rightarrow> 'r list \<Rightarrow> bool" where
  "violates key row rows \<longleftrightarrow> key row \<noteq> None \<and> list_ex (\<lambda>r. key r = key row) rows"

fun insert_row :: "('r, 'k) constraint list \<Rightarrow> 'r \<Rightarrow> 'r list \<Rightarrow> 'r list result" where
  "insert_row [] row rows = Inr (rows @ [row])"
| "insert_row ((name, key) # cs) row rows =
     (if violates key row rows then Inl (ErrConstraint name) else insert_row cs row rows)"

definition keys_unique :: "('r \<Rightarrow> 'k option) \<Rightarrow> 'r list \<Rightarrow> bool" where
  "keys_unique key rows \<longleftrightarrow> distinct (filter (\<lambda>k. k \<noteq> None) (map key rows))"

lemma insert_row_Inr_iff:
  "insert_row cs row rows = Inr rows' \<longleftrightarrow>
     rows' = rows @ [row] \<and> list_all (\<lambda>(name, key). \<not> violates key row rows) cs"
  by (induction cs row rows rule: insert_row.induct) auto

declare insert_row.simps [simp del]

lemma keys_unique_Nil [simp]: "keys_unique key []"
  by (simp add: keys_unique_def)

lemma keys_unique_snoc [table_simps]:
  "keys_unique key (rows @ [row]) \<longleftrightarrow>
     keys_unique key rows \<and> \<not> violates key row rows"
  by (auto simp: keys_unique_def violates_def list_ex_iff image_iff)

lemma keys_unique_Cons:
  "keys_unique key (r # rows) \<longleftrightarrow> keys_unique key rows \<and> (key r = None \<or> key r \<notin> key ` set rows)"
  by (auto simp: keys_unique_def)

text \<open>Rows that leave a partial index.\<close>

lemma keys_unique_release:
  assumes "\<And>r. key (f r) = None" and "keys_unique key rows"
  shows "keys_unique key (upd_where P f rows)"
  using assms(2)
proof (induction rows)
  case (Cons a rows)
  have "key ` set (upd_where P f rows) \<subseteq> insert None (key ` set rows)"
    using assms(1) by (auto simp: in_upd_where)
  moreover have "keys_unique key (upd_where P f rows)" "key a = None \<or> key a \<notin> key ` set rows"
    using Cons by (auto simp: keys_unique_Cons)
  ultimately show ?case using assms(1) by (auto simp: keys_unique_Cons)
qed simp

lemma keys_unique_insert:
  "insert_row cs row rows = Inr rows' \<Longrightarrow> (name, key) \<in> set cs \<Longrightarrow> keys_unique key rows \<Longrightarrow>
   keys_unique key rows'"
  by (auto simp: insert_row_Inr_iff keys_unique_snoc list_all_iff)

lemma insert_row_distinct:
  "insert_row cs row rows = Inr rows' \<Longrightarrow> (name, \<lambda>r. Some (k r)) \<in> set cs \<Longrightarrow> distinct (map k rows) \<Longrightarrow>
   distinct (map k rows')"
  by (force simp: insert_row_Inr_iff list_all_iff violates_def list_ex_iff)

lemma insert_row_distinct1:
  assumes "insert_row cs row rows = Inr rows'" "(name, \<lambda>r. Some [k r]) \<in> set cs" "distinct (map k rows)"
  shows "distinct (map k rows')"
  using insert_row_distinct [OF assms(1,2)] assms(3) by (simp add: distinct_map inj_on_def)

text \<open>\<^verbatim>\<open>UPDATE ... WHERE\<close> on a table whose unique indexes cover an updated column.\<close>

fun check_keys :: "('r, 'k) constraint list \<Rightarrow> 'r list \<Rightarrow> 'r list result" where
  "check_keys [] rows = Inr rows"
| "check_keys ((name, key) # cs) rows =
     (if keys_unique key rows then check_keys cs rows else Inl (ErrConstraint name))"

definition update_rows ::
  "('r, 'k) constraint list \<Rightarrow> ('r \<Rightarrow> bool) \<Rightarrow> ('r \<Rightarrow> 'r) \<Rightarrow> 'r list \<Rightarrow> 'r list result" where
  "update_rows cs P f rows = check_keys cs (upd_where P f rows)"

lemma check_keys_Inr_iff:
  "check_keys cs rows = Inr rows' \<longleftrightarrow> rows' = rows \<and> list_all (\<lambda>(name, key). keys_unique key rows) cs"
  by (induction cs rows rule: check_keys.induct) auto

lemma update_rows_Inr_iff:
  "update_rows cs P f rows = Inr rows' \<longleftrightarrow>
     rows' = upd_where P f rows \<and> list_all (\<lambda>(name, key). keys_unique key rows') cs"
  by (auto simp: update_rows_def check_keys_Inr_iff)

lemma keys_uniqueD:
  "keys_unique key rows \<Longrightarrow> r \<in> set rows \<Longrightarrow> r' \<in> set rows \<Longrightarrow> key r = Some k \<Longrightarrow> key r' = Some k \<Longrightarrow> r = r'"
proof (induction rows)
  case (Cons a rows)
  have "keys_unique key rows" and a: "key a \<noteq> None \<Longrightarrow> key a \<notin> key ` set rows"
    using Cons.prems(1) by (auto simp: keys_unique_def split: if_splits)
  with Cons show ?case by (auto simp: image_iff) metis+
qed simp

lemma keys_unique_upd_where:
  "(\<And>r. r \<in> set rows \<Longrightarrow> P r \<Longrightarrow> key (f r) = key r) \<Longrightarrow> keys_unique key rows \<Longrightarrow>
   keys_unique key (upd_where P f rows)"
proof -
  assume "\<And>r. r \<in> set rows \<Longrightarrow> P r \<Longrightarrow> key (f r) = key r" and u: "keys_unique key rows"
  then have "map key (upd_where P f rows) = map key rows" by (auto simp: upd_where_def)
  with u show ?thesis by (simp add: keys_unique_def)
qed

section \<open>The outbox\<close>

definition appendModuleCoreOutboxEvent :: "string \<Rightarrow> (string \<times> json) list \<Rightarrow> db \<Rightarrow> db" where
  "appendModuleCoreOutboxEvent eventType data s =
     s\<lparr>outbox := outbox s @ [\<lparr>ob_Type = eventType, ob_Data = data\<rparr>]\<rparr>"

definition jint :: "int \<Rightarrow> json" where
  "jint n = JNum (of_int n)"

fun jopt :: "string option \<Rightarrow> json" where
  "jopt None = JNull"
| "jopt (Some t) = JStr t"

lemma appendModuleCoreOutboxEvent_other [simp]:
  "definitions (appendModuleCoreOutboxEvent t d s) = definitions s"
  "definition_versions (appendModuleCoreOutboxEvent t d s) = definition_versions s"
  "lifecycle_events (appendModuleCoreOutboxEvent t d s) = lifecycle_events s"
  "catalogue_events (appendModuleCoreOutboxEvent t d s) = catalogue_events s"
  "resource_types (appendModuleCoreOutboxEvent t d s) = resource_types s"
  "resource_type_versions (appendModuleCoreOutboxEvent t d s) = resource_type_versions s"
  "resource_type_events (appendModuleCoreOutboxEvent t d s) = resource_type_events s"
  "reservations (appendModuleCoreOutboxEvent t d s) = reservations s"
  "drafts (appendModuleCoreOutboxEvent t d s) = drafts s"
  "draft_revisions (appendModuleCoreOutboxEvent t d s) = draft_revisions s"
  "draft_snapshots (appendModuleCoreOutboxEvent t d s) = draft_snapshots s"
  "core_commands (appendModuleCoreOutboxEvent t d s) = core_commands s"
  "pins (appendModuleCoreOutboxEvent t d s) = pins s"
  "pin_events (appendModuleCoreOutboxEvent t d s) = pin_events s"
  "envs (appendModuleCoreOutboxEvent t d s) = envs s"
  "guards (appendModuleCoreOutboxEvent t d s) = guards s"
  "dispatches (appendModuleCoreOutboxEvent t d s) = dispatches s"
  "epochs (appendModuleCoreOutboxEvent t d s) = epochs s"
  "grants (appendModuleCoreOutboxEvent t d s) = grants s"
  "orgs (appendModuleCoreOutboxEvent t d s) = orgs s"
  "contributions (appendModuleCoreOutboxEvent t d s) = contributions s"
  "grant_commands (appendModuleCoreOutboxEvent t d s) = grant_commands s"
  "module_operations (appendModuleCoreOutboxEvent t d s) = module_operations s"
  "module_receipts (appendModuleCoreOutboxEvent t d s) = module_receipts s"
  "providers (appendModuleCoreOutboxEvent t d s) = providers s"
  by (simp_all add: appendModuleCoreOutboxEvent_def)

end
