(* ===== verification/Paging.thy ===== *)
theory Paging
  imports Database
begin

text \<open>
  Paginated listings. \<^verbatim>\<open>internal/pagination/page_token.go\<close> builds and reads page tokens; the listings
  of \<^verbatim>\<open>internal/model\<close> all page the same way: the rows behind the last key of the previous page, in
  key order, one more than asked for to learn whether there is a next page. \<open>keyset_page\<close> is that
  loop, and \<open>walk_pages\<close> the client that follows the tokens until there is none.

  The locale \<open>keyset_listing\<close> is the contract of such a listing; its lemma says that following the
  tokens yields every row exactly once. The listings of the following theories are its instances.

  PostgreSQL compares the key columns with the collation of the database, the same one for the filter
  and the order; here it is the bytewise order, and the proofs use nothing but its linearity.
\<close>

section \<open>Page tokens\<close>

text \<open>\<^verbatim>\<open>PageTokenCodec.Generate\<close> panics on a wrong number of parts: \<open>None\<close>.\<close>

definition PageTokenCodec_Generate :: "nat \<Rightarrow> string list \<Rightarrow> string option" where
  "PageTokenCodec_Generate n parts = (if length parts \<noteq> n then None else Some (join_with CHR '','' parts))"

definition PageTokenCodec_Parse :: "nat \<Rightarrow> string \<Rightarrow> string + string list" where
  "PageTokenCodec_Parse n token =
     (if token = '''' then Inr (replicate n [])
      else let parts = split_on CHR '','' token in
        if length parts \<noteq> n then Inl ''invalid page token'' else Inr parts)"

section \<open>One page\<close>

definition keyset_page :: "('r \<Rightarrow> 'k::linorder) \<Rightarrow> 'k \<Rightarrow> int \<Rightarrow> 'r list \<Rightarrow> 'r list \<times> 'k option" where
  "keyset_page key after perPage rows =
     (let limit = nat (max 1 perPage);
          found = take (limit + 1) (sort_key key (filter (\<lambda>r. after < key r) rows)) in
      if length found > limit then (take limit found, Some (key (last (take limit found)))) else (found, None))"

text \<open>The page as the listings return it: no next page is the empty token.\<close>

definition tokened :: "('k \<Rightarrow> string) \<Rightarrow> 'r list \<times> 'k option \<Rightarrow> 'r list \<times> string" where
  "tokened encode p = (fst p, case snd p of None \<Rightarrow> [] | Some k \<Rightarrow> encode k)"

text \<open>A client that follows the tokens; the first argument bounds the number of requests.\<close>

fun walk_pages :: "nat \<Rightarrow> (string \<Rightarrow> ('r list \<times> string) result) \<Rightarrow> string \<Rightarrow> 'r list result" where
  "walk_pages 0 list_page token = Inl (ErrInternal ''request budget'')"
| "walk_pages (Suc n) list_page token =
     try_then (list_page token) (\<lambda>(items, next).
       if next = '''' then Inr items
       else try_then (walk_pages n list_page next) (\<lambda>rest. Inr (items @ rest)))"

lemma sorted_distinct_split:
  assumes "sorted (map key xs)" "distinct (map key xs)" "n < length xs" "0 < n"
  shows "filter (\<lambda>r. key (last (take n xs)) < key r) xs = drop n xs"
proof -
  let ?k = "key (last (take n xs))"
  have "take n xs \<noteq> []" using assms(3,4) by auto
  then have k: "?k = key (xs ! (n - 1))" using assms(3,4) last_conv_nth [of "take n xs"] by (simp add: min_def)
  have "key r \<le> ?k" if "r \<in> set (take n xs)" for r
  proof -
    obtain i where i: "i < n" "r = xs ! i" using \<open>r \<in> set (take n xs)\<close> assms(3) by (auto simp: in_set_conv_nth)
    then have "map key xs ! i \<le> map key xs ! (n - 1)" using assms(1,3) by (intro sorted_nth_mono) auto
    then show ?thesis using i assms(3) k by simp
  qed
  then have "filter (\<lambda>r. ?k < key r) (take n xs) = []" by (fastforce simp: filter_empty_conv)
  moreover have "?k < key r" if "r \<in> set (drop n xs)" for r
  proof -
    obtain i where i: "i < length xs - n" "r = xs ! (n + i)"
      using \<open>r \<in> set (drop n xs)\<close> by (auto simp: in_set_conv_nth)
    have "map key xs ! (n - 1) \<le> map key xs ! (n + i)" using assms(1,3) i(1) by (intro sorted_nth_mono) auto
    moreover have "map key xs ! (n - 1) \<noteq> map key xs ! (n + i)"
      using nth_eq_iff_index_eq [OF assms(2), of "n - 1" "n + i"] assms(3,4) i(1) by auto
    ultimately show ?thesis using i assms(3) k by simp
  qed
  then have "filter (\<lambda>r. ?k < key r) (drop n xs) = drop n xs" by (simp add: filter_id_conv)
  ultimately show ?thesis using filter_append [of "\<lambda>r. ?k < key r" "take n xs" "drop n xs"] by simp
qed

lemma sort_key_filter: "sort_key key (filter P rows) = filter P (sort_key key rows)"
  by (simp add: filter_sort)

lemma keyset_page_next:
  assumes "distinct (map key rows)" "keyset_page key after perPage rows = (items, Some token)"
  shows "sort_key key (filter (\<lambda>r. after < key r) rows) = items @ sort_key key (filter (\<lambda>r. token < key r) rows)"
    and "items \<noteq> []" and "after < token" and "token \<in> key ` set rows"
proof -
  define xs where "xs = sort_key key (filter (\<lambda>r. after < key r) rows)"
  define n where "n = nat (max 1 perPage)"
  have n: "0 < n" by (simp add: n_def)
  have len: "n < length xs" and items: "items = take n xs" and token: "token = key (last (take n xs))"
    using assms(2) unfolding keyset_page_def xs_def [symmetric] n_def [symmetric]
    by (auto simp: Let_def min_def split: if_splits)
  have sorted: "sorted (map key xs)" by (simp add: xs_def)
  have dist: "distinct (map key xs)" using assms(1) by (simp add: xs_def distinct_map inj_on_def)
  have above: "after < key r" if "r \<in> set xs" for r using \<open>r \<in> set xs\<close> by (simp add: xs_def)
  have last: "last (take n xs) \<in> set xs"
    using len n last_in_set [of "take n xs"] in_set_takeD [of _ n xs] by (cases xs) auto
  then show above_after: "after < token" using above token by blast
  show "token \<in> key ` set rows" using last token by (auto simp: xs_def)
  have "filter (\<lambda>r. token < key r) xs = drop n xs"
    unfolding token by (rule sorted_distinct_split [OF sorted dist len n])
  moreover have "filter (\<lambda>r. token < key r) (filter (\<lambda>r. after < key r) rows) = filter (\<lambda>r. token < key r) rows"
    using above_after by (auto intro!: filter_cong)
  then have "sort_key key (filter (\<lambda>r. token < key r) rows) = filter (\<lambda>r. token < key r) xs"
    by (simp add: xs_def sort_key_filter [symmetric])
  ultimately show "sort_key key (filter (\<lambda>r. after < key r) rows) = items @ sort_key key (filter (\<lambda>r. token < key r) rows)"
    using items unfolding xs_def [symmetric] by simp
  show "items \<noteq> []" using items len n by auto
qed

lemma keyset_page_last:
  "keyset_page key after perPage rows = (items, None) \<Longrightarrow> items = sort_key key (filter (\<lambda>r. after < key r) rows)"
  unfolding keyset_page_def by (auto simp: Let_def split: if_splits)

section \<open>The contract of a listing\<close>

text \<open>
  \<open>encode\<close> is the token of a key; \<open>start\<close> is the key that the empty token stands for.
\<close>

locale keyset_listing =
  fixes list_page :: "string \<Rightarrow> int \<Rightarrow> 's \<Rightarrow> ('r list \<times> string) result"
    and rows :: "'s \<Rightarrow> 'r list" and key :: "'r \<Rightarrow> 'k::linorder" and encode :: "'k \<Rightarrow> string" and start :: 'k
    and good :: "'s \<Rightarrow> bool"
  assumes first_law: "good s \<Longrightarrow> list_page [] n s = Inr (tokened encode (keyset_page key start n (rows s)))"
    and next_law: "good s \<Longrightarrow> r \<in> set (rows s) \<Longrightarrow>
      list_page (encode (key r)) n s = Inr (tokened encode (keyset_page key (key r) n (rows s)))"
    and key_law: "good s \<Longrightarrow> distinct (map key (rows s))"
    and start_law: "good s \<Longrightarrow> r \<in> set (rows s) \<Longrightarrow> start < key r \<and> encode (key r) \<noteq> []"
begin

lemma walk_rest:
  assumes "good s" "list_page token n s = Inr (tokened encode (keyset_page key k n (rows s)))"
    "length (filter (\<lambda>r. k < key r) (rows s)) < fuel"
  shows "walk_pages fuel (\<lambda>t. list_page t n s) token = Inr (sort_key key (filter (\<lambda>r. k < key r) (rows s)))"
  using assms(2,3)
proof (induction fuel arbitrary: token k)
  case (Suc fuel)
  obtain items more where page: "keyset_page key k n (rows s) = (items, more)" by fastforce
  show ?case
  proof (cases more)
    case None
    then show ?thesis using page Suc.prems(1) keyset_page_last [of key k n "rows s" items] by (simp add: tokened_def)
  next
    case (Some k')
    note np = keyset_page_next [OF key_law [OF assms(1)] page [unfolded Some]]
    obtain r where r: "r \<in> set (rows s)" "k' = key r" using np(4) by blast
    have "length (filter (\<lambda>r. k < key r) (rows s)) = length items + length (filter (\<lambda>r. k' < key r) (rows s))"
      using arg_cong [OF np(1), of length] by simp
    then have "length (filter (\<lambda>r. k' < key r) (rows s)) < fuel" using Suc.prems(2) np(2) by (cases items) auto
    from Suc.IH [OF _ this, of "encode k'"] have "walk_pages fuel (\<lambda>t. list_page t n s) (encode k')
        = Inr (sort_key key (filter (\<lambda>r. k' < key r) (rows s)))"
      using next_law [OF assms(1) r(1)] r(2) by blast
    then show ?thesis using Suc.prems(1) page Some np(1) start_law [OF assms(1) r(1)] r(2) by (simp add: tokened_def)
  qed
qed simp

lemma walk_complete:
  assumes "good s" "length (rows s) < fuel"
  shows "walk_pages fuel (\<lambda>t. list_page t n s) [] = Inr (sort_key key (rows s))"
proof -
  have all: "filter (\<lambda>r. start < key r) (rows s) = rows s"
    using start_law [OF assms(1)] by (simp add: filter_id_conv)
  show ?thesis using walk_rest [OF assms(1) first_law [OF assms(1)], of fuel n] assms(2) unfolding all by blast
qed

end

section \<open>Properties\<close>

text \<open>
  A page token made of comma-free parts, of which one at least is not empty, is read back as the
  parts it was made of.
\<close>

theorem PageTokenCodec_roundtrip:
  assumes "PageTokenCodec_Generate n parts = Some token" "\<forall>p\<in>set parts. CHR '','' \<notin> set p" "concat parts \<noteq> []"
  shows "PageTokenCodec_Parse n token = Inr parts"
proof -
  have token: "token = join_with CHR '','' parts" and n: "length parts = n"
    using assms(1) by (auto simp: PageTokenCodec_Generate_def split: if_splits)
  have ne: "parts \<noteq> []" using assms(3) by auto
  have split: "split_on CHR '','' token = parts" using split_join_with [OF ne] assms(2) token by blast
  have "token \<noteq> []"
  proof
    assume "token = []"
    then have "parts = [[]]" using split by simp
    then show False using assms(3) by simp
  qed
  with split show ?thesis using n by (simp add: PageTokenCodec_Parse_def)
qed

theorem PageTokenCodec_roundtrip_witness:
  "PageTokenCodec_Parse 2 ''runner,7'' = Inr [''runner'', ''7'']"
  by (rule PageTokenCodec_roundtrip) (simp_all add: PageTokenCodec_Generate_def)

end
