(* ===== verification/Scopes.thy ===== *)
theory Scopes
  imports Paging
begin

text \<open>
  The scopes environments live in: projects (\<^verbatim>\<open>internal/model/projects.go\<close>), environment types
  (\<^verbatim>\<open>internal/model/env_types.go\<close>) and runners (\<^verbatim>\<open>internal/model/runners.go\<close>).

  A foreign key is checked against the referenced table after the unique indexes, in the order the
  table declares them; \<^verbatim>\<open>ON DELETE CASCADE\<close> removes the dependent rules. The organisation's UUID that
  the rows carry next to its identifier is the one the caller read with the organisation, and its
  foreign key is not modelled. An optional value of a patch that is not set leaves the column alone
  (\<open>patched\<close>, \<^verbatim>\<open>COALESCE($n, column)\<close>).
\<close>

definition patched :: "'a option \<Rightarrow> 'a \<Rightarrow> 'a" where
  "patched new old = (case new of None \<Rightarrow> old | Some x \<Rightarrow> x)"

lemma patched_simps [simp]: "patched None old = old" "patched (Some x) old = x"
  by (simp_all add: patched_def)

section \<open>Projects\<close>

text \<open>
  The organisation check of \<^verbatim>\<open>ListProjects\<close> is outer-joined and then filtered by \<^verbatim>\<open>WHERE p.id > $2\<close>, which
  drops the row that would report a missing organisation.
\<close>

definition ListProjects :: "string \<Rightarrow> string \<Rightarrow> int \<Rightarrow> db \<Rightarrow> (Project list \<times> string) result" where
  "ListProjects orgId pageToken perPage s =
     Inr (tokened (\<lambda>k. k) (keyset_page pj_Id pageToken perPage
       (filter (\<lambda>p. List.member (orgs s) orgId \<and> pj_OrgId p = orgId) (projects s))))"

definition GetProject :: "string \<Rightarrow> string \<Rightarrow> db \<Rightarrow> Project result" where
  "GetProject orgId i s =
     require_some (NewErrNotFound ''project not found'') (find (\<lambda>p. pj_OrgId p = orgId \<and> pj_Id p = i) (projects s))"

definition GetProjectByUuid :: "string \<Rightarrow> uuid \<Rightarrow> db \<Rightarrow> Project result" where
  "GetProjectByUuid orgId u s =
     require_some (NewErrNotFound ''project not found'') (find (\<lambda>p. pj_OrgId p = orgId \<and> pj_Uuid p = u) (projects s))"

definition projects_constraints :: "(Project, string list) constraint list" where
  "projects_constraints =
     [(''projects_pkey'', \<lambda>p. Some [pj_OrgId p, pj_Id p]), (''projects_uuid_key'', \<lambda>p. Some [pj_Uuid p])]"

definition CreateProject :: "Project \<Rightarrow> uuid \<Rightarrow> db \<Rightarrow> (Project \<times> db) result" where
  "CreateProject request new_uuid s =
     (let row = request\<lparr>pj_Uuid := new_uuid\<rparr> in
      try_then
        (map_error (\<lambda>e. if isUniqueViolation e [''projects_pkey'', ''projects_uuid_key'']
            then NewErrConflict ''project already exists'' else e)
          (insert_row projects_constraints row (projects s))) (\<lambda>rows.
      fail_if (\<not> List.member (orgs s) (pj_OrgId request)) (NewErrConflict ''organization not found'')
      (Inr (row, s\<lparr>projects := rows\<rparr>))))"

record UpdateProjectParams =
  up_DisplayName :: "string option"
  up_Status :: "ProjectStatus option"
  up_UpdatedAt :: timestamp

definition UpdatedProject :: "string \<Rightarrow> string \<Rightarrow> UpdateProjectParams \<Rightarrow> db \<Rightarrow> (Project \<times> db) result" where
  "UpdatedProject orgId i params s =
     (let hit = (\<lambda>p. pj_OrgId p = orgId \<and> pj_Id p = i);
          change = (\<lambda>p. p\<lparr>pj_DisplayName := patched (up_DisplayName params) (pj_DisplayName p),
            pj_Status := patched (up_Status params) (pj_Status p), pj_UpdatedAt := up_UpdatedAt params\<rparr>) in
      try_then (require_some ErrNoRows (find hit (projects s))) (\<lambda>p.
      Inr (change p, s\<lparr>projects := upd_where hit change (projects s)\<rparr>)))"

definition DeleteProject :: "string \<Rightarrow> string \<Rightarrow> db \<Rightarrow> (unit \<times> db) result" where
  "DeleteProject orgId i s =
     try_then (require_some (NewErrNotFound ''project not found'')
         (find (\<lambda>p. pj_OrgId p = orgId \<and> pj_Id p = i) (projects s))) (\<lambda>p.
     fail_if (list_ex (\<lambda>e. en_OrgId e = orgId \<and> en_ProjectId e = i \<or> en_ProjectUuid e = pj_Uuid p) (envs s))
       (NewErrConflict ''project contains environments'')
     (Inr ((), s\<lparr>projects := filter (\<lambda>p. \<not> (pj_OrgId p = orgId \<and> pj_Id p = i)) (projects s)\<rparr>)))"

section \<open>Environment types\<close>

definition ListEnvironmentTypes :: "string \<Rightarrow> string \<Rightarrow> int \<Rightarrow> db \<Rightarrow> (EnvType list \<times> string) result" where
  "ListEnvironmentTypes orgId pageToken perPage s =
     Inr (tokened (\<lambda>k. k) (keyset_page et_Id pageToken perPage
       (filter (\<lambda>t. List.member (orgs s) orgId \<and> et_OrgId t = orgId) (env_types s))))"

definition GetEnvironmentType :: "string \<Rightarrow> string \<Rightarrow> db \<Rightarrow> EnvType result" where
  "GetEnvironmentType orgId i s =
     require_some (NewErrNotFound ''environment type not found'')
       (find (\<lambda>t. et_OrgId t = orgId \<and> et_Id t = i) (env_types s))"

definition env_types_constraints :: "(EnvType, string list) constraint list" where
  "env_types_constraints =
     [(''env_types_pkey'', \<lambda>t. Some [et_OrgId t, et_Id t]), (''env_types_uuid_key'', \<lambda>t. Some [et_Uuid t])]"

definition CreateEnvironmentType :: "EnvType \<Rightarrow> uuid \<Rightarrow> db \<Rightarrow> (EnvType \<times> db) result" where
  "CreateEnvironmentType request new_uuid s =
     (let row = request\<lparr>et_Uuid := new_uuid\<rparr> in
      try_then
        (map_error (\<lambda>e. if isUniqueViolation e [''env_types_pkey'', ''env_types_uuid_key'']
            then NewErrConflict ''environment type already exists'' else e)
          (insert_row env_types_constraints row (env_types s))) (\<lambda>rows.
      fail_if (\<not> List.member (orgs s) (et_OrgId request)) (NewErrConflict ''organization not found'')
      (Inr (row, s\<lparr>env_types := rows\<rparr>))))"

definition UpdateEnvironmentType ::
  "string \<Rightarrow> string \<Rightarrow> string option \<Rightarrow> bool option \<Rightarrow> db \<Rightarrow> (EnvType \<times> db) result" where
  "UpdateEnvironmentType orgId i displayName isProduction s =
     (let hit = (\<lambda>t. et_OrgId t = orgId \<and> et_Id t = i);
          change = (\<lambda>t. t\<lparr>et_DisplayName := patched displayName (et_DisplayName t),
            et_IsProduction := patched isProduction (et_IsProduction t)\<rparr>) in
      try_then (require_some (NewErrNotFound ''environment type not found'') (find hit (env_types s))) (\<lambda>t.
      Inr (change t, s\<lparr>env_types := upd_where hit change (env_types s)\<rparr>)))"

definition DeleteEnvironmentType :: "string \<Rightarrow> string \<Rightarrow> db \<Rightarrow> (unit \<times> db) result" where
  "DeleteEnvironmentType orgId i s =
     (let blocking = find (\<lambda>e. en_OrgId e = orgId \<and> en_EnvTypeId e = i) (envs s) in
      fail_if (case blocking of None \<Rightarrow> False | Some e \<Rightarrow> en_ProjectId e \<noteq> '''')
        (NewErrConflict ''environment type is in use by app'')
     (try_then (require_some (NewErrNotFound ''environment type not found'')
         (find (\<lambda>t. et_OrgId t = orgId \<and> et_Id t = i) (env_types s))) (\<lambda>t.
      fail_if (list_ex (\<lambda>e. en_EnvTypeUuid e = et_Uuid t) (envs s)) (ErrConstraint ''envs_env_type_uuid_fkey'')
     (fail_if (blocking \<noteq> None) (NewErrConflict ''environment type is in use'')
     (Inr ((), s\<lparr>env_types := filter (\<lambda>t. \<not> (et_OrgId t = orgId \<and> et_Id t = i)) (env_types s),
         definition_rules := filter (\<lambda>r. \<not> (ru_OrgId r = orgId \<and> ru_EnvTypeId r = Some i)) (definition_rules s),
         runner_rules := filter (\<lambda>r. \<not> (rr_OrgId r = orgId \<and> rr_EnvTypeId r = Some i)) (runner_rules s)\<rparr>))))))"

section \<open>Runners\<close>

text \<open>The listing does not select the secret reference.\<close>

definition ListRunners :: "string \<Rightarrow> string \<Rightarrow> int \<Rightarrow> db \<Rightarrow> (Runner list \<times> string) result" where
  "ListRunners orgId pageToken perPage s =
     Inr (tokened (\<lambda>k. k) (keyset_page rn_Id pageToken perPage
       (map (\<lambda>r. r\<lparr>rn_RunnerConfigurationSecret := None\<rparr>)
         (filter (\<lambda>r. List.member (orgs s) orgId \<and> rn_OrgId r = orgId) (runners s)))))"

definition GetRunner :: "string \<Rightarrow> string \<Rightarrow> db \<Rightarrow> Runner result" where
  "GetRunner orgId i s =
     require_some (NewErrNotFound ''runner not found'') (find (\<lambda>r. rn_OrgId r = orgId \<and> rn_Id r = i) (runners s))"

definition runners_constraints :: "(Runner, string list) constraint list" where
  "runners_constraints = [(''runners_pkey'', \<lambda>r. Some [rn_OrgId r, rn_Id r])]"

definition CreateRunner :: "Runner \<Rightarrow> db \<Rightarrow> (Runner \<times> db) result" where
  "CreateRunner request s =
     try_then
       (map_error (\<lambda>e. if isUniqueViolation e [''runners_pkey''] then NewErrConflict ''runner with id already exists'' else e)
         (insert_row runners_constraints request (runners s))) (\<lambda>rows.
     fail_if (\<not> List.member (orgs s) (rn_OrgId request)) (NewErrConflict ''organization not found'')
     (Inr (request, s\<lparr>runners := rows\<rparr>)))"

record RunnerPatch =
  rp_UpdatedAt :: timestamp
  rp_Description :: "string option"
  rp_RunnerConfiguration :: "json_object option"
  rp_RunnerConfigurationSecret :: "RunnerConfigurationSecret option"
  rp_StateStorageType :: "string option"
  rp_StateStorageConfiguration :: "json_object option"

definition patch_runner :: "RunnerPatch \<Rightarrow> Runner \<Rightarrow> Runner" where
  "patch_runner request r =
     r\<lparr>rn_Description := (case rp_Description request of None \<Rightarrow> rn_Description r | Some d \<Rightarrow> Some d),
       rn_RunnerConfiguration := patched (rp_RunnerConfiguration request) (rn_RunnerConfiguration r),
       rn_RunnerConfigurationSecret :=
         (case rp_RunnerConfigurationSecret request of None \<Rightarrow> rn_RunnerConfigurationSecret r | Some x \<Rightarrow> Some x),
       rn_StateStorageType := patched (rp_StateStorageType request) (rn_StateStorageType r),
       rn_StateStorageConfiguration := patched (rp_StateStorageConfiguration request) (rn_StateStorageConfiguration r),
       rn_UpdatedAt := rp_UpdatedAt request\<rparr>"

definition UpdateRunner :: "string \<Rightarrow> string \<Rightarrow> RunnerPatch \<Rightarrow> db \<Rightarrow> (Runner \<times> db) result" where
  "UpdateRunner orgId i request s =
     (let hit = (\<lambda>r. rn_OrgId r = orgId \<and> rn_Id r = i) in
      try_then (require_some ErrNoRows (find hit (runners s))) (\<lambda>r.
      fail_if (rn_RunnerType r = '''') (NewErrNotFound ''runner not found'')
      (Inr (patch_runner request r, s\<lparr>runners := upd_where hit (patch_runner request) (runners s)\<rparr>))))"

definition DeleteRunner :: "string \<Rightarrow> string \<Rightarrow> db \<Rightarrow> (unit \<times> db) result" where
  "DeleteRunner orgId i s =
     fail_if (\<not> list_ex (\<lambda>r. rn_OrgId r = orgId \<and> rn_Id r = i) (runners s)) (NewErrNotFound ''runner not found'')
     (fail_if (list_ex (\<lambda>e. en_OrgId e = orgId \<and> en_RunnerId e = Some i) (envs s))
        (NewErrConflict ''the runner is in use by an environment'')
     (Inr ((), s\<lparr>runners := filter (\<lambda>r. \<not> (rn_OrgId r = orgId \<and> rn_Id r = i)) (runners s),
         runner_rules := filter (\<lambda>r. \<not> (rr_OrgId r = orgId \<and> rr_RunnerId r = i)) (runner_rules s)\<rparr>)))"

section \<open>Listings as instances of the paging contract\<close>

definition listed_by_id :: "string list \<Rightarrow> bool" where
  "listed_by_id ids \<longleftrightarrow> distinct ids \<and> '''' \<notin> set ids"

lemma keyset_listing_by_id:
  assumes "\<And>token n s. good s \<Longrightarrow> list_page token n s = Inr (tokened (\<lambda>k. k) (keyset_page key token n (rows s)))"
    and "\<And>s. good s \<Longrightarrow> listed_by_id (map key (rows s))"
  shows "keyset_listing list_page rows key (\<lambda>k. k) ([]::string) good"
proof unfold_locales
  fix s r assume g: "good s" and r: "r \<in> set (rows s)"
  have "key r \<noteq> []" using assms(2) [OF g] r by (force simp: listed_by_id_def image_iff)
  then show "[] < key r \<and> key r \<noteq> []" by (cases "key r") auto
qed (use assms in \<open>auto simp: listed_by_id_def\<close>)

definition projects_of :: "string \<Rightarrow> db \<Rightarrow> Project list" where
  "projects_of org s = filter (\<lambda>p. pj_OrgId p = org) (projects s)"

interpretation project_listing:
  keyset_listing "ListProjects org" "projects_of org" pj_Id "\<lambda>k. k" "[]"
    "\<lambda>s. List.member (orgs s) org \<and> listed_by_id (map pj_Id (projects_of org s))" for org
  by (rule keyset_listing_by_id) (auto simp: ListProjects_def projects_of_def)

definition env_types_of :: "string \<Rightarrow> db \<Rightarrow> EnvType list" where
  "env_types_of org s = filter (\<lambda>t. et_OrgId t = org) (env_types s)"

interpretation env_type_listing:
  keyset_listing "ListEnvironmentTypes org" "env_types_of org" et_Id "\<lambda>k. k" "[]"
    "\<lambda>s. List.member (orgs s) org \<and> listed_by_id (map et_Id (env_types_of org s))" for org
  by (rule keyset_listing_by_id) (auto simp: ListEnvironmentTypes_def env_types_of_def)

definition runners_of :: "string \<Rightarrow> db \<Rightarrow> Runner list" where
  "runners_of org s = map (\<lambda>r. r\<lparr>rn_RunnerConfigurationSecret := None\<rparr>) (filter (\<lambda>r. rn_OrgId r = org) (runners s))"

interpretation runner_listing:
  keyset_listing "ListRunners org" "runners_of org" rn_Id "\<lambda>k. k" "[]"
    "\<lambda>s. List.member (orgs s) org \<and> listed_by_id (map rn_Id (runners_of org s))" for org
  by (rule keyset_listing_by_id) (auto simp: ListRunners_def runners_of_def)

end
