(* ===== verification/Environments.thy ===== *)
theory Environments
  imports Scopes
begin

text \<open>
  Environments (\<^verbatim>\<open>internal/model/envs.go\<close>): the four paginated listings, the two lookups, creation,
  deletion and the update statement with its deletion latch.

  The environment's identifier is unique within its project. \<^verbatim>\<open>ListEnvironments\<close> pages within one
  project by it and is an instance of the paging contract; \<^verbatim>\<open>ListEnvironmentsInOrg\<close> and
  \<^verbatim>\<open>ListEnvironmentsByRunnerId\<close> page across projects by the same identifier and are not.
\<close>

section \<open>Listings\<close>

definition of_env_types :: "string list option \<Rightarrow> Environment \<Rightarrow> bool" where
  "of_env_types byEnvTypeIds e \<longleftrightarrow> (case byEnvTypeIds of None \<Rightarrow> True | Some ts \<Rightarrow> List.member ts (en_EnvTypeId e))"

text \<open>\<^verbatim>\<open>project_check\<close> looks the project up by identifier alone, in any organisation.\<close>

definition ListEnvironments ::
  "string \<Rightarrow> string \<Rightarrow> string list option \<Rightarrow> string \<Rightarrow> int \<Rightarrow> db \<Rightarrow> (Environment list \<times> string) result" where
  "ListEnvironments orgId projectId byEnvTypeIds pageToken perPage s =
     fail_if (\<not> List.member (orgs s) orgId) (NewErrNotFound ''organization not found'')
     (fail_if (\<not> list_ex (\<lambda>p. pj_Id p = projectId) (projects s)) (NewErrNotFound ''project not found'')
     (Inr (tokened (\<lambda>k. k) (keyset_page en_Id pageToken perPage
       (filter (\<lambda>e. en_OrgId e = orgId \<and> en_ProjectId e = projectId \<and> of_env_types byEnvTypeIds e) (envs s))))))"

definition ListEnvironmentsInOrg ::
  "string \<Rightarrow> string list option \<Rightarrow> string \<Rightarrow> int \<Rightarrow> db \<Rightarrow> (Environment list \<times> string) result" where
  "ListEnvironmentsInOrg orgId byEnvTypeIds pageToken perPage s =
     fail_if (\<not> List.member (orgs s) orgId) (NewErrNotFound ''organization not found'')
     (Inr (tokened (\<lambda>k. k) (keyset_page en_Id pageToken perPage
       (filter (\<lambda>e. en_OrgId e = orgId \<and> of_env_types byEnvTypeIds e) (envs s)))))"

definition ListEnvironmentsByRunnerId ::
  "string \<Rightarrow> string \<Rightarrow> string \<Rightarrow> int \<Rightarrow> db \<Rightarrow> (Environment list \<times> string) result" where
  "ListEnvironmentsByRunnerId orgId runnerId pageToken perPage s =
     Inr (tokened (\<lambda>k. k) (keyset_page en_Id pageToken perPage
       (filter (\<lambda>e. en_OrgId e = orgId \<and> en_RunnerId e = Some runnerId) (envs s))))"

definition ListEnvironmentsByProjectUuid ::
  "string \<Rightarrow> uuid \<Rightarrow> string \<Rightarrow> int \<Rightarrow> db \<Rightarrow> (Environment list \<times> string) result" where
  "ListEnvironmentsByProjectUuid orgId projectUuid pageToken perPage s =
     fail_if (\<not> List.member (orgs s) orgId) (NewErrNotFound ''organization not found'')
     (fail_if (\<not> list_ex (\<lambda>p. pj_OrgId p = orgId \<and> pj_Uuid p = projectUuid) (projects s))
        (NewErrNotFound ''project not found'')
     (Inr (tokened (\<lambda>k. k) (keyset_page en_Id pageToken perPage
       (filter (\<lambda>e. en_OrgId e = orgId \<and> en_ProjectUuid e = projectUuid) (envs s))))))"

section \<open>Reading, creating, deleting\<close>

definition env_at :: "string \<Rightarrow> string \<Rightarrow> string \<Rightarrow> Environment \<Rightarrow> bool" where
  "env_at orgId projectId i e \<longleftrightarrow> en_OrgId e = orgId \<and> en_ProjectId e = projectId \<and> en_Id e = i"

definition GetEnvironment :: "string \<Rightarrow> string \<Rightarrow> string \<Rightarrow> db \<Rightarrow> Environment result" where
  "GetEnvironment orgId projectId i s =
     require_some (NewErrNotFound ''environment not found'') (find (env_at orgId projectId i) (envs s))"

definition GetEnvironmentByUuid :: "string \<Rightarrow> uuid \<Rightarrow> db \<Rightarrow> Environment result" where
  "GetEnvironmentByUuid orgId u s =
     require_some (NewErrNotFound ''environment not found'')
       (find (\<lambda>e. en_OrgId e = orgId \<and> en_Uuid e = u) (envs s))"

definition envs_constraints :: "(Environment, string list) constraint list" where
  "envs_constraints =
     [(''envs_pkey'', \<lambda>e. Some [en_OrgId e, en_ProjectId e, en_Id e]), (''envs_uuid_key'', \<lambda>e. Some [en_Uuid e])]"

definition runner_exists :: "string \<Rightarrow> string option \<Rightarrow> db \<Rightarrow> bool" where
  "runner_exists orgId runnerId s \<longleftrightarrow>
     (case runnerId of None \<Rightarrow> True | Some i \<Rightarrow> list_ex (\<lambda>r. rn_OrgId r = orgId \<and> rn_Id r = i) (runners s))"

definition CreateEnvironment :: "Environment \<Rightarrow> uuid \<Rightarrow> db \<Rightarrow> (Environment \<times> db) result" where
  "CreateEnvironment request new_uuid s =
     (let row = request\<lparr>en_Uuid := new_uuid, en_StatusMessage := None, en_DeletionForce := None,
            en_DeletionDeleteRules := None\<rparr> in
      try_then
        (map_error (\<lambda>e. if isUniqueViolation e [''envs_pkey'', ''envs_uuid_key'']
            then NewErrConflict ''environment already exists'' else e)
          (insert_row envs_constraints row (envs s))) (\<lambda>rows.
      fail_if (\<not> List.member (orgs s) (en_OrgId row)) (NewErrConflict ''organization not found'')
     (fail_if (\<not> list_ex (\<lambda>p. pj_Uuid p = en_ProjectUuid row) (projects s)) (ErrConstraint ''envs_project_uuid_fkey'')
     (fail_if (\<not> list_ex (\<lambda>t. et_Uuid t = en_EnvTypeUuid row) (env_types s)) (ErrConstraint ''envs_env_type_uuid_fkey'')
     (fail_if (\<not> list_ex (\<lambda>p. pj_OrgId p = en_OrgId row \<and> pj_Id p = en_ProjectId row) (projects s))
        (NewErrConflict ''project not found'')
     (fail_if (\<not> runner_exists (en_OrgId row) (en_RunnerId row) s) (ErrConstraint ''envs_org_id_runner_id_fkey'')
     (fail_if (\<not> list_ex (\<lambda>t. et_OrgId t = en_OrgId row \<and> et_Id t = en_EnvTypeId row) (env_types s))
        (NewErrConflict ''environment type not found'')
     (Inr (row\<lparr>en_StatusMessage := en_StatusMessage request\<rparr>, s\<lparr>envs := rows\<rparr>)))))))))"

definition DeleteEnvironment :: "string \<Rightarrow> string \<Rightarrow> string \<Rightarrow> db \<Rightarrow> (unit \<times> db) result" where
  "DeleteEnvironment orgId projectId i s =
     fail_if (\<not> list_ex (env_at orgId projectId i) (envs s)) (NewErrNotFound ''environment not found'')
     (Inr ((), s\<lparr>envs := filter (\<lambda>e. \<not> env_at orgId projectId i e) (envs s)\<rparr>))"

section \<open>Updating\<close>

fun EnvironmentStatus_text :: "EnvironmentStatus \<Rightarrow> string" where
  "EnvironmentStatus_text EnvironmentStatusActive = ''active''"
| "EnvironmentStatus_text EnvironmentStatusDeleting = ''deleting''"
| "EnvironmentStatus_text EnvironmentStatusDeleteFailed = ''delete_failed''"

definition allowedStatuses :: "EnvironmentStatus list" where
  "allowedStatuses = [EnvironmentStatusActive, EnvironmentStatusDeleting, EnvironmentStatusDeleteFailed]"

definition EnvironmentStatus_of_text :: "string \<Rightarrow> EnvironmentStatus option" where
  "EnvironmentStatus_of_text t = find (\<lambda>st. EnvironmentStatus_text st = t) allowedStatuses"

record EnvironmentDeletionPolicy =
  dp_Force :: bool
  dp_DeleteRules :: bool

record EnvironmentPatch =
  ep_DeletionPolicy :: "EnvironmentDeletionPolicy option"
  ep_RunnerId :: "string option"
  ep_Status :: "string option"
  ep_StatusMessage :: "string option"
  ep_DisplayName :: "string option"
  ep_Labels :: "(string \<times> string) list option"
  ep_UpdatedAt :: timestamp

text \<open>\<^verbatim>\<open>CASE WHEN $n IS NULL THEN column ELSE COALESCE(column, false) OR $n END\<close>.\<close>

definition latch :: "bool option \<Rightarrow> bool option \<Rightarrow> bool option" where
  "latch new old = (case new of None \<Rightarrow> old | Some b \<Rightarrow> Some ((case old of None \<Rightarrow> False | Some x \<Rightarrow> x) \<or> b))"

text \<open>The guard of the \<^verbatim>\<open>WHERE\<close> clause: a forced deletion only accepts the status \<^verbatim>\<open>deleting\<close>.\<close>

definition interrupts_force_deletion :: "EnvironmentStatus option \<Rightarrow> Environment \<Rightarrow> bool" where
  "interrupts_force_deletion status e \<longleftrightarrow>
     en_DeletionForce e = Some True
     \<and> (en_Status e = EnvironmentStatusDeleting \<or> en_Status e = EnvironmentStatusDeleteFailed)
     \<and> (case status of None \<Rightarrow> False | Some st \<Rightarrow> st \<noteq> EnvironmentStatusDeleting)"

definition patch_environment :: "EnvironmentPatch \<Rightarrow> EnvironmentStatus option \<Rightarrow> Environment \<Rightarrow> Environment" where
  "patch_environment request status e =
     e\<lparr>en_RunnerId := (case ep_RunnerId request of None \<Rightarrow> en_RunnerId e | Some r \<Rightarrow> Some r),
       en_Status := patched status (en_Status e),
       en_DeletionForce := latch (map_option dp_Force (ep_DeletionPolicy request)) (en_DeletionForce e),
       en_DeletionDeleteRules := latch (map_option dp_DeleteRules (ep_DeletionPolicy request)) (en_DeletionDeleteRules e),
       en_DisplayName := patched (ep_DisplayName request) (en_DisplayName e),
       en_Labels := patched (ep_Labels request) (en_Labels e),
       en_StatusMessage :=
         (case ep_StatusMessage request of
            Some m \<Rightarrow> Some m
          | None \<Rightarrow> (case status of None \<Rightarrow> en_StatusMessage e | Some _ \<Rightarrow> Some '''')),
       en_UpdatedAt := ep_UpdatedAt request\<rparr>"

text \<open>The clock reading 0 is Go's zero time.\<close>

definition UpdateEnvironment ::
  "string \<Rightarrow> string \<Rightarrow> string \<Rightarrow> EnvironmentPatch \<Rightarrow> db \<Rightarrow> (Environment \<times> db) result" where
  "UpdateEnvironment orgId projectId i request s =
     try_then
       (case ep_Status request of
          None \<Rightarrow> Inr None
        | Some t \<Rightarrow>
            (case EnvironmentStatus_of_text t of
               None \<Rightarrow> Inl (NewErrBadRequest ''unknown status'')
             | Some st \<Rightarrow> Inr (Some st))) (\<lambda>status.
     let hit = (\<lambda>e. env_at orgId projectId i e \<and> \<not> interrupts_force_deletion status e) in
     case find hit (envs s) of
       None \<Rightarrow>
         try_then (GetEnvironment orgId projectId i s)
           (\<lambda>_. Inl (NewErrConflict ''force deletion cannot be interrupted by a stale status update''))
     | Some e \<Rightarrow>
         fail_if (\<not> runner_exists orgId (ep_RunnerId request) s) (ErrConstraint ''envs_org_id_runner_id_fkey'')
        (fail_if (ep_UpdatedAt request = 0) (NewErrNotFound ''environment not found'')
        (Inr (patch_environment request status e,
           s\<lparr>envs := upd_where hit (patch_environment request status) (envs s)\<rparr>))))"

section \<open>Referential integrity\<close>

definition project_keys :: "db \<Rightarrow> (string \<times> string \<times> uuid) set" where
  "project_keys s = set (map (\<lambda>p. (pj_OrgId p, pj_Id p, pj_Uuid p)) (projects s))"

definition env_type_keys :: "db \<Rightarrow> (string \<times> string \<times> uuid) set" where
  "env_type_keys s = set (map (\<lambda>t. (et_OrgId t, et_Id t, et_Uuid t)) (env_types s))"

definition runner_keys :: "db \<Rightarrow> (string \<times> string) set" where
  "runner_keys s = set (map (\<lambda>r. (rn_OrgId r, rn_Id r)) (runners s))"

text \<open>Every foreign key of an environment has its row.\<close>

definition env_refs_ok :: "db \<Rightarrow> Environment \<Rightarrow> bool" where
  "env_refs_ok s e \<longleftrightarrow>
     en_OrgId e \<in> set (orgs s)
     \<and> (\<exists>u. (en_OrgId e, en_ProjectId e, u) \<in> project_keys s)
     \<and> (\<exists>org i. (org, i, en_ProjectUuid e) \<in> project_keys s)
     \<and> (\<exists>u. (en_OrgId e, en_EnvTypeId e, u) \<in> env_type_keys s)
     \<and> (\<exists>org i. (org, i, en_EnvTypeUuid e) \<in> env_type_keys s)
     \<and> (\<forall>i. en_RunnerId e = Some i \<longrightarrow> (en_OrgId e, i) \<in> runner_keys s)"

definition scopes_inv :: "db \<Rightarrow> bool" where
  "scopes_inv s \<longleftrightarrow>
     distinct (map (\<lambda>e. [en_OrgId e, en_ProjectId e, en_Id e]) (envs s)) \<and> distinct (map en_Uuid (envs s))
     \<and> distinct (map (\<lambda>p. [pj_OrgId p, pj_Id p]) (projects s)) \<and> distinct (map pj_Uuid (projects s))
     \<and> distinct (map (\<lambda>t. [et_OrgId t, et_Id t]) (env_types s)) \<and> distinct (map et_Uuid (env_types s))
     \<and> (\<forall>e\<in>set (envs s). env_refs_ok s e)"

text \<open>\<open>used\<close> are the UUIDs that no creation draws again.\<close>

inductive scope_step :: "uuid set \<Rightarrow> db \<Rightarrow> db \<Rightarrow> bool" for used where
  create_project: "CreateProject p u s = Inr (r1, s') \<Longrightarrow> scope_step used s s'"
| update_project: "UpdatedProject org i params s = Inr (r1, s') \<Longrightarrow> scope_step used s s'"
| delete_project: "DeleteProject org i s = Inr (x, s') \<Longrightarrow> scope_step used s s'"
| create_env_type: "CreateEnvironmentType t u s = Inr (r2, s') \<Longrightarrow> scope_step used s s'"
| update_env_type: "UpdateEnvironmentType org i name production s = Inr (r2, s') \<Longrightarrow> scope_step used s s'"
| delete_env_type: "DeleteEnvironmentType org i s = Inr (x, s') \<Longrightarrow> scope_step used s s'"
| create_runner: "CreateRunner r s = Inr (r3, s') \<Longrightarrow> scope_step used s s'"
| update_runner: "UpdateRunner org i rpatch s = Inr (r3, s') \<Longrightarrow> scope_step used s s'"
| delete_runner: "DeleteRunner org i s = Inr (x, s') \<Longrightarrow> scope_step used s s'"
| create_env: "CreateEnvironment e u s = Inr (r4, s') \<Longrightarrow> u \<notin> used \<Longrightarrow> scope_step used s s'"
| update_env: "UpdateEnvironment org project i patch s = Inr (r4, s') \<Longrightarrow> scope_step used s s'"
| delete_env: "DeleteEnvironment org project i s = Inr (x, s') \<Longrightarrow> scope_step used s s'"

text \<open>The tables that environments refer to may grow or be patched as long as the referenced keys stay.\<close>

definition refs_grow :: "db \<Rightarrow> db \<Rightarrow> bool" where
  "refs_grow s s' \<longleftrightarrow> orgs s' = orgs s \<and> project_keys s \<subseteq> project_keys s' \<and> env_type_keys s \<subseteq> env_type_keys s'
     \<and> runner_keys s \<subseteq> runner_keys s'"

lemma env_refs_ok_grow: "refs_grow s s' \<Longrightarrow> env_refs_ok s e \<Longrightarrow> env_refs_ok s' e"
  unfolding env_refs_ok_def refs_grow_def by (clarsimp simp: subset_iff) blast

lemma refs_grow_same:
  "orgs s' = orgs s \<Longrightarrow> projects s' = projects s \<Longrightarrow> env_types s' = env_types s \<Longrightarrow> runners s' = runners s \<Longrightarrow>
   refs_grow s s'"
  by (simp add: refs_grow_def project_keys_def env_type_keys_def runner_keys_def)

lemma runner_exists_keys: "runner_exists org r s \<longleftrightarrow> (\<forall>i. r = Some i \<longrightarrow> (org, i) \<in> runner_keys s)"
  by (cases r) (force simp: runner_exists_def runner_keys_def list_ex_iff)+

text \<open>An updated environment refers to what it referred to, but for a runner that exists.\<close>

lemma patch_environment_keeps [simp]:
  "en_OrgId (patch_environment q st e) = en_OrgId e" "en_ProjectId (patch_environment q st e) = en_ProjectId e"
  "en_ProjectUuid (patch_environment q st e) = en_ProjectUuid e" "en_Id (patch_environment q st e) = en_Id e"
  "en_EnvTypeId (patch_environment q st e) = en_EnvTypeId e" "en_EnvTypeUuid (patch_environment q st e) = en_EnvTypeUuid e"
  "en_Uuid (patch_environment q st e) = en_Uuid e"
  by (simp_all add: patch_environment_def)

lemma update_environment_Inr:
  assumes "UpdateEnvironment org project i q s = Inr (r, s')"
  shows "\<exists>status. s' = s\<lparr>envs := upd_where (\<lambda>e. env_at org project i e \<and> \<not> interrupts_force_deletion status e)
      (patch_environment q status) (envs s)\<rparr> \<and> runner_exists org (ep_RunnerId q) s"
proof -
  obtain status where "try_then (case find (\<lambda>e. env_at org project i e \<and> \<not> interrupts_force_deletion status e) (envs s) of
       None \<Rightarrow>
         try_then (GetEnvironment org project i s)
           (\<lambda>_. Inl (NewErrConflict ''force deletion cannot be interrupted by a stale status update''))
     | Some e \<Rightarrow>
         fail_if (\<not> runner_exists org (ep_RunnerId q) s) (ErrConstraint ''envs_org_id_runner_id_fkey'')
        (fail_if (ep_UpdatedAt q = 0) (NewErrNotFound ''environment not found'')
        (Inr (patch_environment q status e,
           s\<lparr>envs := upd_where (\<lambda>e. env_at org project i e \<and> \<not> interrupts_force_deletion status e)
             (patch_environment q status) (envs s)\<rparr>)))) Inr = Inr (r, s')"
    using assms unfolding UpdateEnvironment_def Let_def try_then_Inr_iff by auto
  then show ?thesis by (intro exI [of _ status]) (auto split: option.splits)
qed

lemma patched_refs:
  assumes "env_refs_ok s e" "runner_exists (en_OrgId e) (ep_RunnerId q) s"
  shows "env_refs_ok s (patch_environment q status e)"
  using assms by (cases "ep_RunnerId q") (auto simp: env_refs_ok_def patch_environment_def runner_exists_keys)

lemma scopes_inv_grow:
  assumes "scopes_inv s" "refs_grow s s'" "envs s' = envs s"
    and "distinct (map (\<lambda>p. [pj_OrgId p, pj_Id p]) (projects s')) \<and> distinct (map pj_Uuid (projects s'))
      \<and> distinct (map (\<lambda>t. [et_OrgId t, et_Id t]) (env_types s')) \<and> distinct (map et_Uuid (env_types s'))"
  shows "scopes_inv s'"
  using assms env_refs_ok_grow [OF assms(2)] by (simp add: scopes_inv_def)

lemma scope_tables_step:
  assumes inv: "scopes_inv s"
  shows "CreateProject p u s = Inr (r1, s') \<Longrightarrow> scopes_inv s'"
    and "UpdatedProject org i params s = Inr (r1, s') \<Longrightarrow> scopes_inv s'"
    and "CreateEnvironmentType t u s = Inr (r2, s') \<Longrightarrow> scopes_inv s'"
    and "UpdateEnvironmentType org i name production s = Inr (r2, s') \<Longrightarrow> scopes_inv s'"
    and "CreateRunner r s = Inr (r3, s') \<Longrightarrow> scopes_inv s'"
    and "UpdateRunner org i rpatch s = Inr (r3, s') \<Longrightarrow> scopes_inv s'"
proof -
  note keys = refs_grow_def project_keys_def env_type_keys_def runner_keys_def
  note d = inv [unfolded scopes_inv_def]
  show "CreateProject p u s = Inr (r1, s') \<Longrightarrow> scopes_inv s'"
  proof -
    assume "CreateProject p u s = Inr (r1, s')"
    then obtain row rows where i: "insert_row projects_constraints row (projects s) = Inr rows" and s': "s' = s\<lparr>projects := rows\<rparr>"
      by (auto simp: CreateProject_def Let_def)
    have "distinct (map (\<lambda>p. [pj_OrgId p, pj_Id p]) rows)" "distinct (map pj_Uuid rows)"
      using d by (auto intro!: insert_row_distinct [OF i] insert_row_distinct1 [OF i] simp: projects_constraints_def)
    then show ?thesis using i d s' by (intro scopes_inv_grow [OF inv]) (auto simp: keys insert_row_Inr_iff)
  qed
  show "CreateEnvironmentType t u s = Inr (r2, s') \<Longrightarrow> scopes_inv s'"
  proof -
    assume "CreateEnvironmentType t u s = Inr (r2, s')"
    then obtain row rows where i: "insert_row env_types_constraints row (env_types s) = Inr rows" and s': "s' = s\<lparr>env_types := rows\<rparr>"
      by (auto simp: CreateEnvironmentType_def Let_def)
    have "distinct (map (\<lambda>t. [et_OrgId t, et_Id t]) rows)" "distinct (map et_Uuid rows)"
      using d by (auto intro!: insert_row_distinct [OF i] insert_row_distinct1 [OF i] simp: env_types_constraints_def)
    then show ?thesis using i d s' by (intro scopes_inv_grow [OF inv]) (auto simp: keys insert_row_Inr_iff)
  qed
  show "CreateRunner r s = Inr (r3, s') \<Longrightarrow> scopes_inv s'"
    using d by (intro scopes_inv_grow [OF inv]) (auto simp: CreateRunner_def keys insert_row_Inr_iff)
  show "UpdatedProject org i params s = Inr (r1, s') \<Longrightarrow> scopes_inv s'"
    using inv by (intro scopes_inv_grow [OF inv])
      (auto simp: UpdatedProject_def Let_def keys scopes_inv_def map_upd_where simp del: set_map)
  show "UpdateEnvironmentType org i name production s = Inr (r2, s') \<Longrightarrow> scopes_inv s'"
    using inv by (intro scopes_inv_grow [OF inv])
      (auto simp: UpdateEnvironmentType_def Let_def keys scopes_inv_def map_upd_where simp del: set_map)
  show "UpdateRunner org i rpatch s = Inr (r3, s') \<Longrightarrow> scopes_inv s'"
    using inv by (intro scopes_inv_grow [OF inv])
      (auto simp: UpdateRunner_def Let_def keys scopes_inv_def map_upd_where patch_runner_def simp del: set_map)
qed

text \<open>Deletions keep what an environment refers to.\<close>

lemma refs_ok_filtered:
  assumes "env_refs_ok s e" "orgs s' = orgs s"
    and "\<And>k. k \<in> project_keys s \<Longrightarrow> fst k = en_OrgId e \<and> fst (snd k) = en_ProjectId e \<or> snd (snd k) = en_ProjectUuid e \<Longrightarrow>
      k \<in> project_keys s'"
    and "\<And>k. k \<in> env_type_keys s \<Longrightarrow> fst k = en_OrgId e \<and> fst (snd k) = en_EnvTypeId e \<or> snd (snd k) = en_EnvTypeUuid e \<Longrightarrow>
      k \<in> env_type_keys s'"
    and "\<And>i. en_RunnerId e = Some i \<Longrightarrow> (en_OrgId e, i) \<in> runner_keys s \<Longrightarrow> (en_OrgId e, i) \<in> runner_keys s'"
  shows "env_refs_ok s' e"
proof -
  note r = assms(1) [unfolded env_refs_ok_def]
  obtain u org i where "(en_OrgId e, en_ProjectId e, u) \<in> project_keys s'" "(org, i, en_ProjectUuid e) \<in> project_keys s'"
    using r assms(3) by fastforce
  moreover obtain u org i where "(en_OrgId e, en_EnvTypeId e, u) \<in> env_type_keys s'" "(org, i, en_EnvTypeUuid e) \<in> env_type_keys s'"
    using r assms(4) by fastforce
  ultimately show ?thesis using r assms(2,5) unfolding env_refs_ok_def by metis
qed

lemma delete_project_preserves:
  assumes inv: "scopes_inv s" and del: "DeleteProject org i s = Inr (x, s')"
  shows "scopes_inv s'"
proof -
  obtain p where p: "find (\<lambda>p. pj_OrgId p = org \<and> pj_Id p = i) (projects s) = Some p"
    and none: "\<not> list_ex (\<lambda>e. en_OrgId e = org \<and> en_ProjectId e = i \<or> en_ProjectUuid e = pj_Uuid p) (envs s)"
    and s': "s' = s\<lparr>projects := filter (\<lambda>p. \<not> (pj_OrgId p = org \<and> pj_Id p = i)) (projects s)\<rparr>"
    using del by (auto simp: DeleteProject_def)
  note pin = find_in_set [OF p]
  have uniq: "q = p" if "q \<in> set (projects s)" "pj_OrgId q = org" "pj_Id q = i" for q
    using unique_key_eq [of "\<lambda>p. [pj_OrgId p, pj_Id p]" "projects s" q p] that pin inv by (simp add: scopes_inv_def)
  have "env_refs_ok s' e" if e: "e \<in> set (envs s)" for e
  proof (rule refs_ok_filtered)
    show "env_refs_ok s e" using inv e by (simp add: scopes_inv_def)
    fix k assume k: "k \<in> project_keys s" "fst k = en_OrgId e \<and> fst (snd k) = en_ProjectId e \<or> snd (snd k) = en_ProjectUuid e"
    then obtain q where q: "q \<in> set (projects s)" "k = (pj_OrgId q, pj_Id q, pj_Uuid q)" by (auto simp: project_keys_def)
    have "\<not> (pj_OrgId q = org \<and> pj_Id q = i)"
      using none e k(2) q(2) uniq [OF q(1)] by (auto simp: list_ex_iff)
    then show "k \<in> project_keys s'" using q s' by (auto simp: project_keys_def)
  qed (simp_all add: s' env_type_keys_def runner_keys_def)
  then show ?thesis using inv s' by (simp add: scopes_inv_def distinct_map_filter)
qed

lemma delete_env_type_preserves:
  assumes inv: "scopes_inv s" and del: "DeleteEnvironmentType org i s = Inr (x, s')"
  shows "scopes_inv s'"
proof -
  obtain t where t: "find (\<lambda>t. et_OrgId t = org \<and> et_Id t = i) (env_types s) = Some t"
    and none: "\<not> list_ex (\<lambda>e. en_EnvTypeUuid e = et_Uuid t) (envs s)"
      "find (\<lambda>e. en_OrgId e = org \<and> en_EnvTypeId e = i) (envs s) = None"
    and s': "s' = s\<lparr>env_types := filter (\<lambda>t. \<not> (et_OrgId t = org \<and> et_Id t = i)) (env_types s),
         definition_rules := filter (\<lambda>r. \<not> (ru_OrgId r = org \<and> ru_EnvTypeId r = Some i)) (definition_rules s),
         runner_rules := filter (\<lambda>r. \<not> (rr_OrgId r = org \<and> rr_EnvTypeId r = Some i)) (runner_rules s)\<rparr>"
    using del by (auto simp: DeleteEnvironmentType_def Let_def)
  note tin = find_in_set [OF t]
  have uniq: "q = t" if "q \<in> set (env_types s)" "et_OrgId q = org" "et_Id q = i" for q
    using unique_key_eq [of "\<lambda>t. [et_OrgId t, et_Id t]" "env_types s" q t] that tin inv by (simp add: scopes_inv_def)
  have "env_refs_ok s' e" if e: "e \<in> set (envs s)" for e
  proof (rule refs_ok_filtered)
    show "env_refs_ok s e" using inv e by (simp add: scopes_inv_def)
    fix k assume k: "k \<in> env_type_keys s" "fst k = en_OrgId e \<and> fst (snd k) = en_EnvTypeId e \<or> snd (snd k) = en_EnvTypeUuid e"
    then obtain q where q: "q \<in> set (env_types s)" "k = (et_OrgId q, et_Id q, et_Uuid q)" by (auto simp: env_type_keys_def)
    have "\<not> (et_OrgId q = org \<and> et_Id q = i)"
      using none e k(2) q(2) uniq [OF q(1)] by (auto simp: list_ex_iff find_None_iff)
    then show "k \<in> env_type_keys s'" using q s' by (auto simp: env_type_keys_def)
  qed (simp_all add: s' project_keys_def runner_keys_def)
  then show ?thesis using inv s' by (simp add: scopes_inv_def distinct_map_filter)
qed

lemma delete_runner_preserves:
  assumes inv: "scopes_inv s" and del: "DeleteRunner org i s = Inr (x, s')"
  shows "scopes_inv s'"
proof -
  have none: "\<not> list_ex (\<lambda>e. en_OrgId e = org \<and> en_RunnerId e = Some i) (envs s)"
    and s': "s' = s\<lparr>runners := filter (\<lambda>r. \<not> (rn_OrgId r = org \<and> rn_Id r = i)) (runners s),
         runner_rules := filter (\<lambda>r. \<not> (rr_OrgId r = org \<and> rr_RunnerId r = i)) (runner_rules s)\<rparr>"
    using del by (auto simp: DeleteRunner_def)
  have "env_refs_ok s' e" if e: "e \<in> set (envs s)" for e
  proof (rule refs_ok_filtered)
    show "env_refs_ok s e" using inv e by (simp add: scopes_inv_def)
    fix j assume j: "en_RunnerId e = Some j" "(en_OrgId e, j) \<in> runner_keys s"
    then obtain r where r: "r \<in> set (runners s)" "rn_OrgId r = en_OrgId e" "rn_Id r = j" by (auto simp: runner_keys_def)
    then have "\<not> (rn_OrgId r = org \<and> rn_Id r = i)" using none e j by (auto simp: list_ex_iff)
    then show "(en_OrgId e, j) \<in> runner_keys s'" using r s' by (auto simp: runner_keys_def image_iff)
  qed (simp_all add: s' project_keys_def env_type_keys_def)
  then show ?thesis using inv s' by (simp add: scopes_inv_def)
qed

lemma create_env_preserves:
  assumes inv: "scopes_inv s" and c: "CreateEnvironment q u s = Inr (r, s')"
  shows "scopes_inv s' \<and> (\<exists>row. envs s' = envs s @ [row] \<and> en_Uuid row = u)"
proof -
  obtain row rows where i: "insert_row envs_constraints row (envs s) = Inr rows" and s': "s' = s\<lparr>envs := rows\<rparr>"
    and row: "en_Uuid row = u" "en_OrgId row \<in> set (orgs s)"
    and refs: "list_ex (\<lambda>p. pj_Uuid p = en_ProjectUuid row) (projects s)" "list_ex (\<lambda>t. et_Uuid t = en_EnvTypeUuid row) (env_types s)"
      "list_ex (\<lambda>p. pj_OrgId p = en_OrgId row \<and> pj_Id p = en_ProjectId row) (projects s)"
      "runner_exists (en_OrgId row) (en_RunnerId row) s"
      "list_ex (\<lambda>t. et_OrgId t = en_OrgId row \<and> et_Id t = en_EnvTypeId row) (env_types s)"
    using c by (auto simp: CreateEnvironment_def Let_def)
  have grow: "refs_grow s s'" using s' by (simp add: refs_grow_same)
  have "\<exists>u. (en_OrgId row, en_ProjectId row, u) \<in> project_keys s" "\<exists>org i. (org, i, en_ProjectUuid row) \<in> project_keys s"
    "\<exists>u. (en_OrgId row, en_EnvTypeId row, u) \<in> env_type_keys s" "\<exists>org i. (org, i, en_EnvTypeUuid row) \<in> env_type_keys s"
    using refs(1,2,3,5) unfolding list_ex_iff project_keys_def env_type_keys_def by force+
  then have "env_refs_ok s row" using row refs(4) by (simp add: env_refs_ok_def runner_exists_keys)
  then have "env_refs_ok s' e" if "e \<in> set (envs s) \<or> e = row" for e
    using that inv env_refs_ok_grow [OF grow] by (auto simp: scopes_inv_def)
  moreover have "distinct (map (\<lambda>e. [en_OrgId e, en_ProjectId e, en_Id e]) rows)" "distinct (map en_Uuid rows)"
    using inv by (auto intro!: insert_row_distinct [OF i] insert_row_distinct1 [OF i] simp: envs_constraints_def scopes_inv_def)
  ultimately show ?thesis using inv s' i row(1) by (auto simp: scopes_inv_def insert_row_Inr_iff)
qed

lemma update_env_preserves:
  assumes inv: "scopes_inv s" and c: "UpdateEnvironment org project i q s = Inr (r, s')"
  shows "scopes_inv s'"
proof -
  obtain status where s': "s' = s\<lparr>envs := upd_where (\<lambda>e. env_at org project i e \<and> \<not> interrupts_force_deletion status e)
      (patch_environment q status) (envs s)\<rparr>" and run: "runner_exists org (ep_RunnerId q) s"
    using update_environment_Inr [OF c] by blast
  have grow: "refs_grow s s'" using s' by (simp add: refs_grow_same)
  have "env_refs_ok s e'" if e': "e' \<in> set (envs s')" for e'
  proof -
    obtain e where e: "e \<in> set (envs s)"
      "e' = (if env_at org project i e \<and> \<not> interrupts_force_deletion status e then patch_environment q status e else e)"
      using e' s' by (auto simp: in_upd_where)
    then show ?thesis using inv run patched_refs [of s e q status] by (auto simp: scopes_inv_def env_at_def)
  qed
  then have "\<forall>e\<in>set (envs s'). env_refs_ok s' e" using env_refs_ok_grow [OF grow] by blast
  then show ?thesis using inv s' by (simp add: scopes_inv_def map_upd_where)
qed

lemma scope_step_preserves:
  assumes "scope_step used s s'" "scopes_inv s"
  shows "scopes_inv s'"
  using assms
proof cases
  case (delete_env org project i x)
  then obtain P where s': "s' = s\<lparr>envs := filter P (envs s)\<rparr>" by (auto simp: DeleteEnvironment_def)
  then have "refs_grow s s'" by (simp add: refs_grow_same)
  then show ?thesis using assms(2) s' env_refs_ok_grow by (auto simp: scopes_inv_def distinct_map_filter)
next
  case create_project
  then show ?thesis by (rule scope_tables_step(1) [OF assms(2)])
next
  case update_project
  then show ?thesis by (rule scope_tables_step(2) [OF assms(2)])
next
  case delete_project
  then show ?thesis by (rule delete_project_preserves [OF assms(2)])
next
  case create_env_type
  then show ?thesis by (rule scope_tables_step(3) [OF assms(2)])
next
  case update_env_type
  then show ?thesis by (rule scope_tables_step(4) [OF assms(2)])
next
  case delete_env_type
  then show ?thesis by (rule delete_env_type_preserves [OF assms(2)])
next
  case create_runner
  then show ?thesis by (rule scope_tables_step(5) [OF assms(2)])
next
  case update_runner
  then show ?thesis by (rule scope_tables_step(6) [OF assms(2)])
next
  case delete_runner
  then show ?thesis by (rule delete_runner_preserves [OF assms(2)])
next
  case create_env
  then show ?thesis using create_env_preserves [OF assms(2)] by blast
next
  case update_env
  then show ?thesis by (rule update_env_preserves [OF assms(2)])
qed

section \<open>Forced deletion\<close>

definition force_deleting :: "Environment \<Rightarrow> bool" where
  "force_deleting e \<longleftrightarrow> en_DeletionForce e = Some True
     \<and> (en_Status e = EnvironmentStatusDeleting \<or> en_Status e = EnvironmentStatusDeleteFailed)"

text \<open>What a step leaves of an environment whose forced deletion has begun.\<close>

definition latched :: "Environment \<Rightarrow> Environment \<Rightarrow> bool" where
  "latched e e' \<longleftrightarrow> force_deleting e'
     \<and> (en_Status e = EnvironmentStatusDeleting \<longrightarrow> en_Status e' = EnvironmentStatusDeleting)"

lemma latch_true: "latch new (Some True) = Some True"
  by (simp add: latch_def split: option.splits)

lemma patched_latched:
  assumes "force_deleting e" "\<not> interrupts_force_deletion status e"
  shows "latched e (patch_environment q status e)"
  using assms by (cases status)
    (auto simp: latched_def force_deleting_def interrupts_force_deletion_def patch_environment_def latch_true)

lemma envs_unchanged:
  "CreateProject p u s = Inr (r1, s') \<Longrightarrow> envs s' = envs s"
  "UpdatedProject org i params s = Inr (r1, s') \<Longrightarrow> envs s' = envs s"
  "DeleteProject org i s = Inr (x, s') \<Longrightarrow> envs s' = envs s"
  "CreateEnvironmentType t u s = Inr (r2, s') \<Longrightarrow> envs s' = envs s"
  "UpdateEnvironmentType org i name production s = Inr (r2, s') \<Longrightarrow> envs s' = envs s"
  "DeleteEnvironmentType org i s = Inr (x, s') \<Longrightarrow> envs s' = envs s"
  "CreateRunner r s = Inr (r3, s') \<Longrightarrow> envs s' = envs s"
  "UpdateRunner org i rpatch s = Inr (r3, s') \<Longrightarrow> envs s' = envs s"
  "DeleteRunner org i s = Inr (x, s') \<Longrightarrow> envs s' = envs s"
  by (auto simp: CreateProject_def UpdatedProject_def DeleteProject_def CreateEnvironmentType_def UpdateEnvironmentType_def
      DeleteEnvironmentType_def CreateRunner_def UpdateRunner_def DeleteRunner_def Let_def)

lemma scope_step_latched:
  assumes "scope_step used s s'" "scopes_inv s" "e' \<in> set (envs s')" "en_Uuid e' \<in> used"
  shows "\<exists>e\<in>set (envs s). en_Uuid e = en_Uuid e' \<and> (force_deleting e \<longrightarrow> latched e e')"
proof -
  have refl: "force_deleting e \<longrightarrow> latched e e" for e by (simp add: latched_def)
  have same: ?thesis if "envs s' = envs s" using assms(3) that refl by auto
  from assms(1) show ?thesis
  proof cases
    case (create_env q u r)
    then show ?thesis using create_env_preserves [OF assms(2) create_env(1)] assms(3,4) refl by auto
  next
    case (update_env org project i q r)
    obtain status where s': "s' = s\<lparr>envs := upd_where (\<lambda>e. env_at org project i e \<and> \<not> interrupts_force_deletion status e)
        (patch_environment q status) (envs s)\<rparr>"
      using update_environment_Inr [OF update_env] by blast
    obtain e where e: "e \<in> set (envs s)" "e' = (if env_at org project i e \<and> \<not> interrupts_force_deletion status e
        then patch_environment q status e else e)" using assms(3) unfolding s' by (auto simp: in_upd_where)
    show ?thesis using e patched_latched [of e status q] refl by (intro bexI [of _ e]) auto
  next
    case (delete_env org project i x)
    then have "e' \<in> set (envs s)" using assms(3) by (auto simp: DeleteEnvironment_def)
    then show ?thesis using refl by blast
  qed (rule same, erule envs_unchanged)+
qed

section \<open>A database with two projects\<close>

definition example_project :: "string \<Rightarrow> uuid \<Rightarrow> Project" where
  "example_project i u = \<lparr>pj_Id = i, pj_Uuid = u, pj_DisplayName = i, pj_CreatedAt = 1, pj_UpdatedAt = 1,
     pj_OrgId = ''acme'', pj_OrgUuid = ''o1'', pj_Status = ProjectStatusActive\<rparr>"

definition example_env :: "string \<Rightarrow> uuid \<Rightarrow> uuid \<Rightarrow> bool option \<Rightarrow> EnvironmentStatus \<Rightarrow> Environment" where
  "example_env project pu u force status = \<lparr>en_OrgId = ''acme'', en_ProjectId = project, en_ProjectUuid = pu, en_Id = ''dev'',
     en_EnvTypeId = ''test'', en_EnvTypeUuid = ''et'', en_OrgUuid = ''o1'', en_Uuid = u, en_DisplayName = ''dev'',
     en_CreatedAt = 1, en_UpdatedAt = 1, en_RunnerId = None, en_Status = status, en_StatusMessage = None, en_Labels = [],
     en_DeletionForce = force, en_DeletionDeleteRules = force\<rparr>"

definition example_scopes_db :: db where
  "example_scopes_db = empty_db\<lparr>orgs := [''acme''],
     projects := [example_project ''a'' ''pa'', example_project ''b'' ''pb''],
     env_types := [\<lparr>et_OrgId = ''acme'', et_OrgUuid = ''o1'', et_Id = ''test'', et_Uuid = ''et'', et_DisplayName = ''test'',
       et_IsProduction = False, et_CreatedAt = 1\<rparr>],
     envs := [example_env ''a'' ''pa'' ''e1'' (Some True) EnvironmentStatusDeleting,
       example_env ''b'' ''pb'' ''e2'' None EnvironmentStatusActive]\<rparr>"

definition example_patch :: "string option \<Rightarrow> EnvironmentPatch" where
  "example_patch status = \<lparr>ep_DeletionPolicy = None, ep_RunnerId = None, ep_Status = status, ep_StatusMessage = None,
     ep_DisplayName = Some ''renamed'', ep_Labels = None, ep_UpdatedAt = 2\<rparr>"

lemma example_scopes_inv: "scopes_inv example_scopes_db"
  by (simp add: scopes_inv_def example_scopes_db_def example_env_def example_project_def env_refs_ok_def project_keys_def
      env_type_keys_def)

lemma example_rename:
  "\<exists>e s'. UpdateEnvironment ''acme'' ''a'' ''dev'' (example_patch None) example_scopes_db = Inr (e, s')
     \<and> (\<exists>e'\<in>set (envs s'). en_Uuid e' = ''e1'' \<and> en_DisplayName e' = ''renamed'')"
  by (simp add: UpdateEnvironment_def example_patch_def example_scopes_db_def example_env_def env_at_def
      interrupts_force_deletion_def runner_exists_def patch_environment_def)

section \<open>Listings\<close>

definition envs_of_project :: "string \<Rightarrow> string \<Rightarrow> string list option \<Rightarrow> db \<Rightarrow> Environment list" where
  "envs_of_project org project ts s =
     filter (\<lambda>e. en_OrgId e = org \<and> en_ProjectId e = project \<and> of_env_types ts e) (envs s)"

interpretation env_listing:
  keyset_listing "ListEnvironments org project ts" "envs_of_project org project ts" en_Id "\<lambda>k. k" "[]"
    "\<lambda>s. List.member (orgs s) org \<and> list_ex (\<lambda>p. pj_Id p = project) (projects s)
       \<and> listed_by_id (map en_Id (envs_of_project org project ts s))" for org project ts
  by (rule keyset_listing_by_id) (auto simp: ListEnvironments_def envs_of_project_def)

definition envs_of_project_uuid :: "string \<Rightarrow> uuid \<Rightarrow> db \<Rightarrow> Environment list" where
  "envs_of_project_uuid org u s = filter (\<lambda>e. en_OrgId e = org \<and> en_ProjectUuid e = u) (envs s)"

interpretation env_listing_by_uuid:
  keyset_listing "ListEnvironmentsByProjectUuid org u" "envs_of_project_uuid org u" en_Id "\<lambda>k. k" "[]"
    "\<lambda>s. List.member (orgs s) org \<and> list_ex (\<lambda>p. pj_OrgId p = org \<and> pj_Uuid p = u) (projects s)
       \<and> listed_by_id (map en_Id (envs_of_project_uuid org u s))" for org u
  by (rule keyset_listing_by_id) (auto simp: ListEnvironmentsByProjectUuid_def envs_of_project_uuid_def)

lemma env_ids_in_project:
  assumes "scopes_inv s" "\<And>e. e \<in> set (envs s) \<Longrightarrow> en_Id e \<noteq> ''''"
  shows "listed_by_id (map en_Id (envs_of_project org project ts s))"
proof -
  have inj: "e = e'" if "e \<in> set (envs s)" "e' \<in> set (envs s)" "en_OrgId e = en_OrgId e'" "en_ProjectId e = en_ProjectId e'"
    "en_Id e = en_Id e'" for e e'
    using unique_key_eq [of "\<lambda>e. [en_OrgId e, en_ProjectId e, en_Id e]" "envs s" e e'] that assms(1) by (simp add: scopes_inv_def)
  have "distinct (envs s)" using assms(1) by (auto simp: scopes_inv_def distinct_map)
  then have "distinct (map en_Id (envs_of_project org project ts s))"
    using inj by (auto simp: envs_of_project_def distinct_map inj_on_def)
  then show ?thesis using assms(2) by (force simp: listed_by_id_def envs_of_project_def)
qed

section \<open>Properties\<close>

text \<open>
  Every operation on projects, environment types, runners and environments keeps names and UUIDs
  unique and never leaves an environment whose organisation, project, type or runner does not exist.
\<close>

theorem scope_integrity:
  assumes "(scope_step used)\<^sup>*\<^sup>* s s'" "scopes_inv s"
  shows "scopes_inv s'"
  using assms by (induction rule: rtranclp_induct) (auto intro: scope_step_preserves)

theorem scope_integrity_witness:
  "\<exists>e s'. UpdateEnvironment ''acme'' ''a'' ''dev'' (example_patch None) example_scopes_db = Inr (e, s') \<and> scopes_inv s'"
proof -
  obtain e s' where u: "UpdateEnvironment ''acme'' ''a'' ''dev'' (example_patch None) example_scopes_db = Inr (e, s')"
    using example_rename by blast
  have "(scope_step {})\<^sup>*\<^sup>* example_scopes_db s'" using update_env [OF u] by (rule r_into_rtranclp)
  from scope_integrity [OF this example_scopes_inv] u show ?thesis by blast
qed

text \<open>
  C36. Once an environment is being deleted with the force policy, no sequence of operations makes it
  active again or drops the policy: as long as the row exists it is deleting or delete-failed, and once
  deleting it stays deleting.
\<close>

theorem force_deletion_latch:
  assumes "(scope_step used)\<^sup>*\<^sup>* s s'" "scopes_inv s" "e \<in> set (envs s)" "force_deleting e" "en_Uuid e \<in> used"
    and "e' \<in> set (envs s')" "en_Uuid e' = en_Uuid e"
  shows "latched e e'"
  using assms(1,6,7)
proof (induction arbitrary: e' rule: rtranclp_induct)
  case base
  then have "e' = e" using unique_key_eq [of en_Uuid "envs s" e' e] assms(2,3) by (simp add: scopes_inv_def)
  then show ?case using assms(4) by (simp add: latched_def)
next
  case (step t u)
  have inv: "scopes_inv t" using step.hyps(1) assms(2)
    by (induction rule: rtranclp_induct) (auto intro: scope_step_preserves)
  obtain x where x: "x \<in> set (envs t)" "en_Uuid x = en_Uuid e'" "force_deleting x \<longrightarrow> latched x e'"
    using scope_step_latched [OF step.hyps(2) inv step.prems(1)] assms(5) step.prems(2) by auto
  have "latched e x" using step.IH [OF x(1)] x(2) step.prems(2) by simp
  then show ?case using x(3) by (auto simp: latched_def)
qed

theorem force_deletion_latch_witness:
  "\<exists>e s'. UpdateEnvironment ''acme'' ''a'' ''dev'' (example_patch None) example_scopes_db = Inr (e, s')
     \<and> (\<exists>e'\<in>set (envs s'). en_DisplayName e' = ''renamed'' \<and> en_Status e' = EnvironmentStatusDeleting)"
proof -
  obtain e s' where u: "UpdateEnvironment ''acme'' ''a'' ''dev'' (example_patch None) example_scopes_db = Inr (e, s')"
    and "\<exists>e'\<in>set (envs s'). en_Uuid e' = ''e1'' \<and> en_DisplayName e' = ''renamed''" using example_rename by blast
  then obtain e' where e': "e' \<in> set (envs s')" "en_Uuid e' = ''e1''" "en_DisplayName e' = ''renamed''" by blast
  let ?e = "example_env ''a'' ''pa'' ''e1'' (Some True) EnvironmentStatusDeleting"
  have run: "(scope_step {''e1''})\<^sup>*\<^sup>* example_scopes_db s'" using update_env [OF u] by (rule r_into_rtranclp)
  have "?e \<in> set (envs example_scopes_db)" "force_deleting ?e" "en_Uuid ?e \<in> {''e1''}" "en_Uuid e' = en_Uuid ?e"
    using e'(2) by (simp_all add: example_scopes_db_def force_deleting_def example_env_def)
  from force_deletion_latch [OF run example_scopes_inv this(1-3) e'(1) this(4)] u e' show ?thesis
    by (auto simp: latched_def example_env_def)
qed

text \<open>
  C38. A client that follows the page tokens of \<^verbatim>\<open>ListEnvironments\<close>, with any page size, gets every
  environment of the project (of the requested types) exactly once, in order of the identifier.
\<close>

theorem ListEnvironments_walk_complete:
  assumes "scopes_inv s" "org \<in> set (orgs s)" "p \<in> set (projects s)" "\<forall>e\<in>set (envs s). en_Id e \<noteq> ''''"
    and "length (envs s) < requests"
  shows "walk_pages requests (\<lambda>token. ListEnvironments org (pj_Id p) ts token perPage s) '''' =
    Inr (sort_key en_Id (filter (\<lambda>e. en_OrgId e = org \<and> en_ProjectId e = pj_Id p \<and> of_env_types ts e) (envs s)))"
proof -
  have "length (envs_of_project org (pj_Id p) ts s) < requests"
    using assms(5) length_filter_le le_less_trans unfolding envs_of_project_def by blast
  then show ?thesis
    using env_listing.walk_complete [where org = org and project = "pj_Id p" and ts = ts and s = s and fuel = requests and n = perPage] env_ids_in_project [OF assms(1)] assms(2-4)
    by (auto simp: envs_of_project_def list_ex_iff)
qed

theorem ListEnvironments_walk_complete_witness:
  "walk_pages 3 (\<lambda>token. ListEnvironments ''acme'' ''a'' None token 1 example_scopes_db) '''' =
     Inr [example_env ''a'' ''pa'' ''e1'' (Some True) EnvironmentStatusDeleting]"
proof -
  have "walk_pages 3 (\<lambda>token. ListEnvironments ''acme'' (pj_Id (example_project ''a'' ''pa'')) None token 1 example_scopes_db) '''' =
    Inr (sort_key en_Id (filter (\<lambda>e. en_OrgId e = ''acme'' \<and> en_ProjectId e = pj_Id (example_project ''a'' ''pa'') \<and> of_env_types None e)
      (envs example_scopes_db)))"
    by (rule ListEnvironments_walk_complete [OF example_scopes_inv])
      (simp_all add: example_scopes_db_def example_env_def)
  then show ?thesis
    by (simp add: example_scopes_db_def example_env_def example_project_def of_env_types_def)
qed

text \<open>
  The organisation-wide listing pages by the identifier alone, which two projects may share: in a
  consistent database with two environments, a client that follows the page tokens never sees one of them.
\<close>

theorem ListEnvironmentsInOrg_skips:
  "scopes_inv example_scopes_db \<and> length (filter (\<lambda>e. en_OrgId e = ''acme'') (envs example_scopes_db)) = 2
   \<and> walk_pages (Suc (Suc n)) (\<lambda>token. ListEnvironmentsInOrg ''acme'' None token 1 example_scopes_db) '''' =
       Inr [example_env ''a'' ''pa'' ''e1'' (Some True) EnvironmentStatusDeleting]"
  using example_scopes_inv
  by (simp add: example_scopes_db_def example_env_def ListEnvironmentsInOrg_def keyset_page_def tokened_def of_env_types_def)

end
