(* ===== verification/Conformance.thy ===== *)
theory Conformance
  imports Database
begin

text \<open>
  Module conformance: \<^verbatim>\<open>internal/moduleconformance/conformance.go\<close>. A resource type may carry a
  contract, a restricted JSON schema that module declarations have to satisfy, and an output schema
  that a module has to repeat literally.

  What the package calls in \<^verbatim>\<open>github.com/getkin/kin-openapi\<close> and in the regular-expression and
  number-printing parts of the standard library is the parameter record \<open>schema_library\<close>: the length
  of an encoded document, whether a pattern compiles, whether a document decodes into an
  \<^verbatim>\<open>openapi3.Schema\<close> and validates as one, and the errors of \<^verbatim>\<open>Schema.VisitJSON\<close>. The walk over
  the contract, its limits and its error values are defined here. Re-encoding a decoded JSON value
  and decoding it again gives the same value, so the error branches of \<^verbatim>\<open>json.Marshal\<close> and
  \<^verbatim>\<open>json.Unmarshal\<close> in this package do not occur for values of type \<^typ>\<open>json\<close>.
\<close>

section \<open>Errors and limits\<close>

record ConformanceError =
  ce_Code :: string
  ce_Path :: string
  ce_Rule :: string

definition CodeInvalidContract :: string where
  "CodeInvalidContract = ''resource_type_contract_invalid''"
definition CodeNonconformant :: string where
  "CodeNonconformant = ''module_resource_type_nonconformant''"
definition CodeOutputRequired :: string where
  "CodeOutputRequired = ''module_output_declaration_required''"
definition CodeOutputMismatch :: string where
  "CodeOutputMismatch = ''module_output_contract_mismatch''"

definition MaxContractBytes :: nat where "MaxContractBytes = 64 * 1024"
definition MaxContractDepth :: nat where "MaxContractDepth = 16"
definition MaxContractNodes :: nat where "MaxContractNodes = 64"

definition contractPath :: string where "contractPath = ''/module_contract''"
definition outputPath :: string where "outputPath = ''/output_schema''"

definition ConformanceError_Error :: "ConformanceError \<Rightarrow> string" where
  "ConformanceError_Error e = ce_Code e @ '' at '' @ ce_Path e @ '' ('' @ ce_Rule e @ '')''"

definition invalid :: "string \<Rightarrow> string \<Rightarrow> ConformanceError" where
  "invalid path rule = \<lparr>ce_Code = CodeInvalidContract, ce_Path = path, ce_Rule = rule\<rparr>"

text \<open>The errors that \<^verbatim>\<open>Schema.VisitJSON\<close> may return, as far as \<^verbatim>\<open>definitionError\<close> reads them.\<close>

datatype schema_error = MultiError "schema_error list" | SchemaError "string list" string | OtherError

record schema_library =
  encoded_length :: "json_object \<Rightarrow> nat"
  pattern_compiles :: "string \<Rightarrow> bool"
  schema_decodes :: "json_object \<Rightarrow> bool"
  schema_validates :: "json_object \<Rightarrow> bool"
  visit_json :: "json_object \<Rightarrow> json \<Rightarrow> schema_error option"

section \<open>Comparison of output declarations\<close>

lemma json_member_size: "m \<in> set a \<Longrightarrow> size (snd m) < size (JObj a)"
  by (induction a) (auto simp: size_prod_simp)

lemma json_element_size: "x \<in> set a \<Longrightarrow> size x < size (JArr a)"
  by (induction a) auto

function equalJSON :: "json \<Rightarrow> json \<Rightarrow> bool" where
  "equalJSON (JNum a) y = (case y of JNum b \<Rightarrow> a = b | _ \<Rightarrow> False)"
| "equalJSON (JObj a) y =
     (case y of
        JObj b \<Rightarrow> length a = length b
          \<and> (\<forall>m\<in>set a. case map_of b (fst m) of None \<Rightarrow> False | Some other \<Rightarrow> equalJSON (snd m) other)
      | _ \<Rightarrow> False)"
| "equalJSON (JArr a) y =
     (case y of
        JArr b \<Rightarrow> length a = length b \<and> (\<forall>p\<in>set (zip a b). equalJSON (fst p) (snd p))
      | _ \<Rightarrow> False)"
| "equalJSON JNull y = (y = JNull)"
| "equalJSON (JBool a) y = (y = JBool a)"
| "equalJSON (JStr a) y = (y = JStr a)"
  by pat_completeness auto

termination
  by (relation "measure (size \<circ> fst)")
    (auto dest: json_member_size simp del: json.size intro!: json_element_size elim: set_zip_leftD)

definition ValidateOutputs ::
  "json_object option \<Rightarrow> json_object option \<Rightarrow> ConformanceError option" where
  "ValidateOutputs required declared =
     (case required of
        None \<Rightarrow> None
      | Some expected \<Rightarrow>
          if expected = [] then None
          else (case declared of
              None \<Rightarrow> Some \<lparr>ce_Code = CodeOutputRequired, ce_Path = outputPath, ce_Rule = ''required''\<rparr>
            | Some actual \<Rightarrow>
                if \<not> equalJSON (JObj expected) (JObj actual)
                then Some \<lparr>ce_Code = CodeOutputMismatch, ce_Path = outputPath, ce_Rule = ''equality''\<rparr>
                else None))"

section \<open>The walk over a contract\<close>

definition definitionField :: "string \<Rightarrow> bool" where
  "definitionField name = List.member
     [''module_inputs'', ''module_params'', ''provider_mapping'', ''dependencies'', ''coprovisioned'',
      ''output_schema''] name"

fun escape_pointer :: "string \<Rightarrow> string" where
  "escape_pointer [] = []"
| "escape_pointer (c # s) =
     (if c = CHR ''~'' then ''~0'' else if c = CHR ''/'' then ''~1'' else [c]) @ escape_pointer s"

definition pointer :: "string \<Rightarrow> string \<Rightarrow> string" where
  "pointer path key = path @ ''/'' @ escape_pointer key"

definition schema_types :: "string list" where
  "schema_types = [''object'', ''array'', ''string'', ''number'', ''integer'', ''boolean'']"

definition boolean_keywords :: "string list" where
  "boolean_keywords = [''nullable'', ''exclusiveMinimum'', ''exclusiveMaximum'', ''uniqueItems'']"

definition number_keywords :: "string list" where
  "number_keywords =
     [''minimum'', ''maximum'', ''multipleOf'', ''minLength'', ''maxLength'', ''minItems'', ''maxItems'',
      ''minProperties'', ''maxProperties'']"

definition text_keywords :: "string list" where
  "text_keywords = [''pattern'', ''title'', ''description'']"

text \<open>The indices and values of a slice.\<close>

definition indexed :: "'a list \<Rightarrow> (nat \<times> 'a) list" where
  "indexed xs = zip [0..<length xs] xs"

text \<open>The members of \<^verbatim>\<open>required\<close>: unique names, of definition fields at the root.\<close>

fun check_required :: "string \<Rightarrow> bool \<Rightarrow> (nat \<times> json) list \<Rightarrow> string list \<Rightarrow> ConformanceError option" where
  "check_required field is_root [] seen = None"
| "check_required field is_root ((i, item) # rest) seen =
     (case item of
        JStr name \<Rightarrow>
          if List.member seen name then Some (invalid field ''uniqueItems'')
          else if is_root \<and> \<not> definitionField name
          then Some (invalid (pointer field (show_nat i)) ''definition_field'')
          else check_required field is_root rest (name # seen)
      | _ \<Rightarrow> Some (invalid (pointer field (show_nat i)) ''type''))"

text \<open>The keywords whose check does not visit another schema.\<close>

definition check_plain_keyword ::
  "schema_library \<Rightarrow> json_object \<Rightarrow> string \<Rightarrow> string \<Rightarrow> bool \<Rightarrow> string \<Rightarrow> json \<Rightarrow> ConformanceError option" where
  "check_plain_keyword lib schema path field is_root key value =
     (if key = ''type'' then
        (case value of
           JStr name \<Rightarrow>
             if \<not> List.member schema_types name then Some (invalid field ''type'')
             else if name = ''array'' \<and> (map_of schema ''items'' = None \<or> map_of schema ''items'' = Some JNull)
             then Some (invalid (pointer path ''items'') ''required'')
             else None
         | _ \<Rightarrow> Some (invalid field ''type''))
      else if key = ''required'' then
        (case value of
           JArr values \<Rightarrow> check_required field is_root (indexed values) []
         | _ \<Rightarrow> Some (invalid field ''type''))
      else if key = ''enum'' then
        (case value of
           JArr items \<Rightarrow> if items = [] then Some (invalid field ''nonempty_array'') else None
         | _ \<Rightarrow> Some (invalid field ''nonempty_array''))
      else if List.member boolean_keywords key then
        (case value of JBool b \<Rightarrow> None | _ \<Rightarrow> Some (invalid field ''type''))
      else if List.member number_keywords key then
        (case value of
           JNum number \<Rightarrow>
             if key = ''multipleOf'' \<and> number \<le> 0 then Some (invalid field ''positive'')
             else if (has_prefix key ''min'' \<and> key \<noteq> ''minimum'' \<or> has_prefix key ''max'' \<and> key \<noteq> ''maximum'')
               \<and> (number < 0 \<or> snd (quotient_of number) \<noteq> 1)
             then Some (invalid field ''nonnegative_integer'')
             else None
         | _ \<Rightarrow> Some (invalid field ''type''))
      else if List.member text_keywords key then
        (case value of
           JStr t \<Rightarrow> if key = ''pattern'' \<and> \<not> pattern_compiles lib t then Some (invalid field ''pattern'') else None
         | _ \<Rightarrow> Some (invalid field ''type''))
      else Some (invalid field ''unsupported_keyword''))"

text \<open>
  \<^verbatim>\<open>contractWalker.visit\<close> and \<^verbatim>\<open>child\<close>: the node counter of the walker is the state of the loops.
  \<open>subschemas schema path is_root key value\<close> lists the schemas below one keyword, with path and root
  flag, or the error the keyword itself gives.
\<close>

definition schema_keyword :: "string \<Rightarrow> bool" where
  "schema_keyword key \<longleftrightarrow>
     List.member [''properties'', ''items'', ''not'', ''allOf''] key
     \<or> key = ''additionalProperties''"

definition subschemas ::
  "string \<Rightarrow> bool \<Rightarrow> string \<Rightarrow> json \<Rightarrow> ConformanceError + (json \<times> string \<times> bool \<times> bool) list" where
  "subschemas field is_root key value =
     (if key = ''properties'' then
        (case value of
           JObj properties \<Rightarrow>
             Inr (map (\<lambda>name. (the (map_of properties name), pointer field name, False,
                               is_root \<and> \<not> definitionField name))
                  (sort (map fst properties)))
         | _ \<Rightarrow> Inl (invalid field ''type''))
      else if key = ''additionalProperties'' then
        (case value of JBool b \<Rightarrow> Inr [] | _ \<Rightarrow> Inr [(value, field, False, False)])
      else if key = ''items'' then Inr [(value, field, False, False)]
      else if key = ''not'' then Inr [(value, field, is_root, False)]
      else
        (case value of
           JArr items \<Rightarrow>
             if items = [] then Inl (invalid field ''schema_array'')
             else Inr (map (\<lambda>(i, item). (item, pointer field (show_nat i), is_root, False)) (indexed items))
         | _ \<Rightarrow> Inl (invalid field ''schema_array'')))"

function visit :: "schema_library \<Rightarrow> json_object \<Rightarrow> string \<Rightarrow> nat \<Rightarrow> bool \<Rightarrow> nat \<Rightarrow> ConformanceError + nat" where
  "visit lib schema path depth is_root nodes =
     (if depth > MaxContractDepth then Inl (invalid path ''maxDepth'')
      else if nodes + 1 > MaxContractNodes then Inl (invalid path ''maxNodes'')
      else try_fold
        (\<lambda>key nodes.
           let value = the (map_of schema key); field = pointer path key in
           if schema_keyword key then
             (case subschemas field is_root key value of
                Inl e \<Rightarrow> Inl e
              | Inr children \<Rightarrow>
                  try_fold
                    (\<lambda>(item, loc, below_root, foreign) nodes.
                       if foreign then Inl (invalid loc ''definition_field'')
                       else (case item of
                           JObj sub \<Rightarrow> visit lib sub loc (depth + 1) below_root nodes
                         | _ \<Rightarrow> Inl (invalid loc ''schema_object'')))
                    children nodes)
           else (case check_plain_keyword lib schema path field is_root key value of
               None \<Rightarrow> Inr nodes
             | Some e \<Rightarrow> Inl e))
        (sort (map fst schema)) (nodes + 1))"
  by pat_completeness auto
termination
  by (relation "measure (\<lambda>(lib, schema, path, depth, is_root, nodes). Suc MaxContractDepth - depth)") auto

declare visit.simps [simp del]

definition compileContract ::
  "schema_library \<Rightarrow> json_object option \<Rightarrow> ConformanceError + json_object option" where
  "compileContract lib contract =
     (case contract of
        None \<Rightarrow> Inr None
      | Some normalised \<Rightarrow>
          if encoded_length lib normalised > MaxContractBytes then Inl (invalid contractPath ''maxBytes'')
          else if map_of normalised ''type'' \<noteq> Some (JStr ''object'')
          then Inl (invalid (contractPath @ ''/type'') ''type'')
          else (case visit lib normalised contractPath 1 True 0 of
              Inl e \<Rightarrow> Inl e
            | Inr nodes \<Rightarrow>
                if \<not> schema_decodes lib normalised then Inl (invalid contractPath ''schema'')
                else if \<not> schema_validates lib normalised then Inl (invalid contractPath ''schema'')
                else Inr (Some normalised)))"

definition ValidateContract :: "schema_library \<Rightarrow> json_object option \<Rightarrow> ConformanceError option" where
  "ValidateContract lib contract = (case compileContract lib contract of Inl e \<Rightarrow> Some e | Inr _ \<Rightarrow> None)"

fun schema_violations :: "schema_error \<Rightarrow> (string \<times> string) list" where
  "schema_violations (MultiError children) = concat (map schema_violations children)"
| "schema_violations (SchemaError parts field) = [(foldl pointer [] parts, field)]"
| "schema_violations OtherError = []"

definition definitionError :: "schema_error \<Rightarrow> ConformanceError" where
  "definitionError err =
     (case sort (schema_violations err) of
        [] \<Rightarrow> \<lparr>ce_Code = CodeNonconformant, ce_Path = [], ce_Rule = ''schema''\<rparr>
      | (path, rule) # _ \<Rightarrow> \<lparr>ce_Code = CodeNonconformant, ce_Path = path, ce_Rule = rule\<rparr>)"

definition ValidateDefinition ::
  "schema_library \<Rightarrow> json_object option \<Rightarrow> json_object \<Rightarrow> ConformanceError option" where
  "ValidateDefinition lib contract definition =
     (case compileContract lib contract of
        Inl e \<Rightarrow> Some e
      | Inr None \<Rightarrow> None
      | Inr (Some schema) \<Rightarrow> map_option definitionError (visit_json lib schema (JObj definition)))"

section \<open>What equality of output declarations means\<close>

text \<open>The value of a JSON document: an object is a finite map, whatever the order of its members.\<close>

datatype json_value =
    VNull | VBool bool | VNum rat | VStr string | VArr "json_value list" | VObj "string \<Rightarrow> json_value option"

fun denote :: "json \<Rightarrow> json_value" where
  "denote JNull = VNull"
| "denote (JBool b) = VBool b"
| "denote (JNum n) = VNum n"
| "denote (JStr t) = VStr t"
| "denote (JArr a) = VArr (map denote a)"
| "denote (JObj a) = VObj (map_of (map (\<lambda>(k, v). (k, denote v)) a))"

text \<open>Keys are distinct in every object of the document, as in every decoded one.\<close>

fun json_wf :: "json \<Rightarrow> bool" where
  "json_wf (JArr a) = list_all json_wf a"
| "json_wf (JObj a) = (distinct (map fst a) \<and> list_all (\<lambda>(k, v). json_wf v) a)"
| "json_wf _ = True"

lemma map_of_denote: "map_of (map (\<lambda>(k, v). (k, denote v)) a) = map_option denote \<circ> map_of a"
  by (rule map_of_map)

lemma map_of_eq_subset:
  assumes "distinct (map fst a)" "distinct (map fst b)" "length a = length b"
    and "\<And>k. k \<in> fst ` set a \<Longrightarrow> k \<in> fst ` set b"
  shows "fst ` set a = fst ` set b"
proof -
  have "card (fst ` set a) = card (fst ` set b)"
    using assms(1-3) by (metis distinct_card length_map set_map)
  then show ?thesis using assms(4) by (intro card_subset_eq) auto
qed

lemma object_value_eq:
  assumes a: "distinct (map fst a)" and b: "distinct (map fst b)"
  shows "(map_option denote \<circ> map_of a = map_option denote \<circ> map_of b) \<longleftrightarrow>
    length a = length b \<and> (\<forall>m\<in>set a. \<exists>w. map_of b (fst m) = Some w \<and> denote (snd m) = denote w)"
    (is "?L \<longleftrightarrow> ?R")
proof
  assume L: ?L
  have "fst ` set a = fst ` set b"
  proof (rule set_eqI)
    fix k
    have "map_of a k = None \<longleftrightarrow> map_of b k = None" using fun_cong [OF L, of k] by auto
    then show "k \<in> fst ` set a \<longleftrightarrow> k \<in> fst ` set b" by (simp add: map_of_eq_None_iff)
  qed
  then have "length a = length b" using a b by (metis distinct_card length_map set_map)
  moreover have "\<exists>w. map_of b (fst m) = Some w \<and> denote (snd m) = denote w" if "m \<in> set a" for m
  proof -
    have "map_of a (fst m) = Some (snd m)" using that a by simp
    then have "map_option denote (map_of b (fst m)) = Some (denote (snd m))"
      using fun_cong [OF L, of "fst m"] by simp
    then show ?thesis by auto
  qed
  ultimately show ?R by blast
next
  assume R: ?R
  have dom: "fst ` set a = fst ` set b"
  proof (rule map_of_eq_subset [OF a b])
    show "length a = length b" using R by blast
  next
    fix k
    assume "k \<in> fst ` set a"
    then show "k \<in> fst ` set b" using R by (force dest: map_of_SomeD)
  qed
  show ?L
  proof
    fix k
    show "(map_option denote \<circ> map_of a) k = (map_option denote \<circ> map_of b) k"
    proof (cases "map_of a k")
      case None
      then have "map_of b k = None" using dom by (simp add: map_of_eq_None_iff)
      with None show ?thesis by simp
    next
      case (Some v)
      then have "(k, v) \<in> set a" by (rule map_of_SomeD)
      with R obtain w where "map_of b k = Some w" "denote v = denote w" by fastforce
      with Some show ?thesis by simp
    qed
  qed
qed

lemma zip_denote:
  "length a = length b \<Longrightarrow>
   (map denote a = map denote b) \<longleftrightarrow> (\<forall>p\<in>set (zip a b). denote (fst p) = denote (snd p))"
  by (induction a b rule: list_induct2) auto

lemma equalJSON_value:
  "json_wf a \<Longrightarrow> json_wf b \<Longrightarrow> equalJSON a b \<longleftrightarrow> denote a = denote b"
proof (induction a b rule: equalJSON.induct)
  case (1 n y)
  then show ?case by (cases y) auto
next
  case (2 a y)
  show ?case
  proof (cases y)
    case (JObj b)
    have "equalJSON (snd m) w \<longleftrightarrow> denote (snd m) = denote w"
      if m: "m \<in> set a" "map_of b (fst m) = Some w" for m w
    proof (rule 2(1) [OF JObj m])
      show "json_wf (snd m)" using 2(2) m(1) by (auto simp: list_all_iff)
      show "json_wf w" using 2(3) m(2) JObj by (auto simp: list_all_iff dest!: map_of_SomeD)
    qed
    then have "equalJSON (JObj a) y \<longleftrightarrow> length a = length b
        \<and> (\<forall>m\<in>set a. \<exists>w. map_of b (fst m) = Some w \<and> denote (snd m) = denote w)"
      using JObj by (simp split: option.splits) (metis option.inject)
    also have "\<dots> \<longleftrightarrow> map_option denote \<circ> map_of a = map_option denote \<circ> map_of b"
      using 2(2,3) JObj by (subst object_value_eq) auto
    finally show ?thesis using JObj by (simp only: denote.simps map_of_denote json_value.inject)
  qed auto
next
  case (3 a y)
  show ?case
  proof (cases y)
    case (JArr b)
    have "equalJSON (fst p) (snd p) \<longleftrightarrow> denote (fst p) = denote (snd p)" if p: "p \<in> set (zip a b)" for p
    proof (rule 3(1) [OF JArr p])
      have "(fst p, snd p) \<in> set (zip a b)" using p by simp
      then have "fst p \<in> set a" "snd p \<in> set b" by (rule set_zip_leftD, rule set_zip_rightD)
      then show "json_wf (fst p)" "json_wf (snd p)" using 3(2,3) JArr by (auto simp: list_all_iff)
    qed
    then have "equalJSON (JArr a) y \<longleftrightarrow>
        length a = length b \<and> (\<forall>p\<in>set (zip a b). denote (fst p) = denote (snd p))"
      using JArr by simp
    also have "\<dots> \<longleftrightarrow> map denote a = map denote b"
      using zip_denote map_eq_imp_length_eq by blast
    finally show ?thesis using JArr by simp
  qed auto
next
  case (4 y)
  then show ?case by (cases y) auto
next
  case (5 a y)
  then show ?case by (cases y) auto
next
  case (6 a y)
  then show ?case by (cases y) auto
qed

section \<open>What an accepted contract looks like\<close>

definition supported_keywords :: "string list" where
  "supported_keywords =
     [''type'', ''properties'', ''required'', ''additionalProperties'', ''items'', ''not'', ''allOf'', ''enum'']
     @ boolean_keywords @ number_keywords @ text_keywords"

text \<open>The values below a keyword that are schemas themselves.\<close>

definition sub_values :: "string \<Rightarrow> json \<Rightarrow> json list" where
  "sub_values key value =
     (if key = ''properties'' then (case value of JObj ps \<Rightarrow> map snd ps | _ \<Rightarrow> [])
      else if key = ''allOf'' then (case value of JArr items \<Rightarrow> items | _ \<Rightarrow> [])
      else if List.member [''additionalProperties'', ''items'', ''not''] key then [value]
      else [])"

inductive subschema_at :: "nat \<Rightarrow> json_object \<Rightarrow> json_object \<Rightarrow> bool" where
  subschema_here: "subschema_at 0 s s"
| subschema_below: "map_of s key = Some value \<Longrightarrow> JObj t \<in> set (sub_values key value) \<Longrightarrow> subschema_at j t u \<Longrightarrow>
    subschema_at (Suc j) s u"

lemma try_fold_each:
  "try_fold f xs s = Inr s' \<Longrightarrow> x \<in> set xs \<Longrightarrow> \<exists>t t'. f x t = Inr t'"
  by (induction xs arbitrary: s) (auto split: sum.splits)

lemma check_plain_supported:
  "check_plain_keyword lib schema path field is_root key value = None \<Longrightarrow> List.member supported_keywords key"
  by (auto simp: check_plain_keyword_def supported_keywords_def split: if_splits)

lemma subschemas_cover:
  assumes "subschemas field is_root key value = Inr below" and "schema_keyword key"
    and "JObj t \<in> set (sub_values key value)" and "json_wf value"
  shows "\<exists>loc below_root foreign. (JObj t, loc, below_root, foreign) \<in> set below"
proof (cases "key = ''properties''")
  case True
  then obtain ps name where ps: "value = JObj ps" "(name, JObj t) \<in> set ps"
    using assms(3) by (auto simp: sub_values_def split: json.splits)
  have "map_of ps name = Some (JObj t)" using ps assms(4) by simp
  moreover have "name \<in> set (sort (map fst ps))" using ps(2) by force
  moreover have "below = map (\<lambda>name. (the (map_of ps name), pointer field name, False,
      is_root \<and> \<not> definitionField name)) (sort (map fst ps))"
    using assms(1) True ps(1) by (simp add: subschemas_def)
  ultimately have "(JObj t, pointer field name, False, is_root \<and> \<not> definitionField name) \<in> set below"
    by (auto simp del: set_sort intro!: rev_image_eqI)
  then show ?thesis by blast
next
  case False
  show ?thesis
  proof (cases "key = ''allOf''")
    case True
    then obtain items where items: "value = JArr items" "JObj t \<in> set items"
      using assms(3) by (auto simp: sub_values_def split: json.splits)
    then obtain i where "i < length items" "items ! i = JObj t" by (auto simp: in_set_conv_nth)
    then have "(i, JObj t) \<in> set (indexed items)"
      by (auto simp: indexed_def set_zip intro!: exI [of _ i])
    moreover have "below = map (\<lambda>(i, item). (item, pointer field (show_nat i), is_root, False)) (indexed items)"
      using assms(1) True items(1) by (simp add: subschemas_def split: if_splits)
    ultimately have "(JObj t, pointer field (show_nat i), is_root, False) \<in> set below"
      by (auto intro!: rev_image_eqI)
    then show ?thesis by blast
  next
    case no_allOf: False
    then have "\<exists>r. below = [(JObj t, field, r, False)]"
      using False assms by (auto simp: sub_values_def subschemas_def split: if_splits)
    then show ?thesis by auto
  qed
qed

text \<open>The body of the loop over the keywords of one schema.\<close>

definition visit_sub ::
  "schema_library \<Rightarrow> nat \<Rightarrow> json \<times> string \<times> bool \<times> bool \<Rightarrow> nat \<Rightarrow> ConformanceError + nat" where
  "visit_sub lib depth = (\<lambda>(item, loc, below_root, foreign) nodes.
     if foreign then Inl (invalid loc ''definition_field'')
     else (case item of JObj sub \<Rightarrow> visit lib sub loc (depth + 1) below_root nodes
           | _ \<Rightarrow> Inl (invalid loc ''schema_object'')))"

definition visit_key ::
  "schema_library \<Rightarrow> json_object \<Rightarrow> string \<Rightarrow> nat \<Rightarrow> bool \<Rightarrow> string \<Rightarrow> nat \<Rightarrow> ConformanceError + nat" where
  "visit_key lib schema path depth is_root key nodes =
     (let value = the (map_of schema key); field = pointer path key in
      if schema_keyword key then
        (case subschemas field is_root key value of
           Inl e \<Rightarrow> Inl e
         | Inr below \<Rightarrow> try_fold (visit_sub lib depth) below nodes)
      else (case check_plain_keyword lib schema path field is_root key value of
          None \<Rightarrow> Inr nodes
        | Some e \<Rightarrow> Inl e))"

lemma visit_unfold:
  "visit lib schema path depth is_root nodes =
     (if depth > MaxContractDepth then Inl (invalid path ''maxDepth'')
      else if nodes + 1 > MaxContractNodes then Inl (invalid path ''maxNodes'')
      else try_fold (visit_key lib schema path depth is_root) (sort (map fst schema)) (nodes + 1))"
  by (subst visit.simps) (simp only: visit_key_def [abs_def] visit_sub_def)

lemma visit_keys:
  assumes "visit lib schema path depth is_root nodes = Inr m" and "key \<in> set (map fst schema)"
  shows "\<exists>a b. visit_key lib schema path depth is_root key a = Inr b"
proof -
  have "try_fold (visit_key lib schema path depth is_root) (sort (map fst schema)) (nodes + 1) = Inr m"
    using assms(1) unfolding visit_unfold by (auto split: if_splits)
  then show ?thesis by (rule try_fold_each) (use assms(2) in simp)
qed

lemma visit_depth: "visit lib schema path depth is_root nodes = Inr m \<Longrightarrow> depth \<le> MaxContractDepth"
  unfolding visit_unfold by (auto split: if_splits)

lemma visit_supported:
  assumes "visit lib schema path depth is_root nodes = Inr m" and "key \<in> set (map fst schema)"
  shows "List.member supported_keywords key"
proof -
  obtain a b where "visit_key lib schema path depth is_root key a = Inr b"
    using visit_keys [OF assms] by blast
  then show ?thesis
    by (auto simp: visit_key_def Let_def schema_keyword_def supported_keywords_def
        dest!: check_plain_supported split: if_splits option.splits)
qed

lemma visit_children:
  assumes "visit lib schema path depth is_root nodes = Inr m" and val: "map_of schema key = Some value"
    and wf: "json_wf (JObj schema)" and sub: "JObj t \<in> set (sub_values key value)"
  shows "\<exists>loc r n m. visit lib t loc (depth + 1) r n = Inr m"
proof -
  have kw: "schema_keyword key"
    using sub by (auto simp: sub_values_def schema_keyword_def split: if_splits)
  have "key \<in> set (map fst schema)" using val by (force dest: map_of_SomeD)
  then obtain a b where "visit_key lib schema path depth is_root key a = Inr b"
    using visit_keys [OF assms(1)] by blast
  then obtain below where ch: "subschemas (pointer path key) is_root key value = Inr below"
    and each: "try_fold (visit_sub lib depth) below a = Inr b"
    using val kw by (auto simp: visit_key_def split: sum.splits)
  have "json_wf value" using wf val by (auto simp: list_all_iff dest!: map_of_SomeD)
  then obtain loc r f where "(JObj t, loc, r, f) \<in> set below"
    using subschemas_cover [OF ch kw sub] by blast
  from try_fold_each [OF each this] show ?thesis
    by (auto simp: visit_sub_def split: if_splits)
qed

lemma sub_values_wf: "json_wf value \<Longrightarrow> w \<in> set (sub_values key value) \<Longrightarrow> json_wf w"
  by (auto simp: sub_values_def list_all_iff split: if_splits json.splits)

lemma visit_reach:
  "subschema_at j schema sub \<Longrightarrow> visit lib schema path depth is_root nodes = Inr m \<Longrightarrow> json_wf (JObj schema) \<Longrightarrow>
   depth + j \<le> MaxContractDepth \<and> list_all (List.member supported_keywords) (map fst sub)"
proof (induction j schema sub arbitrary: path depth is_root nodes m rule: subschema_at.induct)
  case (subschema_here s)
  then show ?case using visit_depth visit_supported by (fastforce simp: list_all_iff)
next
  case (subschema_below s key val t j u)
  from visit_children [OF subschema_below.prems(1) subschema_below.hyps(1) subschema_below.prems(2)
      subschema_below.hyps(2)]
  obtain loc r n m' where v: "visit lib t loc (depth + 1) r n = Inr m'" by blast
  have "json_wf val"
    using subschema_below.prems(2) subschema_below.hyps(1) by (auto simp: list_all_iff dest!: map_of_SomeD)
  then have "json_wf (JObj t)" using sub_values_wf subschema_below.hyps(2) by blast
  from subschema_below.IH [OF v this] show ?case by simp
qed

text \<open>The number of schemas in a contract, itself included.\<close>

lemma sub_value_size:
  assumes "w \<in> set (sub_values key value)"
  shows "size w \<le> size value"
proof (cases "key = ''properties''")
  case True
  with assms obtain ps m where "value = JObj ps" "m \<in> set ps" "w = snd m" by (auto simp: sub_values_def split: json.splits)
  then show ?thesis using json_member_size by (metis less_imp_le_nat)
next
  case False
  then show ?thesis using assms json_element_size
    by (auto simp: sub_values_def split: if_splits json.splits dest!: json_element_size less_imp_le_nat)
qed

lemma sub_value_smaller: "m \<in> set s \<Longrightarrow> w \<in> set (sub_values (fst m) (snd m)) \<Longrightarrow> size w < size (JObj s)"
  using sub_value_size json_member_size by (blast intro: le_less_trans)

function schema_nodes :: "json \<Rightarrow> nat" where
  "schema_nodes (JObj s) = Suc (sum_list (map (\<lambda>m. sum_list (map schema_nodes (sub_values (fst m) (snd m)))) s))"
| "schema_nodes (JArr a) = 0"
| "schema_nodes JNull = 0"
| "schema_nodes (JBool b) = 0"
| "schema_nodes (JNum n) = 0"
| "schema_nodes (JStr t) = 0"
  by pat_completeness auto

termination
  by (relation "measure size") (auto dest: sub_value_smaller simp del: json.size)

lemma try_fold_count:
  assumes "try_fold f xs s = Inr s'" "s \<le> (M :: nat)"
    and "\<And>x t t'. x \<in> set xs \<Longrightarrow> t \<le> M \<Longrightarrow> f x t = Inr t' \<Longrightarrow> t' = t + c x \<and> t' \<le> M"
  shows "s' = s + sum_list (map c xs) \<and> s' \<le> M"
  using assms
proof (induction xs arbitrary: s)
  case (Cons x xs)
  then obtain t where t: "f x s = Inr t" "try_fold f xs t = Inr s'" by (auto split: sum.splits)
  have head: "t = s + c x \<and> t \<le> M" by (rule Cons.prems(3) [OF _ Cons.prems(2) t(1)]) simp
  have tail: "t' = t + c y \<and> t' \<le> M" if "y \<in> set xs" "t \<le> M" "f y t = Inr t'" for y t t'
    by (rule Cons.prems(3) [OF _ that(2,3)]) (simp add: that(1))
  have "s' = t + sum_list (map c xs) \<and> s' \<le> M" by (rule Cons.IH [OF t(2) conjunct2 [OF head]]) (rule tail)
  with head show ?case by simp
qed simp

lemma sum_list_sort: "sum_list (map c (sort xs)) = (sum_list (map c xs) :: nat)"
proof (induction xs)
  case (Cons x xs)
  have "sum_list (map c (insort x ys)) = c x + sum_list (map c ys)" for ys by (induction ys) auto
  then show ?case using Cons by (simp add: sort_key_def)
qed simp

lemma sum_list_keys: "distinct (map fst a) \<Longrightarrow> sum_list (map (\<lambda>k. c k (the (map_of a k))) (map fst a)) = sum_list (map (\<lambda>m. c (fst m) (snd m)) a)"
  by (auto intro!: arg_cong [of _ _ sum_list] simp: comp_def)

lemma subschemas_values:
  assumes "subschemas field is_root key value = Inr below" "schema_keyword key" "json_wf value"
  shows "(\<forall>x \<in> set below. fst x \<in> set (sub_values key value))
    \<and> sum_list (map (\<lambda>x. schema_nodes (fst x)) below) = sum_list (map schema_nodes (sub_values key value))"
proof (cases "key = ''properties''")
  case True
  then obtain ps where ps: "value = JObj ps" using assms(1) by (auto simp: subschemas_def split: json.splits)
  then have below: "below = map (\<lambda>name. (the (map_of ps name), pointer field name, False,
      is_root \<and> \<not> definitionField name)) (sort (map fst ps))"
    using assms(1) True by (simp add: subschemas_def)
  have d: "distinct (map fst ps)" using assms(3) ps by simp
  have "sum_list (map (\<lambda>x. schema_nodes (fst x)) below) = sum_list (map (\<lambda>k. schema_nodes (the (map_of ps k))) (map fst ps))"
    unfolding sum_list_sort [symmetric, of _ "map fst ps"] by (simp add: below comp_def)
  then have "sum_list (map (\<lambda>x. schema_nodes (fst x)) below) = sum_list (map schema_nodes (map snd ps))"
    using sum_list_keys [OF d, of "\<lambda>k. schema_nodes"] by (simp add: comp_def)
  moreover have "\<forall>x \<in> set below. fst x \<in> set (map snd ps)" using d by (auto simp: below intro!: rev_image_eqI)
  ultimately show ?thesis using True ps by (simp add: sub_values_def)
next
  case False
  show ?thesis
  proof (cases "key = ''allOf''")
    case True
    then obtain items where items: "value = JArr items" "below = map (\<lambda>(i, item). (item, pointer field (show_nat i), is_root, False)) (indexed items)"
      using assms(1) by (auto simp: subschemas_def split: json.splits if_splits)
    then have "map fst below = items" by (simp add: indexed_def comp_def case_prod_unfold)
    then have "map (\<lambda>x. schema_nodes (fst x)) below = map schema_nodes items" "fst ` set below = set items"
      by (auto simp flip: map_map [unfolded comp_def] list.set_map)
    then show ?thesis using True items(1) by (auto simp: sub_values_def)
  next
    case no_allOf: False
    then show ?thesis using False assms(1,2)
      by (auto simp: sub_values_def subschemas_def schema_keyword_def split: if_splits json.splits)
  qed
qed

text \<open>The counter of a walk that succeeds counts every schema once, and never exceeds the limit.\<close>

lemma visit_count:
  "visit lib schema path depth is_root nodes = Inr m \<Longrightarrow> json_wf (JObj schema) \<Longrightarrow>
   m = nodes + schema_nodes (JObj schema) \<and> m \<le> MaxContractNodes"
proof (induction "size (JObj schema)" arbitrary: schema path depth is_root nodes m rule: less_induct)
  case less
  let ?c = "\<lambda>k v. sum_list (map schema_nodes (sub_values k v))"
  have run: "nodes + 1 \<le> MaxContractNodes"
    "try_fold (visit_key lib schema path depth is_root) (sort (map fst schema)) (nodes + 1) = Inr m"
    using less.prems(1) unfolding visit_unfold by (auto split: if_splits)
  have key: "b = a + ?c key (the (map_of schema key)) \<and> b \<le> MaxContractNodes"
    if k: "key \<in> set (sort (map fst schema))" "a \<le> MaxContractNodes" "visit_key lib schema path depth is_root key a = Inr b" for key a b
  proof -
    obtain val where val: "(key, val) \<in> set schema" "map_of schema key = Some val"
      using k(1) less.prems(2) by auto
    have wf: "json_wf val" using less.prems(2) val(1) by (auto simp: list_all_iff)
    show ?thesis
    proof (cases "schema_keyword key")
      case False
      then have "sub_values key val = []" by (auto simp: schema_keyword_def sub_values_def)
      moreover have "b = a" using k(3) False by (auto simp: visit_key_def Let_def split: option.splits)
      ultimately show ?thesis using k(2) val(2) by simp
    next
      case True
      then obtain below where below: "subschemas (pointer path key) is_root key val = Inr below"
        "try_fold (visit_sub lib depth) below a = Inr b"
        using k(3) val(2) by (auto simp: visit_key_def split: sum.splits)
      note vals = subschemas_values [OF below(1) True wf]
      have "t' = t + schema_nodes (fst x) \<and> t' \<le> MaxContractNodes"
        if x: "x \<in> set below" "t \<le> MaxContractNodes" "visit_sub lib depth x t = Inr t'" for x t t'
      proof -
        obtain sub loc r f where sub: "x = (JObj sub, loc, r, f)" "visit lib sub loc (depth + 1) r t = Inr t'"
          using x(3) by (cases x) (auto simp: visit_sub_def split: if_splits json.splits)
        have mem: "JObj sub \<in> set (sub_values key val)" using vals x(1) sub(1) by force
        then have "size (JObj sub) < size (JObj schema)" using sub_value_smaller [OF val(1)] unfolding fst_conv snd_conv by blast
        from less.hyps [OF this sub(2) sub_values_wf [OF wf mem]] sub(1) show ?thesis by simp
      qed
      then have "b = a + sum_list (map (\<lambda>x. schema_nodes (fst x)) below) \<and> b \<le> MaxContractNodes"
        by (rule try_fold_count [OF below(2) k(2)])
      with vals val(2) show ?thesis by simp
    qed
  qed
  have "m = nodes + 1 + sum_list (map (\<lambda>k. ?c k (the (map_of schema k))) (sort (map fst schema))) \<and> m \<le> MaxContractNodes"
    by (rule try_fold_count [OF run(2,1) key])
  moreover have "sum_list (map (\<lambda>k. ?c k (the (map_of schema k))) (sort (map fst schema))) = sum_list (map (\<lambda>m. ?c (fst m) (snd m)) schema)"
    unfolding sum_list_sort using less.prems(2) by (intro sum_list_keys) simp
  ultimately show ?case by simp
qed

section \<open>Properties\<close>

text \<open>
  \<^verbatim>\<open>equalJSON\<close> compares values: two documents are equal for the output check exactly when they
  denote the same value, with objects as maps whose member order does not matter.
\<close>

theorem equalJSON_denote:
  assumes "json_wf a" and "json_wf b"
  shows "equalJSON a b \<longleftrightarrow> denote a = denote b"
  using assms by (rule equalJSON_value)

theorem equalJSON_denote_witness:
  "equalJSON (JObj [(''a'', JNum 1), (''b'', JArr [JNull])]) (JObj [(''b'', JArr [JNull]), (''a'', JNum 1)])"
proof -
  have "denote (JObj [(''a'', JNum 1), (''b'', JArr [JNull])])
      = denote (JObj [(''b'', JArr [JNull]), (''a'', JNum 1)])"
    by (simp add: fun_upd_twist)
  then show ?thesis by (subst equalJSON_denote) simp_all
qed

text \<open>
  C39. A contract that \<^verbatim>\<open>compileContract\<close> accepts is encoded in at most 64 KiB, consists of at most 64 schemas and
  has no schema deeper than 16 levels, and every schema reachable in it uses supported keywords only; in particular it
  has no \<^verbatim>\<open>$ref\<close>, so that validation never resolves a reference.
\<close>

theorem compileContract_bounded:
  assumes "compileContract lib (Some contract) = Inr schema" and "json_wf (JObj contract)"
    and "subschema_at j contract sub"
  shows "encoded_length lib contract \<le> 64 * 1024 \<and> schema_nodes (JObj contract) \<le> 64
    \<and> j < 16 \<and> list_all (List.member supported_keywords) (map fst sub) \<and> map_of sub ''$ref'' = None"
proof -
  obtain m where visit: "visit lib contract contractPath 1 True 0 = Inr m" and bytes: "encoded_length lib contract \<le> 64 * 1024"
    using assms(1) by (auto simp: compileContract_def MaxContractBytes_def split: if_splits sum.splits)
  have "schema_nodes (JObj contract) \<le> 64" using visit_count [OF visit assms(2)] by (simp add: MaxContractNodes_def)
  note sizes = bytes this
  from visit_reach [OF assms(3) visit assms(2)]
  have *: "1 + j \<le> 16" "list_all (List.member supported_keywords) (map fst sub)"
    by (auto simp: MaxContractDepth_def)
  have "\<not> List.member supported_keywords ''$ref''"
    by (simp add: supported_keywords_def boolean_keywords_def number_keywords_def text_keywords_def)
  with * have "map_of sub ''$ref'' = None" by (auto simp: map_of_eq_None_iff list_all_iff)
  with * sizes show ?thesis by simp
qed

definition example_library :: schema_library where
  "example_library = \<lparr>encoded_length = length, pattern_compiles = (\<lambda>t. True), schema_decodes = (\<lambda>c. True),
     schema_validates = (\<lambda>c. True), visit_json = (\<lambda>c v. None)\<rparr>"

definition example_contract :: json_object where
  "example_contract = [(''type'', JStr ''object''),
     (''properties'', JObj [(''module_inputs'', JObj [(''minProperties'', JNum 1)])])]"

theorem compileContract_bounded_witness:
  "compileContract example_library (Some example_contract) = Inr (Some example_contract)
   \<and> subschema_at 1 example_contract [(''minProperties'', JNum 1)]
   \<and> schema_nodes (JObj example_contract) \<le> 64 \<and> map_of [(''minProperties'', JNum 1)] ''$ref'' = None"
proof -
  have ok: "compileContract example_library (Some example_contract) = Inr (Some example_contract)"
    by (simp add: compileContract_def example_library_def example_contract_def visit.simps Let_def
        MaxContractDepth_def MaxContractNodes_def MaxContractBytes_def schema_keyword_def subschemas_def
        check_plain_keyword_def schema_types_def boolean_keywords_def number_keywords_def text_keywords_def
        definitionField_def quotient_of_number)
  have sub: "subschema_at 1 example_contract [(''minProperties'', JNum 1)]"
    unfolding One_nat_def
    by (rule subschema_below [of _ "''properties''" _ "[(''minProperties'', JNum 1)]"])
      (auto simp: example_contract_def sub_values_def intro: subschema_here)
  have "json_wf (JObj example_contract)" by (simp add: example_contract_def)
  from compileContract_bounded [OF ok this sub] ok sub show ?thesis by blast
qed

end
