(* ===== verification/ResourceTypes.thy ===== *)
theory ResourceTypes
  imports Conformance
begin

text \<open>
  Resource types and their interface versions: \<^verbatim>\<open>internal/model/resource_types.go\<close>,
  \<^verbatim>\<open>resource_type_versions.go\<close> and \<^verbatim>\<open>module_conformance.go\<close>.

  A resource type belongs to one organisation or is built in (no organisation); an organisation's
  own type hides the built-in one of the same name. Its row is created with version 1 of its
  interface (a trigger of migration 49), later interface versions are published one by one, and
  interface versions are never changed. Modules are bound to the type their organisation saw when
  they were created.

  Every operation runs inside a transaction of its caller; the advisory lock on the type's identity
  (\<^verbatim>\<open>lockResourceTypeIdentity\<close>) serialises them and has no other effect.
\<close>

section \<open>The request to publish a module version\<close>

record ModuleDefinitionVersion =
  q_OrgId :: string
  q_DefinitionId :: string
  q_ModuleUUID :: uuid
  q_CreatedAt :: timestamp
  q_ResourceType :: string
  q_ResourceTypeVersion :: int
  q_ResourceTypeVersionUUID :: uuid
  q_VersionId :: string
  q_VersionUUID :: uuid
  q_SemanticVersion :: string
  q_MigrationGeneration :: string
  q_VerificationStatus :: "VerificationStatus option"
  q_ResourceVersion :: int
  q_PublishedBy :: "uuid option"
  q_UpdatedAt :: timestamp
  q_SemanticStatus :: "LifecycleStatus option"
  q_Content :: module_content

definition semanticStatusOrDefault :: "ModuleDefinitionVersion \<Rightarrow> LifecycleStatus" where
  "semanticStatusOrDefault version =
     (case q_SemanticStatus version of None \<Rightarrow> LifecycleDefault | Some status \<Rightarrow> status)"

section \<open>Reading\<close>

text \<open>
  The row \<^verbatim>\<open>WHERE id = $2 AND (org_id = $1 OR org_id IS NULL) ORDER BY org_id NULLS LAST LIMIT 1\<close>.
\<close>

definition visible_type :: "string option \<Rightarrow> string \<Rightarrow> ResourceType list \<Rightarrow> ResourceType option" where
  "visible_type orgId typeId rows =
     (case find (\<lambda>r. rt_Id r = typeId \<and> rt_OrgId r \<noteq> None \<and> rt_OrgId r = orgId) rows of
        Some r \<Rightarrow> Some r
      | None \<Rightarrow> find (\<lambda>r. rt_Id r = typeId \<and> rt_OrgId r = None) rows)"

definition GetResourceType :: "string option \<Rightarrow> string \<Rightarrow> db \<Rightarrow> ResourceType result" where
  "GetResourceType orgId typeId s =
     require_some (NewErrNotFound ''resource type not found'') (visible_type orgId typeId (resource_types s))"

definition BulkGetResourceTypes :: "string \<Rightarrow> string list \<Rightarrow> db \<Rightarrow> ResourceType list" where
  "BulkGetResourceTypes orgId ids s =
     filter (\<lambda>r. (rt_OrgId r = Some orgId \<or> rt_OrgId r = None) \<and> List.member ids (rt_Id r))
       (resource_types s)"

text \<open>
  \<^verbatim>\<open>ListResourceTypes\<close>: \<^verbatim>\<open>DISTINCT ON (id)\<close> with the organisation's row first, by identifier, one
  row more than a page to know whether there is a next page.
\<close>

definition ListResourceTypes :: "string option \<Rightarrow> string \<Rightarrow> int \<Rightarrow> db \<Rightarrow> ResourceType list \<times> string" where
  "ListResourceTypes orgId pageToken perPage s =
     (let page = nat (max 1 perPage);
          ids = sort (remdups (map rt_Id
            (filter (\<lambda>r. (rt_OrgId r = None \<or> rt_OrgId r = orgId) \<and> pageToken < rt_Id r) (resource_types s))));
          rows = List.map_filter (\<lambda>typeId. visible_type orgId typeId (resource_types s)) (take (page + 1) ids);
          out = take page rows
      in (out, if length rows > page then rt_Id (last out) else []))"

definition GetResourceTypeVersion :: "string \<Rightarrow> string \<Rightarrow> int \<Rightarrow> db \<Rightarrow> ResourceTypeVersion result" where
  "GetResourceTypeVersion orgID typeId version s =
     require_some (NewErrNotFound ''Resource Type version not found'')
       (case visible_type (Some orgID) typeId (resource_types s) of
          None \<Rightarrow> None
        | Some r \<Rightarrow> find (\<lambda>v. rtv_ResourceTypeUUID v = rt_uuid r \<and> rtv_Version v = version)
                      (resource_type_versions s))"

definition ListResourceTypeVersions ::
  "string \<Rightarrow> string \<Rightarrow> int \<Rightarrow> int \<Rightarrow> db \<Rightarrow> ResourceTypeVersion list result" where
  "ListResourceTypeVersions orgID typeId after limit s =
     fail_if (after < 0 \<or> limit < 1 \<or> limit > 101) (NewErrBadRequest ''invalid Resource Type version page'')
     (Inr (case visible_type (Some orgID) typeId (resource_types s) of
         None \<Rightarrow> []
       | Some r \<Rightarrow> take (nat limit) (sort_key rtv_Version
           (filter (\<lambda>v. rtv_ResourceTypeUUID v = rt_uuid r \<and> rtv_Version v > after)
             (resource_type_versions s)))))"

section \<open>Changing the catalogue\<close>

definition conformanceBadRequest :: "ConformanceError \<Rightarrow> model_error" where
  "conformanceBadRequest failure = ErrBadRequest (ConformanceError_Error failure)"

definition resource_types_constraints :: "(ResourceType, string list) constraint list" where
  "resource_types_constraints =
     [(''resource_types_pkey'', \<lambda>r. Some [rt_uuid r]),
      (''resource_types_unq'', \<lambda>r. Some (case rt_OrgId r of None \<Rightarrow> [rt_Id r] | Some org \<Rightarrow> [org, rt_Id r]))]"

definition resource_type_versions_constraints :: "(ResourceTypeVersion, string list \<times> int) constraint list" where
  "resource_type_versions_constraints =
     [(''resource_type_versions_pkey'', \<lambda>v. Some ([rtv_UUID v], 0)),
      (''resource_type_versions_resource_type_uuid_version_key'',
         \<lambda>v. Some ([rtv_ResourceTypeUUID v], rtv_Version v))]"

text \<open>The trigger \<^verbatim>\<open>initialize_resource_type_version\<close> of migration 49.\<close>

definition initialize_resource_type_version :: "ResourceType \<Rightarrow> uuid \<Rightarrow> ResourceTypeVersion" where
  "initialize_resource_type_version r version_uuid =
     \<lparr>rtv_UUID = version_uuid, rtv_ResourceTypeUUID = rt_uuid r, rtv_Version = 1,
      rtv_OutputSchema = rt_OutputsSchema r, rtv_ModuleContract = rt_ModuleContract r,
      rtv_CreatedAt = rt_CreatedAt r, rtv_CreatedBy = None, rtv_Reason = None\<rparr>"

definition shadows_used_type :: "string \<Rightarrow> string \<Rightarrow> db \<Rightarrow> bool" where
  "shadows_used_type org typeId s \<longleftrightarrow>
     list_ex (\<lambda>r. rt_OrgId r = None \<and> rt_Id r = typeId) (resource_types s)
     \<and> \<not> list_ex (\<lambda>r. rt_OrgId r = Some org \<and> rt_Id r = typeId) (resource_types s)
     \<and> list_ex (\<lambda>d. d_org_id d = org \<and> d_resource_type d = typeId) (definitions s)"

definition CreateResourceType ::
  "schema_library \<Rightarrow> ResourceType \<Rightarrow> uuid \<Rightarrow> uuid \<Rightarrow> db \<Rightarrow> (ResourceType \<times> db) result" where
  "CreateResourceType lib request new_uuid version_uuid s =
     (case ValidateContract lib (rt_ModuleContract request) of
        Some failure \<Rightarrow> Inl (conformanceBadRequest failure)
      | None \<Rightarrow>
          fail_if (case rt_OrgId request of None \<Rightarrow> False | Some org \<Rightarrow> shadows_used_type org (rt_Id request) s)
            (NewErrConflict ''cannot shadow a built-in Resource Type already bound to a Module in this organization; use a new Resource Type identity'')
          (let row = request\<lparr>rt_uuid := new_uuid, rt_CatalogueStatus := CatalogueActive, rt_ResourceVersion := 1,
                 rt_ArchivedAt := None, rt_ArchivedBy := None, rt_ArchiveReason := []\<rparr> in
           try_then
             (map_error (\<lambda>e. if isUniqueViolation e [''resource_types_unq'']
                then NewErrConflict ''resource type already exists'' else e)
              (insert_row resource_types_constraints row (resource_types s)))
             (\<lambda>rows.
                fail_if (case rt_OrgId request of None \<Rightarrow> False | Some org \<Rightarrow> \<not> List.member (orgs s) org)
                  (ErrConstraint ''resource_types_org_fk'')
                (try_then
                   (insert_row resource_type_versions_constraints
                     (initialize_resource_type_version row version_uuid) (resource_type_versions s))
                   (\<lambda>versions. Inr (row, s\<lparr>resource_types := rows, resource_type_versions := versions\<rparr>))))))"

definition UpdateResourceType :: "string option \<Rightarrow> string \<Rightarrow> db \<Rightarrow> (ResourceType \<times> db) result" where
  "UpdateResourceType orgId typeId s =
     try_then (GetResourceType orgId typeId s)
       (\<lambda>r. Inl (NewErrConflict ''resource types are immutable; publish a new interface version for a changed contract''))"

text \<open>The two \<^verbatim>\<open>UPDATE resource_types SET catalogue_status = ...\<close> statements.\<close>

fun set_type_status :: "CatalogueStatus \<Rightarrow> uuid \<Rightarrow> string \<Rightarrow> timestamp \<Rightarrow> ResourceType \<Rightarrow> ResourceType" where
  "set_type_status CatalogueArchived actor reason now r =
     r\<lparr>rt_CatalogueStatus := CatalogueArchived, rt_ArchivedAt := Some now, rt_ArchivedBy := Some actor,
       rt_ArchiveReason := reason, rt_ResourceVersion := rt_ResourceVersion r + 1\<rparr>"
| "set_type_status CatalogueActive actor reason now r =
     r\<lparr>rt_CatalogueStatus := CatalogueActive, rt_ArchivedAt := None, rt_ArchivedBy := None,
       rt_ArchiveReason := [], rt_ResourceVersion := rt_ResourceVersion r + 1\<rparr>"

definition SetResourceTypeCatalogueStatus ::
  "string \<Rightarrow> string \<Rightarrow> string \<Rightarrow> uuid \<Rightarrow> string \<Rightarrow> int \<Rightarrow> timestamp \<Rightarrow> db \<Rightarrow> (ResourceType \<times> db) result" where
  "SetResourceTypeCatalogueStatus orgID typeId target actor reason0 expectedVersion now s =
     (let reason = TrimSpace reason0 in
      fail_if (reason = '''') (NewErrBadRequest ''reason is required'')
      (try_then (require_some (NewErrBadRequest ''invalid resource type catalogue status'')
                  (CatalogueStatus_of_text target)) (\<lambda>status.
       try_then (GetResourceType (Some orgID) typeId s) (\<lambda>current.
       fail_if (rt_OrgId current \<noteq> Some orgID)
         (NewErrConflict ''built-in resource types cannot be managed through an organization'')
      (fail_if (rt_ResourceVersion current \<noteq> expectedVersion)
         (NewErrConflict ''resource type changed since it was read'')
      (if rt_CatalogueStatus current = status then Inr (current, s)
       else
         let change = set_type_status status actor reason now;
             updated = change current;
             event = \<lparr>rte_OrgID = orgID, rte_ResourceTypeID = typeId,
               rte_EventType = (if status = CatalogueActive then ''resource_type.unarchived'' else ''resource_type.archived''),
               rte_ResourceVersion = rt_ResourceVersion updated, rte_Actor = actor, rte_Reason = reason\<rparr>
         in Inr (updated,
              appendModuleCoreOutboxEvent ''io.platform-orchestrator.resource-type.catalogue.changed''
                [(''org_id'', JStr orgID), (''resource_type'', JStr typeId), (''catalogue_status'', JStr target),
                 (''resource_version'', jint (rt_ResourceVersion updated)), (''actor'', JStr actor),
                 (''reason'', JStr reason)]
                (s\<lparr>resource_types := upd_where (\<lambda>r. rt_OrgId r = Some orgID \<and> rt_Id r = typeId) change (resource_types s),
                    resource_type_events := resource_type_events s @ [event]\<rparr>))))))))"

record ResourceTypeVersionPublication =
  rp_Version :: int
  rp_ExpectedResourceVersion :: int
  rp_OutputSchema :: "json_object option"
  rp_ModuleContract :: "json_object option"
  rp_Actor :: uuid
  rp_Reason :: string

definition next_interface_version :: "uuid \<Rightarrow> ResourceTypeVersion list \<Rightarrow> int" where
  "next_interface_version resourceUUID versions =
     (let numbers = map rtv_Version (filter (\<lambda>v. rtv_ResourceTypeUUID v = resourceUUID) versions)
      in (if numbers = [] then 0 else Max (set numbers)) + 1)"

definition PublishResourceTypeVersion ::
  "schema_library \<Rightarrow> string \<Rightarrow> string \<Rightarrow> ResourceTypeVersionPublication \<Rightarrow> uuid \<Rightarrow> timestamp \<Rightarrow> db
   \<Rightarrow> (ResourceTypeVersion \<times> db) result" where
  "PublishResourceTypeVersion lib orgID typeId request version_uuid now s =
     fail_if (rp_Version request < 2)
       (NewErrBadRequest ''publication requires an explicit interface version of at least 2; version 1 belongs to the catalogue identity'')
     (fail_if (rp_Actor request = Nil_uuid \<or> TrimSpace (rp_Reason request) = '''' \<or> length (rp_Reason request) > 2000
          \<or> rp_OutputSchema request = None)
       (NewErrBadRequest ''actor, non-empty reason and output_schema are required'')
     (case ValidateContract lib (rp_ModuleContract request) of
        Some failure \<Rightarrow> Inl (conformanceBadRequest failure)
      | None \<Rightarrow>
        try_then (require_some (NewErrNotFound ''organization-owned Resource Type not found'')
           (find (\<lambda>r. rt_OrgId r = Some orgID \<and> rt_Id r = typeId) (resource_types s))) (\<lambda>r.
        fail_if (rt_ResourceVersion r \<noteq> rp_ExpectedResourceVersion request)
          (NewErrConflict ''Resource Type changed since it was read'')
       (fail_if (rt_CatalogueStatus r \<noteq> CatalogueActive)
          (NewErrConflict ''archived Resource Types do not accept new contracts'')
       (let number = next_interface_version (rt_uuid r) (resource_type_versions s) in
        fail_if (rp_Version request \<noteq> number)
          (NewErrConflict ''the requested interface version must be the next unused version number'')
       (try_then (insert_row resource_type_versions_constraints
            \<lparr>rtv_UUID = version_uuid, rtv_ResourceTypeUUID = rt_uuid r, rtv_Version = number,
             rtv_OutputSchema = rp_OutputSchema request, rtv_ModuleContract = rp_ModuleContract request,
             rtv_CreatedAt = now, rtv_CreatedBy = Some (rp_Actor request),
             rtv_Reason = Some (TrimSpace (rp_Reason request))\<rparr> (resource_type_versions s)) (\<lambda>versions.
        let s' = appendModuleCoreOutboxEvent ''io.platform-orchestrator.resource-type.version.published''
              [(''org_id'', JStr orgID), (''resource_type_id'', JStr typeId), (''resource_type_uuid'', JStr (rt_uuid r)),
               (''version_uuid'', JStr version_uuid), (''version'', jint number),
               (''resource_version'', jint (rt_ResourceVersion r + 1)), (''actor'', JStr (rp_Actor request)),
               (''reason'', JStr (TrimSpace (rp_Reason request)))]
              (s\<lparr>resource_type_versions := versions,
                  resource_types := upd_where (\<lambda>x. rt_uuid x = rt_uuid r)
                    (\<lambda>x. x\<lparr>rt_ResourceVersion := rt_ResourceVersion x + 1\<rparr>) (resource_types s)\<rparr>)
        in try_then (GetResourceTypeVersion orgID typeId number s') (\<lambda>v. Inr (v, s')))))))))"

definition DeleteResourceType :: "string option \<Rightarrow> string \<Rightarrow> db \<Rightarrow> (unit \<times> db) result" where
  "DeleteResourceType orgId typeId s =
     (let mine = (\<lambda>r. rt_Id r = typeId \<and> rt_OrgId r = orgId) in
      fail_if (list_ex (\<lambda>v. rtv_Version v > 1 \<and>
            list_ex (\<lambda>r. mine r \<and> rt_uuid r = rtv_ResourceTypeUUID v) (resource_types s)) (resource_type_versions s))
        (NewErrConflict ''published Resource Type interface history is retained; archive the catalogue entry instead'')
     (fail_if (orgId = None \<and> list_ex (\<lambda>d. d_resource_type d = typeId
            \<and> \<not> list_ex (\<lambda>r. rt_OrgId r = Some (d_org_id d) \<and> rt_Id r = typeId) (resource_types s)) (definitions s))
        (NewErrConflict ''modules are still using this built-in Resource Type'')
     (fail_if (case orgId of None \<Rightarrow> False
           | Some org \<Rightarrow> list_ex (\<lambda>d. d_org_id d = org \<and> d_resource_type d = typeId) (definitions s))
        (NewErrConflict ''modules are still using this resource type'')
     (fail_if (case orgId of None \<Rightarrow> False
           | Some org \<Rightarrow> list_ex (\<lambda>e. rte_OrgID e = org \<and> rte_ResourceTypeID e = typeId) (resource_type_events s))
        (NewErrConflict ''resource types with catalogue history cannot be deleted or reused'')
     (fail_if (list_ex (\<lambda>d. list_ex (\<lambda>r. mine r \<and> rt_uuid r = d_resource_type_uuid d) (resource_types s)) (definitions s))
        (ErrConstraint ''definitions_resource_type_uuid_fkey'')
     (fail_if (\<not> list_ex mine (resource_types s)) (NewErrNotFound ''resource type not found'')
     (Inr ((), s\<lparr>resource_types := filter (\<lambda>r. \<not> mine r) (resource_types s),
         resource_type_versions := filter
           (\<lambda>v. \<not> list_ex (\<lambda>r. mine r \<and> rt_uuid r = rtv_ResourceTypeUUID v) (resource_types s))
           (resource_type_versions s)\<rparr>))))))))"

section \<open>The contract of a module version\<close>

text \<open>
  \<^verbatim>\<open>resolveModuleResourceTypeContract\<close> returns the schema and the contract of the selected
  interface version and writes the version's identity into the request.
\<close>

definition resolveModuleResourceTypeContract ::
  "ModuleDefinitionVersion \<Rightarrow> db \<Rightarrow> (ResourceTypeVersion \<times> ModuleDefinitionVersion) result" where
  "resolveModuleResourceTypeContract definition s =
     fail_if (q_ResourceTypeVersion definition < 0) (NewErrBadRequest ''resource_type_version must be positive'')
     (let version = (if q_ResourceTypeVersion definition = 0 then 1 else q_ResourceTypeVersion definition);
          owner = (case find (\<lambda>d. d_org_id d = q_OrgId definition \<and> d_id d = q_DefinitionId definition) (definitions s) of
              Some d \<Rightarrow> Some (d_resource_type_uuid d)
            | None \<Rightarrow> map_option rt_uuid
                (visible_type (Some (q_OrgId definition)) (q_ResourceType definition) (resource_types s)));
          selected = q_ResourceTypeVersionUUID definition
      in try_then (require_some (NewErrBadRequest ''selected Resource Type version does not belong to this Module'')
           (find (\<lambda>v. Some (rtv_ResourceTypeUUID v) = owner
              \<and> (if selected = Nil_uuid then rtv_Version v = version else rtv_UUID v = selected))
             (resource_type_versions s))) (\<lambda>v.
         fail_if (q_ResourceTypeVersion definition \<noteq> 0 \<and> rtv_Version v \<noteq> q_ResourceTypeVersion definition)
           (NewErrBadRequest ''Resource Type version number and UUID disagree'')
         (Inr (v, definition\<lparr>q_ResourceTypeVersionUUID := rtv_UUID v, q_ResourceTypeVersion := rtv_Version v\<rparr>))))"

text \<open>
  The document that a contract is checked against. A \<^verbatim>\<open>opt.Opt\<close> field is a struct, which
  \<^verbatim>\<open>omitempty\<close> does not omit: it is encoded as its value or \<^verbatim>\<open>null\<close>.
\<close>

definition object_or_empty :: "json_object option \<Rightarrow> json" where
  "object_or_empty m = JObj (case m of None \<Rightarrow> [] | Some o1 \<Rightarrow> o1)"

definition params_member :: "json_object option \<Rightarrow> json_object" where
  "params_member params = (case params of None \<Rightarrow> [] | Some [] \<Rightarrow> [] | Some o1 \<Rightarrow> [(''params'', JObj o1)])"

definition ModuleParam_json :: "ModuleParam \<Rightarrow> json" where
  "ModuleParam_json p = JObj [(''type'', JStr (mp_Type p)), (''is_optional'', JBool (mp_IsOptional p)),
     (''description'', JStr (mp_Description p))]"

definition Dependency_json :: "ModuleDefinitionDependency \<Rightarrow> json" where
  "Dependency_json d = JObj ([(''type'', JStr (dep_Type d)), (''class'', jopt (dep_Class d)), (''id'', jopt (dep_Id d))]
     @ params_member (dep_Params d))"

definition CoProvision_json :: "ModuleDefinitionCoProvision \<Rightarrow> json" where
  "CoProvision_json c = JObj ([(''type'', JStr (cp_Type c)), (''class'', jopt (cp_Class c)), (''id'', jopt (cp_Id c))]
     @ params_member (cp_Params c)
     @ [(''is_dependent_on_current'', JBool (cp_IsDependentOnCurrent c)),
        (''copy_dependents_from_current'', JBool (cp_CopyDependentsFromCurrent c))])"

definition definition_document :: "module_content \<Rightarrow> json_object" where
  "definition_document c =
     [(''module_inputs'', object_or_empty (c_ModuleInputs c)),
      (''module_params'', JObj (case c_ModuleParams c of None \<Rightarrow> [] | Some ps \<Rightarrow> map (\<lambda>(k, p). (k, ModuleParam_json p)) ps)),
      (''provider_mapping'', JObj (map (\<lambda>(k, t). (k, JStr t)) (c_ProviderMapping c))),
      (''dependencies'', JObj (case c_Dependencies c of None \<Rightarrow> [] | Some ds \<Rightarrow> map (\<lambda>(k, d). (k, Dependency_json d)) ds)),
      (''coprovisioned'', JArr (case c_CoProvisioned c of None \<Rightarrow> [] | Some cs \<Rightarrow> map CoProvision_json cs))]
     @ (case c_OutputSchema c of None \<Rightarrow> [] | Some o1 \<Rightarrow> [(''output_schema'', JObj o1)])"

definition validateModuleConformance ::
  "schema_library \<Rightarrow> ModuleDefinitionVersion \<Rightarrow> db \<Rightarrow> ModuleDefinitionVersion result" where
  "validateModuleConformance lib definition s =
     try_then (resolveModuleResourceTypeContract definition s) (\<lambda>(v, definition').
       case (if q_SemanticVersion definition' = '''' then None
             else ValidateOutputs (rtv_OutputSchema v) (c_OutputSchema (q_Content definition'))) of
         Some failure \<Rightarrow> Inl (conformanceBadRequest failure)
       | None \<Rightarrow>
           (case rtv_ModuleContract v of
              None \<Rightarrow> Inr definition'
            | Some contract \<Rightarrow>
                (case ValidateDefinition lib (Some contract) (definition_document (q_Content definition')) of
                   Some failure \<Rightarrow> Inl (conformanceBadRequest failure)
                 | None \<Rightarrow> Inr definition')))"

end
