(* ===== verification/TypeBinding.thy ===== *)
theory TypeBinding
  imports ResourceTypes
begin

text \<open>
  The invariant of the resource-type tables and its preservation. It says that identities are
  unique, that the interface versions of a type are numbered without gaps from 1, and that every
  module is bound to the resource type that its organisation sees under the type's name, so that a
  name never comes to mean another type for an existing module.

  Both parts are stated over the tables, and the operations are the steps of \<open>type_step\<close>; a database
  all of whose changes to the three tables are such steps keeps the invariant.
\<close>

section \<open>The invariant\<close>

definition interface_numbers :: "uuid \<Rightarrow> ResourceTypeVersion list \<Rightarrow> int set" where
  "interface_numbers u versions = rtv_Version ` {v \<in> set versions. rtv_ResourceTypeUUID v = u}"

definition identity_of :: "ResourceType \<Rightarrow> string option \<times> string" where
  "identity_of r = (rt_OrgId r, rt_Id r)"

definition types_inv :: "ResourceType list \<Rightarrow> ResourceTypeVersion list \<Rightarrow> bool" where
  "types_inv rows versions \<longleftrightarrow>
     distinct (map rt_uuid rows) \<and> distinct (map identity_of rows) \<and> distinct (map rtv_UUID versions)
     \<and> (\<forall>v\<in>set versions. rtv_ResourceTypeUUID v \<in> rt_uuid ` set rows)
     \<and> (\<forall>r\<in>set rows. \<exists>n\<ge>1. interface_numbers (rt_uuid r) versions = {1..n})"

definition binding_inv :: "ResourceType list \<Rightarrow> definitions_row list \<Rightarrow> bool" where
  "binding_inv rows modules \<longleftrightarrow>
     (\<forall>d\<in>set modules. map_option rt_uuid (visible_type (Some (d_org_id d)) (d_resource_type d) rows)
        = Some (d_resource_type_uuid d))"

definition type_db_inv :: "db \<Rightarrow> bool" where
  "type_db_inv s \<longleftrightarrow> types_inv (resource_types s) (resource_type_versions s)
     \<and> binding_inv (resource_types s) (definitions s)"

inductive type_step :: "schema_library \<Rightarrow> db \<Rightarrow> db \<Rightarrow> bool" for lib where
  step_create: "CreateResourceType lib request u vu s = Inr (r, s') \<Longrightarrow> type_step lib s s'"
| step_status: "SetResourceTypeCatalogueStatus org i target actor reason e now s = Inr (r, s') \<Longrightarrow>
    type_step lib s s'"
| step_publish: "PublishResourceTypeVersion lib org i request vu now s = Inr (v, s') \<Longrightarrow> type_step lib s s'"
| step_delete: "DeleteResourceType orgId i s = Inr (x, s') \<Longrightarrow> type_step lib s s'"

section \<open>Lookups\<close>

lemma visible_type_iff:
  assumes "distinct (map identity_of rows)"
  shows "visible_type org i rows = Some r \<longleftrightarrow>
    r \<in> set rows \<and> rt_Id r = i
    \<and> (rt_OrgId r = org \<or> rt_OrgId r = None \<and> (\<forall>x\<in>set rows. identity_of x \<noteq> (org, i)))"
proof -
  have uniq: "x \<in> set rows \<Longrightarrow> y \<in> set rows \<Longrightarrow> identity_of x = identity_of y \<Longrightarrow> x = y" for x y
    using assms unique_key_eq by metis
  let ?own = "\<lambda>r. rt_Id r = i \<and> rt_OrgId r \<noteq> None \<and> rt_OrgId r = org"
  let ?builtin = "\<lambda>r. rt_Id r = i \<and> rt_OrgId r = None"
  show ?thesis
  proof (cases "find ?own rows")
    case None
    then have no: "\<not> (rt_OrgId x \<noteq> None \<and> identity_of x = (org, i))" if "x \<in> set rows" for x
      using that by (auto simp: find_None_iff identity_of_def)
    show ?thesis
    proof (cases "find ?builtin rows")
      case b: None
      have "visible_type org i rows = None"
        using None b by (simp only: visible_type_def option.case)
      moreover have "\<not> (x \<in> set rows \<and> rt_Id x = i \<and> (rt_OrgId x = org \<or> rt_OrgId x = None))" for x
        using None b unfolding find_None_iff by blast
      ultimately show ?thesis by auto
    next
      case (Some b)
      note bD = find_in_set [OF Some]
      have "visible_type org i rows = Some b" using None Some by (simp only: visible_type_def option.case)
      moreover have "r = b" if "r \<in> set rows" "rt_Id r = i" "rt_OrgId r = None"
        using that bD uniq by (auto simp: identity_of_def)
      moreover have "rt_OrgId r = None" if "r \<in> set rows" "rt_Id r = i" "rt_OrgId r = org"
        using no [OF that(1)] that(2,3) by (auto simp: identity_of_def)
      moreover have "identity_of x \<noteq> (org, i)" if "x \<in> set rows" "org \<noteq> None" for x
        using no [OF that(1)] that(2) by (auto simp: identity_of_def)
      ultimately show ?thesis using bD by (cases org) auto
    qed
  next
    case (Some a)
    note aD = find_in_set [OF Some]
    have "visible_type org i rows = Some a" using Some by (simp only: visible_type_def option.case)
    then show ?thesis using aD uniq by (auto simp: identity_of_def)
  qed
qed

lemma visible_type_upd:
  assumes "\<And>r. identity_of (f r) = identity_of r" and "\<And>r. rt_uuid (f r) = rt_uuid r"
  shows "map_option rt_uuid (visible_type org i (upd_where P f rows)) = map_option rt_uuid (visible_type org i rows)"
proof -
  have "rt_Id (f r) = rt_Id r" "rt_OrgId (f r) = rt_OrgId r" for r
    using assms(1) [of r] by (auto simp: identity_of_def)
  then show ?thesis using assms(2)
    by (simp add: visible_type_def find_upd_where option.map_comp comp_def if_distrib split: option.splits)
      (auto simp: option.map_comp comp_def if_distrib cong: if_cong)
qed

section \<open>Preservation\<close>

lemma types_inv_rows_upd:
  assumes "types_inv rows versions" and "\<And>r. identity_of (f r) = identity_of r" and "\<And>r. rt_uuid (f r) = rt_uuid r"
  shows "types_inv (upd_where P f rows) versions"
proof -
  have "map rt_uuid (upd_where P f rows) = map rt_uuid rows" "map identity_of (upd_where P f rows) = map identity_of rows"
    using assms(2,3) by (simp_all add: map_upd_where)
  moreover from this(1) have "rt_uuid ` set (upd_where P f rows) = rt_uuid ` set rows"
    by (metis set_map)
  moreover have "\<exists>r0\<in>set rows. rt_uuid r0 = rt_uuid r" if "r \<in> set (upd_where P f rows)" for r
    using that calculation(3) by (metis imageE image_eqI)
  ultimately show ?thesis using assms(1) unfolding types_inv_def by metis
qed

lemma binding_inv_upd:
  assumes "binding_inv rows modules" and "\<And>r. identity_of (f r) = identity_of r" and "\<And>r. rt_uuid (f r) = rt_uuid r"
  shows "binding_inv (upd_where P f rows) modules"
  using assms(1) by (simp add: binding_inv_def visible_type_upd [OF assms(2,3)])

lemma interface_numbers_snoc:
  "interface_numbers u (versions @ [v]) =
     (if rtv_ResourceTypeUUID v = u then insert (rtv_Version v) (interface_numbers u versions)
      else interface_numbers u versions)"
  by (auto simp: interface_numbers_def)

lemma create_Inr:
  assumes "CreateResourceType lib request u vu s = Inr (r, s')"
  shows "identity_of r = identity_of request" "rt_uuid r = u"
    "resource_types s' = resource_types s @ [r]"
    "resource_type_versions s' = resource_type_versions s @ [initialize_resource_type_version r vu]"
    "definitions s' = definitions s"
    "u \<notin> rt_uuid ` set (resource_types s)" "identity_of r \<notin> identity_of ` set (resource_types s)"
    "vu \<notin> rtv_UUID ` set (resource_type_versions s)"
    "\<And>org. rt_OrgId r = Some org \<Longrightarrow> \<not> shadows_used_type org (rt_Id r) s"
proof -
  let ?row = "request\<lparr>rt_uuid := u, rt_CatalogueStatus := CatalogueActive, rt_ResourceVersion := 1,
     rt_ArchivedAt := None, rt_ArchivedBy := None, rt_ArchiveReason := []\<rparr>"
  have r: "r = ?row" and rows: "insert_row resource_types_constraints ?row (resource_types s) = Inr (resource_types s')"
    and vers: "insert_row resource_type_versions_constraints (initialize_resource_type_version ?row vu)
        (resource_type_versions s) = Inr (resource_type_versions s')"
    and sh: "\<not> (case rt_OrgId request of None \<Rightarrow> False | Some org \<Rightarrow> shadows_used_type org (rt_Id request) s)"
    and ds: "definitions s' = definitions s"
    using assms by (auto simp: CreateResourceType_def Let_def split: option.splits)
  from r show "identity_of r = identity_of request" "rt_uuid r = u" by (simp_all add: identity_of_def)
  from rows r show "resource_types s' = resource_types s @ [r]" by (simp add: insert_row_Inr_iff)
  from vers r show "resource_type_versions s' = resource_type_versions s @ [initialize_resource_type_version r vu]"
    by (simp add: insert_row_Inr_iff)
  from ds show "definitions s' = definitions s" .
  from rows show "u \<notin> rt_uuid ` set (resource_types s)"
    by (auto simp: insert_row_Inr_iff resource_types_constraints_def violates_def list_ex_iff)
  from rows r show "identity_of r \<notin> identity_of ` set (resource_types s)"
    by (auto simp: insert_row_Inr_iff resource_types_constraints_def violates_def list_ex_iff identity_of_def
        split: option.splits)
  from vers show "vu \<notin> rtv_UUID ` set (resource_type_versions s)"
    by (auto simp: insert_row_Inr_iff resource_type_versions_constraints_def violates_def list_ex_iff
        initialize_resource_type_version_def)
  from sh r show "\<And>org. rt_OrgId r = Some org \<Longrightarrow> \<not> shadows_used_type org (rt_Id r) s"
    by simp
qed

lemma create_preserves:
  assumes "type_db_inv s" and "CreateResourceType lib request u vu s = Inr (r, s')"
  shows "type_db_inv s'"
proof -
  note c = create_Inr [OF assms(2)]
  have inv: "types_inv (resource_types s) (resource_type_versions s)"
    and bind: "binding_inv (resource_types s) (definitions s)"
    using assms(1) by (simp_all add: type_db_inv_def)
  have nov: "interface_numbers u (resource_type_versions s) = {}"
    using inv c(6) by (auto simp: types_inv_def interface_numbers_def)
  have "types_inv (resource_types s') (resource_type_versions s')"
  proof -
    have "\<exists>n\<ge>1. interface_numbers (rt_uuid x) (resource_type_versions s') = {1..n}"
      if "x \<in> set (resource_types s')" for x
    proof (cases "x = r")
      case True
      then have "interface_numbers (rt_uuid x) (resource_type_versions s') = {1..1}"
        using c nov by (simp add: interface_numbers_snoc initialize_resource_type_version_def)
      then show ?thesis by blast
    next
      case False
      then have "x \<in> set (resource_types s)" using that c by simp
      moreover from this have "rt_uuid x \<noteq> u" using c(6) by auto
      ultimately show ?thesis using inv c
        by (simp add: interface_numbers_snoc initialize_resource_type_version_def types_inv_def)
    qed
    then show ?thesis using inv c by (auto simp: types_inv_def initialize_resource_type_version_def)
  qed
  moreover have "binding_inv (resource_types s') (definitions s')"
  proof -
    have d: "distinct (map identity_of (resource_types s))" using inv by (simp add: types_inv_def)
    have d': "distinct (map identity_of (resource_types s @ [r]))" using d c(7) by auto
    have "map_option rt_uuid (visible_type (Some (d_org_id m)) (d_resource_type m) (resource_types s @ [r]))
        = Some (d_resource_type_uuid m)" if m: "m \<in> set (definitions s)" for m
    proof -
      obtain t where t: "visible_type (Some (d_org_id m)) (d_resource_type m) (resource_types s) = Some t"
        and tu: "rt_uuid t = d_resource_type_uuid m" using bind m by (auto simp: binding_inv_def)
      have tD: "t \<in> set (resource_types s)" "rt_Id t = d_resource_type m"
        "rt_OrgId t = Some (d_org_id m) \<or> rt_OrgId t = None \<and>
           (\<forall>x\<in>set (resource_types s). identity_of x \<noteq> (Some (d_org_id m), d_resource_type m))"
        using t visible_type_iff [OF d] by auto
      have "identity_of r \<noteq> (Some (d_org_id m), d_resource_type m)" if "rt_OrgId t = None"
      proof
        assume own: "identity_of r = (Some (d_org_id m), d_resource_type m)"
        then have "shadows_used_type (d_org_id m) (rt_Id r) s"
          using that tD m by (auto simp: shadows_used_type_def list_ex_iff identity_of_def)
        then show False using c(9) own by (simp add: identity_of_def)
      qed
      then have "visible_type (Some (d_org_id m)) (d_resource_type m) (resource_types s @ [r]) = Some t"
        using tD by (subst visible_type_iff [OF d']) auto
      then show ?thesis using tu by simp
    qed
    then show ?thesis using c by (simp add: binding_inv_def)
  qed
  ultimately show ?thesis by (simp add: type_db_inv_def)
qed

lemma set_type_status_fields [simp]:
  "identity_of (set_type_status status actor reason now r) = identity_of r"
  "rt_uuid (set_type_status status actor reason now r) = rt_uuid r"
  "rt_ResourceVersion (set_type_status status actor reason now r) = rt_ResourceVersion r + 1"
  by (cases status; simp add: identity_of_def)+

lemma status_Inr:
  assumes "SetResourceTypeCatalogueStatus org i target actor reason e now s = Inr (r, s')"
  shows "s' = s \<or> (\<exists>status. resource_types s' = upd_where (\<lambda>r. rt_OrgId r = Some org \<and> rt_Id r = i)
      (set_type_status status actor (TrimSpace reason) now) (resource_types s)
      \<and> resource_type_versions s' = resource_type_versions s \<and> definitions s' = definitions s)"
proof -
  obtain status current where
    "CatalogueStatus_of_text target = Some status" "GetResourceType (Some org) i s = Inr current"
    using assms by (auto simp: SetResourceTypeCatalogueStatus_def Let_def)
  with assms show ?thesis
    by (cases "rt_CatalogueStatus current = status")
      (auto simp: SetResourceTypeCatalogueStatus_def Let_def)
qed

lemma status_preserves:
  assumes "type_db_inv s" and "SetResourceTypeCatalogueStatus org i target actor reason e now s = Inr (r, s')"
  shows "type_db_inv s'"
  using status_Inr [OF assms(2)] assms(1) types_inv_rows_upd binding_inv_upd
  by (auto simp: type_db_inv_def)

lemma next_interface:
  assumes "interface_numbers u versions = {1..n}" and "1 \<le> n"
  shows "next_interface_version u versions = n + 1"
proof -
  have set: "set (map rtv_Version (filter (\<lambda>v. rtv_ResourceTypeUUID v = u) versions)) = {1..n}"
    using assms(1) by (auto simp: interface_numbers_def)
  then have "map rtv_Version (filter (\<lambda>v. rtv_ResourceTypeUUID v = u) versions) \<noteq> []"
    using assms(2) by (metis atLeastatMost_empty_iff list.set(1) not_less)
  moreover have "Max {1..n} = n" using assms(2) by (intro Max_eqI) auto
  ultimately show ?thesis by (simp only: next_interface_version_def Let_def set if_False)
qed

lemma publish_Inr:
  assumes "PublishResourceTypeVersion lib org i request vu now s = Inr (v, s')"
  shows "\<exists>r w. r \<in> set (resource_types s) \<and> rt_OrgId r = Some org \<and> rt_Id r = i
     \<and> rt_ResourceVersion r = rp_ExpectedResourceVersion request
     \<and> w = \<lparr>rtv_UUID = vu, rtv_ResourceTypeUUID = rt_uuid r, rtv_Version = rp_Version request,
             rtv_OutputSchema = rp_OutputSchema request, rtv_ModuleContract = rp_ModuleContract request,
             rtv_CreatedAt = now, rtv_CreatedBy = Some (rp_Actor request),
             rtv_Reason = Some (TrimSpace (rp_Reason request))\<rparr>
     \<and> rp_Version request = next_interface_version (rt_uuid r) (resource_type_versions s)
     \<and> vu \<notin> rtv_UUID ` set (resource_type_versions s)
     \<and> resource_type_versions s' = resource_type_versions s @ [w]
     \<and> resource_types s' = upd_where (\<lambda>x. rt_uuid x = rt_uuid r)
          (\<lambda>x. x\<lparr>rt_ResourceVersion := rt_ResourceVersion x + 1\<rparr>) (resource_types s)
     \<and> definitions s' = definitions s"
proof -
  obtain r where r: "find (\<lambda>r. rt_OrgId r = Some org \<and> rt_Id r = i) (resource_types s) = Some r"
    using assms by (auto simp: PublishResourceTypeVersion_def Let_def split: option.splits)
  note rD = find_in_set [OF r]
  show ?thesis
    using assms r rD
    by (intro exI [of _ r])
      (auto simp: PublishResourceTypeVersion_def Let_def insert_row_Inr_iff violates_def list_ex_iff
        resource_type_versions_constraints_def split: option.splits)
qed

lemma publish_preserves:
  assumes "type_db_inv s" and "PublishResourceTypeVersion lib org i request vu now s = Inr (v, s')"
  shows "type_db_inv s'"
proof -
  obtain r w where r: "r \<in> set (resource_types s)" and w: "rtv_UUID w = vu" "rtv_ResourceTypeUUID w = rt_uuid r"
      "rtv_Version w = next_interface_version (rt_uuid r) (resource_type_versions s)"
    and fresh: "vu \<notin> rtv_UUID ` set (resource_type_versions s)"
    and vs: "resource_type_versions s' = resource_type_versions s @ [w]"
    and rs: "resource_types s' = upd_where (\<lambda>x. rt_uuid x = rt_uuid r)
          (\<lambda>x. x\<lparr>rt_ResourceVersion := rt_ResourceVersion x + 1\<rparr>) (resource_types s)"
    and ds: "definitions s' = definitions s"
    using publish_Inr [OF assms(2)] by force
  have inv: "types_inv (resource_types s) (resource_type_versions s)"
    using assms(1) by (simp add: type_db_inv_def)
  have "types_inv (resource_types s) (resource_type_versions s @ [w])"
  proof -
    have "\<exists>n\<ge>1. interface_numbers (rt_uuid x) (resource_type_versions s @ [w]) = {1..n}"
      if x: "x \<in> set (resource_types s)" for x
    proof -
      obtain n where n: "n \<ge> 1" "interface_numbers (rt_uuid x) (resource_type_versions s) = {1..n}"
        using inv x unfolding types_inv_def by metis
      show ?thesis
      proof (cases "rt_uuid x = rt_uuid r")
        case True
        then have "rtv_Version w = n + 1" using w(3) next_interface [OF n(2,1)] by simp
        then have "interface_numbers (rt_uuid x) (resource_type_versions s @ [w]) = {1..n + 1}"
          using True w n by (auto simp: interface_numbers_snoc)
        then show ?thesis using n(1) by (intro exI [of _ "n + 1"]) simp
      next
        case False
        then show ?thesis using w n by (auto simp: interface_numbers_snoc)
      qed
    qed
    then show ?thesis using inv fresh w r by (auto simp: types_inv_def)
  qed
  then have "types_inv (resource_types s') (resource_type_versions s')"
    unfolding rs vs by (rule types_inv_rows_upd) (simp_all add: identity_of_def)
  moreover have "binding_inv (resource_types s') (definitions s')"
    unfolding rs ds using assms(1)
    by (intro binding_inv_upd) (simp_all add: type_db_inv_def identity_of_def)
  ultimately show ?thesis by (simp add: type_db_inv_def)
qed

lemma delete_Inr:
  assumes "DeleteResourceType orgId i s = Inr (x, s')"
  shows "resource_types s' = filter (\<lambda>r. identity_of r \<noteq> (orgId, i)) (resource_types s)"
    "resource_type_versions s' = filter (\<lambda>v. \<not> (\<exists>r\<in>set (resource_types s).
        identity_of r = (orgId, i) \<and> rt_uuid r = rtv_ResourceTypeUUID v)) (resource_type_versions s)"
    "definitions s' = definitions s"
    "\<And>d r. d \<in> set (definitions s) \<Longrightarrow> r \<in> set (resource_types s) \<Longrightarrow> identity_of r = (orgId, i) \<Longrightarrow>
       rt_uuid r \<noteq> d_resource_type_uuid d"
  using assms
  by (auto simp: DeleteResourceType_def Let_def list_ex_iff identity_of_def conj_commute intro!: filter_cong)

lemma delete_preserves:
  assumes "type_db_inv s" and "DeleteResourceType orgId i s = Inr (x, s')"
  shows "type_db_inv s'"
proof -
  note c = delete_Inr [OF assms(2)]
  have inv: "types_inv (resource_types s) (resource_type_versions s)"
    and bind: "binding_inv (resource_types s) (definitions s)"
    using assms(1) by (simp_all add: type_db_inv_def)
  have du: "distinct (map rt_uuid (resource_types s))" and d: "distinct (map identity_of (resource_types s))"
    using inv by (simp_all add: types_inv_def)
  have keep: "interface_numbers (rt_uuid r) (resource_type_versions s') = interface_numbers (rt_uuid r) (resource_type_versions s)"
    if "r \<in> set (resource_types s')" for r
  proof -
    have "\<not> (\<exists>y\<in>set (resource_types s). identity_of y = (orgId, i) \<and> rt_uuid y = rt_uuid r)"
      using that c(1) unique_key_eq [OF du] by fastforce
    then show ?thesis using c(2) by (auto simp: interface_numbers_def)
  qed
  have "types_inv (resource_types s') (resource_type_versions s')"
    unfolding types_inv_def
  proof (intro conjI ballI)
    show "distinct (map rt_uuid (resource_types s'))" "distinct (map identity_of (resource_types s'))"
      using du d c(1) by (simp_all add: distinct_map_filter)
    show "distinct (map rtv_UUID (resource_type_versions s'))"
      using inv c(2) by (simp add: types_inv_def distinct_map_filter)
  next
    fix v
    assume "v \<in> set (resource_type_versions s')"
    then obtain r where "r \<in> set (resource_types s)" "rt_uuid r = rtv_ResourceTypeUUID v" "identity_of r \<noteq> (orgId, i)"
      using inv c(2) by (fastforce simp: types_inv_def)
    then show "rtv_ResourceTypeUUID v \<in> rt_uuid ` set (resource_types s')" using c(1) by force
  next
    fix r
    assume r: "r \<in> set (resource_types s')"
    then have "r \<in> set (resource_types s)" using c(1) by simp
    then show "\<exists>n\<ge>1. interface_numbers (rt_uuid r) (resource_type_versions s') = {1..n}"
      using inv keep [OF r] by (simp add: types_inv_def)
  qed
  moreover have "binding_inv (resource_types s') (definitions s')"
  proof -
    have d': "distinct (map identity_of (resource_types s'))" using d c(1) by (simp add: distinct_map_filter)
    have "map_option rt_uuid (visible_type (Some (d_org_id m)) (d_resource_type m) (resource_types s'))
        = Some (d_resource_type_uuid m)" if m: "m \<in> set (definitions s)" for m
    proof -
      obtain t where t: "visible_type (Some (d_org_id m)) (d_resource_type m) (resource_types s) = Some t"
        and tu: "rt_uuid t = d_resource_type_uuid m" using bind m by (auto simp: binding_inv_def)
      have "t \<in> set (resource_types s)" using t visible_type_iff [OF d] by blast
      then have "t \<in> set (resource_types s')" using c(1) c(4) [OF m] tu by auto
      then have "visible_type (Some (d_org_id m)) (d_resource_type m) (resource_types s') = Some t"
        using t visible_type_iff [OF d] visible_type_iff [OF d'] c(1) by auto
      then show ?thesis using tu by simp
    qed
    then show ?thesis using c by (simp add: binding_inv_def)
  qed
  ultimately show ?thesis by (simp add: type_db_inv_def)
qed

section \<open>Properties\<close>

text \<open>
  Creating, archiving, restoring, deleting resource types and publishing interface versions, in
  any order, keeps identities unique, keeps the interface versions of every type numbered without gaps
  from 1, and never changes which resource type the name of an existing module's type stands for.
\<close>

theorem type_operations_keep_bindings:
  assumes "(type_step lib)\<^sup>*\<^sup>* s s'" and "type_db_inv s"
  shows "type_db_inv s'"
  using assms
proof (induction rule: rtranclp_induct)
  case (step t u)
  then have "type_db_inv t" by blast
  with step.hyps(2) show ?case
    by (cases rule: type_step.cases)
      (blast intro: create_preserves status_preserves publish_preserves delete_preserves)+
qed

definition example_type :: ResourceType where
  "example_type = \<lparr>rt_uuid = ''t1'', rt_OrgId = Some ''acme'', rt_Id = ''bucket'', rt_Description = [],
     rt_OutputsSchema = Some [], rt_ModuleContract = None, rt_CreatedAt = 0, rt_IsDeveloperAccessible = True,
     rt_CatalogueStatus = CatalogueActive, rt_ResourceVersion = 1, rt_ArchivedAt = None, rt_ArchivedBy = None,
     rt_ArchiveReason = []\<rparr>"

definition example_types_db :: db where
  "example_types_db = empty_db\<lparr>orgs := [''acme''], resource_types := [example_type],
     resource_type_versions := [initialize_resource_type_version example_type ''v1'']\<rparr>"

lemma empty_types_inv: "type_db_inv (empty_db\<lparr>orgs := [''acme'']\<rparr>)"
  by (simp add: type_db_inv_def types_inv_def binding_inv_def empty_db_def)

lemma example_create:
  "CreateResourceType example_library example_type ''t1'' ''v1'' (empty_db\<lparr>orgs := [''acme'']\<rparr>)
     = Inr (example_type, example_types_db)"
  by (simp add: CreateResourceType_def ValidateContract_def compileContract_def example_type_def
      example_types_db_def shadows_used_type_def Let_def insert_row.simps violates_def empty_db_def
      resource_types_constraints_def resource_type_versions_constraints_def)

theorem type_operations_keep_bindings_witness: "type_db_inv example_types_db"
proof (rule type_operations_keep_bindings)
  show "(type_step example_library)\<^sup>*\<^sup>* (empty_db\<lparr>orgs := [''acme'']\<rparr>) example_types_db"
    using step_create [OF example_create] by (rule r_into_rtranclp)
  show "type_db_inv (empty_db\<lparr>orgs := [''acme'']\<rparr>)" by (rule empty_types_inv)
qed

text \<open>
  A published interface version is the next unused number of its type, is recorded with the
  contents of the request, bumps the revision of the type by one, and changes nothing else of the
  interface history.
\<close>

lemma PublishResourceTypeVersion_appends:
  assumes "PublishResourceTypeVersion lib org i request vu now s = Inr (v, s')" and "type_db_inv s"
  shows "resource_type_versions s' = resource_type_versions s @ [v] \<and> rtv_UUID v = vu
    \<and> rtv_Version v = rp_Version request \<and> rtv_OutputSchema v = rp_OutputSchema request
    \<and> rtv_ModuleContract v = rp_ModuleContract request
    \<and> interface_numbers (rtv_ResourceTypeUUID v) (resource_type_versions s) = {1..rp_Version request - 1}
    \<and> (\<exists>r. visible_type (Some org) i (resource_types s) = Some r \<and> rt_uuid r = rtv_ResourceTypeUUID v
         \<and> visible_type (Some org) i (resource_types s') = Some (r\<lparr>rt_ResourceVersion := rp_ExpectedResourceVersion request + 1\<rparr>))"
proof -
  obtain r w where r: "r \<in> set (resource_types s)" "rt_OrgId r = Some org" "rt_Id r = i"
      "rt_ResourceVersion r = rp_ExpectedResourceVersion request"
    and w: "w = \<lparr>rtv_UUID = vu, rtv_ResourceTypeUUID = rt_uuid r, rtv_Version = rp_Version request,
             rtv_OutputSchema = rp_OutputSchema request, rtv_ModuleContract = rp_ModuleContract request,
             rtv_CreatedAt = now, rtv_CreatedBy = Some (rp_Actor request),
             rtv_Reason = Some (TrimSpace (rp_Reason request))\<rparr>"
    and number: "rp_Version request = next_interface_version (rt_uuid r) (resource_type_versions s)"
    and vs: "resource_type_versions s' = resource_type_versions s @ [w]"
    and rs: "resource_types s' = upd_where (\<lambda>x. rt_uuid x = rt_uuid r)
          (\<lambda>x. x\<lparr>rt_ResourceVersion := rt_ResourceVersion x + 1\<rparr>) (resource_types s)"
    using publish_Inr [OF assms(1)] by blast
  have d: "distinct (map identity_of (resource_types s))" and d': "distinct (map identity_of (resource_types s'))"
    and du: "distinct (map rtv_UUID (resource_type_versions s'))"
    using assms(2) publish_preserves [OF assms(2,1)] by (simp_all add: type_db_inv_def types_inv_def)
  let ?r' = "r\<lparr>rt_ResourceVersion := rp_ExpectedResourceVersion request + 1\<rparr>"
  have vis: "visible_type (Some org) i (resource_types s) = Some r"
    using r by (simp add: visible_type_iff [OF d])
  have "?r' \<in> set (resource_types s')" using r rs by (force simp: set_upd_where)
  then have vis': "visible_type (Some org) i (resource_types s') = Some ?r'"
    using r by (simp add: visible_type_iff [OF d'])
  obtain n where n: "n \<ge> 1" "interface_numbers (rt_uuid r) (resource_type_versions s) = {1..n}"
    using assms(2) r(1) unfolding type_db_inv_def types_inv_def by metis
  have nums: "interface_numbers (rt_uuid r) (resource_type_versions s) = {1..rp_Version request - 1}"
    using number next_interface [OF n(2,1)] n(2) by simp
  have "rtv_Version x \<noteq> rp_Version request"
    if "x \<in> set (resource_type_versions s)" "rtv_ResourceTypeUUID x = rt_uuid r" for x
    using nums that unfolding interface_numbers_def by force
  moreover have "GetResourceTypeVersion org i (rp_Version request) s' = Inr v"
    using assms(1) number vs by (auto simp: PublishResourceTypeVersion_def Let_def split: option.splits)
  then have "find (\<lambda>v. rtv_ResourceTypeUUID v = rt_uuid r \<and> rtv_Version v = rp_Version request)
      (resource_type_versions s') = Some v"
    using vis' by (simp add: GetResourceTypeVersion_def)
  ultimately have "v = w" using find_in_set vs by fastforce
  then show ?thesis using vs w nums vis vis' by auto
qed

definition example_publication :: ResourceTypeVersionPublication where
  "example_publication = \<lparr>rp_Version = 2, rp_ExpectedResourceVersion = 1, rp_OutputSchema = Some [],
     rp_ModuleContract = None, rp_Actor = ''alice'', rp_Reason = ''wider''\<rparr>"

lemma TrimSpace_plain: "hd s \<in> {CHR ''a''..CHR ''z''} \<Longrightarrow> s \<noteq> [] \<Longrightarrow> TrimSpace s \<noteq> []"
proof
  assume s: "hd s \<in> {CHR ''a''..CHR ''z''}" "s \<noteq> []" and "TrimSpace s = []"
  then obtain ps where ps: "set ps \<subseteq> set space_runes" "s = concat ps" by (auto simp: TrimSpace_blank)
  then obtain p qs where "ps = p # qs" "p \<in> set space_runes" using s by (cases ps) auto
  moreover from this have "hd s = hd p" using ps space_runes_nonempty by (simp add: hd_append)
  ultimately show False using s(1) by (auto simp: space_runes_def less_eq_char_def)
qed

lemma PublishResourceTypeVersion_appends_witness:
  "\<exists>v s'. PublishResourceTypeVersion example_library ''acme'' ''bucket'' example_publication ''v2'' 7 example_types_db
      = Inr (v, s') \<and> map rtv_Version (resource_type_versions s') = [1, 2]"
proof -
  have "TrimSpace ''wider'' \<noteq> []" by (rule TrimSpace_plain) (simp_all add: less_eq_char_def)
  then have "\<not> isl (PublishResourceTypeVersion example_library ''acme'' ''bucket'' example_publication ''v2'' 7 example_types_db)"
    by (simp add: PublishResourceTypeVersion_def example_publication_def ValidateContract_def compileContract_def
        Nil_uuid_def example_types_db_def example_type_def Let_def insert_row.simps violates_def
        resource_type_versions_constraints_def initialize_resource_type_version_def next_interface_version_def
        GetResourceTypeVersion_def visible_type_def appendModuleCoreOutboxEvent_def)
  then obtain v s' where *: "PublishResourceTypeVersion example_library ''acme'' ''bucket'' example_publication ''v2'' 7
      example_types_db = Inr (v, s')"
    by (cases "PublishResourceTypeVersion example_library ''acme'' ''bucket'' example_publication ''v2'' 7
      example_types_db") auto
  have inv: "type_db_inv example_types_db" by (rule create_preserves [OF empty_types_inv example_create])
  from PublishResourceTypeVersion_appends [OF * inv] * show ?thesis
    by (intro exI [of _ v] exI [of _ s'])
      (simp add: example_types_db_def initialize_resource_type_version_def example_publication_def)
qed

end
