(* ===== verification/Catalogue.thy ===== *)
theory Catalogue
  imports TypeBinding
begin

text \<open>
  The module catalogue and the lifecycle of module versions: the operations of
  \<^verbatim>\<open>internal/model/module_version_management.go\<close> and the ones of \<^verbatim>\<open>internal/model/modules.go\<close>
  that change state.

  A module is addressed by slug or UUID, a version by UUID, semantic version or opaque identifier.
  \<open>TransitionCoreModuleVersion\<close> is the whole lifecycle handler; its two branches are the
  definitions \<open>promote_version\<close> and \<open>demote_version\<close>. Row locks (\<^verbatim>\<open>FOR UPDATE\<close>) make the
  operations of one module atomic with respect to each other.
\<close>

section \<open>Rows as structs\<close>

record ModuleCatalogue =
  mc_OrgID :: string
  mc_UUID :: uuid
  mc_Slug :: string
  mc_DisplayName :: string
  mc_Description :: string
  mc_ResourceType :: string
  mc_Tags :: "(string \<times> string) list"
  mc_Status :: CatalogueStatus
  mc_ResourceVersion :: int
  mc_CurrentDefaultVersionUUID :: "uuid option"
  mc_PreviousDefaultVersionUUID :: "uuid option"
  mc_ManagedDefaultGeneration :: int
  mc_CreatedAt :: timestamp
  mc_ArchivedAt :: "timestamp option"
  mc_ArchivedBy :: "uuid option"
  mc_ArchiveReason :: string

definition coalesce :: "string option \<Rightarrow> string" where
  "coalesce t = (case t of None \<Rightarrow> [] | Some x \<Rightarrow> x)"

definition scanModuleCatalogue :: "definitions_row \<Rightarrow> ModuleCatalogue" where
  "scanModuleCatalogue d =
     \<lparr>mc_OrgID = d_org_id d, mc_UUID = d_uuid d, mc_Slug = d_id d,
      mc_DisplayName = (if TrimSpace (d_display_name d) = '''' then d_id d else d_display_name d),
      mc_Description = coalesce (d_description d), mc_ResourceType = d_resource_type d, mc_Tags = d_tags d,
      mc_Status = d_catalogue_status d, mc_ResourceVersion = d_resource_version d,
      mc_CurrentDefaultVersionUUID = d_current_default_version_uuid d,
      mc_PreviousDefaultVersionUUID = d_previous_default_version_uuid d,
      mc_ManagedDefaultGeneration = d_managed_default_generation d, mc_CreatedAt = d_created_at d,
      mc_ArchivedAt = d_archived_at d, mc_ArchivedBy = d_archived_by d,
      mc_ArchiveReason = coalesce (d_archive_reason d)\<rparr>"

record CoreModuleVersion =
  cv_OrgID :: string
  cv_ModuleUUID :: uuid
  cv_ModuleSlug :: string
  cv_UUID :: uuid
  cv_SemanticVersion :: "string option"
  cv_OpaqueVersionID :: string
  cv_MigrationGeneration :: string
  cv_ArtifactDigest :: string
  cv_VerificationStatus :: VerificationStatus
  cv_LifecycleStatus :: LifecycleStatus
  cv_SourceRevision :: string
  cv_ReleaseNotes :: "string option"
  cv_ResourceVersion :: int
  cv_PublishedBy :: "uuid option"
  cv_CreatedAt :: timestamp
  cv_ResourceTypeVersion :: "int option"
  cv_ResourceTypeVersionUUID :: uuid

definition scanCoreModuleVersion :: "ResourceTypeVersion list \<Rightarrow> definition_versions_row \<Rightarrow> CoreModuleVersion" where
  "scanCoreModuleVersion interfaces v =
     \<lparr>cv_OrgID = v_org_id v, cv_ModuleUUID = v_module_uuid v, cv_ModuleSlug = v_definition_id v, cv_UUID = v_uuid v,
      cv_SemanticVersion = v_semantic_version v, cv_OpaqueVersionID = v_version_id v,
      cv_MigrationGeneration = v_migration_generation v, cv_ArtifactDigest = c_ArtifactDigest (v_content v),
      cv_VerificationStatus = v_verification_status v, cv_LifecycleStatus = v_semantic_status v,
      cv_SourceRevision = c_SourceRevision (v_content v), cv_ReleaseNotes = c_ReleaseNotes (v_content v),
      cv_ResourceVersion = v_resource_version v, cv_PublishedBy = v_published_by v, cv_CreatedAt = v_created_at v,
      cv_ResourceTypeVersion = map_option rtv_Version
        (find (\<lambda>r. rtv_UUID r = v_resource_type_version_uuid v) interfaces),
      cv_ResourceTypeVersionUUID = v_resource_type_version_uuid v\<rparr>"

section \<open>Reading\<close>

definition module_matches :: "string \<Rightarrow> string \<Rightarrow> definitions_row \<Rightarrow> bool" where
  "module_matches orgID moduleRef d \<longleftrightarrow> d_org_id d = orgID \<and> (d_id d = moduleRef \<or> d_uuid d = moduleRef)"

definition GetModuleCatalogue :: "string \<Rightarrow> string \<Rightarrow> db \<Rightarrow> ModuleCatalogue result" where
  "GetModuleCatalogue orgID moduleRef s =
     require_some (NewErrNotFound ''module not found'')
       (map_option scanModuleCatalogue (find (module_matches orgID moduleRef) (definitions s)))"

definition lower_byte :: "char \<Rightarrow> char" where
  "lower_byte c = (if CHR ''A'' \<le> c \<and> c \<le> CHR ''Z'' then char_of (of_char c + 32 :: nat) else c)"

definition ListModuleCatalogues :: "string \<Rightarrow> bool \<Rightarrow> db \<Rightarrow> ModuleCatalogue list" where
  "ListModuleCatalogues orgID includeArchived s =
     map scanModuleCatalogue
       (sort_key (\<lambda>d. (map lower_byte (d_display_name d), d_id d))
         (filter (\<lambda>d. d_org_id d = orgID \<and> (includeArchived \<or> d_catalogue_status d = CatalogueActive))
           (definitions s)))"

definition in_module :: "string \<Rightarrow> definitions_row list \<Rightarrow> definition_versions_row \<Rightarrow> bool" where
  "in_module moduleRef modules v \<longleftrightarrow>
     list_ex (\<lambda>d. d_uuid d = v_module_uuid v \<and> (d_id d = moduleRef \<or> d_uuid d = moduleRef)) modules"

definition version_matches ::
  "string \<Rightarrow> string \<Rightarrow> string \<Rightarrow> definitions_row list \<Rightarrow> definition_versions_row \<Rightarrow> bool" where
  "version_matches orgID moduleRef versionRef modules v \<longleftrightarrow>
     v_org_id v = orgID \<and> in_module moduleRef modules v
     \<and> (v_uuid v = versionRef \<or> v_semantic_version v = Some versionRef \<or> v_version_id v = versionRef)"

definition GetCoreModuleVersion :: "string \<Rightarrow> string \<Rightarrow> string \<Rightarrow> db \<Rightarrow> CoreModuleVersion result" where
  "GetCoreModuleVersion orgID moduleRef versionRef s =
     require_some (NewErrNotFound ''module version not found'')
       (map_option (scanCoreModuleVersion (resource_type_versions s))
         (find (version_matches orgID moduleRef versionRef (definitions s)) (definition_versions s)))"

definition ListCoreModuleVersions ::
  "string \<Rightarrow> string \<Rightarrow> bool \<Rightarrow> bool \<Rightarrow> db \<Rightarrow> CoreModuleVersion list" where
  "ListCoreModuleVersions orgID moduleRef includeDeprecated includeDefective s =
     map (scanCoreModuleVersion (resource_type_versions s))
       (sort_key (\<lambda>v. (- v_created_at v, v_uuid v))
         (filter (\<lambda>v. v_org_id v = orgID \<and> in_module moduleRef (definitions s) v
             \<and> (includeDeprecated \<or> v_semantic_status v \<noteq> LifecycleDeprecated)
             \<and> (includeDefective \<or> v_semantic_status v \<noteq> LifecycleDefective))
           (definition_versions s)))"

definition ListModuleLifecycleEvents :: "string \<Rightarrow> string \<Rightarrow> string \<Rightarrow> db \<Rightarrow> lifecycle_event list result" where
  "ListModuleLifecycleEvents orgID moduleRef versionRef s =
     try_then (GetCoreModuleVersion orgID moduleRef versionRef s) (\<lambda>version.
       Inr (filter (\<lambda>e. le_VersionUUID e = cv_UUID version) (lifecycle_events s)))"

definition ListModuleOperationReservations ::
  "string \<Rightarrow> uuid \<Rightarrow> bool \<Rightarrow> db \<Rightarrow> ModuleOperationReservation list" where
  "ListModuleOperationReservations orgID moduleUUID includeReleased s =
     sort_key (\<lambda>r. (- mr_AcquiredAt r, mr_ID r))
       (filter (\<lambda>r. mr_OrgID r = orgID \<and> mr_ModuleUUID r = moduleUUID
           \<and> (includeReleased \<or> mr_ReleasedAt r = None)) (reservations s))"

text \<open>
  The version a new default has to exceed: the current default or, when there is none, the default
  that was last withdrawn as defective.
\<close>

definition managedDefaultLineageHead :: "ModuleCatalogue \<Rightarrow> db \<Rightarrow> CoreModuleVersion option result" where
  "managedDefaultLineageHead entry s =
     (case mc_CurrentDefaultVersionUUID entry of
        Some current \<Rightarrow>
          try_then (GetCoreModuleVersion (mc_OrgID entry) (mc_UUID entry) current s) (\<lambda>v. Inr (Some v))
      | None \<Rightarrow>
          (case find (\<lambda>e. le_ModuleUUID e = mc_UUID entry \<and> le_FromStatus e = Some LifecycleDefault
               \<and> le_ToStatus e = LifecycleDefective) (rev (lifecycle_events s)) of
             None \<Rightarrow> Inr None
           | Some e \<Rightarrow>
               try_then (GetCoreModuleVersion (mc_OrgID entry) (mc_UUID entry) (le_VersionUUID e) s)
                 (\<lambda>v. Inr (Some v))))"

text \<open>\<^verbatim>\<open>ValidatePublicationVersion\<close> against the lineage head; a version without SemVer is no floor.\<close>

definition check_lineage :: "(go_error \<Rightarrow> model_error) \<Rightarrow> CoreModuleVersion option \<Rightarrow> Version \<Rightarrow> unit result" where
  "check_lineage refuse lineageHead candidate =
     (case lineageHead of
        None \<Rightarrow> Inr ()
      | Some head \<Rightarrow>
          (case cv_SemanticVersion head of
             None \<Rightarrow> Inr ()
           | Some sv \<Rightarrow>
               (case ParseVersion sv of
                  Inl m \<Rightarrow> Inl (ErrInternal m)
                | Inr lowest \<Rightarrow>
                    (case ValidatePublicationVersion candidate (Some lowest) of
                       Some m \<Rightarrow> Inl (refuse m)
                     | None \<Rightarrow> Inr ()))))"

section \<open>Creating and changing catalogue entries\<close>

definition definitions_constraints :: "(definitions_row, string list) constraint list" where
  "definitions_constraints =
     [(''definitions_pkey'', \<lambda>d. Some [d_org_id d, d_id d]), (''definitions_uuid_unique'', \<lambda>d. Some [d_uuid d])]"

definition CreateEmptyModule ::
  "string \<Rightarrow> string \<Rightarrow> string \<Rightarrow> string \<Rightarrow> string \<Rightarrow> (string \<times> string) list \<Rightarrow> uuid \<Rightarrow> timestamp \<Rightarrow> db
   \<Rightarrow> (ModuleCatalogue \<times> db) result" where
  "CreateEmptyModule orgID slug displayName description resourceType tags new_uuid now s =
     try_then (GetResourceType (Some orgID) resourceType s) (\<lambda>resource.
     fail_if (rt_CatalogueStatus resource = CatalogueArchived)
       (NewErrConflict ''archived resource types reject new module bindings'')
    (let name = (if TrimSpace displayName = '''' then slug else displayName);
         row = \<lparr>d_org_id = orgID, d_uuid = new_uuid, d_id = slug, d_display_name = TrimSpace name,
           d_description = Some description, d_resource_type = resourceType, d_resource_type_uuid = rt_uuid resource,
           d_tags = tags, d_catalogue_status = CatalogueActive, d_resource_version = 1, d_latest_version_id = None,
           d_current_default_version_uuid = None, d_previous_default_version_uuid = None,
           d_managed_default_generation = 0, d_created_at = now, d_archived_at = None, d_archived_by = None,
           d_archive_reason = None\<rparr>
     in try_then
          (map_error (\<lambda>e. if isUniqueViolation e [''definitions_pkey'']
             then NewErrConflict ''Module technical slug is already reserved'' else e)
           (insert_row definitions_constraints row (definitions s))) (\<lambda>rows.
        fail_if (\<not> List.member (orgs s) orgID) (NewErrNotFound ''organization not found'')
        (Inr (scanModuleCatalogue row, s\<lparr>definitions := rows\<rparr>)))))"

definition UpdateModuleCatalogueMetadata ::
  "string \<Rightarrow> string \<Rightarrow> string \<Rightarrow> string \<Rightarrow> (string \<times> string) list \<Rightarrow> int \<Rightarrow> db \<Rightarrow> (ModuleCatalogue \<times> db) result" where
  "UpdateModuleCatalogueMetadata orgID moduleRef displayName description tags expectedVersion s =
     (let hit = (\<lambda>d. module_matches orgID moduleRef d \<and> d_resource_version d = expectedVersion);
          change = (\<lambda>d. d\<lparr>d_display_name := displayName, d_description := Some description, d_tags := tags,
            d_resource_version := d_resource_version d + 1\<rparr>)
      in try_then (require_some (NewErrConflict ''module changed since it was read'') (find hit (definitions s)))
        (\<lambda>d. Inr (scanModuleCatalogue (change d), s\<lparr>definitions := upd_where hit change (definitions s)\<rparr>)))"

text \<open>The two \<^verbatim>\<open>UPDATE definitions SET catalogue_status = ...\<close> statements.\<close>

fun set_module_status :: "CatalogueStatus \<Rightarrow> uuid \<Rightarrow> string \<Rightarrow> timestamp \<Rightarrow> definitions_row \<Rightarrow> definitions_row" where
  "set_module_status CatalogueArchived actor reason now d =
     d\<lparr>d_catalogue_status := CatalogueArchived, d_archived_at := Some now, d_archived_by := Some actor,
       d_archive_reason := Some reason, d_resource_version := d_resource_version d + 1\<rparr>"
| "set_module_status CatalogueActive actor reason now d =
     d\<lparr>d_catalogue_status := CatalogueActive, d_archived_at := None, d_archived_by := None,
       d_archive_reason := None, d_resource_version := d_resource_version d + 1\<rparr>"

definition SetModuleCatalogueStatus ::
  "string \<Rightarrow> string \<Rightarrow> string \<Rightarrow> uuid \<Rightarrow> string \<Rightarrow> int \<Rightarrow> timestamp \<Rightarrow> db \<Rightarrow> (ModuleCatalogue \<times> db) result" where
  "SetModuleCatalogueStatus orgID moduleRef target actor reason expectedVersion now s =
     (case RequireTransitionReason reason of
        Some m \<Rightarrow> Inl (NewErrBadRequest m)
      | None \<Rightarrow>
        try_then (GetModuleCatalogue orgID moduleRef s) (\<lambda>current.
        fail_if (mc_ResourceVersion current \<noteq> expectedVersion) (NewErrConflict ''module changed since it was read'')
       (if CatalogueStatus_text (mc_Status current) = target then Inr (current, s)
        else
        try_then (require_some (NewErrBadRequest ''invalid module catalogue status'') (CatalogueStatus_of_text target))
        (\<lambda>status.
        fail_if (status = CatalogueArchived
            \<and> ListModuleOperationReservations orgID (mc_UUID current) False s \<noteq> [])
          (NewErrConflict ''Module has exclusive operation reservations: '')
       (let hit = (\<lambda>d. d_org_id d = orgID \<and> d_uuid d = mc_UUID current);
            change = set_module_status status actor (TrimSpace reason) now;
            rows = upd_where hit change (definitions s)
        in try_then (require_some ErrNoRows (map_option scanModuleCatalogue (find hit rows))) (\<lambda>updated.
           Inr (updated,
             appendModuleCoreOutboxEvent ''io.platform-orchestrator.module.catalogue.changed''
               [(''org_id'', JStr orgID), (''module_uuid'', JStr (mc_UUID updated)), (''module_slug'', JStr (mc_Slug updated)),
                (''catalogue_status'', JStr (CatalogueStatus_text (mc_Status updated))),
                (''resource_version'', jint (mc_ResourceVersion updated)), (''actor'', JStr actor),
                (''reason'', JStr (TrimSpace reason))]
               (s\<lparr>definitions := rows,
                   catalogue_events := catalogue_events s @
                     [\<lparr>ce_OrgID = orgID, ce_ModuleUUID = mc_UUID updated,
                       ce_EventType = (if status = CatalogueActive then ''module.unarchived'' else ''module.archived''),
                       ce_ResourceVersion = mc_ResourceVersion updated, ce_Actor = actor,
                       ce_Reason = TrimSpace reason\<rparr>]\<rparr>))))))))"

section \<open>Publishing versions\<close>

definition identifier_start :: "char \<Rightarrow> bool" where
  "identifier_start c \<longleftrightarrow> is_letter c \<or> c = CHR ''_'' \<or> c = CHR ''-''"

text \<open>\<^verbatim>\<open>validIdentifierSyntax\<close>: \<^verbatim>\<open>^[a-zA-Z_-][a-zA-Z0-9_-]+$\<close>.\<close>

fun validIdentifierSyntax :: "string \<Rightarrow> bool" where
  "validIdentifierSyntax [] = False"
| "validIdentifierSyntax (c # cs) =
     (identifier_start c \<and> cs \<noteq> [] \<and> list_all (\<lambda>d. identifier_start d \<or> is_digit d) cs)"

definition validateProviders :: "string \<Rightarrow> (string \<times> string) list \<Rightarrow> db \<Rightarrow> go_error option" where
  "validateProviders orgId providerMapping s =
     (case first_failure (\<lambda>(alias, provider).
          if \<not> validIdentifierSyntax alias then Some ''invalid provider mapping: is not a valid identifier''
          else if snd (cut_at CHR ''.'' provider) = None
          then Some ''invalid provider mapping: must be provider <type>.<id>''
          else None) providerMapping of
        Some m \<Rightarrow> Some m
      | None \<Rightarrow>
          first_failure (\<lambda>(alias, provider).
            case cut_at CHR ''.'' provider of (t, i) \<Rightarrow>
              if list_ex (\<lambda>p. pr_OrgId p = orgId \<and> pr_ProviderType p = t \<and> Some (pr_Id p) = i) (providers s)
              then None else Some ''invalid provider mapping: no provider exists with type and id'')
          providerMapping)"

definition providersToStableList :: "(string \<times> string) list \<Rightarrow> string list" where
  "providersToStableList providerMapping = sort (remdups (map snd providerMapping))"

definition definition_versions_constraints :: "(definition_versions_row, string list) constraint list" where
  "definition_versions_constraints =
     [(''definition_versions_pkey'', \<lambda>v. Some [v_org_id v, v_definition_id v, v_version_id v]),
      (''definition_versions_uuid_unique'', \<lambda>v. Some [v_uuid v]),
      (''definition_versions_semver_unique'', \<lambda>v. map_option (\<lambda>sv. [v_org_id v, v_definition_id v, sv]) (v_semantic_version v)),
      (''definition_versions_one_default'',
         \<lambda>v. if v_semantic_status v = LifecycleDefault then Some [v_org_id v, v_definition_id v] else None),
      (''definition_versions_one_proposed'',
         \<lambda>v. if v_semantic_status v = LifecycleProposed then Some [v_org_id v, v_definition_id v] else None)]"

definition nullif_empty :: "string \<Rightarrow> string option" where
  "nullif_empty t = (if t = '''' then None else Some t)"

text \<open>The row that a request is stored as.\<close>

definition version_row ::
  "ModuleDefinitionVersion \<Rightarrow> uuid \<Rightarrow> uuid \<Rightarrow> string \<Rightarrow> definition_versions_row" where
  "version_row request moduleUUID new_uuid generation =
     \<lparr>v_org_id = q_OrgId request, v_definition_id = q_DefinitionId request, v_module_uuid = moduleUUID,
      v_version_id = q_VersionId request, v_uuid = new_uuid,
      v_semantic_version = nullif_empty (q_SemanticVersion request),
      v_migration_generation = (if q_MigrationGeneration request = '''' then generation else q_MigrationGeneration request),
      v_verification_status = (case q_VerificationStatus request of None \<Rightarrow> VerificationUnverified | Some x \<Rightarrow> x),
      v_semantic_status = semanticStatusOrDefault request, v_resource_version = 1,
      v_published_by = q_PublishedBy request, v_created_at = q_UpdatedAt request,
      v_resource_type_version_uuid = q_ResourceTypeVersionUUID request,
      v_provider_values = providersToStableList (c_ProviderMapping (q_Content request)),
      v_content = q_Content request\<rparr>"

text \<open>
  The trigger \<^verbatim>\<open>bind_module_resource_type_version\<close> of migration 49: the interface version must
  belong to the resource type the module is bound to.
\<close>

definition contract_bound :: "db \<Rightarrow> definition_versions_row \<Rightarrow> bool" where
  "contract_bound s v \<longleftrightarrow>
     (case find (\<lambda>d. d_org_id d = v_org_id v \<and> d_id d = v_definition_id v) (definitions s) of
        None \<Rightarrow> False
      | Some d \<Rightarrow> list_ex (\<lambda>r. rtv_UUID r = v_resource_type_version_uuid v
            \<and> rtv_ResourceTypeUUID r = d_resource_type_uuid d) (resource_type_versions s))"

definition insert_version :: "definition_versions_row \<Rightarrow> db \<Rightarrow> db result" where
  "insert_version row s =
     fail_if (\<not> contract_bound s row) (ErrConstraint ''Module Version contract does not belong to its Resource Type'')
     (try_then (insert_row definition_versions_constraints row (definition_versions s)) (\<lambda>rows.
        Inr (s\<lparr>definition_versions := rows\<rparr>)))"

text \<open>The publication event and its outbox message, for requests with an author and status Proposed.\<close>

definition record_publication :: "ModuleDefinitionVersion \<Rightarrow> uuid \<Rightarrow> uuid \<Rightarrow> db \<Rightarrow> db" where
  "record_publication request moduleUUID versionUUID s =
     (case q_PublishedBy request of
        None \<Rightarrow> s
      | Some actor \<Rightarrow>
          if semanticStatusOrDefault request \<noteq> LifecycleProposed then s
          else appendModuleCoreOutboxEvent ''io.platform-orchestrator.module.version.published''
            [(''org_id'', JStr (q_OrgId request)), (''module_uuid'', JStr moduleUUID),
             (''module_slug'', JStr (q_DefinitionId request)), (''version_uuid'', JStr versionUUID),
             (''semantic_version'', JStr (q_SemanticVersion request)), (''lifecycle_status'', JStr ''proposed''),
             (''verification_status'', JStr ''unverified''), (''resource_version'', jint 1), (''actor'', JStr actor)]
            (s\<lparr>lifecycle_events := lifecycle_events s @
               [\<lparr>le_OrgID = q_OrgId request, le_ModuleUUID = moduleUUID, le_VersionUUID = versionUUID,
                 le_FromStatus = None, le_ToStatus = LifecycleProposed, le_ResourceVersion = 1, le_Actor = actor,
                 le_Reason = None, le_CorrelationID = None, le_Payload = JObj []\<rparr>]\<rparr>))"

definition CreateModuleDefinition ::
  "schema_library \<Rightarrow> ModuleDefinitionVersion \<Rightarrow> uuid \<Rightarrow> uuid \<Rightarrow> db \<Rightarrow> (ModuleDefinitionVersion \<times> db) result" where
  "CreateModuleDefinition lib request0 module_uuid version_uuid s =
     (let status = semanticStatusOrDefault request0 in
      try_then (GetResourceType (Some (q_OrgId request0)) (q_ResourceType request0) s) (\<lambda>resourceType.
      fail_if (rt_CatalogueStatus resourceType = CatalogueArchived)
        (NewErrConflict ''archived resource types reject new module bindings'')
     (try_then (validateModuleConformance lib request0 s) (\<lambda>request.
      case validateProviders (q_OrgId request) (c_ProviderMapping (q_Content request)) s of
        Some m \<Rightarrow> Inl (NewErrBadRequest m)
      | None \<Rightarrow>
        try_then
          (map_error (\<lambda>e. if isUniqueViolation e [''definitions_pkey'']
             then NewErrConflict ''module definition with id already exists'' else e)
           (insert_row definitions_constraints
             \<lparr>d_org_id = q_OrgId request, d_uuid = module_uuid, d_id = q_DefinitionId request,
              d_display_name = q_DefinitionId request,
              d_description = (case c_Description (q_Content request) of None \<Rightarrow> None | Some t \<Rightarrow> nullif_empty t),
              d_resource_type = q_ResourceType request, d_resource_type_uuid = rt_uuid resourceType, d_tags = [],
              d_catalogue_status = CatalogueActive, d_resource_version = 1,
              d_latest_version_id = (if status = LifecycleDefault then Some (q_VersionId request) else None),
              d_current_default_version_uuid = None, d_previous_default_version_uuid = None,
              d_managed_default_generation = 0, d_created_at = q_CreatedAt request, d_archived_at = None,
              d_archived_by = None, d_archive_reason = None\<rparr> (definitions s))) (\<lambda>rows.
        fail_if (\<not> List.member (orgs s) (q_OrgId request)) (NewErrConflict ''organization not found'')
       (try_then (insert_version (version_row request module_uuid version_uuid ''v0'') (s\<lparr>definitions := rows\<rparr>))
        (\<lambda>s1.
        let s2 = (if status = LifecycleDefault
              then s1\<lparr>definitions := upd_where
                (\<lambda>d. d_org_id d = q_OrgId request \<and> d_id d = q_DefinitionId request)
                (\<lambda>d. d\<lparr>d_current_default_version_uuid := Some version_uuid\<rparr>) (definitions s1)\<rparr>
              else s1)
        in Inr (request\<lparr>q_ModuleUUID := module_uuid, q_VersionUUID := version_uuid, q_ResourceVersion := 1\<rparr>,
                record_publication request module_uuid version_uuid s2))))))))"

definition CreateModuleDefinitionVersion ::
  "schema_library \<Rightarrow> ModuleDefinitionVersion \<Rightarrow> uuid \<Rightarrow> db \<Rightarrow> (ModuleDefinitionVersion \<times> db) result" where
  "CreateModuleDefinitionVersion lib request0 version_uuid s =
     (let status = semanticStatusOrDefault request0;
          mine = (\<lambda>d. d_org_id d = q_OrgId request0 \<and> d_id d = q_DefinitionId request0) in
      try_then (GetModuleCatalogue (q_OrgId request0) (q_DefinitionId request0) s) (\<lambda>entry.
      try_then (validateModuleConformance lib (request0\<lparr>q_ResourceType := mc_ResourceType entry\<rparr>) s) (\<lambda>request.
      case validateProviders (q_OrgId request) (c_ProviderMapping (q_Content request)) s of
        Some m \<Rightarrow> Inl (NewErrBadRequest m)
      | None \<Rightarrow>
        let s0 = (if status = LifecycleDefault
              then s\<lparr>definition_versions := upd_where
                (\<lambda>v. v_org_id v = q_OrgId request \<and> v_definition_id v = q_DefinitionId request
                   \<and> v_semantic_status v = LifecycleDefault)
                (\<lambda>v. v\<lparr>v_semantic_status := LifecycleDeprecated\<rparr>) (definition_versions s)\<rparr>
              else s)
        in try_then (insert_version (version_row request (mc_UUID entry) version_uuid ''managed'') s0) (\<lambda>s1.
           fail_if (\<not> list_ex mine (definitions s1)) ErrNoRows
          (let s2 = (if status = LifecycleDefault
                then s1\<lparr>definitions := upd_where mine
                  (\<lambda>d. d\<lparr>d_latest_version_id := Some (q_VersionId request),
                         d_current_default_version_uuid := Some version_uuid\<rparr>) (definitions s1)\<rparr>
                else s1)
           in Inr (request\<lparr>q_ModuleUUID := mc_UUID entry, q_VersionUUID := version_uuid, q_ResourceVersion := 1\<rparr>,
                record_publication request (mc_UUID entry) version_uuid s2))))))"

definition PublishCoreModuleVersion ::
  "schema_library \<Rightarrow> ModuleDefinitionVersion \<Rightarrow> uuid \<Rightarrow> uuid \<Rightarrow> db \<Rightarrow> (CoreModuleVersion \<times> db) result" where
  "PublishCoreModuleVersion lib request actor version_uuid s =
     try_then (GetModuleCatalogue (q_OrgId request) (q_DefinitionId request) s) (\<lambda>entry.
     fail_if (mc_Status entry \<noteq> CatalogueActive) (NewErrConflict ''archived modules do not accept version publication'')
    (fail_if (q_ResourceType request \<noteq> '''' \<and> q_ResourceType request \<noteq> mc_ResourceType entry)
       (NewErrBadRequest ''a module version cannot change the module's immutable Resource Type binding'')
    (case ParseVersion (q_SemanticVersion request) of
       Inl m \<Rightarrow> Inl (NewErrBadRequest m)
     | Inr candidate \<Rightarrow>
       try_then (managedDefaultLineageHead entry s) (\<lambda>lineageHead.
       try_then (check_lineage NewErrBadRequest lineageHead candidate) (\<lambda>_.
       try_then
         (map_error (\<lambda>e. if isUniqueViolation e [''definition_versions_one_proposed'']
              then NewErrConflict ''module already has a Proposed version''
              else if isUniqueViolation e [''definition_versions_semver_unique'', ''definition_versions_pkey'']
              then NewErrConflict ''Module Version SemVer is permanently reserved'' else e)
          (CreateModuleDefinitionVersion lib
            (request\<lparr>q_VersionId := q_SemanticVersion request, q_SemanticStatus := Some LifecycleProposed,
               q_MigrationGeneration := ''managed'', q_VerificationStatus := Some VerificationUnverified,
               q_PublishedBy := Some actor, q_ResourceType := mc_ResourceType entry\<rparr>) version_uuid s))
         (\<lambda>(created, s').
          try_then (GetCoreModuleVersion (q_OrgId request) (q_DefinitionId request) (q_VersionUUID created) s')
            (\<lambda>v. Inr (v, s'))))))))"

section \<open>The lifecycle\<close>

definition set_version_status :: "LifecycleStatus \<Rightarrow> definition_versions_row \<Rightarrow> definition_versions_row" where
  "set_version_status status v =
     v\<lparr>v_semantic_status := status, v_resource_version := v_resource_version v + 1\<rparr>"

definition replaced_default :: "uuid option \<Rightarrow> json" where
  "replaced_default current = JObj [(''replaced_default_version_uuid'', jopt current)]"

text \<open>The current default steps down; a pointer to a version that is not default is an error.\<close>

definition deprecate_previous ::
  "ModuleCatalogue \<Rightarrow> string \<Rightarrow> uuid \<Rightarrow> string \<Rightarrow> uuid option \<Rightarrow> db \<Rightarrow> db result" where
  "deprecate_previous entry orgID actor reason correlationID s =
     (case mc_CurrentDefaultVersionUUID entry of
        None \<Rightarrow> Inr s
      | Some current \<Rightarrow>
          let hit = (\<lambda>v. v_uuid v = current \<and> v_semantic_status v = LifecycleDefault) in
          try_then (require_some ErrNoRows (find hit (definition_versions s))) (\<lambda>previous.
          Inr (s\<lparr>definition_versions := upd_where hit (set_version_status LifecycleDeprecated) (definition_versions s),
                 lifecycle_events := lifecycle_events s @
                   [\<lparr>le_OrgID = orgID, le_ModuleUUID = mc_UUID entry, le_VersionUUID = current,
                     le_FromStatus = Some LifecycleDefault, le_ToStatus = LifecycleDeprecated,
                     le_ResourceVersion = v_resource_version previous + 1, le_Actor = actor,
                     le_Reason = Some (TrimSpace reason), le_CorrelationID = correlationID,
                     le_Payload = replaced_default (Some current)\<rparr>]\<rparr>)))"

definition promote_version ::
  "ModuleCatalogue \<Rightarrow> CoreModuleVersion \<Rightarrow> Version \<Rightarrow> string \<Rightarrow> uuid \<Rightarrow> string \<Rightarrow> uuid option \<Rightarrow> db \<Rightarrow> db result" where
  "promote_version entry version parsed orgID actor reason correlationID s =
     (let from = cv_LifecycleStatus version in
      try_then
        (if from = LifecycleProposed
         then try_then (managedDefaultLineageHead entry s) (\<lambda>head.
           check_lineage (\<lambda>m. NewErrConflict ''Proposed Module Version is no longer above the Default lineage head'') head parsed)
         else Inr ()) (\<lambda>_.
      fail_if (from = LifecycleDeprecated \<and> mc_PreviousDefaultVersionUUID entry \<noteq> Some (cv_UUID version))
        (NewErrConflict ''only the immediately preceding deprecated default can be restored'')
     (try_then (deprecate_previous entry orgID actor reason correlationID s) (\<lambda>s1.
      let generation = (if from = LifecycleProposed then mc_ManagedDefaultGeneration entry + 1
            else mc_ManagedDefaultGeneration entry);
          migrationGeneration = (if from = LifecycleProposed then (if generation = 1 then ''v1'' else ''managed'')
            else cv_MigrationGeneration version)
      in try_then (update_rows definition_versions_constraints (\<lambda>v. v_uuid v = cv_UUID version)
             (\<lambda>v. (set_version_status LifecycleDefault v)\<lparr>v_migration_generation := migrationGeneration\<rparr>)
             (definition_versions s1)) (\<lambda>versions.
         Inr (s1\<lparr>definitions := upd_where (\<lambda>d. d_org_id d = orgID \<and> d_uuid d = mc_UUID entry)
                 (\<lambda>d. d\<lparr>d_latest_version_id := Some (cv_OpaqueVersionID version),
                        d_current_default_version_uuid := Some (cv_UUID version),
                        d_previous_default_version_uuid := mc_CurrentDefaultVersionUUID entry,
                        d_managed_default_generation := generation,
                        d_resource_version := d_resource_version d + 1\<rparr>) (definitions s1),
               definition_versions := versions\<rparr>))))))"

definition demote_version ::
  "ModuleCatalogue \<Rightarrow> CoreModuleVersion \<Rightarrow> LifecycleStatus \<Rightarrow> string \<Rightarrow> db \<Rightarrow> db result" where
  "demote_version entry version target orgID s =
     try_then (update_rows definition_versions_constraints (\<lambda>v. v_uuid v = cv_UUID version)
        (set_version_status target) (definition_versions s)) (\<lambda>versions.
     let s1 = s\<lparr>definition_versions := versions\<rparr> in
     Inr (if cv_LifecycleStatus version = LifecycleDefault \<and> target = LifecycleDefective
          then s1\<lparr>definitions := upd_where (\<lambda>d. d_org_id d = orgID \<and> d_uuid d = mc_UUID entry)
            (\<lambda>d. d\<lparr>d_latest_version_id := None, d_current_default_version_uuid := None,
                   d_previous_default_version_uuid := mc_PreviousDefaultVersionUUID entry,
                   d_resource_version := d_resource_version d + 1\<rparr>) (definitions s1)\<rparr>
          else s1))"

definition TransitionCoreModuleVersion ::
  "string \<Rightarrow> string \<Rightarrow> string \<Rightarrow> LifecycleStatus \<Rightarrow> int \<Rightarrow> uuid \<Rightarrow> string \<Rightarrow> uuid option \<Rightarrow> db
   \<Rightarrow> (CoreModuleVersion \<times> db) result" where
  "TransitionCoreModuleVersion orgID moduleRef versionRef target expectedVersion actor reason correlationID s =
     (case RequireTransitionReason reason of
        Some m \<Rightarrow> Inl (NewErrBadRequest m)
      | None \<Rightarrow>
        try_then (GetModuleCatalogue orgID moduleRef s) (\<lambda>entry.
        try_then (GetCoreModuleVersion orgID moduleRef versionRef s) (\<lambda>version.
        fail_if (cv_ResourceVersion version \<noteq> expectedVersion)
          (NewErrConflict ''module version changed since it was read'')
       (case cv_SemanticVersion version of
          None \<Rightarrow> Inl (NewErrBadRequest ''legacy v0 versions change lifecycle only through rollback restoration'')
        | Some sv \<Rightarrow>
          (case ParseVersion sv of
             Inl m \<Rightarrow> Inl (NewErrBadRequest m)
           | Inr parsed \<Rightarrow>
             (case ValidateLifecycleTransition (cv_LifecycleStatus version) target parsed of
                Some m \<Rightarrow> Inl (NewErrBadRequest m)
              | None \<Rightarrow>
                if cv_LifecycleStatus version = target then Inr (version, s)
                else
                fail_if (mc_Status entry = CatalogueArchived \<and> target \<noteq> LifecycleDefective)
                  (NewErrConflict ''archived modules allow only the defective safety transition'')
               (try_then
                  (if target = LifecycleDefault
                   then promote_version entry version parsed orgID actor reason correlationID s
                   else demote_version entry version target orgID s) (\<lambda>s1.
                try_then (GetCoreModuleVersion orgID moduleRef (cv_UUID version) s1) (\<lambda>updated.
                let payload = (if target = LifecycleDefault
                      then replaced_default (mc_CurrentDefaultVersionUUID entry) else JObj [])
                in Inr (updated,
                     appendModuleCoreOutboxEvent ''io.platform-orchestrator.module.version.lifecycle-changed''
                       [(''org_id'', JStr orgID), (''module_uuid'', JStr (mc_UUID entry)),
                        (''module_slug'', JStr (mc_Slug entry)), (''version_uuid'', JStr (cv_UUID updated)),
                        (''semantic_version'', jopt (cv_SemanticVersion updated)),
                        (''from_status'', JStr (LifecycleStatus_text (cv_LifecycleStatus version))),
                        (''to_status'', JStr (LifecycleStatus_text target)),
                        (''resource_version'', jint (cv_ResourceVersion updated)), (''actor'', JStr actor),
                        (''reason'', JStr (TrimSpace reason)), (''correlation_id'', jopt correlationID),
                        (''payload'', payload)]
                       (s1\<lparr>lifecycle_events := lifecycle_events s1 @
                          [\<lparr>le_OrgID = orgID, le_ModuleUUID = mc_UUID entry, le_VersionUUID = cv_UUID version,
                            le_FromStatus = Some (cv_LifecycleStatus version), le_ToStatus = target,
                            le_ResourceVersion = cv_ResourceVersion updated, le_Actor = actor,
                            le_Reason = Some (TrimSpace reason), le_CorrelationID = correlationID,
                            le_Payload = payload\<rparr>]\<rparr>)))))))))))"

record StableModuleVersionSuccessor =
  ss_Prerelease :: CoreModuleVersion
  ss_Stable :: CoreModuleVersion
  ss_CorrelationID :: uuid

definition PublishStableModuleVersionSuccessor ::
  "schema_library \<Rightarrow> string \<Rightarrow> string \<Rightarrow> string \<Rightarrow> int \<Rightarrow> string \<Rightarrow> ModuleDefinitionVersion \<Rightarrow> uuid \<Rightarrow> uuid \<Rightarrow> uuid \<Rightarrow> db
   \<Rightarrow> (StableModuleVersionSuccessor \<times> db) result" where
  "PublishStableModuleVersionSuccessor lib orgID moduleRef prereleaseRef expectedPrereleaseVersion reason request0 actor
       correlationID version_uuid s =
     (case RequireTransitionReason reason of
        Some m \<Rightarrow> Inl (NewErrBadRequest m)
      | None \<Rightarrow>
        try_then (GetModuleCatalogue orgID moduleRef s) (\<lambda>entry.
        try_then (GetCoreModuleVersion orgID moduleRef prereleaseRef s) (\<lambda>prerelease.
        fail_if (cv_ResourceVersion prerelease \<noteq> expectedPrereleaseVersion)
          (NewErrConflict ''prerelease Module Version changed since it was read'')
       (case (if cv_LifecycleStatus prerelease \<noteq> LifecycleProposed then None else cv_SemanticVersion prerelease) of
          None \<Rightarrow> Inl (NewErrConflict ''stable graduation requires the exact Proposed prerelease'')
        | Some sv \<Rightarrow>
          (case ParseVersion sv of
             Inl m \<Rightarrow> Inl (ErrInternal m)
           | Inr parsedPrerelease \<Rightarrow>
             fail_if (length (PreRelease parsedPrerelease) = 0)
               (NewErrBadRequest ''stable graduation requires a prerelease Module Version'')
            (case ParseVersion (q_SemanticVersion request0) of
               Inl m \<Rightarrow> Inl (NewErrBadRequest m)
             | Inr successor \<Rightarrow>
               fail_if (length (PreRelease successor) \<noteq> 0)
                 (NewErrBadRequest ''stable successor must not contain a prerelease component'')
              (fail_if (Version_Compare successor parsedPrerelease \<le> 0)
                 (NewErrBadRequest ''stable successor must have higher SemVer precedence than the expected prerelease'')
              (try_then (validateModuleConformance lib (request0\<lparr>q_OrgId := orgID,
                   q_DefinitionId := cv_ModuleSlug prerelease, q_ModuleUUID := cv_ModuleUUID prerelease,
                   q_ResourceType := mc_ResourceType entry\<rparr>) s) (\<lambda>request.
               try_then (TransitionCoreModuleVersion orgID moduleRef (cv_UUID prerelease) LifecycleDeprecated
                   expectedPrereleaseVersion actor reason (Some correlationID) s) (\<lambda>(updatedPrerelease, s1).
               try_then (PublishCoreModuleVersion lib request actor version_uuid s1) (\<lambda>(published, s2).
               Inr (\<lparr>ss_Prerelease = updatedPrerelease, ss_Stable = published, ss_CorrelationID = correlationID\<rparr>,
                 s2\<lparr>lifecycle_events := upd_where
                   (\<lambda>e. le_VersionUUID e = cv_UUID published \<and> le_FromStatus e = None)
                   (\<lambda>e. e\<lparr>le_CorrelationID := Some correlationID\<rparr>) (lifecycle_events s2)\<rparr>))))))))))))"

section \<open>Deletion\<close>

definition DeleteModuleDefinitionVersion :: "string \<Rightarrow> string \<Rightarrow> string \<Rightarrow> db \<Rightarrow> (unit \<times> db) result" where
  "DeleteModuleDefinitionVersion orgId defId versionId s =
     (let mine = (\<lambda>v. v_org_id v = orgId \<and> v_definition_id v = defId \<and> v_version_id v = versionId);
          used = (\<lambda>u. list_ex (\<lambda>v. mine v \<and> v_uuid v = u) (definition_versions s)) in
      fail_if (list_ex (\<lambda>e. used (le_VersionUUID e)) (lifecycle_events s))
        (ErrConstraint ''module_version_lifecycle_events_version_fk'')
     (fail_if (list_ex (\<lambda>p. used (pn_VersionUUID p)) (pins s)) (ErrConstraint ''environment_module_version_pins_version_fk'')
     (fail_if (list_ex (\<lambda>c. case ec_VersionUUID c of None \<Rightarrow> False | Some u \<Rightarrow> used u) (contributions s))
        (ErrConstraint ''module_extension_contributions_module_uuid_version_uuid_fkey'')
     (fail_if (list_ex (\<lambda>d. case md_PublishedVersionUUID d of None \<Rightarrow> False | Some u \<Rightarrow> used u) (drafts s))
        (ErrConstraint ''module_drafts_module_uuid_published_version_uuid_fkey'')
     (fail_if (list_ex (\<lambda>d. (case d_current_default_version_uuid d of None \<Rightarrow> False | Some u \<Rightarrow> used u)
          \<or> (case d_previous_default_version_uuid d of None \<Rightarrow> False | Some u \<Rightarrow> used u)
          \<or> d_org_id d = orgId \<and> d_id d = defId \<and> d_latest_version_id d = Some versionId \<and> list_ex mine (definition_versions s))
          (definitions s))
        (ErrConstraint ''definitions_latest_version_fk'')
     (fail_if (\<not> list_ex mine (definition_versions s)) (NewErrNotFound ''definition version not found'')
     (Inr ((), s\<lparr>definition_versions := filter (\<lambda>v. \<not> mine v) (definition_versions s)\<rparr>))))))))"

definition ModuleHistoryRetained :: string where
  "ModuleHistoryRetained = ''module_history_retained''"

definition DeleteModuleDefinition :: "string \<Rightarrow> string \<Rightarrow> db \<Rightarrow> (unit \<times> db) result" where
  "DeleteModuleDefinition orgId defId s =
     try_then (require_some (NewErrNotFound ''module not found'')
         (find (\<lambda>d. d_org_id d = orgId \<and> d_id d = defId) (definitions s))) (\<lambda>d.
     fail_if (list_ex (\<lambda>v. v_org_id v = orgId \<and> v_definition_id v = defId) (definition_versions s))
       (ErrConflict ModuleHistoryRetained ''published Module Versions are permanently retained; archive the catalogue entry with a reason instead of deleting its history'')
    (fail_if (list_ex (\<lambda>r. ru_OrgId r = orgId \<and> ru_DefinitionId r = defId) (definition_rules s)
         \<or> list_ex (\<lambda>e. ce_OrgID e = orgId \<and> ce_ModuleUUID e = d_uuid d) (catalogue_events s)
         \<or> list_ex (\<lambda>e. md_OrgID e = orgId \<and> md_ModuleUUID e = d_uuid d) (drafts s)
         \<or> list_ex (\<lambda>r. mr_OrgID r = orgId \<and> mr_ModuleUUID r = d_uuid d) (reservations s)
         \<or> list_ex (\<lambda>c. ec_OrgID c = orgId \<and> ec_ModuleUUID c = d_uuid d) (contributions s))
       (NewErrConflict ''only an unused empty Module shell without version, Draft, rule, audit, reservation or add-on history can be deleted'')
    (Inr ((), s\<lparr>core_commands := filter (\<lambda>c. \<not> (cc_OrgID c = orgId \<and> cc_Scope c = ''module-create:'' @ defId)) (core_commands s),
        definitions := filter (\<lambda>d. \<not> (d_org_id d = orgId \<and> d_id d = defId)) (definitions s)\<rparr>))))"

section \<open>Recorded commands\<close>

definition GetModuleCoreCommand :: "string \<Rightarrow> string \<Rightarrow> string \<Rightarrow> db \<Rightarrow> (string \<times> command_response) option" where
  "GetModuleCoreCommand orgID scope key s =
     map_option (\<lambda>c. (cc_Fingerprint c, cc_Response c))
       (find (\<lambda>c. cc_OrgID c = orgID \<and> cc_Scope c = scope \<and> cc_Key c = key) (core_commands s))"

definition core_commands_constraints :: "(core_command, string list) constraint list" where
  "core_commands_constraints = [(''module_core_commands_pkey'', \<lambda>c. Some [cc_OrgID c, cc_Scope c, cc_Key c])]"

definition StoreModuleCoreCommand ::
  "string \<Rightarrow> string \<Rightarrow> string \<Rightarrow> string \<Rightarrow> uuid \<Rightarrow> command_response \<Rightarrow> db \<Rightarrow> db result" where
  "StoreModuleCoreCommand orgID scope key fingerprint actor response s =
     try_then
       (map_error (\<lambda>e. if isUniqueViolation e [''module_core_commands_pkey'']
          then NewErrConflict ''idempotency key was used concurrently'' else e)
        (insert_row core_commands_constraints
          \<lparr>cc_OrgID = orgID, cc_Scope = scope, cc_Key = key, cc_Fingerprint = fingerprint, cc_Actor = actor,
           cc_Response = response\<rparr> (core_commands s)))
       (\<lambda>rows. Inr (s\<lparr>core_commands := rows\<rparr>))"

end
