(* ===== verification/Rules.thy ===== *)
theory Rules
  imports Environments Catalogue
begin

text \<open>
  Module rules (\<^verbatim>\<open>internal/model/module_rules.go\<close>) bind resource requests to modules, runner rules
  (\<^verbatim>\<open>internal/model/runner_rules.go\<close>) bind environments to runners. Both tables are listed with
  composite page tokens. The tokens end in a UUID that the code parses with a third-party package:
  \<open>parse_uuid\<close> is a parameter of the listings.

  The outer join of the two listings is filtered by a comparison with the rule's columns, so that a
  missing organisation lists no rules instead of being reported.
\<close>

section \<open>Module rules\<close>

record ListModuleRulesParams =
  lm_ByDefinitionId :: "string option"
  lm_ByResourceType :: "string option"
  lm_ByProjectId :: "string option"
  lm_ByEnvId :: "string option"
  lm_EffectiveInProjectId :: "string option"
  lm_EffectiveInEnvTypeId :: "string option"
  lm_EffectiveInEnvId :: "string option"

text \<open>\<^verbatim>\<open>$n IS NULL OR column = $n\<close>.\<close>

definition unless_set :: "'a option \<Rightarrow> ('a \<Rightarrow> bool) \<Rightarrow> bool" where
  "unless_set p f = (case p of None \<Rightarrow> True | Some x \<Rightarrow> f x)"

definition rule_selected :: "ListModuleRulesParams \<Rightarrow> DefinitionRule \<Rightarrow> bool" where
  "rule_selected params r \<longleftrightarrow>
     unless_set (lm_ByDefinitionId params) (\<lambda>x. ru_DefinitionId r = x)
     \<and> unless_set (lm_ByResourceType params) (\<lambda>x. ru_ResourceType r = x)
     \<and> unless_set (lm_ByProjectId params) (\<lambda>x. ru_ProjectId r = Some x)
     \<and> unless_set (lm_ByEnvId params)
         (\<lambda>x. lm_ByProjectId params \<noteq> None \<and> ru_ProjectId r = lm_ByProjectId params \<and> ru_EnvId r = Some x)
     \<and> unless_set (lm_EffectiveInProjectId params) (\<lambda>x. ru_ProjectId r = None \<or> ru_ProjectId r = Some x)
     \<and> unless_set (lm_EffectiveInEnvTypeId params) (\<lambda>x. ru_EnvTypeId r = None \<or> ru_EnvTypeId r = Some x)
     \<and> unless_set (lm_EffectiveInEnvId params)
         (\<lambda>x. ru_EnvId r = None \<or> lm_EffectiveInProjectId params \<noteq> None
            \<and> ru_ProjectId r = lm_EffectiveInProjectId params \<and> ru_EnvId r = Some x)"

definition rule_key :: "DefinitionRule \<Rightarrow> string list" where
  "rule_key r = [ru_ResourceType r, ru_DefinitionId r, ru_ResourceClass r, ru_Id r]"

definition rules_of :: "string \<Rightarrow> ListModuleRulesParams \<Rightarrow> db \<Rightarrow> DefinitionRule list" where
  "rules_of orgId params s =
     filter (\<lambda>r. List.member (orgs s) orgId \<and> ru_OrgId r = orgId \<and> rule_selected params r) (definition_rules s)"

definition ListModuleRules ::
  "(string \<Rightarrow> uuid option) \<Rightarrow> string \<Rightarrow> ListModuleRulesParams \<Rightarrow> string \<Rightarrow> int \<Rightarrow> db \<Rightarrow> (DefinitionRule list \<times> string) result" where
  "ListModuleRules parse_uuid orgId params pageToken perPage s =
     (case PageTokenCodec_Parse 4 pageToken of
        Inl m \<Rightarrow> Inl (NewErrBadRequest m)
      | Inr parts \<Rightarrow>
          try_then
            (if pageToken = '''' then Inr ['''', '''', '''', Nil_uuid]
             else (case parse_uuid (parts ! 3) of
                 None \<Rightarrow> Inl (NewErrBadRequest ''failed to parse uuid from page token'')
               | Some u \<Rightarrow> Inr (take 3 parts @ [u]))) (\<lambda>after.
          Inr (tokened (join_with CHR '','') (keyset_page rule_key after perPage (rules_of orgId params s)))))"

definition definition_rules_constraints :: "(DefinitionRule, string list) constraint list" where
  "definition_rules_constraints = [(''definition_rules_pkey'', \<lambda>r. Some [ru_OrgId r, ru_Id r])]"

text \<open>What makes two rules compete for the same requests in the same scope.\<close>

definition rule_selector :: "DefinitionRule \<Rightarrow> string \<times> string \<times> string option \<times> string option \<times> string option \<times> string option" where
  "rule_selector r =
     (ru_ResourceType r, ru_ResourceClass r, ru_ResourceId r, ru_EnvTypeId r, ru_ProjectId r, ru_EnvId r)"

definition CreateModuleRule :: "string \<Rightarrow> DefinitionRule \<Rightarrow> uuid \<Rightarrow> db \<Rightarrow> (DefinitionRule \<times> db) result" where
  "CreateModuleRule orgId request new_id s =
     fail_if (ru_ResourceType request = '''' \<or> ru_DefinitionId request = '''')
       (ErrInternal ''resourceType or definitionId is empty'')
    (fail_if (list_ex (\<lambda>r. ru_OrgId r = orgId \<and> rule_selector r = rule_selector request) (definition_rules s))
       (NewErrConflict ''rule conflicts with existing rule'')
    (let row = request\<lparr>ru_OrgId := orgId, ru_Id := new_id\<rparr> in
     fail_if (ru_EnvTypeId row \<noteq> None \<and> ru_EnvId row \<noteq> None) (ErrConstraint ''definition_rules_check'')
    (fail_if (ru_EnvId row \<noteq> None \<and> ru_ProjectId row = None) (ErrConstraint ''definition_rules_check1'')
    (try_then (insert_row definition_rules_constraints row (definition_rules s)) (\<lambda>rows.
     fail_if (\<not> List.member (orgs s) orgId) (ErrConstraint ''definition_rules_org_id_fkey'')
    (fail_if (\<not> list_ex (\<lambda>d. d_org_id d = orgId \<and> d_id d = ru_DefinitionId row) (definitions s))
       (ErrConstraint ''definition_rules_org_id_definition_id_fkey'')
    (fail_if (\<not> unless_set (ru_EnvTypeId row) (\<lambda>t. list_ex (\<lambda>x. et_OrgId x = orgId \<and> et_Id x = t) (env_types s)))
       (NewErrConflict ''environment type not found'')
    (Inr (request\<lparr>ru_Id := new_id\<rparr>, s\<lparr>definition_rules := rows\<rparr>)))))))))"

definition GetModuleRule :: "string \<Rightarrow> uuid \<Rightarrow> db \<Rightarrow> DefinitionRule result" where
  "GetModuleRule orgId ruleId s =
     require_some (NewErrNotFound ''module rule not found'')
       (find (\<lambda>r. ru_OrgId r = orgId \<and> ru_Id r = ruleId) (definition_rules s))"

definition DeleteModuleRule :: "string \<Rightarrow> uuid \<Rightarrow> db \<Rightarrow> (unit \<times> db) result" where
  "DeleteModuleRule orgId ruleId s =
     (let hit = (\<lambda>r. ru_OrgId r = orgId \<and> ru_Id r = ruleId) in
      fail_if (\<not> list_ex hit (definition_rules s)) (NewErrNotFound ''module rule not found'')
      (Inr ((), s\<lparr>definition_rules := filter (\<lambda>r. \<not> hit r) (definition_rules s)\<rparr>)))"

record DeleteModuleRulesParams =
  dm_ByModuleId :: "string option"
  dm_ByProjectId :: "string option"
  dm_ByEnvId :: "string option"

text \<open>The filter by module is a field of the parameters that the statement does not use.\<close>

definition BulkDeleteModuleRuleDefinitions ::
  "string \<Rightarrow> DeleteModuleRulesParams \<Rightarrow> db \<Rightarrow> (uuid list \<times> db) result" where
  "BulkDeleteModuleRuleDefinitions orgId params s =
     (let hit = (\<lambda>r. ru_OrgId r = orgId
          \<and> unless_set (dm_ByProjectId params) (\<lambda>x. ru_ProjectId r = Some x)
          \<and> unless_set (dm_ByEnvId params)
              (\<lambda>x. dm_ByProjectId params \<noteq> None \<and> ru_ProjectId r = dm_ByProjectId params \<and> ru_EnvId r = Some x)) in
      Inr (map ru_Id (filter hit (definition_rules s)),
        s\<lparr>definition_rules := filter (\<lambda>r. \<not> hit r) (definition_rules s)\<rparr>))"

section \<open>Runner rules\<close>

record ListRunnerRulesParams =
  lr_ByRunnerId :: "string option"
  lr_EffectiveInProjectId :: "string option"
  lr_EffectiveInEnvTypeId :: "string option"

definition runner_rule_selected :: "ListRunnerRulesParams \<Rightarrow> RunnerRule \<Rightarrow> bool" where
  "runner_rule_selected params r \<longleftrightarrow>
     unless_set (lr_ByRunnerId params) (\<lambda>x. rr_RunnerId r = x)
     \<and> unless_set (lr_EffectiveInProjectId params) (\<lambda>x. rr_ProjectId r = None \<or> rr_ProjectId r = Some x)
     \<and> unless_set (lr_EffectiveInEnvTypeId params) (\<lambda>x. rr_EnvTypeId r = None \<or> rr_EnvTypeId r = Some x)"

definition runner_rule_key :: "RunnerRule \<Rightarrow> string list" where
  "runner_rule_key r = [rr_RunnerId r, rr_Id r]"

definition runner_rules_of :: "string \<Rightarrow> ListRunnerRulesParams \<Rightarrow> db \<Rightarrow> RunnerRule list" where
  "runner_rules_of orgId params s =
     filter (\<lambda>r. List.member (orgs s) orgId \<and> rr_OrgId r = orgId \<and> runner_rule_selected params r) (runner_rules s)"

definition ListRunnerRules ::
  "(string \<Rightarrow> uuid option) \<Rightarrow> string \<Rightarrow> ListRunnerRulesParams \<Rightarrow> string \<Rightarrow> int \<Rightarrow> db \<Rightarrow> (RunnerRule list \<times> string) result" where
  "ListRunnerRules parse_uuid orgId params pageToken perPage s =
     (case PageTokenCodec_Parse 2 pageToken of
        Inl m \<Rightarrow> Inl (NewErrBadRequest m)
      | Inr parts \<Rightarrow>
          try_then
            (if pageToken = '''' then Inr ['''', Nil_uuid]
             else (case parse_uuid (parts ! 1) of
                 None \<Rightarrow> Inl (NewErrBadRequest ''failed to parse uuid from page token'')
               | Some u \<Rightarrow> Inr (take 1 parts @ [u]))) (\<lambda>after.
          Inr (tokened (join_with CHR '','') (keyset_page runner_rule_key after perPage (runner_rules_of orgId params s)))))"

definition runner_rules_constraints :: "(RunnerRule, string list) constraint list" where
  "runner_rules_constraints = [(''runner_rules_pkey'', \<lambda>r. Some [rr_OrgId r, rr_Id r])]"

definition CreateRunnerRule :: "string \<Rightarrow> RunnerRule \<Rightarrow> uuid \<Rightarrow> db \<Rightarrow> (RunnerRule \<times> db) result" where
  "CreateRunnerRule orgId request new_id s =
     fail_if (rr_RunnerId request = '''') (ErrInternal ''runnerId is empty'')
    (fail_if (list_ex (\<lambda>r. rr_OrgId r = orgId \<and> rr_ProjectId r = rr_ProjectId request \<and> rr_EnvTypeId r = rr_EnvTypeId request)
         (runner_rules s))
       (NewErrConflict ''runner rule conflicts with existing rule'')
    (let row = request\<lparr>rr_OrgId := orgId, rr_Id := new_id\<rparr> in
     try_then (insert_row runner_rules_constraints row (runner_rules s)) (\<lambda>rows.
     fail_if (\<not> List.member (orgs s) orgId) (ErrConstraint ''runner_rules_org_id_fkey'')
    (fail_if (\<not> list_ex (\<lambda>x. rn_OrgId x = orgId \<and> rn_Id x = rr_RunnerId row) (runners s))
       (NewErrConflict ''runner not found'')
    (fail_if (\<not> unless_set (rr_EnvTypeId row) (\<lambda>t. list_ex (\<lambda>x. et_OrgId x = orgId \<and> et_Id x = t) (env_types s)))
       (NewErrConflict ''environment type not found'')
    (Inr (request\<lparr>rr_Id := new_id\<rparr>, s\<lparr>runner_rules := rows\<rparr>)))))))"

definition GetRunnerRule :: "string \<Rightarrow> uuid \<Rightarrow> db \<Rightarrow> RunnerRule result" where
  "GetRunnerRule orgId ruleId s =
     require_some (NewErrNotFound ''runner rule not found'')
       (find (\<lambda>r. rr_OrgId r = orgId \<and> rr_Id r = ruleId) (runner_rules s))"

definition DeleteRunnerRule :: "string \<Rightarrow> uuid \<Rightarrow> db \<Rightarrow> (unit \<times> db) result" where
  "DeleteRunnerRule orgId ruleId s =
     (let hit = (\<lambda>r. rr_OrgId r = orgId \<and> rr_Id r = ruleId) in
      fail_if (\<not> list_ex hit (runner_rules s)) (NewErrNotFound ''runner rule not found'')
      (Inr ((), s\<lparr>runner_rules := filter (\<lambda>r. \<not> hit r) (runner_rules s)\<rparr>)))"

definition BulkDeleteRunnerRules :: "string \<Rightarrow> string option \<Rightarrow> string option \<Rightarrow> db \<Rightarrow> (uuid list \<times> db) result" where
  "BulkDeleteRunnerRules orgId byProjectId byRunnerId s =
     (let hit = (\<lambda>r. rr_OrgId r = orgId
          \<and> unless_set byProjectId (\<lambda>x. rr_ProjectId r = Some x) \<and> unless_set byRunnerId (\<lambda>x. rr_RunnerId r = x)) in
      Inr (map rr_Id (filter hit (runner_rules s)), s\<lparr>runner_rules := filter (\<lambda>r. \<not> hit r) (runner_rules s)\<rparr>))"

section \<open>The listings follow the paging contract\<close>

text \<open>
  What the listings rely on: identifiers without commas, a non-empty first component, and a
  \<open>parse_uuid\<close> that reads the canonical text of a UUID back.
\<close>

definition token_safe :: "(string \<Rightarrow> uuid option) \<Rightarrow> string list \<Rightarrow> bool" where
  "token_safe parse_uuid parts \<longleftrightarrow>
     parts \<noteq> [] \<and> hd parts \<noteq> '''' \<and> list_all (\<lambda>p. \<not> List.member p CHR '','') parts
     \<and> parse_uuid (last parts) = Some (last parts)"

lemma token_safe_parse:
  assumes "token_safe parse_uuid parts" "length parts = n"
  shows "PageTokenCodec_Parse n (join_with CHR '','' parts) = Inr parts" "join_with CHR '','' parts \<noteq> []"
proof -
  have split: "split_on CHR '','' (join_with CHR '','' parts) = parts"
    using assms(1) by (intro split_join_with) (auto simp: token_safe_def list_all_iff)
  show ne: "join_with CHR '','' parts \<noteq> []"
  proof
    assume "join_with CHR '','' parts = []"
    then have "parts = [[]]" using split by simp
    then show False using assms(1) by (simp add: token_safe_def)
  qed
  then show "PageTokenCodec_Parse n (join_with CHR '','' parts) = Inr parts"
    using split assms(2) by (simp add: PageTokenCodec_Parse_def)
qed

definition rules_listable :: "(string \<Rightarrow> uuid option) \<Rightarrow> string \<Rightarrow> ListModuleRulesParams \<Rightarrow> db \<Rightarrow> bool" where
  "rules_listable parse_uuid orgId params s \<longleftrightarrow>
     distinct (map rule_key (rules_of orgId params s))
     \<and> list_all (\<lambda>r. token_safe parse_uuid (rule_key r)) (rules_of orgId params s)"

interpretation rule_listing:
  keyset_listing "ListModuleRules parse_uuid org params" "rules_of org params" rule_key "join_with CHR '',''"
    "['''', '''', '''', Nil_uuid]" "rules_listable parse_uuid org params" for parse_uuid org params
proof
  fix s :: db and n and r
  assume good: "rules_listable parse_uuid org params s"
  show "ListModuleRules parse_uuid org params [] n s = Inr (tokened (join_with CHR '','')
      (keyset_page rule_key ['''', '''', '''', Nil_uuid] n (rules_of org params s)))"
    by (simp add: ListModuleRules_def PageTokenCodec_Parse_def)
  show "distinct (map rule_key (rules_of org params s))" using good by (simp add: rules_listable_def)
  assume "r \<in> set (rules_of org params s)"
  then have safe: "token_safe parse_uuid (rule_key r)" using good by (simp add: rules_listable_def list_all_iff)
  then show "ListModuleRules parse_uuid org params (join_with CHR '','' (rule_key r)) n s
      = Inr (tokened (join_with CHR '','') (keyset_page rule_key (rule_key r) n (rules_of org params s)))"
    using token_safe_parse [OF safe, of 4] by (simp add: ListModuleRules_def rule_key_def token_safe_def)
  have "ru_ResourceType r \<noteq> []" using safe by (simp add: token_safe_def rule_key_def)
  then have "[] < ru_ResourceType r" by (cases "ru_ResourceType r") auto
  then show "['''', '''', '''', Nil_uuid] < rule_key r \<and> join_with CHR '','' (rule_key r) \<noteq> []"
    using token_safe_parse(2) [OF safe refl] by (simp add: rule_key_def)
qed

definition runner_rules_listable :: "(string \<Rightarrow> uuid option) \<Rightarrow> string \<Rightarrow> ListRunnerRulesParams \<Rightarrow> db \<Rightarrow> bool" where
  "runner_rules_listable parse_uuid orgId params s \<longleftrightarrow>
     distinct (map runner_rule_key (runner_rules_of orgId params s))
     \<and> list_all (\<lambda>r. token_safe parse_uuid (runner_rule_key r)) (runner_rules_of orgId params s)"

interpretation runner_rule_listing:
  keyset_listing "ListRunnerRules parse_uuid org params" "runner_rules_of org params" runner_rule_key
    "join_with CHR '',''" "['''', Nil_uuid]" "runner_rules_listable parse_uuid org params" for parse_uuid org params
proof
  fix s :: db and n and r
  assume good: "runner_rules_listable parse_uuid org params s"
  show "ListRunnerRules parse_uuid org params [] n s = Inr (tokened (join_with CHR '','')
      (keyset_page runner_rule_key ['''', Nil_uuid] n (runner_rules_of org params s)))"
    by (simp add: ListRunnerRules_def PageTokenCodec_Parse_def)
  show "distinct (map runner_rule_key (runner_rules_of org params s))" using good by (simp add: runner_rules_listable_def)
  assume "r \<in> set (runner_rules_of org params s)"
  then have safe: "token_safe parse_uuid (runner_rule_key r)" using good by (simp add: runner_rules_listable_def list_all_iff)
  then show "ListRunnerRules parse_uuid org params (join_with CHR '','' (runner_rule_key r)) n s
      = Inr (tokened (join_with CHR '','') (keyset_page runner_rule_key (runner_rule_key r) n (runner_rules_of org params s)))"
    using token_safe_parse [OF safe, of 2] by (simp add: ListRunnerRules_def runner_rule_key_def token_safe_def)
  have "rr_RunnerId r \<noteq> []" using safe by (simp add: token_safe_def runner_rule_key_def)
  then have "[] < rr_RunnerId r" by (cases "rr_RunnerId r") auto
  then show "['''', Nil_uuid] < runner_rule_key r \<and> join_with CHR '','' (runner_rule_key r) \<noteq> []"
    using token_safe_parse(2) [OF safe refl] by (simp add: runner_rule_key_def)
qed

section \<open>Competing rules\<close>

text \<open>No two rules of an organisation have the same selector, for modules and for runners.\<close>

definition rules_inv :: "db \<Rightarrow> bool" where
  "rules_inv s \<longleftrightarrow>
     distinct (map (\<lambda>r. (ru_OrgId r, rule_selector r)) (definition_rules s))
     \<and> distinct (map (\<lambda>r. [ru_OrgId r, ru_Id r]) (definition_rules s))
     \<and> distinct (map (\<lambda>r. (rr_OrgId r, rr_ProjectId r, rr_EnvTypeId r)) (runner_rules s))
     \<and> distinct (map (\<lambda>r. [rr_OrgId r, rr_Id r]) (runner_rules s))"

inductive rule_step :: "db \<Rightarrow> db \<Rightarrow> bool" where
  rules_frame: "definition_rules s' = definition_rules s \<Longrightarrow> runner_rules s' = runner_rules s \<Longrightarrow> rule_step s s'"
| create_rule: "CreateModuleRule org q u s = Inr (r, s') \<Longrightarrow> rule_step s s'"
| delete_rule: "DeleteModuleRule org i s = Inr (x, s') \<Longrightarrow> rule_step s s'"
| bulk_delete_rules: "BulkDeleteModuleRuleDefinitions org dparams s = Inr (us, s') \<Longrightarrow> rule_step s s'"
| create_runner_rule: "CreateRunnerRule org rq u s = Inr (rr, s') \<Longrightarrow> rule_step s s'"
| delete_runner_rule: "DeleteRunnerRule org i s = Inr (x, s') \<Longrightarrow> rule_step s s'"
| bulk_delete_runner_rules: "BulkDeleteRunnerRules org bp br s = Inr (us, s') \<Longrightarrow> rule_step s s'"
| cascade_env_type: "DeleteEnvironmentType org i s = Inr (x, s') \<Longrightarrow> rule_step s s'"
| cascade_runner: "DeleteRunner org i s = Inr (x, s') \<Longrightarrow> rule_step s s'"

lemma rules_inv_filter:
  assumes "rules_inv s" "definition_rules s' = filter P (definition_rules s)" "runner_rules s' = filter Q (runner_rules s)"
  shows "rules_inv s'"
  using assms by (simp add: rules_inv_def distinct_map_filter)

lemma create_rule_preserves:
  assumes "rules_inv s" "CreateModuleRule org q u s = Inr (r, s')"
  shows "rules_inv s'"
proof -
  obtain row rows where row: "row = q\<lparr>ru_OrgId := org, ru_Id := u\<rparr>"
    and i: "insert_row definition_rules_constraints row (definition_rules s) = Inr rows"
    and fresh: "\<not> list_ex (\<lambda>r. ru_OrgId r = org \<and> rule_selector r = rule_selector q) (definition_rules s)"
    and s': "s' = s\<lparr>definition_rules := rows\<rparr>"
    using assms(2) by (auto simp: CreateModuleRule_def Let_def)
  have "rule_selector row = rule_selector q" "ru_OrgId row = org" by (simp_all add: row rule_selector_def)
  moreover have "distinct (map (\<lambda>r. [ru_OrgId r, ru_Id r]) rows)"
    using assms(1) by (auto intro!: insert_row_distinct [OF i] simp: definition_rules_constraints_def rules_inv_def)
  ultimately show ?thesis using assms(1) i fresh s'
    by (auto simp: rules_inv_def insert_row_Inr_iff list_ex_iff)
qed

lemma create_runner_rule_preserves:
  assumes "rules_inv s" "CreateRunnerRule org q u s = Inr (r, s')"
  shows "rules_inv s'"
proof -
  obtain row rows where row: "row = q\<lparr>rr_OrgId := org, rr_Id := u\<rparr>"
    and i: "insert_row runner_rules_constraints row (runner_rules s) = Inr rows"
    and fresh: "\<not> list_ex (\<lambda>r. rr_OrgId r = org \<and> rr_ProjectId r = rr_ProjectId q \<and> rr_EnvTypeId r = rr_EnvTypeId q)
      (runner_rules s)"
    and s': "s' = s\<lparr>runner_rules := rows\<rparr>"
    using assms(2) by (auto simp: CreateRunnerRule_def Let_def)
  have "distinct (map (\<lambda>r. [rr_OrgId r, rr_Id r]) rows)"
    using assms(1) by (auto intro!: insert_row_distinct [OF i] simp: runner_rules_constraints_def rules_inv_def)
  then show ?thesis using assms(1) i fresh s' row
    by (auto simp: rules_inv_def insert_row_Inr_iff list_ex_iff)
qed

lemma rule_step_preserves:
  assumes "rule_step s s'" "rules_inv s"
  shows "rules_inv s'"
  using assms
proof cases
  case rules_frame
  then show ?thesis using assms(2) by (simp add: rules_inv_def)
next
  case create_rule
  then show ?thesis by (rule create_rule_preserves [OF assms(2)])
next
  case create_runner_rule
  then show ?thesis by (rule create_runner_rule_preserves [OF assms(2)])
next
  case delete_rule
  then show ?thesis using assms(2) by (auto simp: DeleteModuleRule_def Let_def rules_inv_def distinct_map_filter)
next
  case bulk_delete_rules
  then show ?thesis using assms(2) by (auto simp: BulkDeleteModuleRuleDefinitions_def Let_def rules_inv_def distinct_map_filter)
next
  case delete_runner_rule
  then show ?thesis using assms(2) by (auto simp: DeleteRunnerRule_def Let_def rules_inv_def distinct_map_filter)
next
  case bulk_delete_runner_rules
  then show ?thesis using assms(2) by (auto simp: BulkDeleteRunnerRules_def Let_def rules_inv_def distinct_map_filter)
next
  case cascade_env_type
  then show ?thesis using assms(2) by (auto simp: DeleteEnvironmentType_def Let_def rules_inv_def distinct_map_filter)
next
  case cascade_runner
  then show ?thesis using assms(2) by (auto simp: DeleteRunner_def rules_inv_def distinct_map_filter)
qed

lemma rule_run_preserves: "rule_step\<^sup>*\<^sup>* s s' \<Longrightarrow> rules_inv s \<Longrightarrow> rules_inv s'"
  by (induction rule: rtranclp_induct) (auto intro: rule_step_preserves)

text \<open>A consistent organisation with two competing rules, for the witnesses.\<close>

definition example_rule :: "string \<Rightarrow> uuid \<Rightarrow> string option \<Rightarrow> DefinitionRule" where
  "example_rule d u p = \<lparr>ru_OrgId = ''acme'', ru_DefinitionId = d, ru_CreatedAt = 1, ru_Id = u, ru_ResourceType = ''bucket'',
     ru_ResourceClass = ''default'', ru_ResourceId = None, ru_ProjectId = p, ru_EnvTypeId = None, ru_EnvId = None\<rparr>"

definition example_module :: "string \<Rightarrow> uuid \<Rightarrow> definitions_row" where
  "example_module i u = \<lparr>d_org_id = ''acme'', d_uuid = u, d_id = i, d_display_name = i, d_description = None,
     d_resource_type = ''bucket'', d_resource_type_uuid = ''t1'', d_tags = [], d_catalogue_status = CatalogueActive,
     d_resource_version = 1, d_latest_version_id = None, d_current_default_version_uuid = None,
     d_previous_default_version_uuid = None, d_managed_default_generation = 0, d_created_at = 0,
     d_archived_at = None, d_archived_by = None, d_archive_reason = None\<rparr>"

definition example_rules_db :: db where
  "example_rules_db = example_scopes_db\<lparr>definitions := [example_module ''basic'' ''m1'', example_module ''large'' ''m2''],
     definition_rules := [example_rule ''basic'' ''r1'' None]\<rparr>"

lemma example_rules_inv: "rules_inv example_rules_db"
  by (simp add: rules_inv_def example_rules_db_def example_scopes_db_def empty_db_def)

lemma example_create_rule:
  "CreateModuleRule ''acme'' (example_rule ''large'' '''' (Some ''a'')) ''r2'' example_rules_db
     = Inr (example_rule ''large'' ''r2'' (Some ''a''),
         example_rules_db\<lparr>definition_rules := [example_rule ''basic'' ''r1'' None, example_rule ''large'' ''r2'' (Some ''a'')]\<rparr>)"
  by (simp add: CreateModuleRule_def example_rule_def example_rules_db_def example_module_def example_scopes_db_def
      rule_selector_def definition_rules_constraints_def insert_row.simps violates_def Let_def unless_set_def)

lemma CreateModuleRule_conflict:
  assumes "q \<in> set (definition_rules s)" "rule_selector request = rule_selector q"
    "ru_ResourceType request \<noteq> ''''" "ru_DefinitionId request \<noteq> ''''"
  shows "CreateModuleRule (ru_OrgId q) request u s = Inl (NewErrConflict ''rule conflicts with existing rule'')"
proof -
  have "list_ex (\<lambda>r. ru_OrgId r = ru_OrgId q \<and> rule_selector r = rule_selector request) (definition_rules s)"
    using assms(1,2) by (auto simp: list_ex_iff)
  then show ?thesis using assms(3,4) by (simp add: CreateModuleRule_def)
qed

section \<open>Properties\<close>

text \<open>
  No sequence of operations on rules, and no deletion of an environment type or a runner, makes two
  module rules of one organisation compete for the same resource kind in the same scope, or two runner
  rules for the same project and environment type; and a request to create such a rule is refused with
  a conflict.
\<close>

theorem rules_never_compete:
  assumes "rule_step\<^sup>*\<^sup>* s s'" "rules_inv s"
  shows "(\<forall>q \<in> set (definition_rules s'). \<forall>r \<in> set (definition_rules s').
            ru_OrgId q = ru_OrgId r \<and> rule_selector q = rule_selector r \<longrightarrow> q = r)
    \<and> (\<forall>q \<in> set (runner_rules s'). \<forall>r \<in> set (runner_rules s').
            rr_OrgId q = rr_OrgId r \<and> rr_ProjectId q = rr_ProjectId r \<and> rr_EnvTypeId q = rr_EnvTypeId r \<longrightarrow> q = r)
    \<and> (\<forall>q \<in> set (definition_rules s'). \<forall>request u.
            rule_selector request = rule_selector q \<and> ru_ResourceType request \<noteq> '''' \<and> ru_DefinitionId request \<noteq> '''' \<longrightarrow>
            CreateModuleRule (ru_OrgId q) request u s' = Inl (NewErrConflict ''rule conflicts with existing rule''))"
proof (intro conjI)
  have inv: "rules_inv s'" by (rule rule_run_preserves [OF assms])
  show "\<forall>q \<in> set (definition_rules s'). \<forall>r \<in> set (definition_rules s').
      ru_OrgId q = ru_OrgId r \<and> rule_selector q = rule_selector r \<longrightarrow> q = r"
    using inv unfolding rules_inv_def distinct_map by (auto dest: inj_onD)
  show "\<forall>q \<in> set (runner_rules s'). \<forall>r \<in> set (runner_rules s').
      rr_OrgId q = rr_OrgId r \<and> rr_ProjectId q = rr_ProjectId r \<and> rr_EnvTypeId q = rr_EnvTypeId r \<longrightarrow> q = r"
    using inv unfolding rules_inv_def distinct_map by (auto dest: inj_onD)
  show "\<forall>q \<in> set (definition_rules s'). \<forall>request u.
      rule_selector request = rule_selector q \<and> ru_ResourceType request \<noteq> '''' \<and> ru_DefinitionId request \<noteq> '''' \<longrightarrow>
      CreateModuleRule (ru_OrgId q) request u s' = Inl (NewErrConflict ''rule conflicts with existing rule'')"
    using CreateModuleRule_conflict by blast
qed

theorem rules_never_compete_witness:
  "\<exists>s'. CreateModuleRule ''acme'' (example_rule ''large'' '''' (Some ''a'')) ''r2'' example_rules_db
       = Inr (example_rule ''large'' ''r2'' (Some ''a''), s')
     \<and> CreateModuleRule ''acme'' (example_rule ''basic'' '''' (Some ''a'')) ''r3'' s'
       = Inl (NewErrConflict ''rule conflicts with existing rule'')"
proof -
  obtain s' where c: "CreateModuleRule ''acme'' (example_rule ''large'' '''' (Some ''a'')) ''r2'' example_rules_db
       = Inr (example_rule ''large'' ''r2'' (Some ''a''), s')" and "example_rule ''large'' ''r2'' (Some ''a'') \<in> set (definition_rules s')"
    using example_create_rule by simp
  moreover have "rule_step\<^sup>*\<^sup>* example_rules_db s'" using create_rule [OF c] by (rule r_into_rtranclp)
  from rules_never_compete [OF this example_rules_inv]
  have "\<forall>q \<in> set (definition_rules s'). \<forall>request u.
      rule_selector request = rule_selector q \<and> ru_ResourceType request \<noteq> '''' \<and> ru_DefinitionId request \<noteq> '''' \<longrightarrow>
      CreateModuleRule (ru_OrgId q) request u s' = Inl (NewErrConflict ''rule conflicts with existing rule'')" by (elim conjE)
  from bspec [OF this calculation(2)] have "CreateModuleRule ''acme'' (example_rule ''basic'' '''' (Some ''a'')) ''r3'' s'
      = Inl (NewErrConflict ''rule conflicts with existing rule'')"
    by (simp add: example_rule_def rule_selector_def)
  with c show ?thesis by blast
qed

end
