(* ===== verification/VersionHistory.thy ===== *)
theory VersionHistory
  imports Catalogue
begin

text \<open>
  What the operations of the catalogue keep. The invariant \<open>catalogue_ok\<close> says that every version
  belongs to exactly one module, that a version with status Default is the one its module points
  to (so that there is at most one), and that a module has at most one Proposed version. The operations are the steps of
  \<open>catalogue_step\<close>; operations of other components, which leave modules and versions alone, are its
  rule \<open>step_frame\<close>.

  Modules are addressed by slug or UUID in one name space. The operations resolve a reference to one
  module only if no slug of an organisation is the UUID of one of its modules (\<open>unambiguous\<close>); the
  slug pattern of the API does not exclude it, random UUIDs make it improbable.
\<close>

section \<open>The invariant\<close>

definition owns :: "definitions_row \<Rightarrow> definition_versions_row \<Rightarrow> bool" where
  "owns d v \<longleftrightarrow> d_uuid d = v_module_uuid v \<and> d_org_id d = v_org_id v \<and> d_id d = v_definition_id v"

definition proposed_key :: "definition_versions_row \<Rightarrow> string list option" where
  "proposed_key v =
     (if v_semantic_status v = LifecycleProposed then Some [v_org_id v, v_definition_id v] else None)"

definition catalogue_ok :: "definitions_row list \<Rightarrow> definition_versions_row list \<Rightarrow> bool" where
  "catalogue_ok modules versions \<longleftrightarrow>
     distinct (map d_uuid modules) \<and> distinct (map (\<lambda>d. (d_org_id d, d_id d)) modules)
     \<and> distinct (map v_uuid versions) \<and> keys_unique proposed_key versions
     \<and> (\<forall>v\<in>set versions. \<exists>d\<in>set modules. owns d v)
     \<and> (\<forall>v\<in>set versions. \<forall>d\<in>set modules. v_semantic_status v = LifecycleDefault \<longrightarrow>
          d_uuid d = v_module_uuid v \<longrightarrow> d_current_default_version_uuid d = Some (v_uuid v))"

definition unambiguous :: "definitions_row list \<Rightarrow> bool" where
  "unambiguous modules \<longleftrightarrow>
     (\<forall>d\<in>set modules. \<forall>e\<in>set modules. d_org_id d = d_org_id e \<longrightarrow> d_id d \<noteq> d_uuid e)"

definition catalogue_inv :: "db \<Rightarrow> bool" where
  "catalogue_inv s \<longleftrightarrow> catalogue_ok (definitions s) (definition_versions s) \<and> unambiguous (definitions s)"

text \<open>What may happen to a version: nothing, or one allowed lifecycle transition that counts up its revision.\<close>

definition version_frozen :: "definition_versions_row \<Rightarrow> definition_versions_row \<Rightarrow> bool" where
  "version_frozen v w \<longleftrightarrow>
     (v_org_id w, v_definition_id w, v_module_uuid w, v_version_id w, v_uuid w, v_semantic_version w)
       = (v_org_id v, v_definition_id v, v_module_uuid v, v_version_id v, v_uuid v, v_semantic_version v)
     \<and> (v_published_by w, v_created_at w, v_resource_type_version_uuid w, v_provider_values w, v_content w)
       = (v_published_by v, v_created_at v, v_resource_type_version_uuid v, v_provider_values v, v_content v)"

definition version_step :: "definition_versions_row \<Rightarrow> definition_versions_row \<Rightarrow> bool" where
  "version_step v w \<longleftrightarrow> w = v \<or>
     version_frozen v w \<and> v_resource_version w = v_resource_version v + 1
     \<and> List.member (lifecycle_allowed (v_semantic_status v)) (v_semantic_status w)"

section \<open>Resolving references\<close>

lemma catalogue_okD:
  assumes "catalogue_ok modules versions"
  shows "\<And>d e. d \<in> set modules \<Longrightarrow> e \<in> set modules \<Longrightarrow> d_uuid d = d_uuid e \<Longrightarrow> d = e"
    "\<And>d e. d \<in> set modules \<Longrightarrow> e \<in> set modules \<Longrightarrow> d_org_id d = d_org_id e \<Longrightarrow> d_id d = d_id e \<Longrightarrow> d = e"
    "\<And>v w. v \<in> set versions \<Longrightarrow> w \<in> set versions \<Longrightarrow> v_uuid v = v_uuid w \<Longrightarrow> v = w"
    "\<And>v. v \<in> set versions \<Longrightarrow> \<exists>d\<in>set modules. owns d v"
    "\<And>v d. v \<in> set versions \<Longrightarrow> d \<in> set modules \<Longrightarrow> v_semantic_status v = LifecycleDefault \<Longrightarrow>
      d_uuid d = v_module_uuid v \<Longrightarrow> d_current_default_version_uuid d = Some (v_uuid v)"
    "keys_unique proposed_key versions"
proof -
  note ok = assms [unfolded catalogue_ok_def]
  show "d \<in> set modules \<Longrightarrow> e \<in> set modules \<Longrightarrow> d_uuid d = d_uuid e \<Longrightarrow> d = e" for d e
    using ok unique_key_eq [of d_uuid modules d e] by blast
  show "d \<in> set modules \<Longrightarrow> e \<in> set modules \<Longrightarrow> d_org_id d = d_org_id e \<Longrightarrow> d_id d = d_id e \<Longrightarrow> d = e" for d e
    using ok unique_key_eq [of "\<lambda>d. (d_org_id d, d_id d)" modules d e] by blast
  show "v \<in> set versions \<Longrightarrow> w \<in> set versions \<Longrightarrow> v_uuid v = v_uuid w \<Longrightarrow> v = w" for v w
    using ok unique_key_eq [of v_uuid versions v w] by blast
qed (use assms in \<open>auto simp: catalogue_ok_def\<close>)

lemma module_unique:
  assumes "catalogue_ok modules versions" "unambiguous modules" "d \<in> set modules" "e \<in> set modules"
    and "module_matches org ref d" "module_matches org ref e"
  shows "d = e"
proof -
  have "d_org_id d = d_org_id e" using assms(5,6) by (simp add: module_matches_def)
  moreover from this have "d_id d \<noteq> d_uuid e" "d_id e \<noteq> d_uuid d" using assms(2-4) by (auto simp: unambiguous_def)
  ultimately show ?thesis
    using assms(3-6) catalogue_okD(1,2) [OF assms(1) assms(3,4)] by (auto simp: module_matches_def)
qed

lemma version_module:
  assumes ok: "catalogue_ok modules versions" "unambiguous modules" and d: "d \<in> set modules" "module_matches org ref d"
    and v: "v \<in> set versions" "version_matches org ref vref modules v"
  shows "owns d v"
proof -
  obtain e where e: "e \<in> set modules" "d_uuid e = v_module_uuid v" "d_id e = ref \<or> d_uuid e = ref"
    using v(2) by (auto simp: version_matches_def in_module_def list_ex_iff)
  obtain o1 where o1: "o1 \<in> set modules" "owns o1 v" using catalogue_okD(4) [OF ok(1) v(1)] by blast
  have "o1 = e" using o1 e catalogue_okD(1) [OF ok(1)] by (auto simp: owns_def)
  then have "module_matches org ref e"
    using o1 e v(2) by (auto simp: module_matches_def owns_def version_matches_def)
  then have "d = e" using module_unique [OF ok d(1) e(1) d(2)] by blast
  then show ?thesis using o1 \<open>o1 = e\<close> by simp
qed

lemma GetModuleCatalogue_Inr:
  "GetModuleCatalogue org ref s = Inr entry \<longleftrightarrow>
     (\<exists>d. find (module_matches org ref) (definitions s) = Some d \<and> entry = scanModuleCatalogue d)"
  by (auto simp: GetModuleCatalogue_def)

lemma GetCoreModuleVersion_Inr:
  "GetCoreModuleVersion org ref vref s = Inr version \<longleftrightarrow>
     (\<exists>v. find (version_matches org ref vref (definitions s)) (definition_versions s) = Some v
        \<and> version = scanCoreModuleVersion (resource_type_versions s) v)"
  by (auto simp: GetCoreModuleVersion_def)

lemma scan_fields [simp]:
  "mc_OrgID (scanModuleCatalogue d) = d_org_id d" "mc_UUID (scanModuleCatalogue d) = d_uuid d"
  "mc_Status (scanModuleCatalogue d) = d_catalogue_status d"
  "mc_ResourceVersion (scanModuleCatalogue d) = d_resource_version d"
  "mc_CurrentDefaultVersionUUID (scanModuleCatalogue d) = d_current_default_version_uuid d"
  "mc_PreviousDefaultVersionUUID (scanModuleCatalogue d) = d_previous_default_version_uuid d"
  "cv_UUID (scanCoreModuleVersion rs v) = v_uuid v"
  "cv_LifecycleStatus (scanCoreModuleVersion rs v) = v_semantic_status v"
  "cv_ResourceVersion (scanCoreModuleVersion rs v) = v_resource_version v"
  "cv_SemanticVersion (scanCoreModuleVersion rs v) = v_semantic_version v"
  by (simp_all add: scanModuleCatalogue_def scanCoreModuleVersion_def)

section \<open>Changes of the two tables\<close>

lemma catalogue_ok_modules_upd:
  assumes "catalogue_ok modules versions"
    and "\<And>d. d_uuid (f d) = d_uuid d" "\<And>d. d_org_id (f d) = d_org_id d" "\<And>d. d_id (f d) = d_id d"
    and "\<And>d v. d \<in> set modules \<Longrightarrow> P d \<Longrightarrow> v \<in> set versions \<Longrightarrow> v_semantic_status v = LifecycleDefault \<Longrightarrow>
      d_uuid d = v_module_uuid v \<Longrightarrow> d_current_default_version_uuid d = Some (v_uuid v) \<Longrightarrow>
      d_current_default_version_uuid (f d) = Some (v_uuid v)"
  shows "catalogue_ok (upd_where P f modules) versions"
proof -
  have "map d_uuid (upd_where P f modules) = map d_uuid modules"
    "map (\<lambda>d. (d_org_id d, d_id d)) (upd_where P f modules) = map (\<lambda>d. (d_org_id d, d_id d)) modules"
    using assms(2-4) by (simp_all add: map_upd_where)
  moreover have "\<exists>d\<in>set (upd_where P f modules). owns d v" if v: "v \<in> set versions" for v
  proof -
    obtain e where "e \<in> set modules" "owns e v" using catalogue_okD(4) [OF assms(1) v] by blast
    then show ?thesis using assms(2-4)
      by (intro bexI [OF _ upd_where_intro [of e]]) (auto simp: owns_def)
  qed
  moreover have "d_current_default_version_uuid d = Some (v_uuid v)"
    if h: "v \<in> set versions" "d \<in> set (upd_where P f modules)" "v_semantic_status v = LifecycleDefault"
      "d_uuid d = v_module_uuid v" for v d
  proof -
    obtain e where e: "e \<in> set modules" "d = (if P e then f e else e)" using h(2) unfolding in_upd_where by blast
    then have "d_uuid e = v_module_uuid v" using h(4) assms(2) by (auto split: if_splits)
    then have "d_current_default_version_uuid e = Some (v_uuid v)"
      using catalogue_okD(5) [OF assms(1) h(1) e(1) h(3)] by blast
    then show ?thesis using e assms(5) [OF e(1) _ h(1,3)] \<open>d_uuid e = v_module_uuid v\<close> by auto
  qed
  ultimately show ?thesis using assms(1) by (simp add: catalogue_ok_def)
qed

lemma unambiguous_upd:
  assumes "unambiguous modules"
    and "\<And>d. d_uuid (f d) = d_uuid d" "\<And>d. d_org_id (f d) = d_org_id d" "\<And>d. d_id (f d) = d_id d"
  shows "unambiguous (upd_where P f modules)"
  using assms by (auto simp: unambiguous_def set_upd_where)

lemma catalogue_ok_snoc_version:
  assumes "catalogue_ok modules versions" "v_uuid v \<notin> v_uuid ` set versions"
    "d \<in> set modules" "owns d v" "\<not> violates proposed_key v versions"
    "v_semantic_status v = LifecycleDefault \<Longrightarrow> d_current_default_version_uuid d = Some (v_uuid v)"
  shows "catalogue_ok modules (versions @ [v])"
proof -
  have "d_current_default_version_uuid e = Some (v_uuid v)"
    if "e \<in> set modules" "v_semantic_status v = LifecycleDefault" "d_uuid e = v_module_uuid v" for e
    using catalogue_okD(1) [OF assms(1) assms(3) that(1)] assms(4,6) that by (simp add: owns_def)
  then show ?thesis using assms(1-5) by (auto simp: catalogue_ok_def keys_unique_snoc)
qed

lemma catalogue_ok_snoc_module:
  assumes "catalogue_ok modules versions" "d_uuid d \<notin> d_uuid ` set modules"
    "(d_org_id d, d_id d) \<notin> (\<lambda>d. (d_org_id d, d_id d)) ` set modules"
  shows "catalogue_ok (modules @ [d]) versions"
proof -
  have "v_module_uuid v \<noteq> d_uuid d" if "v \<in> set versions" for v
    using catalogue_okD(4) [OF assms(1) that] assms(2) by (auto simp: owns_def image_iff)
  then show ?thesis using assms by (fastforce simp: catalogue_ok_def)
qed

text \<open>One version changes its status to one that is neither Default nor Proposed.\<close>

lemma catalogue_ok_step_down:
  assumes "catalogue_ok modules versions" and "\<And>v. v_uuid (f v) = v_uuid v" "\<And>v. v_module_uuid (f v) = v_module_uuid v"
    "\<And>v. v_org_id (f v) = v_org_id v" "\<And>v. v_definition_id (f v) = v_definition_id v"
    and "\<And>v. v_semantic_status (f v) = LifecycleDeprecated \<or> v_semantic_status (f v) = LifecycleDefective"
  shows "catalogue_ok modules (upd_where P f versions)"
proof -
  have "map v_uuid (upd_where P f versions) = map v_uuid versions" using assms(2) by (simp add: map_upd_where)
  moreover have "keys_unique proposed_key (upd_where P f versions)"
  proof -
    have "proposed_key (f v) = None" for v using assms(6) [of v] by (auto simp: proposed_key_def)
    then show ?thesis using catalogue_okD(6) [OF assms(1)] by (rule keys_unique_release)
  qed
  moreover have "\<exists>d\<in>set modules. owns d w" if w: "w \<in> set (upd_where P f versions)" for w
  proof -
    obtain v where v: "v \<in> set versions" "w = (if P v then f v else v)" using w unfolding in_upd_where by blast
    then obtain e where "e \<in> set modules" "owns e v" using catalogue_okD(4) [OF assms(1)] by blast
    then show ?thesis using v assms(3-5) by (auto simp: owns_def)
  qed
  moreover have "d_current_default_version_uuid d = Some (v_uuid w)"
    if h: "w \<in> set (upd_where P f versions)" "d \<in> set modules" "v_semantic_status w = LifecycleDefault"
      "d_uuid d = v_module_uuid w" for w d
  proof -
    obtain v where "v \<in> set versions" "w = (if P v then f v else v)" using h(1) unfolding in_upd_where by blast
    moreover from this have "w = v" using h(3) assms(6) [of v] by (auto split: if_splits)
    ultimately have "w \<in> set versions" by simp
    then show ?thesis using catalogue_okD(5) [OF assms(1)] h by blast
  qed
  ultimately show ?thesis using assms(1) by (simp add: catalogue_ok_def)
qed

text \<open>
  One version of a module becomes its default, and no other version of the module is: the pointer
  moves with it.
\<close>

lemma catalogue_ok_promote:
  assumes ok: "catalogue_ok modules versions" and d: "d \<in> set modules" and v: "v \<in> set versions" "owns d v"
    and none: "\<And>w. w \<in> set versions \<Longrightarrow> v_module_uuid w = d_uuid d \<Longrightarrow> v_semantic_status w \<noteq> LifecycleDefault"
    and f: "\<And>v. v_uuid (f v) = v_uuid v" "\<And>v. v_module_uuid (f v) = v_module_uuid v"
      "\<And>v. v_org_id (f v) = v_org_id v" "\<And>v. v_definition_id (f v) = v_definition_id v"
      "\<And>v. v_semantic_status (f v) = LifecycleDefault"
    and g: "\<And>d. d_uuid (g d) = d_uuid d" "\<And>d. d_org_id (g d) = d_org_id d" "\<And>d. d_id (g d) = d_id d"
      "\<And>d. d_current_default_version_uuid (g d) = Some (v_uuid v)"
  shows "catalogue_ok (upd_where (\<lambda>e. d_org_id e = d_org_id d \<and> d_uuid e = d_uuid d) g modules)
     (upd_where (\<lambda>w. v_uuid w = v_uuid v) f versions)" (is "catalogue_ok ?ms ?vs")
proof -
  have hit: "w = v" if "w \<in> set versions" "v_uuid w = v_uuid v" for w
    using catalogue_okD(3) [OF ok that(1) v(1) that(2)] .
  have "map v_uuid ?vs = map v_uuid versions" using f by (simp add: map_upd_where)
  moreover have "map d_uuid ?ms = map d_uuid modules"
    "map (\<lambda>d. (d_org_id d, d_id d)) ?ms = map (\<lambda>d. (d_org_id d, d_id d)) modules"
    using g by (simp_all add: map_upd_where)
  moreover have "keys_unique proposed_key ?vs"
  proof -
    have "proposed_key (f v) = None" for v using f(5) [of v] by (simp add: proposed_key_def)
    then show ?thesis using catalogue_okD(6) [OF ok] by (rule keys_unique_release)
  qed
  moreover have "\<exists>e\<in>set ?ms. owns e w" if w: "w \<in> set ?vs" for w
  proof -
    obtain x where "x \<in> set versions" "w = (if v_uuid x = v_uuid v then f x else x)"
      using w unfolding in_upd_where by blast
    moreover obtain e where "e \<in> set modules" "owns e x" using catalogue_okD(4) [OF ok] calculation(1) by blast
    ultimately show ?thesis using f g
      by (intro bexI [OF _ upd_where_intro [of e]]) (auto simp: owns_def)
  qed
  moreover have "d_current_default_version_uuid e = Some (v_uuid w)"
    if h: "w \<in> set ?vs" "e \<in> set ?ms" "v_semantic_status w = LifecycleDefault" "d_uuid e = v_module_uuid w" for w e
  proof -
    obtain x where x: "x \<in> set versions" "w = (if v_uuid x = v_uuid v then f x else x)"
      using h(1) unfolding in_upd_where by blast
    obtain y where y: "y \<in> set modules" "e = (if d_org_id y = d_org_id d \<and> d_uuid y = d_uuid d then g y else y)"
      using h(2) unfolding in_upd_where by blast
    show ?thesis
    proof (cases "v_uuid x = v_uuid v")
      case True
      then have "x = v" "w = f v" using x hit by auto
      then have "d_uuid y = d_uuid d" using y h(4) v(2) f g by (auto simp: owns_def split: if_splits)
      then have "y = d" using catalogue_okD(1) [OF ok y(1) d] by blast
      then show ?thesis using y g f \<open>w = f v\<close> by simp
    next
      case False
      then have "w = x" using x by simp
      then have "v_module_uuid x \<noteq> d_uuid d" using none [OF x(1)] h(3) by blast
      then have "e = y" using y h(4) g \<open>w = x\<close> by (auto split: if_splits)
      then show ?thesis using catalogue_okD(5) [OF ok x(1) y(1)] h \<open>w = x\<close> by blast
    qed
  qed
  ultimately show ?thesis using ok by (simp add: catalogue_ok_def)
qed

section \<open>The lifecycle handler\<close>

lemma ValidateLifecycleTransition_allowed:
  "ValidateLifecycleTransition a b p = None \<Longrightarrow> a \<noteq> b \<Longrightarrow> List.member (lifecycle_allowed a) b"
  by (auto simp: ValidateLifecycleTransition_def split: if_splits)

lemma transition_Inr:
  assumes "TransitionCoreModuleVersion org ref vref target e actor reason corr s = Inr (u, s')"
  shows "\<exists>d v parsed. find (module_matches org ref) (definitions s) = Some d
     \<and> find (version_matches org ref vref (definitions s)) (definition_versions s) = Some v
     \<and> v_resource_version v = e
     \<and> (v_semantic_status v = target \<and> s' = s
        \<or> v_semantic_status v \<noteq> target \<and> List.member (lifecycle_allowed (v_semantic_status v)) target
          \<and> (\<exists>s1 ev. (if target = LifecycleDefault
                 then promote_version (scanModuleCatalogue d) (scanCoreModuleVersion (resource_type_versions s) v)
                   parsed org actor reason corr s
                 else demote_version (scanModuleCatalogue d) (scanCoreModuleVersion (resource_type_versions s) v)
                   target org s) = Inr s1
               \<and> definitions s' = definitions s1 \<and> definition_versions s' = definition_versions s1
               \<and> lifecycle_events s' = lifecycle_events s1 @ [ev] \<and> le_ModuleUUID ev = d_uuid d
               \<and> le_VersionUUID ev = v_uuid v \<and> le_FromStatus ev = Some (v_semantic_status v) \<and> le_ToStatus ev = target))"
proof -
  from assms obtain d v where d: "find (module_matches org ref) (definitions s) = Some d"
    and v: "find (version_matches org ref vref (definitions s)) (definition_versions s) = Some v"
    by (auto simp: TransitionCoreModuleVersion_def GetModuleCatalogue_Inr GetCoreModuleVersion_Inr split: option.splits)
  from assms d v obtain sv parsed where sv: "v_semantic_version v = Some sv" "ParseVersion sv = Inr parsed"
    and rv: "v_resource_version v = e"
    and val: "ValidateLifecycleTransition (v_semantic_status v) target parsed = None"
    by (auto simp: TransitionCoreModuleVersion_def GetModuleCatalogue_def GetCoreModuleVersion_def
        split: option.splits sum.splits)
  show ?thesis
  proof (cases "v_semantic_status v = target")
    case True
    then have "s' = s"
      using assms d v sv rv val
      by (auto simp: TransitionCoreModuleVersion_def GetModuleCatalogue_def GetCoreModuleVersion_def
          split: option.splits)
    then show ?thesis using d v rv True by blast
  next
    case False
    obtain s1 where s1: "(if target = LifecycleDefault
                 then promote_version (scanModuleCatalogue d) (scanCoreModuleVersion (resource_type_versions s) v)
                   parsed org actor reason corr s
                 else demote_version (scanModuleCatalogue d) (scanCoreModuleVersion (resource_type_versions s) v)
                   target org s) = Inr s1"
      and "definitions s' = definitions s1" "definition_versions s' = definition_versions s1"
      and ev: "\<exists>ev. lifecycle_events s' = lifecycle_events s1 @ [ev] \<and> le_ModuleUUID ev = d_uuid d
               \<and> le_VersionUUID ev = v_uuid v \<and> le_FromStatus ev = Some (v_semantic_status v) \<and> le_ToStatus ev = target"
      using assms d v sv rv val False
      by (auto simp: TransitionCoreModuleVersion_def GetModuleCatalogue_def GetCoreModuleVersion_def Let_def
          split: option.splits)
    then show ?thesis
      using d v rv False ValidateLifecycleTransition_allowed [OF val False] by blast
  qed
qed

definition deprecated_previous :: "definitions_row \<Rightarrow> definition_versions_row list \<Rightarrow> definition_versions_row list \<Rightarrow> bool" where
  "deprecated_previous d versions versions' \<longleftrightarrow>
     (case d_current_default_version_uuid d of
        None \<Rightarrow> versions' = versions
      | Some current \<Rightarrow>
          list_ex (\<lambda>v. v_uuid v = current \<and> v_semantic_status v = LifecycleDefault) versions
          \<and> versions' = upd_where (\<lambda>v. v_uuid v = current \<and> v_semantic_status v = LifecycleDefault)
              (set_version_status LifecycleDeprecated) versions)"

lemma deprecate_previous_Inr:
  assumes "deprecate_previous (scanModuleCatalogue d) org actor reason corr s = Inr s1"
  shows "definitions s1 = definitions s \<and> deprecated_previous d (definition_versions s) (definition_versions s1)"
proof (cases "d_current_default_version_uuid d")
  case None
  then show ?thesis using assms by (simp add: deprecate_previous_def deprecated_previous_def)
next
  case (Some current)
  then obtain p where
    "find (\<lambda>v. v_uuid v = current \<and> v_semantic_status v = LifecycleDefault) (definition_versions s) = Some p"
    using assms by (auto simp: deprecate_previous_def Let_def)
  then show ?thesis using assms Some find_in_set
    by (fastforce simp: deprecate_previous_def deprecated_previous_def Let_def list_ex_iff)
qed

lemma promote_Inr:
  assumes "promote_version (scanModuleCatalogue d) (scanCoreModuleVersion rs v) parsed org actor reason corr s = Inr s'"
  shows "\<exists>versions g generation. deprecated_previous d (definition_versions s) versions
     \<and> definition_versions s' = upd_where (\<lambda>w. v_uuid w = v_uuid v)
          (\<lambda>w. (set_version_status LifecycleDefault w)\<lparr>v_migration_generation := generation\<rparr>) versions
     \<and> definitions s' = upd_where (\<lambda>e. d_org_id e = org \<and> d_uuid e = d_uuid d) g (definitions s)
     \<and> (\<forall>e. d_uuid (g e) = d_uuid e \<and> d_org_id (g e) = d_org_id e \<and> d_id (g e) = d_id e
          \<and> d_current_default_version_uuid (g e) = Some (v_uuid v)
          \<and> d_previous_default_version_uuid (g e) = d_current_default_version_uuid d
          \<and> d_resource_version (g e) = d_resource_version e + 1)"
proof -
  let ?m = "scanModuleCatalogue d" and ?cv = "scanCoreModuleVersion rs v"
  obtain s1 where s1: "deprecate_previous ?m org actor reason corr s = Inr s1"
    using assms by (auto simp: promote_version_def Let_def)
  note dep = deprecate_previous_Inr [OF s1]
  obtain generation migration where
    "definitions s' = upd_where (\<lambda>e. d_org_id e = org \<and> d_uuid e = d_uuid d)
       (\<lambda>e. e\<lparr>d_latest_version_id := Some (cv_OpaqueVersionID ?cv), d_current_default_version_uuid := Some (v_uuid v),
          d_previous_default_version_uuid := d_current_default_version_uuid d, d_managed_default_generation := generation,
          d_resource_version := d_resource_version e + 1\<rparr>) (definitions s1)"
    "definition_versions s' = upd_where (\<lambda>w. v_uuid w = v_uuid v)
       (\<lambda>w. (set_version_status LifecycleDefault w)\<lparr>v_migration_generation := migration\<rparr>) (definition_versions s1)"
    using assms s1 by (auto simp: promote_version_def Let_def update_rows_Inr_iff)
  with dep show ?thesis
    by (intro exI [of _ "definition_versions s1"] exI [of _ "\<lambda>e. e\<lparr>d_latest_version_id := Some (cv_OpaqueVersionID ?cv),
          d_current_default_version_uuid := Some (v_uuid v),
          d_previous_default_version_uuid := d_current_default_version_uuid d, d_managed_default_generation := generation,
          d_resource_version := d_resource_version e + 1\<rparr>"] exI [of _ migration]) simp
qed

lemma demote_Inr:
  assumes "demote_version (scanModuleCatalogue d) (scanCoreModuleVersion rs v) target org s = Inr s'"
  shows "definition_versions s' = upd_where (\<lambda>w. v_uuid w = v_uuid v) (set_version_status target) (definition_versions s)
     \<and> (if v_semantic_status v = LifecycleDefault \<and> target = LifecycleDefective
        then \<exists>g. definitions s' = upd_where (\<lambda>e. d_org_id e = org \<and> d_uuid e = d_uuid d) g (definitions s)
          \<and> (\<forall>e. d_uuid (g e) = d_uuid e \<and> d_org_id (g e) = d_org_id e \<and> d_id (g e) = d_id e
              \<and> d_current_default_version_uuid (g e) = None)
        else definitions s' = definitions s)"
  using assms by (auto simp: demote_version_def Let_def update_rows_Inr_iff)

lemma set_version_status_fields [simp]:
  "v_uuid (set_version_status t v) = v_uuid v" "v_module_uuid (set_version_status t v) = v_module_uuid v"
  "v_org_id (set_version_status t v) = v_org_id v" "v_definition_id (set_version_status t v) = v_definition_id v"
  "v_semantic_status (set_version_status t v) = t"
  "v_resource_version (set_version_status t v) = v_resource_version v + 1"
  "version_frozen v (set_version_status t v)"
  by (simp_all add: set_version_status_def version_frozen_def)

lemma version_step_status:
  "List.member (lifecycle_allowed (v_semantic_status v)) t \<Longrightarrow> version_step v (set_version_status t v)"
  "List.member (lifecycle_allowed (v_semantic_status v)) t \<Longrightarrow>
     version_step v ((set_version_status t v)\<lparr>v_migration_generation := m\<rparr>)"
  by (simp_all add: version_step_def version_frozen_def set_version_status_def)

lemma deprecated_previous_ok:
  assumes ok: "catalogue_ok modules versions" and d: "d \<in> set modules" and dep: "deprecated_previous d versions versions'"
  shows "catalogue_ok modules versions'"
    and "w \<in> set versions' \<Longrightarrow> v_module_uuid w = d_uuid d \<Longrightarrow> v_semantic_status w \<noteq> LifecycleDefault"
    and "v \<in> set versions \<Longrightarrow> v_semantic_status v \<noteq> LifecycleDefault \<Longrightarrow> v \<in> set versions'"
    and "v \<in> set versions \<Longrightarrow> \<exists>w\<in>set versions'. v_uuid w = v_uuid v \<and> version_step v w
      \<and> (v_semantic_status v \<noteq> LifecycleDefault \<longrightarrow> w = v)"
proof -
  show ok': "catalogue_ok modules versions'"
  proof (cases "d_current_default_version_uuid d")
    case None
    then show ?thesis using dep ok by (simp add: deprecated_previous_def)
  next
    case (Some c)
    then have v': "versions' = upd_where (\<lambda>v. v_uuid v = c \<and> v_semantic_status v = LifecycleDefault)
        (set_version_status LifecycleDeprecated) versions" using dep by (simp add: deprecated_previous_def)
    show ?thesis unfolding v' by (rule catalogue_ok_step_down [OF ok]) simp_all
  qed
  show "v_semantic_status w \<noteq> LifecycleDefault" if "w \<in> set versions'" "v_module_uuid w = d_uuid d" for w
  proof
    assume def: "v_semantic_status w = LifecycleDefault"
    have cur: "d_current_default_version_uuid d = Some (v_uuid w)"
      using catalogue_okD(5) [OF ok' that(1) d def] that(2) by simp
    then have "w \<in> set (upd_where (\<lambda>v. v_uuid v = v_uuid w \<and> v_semantic_status v = LifecycleDefault)
        (set_version_status LifecycleDeprecated) versions)" using dep that(1) by (simp add: deprecated_previous_def)
    then obtain x where "x \<in> set versions" "w = (if v_uuid x = v_uuid w \<and> v_semantic_status x = LifecycleDefault
        then set_version_status LifecycleDeprecated x else x)" unfolding in_upd_where by blast
    then show False using def by (auto split: if_splits)
  qed
  show step: "\<exists>w\<in>set versions'. v_uuid w = v_uuid v \<and> version_step v w
      \<and> (v_semantic_status v \<noteq> LifecycleDefault \<longrightarrow> w = v)" if v: "v \<in> set versions" for v
  proof (cases "d_current_default_version_uuid d")
    case None
    then show ?thesis using dep v by (auto simp: deprecated_previous_def version_step_def)
  next
    case (Some c)
    then have v': "versions' = upd_where (\<lambda>v. v_uuid v = c \<and> v_semantic_status v = LifecycleDefault)
        (set_version_status LifecycleDeprecated) versions" using dep by (simp add: deprecated_previous_def)
    have "version_step v (set_version_status LifecycleDeprecated v)" if "v_semantic_status v = LifecycleDefault"
      using that by (intro version_step_status) simp
    then show ?thesis unfolding v'
      by (intro bexI [OF _ upd_where_intro [OF v]]) (auto simp: version_step_def)
  qed
  show "v \<in> set versions'" if "v \<in> set versions" "v_semantic_status v \<noteq> LifecycleDefault" for v
    using step [OF that(1)] that(2) by auto
qed

text \<open>The effect of each branch of the handler on the two tables.\<close>

lemma promotion_ok:
  assumes inv: "catalogue_inv s" and d: "d \<in> set (definitions s)" and v: "v \<in> set (definition_versions s)" "owns d v"
    and allowed: "List.member (lifecycle_allowed (v_semantic_status v)) LifecycleDefault"
    and p: "promote_version (scanModuleCatalogue d) (scanCoreModuleVersion rs v) parsed (d_org_id d) actor reason corr s = Inr s'"
  shows "catalogue_inv s'" and "x \<in> set (definition_versions s) \<Longrightarrow> \<exists>w\<in>set (definition_versions s'). version_step x w"
proof -
  have ok: "catalogue_ok (definitions s) (definition_versions s)" and un: "unambiguous (definitions s)"
    using inv by (simp_all add: catalogue_inv_def)
  have nd: "v_semantic_status v \<noteq> LifecycleDefault" using allowed by auto
  from promote_Inr [OF p] obtain versions g generation
    where dep: "deprecated_previous d (definition_versions s) versions"
    and vs: "definition_versions s' = upd_where (\<lambda>w. v_uuid w = v_uuid v)
      (\<lambda>w. (set_version_status LifecycleDefault w)\<lparr>v_migration_generation := generation\<rparr>) versions"
    and ds: "definitions s' = upd_where (\<lambda>e. d_org_id e = d_org_id d \<and> d_uuid e = d_uuid d) g (definitions s)"
    and g: "\<forall>e. d_uuid (g e) = d_uuid e \<and> d_org_id (g e) = d_org_id e \<and> d_id (g e) = d_id e
        \<and> d_current_default_version_uuid (g e) = Some (v_uuid v)" by blast
  note dp = deprecated_previous_ok [OF ok d dep]
  have v': "v \<in> set versions" by (rule dp(3) [OF v(1) nd])
  have "catalogue_ok (definitions s') (definition_versions s')"
    unfolding vs ds by (rule catalogue_ok_promote [OF dp(1) d v' v(2) dp(2)]) (simp_all add: g)
  moreover have "unambiguous (definitions s')" unfolding ds by (rule unambiguous_upd [OF un]) (simp_all add: g)
  ultimately show "catalogue_inv s'" by (simp add: catalogue_inv_def)
  assume x: "x \<in> set (definition_versions s)"
  obtain y where y: "y \<in> set versions" "v_uuid y = v_uuid x" "version_step x y"
    "v_semantic_status x \<noteq> LifecycleDefault \<longrightarrow> y = x" using dp(4) [OF x] by blast
  show "\<exists>w\<in>set (definition_versions s'). version_step x w"
  proof (cases "v_uuid x = v_uuid v")
    case True
    then have "x = v" using catalogue_okD(3) [OF ok x v(1)] by blast
    then have "y = v" using y(4) nd by blast
    then show ?thesis unfolding vs
      using version_step_status(2) [OF allowed] \<open>x = v\<close> by (intro bexI [OF _ upd_where_intro [OF v']]) simp
  next
    case False
    then show ?thesis unfolding vs using y by (intro bexI [OF _ upd_where_intro [OF y(1)]]) simp
  qed
qed

lemma demotion_ok:
  assumes inv: "catalogue_inv s" and v: "v \<in> set (definition_versions s)" "owns d v"
    and allowed: "List.member (lifecycle_allowed (v_semantic_status v)) target" "target \<noteq> LifecycleDefault"
    and p: "demote_version (scanModuleCatalogue d) (scanCoreModuleVersion rs v) target (d_org_id d) s = Inr s'"
  shows "catalogue_inv s'" and "x \<in> set (definition_versions s) \<Longrightarrow> \<exists>w\<in>set (definition_versions s'). version_step x w"
proof -
  have ok: "catalogue_ok (definitions s) (definition_versions s)" and un: "unambiguous (definitions s)"
    using inv by (simp_all add: catalogue_inv_def)
  note dm = demote_Inr [OF p]
  have tgt: "target = LifecycleDeprecated \<or> target = LifecycleDefective"
    using allowed by (cases "v_semantic_status v") auto
  have ok1: "catalogue_ok (definitions s) (definition_versions s')"
    using dm tgt by (simp, intro catalogue_ok_step_down [OF ok]) auto
  show "catalogue_inv s'"
  proof (cases "v_semantic_status v = LifecycleDefault \<and> target = LifecycleDefective")
    case True
    then obtain g where ds: "definitions s' = upd_where (\<lambda>e. d_org_id e = d_org_id d \<and> d_uuid e = d_uuid d) g (definitions s)"
      and g: "\<forall>e. d_uuid (g e) = d_uuid e \<and> d_org_id (g e) = d_org_id e \<and> d_id (g e) = d_id e
        \<and> d_current_default_version_uuid (g e) = None" using dm by auto
    have "catalogue_ok (definitions s') (definition_versions s')" unfolding ds
    proof (rule catalogue_ok_modules_upd [OF ok1])
      fix e w
      assume e: "e \<in> set (definitions s)" "d_org_id e = d_org_id d \<and> d_uuid e = d_uuid d"
        and w: "w \<in> set (definition_versions s')" "v_semantic_status w = LifecycleDefault"
        and m: "d_current_default_version_uuid e = Some (v_uuid w)"
      have "d_current_default_version_uuid e = Some (v_uuid v)"
        using catalogue_okD(5) [OF ok v(1) e(1)] True v(2) e(2) by (simp add: owns_def)
      then have "v_uuid w = v_uuid v" using m by simp
      moreover have "w \<in> set (upd_where (\<lambda>w. v_uuid w = v_uuid v) (set_version_status target) (definition_versions s))"
        using w(1) dm by simp
      then obtain x where "w = (if v_uuid x = v_uuid v then set_version_status target x else x)"
        unfolding in_upd_where by blast
      ultimately have False using w(2) tgt by (auto split: if_splits)
      then show "d_current_default_version_uuid (g e) = Some (v_uuid w)" ..
    qed (simp_all add: g)
    moreover have "unambiguous (definitions s')" unfolding ds by (rule unambiguous_upd [OF un]) (simp_all add: g)
    ultimately show ?thesis by (simp add: catalogue_inv_def)
  next
    case False
    then show ?thesis using dm ok1 un by (simp add: catalogue_inv_def if_False)
  qed
  assume x: "x \<in> set (definition_versions s)"
  have "version_step x (set_version_status target x)" if "v_uuid x = v_uuid v"
    using catalogue_okD(3) [OF ok x v(1) that] allowed version_step_status(1) by blast
  then show "\<exists>w\<in>set (definition_versions s'). version_step x w" using dm
    by (simp, intro bexI [OF _ upd_where_intro [OF x]]) (auto simp: version_step_def)
qed

lemma transition_preserves:
  assumes inv: "catalogue_inv s"
    and t: "TransitionCoreModuleVersion org ref vref target e actor reason corr s = Inr (u, s')"
  shows "catalogue_inv s'"
    and "x \<in> set (definition_versions s) \<Longrightarrow> \<exists>w\<in>set (definition_versions s'). version_step x w"
proof -
  obtain d v parsed where fd: "find (module_matches org ref) (definitions s) = Some d"
    and fv: "find (version_matches org ref vref (definitions s)) (definition_versions s) = Some v"
    and cases: "v_semantic_status v = target \<and> s' = s
        \<or> v_semantic_status v \<noteq> target \<and> List.member (lifecycle_allowed (v_semantic_status v)) target
          \<and> (\<exists>s1. (if target = LifecycleDefault
                 then promote_version (scanModuleCatalogue d) (scanCoreModuleVersion (resource_type_versions s) v)
                   parsed org actor reason corr s
                 else demote_version (scanModuleCatalogue d) (scanCoreModuleVersion (resource_type_versions s) v)
                   target org s) = Inr s1
               \<and> definitions s' = definitions s1 \<and> definition_versions s' = definition_versions s1)"
    using transition_Inr [OF t] by blast
  have d: "d \<in> set (definitions s)" "module_matches org ref d" using find_in_set [OF fd] by auto
  have v: "v \<in> set (definition_versions s)" "version_matches org ref vref (definitions s) v" using find_in_set [OF fv] by auto
  have own: "owns d v" using version_module [OF _ _ d v] inv by (simp add: catalogue_inv_def)
  have org: "org = d_org_id d" using d(2) by (simp add: module_matches_def)
  have "catalogue_inv s' \<and> (\<forall>x\<in>set (definition_versions s). \<exists>w\<in>set (definition_versions s'). version_step x w)"
  proof (cases "v_semantic_status v = target")
    case True
    then have "s' = s" using cases by blast
    then show ?thesis using inv by (auto simp: version_step_def)
  next
    case False
    then obtain s1 where allowed: "List.member (lifecycle_allowed (v_semantic_status v)) target"
      and s1: "(if target = LifecycleDefault
                 then promote_version (scanModuleCatalogue d) (scanCoreModuleVersion (resource_type_versions s) v)
                   parsed (d_org_id d) actor reason corr s
                 else demote_version (scanModuleCatalogue d) (scanCoreModuleVersion (resource_type_versions s) v)
                   target (d_org_id d) s) = Inr s1"
      and eq: "definitions s' = definitions s1" "definition_versions s' = definition_versions s1"
      using cases org by blast
    have "catalogue_inv s1 \<and> (\<forall>x\<in>set (definition_versions s). \<exists>w\<in>set (definition_versions s1). version_step x w)"
      using s1 allowed promotion_ok [OF inv d(1) v(1) own] demotion_ok [OF inv v(1) own]
      by (cases "target = LifecycleDefault") simp_all
    then show ?thesis using eq by (simp add: catalogue_inv_def)
  qed
  then show "catalogue_inv s'"
    and "x \<in> set (definition_versions s) \<Longrightarrow> \<exists>w\<in>set (definition_versions s'). version_step x w" by blast+
qed

section \<open>Creation and publication\<close>

lemma resolve_keeps:
  "resolveModuleResourceTypeContract q s = Inr (v, q') \<Longrightarrow>
     \<exists>u n. q' = q\<lparr>q_ResourceTypeVersionUUID := u, q_ResourceTypeVersion := n\<rparr>"
  unfolding resolveModuleResourceTypeContract_def Let_def
  by (simp only: try_then_Inr_iff fail_if_Inr_iff) blast

lemma conformance_keeps:
  assumes "validateModuleConformance lib q s = Inr q'"
  shows "\<exists>u n. q' = q\<lparr>q_ResourceTypeVersionUUID := u, q_ResourceTypeVersion := n\<rparr>"
proof -
  obtain v where "resolveModuleResourceTypeContract q s = Inr (v, q')"
    using assms by (auto simp: validateModuleConformance_def split: option.splits)
  then show ?thesis by (rule resolve_keeps)
qed

lemma record_publication_tables [simp]:
  "definitions (record_publication q m v s) = definitions s"
  "definition_versions (record_publication q m v s) = definition_versions s"
  by (simp_all add: record_publication_def split: option.splits)

lemma semantic_status_keeps [simp]:
  "semanticStatusOrDefault (q\<lparr>q_ResourceTypeVersionUUID := u, q_ResourceTypeVersion := n\<rparr>) = semanticStatusOrDefault q"
  "semanticStatusOrDefault (q\<lparr>q_ResourceType := t\<rparr>) = semanticStatusOrDefault q"
  by (simp_all add: semanticStatusOrDefault_def)

lemma version_row_fields [simp]:
  "v_org_id (version_row q m u g) = q_OrgId q" "v_definition_id (version_row q m u g) = q_DefinitionId q"
  "v_module_uuid (version_row q m u g) = m" "v_uuid (version_row q m u g) = u"
  "v_semantic_status (version_row q m u g) = semanticStatusOrDefault q"
  by (simp_all add: version_row_def)

lemma insert_version_Inr:
  assumes "insert_version row s = Inr s'"
  shows "definitions s' = definitions s" "definition_versions s' = definition_versions s @ [row]"
    "v_uuid row \<notin> v_uuid ` set (definition_versions s)" "\<not> violates proposed_key row (definition_versions s)"
    "\<exists>d. find (\<lambda>d. d_org_id d = v_org_id row \<and> d_id d = v_definition_id row) (definitions s) = Some d"
proof -
  obtain rows where rows: "insert_row definition_versions_constraints row (definition_versions s) = Inr rows"
    and s': "s' = s\<lparr>definition_versions := rows\<rparr>" and b: "contract_bound s row"
    using assms by (auto simp: insert_version_def)
  note ins = rows [unfolded insert_row_Inr_iff definition_versions_constraints_def]
  show "definitions s' = definitions s" "definition_versions s' = definition_versions s @ [row]"
    using s' ins by simp_all
  show "v_uuid row \<notin> v_uuid ` set (definition_versions s)"
    using ins by (auto simp: violates_def list_ex_iff)
  have "proposed_key = (\<lambda>v. if v_semantic_status v = LifecycleProposed then Some [v_org_id v, v_definition_id v] else None)"
    by (rule ext) (simp add: proposed_key_def)
  then show "\<not> violates proposed_key row (definition_versions s)" using ins by simp
  show "\<exists>d. find (\<lambda>d. d_org_id d = v_org_id row \<and> d_id d = v_definition_id row) (definitions s) = Some d"
    using b by (auto simp: contract_bound_def split: option.splits)
qed

lemma create_version_Inr:
  assumes c: "CreateModuleDefinitionVersion lib request vu s = Inr (r, s')"
    and st: "semanticStatusOrDefault request \<noteq> LifecycleDefault" and inv: "catalogue_inv s"
  shows "catalogue_inv s' \<and> definitions s' = definitions s
     \<and> (\<exists>row. definition_versions s' = definition_versions s @ [row]
          \<and> v_semantic_status row = semanticStatusOrDefault request)"
proof -
  have ok: "catalogue_ok (definitions s) (definition_versions s)" and un: "unambiguous (definitions s)"
    using inv by (simp_all add: catalogue_inv_def)
  obtain m where m: "find (module_matches (q_OrgId request) (q_DefinitionId request)) (definitions s) = Some m"
    using c by (auto simp: CreateModuleDefinitionVersion_def Let_def GetModuleCatalogue_Inr)
  obtain q where q: "validateModuleConformance lib (request\<lparr>q_ResourceType := mc_ResourceType (scanModuleCatalogue m)\<rparr>) s = Inr q"
    using c m by (auto simp: CreateModuleDefinitionVersion_def Let_def GetModuleCatalogue_def)
  obtain u n where qe: "q = request\<lparr>q_ResourceType := mc_ResourceType (scanModuleCatalogue m),
      q_ResourceTypeVersionUUID := u, q_ResourceTypeVersion := n\<rparr>" using conformance_keeps [OF q] by auto
  obtain s1 where i: "insert_version (version_row q (d_uuid m) vu ''managed'') s = Inr s1"
    and eq: "definitions s' = definitions s1" "definition_versions s' = definition_versions s1"
    using c m q st
    by (auto simp: CreateModuleDefinitionVersion_def Let_def GetModuleCatalogue_def split: option.splits)
  note iv = insert_version_Inr [OF i]
  have sq: "semanticStatusOrDefault q = semanticStatusOrDefault request" unfolding qe by (simp add: semanticStatusOrDefault_def)
  obtain d where d: "find (\<lambda>d. d_org_id d = q_OrgId request \<and> d_id d = q_DefinitionId request) (definitions s) = Some d"
    using iv(5) qe by auto
  have md: "m \<in> set (definitions s)" "module_matches (q_OrgId request) (q_DefinitionId request) m"
    "d \<in> set (definitions s)" "d_org_id d = q_OrgId request" "d_id d = q_DefinitionId request"
    using find_in_set [OF m] find_in_set [OF d] by auto
  then have "module_matches (q_OrgId request) (q_DefinitionId request) d" by (simp add: module_matches_def)
  then have "m = d" by (rule module_unique [OF ok un md(1,3) md(2)])
  then have own: "owns m (version_row q (d_uuid m) vu ''managed'')" using md qe by (simp add: owns_def)
  have "catalogue_ok (definitions s) (definition_versions s @ [version_row q (d_uuid m) vu ''managed''])"
    using iv(3,4) st sq by (intro catalogue_ok_snoc_version [OF ok _ md(1) own]) auto
  then show ?thesis using eq iv un sq by (auto simp: catalogue_inv_def)
qed

lemma publish_core_Inr:
  assumes "PublishCoreModuleVersion lib request actor vu s = Inr (v, s')"
  shows "\<exists>q created. semanticStatusOrDefault q = LifecycleProposed
     \<and> CreateModuleDefinitionVersion lib q vu s = Inr (created, s')"
proof -
  obtain candidate where "ParseVersion (q_SemanticVersion request) = Inr candidate"
    using assms by (cases "ParseVersion (q_SemanticVersion request)") (auto simp: PublishCoreModuleVersion_def)
  with assms obtain created t where "CreateModuleDefinitionVersion lib
        (request\<lparr>q_VersionId := q_SemanticVersion request, q_SemanticStatus := Some LifecycleProposed,
           q_MigrationGeneration := ''managed'', q_VerificationStatus := Some VerificationUnverified,
           q_PublishedBy := Some actor, q_ResourceType := t\<rparr>) vu s = Inr (created, s')"
    by (auto simp: PublishCoreModuleVersion_def)
  then show ?thesis by (intro exI conjI) (auto simp: semanticStatusOrDefault_def)
qed

lemma publish_version_preserves:
  assumes "PublishCoreModuleVersion lib request actor vu s = Inr (v, s')" and "catalogue_inv s"
  shows "catalogue_inv s' \<and> definitions s' = definitions s
     \<and> (\<exists>row. definition_versions s' = definition_versions s @ [row] \<and> v_semantic_status row = LifecycleProposed)"
  using publish_core_Inr [OF assms(1)] create_version_Inr [OF _ _ assms(2)] by fastforce

section \<open>The other operations\<close>

lemma definitions_constraints_Inr:
  assumes "insert_row definitions_constraints d rows = Inr rows'"
  shows "rows' = rows @ [d]" "d_uuid d \<notin> d_uuid ` set rows"
    "(d_org_id d, d_id d) \<notin> (\<lambda>d. (d_org_id d, d_id d)) ` set rows"
  using assms by (auto simp: insert_row_Inr_iff definitions_constraints_def violates_def list_ex_iff)

lemma create_empty_preserves:
  assumes "CreateEmptyModule org slug name descr rtype tags new now s = Inr (m, s')"
    and "catalogue_inv s" "unambiguous (definitions s')"
  shows "catalogue_inv s' \<and> definition_versions s' = definition_versions s \<and> lifecycle_events s' = lifecycle_events s
     \<and> set (definitions s) \<subseteq> set (definitions s')"
proof -
  obtain d rows where "insert_row definitions_constraints d (definitions s) = Inr rows" "s' = s\<lparr>definitions := rows\<rparr>"
    using assms(1) by (auto simp: CreateEmptyModule_def Let_def)
  then show ?thesis
    using definitions_constraints_Inr [of d "definitions s" rows] catalogue_ok_snoc_module [of "definitions s"] assms(2,3)
    by (auto simp: catalogue_inv_def)
qed

lemma update_metadata_preserves:
  assumes "UpdateModuleCatalogueMetadata org ref name descr tags e s = Inr (m, s')" and "catalogue_inv s"
  shows "catalogue_inv s' \<and> definition_versions s' = definition_versions s \<and> lifecycle_events s' = lifecycle_events s"
proof -
  obtain P where "s' = s\<lparr>definitions := upd_where P (\<lambda>d. d\<lparr>d_display_name := name, d_description := Some descr,
      d_tags := tags, d_resource_version := d_resource_version d + 1\<rparr>) (definitions s)\<rparr>"
    using assms(1) by (auto simp: UpdateModuleCatalogueMetadata_def Let_def)
  then show ?thesis using assms(2)
    by (simp add: catalogue_inv_def catalogue_ok_modules_upd unambiguous_upd)
qed

lemma set_module_status_keeps [simp]:
  "d_uuid (set_module_status st a r n d) = d_uuid d" "d_org_id (set_module_status st a r n d) = d_org_id d"
  "d_id (set_module_status st a r n d) = d_id d"
  "d_current_default_version_uuid (set_module_status st a r n d) = d_current_default_version_uuid d"
  "d_previous_default_version_uuid (set_module_status st a r n d) = d_previous_default_version_uuid d"
  "d_resource_version (set_module_status st a r n d) = d_resource_version d + 1"
  "d_catalogue_status (set_module_status st a r n d) = st"
  by (cases st; simp)+

lemma set_status_Inr:
  assumes "SetModuleCatalogueStatus org ref target actor reason e now s = Inr (m, s')"
  shows "s' = s \<or> (\<exists>P status. definitions s' = upd_where P (set_module_status status actor (TrimSpace reason) now) (definitions s)
     \<and> definition_versions s' = definition_versions s \<and> lifecycle_events s' = lifecycle_events s)"
proof -
  obtain entry where entry: "GetModuleCatalogue org ref s = Inr entry"
    using assms by (auto simp: SetModuleCatalogueStatus_def split: option.splits)
  show ?thesis
  proof (cases "CatalogueStatus_text (mc_Status entry) = target")
    case True
    then show ?thesis using assms entry by (auto simp: SetModuleCatalogueStatus_def split: option.splits)
  next
    case False
    then obtain status where "definitions s' = upd_where (\<lambda>d. d_org_id d = org \<and> d_uuid d = mc_UUID entry)
        (set_module_status status actor (TrimSpace reason) now) (definitions s)"
      "definition_versions s' = definition_versions s" "lifecycle_events s' = lifecycle_events s"
      using assms entry by (auto simp: SetModuleCatalogueStatus_def Let_def split: option.splits)
    then show ?thesis by blast
  qed
qed

lemma set_status_preserves:
  assumes "SetModuleCatalogueStatus org ref target actor reason e now s = Inr (m, s')" and "catalogue_inv s"
  shows "catalogue_inv s' \<and> definition_versions s' = definition_versions s \<and> lifecycle_events s' = lifecycle_events s"
  using set_status_Inr [OF assms(1)]
proof (elim disjE exE conjE)
  fix P status
  assume "definitions s' = upd_where P (set_module_status status actor (TrimSpace reason) now) (definitions s)"
    "definition_versions s' = definition_versions s" "lifecycle_events s' = lifecycle_events s"
  then show ?thesis using assms(2) by (simp add: catalogue_inv_def catalogue_ok_modules_upd unambiguous_upd)
qed (use assms(2) in simp)

lemma create_definition_Inr:
  assumes "CreateModuleDefinition lib request mu vu s = Inr (r, s')"
  shows "\<exists>row version ptr. insert_row definitions_constraints row (definitions s) = Inr (definitions s @ [row])
     \<and> owns row version \<and> d_uuid row = mu \<and> v_uuid version = vu
     \<and> v_semantic_status version = semanticStatusOrDefault request
     \<and> v_uuid version \<notin> v_uuid ` set (definition_versions s) \<and> \<not> violates proposed_key version (definition_versions s)
     \<and> definition_versions s' = definition_versions s @ [version]
     \<and> (semanticStatusOrDefault request = LifecycleDefault \<longrightarrow> ptr = Some vu)
     \<and> definitions s' = definitions s @ [row\<lparr>d_current_default_version_uuid := ptr\<rparr>]"
proof -
  obtain q where q: "validateModuleConformance lib request s = Inr q"
    using assms by (auto simp: CreateModuleDefinition_def Let_def)
  have eq: "semanticStatusOrDefault q = semanticStatusOrDefault request"
    using conformance_keeps [OF q] by auto
  let ?v = "version_row q mu vu ''v0''"
  let ?mine = "\<lambda>d. d_org_id d = q_OrgId q \<and> d_id d = q_DefinitionId q"
  obtain rt row s1 rows where row: "insert_row definitions_constraints row (definitions s) = Inr rows"
    and fields: "d_org_id row = q_OrgId q" "d_id row = q_DefinitionId q" "d_uuid row = mu"
      "d_current_default_version_uuid row = None"
    and s1: "insert_version ?v (s\<lparr>definitions := rows\<rparr>) = Inr s1"
    and ds: "definitions s' = (if semanticStatusOrDefault request = LifecycleDefault
        then upd_where ?mine (\<lambda>d. d\<lparr>d_current_default_version_uuid := Some vu\<rparr>) (definitions s1) else definitions s1)"
    and vs: "definition_versions s' = definition_versions s1"
    using assms q by (auto simp: CreateModuleDefinition_def Let_def split: option.splits)
  note ins = definitions_constraints_Inr [OF row] and iv = insert_version_Inr [OF s1]
  have other: "upd_where ?mine f (definitions s) = definitions s" for f
    unfolding upd_where_def using ins(3) fields by (intro map_idI) (auto simp: image_iff)
  have upd: "upd_where ?mine f (definitions s @ [row]) = definitions s @ [f row]" for f
    using other [of f] fields by (simp add: upd_where_def)
  have same: "row\<lparr>d_current_default_version_uuid := None\<rparr> = row" using fields(4) by (cases row) simp
  have "definitions s' = definitions s @ [row\<lparr>d_current_default_version_uuid :=
      (if semanticStatusOrDefault request = LifecycleDefault then Some vu else None)\<rparr>]"
    using ds iv(1) ins(1) same by (simp add: upd)
  moreover have "owns row ?v" using fields by (simp add: owns_def)
  ultimately show ?thesis using row ins(1) iv vs eq fields
    by (intro exI [of _ row] exI [of _ ?v] exI [of _ "if semanticStatusOrDefault request = LifecycleDefault then Some vu else None"])
      simp
qed

lemma create_definition_preserves:
  assumes c: "CreateModuleDefinition lib request mu vu s = Inr (r, s')"
    and inv: "catalogue_inv s" and un: "unambiguous (definitions s')"
  shows "catalogue_inv s'"
proof -
  obtain row version ptr where row: "insert_row definitions_constraints row (definitions s) = Inr (definitions s @ [row])"
    and own: "owns row version" and fresh: "v_uuid version \<notin> v_uuid ` set (definition_versions s)"
      "\<not> violates proposed_key version (definition_versions s)"
    and vs: "definition_versions s' = definition_versions s @ [version]"
    and st: "v_semantic_status version = LifecycleDefault \<longrightarrow> ptr = Some (v_uuid version)"
    and ds: "definitions s' = definitions s @ [row\<lparr>d_current_default_version_uuid := ptr\<rparr>]"
    using create_definition_Inr [OF c] by metis
  note ins = definitions_constraints_Inr [OF row]
  let ?d = "row\<lparr>d_current_default_version_uuid := ptr\<rparr>"
  have ok: "catalogue_ok (definitions s @ [?d]) (definition_versions s)"
    using inv ins(2,3) by (intro catalogue_ok_snoc_module) (auto simp: catalogue_inv_def)
  have "catalogue_ok (definitions s @ [?d]) (definition_versions s @ [version])"
    using own fresh st by (intro catalogue_ok_snoc_version [OF ok, where d = "?d"]) (auto simp: owns_def)
  then show ?thesis using ds vs un by (simp add: catalogue_inv_def)
qed

lemma publish_stable_Inr:
  assumes "PublishStableModuleVersionSuccessor lib org ref vref e reason request actor corr vu s = Inr (r, s')"
  shows "\<exists>u s1 q v s2. TransitionCoreModuleVersion org ref u LifecycleDeprecated e actor reason (Some corr) s = Inr (v, s1)
     \<and> PublishCoreModuleVersion lib q actor vu s1 = Inr (ss_Stable r, s2)
     \<and> definitions s' = definitions s2 \<and> definition_versions s' = definition_versions s2
     \<and> map le_VersionUUID (lifecycle_events s') = map le_VersionUUID (lifecycle_events s2)"
proof -
  obtain prerelease where p: "GetCoreModuleVersion org ref vref s = Inr prerelease"
    using assms by (auto simp: PublishStableModuleVersionSuccessor_def split: option.splits)
  obtain sv where sv: "cv_LifecycleStatus prerelease = LifecycleProposed" "cv_SemanticVersion prerelease = Some sv"
    using assms p by (auto simp: PublishStableModuleVersionSuccessor_def split: option.splits if_splits)
  obtain x where x: "ParseVersion sv = Inr x" using assms p sv
    by (cases "ParseVersion sv") (auto simp: PublishStableModuleVersionSuccessor_def split: option.splits)
  obtain y where y: "ParseVersion (q_SemanticVersion request) = Inr y" using assms p sv x
    by (cases "ParseVersion (q_SemanticVersion request)")
      (auto simp: PublishStableModuleVersionSuccessor_def split: option.splits)
  obtain s1 s2 q v where t: "TransitionCoreModuleVersion org ref (cv_UUID prerelease) LifecycleDeprecated e actor reason (Some corr) s = Inr (v, s1)"
      "PublishCoreModuleVersion lib q actor vu s1 = Inr (ss_Stable r, s2)"
    and s': "s' = s2\<lparr>lifecycle_events := upd_where
                   (\<lambda>e. le_VersionUUID e = cv_UUID (ss_Stable r) \<and> le_FromStatus e = None)
                   (\<lambda>e. e\<lparr>le_CorrelationID := Some corr\<rparr>) (lifecycle_events s2)\<rparr>"
    using assms p sv x y by (auto simp: PublishStableModuleVersionSuccessor_def split: option.splits)
  then show ?thesis
    by (intro exI [of _ "cv_UUID prerelease"] exI [of _ s1] exI [of _ q] exI [of _ v] exI [of _ s2]) (simp add: map_upd_where)
qed

lemma catalogue_ok_filter:
  assumes "catalogue_ok modules versions" shows "catalogue_ok modules (filter P versions)"
proof -
  have "keys_unique k rows \<Longrightarrow> keys_unique k (filter P rows)" for k :: "_ \<Rightarrow> string list option" and rows
    by (induction rows) (auto simp: keys_unique_Cons)
  then show ?thesis using assms by (auto simp: catalogue_ok_def distinct_map_filter)
qed

lemma delete_version_Inr:
  assumes "DeleteModuleDefinitionVersion org defid vid s = Inr (u, s')"
  shows "\<exists>P. definition_versions s' = filter P (definition_versions s) \<and> definitions s' = definitions s
     \<and> lifecycle_events s' = lifecycle_events s
     \<and> (\<forall>v\<in>set (definition_versions s). v_uuid v \<in> le_VersionUUID ` set (lifecycle_events s)
          \<or> Some (v_uuid v) \<in> d_current_default_version_uuid ` set (definitions s) \<longrightarrow> P v)"
proof -
  let ?mine = "\<lambda>v. v_org_id v = org \<and> v_definition_id v = defid \<and> v_version_id v = vid"
  let ?used = "\<lambda>u. list_ex (\<lambda>v. ?mine v \<and> v_uuid v = u) (definition_versions s)"
  have s': "s' = s\<lparr>definition_versions := filter (\<lambda>v. \<not> ?mine v) (definition_versions s)\<rparr>"
    and events: "\<not> list_ex (\<lambda>e. ?used (le_VersionUUID e)) (lifecycle_events s)"
    and defs: "\<not> list_ex (\<lambda>d. (case d_current_default_version_uuid d of None \<Rightarrow> False | Some u \<Rightarrow> ?used u)) (definitions s)"
    using assms unfolding DeleteModuleDefinitionVersion_def Let_def by (auto simp: list_ex_iff)
  have "\<not> ?mine v" if v: "v \<in> set (definition_versions s)"
    and u: "v_uuid v \<in> le_VersionUUID ` set (lifecycle_events s)
      \<or> Some (v_uuid v) \<in> d_current_default_version_uuid ` set (definitions s)" for v
  proof
    assume "?mine v"
    then have "?used (v_uuid v)" using v by (auto simp: list_ex_iff)
    moreover have "\<not> ?used x" if "x \<in> le_VersionUUID ` set (lifecycle_events s)" for x
      using events that unfolding list_ex_iff [of _ "lifecycle_events s"] by blast
    moreover have "\<not> ?used x" if h: "Some x \<in> d_current_default_version_uuid ` set (definitions s)" for x
    proof -
      obtain d where "d \<in> set (definitions s)" "d_current_default_version_uuid d = Some x" using h by auto
      then show ?thesis using defs unfolding list_ex_iff [of _ "definitions s"] bex_simps by auto
    qed
    ultimately show False using u by blast
  qed
  then show ?thesis using s' by (intro exI [of _ "\<lambda>v. \<not> ?mine v"]) simp
qed

lemma delete_module_Inr:
  assumes "DeleteModuleDefinition org defid s = Inr (u, s')"
  shows "definition_versions s' = definition_versions s" "lifecycle_events s' = lifecycle_events s"
    "definitions s' = filter (\<lambda>d. \<not> (d_org_id d = org \<and> d_id d = defid)) (definitions s)"
    "v \<in> set (definition_versions s) \<Longrightarrow> \<not> (v_org_id v = org \<and> v_definition_id v = defid)"
  using assms by (auto simp: DeleteModuleDefinition_def list_ex_iff)

lemma delete_module_preserves:
  assumes "DeleteModuleDefinition org defid s = Inr (u, s')" and "catalogue_inv s"
  shows "catalogue_inv s'"
proof -
  note del = delete_module_Inr [OF assms(1)]
  have ok: "catalogue_ok (definitions s) (definition_versions s)" using assms(2) by (simp add: catalogue_inv_def)
  have "\<exists>d\<in>set (definitions s'). owns d v" if v: "v \<in> set (definition_versions s)" for v
  proof -
    obtain d where "d \<in> set (definitions s)" "owns d v" using catalogue_okD(4) [OF ok v] by blast
    then show ?thesis using del(3) del(4) [OF v] by (auto simp: owns_def)
  qed
  then have "catalogue_ok (definitions s') (definition_versions s')"
    using ok del(1,3) by (auto simp: catalogue_ok_def distinct_map_filter)
  moreover have "unambiguous (definitions s')" using assms(2) del(3) by (auto simp: catalogue_inv_def unambiguous_def)
  ultimately show ?thesis by (simp add: catalogue_inv_def)
qed

text \<open>No operation takes an event out of the log.\<close>

definition logged :: "db \<Rightarrow> uuid set" where
  "logged s = le_VersionUUID ` set (lifecycle_events s)"

lemma record_publication_logged: "logged s \<subseteq> logged (record_publication q m v s)"
  by (auto simp: logged_def record_publication_def split: option.splits)

lemma transition_logged:
  assumes "TransitionCoreModuleVersion org ref vref target e actor reason corr s = Inr (u, s')"
  shows "logged s \<subseteq> logged s'"
proof -
  obtain d v parsed where c: "s' = s \<or> (\<exists>s1 ev. (if target = LifecycleDefault
                 then promote_version (scanModuleCatalogue d) (scanCoreModuleVersion (resource_type_versions s) v)
                   parsed org actor reason corr s
                 else demote_version (scanModuleCatalogue d) (scanCoreModuleVersion (resource_type_versions s) v)
                   target org s) = Inr s1 \<and> lifecycle_events s' = lifecycle_events s1 @ [ev])"
    using transition_Inr [OF assms] by blast
  have "logged s \<subseteq> logged s1" if h: "promote_version m cv parsed org actor reason corr s = Inr s1" for m cv s1
    using h by (auto simp: promote_version_def deprecate_previous_def logged_def Let_def split: option.splits if_splits)
  moreover have "logged s \<subseteq> logged s1" if h: "demote_version m cv target org s = Inr s1" for m cv s1
    using h by (auto simp: demote_version_def logged_def Let_def split: if_splits)
  ultimately have step: "s' = s \<or> (\<exists>s1 ev. logged s \<subseteq> logged s1 \<and> lifecycle_events s' = lifecycle_events s1 @ [ev])"
    using c by (cases "target = LifecycleDefault") (simp, blast)+
  then show ?thesis
  proof (elim disjE exE conjE)
    fix s1 ev assume "logged s \<subseteq> logged s1" "lifecycle_events s' = lifecycle_events s1 @ [ev]"
    then show ?thesis unfolding logged_def by auto
  qed simp
qed

lemma publish_version_logged:
  assumes "PublishCoreModuleVersion lib request actor vu s = Inr (v, s')"
  shows "logged s \<subseteq> logged s'"
proof -
  have ins: "insert_version row t = Inr t' \<Longrightarrow> logged t' = logged t" for row t t'
    by (auto simp: insert_version_def logged_def)
  obtain q created where q: "semanticStatusOrDefault q = LifecycleProposed"
    "CreateModuleDefinitionVersion lib q vu s = Inr (created, s')" using publish_core_Inr [OF assms] by blast
  then obtain row s1 r m where "insert_version row s = Inr s1" "s' = record_publication r m vu s1"
    by (auto simp: CreateModuleDefinitionVersion_def Let_def split: option.splits)
  then show ?thesis using ins record_publication_logged by blast
qed

lemma create_definition_logged:
  assumes "CreateModuleDefinition lib request mu vu s = Inr (r, s')"
  shows "logged s \<subseteq> logged s'"
proof -
  have ins: "insert_version row t = Inr t' \<Longrightarrow> lifecycle_events t' = lifecycle_events t" for row t t'
    by (auto simp: insert_version_def)
  obtain row rows s1 q D where i: "insert_version row (s\<lparr>definitions := rows\<rparr>) = Inr s1"
    and s': "s' = record_publication q mu vu (s1\<lparr>definitions := D\<rparr>)"
  proof (cases "semanticStatusOrDefault request = LifecycleDefault")
    case True
    then show ?thesis using assms that by (auto simp: CreateModuleDefinition_def Let_def split: option.splits)
  next
    case False
    then obtain row rows s1 q where "insert_version row (s\<lparr>definitions := rows\<rparr>) = Inr s1"
      "s' = record_publication q mu vu s1"
      using assms by (auto simp: CreateModuleDefinition_def Let_def split: option.splits)
    then show ?thesis using that [of row rows s1 q "definitions s1"] by simp
  qed
  have "logged s = logged (s1\<lparr>definitions := D\<rparr>)" using ins [OF i] by (simp add: logged_def)
  then show ?thesis using s' record_publication_logged by blast
qed

section \<open>Steps and runs\<close>

inductive catalogue_step :: "db \<Rightarrow> db \<Rightarrow> bool" where
  step_frame: "definitions s' = definitions s \<Longrightarrow> definition_versions s' = definition_versions s \<Longrightarrow>
    lifecycle_events s' = lifecycle_events s \<Longrightarrow> catalogue_step s s'"
| step_create_empty: "CreateEmptyModule org slug name descr rtype tags new now s = Inr (m, s') \<Longrightarrow>
    unambiguous (definitions s') \<Longrightarrow> catalogue_step s s'"
| step_create: "CreateModuleDefinition lib request mu vu s = Inr (r, s') \<Longrightarrow>
    unambiguous (definitions s') \<Longrightarrow> catalogue_step s s'"
| step_metadata: "UpdateModuleCatalogueMetadata org ref name descr tags e s = Inr (m, s') \<Longrightarrow> catalogue_step s s'"
| step_status: "SetModuleCatalogueStatus org ref status actor reason e now s = Inr (m, s') \<Longrightarrow> catalogue_step s s'"
| step_publish: "PublishCoreModuleVersion lib request actor vu s = Inr (v, s') \<Longrightarrow> catalogue_step s s'"
| step_transition: "TransitionCoreModuleVersion org ref vref target e actor reason corr s = Inr (u, s') \<Longrightarrow>
    catalogue_step s s'"
| step_stable: "PublishStableModuleVersionSuccessor lib org ref vref e reason request actor c vu s = Inr (r', s') \<Longrightarrow>
    catalogue_step s s'"
| step_delete_version: "DeleteModuleDefinitionVersion org defid vid s = Inr (u', s') \<Longrightarrow> catalogue_step s s'"
| step_delete: "DeleteModuleDefinition org defid s = Inr (u', s') \<Longrightarrow> catalogue_step s s'"

abbreviation catalogue_run :: "db \<Rightarrow> db \<Rightarrow> bool" where
  "catalogue_run \<equiv> catalogue_step\<^sup>*\<^sup>*"

text \<open>What one operation does: the invariant, the versions, the log.\<close>

definition keeps_history :: "db \<Rightarrow> db \<Rightarrow> bool" where
  "keeps_history s s' \<longleftrightarrow>
     catalogue_inv s' \<and> logged s \<subseteq> logged s'
     \<and> (\<forall>v\<in>set (definition_versions s). v_uuid v \<in> logged s \<longrightarrow> (\<exists>w\<in>set (definition_versions s'). version_step v w))"

lemma keeps_historyI:
  "catalogue_inv s' \<Longrightarrow> lifecycle_events s' = lifecycle_events s \<Longrightarrow>
   definition_versions s' = definition_versions s \<Longrightarrow> keeps_history s s'"
  by (auto simp: keeps_history_def logged_def version_step_def)

lemma stable_preserves:
  assumes "PublishStableModuleVersionSuccessor lib org ref vref e reason request actor c vu s = Inr (r, s')"
    and "catalogue_inv s"
  shows "keeps_history s s'"
proof -
  obtain u s1 q v s2 where
    t: "TransitionCoreModuleVersion org ref u LifecycleDeprecated e actor reason (Some c) s = Inr (v, s1)"
    and p: "PublishCoreModuleVersion lib q actor vu s1 = Inr (ss_Stable r, s2)"
    and eq: "definitions s' = definitions s2" "definition_versions s' = definition_versions s2"
      "map le_VersionUUID (lifecycle_events s') = map le_VersionUUID (lifecycle_events s2)"
    using publish_stable_Inr [OF assms(1)] by blast
  note tp = transition_preserves [OF assms(2) t]
  note pp = publish_version_preserves [OF p tp(1)]
  have "logged s' = logged s2" using arg_cong [OF eq(3), of set] by (simp add: logged_def)
  then have "logged s \<subseteq> logged s'" using transition_logged [OF t] publish_version_logged [OF p] by blast
  moreover have "catalogue_inv s'" using pp eq(1,2) by (metis catalogue_inv_def)
  moreover have "set (definition_versions s1) \<subseteq> set (definition_versions s')" using pp eq by auto
  ultimately show ?thesis using tp(2) unfolding keeps_history_def by blast
qed

lemma catalogue_step_keeps:
  assumes "catalogue_step s s'" and inv: "catalogue_inv s"
  shows "keeps_history s s'"
  using assms(1)
proof cases
  case step_frame
  then show ?thesis using inv by (intro keeps_historyI) (simp_all add: catalogue_inv_def)
next
  case step_create_empty
  then show ?thesis using create_empty_preserves [OF _ inv] keeps_historyI by blast
next
  case (step_create lib request mu vu r)
  have "set (definition_versions s) \<subseteq> set (definition_versions s')"
    using create_definition_Inr [OF step_create(1)] by auto
  then show ?thesis
    using create_definition_preserves [OF step_create(1) inv step_create(2)] create_definition_logged [OF step_create(1)]
    unfolding keeps_history_def version_step_def by blast
next
  case step_metadata
  then show ?thesis using update_metadata_preserves [OF _ inv] keeps_historyI by blast
next
  case step_status
  then show ?thesis using set_status_preserves [OF _ inv] keeps_historyI by blast
next
  case (step_publish lib request actor vu v)
  note p = publish_version_preserves [OF step_publish inv]
  then have "set (definition_versions s) \<subseteq> set (definition_versions s')" by auto
  then show ?thesis using p publish_version_logged [OF step_publish] unfolding keeps_history_def version_step_def by blast
next
  case step_transition
  then show ?thesis
    using transition_preserves [OF inv step_transition] transition_logged [OF step_transition]
    unfolding keeps_history_def by blast
next
  case step_stable
  then show ?thesis using stable_preserves inv by blast
next
  case step_delete_version
  obtain P where del: "definition_versions s' = filter P (definition_versions s)" "definitions s' = definitions s"
     "lifecycle_events s' = lifecycle_events s"
     "\<forall>v\<in>set (definition_versions s). v_uuid v \<in> logged s \<longrightarrow> P v"
    using delete_version_Inr [OF step_delete_version] unfolding logged_def by blast
  have "catalogue_inv s'" using inv catalogue_ok_filter del(1,2) by (simp add: catalogue_inv_def)
  then show ?thesis using del unfolding keeps_history_def logged_def version_step_def by auto
next
  case step_delete
  then show ?thesis using delete_module_preserves [OF step_delete inv] delete_module_Inr [OF step_delete] keeps_historyI by blast
qed

section \<open>A default that is no default\<close>

text \<open>
  The module points to a version that is not Default. The handler refuses to promote any version of
  such a module, since it cannot deprecate the version it points to, and only the withdrawal of a
  Default as defective clears the pointer.
\<close>

definition stale_default :: "uuid \<Rightarrow> db \<Rightarrow> bool" where
  "stale_default m s \<longleftrightarrow>
     (\<exists>d\<in>set (definitions s). \<exists>v\<in>set (definition_versions s). d_uuid d = m \<and> owns d v
        \<and> d_current_default_version_uuid d = Some (v_uuid v) \<and> v_semantic_status v \<noteq> LifecycleDefault)"

lemma stale_no_default:
  assumes "catalogue_inv s" "stale_default m s" "w \<in> set (definition_versions s)" "v_module_uuid w = m"
  shows "v_semantic_status w \<noteq> LifecycleDefault"
proof
  assume w: "v_semantic_status w = LifecycleDefault"
  have ok: "catalogue_ok (definitions s) (definition_versions s)" using assms(1) by (simp add: catalogue_inv_def)
  obtain d v where d: "d \<in> set (definitions s)" "d_uuid d = m"
    and v: "v \<in> set (definition_versions s)" "d_current_default_version_uuid d = Some (v_uuid v)"
      "v_semantic_status v \<noteq> LifecycleDefault" using assms(2) unfolding stale_default_def by blast
  have "v_uuid w = v_uuid v" using catalogue_okD(5) [OF ok assms(3) d(1) w] d(2) v(2) assms(4) by simp
  then show False using catalogue_okD(3) [OF ok assms(3) v(1)] w v(3) by blast
qed

lemma stale_mono:
  assumes "stale_default m s" "set (definition_versions s) \<subseteq> set (definition_versions s')"
    and "\<And>d. d \<in> set (definitions s) \<Longrightarrow> \<exists>e\<in>set (definitions s'). d_uuid e = d_uuid d \<and> d_org_id e = d_org_id d
      \<and> d_id e = d_id d \<and> d_current_default_version_uuid e = d_current_default_version_uuid d"
  shows "stale_default m s'"
proof -
  obtain d v where d: "d \<in> set (definitions s)" "d_uuid d = m" "owns d v"
    and v: "v \<in> set (definition_versions s)" "d_current_default_version_uuid d = Some (v_uuid v)"
      "v_semantic_status v \<noteq> LifecycleDefault" using assms(1) unfolding stale_default_def by blast
  obtain e where e: "e \<in> set (definitions s')" "d_uuid e = d_uuid d" "d_org_id e = d_org_id d"
      "d_id e = d_id d" "d_current_default_version_uuid e = d_current_default_version_uuid d"
    using assms(3) [OF d(1)] by blast
  have "v \<in> set (definition_versions s')" using v(1) assms(2) by blast
  moreover have "owns e v" using d(3) e by (simp add: owns_def)
  ultimately show ?thesis unfolding stale_default_def using d e v by (intro bexI [of _ e] bexI [of _ v]) simp_all
qed

lemma stale_upd:
  assumes "stale_default m s" "definition_versions s' = definition_versions s" "definitions s' = upd_where P f (definitions s)"
    and "\<And>d. d_uuid (f d) = d_uuid d" "\<And>d. d_org_id (f d) = d_org_id d" "\<And>d. d_id (f d) = d_id d"
      "\<And>d. d_current_default_version_uuid (f d) = d_current_default_version_uuid d"
  shows "stale_default m s'"
proof (rule stale_mono [OF assms(1)])
  fix d assume "d \<in> set (definitions s)"
  then show "\<exists>e\<in>set (definitions s'). d_uuid e = d_uuid d \<and> d_org_id e = d_org_id d
      \<and> d_id e = d_id d \<and> d_current_default_version_uuid e = d_current_default_version_uuid d"
    unfolding assms(3) using assms(4-7) by (intro bexI [OF _ upd_where_intro [of d]]) simp_all
qed (simp add: assms(2))

lemma stale_promotion:
  assumes inv: "catalogue_inv s" and st: "stale_default m s" and x: "x \<in> set (definition_versions s)" "owns d x"
    and d: "d \<in> set (definitions s)"
    and p: "promote_version (scanModuleCatalogue d) (scanCoreModuleVersion rs x) parsed (d_org_id d) actor reason corr s = Inr s'"
  shows "stale_default m s'" "d_uuid d \<noteq> m"
proof -
  have ok: "catalogue_ok (definitions s) (definition_versions s)" using inv by (simp add: catalogue_inv_def)
  obtain e v where e: "e \<in> set (definitions s)" "d_uuid e = m" "owns e v"
    and v: "v \<in> set (definition_versions s)" "d_current_default_version_uuid e = Some (v_uuid v)"
      "v_semantic_status v \<noteq> LifecycleDefault" using st unfolding stale_default_def by blast
  obtain versions g generation
    where dep: "deprecated_previous d (definition_versions s) versions"
    and vs: "definition_versions s' = upd_where (\<lambda>w. v_uuid w = v_uuid x)
      (\<lambda>w. (set_version_status LifecycleDefault w)\<lparr>v_migration_generation := generation\<rparr>) versions"
    and ds: "definitions s' = upd_where (\<lambda>y. d_org_id y = d_org_id d \<and> d_uuid y = d_uuid d) g (definitions s)"
    using promote_Inr [OF p] by blast
  show other: "d_uuid d \<noteq> m"
  proof
    assume "d_uuid d = m"
    then have "d = e" using catalogue_okD(1) [OF ok d e(1)] e(2) by simp
    then obtain w where "w \<in> set (definition_versions s)" "v_uuid w = v_uuid v" "v_semantic_status w = LifecycleDefault"
      using dep v(2) by (auto simp: deprecated_previous_def list_ex_iff)
    then show False using catalogue_okD(3) [OF ok _ v(1)] v(3) by blast
  qed
  have "v_uuid v \<noteq> v_uuid x" using catalogue_okD(3) [OF ok v(1) x(1)] e x(2) other by (auto simp: owns_def)
  moreover have "v \<in> set versions" using deprecated_previous_ok(3) [OF ok d dep v(1,3)] .
  ultimately have "v \<in> set (definition_versions s')" unfolding vs in_upd_where by (intro bexI [of _ v]) simp
  moreover have "e \<in> set (definitions s')" unfolding ds in_upd_where using e other by (intro bexI [of _ e]) auto
  ultimately show "stale_default m s'" using e v unfolding stale_default_def by blast
qed

lemma stale_demotion:
  assumes inv: "catalogue_inv s" and st: "stale_default m s" and x: "x \<in> set (definition_versions s)" "owns d x"
    and d: "d \<in> set (definitions s)" and target: "target \<noteq> LifecycleDefault"
    and p: "demote_version (scanModuleCatalogue d) (scanCoreModuleVersion rs x) target (d_org_id d) s = Inr s'"
  shows "stale_default m s'"
proof -
  obtain e v where e: "e \<in> set (definitions s)" "d_uuid e = m" "owns e v"
    and v: "v \<in> set (definition_versions s)" "d_current_default_version_uuid e = Some (v_uuid v)"
      "v_semantic_status v \<noteq> LifecycleDefault" using st unfolding stale_default_def by blast
  note dm = demote_Inr [OF p]
  let ?v = "if v_uuid v = v_uuid x then set_version_status target v else v"
  have "?v \<in> set (definition_versions s')" unfolding conjunct1 [OF dm]
    by (rule upd_where_intro [OF v(1), of "\<lambda>w. v_uuid w = v_uuid x" "set_version_status target"])
  moreover have "owns e ?v" "v_uuid ?v = v_uuid v" "v_semantic_status ?v \<noteq> LifecycleDefault"
    using e(3) v(3) target by (auto simp: owns_def)
  moreover have "e \<in> set (definitions s')"
  proof (cases "v_semantic_status x = LifecycleDefault \<and> target = LifecycleDefective")
    case True
    then have "d_uuid d \<noteq> m" using stale_no_default [OF inv st x(1)] x(2) by (auto simp: owns_def)
    moreover obtain g where ds: "definitions s' = upd_where (\<lambda>y. d_org_id y = d_org_id d \<and> d_uuid y = d_uuid d) g (definitions s)"
      using dm True by auto
    ultimately show ?thesis using e unfolding ds in_upd_where by (intro bexI [of _ e]) auto
  next
    case False
    then show ?thesis using dm e by (simp add: if_False)
  qed
  ultimately show ?thesis using e v(2) unfolding stale_default_def by metis
qed

lemma stale_transition:
  assumes inv: "catalogue_inv s" and st: "stale_default m s"
    and t: "TransitionCoreModuleVersion org ref vref target e actor reason corr s = Inr (u, s')"
  shows "stale_default m s'"
proof -
  obtain d v parsed where fd: "find (module_matches org ref) (definitions s) = Some d"
    and fv: "find (version_matches org ref vref (definitions s)) (definition_versions s) = Some v"
    and cases: "s' = s \<or> (\<exists>s1. (if target = LifecycleDefault
                 then promote_version (scanModuleCatalogue d) (scanCoreModuleVersion (resource_type_versions s) v)
                   parsed org actor reason corr s
                 else demote_version (scanModuleCatalogue d) (scanCoreModuleVersion (resource_type_versions s) v)
                   target org s) = Inr s1
               \<and> definitions s' = definitions s1 \<and> definition_versions s' = definition_versions s1)"
    using transition_Inr [OF t] by blast
  have d: "d \<in> set (definitions s)" "module_matches org ref d" using find_in_set [OF fd] by auto
  have v: "v \<in> set (definition_versions s)" "version_matches org ref vref (definitions s) v" using find_in_set [OF fv] by auto
  have own: "owns d v" using version_module [OF _ _ d v] inv by (simp add: catalogue_inv_def)
  have org: "org = d_org_id d" using d(2) by (simp add: module_matches_def)
  have cong: "stale_default m s1 \<Longrightarrow> definitions s' = definitions s1 \<Longrightarrow>
      definition_versions s' = definition_versions s1 \<Longrightarrow> stale_default m s'" for s1
    by (simp add: stale_default_def)
  show ?thesis
  proof (cases "target = LifecycleDefault")
    case True
    with cases stale_promotion(1) [OF inv st v(1) own d(1)] cong st show ?thesis unfolding org by metis
  next
    case False
    with cases stale_demotion [OF inv st v(1) own d(1) False] cong st show ?thesis unfolding org by metis
  qed
qed

lemma stale_step:
  assumes "catalogue_step s s'" and inv: "catalogue_inv s" and st: "stale_default m s"
  shows "stale_default m s'"
  using assms(1)
proof cases
  case step_frame
  then show ?thesis using st by (simp add: stale_default_def)
next
  case step_create_empty
  note c = create_empty_preserves [OF step_create_empty(1) inv step_create_empty(2)]
  show ?thesis by (rule stale_mono [OF st]) (use c in auto)
next
  case step_create
  then show ?thesis using create_definition_Inr [OF step_create(1)] by (intro stale_mono [OF st]) auto
next
  case (step_metadata org ref name descr tags e md)
  then show ?thesis by (auto simp: UpdateModuleCatalogueMetadata_def Let_def intro: stale_upd [OF st])
next
  case step_status
  from set_status_Inr [OF this] show ?thesis using st by (auto intro: stale_upd [OF st])
next
  case step_publish
  then show ?thesis using publish_version_preserves [OF step_publish inv] by (intro stale_mono [OF st]) auto
next
  case step_transition
  then show ?thesis using stale_transition [OF inv st] by blast
next
  case (step_stable lib org ref vref e reason request actor c vu r)
  obtain u s1 q v s2 where
    t: "TransitionCoreModuleVersion org ref u LifecycleDeprecated e actor reason (Some c) s = Inr (v, s1)"
    and p: "PublishCoreModuleVersion lib q actor vu s1 = Inr (ss_Stable r, s2)"
    and eq: "definitions s' = definitions s2" "definition_versions s' = definition_versions s2"
    using publish_stable_Inr [OF step_stable] by blast
  have inv1: "catalogue_inv s1" by (rule transition_preserves [OF inv t])
  show ?thesis using publish_version_preserves [OF p inv1] eq
    by (intro stale_mono [OF stale_transition [OF inv st t]]) auto
next
  case step_delete_version
  obtain P where del: "definition_versions s' = filter P (definition_versions s)" "definitions s' = definitions s"
     "\<forall>v\<in>set (definition_versions s). Some (v_uuid v) \<in> d_current_default_version_uuid ` set (definitions s) \<longrightarrow> P v"
    using delete_version_Inr [OF step_delete_version] by blast
  have "v \<in> set (definition_versions s')" if "v \<in> set (definition_versions s)" "d \<in> set (definitions s)"
    "d_current_default_version_uuid d = Some (v_uuid v)" for d v
    using that del by (auto simp: image_iff) metis
  then show ?thesis using st del(2) unfolding stale_default_def by metis
next
  case step_delete
  note del = delete_module_Inr [OF step_delete]
  have "d \<in> set (definitions s')" if "d \<in> set (definitions s)" "owns d v" "v \<in> set (definition_versions s)" for d v
    using that del(4) [OF that(3)] unfolding del(3) by (simp add: owns_def)
  then show ?thesis using st unfolding stale_default_def del(1) by blast
qed

lemma catalogue_run_invariants:
  assumes "catalogue_run s s'" "catalogue_inv s"
  shows "catalogue_inv s'" "stale_default m s \<Longrightarrow> stale_default m s'"
proof -
  show inv: "catalogue_inv s'" using assms
    by (induction rule: rtranclp_induct) (use catalogue_step_keeps keeps_history_def in blast)+
  assume st: "stale_default m s"
  have "catalogue_inv s' \<and> stale_default m s'" using assms
  proof (induction rule: rtranclp_induct)
    case base
    then show ?case using st by blast
  next
    case (step t u)
    then show ?case using catalogue_step_keeps [OF step(2)] stale_step [OF step(2)] by (auto simp: keeps_history_def)
  qed
  then show "stale_default m s'" by blast
qed

section \<open>A catalogue\<close>

definition example_content :: module_content where
  "example_content = \<lparr>c_Description = None, c_ModuleSource = ''git'', c_ModuleSourceCode = None, c_ModuleInputs = None,
     c_OutputSchema = None, c_ModuleParams = None, c_Dependencies = None, c_CoProvisioned = None,
     c_ProviderMapping = [], c_ArtifactDigest = [], c_SourceRevision = [], c_ReleaseNotes = None\<rparr>"

definition example_version :: "uuid \<Rightarrow> string \<Rightarrow> LifecycleStatus \<Rightarrow> definition_versions_row" where
  "example_version u sv status = \<lparr>v_org_id = ''acme'', v_definition_id = ''db'', v_module_uuid = ''m1'', v_version_id = sv,
     v_uuid = u, v_semantic_version = Some sv, v_migration_generation = ''managed'',
     v_verification_status = VerificationUnverified, v_semantic_status = status, v_resource_version = 1,
     v_published_by = Some ''alice'', v_created_at = 0, v_resource_type_version_uuid = ''v1'', v_provider_values = [],
     v_content = example_content\<rparr>"

definition example_event :: "uuid \<Rightarrow> lifecycle_event" where
  "example_event u = \<lparr>le_OrgID = ''acme'', le_ModuleUUID = ''m1'', le_VersionUUID = u, le_FromStatus = None,
     le_ToStatus = LifecycleProposed, le_ResourceVersion = 1, le_Actor = ''alice'', le_Reason = None,
     le_CorrelationID = None, le_Payload = JObj []\<rparr>"

definition example_catalogue_db :: db where
  "example_catalogue_db = example_types_db\<lparr>
     definitions := [\<lparr>d_org_id = ''acme'', d_uuid = ''m1'', d_id = ''db'', d_display_name = ''db'', d_description = None,
       d_resource_type = ''bucket'', d_resource_type_uuid = ''t1'', d_tags = [], d_catalogue_status = CatalogueActive,
       d_resource_version = 1, d_latest_version_id = Some ''1.0.0'', d_current_default_version_uuid = Some ''h1'',
       d_previous_default_version_uuid = None, d_managed_default_generation = 1, d_created_at = 0,
       d_archived_at = None, d_archived_by = None, d_archive_reason = None\<rparr>],
     definition_versions := [example_version ''h1'' ''1.0.0'' LifecycleDefault, example_version ''h2'' ''1.1.0'' LifecycleProposed],
     lifecycle_events := [example_event ''h1'', example_event ''h2'']\<rparr>"

lemma example_catalogue_inv: "catalogue_inv example_catalogue_db"
  by (simp add: catalogue_inv_def catalogue_ok_def unambiguous_def example_catalogue_db_def example_version_def
      owns_def keys_unique_def proposed_key_def)

lemmas catalogue_eval =
  TransitionCoreModuleVersion_def GetModuleCatalogue_def GetCoreModuleVersion_def module_matches_def version_matches_def
  in_module_def scanModuleCatalogue_def scanCoreModuleVersion_def example_catalogue_db_def example_version_def
  ValidateLifecycleTransition_def promote_version_def deprecate_previous_def demote_version_def set_version_status_def
  managedDefaultLineageHead_def check_lineage_def ValidatePublicationVersion_def update_rows_def
  definition_versions_constraints_def keys_unique_def

lemma example_parse:
  "ParseVersion ''1.0.0'' = Inr ((version_of 1 0 0 [])\<lparr>raw := ''1.0.0''\<rparr>)"
  "ParseVersion ''1.1.0'' = Inr ((version_of 1 1 0 [])\<lparr>raw := ''1.1.0''\<rparr>)"
  by (simp_all add: semver_eval version_of_def)

lemma example_compare:
  "Version_Compare ((version_of 1 1 0 [])\<lparr>raw := ''1.1.0''\<rparr>) ((version_of 1 0 0 [])\<lparr>raw := ''1.0.0''\<rparr>) = 1"
  by (simp add: semver_eval version_of_def)

lemma example_reason: "RequireTransitionReason ''ship'' = None"
  using TrimSpace_plain [of "''ship''"] by (simp add: less_eq_char_def)

lemma example_promotion:
  "\<exists>u s'. TransitionCoreModuleVersion ''acme'' ''db'' ''1.1.0'' LifecycleDefault 1 ''alice'' ''ship'' None example_catalogue_db
      = Inr (u, s') \<and> map v_semantic_status (definition_versions s') = [LifecycleDeprecated, LifecycleDefault]"
  by (simp add: catalogue_eval example_parse example_compare example_reason Let_def) (simp add: version_of_def)

lemma example_deprecation:
  "\<exists>u s'. TransitionCoreModuleVersion ''acme'' ''db'' ''1.0.0'' LifecycleDeprecated 1 ''alice'' ''ship'' None example_catalogue_db
      = Inr (u, s')"
  by (simp add: catalogue_eval example_parse example_reason Let_def)

section \<open>Properties\<close>

text \<open>
  C1. After any sequence of catalogue operations a module has at most one Default version, which is
  the one its catalogue entry points to, and at most one Proposed version, and every version belongs to
  a module of the catalogue.
\<close>

theorem one_default_one_proposed:
  assumes "catalogue_run s s'" "catalogue_inv s" "v \<in> set (definition_versions s')"
  shows "\<exists>d\<in>set (definitions s'). owns d v
    \<and> (v_semantic_status v = LifecycleDefault \<longrightarrow> d_current_default_version_uuid d = Some (v_uuid v))
    \<and> (\<forall>w\<in>set (definition_versions s'). owns d w \<longrightarrow> v_semantic_status w = v_semantic_status v \<longrightarrow>
         v_semantic_status v = LifecycleDefault \<or> v_semantic_status v = LifecycleProposed \<longrightarrow> w = v)"
proof -
  have ok: "catalogue_ok (definitions s') (definition_versions s')"
    using catalogue_run_invariants(1) [OF assms(1,2)] by (simp add: catalogue_inv_def)
  obtain d where d: "d \<in> set (definitions s')" "owns d v" using catalogue_okD(4) [OF ok assms(3)] by blast
  have ptr: "d_current_default_version_uuid d = Some (v_uuid w)"
    if "w \<in> set (definition_versions s')" "owns d w" "v_semantic_status w = LifecycleDefault" for w
    using catalogue_okD(5) [OF ok that(1) d(1) that(3)] that(2) by (simp add: owns_def)
  have "w = v" if w: "w \<in> set (definition_versions s')" "owns d w" "v_semantic_status w = v_semantic_status v"
    "v_semantic_status v = LifecycleDefault \<or> v_semantic_status v = LifecycleProposed" for w
    using w(4)
  proof
    assume "v_semantic_status v = LifecycleDefault"
    then have "v_uuid w = v_uuid v" using ptr [OF w(1,2)] ptr [OF assms(3) d(2)] w(3) by simp
    then show ?thesis by (rule catalogue_okD(3) [OF ok w(1) assms(3)])
  next
    assume "v_semantic_status v = LifecycleProposed"
    then have "proposed_key w = Some [d_org_id d, d_id d]" "proposed_key v = Some [d_org_id d, d_id d]"
      using w d(2) by (simp_all add: proposed_key_def owns_def)
    then show ?thesis by (rule keys_uniqueD [OF catalogue_okD(6) [OF ok] w(1) assms(3)])
  qed
  then show ?thesis using d ptr [OF assms(3) d(2)] by blast
qed

theorem one_default_one_proposed_witness:
  "\<exists>u s'. TransitionCoreModuleVersion ''acme'' ''db'' ''1.1.0'' LifecycleDefault 1 ''alice'' ''ship'' None example_catalogue_db
      = Inr (u, s') \<and> (\<exists>v\<in>set (definition_versions s'). \<exists>d\<in>set (definitions s').
        v_semantic_status v = LifecycleDefault \<and> d_current_default_version_uuid d = Some (v_uuid v))"
proof -
  obtain u s' where t: "TransitionCoreModuleVersion ''acme'' ''db'' ''1.1.0'' LifecycleDefault 1 ''alice'' ''ship'' None
      example_catalogue_db = Inr (u, s')"
    and st: "map v_semantic_status (definition_versions s') = [LifecycleDeprecated, LifecycleDefault]"
    using example_promotion by (elim exE conjE)
  have "LifecycleDefault \<in> v_semantic_status ` set (definition_versions s')"
    using arg_cong [OF st, of set] by (simp add: insert_commute)
  then obtain v where v: "v \<in> set (definition_versions s')" "v_semantic_status v = LifecycleDefault" by auto
  have "catalogue_run example_catalogue_db s'" using step_transition [OF t] by (rule r_into_rtranclp)
  from one_default_one_proposed [OF this example_catalogue_inv v(1)] t v show ?thesis by blast
qed

text \<open>A path of allowed transitions of a given length.\<close>

fun lifecycle_path :: "nat \<Rightarrow> LifecycleStatus \<Rightarrow> LifecycleStatus \<Rightarrow> bool" where
  "lifecycle_path 0 a b \<longleftrightarrow> a = b"
| "lifecycle_path (Suc n) a b \<longleftrightarrow> (\<exists>c\<in>set (lifecycle_allowed a). lifecycle_path n c b)"

lemma lifecycle_path_snoc: "lifecycle_path n a b \<Longrightarrow> c \<in> set (lifecycle_allowed b) \<Longrightarrow> lifecycle_path (Suc n) a c"
proof (induction n arbitrary: a)
  case (Suc n)
  then obtain x where "x \<in> set (lifecycle_allowed a)" "lifecycle_path n x b" by auto
  with Suc.IH [of x] Suc.prems(2) show ?case by auto
qed auto

text \<open>
  C2. Once a version has an entry in the lifecycle log it is never removed, and after any sequence of
  catalogue operations its identity, semantic version, author, contract binding, provider bindings and
  content are what they were; its revision has gone up by the number of transitions it made, each of
  which the lifecycle allows, so that a Defective version never changes again.
\<close>

theorem version_history:
  assumes "catalogue_run s s'" "catalogue_inv s" "v \<in> set (definition_versions s)" "v_uuid v \<in> logged s"
  shows "\<exists>w\<in>set (definition_versions s'). \<exists>n. version_frozen v w \<and> v_resource_version w = v_resource_version v + int n
    \<and> lifecycle_path n (v_semantic_status v) (v_semantic_status w) \<and> (v_semantic_status v = LifecycleDefective \<longrightarrow> n = 0)"
proof -
  have "\<exists>w\<in>set (definition_versions s'). v_uuid w \<in> logged s' \<and> (\<exists>n. version_frozen v w
      \<and> v_resource_version w = v_resource_version v + int n
      \<and> lifecycle_path n (v_semantic_status v) (v_semantic_status w))"
    using assms(1)
  proof (induction rule: rtranclp_induct)
    case base
    then show ?case using assms(3,4) by (intro bexI [of _ v] conjI exI [of _ 0]) (simp_all add: version_frozen_def)
  next
    case (step t u)
    then obtain w n where w: "w \<in> set (definition_versions t)" "v_uuid w \<in> logged t" "version_frozen v w"
      "v_resource_version w = v_resource_version v + int n" "lifecycle_path n (v_semantic_status v) (v_semantic_status w)"
      by blast
    have "keeps_history t u"
      using catalogue_step_keeps [OF step.hyps(2)] catalogue_run_invariants(1) [OF step.hyps(1) assms(2)] by blast
    then obtain x where x: "x \<in> set (definition_versions u)" "version_step w x" "logged t \<subseteq> logged u"
      using w(1,2) unfolding keeps_history_def by blast
    show ?case
    proof (cases "x = w")
      case True
      then show ?thesis using w x by blast
    next
      case False
      then have s: "version_frozen w x" "v_resource_version x = v_resource_version w + 1"
        "v_semantic_status x \<in> set (lifecycle_allowed (v_semantic_status w))"
        using x(2) by (auto simp: version_step_def)
      have "v_uuid x \<in> logged u" using s(1) w(2) x(3) by (auto simp: version_frozen_def)
      moreover have "version_frozen v x" using s(1) w(3) by (simp add: version_frozen_def)
      ultimately show ?thesis using lifecycle_path_snoc [OF w(5) s(3)] s(2) w(4) x(1)
        by (intro bexI [of _ x] conjI exI [of _ "Suc n"]) simp_all
    qed
  qed
  then obtain w n where w: "w \<in> set (definition_versions s')" "version_frozen v w"
    "v_resource_version w = v_resource_version v + int n" "lifecycle_path n (v_semantic_status v) (v_semantic_status w)" by blast
  moreover have "v_semantic_status v = LifecycleDefective \<longrightarrow> n = 0" using w(4) by (cases n) auto
  ultimately show ?thesis by blast
qed

theorem version_history_witness:
  "\<exists>u s'. TransitionCoreModuleVersion ''acme'' ''db'' ''1.1.0'' LifecycleDefault 1 ''alice'' ''ship'' None example_catalogue_db
      = Inr (u, s')
    \<and> (\<exists>w\<in>set (definition_versions s'). version_frozen (example_version ''h1'' ''1.0.0'' LifecycleDefault) w)"
proof -
  obtain u s' where t: "TransitionCoreModuleVersion ''acme'' ''db'' ''1.1.0'' LifecycleDefault 1 ''alice'' ''ship'' None
      example_catalogue_db = Inr (u, s')" using example_promotion by blast
  have run: "catalogue_run example_catalogue_db s'" using step_transition [OF t] by (rule r_into_rtranclp)
  let ?v = "example_version ''h1'' ''1.0.0'' LifecycleDefault"
  have "?v \<in> set (definition_versions example_catalogue_db)" "v_uuid ?v \<in> logged example_catalogue_db"
    by (simp_all add: example_catalogue_db_def logged_def example_event_def example_version_def)
  from version_history [OF run example_catalogue_inv this] t show ?thesis by blast
qed

lemma check_lineage_head:
  assumes "check_lineage refuse (Some h) new = Inr ()" "cv_SemanticVersion h = Some hv"
  shows "\<exists>old. ParseVersion hv = Inr old \<and> Version_Compare new old > 0"
  using assms by (cases "ParseVersion hv")
    (auto simp: check_lineage_def ValidatePublicationVersion_def split: option.splits if_splits)

lemma transition_promotes:
  assumes t: "TransitionCoreModuleVersion org ref vref LifecycleDefault e actor reason corr s = Inr (u, s')"
    and fd: "find (module_matches org ref) (definitions s) = Some d"
    and fv: "find (version_matches org ref vref (definitions s)) (definition_versions s) = Some v"
    and src: "v_semantic_status v \<noteq> LifecycleDefault"
  shows "\<exists>sv parsed s1. v_semantic_version v = Some sv \<and> ParseVersion sv = Inr parsed
     \<and> ValidateLifecycleTransition (v_semantic_status v) LifecycleDefault parsed = None
     \<and> promote_version (scanModuleCatalogue d) (scanCoreModuleVersion (resource_type_versions s) v)
                   parsed org actor reason corr s = Inr s1
     \<and> definitions s' = definitions s1 \<and> definition_versions s' = definition_versions s1"
proof -
  obtain sv where sv: "v_semantic_version v = Some sv" using t fd fv
    by (auto simp: TransitionCoreModuleVersion_def GetModuleCatalogue_def GetCoreModuleVersion_def split: option.splits)
  obtain parsed where parsed: "ParseVersion sv = Inr parsed" using t fd fv sv
    by (cases "ParseVersion sv")
      (auto simp: TransitionCoreModuleVersion_def GetModuleCatalogue_def GetCoreModuleVersion_def split: option.splits)
  show ?thesis using t fd fv sv parsed src
    by (auto simp: TransitionCoreModuleVersion_def GetModuleCatalogue_def GetCoreModuleVersion_def Let_def
        split: option.splits)
qed

text \<open>
  C3. Promoting a Proposed version to Default succeeds only if its semantic version is no prerelease
  and has strictly higher precedence than the version the module currently points to. The entry then
  points to the new version and remembers the old one.
\<close>

theorem promotion_exceeds_current_default:
  assumes t: "TransitionCoreModuleVersion org ref vref LifecycleDefault e actor reason corr s = Inr (u, s')"
    and fd: "find (module_matches org ref) (definitions s) = Some d"
    and fv: "find (version_matches org ref vref (definitions s)) (definition_versions s) = Some v"
    and proposed: "v_semantic_status v = LifecycleProposed"
    and h: "d_current_default_version_uuid d = Some c" "GetCoreModuleVersion org (d_uuid d) c s = Inr h"
      "cv_SemanticVersion h = Some hv"
  shows "\<exists>sv new old. v_semantic_version v = Some sv \<and> ParseVersion sv = Inr new \<and> ParseVersion hv = Inr old
    \<and> Version_Compare new old > 0 \<and> PreRelease new = []
    \<and> (\<exists>d'\<in>set (definitions s'). d_uuid d' = d_uuid d \<and> d_current_default_version_uuid d' = Some (v_uuid v)
         \<and> d_previous_default_version_uuid d' = Some c)"
proof -
  obtain parsed sv s1 where sv: "v_semantic_version v = Some sv" "ParseVersion sv = Inr parsed"
    and val: "ValidateLifecycleTransition LifecycleProposed LifecycleDefault parsed = None"
    and p: "promote_version (scanModuleCatalogue d) (scanCoreModuleVersion (resource_type_versions s) v)
                   parsed org actor reason corr s = Inr s1"
    and s1: "definitions s' = definitions s1"
    using transition_promotes [OF t fd fv] proposed by auto
  have d: "d \<in> set (definitions s)" "module_matches org ref d" using find_in_set [OF fd] by auto
  then have "managedDefaultLineageHead (scanModuleCatalogue d) s = Inr (Some h)"
    using h by (simp add: managedDefaultLineageHead_def module_matches_def)
  then obtain refuse where "check_lineage refuse (Some h) parsed = Inr ()"
    using p proposed by (auto simp: promote_version_def Let_def)
  then obtain old where old: "ParseVersion hv = Inr old" "Version_Compare parsed old > 0"
    using check_lineage_head h(3) by blast
  obtain g where ds: "definitions s1 = upd_where (\<lambda>x. d_org_id x = org \<and> d_uuid x = d_uuid d) g (definitions s)"
    and g: "\<forall>x. d_uuid (g x) = d_uuid x \<and> d_current_default_version_uuid (g x) = Some (v_uuid v)
      \<and> d_previous_default_version_uuid (g x) = d_current_default_version_uuid d"
    using promote_Inr [OF p] by blast
  have "g d \<in> set (definitions s')" unfolding s1 ds in_upd_where
    using d by (intro bexI [of _ d]) (auto simp: module_matches_def)
  then show ?thesis using sv val old g h(1)
    by (intro exI [of _ sv] exI [of _ parsed] exI [of _ old] conjI bexI [of _ "g d"])
      (auto simp: ValidateLifecycleTransition_None_iff)
qed

theorem promotion_exceeds_current_default_witness:
  "\<exists>u s'. TransitionCoreModuleVersion ''acme'' ''db'' ''1.1.0'' LifecycleDefault 1 ''alice'' ''ship'' None example_catalogue_db
      = Inr (u, s')
    \<and> (\<exists>d'\<in>set (definitions s'). d_current_default_version_uuid d' = Some ''h2''
         \<and> d_previous_default_version_uuid d' = Some ''h1'')"
proof -
  obtain u s' where t: "TransitionCoreModuleVersion ''acme'' ''db'' ''1.1.0'' LifecycleDefault 1 ''alice'' ''ship'' None
      example_catalogue_db = Inr (u, s')" using example_promotion by blast
  define d where "d = hd (definitions example_catalogue_db)"
  define v where "v = example_version ''h2'' ''1.1.0'' LifecycleProposed"
  have "find (module_matches ''acme'' ''db'') (definitions example_catalogue_db) = Some d"
    "find (version_matches ''acme'' ''db'' ''1.1.0'' (definitions example_catalogue_db)) (definition_versions example_catalogue_db)
      = Some v" "v_semantic_status v = LifecycleProposed" "d_current_default_version_uuid d = Some ''h1''"
    "GetCoreModuleVersion ''acme'' (d_uuid d) ''h1'' example_catalogue_db
      = Inr (scanCoreModuleVersion (resource_type_versions example_catalogue_db) (example_version ''h1'' ''1.0.0'' LifecycleDefault))"
    "cv_SemanticVersion (scanCoreModuleVersion (resource_type_versions example_catalogue_db)
       (example_version ''h1'' ''1.0.0'' LifecycleDefault)) = Some ''1.0.0''"
    by (simp_all add: d_def v_def example_catalogue_db_def example_version_def module_matches_def version_matches_def
        in_module_def GetCoreModuleVersion_def)
  from promotion_exceeds_current_default [OF t this] t show ?thesis
    by (intro exI [of _ u] exI [of _ s']) (auto simp: v_def example_version_def)
qed

text \<open>
  C4. Deprecating the current Default leaves the catalogue entry pointing to it, unlike withdrawing it
  as defective. From then on no sequence of operations gives the module a Default version again: every
  promotion and every restoration fails.
\<close>

theorem deprecating_the_default_is_final:
  assumes t: "TransitionCoreModuleVersion org ref vref LifecycleDeprecated e actor reason corr s = Inr (u, s1)"
    and inv: "catalogue_inv s"
    and fv: "find (version_matches org ref vref (definitions s)) (definition_versions s) = Some v"
    and default: "v_semantic_status v = LifecycleDefault"
    and run: "catalogue_run s1 s2"
  shows "\<forall>w\<in>set (definition_versions s2). v_module_uuid w = v_module_uuid v \<longrightarrow> v_semantic_status w \<noteq> LifecycleDefault"
proof -
  obtain d x t1 parsed where fd: "find (module_matches org ref) (definitions s) = Some d" and "x = v"
    and p: "demote_version (scanModuleCatalogue d) (scanCoreModuleVersion (resource_type_versions s) v)
                   LifecycleDeprecated org s = Inr t1"
    and eq: "definitions s1 = definitions t1" "definition_versions s1 = definition_versions t1"
    using transition_Inr [OF t] fv default by auto
  have d: "d \<in> set (definitions s)" "module_matches org ref d" using find_in_set [OF fd] by auto
  have v: "v \<in> set (definition_versions s)" "version_matches org ref vref (definitions s) v" using find_in_set [OF fv] by auto
  have own: "owns d v" using version_module [OF _ _ d v] inv by (simp add: catalogue_inv_def)
  have ptr: "d_current_default_version_uuid d = Some (v_uuid v)"
    using catalogue_okD(5) [OF _ v(1) d(1) default] own inv by (simp add: catalogue_inv_def owns_def)
  let ?v = "set_version_status LifecycleDeprecated v"
  have "?v \<in> set (definition_versions s1)"
    unfolding eq conjunct1 [OF demote_Inr [OF p]] in_upd_where using v(1) by (intro bexI [of _ v]) simp
  moreover have "d \<in> set (definitions s1)" using demote_Inr [OF p] d(1) eq by simp
  ultimately have "stale_default (v_module_uuid v) s1"
    unfolding stale_default_def using own ptr by (intro bexI [of _ d] bexI [of _ ?v]) (auto simp: owns_def)
  moreover have "catalogue_inv s1" by (rule transition_preserves [OF inv t])
  ultimately show ?thesis using catalogue_run_invariants [OF run] stale_no_default by blast
qed

theorem deprecating_the_default_is_final_witness:
  "\<exists>u s1. TransitionCoreModuleVersion ''acme'' ''db'' ''1.0.0'' LifecycleDeprecated 1 ''alice'' ''ship'' None example_catalogue_db
      = Inr (u, s1)
    \<and> (\<forall>s2. catalogue_run s1 s2 \<longrightarrow> (\<forall>w\<in>set (definition_versions s2).
         v_module_uuid w = ''m1'' \<longrightarrow> v_semantic_status w \<noteq> LifecycleDefault))"
proof -
  obtain u s1 where t: "TransitionCoreModuleVersion ''acme'' ''db'' ''1.0.0'' LifecycleDeprecated 1 ''alice'' ''ship'' None
      example_catalogue_db = Inr (u, s1)" using example_deprecation by blast
  define v where "v = example_version ''h1'' ''1.0.0'' LifecycleDefault"
  have "find (version_matches ''acme'' ''db'' ''1.0.0'' (definitions example_catalogue_db)) (definition_versions example_catalogue_db)
      = Some v" "v_semantic_status v = LifecycleDefault"
    by (simp_all add: v_def example_catalogue_db_def example_version_def version_matches_def in_module_def)
  from deprecating_the_default_is_final [OF t example_catalogue_inv this] t
  show ?thesis by (intro exI [of _ u] exI [of _ s1]) (auto simp: v_def example_version_def)
qed

end
