(* ===== verification/Providers.thy ===== *)
theory Providers
  imports Rules VersionHistory
begin

text \<open>
  Module providers (\<^verbatim>\<open>internal/model/providers.go\<close>): the listing with composite page tokens, creation,
  lookup, update and the guarded deletion. A version names a provider by the text
  \<^verbatim>\<open><type>.<id>\<close>; the table has no foreign key for it, so that the guard of the deletion and the
  check of a publication (\<open>validateProviders\<close>) are all there is to keep these names resolvable.
\<close>

section \<open>Operations\<close>

record ListModuleProvidersParams =
  lp_ByType :: "string option"
  lp_ByProviderIds :: "string list option"

definition provider_name :: "ModuleProvider \<Rightarrow> string" where
  "provider_name p = pr_ProviderType p @ ''.'' @ pr_Id p"

definition provider_key :: "ModuleProvider \<Rightarrow> string list" where
  "provider_key p = [pr_ProviderType p, pr_Id p]"

definition providers_of :: "string \<Rightarrow> ListModuleProvidersParams \<Rightarrow> db \<Rightarrow> ModuleProvider list" where
  "providers_of orgId params s =
     filter (\<lambda>p. List.member (orgs s) orgId \<and> pr_OrgId p = orgId
       \<and> unless_set (lp_ByType params) (\<lambda>t. pr_ProviderType p = t)
       \<and> unless_set (lp_ByProviderIds params) (\<lambda>names. List.member names (provider_name p))) (providers s)"

definition ListModuleProviders ::
  "string \<Rightarrow> ListModuleProvidersParams \<Rightarrow> string \<Rightarrow> int \<Rightarrow> db \<Rightarrow> (ModuleProvider list \<times> string) result" where
  "ListModuleProviders orgId params pageToken perPage s =
     (case PageTokenCodec_Parse 2 pageToken of
        Inl m \<Rightarrow> Inl (NewErrBadRequest m)
      | Inr parts \<Rightarrow>
          let after = (if pageToken = '''' then ['''', ''''] else parts) in
          Inr (tokened (join_with CHR '','') (keyset_page provider_key after perPage (providers_of orgId params s))))"

definition providers_constraints :: "(ModuleProvider, string list) constraint list" where
  "providers_constraints = [(''providers_pkey'', \<lambda>p. Some [pr_OrgId p, pr_ProviderType p, pr_Id p])]"

text \<open>The code recognises the primary key by a prefix of its name in the message of the driver.\<close>

definition CreateModuleProvider :: "ModuleProvider \<Rightarrow> db \<Rightarrow> (ModuleProvider \<times> db) result" where
  "CreateModuleProvider request s =
     try_then
       (map_error (\<lambda>e. if e = ErrConstraint ''providers_pkey'' then NewErrConflict ''provider already exists'' else e)
         (insert_row providers_constraints request (providers s))) (\<lambda>rows.
     fail_if (\<not> List.member (orgs s) (pr_OrgId request)) (ErrConstraint ''providers_org_id_fkey'')
     (Inr (request, s\<lparr>providers := rows\<rparr>)))"

definition provider_at :: "string \<Rightarrow> string \<Rightarrow> string \<Rightarrow> ModuleProvider \<Rightarrow> bool" where
  "provider_at orgId providerType i p \<longleftrightarrow> pr_OrgId p = orgId \<and> pr_ProviderType p = providerType \<and> pr_Id p = i"

definition GetModuleProvider :: "string \<Rightarrow> string \<Rightarrow> string \<Rightarrow> db \<Rightarrow> ModuleProvider result" where
  "GetModuleProvider orgId providerType i s =
     require_some (NewErrNotFound ''provider not found'') (find (provider_at orgId providerType i) (providers s))"

text \<open>The modules whose version named by \<^verbatim>\<open>latest_version_id\<close> uses the provider; five are reported.\<close>

definition blocking_definitions :: "string \<Rightarrow> string \<Rightarrow> db \<Rightarrow> string list" where
  "blocking_definitions orgId name s =
     map d_id (filter (\<lambda>d. d_org_id d = orgId \<and>
       list_ex (\<lambda>v. v_org_id v = d_org_id d \<and> v_definition_id v = d_id d
         \<and> d_latest_version_id d = Some (v_version_id v) \<and> List.member (v_provider_values v) name)
         (definition_versions s)) (definitions s))"

definition DeleteModuleProvider :: "string \<Rightarrow> string \<Rightarrow> string \<Rightarrow> db \<Rightarrow> (unit \<times> db) result" where
  "DeleteModuleProvider orgId providerType i s =
     fail_if (take 5 (blocking_definitions orgId (providerType @ ''.'' @ i) s) \<noteq> [])
       (NewErrConflict ''module versions are still using this provider'')
    (fail_if (\<not> list_ex (provider_at orgId providerType i) (providers s)) (NewErrNotFound ''provider not found'')
    (Inr ((), s\<lparr>providers := filter (\<lambda>p. \<not> provider_at orgId providerType i p) (providers s)\<rparr>)))"

definition UpdateModuleProvider :: "ModuleProvider \<Rightarrow> db \<Rightarrow> (ModuleProvider \<times> db) result" where
  "UpdateModuleProvider request s =
     (let hit = provider_at (pr_OrgId request) (pr_ProviderType request) (pr_Id request) in
      fail_if (\<not> list_ex hit (providers s)) (NewErrNotFound ''provider not found'')
      (Inr (request, s\<lparr>providers := upd_where hit
        (\<lambda>p. p\<lparr>pr_Description := pr_Description request, pr_VersionConstraint := pr_VersionConstraint request,
           pr_Config := pr_Config request\<rparr>) (providers s)\<rparr>)))"

section \<open>The listing follows the paging contract\<close>

definition providers_listable :: "string \<Rightarrow> ListModuleProvidersParams \<Rightarrow> db \<Rightarrow> bool" where
  "providers_listable orgId params s \<longleftrightarrow>
     distinct (map provider_key (providers_of orgId params s))
     \<and> list_all (\<lambda>p. token_safe Some (provider_key p)) (providers_of orgId params s)"

interpretation provider_listing:
  keyset_listing "ListModuleProviders org params" "providers_of org params" provider_key "join_with CHR '',''"
    "['''', '''']" "providers_listable org params" for org params
proof
  fix s :: db and n and p
  assume good: "providers_listable org params s"
  show "ListModuleProviders org params [] n s = Inr (tokened (join_with CHR '','')
      (keyset_page provider_key ['''', ''''] n (providers_of org params s)))"
    by (simp add: ListModuleProviders_def PageTokenCodec_Parse_def)
  show "distinct (map provider_key (providers_of org params s))" using good by (simp add: providers_listable_def)
  assume "p \<in> set (providers_of org params s)"
  then have safe: "token_safe Some (provider_key p)" using good by (simp add: providers_listable_def list_all_iff)
  then show "ListModuleProviders org params (join_with CHR '','' (provider_key p)) n s
      = Inr (tokened (join_with CHR '','') (keyset_page provider_key (provider_key p) n (providers_of org params s)))"
    using token_safe_parse [OF safe, of 2] by (simp add: ListModuleProviders_def provider_key_def)
  have "pr_ProviderType p \<noteq> []" using safe by (simp add: token_safe_def provider_key_def)
  then have "[] < pr_ProviderType p" by (cases "pr_ProviderType p") auto
  then show "['''', ''''] < provider_key p \<and> join_with CHR '','' (provider_key p) \<noteq> []"
    using token_safe_parse(2) [OF safe refl] by (simp add: provider_key_def)
qed

section \<open>Providers of the versions in use\<close>

text \<open>Every provider that the latest version of a module names exists.\<close>

definition latest_providers_ok :: "db \<Rightarrow> bool" where
  "latest_providers_ok s \<longleftrightarrow>
     list_all (\<lambda>d. list_all (\<lambda>v.
       v_org_id v = d_org_id d \<and> v_definition_id v = d_id d \<and> d_latest_version_id d = Some (v_version_id v) \<longrightarrow>
       list_all (\<lambda>name. list_ex (\<lambda>p. pr_OrgId p = d_org_id d \<and> provider_name p = name) (providers s)) (v_provider_values v))
       (definition_versions s)) (definitions s)"

inductive provider_step :: "db \<Rightarrow> db \<Rightarrow> bool" where
  create_provider: "CreateModuleProvider q s = Inr (p, s') \<Longrightarrow> provider_step s s'"
| update_provider: "UpdateModuleProvider q s = Inr (p, s') \<Longrightarrow> provider_step s s'"
| delete_provider: "DeleteModuleProvider org t i s = Inr (u, s') \<Longrightarrow> provider_step s s'"

text \<open>What all three operations share: only the providers change, and a name in use stays.\<close>

lemma latest_providers_ok_keep:
  assumes ok: "latest_providers_ok s"
    and same: "definitions s' = definitions s" "definition_versions s' = definition_versions s"
    and keep: "\<And>d v name p. d \<in> set (definitions s) \<Longrightarrow> v \<in> set (definition_versions s) \<Longrightarrow>
        v_org_id v = d_org_id d \<Longrightarrow> v_definition_id v = d_id d \<Longrightarrow> d_latest_version_id d = Some (v_version_id v) \<Longrightarrow>
        name \<in> set (v_provider_values v) \<Longrightarrow> p \<in> set (providers s) \<Longrightarrow> pr_OrgId p = d_org_id d \<Longrightarrow> provider_name p = name \<Longrightarrow>
        \<exists>q\<in>set (providers s'). pr_OrgId q = d_org_id d \<and> provider_name q = name"
  shows "latest_providers_ok s'"
  unfolding latest_providers_ok_def list_all_iff list_ex_iff same
proof (intro ballI impI, elim conjE)
  fix d v name
  assume h: "d \<in> set (definitions s)" "v \<in> set (definition_versions s)" "v_org_id v = d_org_id d" "v_definition_id v = d_id d"
    "d_latest_version_id d = Some (v_version_id v)" "name \<in> set (v_provider_values v)"
  then obtain p where "p \<in> set (providers s)" "pr_OrgId p = d_org_id d" "provider_name p = name"
    using ok unfolding latest_providers_ok_def list_all_iff list_ex_iff by blast
  from keep [OF h this] show "\<exists>q\<in>set (providers s'). pr_OrgId q = d_org_id d \<and> provider_name q = name" .
qed

lemma blocking_empty:
  assumes "blocking_definitions org name s = []" "d \<in> set (definitions s)" "v \<in> set (definition_versions s)" "d_org_id d = org"
    "v_org_id v = d_org_id d" "v_definition_id v = d_id d" "d_latest_version_id d = Some (v_version_id v)"
  shows "name \<notin> set (v_provider_values v)"
  using assms by (auto simp: blocking_definitions_def filter_empty_conv list_ex_iff)

lemma delete_provider_Inr:
  assumes "DeleteModuleProvider org t i s = Inr (u, s')"
  shows "blocking_definitions org (t @ ''.'' @ i) s = []" "\<exists>p\<in>set (providers s). provider_at org t i p"
    "s' = s\<lparr>providers := filter (\<lambda>p. \<not> provider_at org t i p) (providers s)\<rparr>"
  using assms by (auto simp: DeleteModuleProvider_def list_ex_iff)

lemma provider_step_preserves:
  assumes "provider_step s s'" "latest_providers_ok s"
  shows "latest_providers_ok s'"
  using assms(1)
proof cases
  case (create_provider q p)
  then have "set (providers s) \<subseteq> set (providers s')" "definitions s' = definitions s" "definition_versions s' = definition_versions s"
    by (auto simp: CreateModuleProvider_def insert_row_Inr_iff)
  then show ?thesis using latest_providers_ok_keep [OF assms(2)] by blast
next
  case (update_provider q p)
  then have s': "s' = s\<lparr>providers := upd_where (provider_at (pr_OrgId q) (pr_ProviderType q) (pr_Id q))
      (\<lambda>p. p\<lparr>pr_Description := pr_Description q, pr_VersionConstraint := pr_VersionConstraint q, pr_Config := pr_Config q\<rparr>)
      (providers s)\<rparr>" by (auto simp: UpdateModuleProvider_def Let_def)
  show ?thesis
  proof (rule latest_providers_ok_keep [OF assms(2)])
    fix d :: definitions_row and name p
    assume p: "p \<in> set (providers s)" "pr_OrgId p = d_org_id d" "provider_name p = name"
    let ?hit = "provider_at (pr_OrgId q) (pr_ProviderType q) (pr_Id q)"
      and ?f = "\<lambda>p. p\<lparr>pr_Description := pr_Description q, pr_VersionConstraint := pr_VersionConstraint q, pr_Config := pr_Config q\<rparr>"
    have "pr_OrgId (if ?hit p then ?f p else p) = d_org_id d \<and> provider_name (if ?hit p then ?f p else p) = name"
      using p(2,3) by (simp add: provider_name_def)
    from bexI [where P = "\<lambda>q. pr_OrgId q = d_org_id d \<and> provider_name q = name", OF this upd_where_intro [OF p(1), of ?hit ?f]]
    show "\<exists>q\<in>set (providers s'). pr_OrgId q = d_org_id d \<and> provider_name q = name" by (simp add: s')
  qed (simp_all add: s')
next
  case (delete_provider org t i u)
  note d = delete_provider_Inr [OF delete_provider]
  show ?thesis
  proof (rule latest_providers_ok_keep [OF assms(2)])
    fix m v name p
    assume h: "m \<in> set (definitions s)" "v \<in> set (definition_versions s)" "v_org_id v = d_org_id m" "v_definition_id v = d_id m"
      "d_latest_version_id m = Some (v_version_id v)" "name \<in> set (v_provider_values v)" "p \<in> set (providers s)"
      "pr_OrgId p = d_org_id m" "provider_name p = name"
    have "\<not> provider_at org t i p"
      using blocking_empty [OF d(1) h(1,2) _ h(3,4,5)] h(6,8,9) by (auto simp: provider_at_def provider_name_def)
    then show "\<exists>q\<in>set (providers s'). pr_OrgId q = d_org_id m \<and> provider_name q = name" using h(7,8,9) by (auto simp: d(3))
  qed (simp_all add: d(3))
qed

text \<open>A module whose Default uses no provider and whose Proposed version uses \<^verbatim>\<open>aws.new\<close>.\<close>

definition example_provider :: "string \<Rightarrow> ModuleProvider" where
  "example_provider i = \<lparr>pr_OrgId = ''acme'', pr_ProviderType = ''aws'', pr_Id = i, pr_CreatedAt = 1, pr_Description = None,
     pr_Source = ''hashicorp/aws'', pr_VersionConstraint = [], pr_Config = []\<rparr>"

definition example_providers_db :: db where
  "example_providers_db = example_catalogue_db\<lparr>providers := [example_provider ''new'', example_provider ''old''],
     definition_versions := [(example_version ''h1'' ''1.0.0'' LifecycleDefault)\<lparr>v_provider_values := [''aws.old'']\<rparr>,
       (example_version ''h2'' ''1.1.0'' LifecycleProposed)\<lparr>v_provider_values := [''aws.new'']\<rparr>]\<rparr>"

section \<open>Properties\<close>

text \<open>
  The operations on providers never remove a provider that the latest version of some module uses:
  if every provider named by the latest versions exists, it still does after any sequence of them, and
  a deletion of a provider in use is refused with a conflict.
\<close>

theorem providers_in_use_stay:
  assumes "provider_step\<^sup>*\<^sup>* s s'" "latest_providers_ok s"
  shows "latest_providers_ok s'
    \<and> (\<forall>d \<in> set (definitions s'). \<forall>v \<in> set (definition_versions s').
         v_org_id v = d_org_id d \<and> v_definition_id v = d_id d \<and> d_latest_version_id d = Some (v_version_id v) \<longrightarrow>
         (\<forall>t i. t @ ''.'' @ i \<in> set (v_provider_values v) \<longrightarrow>
           DeleteModuleProvider (d_org_id d) t i s' = Inl (NewErrConflict ''module versions are still using this provider'')))"
proof (intro conjI ballI allI impI)
  show "latest_providers_ok s'" using assms by (induction rule: rtranclp_induct) (auto intro: provider_step_preserves)
next
  fix d v t i
  assume "d \<in> set (definitions s')" "v \<in> set (definition_versions s')"
    "v_org_id v = d_org_id d \<and> v_definition_id v = d_id d \<and> d_latest_version_id d = Some (v_version_id v)"
    "t @ ''.'' @ i \<in> set (v_provider_values v)"
  then have "blocking_definitions (d_org_id d) (t @ ''.'' @ i) s' \<noteq> []" using blocking_empty by blast
  then show "DeleteModuleProvider (d_org_id d) t i s' = Inl (NewErrConflict ''module versions are still using this provider'')"
    by (simp add: DeleteModuleProvider_def)
qed

lemma example_latest_providers: "latest_providers_ok example_providers_db"
  by (simp add: latest_providers_ok_def example_providers_db_def example_catalogue_db_def example_version_def
      example_provider_def provider_name_def)

lemma example_delete_provider:
  "DeleteModuleProvider ''acme'' ''aws'' ''new'' example_providers_db
     = Inr ((), example_providers_db\<lparr>providers := [example_provider ''old'']\<rparr>)"
  by (simp add: DeleteModuleProvider_def blocking_definitions_def example_providers_db_def example_catalogue_db_def
      example_version_def example_provider_def provider_at_def)

theorem providers_in_use_stay_witness:
  "\<exists>s'. DeleteModuleProvider ''acme'' ''aws'' ''new'' example_providers_db = Inr ((), s') \<and> latest_providers_ok s'"
proof -
  have "provider_step\<^sup>*\<^sup>* example_providers_db (example_providers_db\<lparr>providers := [example_provider ''old'']\<rparr>)"
    using delete_provider [OF example_delete_provider] by (rule r_into_rtranclp)
  from providers_in_use_stay [OF this example_latest_providers] example_delete_provider show ?thesis by auto
qed

text \<open>
  The guard looks at the latest versions only, and a promotion does not check the providers again.
  A provider that a Proposed version uses can be deleted, and the version can be promoted afterwards: the
  Default of the module then names a provider that does not exist, although every operation succeeded
  and the database was consistent before.
\<close>

theorem promotion_after_provider_deletion:
  "catalogue_inv example_providers_db \<and> latest_providers_ok example_providers_db
   \<and> (\<exists>s1 v s2. DeleteModuleProvider ''acme'' ''aws'' ''new'' example_providers_db = Inr ((), s1)
        \<and> TransitionCoreModuleVersion ''acme'' ''db'' ''1.1.0'' LifecycleDefault 1 ''alice'' ''ship'' None s1 = Inr (v, s2)
        \<and> GetModuleProvider ''acme'' ''aws'' ''new'' s2 = Inl (NewErrNotFound ''provider not found'')
        \<and> \<not> latest_providers_ok s2)"
proof (intro conjI)
  show "catalogue_inv example_providers_db"
    by (simp add: catalogue_inv_def catalogue_ok_def unambiguous_def example_providers_db_def example_catalogue_db_def
        example_version_def owns_def keys_unique_def proposed_key_def)
  show "latest_providers_ok example_providers_db" by (rule example_latest_providers)
  let ?s1 = "example_providers_db\<lparr>providers := [example_provider ''old'']\<rparr>"
  have "\<exists>v s2. TransitionCoreModuleVersion ''acme'' ''db'' ''1.1.0'' LifecycleDefault 1 ''alice'' ''ship'' None ?s1 = Inr (v, s2)
      \<and> GetModuleProvider ''acme'' ''aws'' ''new'' s2 = Inl (NewErrNotFound ''provider not found'') \<and> \<not> latest_providers_ok s2"
    by (simp add: catalogue_eval example_providers_db_def example_parse example_compare example_reason Let_def)
      (simp add: version_of_def GetModuleProvider_def latest_providers_ok_def provider_at_def example_provider_def provider_name_def)
  then show "\<exists>s1 v s2. DeleteModuleProvider ''acme'' ''aws'' ''new'' example_providers_db = Inr ((), s1)
        \<and> TransitionCoreModuleVersion ''acme'' ''db'' ''1.1.0'' LifecycleDefault 1 ''alice'' ''ship'' None s1 = Inr (v, s2)
        \<and> GetModuleProvider ''acme'' ''aws'' ''new'' s2 = Inl (NewErrNotFound ''provider not found'')
        \<and> \<not> latest_providers_ok s2"
    using example_delete_provider by blast
qed

end
