(* ===== verification/RuleSelection.thy ===== *)
theory RuleSelection
  imports Rules
begin

text \<open>
  Which module serves a resource request in an environment: the selection of the most specific rule
  per resource kind in \<^verbatim>\<open>internal/api/catalogue.go\<close>, the admission predicates of the same file, and the
  listing of available resource types (\<^verbatim>\<open>internal/model/avaliable_resource_types.go\<close> and the handler of
  the same name in \<^verbatim>\<open>internal/api\<close>).

  A Go map from resource kinds to numbers is a partial function, the set of active coordinates a list
  of strings, whose order no result depends on. The memo table of module states in the loop is left
  out: within one read-only transaction it returns what the lookup returns. The loop over the pages
  takes the number of requests it may make as an argument; \<open>fold_pages_walk\<close> says that one more than
  the number of rules is enough.
\<close>

section \<open>Specificity\<close>

record resourceKind =
  rk_Type :: string
  rk_Class :: string
  rk_Id :: "string option"

definition calculateSpecificity :: "string option list \<Rightarrow> int" where
  "calculateSpecificity bits = foldl (\<lambda>n bit. 2 * n + (if bit = None then 0 else 1)) 0 bits"

definition rule_kind :: "DefinitionRule \<Rightarrow> resourceKind" where
  "rule_kind r = \<lparr>rk_Type = ru_ResourceType r, rk_Class = ru_ResourceClass r, rk_Id = ru_ResourceId r\<rparr>"

definition rule_specificity :: "DefinitionRule \<Rightarrow> int" where
  "rule_specificity r = calculateSpecificity [ru_EnvId r, ru_ProjectId r, ru_EnvTypeId r]"

section \<open>Admission predicates\<close>

definition resolvedPinVersionUUID :: "EnvironmentModuleVersionPin \<Rightarrow> uuid option \<Rightarrow> uuid" where
  "resolvedPinVersionUUID pin operationID =
     (case (operationID, pn_OverrideOperationID pin, pn_OverrideTargetVersionUUID pin) of
        (Some op, Some own, Some target) \<Rightarrow>
          if pn_Status pin = PinOverridePending \<and> op = own then target else pn_VersionUUID pin
      | _ \<Rightarrow> pn_VersionUUID pin)"

definition permitsArchivedModuleVersion :: "CatalogueStatus \<Rightarrow> string \<Rightarrow> string list \<Rightarrow> bool \<Rightarrow> bool" where
  "permitsArchivedModuleVersion status coordinate activeVersions rollback \<longleftrightarrow>
     status \<noteq> CatalogueArchived \<or> rollback \<or> List.member activeVersions coordinate"

fun permitsRestrictedModuleVersion :: "LifecycleStatus \<Rightarrow> bool \<Rightarrow> bool \<Rightarrow> bool \<Rightarrow> bool" where
  "permitsRestrictedModuleVersion LifecycleDeprecated activePin rollback exactConfirmation = (activePin \<or> rollback)"
| "permitsRestrictedModuleVersion LifecycleDefective activePin rollback exactConfirmation =
     (exactConfirmation \<and> (activePin \<or> rollback))"
| "permitsRestrictedModuleVersion _ activePin rollback exactConfirmation = True"

fun carry_forward :: "string \<Rightarrow> string list \<Rightarrow> string \<Rightarrow> string result" where
  "carry_forward moduleID [] version = Inr version"
| "carry_forward moduleID (coordinate # coordinates) version =
     (case cut_at CHR ''@'' coordinate of
        (i, Some candidate) \<Rightarrow>
          if i \<noteq> moduleID \<or> candidate = '''' then carry_forward moduleID coordinates version
          else if version \<noteq> '''' \<and> version \<noteq> candidate
          then Inl (NewErrConflict ''archived module has multiple effective versions'')
          else carry_forward moduleID coordinates candidate
      | (i, None) \<Rightarrow> carry_forward moduleID coordinates version)"

definition archivedCarryForwardVersion :: "string \<Rightarrow> string list \<Rightarrow> string result" where
  "archivedCarryForwardVersion moduleID activeVersions = carry_forward moduleID activeVersions ''''"

section \<open>Selecting the rules of an environment\<close>

record rule_collection =
  rc_rules :: "DefinitionRule list"
  rc_max :: "resourceKind \<Rightarrow> int option"
  rc_archived :: "(string \<times> string) list"

definition consider_rule :: "DefinitionRule \<Rightarrow> rule_collection \<Rightarrow> rule_collection" where
  "consider_rule rule st =
     (let kind = rule_kind rule; specificity = rule_specificity rule in
      if (case rc_max st kind of None \<Rightarrow> True | Some m \<Rightarrow> specificity > m)
      then st\<lparr>rc_max := (rc_max st)(kind \<mapsto> specificity), rc_rules := rc_rules st @ [rule]\<rparr>
      else st)"

definition collect_rule ::
  "string \<Rightarrow> string list \<Rightarrow> db \<Rightarrow> DefinitionRule \<Rightarrow> rule_collection \<Rightarrow> rule_collection result" where
  "collect_rule orgId activeVersions s rule st =
     try_then (GetModuleCatalogue orgId (ru_DefinitionId rule) s) (\<lambda>entry.
       if mc_Status entry = CatalogueArchived
       then try_then (archivedCarryForwardVersion (ru_DefinitionId rule) activeVersions) (\<lambda>version.
         if version = '''' then Inr st
         else Inr (consider_rule rule (st\<lparr>rc_archived := (ru_DefinitionId rule, version) #
             filter (\<lambda>p. fst p \<noteq> ru_DefinitionId rule) (rc_archived st)\<rparr>)))
       else Inr (consider_rule rule st))"

text \<open>The loop over the pages of a listing.\<close>

fun fold_pages ::
  "nat \<Rightarrow> (string \<Rightarrow> ('r list \<times> string) result) \<Rightarrow> ('r \<Rightarrow> 'st \<Rightarrow> 'st result) \<Rightarrow> string \<Rightarrow> 'st \<Rightarrow> 'st result" where
  "fold_pages 0 list_page f token st = Inl (ErrInternal ''request budget'')"
| "fold_pages (Suc n) list_page f token st =
     try_then (list_page token) (\<lambda>(items, next).
     try_then (try_fold f items st) (\<lambda>st'.
       if next = '''' then Inr st' else fold_pages n list_page f next st'))"

definition effective_params :: "string \<Rightarrow> string \<Rightarrow> string \<Rightarrow> ListModuleRulesParams" where
  "effective_params projectId envTypeId envId =
     \<lparr>lm_ByDefinitionId = None, lm_ByResourceType = None, lm_ByProjectId = None, lm_ByEnvId = None,
      lm_EffectiveInProjectId = Some projectId, lm_EffectiveInEnvTypeId = Some envTypeId, lm_EffectiveInEnvId = Some envId\<rparr>"

definition getModuleCataloguePaginationSize :: int where
  "getModuleCataloguePaginationSize = 200"

definition getAllModuleRulesAndDefinitionIds ::
  "(string \<Rightarrow> uuid option) \<Rightarrow> nat \<Rightarrow> string \<Rightarrow> string \<Rightarrow> string \<Rightarrow> string \<Rightarrow> string list \<Rightarrow> db
   \<Rightarrow> (DefinitionRule list \<times> string list \<times> (string \<times> string) list) result" where
  "getAllModuleRulesAndDefinitionIds parse_uuid requests orgId projectId envTypeId envId activeVersions s =
     try_then
       (fold_pages requests
         (\<lambda>token. ListModuleRules parse_uuid orgId (effective_params projectId envTypeId envId) token
           getModuleCataloguePaginationSize s)
         (collect_rule orgId activeVersions s) ''''
         \<lparr>rc_rules = [], rc_max = (\<lambda>_. None), rc_archived = []\<rparr>) (\<lambda>st.
     let allRules = filter (\<lambda>r. rc_max st (rule_kind r) = Some (rule_specificity r)) (rc_rules st) in
     Inr (allRules, remdups (map ru_DefinitionId allRules), rc_archived st))"

section \<open>Available resource types\<close>

record AvailableOption =
  op_ProjectId :: "string option"
  op_EnvTypeId :: "string option"
  op_EnvId :: "string option"
  op_ResourceId :: string
  op_ResourceClass :: string
  op_RuleId :: uuid
  op_DefinitionId :: string
  op_ModuleParams :: "(string \<times> ModuleParam) list option"

record AvailableResourceType =
  at_Id :: string
  at_Description :: string
  at_OutputsSchema :: "json_object option"
  at_Options :: "AvailableOption list"

text \<open>The version a module is joined with: the one its \<^verbatim>\<open>latest_version_id\<close> names.\<close>

definition latest_params :: "DefinitionRule \<Rightarrow> db \<Rightarrow> (string \<times> ModuleParam) list option" where
  "latest_params r s =
     (case find (\<lambda>d. d_org_id d = ru_OrgId r \<and> d_id d = ru_DefinitionId r) (definitions s) of
        None \<Rightarrow> None
      | Some d \<Rightarrow>
          (case find (\<lambda>v. v_org_id v = d_org_id d \<and> v_definition_id v = d_id d
                \<and> Some (v_version_id v) = d_latest_version_id d) (definition_versions s) of
             None \<Rightarrow> None
           | Some v \<Rightarrow> c_ModuleParams (v_content v)))"

definition rule_option :: "db \<Rightarrow> DefinitionRule \<Rightarrow> AvailableOption" where
  "rule_option s r =
     \<lparr>op_ProjectId = ru_ProjectId r, op_EnvTypeId = ru_EnvTypeId r, op_EnvId = ru_EnvId r,
      op_ResourceId = coalesce (ru_ResourceId r), op_ResourceClass = ru_ResourceClass r, op_RuleId = ru_Id r,
      op_DefinitionId = ru_DefinitionId r, op_ModuleParams = latest_params r s\<rparr>"

definition rule_applies :: "string \<Rightarrow> string \<Rightarrow> string \<Rightarrow> string \<Rightarrow> ResourceType \<Rightarrow> DefinitionRule \<Rightarrow> bool" where
  "rule_applies orgId projectId envId envTypeId t r \<longleftrightarrow>
     (rt_OrgId t = Some (ru_OrgId r) \<or> rt_OrgId t = None) \<and> rt_Id t = ru_ResourceType r \<and> ru_OrgId r = orgId
     \<and> (ru_ProjectId r = Some projectId \<or> ru_ProjectId r = None)
     \<and> (ru_ProjectId r = Some projectId \<and> ru_EnvId r = Some envId \<or> ru_EnvId r = None)
     \<and> (ru_EnvTypeId r = Some envTypeId \<or> ru_EnvTypeId r = None)"

text \<open>
  \<^verbatim>\<open>DISTINCT ON (rt.id)\<close> keeps the organisation's own type before the global one. The environment
  is looked up by project and environment identifier alone.
\<close>

definition ListAvailableResourceTypes ::
  "string \<Rightarrow> string \<Rightarrow> string \<Rightarrow> string option \<Rightarrow> bool option \<Rightarrow> string \<Rightarrow> int \<Rightarrow> db
   \<Rightarrow> (AvailableResourceType list \<times> string) result" where
  "ListAvailableResourceTypes orgId projectId envId typeId includeNonDeveloperAccessible pageToken perPage s =
     try_then (require_some (NewErrNotFound ''environment not found'')
       (find (\<lambda>e. en_ProjectId e = projectId \<and> en_Id e = envId) (envs s))) (\<lambda>e.
     let options = (\<lambda>t. map (rule_option s) (filter (rule_applies orgId projectId envId (en_EnvTypeId e) t) (definition_rules s)));
         candidates = filter (\<lambda>t. options t \<noteq> []
           \<and> (rt_IsDeveloperAccessible t \<or> includeNonDeveloperAccessible = Some True)
           \<and> (case typeId of Some i \<Rightarrow> rt_Id t = i | None \<Rightarrow> pageToken < rt_Id t)) (resource_types s);
         preferred = filter (\<lambda>t. rt_OrgId t \<noteq> None \<or> \<not> list_ex (\<lambda>u. rt_Id u = rt_Id t \<and> rt_OrgId u \<noteq> None) candidates) candidates;
         found = take (nat (max 1 perPage) + 1) (sort_key rt_Id preferred);
         limit = nat (max 1 perPage);
         items = map (\<lambda>t. \<lparr>at_Id = rt_Id t, at_Description = rt_Description t, at_OutputsSchema = rt_OutputsSchema t,
           at_Options = options t\<rparr>) (take limit found)
     in Inr (items, if length found > limit then at_Id (last items) else ''''))"

text \<open>The handler keeps the most specific option per resource kind, in order of class and identifier.\<close>

definition option_kind :: "string \<Rightarrow> AvailableOption \<Rightarrow> resourceKind" where
  "option_kind typeId o1 = \<lparr>rk_Type = typeId, rk_Class = op_ResourceClass o1,
     rk_Id = (if op_ResourceId o1 = '''' then None else Some (op_ResourceId o1))\<rparr>"

definition option_specificity :: "AvailableOption \<Rightarrow> int" where
  "option_specificity o1 = calculateSpecificity [op_EnvId o1, op_ProjectId o1, op_EnvTypeId o1]"

definition consider_option ::
  "string \<Rightarrow> (resourceKind \<times> AvailableOption) list \<Rightarrow> AvailableOption \<Rightarrow> (resourceKind \<times> AvailableOption) list" where
  "consider_option typeId best o1 =
     (let kind = option_kind typeId o1 in
      case map_of best kind of
        None \<Rightarrow> best @ [(kind, o1)]
      | Some m \<Rightarrow>
          if option_specificity o1 > option_specificity m
          then map (\<lambda>p. if fst p = kind then (kind, o1) else p) best else best)"

definition best_options :: "AvailableResourceType \<Rightarrow> AvailableOption list" where
  "best_options item =
     sort_key (\<lambda>o1. [op_ResourceClass o1, op_ResourceId o1])
       (map snd (foldl (consider_option (at_Id item)) [] (at_Options item)))"

section \<open>The selected rules are the most specific ones\<close>

lemma fold_pages_walk:
  "walk_pages n list_page token = Inr xs \<Longrightarrow> fold_pages n list_page f token st = try_fold f xs st"
proof (induction n arbitrary: token xs st)
  case (Suc n)
  then obtain items more where page: "list_page token = Inr (items, more)" by (cases "list_page token") auto
  show ?case
  proof (cases "more = ''''")
    case True
    then show ?thesis using Suc.prems page by (cases "try_fold f items st") auto
  next
    case False
    then obtain rest where "walk_pages n list_page more = Inr rest" "xs = items @ rest" using Suc.prems page by auto
    then show ?thesis using Suc.IH page False by (cases "try_fold f items st") (auto simp: try_fold_append)
  qed
qed simp

definition usable_rule :: "string \<Rightarrow> string list \<Rightarrow> db \<Rightarrow> DefinitionRule \<Rightarrow> bool" where
  "usable_rule orgId activeVersions s r \<longleftrightarrow>
     (case GetModuleCatalogue orgId (ru_DefinitionId r) s of
        Inl _ \<Rightarrow> False
      | Inr entry \<Rightarrow> mc_Status entry = CatalogueArchived \<longrightarrow>
          archivedCarryForwardVersion (ru_DefinitionId r) activeVersions \<noteq> Inr '''')"

text \<open>What the collection is after the rules \<open>rs\<close>.\<close>

definition collection_ok :: "DefinitionRule list \<Rightarrow> rule_collection \<Rightarrow> bool" where
  "collection_ok rs st \<longleftrightarrow>
     set (rc_rules st) \<subseteq> set rs
     \<and> (\<forall>r\<in>set rs. \<exists>m. rc_max st (rule_kind r) = Some m \<and> rule_specificity r \<le> m)
     \<and> (\<forall>k m. rc_max st k = Some m \<longrightarrow>
          length (filter (\<lambda>r. rule_kind r = k \<and> rule_specificity r = m) (rc_rules st)) = 1)"

lemma consider_rule_ok:
  assumes "collection_ok rs st"
  shows "collection_ok (rs @ [r]) (consider_rule r st)"
proof (cases "case rc_max st (rule_kind r) of None \<Rightarrow> True | Some m \<Rightarrow> rule_specificity r > m")
  case False
  then obtain m where "rc_max st (rule_kind r) = Some m" "rule_specificity r \<le> m" by (auto split: option.splits)
  then show ?thesis using assms False by (auto simp: collection_ok_def consider_rule_def Let_def)
next
  case True
  have st: "consider_rule r st = st\<lparr>rc_max := (rc_max st)(rule_kind r \<mapsto> rule_specificity r), rc_rules := rc_rules st @ [r]\<rparr>"
    using True by (simp add: consider_rule_def Let_def)
  have "\<not> (rule_kind q = rule_kind r \<and> rule_specificity q = rule_specificity r)" if q: "q \<in> set (rc_rules st)" for q
  proof
    assume h: "rule_kind q = rule_kind r \<and> rule_specificity q = rule_specificity r"
    have "q \<in> set rs" using q assms by (auto simp: collection_ok_def)
    then obtain m where "rc_max st (rule_kind r) = Some m" "rule_specificity r \<le> m"
      using assms h unfolding collection_ok_def by metis
    then show False using True by simp
  qed
  then have none: "filter (\<lambda>q. rule_kind q = rule_kind r \<and> rule_specificity q = rule_specificity r) (rc_rules st) = []"
    by (simp add: filter_empty_conv)
  have "\<exists>m. rc_max (consider_rule r st) (rule_kind q) = Some m \<and> rule_specificity q \<le> m" if q: "q \<in> set rs" for q
  proof -
    obtain m where m: "rc_max st (rule_kind q) = Some m" "rule_specificity q \<le> m" using assms q by (auto simp: collection_ok_def)
    then show ?thesis using True by (cases "rule_kind q = rule_kind r") (auto simp: st)
  qed
  moreover have "length (filter (\<lambda>q. rule_kind q = k \<and> rule_specificity q = m) (rc_rules st @ [r])) = 1"
    if h: "rc_max (consider_rule r st) k = Some m" for k m
  proof (cases "k = rule_kind r")
    case True
    then have "m = rule_specificity r" using h by (simp add: st)
    then show ?thesis using none True by simp
  next
    case False
    then have "rc_max st k = Some m" using h by (simp add: st)
    then have "length (filter (\<lambda>q. rule_kind q = k \<and> rule_specificity q = m) (rc_rules st)) = 1"
      using assms by (simp add: collection_ok_def)
    then show ?thesis using False by auto
  qed
  ultimately show ?thesis using assms by (auto simp: collection_ok_def st)
qed

lemma collect_rules_ok:
  assumes "try_fold (collect_rule org active s) rs st = Inr st'" "collection_ok seen st"
  shows "collection_ok (seen @ filter (usable_rule org active s) rs) st'"
  using assms
proof (induction rs arbitrary: st seen)
  case (Cons r rs)
  then obtain t where t: "collect_rule org active s r st = Inr t" "try_fold (collect_rule org active s) rs t = Inr st'"
    by (auto split: sum.splits)
  have arch: "collection_ok seen (st\<lparr>rc_archived := a\<rparr>)" for a using Cons.prems(2) by (simp add: collection_ok_def)
  obtain entry where e: "GetModuleCatalogue org (ru_DefinitionId r) s = Inr entry" using t(1) by (auto simp: collect_rule_def)
  have "collection_ok (seen @ (if usable_rule org active s r then [r] else [])) t"
  proof (cases "mc_Status entry = CatalogueArchived")
    case True
    then obtain version where v: "archivedCarryForwardVersion (ru_DefinitionId r) active = Inr version"
      using t(1) e by (auto simp: collect_rule_def)
    then show ?thesis using t(1) e True Cons.prems(2) consider_rule_ok [OF arch]
      by (cases "version = ''''") (auto simp: collect_rule_def usable_rule_def)
  next
    case False
    then show ?thesis using t(1) e consider_rule_ok [OF Cons.prems(2)] by (auto simp: collect_rule_def usable_rule_def)
  qed
  from Cons.IH [OF t(2) this] show ?case by (simp split: if_splits)
qed simp

text \<open>
  Two rules that apply to the same environment, serve the same kind of resource and are equally
  specific have the same selector: of every dimension they either name the environment's value or
  nothing.
\<close>

lemma specificity_bits:
  "rule_specificity r = (if ru_EnvId r = None then 0 else 4) + (if ru_ProjectId r = None then 0 else 2)
     + (if ru_EnvTypeId r = None then 0 else 1)"
  by (simp add: rule_specificity_def calculateSpecificity_def)

lemma specificity_eqD:
  assumes "rule_specificity q = rule_specificity r"
  shows "(ru_EnvId q = None \<longleftrightarrow> ru_EnvId r = None) \<and> (ru_ProjectId q = None \<longleftrightarrow> ru_ProjectId r = None)
    \<and> (ru_EnvTypeId q = None \<longleftrightarrow> ru_EnvTypeId r = None)"
  using assms by (simp add: specificity_bits split: if_splits)

lemma effective_values:
  assumes "r \<in> set (rules_of org (effective_params p t e) s)"
  shows "ru_OrgId r = org" "ru_ProjectId r = None \<or> ru_ProjectId r = Some p" "ru_EnvTypeId r = None \<or> ru_EnvTypeId r = Some t"
    "ru_EnvId r = None \<or> ru_EnvId r = Some e"
  using assms by (auto simp: rules_of_def rule_selected_def effective_params_def unless_set_def)

lemma equally_specific_rules:
  assumes "rules_inv s" "q \<in> set (rules_of org (effective_params p t e) s)" "r \<in> set (rules_of org (effective_params p t e) s)"
    "rule_kind q = rule_kind r" "rule_specificity q = rule_specificity r"
  shows "q = r"
proof -
  note bits = specificity_eqD [OF assms(5)]
  have "ru_EnvId q = ru_EnvId r" using bits effective_values(4) [OF assms(2)] effective_values(4) [OF assms(3)] by auto
  moreover have "ru_ProjectId q = ru_ProjectId r"
    using bits effective_values(2) [OF assms(2)] effective_values(2) [OF assms(3)] by auto
  moreover have "ru_EnvTypeId q = ru_EnvTypeId r"
    using bits effective_values(3) [OF assms(2)] effective_values(3) [OF assms(3)] by auto
  ultimately have "(ru_OrgId q, rule_selector q) = (ru_OrgId r, rule_selector r)"
    using assms(4) effective_values(1) [OF assms(2)] effective_values(1) [OF assms(3)]
    by (simp add: rule_selector_def rule_kind_def)
  moreover have "q \<in> set (definition_rules s)" "r \<in> set (definition_rules s)"
    using assms(2,3) by (auto simp: rules_of_def)
  ultimately show ?thesis using assms(1)
    unfolding rules_inv_def distinct_map by (auto dest: inj_onD)
qed

lemma collection_selected:
  assumes "collection_ok rs st" "r \<in> set rs"
    and chosen: "chosen = filter (\<lambda>r. rc_max st (rule_kind r) = Some (rule_specificity r)) (rc_rules st)"
  shows "\<exists>q. filter (\<lambda>x. rule_kind x = rule_kind r) chosen = [q] \<and> rule_specificity r \<le> rule_specificity q"
proof -
  obtain m where m: "rc_max st (rule_kind r) = Some m" "rule_specificity r \<le> m"
    using assms(1,2) by (auto simp: collection_ok_def)
  have same: "filter (\<lambda>x. rule_kind x = rule_kind r) chosen
      = filter (\<lambda>x. rule_kind x = rule_kind r \<and> rule_specificity x = m) (rc_rules st)"
    using m(1) by (auto simp: chosen intro!: filter_cong)
  have "length (filter (\<lambda>x. rule_kind x = rule_kind r \<and> rule_specificity x = m) (rc_rules st)) = Suc 0"
    using assms(1) m(1) by (simp add: collection_ok_def)
  then obtain q where q: "filter (\<lambda>x. rule_kind x = rule_kind r \<and> rule_specificity x = m) (rc_rules st) = [q]"
    unfolding length_Suc_conv by auto
  then have "q \<in> set (filter (\<lambda>x. rule_kind x = rule_kind r \<and> rule_specificity x = m) (rc_rules st))" by simp
  then have "rule_specificity q = m" by simp
  then show ?thesis using q same m(2) by auto
qed

lemma getAllModuleRules_collection:
  assumes "getAllModuleRulesAndDefinitionIds parse_uuid requests org p t e active s = Inr (rules, seen, archived)"
    "rules_listable parse_uuid org (effective_params p t e) s"
    "length (rules_of org (effective_params p t e) s) < requests"
  obtains st where
    "collection_ok (filter (usable_rule org active s) (sort_key rule_key (rules_of org (effective_params p t e) s))) st"
    "rules = filter (\<lambda>r. rc_max st (rule_kind r) = Some (rule_specificity r)) (rc_rules st)"
    "seen = remdups (map ru_DefinitionId rules)"
proof -
  define rs where "rs = sort_key rule_key (rules_of org (effective_params p t e) s)"
  have walk: "walk_pages requests (\<lambda>token. ListModuleRules parse_uuid org (effective_params p t e) token
      getModuleCataloguePaginationSize s) [] = Inr rs"
    unfolding rs_def by (rule rule_listing.walk_complete [OF assms(2,3)])
  obtain st where st: "try_fold (collect_rule org active s) rs
      \<lparr>rc_rules = [], rc_max = (\<lambda>_. None), rc_archived = []\<rparr> = Inr st"
    and rules: "rules = filter (\<lambda>r. rc_max st (rule_kind r) = Some (rule_specificity r)) (rc_rules st)"
    and seen: "seen = remdups (map ru_DefinitionId rules)"
    using assms(1) by (auto simp: getAllModuleRulesAndDefinitionIds_def fold_pages_walk [OF walk] Let_def)
  have "collection_ok [] \<lparr>rc_rules = [], rc_max = (\<lambda>_. None), rc_archived = []\<rparr>" by (simp add: collection_ok_def)
  from collect_rules_ok [OF st this] have "collection_ok (filter (usable_rule org active s) rs) st" by simp
  then show thesis using that rules seen unfolding rs_def by blast
qed

section \<open>Properties\<close>

text \<open>
  C35. Rule selection is deterministic and picks the most specific rule. Whenever
  \<^verbatim>\<open>getAllModuleRulesAndDefinitionIds\<close> answers, every effective rule whose module can be used has
  exactly one selected rule of its resource kind, which is that rule itself or strictly more specific
  than it; nothing else is selected, and the module identifiers returned are those of the selected
  rules. It holds over any number of pages (the walk is given one request more than there are rules)
  and rests on the uniqueness of rule selectors.
\<close>

theorem rule_selection_most_specific:
  assumes "getAllModuleRulesAndDefinitionIds parse_uuid requests org p t e active s = Inr (rules, seen, archived)"
    "rules_listable parse_uuid org (effective_params p t e) s" "rules_inv s"
    "length (rules_of org (effective_params p t e) s) < requests"
  shows "set rules \<subseteq> {r \<in> set (rules_of org (effective_params p t e) s). usable_rule org active s r}
    \<and> set seen = ru_DefinitionId ` set rules
    \<and> (\<forall>r \<in> set (rules_of org (effective_params p t e) s). usable_rule org active s r \<longrightarrow>
         (\<exists>q. filter (\<lambda>x. rule_kind x = rule_kind r) rules = [q]
            \<and> (q = r \<or> rule_specificity r < rule_specificity q)))"
proof -
  define eff where "eff = rules_of org (effective_params p t e) s"
  obtain st where ok: "collection_ok (filter (usable_rule org active s) (sort_key rule_key eff)) st"
    and rules: "rules = filter (\<lambda>r. rc_max st (rule_kind r) = Some (rule_specificity r)) (rc_rules st)"
    and seen: "seen = remdups (map ru_DefinitionId rules)"
    unfolding eff_def by (rule getAllModuleRules_collection [OF assms(1,2,4)])
  have sub: "set rules \<subseteq> {r \<in> set eff. usable_rule org active s r}"
    using ok by (auto simp: rules collection_ok_def)
  have "\<exists>q. filter (\<lambda>x. rule_kind x = rule_kind r) rules = [q] \<and> (q = r \<or> rule_specificity r < rule_specificity q)"
    if r: "r \<in> set eff" "usable_rule org active s r" for r
  proof -
    obtain q where q: "filter (\<lambda>x. rule_kind x = rule_kind r) rules = [q]" "rule_specificity r \<le> rule_specificity q"
      using collection_selected [OF ok _ rules] r by auto
    then have "q \<in> set (filter (\<lambda>x. rule_kind x = rule_kind r) rules)" by simp
    then have "q \<in> set eff" "rule_kind q = rule_kind r" using sub by auto
    then have "q = r" if "rule_specificity q = rule_specificity r"
      using equally_specific_rules [OF assms(3)] r(1) that unfolding eff_def by blast
    then show ?thesis using q by fastforce
  qed
  then show ?thesis using sub seen unfolding eff_def by auto
qed

definition example_selection_db :: db where
  "example_selection_db = example_rules_db\<lparr>definition_rules :=
     [example_rule ''basic'' ''r1'' None, example_rule ''large'' ''r2'' (Some ''a'')]\<rparr>"

lemma example_effective_rules:
  "rules_of ''acme'' (effective_params ''a'' ''test'' ''dev'') example_selection_db
     = [example_rule ''basic'' ''r1'' None, example_rule ''large'' ''r2'' (Some ''a'')]"
  by (simp add: rules_of_def rule_selected_def effective_params_def unless_set_def example_selection_db_def
      example_rules_db_def example_scopes_db_def example_rule_def)

lemma example_selection_listable:
  "rules_listable Some ''acme'' (effective_params ''a'' ''test'' ''dev'') example_selection_db"
  by (simp add: rules_listable_def example_effective_rules rule_key_def token_safe_def) (simp add: example_rule_def)

lemma example_selection_usable:
  "usable_rule ''acme'' [] example_selection_db (example_rule ''large'' ''r2'' (Some ''a''))"
  by (simp add: usable_rule_def GetModuleCatalogue_def example_selection_db_def example_rules_db_def example_rule_def
      example_module_def module_matches_def scanModuleCatalogue_def)

lemma example_selection:
  "\<exists>seen archived. getAllModuleRulesAndDefinitionIds Some 3 ''acme'' ''a'' ''test'' ''dev'' [] example_selection_db
     = Inr ([example_rule ''large'' ''r2'' (Some ''a'')], seen, archived)"
proof -
  let ?r1 = "example_rule ''basic'' ''r1'' None" and ?r2 = "example_rule ''large'' ''r2'' (Some ''a'')"
  have walk: "walk_pages 3 (\<lambda>token. ListModuleRules Some ''acme'' (effective_params ''a'' ''test'' ''dev'') token
      getModuleCataloguePaginationSize example_selection_db) '''' = Inr [?r1, ?r2]"
    using rule_listing.walk_complete [OF example_selection_listable, of 3 getModuleCataloguePaginationSize]
    by (simp add: example_effective_rules rule_key_def) (simp add: example_rule_def)
  show ?thesis
    unfolding getAllModuleRulesAndDefinitionIds_def fold_pages_walk [OF walk]
    by (simp add: collect_rule_def GetModuleCatalogue_def
        example_selection_db_def example_rules_db_def example_rule_def example_module_def module_matches_def
        scanModuleCatalogue_def consider_rule_def rule_kind_def specificity_bits Let_def)
qed

theorem rule_selection_most_specific_witness:
  "\<exists>seen archived. getAllModuleRulesAndDefinitionIds Some 3 ''acme'' ''a'' ''test'' ''dev'' [] example_selection_db
     = Inr ([example_rule ''large'' ''r2'' (Some ''a'')], seen, archived) \<and> set seen = {''large''}"
proof -
  let ?r2 = "example_rule ''large'' ''r2'' (Some ''a'')"
  obtain seen archived where sel: "getAllModuleRulesAndDefinitionIds Some 3 ''acme'' ''a'' ''test'' ''dev'' []
      example_selection_db = Inr ([?r2], seen, archived)" using example_selection by blast
  have "rules_inv example_selection_db"
    by (simp add: rules_inv_def example_selection_db_def example_rules_db_def example_scopes_db_def example_rule_def
        empty_db_def rule_selector_def)
  from rule_selection_most_specific [OF sel example_selection_listable this]
  have "set seen = {''large''}" by (simp add: example_effective_rules) (simp add: example_rule_def)
  with sel show ?thesis by blast
qed

definition example_two_orgs :: db where
  "example_two_orgs = example_scopes_db\<lparr>orgs := [''acme'', ''globex''],
     resource_types := [example_type\<lparr>rt_OrgId := None, rt_IsDeveloperAccessible := True\<rparr>],
     definition_rules := [(example_rule ''m'' ''r1'' None)\<lparr>ru_OrgId := ''globex'', ru_EnvTypeId := Some ''test''\<rparr>]\<rparr>"

text \<open>
  The listing of available resource types looks the environment up by project and environment
  identifier alone. In a consistent database an organisation that has no such environment gets an
  answer that is computed from the environment of another organisation: \<^verbatim>\<open>GetEnvironment\<close> reports that
  the environment does not exist, the listing does not.
\<close>

theorem ListAvailableResourceTypes_crosses_organisations:
  "scopes_inv example_two_orgs \<and> rules_inv example_two_orgs
   \<and> map en_OrgId (envs example_two_orgs) = [''acme'', ''acme'']
   \<and> GetEnvironment ''globex'' ''a'' ''dev'' example_two_orgs = Inl (NewErrNotFound ''environment not found'')
   \<and> map_sum id (map at_Id \<circ> fst)
       (ListAvailableResourceTypes ''globex'' ''a'' ''dev'' None None '''' 10 example_two_orgs) = Inr [''bucket'']"
proof (intro conjI)
  show "scopes_inv example_two_orgs" using example_scopes_inv
    by (auto simp: scopes_inv_def example_two_orgs_def example_scopes_db_def example_env_def example_project_def
        env_refs_ok_def project_keys_def env_type_keys_def)
  show "rules_inv example_two_orgs"
    by (simp add: rules_inv_def example_two_orgs_def example_scopes_db_def empty_db_def)
  show "map en_OrgId (envs example_two_orgs) = [''acme'', ''acme'']"
    by (simp add: example_two_orgs_def example_scopes_db_def example_env_def)
  show "GetEnvironment ''globex'' ''a'' ''dev'' example_two_orgs = Inl (NewErrNotFound ''environment not found'')"
    by (simp add: GetEnvironment_def env_at_def example_two_orgs_def example_scopes_db_def example_env_def)
  show "map_sum id (map at_Id \<circ> fst)
      (ListAvailableResourceTypes ''globex'' ''a'' ''dev'' None None '''' 10 example_two_orgs) = Inr [''bucket'']"
    by (simp add: ListAvailableResourceTypes_def example_two_orgs_def example_scopes_db_def example_env_def example_rule_def
        example_type_def rule_applies_def rule_option_def latest_params_def Let_def)
qed

end
