(* ===== verification/Concurrency.thy ===== *)
theory Concurrency
  imports VersionHistory
begin

text \<open>
  Optimistic concurrency. Most commands of the control plane name the resource version that their
  author has read; the database changes the row only if it still has this version, and counts it up.
  The locale states this contract once and derives what clients rely on: of all the commands that were
  prepared against one version, at most one takes effect. Every component that works this way interprets
  it; here it is interpreted for the commands on a catalogue entry.
\<close>

section \<open>The contract\<close>

locale optimistic =
  fixes attempt :: "'c \<Rightarrow> int \<Rightarrow> 's \<Rightarrow> 's option"
    and version :: "'s \<Rightarrow> int option"
    and good :: "'s \<Rightarrow> bool"
  assumes attempt_good: "good s \<Longrightarrow> attempt c e s = Some s' \<Longrightarrow> good s'"
    and attempt_checked: "good s \<Longrightarrow> attempt c e s = Some s' \<Longrightarrow> version s = Some e"
    and attempt_counts: "good s \<Longrightarrow> attempt c e s = Some s' \<Longrightarrow> s' = s \<or> version s' = Some (e + 1)"
begin

inductive attempts :: "'s \<Rightarrow> 's \<Rightarrow> bool" where
  attempts_none: "attempts s s"
| attempts_more: "attempts s t \<Longrightarrow> attempt c e t = Some u \<Longrightarrow> attempts s u"

lemma attempts_good: "attempts s s' \<Longrightarrow> good s \<Longrightarrow> good s'"
  by (induction rule: attempts.induct) (auto intro: attempt_good)

lemma attempts_grow:
  assumes "attempts s s'" "good s" "version s = Some n"
  shows "\<exists>m \<ge> n. version s' = Some m"
  using assms
proof (induction rule: attempts.induct)
  case (attempts_more s t c e u)
  then obtain m where m: "m \<ge> n" "version t = Some m" by auto
  have "good t" using attempts_more attempts_good by blast
  then have "e = m" "u = t \<or> version u = Some (e + 1)"
    using attempt_checked [of t c e u] attempt_counts [of t c e u] attempts_more.hyps(2) m(2) by auto
  then show ?case using m by auto
qed auto

lemma no_lost_update:
  assumes "good s" "attempt c e s = Some t" "t \<noteq> s" "attempts t u"
  shows "attempt c' e u = None"
proof (rule ccontr)
  assume "attempt c' e u \<noteq> None"
  then obtain v where v: "attempt c' e u = Some v" by auto
  have t: "good t" "version t = Some (e + 1)"
    using attempt_good [OF assms(1,2)] attempt_counts [OF assms(1,2)] assms(3) by simp_all
  obtain m where "m \<ge> e + 1" "version u = Some m" using attempts_grow [OF assms(4) t] by blast
  moreover have "version u = Some e" using attempt_checked [OF attempts_good [OF assms(4) t(1)] v] .
  ultimately show False by simp
qed

end

text \<open>The state after an operation that may fail.\<close>

definition succeeded :: "('a \<times> 's) result \<Rightarrow> 's option" where
  "succeeded r = (case r of Inl _ \<Rightarrow> None | Inr (x, s) \<Rightarrow> Some s)"

lemma succeeded_Some [simp]: "succeeded r = Some s \<longleftrightarrow> (\<exists>x. r = Inr (x, s))"
  by (auto simp: succeeded_def split: sum.splits)

section \<open>Commands on a catalogue entry\<close>

datatype entry_command =
    UpdateMetadata string string "(string \<times> string) list"
  | SetStatus string uuid string timestamp

definition entry_attempt :: "string \<Rightarrow> string \<Rightarrow> entry_command \<Rightarrow> int \<Rightarrow> db \<Rightarrow> db option" where
  "entry_attempt org ref c e s =
     (case c of
        UpdateMetadata name descr tags \<Rightarrow> succeeded (UpdateModuleCatalogueMetadata org ref name descr tags e s)
      | SetStatus target actor reason now \<Rightarrow> succeeded (SetModuleCatalogueStatus org ref target actor reason e now s))"

definition entry_version :: "string \<Rightarrow> string \<Rightarrow> db \<Rightarrow> int option" where
  "entry_version org ref s = map_option d_resource_version (find (module_matches org ref) (definitions s))"

lemma set_status_cases:
  assumes "SetModuleCatalogueStatus org ref target actor reason e now s = Inr (m, s')"
  obtains d :: definitions_row where "find (module_matches org ref) (definitions s) = Some d" "d_resource_version d = e" "s' = s"
  | d :: definitions_row and status where "find (module_matches org ref) (definitions s) = Some d" "d_resource_version d = e"
      "status = CatalogueArchived \<Longrightarrow> ListModuleOperationReservations org (d_uuid d) False s = []"
      "reservations s' = reservations s"
      "definitions s' = upd_where (\<lambda>x. d_org_id x = org \<and> d_uuid x = d_uuid d)
         (set_module_status status actor (TrimSpace reason) now) (definitions s)"
proof -
  obtain d where d: "find (module_matches org ref) (definitions s) = Some d"
    using assms by (auto simp: SetModuleCatalogueStatus_def GetModuleCatalogue_Inr split: option.splits)
  have r: "RequireTransitionReason reason = None"
    using assms by (cases "RequireTransitionReason reason") (simp_all add: SetModuleCatalogueStatus_def)
  note a = assms [unfolded SetModuleCatalogueStatus_def r GetModuleCatalogue_def d, simplified]
  show thesis
  proof (cases "CatalogueStatus_text (d_catalogue_status d) = target")
    case True
    then show thesis using a by (intro that(1) [OF d]) auto
  next
    case False
    obtain status where "CatalogueStatus_of_text target = Some status" using a False by auto
    then show thesis using a False by (intro that(2) [OF d, of status]) (auto simp: Let_def)
  qed
qed

lemma find_matches_upd:
  assumes "\<And>d. P d \<Longrightarrow> module_matches org ref (f d) = module_matches org ref d"
    "find (module_matches org ref) rows = Some d" "P d"
  shows "find (module_matches org ref) (upd_where P f rows) = Some (f d)"
  using assms by (simp add: find_upd_where)

lemma entry_attempt_counts:
  assumes "catalogue_inv s" "entry_attempt org ref c e s = Some s'"
  shows "entry_version org ref s = Some e \<and> (s' = s \<or> entry_version org ref s' = Some (e + 1))"
proof (cases c)
  case (UpdateMetadata name descr tags)
  let ?hit = "\<lambda>d. module_matches org ref d \<and> d_resource_version d = e"
  let ?f = "\<lambda>d. d\<lparr>d_display_name := name, d_description := Some descr, d_tags := tags, d_resource_version := d_resource_version d + 1\<rparr>"
  obtain d where d: "find ?hit (definitions s) = Some d" and s': "s' = s\<lparr>definitions := upd_where ?hit ?f (definitions s)\<rparr>"
    using assms(2) UpdateMetadata by (auto simp: entry_attempt_def UpdateModuleCatalogueMetadata_def Let_def)
  have dm: "d \<in> set (definitions s)" "module_matches org ref d" "d_resource_version d = e" using find_in_set [OF d] by simp_all
  obtain x where x: "find (module_matches org ref) (definitions s) = Some x"
    using dm by (cases "find (module_matches org ref) (definitions s)") (auto simp: find_None_iff)
  have "x = d" using module_unique [of "definitions s" "definition_versions s" x d org ref] find_in_set [OF x] dm(1,2) assms(1)
    by (simp add: catalogue_inv_def)
  then show ?thesis using x dm find_matches_upd [of ?hit org ref ?f "definitions s" d]
    by (simp add: entry_version_def s' module_matches_def)
next
  case (SetStatus target actor reason now)
  then obtain m where "SetModuleCatalogueStatus org ref target actor reason e now s = Inr (m, s')"
    using assms(2) by (auto simp: entry_attempt_def)
  then show ?thesis
  proof (rule set_status_cases)
    fix d status
    assume d: "find (module_matches org ref) (definitions s) = Some d" "d_resource_version d = e"
      and s': "definitions s' = upd_where (\<lambda>x. d_org_id x = org \<and> d_uuid x = d_uuid d)
         (set_module_status status actor (TrimSpace reason) now) (definitions s)"
    have "d_org_id d = org" using find_in_set [OF d(1)] by (simp add: module_matches_def)
    then show ?thesis using d find_matches_upd [of "\<lambda>x. d_org_id x = org \<and> d_uuid x = d_uuid d" org ref
        "set_module_status status actor (TrimSpace reason) now", OF _ d(1)]
      by (simp add: entry_version_def s' module_matches_def)
  qed (simp add: entry_version_def)
qed

interpretation entry: optimistic "entry_attempt org ref" "entry_version org ref" catalogue_inv for org ref
proof
  fix s s' c e
  assume "catalogue_inv s" and a: "entry_attempt org ref c e s = Some s'"
  then show "catalogue_inv s'" using update_metadata_preserves set_status_preserves
    by (cases c) (auto simp: entry_attempt_def)
qed (use entry_attempt_counts in blast)+

section \<open>Properties\<close>

text \<open>
  No lost update of a catalogue entry: once a metadata or status command prepared against resource
  version \<open>e\<close> has changed the entry, every other command prepared against \<open>e\<close> is refused, however many
  commands come in between.
\<close>

theorem entry_no_lost_update:
  assumes "catalogue_inv s" "entry_attempt org ref c e s = Some t" "t \<noteq> s" "entry.attempts org ref t u"
  shows "entry_attempt org ref c' e u = None"
  using assms by (rule entry.no_lost_update)

theorem entry_no_lost_update_witness:
  "\<exists>t. entry_attempt ''acme'' ''db'' (UpdateMetadata ''Database'' '''' []) 1 example_catalogue_db = Some t
     \<and> entry_attempt ''acme'' ''db'' (UpdateMetadata ''Storage'' '''' []) 1 t = None"
proof -
  obtain t where t: "entry_attempt ''acme'' ''db'' (UpdateMetadata ''Database'' '''' []) 1 example_catalogue_db = Some t"
      and d: "map d_display_name (definitions t) = [''Database'']"
    by (simp add: entry_attempt_def UpdateModuleCatalogueMetadata_def example_catalogue_db_def module_matches_def Let_def)
  have "map d_display_name (definitions example_catalogue_db) = [''db'']" by (simp add: example_catalogue_db_def)
  with d have "t \<noteq> example_catalogue_db" by auto
  from entry_no_lost_update [OF example_catalogue_inv t this entry.attempts_none] t show ?thesis by blast
qed

end
