(* ===== verification/Drafts.thy ===== *)
theory Drafts
  imports Concurrency
begin

text \<open>
  Draft authoring (\<^verbatim>\<open>internal/model/module_drafts.go\<close>, migration 50). A Draft is the head of an append-only
  list of revisions. A \<^verbatim>\<open>json.RawMessage\<close> is modelled by its length in bytes and the value it decodes
  to, \<open>None\<close> when it is no valid JSON; the database stores the value. The slug of the module that a read
  adds to the row comes with it as a second component.
\<close>

record RawMessage =
  rm_length :: int
  rm_value :: "json option"

definition maxModuleDraftBytes :: int where
  "maxModuleDraftBytes = 2 * 1024 * 1024"

fun json_object_of :: "json option \<Rightarrow> json_object option" where
  "json_object_of (Some (JObj obj)) = Some obj"
| "json_object_of _ = None"

definition validateDraftCommand :: "uuid \<Rightarrow> string \<Rightarrow> RawMessage option \<Rightarrow> model_error option" where
  "validateDraftCommand actor reason content =
     (if actor = Nil_uuid \<or> TrimSpace reason = '''' \<or> length reason > 2000
      then Some (NewErrBadRequest ''actor and non-empty reason of at most 2000 bytes are required'')
      else (case content of
          None \<Rightarrow> None
        | Some c \<Rightarrow>
            if rm_length c > maxModuleDraftBytes \<or> json_object_of (rm_value c) = None
            then Some (NewErrBadRequest ''Draft content must be a JSON object of at most 2 MiB'') else None))"

definition draft_matches :: "string \<Rightarrow> string \<Rightarrow> uuid \<Rightarrow> db \<Rightarrow> ModuleDraft \<Rightarrow> bool" where
  "draft_matches orgID moduleRef i s d \<longleftrightarrow>
     md_OrgID d = orgID \<and> md_ID d = i
     \<and> list_ex (\<lambda>m. d_uuid m = md_ModuleUUID d \<and> (d_id m = moduleRef \<or> d_uuid m = moduleRef)) (definitions s)"

definition draft_slug :: "db \<Rightarrow> ModuleDraft \<Rightarrow> string" where
  "draft_slug s d = (case find (\<lambda>m. d_uuid m = md_ModuleUUID d) (definitions s) of None \<Rightarrow> '''' | Some m \<Rightarrow> d_id m)"

definition GetModuleDraft :: "string \<Rightarrow> string \<Rightarrow> uuid \<Rightarrow> db \<Rightarrow> (ModuleDraft \<times> string) result" where
  "GetModuleDraft orgID moduleRef i s =
     require_some (NewErrNotFound ''Module Draft not found'')
       (map_option (\<lambda>d. (d, draft_slug s d)) (find (draft_matches orgID moduleRef i s) (drafts s)))"

definition GetModuleDraftRevision :: "string \<Rightarrow> string \<Rightarrow> uuid \<Rightarrow> int \<Rightarrow> db \<Rightarrow> ModuleDraftRevision result" where
  "GetModuleDraftRevision orgID moduleRef i revision s =
     try_then (GetModuleDraft orgID moduleRef i s) (\<lambda>_.
     require_some (NewErrNotFound ''Module Draft revision not found'')
       (find (\<lambda>r. dr_DraftID r = i \<and> dr_ResourceVersion r = revision) (draft_revisions s)))"

definition ListModuleDrafts :: "string \<Rightarrow> string \<Rightarrow> uuid \<Rightarrow> int \<Rightarrow> db \<Rightarrow> (ModuleDraft \<times> string) list result" where
  "ListModuleDrafts orgID moduleRef after limit s =
     fail_if (limit < 1 \<or> limit > 101) (NewErrBadRequest ''invalid Module Draft page size'')
    (try_then (GetModuleCatalogue orgID moduleRef s) (\<lambda>entry.
     Inr (map (\<lambda>d. (d, draft_slug s d)) (take (nat limit) (sort_key md_ID
       (filter (\<lambda>d. md_OrgID d = orgID \<and> md_ModuleUUID d = mc_UUID entry \<and> after < md_ID d) (drafts s)))))))"

definition draft_revisions_constraints :: "(ModuleDraftRevision, string \<times> int) constraint list" where
  "draft_revisions_constraints =
     [(''module_draft_revisions_pkey'', \<lambda>r. Some (dr_DraftID r, dr_ResourceVersion r))]"

definition recordModuleDraftRevision ::
  "string \<Rightarrow> string \<Rightarrow> uuid \<Rightarrow> uuid \<Rightarrow> string \<Rightarrow> timestamp \<Rightarrow> db \<Rightarrow> ((ModuleDraft \<times> string) \<times> db) result" where
  "recordModuleDraftRevision orgID moduleRef i actor reason now s =
     try_then (try_fold (\<lambda>d rows. insert_row draft_revisions_constraints
         \<lparr>dr_DraftID = md_ID d, dr_ResourceVersion = md_ResourceVersion d, dr_Content = md_Content d, dr_Status = md_Status d,
          dr_PublishedVersionUUID = md_PublishedVersionUUID d, dr_CreatedAt = now, dr_Actor = actor,
          dr_Reason = TrimSpace reason\<rparr> rows)
       (filter (\<lambda>d. md_ID d = i) (drafts s)) (draft_revisions s)) (\<lambda>rows.
     let s1 = s\<lparr>draft_revisions := rows\<rparr> in
     try_then (GetModuleDraft orgID moduleRef i s1) (\<lambda>result.
     Inr (result, appendModuleCoreOutboxEvent ''io.platform-orchestrator.module.draft.changed''
       [(''org_id'', JStr orgID), (''module_uuid'', JStr (md_ModuleUUID (fst result))), (''draft_id'', JStr i),
        (''resource_version'', jint (md_ResourceVersion (fst result))), (''status'', JStr (md_Status (fst result))),
        (''actor'', JStr actor), (''reason'', JStr (TrimSpace reason))] s1)))"

definition open_key :: "ModuleDraft \<Rightarrow> string option" where
  "open_key d = (if md_Status d = ''open'' then Some (md_ModuleUUID d) else None)"

definition drafts_constraints :: "(ModuleDraft, string) constraint list" where
  "drafts_constraints = [(''module_drafts_pkey'', \<lambda>d. Some (md_ID d)), (''module_drafts_one_open'', open_key)]"

definition CreateModuleDraft ::
  "string \<Rightarrow> string \<Rightarrow> RawMessage option \<Rightarrow> uuid \<Rightarrow> string \<Rightarrow> uuid \<Rightarrow> timestamp \<Rightarrow> db \<Rightarrow> ((ModuleDraft \<times> string) \<times> db) result" where
  "CreateModuleDraft orgID moduleRef content actor reason new_id now s =
     (case validateDraftCommand actor reason content of
        Some e \<Rightarrow> Inl e
      | None \<Rightarrow>
        (case content of
           None \<Rightarrow> Inl (NewErrBadRequest ''Draft content is required'')
         | Some c \<Rightarrow>
           try_then (GetModuleCatalogue orgID moduleRef s) (\<lambda>entry.
           fail_if (mc_Status entry \<noteq> CatalogueActive) (NewErrConflict ''archived Modules do not accept Draft authoring'')
          (try_then
             (map_error (\<lambda>e. if isUniqueViolation e [''module_drafts_one_open'']
                then NewErrConflict ''Module already has an open Draft'' else e)
              (insert_row drafts_constraints
                \<lparr>md_ID = new_id, md_OrgID = orgID, md_ModuleUUID = mc_UUID entry, md_ResourceVersion = 1,
                 md_Content = the (rm_value c), md_Status = ''open'', md_PublishedVersionUUID = None, md_CreatedAt = now,
                 md_CreatedBy = actor, md_UpdatedAt = now, md_UpdatedBy = actor\<rparr> (drafts s))) (\<lambda>rows.
           recordModuleDraftRevision orgID moduleRef new_id actor reason now (s\<lparr>drafts := rows\<rparr>))))))"

definition changeModuleDraft ::
  "string \<Rightarrow> string \<Rightarrow> uuid \<Rightarrow> int \<Rightarrow> RawMessage option \<Rightarrow> string \<Rightarrow> uuid option \<Rightarrow> uuid \<Rightarrow> string \<Rightarrow> timestamp \<Rightarrow> db
   \<Rightarrow> ((ModuleDraft \<times> string) \<times> db) result" where
  "changeModuleDraft orgID moduleRef i expected content status published actor reason now s =
     (case validateDraftCommand actor reason content of
        Some e \<Rightarrow> Inl e
      | None \<Rightarrow>
        try_then (GetModuleCatalogue orgID moduleRef s) (\<lambda>entry.
        try_then (GetModuleDraft orgID moduleRef i s) (\<lambda>(current, _).
        fail_if (md_Status current \<noteq> ''open'' \<or> md_ResourceVersion current \<noteq> expected)
          (NewErrConflict ''Draft changed since it was read or is already closed'')
       (fail_if (mc_Status entry \<noteq> CatalogueActive \<and> status \<noteq> ''discarded'')
          (NewErrConflict ''archived Modules do not accept Draft authoring'')
       (let body = (case content of None \<Rightarrow> md_Content current | Some c \<Rightarrow> the (rm_value c)) in
        fail_if (case published of None \<Rightarrow> False | Some u \<Rightarrow>
            \<not> list_ex (\<lambda>v. v_module_uuid v = md_ModuleUUID current \<and> v_uuid v = u) (definition_versions s))
          (ErrConstraint ''module_drafts_module_uuid_published_version_uuid_fkey'')
       (recordModuleDraftRevision orgID moduleRef i actor reason now
          (s\<lparr>drafts := upd_where (\<lambda>d. md_ID d = i)
             (\<lambda>d. d\<lparr>md_Content := body, md_Status := status, md_PublishedVersionUUID := published,
                md_ResourceVersion := md_ResourceVersion d + 1, md_UpdatedAt := now, md_UpdatedBy := actor\<rparr>)
             (drafts s)\<rparr>)))))))"

definition UpdateModuleDraft ::
  "string \<Rightarrow> string \<Rightarrow> uuid \<Rightarrow> int \<Rightarrow> RawMessage option \<Rightarrow> uuid \<Rightarrow> string \<Rightarrow> timestamp \<Rightarrow> db
   \<Rightarrow> ((ModuleDraft \<times> string) \<times> db) result" where
  "UpdateModuleDraft orgID moduleRef i expected content actor reason now s =
     fail_if (content = None) (NewErrBadRequest ''Draft content is required'')
       (changeModuleDraft orgID moduleRef i expected content ''open'' None actor reason now s)"

definition CloseModuleDraft ::
  "string \<Rightarrow> string \<Rightarrow> uuid \<Rightarrow> int \<Rightarrow> uuid option \<Rightarrow> uuid \<Rightarrow> string \<Rightarrow> timestamp \<Rightarrow> db
   \<Rightarrow> ((ModuleDraft \<times> string) \<times> db) result" where
  "CloseModuleDraft orgID moduleRef i expected published actor reason now s =
     changeModuleDraft orgID moduleRef i expected None (if published = None then ''discarded'' else ''published'')
       published actor reason now s"

section \<open>Writing a revision\<close>

definition revision_of :: "ModuleDraft \<Rightarrow> ModuleDraftRevision \<Rightarrow> bool" where
  "revision_of d r \<longleftrightarrow> dr_DraftID r = md_ID d \<and> dr_ResourceVersion r = md_ResourceVersion d \<and> dr_Content r = md_Content d
     \<and> dr_Status r = md_Status d \<and> dr_PublishedVersionUUID r = md_PublishedVersionUUID d"

lemma filter_unique_key:
  assumes "distinct (map k rows)" "r \<in> set rows"
  shows "filter (\<lambda>x. k x = k r) rows = [r]"
  using assms
proof (induction rows)
  case (Cons a rows)
  show ?case
  proof (cases "a = r")
    case True
    have "filter (\<lambda>x. k x = k r) rows = []" using Cons.prems(1) True by (auto simp: filter_empty_conv image_iff)
    then show ?thesis using True by simp
  next
    case False
    then show ?thesis using Cons by (auto simp: image_iff)
  qed
qed simp

lemma record_Inr:
  assumes "recordModuleDraftRevision org ref i actor reason now s = Inr (res, s')"
    and "distinct (map md_ID (drafts s))" "d \<in> set (drafts s)" "md_ID d = i"
  shows "drafts s' = drafts s \<and> definitions s' = definitions s
    \<and> (\<exists>r. revision_of d r \<and> draft_revisions s' = draft_revisions s @ [r])"
proof -
  have "filter (\<lambda>x. md_ID x = i) (drafts s) = [d]" using filter_unique_key [OF assms(2,3)] assms(4) by simp
  then show ?thesis using assms(1)
    by (auto simp: recordModuleDraftRevision_def Let_def insert_row_Inr_iff revision_of_def split: sum.splits)
qed

lemma create_draft_Inr:
  assumes "CreateModuleDraft org ref content actor reason new now s = Inr (res, s')" "distinct (map md_ID (drafts s))"
  obtains d r where "drafts s' = drafts s @ [d]" "draft_revisions s' = draft_revisions s @ [r]" "revision_of d r"
    "md_ID d \<notin> md_ID ` set (drafts s)" "\<not> violates open_key d (drafts s)" "md_ResourceVersion d = 1" "md_Status d = ''open''"
    "md_PublishedVersionUUID d = None"
proof -
  obtain c where c: "content = Some c" "validateDraftCommand actor reason content = None"
    using assms(1) by (auto simp: CreateModuleDraft_def split: option.splits)
  obtain entry where e: "GetModuleCatalogue org ref s = Inr entry"
    using assms(1) c by (auto simp: CreateModuleDraft_def)
  let ?d = "\<lparr>md_ID = new, md_OrgID = org, md_ModuleUUID = mc_UUID entry, md_ResourceVersion = 1,
      md_Content = the (rm_value c), md_Status = ''open'', md_PublishedVersionUUID = None, md_CreatedAt = now,
      md_CreatedBy = actor, md_UpdatedAt = now, md_UpdatedBy = actor\<rparr>"
  obtain rows where rows: "insert_row drafts_constraints ?d (drafts s) = Inr rows"
    and rec: "recordModuleDraftRevision org ref new actor reason now (s\<lparr>drafts := rows\<rparr>) = Inr (res, s')"
    using assms(1) c e by (auto simp: CreateModuleDraft_def)
  have ins: "rows = drafts s @ [?d]" "new \<notin> md_ID ` set (drafts s)" "\<not> violates open_key ?d (drafts s)"
    using rows by (auto simp: insert_row_Inr_iff drafts_constraints_def violates_def list_ex_iff)
  have "distinct (map md_ID rows)" using assms(2) ins(1,2) by simp
  from record_Inr [OF rec, of ?d] this obtain r where "drafts s' = rows" "draft_revisions s' = draft_revisions s @ [r]" "revision_of ?d r"
    using ins(1) by auto
  then show thesis using ins by (intro that [of ?d r]) simp_all
qed

lemma change_draft_Inr:
  assumes "changeModuleDraft org ref i e content status published actor reason now s = Inr (res, s')" "distinct (map md_ID (drafts s))"
  obtains d f r where "d \<in> set (drafts s)" "md_ID d = i" "md_Status d = ''open''" "md_ResourceVersion d = e"
    "drafts s' = upd_where (\<lambda>d. md_ID d = i) f (drafts s)" "draft_revisions s' = draft_revisions s @ [r]" "revision_of (f d) r"
    "\<forall>x. md_ID (f x) = md_ID x \<and> md_OrgID (f x) = md_OrgID x \<and> md_ModuleUUID (f x) = md_ModuleUUID x
       \<and> md_ResourceVersion (f x) = md_ResourceVersion x + 1 \<and> md_Status (f x) = status \<and> md_PublishedVersionUUID (f x) = published
       \<and> md_CreatedBy (f x) = md_CreatedBy x \<and> md_CreatedAt (f x) = md_CreatedAt x"
proof -
  have v: "validateDraftCommand actor reason content = None" using assms(1) by (auto simp: changeModuleDraft_def split: option.splits)
  obtain d where d: "find (draft_matches org ref i s) (drafts s) = Some d"
    using assms(1) v by (auto simp: changeModuleDraft_def GetModuleDraft_def)
  define body where "body = (case content of None \<Rightarrow> md_Content d | Some c \<Rightarrow> the (rm_value c))"
  let ?f = "\<lambda>d. d\<lparr>md_Content := body, md_Status := status, md_PublishedVersionUUID := published,
      md_ResourceVersion := md_ResourceVersion d + 1, md_UpdatedAt := now, md_UpdatedBy := actor\<rparr>"
  have a: "md_Status d = ''open''" "md_ResourceVersion d = e"
    and rec: "recordModuleDraftRevision org ref i actor reason now (s\<lparr>drafts := upd_where (\<lambda>d. md_ID d = i) ?f (drafts s)\<rparr>) = Inr (res, s')"
    using assms(1) v d by (auto simp: changeModuleDraft_def GetModuleDraft_def Let_def body_def)
  have m: "d \<in> set (drafts s)" "md_ID d = i" using find_in_set [OF d] by (simp_all add: draft_matches_def)
  have fd: "?f d \<in> set (upd_where (\<lambda>d. md_ID d = i) ?f (drafts s))"
    using upd_where_intro [OF m(1), of "\<lambda>d. md_ID d = i" ?f] m(2) by simp
  have "distinct (map md_ID (upd_where (\<lambda>d. md_ID d = i) ?f (drafts s)))" using assms(2) by (simp add: map_upd_where)
  from record_Inr [OF rec, of "?f d"] this fd m(2)
  obtain r where "drafts s' = upd_where (\<lambda>d. md_ID d = i) ?f (drafts s)" "draft_revisions s' = draft_revisions s @ [r]" "revision_of (?f d) r"
    by auto
  then show thesis by (rule that [OF m a]) simp_all
qed

section \<open>Drafts and their histories\<close>

definition revisions_of :: "uuid \<Rightarrow> ModuleDraftRevision list \<Rightarrow> ModuleDraftRevision list" where
  "revisions_of i rs = filter (\<lambda>r. dr_DraftID r = i) rs"

text \<open>A Draft is the head of its history: revisions 1 to n in order, the last of which is the Draft.\<close>

definition heads_history :: "ModuleDraftRevision list \<Rightarrow> ModuleDraft \<Rightarrow> bool" where
  "heads_history rs d \<longleftrightarrow>
     revisions_of (md_ID d) rs \<noteq> [] \<and> map dr_ResourceVersion (revisions_of (md_ID d) rs) = [1..md_ResourceVersion d]
     \<and> revision_of d (last (revisions_of (md_ID d) rs))"

definition drafts_inv :: "db \<Rightarrow> bool" where
  "drafts_inv s \<longleftrightarrow>
     distinct (map md_ID (drafts s)) \<and> keys_unique open_key (drafts s)
     \<and> (\<forall>d \<in> set (drafts s). heads_history (draft_revisions s) d)
     \<and> dr_DraftID ` set (draft_revisions s) \<subseteq> md_ID ` set (drafts s)"

inductive draft_step :: "db \<Rightarrow> db \<Rightarrow> bool" where
  drafts_frame: "drafts s' = drafts s \<Longrightarrow> draft_revisions s' = draft_revisions s \<Longrightarrow> draft_step s s'"
| create_draft: "CreateModuleDraft org ref content actor reason new now s = Inr (res, s') \<Longrightarrow> draft_step s s'"
| update_draft: "UpdateModuleDraft org ref i e content actor reason now s = Inr (res, s') \<Longrightarrow> draft_step s s'"
| close_draft: "CloseModuleDraft org ref i e published actor reason now s = Inr (res, s') \<Longrightarrow> draft_step s s'"

text \<open>What a step keeps of the Drafts there are.\<close>

definition keeps_draft :: "ModuleDraft \<Rightarrow> ModuleDraft \<Rightarrow> bool" where
  "keeps_draft d d' \<longleftrightarrow> md_ID d' = md_ID d \<and> md_OrgID d' = md_OrgID d \<and> md_ModuleUUID d' = md_ModuleUUID d
     \<and> md_CreatedBy d' = md_CreatedBy d \<and> (md_Status d \<noteq> ''open'' \<longrightarrow> d' = d)"

definition draft_progress :: "db \<Rightarrow> db \<Rightarrow> bool" where
  "draft_progress s s' \<longleftrightarrow> drafts_inv s' \<and> (\<exists>new. draft_revisions s' = draft_revisions s @ new)
     \<and> (\<forall>d \<in> set (drafts s). \<exists>d' \<in> set (drafts s'). keeps_draft d d')"

lemma create_draft_progress:
  assumes "CreateModuleDraft org ref content actor reason new now s = Inr (res, s')" "drafts_inv s"
  shows "draft_progress s s'"
proof -
  have dist: "distinct (map md_ID (drafts s))" using assms(2) by (simp add: drafts_inv_def)
  obtain d r where s': "drafts s' = drafts s @ [d]" "draft_revisions s' = draft_revisions s @ [r]" "revision_of d r"
    and d: "md_ID d \<notin> md_ID ` set (drafts s)" "\<not> violates open_key d (drafts s)" "md_ResourceVersion d = 1"
    by (rule create_draft_Inr [OF assms(1) dist])
  have r: "dr_DraftID r = md_ID d" "dr_ResourceVersion r = 1" using s'(3) d(3) by (simp_all add: revision_of_def)
  have "md_ID d \<notin> dr_DraftID ` set (draft_revisions s)" using assms(2) d(1) unfolding drafts_inv_def by blast
  then have "revisions_of (md_ID d) (draft_revisions s) = []" by (auto simp: revisions_of_def filter_empty_conv image_iff)
  then have "heads_history (draft_revisions s') d" using s' r d(3) by (simp add: heads_history_def revisions_of_def)
  moreover have "heads_history (draft_revisions s') x" if x: "x \<in> set (drafts s)" for x
  proof -
    have "md_ID x \<noteq> md_ID d" using x d(1) by (metis imageI)
    then show ?thesis using assms(2) x r by (simp add: s' heads_history_def revisions_of_def drafts_inv_def)
  qed
  moreover have "dr_DraftID ` set (draft_revisions s') \<subseteq> md_ID ` set (drafts s')"
    using assms(2) r(1) by (auto simp: s' drafts_inv_def)
  ultimately have "drafts_inv s'" using assms(2) d(1,2) by (auto simp: drafts_inv_def s'(1) keys_unique_snoc)
  then show ?thesis unfolding draft_progress_def by (auto simp: s' keeps_draft_def)
qed

lemma change_draft_progress:
  assumes "changeModuleDraft org ref i e content status published actor reason now s = Inr (res, s')" "drafts_inv s"
  shows "draft_progress s s'"
proof -
  have dist: "distinct (map md_ID (drafts s))" using assms(2) by (simp add: drafts_inv_def)
  obtain d f r where d: "d \<in> set (drafts s)" "md_ID d = i" "md_Status d = ''open''"
    and s': "drafts s' = upd_where (\<lambda>d. md_ID d = i) f (drafts s)" "draft_revisions s' = draft_revisions s @ [r]" "revision_of (f d) r"
    and f: "\<forall>x. md_ID (f x) = md_ID x \<and> md_OrgID (f x) = md_OrgID x \<and> md_ModuleUUID (f x) = md_ModuleUUID x
       \<and> md_ResourceVersion (f x) = md_ResourceVersion x + 1 \<and> md_Status (f x) = status \<and> md_PublishedVersionUUID (f x) = published
       \<and> md_CreatedBy (f x) = md_CreatedBy x \<and> md_CreatedAt (f x) = md_CreatedAt x"
    by (rule change_draft_Inr [OF assms(1) dist])
  have only: "x = d" if "x \<in> set (drafts s)" "md_ID x = i" for x using unique_key_eq [OF dist that(1) d(1)] that(2) d(2) by simp
  have old: "heads_history (draft_revisions s) x" if "x \<in> set (drafts s)" for x using assms(2) that by (simp add: drafts_inv_def)
  have r: "dr_DraftID r = i" "dr_ResourceVersion r = md_ResourceVersion d + 1" using s'(3) f d(2) by (auto simp: revision_of_def)
  have ver: "1 \<le> md_ResourceVersion d" using old [OF d(1)]
    by (cases "1 \<le> md_ResourceVersion d") (auto simp: heads_history_def)
  have fd: "heads_history (draft_revisions s') (f d)"
    using old [OF d(1)] s'(2,3) r spec [OF f, of d] d(2) ver upto_rec2 [of 1 "md_ResourceVersion d + 1"]
    by (simp add: heads_history_def revisions_of_def)
  have "heads_history (draft_revisions s') x" if x: "x \<in> set (drafts s')" for x
  proof -
    obtain y where y: "y \<in> set (drafts s)" "x = (if md_ID y = i then f y else y)" using x by (auto simp: s'(1) in_upd_where)
    show ?thesis
    proof (cases "md_ID y = i")
      case True
      then show ?thesis using y only [OF y(1)] fd by simp
    next
      case False
      then show ?thesis using y old [OF y(1)] r(1) by (simp add: s'(2) heads_history_def revisions_of_def)
    qed
  qed
  moreover have "keys_unique open_key (drafts s')"
  proof -
    have uniq: "keys_unique open_key (drafts s)" using assms(2) by (simp add: drafts_inv_def)
    show ?thesis
    proof (cases "status = ''open''")
      case True
      have "open_key (f x) = open_key x" if "x \<in> set (drafts s)" "md_ID x = i" for x
        using only [OF that] d(3) spec [OF f, of x] True by (simp add: open_key_def)
      then show ?thesis unfolding s'(1) using uniq by (intro keys_unique_upd_where)
    next
      case False
      then show ?thesis unfolding s'(1) using uniq f by (intro keys_unique_release) (simp_all add: open_key_def)
    qed
  qed
  moreover have ids: "map md_ID (drafts s') = map md_ID (drafts s)" unfolding s'(1) by (rule map_upd_where) (use f in simp)
  moreover have "md_ID ` set (drafts s') = md_ID ` set (drafts s)" using ids [THEN arg_cong, of set] unfolding set_map .
  moreover have "distinct (map md_ID (drafts s'))" using dist ids by simp
  ultimately have "drafts_inv s'" using assms(2) d(1,2) r(1) by (auto simp: drafts_inv_def s'(2))
  moreover have "\<exists>d' \<in> set (drafts s'). keeps_draft x d'" if x: "x \<in> set (drafts s)" for x
    unfolding s'(1) by (rule bexI [OF _ upd_where_intro [OF x]]) (use spec [OF f, of x] only [OF x] d(3) in \<open>auto simp: keeps_draft_def\<close>)
  ultimately show ?thesis by (simp add: draft_progress_def s'(2))
qed

lemma draft_step_progress:
  assumes "draft_step s s'" "drafts_inv s"
  shows "draft_progress s s'"
  using assms(1)
proof cases
  case drafts_frame
  then show ?thesis using assms(2) by (auto simp: draft_progress_def drafts_inv_def keeps_draft_def)
next
  case create_draft
  then show ?thesis using assms(2) by (rule create_draft_progress)
next
  case (update_draft org ref i e content actor reason now res)
  then have "changeModuleDraft org ref i e content ''open'' None actor reason now s = Inr (res, s')"
    by (simp add: UpdateModuleDraft_def)
  then show ?thesis using assms(2) by (rule change_draft_progress)
next
  case (close_draft org ref i e published actor reason now res)
  then show ?thesis unfolding CloseModuleDraft_def using assms(2) by (rule change_draft_progress)
qed

lemma keeps_draft_trans: "keeps_draft d e \<Longrightarrow> keeps_draft e f \<Longrightarrow> keeps_draft d f"
  by (auto simp: keeps_draft_def)

lemma draft_run_progress:
  assumes "draft_step\<^sup>*\<^sup>* s s'" "drafts_inv s"
  shows "draft_progress s s'"
  using assms(1)
proof (induction rule: rtranclp_induct)
  case base
  then show ?case using assms(2) by (auto simp: draft_progress_def keeps_draft_def)
next
  case (step t u)
  have "drafts_inv t" using step.IH by (simp add: draft_progress_def)
  with step.hyps(2) have tu: "draft_progress t u" by (rule draft_step_progress)
  have "\<exists>d' \<in> set (drafts u). keeps_draft d d'" if d: "d \<in> set (drafts s)" for d
  proof -
    obtain e where e: "e \<in> set (drafts t)" "keeps_draft d e" using step.IH d by (auto simp: draft_progress_def)
    then obtain f where "f \<in> set (drafts u)" "keeps_draft e f" using tu by (auto simp: draft_progress_def)
    then show ?thesis using keeps_draft_trans [OF e(2)] by blast
  qed
  then show ?case using step.IH tu by (auto simp: draft_progress_def)
qed

section \<open>Concurrent authors\<close>

datatype draft_command =
    DraftUpdate "RawMessage option" uuid string timestamp
  | DraftClose "uuid option" uuid string timestamp

definition draft_attempt :: "string \<Rightarrow> string \<Rightarrow> uuid \<Rightarrow> draft_command \<Rightarrow> int \<Rightarrow> db \<Rightarrow> db option" where
  "draft_attempt org ref i c e s =
     (case c of
        DraftUpdate content actor reason now \<Rightarrow> succeeded (UpdateModuleDraft org ref i e content actor reason now s)
      | DraftClose published actor reason now \<Rightarrow> succeeded (CloseModuleDraft org ref i e published actor reason now s))"

definition draft_version :: "uuid \<Rightarrow> db \<Rightarrow> int option" where
  "draft_version i s = map_option md_ResourceVersion (find (\<lambda>d. md_ID d = i) (drafts s))"

lemma draft_attempt_change:
  assumes "draft_attempt org ref i c e s = Some s'"
  obtains content status published actor reason now res where
    "changeModuleDraft org ref i e content status published actor reason now s = Inr (res, s')"
  using assms by (cases c) (auto simp: draft_attempt_def UpdateModuleDraft_def CloseModuleDraft_def)

lemma draft_attempt_counts:
  assumes "drafts_inv s" "draft_attempt org ref i c e s = Some s'"
  shows "drafts_inv s' \<and> draft_version i s = Some e \<and> draft_version i s' = Some (e + 1)"
proof -
  obtain content status published actor reason now res where
    a: "changeModuleDraft org ref i e content status published actor reason now s = Inr (res, s')"
    using assms(2) by (rule draft_attempt_change)
  have dist: "distinct (map md_ID (drafts s))" using assms(1) by (simp add: drafts_inv_def)
  obtain d f r where d: "d \<in> set (drafts s)" "md_ID d = i" "md_Status d = ''open''" "md_ResourceVersion d = e"
    and s': "drafts s' = upd_where (\<lambda>d. md_ID d = i) f (drafts s)"
      "draft_revisions s' = draft_revisions s @ [r]" "revision_of (f d) r"
    and f: "\<forall>x. md_ID (f x) = md_ID x \<and> md_OrgID (f x) = md_OrgID x \<and> md_ModuleUUID (f x) = md_ModuleUUID x
       \<and> md_ResourceVersion (f x) = md_ResourceVersion x + 1 \<and> md_Status (f x) = status \<and> md_PublishedVersionUUID (f x) = published
       \<and> md_CreatedBy (f x) = md_CreatedBy x \<and> md_CreatedAt (f x) = md_CreatedAt x"
    by (rule change_draft_Inr [OF a dist])
  have find: "find (\<lambda>x. md_ID x = i) (drafts s) = Some d" using find_unique_key [OF dist d(1)] d(2) by simp
  have "drafts_inv s'" using change_draft_progress [OF a assms(1)] by (simp add: draft_progress_def)
  then show ?thesis using find d f find_upd_where [of "\<lambda>d. md_ID d = i" "\<lambda>d. md_ID d = i" f "drafts s"]
    by (simp add: draft_version_def s')
qed

interpretation draft: optimistic "draft_attempt org ref i" "draft_version i" drafts_inv for org ref i
  by unfold_locales (use draft_attempt_counts in blast)+

section \<open>A Draft\<close>

definition example_body :: RawMessage where
  "example_body = \<lparr>rm_length = 20, rm_value = Some (JObj [(''module_source'', JStr ''inline'')])\<rparr>"

lemma example_trim: "TrimSpace ''ship'' \<noteq> ''''"
  using example_reason by simp

lemma example_draft_command: "validateDraftCommand ''alice'' ''ship'' (Some example_body) = None"
  by (simp add: validateDraftCommand_def example_trim example_body_def maxModuleDraftBytes_def Nil_uuid_def)

lemma example_drafts_inv: "drafts_inv example_catalogue_db"
  by (simp add: drafts_inv_def example_catalogue_db_def example_types_db_def empty_db_def)

lemma example_create_draft:
  "\<exists>res s'. CreateModuleDraft ''acme'' ''db'' (Some example_body) ''alice'' ''ship'' ''d1'' 5 example_catalogue_db = Inr (res, s')
     \<and> map md_ID (drafts s') = [''d1''] \<and> definitions s' = definitions example_catalogue_db"
  by (simp add: CreateModuleDraft_def example_draft_command example_catalogue_db_def GetModuleCatalogue_def module_matches_def
      scanModuleCatalogue_def example_types_db_def empty_db_def insert_row.simps drafts_constraints_def violates_def
      recordModuleDraftRevision_def GetModuleDraft_def draft_matches_def draft_revisions_constraints_def Let_def)

definition example_drafts_db :: db where
  "example_drafts_db = example_catalogue_db\<lparr>
     drafts := [\<lparr>md_ID = ''d1'', md_OrgID = ''acme'', md_ModuleUUID = ''m1'', md_ResourceVersion = 1, md_Content = JObj [],
       md_Status = ''open'', md_PublishedVersionUUID = None, md_CreatedAt = 5, md_CreatedBy = ''alice'', md_UpdatedAt = 5,
       md_UpdatedBy = ''alice''\<rparr>],
     draft_revisions := [\<lparr>dr_DraftID = ''d1'', dr_ResourceVersion = 1, dr_Content = JObj [], dr_Status = ''open'',
       dr_PublishedVersionUUID = None, dr_CreatedAt = 5, dr_Actor = ''alice'', dr_Reason = ''ship''\<rparr>]\<rparr>"

lemma example_drafts_db_inv: "drafts_inv example_drafts_db"
  by (simp add: drafts_inv_def example_drafts_db_def heads_history_def revisions_of_def revision_of_def)
    (simp add: keys_unique_def)

lemma example_close_draft:
  "\<exists>t. draft_attempt ''acme'' ''db'' ''d1'' (DraftClose None ''alice'' ''ship'' 6) 1 example_drafts_db = Some t"
  by (simp add: example_drafts_db_def example_catalogue_db_def GetModuleCatalogue_def module_matches_def
      scanModuleCatalogue_def insert_row.simps violates_def
      recordModuleDraftRevision_def GetModuleDraft_def draft_matches_def draft_revisions_constraints_def Let_def
      draft_attempt_def CloseModuleDraft_def changeModuleDraft_def validateDraftCommand_def example_trim Nil_uuid_def)

section \<open>Properties\<close>

text \<open>
  A Draft is the head of an immutable history. After any sequence of Draft commands a module has at
  most one open Draft; the revisions of every Draft are numbered 1, 2, ... up to its resource version
  and the last one has its content and status; no revision that was ever recorded is changed or
  removed; and a Draft that is closed never changes again.
\<close>

theorem draft_history:
  assumes "draft_step\<^sup>*\<^sup>* s s'" "drafts_inv s"
  shows "keys_unique open_key (drafts s')
    \<and> (\<forall>d \<in> set (drafts s'). map dr_ResourceVersion (revisions_of (md_ID d) (draft_revisions s')) = [1..md_ResourceVersion d]
         \<and> revision_of d (last (revisions_of (md_ID d) (draft_revisions s'))))
    \<and> (\<exists>new. draft_revisions s' = draft_revisions s @ new)
    \<and> (\<forall>d \<in> set (drafts s). md_Status d \<noteq> ''open'' \<longrightarrow> d \<in> set (drafts s'))"
proof -
  have p: "draft_progress s s'" by (rule draft_run_progress [OF assms])
  then have "\<forall>d \<in> set (drafts s). md_Status d \<noteq> ''open'' \<longrightarrow> d \<in> set (drafts s')"
    by (auto simp: draft_progress_def keeps_draft_def)
  then show ?thesis using p by (auto simp: draft_progress_def drafts_inv_def heads_history_def)
qed

theorem draft_history_witness:
  "\<exists>res s'. CreateModuleDraft ''acme'' ''db'' (Some example_body) ''alice'' ''ship'' ''d1'' 5 example_catalogue_db = Inr (res, s')
     \<and> map md_ID (drafts s') = [''d1''] \<and> keys_unique open_key (drafts s')"
proof -
  obtain res s' where c: "CreateModuleDraft ''acme'' ''db'' (Some example_body) ''alice'' ''ship'' ''d1'' 5 example_catalogue_db
      = Inr (res, s')" "map md_ID (drafts s') = [''d1'']" using example_create_draft by metis
  have "draft_step\<^sup>*\<^sup>* example_catalogue_db s'" using create_draft [OF c(1)] by (rule r_into_rtranclp)
  from draft_history [OF this example_drafts_inv] have "keys_unique open_key (drafts s')" by (rule conjunct1)
  with c show ?thesis by (intro exI conjI)
qed

text \<open>
  Concurrent authors of a Draft cannot overwrite each other: once an update or a closing prepared
  against revision \<open>e\<close> has been accepted, every other command prepared against \<open>e\<close> is refused, whatever
  commands on the Draft come in between.
\<close>

theorem draft_no_lost_update:
  assumes "drafts_inv s" "draft_attempt org ref i c e s = Some t" "draft.attempts org ref i t u"
  shows "draft_attempt org ref i c' e u = None"
proof (rule draft.no_lost_update [OF assms(1,2) _ assms(3)])
  show "t \<noteq> s" using draft_attempt_counts [OF assms(1,2)] by auto
qed

theorem draft_no_lost_update_witness:
  "\<exists>t. draft_attempt ''acme'' ''db'' ''d1'' (DraftClose None ''alice'' ''ship'' 6) 1 example_drafts_db = Some t
     \<and> draft_attempt ''acme'' ''db'' ''d1'' (DraftUpdate (Some example_body) ''bob'' ''ship'' 7) 1 t = None"
proof -
  obtain t where t: "draft_attempt ''acme'' ''db'' ''d1'' (DraftClose None ''alice'' ''ship'' 6) 1 example_drafts_db = Some t"
    using example_close_draft by metis
  from draft_no_lost_update [OF example_drafts_db_inv t draft.attempts_none] t show ?thesis by metis
qed

end
