(* ===== verification/Pins.thy ===== *)
theory Pins
  imports Concurrency
begin

text \<open>
  Version pins of environments (\<^verbatim>\<open>internal/model/module_version_pins.go\<close>, migration 24) and the barrier that
  closes an environment to new pins while a Deployment is unresolved
  (\<^verbatim>\<open>checkExternalDispatchBarrier\<close> in \<^verbatim>\<open>internal/model/external_operation_dispatch.go\<close>).

  The advisory lock of the environment that every operation here takes first serialises the
  transactions: an operation is one step on the database. The UUIDs that Go or the database draws and
  the current time are arguments.
\<close>

section \<open>The barrier of an environment\<close>

definition EnvironmentBusy :: string where
  "EnvironmentBusy = ''environment_busy''"

definition checkExternalDispatchBarrier :: "string \<Rightarrow> uuid \<Rightarrow> db \<Rightarrow> unit result" where
  "checkExternalDispatchBarrier org environment s =
     fail_if (list_ex (\<lambda>r. ed_OrgID (di_intent r) = org \<and> ed_EnvironmentUUID (di_intent r) = environment
         \<and> di_state r \<noteq> DispatchSettled) (dispatches s))
       (ErrConflict EnvironmentBusy ''Environment has an unresolved external Deployment dispatch'')
    (fail_if (list_ex (\<lambda>g. ag_org_id g = org \<and> ag_environment_uuid g = environment \<and> ag_outcome g = None) (guards s))
       (ErrConflict EnvironmentBusy ''Environment has an unresolved ordinary Deployment admission'')
    (Inr ()))"

section \<open>Reading pins\<close>

definition GetEnvironmentModuleVersionPin :: "string \<Rightarrow> uuid \<Rightarrow> db \<Rightarrow> EnvironmentModuleVersionPin result" where
  "GetEnvironmentModuleVersionPin orgID pinID s =
     require_some (NewErrNotFound ''module version pin not found'')
       (find (\<lambda>p. pn_OrgID p = orgID \<and> pn_ID p = pinID) (pins s))"

definition ListEnvironmentModuleVersionPins ::
  "string \<Rightarrow> uuid option \<Rightarrow> uuid option \<Rightarrow> bool \<Rightarrow> db \<Rightarrow> EnvironmentModuleVersionPin list" where
  "ListEnvironmentModuleVersionPins orgID environmentUUID moduleUUID includeRemoved s =
     sort_key (\<lambda>p. (- pn_CreatedAt p, pn_ID p))
       (filter (\<lambda>p. pn_OrgID p = orgID
           \<and> (case environmentUUID of None \<Rightarrow> True | Some e \<Rightarrow> pn_EnvironmentUUID p = e)
           \<and> (case moduleUUID of None \<Rightarrow> True | Some m \<Rightarrow> pn_ModuleUUID p = m)
           \<and> (includeRemoved \<or> pn_Status p \<noteq> PinRemoved)) (pins s))"

section \<open>Creating and changing pins\<close>

definition protects :: "EnvironmentModuleVersionPin \<Rightarrow> bool" where
  "protects p \<longleftrightarrow> pn_Status p = PinActive \<or> pn_Status p = PinOverridePending"

definition protected_key :: "EnvironmentModuleVersionPin \<Rightarrow> string list option" where
  "protected_key p = (if protects p then Some [pn_EnvironmentUUID p, pn_ModuleUUID p] else None)"

definition pins_constraints :: "(EnvironmentModuleVersionPin, string list) constraint list" where
  "pins_constraints =
     [(''environment_module_version_pins_pkey'', \<lambda>p. Some [pn_ID p]),
      (''environment_module_version_pins_protected'', protected_key)]"

definition pin_events_constraints :: "(ModuleVersionPinEvent, string \<times> int) constraint list" where
  "pin_events_constraints =
     [(''environment_module_version_pin_events_id_key'', \<lambda>e. Some (pe_ID e, 0)),
      (''environment_module_version_pin_events_pin_id_revision_key'', \<lambda>e. Some (pe_PinID e, pe_Revision e))]"

definition pin_event_data :: "ModuleVersionPinEvent \<Rightarrow> EnvironmentModuleVersionPin \<Rightarrow> (string \<times> json) list" where
  "pin_event_data e pin =
     [(''org_id'', JStr (pn_OrgID pin)), (''pin_id'', JStr (pn_ID pin)), (''environment_uuid'', JStr (pn_EnvironmentUUID pin)),
      (''project_uuid'', JStr (pn_ProjectUUID pin)), (''module_uuid'', JStr (pn_ModuleUUID pin)),
      (''version_uuid'', JStr (pn_VersionUUID pin)), (''transition_id'', JStr (pe_ID e)), (''revision'', jint (pe_Revision e)),
      (''to_status'', JStr (PinStatus_text (pe_ToStatus e))), (''event_type'', JStr (pe_EventType e)),
      (''activation_event_id'', JStr (pe_ActivationEventID e)), (''actor'', JStr (pe_Actor e)),
      (''actor_type'', JStr (pe_ActorType e)), (''bulk_operation_id'', jopt (pe_BulkOperationID e))]"

definition pin_outbox :: "(string \<times> json) list \<Rightarrow> ModuleVersionPinEvent \<Rightarrow> EnvironmentModuleVersionPin \<Rightarrow> db \<Rightarrow> db" where
  "pin_outbox extra e pin =
     appendModuleCoreOutboxEvent ''io.platform-orchestrator.module.version.pin-lifecycle-changed'' (pin_event_data e pin @ extra)"

definition CreateEnvironmentModuleVersionPin ::
  "string \<Rightarrow> uuid \<Rightarrow> string \<Rightarrow> uuid \<Rightarrow> string \<Rightarrow> uuid \<Rightarrow> uuid \<Rightarrow> uuid \<Rightarrow> string \<Rightarrow> string \<Rightarrow> uuid option \<Rightarrow> bool
   \<Rightarrow> uuid \<Rightarrow> uuid \<Rightarrow> timestamp \<Rightarrow> db \<Rightarrow> (EnvironmentModuleVersionPin \<times> db) result" where
  "CreateEnvironmentModuleVersionPin orgID projectUUID projectID environmentUUID environmentID moduleUUID versionUUID
       actor actorType reason bulkOperationID allowDefective new_id activationEventID now s =
     try_then (checkExternalDispatchBarrier orgID environmentUUID s) (\<lambda>_.
     case RequireTransitionReason reason of
       Some m \<Rightarrow> Inl (NewErrBadRequest m)
     | None \<Rightarrow>
       try_then (require_some (NewErrNotFound ''module version not found'')
         (find (\<lambda>v. v_org_id v = orgID \<and> v_module_uuid v = moduleUUID \<and> v_uuid v = versionUUID) (definition_versions s))) (\<lambda>version.
       fail_if (v_semantic_status version = LifecycleDefective \<and> \<not> allowDefective)
         (NewErrBadRequest ''pinning a Defective version requires the dedicated capability and exact confirmation'')
      (let pin = \<lparr>pn_ID = new_id, pn_OrgID = orgID, pn_ProjectUUID = projectUUID, pn_ProjectID = projectID,
             pn_EnvironmentUUID = environmentUUID, pn_EnvironmentID = environmentID, pn_ModuleUUID = moduleUUID,
             pn_VersionUUID = versionUUID, pn_Status = PinActive, pn_ResourceVersion = 1,
             pn_ActivationEventID = activationEventID, pn_BulkOperationID = bulkOperationID, pn_OverrideOperationID = None,
             pn_OverrideTargetVersionUUID = None, pn_OverrideActor = None, pn_OverrideReason = '''',
             pn_OverrideDeploymentID = None, pn_CreatedBy = actor, pn_CreatedAt = now, pn_UpdatedAt = now, pn_RemovedAt = None\<rparr>;
           event = \<lparr>pe_ID = activationEventID, pe_PinID = new_id, pe_Revision = 1, pe_EventType = ''created'',
             pe_FromStatus = None, pe_ToStatus = PinActive, pe_ActivationEventID = activationEventID, pe_Actor = actor,
             pe_ActorType = actorType, pe_Reason = reason, pe_OperationID = None, pe_DeploymentID = None,
             pe_BulkOperationID = bulkOperationID\<rparr>
       in try_then (map_error (\<lambda>e. if isUniqueViolation e [''environment_module_version_pins_protected'']
              then NewErrConflict ''environment already has an active or override-pending Pin for this module'' else e)
            (insert_row pins_constraints pin (pins s))) (\<lambda>rows.
          try_then (insert_row pin_events_constraints event (pin_events s)) (\<lambda>events.
          Inr (pin, pin_outbox [(''reason'', JStr reason)] event pin (s\<lparr>pins := rows, pin_events := events\<rparr>)))))))"

definition next_event_revision :: "uuid \<Rightarrow> db \<Rightarrow> int" where
  "next_event_revision pinID s = foldl (\<lambda>m e. max m (pe_Revision e)) 0 (filter (\<lambda>e. pe_PinID e = pinID) (pin_events s)) + 1"

text \<open>The \<^verbatim>\<open>UPDATE\<close> of a transition: an override ends when the pin becomes active or is removed.\<close>

definition coalesce_opt :: "'a option \<Rightarrow> 'a option \<Rightarrow> 'a option" where
  "coalesce_opt a b = (case a of None \<Rightarrow> b | Some x \<Rightarrow> Some x)"

definition transition_pin ::
  "PinStatus \<Rightarrow> uuid \<Rightarrow> uuid option \<Rightarrow> uuid option \<Rightarrow> uuid \<Rightarrow> string \<Rightarrow> uuid option \<Rightarrow> timestamp
   \<Rightarrow> EnvironmentModuleVersionPin \<Rightarrow> EnvironmentModuleVersionPin" where
  "transition_pin target activationEventID operationID targetVersionUUID actor reason deploymentID now p =
     (let ends = (target = PinActive \<or> target = PinRemoved) in
      p\<lparr>pn_Status := target, pn_ResourceVersion := pn_ResourceVersion p + 1, pn_ActivationEventID := activationEventID,
        pn_OverrideOperationID := (if ends then None else coalesce_opt operationID (pn_OverrideOperationID p)),
        pn_OverrideTargetVersionUUID := (if ends then None else coalesce_opt targetVersionUUID (pn_OverrideTargetVersionUUID p)),
        pn_OverrideActor := (if ends then None else Some actor),
        pn_OverrideReason := (if ends then '''' else reason),
        pn_OverrideDeploymentID := (if ends then None else coalesce_opt deploymentID (pn_OverrideDeploymentID p)),
        pn_RemovedAt := (if target = PinRemoved then Some now else None), pn_UpdatedAt := now\<rparr>)"

text \<open>The check constraint \<^verbatim>\<open>environment_module_version_pins_override_check\<close>.\<close>

definition override_complete :: "EnvironmentModuleVersionPin \<Rightarrow> bool" where
  "override_complete p \<longleftrightarrow>
     (pn_Status p = PinOverridePending \<or> pn_Status p = PinOverridden \<longrightarrow>
        pn_OverrideOperationID p \<noteq> None \<and> pn_OverrideTargetVersionUUID p \<noteq> None \<and> pn_OverrideActor p \<noteq> None)"

definition TransitionEnvironmentModuleVersionPin ::
  "string \<Rightarrow> uuid \<Rightarrow> int \<Rightarrow> PinStatus \<Rightarrow> string \<Rightarrow> uuid \<Rightarrow> string \<Rightarrow> string \<Rightarrow> uuid option \<Rightarrow> uuid option \<Rightarrow> uuid option
   \<Rightarrow> uuid \<Rightarrow> timestamp \<Rightarrow> db \<Rightarrow> (EnvironmentModuleVersionPin \<times> db) result" where
  "TransitionEnvironmentModuleVersionPin orgID pinID expectedVersion target eventType actor actorType reason
       operationID targetVersionUUID deploymentID eventID now s =
     (case RequireTransitionReason reason of
        Some m \<Rightarrow> Inl (NewErrBadRequest m)
      | None \<Rightarrow>
        try_then (GetEnvironmentModuleVersionPin orgID pinID s) (\<lambda>pin.
        try_then (if target = PinActive \<and> pn_Status pin = PinOverridden
            then checkExternalDispatchBarrier orgID (pn_EnvironmentUUID pin) s else Inr ()) (\<lambda>_.
        fail_if (pn_ResourceVersion pin \<noteq> expectedVersion) (NewErrConflict ''module version pin changed since it was read'')
       (fail_if (pn_Status pin = PinOverridePending \<and> target = PinRemoved)
          (NewErrConflict ''override-pending Pin is locked by its owning add-on operation'')
       (case ValidatePinTransition (pn_Status pin) target of
          Some m \<Rightarrow> Inl (NewErrBadRequest m)
        | None \<Rightarrow>
          if pn_Status pin = target then Inr (pin, s)
          else
          fail_if (target = PinOverridePending \<and> (operationID = None \<or> targetVersionUUID = None))
            (NewErrBadRequest ''override_pending requires an exact operation and target version'')
         (fail_if ((pn_Status pin = PinOverridePending \<or> pn_Status pin = PinOverridden)
              \<and> operationID \<noteq> None \<and> pn_OverrideOperationID pin \<noteq> operationID)
            (NewErrConflict ''Pin is owned by a different add-on operation'')
         (let activationEventID = (if target = PinActive \<and> pn_Status pin = PinOverridden then eventID
                else pn_ActivationEventID pin);
              change = transition_pin target activationEventID operationID targetVersionUUID actor reason deploymentID now;
              updated = change pin;
              event = \<lparr>pe_ID = eventID, pe_PinID = pinID, pe_Revision = next_event_revision pinID s, pe_EventType = eventType,
                pe_FromStatus = Some (pn_Status pin), pe_ToStatus = target, pe_ActivationEventID = pn_ActivationEventID updated,
                pe_Actor = actor, pe_ActorType = actorType, pe_Reason = reason, pe_OperationID = operationID,
                pe_DeploymentID = deploymentID, pe_BulkOperationID = pn_BulkOperationID pin\<rparr>
          in fail_if (\<not> override_complete updated) (ErrConstraint ''environment_module_version_pins_override_check'')
            (try_then (update_rows pins_constraints (\<lambda>p. pn_OrgID p = orgID \<and> pn_ID p = pinID) change (pins s)) (\<lambda>rows.
             try_then (insert_row pin_events_constraints event (pin_events s)) (\<lambda>events.
             Inr (updated, pin_outbox [(''from_status'', JStr (PinStatus_text (pn_Status pin))), (''reason'', JStr reason),
                 (''operation_id'', jopt operationID), (''deployment_id'', jopt deploymentID)] event updated
               (s\<lparr>pins := rows, pin_events := events\<rparr>))))))))))))"

definition AppendModuleVersionPinNote ::
  "string \<Rightarrow> uuid \<Rightarrow> uuid \<Rightarrow> string \<Rightarrow> string \<Rightarrow> uuid \<Rightarrow> db \<Rightarrow> (ModuleVersionPinEvent \<times> db) result" where
  "AppendModuleVersionPinNote orgID pinID actor actorType note eventID s =
     (case RequireTransitionReason note of
        Some m \<Rightarrow> Inl (NewErrBadRequest m)
      | None \<Rightarrow>
        try_then (GetEnvironmentModuleVersionPin orgID pinID s) (\<lambda>pin.
        fail_if (pn_Status pin = PinRemoved) (NewErrConflict ''notes cannot be appended to a removed Pin'')
       (let event = \<lparr>pe_ID = eventID, pe_PinID = pn_ID pin, pe_Revision = next_event_revision (pn_ID pin) s,
              pe_EventType = ''note_added'', pe_FromStatus = Some (pn_Status pin), pe_ToStatus = pn_Status pin,
              pe_ActivationEventID = pn_ActivationEventID pin, pe_Actor = actor, pe_ActorType = actorType, pe_Reason = note,
              pe_OperationID = None, pe_DeploymentID = None, pe_BulkOperationID = pn_BulkOperationID pin\<rparr>
        in try_then (insert_row pin_events_constraints event (pin_events s)) (\<lambda>events.
           Inr (event, pin_outbox [(''from_status'', JStr (PinStatus_text (pn_Status pin))), (''note'', JStr note)] event pin
             (s\<lparr>pin_events := events\<rparr>))))))"

definition ListModuleVersionPinEvents :: "string \<Rightarrow> uuid \<Rightarrow> db \<Rightarrow> ModuleVersionPinEvent list result" where
  "ListModuleVersionPinEvents orgID pinID s =
     try_then (GetEnvironmentModuleVersionPin orgID pinID s) (\<lambda>_.
       Inr (filter (\<lambda>e. pe_PinID e = pinID) (pin_events s)))"

text \<open>The event identifier that the transition of each pin draws is given by \<open>fresh\<close>.\<close>

definition RemoveEnvironmentModuleVersionPinsForDeletion ::
  "string \<Rightarrow> uuid \<Rightarrow> uuid \<Rightarrow> string \<Rightarrow> (uuid \<Rightarrow> uuid) \<Rightarrow> timestamp \<Rightarrow> db
   \<Rightarrow> (EnvironmentModuleVersionPin list \<times> db) result" where
  "RemoveEnvironmentModuleVersionPinsForDeletion orgID environmentUUID actor actorType fresh now s =
     (let found = sort_key pn_ID (filter (\<lambda>p. pn_OrgID p = orgID \<and> pn_EnvironmentUUID p = environmentUUID
            \<and> pn_Status p \<noteq> PinRemoved) (pins s)) in
      fail_if (list_ex (\<lambda>p. pn_Status p = PinOverridePending) found)
        (NewErrConflict ''Environment deletion is blocked by override-pending Pin'')
     (try_fold (\<lambda>pin (removed, t).
        try_then (TransitionEnvironmentModuleVersionPin orgID (pn_ID pin) (pn_ResourceVersion pin) PinRemoved
            ''environment_deleted'' actor actorType ''environment_deleted'' None None None (fresh (pn_ID pin)) now t)
          (\<lambda>(updated, u). Inr (removed @ [updated], u))) found ([], s)))"

section \<open>What the operations do to the tables\<close>

definition pins_only :: "db \<Rightarrow> db \<Rightarrow> bool" where
  "pins_only s s' \<longleftrightarrow> (\<exists>rows events out. s' = s\<lparr>pins := rows, pin_events := events, outbox := out\<rparr>)"

lemma pins_only_refl [simp]: "pins_only s s"
  unfolding pins_only_def by (rule exI [of _ "pins s"], rule exI [of _ "pin_events s"], rule exI [of _ "outbox s"]) simp

lemma pins_only_trans:
  assumes "pins_only s t" "pins_only t u"
  shows "pins_only s u"
proof -
  obtain rows events out where "u = s\<lparr>pins := rows, pin_events := events, outbox := out\<rparr>"
    using assms by (auto simp: pins_only_def)
  then show ?thesis unfolding pins_only_def by (intro exI)
qed

lemma pins_only_outbox [simp]: "pins_only s (pin_outbox x e p (s\<lparr>pins := rows, pin_events := events\<rparr>))"
  unfolding pins_only_def pin_outbox_def appendModuleCoreOutboxEvent_def by auto

lemma pins_only_outbox_events [simp]: "pins_only s (pin_outbox x e p (s\<lparr>pin_events := events\<rparr>))"
proof -
  have "s\<lparr>pin_events := events\<rparr> = s\<lparr>pins := pins s, pin_events := events\<rparr>" by simp
  then show ?thesis by (metis pins_only_outbox)
qed

lemma pins_only_same:
  "pins_only s s' \<Longrightarrow> guards s' = guards s \<and> dispatches s' = dispatches s \<and> envs s' = envs s \<and> definitions s' = definitions s
     \<and> definition_versions s' = definition_versions s \<and> epochs s' = epochs s"
  by (auto simp: pins_only_def)

lemma pin_outbox_tables [simp]:
  "pins (pin_outbox x e p s) = pins s" "pin_events (pin_outbox x e p s) = pin_events s"
  by (simp_all add: pin_outbox_def)

lemma create_pin_Inr:
  assumes "CreateEnvironmentModuleVersionPin org pu pid env eid m v actor atype reason bulk allow new ev now s = Inr (pin, s')"
  obtains event where "checkExternalDispatchBarrier org env s = Inr ()" "pins_only s s'"
    "pins s' = pins s @ [pin]" "pn_ID pin \<notin> pn_ID ` set (pins s)" "\<not> violates protected_key pin (pins s)"
    "pn_OrgID pin = org" "pn_EnvironmentUUID pin = env" "pn_ModuleUUID pin = m" "pn_VersionUUID pin = v"
    "pn_Status pin = PinActive" "pn_ResourceVersion pin = 1"
    "pin_events s' = pin_events s @ [event]" "pe_PinID event = pn_ID pin" "pe_Revision event = 1"
    "pe_FromStatus event = None" "pe_ToStatus event = PinActive"
proof -
  have barrier: "checkExternalDispatchBarrier org env s = Inr ()"
    using assms by (cases "checkExternalDispatchBarrier org env s") (auto simp: CreateEnvironmentModuleVersionPin_def)
  have r: "RequireTransitionReason reason = None"
    using assms barrier by (cases "RequireTransitionReason reason") (auto simp: CreateEnvironmentModuleVersionPin_def)
  let ?pin = "\<lparr>pn_ID = new, pn_OrgID = org, pn_ProjectUUID = pu, pn_ProjectID = pid, pn_EnvironmentUUID = env,
      pn_EnvironmentID = eid, pn_ModuleUUID = m, pn_VersionUUID = v, pn_Status = PinActive, pn_ResourceVersion = 1,
      pn_ActivationEventID = ev, pn_BulkOperationID = bulk, pn_OverrideOperationID = None,
      pn_OverrideTargetVersionUUID = None, pn_OverrideActor = None, pn_OverrideReason = '''',
      pn_OverrideDeploymentID = None, pn_CreatedBy = actor, pn_CreatedAt = now, pn_UpdatedAt = now, pn_RemovedAt = None\<rparr>"
  let ?event = "\<lparr>pe_ID = ev, pe_PinID = new, pe_Revision = 1, pe_EventType = ''created'', pe_FromStatus = None,
      pe_ToStatus = PinActive, pe_ActivationEventID = ev, pe_Actor = actor, pe_ActorType = atype, pe_Reason = reason,
      pe_OperationID = None, pe_DeploymentID = None, pe_BulkOperationID = bulk\<rparr>"
  obtain rows events where i: "insert_row pins_constraints ?pin (pins s) = Inr rows"
    "insert_row pin_events_constraints ?event (pin_events s) = Inr events"
    and out: "pin = ?pin" "s' = pin_outbox [(''reason'', JStr reason)] ?event ?pin (s\<lparr>pins := rows, pin_events := events\<rparr>)"
    using assms barrier r by (auto simp: CreateEnvironmentModuleVersionPin_def Let_def)
  have rows: "rows = pins s @ [?pin]" "new \<notin> pn_ID ` set (pins s)" "\<not> violates protected_key ?pin (pins s)"
    using i(1) by (auto simp: insert_row_Inr_iff pins_constraints_def violates_def list_ex_iff)
  have events: "events = pin_events s @ [?event]" using i(2) by (simp add: insert_row_Inr_iff)
  show thesis by (rule that [of ?event, OF barrier]) (use rows events in \<open>simp_all add: out\<close>)
qed

lemma transition_pin_fields [simp]:
  "pn_ID (transition_pin t a op tv actor r d now p) = pn_ID p" "pn_OrgID (transition_pin t a op tv actor r d now p) = pn_OrgID p"
  "pn_EnvironmentUUID (transition_pin t a op tv actor r d now p) = pn_EnvironmentUUID p"
  "pn_ModuleUUID (transition_pin t a op tv actor r d now p) = pn_ModuleUUID p"
  "pn_VersionUUID (transition_pin t a op tv actor r d now p) = pn_VersionUUID p"
  "pn_Status (transition_pin t a op tv actor r d now p) = t"
  "pn_ResourceVersion (transition_pin t a op tv actor r d now p) = pn_ResourceVersion p + 1"
  by (simp_all add: transition_pin_def Let_def)

lemma transition_pin_Inr:
  assumes "TransitionEnvironmentModuleVersionPin org i e target etype actor atype reason op tv dep ev now s = Inr (updated, s')"
  obtains p where "find (\<lambda>p. pn_OrgID p = org \<and> pn_ID p = i) (pins s) = Some p" "pn_ResourceVersion p = e"
      "pn_Status p = target" "s' = s" "updated = p"
  | p f event where "find (\<lambda>p. pn_OrgID p = org \<and> pn_ID p = i) (pins s) = Some p" "pn_ResourceVersion p = e"
      "pn_Status p \<noteq> target" "target \<in> set (pin_allowed (pn_Status p))" "pins_only s s'" "updated = f p"
      "target = PinActive \<and> pn_Status p = PinOverridden \<longrightarrow> checkExternalDispatchBarrier org (pn_EnvironmentUUID p) s = Inr ()"
      "pins s' = upd_where (\<lambda>p. pn_OrgID p = org \<and> pn_ID p = i) f (pins s)" "override_complete (f p)"
      "keys_unique protected_key (pins s')"
      "\<forall>x. pn_ID (f x) = pn_ID x \<and> pn_OrgID (f x) = pn_OrgID x \<and> pn_EnvironmentUUID (f x) = pn_EnvironmentUUID x
         \<and> pn_ModuleUUID (f x) = pn_ModuleUUID x \<and> pn_VersionUUID (f x) = pn_VersionUUID x \<and> pn_Status (f x) = target
         \<and> pn_ResourceVersion (f x) = pn_ResourceVersion x + 1"
      "pin_events s' = pin_events s @ [event]" "pe_PinID event = i" "pe_FromStatus event = Some (pn_Status p)" "pe_ToStatus event = target"
      "pe_Revision event = next_event_revision i s"
proof -
  have r: "RequireTransitionReason reason = None"
    using assms by (cases "RequireTransitionReason reason") (simp_all add: TransitionEnvironmentModuleVersionPin_def)
  obtain p where p: "find (\<lambda>p. pn_OrgID p = org \<and> pn_ID p = i) (pins s) = Some p"
    using assms r by (auto simp: TransitionEnvironmentModuleVersionPin_def GetEnvironmentModuleVersionPin_def)
  note a = assms [unfolded TransitionEnvironmentModuleVersionPin_def r GetEnvironmentModuleVersionPin_def p, simplified]
  have barrier: "target = PinActive \<and> pn_Status p = PinOverridden \<longrightarrow> checkExternalDispatchBarrier org (pn_EnvironmentUUID p) s = Inr ()"
    using a by (cases "checkExternalDispatchBarrier org (pn_EnvironmentUUID p) s") auto
  have ok: "ValidatePinTransition (pn_Status p) target = None" "pn_ResourceVersion p = e"
    using a barrier by (cases "ValidatePinTransition (pn_Status p) target"; auto split: if_splits)+
  show thesis
  proof (cases "pn_Status p = target")
    case True
    then have "updated = p" "s' = s" using a barrier ok by (auto split: if_splits)
    then show thesis using that(1) [OF p ok(2) True] by simp
  next
    case False
    define act where "act = (if target = PinActive \<and> pn_Status p = PinOverridden then ev else pn_ActivationEventID p)"
    let ?f = "transition_pin target act op tv actor reason dep now"
    let ?event = "\<lparr>pe_ID = ev, pe_PinID = i, pe_Revision = next_event_revision i s, pe_EventType = etype,
                pe_FromStatus = Some (pn_Status p), pe_ToStatus = target, pe_ActivationEventID = pn_ActivationEventID (?f p),
                pe_Actor = actor, pe_ActorType = atype, pe_Reason = reason, pe_OperationID = op,
                pe_DeploymentID = dep, pe_BulkOperationID = pn_BulkOperationID p\<rparr>"
    obtain rows events x where u: "update_rows pins_constraints (\<lambda>p. pn_OrgID p = org \<and> pn_ID p = i) ?f (pins s) = Inr rows"
      and ie: "insert_row pin_events_constraints ?event (pin_events s) = Inr events"
      and out: "updated = ?f p" "override_complete (?f p)" "s' = pin_outbox x ?event (?f p) (s\<lparr>pins := rows, pin_events := events\<rparr>)"
      using a barrier ok False unfolding act_def by (auto simp: Let_def split: if_splits)
    have "rows = upd_where (\<lambda>p. pn_OrgID p = org \<and> pn_ID p = i) ?f (pins s)" "keys_unique protected_key rows"
      using u by (auto simp: update_rows_Inr_iff pins_constraints_def)
    moreover have "events = pin_events s @ [?event]" using ie by (simp add: insert_row_Inr_iff)
    moreover have "target \<in> set (pin_allowed (pn_Status p))" using ok(1) False by (auto simp: ValidatePinTransition_None_iff)
    ultimately show thesis using barrier out
      by (intro that(2) [OF p ok(2) False, of ?f ?event]) (simp_all del: imp_conjL)
  qed
qed

section \<open>Pins and their event logs\<close>

text \<open>Replaying the events of a pin through the state machine; \<open>None\<close> for a log that is no path of it.\<close>

fun replay :: "PinStatus option \<Rightarrow> ModuleVersionPinEvent list \<Rightarrow> PinStatus option option" where
  "replay status [] = Some status"
| "replay status (e # es) =
     (if pe_FromStatus e = status
        \<and> (case status of None \<Rightarrow> pe_ToStatus e = PinActive | Some a \<Rightarrow> ValidatePinTransition a (pe_ToStatus e) = None)
      then replay (Some (pe_ToStatus e)) es else None)"

definition events_of :: "uuid \<Rightarrow> ModuleVersionPinEvent list \<Rightarrow> ModuleVersionPinEvent list" where
  "events_of i es = filter (\<lambda>e. pe_PinID e = i) es"

definition logged_pin :: "ModuleVersionPinEvent list \<Rightarrow> EnvironmentModuleVersionPin \<Rightarrow> bool" where
  "logged_pin es p \<longleftrightarrow>
     events_of (pn_ID p) es \<noteq> [] \<and> replay None (events_of (pn_ID p) es) = Some (Some (pn_Status p))
     \<and> map pe_Revision (events_of (pn_ID p) es) = [1..int (length (events_of (pn_ID p) es))]"

definition pins_inv :: "db \<Rightarrow> bool" where
  "pins_inv s \<longleftrightarrow>
     distinct (map pn_ID (pins s)) \<and> keys_unique protected_key (pins s)
     \<and> (\<forall>p \<in> set (pins s). logged_pin (pin_events s) p)
     \<and> pe_PinID ` set (pin_events s) \<subseteq> pn_ID ` set (pins s)"

lemma replay_snoc:
  "replay status es = Some (Some a) \<Longrightarrow> pe_FromStatus e = Some a \<Longrightarrow> ValidatePinTransition a (pe_ToStatus e) = None \<Longrightarrow>
   replay status (es @ [e]) = Some (Some (pe_ToStatus e))"
  by (induction status es rule: replay.induct) (auto split: if_splits)

lemma events_of_snoc: "events_of i (es @ [e]) = events_of i es @ (if pe_PinID e = i then [e] else [])"
  by (simp add: events_of_def)

lemma foldl_max_upto: "0 \<le> n \<Longrightarrow> foldl max 0 [1..int n] = int n"
proof (induction n)
  case (Suc n)
  have "[1..int (Suc n)] = [1..int n] @ [int (Suc n)]" using upto_rec2 [of 1 "int (Suc n)"] by simp
  then show ?case using Suc by simp
qed simp

lemma next_revision:
  assumes "logged_pin (pin_events s) p"
  shows "next_event_revision (pn_ID p) s = int (length (events_of (pn_ID p) (pin_events s))) + 1"
proof -
  let ?es = "events_of (pn_ID p) (pin_events s)"
  have "foldl (\<lambda>m e. max m (pe_Revision e)) 0 ?es = foldl max 0 (map pe_Revision ?es)" by (simp add: foldl_map)
  also have "\<dots> = int (length ?es)" using assms foldl_max_upto by (simp add: logged_pin_def)
  finally show ?thesis by (simp add: next_event_revision_def events_of_def)
qed

lemma logged_pin_snoc:
  assumes "logged_pin es p" "pn_ID q = pn_ID p" "pe_PinID e = pn_ID p" "pe_FromStatus e = Some (pn_Status p)"
    "pe_ToStatus e = pn_Status q" "ValidatePinTransition (pn_Status p) (pn_Status q) = None"
    "pe_Revision e = int (length (events_of (pn_ID p) es)) + 1"
  shows "logged_pin (es @ [e]) q"
  using assms replay_snoc [of None "events_of (pn_ID p) es" "pn_Status p" e]
    upto_rec2 [of 1 "int (length (events_of (pn_ID p) es)) + 1"]
  by (simp add: logged_pin_def events_of_snoc add.commute)

lemma logged_pin_other: "logged_pin es p \<Longrightarrow> pe_PinID e \<noteq> pn_ID p \<Longrightarrow> logged_pin (es @ [e]) p"
  by (simp add: logged_pin_def events_of_snoc)

text \<open>What an operation keeps of a pin: what it pins never changes, and a removed pin is final.\<close>

definition keeps_pin :: "EnvironmentModuleVersionPin \<Rightarrow> EnvironmentModuleVersionPin \<Rightarrow> bool" where
  "keeps_pin p q \<longleftrightarrow> pn_ID q = pn_ID p \<and> pn_OrgID q = pn_OrgID p \<and> pn_EnvironmentUUID q = pn_EnvironmentUUID p
     \<and> pn_ModuleUUID q = pn_ModuleUUID p \<and> pn_VersionUUID q = pn_VersionUUID p
     \<and> pn_ResourceVersion p \<le> pn_ResourceVersion q \<and> (pn_Status p = PinRemoved \<longrightarrow> q = p)"

definition pin_progress :: "db \<Rightarrow> db \<Rightarrow> bool" where
  "pin_progress s s' \<longleftrightarrow> pins_inv s' \<and> (\<exists>new. pin_events s' = pin_events s @ new)
     \<and> (\<forall>p \<in> set (pins s). \<exists>q \<in> set (pins s'). keeps_pin p q)"

lemma pin_progress_refl: "pins_inv s \<Longrightarrow> pin_progress s s"
  by (auto simp: pin_progress_def keeps_pin_def)

lemma keeps_pin_trans: "keeps_pin p q \<Longrightarrow> keeps_pin q r \<Longrightarrow> keeps_pin p r"
  by (auto simp: keeps_pin_def)

lemma pin_progress_trans:
  assumes "pin_progress s t" "pin_progress t u"
  shows "pin_progress s u"
proof -
  have "\<exists>r \<in> set (pins u). keeps_pin p r" if p: "p \<in> set (pins s)" for p
  proof -
    obtain q where q: "q \<in> set (pins t)" "keeps_pin p q" using assms(1) p by (auto simp: pin_progress_def)
    then obtain r where "r \<in> set (pins u)" "keeps_pin q r" using assms(2) by (auto simp: pin_progress_def)
    then show ?thesis using keeps_pin_trans [OF q(2)] by blast
  qed
  then show ?thesis using assms by (auto simp: pin_progress_def)
qed

lemma create_pin_progress:
  assumes "CreateEnvironmentModuleVersionPin org pu pid env eid m v actor atype reason bulk allow new ev now s = Inr (pin, s')"
    and "pins_inv s"
  shows "pin_progress s s'"
proof -
  obtain event where s': "pins s' = pins s @ [pin]" "pin_events s' = pin_events s @ [event]"
    and pin: "pn_ID pin \<notin> pn_ID ` set (pins s)" "\<not> violates protected_key pin (pins s)" "pn_Status pin = PinActive"
    and event: "pe_PinID event = pn_ID pin" "pe_Revision event = 1" "pe_FromStatus event = None" "pe_ToStatus event = PinActive"
    by (rule create_pin_Inr [OF assms(1)])
  have "pn_ID pin \<notin> pe_PinID ` set (pin_events s)" using assms(2) pin(1) unfolding pins_inv_def by blast
  then have "events_of (pn_ID pin) (pin_events s) = []" by (auto simp: events_of_def filter_empty_conv image_iff)
  then have new: "logged_pin (pin_events s') pin" using event pin(3) by (simp add: logged_pin_def s'(2) events_of_snoc)
  have "logged_pin (pin_events s') p" if p: "p \<in> set (pins s)" for p
  proof -
    have "pn_ID p \<noteq> pn_ID pin" using pin(1) p by (metis imageI)
    then show ?thesis using assms(2) p event(1) unfolding s'(2) by (intro logged_pin_other) (auto simp: pins_inv_def)
  qed
  moreover have "pe_PinID ` set (pin_events s') \<subseteq> pn_ID ` set (pins s')" using assms(2) event(1) by (auto simp: s' pins_inv_def)
  ultimately have "pins_inv s'" using assms(2) pin(1,2) new by (auto simp: pins_inv_def s'(1) keys_unique_snoc)
  then show ?thesis by (auto simp: pin_progress_def s' keeps_pin_def)
qed

lemma transition_pin_progress:
  assumes "TransitionEnvironmentModuleVersionPin org i e target etype actor atype reason op tv dep ev now s = Inr (updated, s')"
    and "pins_inv s"
  shows "pin_progress s s'"
  using assms(1)
proof (cases rule: transition_pin_Inr)
  case (1 p)
  then show ?thesis using pin_progress_refl [OF assms(2)] by simp
next
  case (2 p f event)
  have dist: "distinct (map pn_ID (pins s))" using assms(2) by (simp add: pins_inv_def)
  have p: "p \<in> set (pins s)" "pn_OrgID p = org" "pn_ID p = i" using find_in_set [OF 2(1)] by simp_all
  have only: "x = p" if "x \<in> set (pins s)" "pn_ID x = i" for x using unique_key_eq [OF dist that(1) p(1)] that(2) p(3) by simp
  have old: "logged_pin (pin_events s) x" if "x \<in> set (pins s)" for x using assms(2) that by (simp add: pins_inv_def)
  have fields: "pn_ID (f x) = pn_ID x" "pn_Status (f x) = target" for x using 2(11) by auto
  have valid: "ValidatePinTransition (pn_Status p) target = None" using 2(4) by (simp add: ValidatePinTransition_None_iff)
  have fp: "logged_pin (pin_events s') (f p)" unfolding 2(12)
    by (rule logged_pin_snoc [OF old [OF p(1)]]) (use 2 p(3) fields valid next_revision [OF old [OF p(1)]] in simp_all)
  have "logged_pin (pin_events s') x" if x: "x \<in> set (pins s')" for x
  proof -
    obtain y where y: "y \<in> set (pins s)" "x = (if pn_OrgID y = org \<and> pn_ID y = i then f y else y)"
      using x by (auto simp: 2(8) in_upd_where)
    show ?thesis
    proof (cases "pn_ID y = i")
      case True
      then show ?thesis using y only [OF y(1)] p fp by simp
    next
      case False
      then show ?thesis using y old [OF y(1)] 2(13) unfolding 2(12) by (intro logged_pin_other) simp_all
    qed
  qed
  moreover have ids: "map pn_ID (pins s') = map pn_ID (pins s)" unfolding 2(8) by (rule map_upd_where) (use fields in simp)
  moreover have "pn_ID ` set (pins s') = pn_ID ` set (pins s)" using ids [THEN arg_cong, of set] unfolding set_map .
  moreover have "distinct (map pn_ID (pins s'))" using dist ids by simp
  moreover have "pe_PinID event \<in> pn_ID ` set (pins s)" using imageI [OF p(1), of pn_ID] p(3) 2(13) by simp
  ultimately have "pins_inv s'" using assms(2) 2(10,12) by (auto simp: pins_inv_def)
  moreover have "\<exists>q \<in> set (pins s'). keeps_pin x q" if x: "x \<in> set (pins s)" for x
    unfolding 2(8)
    by (rule bexI [OF _ upd_where_intro [OF x]]) (use 2(4,11) only [OF x] in \<open>auto simp: keeps_pin_def\<close>)
  ultimately show ?thesis by (simp add: pin_progress_def 2(12))
qed

lemma note_progress:
  assumes "AppendModuleVersionPinNote org i actor atype note ev s = Inr (event, s')" "pins_inv s"
  shows "pin_progress s s'" "pins_only s s'" "pins s' = pins s"
proof -
  have r: "RequireTransitionReason note = None"
    using assms(1) by (cases "RequireTransitionReason note") (simp_all add: AppendModuleVersionPinNote_def)
  obtain p where p: "find (\<lambda>p. pn_OrgID p = org \<and> pn_ID p = i) (pins s) = Some p"
    using assms(1) r by (auto simp: AppendModuleVersionPinNote_def GetEnvironmentModuleVersionPin_def)
  note a = assms(1) [unfolded AppendModuleVersionPinNote_def r GetEnvironmentModuleVersionPin_def p, simplified]
  obtain events x where e: "insert_row pin_events_constraints event (pin_events s) = Inr events"
    "s' = pin_outbox x event p (s\<lparr>pin_events := events\<rparr>)" "pe_PinID event = pn_ID p"
    "pe_Revision event = next_event_revision (pn_ID p) s" "pe_FromStatus event = Some (pn_Status p)" "pe_ToStatus event = pn_Status p"
    using a by (auto simp: Let_def)
  have events: "events = pin_events s @ [event]" using e(1) by (simp add: insert_row_Inr_iff)
  show "pins_only s s'" "pins s' = pins s" by (simp_all add: e(2))
  have inp: "p \<in> set (pins s)" using find_in_set [OF p] by simp
  have old: "logged_pin (pin_events s) y" if "y \<in> set (pins s)" for y using assms(2) that by (simp add: pins_inv_def)
  have "logged_pin (pin_events s @ [event]) y" if y: "y \<in> set (pins s)" for y
  proof (cases "pn_ID y = pn_ID p")
    case True
    then have "y = p" using unique_key_eq [of pn_ID "pins s" y p] y inp assms(2) by (simp add: pins_inv_def)
    then show ?thesis using logged_pin_snoc [OF old [OF inp], of p event] e(3-6) next_revision [OF old [OF inp]]
      by (simp add: ValidatePinTransition_None_iff)
  next
    case False
    then show ?thesis using logged_pin_other [OF old [OF y]] e(3) by simp
  qed
  moreover have "pe_PinID event \<in> pn_ID ` set (pins s)" using imageI [OF inp, of pn_ID] e(3) by simp
  ultimately show "pin_progress s s'" using assms(2) by (auto simp: pin_progress_def pins_inv_def e(2) events keeps_pin_def)
qed

lemma remove_pins_fold:
  assumes "RemoveEnvironmentModuleVersionPinsForDeletion org env actor atype fresh now s = Inr (removed, s')" "I s"
    and "\<And>i e ev u t t'. I t \<Longrightarrow> TransitionEnvironmentModuleVersionPin org i e PinRemoved ''environment_deleted'' actor atype
      ''environment_deleted'' None None None ev now t = Inr (u, t') \<Longrightarrow> I t'"
  shows "I s'"
proof -
  let ?step = "\<lambda>pin (removed, t).
      try_then (TransitionEnvironmentModuleVersionPin org (pn_ID pin) (pn_ResourceVersion pin) PinRemoved
            ''environment_deleted'' actor atype ''environment_deleted'' None None None (fresh (pn_ID pin)) now t)
          (\<lambda>(updated, u). Inr (removed @ [updated], u))"
  have f: "try_fold ?step (sort_key pn_ID (filter (\<lambda>p. pn_OrgID p = org \<and> pn_EnvironmentUUID p = env
      \<and> pn_Status p \<noteq> PinRemoved) (pins s))) ([], s) = Inr (removed, s')"
    using assms(1) by (simp add: RemoveEnvironmentModuleVersionPinsForDeletion_def Let_def)
  have "I (snd (removed, s'))"
  proof (rule try_fold_invariant [where I = "\<lambda>st. I (snd st)", OF f])
    fix p and a b :: "EnvironmentModuleVersionPin list \<times> db"
    assume "I (snd a)" "?step p a = Inr b"
    then show "I (snd b)" using assms(3) by (cases a; cases b) auto
  qed (simp add: assms(2))
  then show ?thesis by simp
qed

inductive pin_step :: "db \<Rightarrow> db \<Rightarrow> bool" where
  pins_frame: "pins s' = pins s \<Longrightarrow> pin_events s' = pin_events s \<Longrightarrow> pin_step s s'"
| create_pin: "CreateEnvironmentModuleVersionPin org pu pid env eid m v actor atype reason bulk allow new ev now s = Inr (pin, s')
    \<Longrightarrow> pin_step s s'"
| transition_pin: "TransitionEnvironmentModuleVersionPin org i e target etype actor atype reason op tv dep ev now s = Inr (pin, s')
    \<Longrightarrow> pin_step s s'"
| add_note: "AppendModuleVersionPinNote org i actor atype note ev s = Inr (event, s') \<Longrightarrow> pin_step s s'"
| remove_pins: "RemoveEnvironmentModuleVersionPinsForDeletion org env actor atype fresh now s = Inr (removed, s') \<Longrightarrow> pin_step s s'"

lemma pin_step_progress:
  assumes "pin_step s s'" "pins_inv s"
  shows "pin_progress s s'"
  using assms(1)
proof cases
  case pins_frame
  then show ?thesis using assms(2) by (auto simp: pin_progress_def pins_inv_def keeps_pin_def)
next
  case create_pin
  then show ?thesis using assms(2) by (rule create_pin_progress)
next
  case transition_pin
  then show ?thesis using assms(2) by (rule transition_pin_progress)
next
  case add_note
  then show ?thesis using assms(2) by (rule note_progress)
next
  case (remove_pins org env actor atype fresh now removed)
  then show ?thesis
  proof (rule remove_pins_fold [where I = "pin_progress s"])
    show "pin_progress s s" by (rule pin_progress_refl [OF assms(2)])
  next
    fix i e ev u t t'
    assume p: "pin_progress s t" and t: "TransitionEnvironmentModuleVersionPin org i e PinRemoved ''environment_deleted'' actor atype
      ''environment_deleted'' None None None ev now t = Inr (u, t')"
    show "pin_progress s t'"
      using pin_progress_trans [OF p transition_pin_progress [OF t]] p by (simp add: pin_progress_def)
  qed
qed

lemma pin_run_progress:
  assumes "pin_step\<^sup>*\<^sup>* s s'" "pins_inv s"
  shows "pin_progress s s'"
  using assms(1)
proof (induction rule: rtranclp_induct)
  case base
  show ?case by (rule pin_progress_refl [OF assms(2)])
next
  case (step t u)
  then have "pins_inv t" by (simp add: pin_progress_def)
  then show ?case using pin_progress_trans [OF step.IH pin_step_progress [OF step.hyps(2)]] by simp
qed

section \<open>Concurrent transitions\<close>

definition pin_attempt :: "string \<Rightarrow> uuid \<Rightarrow> PinStatus \<times> string \<times> uuid \<times> string \<times> string \<times> uuid option \<times> uuid option \<times> uuid option
    \<times> uuid \<times> timestamp \<Rightarrow> int \<Rightarrow> db \<Rightarrow> db option" where
  "pin_attempt org i c e s =
     (case c of (target, etype, actor, atype, reason, op, tv, dep, ev, now) \<Rightarrow>
        succeeded (TransitionEnvironmentModuleVersionPin org i e target etype actor atype reason op tv dep ev now s))"

definition pin_version :: "string \<Rightarrow> uuid \<Rightarrow> db \<Rightarrow> int option" where
  "pin_version org i s = map_option pn_ResourceVersion (find (\<lambda>p. pn_OrgID p = org \<and> pn_ID p = i) (pins s))"

interpretation pin: optimistic "pin_attempt org i" "pin_version org i" pins_inv for org i
proof
  fix s s' c e
  assume inv: "pins_inv s" and a: "pin_attempt org i c e s = Some s'"
  then obtain target etype actor atype reason op tv dep ev now u where
    t: "TransitionEnvironmentModuleVersionPin org i e target etype actor atype reason op tv dep ev now s = Inr (u, s')"
    by (cases c) (auto simp: pin_attempt_def)
  show "pins_inv s'" using transition_pin_progress [OF t inv] by (simp add: pin_progress_def)
  show "pin_version org i s = Some e" using t by (rule transition_pin_Inr) (simp_all add: pin_version_def)
  show "s' = s \<or> pin_version org i s' = Some (e + 1)" using t
    by (rule transition_pin_Inr) (auto simp: pin_version_def find_upd_where dest: find_in_set)
qed

section \<open>A pinned environment\<close>

definition example_pin :: "uuid \<Rightarrow> PinStatus \<Rightarrow> EnvironmentModuleVersionPin" where
  "example_pin u status = \<lparr>pn_ID = u, pn_OrgID = ''acme'', pn_ProjectUUID = ''pa'', pn_ProjectID = ''a'', pn_EnvironmentUUID = ''e1'',
     pn_EnvironmentID = ''dev'', pn_ModuleUUID = ''m1'', pn_VersionUUID = ''h1'', pn_Status = status, pn_ResourceVersion = 1,
     pn_ActivationEventID = ''v1'', pn_BulkOperationID = None, pn_OverrideOperationID = None, pn_OverrideTargetVersionUUID = None,
     pn_OverrideActor = None, pn_OverrideReason = [], pn_OverrideDeploymentID = None, pn_CreatedBy = ''alice'', pn_CreatedAt = 1,
     pn_UpdatedAt = 1, pn_RemovedAt = None\<rparr>"

definition example_pins_db :: db where
  "example_pins_db = example_catalogue_db\<lparr>pins := [example_pin ''p1'' PinActive],
     pin_events := [\<lparr>pe_ID = ''v1'', pe_PinID = ''p1'', pe_Revision = 1, pe_EventType = ''created'', pe_FromStatus = None,
       pe_ToStatus = PinActive, pe_ActivationEventID = ''v1'', pe_Actor = ''alice'', pe_ActorType = ''user'', pe_Reason = ''ship'',
       pe_OperationID = None, pe_DeploymentID = None, pe_BulkOperationID = None\<rparr>]\<rparr>"

lemma example_pins_inv: "pins_inv example_pins_db"
  by (simp add: pins_inv_def example_pins_db_def example_pin_def logged_pin_def events_of_def keys_unique_def)

lemma example_remove_pin:
  "\<exists>p s'. TransitionEnvironmentModuleVersionPin ''acme'' ''p1'' 1 PinRemoved ''removed'' ''alice'' ''user'' ''ship'' None None None
     ''v2'' 7 example_pins_db = Inr (p, s') \<and> map pn_Status (pins s') = [PinRemoved]"
  by (simp add: TransitionEnvironmentModuleVersionPin_def example_reason GetEnvironmentModuleVersionPin_def example_pins_db_def
      example_pin_def ValidatePinTransition_def override_complete_def transition_pin_def update_rows_def pins_constraints_def
      keys_unique_def protected_key_def protects_def insert_row.simps violates_def pin_events_constraints_def
      next_event_revision_def Let_def)

section \<open>Properties\<close>

text \<open>
  C26. Version pins. Whatever pins are created, moved through their states, annotated or removed with
  their environment: at most one pin protects a module in an environment; what a pin binds to which
  environment never changes; a removed pin never changes at all; no event is ever rewritten; and the
  event log of every pin, whose revisions are 1, 2, ..., n, replays through the pin state machine to the
  status the pin has.
\<close>

theorem pin_event_sourcing:
  assumes "pin_step\<^sup>*\<^sup>* s s'" "pins_inv s"
  shows "keys_unique protected_key (pins s')
    \<and> (\<forall>p \<in> set (pins s'). replay None (events_of (pn_ID p) (pin_events s')) = Some (Some (pn_Status p))
         \<and> map pe_Revision (events_of (pn_ID p) (pin_events s')) = [1..int (length (events_of (pn_ID p) (pin_events s')))])
    \<and> (\<forall>p \<in> set (pins s). \<exists>q \<in> set (pins s'). keeps_pin p q)
    \<and> (\<exists>new. pin_events s' = pin_events s @ new)"
proof -
  have "pin_progress s s'" by (rule pin_run_progress [OF assms])
  then show ?thesis by (simp add: pin_progress_def pins_inv_def logged_pin_def)
qed

theorem pin_event_sourcing_witness:
  "\<exists>p s'. TransitionEnvironmentModuleVersionPin ''acme'' ''p1'' 1 PinRemoved ''removed'' ''alice'' ''user'' ''ship'' None None None
     ''v2'' 7 example_pins_db = Inr (p, s') \<and> keys_unique protected_key (pins s')
     \<and> (\<exists>q \<in> set (pins s'). keeps_pin (example_pin ''p1'' PinActive) q)"
proof -
  obtain p s' where t: "TransitionEnvironmentModuleVersionPin ''acme'' ''p1'' 1 PinRemoved ''removed'' ''alice'' ''user'' ''ship''
     None None None ''v2'' 7 example_pins_db = Inr (p, s')" using example_remove_pin by metis
  have "pin_step\<^sup>*\<^sup>* example_pins_db s'" using transition_pin [OF t] by (rule r_into_rtranclp)
  note h = pin_event_sourcing [OF this example_pins_inv]
  have "example_pin ''p1'' PinActive \<in> set (pins example_pins_db)" by (simp add: example_pins_db_def)
  then show ?thesis using h t by (intro exI [of _ p] exI [of _ s'] conjI) auto
qed

text \<open>
  Two operators who have read the same revision of a pin cannot both change it: once a transition
  prepared against revision \<open>e\<close> has changed the pin, every other one prepared against \<open>e\<close> is refused.
\<close>

theorem pin_no_lost_update:
  assumes "pins_inv s" "pin_attempt org i c e s = Some t" "t \<noteq> s" "pin.attempts org i t u"
  shows "pin_attempt org i c' e u = None"
  using assms by (rule pin.no_lost_update)

theorem pin_no_lost_update_witness:
  "\<exists>t. pin_attempt ''acme'' ''p1'' (PinRemoved, ''removed'', ''alice'', ''user'', ''ship'', None, None, None, ''v2'', 7) 1
       example_pins_db = Some t
     \<and> pin_attempt ''acme'' ''p1'' (PinOverridePending, ''override'', ''bob'', ''user'', ''ship'', Some ''o'', Some ''h2'', None, ''v3'', 8)
       1 t = None"
proof -
  obtain p t where "TransitionEnvironmentModuleVersionPin ''acme'' ''p1'' 1 PinRemoved ''removed'' ''alice'' ''user'' ''ship''
     None None None ''v2'' 7 example_pins_db = Inr (p, t)" and st: "map pn_Status (pins t) = [PinRemoved]"
    using example_remove_pin by metis
  then have t: "pin_attempt ''acme'' ''p1'' (PinRemoved, ''removed'', ''alice'', ''user'', ''ship'', None, None, None, ''v2'', 7) 1
       example_pins_db = Some t" by (simp add: pin_attempt_def)
  have "map pn_Status (pins example_pins_db) = [PinActive]" by (simp add: example_pins_db_def example_pin_def)
  with st have "t \<noteq> example_pins_db" by auto
  from pin_no_lost_update [OF example_pins_inv t this pin.attempts_none] t show ?thesis by metis
qed

end
