(* ===== verification/Admission.thy ===== *)
theory Admission
  imports Drafts Environments Pins "HOL-Library.AList"
begin

text \<open>
  Admission of Deployments to an environment (\<^verbatim>\<open>internal/model/environment_admission.go\<close>, migration 36):
  a Deployment is authorised against the pins, the lifecycle of the selected versions and the archive
  status of their modules, and leaves an unresolved guard that closes the environment until it is
  settled.

  A Go map is an association list whose keys are distinct; two of them are compared as maps. A nil map
  is \<open>None\<close>. The parser of UUID texts comes from a third-party package and is the parameter
  \<open>parse_uuid\<close>. The intent of a guard is stored as JSON and read back unchanged.
\<close>

section \<open>Maps\<close>

type_synonym uuid_map = "(string \<times> uuid) list"

definition map_entries :: "uuid_map option \<Rightarrow> uuid_map" where
  "map_entries m = (case m of None \<Rightarrow> [] | Some xs \<Rightarrow> xs)"

text \<open>\<^verbatim>\<open>m[k]\<close>: the nil UUID when the key is absent.\<close>

definition map_at :: "uuid_map option \<Rightarrow> string \<Rightarrow> uuid" where
  "map_at m k = (case map_of (map_entries m) k of None \<Rightarrow> Nil_uuid | Some v \<Rightarrow> v)"

definition map_includes :: "uuid_map \<Rightarrow> uuid_map \<Rightarrow> bool" where
  "map_includes a b \<longleftrightarrow> list_all (\<lambda>(k, v). map_of a k = Some v) b"

definition map_equal :: "uuid_map option \<Rightarrow> uuid_map option \<Rightarrow> bool" where
  "map_equal a b \<longleftrightarrow> (a = None \<longleftrightarrow> b = None)
     \<and> map_includes (map_entries a) (map_entries b) \<and> map_includes (map_entries b) (map_entries a)"

section \<open>Draft test snapshots\<close>

definition GetModuleDraftTestSnapshot ::
  "string \<Rightarrow> string \<Rightarrow> uuid \<Rightarrow> uuid \<Rightarrow> db \<Rightarrow> ModuleDraftTestSnapshot result" where
  "GetModuleDraftTestSnapshot orgID moduleRef environment i s =
     require_some (NewErrNotFound ''Module Draft test snapshot not found in this scope'')
       (find (\<lambda>x. ds_OrgID x = orgID \<and> ds_EnvironmentUUID x = environment \<and> ds_ID x = i
           \<and> list_ex (\<lambda>m. d_uuid m = ds_ModuleUUID x \<and> (d_id m = moduleRef \<or> d_uuid m = moduleRef)) (definitions s)
           \<and> list_ex (\<lambda>v. rtv_UUID v = ds_ResourceTypeVersionUUID x) (resource_type_versions s))
         (draft_snapshots s))"

section \<open>The epoch of an environment\<close>

definition ReadEnvironmentAdmissionEpoch :: "string \<Rightarrow> uuid \<Rightarrow> db \<Rightarrow> int" where
  "ReadEnvironmentAdmissionEpoch org environment s =
     (case map_of (epochs s) (org, environment) of None \<Rightarrow> 0 | Some n \<Rightarrow> n)"

definition CheckEnvironmentAdmissionEpoch :: "string \<Rightarrow> uuid \<Rightarrow> int \<Rightarrow> db \<Rightarrow> unit result" where
  "CheckEnvironmentAdmissionEpoch org environment expected s =
     fail_if (expected < 0) (NewErrBadRequest ''transaction and captured admission epoch are required'')
    (fail_if (ReadEnvironmentAdmissionEpoch org environment s \<noteq> expected)
       (NewErrConflict ''Environment admission changed while inspecting effective state; refresh Pin evidence'')
    (checkExternalDispatchBarrier org environment s))"

definition advanceEnvironmentAdmissionEpoch :: "string \<Rightarrow> uuid \<Rightarrow> db \<Rightarrow> int \<times> db" where
  "advanceEnvironmentAdmissionEpoch org environment s =
     (let epoch = ReadEnvironmentAdmissionEpoch org environment s + 1 in
      (epoch, s\<lparr>epochs := AList.update (org, environment) epoch (epochs s)\<rparr>))"

section \<open>Requests and receipts\<close>

definition PinProtection :: string where "PinProtection = ''pin_protection''"
definition ModuleVersionLifecycle :: string where "ModuleVersionLifecycle = ''module_version_lifecycle''"

record DeploymentAdmissionReceipt =
  ar_AdmissionID :: uuid
  ar_ProjectUUID :: uuid
  ar_EnvironmentUUID :: uuid
  ar_RequestDigest :: string
  ar_Epoch :: int
  ar_State :: string
  ar_Mode :: string
  ar_Outcome :: "string option"

record DeploymentAdmissionPolicy =
  po_AllowFreshProposed :: bool
  po_AllowFreshDraftTests :: bool

definition validateDeploymentAdmission ::
  "(string \<Rightarrow> uuid option) \<Rightarrow> DeploymentAdmission \<Rightarrow> model_error option" where
  "validateDeploymentAdmission parse_uuid a =
     (let versions = map_entries (da_ModuleVersions a); carried = map_entries (da_CarryForwardModuleVersions a);
          snapshots = map_entries (da_DraftTestSnapshots a);
          confirmed = (case da_ConfirmedRestrictedVersionUUIDs a of None \<Rightarrow> [] | Some us \<Rightarrow> us) in
      if da_OrgID a = '''' \<or> da_AdmissionID a = Nil_uuid \<or> da_ProjectUUID a = Nil_uuid \<or> da_EnvironmentUUID a = Nil_uuid
        \<or> da_ActorID a = Nil_uuid \<or> length (da_RequestDigest a) \<noteq> 64 \<or> \<not> list_all is_lower_hex (da_RequestDigest a)
        \<or> \<not> List.member [''deploy'', ''rollback'', ''destroy''] (da_Mode a) \<or> da_ModuleVersions a = None \<or> length versions > 1000
      then Some (NewErrBadRequest ''exact bounded Deployment admission identity and resolved Module Versions are required'')
      else if list_ex (\<lambda>(key, version). parse_uuid key \<noteq> Some key \<or> key = Nil_uuid \<or> version = Nil_uuid) versions
      then Some (NewErrBadRequest ''resolved Modules and Versions require canonical immutable UUIDs'')
      else if length carried > 1000 \<or> length confirmed > 1000
      then Some (NewErrBadRequest ''bounded carry-forward and restricted-version evidence is required'')
      else if \<not> map_includes versions carried
      then Some (NewErrBadRequest ''carry-forward evidence must be an exact subset of resolved Module Versions'')
      else if length snapshots > 1000 then Some (NewErrBadRequest ''Draft test selection must be bounded'')
      else if \<not> map_includes versions snapshots
      then Some (NewErrBadRequest ''Draft test snapshots must be an exact subset of resolved Module targets'')
      else if List.member confirmed Nil_uuid
      then Some (NewErrBadRequest ''restricted-version confirmations require immutable Version UUIDs'')
      else if \<not> distinct confirmed then Some (NewErrBadRequest ''restricted-version confirmations must be unique'')
      else if da_Mode a = ''destroy'' \<and> (versions \<noteq> [] \<or> carried \<noteq> [] \<or> confirmed \<noteq> [])
      then Some (NewErrBadRequest ''destroy admissions do not accept Module lifecycle evidence'')
      else None)"

definition canonicalDeploymentAdmission :: "DeploymentAdmission \<Rightarrow> DeploymentAdmission" where
  "canonicalDeploymentAdmission a =
     a\<lparr>da_ModuleVersions := Some (map_entries (da_ModuleVersions a)),
       da_CarryForwardModuleVersions := Some (map_entries (da_CarryForwardModuleVersions a)),
       da_DraftTestSnapshots := (if map_entries (da_DraftTestSnapshots a) = [] then None else da_DraftTestSnapshots a),
       da_ConfirmedRestrictedVersionUUIDs :=
         Some (sort (case da_ConfirmedRestrictedVersionUUIDs a of None \<Rightarrow> [] | Some us \<Rightarrow> us))\<rparr>"

text \<open>\<^verbatim>\<open>reflect.DeepEqual\<close> of two requests.\<close>

definition same_admission :: "DeploymentAdmission \<Rightarrow> DeploymentAdmission \<Rightarrow> bool" where
  "same_admission a b \<longleftrightarrow>
     a\<lparr>da_ModuleVersions := None, da_CarryForwardModuleVersions := None, da_DraftTestSnapshots := None\<rparr>
       = b\<lparr>da_ModuleVersions := None, da_CarryForwardModuleVersions := None, da_DraftTestSnapshots := None\<rparr>
     \<and> map_equal (da_ModuleVersions a) (da_ModuleVersions b)
     \<and> map_equal (da_CarryForwardModuleVersions a) (da_CarryForwardModuleVersions b)
     \<and> map_equal (da_DraftTestSnapshots a) (da_DraftTestSnapshots b)"

definition admissionReceipt :: "DeploymentAdmission \<Rightarrow> int \<Rightarrow> string option \<Rightarrow> DeploymentAdmissionReceipt" where
  "admissionReceipt a epoch outcome =
     \<lparr>ar_AdmissionID = da_AdmissionID a, ar_ProjectUUID = da_ProjectUUID a, ar_EnvironmentUUID = da_EnvironmentUUID a,
      ar_RequestDigest = da_RequestDigest a, ar_Epoch = epoch,
      ar_State = (if outcome = None then ''active'' else ''settled''), ar_Mode = da_Mode a, ar_Outcome = outcome\<rparr>"

section \<open>Authorising a Deployment\<close>

definition executed_snapshot :: "string \<Rightarrow> uuid \<Rightarrow> string \<Rightarrow> uuid \<Rightarrow> db \<Rightarrow> bool" where
  "executed_snapshot org environment module_ref snapshot s \<longleftrightarrow>
     list_ex (\<lambda>g. ag_org_id g = org \<and> ag_environment_uuid g = environment \<and> ag_outcome g = Some ''succeeded''
       \<and> map_of (map_entries (da_ModuleVersions (ag_intent g))) module_ref = Some snapshot
       \<and> map_of (map_entries (da_DraftTestSnapshots (ag_intent g))) module_ref = Some snapshot) (guards s)"

text \<open>The selected Draft snapshot of a module.\<close>

definition check_snapshot ::
  "DeploymentAdmission \<Rightarrow> DeploymentAdmissionPolicy \<Rightarrow> string \<Rightarrow> ModuleCatalogue \<Rightarrow> uuid \<Rightarrow> db \<Rightarrow> unit result" where
  "check_snapshot a policy module_ref entry snapshotUUID s =
     try_then (GetModuleDraftTestSnapshot (da_OrgID a) module_ref (da_EnvironmentUUID a) snapshotUUID s) (\<lambda>snapshot.
     fail_if (ds_ProjectUUID snapshot \<noteq> da_ProjectUUID a)
       (NewErrBadRequest ''Draft test snapshot Project does not match admission scope'')
    (let retained = (map_at (da_CarryForwardModuleVersions a) module_ref = snapshotUUID); rollback = (da_Mode a = ''rollback'') in
     fail_if ((retained \<or> rollback) \<and> \<not> executed_snapshot (da_OrgID a) (da_EnvironmentUUID a) module_ref snapshotUUID s)
       (ErrConflict ModuleVersionLifecycle ''retained Draft tests require a successful prior admission in this Environment'')
    (fail_if (mc_Status entry = CatalogueArchived \<and> \<not> retained \<and> \<not> rollback)
       (ErrConflict ModuleVersionLifecycle ''archived Modules permit only exact retained test material'')
    (fail_if (\<not> retained \<and> \<not> rollback \<and> \<not> po_AllowFreshDraftTests policy)
       (ErrConflict ModuleVersionLifecycle ''fresh Draft tests require current Module authoring authority'')
    (Inr ())))))"

text \<open>The selected version of a module; the result is the set of confirmations that are left.\<close>

definition check_version ::
  "DeploymentAdmission \<Rightarrow> DeploymentAdmissionPolicy \<Rightarrow> uuid_map \<Rightarrow> string \<Rightarrow> ModuleCatalogue \<Rightarrow> uuid \<Rightarrow> db \<Rightarrow> uuid list
   \<Rightarrow> uuid list result" where
  "check_version a policy activePins module_ref entry versionUUID s confirmed =
     try_then (GetCoreModuleVersion (da_OrgID a) module_ref versionUUID s) (\<lambda>version.
     let rollback = (da_Mode a = ''rollback''); carried = (map_at (da_CarryForwardModuleVersions a) module_ref = versionUUID);
         pinned = (map_of activePins module_ref = Some versionUUID) in
     fail_if (mc_Status entry = CatalogueArchived \<and> \<not> rollback \<and> \<not> carried)
       (ErrConflict ModuleVersionLifecycle ''archived Modules permit only exact carry-forward or rollback Versions'')
    (case cv_LifecycleStatus version of
       LifecycleProposed \<Rightarrow>
         fail_if (\<not> pinned \<and> \<not> rollback \<and> \<not> carried \<and> \<not> po_AllowFreshProposed policy)
           (ErrConflict ModuleVersionLifecycle ''fresh Proposed Module Versions require current scoped authority'') (Inr confirmed)
     | LifecycleDeprecated \<Rightarrow>
         fail_if (\<not> pinned \<and> \<not> rollback)
           (ErrConflict ModuleVersionLifecycle ''Deprecated Module Versions require an active Pin or rollback'') (Inr confirmed)
     | LifecycleDefective \<Rightarrow>
         fail_if (\<not> List.member confirmed versionUUID \<or> \<not> pinned \<and> \<not> rollback)
           (ErrConflict ModuleVersionLifecycle
              ''Defective Module Versions require exact confirmation and an active Pin or rollback'')
         (Inr (filter (\<lambda>u. u \<noteq> versionUUID) confirmed))
     | LifecycleDefault \<Rightarrow> Inr confirmed))"

definition check_module ::
  "DeploymentAdmission \<Rightarrow> DeploymentAdmissionPolicy \<Rightarrow> uuid_map \<Rightarrow> db \<Rightarrow> string \<Rightarrow> uuid list \<Rightarrow> uuid list result" where
  "check_module a policy activePins s module_ref confirmed =
     try_then (GetModuleCatalogue (da_OrgID a) module_ref s) (\<lambda>entry.
     case map_of (map_entries (da_DraftTestSnapshots a)) module_ref of
       Some snapshotUUID \<Rightarrow> try_then (check_snapshot a policy module_ref entry snapshotUUID s) (\<lambda>_. Inr confirmed)
     | None \<Rightarrow> check_version a policy activePins module_ref entry (map_at (da_ModuleVersions a) module_ref) s confirmed)"

text \<open>The loop over the pins of the environment.\<close>

definition breaks_pin :: "DeploymentAdmission \<Rightarrow> EnvironmentModuleVersionPin \<Rightarrow> bool" where
  "breaks_pin a p \<longleftrightarrow>
     protects p \<and> \<not> (da_Mode a = ''destroy'' \<and> pn_Status p = PinActive)
     \<and> (da_Mode a = ''destroy'' \<or> map_at (da_ModuleVersions a) (pn_ModuleUUID p) \<noteq> pn_VersionUUID p)"

definition environment_refused :: "DeploymentAdmission \<Rightarrow> Environment \<Rightarrow> bool" where
  "environment_refused a e \<longleftrightarrow>
     en_ProjectUuid e \<noteq> da_ProjectUUID a
     \<or> da_Mode a = ''destroy'' \<and> (en_Status e \<noteq> EnvironmentStatusDeleting \<or> en_DeletionForce e = None
         \<or> en_DeletionDeleteRules e = None \<or> en_DeletionForce e = Some True)"

definition admission_checks :: "DeploymentAdmission \<Rightarrow> DeploymentAdmissionPolicy \<Rightarrow> db \<Rightarrow> unit result" where
  "admission_checks a policy s =
     try_then (GetEnvironmentByUuid (da_OrgID a) (da_EnvironmentUUID a) s) (\<lambda>e.
     fail_if (environment_refused a e)
       (NewErrConflict ''admission requires the exact Environment scope and destroy requires confirmed non-force deletion policy'')
    (let found = ListEnvironmentModuleVersionPins (da_OrgID a) (Some (da_EnvironmentUUID a)) None False s;
         activePins = map (\<lambda>p. (pn_ModuleUUID p, pn_VersionUUID p)) (rev (filter (\<lambda>p. pn_Status p = PinActive) found)) in
     fail_if (list_ex (breaks_pin a) found)
       (ErrConflict PinProtection ''resolved Deployment does not preserve current Pin protection'')
    (try_then (try_fold (check_module a policy activePins s) (sort (map fst (map_entries (da_ModuleVersions a))))
        (case da_ConfirmedRestrictedVersionUUIDs a of None \<Rightarrow> [] | Some us \<Rightarrow> us)) (\<lambda>confirmed.
     fail_if (confirmed \<noteq> []) (NewErrBadRequest ''restricted-version confirmations must name Defective target Versions'')
     (Inr ())))))"

definition active_guard_key :: "admission_guard \<Rightarrow> string list option" where
  "active_guard_key g = (if ag_outcome g = None then Some [ag_org_id g, ag_environment_uuid g] else None)"

definition guards_constraints :: "(admission_guard, string list) constraint list" where
  "guards_constraints =
     [(''deployment_admission_guards_pkey'', \<lambda>g. Some [ag_org_id g, ag_admission_id g]),
      (''deployment_admission_guards_active_environment'', active_guard_key)]"

definition insert_guard :: "DeploymentAdmission \<Rightarrow> string option \<Rightarrow> db \<Rightarrow> (DeploymentAdmissionReceipt \<times> db) result" where
  "insert_guard a outcome s =
     (let (epoch, s1) = advanceEnvironmentAdmissionEpoch (da_OrgID a) (da_EnvironmentUUID a) s;
          row = \<lparr>ag_org_id = da_OrgID a, ag_admission_id = da_AdmissionID a, ag_environment_uuid = da_EnvironmentUUID a,
            ag_project_uuid = da_ProjectUUID a, ag_intent = a, ag_epoch = epoch, ag_outcome = outcome\<rparr>
      in try_then (map_error (\<lambda>e. if isUniqueViolation e [''deployment_admission_guards_pkey'']
             then NewErrConflict ''admission identity was used concurrently in another Environment'' else e)
           (insert_row guards_constraints row (guards s1)))
         (\<lambda>rows. Inr (admissionReceipt a epoch outcome, s1\<lparr>guards := rows\<rparr>)))"

definition guard_at :: "string \<Rightarrow> uuid \<Rightarrow> admission_guard \<Rightarrow> bool" where
  "guard_at org admission g \<longleftrightarrow> ag_org_id g = org \<and> ag_admission_id g = admission"

definition AuthorizeDeploymentAdmission ::
  "(string \<Rightarrow> uuid option) \<Rightarrow> DeploymentAdmission \<Rightarrow> DeploymentAdmissionPolicy list \<Rightarrow> db
   \<Rightarrow> (DeploymentAdmissionReceipt \<times> db) result" where
  "AuthorizeDeploymentAdmission parse_uuid request policies s =
     fail_if (length policies > 1) (NewErrBadRequest ''one trusted Deployment admission policy decision is required'')
    (let policy = (case policies of [] \<Rightarrow> \<lparr>po_AllowFreshProposed = False, po_AllowFreshDraftTests = False\<rparr> | p # _ \<Rightarrow> p);
         a = canonicalDeploymentAdmission request in
     case validateDeploymentAdmission parse_uuid a of
       Some e \<Rightarrow> Inl e
     | None \<Rightarrow>
       (case find (guard_at (da_OrgID a) (da_AdmissionID a)) (guards s) of
          Some g \<Rightarrow>
            fail_if (\<not> same_admission (canonicalDeploymentAdmission (ag_intent g)) a \<or> ag_outcome g \<noteq> None)
              (NewErrConflict ''admission identity was settled or belongs to a different exact request'')
           (try_then (admission_checks a policy s) (\<lambda>_. Inr (admissionReceipt a (ag_epoch g) None, s)))
        | None \<Rightarrow>
            try_then (checkExternalDispatchBarrier (da_OrgID a) (da_EnvironmentUUID a) s) (\<lambda>_.
            try_then (admission_checks a policy s) (\<lambda>_. insert_guard a None s))))"

section \<open>Settling an admission\<close>

definition settle_guard :: "string \<Rightarrow> uuid \<Rightarrow> string \<Rightarrow> db \<Rightarrow> db" where
  "settle_guard org admission outcome s =
     s\<lparr>guards := upd_where (guard_at org admission) (\<lambda>g. g\<lparr>ag_outcome := Some outcome\<rparr>) (guards s)\<rparr>"

definition SettleDeploymentAdmission ::
  "string \<Rightarrow> uuid \<Rightarrow> uuid \<Rightarrow> uuid \<Rightarrow> string \<Rightarrow> string \<Rightarrow> db \<Rightarrow> (DeploymentAdmissionReceipt \<times> db) result" where
  "SettleDeploymentAdmission org admission project environment digest outcome s =
     fail_if (\<not> List.member [''succeeded'', ''failed'', ''cancelled'', ''terminated'', ''absent''] outcome)
       (NewErrBadRequest ''an authoritative terminal admission outcome is required'')
    (try_then (require_some ErrNoRows (find (guard_at org admission) (guards s))) (\<lambda>g.
     let a = ag_intent g in
     fail_if (da_EnvironmentUUID a \<noteq> environment \<or> da_ProjectUUID a \<noteq> project \<or> da_RequestDigest a \<noteq> digest
         \<or> ag_outcome g \<noteq> None \<and> ag_outcome g \<noteq> Some outcome)
       (NewErrConflict ''admission completion scope and outcome are immutable'')
    (Inr (admissionReceipt a (ag_epoch g) (Some outcome),
       if ag_outcome g = None then settle_guard org admission outcome s else s))))"

definition SealDeploymentAdmissionAbsence ::
  "(string \<Rightarrow> uuid option) \<Rightarrow> DeploymentAdmission \<Rightarrow> db \<Rightarrow> (DeploymentAdmissionReceipt \<times> db) result" where
  "SealDeploymentAdmissionAbsence parse_uuid request s =
     (let a = canonicalDeploymentAdmission request in
      case validateDeploymentAdmission parse_uuid a of
        Some e \<Rightarrow> Inl e
      | None \<Rightarrow>
        (case find (guard_at (da_OrgID a) (da_AdmissionID a)) (guards s) of
           Some g \<Rightarrow>
             fail_if (\<not> same_admission (canonicalDeploymentAdmission (ag_intent g)) a
                 \<or> ag_outcome g \<noteq> None \<and> ag_outcome g \<noteq> Some ''absent'')
               (NewErrConflict ''admission absence scope, intent and outcome are immutable'')
            (Inr (admissionReceipt a (ag_epoch g) (Some ''absent''),
               if ag_outcome g = None then settle_guard (da_OrgID a) (da_AdmissionID a) ''absent'' s else s))
         | None \<Rightarrow> insert_guard a (Some ''absent'') s))"
section \<open>What the operations do to the tables\<close>

lemma barrier_open_iff:
  "checkExternalDispatchBarrier org environment s = Inr () \<longleftrightarrow>
     (\<forall>r \<in> set (dispatches s). ed_OrgID (di_intent r) = org \<and> ed_EnvironmentUUID (di_intent r) = environment \<longrightarrow> di_state r = DispatchSettled)
     \<and> (\<forall>g \<in> set (guards s). ag_org_id g = org \<and> ag_environment_uuid g = environment \<longrightarrow> ag_outcome g \<noteq> None)"
  by (auto simp: checkExternalDispatchBarrier_def list_ex_iff)

definition admissions_only :: "db \<Rightarrow> db \<Rightarrow> bool" where
  "admissions_only s s' \<longleftrightarrow> (\<exists>e g. s' = s\<lparr>epochs := e, guards := g\<rparr>)"

lemma admissions_only_refl [simp]: "admissions_only s s"
  unfolding admissions_only_def by (rule exI [of _ "epochs s"], rule exI [of _ "guards s"]) simp

lemma admissions_only_settle [simp]: "admissions_only s (settle_guard org i outcome s)"
  unfolding admissions_only_def settle_guard_def by (rule exI [of _ "epochs s"]) auto

lemma admissions_only_same:
  "admissions_only s s' \<Longrightarrow> pins s' = pins s \<and> pin_events s' = pin_events s \<and> dispatches s' = dispatches s \<and> envs s' = envs s
     \<and> definitions s' = definitions s \<and> definition_versions s' = definition_versions s \<and> grants s' = grants s
     \<and> grant_commands s' = grant_commands s"
  by (auto simp: admissions_only_def)

lemma epoch_advance:
  assumes "advanceEnvironmentAdmissionEpoch org environment s = (n, s')"
  shows "n = ReadEnvironmentAdmissionEpoch org environment s + 1" "guards s' = guards s" "admissions_only s s'"
    "ReadEnvironmentAdmissionEpoch o' e' s' = (if o' = org \<and> e' = environment then n else ReadEnvironmentAdmissionEpoch o' e' s)"
proof -
  have s': "s' = s\<lparr>epochs := AList.update (org, environment) n (epochs s)\<rparr>" "n = ReadEnvironmentAdmissionEpoch org environment s + 1"
    using assms by (auto simp: advanceEnvironmentAdmissionEpoch_def Let_def)
  show "n = ReadEnvironmentAdmissionEpoch org environment s + 1" by (rule s'(2))
  show "guards s' = guards s" by (simp add: s'(1))
  show "admissions_only s s'" unfolding admissions_only_def s'(1) by (rule exI, rule exI [of _ "guards s"]) simp
  show "ReadEnvironmentAdmissionEpoch o' e' s' = (if o' = org \<and> e' = environment then n else ReadEnvironmentAdmissionEpoch o' e' s)"
    unfolding s'(1) by (auto simp: ReadEnvironmentAdmissionEpoch_def update_conv')
qed

text \<open>A guard as an authorised request leaves it.\<close>

definition guard_for :: "DeploymentAdmission \<Rightarrow> int \<Rightarrow> string option \<Rightarrow> admission_guard" where
  "guard_for a epoch outcome = \<lparr>ag_org_id = da_OrgID a, ag_admission_id = da_AdmissionID a, ag_environment_uuid = da_EnvironmentUUID a,
     ag_project_uuid = da_ProjectUUID a, ag_intent = a, ag_epoch = epoch, ag_outcome = outcome\<rparr>"

lemma guard_for_fields [simp]:
  "ag_org_id (guard_for a n out) = da_OrgID a" "ag_admission_id (guard_for a n out) = da_AdmissionID a"
  "ag_environment_uuid (guard_for a n out) = da_EnvironmentUUID a" "ag_intent (guard_for a n out) = a"
  "ag_epoch (guard_for a n out) = n" "ag_outcome (guard_for a n out) = out"
  by (simp_all add: guard_for_def)

lemma insert_guard_Inr:
  assumes "insert_guard a outcome s = Inr (receipt, s')"
  obtains n where "n = ReadEnvironmentAdmissionEpoch (da_OrgID a) (da_EnvironmentUUID a) s + 1"
    "guards s' = guards s @ [guard_for a n outcome]" "find (guard_at (da_OrgID a) (da_AdmissionID a)) (guards s) = None"
    "\<not> violates active_guard_key (guard_for a n outcome) (guards s)" "admissions_only s s'" "receipt = admissionReceipt a n outcome"
    "\<forall>org env. ReadEnvironmentAdmissionEpoch org env s' = (if org = da_OrgID a \<and> env = da_EnvironmentUUID a then n
       else ReadEnvironmentAdmissionEpoch org env s)"
proof -
  obtain n t where t: "advanceEnvironmentAdmissionEpoch (da_OrgID a) (da_EnvironmentUUID a) s = (n, t)" by fastforce
  note ep = epoch_advance [OF t]
  obtain rows where r: "insert_row guards_constraints (guard_for a n outcome) (guards s) = Inr rows"
    and out: "receipt = admissionReceipt a n outcome" "s' = t\<lparr>guards := rows\<rparr>"
    using assms by (auto simp: insert_guard_def t ep(2) guard_for_def)
  have i: "rows = guards s @ [guard_for a n outcome]" "\<not> violates active_guard_key (guard_for a n outcome) (guards s)"
    "find (guard_at (da_OrgID a) (da_AdmissionID a)) (guards s) = None"
    using r by (auto simp: insert_row_Inr_iff guards_constraints_def violates_def list_ex_iff find_None_iff guard_at_def)
  obtain e g where "t = s\<lparr>epochs := e, guards := g\<rparr>" using ep(3) by (auto simp: admissions_only_def)
  then have only: "admissions_only s s'" using out(2) by (auto simp: admissions_only_def)
  have "ReadEnvironmentAdmissionEpoch org env s' = ReadEnvironmentAdmissionEpoch org env t" for org env
    using out(2) by (simp add: ReadEnvironmentAdmissionEpoch_def)
  then show thesis using that [OF ep(1) _ i(3,2) only out(1)] out(2) i(1) ep(4) by simp
qed

definition policy_of :: "DeploymentAdmissionPolicy list \<Rightarrow> DeploymentAdmissionPolicy" where
  "policy_of policies = (case policies of [] \<Rightarrow> \<lparr>po_AllowFreshProposed = False, po_AllowFreshDraftTests = False\<rparr> | p # _ \<Rightarrow> p)"

lemma authorize_Inr:
  assumes "AuthorizeDeploymentAdmission parse_uuid request policies s = Inr (receipt, s')"
  obtains g where "find (guard_at (da_OrgID request) (da_AdmissionID request)) (guards s) = Some g" "ag_outcome g = None" "s' = s"
      "same_admission (canonicalDeploymentAdmission (ag_intent g)) (canonicalDeploymentAdmission request)"
      "admission_checks (canonicalDeploymentAdmission request) (policy_of policies) s = Inr ()"
      "validateDeploymentAdmission parse_uuid (canonicalDeploymentAdmission request) = None"
      "receipt = admissionReceipt (canonicalDeploymentAdmission request) (ag_epoch g) None"
  | "checkExternalDispatchBarrier (da_OrgID request) (da_EnvironmentUUID request) s = Inr ()"
      "admission_checks (canonicalDeploymentAdmission request) (policy_of policies) s = Inr ()"
      "validateDeploymentAdmission parse_uuid (canonicalDeploymentAdmission request) = None"
      "insert_guard (canonicalDeploymentAdmission request) None s = Inr (receipt, s')"
proof -
  let ?a = "canonicalDeploymentAdmission request"
  have f: "da_OrgID ?a = da_OrgID request" "da_AdmissionID ?a = da_AdmissionID request" "da_EnvironmentUUID ?a = da_EnvironmentUUID request"
    by (simp_all add: canonicalDeploymentAdmission_def)
  have v: "validateDeploymentAdmission parse_uuid ?a = None"
    using assms by (auto simp: AuthorizeDeploymentAdmission_def Let_def split: option.splits)
  note x = assms [unfolded AuthorizeDeploymentAdmission_def Let_def v f, folded policy_of_def, simplified]
  show thesis
  proof (cases "find (guard_at (da_OrgID request) (da_AdmissionID request)) (guards s)")
    case (Some g)
    show thesis by (rule that(1) [OF Some]) (use x Some v in auto)
  next
    case None
    show thesis by (rule that(2)) (use x None v in auto)
  qed
qed

lemma settle_Inr:
  assumes "SettleDeploymentAdmission org i project environment digest outcome s = Inr (receipt, s')"
  obtains g where "find (guard_at org i) (guards s) = Some g"
    "s' = (if ag_outcome g = None then settle_guard org i outcome s else s)"
    "da_EnvironmentUUID (ag_intent g) = environment" "ag_outcome g = None \<or> ag_outcome g = Some outcome"
  using assms by (auto simp: SettleDeploymentAdmission_def Let_def)

lemma seal_Inr:
  assumes "SealDeploymentAdmissionAbsence parse_uuid request s = Inr (receipt, s')"
  obtains g where "find (guard_at (da_OrgID request) (da_AdmissionID request)) (guards s) = Some g"
      "s' = (if ag_outcome g = None then settle_guard (da_OrgID request) (da_AdmissionID request) ''absent'' s else s)"
  | "find (guard_at (da_OrgID request) (da_AdmissionID request)) (guards s) = None"
      "insert_guard (canonicalDeploymentAdmission request) (Some ''absent'') s = Inr (receipt, s')"
proof -
  let ?a = "canonicalDeploymentAdmission request"
  have f: "da_OrgID ?a = da_OrgID request" "da_AdmissionID ?a = da_AdmissionID request"
    by (simp_all add: canonicalDeploymentAdmission_def)
  have v: "validateDeploymentAdmission parse_uuid ?a = None"
    using assms by (auto simp: SealDeploymentAdmissionAbsence_def Let_def split: option.splits)
  note x = assms [unfolded SealDeploymentAdmissionAbsence_def Let_def v f, simplified]
  show thesis
  proof (cases "find (guard_at (da_OrgID request) (da_AdmissionID request)) (guards s)")
    case (Some g)
    show thesis by (rule that(1) [OF Some]) (use x Some in auto)
  next
    case None
    show thesis by (rule that(2) [OF None]) (use x None in auto)
  qed
qed
section \<open>What an authorised Deployment respects\<close>

definition confirmed_versions :: "DeploymentAdmission \<Rightarrow> uuid list" where
  "confirmed_versions a = (case da_ConfirmedRestrictedVersionUUIDs a of None \<Rightarrow> [] | Some us \<Rightarrow> us)"

lemma canonical_fields [simp]:
  "da_OrgID (canonicalDeploymentAdmission a) = da_OrgID a" "da_AdmissionID (canonicalDeploymentAdmission a) = da_AdmissionID a"
  "da_EnvironmentUUID (canonicalDeploymentAdmission a) = da_EnvironmentUUID a" "da_Mode (canonicalDeploymentAdmission a) = da_Mode a"
  "da_ProjectUUID (canonicalDeploymentAdmission a) = da_ProjectUUID a"
  "map_entries (da_ModuleVersions (canonicalDeploymentAdmission a)) = map_entries (da_ModuleVersions a)"
  "map_at (da_ModuleVersions (canonicalDeploymentAdmission a)) = map_at (da_ModuleVersions a)"
  "map_at (da_CarryForwardModuleVersions (canonicalDeploymentAdmission a)) = map_at (da_CarryForwardModuleVersions a)"
  "map_entries (da_DraftTestSnapshots (canonicalDeploymentAdmission a)) = map_entries (da_DraftTestSnapshots a)"
  "set (confirmed_versions (canonicalDeploymentAdmission a)) = set (confirmed_versions a)"
  by (auto simp: canonicalDeploymentAdmission_def map_entries_def map_at_def confirmed_versions_def fun_eq_iff split: option.splits)

definition honours :: "DeploymentAdmission \<Rightarrow> EnvironmentModuleVersionPin \<Rightarrow> bool" where
  "honours a p \<longleftrightarrow>
     (protects p \<and> pn_OrgID p = da_OrgID a \<and> pn_EnvironmentUUID p = da_EnvironmentUUID a \<and> da_Mode a \<noteq> ''destroy'' \<longrightarrow>
        map_at (da_ModuleVersions a) (pn_ModuleUUID p) = pn_VersionUUID p)"

definition active_pins :: "DeploymentAdmission \<Rightarrow> db \<Rightarrow> uuid_map" where
  "active_pins a s = map (\<lambda>p. (pn_ModuleUUID p, pn_VersionUUID p)) (rev (filter (\<lambda>p. pn_Status p = PinActive)
     (ListEnvironmentModuleVersionPins (da_OrgID a) (Some (da_EnvironmentUUID a)) None False s)))"

definition pinned_at :: "string \<Rightarrow> uuid \<Rightarrow> string \<Rightarrow> uuid \<Rightarrow> db \<Rightarrow> bool" where
  "pinned_at org environment m v s \<longleftrightarrow> (\<exists>p \<in> set (pins s). pn_Status p = PinActive \<and> pn_OrgID p = org
     \<and> pn_EnvironmentUUID p = environment \<and> pn_ModuleUUID p = m \<and> pn_VersionUUID p = v)"

lemma active_pins_pinned: "map_of (active_pins a s) m = Some v \<Longrightarrow> pinned_at (da_OrgID a) (da_EnvironmentUUID a) m v s"
  by (drule map_of_SomeD) (auto simp: active_pins_def ListEnvironmentModuleVersionPins_def pinned_at_def)

lemma checks_Inr:
  assumes "admission_checks a policy s = Inr ()"
  shows "try_fold (check_module a policy (active_pins a s) s) (sort (map fst (map_entries (da_ModuleVersions a)))) (confirmed_versions a) = Inr []"
    "p \<in> set (pins s) \<Longrightarrow> honours a p"
proof -
  let ?found = "ListEnvironmentModuleVersionPins (da_OrgID a) (Some (da_EnvironmentUUID a)) None False s"
  have ok: "\<not> list_ex (breaks_pin a) ?found"
    and fold: "try_fold (check_module a policy (active_pins a s) s) (sort (map fst (map_entries (da_ModuleVersions a))))
      (confirmed_versions a) = Inr []"
    using assms by (auto simp: admission_checks_def Let_def active_pins_def confirmed_versions_def)
  show "try_fold (check_module a policy (active_pins a s) s) (sort (map fst (map_entries (da_ModuleVersions a)))) (confirmed_versions a) = Inr []"
    by (rule fold)
  show "honours a p" if p: "p \<in> set (pins s)"
  proof (cases "protects p \<and> pn_OrgID p = da_OrgID a \<and> pn_EnvironmentUUID p = da_EnvironmentUUID a")
    case True
    then have "p \<in> set ?found" using p by (auto simp: ListEnvironmentModuleVersionPins_def protects_def)
    then have "\<not> breaks_pin a p" using ok by (auto simp: list_ex_iff)
    then show ?thesis using True by (auto simp: breaks_pin_def honours_def)
  qed (auto simp: honours_def)
qed

lemma try_fold_shrinks:
  assumes "try_fold f xs s = Inr s'" and "\<And>x s s'. f x s = Inr s' \<Longrightarrow> set s' \<subseteq> set s \<and> (\<forall>u \<in> set s - set s'. R x u)"
  shows "(\<forall>x \<in> set xs. \<exists>t t'. set t \<subseteq> set s \<and> f x t = Inr t') \<and> (\<forall>u \<in> set s - set s'. \<exists>x \<in> set xs. R x u)"
  using assms(1)
proof (induction xs arbitrary: s)
  case (Cons x xs)
  then obtain t where t: "f x s = Inr t" "try_fold f xs t = Inr s'" by (auto split: sum.splits)
  note IH = Cons.IH [OF t(2)] and x = assms(2) [OF t(1)]
  have "\<exists>v v'. set v \<subseteq> set s \<and> f y v = Inr v'" if "y \<in> set xs" for y using IH x that by blast
  then show ?case using IH x t(1) by auto
qed simp

text \<open>When a module may be deployed at a version.\<close>

definition deployable :: "DeploymentAdmission \<Rightarrow> DeploymentAdmissionPolicy \<Rightarrow> string \<Rightarrow> uuid \<Rightarrow> db \<Rightarrow> bool" where
  "deployable a policy m v s \<longleftrightarrow>
     (\<exists>entry version. GetModuleCatalogue (da_OrgID a) m s = Inr entry \<and> GetCoreModuleVersion (da_OrgID a) m v s = Inr version
       \<and> (let pinned = pinned_at (da_OrgID a) (da_EnvironmentUUID a) m v s; rollback = (da_Mode a = ''rollback'');
              carried = (map_at (da_CarryForwardModuleVersions a) m = v) in
          (mc_Status entry = CatalogueArchived \<longrightarrow> rollback \<or> carried)
          \<and> (cv_LifecycleStatus version = LifecycleProposed \<longrightarrow> pinned \<or> rollback \<or> carried \<or> po_AllowFreshProposed policy)
          \<and> (cv_LifecycleStatus version = LifecycleDeprecated \<longrightarrow> pinned \<or> rollback)
          \<and> (cv_LifecycleStatus version = LifecycleDefective \<longrightarrow> (pinned \<or> rollback) \<and> v \<in> set (confirmed_versions a))))"

definition defective_target :: "DeploymentAdmission \<Rightarrow> string \<Rightarrow> uuid \<Rightarrow> db \<Rightarrow> bool" where
  "defective_target a m v s \<longleftrightarrow> map_at (da_ModuleVersions a) m = v
     \<and> (\<exists>version. GetCoreModuleVersion (da_OrgID a) m v s = Inr version \<and> cv_LifecycleStatus version = LifecycleDefective)"

lemma check_version_shrinks:
  assumes "check_version a policy act m entry v s c = Inr c'" "v = map_at (da_ModuleVersions a) m"
  shows "set c' \<subseteq> set c \<and> (\<forall>u \<in> set c - set c'. defective_target a m u s)"
proof -
  obtain version where version: "GetCoreModuleVersion (da_OrgID a) m v s = Inr version"
    using assms(1) by (auto simp: check_version_def)
  have "c' = c \<or> c' = filter (\<lambda>u. u \<noteq> v) c \<and> cv_LifecycleStatus version = LifecycleDefective"
    using assms(1) version by (cases "cv_LifecycleStatus version") (auto simp: check_version_def Let_def)
  then show ?thesis using version assms(2) by (auto simp: defective_target_def)
qed

lemma check_module_shrinks:
  assumes "check_module a policy act s m c = Inr c'"
  shows "set c' \<subseteq> set c \<and> (\<forall>u \<in> set c - set c'. defective_target a m u s)"
proof (cases "map_of (map_entries (da_DraftTestSnapshots a)) m")
  case None
  then show ?thesis using assms by (auto simp: check_module_def dest: check_version_shrinks [OF _ refl])
next
  case (Some u)
  then show ?thesis using assms by (auto simp: check_module_def)
qed

lemma check_version_deployable:
  assumes "check_version a policy (active_pins a s) m entry v s c = Inr c'" "GetModuleCatalogue (da_OrgID a) m s = Inr entry"
    "set c \<subseteq> set (confirmed_versions a)"
  shows "deployable a policy m v s"
proof -
  obtain version where version: "GetCoreModuleVersion (da_OrgID a) m v s = Inr version"
    using assms(1) by (auto simp: check_version_def)
  show ?thesis unfolding deployable_def Let_def
    by (intro exI conjI, rule assms(2), rule version)
      (use assms(1,3) version active_pins_pinned [of a s m v] in \<open>auto simp: check_version_def Let_def\<close>)
qed

lemma checks_fold:
  assumes "admission_checks a policy s = Inr ()"
  shows "(\<forall>m \<in> set (map fst (map_entries (da_ModuleVersions a))). \<exists>c c'. set c \<subseteq> set (confirmed_versions a)
      \<and> check_module a policy (active_pins a s) s m c = Inr c')
    \<and> (\<forall>u \<in> set (confirmed_versions a). \<exists>m \<in> set (map fst (map_entries (da_ModuleVersions a))). defective_target a m u s)"
  using try_fold_shrinks [OF checks_Inr(1) [OF assms], of "\<lambda>m u. defective_target a m u s", OF check_module_shrinks]
  by (simp del: set_map)

text \<open>When a Draft snapshot may be deployed for a module.\<close>

definition testable :: "DeploymentAdmission \<Rightarrow> DeploymentAdmissionPolicy \<Rightarrow> string \<Rightarrow> uuid \<Rightarrow> db \<Rightarrow> bool" where
  "testable a policy m u s \<longleftrightarrow>
     (\<exists>entry snapshot. GetModuleCatalogue (da_OrgID a) m s = Inr entry
       \<and> GetModuleDraftTestSnapshot (da_OrgID a) m (da_EnvironmentUUID a) u s = Inr snapshot \<and> ds_ProjectUUID snapshot = da_ProjectUUID a
       \<and> (if map_at (da_CarryForwardModuleVersions a) m = u \<or> da_Mode a = ''rollback''
          then executed_snapshot (da_OrgID a) (da_EnvironmentUUID a) m u s
          else mc_Status entry \<noteq> CatalogueArchived \<and> po_AllowFreshDraftTests policy))"

definition admissible :: "DeploymentAdmission \<Rightarrow> DeploymentAdmissionPolicy \<Rightarrow> string \<Rightarrow> db \<Rightarrow> bool" where
  "admissible a policy m s \<longleftrightarrow>
     (case map_of (map_entries (da_DraftTestSnapshots a)) m of
        Some u \<Rightarrow> testable a policy m u s
      | None \<Rightarrow> deployable a policy m (map_at (da_ModuleVersions a) m) s)"

lemma checks_admissible:
  assumes "admission_checks a policy s = Inr ()" "m \<in> fst ` set (map_entries (da_ModuleVersions a))"
  shows "admissible a policy m s"
proof -
  obtain c c' where c: "set c \<subseteq> set (confirmed_versions a)" "check_module a policy (active_pins a s) s m c = Inr c'"
    using checks_fold [OF assms(1)] assms(2) by auto
  show ?thesis
  proof (cases "map_of (map_entries (da_DraftTestSnapshots a)) m")
    case None
    then show ?thesis using c by (auto simp: admissible_def check_module_def intro: check_version_deployable)
  next
    case (Some u)
    then show ?thesis using c by (auto simp: admissible_def check_module_def testable_def check_snapshot_def Let_def)
  qed
qed

lemma admissible_canonical [simp]: "admissible (canonicalDeploymentAdmission a) policy m s = admissible a policy m s"
  by (cases "map_of (map_entries (da_DraftTestSnapshots a)) m") (simp_all add: admissible_def testable_def deployable_def)

lemma defective_canonical [simp]: "defective_target (canonicalDeploymentAdmission a) m u s = defective_target a m u s"
  by (simp add: defective_target_def)

lemma honours_canonical [simp]: "honours (canonicalDeploymentAdmission a) p = honours a p"
  by (simp add: honours_def)

lemma checks_confirmed:
  assumes "admission_checks a policy s = Inr ()" "u \<in> set (confirmed_versions a)"
  shows "\<exists>m \<in> fst ` set (map_entries (da_ModuleVersions a)). defective_target a m u s"
  using checks_fold [OF assms(1)] assms(2) by auto
section \<open>The table of guards\<close>

definition guard_key :: "admission_guard \<Rightarrow> string \<times> uuid" where
  "guard_key g = (ag_org_id g, ag_admission_id g)"

definition epoch_key :: "admission_guard \<Rightarrow> string \<times> uuid \<times> int" where
  "epoch_key g = (ag_org_id g, ag_environment_uuid g, ag_epoch g)"

definition guard_ok :: "db \<Rightarrow> admission_guard \<Rightarrow> bool" where
  "guard_ok s g \<longleftrightarrow> ag_org_id g = da_OrgID (ag_intent g) \<and> ag_environment_uuid g = da_EnvironmentUUID (ag_intent g)
     \<and> ag_admission_id g = da_AdmissionID (ag_intent g)
     \<and> ag_epoch g \<le> ReadEnvironmentAdmissionEpoch (ag_org_id g) (ag_environment_uuid g) s"

definition admissions_inv :: "db \<Rightarrow> bool" where
  "admissions_inv s \<longleftrightarrow> distinct (map guard_key (guards s)) \<and> distinct (map epoch_key (guards s))
     \<and> keys_unique active_guard_key (guards s) \<and> (\<forall>g \<in> set (guards s). guard_ok s g)"

text \<open>What becomes of a guard: it stays, or it is settled once.\<close>

definition settles :: "admission_guard \<Rightarrow> admission_guard \<Rightarrow> bool" where
  "settles g g' \<longleftrightarrow> g' = g \<or> ag_outcome g = None \<and> (\<exists>out. g' = g\<lparr>ag_outcome := Some out\<rparr>)"

definition guards_kept :: "db \<Rightarrow> db \<Rightarrow> bool" where
  "guards_kept s s' \<longleftrightarrow> (\<forall>g \<in> set (guards s). \<exists>g' \<in> set (guards s'). settles g g')"

lemma settles_refl [simp]: "settles g g"
  by (simp add: settles_def)

lemma guard_at_key: "guard_at org i g \<longleftrightarrow> guard_key g = (org, i)"
  by (auto simp: guard_at_def guard_key_def)

lemma guard_found:
  assumes "distinct (map guard_key (guards s))" "g \<in> set (guards s)"
  shows "find (guard_at (ag_org_id g) (ag_admission_id g)) (guards s) = Some g"
proof -
  have "guard_at (ag_org_id g) (ag_admission_id g) = (\<lambda>x. guard_key x = guard_key g)"
    by (simp add: fun_eq_iff guard_at_key guard_key_def [of g])
  then show ?thesis using find_unique_key [OF assms] by simp
qed

lemma guards_kept_snoc: "guards s' = guards s @ [g] \<Longrightarrow> guards_kept s s'"
  unfolding guards_kept_def by (metis UnCI set_append settles_refl)

lemma insert_guard_keeps:
  assumes "insert_guard a outcome s = Inr (receipt, s')" "admissions_inv s"
  shows "admissions_inv s'" "guards_kept s s'"
proof -
  obtain n where 1: "n = ReadEnvironmentAdmissionEpoch (da_OrgID a) (da_EnvironmentUUID a) s + 1"
    "guards s' = guards s @ [guard_for a n outcome]" "find (guard_at (da_OrgID a) (da_AdmissionID a)) (guards s) = None"
    "\<not> violates active_guard_key (guard_for a n outcome) (guards s)"
    "\<forall>org env. ReadEnvironmentAdmissionEpoch org env s' = (if org = da_OrgID a \<and> env = da_EnvironmentUUID a then n
       else ReadEnvironmentAdmissionEpoch org env s)"
    by (rule insert_guard_Inr [OF assms(1)])
  let ?g = "guard_for a n outcome"
  have old: "guard_ok s x" "ag_epoch x \<le> ReadEnvironmentAdmissionEpoch (ag_org_id x) (ag_environment_uuid x) s"
    if "x \<in> set (guards s)" for x using assms(2) that by (auto simp: admissions_inv_def guard_ok_def)
  have "guard_key ?g \<notin> guard_key ` set (guards s)" using 1(3) by (auto simp: find_None_iff guard_at_key guard_key_def)
  moreover have "epoch_key ?g \<notin> epoch_key ` set (guards s)" using old(2) 1(1) by (fastforce simp: epoch_key_def)
  moreover have "guard_ok s' x" if "x \<in> set (guards s')" for x using that old(1) 1(1,2,5) by (fastforce simp: guard_ok_def)
  ultimately show "admissions_inv s'" using assms(2) 1(2,4) by (auto simp: admissions_inv_def keys_unique_snoc)
  show "guards_kept s s'" by (rule guards_kept_snoc [OF 1(2)])
qed

lemma settle_guard_keeps:
  assumes "find (guard_at org i) (guards s) = Some g" "ag_outcome g = None" "admissions_inv s"
  shows "admissions_inv (settle_guard org i outcome s)" "guards_kept s (settle_guard org i outcome s)"
proof -
  let ?f = "\<lambda>g. g\<lparr>ag_outcome := Some outcome\<rparr>" and ?s' = "settle_guard org i outcome s"
  have g: "g \<in> set (guards s)" "guard_key g = (org, i)" using find_in_set [OF assms(1)] by (simp_all add: guard_at_key)
  have dist: "distinct (map guard_key (guards s))" using assms(3) by (simp add: admissions_inv_def)
  have s': "guards ?s' = upd_where (guard_at org i) ?f (guards s)" by (simp add: settle_guard_def)
  have ep: "ReadEnvironmentAdmissionEpoch o' e' ?s' = ReadEnvironmentAdmissionEpoch o' e' s" for o' e'
    by (simp add: ReadEnvironmentAdmissionEpoch_def settle_guard_def)
  have "map guard_key (guards ?s') = map guard_key (guards s)" "map epoch_key (guards ?s') = map epoch_key (guards s)"
    unfolding s' by (rule map_upd_where, simp add: guard_key_def epoch_key_def)+
  moreover have "keys_unique active_guard_key (guards ?s')" unfolding s'
    by (rule keys_unique_release) (use assms(3) in \<open>simp_all add: active_guard_key_def [of "_\<lparr>ag_outcome := _\<rparr>"] admissions_inv_def\<close>)
  moreover have "guard_ok ?s' x" if "x \<in> set (guards ?s')" for x
    using that assms(3) unfolding s' by (auto simp: in_upd_where admissions_inv_def guard_ok_def ep)
  ultimately show "admissions_inv ?s'" using assms(3) by (simp add: admissions_inv_def)
  have "\<exists>x' \<in> set (guards ?s'). settles x x'" if x: "x \<in> set (guards s)" for x
    unfolding s' by (rule bexI [OF _ upd_where_intro [OF x]])
      (use unique_key_eq [OF dist x g(1)] g(2) assms(2) in \<open>auto simp: settles_def guard_at_key\<close>)
  then show "guards_kept s ?s'" by (simp add: guards_kept_def)
qed

lemma guards_kept_refl [simp]: "guards_kept s s"
  unfolding guards_kept_def by (blast intro: settles_refl)

lemma authorize_keeps:
  assumes "AuthorizeDeploymentAdmission parse_uuid request policies s = Inr (receipt, s')" "admissions_inv s"
  shows "admissions_inv s'" "guards_kept s s'"
  using assms(1) by (cases rule: authorize_Inr; use assms(2) insert_guard_keeps in simp)+

lemma settle_keeps:
  assumes "SettleDeploymentAdmission org i project environment digest outcome s = Inr (receipt, s')" "admissions_inv s"
  shows "admissions_inv s'" "guards_kept s s'"
  using assms(1) by (cases rule: settle_Inr; use assms(2) settle_guard_keeps in simp)+

lemma seal_keeps:
  assumes "SealDeploymentAdmissionAbsence parse_uuid request s = Inr (receipt, s')" "admissions_inv s"
  shows "admissions_inv s'" "guards_kept s s'"
  using assms(1) by (cases rule: seal_Inr; use assms(2) settle_guard_keeps insert_guard_keeps in simp)+
section \<open>An admitted Deployment\<close>

definition example_request :: "string \<Rightarrow> uuid \<Rightarrow> DeploymentAdmission" where
  "example_request mode v = \<lparr>da_OrgID = ''acme'', da_AdmissionID = ''ad1'', da_ProjectUUID = ''pa'', da_EnvironmentUUID = ''e1'',
     da_ActorID = ''alice'', da_RequestDigest = replicate 64 CHR ''a'', da_Mode = mode, da_ModuleVersions = Some [(''m1'', v)],
     da_CarryForwardModuleVersions = None, da_ConfirmedRestrictedVersionUUIDs = None, da_DraftTestSnapshots = None\<rparr>"

definition example_admission_db :: db where
  "example_admission_db = example_pins_db\<lparr>envs := [example_env ''a'' ''pa'' ''e1'' None EnvironmentStatusActive]\<rparr>"

lemma example_digest: "length (replicate 64 CHR ''a'') = 64" "list_all is_lower_hex (replicate 64 CHR ''a'')"
  by (simp_all add: list_all_iff is_lower_hex_def)

lemma example_valid_request:
  "validateDeploymentAdmission Some (canonicalDeploymentAdmission (example_request ''deploy'' ''h1'')) = None"
  by (simp add: validateDeploymentAdmission_def canonicalDeploymentAdmission_def example_request_def map_entries_def Let_def
      example_digest map_includes_def Nil_uuid_def del: length_replicate)

lemma example_checks:
  "admission_checks (canonicalDeploymentAdmission (example_request ''deploy'' ''h1'')) policy example_admission_db = Inr ()"
  by (simp add: admission_checks_def canonicalDeploymentAdmission_def example_request_def example_admission_db_def map_entries_def
      GetEnvironmentByUuid_def example_env_def environment_refused_def ListEnvironmentModuleVersionPins_def example_pins_db_def
      example_pin_def breaks_pin_def protects_def map_at_def check_module_def check_version_def Let_def
      GetModuleCatalogue_def GetCoreModuleVersion_def module_matches_def version_matches_def
      in_module_def scanModuleCatalogue_def scanCoreModuleVersion_def example_catalogue_db_def example_version_def)

lemma example_authorize:
  "\<exists>receipt s'. AuthorizeDeploymentAdmission Some (example_request ''deploy'' ''h1'') [] example_admission_db = Inr (receipt, s')
     \<and> map ag_outcome (guards s') = [None] \<and> dispatches s' = []"
proof -
  have f: "guards example_admission_db = []" "dispatches example_admission_db = []" "epochs example_admission_db = []"
    by (simp_all add: example_admission_db_def example_pins_db_def example_catalogue_db_def example_types_db_def empty_db_def)
  then have "checkExternalDispatchBarrier org env example_admission_db = Inr ()" for org env by (simp add: barrier_open_iff)
  then show ?thesis
    by (simp add: AuthorizeDeploymentAdmission_def Let_def example_valid_request example_checks insert_guard_def
        advanceEnvironmentAdmissionEpoch_def f insert_row.simps guards_constraints_def violates_def)
qed

lemma example_admissions_inv: "admissions_inv example_admission_db"
  by (simp add: admissions_inv_def example_admission_db_def example_pins_db_def example_catalogue_db_def example_types_db_def empty_db_def)

section \<open>Properties\<close>

text \<open>
  C24. What an authorised Deployment respects. Every version that a pin protects in the environment is
  the version the Deployment selects (unless it destroys the environment). Every selected module exists
  and is admissible: an archived module only by rollback or unchanged; a proposed version only when it is
  pinned, rolled back to, unchanged or freshly allowed; a deprecated one only when it is pinned or rolled
  back to; a defective one only then and with a confirmation; a Draft snapshot only when it has already
  been deployed there or is freshly allowed. And every confirmation names a selected defective version.
\<close>

theorem admission_rules:
  assumes "AuthorizeDeploymentAdmission parse_uuid request policies s = Inr (receipt, s')"
  shows "(\<forall>m \<in> fst ` set (map_entries (da_ModuleVersions request)). admissible request (policy_of policies) m s)
    \<and> (\<forall>u \<in> set (confirmed_versions request).
         \<exists>m \<in> fst ` set (map_entries (da_ModuleVersions request)). defective_target request m u s)
    \<and> (\<forall>p \<in> set (pins s). honours request p)"
proof -
  have "admission_checks (canonicalDeploymentAdmission request) (policy_of policies) s = Inr ()"
    using assms by (rule authorize_Inr)
  from checks_admissible [OF this] checks_confirmed [OF this] checks_Inr(2) [OF this] show ?thesis by simp
qed

theorem admission_rules_witness:
  "(\<exists>receipt s'. AuthorizeDeploymentAdmission Some (example_request ''deploy'' ''h1'') [] example_admission_db = Inr (receipt, s'))
   \<and> admissible (example_request ''deploy'' ''h1'') (policy_of []) ''m1'' example_admission_db"
proof -
  obtain receipt s' where a: "AuthorizeDeploymentAdmission Some (example_request ''deploy'' ''h1'') [] example_admission_db
    = Inr (receipt, s')" using example_authorize by metis
  have "''m1'' \<in> fst ` set (map_entries (da_ModuleVersions (example_request ''deploy'' ''h1'')))"
    by (simp add: example_request_def map_entries_def)
  then show ?thesis using admission_rules [OF a] a by auto
qed

text \<open>
  C34. No environment stays closed. An unresolved admission can always be settled by its own evidence with
  any terminal outcome; once it is settled, the environment is open again unless an external dispatch is
  unsettled there; reporting the same outcome again returns the same receipt and changes nothing; and a
  different outcome is refused.
\<close>

theorem settlement_reopens:
  assumes "admissions_inv s" "g \<in> set (guards s)" "ag_outcome g = None"
    "outcome \<in> {''succeeded'', ''failed'', ''cancelled'', ''terminated'', ''absent''}"
  shows "\<exists>receipt s'. let settle = (\<lambda>out. SettleDeploymentAdmission (ag_org_id g) (ag_admission_id g) (da_ProjectUUID (ag_intent g))
           (da_EnvironmentUUID (ag_intent g)) (da_RequestDigest (ag_intent g)) out) in
      settle outcome s = Inr (receipt, s') \<and> settle outcome s' = Inr (receipt, s')
      \<and> (\<forall>out. out \<noteq> outcome \<longrightarrow> (\<exists>e. settle out s' = Inl e))
      \<and> ((\<forall>r \<in> set (dispatches s). ed_EnvironmentUUID (di_intent r) = ag_environment_uuid g \<longrightarrow> di_state r = DispatchSettled) \<longrightarrow>
           checkExternalDispatchBarrier (ag_org_id g) (ag_environment_uuid g) s' = Inr ())"
proof -
  let ?i = "ag_admission_id g" and ?org = "ag_org_id g"
  let ?s' = "settle_guard ?org ?i outcome s" and ?g' = "g\<lparr>ag_outcome := Some outcome\<rparr>"
  have g: "find (guard_at ?org ?i) (guards s) = Some g" using assms(1,2) by (auto simp: admissions_inv_def intro: guard_found)
  then have g': "find (guard_at ?org ?i) (guards ?s') = Some ?g'"
    unfolding settle_guard_def using find_in_set [OF g] by (simp add: find_upd_where guard_at_def)
  have only: "x = g" if "x \<in> set (guards s)" "ag_org_id x = ?org" "ag_environment_uuid x = ag_environment_uuid g" "ag_outcome x = None" for x
    using keys_uniqueD [of active_guard_key "guards s" x g] that assms(1-3) by (simp add: admissions_inv_def active_guard_key_def)
  have settled: "ag_outcome x \<noteq> None"
    if x: "x \<in> set (guards ?s')" "ag_org_id x = ?org" "ag_environment_uuid x = ag_environment_uuid g" for x
  proof -
    obtain y where y: "y \<in> set (guards s)" "x = (if guard_at ?org ?i y then y\<lparr>ag_outcome := Some outcome\<rparr> else y)"
      using x(1) unfolding settle_guard_def by (auto simp: in_upd_where)
    show ?thesis
    proof (cases "guard_at ?org ?i y")
      case True
      then show ?thesis using y(2) by simp
    next
      case False
      then have "y \<noteq> g" "x = y" using y(2) by (auto simp: guard_at_def)
      then show ?thesis using only [OF y(1)] x(2,3) by metis
    qed
  qed
  have disp: "dispatches ?s' = dispatches s" by (simp add: settle_guard_def)
  show ?thesis unfolding Let_def
    by (rule exI [of _ "admissionReceipt (ag_intent g) (ag_epoch g) (Some outcome)"], rule exI [of _ ?s'])
      (use assms(3,4) g g' settled disp in \<open>auto simp: SettleDeploymentAdmission_def Let_def barrier_open_iff fail_if_def\<close>)
qed
theorem settlement_reopens_witness:
  "\<exists>s g. g \<in> set (guards s) \<and> ag_outcome g = None \<and> (\<exists>receipt s'. SettleDeploymentAdmission (ag_org_id g) (ag_admission_id g)
     (da_ProjectUUID (ag_intent g)) (da_EnvironmentUUID (ag_intent g)) (da_RequestDigest (ag_intent g)) ''failed'' s = Inr (receipt, s')
     \<and> checkExternalDispatchBarrier (ag_org_id g) (ag_environment_uuid g) s' = Inr ())"
proof -
  obtain receipt s where a: "AuthorizeDeploymentAdmission Some (example_request ''deploy'' ''h1'') [] example_admission_db = Inr (receipt, s)"
    and o: "map ag_outcome (guards s) = [None]" "dispatches s = []" using example_authorize by metis
  obtain g where g: "guards s = [g]" "ag_outcome g = None" using o(1) by (cases "guards s") auto
  have "g \<in> set (guards s)" using g(1) by simp
  from settlement_reopens [OF authorize_keeps(1) [OF a example_admissions_inv] this g(2), of "''failed''"] this g(2) o(2)
  show ?thesis by (auto simp: Let_def)
qed

end
