(* ===== verification/Extensions.thy ===== *)
theory Extensions
  imports Environments Concurrency
begin

text \<open>
  The module extension contract (\<^verbatim>\<open>internal/model/module_extensions.go\<close>, migration 25): exclusive
  operation reservations of modules, and the contributions that extensions register for a module.

  The identifiers and times that the database generates are arguments. The statement of an acquisition
  ends in \<^verbatim>\<open>ON CONFLICT DO NOTHING\<close>: a violated key is no error but the absence of a row, and the code
  then looks for the reservation that is in the way. The \<^verbatim>\<open>CHECK\<close> of the namespace is evaluated first.
\<close>

section \<open>Operation reservations\<close>

definition is_lower :: "char \<Rightarrow> bool" where
  "is_lower c \<longleftrightarrow> CHR ''a'' \<le> c \<and> c \<le> CHR ''z''"

definition namespace_char :: "char \<Rightarrow> bool" where
  "namespace_char c \<longleftrightarrow> is_lower c \<or> is_digit c \<or> c = CHR ''.'' \<or> c = CHR ''-''"

text \<open>\<^verbatim>\<open>namespace ~ '^[a-z][a-z0-9.-]*$'\<close>.\<close>

fun valid_namespace :: "string \<Rightarrow> bool" where
  "valid_namespace [] = False"
| "valid_namespace (c # cs) = (is_lower c \<and> list_all namespace_char cs)"

definition GetModuleOperationReservation :: "string \<Rightarrow> uuid \<Rightarrow> db \<Rightarrow> ModuleOperationReservation result" where
  "GetModuleOperationReservation orgID reservationID s =
     require_some (NewErrNotFound ''Module operation reservation not found'')
       (find (\<lambda>r. mr_OrgID r = orgID \<and> mr_ID r = reservationID) (reservations s))"

definition active_key :: "ModuleOperationReservation \<Rightarrow> string list option" where
  "active_key r = (if mr_ReleasedAt r = None then Some [mr_ModuleUUID r] else None)"

definition reservations_constraints :: "(ModuleOperationReservation, string list) constraint list" where
  "reservations_constraints =
     [(''module_operation_reservations_pkey'', \<lambda>r. Some [mr_ID r]),
      (''module_operation_reservations_org_id_namespace_operation_id_key'',
         \<lambda>r. Some [mr_OrgID r, mr_Namespace r, mr_OperationID r]),
      (''module_operation_reservations_exclusive'', active_key)]"

definition AcquireModuleOperationReservation ::
  "string \<Rightarrow> string \<Rightarrow> string \<Rightarrow> uuid \<Rightarrow> string \<Rightarrow> string \<Rightarrow> uuid \<Rightarrow> uuid \<Rightarrow> timestamp \<Rightarrow> db
   \<Rightarrow> (ModuleOperationReservation \<times> db) result" where
  "AcquireModuleOperationReservation orgID moduleRef namespace operationID relatedResourceID reason actor new_id now s =
     (case RequireTransitionReason reason of
        Some m \<Rightarrow> Inl (NewErrBadRequest m)
      | None \<Rightarrow>
        try_then (GetModuleCatalogue orgID moduleRef s) (\<lambda>entry.
        fail_if (mc_Status entry = CatalogueArchived)
          (NewErrConflict ''archived Module cannot accept a new operation reservation'')
       (fail_if (\<not> valid_namespace namespace) (ErrConstraint ''module_operation_reservations_namespace_check'')
       (case insert_row reservations_constraints
          \<lparr>mr_ID = new_id, mr_OrgID = orgID, mr_ModuleUUID = mc_UUID entry, mr_Namespace = namespace,
           mr_OperationID = operationID, mr_RelatedResourceID = relatedResourceID, mr_Reason = TrimSpace reason,
           mr_ResourceVersion = 1, mr_AcquiredBy = actor, mr_AcquiredAt = now, mr_ReleasedBy = None,
           mr_ReleasedAt = None, mr_ReleaseReason = ''''\<rparr> (reservations s) of
          Inr rows \<Rightarrow> Inr (last rows, s\<lparr>reservations := rows\<rparr>)
        | Inl _ \<Rightarrow>
            let blocked = (if ListModuleOperationReservations orgID (mc_UUID entry) False s \<noteq> []
                  then Inl (NewErrConflict ''Module is reserved by '')
                  else Inl (NewErrConflict
                    ''operation identity is already associated with a different Module reservation''))
            in case find (\<lambda>r. mr_OrgID r = orgID \<and> mr_Namespace r = namespace \<and> mr_OperationID r = operationID)
                 (reservations s) of
                 Some existing \<Rightarrow>
                   if mr_ModuleUUID existing = mc_UUID entry \<and> mr_RelatedResourceID existing = relatedResourceID
                     \<and> mr_ReleasedAt existing = None
                   then Inr (existing, s) else blocked
               | None \<Rightarrow> blocked))))"

definition ReleaseModuleOperationReservation ::
  "string \<Rightarrow> uuid \<Rightarrow> int \<Rightarrow> uuid \<Rightarrow> string \<Rightarrow> timestamp \<Rightarrow> db \<Rightarrow> (ModuleOperationReservation \<times> db) result" where
  "ReleaseModuleOperationReservation orgID reservationID expectedVersion actor reason now s =
     (case RequireTransitionReason reason of
        Some m \<Rightarrow> Inl (NewErrBadRequest m)
      | None \<Rightarrow>
        try_then (GetModuleOperationReservation orgID reservationID s) (\<lambda>current.
        fail_if (mr_ResourceVersion current \<noteq> expectedVersion)
          (NewErrConflict ''Module operation reservation changed since it was read'')
       (if mr_ReleasedAt current \<noteq> None then Inr (current, s)
        else
          let hit = (\<lambda>r. mr_OrgID r = orgID \<and> mr_ID r = reservationID);
              change = (\<lambda>r. r\<lparr>mr_ReleasedBy := Some actor, mr_ReleasedAt := Some now,
                mr_ReleaseReason := TrimSpace reason, mr_ResourceVersion := mr_ResourceVersion r + 1\<rparr>)
          in Inr (change current, s\<lparr>reservations := upd_where hit change (reservations s)\<rparr>))))"

section \<open>Extension contributions\<close>

definition contribution_key :: "ModuleExtensionContribution \<Rightarrow> string list" where
  "contribution_key c = [ec_OrgID c, ec_Namespace c, ec_ExternalResourceID c, ec_Kind c]"

text \<open>
  The upsert: a row with the same identity is updated if it belongs to the same module. The encoding of
  the payload as JSON cannot fail for the payloads of the model.
\<close>

definition UpsertModuleExtensionContribution ::
  "string \<Rightarrow> string \<Rightarrow> uuid option \<Rightarrow> uuid option \<Rightarrow> string \<Rightarrow> string \<Rightarrow> string \<Rightarrow> string \<Rightarrow> string \<Rightarrow> string
   \<Rightarrow> json_object option \<Rightarrow> uuid \<Rightarrow> uuid \<Rightarrow> timestamp \<Rightarrow> db \<Rightarrow> (ModuleExtensionContribution \<times> db) result" where
  "UpsertModuleExtensionContribution orgID moduleRef versionUUID environmentUUID namespace externalResourceID kind
       lifecycleState label targetURL payload actor new_id now s =
     try_then (GetModuleCatalogue orgID moduleRef s) (\<lambda>entry.
     try_then (case versionUUID of None \<Rightarrow> Inr ()
       | Some v \<Rightarrow> try_then (GetCoreModuleVersion orgID (mc_UUID entry) v s) (\<lambda>_. Inr ())) (\<lambda>_.
     try_then (case environmentUUID of None \<Rightarrow> Inr ()
       | Some e \<Rightarrow> try_then (GetEnvironmentByUuid orgID e s) (\<lambda>_. Inr ())) (\<lambda>_.
     fail_if (\<not> List.member [''related_resource'', ''contextual_action''] kind)
       (ErrConstraint ''module_extension_contributions_contribution_kind_check'')
    (fail_if (\<not> List.member [''draft'', ''active'', ''terminal''] lifecycleState)
       (ErrConstraint ''module_extension_contributions_lifecycle_state_check'')
    (let row = \<lparr>ec_ID = new_id, ec_OrgID = orgID, ec_ModuleUUID = mc_UUID entry, ec_VersionUUID = versionUUID,
           ec_EnvironmentUUID = environmentUUID, ec_Namespace = namespace, ec_ExternalResourceID = externalResourceID,
           ec_Kind = kind, ec_LifecycleState = lifecycleState, ec_Label = label, ec_TargetURL = targetURL,
           ec_Payload = payload, ec_CreatedBy = actor, ec_CreatedAt = now, ec_UpdatedAt = now\<rparr>;
         same = (\<lambda>c. contribution_key c = contribution_key row)
     in case find same (contributions s) of
          None \<Rightarrow>
            try_then (insert_row [(''module_extension_contributions_pkey'', \<lambda>c. Some (ec_ID c))] row (contributions s))
              (\<lambda>rows. Inr (row, s\<lparr>contributions := rows\<rparr>))
        | Some c \<Rightarrow>
            fail_if (ec_ModuleUUID c \<noteq> ec_ModuleUUID row)
              (NewErrConflict ''extension contribution identity is already bound to another Module'')
           (let change = (\<lambda>c. c\<lparr>ec_VersionUUID := versionUUID, ec_EnvironmentUUID := environmentUUID,
                  ec_LifecycleState := lifecycleState, ec_Label := label, ec_TargetURL := targetURL,
                  ec_Payload := payload, ec_UpdatedAt := now\<rparr>)
            in Inr (change c, s\<lparr>contributions := upd_where same change (contributions s)\<rparr>)))))))"

definition listed_state :: "bool \<Rightarrow> bool \<Rightarrow> ModuleExtensionContribution \<Rightarrow> bool" where
  "listed_state includeDraft includeTerminal c \<longleftrightarrow>
     (includeDraft \<or> ec_LifecycleState c \<noteq> ''draft'') \<and> (includeTerminal \<or> ec_LifecycleState c \<noteq> ''terminal'')"

definition ListModuleExtensionContributionsForEnvironment ::
  "string \<Rightarrow> uuid \<Rightarrow> bool \<Rightarrow> bool \<Rightarrow> db \<Rightarrow> ModuleExtensionContribution list" where
  "ListModuleExtensionContributionsForEnvironment orgID environmentUUID includeDraft includeTerminal s =
     sort_key (\<lambda>c. (- ec_CreatedAt c, ec_ID c))
       (filter (\<lambda>c. ec_OrgID c = orgID \<and> ec_EnvironmentUUID c = Some environmentUUID
           \<and> listed_state includeDraft includeTerminal c) (contributions s))"

definition ListModuleExtensionContributions ::
  "string \<Rightarrow> uuid \<Rightarrow> bool \<Rightarrow> bool \<Rightarrow> db \<Rightarrow> ModuleExtensionContribution list" where
  "ListModuleExtensionContributions orgID moduleUUID includeDraft includeTerminal s =
     sort_key (\<lambda>c. (- ec_CreatedAt c, ec_ID c))
       (filter (\<lambda>c. ec_OrgID c = orgID \<and> ec_ModuleUUID c = moduleUUID
           \<and> listed_state includeDraft includeTerminal c) (contributions s))"

section \<open>Exclusive reservations\<close>

text \<open>
  At most one active reservation per module, and none for an archived module. The frame rule covers the
  operations that leave the reservations and the identity and catalogue status of every module alone.
\<close>

definition module_state :: "definitions_row \<Rightarrow> string \<times> string \<times> uuid \<times> CatalogueStatus" where
  "module_state d = (d_org_id d, d_id d, d_uuid d, d_catalogue_status d)"

definition module_active :: "string \<Rightarrow> uuid \<Rightarrow> db \<Rightarrow> bool" where
  "module_active org u s \<longleftrightarrow>
     (\<exists>d \<in> set (definitions s). d_org_id d = org \<and> d_uuid d = u \<and> d_catalogue_status d = CatalogueActive)"

definition reservations_inv :: "db \<Rightarrow> bool" where
  "reservations_inv s \<longleftrightarrow>
     distinct (map mr_ID (reservations s)) \<and> keys_unique active_key (reservations s)
     \<and> distinct (map (\<lambda>d. (d_org_id d, d_id d)) (definitions s))
     \<and> (\<forall>r \<in> set (reservations s). mr_ReleasedAt r = None \<longrightarrow>
          module_active (mr_OrgID r) (mr_ModuleUUID r) s)"

inductive reservation_step :: "db \<Rightarrow> db \<Rightarrow> bool" where
  reservation_frame: "reservations s' = reservations s \<Longrightarrow> map module_state (definitions s') = map module_state (definitions s) \<Longrightarrow>
    reservation_step s s'"
| acquire: "AcquireModuleOperationReservation org ref ns op res reason actor new now s = Inr (r, s') \<Longrightarrow> reservation_step s s'"
| release: "ReleaseModuleOperationReservation org i e actor reason now s = Inr (r, s') \<Longrightarrow> reservation_step s s'"
| archive: "SetModuleCatalogueStatus org ref target actor reason e now s = Inr (m, s') \<Longrightarrow> reservation_step s s'"
| add_module: "CreateEmptyModule org slug name descr rtype tags new now s = Inr (m, s') \<Longrightarrow> reservation_step s s'"
| remove_module: "DeleteModuleDefinition org defid s = Inr (u, s') \<Longrightarrow> reservation_step s s'"

lemma module_active_state:
  "module_active org u s \<longleftrightarrow> (\<exists>i. (org, i, u, CatalogueActive) \<in> module_state ` set (definitions s))"
proof
  assume "module_active org u s"
  then obtain d where "d \<in> set (definitions s)" "module_state d = (org, d_id d, u, CatalogueActive)"
    by (auto simp: module_active_def module_state_def)
  then show "\<exists>i. (org, i, u, CatalogueActive) \<in> module_state ` set (definitions s)" by force
qed (auto simp: module_active_def module_state_def)

lemma acquire_Inr:
  assumes "AcquireModuleOperationReservation org ref ns op res reason actor new now s = Inr (r, s')"
  obtains d where "find (module_matches org ref) (definitions s) = Some d" "d_catalogue_status d = CatalogueActive"
    "mr_OrgID r = org" "mr_ModuleUUID r = d_uuid d" "mr_Namespace r = ns" "mr_OperationID r = op" "mr_RelatedResourceID r = res"
    "mr_ReleasedAt r = None" "r \<in> set (reservations s')"
    "s' = s \<or> insert_row reservations_constraints r (reservations s) = Inr (reservations s @ [r])
       \<and> s' = s\<lparr>reservations := reservations s @ [r]\<rparr>"
proof -
  obtain d where d: "find (module_matches org ref) (definitions s) = Some d"
    using assms by (auto simp: AcquireModuleOperationReservation_def GetModuleCatalogue_Inr split: option.splits)
  let ?row = "\<lparr>mr_ID = new, mr_OrgID = org, mr_ModuleUUID = d_uuid d, mr_Namespace = ns,
           mr_OperationID = op, mr_RelatedResourceID = res, mr_Reason = TrimSpace reason,
           mr_ResourceVersion = 1, mr_AcquiredBy = actor, mr_AcquiredAt = now, mr_ReleasedBy = None,
           mr_ReleasedAt = None, mr_ReleaseReason = ''''\<rparr>"
  have reason: "RequireTransitionReason reason = None"
    using assms by (cases "RequireTransitionReason reason") (simp_all add: AcquireModuleOperationReservation_def)
  note a = assms [unfolded AcquireModuleOperationReservation_def reason GetModuleCatalogue_def d, simplified]
  have act: "d_catalogue_status d = CatalogueActive" using a by (cases "d_catalogue_status d") simp_all
  show thesis
  proof (cases "insert_row reservations_constraints ?row (reservations s)")
    case (Inr rows)
    then have rows: "rows = reservations s @ [?row]" by (simp add: insert_row_Inr_iff)
    then have r: "r = ?row" and s': "s' = s\<lparr>reservations := reservations s @ [?row]\<rparr>" using a Inr by auto
    show thesis by (rule that [OF d act]) (use Inr in \<open>simp_all add: r s' rows\<close>)
  next
    case (Inl err)
    then obtain x where x: "find (\<lambda>r. mr_OrgID r = org \<and> mr_Namespace r = ns \<and> mr_OperationID r = op) (reservations s) = Some x"
      "mr_ModuleUUID x = d_uuid d" "mr_RelatedResourceID x = res" "mr_ReleasedAt x = None" "r = x" "s' = s"
      using a by (simp add: Let_def split: option.splits if_splits)
    show thesis by (rule that [OF d act]) (use x(2-) find_in_set [OF x(1)] in simp_all)
  qed
qed

lemma acquire_preserves:
  assumes "AcquireModuleOperationReservation org ref ns op res reason actor new now s = Inr (r, s')" "reservations_inv s"
  shows "reservations_inv s'"
proof -
  obtain d where d: "find (module_matches org ref) (definitions s) = Some d" "d_catalogue_status d = CatalogueActive"
    and r: "mr_OrgID r = org" "mr_ModuleUUID r = d_uuid d"
    and s': "s' = s \<or> insert_row reservations_constraints r (reservations s) = Inr (reservations s @ [r])
       \<and> s' = s\<lparr>reservations := reservations s @ [r]\<rparr>" by (rule acquire_Inr [OF assms(1)])
  have "module_active org (d_uuid d) s"
    using find_in_set [OF d(1)] d(2) by (auto simp: module_active_def module_matches_def)
  with r have mod: "module_active (mr_OrgID r) (mr_ModuleUUID r) s" by simp
  show ?thesis using s'
  proof (elim disjE conjE)
    assume "s' = s"
    then show ?thesis using assms(2) by simp
  next
    assume i: "insert_row reservations_constraints r (reservations s) = Inr (reservations s @ [r])"
      and s': "s' = s\<lparr>reservations := reservations s @ [r]\<rparr>"
    have "\<not> violates active_key r (reservations s)" "mr_ID r \<notin> mr_ID ` set (reservations s)"
      using i by (auto simp: insert_row_Inr_iff reservations_constraints_def violates_def list_ex_iff)
    then show ?thesis using assms(2) mod
      by (auto simp: s' reservations_inv_def keys_unique_snoc module_active_def)
  qed
qed

lemma release_Inr:
  assumes "ReleaseModuleOperationReservation org i e actor reason now s = Inr (r, s')"
  obtains "s' = s" "mr_ReleasedAt r \<noteq> None"
  | current where "find (\<lambda>r. mr_OrgID r = org \<and> mr_ID r = i) (reservations s) = Some current" "mr_ResourceVersion current = e"
      "mr_ReleasedAt current = None" "mr_ReleasedAt r = Some now"
      "s' = s\<lparr>reservations := upd_where (\<lambda>r. mr_OrgID r = org \<and> mr_ID r = i)
        (\<lambda>r. r\<lparr>mr_ReleasedBy := Some actor, mr_ReleasedAt := Some now, mr_ReleaseReason := TrimSpace reason,
           mr_ResourceVersion := mr_ResourceVersion r + 1\<rparr>) (reservations s)\<rparr>"
proof -
  obtain current where c: "find (\<lambda>r. mr_OrgID r = org \<and> mr_ID r = i) (reservations s) = Some current" "mr_ResourceVersion current = e"
    using assms by (auto simp: ReleaseModuleOperationReservation_def GetModuleOperationReservation_def split: option.splits)
  show thesis
  proof (cases "mr_ReleasedAt current = None")
    case True
    then show thesis using assms c
      by (intro that(2) [OF c True])
        (auto simp: ReleaseModuleOperationReservation_def GetModuleOperationReservation_def Let_def split: option.splits)
  next
    case False
    then show thesis using assms c
      by (intro that(1)) (auto simp: ReleaseModuleOperationReservation_def GetModuleOperationReservation_def split: option.splits)
  qed
qed

lemma release_preserves:
  assumes "ReleaseModuleOperationReservation org i e actor reason now s = Inr (r, s')" "reservations_inv s"
  shows "reservations_inv s'"
  using assms(1)
proof (rule release_Inr)
  assume "s' = s"
  then show ?thesis using assms(2) by simp
next
  let ?P = "\<lambda>r. mr_OrgID r = org \<and> mr_ID r = i" and ?f = "\<lambda>r. r\<lparr>mr_ReleasedBy := Some actor, mr_ReleasedAt := Some now,
    mr_ReleaseReason := TrimSpace reason, mr_ResourceVersion := mr_ResourceVersion r + 1\<rparr>"
  assume s': "s' = s\<lparr>reservations := upd_where ?P ?f (reservations s)\<rparr>"
  have "keys_unique active_key (upd_where ?P ?f (reservations s))"
    by (rule keys_unique_release) (use assms(2) in \<open>simp_all add: reservations_inv_def active_key_def\<close>)
  then show ?thesis using assms(2)
    by (auto simp: s' reservations_inv_def map_upd_where in_upd_where module_active_def split: if_splits)
qed
lemma no_active_reservation:
  assumes "ListModuleOperationReservations org u False s = []" "r \<in> set (reservations s)" "mr_OrgID r = org" "mr_ModuleUUID r = u"
  shows "mr_ReleasedAt r \<noteq> None"
proof -
  have "filter (\<lambda>r. mr_OrgID r = org \<and> mr_ModuleUUID r = u \<and> mr_ReleasedAt r = None) (reservations s) = []"
    using arg_cong [OF assms(1), of set] by (simp add: ListModuleOperationReservations_def filter_empty_conv)
  then show ?thesis using assms(2-4) by (auto simp: filter_empty_conv)
qed

lemma archive_preserves:
  assumes "SetModuleCatalogueStatus org ref target actor reason e now s = Inr (m, s')" "reservations_inv s"
  shows "reservations_inv s'"
  using assms(1)
proof (rule set_status_cases)
  assume "s' = s"
  then show ?thesis using assms(2) by simp
next
  fix d status
  assume free: "status = CatalogueArchived \<Longrightarrow> ListModuleOperationReservations org (d_uuid d) False s = []"
    and same: "reservations s' = reservations s"
    and defs: "definitions s' = upd_where (\<lambda>x. d_org_id x = org \<and> d_uuid x = d_uuid d)
         (set_module_status status actor (TrimSpace reason) now) (definitions s)"
  have "module_active (mr_OrgID r) (mr_ModuleUUID r) s'"
    if r: "r \<in> set (reservations s)" "mr_ReleasedAt r = None" for r
  proof -
    obtain x where x: "x \<in> set (definitions s)" "d_org_id x = mr_OrgID r" "d_uuid x = mr_ModuleUUID r" "d_catalogue_status x = CatalogueActive"
      using assms(2) r by (auto simp: reservations_inv_def module_active_def)
    have "status = CatalogueActive" if "d_org_id x = org" "d_uuid x = d_uuid d"
      using no_active_reservation [OF free r(1)] r(2) x that by (cases status) auto
    then have "d_catalogue_status (if d_org_id x = org \<and> d_uuid x = d_uuid d then set_module_status status actor (TrimSpace reason) now x else x)
        = CatalogueActive" using x(4) by simp
    with x(2,3) show ?thesis unfolding module_active_def defs
      by (intro bexI [OF _ upd_where_intro [OF x(1)]] conjI) auto
  qed
  then show ?thesis using assms(2) by (auto simp: reservations_inv_def same defs map_upd_where)
qed

lemma reservation_step_preserves:
  assumes "reservation_step s s'" "reservations_inv s"
  shows "reservations_inv s'"
  using assms(1)
proof cases
  case reservation_frame
  have "map (\<lambda>d. (d_org_id d, d_id d)) (definitions s') = map (\<lambda>d. (d_org_id d, d_id d)) (definitions s)"
    using arg_cong [OF reservation_frame(2), of "map (\<lambda>(a, b, c). (a, b))"] by (simp add: comp_def module_state_def)
  moreover have "module_active org u s' = module_active org u s" for org u
    using arg_cong [OF reservation_frame(2), of set] by (simp add: module_active_state)
  ultimately show ?thesis using assms(2) reservation_frame(1) by (simp add: reservations_inv_def)
next
  case acquire
  then show ?thesis using assms(2) by (rule acquire_preserves)
next
  case release
  then show ?thesis using assms(2) by (rule release_preserves)
next
  case archive
  then show ?thesis using assms(2) by (rule archive_preserves)
next
  case (add_module org slug name descr rtype tags new now m)
  then obtain d rows where "insert_row definitions_constraints d (definitions s) = Inr rows" "s' = s\<lparr>definitions := rows\<rparr>"
    by (auto simp: CreateEmptyModule_def Let_def)
  then show ?thesis using assms(2) definitions_constraints_Inr [of d "definitions s" rows]
    by (auto simp: reservations_inv_def module_active_def)
next
  case (remove_module org defid u)
  then obtain d where d: "find (\<lambda>d. d_org_id d = org \<and> d_id d = defid) (definitions s) = Some d"
    "\<not> list_ex (\<lambda>r. mr_OrgID r = org \<and> mr_ModuleUUID r = d_uuid d) (reservations s)"
    and s': "definitions s' = filter (\<lambda>d. \<not> (d_org_id d = org \<and> d_id d = defid)) (definitions s)" "reservations s' = reservations s"
    by (auto simp: DeleteModuleDefinition_def)
  have used: "mr_ModuleUUID r \<noteq> d_uuid x" if x: "x \<in> set (definitions s)" "d_org_id x = org" "d_id x = defid"
    "r \<in> set (reservations s)" "mr_OrgID r = org" for x r
  proof -
    have "x = d" using unique_key_eq [of "\<lambda>d. (d_org_id d, d_id d)" "definitions s" x d] find_in_set [OF d(1)] x assms(2)
      by (simp add: reservations_inv_def)
    then show ?thesis using d(2) x(4,5) by (auto simp: list_ex_iff)
  qed
  have "module_active (mr_OrgID r) (mr_ModuleUUID r) s'"
    if r: "r \<in> set (reservations s)" "mr_ReleasedAt r = None" for r
  proof -
    obtain x where x: "x \<in> set (definitions s)" "d_org_id x = mr_OrgID r" "d_uuid x = mr_ModuleUUID r" "d_catalogue_status x = CatalogueActive"
      using assms(2) r by (auto simp: reservations_inv_def module_active_def)
    then have "x \<in> set (definitions s')" using used [OF x(1) _ _ r(1)] by (auto simp: s')
    then show ?thesis using x by (auto simp: module_active_def)
  qed
  then show ?thesis using assms(2) by (auto simp: reservations_inv_def s' distinct_map_filter)
qed

section \<open>Contributions\<close>

lemma upsert_Inr:
  assumes "UpsertModuleExtensionContribution org ref v env ns res kind state label url payload actor new now s = Inr (c, s')"
  obtains d where "find (module_matches org ref) (definitions s) = Some d"
    "ec_OrgID c = org" "ec_ModuleUUID c = d_uuid d" "ec_Namespace c = ns" "ec_ExternalResourceID c = res" "ec_Kind c = kind"
    "ec_VersionUUID c = v" "ec_EnvironmentUUID c = env" "ec_LifecycleState c = state" "ec_Label c = label"
    "ec_TargetURL c = url" "ec_Payload c = payload"
    "contribution_key c \<notin> contribution_key ` set (contributions s) \<and> contributions s' = contributions s @ [c]
     \<or> (\<exists>f x. x \<in> set (contributions s) \<and> contribution_key x = contribution_key c \<and> ec_ModuleUUID x = d_uuid d \<and> c = f x
          \<and> contributions s' = upd_where (\<lambda>y. contribution_key y = contribution_key c) f (contributions s)
          \<and> (\<forall>y. contribution_key (f y) = contribution_key y \<and> ec_ModuleUUID (f y) = ec_ModuleUUID y \<and> ec_ID (f y) = ec_ID y
               \<and> ec_CreatedBy (f y) = ec_CreatedBy y \<and> ec_CreatedAt (f y) = ec_CreatedAt y))"
proof -
  obtain d where d: "find (module_matches org ref) (definitions s) = Some d"
    using assms by (auto simp: UpsertModuleExtensionContribution_def GetModuleCatalogue_Inr)
  note a = assms [unfolded UpsertModuleExtensionContribution_def GetModuleCatalogue_def d, simplified]
  let ?row = "\<lparr>ec_ID = new, ec_OrgID = org, ec_ModuleUUID = d_uuid d, ec_VersionUUID = v, ec_EnvironmentUUID = env,
      ec_Namespace = ns, ec_ExternalResourceID = res, ec_Kind = kind, ec_LifecycleState = state, ec_Label = label,
      ec_TargetURL = url, ec_Payload = payload, ec_CreatedBy = actor, ec_CreatedAt = now, ec_UpdatedAt = now\<rparr>"
  let ?same = "\<lambda>c. contribution_key c = contribution_key ?row"
  let ?f = "\<lambda>c. c\<lparr>ec_VersionUUID := v, ec_EnvironmentUUID := env, ec_LifecycleState := state, ec_Label := label,
      ec_TargetURL := url, ec_Payload := payload, ec_UpdatedAt := now\<rparr>"
  show thesis
  proof (cases "find ?same (contributions s)")
    case None
    then have fresh: "contribution_key ?row \<notin> contribution_key ` set (contributions s)" by (auto simp: find_None_iff)
    have c: "c = ?row" and s': "contributions s' = contributions s @ [?row]"
      using a None by (auto simp: Let_def insert_row_Inr_iff)
    show thesis by (rule that [OF d]) (use fresh in \<open>simp_all add: c s'\<close>)
  next
    case (Some x)
    then have x: "x \<in> set (contributions s)" "contribution_key x = contribution_key ?row" using find_in_set [OF Some] by simp_all
    have mod: "ec_ModuleUUID x = d_uuid d" and c: "c = ?f x" and s': "contributions s' = upd_where ?same ?f (contributions s)"
      using a Some by (auto simp: Let_def)
    have key: "contribution_key (?f y) = contribution_key y" for y by (simp add: contribution_key_def)
    show thesis
    proof (rule that [OF d])
      show "contribution_key c \<notin> contribution_key ` set (contributions s) \<and> contributions s' = contributions s @ [c]
        \<or> (\<exists>f x. x \<in> set (contributions s) \<and> contribution_key x = contribution_key c \<and> ec_ModuleUUID x = d_uuid d \<and> c = f x
          \<and> contributions s' = upd_where (\<lambda>y. contribution_key y = contribution_key c) f (contributions s)
          \<and> (\<forall>y. contribution_key (f y) = contribution_key y \<and> ec_ModuleUUID (f y) = ec_ModuleUUID y \<and> ec_ID (f y) = ec_ID y
               \<and> ec_CreatedBy (f y) = ec_CreatedBy y \<and> ec_CreatedAt (f y) = ec_CreatedAt y))"
        by (intro disjI2 exI [of _ ?f] exI [of _ x]) (simp add: x mod c s' key)
    qed (use x(2) mod in \<open>simp_all add: c contribution_key_def\<close>)
  qed
qed

section \<open>A reserved module\<close>

lemma example_namespace: "valid_namespace ''promo''"
  by (simp add: namespace_char_def is_lower_def is_digit_def less_eq_char_def)

lemma example_acquire:
  "\<exists>r s'. AcquireModuleOperationReservation ''acme'' ''db'' ''promo'' ''op1'' ''campaign'' ''ship'' ''alice'' ''x1'' 5 example_catalogue_db
     = Inr (r, s') \<and> mr_ReleasedAt r = None \<and> r \<in> set (reservations s') \<and> mr_ModuleUUID r = ''m1''"
  by (simp add: AcquireModuleOperationReservation_def example_reason example_catalogue_db_def GetModuleCatalogue_def
      module_matches_def scanModuleCatalogue_def example_namespace insert_row.simps reservations_constraints_def
      violates_def example_types_db_def empty_db_def del: valid_namespace.simps)

lemma example_reservations_inv: "reservations_inv example_catalogue_db"
  by (simp add: reservations_inv_def example_catalogue_db_def example_types_db_def empty_db_def)

section \<open>Properties\<close>

text \<open>
  Operation reservations are exclusive. After any sequence of acquisitions, releases, archivals,
  creations and deletions of modules: two active reservations of one module are the same reservation;
  a module with an active reservation exists and is not archived; and an acquisition for such a module
  that is answered at all is answered with the reservation there is, and changes nothing.
\<close>

theorem reservations_exclusive:
  assumes "reservation_step\<^sup>*\<^sup>* s s'" "reservations_inv s"
  shows "\<forall>r \<in> set (reservations s'). mr_ReleasedAt r = None \<longrightarrow>
    (\<forall>q \<in> set (reservations s'). mr_ReleasedAt q = None \<and> mr_ModuleUUID q = mr_ModuleUUID r \<longrightarrow> q = r)
    \<and> module_active (mr_OrgID r) (mr_ModuleUUID r) s'
    \<and> (\<forall>org ref ns op res reason actor new now q s''.
         AcquireModuleOperationReservation org ref ns op res reason actor new now s' = Inr (q, s'')
         \<and> mr_ModuleUUID q = mr_ModuleUUID r \<longrightarrow> q = r \<and> s'' = s')"
proof (intro ballI impI)
  have inv: "reservations_inv s'"
    using assms by (induction rule: rtranclp_induct) (auto intro: reservation_step_preserves)
  fix r assume r: "r \<in> set (reservations s')" "mr_ReleasedAt r = None"
  have unique: "q = r" if "q \<in> set (reservations s')" "mr_ReleasedAt q = None" "mr_ModuleUUID q = mr_ModuleUUID r" for q
    using keys_uniqueD [of active_key "reservations s'" q r] inv r that by (auto simp: reservations_inv_def active_key_def)
  have again: "q = r \<and> s'' = s'"
    if a: "AcquireModuleOperationReservation org ref ns op res reason actor new now s' = Inr (q, s'')"
      and m: "mr_ModuleUUID q = mr_ModuleUUID r" for org ref ns op res reason actor new now q s''
  proof -
    obtain q': "mr_ReleasedAt q = None" "q \<in> set (reservations s'')"
      and s'': "s'' = s' \<or> insert_row reservations_constraints q (reservations s') = Inr (reservations s' @ [q])
        \<and> s'' = s'\<lparr>reservations := reservations s' @ [q]\<rparr>" by (rule acquire_Inr [OF a])
    have "insert_row reservations_constraints q (reservations s') \<noteq> Inr (reservations s' @ [q])"
      using r m q'(1) by (auto simp: insert_row_Inr_iff reservations_constraints_def violates_def list_ex_iff active_key_def)
    then have "s'' = s'" using s'' by simp
    then show ?thesis using unique q' m by simp
  qed
  show "(\<forall>q \<in> set (reservations s'). mr_ReleasedAt q = None \<and> mr_ModuleUUID q = mr_ModuleUUID r \<longrightarrow> q = r)
    \<and> module_active (mr_OrgID r) (mr_ModuleUUID r) s'
    \<and> (\<forall>org ref ns op res reason actor new now q s''.
         AcquireModuleOperationReservation org ref ns op res reason actor new now s' = Inr (q, s'')
         \<and> mr_ModuleUUID q = mr_ModuleUUID r \<longrightarrow> q = r \<and> s'' = s')"
  proof (intro conjI allI impI ballI)
    show "module_active (mr_OrgID r) (mr_ModuleUUID r) s'" using inv r by (simp add: reservations_inv_def)
  qed (elim conjE, rule unique again again [THEN conjunct1] again [THEN conjunct2]; assumption)+
qed

theorem reservations_exclusive_witness:
  "\<exists>r s'. AcquireModuleOperationReservation ''acme'' ''db'' ''promo'' ''op1'' ''campaign'' ''ship'' ''alice'' ''x1'' 5
       example_catalogue_db = Inr (r, s') \<and> mr_ReleasedAt r = None \<and> module_active (mr_OrgID r) (mr_ModuleUUID r) s'"
proof -
  obtain r s' where a: "AcquireModuleOperationReservation ''acme'' ''db'' ''promo'' ''op1'' ''campaign'' ''ship'' ''alice'' ''x1'' 5
       example_catalogue_db = Inr (r, s')" and r: "mr_ReleasedAt r = None" "r \<in> set (reservations s')"
    using example_acquire by blast
  have "reservation_step\<^sup>*\<^sup>* example_catalogue_db s'" using acquire [OF a] by (rule r_into_rtranclp)
  from reservations_exclusive [OF this example_reservations_inv] r have "module_active (mr_OrgID r) (mr_ModuleUUID r) s'" by simp
  with a r show ?thesis by blast
qed

text \<open>
  Registering a contribution is an upsert that never moves an identity to another module. If it
  answers, the contribution it returns has what the request asked for and is in the listing of the
  module; every contribution that was there before is still there under the same identity, for the same
  module, with its identifier and author; and identities stay unique.
\<close>

theorem contribution_upsert:
  assumes "UpsertModuleExtensionContribution org ref v env ns res kind state label url payload actor new now s = Inr (c, s')"
    and "distinct (map contribution_key (contributions s))"
  shows "c \<in> set (ListModuleExtensionContributions org (ec_ModuleUUID c) True True s')
    \<and> contribution_key c = [org, ns, res, kind] \<and> ec_LifecycleState c = state \<and> ec_Payload c = payload
    \<and> distinct (map contribution_key (contributions s'))
    \<and> (\<forall>x \<in> set (contributions s). \<exists>y \<in> set (contributions s'). contribution_key y = contribution_key x
         \<and> ec_ModuleUUID y = ec_ModuleUUID x \<and> ec_ID y = ec_ID x \<and> ec_CreatedBy y = ec_CreatedBy x)"
proof -
  obtain d :: definitions_row where c: "ec_OrgID c = org" "ec_ModuleUUID c = d_uuid d" "ec_Namespace c = ns" "ec_ExternalResourceID c = res"
      "ec_Kind c = kind" "ec_LifecycleState c = state" "ec_Payload c = payload"
    and how: "contribution_key c \<notin> contribution_key ` set (contributions s) \<and> contributions s' = contributions s @ [c]
     \<or> (\<exists>f x. x \<in> set (contributions s) \<and> contribution_key x = contribution_key c \<and> ec_ModuleUUID x = d_uuid d \<and> c = f x
          \<and> contributions s' = upd_where (\<lambda>y. contribution_key y = contribution_key c) f (contributions s)
          \<and> (\<forall>y. contribution_key (f y) = contribution_key y \<and> ec_ModuleUUID (f y) = ec_ModuleUUID y \<and> ec_ID (f y) = ec_ID y
               \<and> ec_CreatedBy (f y) = ec_CreatedBy y \<and> ec_CreatedAt (f y) = ec_CreatedAt y))"
    by (rule upsert_Inr [OF assms(1)])
  have "c \<in> set (contributions s') \<and> distinct (map contribution_key (contributions s'))
    \<and> (\<forall>x \<in> set (contributions s). \<exists>y \<in> set (contributions s'). contribution_key y = contribution_key x
         \<and> ec_ModuleUUID y = ec_ModuleUUID x \<and> ec_ID y = ec_ID x \<and> ec_CreatedBy y = ec_CreatedBy x)"
    using how
  proof (elim disjE exE conjE)
    assume "contribution_key c \<notin> contribution_key ` set (contributions s)" "contributions s' = contributions s @ [c]"
    then show ?thesis using assms(2) by auto
  next
    fix f x
    assume x: "x \<in> set (contributions s)" "contribution_key x = contribution_key c" "c = f x"
      and s': "contributions s' = upd_where (\<lambda>y. contribution_key y = contribution_key c) f (contributions s)"
      and f: "\<forall>y. contribution_key (f y) = contribution_key y \<and> ec_ModuleUUID (f y) = ec_ModuleUUID y \<and> ec_ID (f y) = ec_ID y
               \<and> ec_CreatedBy (f y) = ec_CreatedBy y \<and> ec_CreatedAt (f y) = ec_CreatedAt y"
    have img: "(if contribution_key y = contribution_key c then f y else y) \<in> set (contributions s')"
      if "y \<in> set (contributions s)" for y unfolding s' using that by (rule upd_where_intro)
    have "c \<in> set (contributions s')" using img [OF x(1)] x(2,3) by simp
    moreover have "distinct (map contribution_key (contributions s'))" using assms(2) f by (simp add: s' map_upd_where)
    moreover have "\<exists>z \<in> set (contributions s'). contribution_key z = contribution_key y \<and> ec_ModuleUUID z = ec_ModuleUUID y
        \<and> ec_ID z = ec_ID y \<and> ec_CreatedBy z = ec_CreatedBy y" if "y \<in> set (contributions s)" for y
      by (rule bexI [OF _ img [OF that]]) (simp add: f)
    ultimately show ?thesis by simp
  qed
  then show ?thesis using c
    by (simp add: ListModuleExtensionContributions_def listed_state_def contribution_key_def)
qed

theorem contribution_upsert_witness:
  "\<exists>c s'. UpsertModuleExtensionContribution ''acme'' ''db'' None None ''promo'' ''camp'' ''related_resource'' ''active'' ''Campaign''
       '''' None ''alice'' ''c1'' 5 example_catalogue_db = Inr (c, s')
     \<and> c \<in> set (ListModuleExtensionContributions ''acme'' ''m1'' True True s')"
proof -
  have "\<exists>c s'. UpsertModuleExtensionContribution ''acme'' ''db'' None None ''promo'' ''camp'' ''related_resource'' ''active'' ''Campaign''
       '''' None ''alice'' ''c1'' 5 example_catalogue_db = Inr (c, s') \<and> ec_ModuleUUID c = ''m1''"
    by (simp add: UpsertModuleExtensionContribution_def example_catalogue_db_def example_types_db_def empty_db_def
        GetModuleCatalogue_def module_matches_def scanModuleCatalogue_def insert_row.simps violates_def Let_def)
  then obtain c s' where u: "UpsertModuleExtensionContribution ''acme'' ''db'' None None ''promo'' ''camp'' ''related_resource''
       ''active'' ''Campaign'' '''' None ''alice'' ''c1'' 5 example_catalogue_db = Inr (c, s')" and m: "ec_ModuleUUID c = ''m1''" by blast
  have "distinct (map contribution_key (contributions example_catalogue_db))"
    by (simp add: example_catalogue_db_def example_types_db_def empty_db_def)
  from contribution_upsert [OF u this] m u show ?thesis by auto
qed

end
