(* ===== verification/Retries.thy ===== *)
theory Retries
  imports Prelude
begin

text \<open>
  Commands that are delivered at least once. A command of a remote caller may be delivered again after it
  has taken effect, and much later. The locales state what a command with a durable record promises, for
  any other steps of the system in between: it takes effect at most once, and, where a retry needs no
  further permission, the retry returns the receipt of the first delivery. Every component with receipts
  interprets one of them.
\<close>

locale at_most_once =
  fixes run :: "'c \<Rightarrow> 's \<Rightarrow> ('r \<times> 's) option"
    and recorded :: "'c \<Rightarrow> 'r \<Rightarrow> 's \<Rightarrow> bool"
    and step :: "'s \<Rightarrow> 's \<Rightarrow> bool"
  assumes run_records: "run c s = Some (r, s') \<Longrightarrow> recorded c r s'"
    and recorded_no_effect: "recorded c r s \<Longrightarrow> run c s = Some (r', s') \<Longrightarrow> r' = r \<and> s' = s"
    and step_keeps: "step s s' \<Longrightarrow> recorded c r s \<Longrightarrow> recorded c r s'"
begin

lemma steps_keep: "step\<^sup>*\<^sup>* s s' \<Longrightarrow> recorded c r s \<Longrightarrow> recorded c r s'"
  by (induction rule: rtranclp_induct) (auto intro: step_keeps)

text \<open>A later delivery \<open>c'\<close> of the same command: it has the same record.\<close>

lemma once:
  assumes "run c s = Some (r, s')" "step\<^sup>*\<^sup>* s' t" "recorded c' = recorded c" "run c' t = Some (r', t')"
  shows "r' = r \<and> t' = t"
proof -
  have "recorded c' r t" using steps_keep [OF assms(2) run_records [OF assms(1)]] assms(3) by simp
  then show ?thesis using assms(4) by (rule recorded_no_effect)
qed

end

locale receipts = at_most_once +
  assumes recorded_answers: "recorded c r s \<Longrightarrow> run c s = Some (r, s)"
begin

lemma retry: "run c s = Some (r, s') \<Longrightarrow> step\<^sup>*\<^sup>* s' t \<Longrightarrow> run c t = Some (r, t)"
  using run_records steps_keep recorded_answers by blast

end

text \<open>The outcome of an operation, its result and the new state.\<close>

definition completed :: "('a \<times> 's) result \<Rightarrow> ('a \<times> 's) option" where
  "completed x = (case x of Inl _ \<Rightarrow> None | Inr y \<Rightarrow> Some y)"

lemma completed_Some [simp]: "completed x = Some y \<longleftrightarrow> x = Inr y"
  by (simp add: completed_def split: sum.splits)

end
