(* ===== verification/Grants.thy ===== *)
theory Grants
  imports Admission Extensions Retries
begin

text \<open>
  Grants of delegated operations (\<^verbatim>\<open>internal/model/external_operation_grants.go\<close> and
  \<^verbatim>\<open>external_operation_reads.go\<close>, migration 34): the frozen intent of an operation that a plugin carries
  out, its state, and its revision, which fences every effect of the operation.

  The digest of a command is a SHA-256 hash of its JSON encoding and is the parameter \<open>digest\<close>; the field
  \<^verbatim>\<open>SafetyActivation\<close> is not encoded, so it is cleared before. The advisory lock on the operation
  serialises its commands: a command is one step on the database. Revisions are 64-bit in the source;
  they count commands, so they are modelled without a bound.
\<close>

section \<open>Plugin identities\<close>

text \<open>The regular expression \<^verbatim>\<open>^[a-z][a-z0-9]*(?:[.-][a-z0-9]+)+$\<close>: words separated by dots and dashes.\<close>

definition externalPluginIdentity :: "string \<Rightarrow> bool" where
  "externalPluginIdentity t =
     (case split_on CHR ''.'' (map (\<lambda>c. if c = CHR ''-'' then CHR ''.'' else c) t) of
        (c # w) # ps \<Rightarrow> is_lower c \<and> list_all (\<lambda>x. is_lower x \<or> is_digit x) w
          \<and> ps \<noteq> [] \<and> list_all (\<lambda>p. p \<noteq> [] \<and> list_all (\<lambda>x. is_lower x \<or> is_digit x) p) ps
      | _ \<Rightarrow> False)"

section \<open>Intents\<close>

fun check_intent_modules :: "(string \<times> uuid) list \<Rightarrow> uuid list \<Rightarrow> uuid list \<Rightarrow> model_error option" where
  "check_intent_modules targets seen [] = None"
| "check_intent_modules targets seen (i # is) =
     (if i = Nil_uuid \<or> List.member seen i
      then Some (NewErrBadRequest ''module bounds must be unique immutable identities'')
      else if map_at (Some targets) i = Nil_uuid
      then Some (NewErrBadRequest ''every module needs an exact immutable target version'')
      else check_intent_modules targets (i # seen) is)"

fun check_intent_environments :: "uuid list \<Rightarrow> ExternalOperationEnvironment list \<Rightarrow> model_error option" where
  "check_intent_environments seen [] = None"
| "check_intent_environments seen (e # es) =
     (if oe_ProjectID e = Nil_uuid \<or> oe_EnvironmentID e = Nil_uuid \<or> List.member seen (oe_EnvironmentID e)
      then Some (NewErrBadRequest ''environment bounds must be unique immutable identities'')
      else check_intent_environments (oe_EnvironmentID e # seen) es)"

fun check_intent_actions :: "string list \<Rightarrow> string list \<Rightarrow> model_error option" where
  "check_intent_actions seen [] = None"
| "check_intent_actions seen (a # as) =
     (if a = '''' \<or> length a > 128 \<or> List.member seen a
      then Some (NewErrBadRequest ''action bounds must be nonempty and unique'')
      else check_intent_actions (a # seen) as)"

definition validateExternalIntent :: "ExternalOperationIntent \<Rightarrow> model_error option" where
  "validateExternalIntent intent =
     (if length (oi_Fingerprint intent) \<noteq> 64 \<or> list_ex (\<lambda>c. List.member ''ABCDEF'' c) (oi_Fingerprint intent)
        \<or> oi_Modules intent = [] \<or> length (oi_Modules intent) > 1000 \<or> length (oi_Environments intent) > 10000
        \<or> oi_Actions intent = [] \<or> length (oi_Actions intent) > 64
      then Some (NewErrBadRequest ''bounded exact intent, modules and actions are required'')
      else if \<not> list_all is_lower_hex (oi_Fingerprint intent)
      then Some (NewErrBadRequest ''intent fingerprint must be lowercase SHA256'')
      else case check_intent_modules (oi_TargetVersions intent) [] (oi_Modules intent) of
        Some e \<Rightarrow> Some e
      | None \<Rightarrow>
        if length (oi_TargetVersions intent) \<noteq> length (oi_Modules intent)
        then Some (NewErrBadRequest ''target versions must match the frozen module set'')
        else case check_intent_environments [] (oi_Environments intent) of
          Some e \<Rightarrow> Some e
        | None \<Rightarrow> check_intent_actions [] (oi_Actions intent))"

section \<open>Reading a grant\<close>

definition grant_at :: "string \<Rightarrow> string \<Rightarrow> uuid \<Rightarrow> ExternalOperationGrant \<Rightarrow> bool" where
  "grant_at org plugin operation g \<longleftrightarrow> gr_OrgID g = org \<and> gr_PluginID g = plugin \<and> gr_OperationID g = operation"

definition command_at :: "string \<Rightarrow> string \<Rightarrow> uuid \<Rightarrow> grant_command_row \<Rightarrow> bool" where
  "command_at org plugin operation c \<longleftrightarrow> gc_org_id c = org \<and> gc_plugin_id c = plugin \<and> gc_operation_id c = operation"

definition readExternalGrant :: "string \<Rightarrow> string \<Rightarrow> uuid \<Rightarrow> db \<Rightarrow> ExternalOperationGrant result" where
  "readExternalGrant org plugin operation s =
     try_then (require_some ErrNoRows (find (grant_at org plugin operation) (grants s))) (\<lambda>row.
     let grant = row\<lparr>gr_SafetyActivation := False\<rparr> in
     if gr_State grant \<noteq> ''active'' then Inr grant
     else case find (\<lambda>c. command_at org plugin operation c \<and> gc_actor_id c = gr_ActorID grant
            \<and> gr_Revision (gc_response c) = gr_Revision grant \<and> gr_State (gc_response c) = gr_State grant) (grant_commands s) of
         None \<Rightarrow> Inr grant
       | Some c \<Rightarrow>
         (let receipt = gc_response c in
          fail_if (gr_OrgID receipt \<noteq> org \<or> gr_PluginID receipt \<noteq> plugin \<or> gr_OperationID receipt \<noteq> operation
              \<or> gr_ActorID receipt \<noteq> gr_ActorID grant \<or> gr_Revision receipt \<noteq> gr_Revision grant \<or> gr_State receipt \<noteq> gr_State grant)
            (NewErrConflict ''operation grant command receipt identity changed'')
         (Inr (grant\<lparr>gr_SafetyActivation := gr_State grant = ''active'' \<and> gr_SafetyActivation receipt\<rparr>))))"

definition GetExternalOperationGrant :: "string \<Rightarrow> string \<Rightarrow> uuid \<Rightarrow> db \<Rightarrow> ExternalOperationGrant result" where
  "GetExternalOperationGrant org plugin operation s = readExternalGrant org plugin operation s"

section \<open>Commands\<close>

record ExternalGrantCommand =
  xg_OrgID :: string
  xg_PluginID :: string
  xg_OperationID :: uuid
  xg_ActorID :: uuid
  xg_SourceOperation :: string
  xg_SourceDigest :: string
  xg_RequestID :: string
  xg_ExpectedRevision :: int
  xg_Action :: string
  xg_Reason :: string
  xg_Intent :: "ExternalOperationIntent option"
  xg_SafetyActivation :: bool

definition validate_grant_command :: "ExternalGrantCommand \<Rightarrow> model_error option" where
  "validate_grant_command c =
     (if xg_OrgID c = '''' \<or> \<not> externalPluginIdentity (xg_PluginID c) \<or> xg_OperationID c = Nil_uuid \<or> xg_ActorID c = Nil_uuid
        \<or> xg_RequestID c = '''' \<or> length (xg_RequestID c) > 128 \<or> xg_SourceOperation c = '''' \<or> TrimSpace (xg_Reason c) = ''''
      then Some (NewErrBadRequest ''operation grant requires exact identity, request, source and reason'')
      else if length (xg_SourceDigest c) \<noteq> 64 \<or> \<not> list_all is_lower_hex (xg_SourceDigest c)
      then Some (NewErrBadRequest ''exact source request digest is required'')
      else if \<not> List.member [''prepare'', ''activate'', ''suspend'', ''release''] (xg_Action c)
      then Some (NewErrBadRequest ''unsupported grant command'')
      else if xg_SafetyActivation c \<and> xg_Action c \<noteq> ''activate''
      then Some (NewErrBadRequest ''only activation can retain verified safety authority'')
      else if xg_Action c = ''prepare''
      then (case xg_Intent c of
              None \<Rightarrow> Some (NewErrBadRequest ''prepare requires a new immutable intent'')
            | Some intent \<Rightarrow>
                if xg_ExpectedRevision c \<noteq> 0 then Some (NewErrBadRequest ''prepare requires a new immutable intent'')
                else validateExternalIntent intent)
      else if xg_Intent c \<noteq> None then Some (NewErrBadRequest ''prepared intent cannot be replaced'')
      else None)"

text \<open>The loop of \<^verbatim>\<open>prepare\<close> over the modules, in the order of their identifiers: the captured defaults.\<close>

definition capture_default ::
  "string \<Rightarrow> ExternalOperationIntent \<Rightarrow> db \<Rightarrow> uuid \<Rightarrow> (string \<times> uuid option) list \<Rightarrow> (string \<times> uuid option) list result" where
  "capture_default org intent s m defaults =
     try_then (GetModuleCatalogue org m s) (\<lambda>entry.
     fail_if (mc_Status entry = CatalogueArchived)
       (NewErrConflict ''archived Modules cannot be selected as targets for a new operation'')
    (try_then (GetCoreModuleVersion org m (map_at (Some (oi_TargetVersions intent)) m) s) (\<lambda>_.
     Inr (defaults @ [(m, mc_CurrentDefaultVersionUUID entry)]))))"

definition check_grant_environment :: "string \<Rightarrow> db \<Rightarrow> ExternalOperationEnvironment \<Rightarrow> unit \<Rightarrow> unit result" where
  "check_grant_environment org s target u =
     try_then (GetEnvironmentByUuid org (oe_EnvironmentID target) s) (\<lambda>e.
       fail_if (en_ProjectUuid e \<noteq> oe_ProjectID target) (NewErrBadRequest ''environment does not belong to the frozen project'') (Inr u))"

definition grants_constraints :: "(ExternalOperationGrant, string list) constraint list" where
  "grants_constraints =
     [(''external_operation_grants_pkey'', \<lambda>g. Some [gr_OrgID g, gr_PluginID g, gr_OperationID g])]"

definition grant_commands_constraints :: "(grant_command_row, string list) constraint list" where
  "grant_commands_constraints =
     [(''external_operation_grant_commands_pkey'', \<lambda>c. Some [gc_org_id c, gc_plugin_id c, gc_operation_id c, gc_request_id c]),
      (''external_operation_grant_commands_org_id_plugin_id_actor_id_key'',
         \<lambda>c. Some [gc_org_id c, gc_plugin_id c, gc_actor_id c, gc_request_id c])]"

definition prepare_grant :: "ExternalGrantCommand \<Rightarrow> ExternalOperationIntent \<Rightarrow> db \<Rightarrow> (ExternalOperationGrant \<times> db) result" where
  "prepare_grant c intent s =
     (case readExternalGrant (xg_OrgID c) (xg_PluginID c) (xg_OperationID c) s of
        Inr _ \<Rightarrow> Inl (NewErrConflict ''operation intent is already frozen'')
      | Inl e \<Rightarrow>
        fail_if (e \<noteq> ErrNoRows) e
       (try_then (try_fold (capture_default (xg_OrgID c) intent s) (sort (oi_Modules intent)) []) (\<lambda>defaults.
        try_then (try_fold (check_grant_environment (xg_OrgID c) s) (oi_Environments intent) ()) (\<lambda>_.
        let grant = \<lparr>gr_OrgID = xg_OrgID c, gr_PluginID = xg_PluginID c, gr_OperationID = xg_OperationID c,
              gr_ActorID = xg_ActorID c, gr_SourceOperation = xg_SourceOperation c, gr_Intent = intent,
              gr_BaselineDefaults = defaults, gr_Revision = 1, gr_State = ''prepared'', gr_SafetyActivation = False\<rparr> in
        fail_if (\<not> List.member (orgs s) (xg_OrgID c)) (ErrConstraint ''external_operation_grants_org_id_fkey'')
       (try_then (insert_row grants_constraints grant (grants s)) (\<lambda>rows. Inr (grant, s\<lparr>grants := rows\<rparr>)))))))"

text \<open>The state machine of a grant; \<^verbatim>\<open>activate\<close> binds the actor.\<close>

definition next_grant_state :: "string \<Rightarrow> string \<Rightarrow> string result" where
  "next_grant_state action state =
     (if action = ''activate''
      then fail_if (\<not> List.member [''prepared'', ''suspended'', ''released'', ''active''] state)
             (NewErrConflict ''operation grant cannot be activated from current state'') (Inr ''active'')
      else if action = ''suspend''
      then fail_if (state \<noteq> ''active'') (NewErrConflict ''only an active grant can be suspended'') (Inr ''suspended'')
      else if action = ''release''
      then fail_if (state = ''released'') (NewErrConflict ''operation grant is already released'') (Inr ''released'')
      else Inr state)"

definition update_grant :: "ExternalGrantCommand \<Rightarrow> db \<Rightarrow> (ExternalOperationGrant \<times> db) result" where
  "update_grant c s =
     try_then (readExternalGrant (xg_OrgID c) (xg_PluginID c) (xg_OperationID c) s) (\<lambda>grant.
     fail_if (xg_ExpectedRevision c \<noteq> gr_Revision grant) (NewErrConflict ''operation grant revision changed'')
    (try_then (next_grant_state (xg_Action c) (gr_State grant)) (\<lambda>state.
     let actor = (if xg_Action c = ''activate'' then xg_ActorID c else gr_ActorID grant);
         change = (\<lambda>g. g\<lparr>gr_State := state, gr_Revision := gr_Revision grant + 1, gr_ActorID := actor\<rparr>) in
     Inr (change grant, s\<lparr>grants := upd_where (grant_at (xg_OrgID c) (xg_PluginID c) (xg_OperationID c)) change (grants s)\<rparr>))))"

definition ApplyExternalGrantCommand ::
  "(ExternalGrantCommand \<Rightarrow> string) \<Rightarrow> ExternalGrantCommand \<Rightarrow> db \<Rightarrow> (ExternalOperationGrant \<times> db) result" where
  "ApplyExternalGrantCommand digest c s =
     (case validate_grant_command c of
        Some e \<Rightarrow> Inl e
      | None \<Rightarrow>
        (let d = digest (c\<lparr>xg_SafetyActivation := False\<rparr>) in
         case find (\<lambda>r. gc_org_id r = xg_OrgID c \<and> gc_plugin_id r = xg_PluginID c
             \<and> (gc_operation_id r = xg_OperationID c \<or> gc_actor_id r = xg_ActorID c) \<and> gc_request_id r = xg_RequestID c) (grant_commands s) of
           Some prior \<Rightarrow>
             fail_if (gc_request_digest prior \<noteq> d) (NewErrConflict ''grant request ID already belongs to another command or actor'')
            (let previous = gc_response prior in
             Inr (previous\<lparr>gr_SafetyActivation := gr_State previous = ''active'' \<and> gr_SafetyActivation previous\<rparr>, s))
         | None \<Rightarrow>
             try_then (case xg_Intent c of Some intent \<Rightarrow> prepare_grant c intent s | None \<Rightarrow> update_grant c s) (\<lambda>(grant, s1).
             let result = grant\<lparr>gr_SafetyActivation := xg_Action c = ''activate'' \<and> xg_SafetyActivation c\<rparr>;
                 row = \<lparr>gc_org_id = gr_OrgID grant, gc_plugin_id = gr_PluginID grant, gc_operation_id = gr_OperationID grant,
                   gc_request_id = xg_RequestID c, gc_actor_id = xg_ActorID c, gc_request_digest = d, gc_reason = xg_Reason c,
                   gc_response = result\<rparr> in
             try_then (map_error (\<lambda>_. NewErrConflict ''delegated request already authorized another operation or actor'')
                 (insert_row grant_commands_constraints row (grant_commands s1)))
               (\<lambda>rows. Inr (result, s1\<lparr>grant_commands := rows\<rparr>)))))"

section \<open>Inspection\<close>

definition ValidateExternalOperationRead ::
  "ExternalOperationGrant option \<Rightarrow> int \<Rightarrow> string \<Rightarrow> ExternalOperationEnvironment list \<Rightarrow> (uuid \<times> uuid) list \<Rightarrow> model_error option" where
  "ValidateExternalOperationRead grant fence action environments versions =
     (case grant of
        None \<Rightarrow> Some (NewErrConflict ''inspection requires the current operation grant'')
      | Some g \<Rightarrow>
        if fence \<le> 0 \<or> gr_Revision g \<noteq> fence \<or> gr_ActorID g = Nil_uuid
        then Some (NewErrConflict ''inspection requires the current operation grant'')
        else if \<not> List.member [''external-deployment.readiness'', ''external-deployment.plan'', ''external-deployment.read''] action
        then Some (NewErrBadRequest ''unsupported operation inspection action'')
        else if \<not> List.member (oi_Actions (gr_Intent g)) action
        then Some (NewErrConflict ''inspection action is outside the frozen grant'')
        else if environments = [] then Some (NewErrBadRequest ''exact inspection scope is required'')
        else if \<not> list_all (List.member (oi_Environments (gr_Intent g))) environments
        then Some (NewErrConflict ''inspection environment is outside the frozen grant'')
        else if list_ex (\<lambda>(m, v). v = Nil_uuid \<or> map_at (Some (oi_TargetVersions (gr_Intent g))) m \<noteq> v) versions
        then Some (NewErrConflict ''inspection target is outside the frozen grant'')
        else None)"
section \<open>What a command does to the tables\<close>

definition grants_only :: "db \<Rightarrow> db \<Rightarrow> bool" where
  "grants_only s s' \<longleftrightarrow> (\<exists>g c. s' = s\<lparr>grants := g, grant_commands := c\<rparr>)"

lemma grants_only_refl [simp]: "grants_only s s"
  unfolding grants_only_def by (rule exI [of _ "grants s"], rule exI [of _ "grant_commands s"]) simp

lemma grants_only_same:
  "grants_only s s' \<Longrightarrow> guards s' = guards s \<and> dispatches s' = dispatches s \<and> pins s' = pins s \<and> epochs s' = epochs s
     \<and> pin_events s' = pin_events s"
  by (auto simp: grants_only_def)

definition same_request :: "ExternalGrantCommand \<Rightarrow> grant_command_row \<Rightarrow> bool" where
  "same_request c r \<longleftrightarrow> gc_org_id r = xg_OrgID c \<and> gc_plugin_id r = xg_PluginID c
     \<and> (gc_operation_id r = xg_OperationID c \<or> gc_actor_id r = xg_ActorID c) \<and> gc_request_id r = xg_RequestID c"

definition answer :: "grant_command_row \<Rightarrow> ExternalOperationGrant" where
  "answer r = (gc_response r)\<lparr>gr_SafetyActivation := gr_State (gc_response r) = ''active'' \<and> gr_SafetyActivation (gc_response r)\<rparr>"

definition grant_key :: "ExternalOperationGrant \<Rightarrow> string \<times> string \<times> uuid" where
  "grant_key g = (gr_OrgID g, gr_PluginID g, gr_OperationID g)"

definition command_key :: "grant_command_row \<Rightarrow> string \<times> string \<times> uuid" where
  "command_key c = (gc_org_id c, gc_plugin_id c, gc_operation_id c)"

definition frozen :: "ExternalOperationGrant \<Rightarrow> (string \<times> string \<times> uuid) \<times> string \<times> ExternalOperationIntent \<times> (string \<times> uuid option) list" where
  "frozen g = (grant_key g, gr_SourceOperation g, gr_Intent g, gr_BaselineDefaults g)"

text \<open>One step of the history of a grant.\<close>

definition grant_succ :: "ExternalOperationGrant \<Rightarrow> ExternalOperationGrant \<Rightarrow> bool" where
  "grant_succ a b \<longleftrightarrow> frozen b = frozen a \<and> gr_Revision b = gr_Revision a + 1
     \<and> (\<exists>action \<in> {''activate'', ''suspend'', ''release''}. next_grant_state action (gr_State a) = Inr (gr_State b)
          \<and> (action \<noteq> ''activate'' \<longrightarrow> gr_ActorID b = gr_ActorID a))
     \<and> (gr_SafetyActivation b \<longrightarrow> gr_State b = ''active'')"

lemma grant_at_key: "grant_at org plugin operation = (\<lambda>g. grant_key g = (org, plugin, operation))"
  by (auto simp: grant_at_def grant_key_def fun_eq_iff)

lemma read_row:
  assumes "readExternalGrant org plugin operation s = Inr g"
  obtains row where "find (grant_at org plugin operation) (grants s) = Some row" "g\<lparr>gr_SafetyActivation := False\<rparr> = row\<lparr>gr_SafetyActivation := False\<rparr>"
  using assms by (auto simp: readExternalGrant_def Let_def split: if_splits option.splits)

lemma read_no_rows: "readExternalGrant org plugin operation s = Inl ErrNoRows \<Longrightarrow> find (grant_at org plugin operation) (grants s) = None"
  by (auto simp: readExternalGrant_def Let_def try_then_Inl_iff fail_if_def NewErrConflict_def split: if_splits option.splits)

lemma prepare_Inr:
  assumes "prepare_grant c intent s = Inr (grant, s1)"
  obtains "find (grant_at (xg_OrgID c) (xg_PluginID c) (xg_OperationID c)) (grants s) = None"
    "s1 = s\<lparr>grants := grants s @ [grant]\<rparr>" "grant_key grant = (xg_OrgID c, xg_PluginID c, xg_OperationID c)"
    "gr_Revision grant = 1" "gr_State grant = ''prepared''" "\<not> gr_SafetyActivation grant" "gr_ActorID grant = xg_ActorID c"
proof -
  have r: "readExternalGrant (xg_OrgID c) (xg_PluginID c) (xg_OperationID c) s = Inl ErrNoRows"
    using assms by (auto simp: prepare_grant_def split: sum.splits)
  show thesis
    by (rule that) (use assms r read_no_rows [OF r] in \<open>auto simp: prepare_grant_def Let_def insert_row_Inr_iff grant_key_def\<close>)
qed

lemma update_Inr:
  assumes "update_grant c s = Inr (grant, s1)" "xg_Action c \<in> {''activate'', ''suspend'', ''release''}"
  obtains row f where "find (grant_at (xg_OrgID c) (xg_PluginID c) (xg_OperationID c)) (grants s) = Some row"
    "s1 = s\<lparr>grants := upd_where (grant_at (xg_OrgID c) (xg_PluginID c) (xg_OperationID c)) f (grants s)\<rparr>"
    "grant\<lparr>gr_SafetyActivation := False\<rparr> = f (row\<lparr>gr_SafetyActivation := False\<rparr>)" "gr_Revision row = xg_ExpectedRevision c"
    "\<forall>g. frozen (f g) = frozen g \<and> gr_SafetyActivation (f g) = gr_SafetyActivation g"
    "grant_succ (row\<lparr>gr_SafetyActivation := False\<rparr>) (f (row\<lparr>gr_SafetyActivation := False\<rparr>))"
    "xg_Action c = ''activate'' \<longrightarrow> gr_State grant = ''active'' \<and> gr_ActorID grant = xg_ActorID c"
    "gr_State grant = ''active'' \<longrightarrow> xg_Action c = ''activate''"
proof -
  obtain g state where g: "readExternalGrant (xg_OrgID c) (xg_PluginID c) (xg_OperationID c) s = Inr g"
    and st: "next_grant_state (xg_Action c) (gr_State g) = Inr state" "xg_ExpectedRevision c = gr_Revision g"
    using assms(1) by (auto simp: update_grant_def Let_def)
  define actor where "actor = (if xg_Action c = ''activate'' then xg_ActorID c else gr_ActorID g)"
  let ?f = "\<lambda>x. x\<lparr>gr_State := state, gr_Revision := gr_Revision g + 1, gr_ActorID := actor\<rparr>"
  have out: "grant = ?f g" "s1 = s\<lparr>grants := upd_where (grant_at (xg_OrgID c) (xg_PluginID c) (xg_OperationID c)) ?f (grants s)\<rparr>"
    using assms(1) g st by (auto simp: update_grant_def Let_def actor_def)
  obtain row where row: "find (grant_at (xg_OrgID c) (xg_PluginID c) (xg_OperationID c)) (grants s) = Some row"
    and eq: "g\<lparr>gr_SafetyActivation := False\<rparr> = row\<lparr>gr_SafetyActivation := False\<rparr>" by (rule read_row [OF g])
  have eqs: "gr_Revision row = gr_Revision g" "gr_State row = gr_State g" "gr_ActorID row = gr_ActorID g"
    using arg_cong [OF eq, of gr_Revision] arg_cong [OF eq, of gr_State] arg_cong [OF eq, of gr_ActorID] by simp_all
  have "(?f g)\<lparr>gr_SafetyActivation := False\<rparr> = ?f (g\<lparr>gr_SafetyActivation := False\<rparr>)" by simp
  then have res: "grant\<lparr>gr_SafetyActivation := False\<rparr> = ?f (row\<lparr>gr_SafetyActivation := False\<rparr>)" using out(1) eq by metis
  have active: "state = ''active'' \<longleftrightarrow> xg_Action c = ''activate''"
    using st(1) assms(2) by (auto simp: next_grant_state_def split: if_splits)
  have succ: "grant_succ (row\<lparr>gr_SafetyActivation := False\<rparr>) (?f (row\<lparr>gr_SafetyActivation := False\<rparr>))"
    unfolding grant_succ_def using st assms(2) eqs by (auto simp: frozen_def grant_key_def actor_def)
  show thesis
  proof (rule that [OF row out(2) res _ _ succ])
    show "gr_Revision row = xg_ExpectedRevision c" using st(2) eqs(1) by simp
    show "\<forall>x. frozen (?f x) = frozen x \<and> gr_SafetyActivation (?f x) = gr_SafetyActivation x" by (simp add: frozen_def grant_key_def)
    show "xg_Action c = ''activate'' \<longrightarrow> gr_State grant = ''active'' \<and> gr_ActorID grant = xg_ActorID c"
      using active by (simp add: out(1) actor_def)
    show "gr_State grant = ''active'' \<longrightarrow> xg_Action c = ''activate''" using active by (simp add: out(1))
  qed
qed
lemma apply_grant_Inr:
  assumes "ApplyExternalGrantCommand digest c s = Inr (r, s')"
  obtains prior where "find (same_request c) (grant_commands s) = Some prior" "gc_request_digest prior = digest (c\<lparr>xg_SafetyActivation := False\<rparr>)"
      "r = answer prior" "s' = s"
  | grant s1 row where "find (same_request c) (grant_commands s) = None"
      "case xg_Intent c of Some intent \<Rightarrow> prepare_grant c intent s = Inr (grant, s1)
         | None \<Rightarrow> update_grant c s = Inr (grant, s1) \<and> xg_Action c \<in> {''activate'', ''suspend'', ''release''}"
      "r = grant\<lparr>gr_SafetyActivation := xg_Action c = ''activate'' \<and> xg_SafetyActivation c\<rparr>"
      "s' = s1\<lparr>grant_commands := grant_commands s1 @ [row]\<rparr>" "same_request c row"
      "gc_response row = r" "gc_request_digest row = digest (c\<lparr>xg_SafetyActivation := False\<rparr>)" "gc_actor_id row = xg_ActorID c"
      "command_key row = (xg_OrgID c, xg_PluginID c, xg_OperationID c)" "xg_Intent c \<noteq> None \<longrightarrow> xg_Action c = ''prepare''"
proof -
  have v: "validate_grant_command c = None"
    using assms by (auto simp: ApplyExternalGrantCommand_def split: option.splits)
  have same: "(\<lambda>r. gc_org_id r = xg_OrgID c \<and> gc_plugin_id r = xg_PluginID c
     \<and> (gc_operation_id r = xg_OperationID c \<or> gc_actor_id r = xg_ActorID c) \<and> gc_request_id r = xg_RequestID c) = same_request c"
    by (simp add: same_request_def fun_eq_iff)
  note a = assms [unfolded ApplyExternalGrantCommand_def v same, simplified]
  show thesis
  proof (cases "find (same_request c) (grant_commands s)")
    case (Some prior)
    show thesis by (rule that(1) [OF Some]) (use a Some in \<open>auto simp: Let_def answer_def\<close>)
  next
    case None
    have acts: "xg_Intent c = None \<longrightarrow> xg_Action c \<in> {''activate'', ''suspend'', ''release''}" "xg_Intent c \<noteq> None \<longrightarrow> xg_Action c = ''prepare''"
      using v by (auto simp: validate_grant_command_def split: if_splits option.splits)
    obtain grant s1 where g: "(case xg_Intent c of Some intent \<Rightarrow> prepare_grant c intent s | None \<Rightarrow> update_grant c s) = Inr (grant, s1)"
      using a None by (auto simp: Let_def split: prod.splits)
    have key: "grant_key grant = (xg_OrgID c, xg_PluginID c, xg_OperationID c)"
    proof (cases "xg_Intent c")
      case None
      then have u: "update_grant c s = Inr (grant, s1)" "xg_Action c \<in> {''activate'', ''suspend'', ''release''}" using g acts(1) by simp_all
      obtain row f where "find (grant_at (xg_OrgID c) (xg_PluginID c) (xg_OperationID c)) (grants s) = Some row"
        "grant\<lparr>gr_SafetyActivation := False\<rparr> = f (row\<lparr>gr_SafetyActivation := False\<rparr>)" "\<forall>g. frozen (f g) = frozen g \<and> gr_SafetyActivation (f g) = gr_SafetyActivation g"
        by (rule update_Inr [OF u])
      then have "frozen (grant\<lparr>gr_SafetyActivation := False\<rparr>) = frozen (row\<lparr>gr_SafetyActivation := False\<rparr>)"
        and "grant_key row = (xg_OrgID c, xg_PluginID c, xg_OperationID c)" using find_in_set by (fastforce simp: grant_at_key)+
      then show ?thesis by (simp add: frozen_def grant_key_def)
    next
      case (Some intent)
      then have "prepare_grant c intent s = Inr (grant, s1)" using g by simp
      then show ?thesis by (rule prepare_Inr)
    qed
    define row where "row = \<lparr>gc_org_id = gr_OrgID grant, gc_plugin_id = gr_PluginID grant, gc_operation_id = gr_OperationID grant,
                   gc_request_id = xg_RequestID c, gc_actor_id = xg_ActorID c, gc_request_digest = digest (c\<lparr>xg_SafetyActivation := False\<rparr>),
                   gc_reason = xg_Reason c, gc_response = grant\<lparr>gr_SafetyActivation := xg_Action c = ''activate'' \<and> xg_SafetyActivation c\<rparr>\<rparr>"
    have out: "r = grant\<lparr>gr_SafetyActivation := xg_Action c = ''activate'' \<and> xg_SafetyActivation c\<rparr>"
      "s' = s1\<lparr>grant_commands := grant_commands s1 @ [row]\<rparr>"
      using a None g unfolding row_def by (auto simp: Let_def insert_row_Inr_iff)
    show thesis
      by (rule that(2) [OF None _ out])
        (use g key acts in \<open>auto simp: row_def out(1) same_request_def command_key_def grant_key_def split: option.splits\<close>)
  qed
qed

section \<open>The history of a grant\<close>

definition log_of :: "string \<times> string \<times> uuid \<Rightarrow> db \<Rightarrow> grant_command_row list" where
  "log_of k s = filter (\<lambda>c. command_key c = k) (grant_commands s)"

definition grant_logged :: "db \<Rightarrow> ExternalOperationGrant \<Rightarrow> bool" where
  "grant_logged s g \<longleftrightarrow>
     (let log = log_of (grant_key g) s; rs = map gc_response log in
      log \<noteq> [] \<and> map gr_Revision rs = [1..gr_Revision g] \<and> (last rs)\<lparr>gr_SafetyActivation := False\<rparr> = g
      \<and> gr_State (hd rs) = ''prepared'' \<and> successively grant_succ rs
      \<and> (gr_State g = ''active'' \<longrightarrow> gc_actor_id (last log) = gr_ActorID g))"

definition grants_inv :: "db \<Rightarrow> bool" where
  "grants_inv s \<longleftrightarrow> distinct (map grant_key (grants s)) \<and> (\<forall>g \<in> set (grants s). grant_logged s g)
     \<and> command_key ` set (grant_commands s) \<subseteq> grant_key ` set (grants s)"

text \<open>What a command keeps of every grant.\<close>

definition keeps_grant :: "ExternalOperationGrant \<Rightarrow> ExternalOperationGrant \<Rightarrow> bool" where
  "keeps_grant g g' \<longleftrightarrow> frozen g' = frozen g \<and> gr_Revision g \<le> gr_Revision g' \<and> (gr_Revision g' = gr_Revision g \<longrightarrow> g' = g)"

definition grants_progress :: "db \<Rightarrow> db \<Rightarrow> bool" where
  "grants_progress s s' \<longleftrightarrow> grants_inv s' \<and> (\<exists>new. grant_commands s' = grant_commands s @ new)
     \<and> (\<forall>g \<in> set (grants s). \<exists>g' \<in> set (grants s'). keeps_grant g g')"

lemma grant_succ_safety: "grant_succ (a\<lparr>gr_SafetyActivation := x\<rparr>) b = grant_succ a b"
  by (simp add: grant_succ_def frozen_def grant_key_def)

lemma log_of_snoc:
  "grant_commands s' = grant_commands s @ [c] \<Longrightarrow> log_of k s' = log_of k s @ (if command_key c = k then [c] else [])"
  by (simp add: log_of_def)

lemma logged_other:
  "grant_logged s g \<Longrightarrow> grant_commands s' = grant_commands s @ [c] \<Longrightarrow> command_key c \<noteq> grant_key g \<Longrightarrow> grant_logged s' g"
  by (simp add: grant_logged_def log_of_snoc)

lemma logged_snoc:
  assumes "grant_logged s g" "grant_commands s' = grant_commands s @ [c]" "command_key c = grant_key g"
    "grant_succ g (gc_response c)" "g' = (gc_response c)\<lparr>gr_SafetyActivation := False\<rparr>"
    "gr_State g' = ''active'' \<longrightarrow> gc_actor_id c = gr_ActorID g'"
  shows "grant_logged s' g'"
proof -
  let ?rs = "map gc_response (log_of (grant_key g) s)"
  have old: "?rs \<noteq> []" "map gr_Revision ?rs = [1..gr_Revision g]" "(last ?rs)\<lparr>gr_SafetyActivation := False\<rparr> = g"
    "gr_State (hd ?rs) = ''prepared''" "successively grant_succ ?rs" using assms(1) by (simp_all add: grant_logged_def Let_def)
  have key: "grant_key g' = grant_key g" "gr_Revision g' = gr_Revision g + 1"
    using assms(4,5) by (simp_all add: grant_succ_def frozen_def grant_key_def)
  have log: "log_of (grant_key g') s' = log_of (grant_key g) s @ [c]" using assms(3) by (simp add: key log_of_snoc [OF assms(2)])
  have "grant_succ (last ?rs) (gc_response c)" using assms(4) old(3) grant_succ_safety by metis
  moreover have "gr_Revision (gc_response c) = gr_Revision g + 1" using assms(4) by (simp add: grant_succ_def)
  moreover have "0 \<le> gr_Revision g" using old(1,2) by (cases "gr_Revision g < 1") auto
  ultimately show ?thesis unfolding grant_logged_def Let_def log key(2)
    using old assms(5,6) upto_rec2 [of 1 "gr_Revision g + 1"] by (simp add: successively_append_iff hd_append)
qed
lemma grants_progress_refl: "grants_inv s \<Longrightarrow> grants_progress s s"
  by (auto simp: grants_progress_def keeps_grant_def)

lemma keeps_grant_trans: "keeps_grant a b \<Longrightarrow> keeps_grant b c \<Longrightarrow> keeps_grant a c"
  by (auto simp: keeps_grant_def)

lemma grants_progress_trans:
  assumes "grants_progress s t" "grants_progress t u"
  shows "grants_progress s u"
proof -
  have "\<exists>c \<in> set (grants u). keeps_grant a c" if a: "a \<in> set (grants s)" for a
  proof -
    obtain b where b: "b \<in> set (grants t)" "keeps_grant a b" using assms(1) a by (auto simp: grants_progress_def)
    then obtain c where "c \<in> set (grants u)" "keeps_grant b c" using assms(2) by (auto simp: grants_progress_def)
    then show ?thesis using keeps_grant_trans [OF b(2)] by blast
  qed
  then show ?thesis using assms by (auto simp: grants_progress_def)
qed

lemma prepare_progress:
  assumes inv: "grants_inv s" and s': "grants s' = grants s @ [g]" "grant_commands s' = grant_commands s @ [row]"
    and g: "grant_key g \<notin> grant_key ` set (grants s)" "gr_Revision g = 1" "gr_State g = ''prepared''" "\<not> gr_SafetyActivation g"
    and row: "command_key row = grant_key g" "gc_response row = g"
  shows "grants_progress s s'"
proof -
  have "grant_key g \<notin> command_key ` set (grant_commands s)" using inv g(1) unfolding grants_inv_def by blast
  then have "log_of (grant_key g) s = []" by (auto simp: log_of_def filter_empty_conv image_iff)
  then have log: "log_of (grant_key g) s' = [row]" using row(1) by (simp add: log_of_snoc [OF s'(2)])
  have "g\<lparr>gr_SafetyActivation := False\<rparr> = g" using g(4) by (cases g) simp
  then have "grant_logged s' g" unfolding grant_logged_def Let_def log using row(2) g by simp
  moreover have "grant_logged s' x" if x: "x \<in> set (grants s)" for x
  proof (rule logged_other [OF _ s'(2)])
    show "grant_logged s x" using inv x by (simp add: grants_inv_def)
    show "command_key row \<noteq> grant_key x" using g(1) row(1) x by auto
  qed
  ultimately have "grants_inv s'" using inv g(1) row(1) by (auto simp: grants_inv_def s')
  then show ?thesis by (auto simp: grants_progress_def s' keeps_grant_def)
qed

lemma update_progress:
  assumes inv: "grants_inv s" and s': "grants s' = upd_where (grant_at org plugin operation) f (grants s)"
      "grant_commands s' = grant_commands s @ [row]"
    and g: "find (grant_at org plugin operation) (grants s) = Some g"
    and f: "\<forall>x. frozen (f x) = frozen x \<and> gr_SafetyActivation (f x) = gr_SafetyActivation x"
    and row: "command_key row = (org, plugin, operation)" "(gc_response row)\<lparr>gr_SafetyActivation := False\<rparr> = f g"
      "grant_succ g (gc_response row)" "gr_State (gc_response row) = ''active'' \<longrightarrow> gc_actor_id row = gr_ActorID (gc_response row)"
  shows "grants_progress s s'"
proof -
  have g': "g \<in> set (grants s)" "grant_key g = (org, plugin, operation)" using find_in_set [OF g] by (simp_all add: grant_at_key)
  have only: "x = g" if "x \<in> set (grants s)" "grant_key x = (org, plugin, operation)" for x
    using unique_key_eq [of grant_key "grants s" x g] inv that g' by (simp add: grants_inv_def)
  have key: "grant_key (f x) = grant_key x" for x using f by (simp add: frozen_def)
  have keys: "map grant_key (grants s') = map grant_key (grants s)" unfolding s' by (rule map_upd_where) (rule key)
  have f_eq: "gr_State (f g) = gr_State (gc_response row)" "gr_ActorID (f g) = gr_ActorID (gc_response row)"
    "gr_Revision (f g) = gr_Revision (gc_response row)"
    using arg_cong [OF row(2), of gr_State] arg_cong [OF row(2), of gr_ActorID] arg_cong [OF row(2), of gr_Revision] by simp_all
  have old: "grant_logged s x" if "x \<in> set (grants s)" for x using inv that by (simp add: grants_inv_def)
  have new: "grant_logged s' (f g)"
    by (rule logged_snoc [OF old [OF g'(1)] s'(2)]) (use row g'(2) f_eq in simp_all)
  have "grant_logged s' x" if x: "x \<in> set (grants s')" for x
  proof -
    obtain y where y: "y \<in> set (grants s)" "x = (if grant_key y = (org, plugin, operation) then f y else y)"
      using x unfolding s' in_upd_where grant_at_key by blast
    show ?thesis
    proof (cases "grant_key y = (org, plugin, operation)")
      case True
      then show ?thesis using y only [OF y(1)] new by simp
    next
      case False
      then show ?thesis using y logged_other [OF old [OF y(1)] s'(2)] row(1) by simp
    qed
  qed
  moreover have "grant_key ` set (grants s') = grant_key ` set (grants s)" using keys [THEN arg_cong, of set] unfolding set_map .
  moreover have "command_key row \<in> grant_key ` set (grants s)" using imageI [OF g'(1), of grant_key] g'(2) row(1) by simp
  ultimately have "grants_inv s'" using inv by (auto simp: grants_inv_def s'(2) keys)
  moreover have "\<exists>y \<in> set (grants s'). keeps_grant x y" if x: "x \<in> set (grants s)" for x
  proof (cases "grant_at org plugin operation x")
    case True
    then have "x = g" using only [OF x] by (simp add: grant_at_key)
    then have "keeps_grant x (f x)" using f f_eq(3) row(3) by (simp add: keeps_grant_def grant_succ_def)
    then show ?thesis using upd_where_intro [OF x, of "grant_at org plugin operation" f] True unfolding s'(1) by auto
  next
    case False
    then show ?thesis using upd_where_intro [OF x, of "grant_at org plugin operation" f] unfolding s'(1) by (auto simp: keeps_grant_def)
  qed
  ultimately show ?thesis by (simp add: grants_progress_def s'(2))
qed
lemma apply_grant_progress:
  assumes "ApplyExternalGrantCommand digest c s = Inr (r, s')" "grants_inv s"
  shows "grants_progress s s'"
  using assms(1)
proof (cases rule: apply_grant_Inr)
  case (1 prior)
  then show ?thesis using grants_progress_refl [OF assms(2)] by simp
next
  case (2 grant s1 row)
  show ?thesis
  proof (cases "xg_Intent c")
    case (Some intent)
    then have "prepare_grant c intent s = Inr (grant, s1)" using 2(2) by simp
    then show ?thesis
    proof (cases rule: prepare_Inr)
      case 1
      have "gc_response row = grant" using 2(3,6,10) Some 1(6) by (cases grant) simp
      moreover have "grant_key grant \<notin> grant_key ` set (grants s)" using 1(1,3) by (auto simp: find_None_iff grant_at_key)
      ultimately show ?thesis using 1 2(4,9) by (intro prepare_progress [OF assms(2), of s' grant row]) simp_all
    qed
  next
    case None
    then have "update_grant c s = Inr (grant, s1)" "xg_Action c \<in> {''activate'', ''suspend'', ''release''}" using 2(2) by simp_all
    then show ?thesis
    proof (cases rule: update_Inr)
      case (1 g f)
      have "g \<in> set (grants s)" using find_in_set [OF 1(1)] by simp
      then have "(last (map gc_response (log_of (grant_key g) s)))\<lparr>gr_SafetyActivation := False\<rparr> = g"
        using assms(2) by (simp add: grants_inv_def grant_logged_def Let_def)
      then have g: "g\<lparr>gr_SafetyActivation := False\<rparr> = g"
        by (metis ExternalOperationGrant.surjective ExternalOperationGrant.update_convs(10))
      have resp: "(gc_response row)\<lparr>gr_SafetyActivation := False\<rparr> = f g" using 1(3) 2(3,6) unfolding g by simp
      have eq: "gr_State (gc_response row) = gr_State grant" "gr_ActorID (gc_response row) = gr_ActorID grant"
        "gr_SafetyActivation (gc_response row) \<longrightarrow> xg_Action c = ''activate''" using 2(3,6) by simp_all
      have "grant_succ g ((gc_response row)\<lparr>gr_SafetyActivation := False\<rparr>)" using 1(6) resp g by simp
      then have succ: "grant_succ g (gc_response row)" using eq 1(7) by (simp add: grant_succ_def frozen_def grant_key_def)
      show ?thesis
        by (rule update_progress [OF assms(2) _ _ 1(1,5) 2(9) resp succ]) (use 1(2,7,8) 2(4,8) eq in simp_all)
    qed
  qed
qed

inductive grants_step :: "(ExternalGrantCommand \<Rightarrow> string) \<Rightarrow> db \<Rightarrow> db \<Rightarrow> bool" for digest where
  grants_frame: "grants s' = grants s \<Longrightarrow> grant_commands s' = grant_commands s \<Longrightarrow> grants_step digest s s'"
| grant_command: "ApplyExternalGrantCommand digest c s = Inr (r, s') \<Longrightarrow> grants_step digest s s'"

lemma grants_step_progress:
  assumes "grants_step digest s s'" "grants_inv s"
  shows "grants_progress s s'"
  using assms(1)
proof cases
  case grants_frame
  then have "log_of k s' = log_of k s" for k by (simp add: log_of_def)
  then show ?thesis using grants_frame assms(2) by (auto simp: grants_progress_def grants_inv_def grant_logged_def keeps_grant_def)
next
  case (grant_command c r)
  then show ?thesis using assms(2) by (rule apply_grant_progress)
qed

lemma grants_run_progress:
  assumes "(grants_step digest)\<^sup>*\<^sup>* s s'" "grants_inv s"
  shows "grants_progress s s'"
  using assms(1)
proof (induction rule: rtranclp_induct)
  case base
  show ?case by (rule grants_progress_refl [OF assms(2)])
next
  case (step t u)
  then show ?case using grants_progress_trans [OF step.IH grants_step_progress [OF step.hyps(2)]] by (simp add: grants_progress_def)
qed

text \<open>Reading a grant: the classification comes from the receipt of the current revision.\<close>

lemma find_filter_conj: "find (\<lambda>x. P x \<and> Q x) xs = find Q (filter P xs)"
  by (induction xs) auto

lemma find_last:
  assumes "xs \<noteq> []" "map k xs = [1..n]" "P (last xs)" "\<And>x. P x \<Longrightarrow> k x = n"
  shows "find P xs = Some (last xs)"
proof -
  obtain ys y where xs: "xs = ys @ [y]" using assms(1) by (cases xs rule: rev_cases) auto
  have "0 < n" using assms(1,2) by (cases "n < 1") auto
  then have "map k ys @ [k y] = [1..n - 1] @ [n]" using assms(2) upto_rec2 [of 1 n] by (simp add: xs)
  then have "map k ys = [1..n - 1]" by simp
  then have "k ` set ys = {1..n - 1}" by (metis set_map set_upto)
  then have "k x < n" if "x \<in> set ys" for x using imageI [OF that, of k] by simp
  then have "find P ys = None" using assms(4) by (fastforce simp: find_None_iff)
  then show ?thesis using assms(3) unfolding xs by (induction ys) (auto split: if_splits)
qed
lemma read_grant:
  assumes "grants_inv s" "g \<in> set (grants s)"
  shows "readExternalGrant (gr_OrgID g) (gr_PluginID g) (gr_OperationID g) s = Inr (answer (last (log_of (grant_key g) s)))"
proof -
  let ?log = "log_of (grant_key g) s" and ?k = "\<lambda>c. gr_Revision (gc_response c)"
  have log: "?log \<noteq> []" "map ?k ?log = [1..gr_Revision g]" "(gc_response (last ?log))\<lparr>gr_SafetyActivation := False\<rparr> = g"
    "gr_State g = ''active'' \<longrightarrow> gc_actor_id (last ?log) = gr_ActorID g"
    using assms by (auto simp: grants_inv_def grant_logged_def Let_def last_map comp_def)
  let ?r = "gc_response (last ?log)"
  have eqs: "gr_Revision ?r = gr_Revision g" "gr_State ?r = gr_State g" "gr_ActorID ?r = gr_ActorID g" "gr_OrgID ?r = gr_OrgID g"
    "gr_PluginID ?r = gr_PluginID g" "gr_OperationID ?r = gr_OperationID g"
    using arg_cong [OF log(3), of gr_Revision] arg_cong [OF log(3), of gr_State] arg_cong [OF log(3), of gr_ActorID]
      arg_cong [OF log(3), of gr_OrgID] arg_cong [OF log(3), of gr_PluginID] arg_cong [OF log(3), of gr_OperationID] by simp_all
  have ans: "answer (last ?log) = g\<lparr>gr_SafetyActivation := gr_State g = ''active'' \<and> gr_SafetyActivation ?r\<rparr>"
    by (subst log(3) [symmetric]) (simp add: answer_def eqs)
  have g: "find (grant_at (gr_OrgID g) (gr_PluginID g) (gr_OperationID g)) (grants s) = Some g"
    using find_unique_key [of grant_key "grants s" g] assms by (simp add: grants_inv_def grant_at_key grant_key_def [of g])
  have at: "command_at (gr_OrgID g) (gr_PluginID g) (gr_OperationID g) = (\<lambda>c. command_key c = grant_key g)"
    by (auto simp: command_at_def command_key_def grant_key_def fun_eq_iff)
  have "find (\<lambda>c. gc_actor_id c = gr_ActorID g \<and> ?k c = gr_Revision g \<and> gr_State (gc_response c) = gr_State g) ?log = Some (last ?log)"
    if "gr_State g = ''active''"
    by (rule find_last [OF log(1,2)]) (use that log(4) eqs in simp_all)
  then have "find (\<lambda>c. command_key c = grant_key g \<and> gc_actor_id c = gr_ActorID g \<and> ?k c = gr_Revision g
      \<and> gr_State (gc_response c) = gr_State g) (grant_commands s) = Some (last ?log)" if "gr_State g = ''active''"
    using that unfolding log_of_def by (simp add: find_filter_conj)
  then show ?thesis using g by (simp add: readExternalGrant_def Let_def ans at eqs)
qed

text \<open>Grant commands have durable receipts.\<close>

definition grant_run :: "(ExternalGrantCommand \<Rightarrow> string) \<Rightarrow> ExternalGrantCommand \<Rightarrow> db \<Rightarrow> (ExternalOperationGrant \<times> db) option" where
  "grant_run digest c s = completed (ApplyExternalGrantCommand digest c s)"

definition grant_recorded :: "(ExternalGrantCommand \<Rightarrow> string) \<Rightarrow> ExternalGrantCommand \<Rightarrow> ExternalOperationGrant \<Rightarrow> db \<Rightarrow> bool" where
  "grant_recorded digest c r s \<longleftrightarrow> validate_grant_command c = None
     \<and> (\<exists>prior. find (same_request c) (grant_commands s) = Some prior
          \<and> gc_request_digest prior = digest (c\<lparr>xg_SafetyActivation := False\<rparr>) \<and> r = answer prior)"

lemma find_append_Some: "find P xs = Some x \<Longrightarrow> find P (xs @ ys) = Some x"
  by (induction xs) (auto split: if_splits)

lemma find_append_None: "find P xs = None \<Longrightarrow> find P (xs @ ys) = find P ys"
  by (induction xs) (auto split: if_splits)

lemma grant_run_records:
  assumes "ApplyExternalGrantCommand digest c s = Inr (r, s')"
  shows "grant_recorded digest c r s'"
proof -
  have v: "validate_grant_command c = None"
    using assms by (auto simp: ApplyExternalGrantCommand_def split: option.splits)
  show ?thesis using assms
  proof (cases rule: apply_grant_Inr)
    case (1 prior)
    then show ?thesis using v by (simp add: grant_recorded_def)
  next
    case (2 grant s1 row)
    have s1: "grant_commands s1 = grant_commands s \<and> (xg_Action c = ''activate'' \<longrightarrow> gr_State grant = ''active'')"
    proof (cases "xg_Intent c")
      case None
      then have "update_grant c s = Inr (grant, s1)" "xg_Action c \<in> {''activate'', ''suspend'', ''release''}" using 2(2) by simp_all
      then show ?thesis by (rule update_Inr) simp
    next
      case (Some intent)
      then have "prepare_grant c intent s = Inr (grant, s1)" "xg_Action c = ''prepare''" using 2(2,10) by simp_all
      then show ?thesis by (auto elim: prepare_Inr)
    qed
    have "r = answer row" using s1 2(3,6) by (cases grant) (auto simp: answer_def)
    moreover have "find (same_request c) (grant_commands s') = Some row"
      using 2(1,4,5) s1 by (simp add: find_append_None)
    ultimately show ?thesis using v 2(7) by (simp add: grant_recorded_def)
  qed
qed

lemma grant_recorded_answers: "grant_recorded digest c r s \<Longrightarrow> ApplyExternalGrantCommand digest c s = Inr (r, s)"
  by (auto simp: grant_recorded_def ApplyExternalGrantCommand_def Let_def answer_def same_request_def [abs_def])

lemma grants_step_commands: "grants_step digest s s' \<Longrightarrow> \<exists>new. grant_commands s' = grant_commands s @ new"
proof (induction rule: grants_step.induct)
  case (grant_command c s r s')
  then show ?case
  proof (cases rule: apply_grant_Inr)
    case (2 grant s1 row)
    have "grant_commands s1 = grant_commands s"
    proof (cases "xg_Intent c")
      case None
      then show ?thesis using 2(2) by (auto elim: update_Inr)
    next
      case (Some intent)
      then show ?thesis using 2(2) by (auto elim: prepare_Inr)
    qed
    then show ?thesis using 2(4) by simp
  qed simp
qed simp

interpretation grant: receipts "grant_run digest" "grant_recorded digest" "grants_step digest" for digest
proof
  show "grant_recorded digest c r s'" if "grant_run digest c s = Some (r, s')" for c s r s'
    using that grant_run_records by (simp add: grant_run_def)
  show "grant_run digest c s = Some (r, s)" if "grant_recorded digest c r s" for c s r
    using grant_recorded_answers [OF that] by (simp add: grant_run_def)
  then show "r' = r \<and> s' = s" if "grant_recorded digest c r s" "grant_run digest c s = Some (r', s')" for c s r r' s'
    using that by fastforce
  show "grant_recorded digest c r s'" if st: "grants_step digest s s'" and rec: "grant_recorded digest c r s" for c s r s'
  proof -
    obtain new where "grant_commands s' = grant_commands s @ new" using grants_step_commands [OF st] by blast
    then show ?thesis using rec by (auto simp: grant_recorded_def intro: find_append_Some)
  qed
qed

section \<open>A prepared operation\<close>

definition example_intent :: ExternalOperationIntent where
  "example_intent = \<lparr>oi_Fingerprint = replicate 64 CHR ''a'', oi_Modules = [''m1''], oi_TargetVersions = [(''m1'', ''h2'')],
     oi_Environments = [\<lparr>oe_ProjectID = ''pa'', oe_EnvironmentID = ''e1''\<rparr>], oi_Actions = [''external-deployment.admit'']\<rparr>"

definition example_grant_command :: "string \<Rightarrow> string \<Rightarrow> int \<Rightarrow> ExternalOperationIntent option \<Rightarrow> ExternalGrantCommand" where
  "example_grant_command request action revision intent = \<lparr>xg_OrgID = ''acme'', xg_PluginID = ''com.acme'', xg_OperationID = ''op1'',
     xg_ActorID = ''alice'', xg_SourceOperation = ''rollout'', xg_SourceDigest = replicate 64 CHR ''a'', xg_RequestID = request,
     xg_ExpectedRevision = revision, xg_Action = action, xg_Reason = ''ship'', xg_Intent = intent, xg_SafetyActivation = False\<rparr>"

lemma example_identity: "externalPluginIdentity ''com.acme''"
  by (simp add: externalPluginIdentity_def is_lower_def less_eq_char_def)

lemma example_intent_valid: "validateExternalIntent example_intent = None"
proof -
  have "\<not> list_ex (\<lambda>c. List.member ''ABCDEF'' c) (replicate 64 CHR ''a'')" by (simp add: list_ex_iff)
  then show ?thesis using example_digest
    by (simp add: validateExternalIntent_def example_intent_def map_at_def map_entries_def Nil_uuid_def del: length_replicate)
qed

lemma example_command_valid:
  "validate_grant_command (example_grant_command ''r1'' ''prepare'' 0 (Some example_intent)) = None"
  "validate_grant_command (example_grant_command ''r2'' ''activate'' n None) = None"
  using example_reason example_identity example_digest example_intent_valid
  by (simp_all add: validate_grant_command_def example_grant_command_def Nil_uuid_def del: length_replicate)

lemma example_prepare:
  "\<exists>g s'. ApplyExternalGrantCommand digest (example_grant_command ''r1'' ''prepare'' 0 (Some example_intent)) example_admission_db = Inr (g, s')
     \<and> grants s' = [g]"
proof -
  have f: "grants example_admission_db = []" "grant_commands example_admission_db = []" "orgs example_admission_db = [''acme'']"
    by (simp_all add: example_admission_db_def example_pins_db_def example_catalogue_db_def example_types_db_def empty_db_def)
  have "capture_default ''acme'' example_intent example_admission_db ''m1'' [] = Inr [(''m1'', Some ''h1'')]"
    by (simp add: capture_default_def example_intent_def map_at_def map_entries_def GetModuleCatalogue_def GetCoreModuleVersion_def
        module_matches_def version_matches_def in_module_def scanModuleCatalogue_def scanCoreModuleVersion_def
        example_admission_db_def example_pins_db_def example_catalogue_db_def example_version_def)
  moreover have "check_grant_environment ''acme'' example_admission_db \<lparr>oe_ProjectID = ''pa'', oe_EnvironmentID = ''e1''\<rparr> () = Inr ()"
    by (simp add: check_grant_environment_def GetEnvironmentByUuid_def example_admission_db_def example_env_def)
  ultimately have "\<exists>g s1. prepare_grant (example_grant_command ''r1'' ''prepare'' 0 (Some example_intent)) example_intent example_admission_db
      = Inr (g, s1) \<and> grants s1 = [g] \<and> grant_commands s1 = [] \<and> \<not> gr_SafetyActivation g"
    by (simp add: prepare_grant_def readExternalGrant_def f example_grant_command_def insert_row.simps grants_constraints_def violates_def
        Let_def example_intent_def [THEN arg_cong, of oi_Modules] example_intent_def [THEN arg_cong, of oi_Environments])
  then obtain g s1 where g: "prepare_grant (example_grant_command ''r1'' ''prepare'' 0 (Some example_intent)) example_intent
      example_admission_db = Inr (g, s1)" "grants s1 = [g]" "grant_commands s1 = []" "\<not> gr_SafetyActivation g" by metis
  then have "xg_Intent (example_grant_command ''r1'' ''prepare'' 0 (Some example_intent)) = Some example_intent"
    "xg_Action (example_grant_command ''r1'' ''prepare'' 0 (Some example_intent)) = ''prepare''" by (simp_all add: example_grant_command_def)
  moreover have "g\<lparr>gr_SafetyActivation := False\<rparr> = g" using g(4) by (cases g) simp
  ultimately show ?thesis using g
    by (simp add: ApplyExternalGrantCommand_def example_command_valid f Let_def insert_row.simps grant_commands_constraints_def violates_def)
qed

lemma example_grants_inv: "grants_inv example_admission_db"
  by (simp add: grants_inv_def example_admission_db_def example_pins_db_def example_catalogue_db_def example_types_db_def empty_db_def)

section \<open>Properties\<close>

text \<open>
  C30. Delegated authority. Whatever grant commands are applied: the intent, the captured defaults and the
  source of a grant never change, and any change of a grant raises its revision, which is the fence of
  every effect of the operation; the receipts of an operation are never rewritten, carry the revisions
  1, 2, ..., n and are a path of the state machine of grants that starts at \<^verbatim>\<open>prepared\<close>, on which only an
  activation binds an actor; and reading a grant returns its last receipt, so that the authority of a
  safety activation ends with the next command.
\<close>

theorem grant_history:
  assumes "(grants_step digest)\<^sup>*\<^sup>* s s'" "grants_inv s"
  shows "(\<forall>g \<in> set (grants s). \<exists>g' \<in> set (grants s'). keeps_grant g g')
    \<and> (\<exists>new. grant_commands s' = grant_commands s @ new)
    \<and> (\<forall>g \<in> set (grants s'). let log = log_of (grant_key g) s'; rs = map gc_response log in
         map gr_Revision rs = [1..gr_Revision g] \<and> gr_State (hd rs) = ''prepared'' \<and> successively grant_succ rs
         \<and> readExternalGrant (gr_OrgID g) (gr_PluginID g) (gr_OperationID g) s' = Inr (answer (last log)))"
proof -
  have p: "grants_progress s s'" by (rule grants_run_progress [OF assms])
  then have "grants_inv s'" by (simp add: grants_progress_def)
  with read_grant [OF this] p show ?thesis by (simp add: grants_progress_def grants_inv_def grant_logged_def Let_def)
qed

theorem grant_history_witness:
  "\<exists>g s'. ApplyExternalGrantCommand xg_RequestID (example_grant_command ''r1'' ''prepare'' 0 (Some example_intent)) example_admission_db
       = Inr (g, s')
     \<and> readExternalGrant (gr_OrgID g) (gr_PluginID g) (gr_OperationID g) s' = Inr (answer (last (log_of (grant_key g) s')))"
proof -
  obtain g s' where a: "ApplyExternalGrantCommand xg_RequestID (example_grant_command ''r1'' ''prepare'' 0 (Some example_intent))
      example_admission_db = Inr (g, s')" "grants s' = [g]" using example_prepare by metis
  have "(grants_step xg_RequestID)\<^sup>*\<^sup>* example_admission_db s'" using grant_command [OF a(1)] by (rule r_into_rtranclp)
  from grant_history [OF this example_grants_inv] a show ?thesis by (auto simp: Let_def)
qed

text \<open>
  Grant commands may be delivered any number of times. Whatever has happened to the operation since,
  the retry of a command that has succeeded returns the receipt of its first delivery and changes
  nothing: it does not renew the authority.
\<close>

theorem grant_retry:
  assumes "ApplyExternalGrantCommand digest c s = Inr (r, s')" "(grants_step digest)\<^sup>*\<^sup>* s' t"
  shows "ApplyExternalGrantCommand digest c t = Inr (r, t)"
  using grant.retry [of digest c s r s' t] assms by (simp add: grant_run_def)

theorem grant_retry_witness:
  "\<exists>g t. ApplyExternalGrantCommand xg_RequestID (example_grant_command ''r1'' ''prepare'' 0 (Some example_intent)) example_admission_db
       = Inr (g, t)
     \<and> ApplyExternalGrantCommand xg_RequestID (example_grant_command ''r1'' ''prepare'' 0 (Some example_intent)) t = Inr (g, t)"
proof -
  obtain g t where a: "ApplyExternalGrantCommand xg_RequestID (example_grant_command ''r1'' ''prepare'' 0 (Some example_intent))
      example_admission_db = Inr (g, t)" using example_prepare by metis
  show ?thesis using a grant_retry [OF a rtranclp.rtrancl_refl] by metis
qed

end
