(* ===== verification/ExternalModules.thy ===== *)
theory ExternalModules
  imports Grants
begin

text \<open>
  Module operations of plugins (\<^verbatim>\<open>internal/model/external_module_operations.go\<close>, migration 33): a plugin
  reserves modules for an operation, promotes or restores their defaults while it holds the reservations,
  and releases them. The fence of an operation counts its reservations; each reservation in the core
  carries an identity derived from it.

  The identity is \<^verbatim>\<open>uuid.NewSHA1\<close> of the operation and a text, which is the parameter \<open>derive\<close>; the digest of
  a command is the parameter \<open>digest\<close>. The identifiers that the database draws for reservations are given
  by \<open>fresh\<close>, the current time by \<open>now\<close>.
\<close>

section \<open>Commands\<close>

record ExternalModuleTarget =
  xt_ModuleUUID :: uuid
  xt_VersionUUID :: uuid
  xt_ExpectedDefaultUUID :: "uuid option"
  xt_ExpectedResourceVersion :: int

record ExternalModuleCommand =
  xm_OrgID :: string
  xm_PluginID :: string
  xm_OperationID :: uuid
  xm_ActorID :: uuid
  xm_RequestID :: string
  xm_Action :: string
  xm_ExpectedFence :: int
  xm_GrantFence :: int
  xm_Reason :: string
  xm_Targets :: "ExternalModuleTarget list"
  xm_SafetyReserve :: bool

definition validate_module_command :: "ExternalModuleCommand \<Rightarrow> model_error option" where
  "validate_module_command c =
     (if xm_OrgID c = '''' \<or> \<not> externalPluginIdentity (xm_PluginID c) \<or> xm_OperationID c = Nil_uuid \<or> xm_ActorID c = Nil_uuid
        \<or> xm_RequestID c = '''' \<or> length (xm_RequestID c) > 128 \<or> TrimSpace (xm_Reason c) = '''' \<or> xm_Targets c = []
      then Some (NewErrBadRequest ''external Module operation requires identity, reason and exact targets'')
      else if \<not> List.member [''reserve'', ''release'', ''promote'', ''restore''] (xm_Action c)
      then Some (NewErrBadRequest ''unknown external Module operation'')
      else if xm_SafetyReserve c \<and> (xm_Action c \<noteq> ''reserve'' \<or> xm_GrantFence c \<le> 0 \<or> xm_ExpectedFence c \<le> 0)
      then Some (NewErrConflict ''safety reservation requires a retained fenced operation'')
      else None)"

text \<open>The targets in the order of their modules; \<open>None\<close> when a module is nil or listed twice.\<close>

definition sorted_targets :: "ExternalModuleCommand \<Rightarrow> ExternalModuleTarget list option" where
  "sorted_targets c =
     (let targets = sort_key xt_ModuleUUID (xm_Targets c); ids = map xt_ModuleUUID targets in
      if List.member ids Nil_uuid \<or> \<not> distinct ids then None else Some targets)"

section \<open>The grant of the operation\<close>

definition sameOptionalUUID :: "uuid option \<Rightarrow> uuid option \<Rightarrow> bool" where
  "sameOptionalUUID a b \<longleftrightarrow> a = b"

definition baseline :: "ExternalOperationGrant \<Rightarrow> uuid \<Rightarrow> uuid option" where
  "baseline grant m = (case map_of (gr_BaselineDefaults grant) m of None \<Rightarrow> None | Some v \<Rightarrow> v)"

definition check_granted_target :: "ExternalModuleCommand \<Rightarrow> ExternalOperationGrant \<Rightarrow> ExternalModuleTarget \<Rightarrow> model_error option" where
  "check_granted_target c grant t =
     (let m = xt_ModuleUUID t; frozen_version = map_at (Some (oi_TargetVersions (gr_Intent grant))) m; base = baseline grant m in
      if \<not> List.member (oi_Modules (gr_Intent grant)) m \<or> xm_Action c = ''promote'' \<and> frozen_version \<noteq> xt_VersionUUID t
      then Some (NewErrConflict ''module or target version differs from the frozen operation grant'')
      else if xm_Action c = ''promote'' \<and> \<not> sameOptionalUUID base (xt_ExpectedDefaultUUID t)
      then Some (NewErrConflict ''promotion must compare the captured Default'')
      else if xm_Action c = ''restore'' \<and> (base \<noteq> Some (xt_VersionUUID t) \<or> xt_ExpectedDefaultUUID t \<noteq> Some frozen_version)
      then Some (NewErrConflict ''restoration must undo only this operation's exact Default promotion'')
      else None)"

definition check_module_grant :: "ExternalModuleCommand \<Rightarrow> ExternalModuleTarget list \<Rightarrow> db \<Rightarrow> unit result" where
  "check_module_grant c targets s =
     (if xm_GrantFence c > 0
      then try_then (readExternalGrant (xm_OrgID c) (xm_PluginID c) (xm_OperationID c) s) (\<lambda>grant.
        fail_if (gr_Revision grant \<noteq> xm_GrantFence c \<or> gr_ActorID grant \<noteq> xm_ActorID c
            \<or> \<not> List.member (oi_Actions (gr_Intent grant)) (''module.'' @ xm_Action c))
          (NewErrConflict ''module action is outside the current operation grant'')
       (fail_if (xm_SafetyReserve c \<and> (gr_State grant \<noteq> ''active'' \<or> \<not> gr_SafetyActivation grant))
          (NewErrConflict ''safety reservation requires the current verified safety activation'')
       (let releaseCleanup = (xm_Action c = ''release'' \<and> (gr_State grant = ''suspended'' \<or> gr_State grant = ''released''));
            allowed = (gr_State grant = ''active'' \<or> xm_Action c = ''reserve'' \<and> gr_State grant = ''prepared'' \<or> releaseCleanup) in
        fail_if (\<not> allowed) (NewErrConflict ''operation grant cannot mutate module reservations or defaults in this state'')
       (fail_if (length (oi_Modules (gr_Intent grant)) \<noteq> length targets)
          (NewErrConflict ''module targets differ from the frozen operation grant'')
       (case first_failure (check_granted_target c grant) targets of Some e \<Rightarrow> Inl e | None \<Rightarrow> Inr ())))))
      else Inr ())"

section \<open>The operation and its fence\<close>

definition operation_at :: "string \<Rightarrow> string \<Rightarrow> uuid \<Rightarrow> module_operation_row \<Rightarrow> bool" where
  "operation_at org plugin operation o1 \<longleftrightarrow> eo_org_id o1 = org \<and> eo_plugin_id o1 = plugin \<and> eo_operation_id o1 = operation"

definition receipt_at :: "string \<Rightarrow> string \<Rightarrow> uuid \<Rightarrow> module_receipt_row \<Rightarrow> bool" where
  "receipt_at org plugin operation r \<longleftrightarrow>
     er_OrgID (mo_response r) = org \<and> er_PluginID (mo_response r) = plugin \<and> er_OperationID (mo_response r) = operation"

definition module_operations_constraints :: "(module_operation_row, string list) constraint list" where
  "module_operations_constraints =
     [(''external_module_operations_pkey'', \<lambda>o1. Some [eo_org_id o1, eo_plugin_id o1, eo_operation_id o1])]"

definition module_receipts_constraints :: "(module_receipt_row, string list) constraint list" where
  "module_receipts_constraints =
     [(''external_module_operation_receipts_pkey'', \<lambda>r. Some [er_OrgID (mo_response r), er_PluginID (mo_response r),
         er_OperationID (mo_response r), er_RequestID (mo_response r)])]"

text \<open>The fence and the state that the command works with, and whether it retains active reservations.\<close>

definition open_operation :: "ExternalModuleCommand \<Rightarrow> uuid list \<Rightarrow> db \<Rightarrow> (int \<times> string \<times> bool \<times> db) result" where
  "open_operation c ids s =
     (case find (operation_at (xm_OrgID c) (xm_PluginID c) (xm_OperationID c)) (module_operations s) of
        None \<Rightarrow>
          fail_if (xm_SafetyReserve c) (NewErrConflict ''safety reservation cannot acquire new Module scope'')
         (fail_if (xm_Action c \<noteq> ''reserve'' \<or> xm_ExpectedFence c \<noteq> 0)
            (NewErrConflict ''operation must acquire its initial reservation first'')
         (fail_if (\<not> List.member (orgs s) (xm_OrgID c)) (ErrConstraint ''external_module_operations_org_id_fkey'')
         (try_then (insert_row module_operations_constraints
             \<lparr>eo_org_id = xm_OrgID c, eo_plugin_id = xm_PluginID c, eo_operation_id = xm_OperationID c, eo_fence = 1,
              eo_state = ''released'', eo_module_uuids = ids\<rparr> (module_operations s))
           (\<lambda>rows. Inr (1, ''released'', False, s\<lparr>module_operations := rows\<rparr>)))))
      | Some o1 \<Rightarrow>
          fail_if (xm_ExpectedFence c \<noteq> eo_fence o1) (NewErrConflict ''external Module operation fence changed'')
         (fail_if (eo_module_uuids o1 \<noteq> ids) (NewErrConflict ''operation target membership is immutable'')
         (if xm_Action c = ''reserve''
          then let retain = (xm_SafetyReserve c \<and> eo_state o1 = ''active'') in
            fail_if (eo_state o1 \<noteq> ''released'' \<and> \<not> retain) (NewErrConflict ''operation already holds its reservations'')
           (Inr (if retain then eo_fence o1 else eo_fence o1 + 1, eo_state o1, retain, s))
          else Inr (eo_fence o1, eo_state o1, False, s))))"

definition retained_evidence :: "ExternalModuleCommand \<Rightarrow> db \<Rightarrow> bool" where
  "retained_evidence c s \<longleftrightarrow>
     list_ex (\<lambda>r. receipt_at (xm_OrgID c) (xm_PluginID c) (xm_OperationID c) r \<and> er_Action (mo_response r) = ''reserve''
       \<and> er_Fence (mo_response r) = xm_ExpectedFence c \<and> er_State (mo_response r) = ''active'') (module_receipts s)"

section \<open>One target\<close>

definition show_int :: "int \<Rightarrow> string" where
  "show_int n = (if n < 0 then CHR ''-'' # show_nat (nat (- n)) else show_nat (nat n))"

definition reservation_identity :: "(uuid \<Rightarrow> string \<Rightarrow> uuid) \<Rightarrow> ExternalModuleCommand \<Rightarrow> uuid \<Rightarrow> int \<Rightarrow> uuid" where
  "reservation_identity derive c m fence = derive (xm_OperationID c) (xm_PluginID c @ ''/'' @ m @ ''/'' @ show_int fence)"

definition holds_reservation :: "ExternalModuleCommand \<Rightarrow> uuid \<Rightarrow> ModuleOperationReservation \<Rightarrow> bool" where
  "holds_reservation c i r \<longleftrightarrow> mr_Namespace r = xm_PluginID c \<and> mr_OperationID r = i \<and> mr_RelatedResourceID r = xm_OperationID c"

definition change_default :: "ExternalModuleCommand \<Rightarrow> ModuleCatalogue \<Rightarrow> ExternalModuleTarget \<Rightarrow> db \<Rightarrow> db result" where
  "change_default c entry t s =
     fail_if (\<not> sameOptionalUUID (mc_CurrentDefaultVersionUUID entry) (xt_ExpectedDefaultUUID t))
       (NewErrConflict ''Module Default changed since the operation was prepared'')
    (try_then (GetCoreModuleVersion (xm_OrgID c) (xt_ModuleUUID t) (xt_VersionUUID t) s) (\<lambda>version.
     fail_if (cv_LifecycleStatus version \<noteq> (if xm_Action c = ''restore'' then LifecycleDeprecated else LifecycleProposed))
       (NewErrConflict ''Module Version is not eligible for this operation'')
    (let expected = (if xm_GrantFence c > 0 \<and> xm_Action c = ''restore'' then cv_ResourceVersion version else xt_ExpectedResourceVersion t) in
     try_then (TransitionCoreModuleVersion (xm_OrgID c) (xt_ModuleUUID t) (xt_VersionUUID t) LifecycleDefault expected (xm_ActorID c)
         (xm_Reason c) (Some (xm_OperationID c)) s) (\<lambda>(_, s'). Inr s'))))"

definition apply_target ::
  "(uuid \<Rightarrow> string \<Rightarrow> uuid) \<Rightarrow> (uuid \<Rightarrow> uuid) \<Rightarrow> timestamp \<Rightarrow> ExternalModuleCommand \<Rightarrow> int \<Rightarrow> bool \<Rightarrow> ExternalModuleTarget \<Rightarrow> db \<Rightarrow> db result" where
  "apply_target derive fresh now c fence retain t s =
     try_then (GetModuleCatalogue (xm_OrgID c) (xt_ModuleUUID t) s) (\<lambda>entry.
     let m = xt_ModuleUUID t; acquire = (xm_Action c = ''reserve'' \<and> \<not> retain); i = reservation_identity derive c m fence in
     fail_if (acquire \<and> mc_Status entry = CatalogueArchived)
       (NewErrConflict ''archived Modules cannot acquire new operation reservations'')
    (if acquire
     then try_then (AcquireModuleOperationReservation (xm_OrgID c) m (xm_PluginID c) i (xm_OperationID c) (xm_Reason c)
         (xm_ActorID c) (fresh m) now s) (\<lambda>(_, s'). Inr s')
     else case find (holds_reservation c i) (ListModuleOperationReservations (xm_OrgID c) m False s) of
         None \<Rightarrow> Inl (NewErrConflict ''operation reservation ownership changed'')
       | Some found \<Rightarrow>
           if retain
           then try_then (GetModuleOperationReservation (xm_OrgID c) (mr_ID found) s) (\<lambda>r.
             fail_if (mr_ReleasedAt r \<noteq> None \<or> mr_ModuleUUID r \<noteq> m \<or> \<not> holds_reservation c i r)
               (NewErrConflict ''operation reservation ownership changed'') (Inr s))
           else if xm_Action c = ''release''
           then try_then (ReleaseModuleOperationReservation (xm_OrgID c) (mr_ID found) (mr_ResourceVersion found) (xm_ActorID c)
               (xm_Reason c) now s) (\<lambda>(_, s'). Inr s')
           else change_default c entry t s))"

section \<open>The command\<close>

definition finish_operation ::
  "string \<Rightarrow> ExternalModuleCommand \<Rightarrow> uuid list \<Rightarrow> int \<Rightarrow> string \<Rightarrow> db \<Rightarrow> (ExternalModuleReceipt \<times> db) result" where
  "finish_operation d c ids fence state s =
     (let state' = (if xm_Action c = ''reserve'' then ''active'' else if xm_Action c = ''release'' then ''released'' else state);
          s1 = s\<lparr>module_operations := upd_where (operation_at (xm_OrgID c) (xm_PluginID c) (xm_OperationID c))
            (\<lambda>o1. o1\<lparr>eo_fence := fence, eo_state := state'\<rparr>) (module_operations s)\<rparr>;
          receipt = \<lparr>er_OrgID = xm_OrgID c, er_PluginID = xm_PluginID c, er_OperationID = xm_OperationID c,
            er_RequestID = xm_RequestID c, er_Action = xm_Action c, er_Fence = fence, er_State = state', er_ModuleUUIDs = ids\<rparr> in
      try_then (insert_row module_receipts_constraints \<lparr>mo_request_digest = d, mo_actor_id = xm_ActorID c, mo_response = receipt\<rparr>
          (module_receipts s1))
        (\<lambda>rows. Inr (receipt, s1\<lparr>module_receipts := rows\<rparr>)))"

definition ApplyExternalModuleOperation ::
  "(ExternalModuleCommand \<Rightarrow> string) \<Rightarrow> (uuid \<Rightarrow> string \<Rightarrow> uuid) \<Rightarrow> (uuid \<Rightarrow> uuid) \<Rightarrow> timestamp \<Rightarrow> ExternalModuleCommand \<Rightarrow> db
   \<Rightarrow> (ExternalModuleReceipt \<times> db) result" where
  "ApplyExternalModuleOperation digest derive fresh now command s =
     (case validate_module_command command of
        Some e \<Rightarrow> Inl e
      | None \<Rightarrow>
        (case sorted_targets command of
           None \<Rightarrow> Inl (NewErrBadRequest ''exact Module targets must be nonempty and unique'')
         | Some targets \<Rightarrow>
           (let c = command\<lparr>xm_Targets := targets\<rparr>; ids = map xt_ModuleUUID targets; d = digest (c\<lparr>xm_SafetyReserve := False\<rparr>) in
            try_then (check_module_grant c targets s) (\<lambda>_.
            case find (\<lambda>r. receipt_at (xm_OrgID c) (xm_PluginID c) (xm_OperationID c) r \<and> er_RequestID (mo_response r) = xm_RequestID c)
                (module_receipts s) of
              Some r \<Rightarrow>
                fail_if (mo_request_digest r \<noteq> d \<or> mo_actor_id r \<noteq> xm_ActorID c)
                  (NewErrConflict ''external operation request ID was used for a different command or actor'')
               (Inr (mo_response r, s))
            | None \<Rightarrow>
                try_then (open_operation c ids s) (\<lambda>(fence, state, retain, s1).
                fail_if (xm_Action c \<noteq> ''reserve'' \<and> state \<noteq> ''active'') (NewErrConflict ''operation does not hold active reservations'')
               (fail_if (xm_SafetyReserve c \<and> \<not> retained_evidence c s1)
                  (NewErrConflict ''safety reservation requires retained reservation evidence'')
               (try_then (try_fold (apply_target derive fresh now c fence retain) targets s1) (\<lambda>s2.
                finish_operation d c ids fence state s2))))))))"
section \<open>What the steps keep\<close>

definition operations_kept :: "db \<Rightarrow> db \<Rightarrow> bool" where
  "operations_kept s s' \<longleftrightarrow> module_operations s' = module_operations s \<and> module_receipts s' = module_receipts s"

lemma operations_kept_refl: "operations_kept s s"
  by (simp add: operations_kept_def)

lemma promote_frame:
  assumes "promote_version entry version parsed org actor reason corr s = Inr s1"
  shows "reservations s1 = reservations s \<and> operations_kept s s1"
proof -
  obtain s2 where s2: "deprecate_previous entry org actor reason corr s = Inr s2" using assms by (auto simp: promote_version_def Let_def)
  have "reservations s2 = reservations s \<and> operations_kept s s2"
    using s2 by (auto simp: deprecate_previous_def Let_def operations_kept_def split: option.splits)
  then show ?thesis using assms s2 by (auto simp: promote_version_def Let_def operations_kept_def)
qed

lemma transition_frame:
  assumes "TransitionCoreModuleVersion org ref vref target e actor reason corr s = Inr (u, s')"
  shows "reservations s' = reservations s \<and> operations_kept s s'"
proof -
  have demote: "reservations s1 = reservations s \<and> operations_kept s s1" if "demote_version entry version target org s = Inr s1" for entry version s1
    using that by (auto simp: demote_version_def Let_def operations_kept_def split: if_splits)
  have r: "RequireTransitionReason reason = None"
    using assms by (cases "RequireTransitionReason reason") (simp_all add: TransitionCoreModuleVersion_def)
  obtain entry version where ev: "GetModuleCatalogue org ref s = Inr entry" "GetCoreModuleVersion org ref vref s = Inr version"
    using assms r by (auto simp: TransitionCoreModuleVersion_def)
  note a = assms [unfolded TransitionCoreModuleVersion_def r ev, simplified]
  obtain sv where sv: "cv_SemanticVersion version = Some sv" using a by (auto split: option.splits)
  obtain parsed where parsed: "ParseVersion sv = Inr parsed" using a sv by (auto split: sum.splits)
  have v: "ValidateLifecycleTransition (cv_LifecycleStatus version) target parsed = None" using a sv parsed by (auto split: option.splits)
  show ?thesis
  proof (cases "cv_LifecycleStatus version = target")
    case True
    then show ?thesis using a sv parsed v by (simp add: operations_kept_def)
  next
    case False
    obtain s1 where s1: "(if target = LifecycleDefault then promote_version entry version parsed org actor reason corr s
        else demote_version entry version target org s) = Inr s1" "reservations s' = reservations s1" "operations_kept s1 s'"
      using a sv parsed v False by (auto simp: Let_def operations_kept_def)
    then have "reservations s1 = reservations s \<and> operations_kept s s1" using promote_frame demote by (cases "target = LifecycleDefault") auto
    then show ?thesis using s1(2,3) by (simp add: operations_kept_def)
  qed
qed

lemma apply_target_kept:
  assumes "apply_target derive fresh now c fence retain t s = Inr s'"
  shows "operations_kept s s'"
proof -
  have acq: "operations_kept s u" if "AcquireModuleOperationReservation org ref ns op res reason actor new n s = Inr (r, u)"
    for org ref ns op res reason actor new n r u using that by (rule acquire_Inr) (auto simp: operations_kept_def)
  have rel: "operations_kept s u" if "ReleaseModuleOperationReservation org i e actor reason n s = Inr (r, u)"
    for org i e actor reason n r u using that by (rule release_Inr) (auto simp: operations_kept_def)
  show ?thesis using assms transition_frame
    by (auto simp: apply_target_def Let_def change_default_def intro: acq rel operations_kept_refl split: if_splits option.splits)
qed

lemma apply_targets_kept:
  assumes "try_fold (apply_target derive fresh now c fence retain) ts s = Inr s'"
  shows "operations_kept s s'"
  using assms by (rule try_fold_invariant) (auto simp: operations_kept_def dest!: apply_target_kept)
section \<open>Receipts\<close>

definition module_request :: "ExternalModuleCommand \<Rightarrow> module_receipt_row \<Rightarrow> bool" where
  "module_request c r \<longleftrightarrow> receipt_at (xm_OrgID c) (xm_PluginID c) (xm_OperationID c) r \<and> er_RequestID (mo_response r) = xm_RequestID c"

definition module_digest :: "(ExternalModuleCommand \<Rightarrow> string) \<Rightarrow> ExternalModuleCommand \<Rightarrow> ExternalModuleTarget list \<Rightarrow> string" where
  "module_digest digest c targets = digest (c\<lparr>xm_Targets := targets, xm_SafetyReserve := False\<rparr>)"

lemma apply_module_Inr:
  assumes "ApplyExternalModuleOperation digest derive fresh now c s = Inr (r, s')"
  obtains targets row where "sorted_targets c = Some targets" "find (module_request c) (module_receipts s) = Some row"
      "mo_request_digest row = module_digest digest c targets" "mo_actor_id row = xm_ActorID c" "r = mo_response row" "s' = s"
  | targets fence state retain s1 s2 where "sorted_targets c = Some targets" "find (module_request c) (module_receipts s) = None"
      "open_operation (c\<lparr>xm_Targets := targets\<rparr>) (map xt_ModuleUUID targets) s = Inr (fence, state, retain, s1)"
      "xm_Action c \<noteq> ''reserve'' \<longrightarrow> state = ''active''"
      "try_fold (apply_target derive fresh now (c\<lparr>xm_Targets := targets\<rparr>) fence retain) targets s1 = Inr s2"
      "finish_operation (module_digest digest c targets) (c\<lparr>xm_Targets := targets\<rparr>) (map xt_ModuleUUID targets) fence state s2 = Inr (r, s')"
proof -
  have v: "validate_module_command c = None"
    using assms by (auto simp: ApplyExternalModuleOperation_def split: option.splits)
  obtain targets where t: "sorted_targets c = Some targets"
    using assms v by (auto simp: ApplyExternalModuleOperation_def split: option.splits)
  have req: "(\<lambda>r. receipt_at (xm_OrgID c) (xm_PluginID c) (xm_OperationID c) r \<and> er_RequestID (mo_response r) = xm_RequestID c)
      = module_request c" by (simp add: module_request_def fun_eq_iff)
  note a = assms [unfolded ApplyExternalModuleOperation_def v t, simplified Let_def, simplified, unfolded req]
  show thesis
  proof (cases "find (module_request c) (module_receipts s)")
    case (Some row)
    show thesis by (rule that(1) [OF t Some]) (use a Some in \<open>auto simp: module_digest_def\<close>)
  next
    case None
    obtain fence state retain s1 s2 where o: "open_operation (c\<lparr>xm_Targets := targets\<rparr>) (map xt_ModuleUUID targets) s = Inr (fence, state, retain, s1)"
      "xm_Action c \<noteq> ''reserve'' \<longrightarrow> state = ''active''"
      "try_fold (apply_target derive fresh now (c\<lparr>xm_Targets := targets\<rparr>) fence retain) targets s1 = Inr s2"
      "finish_operation (module_digest digest c targets) (c\<lparr>xm_Targets := targets\<rparr>) (map xt_ModuleUUID targets) fence state s2 = Inr (r, s')"
      using a None by (auto simp: module_digest_def)
    show thesis by (rule that(2) [OF t None o])
  qed
qed

lemma open_operation_Inr:
  assumes "open_operation c ids s = Inr (fence, state, retain, s1)"
  shows "module_receipts s1 = module_receipts s \<and> reservations s1 = reservations s \<and> definitions s1 = definitions s
    \<and> definition_versions s1 = definition_versions s \<and> (retain \<longrightarrow> xm_Action c = ''reserve'')
    \<and> (xm_Action c \<noteq> ''reserve'' \<longrightarrow> s1 = s \<and> fence = xm_ExpectedFence c
         \<and> (\<exists>o1 \<in> set (module_operations s). operation_at (xm_OrgID c) (xm_PluginID c) (xm_OperationID c) o1
              \<and> eo_fence o1 = fence \<and> eo_state o1 = state \<and> eo_module_uuids o1 = ids))"
proof (cases "find (operation_at (xm_OrgID c) (xm_PluginID c) (xm_OperationID c)) (module_operations s)")
  case None
  then show ?thesis using assms by (auto simp: open_operation_def)
next
  case (Some o1)
  then show ?thesis using assms find_in_set [OF Some] by (auto simp: open_operation_def Let_def split: if_splits)
qed

lemma finish_Inr:
  assumes "finish_operation d c ids fence state s = Inr (r, s')"
  obtains row where "module_receipts s' = module_receipts s @ [row]" "mo_response row = r" "mo_request_digest row = d" "mo_actor_id row = xm_ActorID c"
    "module_request c row" "reservations s' = reservations s" "definitions s' = definitions s" "definition_versions s' = definition_versions s"
  by (rule that [of "\<lparr>mo_request_digest = d, mo_actor_id = xm_ActorID c, mo_response = r\<rparr>"])
    (use assms in \<open>auto simp: finish_operation_def Let_def insert_row_Inr_iff module_request_def receipt_at_def\<close>)

lemma fresh_receipt:
  assumes "open_operation (c\<lparr>xm_Targets := ts\<rparr>) ids s = Inr (fence, state, retain, s1)"
    "try_fold (apply_target derive fresh now (c\<lparr>xm_Targets := ts\<rparr>) fence retain) ts s1 = Inr s2"
    "finish_operation d (c\<lparr>xm_Targets := ts\<rparr>) ids fence state s2 = Inr (r, s')"
  obtains row where "module_receipts s' = module_receipts s @ [row]" "mo_response row = r" "mo_request_digest row = d"
    "mo_actor_id row = xm_ActorID c" "module_request c row"
proof -
  obtain row where row: "module_receipts s' = module_receipts s2 @ [row]" "mo_response row = r" "mo_request_digest row = d"
    "mo_actor_id row = xm_ActorID (c\<lparr>xm_Targets := ts\<rparr>)" "module_request (c\<lparr>xm_Targets := ts\<rparr>) row" using assms(3) by (rule finish_Inr)
  have "module_receipts s2 = module_receipts s"
    using open_operation_Inr [OF assms(1)] apply_targets_kept [OF assms(2)] by (simp add: operations_kept_def)
  then show thesis using that [of row] row by (simp add: module_request_def)
qed

lemma module_retry:
  assumes "ApplyExternalModuleOperation digest derive fresh now c s = Inr (r, s')" "xm_GrantFence c \<le> 0"
  shows "ApplyExternalModuleOperation digest derive fresh' now' c s' = Inr (r, s')"
proof -
  have v: "validate_module_command c = None"
    using assms(1) by (auto simp: ApplyExternalModuleOperation_def split: option.splits)
  have req: "(\<lambda>r. receipt_at (xm_OrgID c) (xm_PluginID c) (xm_OperationID c) r \<and> er_RequestID (mo_response r) = xm_RequestID c)
      = module_request c" by (simp add: module_request_def fun_eq_iff)
  have "\<exists>ts row. sorted_targets c = Some ts \<and> find (module_request c) (module_receipts s') = Some row
      \<and> mo_request_digest row = module_digest digest c ts \<and> mo_actor_id row = xm_ActorID c \<and> mo_response row = r"
    using assms(1)
  proof (cases rule: apply_module_Inr)
    case (1 targets row)
    then show ?thesis by simp
  next
    case (2 targets fence state retain s1 s2)
    obtain row where row: "module_receipts s' = module_receipts s @ [row]" "mo_response row = r"
      "mo_request_digest row = module_digest digest c targets" "mo_actor_id row = xm_ActorID c" "module_request c row"
      by (rule fresh_receipt [OF 2(3,5,6)])
    then have "find (module_request c) (module_receipts s') = Some row" using 2(2) by (simp add: find_append_None)
    then show ?thesis using 2(1) row(2-4) by auto
  qed
  then obtain ts row where "sorted_targets c = Some ts" "find (module_request c) (module_receipts s') = Some row"
    "mo_request_digest row = module_digest digest c ts" "mo_actor_id row = xm_ActorID c" "mo_response row = r" by metis
  then show ?thesis using v assms(2)
    by (simp add: ApplyExternalModuleOperation_def Let_def req check_module_grant_def module_digest_def)
qed

definition module_run ::
  "(ExternalModuleCommand \<Rightarrow> string) \<Rightarrow> (uuid \<Rightarrow> string \<Rightarrow> uuid) \<Rightarrow> (uuid \<Rightarrow> uuid) \<times> timestamp \<times> ExternalModuleCommand \<Rightarrow> db
   \<Rightarrow> (ExternalModuleReceipt \<times> db) option" where
  "module_run digest derive x s = (case x of (fresh, now, c) \<Rightarrow> completed (ApplyExternalModuleOperation digest derive fresh now c s))"

definition module_recorded ::
  "(ExternalModuleCommand \<Rightarrow> string) \<Rightarrow> (uuid \<Rightarrow> uuid) \<times> timestamp \<times> ExternalModuleCommand \<Rightarrow> ExternalModuleReceipt \<Rightarrow> db \<Rightarrow> bool" where
  "module_recorded digest x r s \<longleftrightarrow> (case x of (fresh, now, c) \<Rightarrow>
     \<exists>row. find (module_request c) (module_receipts s) = Some row \<and> mo_response row = r)"

inductive module_operation_step :: "(ExternalModuleCommand \<Rightarrow> string) \<Rightarrow> (uuid \<Rightarrow> string \<Rightarrow> uuid) \<Rightarrow> db \<Rightarrow> db \<Rightarrow> bool" for digest derive where
  operations_frame: "module_receipts s' = module_receipts s \<Longrightarrow> module_operation_step digest derive s s'"
| operation: "ApplyExternalModuleOperation digest derive fresh now c s = Inr (r, s') \<Longrightarrow> module_operation_step digest derive s s'"

lemma module_run_records:
  assumes "ApplyExternalModuleOperation digest derive fresh now c s = Inr (r, s')"
  shows "module_recorded digest (fresh, now, c) r s'"
  using assms
proof (cases rule: apply_module_Inr)
  case (1 targets row)
  then show ?thesis by (simp add: module_recorded_def)
next
  case (2 targets fence state retain s1 s2)
  obtain row where "module_receipts s' = module_receipts s @ [row]" "mo_response row = r" "module_request c row"
    by (rule fresh_receipt [OF 2(3,5,6)])
  then show ?thesis using 2(2) by (simp add: module_recorded_def find_append_None)
qed

lemma module_step_receipts:
  assumes "module_operation_step digest derive s s'"
  shows "\<exists>new. module_receipts s' = module_receipts s @ new"
  using assms
proof cases
  case (operation fresh now c r)
  then show ?thesis
  proof (cases rule: apply_module_Inr)
    case (2 targets fence state retain s1 s2)
    show ?thesis by (rule fresh_receipt [OF 2(3,5,6)]) blast
  qed simp
qed simp

interpretation module_command: at_most_once "module_run digest derive" "module_recorded digest" "module_operation_step digest derive"
  for digest derive
proof
  show "module_recorded digest x r s'" if "module_run digest derive x s = Some (r, s')" for x s r s'
    using that module_run_records by (auto simp: module_run_def split: prod.splits)
  show "r' = r \<and> s' = s" if rec: "module_recorded digest x r s" and run: "module_run digest derive x s = Some (r', s')" for x r s r' s'
  proof -
    obtain fresh now c where x: "x = (fresh, now, c)" by (cases x) auto
    then have a: "ApplyExternalModuleOperation digest derive fresh now c s = Inr (r', s')" using run by (simp add: module_run_def)
    then show ?thesis using rec by (cases rule: apply_module_Inr) (auto simp: module_recorded_def x)
  qed
  show "module_recorded digest x r s'" if st: "module_operation_step digest derive s s'" and rec: "module_recorded digest x r s" for s s' x r
  proof -
    obtain new where "module_receipts s' = module_receipts s @ new" using module_step_receipts [OF st] by blast
    then show ?thesis using rec by (auto simp: module_recorded_def intro: find_append_Some)
  qed
qed
section \<open>Changing defaults\<close>

text \<open>A target has become the default of its module.\<close>

definition promoted :: "string \<Rightarrow> ExternalModuleTarget \<Rightarrow> db \<Rightarrow> bool" where
  "promoted org t s \<longleftrightarrow> (\<exists>d \<in> set (definitions s). d_org_id d = org \<and> d_uuid d = xt_ModuleUUID t
     \<and> d_previous_default_version_uuid d = xt_ExpectedDefaultUUID t
     \<and> (\<exists>v \<in> set (definition_versions s). d_current_default_version_uuid d = Some (v_uuid v) \<and> v_org_id v = org
          \<and> v_module_uuid v = xt_ModuleUUID t
          \<and> (v_uuid v = xt_VersionUUID t \<or> v_semantic_version v = Some (xt_VersionUUID t) \<or> v_version_id v = xt_VersionUUID t)))"

lemma version_step_frozen: "version_step v w \<Longrightarrow> version_frozen v w"
  by (auto simp: version_step_def version_frozen_def)

text \<open>Promoting a version of a module that is named by its UUID.\<close>

lemma transition_default:
  assumes t: "TransitionCoreModuleVersion org m ref LifecycleDefault e actor reason corr s = Inr (u, s')" and inv: "catalogue_inv s"
    and d: "d \<in> set (definitions s)" "d_org_id d = org" "d_uuid d = m"
    and v: "GetCoreModuleVersion org m ref s = Inr cv" "cv_LifecycleStatus cv \<noteq> LifecycleDefault"
  obtains d' v where "d' \<in> set (definitions s')" "d_org_id d' = org" "d_uuid d' = m"
    "d_previous_default_version_uuid d' = d_current_default_version_uuid d" "d_current_default_version_uuid d' = Some (v_uuid v)"
    "v \<in> set (definition_versions s')" "v_org_id v = org" "v_module_uuid v = m"
    "v_uuid v = ref \<or> v_semantic_version v = Some ref \<or> v_version_id v = ref"
    "\<forall>x \<in> set (definitions s). d_uuid x \<noteq> m \<longrightarrow> x \<in> set (definitions s')"
proof -
  obtain e1 v1 parsed s1 where fd: "find (module_matches org m) (definitions s) = Some e1"
    and fv: "find (version_matches org m ref (definitions s)) (definition_versions s) = Some v1"
    and "v_semantic_status v1 = LifecycleDefault \<and> s' = s \<or> v_semantic_status v1 \<noteq> LifecycleDefault \<and>
       promote_version (scanModuleCatalogue e1) (scanCoreModuleVersion (resource_type_versions s) v1) parsed org actor reason corr s = Inr s1
       \<and> definitions s' = definitions s1 \<and> definition_versions s' = definition_versions s1"
    using transition_Inr [OF t] by auto
  moreover have "v_semantic_status v1 \<noteq> LifecycleDefault"
    using v fv by (auto simp: GetCoreModuleVersion_def scanCoreModuleVersion_def)
  ultimately have p: "promote_version (scanModuleCatalogue e1) (scanCoreModuleVersion (resource_type_versions s) v1) parsed org actor
      reason corr s = Inr s1" and s': "definitions s' = definitions s1" "definition_versions s' = definition_versions s1" by auto
  have e1: "e1 \<in> set (definitions s)" "module_matches org m e1" using find_in_set [OF fd] by simp_all
  have "e1 = d" using module_unique [of "definitions s" "definition_versions s" e1 d org m] inv e1 d
    by (simp add: catalogue_inv_def module_matches_def)
  obtain g where defs: "definitions s1 = upd_where (\<lambda>e. d_org_id e = org \<and> d_uuid e = m) g (definitions s)"
    and g: "\<forall>e. d_uuid (g e) = d_uuid e \<and> d_org_id (g e) = d_org_id e \<and> d_current_default_version_uuid (g e) = Some (v_uuid v1)
       \<and> d_previous_default_version_uuid (g e) = d_current_default_version_uuid d"
    using promote_Inr [OF p] d(3) unfolding \<open>e1 = d\<close> by auto
  have v1: "v1 \<in> set (definition_versions s)" "version_matches org m ref (definitions s) v1" using find_in_set [OF fv] by simp_all
  have owns: "owns d v1" using version_module [of "definitions s" "definition_versions s" d org m v1 ref] inv d v1
    by (simp add: catalogue_inv_def module_matches_def)
  obtain w where w: "w \<in> set (definition_versions s')" "version_frozen v1 w"
    using transition_preserves(2) [OF inv t v1(1)] version_step_frozen by blast
  show thesis
  proof (rule that)
    show "g d \<in> set (definitions s')" using upd_where_intro [OF d(1), of "\<lambda>e. d_org_id e = org \<and> d_uuid e = m" g] d s'(1) defs by simp
    show "v_uuid w = ref \<or> v_semantic_version w = Some ref \<or> v_version_id w = ref"
      using w(2) v1(2) by (auto simp: version_frozen_def version_matches_def)
    show "\<forall>x \<in> set (definitions s). d_uuid x \<noteq> m \<longrightarrow> x \<in> set (definitions s')"
      unfolding s'(1) defs by (auto simp: in_upd_where)
  qed (use g d w owns v1(2) in \<open>auto simp: version_frozen_def owns_def\<close>)
qed

lemma promoted_keep:
  assumes "promoted org t s" "\<forall>x \<in> set (definitions s). d_uuid x \<notin> M \<longrightarrow> x \<in> set (definitions s')" "xt_ModuleUUID t \<notin> M"
    "\<forall>v \<in> set (definition_versions s). \<exists>w \<in> set (definition_versions s'). version_frozen v w"
  shows "promoted org t s'"
proof -
  obtain d v where d: "d \<in> set (definitions s)" "d_org_id d = org" "d_uuid d = xt_ModuleUUID t"
      "d_previous_default_version_uuid d = xt_ExpectedDefaultUUID t" "d_current_default_version_uuid d = Some (v_uuid v)"
    and v: "v \<in> set (definition_versions s)" "v_org_id v = org" "v_module_uuid v = xt_ModuleUUID t"
      "v_uuid v = xt_VersionUUID t \<or> v_semantic_version v = Some (xt_VersionUUID t) \<or> v_version_id v = xt_VersionUUID t"
    using assms(1) by (auto simp: promoted_def)
  obtain w where w: "w \<in> set (definition_versions s')" "version_frozen v w" using assms(4) v(1) by blast
  have "d \<in> set (definitions s')" using assms(2,3) d by simp
  then show ?thesis unfolding promoted_def using d v w by (intro bexI conjI) (auto simp: version_frozen_def)
qed
definition held :: "(uuid \<Rightarrow> string \<Rightarrow> uuid) \<Rightarrow> ExternalModuleCommand \<Rightarrow> int \<Rightarrow> ExternalModuleTarget \<Rightarrow> db \<Rightarrow> bool" where
  "held derive c fence t s \<longleftrightarrow> (\<exists>r \<in> set (reservations s). mr_OrgID r = xm_OrgID c \<and> mr_ModuleUUID r = xt_ModuleUUID t \<and> mr_ReleasedAt r = None
     \<and> holds_reservation c (reservation_identity derive c (xt_ModuleUUID t) fence) r)"

lemma apply_default:
  assumes "apply_target derive fresh now c fence False t s = Inr s'" "xm_Action c \<in> {''promote'', ''restore''}"
  obtains entry where "GetModuleCatalogue (xm_OrgID c) (xt_ModuleUUID t) s = Inr entry" "change_default c entry t s = Inr s'"
    "held derive c fence t s"
proof -
  obtain entry where entry: "GetModuleCatalogue (xm_OrgID c) (xt_ModuleUUID t) s = Inr entry"
    using assms(1) by (auto simp: apply_target_def)
  let ?i = "reservation_identity derive c (xt_ModuleUUID t) fence"
  note a = assms(1) [unfolded apply_target_def entry, simplified Let_def, simplified]
  obtain r where r: "find (holds_reservation c ?i) (ListModuleOperationReservations (xm_OrgID c) (xt_ModuleUUID t) False s) = Some r"
    "change_default c entry t s = Inr s'" using a assms(2) by (auto split: option.splits)
  have "held derive c fence t s"
    using find_in_set [OF r(1)] by (auto simp: held_def ListModuleOperationReservations_def)
  then show thesis using that [OF entry r(2)] by blast
qed

lemma change_default_Inr:
  assumes "change_default c entry t s = Inr s'"
  obtains version u e where "mc_CurrentDefaultVersionUUID entry = xt_ExpectedDefaultUUID t"
    "GetCoreModuleVersion (xm_OrgID c) (xt_ModuleUUID t) (xt_VersionUUID t) s = Inr version" "cv_LifecycleStatus version \<noteq> LifecycleDefault"
    "TransitionCoreModuleVersion (xm_OrgID c) (xt_ModuleUUID t) (xt_VersionUUID t) LifecycleDefault e (xm_ActorID c)
       (xm_Reason c) (Some (xm_OperationID c)) s = Inr (u, s')"
  using assms by (auto simp: change_default_def Let_def sameOptionalUUID_def split: if_splits)

lemma defaults_held:
  assumes "try_fold (apply_target derive fresh now c fence False) ts s = Inr s'" "xm_Action c \<in> {''promote'', ''restore''}"
  shows "reservations s' = reservations s \<and> (\<forall>t \<in> set ts. held derive c fence t s)"
  using assms(1)
proof (induction ts arbitrary: s)
  case (Cons t ts)
  then obtain s1 where s1: "apply_target derive fresh now c fence False t s = Inr s1"
    "try_fold (apply_target derive fresh now c fence False) ts s1 = Inr s'" by (auto split: sum.splits)
  obtain entry where e: "change_default c entry t s = Inr s1" "held derive c fence t s" by (rule apply_default [OF s1(1) assms(2)])
  have "reservations s1 = reservations s" using e(1) by (rule change_default_Inr) (simp add: transition_frame)
  then show ?case using Cons.IH [OF s1(2)] e(2) by (simp add: held_def)
qed simp

text \<open>The change of one default.\<close>

lemma default_step:
  assumes ch: "change_default c entry t s = Inr s'" and entry: "GetModuleCatalogue (xm_OrgID c) (xt_ModuleUUID t) s = Inr entry"
    and inv: "catalogue_inv s" and d: "d \<in> set (definitions s)" "d_org_id d = xm_OrgID c" "d_uuid d = xt_ModuleUUID t"
  shows "catalogue_inv s'" "promoted (xm_OrgID c) t s'" "d_current_default_version_uuid d = xt_ExpectedDefaultUUID t"
    "\<forall>x \<in> set (definitions s). d_uuid x \<noteq> xt_ModuleUUID t \<longrightarrow> x \<in> set (definitions s')"
    "\<forall>v \<in> set (definition_versions s). \<exists>w \<in> set (definition_versions s'). version_frozen v w"
proof -
  let ?org = "xm_OrgID c" and ?m = "xt_ModuleUUID t"
  obtain e1 where e1: "find (module_matches ?org ?m) (definitions s) = Some e1" "entry = scanModuleCatalogue e1"
    using entry by (auto simp: GetModuleCatalogue_Inr)
  have "e1 = d" using module_unique [of "definitions s" "definition_versions s" e1 d ?org ?m] find_in_set [OF e1(1)] inv d
    by (simp add: catalogue_inv_def module_matches_def)
  then have cur: "d_current_default_version_uuid d = mc_CurrentDefaultVersionUUID entry" using e1(2) by (simp add: scanModuleCatalogue_def)
  obtain version u e where x: "mc_CurrentDefaultVersionUUID entry = xt_ExpectedDefaultUUID t"
    "GetCoreModuleVersion ?org ?m (xt_VersionUUID t) s = Inr version" "cv_LifecycleStatus version \<noteq> LifecycleDefault"
    and t: "TransitionCoreModuleVersion ?org ?m (xt_VersionUUID t) LifecycleDefault e (xm_ActorID c) (xm_Reason c) (Some (xm_OperationID c)) s
      = Inr (u, s')" by (rule change_default_Inr [OF ch])
  obtain d' v where d': "d' \<in> set (definitions s')" "d_org_id d' = ?org" "d_uuid d' = ?m"
    "d_previous_default_version_uuid d' = d_current_default_version_uuid d" "d_current_default_version_uuid d' = Some (v_uuid v)"
    and v: "v \<in> set (definition_versions s')" "v_org_id v = ?org" "v_module_uuid v = ?m"
    "v_uuid v = xt_VersionUUID t \<or> v_semantic_version v = Some (xt_VersionUUID t) \<or> v_version_id v = xt_VersionUUID t"
    and others: "\<forall>x \<in> set (definitions s). d_uuid x \<noteq> ?m \<longrightarrow> x \<in> set (definitions s')"
    by (rule transition_default [OF t inv d x(2,3)])
  show "catalogue_inv s'" by (rule transition_preserves(1) [OF inv t])
  show "d_current_default_version_uuid d = xt_ExpectedDefaultUUID t" using cur x(1) by simp
  show "promoted ?org t s'" unfolding promoted_def using d' v cur x(1) by (intro bexI [OF _ d'(1)] bexI [OF _ v(1)] conjI) simp_all
  show "\<forall>v \<in> set (definition_versions s). \<exists>w \<in> set (definition_versions s'). version_frozen v w"
    using transition_preserves(2) [OF inv t] version_step_frozen by blast
  show "\<forall>x \<in> set (definitions s). d_uuid x \<noteq> ?m \<longrightarrow> x \<in> set (definitions s')" by (rule others)
qed

text \<open>What the loop over the targets achieves.\<close>

definition expects :: "ExternalModuleTarget \<Rightarrow> db \<Rightarrow> bool" where
  "expects t s \<longleftrightarrow> (\<exists>d \<in> set (definitions s). d_uuid d = xt_ModuleUUID t \<and> d_current_default_version_uuid d = xt_ExpectedDefaultUUID t)"

definition has_module :: "string \<Rightarrow> db \<Rightarrow> ExternalModuleTarget \<Rightarrow> bool" where
  "has_module org s t \<longleftrightarrow> (\<exists>d \<in> set (definitions s). d_org_id d = org \<and> d_uuid d = xt_ModuleUUID t)"

lemma expects_back:
  assumes "expects t s'" "has_module org s t" "xt_ModuleUUID t \<noteq> m" "catalogue_inv s'"
    "\<forall>x \<in> set (definitions s). d_uuid x \<noteq> m \<longrightarrow> x \<in> set (definitions s')"
  shows "expects t s"
proof -
  obtain z where z: "z \<in> set (definitions s)" "d_uuid z = xt_ModuleUUID t" using assms(2) by (auto simp: has_module_def)
  obtain d where d: "d \<in> set (definitions s')" "d_uuid d = xt_ModuleUUID t" "d_current_default_version_uuid d = xt_ExpectedDefaultUUID t"
    using assms(1) by (auto simp: expects_def)
  have "z \<in> set (definitions s')" using assms(3,5) z by simp
  then have "z = d" using unique_key_eq [of d_uuid "definitions s'" z d] assms(4) d(1,2) z(2) by (simp add: catalogue_inv_def catalogue_ok_def)
  then show ?thesis using z d(3) by (auto simp: expects_def)
qed

lemma defaults_changed:
  assumes "try_fold (apply_target derive fresh now c fence False) ts s = Inr s'" "xm_Action c \<in> {''promote'', ''restore''}"
    and "distinct (map xt_ModuleUUID ts)" "catalogue_inv s" "\<forall>t \<in> set ts. has_module (xm_OrgID c) s t"
  shows "(\<forall>t \<in> set ts. promoted (xm_OrgID c) t s' \<and> expects t s)
     \<and> (\<forall>x \<in> set (definitions s). d_uuid x \<notin> xt_ModuleUUID ` set ts \<longrightarrow> x \<in> set (definitions s'))
     \<and> (\<forall>v \<in> set (definition_versions s). \<exists>w \<in> set (definition_versions s'). version_frozen v w)"
  using assms(1,3-5)
proof (induction ts arbitrary: s)
  case Nil
  then show ?case by (auto simp: version_frozen_def)
next
  case (Cons t ts)
  let ?org = "xm_OrgID c" and ?m = "xt_ModuleUUID t"
  obtain s1 where s1: "apply_target derive fresh now c fence False t s = Inr s1"
    "try_fold (apply_target derive fresh now c fence False) ts s1 = Inr s'" using Cons.prems(1) by (auto split: sum.splits)
  obtain entry where entry: "GetModuleCatalogue ?org ?m s = Inr entry" and ch: "change_default c entry t s = Inr s1"
    by (rule apply_default [OF s1(1) assms(2)])
  obtain d where d: "d \<in> set (definitions s)" "d_org_id d = ?org" "d_uuid d = ?m" using Cons.prems(4) by (auto simp: has_module_def)
  note st = default_step [OF ch entry Cons.prems(3) d]
  have ids: "?m \<notin> xt_ModuleUUID ` set ts" "distinct (map xt_ModuleUUID ts)" using Cons.prems(2) by simp_all
  have ne: "xt_ModuleUUID y \<noteq> ?m" if "y \<in> set ts" for y using ids(1) that by (metis imageI)
  have "has_module ?org s1 y" if y: "y \<in> set ts" for y
    using Cons.prems(4) y st(4) ne [OF y] unfolding has_module_def by (metis list.set_intros(2))
  then have IH: "\<forall>y \<in> set ts. promoted ?org y s' \<and> expects y s1"
    "\<forall>x \<in> set (definitions s1). d_uuid x \<notin> xt_ModuleUUID ` set ts \<longrightarrow> x \<in> set (definitions s')"
    "\<forall>v \<in> set (definition_versions s1). \<exists>w \<in> set (definition_versions s'). version_frozen v w"
    using Cons.IH [OF s1(2) ids(2) st(1)] by simp_all
  have "promoted ?org t s'" by (rule promoted_keep [OF st(2) IH(2) ids(1) IH(3)])
  moreover have "expects t s" using d(1,3) st(3) by (auto simp: expects_def)
  moreover have "expects y s" if y: "y \<in> set ts" for y
    using expects_back [of y s1 ?org s, OF _ _ ne [OF y] st(1,4)] IH(1) Cons.prems(4) y by simp
  moreover have "\<exists>w \<in> set (definition_versions s'). version_frozen v w" if "v \<in> set (definition_versions s)" for v
    using st(5) IH(3) that unfolding version_frozen_def by metis
  ultimately show ?case using IH(1,2) st(4) by auto
qed
lemma sorted_targets_Some:
  assumes "sorted_targets c = Some targets"
  shows "set targets = set (xm_Targets c)" "distinct (map xt_ModuleUUID targets)"
  using assms by (auto simp: sorted_targets_def Let_def split: if_splits)

section \<open>A plugin that promotes a version\<close>

definition example_module_command :: "string \<Rightarrow> ExternalModuleCommand" where
  "example_module_command action = \<lparr>xm_OrgID = ''acme'', xm_PluginID = ''com.acme'', xm_OperationID = ''op1'', xm_ActorID = ''alice'',
     xm_RequestID = ''r1'', xm_Action = action, xm_ExpectedFence = 1, xm_GrantFence = 0, xm_Reason = ''ship'',
     xm_Targets = [\<lparr>xt_ModuleUUID = ''m1'', xt_VersionUUID = ''h2'', xt_ExpectedDefaultUUID = Some ''h1'', xt_ExpectedResourceVersion = 1\<rparr>],
     xm_SafetyReserve = False\<rparr>"

definition example_operation_db :: db where
  "example_operation_db = example_catalogue_db\<lparr>
     reservations := [\<lparr>mr_ID = ''x1'', mr_OrgID = ''acme'', mr_ModuleUUID = ''m1'', mr_Namespace = ''com.acme'', mr_OperationID = ''op1'',
       mr_RelatedResourceID = ''op1'', mr_Reason = ''ship'', mr_ResourceVersion = 1, mr_AcquiredBy = ''alice'', mr_AcquiredAt = 3,
       mr_ReleasedBy = None, mr_ReleasedAt = None, mr_ReleaseReason = ''''\<rparr>],
     module_operations := [\<lparr>eo_org_id = ''acme'', eo_plugin_id = ''com.acme'', eo_operation_id = ''op1'', eo_fence = 1, eo_state = ''active'',
       eo_module_uuids = [''m1'']\<rparr>]\<rparr>"

lemma example_operation_inv: "catalogue_inv example_operation_db" "reservations_inv example_operation_db"
proof -
  show "catalogue_inv example_operation_db"
    using example_catalogue_inv by (simp add: catalogue_inv_def example_operation_db_def)
  show "reservations_inv example_operation_db"
    by (simp add: reservations_inv_def example_operation_db_def example_catalogue_db_def module_active_def keys_unique_def)
qed

lemma example_target_applied:
  "\<exists>s'. apply_target (\<lambda>a b. a) id 7 (example_module_command ''promote'') 1 False
     \<lparr>xt_ModuleUUID = ''m1'', xt_VersionUUID = ''h2'', xt_ExpectedDefaultUUID = Some ''h1'', xt_ExpectedResourceVersion = 1\<rparr>
     example_operation_db = Inr s' \<and> module_receipts s' = [] \<and> module_operations s' = module_operations example_operation_db"
proof -
  let ?t = "\<lparr>xt_ModuleUUID = ''m1'', xt_VersionUUID = ''h2'', xt_ExpectedDefaultUUID = Some ''h1'', xt_ExpectedResourceVersion = 1\<rparr>"
  have "\<exists>u s'. TransitionCoreModuleVersion ''acme'' ''m1'' ''h2'' LifecycleDefault 1 ''alice'' ''ship'' (Some ''op1'') example_operation_db = Inr (u, s')"
    by (simp add: catalogue_eval example_parse example_compare example_reason Let_def example_operation_db_def) (simp add: version_of_def)
  then obtain u s' where t: "TransitionCoreModuleVersion ''acme'' ''m1'' ''h2'' LifecycleDefault 1 ''alice'' ''ship'' (Some ''op1'')
      example_operation_db = Inr (u, s')" by metis
  have "apply_target (\<lambda>a b. a) id 7 (example_module_command ''promote'') 1 False ?t example_operation_db = Inr s'"
    using t by (simp add: apply_target_def example_module_command_def change_default_def reservation_identity_def holds_reservation_def
        ListModuleOperationReservations_def GetModuleCatalogue_def GetCoreModuleVersion_def module_matches_def version_matches_def
        in_module_def scanModuleCatalogue_def scanCoreModuleVersion_def sameOptionalUUID_def Let_def
        example_operation_db_def example_catalogue_db_def example_version_def)
  moreover have "module_receipts example_operation_db = []"
    by (simp add: example_operation_db_def example_catalogue_db_def example_types_db_def empty_db_def)
  ultimately show ?thesis using transition_frame [OF t] by (auto simp: operations_kept_def)
qed

lemma example_promote:
  "\<exists>r s'. ApplyExternalModuleOperation xm_RequestID (\<lambda>a b. a) id 7 (example_module_command ''promote'') example_operation_db = Inr (r, s')"
  "find (module_request (example_module_command ''promote'')) (module_receipts example_operation_db) = None"
proof -
  let ?c = "example_module_command ''promote''"
  have f: "module_receipts example_operation_db = []"
    by (simp add: example_operation_db_def example_catalogue_db_def example_types_db_def empty_db_def)
  then show "find (module_request ?c) (module_receipts example_operation_db) = None" by simp
  have v: "validate_module_command ?c = None" using example_reason example_identity
    by (simp add: validate_module_command_def example_module_command_def Nil_uuid_def)
  let ?t = "\<lparr>xt_ModuleUUID = ''m1'', xt_VersionUUID = ''h2'', xt_ExpectedDefaultUUID = Some ''h1'', xt_ExpectedResourceVersion = 1\<rparr>"
  have ts: "sorted_targets ?c = Some [?t]" by (simp add: sorted_targets_def example_module_command_def Nil_uuid_def)
  have same: "?c\<lparr>xm_Targets := [?t]\<rparr> = ?c" by (simp add: example_module_command_def)
  have op: "open_operation ?c [''m1''] example_operation_db = Inr (1, ''active'', False, example_operation_db)"
    by (simp add: open_operation_def example_operation_db_def operation_at_def example_module_command_def)
  obtain s' where "apply_target (\<lambda>a b. a) id 7 ?c 1 False ?t example_operation_db = Inr s'" "module_receipts s' = []"
    using example_target_applied by metis
  then show "\<exists>r s'. ApplyExternalModuleOperation xm_RequestID (\<lambda>a b. a) id 7 ?c example_operation_db = Inr (r, s')"
    by (simp add: ApplyExternalModuleOperation_def v ts same Let_def check_module_grant_def f op finish_operation_def
        insert_row.simps module_receipts_constraints_def violates_def example_module_command_def [THEN arg_cong, of xm_GrantFence]
        example_module_command_def [THEN arg_cong, of xm_Action] example_module_command_def [THEN arg_cong, of xm_SafetyReserve])
qed

section \<open>Properties\<close>

text \<open>
  C29. Bulk changes of defaults by a plugin are atomic and fenced. When a promotion or restoration is applied
  for the first time, the operation is active at the fence that the command names, it holds the unreleased
  reservation of that fence on every target module, and the default of every target was the one the command
  expects; afterwards every target version is the default of its module, which remembers the expected one as
  its previous default. Every other module, and every reservation, is left alone.
\<close>

theorem external_defaults_atomic:
  assumes "ApplyExternalModuleOperation digest derive fresh now c s = Inr (r, s')" "xm_Action c \<in> {''promote'', ''restore''}"
    "find (module_request c) (module_receipts s) = None" "catalogue_inv s" "reservations_inv s"
  shows "(\<exists>o1 \<in> set (module_operations s). operation_at (xm_OrgID c) (xm_PluginID c) (xm_OperationID c) o1
       \<and> eo_fence o1 = xm_ExpectedFence c \<and> eo_state o1 = ''active'')
    \<and> (\<forall>t \<in> set (xm_Targets c). held derive c (xm_ExpectedFence c) t s \<and> expects t s \<and> promoted (xm_OrgID c) t s')
    \<and> (\<forall>d \<in> set (definitions s). d_uuid d \<notin> xt_ModuleUUID ` set (xm_Targets c) \<longrightarrow> d \<in> set (definitions s'))
    \<and> reservations s' = reservations s"
  using assms(1)
proof (cases rule: apply_module_Inr)
  case (1 targets row)
  then show ?thesis using assms(3) by simp
next
  case (2 targets fence state retain s1 s2)
  let ?c = "c\<lparr>xm_Targets := targets\<rparr>"
  note op = open_operation_Inr [OF 2(3)] and ts = sorted_targets_Some [OF 2(1)]
  have ne: "xm_Action c \<noteq> ''reserve''" "xm_Action ?c \<in> {''promote'', ''restore''}" using assms(2) by auto
  have s1: "s1 = s" "fence = xm_ExpectedFence c" "\<not> retain" using op ne(1) by auto
  then have fold: "try_fold (apply_target derive fresh now ?c fence False) targets s = Inr s2" using 2(5) by simp
  note h = defaults_held [OF fold ne(2)]
  have held: "held derive c fence t s" if "t \<in> set targets" for t
    using h that by (auto simp: held_def holds_reservation_def reservation_identity_def)
  then have "has_module (xm_OrgID ?c) s t" if "t \<in> set targets" for t
    using that assms(5) by (fastforce simp: held_def has_module_def reservations_inv_def module_active_def)
  then have ch: "\<forall>t \<in> set targets. promoted (xm_OrgID c) t s2 \<and> expects t s"
    "\<forall>x \<in> set (definitions s). d_uuid x \<notin> xt_ModuleUUID ` set targets \<longrightarrow> x \<in> set (definitions s2)"
    using defaults_changed [OF fold ne(2) ts(2) assms(4)] by simp_all
  have "reservations s' = reservations s2 \<and> definitions s' = definitions s2 \<and> definition_versions s' = definition_versions s2"
    using 2(6) by (rule finish_Inr) simp
  moreover have "state = ''active''" using 2(4) ne(1) by simp
  ultimately show ?thesis using op ne(1) s1(2) held ch h ts(1) by (auto simp: promoted_def)
qed

theorem external_defaults_atomic_witness:
  "\<exists>r s'. ApplyExternalModuleOperation xm_RequestID (\<lambda>a b. a) id 7 (example_module_command ''promote'') example_operation_db = Inr (r, s')
     \<and> (\<forall>t \<in> set (xm_Targets (example_module_command ''promote'')). promoted ''acme'' t s')"
proof -
  let ?c = "example_module_command ''promote''"
  obtain r s' where a: "ApplyExternalModuleOperation xm_RequestID (\<lambda>a b. a) id 7 ?c example_operation_db = Inr (r, s')"
    using example_promote(1) by metis
  have "xm_Action ?c \<in> {''promote'', ''restore''}" "xm_OrgID ?c = ''acme''" by (simp_all add: example_module_command_def)
  with external_defaults_atomic [OF a this(1) example_promote(2) example_operation_inv] a show ?thesis by metis
qed

text \<open>
  A command of a plugin on modules takes effect at most once: whatever happens in between, and however
  the clock and the drawn identifiers differ, delivering it again is refused or returns the receipt of the
  first delivery, and changes nothing.
\<close>

theorem module_command_once:
  assumes "ApplyExternalModuleOperation digest derive fresh now c s = Inr (r, s')" "(module_operation_step digest derive)\<^sup>*\<^sup>* s' t"
    "ApplyExternalModuleOperation digest derive fresh' now' c t = Inr (r', t')"
  shows "r' = r \<and> t' = t"
proof (rule module_command.once)
  show "module_run digest derive (fresh, now, c) s = Some (r, s')" "module_run digest derive (fresh', now', c) t = Some (r', t')"
    using assms(1,3) by (simp_all add: module_run_def)
  show "module_recorded digest (fresh', now', c) = module_recorded digest (fresh, now, c)" by (simp add: module_recorded_def fun_eq_iff)
qed (rule assms(2))

theorem module_command_once_witness:
  "\<exists>r t. ApplyExternalModuleOperation xm_RequestID (\<lambda>a b. a) id 7 (example_module_command ''promote'') example_operation_db = Inr (r, t)
     \<and> ApplyExternalModuleOperation xm_RequestID (\<lambda>a b. a) id 9 (example_module_command ''promote'') t = Inr (r, t)"
proof -
  let ?c = "example_module_command ''promote''"
  obtain r t where a: "ApplyExternalModuleOperation xm_RequestID (\<lambda>a b. a) id 7 ?c example_operation_db = Inr (r, t)"
    using example_promote(1) by metis
  have "xm_GrantFence ?c \<le> 0" by (simp add: example_module_command_def)
  from module_retry [OF a this] have b: "ApplyExternalModuleOperation xm_RequestID (\<lambda>a b. a) id 9 ?c t = Inr (r, t)" .
  show ?thesis using a b module_command_once [OF a rtranclp.rtrancl_refl b] by metis
qed

end
