(* ===== verification/Dispatch.thy ===== *)
theory Dispatch
  imports Grants
begin

text \<open>
  Dispatches of delegated operations (\<^verbatim>\<open>internal/model/external_operation_dispatch.go\<close> and
  \<^verbatim>\<open>external_dispatch_recovery.go\<close>, migrations 34 and 35): one remote effect on an environment, bound to a
  revision of the grant of its operation. A dispatch is active until it is withdrawn, and closes its
  environment until it is settled by authoritative evidence.

  The intent of a dispatch is stored as JSON with \<^verbatim>\<open>omitempty\<close>, so an empty map comes back as nil. A loop
  over a Go map visits the entries in an unspecified order; the model takes the order of the association
  list. \<open>parse_uuid\<close> is \<^verbatim>\<open>uuid.Parse\<close>.
\<close>

section \<open>Stored intents\<close>

definition omit_empty :: "uuid_map option \<Rightarrow> uuid_map option" where
  "omit_empty m = (if map_entries m = [] then None else m)"

definition stored_dispatch :: "ExternalDispatch \<Rightarrow> ExternalDispatch" where
  "stored_dispatch d = d\<lparr>ed_TargetVersions := omit_empty (ed_TargetVersions d), ed_ApprovedPins := omit_empty (ed_ApprovedPins d)\<rparr>"

text \<open>\<^verbatim>\<open>reflect.DeepEqual\<close> of two dispatches.\<close>

definition same_dispatch :: "ExternalDispatch \<Rightarrow> ExternalDispatch \<Rightarrow> bool" where
  "same_dispatch a b \<longleftrightarrow>
     a\<lparr>ed_TargetVersions := None, ed_ApprovedPins := None\<rparr> = b\<lparr>ed_TargetVersions := None, ed_ApprovedPins := None\<rparr>
     \<and> map_equal (ed_TargetVersions a) (ed_TargetVersions b) \<and> map_equal (ed_ApprovedPins a) (ed_ApprovedPins b)"

definition dispatch_at :: "string \<Rightarrow> string \<Rightarrow> uuid \<Rightarrow> string \<Rightarrow> dispatch_row \<Rightarrow> bool" where
  "dispatch_at org plugin operation i r \<longleftrightarrow>
     ed_OrgID (di_intent r) = org \<and> ed_PluginID (di_intent r) = plugin \<and> ed_OperationID (di_intent r) = operation
     \<and> ed_DispatchID (di_intent r) = i"

definition GetExternalDispatch :: "string \<Rightarrow> string \<Rightarrow> uuid \<Rightarrow> string \<Rightarrow> db \<Rightarrow> ExternalDispatch result" where
  "GetExternalDispatch org plugin operation i s =
     require_some ErrNoRows (map_option di_intent (find (dispatch_at org plugin operation i) (dispatches s)))"

section \<open>Validation\<close>

definition validateExternalDispatchScope :: "ExternalOperationGrant \<Rightarrow> ExternalDispatch \<Rightarrow> model_error option" where
  "validateExternalDispatchScope grant d =
     (if ed_Fence d \<le> 0 \<or> ed_Fence d > gr_Revision grant
      then Some (NewErrConflict ''dispatch original fence differs from the frozen operation'')
      else if \<not> List.member (oi_Actions (gr_Intent grant)) (ed_Action d)
      then Some (NewErrConflict ''action is outside the frozen operation grant'')
      else if ed_EnvironmentUUID d = Nil_uuid
        \<or> \<not> List.member (oi_Environments (gr_Intent grant)) \<lparr>oe_ProjectID = ed_ProjectUUID d, oe_EnvironmentID = ed_EnvironmentUUID d\<rparr>
      then Some (NewErrConflict ''environment is outside the frozen operation grant'')
      else if ed_DispatchID d = '''' \<or> length (ed_DispatchID d) > 128 \<or> length (ed_RequestDigest d) \<noteq> 64
      then Some (NewErrBadRequest ''dispatch identity and exact SHA256 request digest are required'')
      else if \<not> list_all is_lower_hex (ed_RequestDigest d)
      then Some (NewErrBadRequest ''request digest must be lowercase SHA256'')
      else None)"

definition validateExternalDispatch :: "ExternalOperationGrant \<Rightarrow> ExternalDispatch \<Rightarrow> model_error option" where
  "validateExternalDispatch grant d =
     (if gr_State grant \<noteq> ''active'' \<or> gr_Revision grant \<noteq> ed_Fence d \<or> gr_ActorID grant \<noteq> ed_ActorID d
      then Some (NewErrConflict ''operation is not active at the requested actor and fence'')
      else validateExternalDispatchScope grant d)"

definition check_target :: "(string \<Rightarrow> uuid option) \<Rightarrow> ExternalOperationGrant \<Rightarrow> ExternalDispatch \<Rightarrow> string \<times> uuid \<Rightarrow> model_error option" where
  "check_target parse_uuid grant d = (\<lambda>(moduleRef, version).
     if (case parse_uuid moduleRef of
           None \<Rightarrow> True
         | Some m \<Rightarrow> m = Nil_uuid \<or> version = Nil_uuid \<or> \<not> List.member (oi_Modules (gr_Intent grant)) m)
     then Some (NewErrConflict ''dispatch Module is outside the frozen grant'')
     else if ed_Action d = ''external-deployment.admit'' \<and> map_at (Some (oi_TargetVersions (gr_Intent grant))) moduleRef \<noteq> version
     then Some (NewErrConflict ''dispatch target differs from the frozen Module Version'')
     else None)"

definition validateExternalDispatchTargets ::
  "(string \<Rightarrow> uuid option) \<Rightarrow> ExternalOperationGrant \<Rightarrow> ExternalDispatch \<Rightarrow> model_error option" where
  "validateExternalDispatchTargets parse_uuid grant d =
     (let targets = map_entries (ed_TargetVersions d) in
      if targets = [] \<or> length targets > 1000
      then Some (NewErrBadRequest ''dispatch requires exact Module target identities'')
      else first_failure (check_target parse_uuid grant d) targets)"

text \<open>The latest activation of a pin of each module in the environment, by the sequence of the events.\<close>

definition pin_boundaries :: "string \<Rightarrow> uuid \<Rightarrow> db \<Rightarrow> uuid_map" where
  "pin_boundaries org environment s =
     concat (map (\<lambda>e. map (\<lambda>p. (pn_ModuleUUID p, pn_ActivationEventID p))
       (filter (\<lambda>p. pn_OrgID p = org \<and> pn_EnvironmentUUID p = environment \<and> pn_ActivationEventID p = pe_ID e) (pins s)))
       (rev (pin_events s)))"

definition blocks_dispatch :: "ExternalDispatch \<Rightarrow> uuid \<Rightarrow> uuid \<Rightarrow> EnvironmentModuleVersionPin \<Rightarrow> bool" where
  "blocks_dispatch d m version p \<longleftrightarrow>
     pn_ModuleUUID p = m \<and> pn_Status p \<noteq> PinRemoved \<and> pn_Status p \<noteq> PinOverridden \<and> pn_VersionUUID p \<noteq> version
     \<and> (pn_Status p \<noteq> PinOverridePending \<or> pn_OverrideOperationID p \<noteq> Some (ed_OperationID d)
        \<or> pn_OverrideTargetVersionUUID p \<noteq> Some version)"

definition check_target_pins ::
  "(string \<Rightarrow> uuid option) \<Rightarrow> ExternalDispatch \<Rightarrow> uuid_map \<Rightarrow> EnvironmentModuleVersionPin list \<Rightarrow> string \<times> uuid \<Rightarrow> model_error option" where
  "check_target_pins parse_uuid d boundaries found = (\<lambda>(moduleRef, version).
     case parse_uuid moduleRef of
       None \<Rightarrow> Some (ErrInternal ''uuid: Parse'')
     | Some m \<Rightarrow>
       if (case ed_ApprovedPins d of
             None \<Rightarrow> False
           | Some approved \<Rightarrow> map_of approved moduleRef \<noteq> Some (map_at (Some boundaries) moduleRef))
       then Some (NewErrConflict ''approval predates the latest Pin activation boundary'')
       else if list_ex (blocks_dispatch d m version) found
       then Some (NewErrConflict ''dispatch is blocked by an active Pin or changed approval activation boundary'')
       else None)"

definition validateExternalDispatchPins ::
  "(string \<Rightarrow> uuid option) \<Rightarrow> ExternalOperationGrant \<Rightarrow> ExternalDispatch \<Rightarrow> db \<Rightarrow> model_error option" where
  "validateExternalDispatchPins parse_uuid grant d s =
     (case validateExternalDispatchTargets parse_uuid grant d of
        Some e \<Rightarrow> Some e
      | None \<Rightarrow>
        first_failure
          (check_target_pins parse_uuid d (pin_boundaries (ed_OrgID d) (ed_EnvironmentUUID d) s)
             (ListEnvironmentModuleVersionPins (ed_OrgID d) (Some (ed_EnvironmentUUID d)) None False s))
          (map_entries (ed_TargetVersions d)))"

section \<open>Recording and checking\<close>

definition fail_some :: "model_error option \<Rightarrow> 'a result \<Rightarrow> 'a result" where
  "fail_some e k = (case e of Some x \<Rightarrow> Inl x | None \<Rightarrow> k)"

lemma fail_some_Inr [simp]: "fail_some e k = Inr x \<longleftrightarrow> e = None \<and> k = Inr x"
  by (auto simp: fail_some_def split: option.splits)

lemma fail_some_None [simp]: "fail_some None k = k" "fail_some (Some e) k = Inl e"
  by (simp_all add: fail_some_def)

definition dispatches_constraints :: "(dispatch_row, string list) constraint list" where
  "dispatches_constraints =
     [(''external_operation_dispatches_pkey'', \<lambda>r. Some [ed_OrgID (di_intent r), ed_PluginID (di_intent r), ed_OperationID (di_intent r),
         ed_DispatchID (di_intent r)])]"

text \<open>Advancing the epoch of the environment and inserting the dispatch.\<close>

definition insert_dispatch :: "ExternalDispatch \<Rightarrow> dispatch_state \<Rightarrow> db \<Rightarrow> db result" where
  "insert_dispatch d state s =
     (let (epoch, s1) = advanceEnvironmentAdmissionEpoch (ed_OrgID d) (ed_EnvironmentUUID d) s in
      try_then (insert_row dispatches_constraints \<lparr>di_intent = stored_dispatch d, di_state = state, di_completion = None\<rparr> (dispatches s1))
        (\<lambda>rows. Inr (s1\<lparr>dispatches := rows\<rparr>)))"

definition externalDispatchTransaction :: "(string \<Rightarrow> uuid option) \<Rightarrow> ExternalDispatch \<Rightarrow> bool \<Rightarrow> db \<Rightarrow> db result" where
  "externalDispatchTransaction parse_uuid d create s =
     try_then (readExternalGrant (ed_OrgID d) (ed_PluginID d) (ed_OperationID d) s) (\<lambda>grant.
     fail_some (validateExternalDispatch grant d)
    (case find (dispatch_at (ed_OrgID d) (ed_PluginID d) (ed_OperationID d) (ed_DispatchID d)) (dispatches s) of
       Some r \<Rightarrow>
         (let recorded = di_intent r;
              comparison = (if create then recorded else recorded\<lparr>ed_TargetVersions := None, ed_ApprovedPins := None, ed_Approval := None\<rparr>) in
          fail_if (\<not> same_dispatch comparison d) (NewErrConflict ''dispatch ID belongs to a different exact request'')
         (fail_if (di_state r \<noteq> DispatchActive)
            (NewErrConflict ''dispatch is withdrawn or settled; inspect its receipt without retrying execution'')
         (fail_some (validateExternalDispatchPins parse_uuid grant recorded s) (Inr s))))
     | None \<Rightarrow>
         fail_if (\<not> create) (NewErrConflict ''dispatch was not authorized by Core'')
        (try_then (checkExternalDispatchBarrier (ed_OrgID d) (ed_EnvironmentUUID d) s) (\<lambda>_.
         fail_some (validateExternalDispatchPins parse_uuid grant d s) (insert_dispatch d DispatchActive s)))))"

definition RecordExternalDispatch :: "(string \<Rightarrow> uuid option) \<Rightarrow> ExternalDispatch \<Rightarrow> db \<Rightarrow> db result" where
  "RecordExternalDispatch parse_uuid d s = externalDispatchTransaction parse_uuid d True s"

definition CheckExternalDispatch :: "(string \<Rightarrow> uuid option) \<Rightarrow> ExternalDispatch \<Rightarrow> db \<Rightarrow> db result" where
  "CheckExternalDispatch parse_uuid d s = externalDispatchTransaction parse_uuid d False s"

section \<open>Recovery\<close>

definition update_dispatch :: "string \<Rightarrow> string \<Rightarrow> uuid \<Rightarrow> string \<Rightarrow> (dispatch_row \<Rightarrow> dispatch_row) \<Rightarrow> db \<Rightarrow> db" where
  "update_dispatch org plugin operation i f s = s\<lparr>dispatches := upd_where (dispatch_at org plugin operation i) f (dispatches s)\<rparr>"

definition RecoverWithdrawnExternalDispatch :: "(string \<Rightarrow> uuid option) \<Rightarrow> ExternalDispatch \<Rightarrow> int \<Rightarrow> db \<Rightarrow> db result" where
  "RecoverWithdrawnExternalDispatch parse_uuid d currentFence s =
     try_then (readExternalGrant (ed_OrgID d) (ed_PluginID d) (ed_OperationID d) s) (\<lambda>grant.
     fail_if (gr_Revision grant \<noteq> currentFence) (NewErrConflict ''operation fence changed during dispatch recovery'')
    (fail_some (validateExternalDispatchScope grant d)
    (case find (dispatch_at (ed_OrgID d) (ed_PluginID d) (ed_OperationID d) (ed_DispatchID d)) (dispatches s) of
       Some r \<Rightarrow>
         fail_if (\<not> same_dispatch (di_intent r) d) (NewErrConflict ''dispatch ID belongs to a different exact request'')
        (Inr (if di_state r = DispatchActive
              then update_dispatch (ed_OrgID d) (ed_PluginID d) (ed_OperationID d) (ed_DispatchID d) (\<lambda>r. r\<lparr>di_state := DispatchWithdrawn\<rparr>) s
              else s))
     | None \<Rightarrow>
         fail_if (ed_ActorID d \<noteq> gr_ActorID grant) (NewErrConflict ''missing dispatch must bind the current authorized actor'')
        (fail_some (validateExternalDispatchTargets parse_uuid grant d) (insert_dispatch d DispatchWithdrawn s)))))"

definition completion_refused :: "ExternalDispatch \<Rightarrow> dispatch_state \<Rightarrow> ExternalDispatchCompletion \<Rightarrow> model_error option" where
  "completion_refused d state evidence =
     (if co_EnvironmentUUID evidence \<noteq> ed_EnvironmentUUID d \<or> co_ProjectUUID evidence \<noteq> ed_ProjectUUID d
        \<or> co_RequestDigest evidence \<noteq> ed_RequestDigest d
      then Some (NewErrConflict ''dispatch completion evidence belongs to another exact request'')
      else if co_NoEffect evidence
      then (if state \<noteq> DispatchWithdrawn \<and> state \<noteq> DispatchSettled \<or> co_DeploymentID evidence \<noteq> Nil_uuid \<or> co_Status evidence \<noteq> ''''
            then Some (NewErrConflict ''no-effect completion requires a withdrawn dispatch and authoritative absence'') else None)
      else if co_DeploymentID evidence = Nil_uuid
        \<or> \<not> List.member [''succeeded'', ''failed'', ''cancelled'', ''terminated''] (co_Status evidence)
      then Some (NewErrConflict ''dispatch has no authoritative terminal Deployment outcome'')
      else None)"

definition updateExternalDispatchRecovery ::
  "string \<Rightarrow> string \<Rightarrow> uuid \<Rightarrow> string \<Rightarrow> ExternalDispatchCompletion option \<Rightarrow> db \<Rightarrow> db result" where
  "updateExternalDispatchRecovery org plugin operation i evidence s =
     try_then (require_some ErrNoRows (find (dispatch_at org plugin operation i) (dispatches s))) (\<lambda>r.
     case evidence of
       None \<Rightarrow>
         Inr (if di_state r = DispatchActive
              then update_dispatch org plugin operation i (\<lambda>r. r\<lparr>di_state := DispatchWithdrawn\<rparr>) s else s)
     | Some ev \<Rightarrow>
         if di_state r = DispatchSettled
         then fail_if (di_completion r \<noteq> Some ev) (NewErrConflict ''dispatch completion is immutable'') (Inr s)
         else fail_some (completion_refused (di_intent r) (di_state r) ev)
           (Inr (update_dispatch org plugin operation i (\<lambda>r. r\<lparr>di_state := DispatchSettled, di_completion := Some ev\<rparr>) s)))"

definition WithdrawExternalDispatch :: "string \<Rightarrow> string \<Rightarrow> uuid \<Rightarrow> string \<Rightarrow> db \<Rightarrow> db result" where
  "WithdrawExternalDispatch org plugin operation i s = updateExternalDispatchRecovery org plugin operation i None s"

definition CompleteExternalDispatch ::
  "string \<Rightarrow> string \<Rightarrow> uuid \<Rightarrow> string \<Rightarrow> ExternalDispatchCompletion \<Rightarrow> db \<Rightarrow> db result" where
  "CompleteExternalDispatch org plugin operation i evidence s =
     updateExternalDispatchRecovery org plugin operation i (Some evidence) s"

end
