(* ===== verification/Delivery.thy ===== *)
theory Delivery
  imports Dispatch
begin

text \<open>
  Ordinary admissions, delegated dispatches and version pins meet in an environment. This theory composes
  them: whatever sequence of their operations runs (each under the advisory lock of its environment), at
  most one Deployment has authority over an environment, the versions pinned in it stay protected while
  a Deployment is unresolved, and the epoch of an environment reveals every admission.
\<close>

section \<open>Authorities\<close>

definition dispatch_key :: "dispatch_row \<Rightarrow> string \<times> string \<times> uuid \<times> string" where
  "dispatch_key r = (ed_OrgID (di_intent r), ed_PluginID (di_intent r), ed_OperationID (di_intent r), ed_DispatchID (di_intent r))"

definition dispatch_place :: "dispatch_row \<Rightarrow> string \<times> uuid" where
  "dispatch_place r = (ed_OrgID (di_intent r), ed_EnvironmentUUID (di_intent r))"

definition guard_place :: "admission_guard \<Rightarrow> string \<times> uuid" where
  "guard_place g = (ag_org_id g, ag_environment_uuid g)"

definition active_dispatch_key :: "dispatch_row \<Rightarrow> (string \<times> uuid) option" where
  "active_dispatch_key r = (if di_state r = DispatchActive then Some (dispatch_place r) else None)"

definition unresolved :: "db \<Rightarrow> admission_guard set" where
  "unresolved s = {g \<in> set (guards s). ag_outcome g = None}"

definition active :: "db \<Rightarrow> dispatch_row set" where
  "active s = {r \<in> set (dispatches s). di_state r = DispatchActive}"

definition exclusive :: "db \<Rightarrow> bool" where
  "exclusive s \<longleftrightarrow> keys_unique active_guard_key (guards s) \<and> keys_unique active_dispatch_key (dispatches s)
     \<and> (\<forall>g \<in> unresolved s. \<forall>r \<in> active s. guard_place g \<noteq> dispatch_place r)"

definition honoured :: "db \<Rightarrow> bool" where
  "honoured s \<longleftrightarrow> (\<forall>g \<in> unresolved s. \<forall>p \<in> set (pins s). honours (ag_intent g) p)"

definition delivery_inv :: "db \<Rightarrow> bool" where
  "delivery_inv s \<longleftrightarrow> admissions_inv s \<and> distinct (map pn_ID (pins s)) \<and> distinct (map dispatch_key (dispatches s))
     \<and> exclusive s \<and> honoured s"

text \<open>The admissions and dispatches that an environment has seen.\<close>

definition crossings :: "string \<Rightarrow> uuid \<Rightarrow> db \<Rightarrow> (string \<times> uuid) list \<times> (string \<times> string \<times> uuid \<times> string) list" where
  "crossings org environment s =
     (map guard_key (filter (\<lambda>g. guard_place g = (org, environment)) (guards s)),
      map dispatch_key (filter (\<lambda>r. dispatch_place r = (org, environment)) (dispatches s)))"

definition same_epochs :: "db \<Rightarrow> db \<Rightarrow> bool" where
  "same_epochs s s' \<longleftrightarrow> (\<forall>org environment. ReadEnvironmentAdmissionEpoch org environment s \<le> ReadEnvironmentAdmissionEpoch org environment s'
     \<and> (ReadEnvironmentAdmissionEpoch org environment s' = ReadEnvironmentAdmissionEpoch org environment s \<longrightarrow>
          crossings org environment s' = crossings org environment s))"

lemma barrier_places:
  "checkExternalDispatchBarrier org environment s = Inr () \<longleftrightarrow>
     (\<forall>r \<in> set (dispatches s). dispatch_place r = (org, environment) \<longrightarrow> di_state r = DispatchSettled)
     \<and> (\<forall>g \<in> unresolved s. guard_place g \<noteq> (org, environment))"
  by (auto simp: barrier_open_iff dispatch_place_def guard_place_def unresolved_def)

lemma dispatch_at_key: "dispatch_at org plugin operation i = (\<lambda>r. dispatch_key r = (org, plugin, operation, i))"
  by (auto simp: dispatch_at_def dispatch_key_def fun_eq_iff)

lemma admissions_inv_mono:
  assumes "admissions_inv s" "guards s' = guards s"
    "\<And>org environment. ReadEnvironmentAdmissionEpoch org environment s \<le> ReadEnvironmentAdmissionEpoch org environment s'"
  shows "admissions_inv s'"
  using assms unfolding admissions_inv_def guard_ok_def by (auto intro: order_trans)

lemma same_epochs_refl: "guards s' = guards s \<Longrightarrow> dispatches s' = dispatches s \<Longrightarrow> epochs s' = epochs s \<Longrightarrow> same_epochs s s'"
  by (simp add: same_epochs_def crossings_def ReadEnvironmentAdmissionEpoch_def)

definition delivers :: "db \<Rightarrow> db \<Rightarrow> bool" where
  "delivers s s' \<longleftrightarrow> delivery_inv s' \<and> same_epochs s s'"

lemma delivers_refl: "delivery_inv s \<Longrightarrow> delivers s s"
  by (simp add: delivers_def same_epochs_refl)

lemma same_epochs_trans:
  assumes "same_epochs s t" "same_epochs t u"
  shows "same_epochs s u"
  unfolding same_epochs_def
proof (intro allI)
  fix org environment
  let ?e = "ReadEnvironmentAdmissionEpoch org environment" and ?c = "crossings org environment"
  have "?e s \<le> ?e t" "?e t = ?e s \<longrightarrow> ?c t = ?c s" "?e t \<le> ?e u" "?e u = ?e t \<longrightarrow> ?c u = ?c t"
    using assms by (simp_all add: same_epochs_def)
  then show "?e s \<le> ?e u \<and> (?e u = ?e s \<longrightarrow> ?c u = ?c s)" by auto
qed

section \<open>Admissions\<close>

text \<open>An inserted guard: resolved, or admitted through the open barrier.\<close>

lemma insert_guard_delivery:
  assumes ins: "insert_guard a outcome s = Inr (receipt, s')" and inv: "delivery_inv s"
    and ok: "outcome = None \<Longrightarrow> checkExternalDispatchBarrier (da_OrgID a) (da_EnvironmentUUID a) s = Inr () \<and> (\<forall>p \<in> set (pins s). honours a p)"
  shows "delivers s s'"
proof -
  obtain n where g: "n = ReadEnvironmentAdmissionEpoch (da_OrgID a) (da_EnvironmentUUID a) s + 1"
    "guards s' = guards s @ [guard_for a n outcome]" "admissions_only s s'"
    "\<forall>org env. ReadEnvironmentAdmissionEpoch org env s' = (if org = da_OrgID a \<and> env = da_EnvironmentUUID a then n
       else ReadEnvironmentAdmissionEpoch org env s)"
    by (rule insert_guard_Inr [OF ins])
  have same: "pins s' = pins s" "dispatches s' = dispatches s" using admissions_only_same [OF g(3)] by simp_all
  have adm: "admissions_inv s'" using insert_guard_keeps(1) [OF ins] inv by (simp add: delivery_inv_def)
  have un: "x \<in> unresolved s \<or> x = guard_for a n None \<and> outcome = None" if "x \<in> unresolved s'" for x
    using that g(2) by (auto simp: unresolved_def)
  have act: "active s' = active s" by (simp add: active_def same)
  have place: "guard_place (guard_for a n None) = (da_OrgID a, da_EnvironmentUUID a)" by (simp add: guard_place_def)
  have "guard_place x \<noteq> dispatch_place r" if x: "x \<in> unresolved s'" and r: "r \<in> active s" for x r
    using un [OF x]
  proof
    assume "x \<in> unresolved s"
    then show ?thesis using inv r by (simp add: delivery_inv_def exclusive_def)
  next
    assume new: "x = guard_for a n None \<and> outcome = None"
    then have "dispatch_place r = (da_OrgID a, da_EnvironmentUUID a) \<longrightarrow> di_state r = DispatchSettled"
      using ok r by (auto simp: barrier_places active_def)
    then show ?thesis using r new place by (auto simp: active_def)
  qed
  then have "exclusive s'" using inv adm unfolding exclusive_def act by (simp add: delivery_inv_def exclusive_def same admissions_inv_def)
  moreover have "honours (ag_intent x) p" if "x \<in> unresolved s'" "p \<in> set (pins s)" for x p
    using un [OF that(1)] ok that(2) inv by (auto simp: delivery_inv_def honoured_def)
  then have "honoured s'" by (simp add: honoured_def same)
  ultimately have "delivery_inv s'" using inv adm by (simp add: delivery_inv_def same)
  moreover have "same_epochs s s'" using g(1,2,4) by (auto simp: same_epochs_def crossings_def same guard_place_def)
  ultimately show ?thesis by (simp add: delivers_def)
qed

lemma settle_guard_delivery:
  assumes "find (guard_at org i) (guards s) = Some g" "ag_outcome g = None" "delivery_inv s"
  shows "delivers s (settle_guard org i outcome s)"
proof -
  let ?s' = "settle_guard org i outcome s"
  have same: "pins ?s' = pins s" "dispatches ?s' = dispatches s" "epochs ?s' = epochs s" by (simp_all add: settle_guard_def)
  have adm: "admissions_inv ?s'" using settle_guard_keeps(1) [OF assms(1,2)] assms(3) by (simp add: delivery_inv_def)
  have un: "unresolved ?s' \<subseteq> unresolved s" by (auto simp: unresolved_def settle_guard_def in_upd_where)
  have act: "active ?s' = active s" by (simp add: active_def same)
  have "exclusive ?s'" using assms(3) adm un unfolding exclusive_def act
    by (auto simp: delivery_inv_def exclusive_def same admissions_inv_def)
  moreover have "honoured ?s'" using assms(3) un by (auto simp: delivery_inv_def honoured_def same)
  ultimately have "delivery_inv ?s'" using assms(3) adm by (simp add: delivery_inv_def same)
  moreover have "map guard_key (filter (\<lambda>g. guard_place g = k) (guards ?s')) = map guard_key (filter (\<lambda>g. guard_place g = k) (guards s))" for k
  proof -
    have "map guard_key (filter (\<lambda>g. guard_place g = k) (upd_where P (\<lambda>g. g\<lparr>ag_outcome := Some outcome\<rparr>) rows))
        = map guard_key (filter (\<lambda>g. guard_place g = k) rows)" for P rows
      by (induction rows) (auto simp: guard_key_def guard_place_def)
    then show ?thesis by (simp add: settle_guard_def)
  qed
  then have "same_epochs s ?s'" by (simp add: same_epochs_def crossings_def same ReadEnvironmentAdmissionEpoch_def)
  ultimately show ?thesis by (simp add: delivers_def)
qed

lemma authorize_delivery:
  assumes "AuthorizeDeploymentAdmission parse_uuid request policies s = Inr (receipt, s')" "delivery_inv s"
  shows "delivers s s'"
  using assms(1)
proof (cases rule: authorize_Inr)
  case (1 g)
  then show ?thesis using delivers_refl [OF assms(2)] by simp
next
  case 2
  show ?thesis by (rule insert_guard_delivery [OF 2(4) assms(2)]) (use 2(1) checks_Inr(2) [OF 2(2)] in simp_all)
qed

lemma settle_delivery:
  assumes "SettleDeploymentAdmission org i project environment digest outcome s = Inr (receipt, s')" "delivery_inv s"
  shows "delivers s s'"
  using assms(1) by (rule settle_Inr) (use assms(2) settle_guard_delivery delivers_refl in \<open>auto split: if_splits\<close>)

lemma seal_delivery:
  assumes "SealDeploymentAdmissionAbsence parse_uuid request s = Inr (receipt, s')" "delivery_inv s"
  shows "delivers s s'"
  using assms(1)
proof (cases rule: seal_Inr)
  case (1 g)
  then show ?thesis using assms(2) settle_guard_delivery delivers_refl by (auto split: if_splits)
next
  case 2
  show ?thesis by (rule insert_guard_delivery [OF 2(2) assms(2)]) simp
qed
section \<open>Dispatches\<close>

lemma stored_dispatch_fields [simp]:
  "ed_OrgID (stored_dispatch d) = ed_OrgID d" "ed_PluginID (stored_dispatch d) = ed_PluginID d"
  "ed_OperationID (stored_dispatch d) = ed_OperationID d" "ed_DispatchID (stored_dispatch d) = ed_DispatchID d"
  "ed_EnvironmentUUID (stored_dispatch d) = ed_EnvironmentUUID d" "ed_ProjectUUID (stored_dispatch d) = ed_ProjectUUID d"
  "ed_RequestDigest (stored_dispatch d) = ed_RequestDigest d" "ed_Fence (stored_dispatch d) = ed_Fence d"
  by (simp_all add: stored_dispatch_def)

lemma insert_dispatch_Inr:
  assumes "insert_dispatch d state s = Inr s'"
  obtains "dispatches s' = dispatches s @ [\<lparr>di_intent = stored_dispatch d, di_state = state, di_completion = None\<rparr>]"
    "(ed_OrgID d, ed_PluginID d, ed_OperationID d, ed_DispatchID d) \<notin> dispatch_key ` set (dispatches s)"
    "pins s' = pins s" "guards s' = guards s" "grants s' = grants s" "grant_commands s' = grant_commands s"
    "\<forall>org env. ReadEnvironmentAdmissionEpoch org env s' = ReadEnvironmentAdmissionEpoch org env s
       + (if org = ed_OrgID d \<and> env = ed_EnvironmentUUID d then 1 else 0)"
proof -
  obtain n t where t: "advanceEnvironmentAdmissionEpoch (ed_OrgID d) (ed_EnvironmentUUID d) s = (n, t)" by fastforce
  note ep = epoch_advance [OF t] and same = admissions_only_same [OF epoch_advance(3) [OF t]]
  obtain rows where r: "insert_row dispatches_constraints \<lparr>di_intent = stored_dispatch d, di_state = state, di_completion = None\<rparr> (dispatches t) = Inr rows"
    and out: "s' = t\<lparr>dispatches := rows\<rparr>"
    using assms by (auto simp: insert_dispatch_def t)
  have rows: "rows = dispatches s @ [\<lparr>di_intent = stored_dispatch d, di_state = state, di_completion = None\<rparr>]"
    "(ed_OrgID d, ed_PluginID d, ed_OperationID d, ed_DispatchID d) \<notin> dispatch_key ` set (dispatches s)"
    using r same by (auto simp: insert_row_Inr_iff dispatches_constraints_def violates_def list_ex_iff dispatch_key_def)
  have "ReadEnvironmentAdmissionEpoch org env s' = ReadEnvironmentAdmissionEpoch org env t" for org env
    using out by (simp add: ReadEnvironmentAdmissionEpoch_def)
  then show thesis using that rows same ep by (simp add: out)
qed

lemma insert_dispatch_delivery:
  assumes ins: "insert_dispatch d state s = Inr s'" and inv: "delivery_inv s"
    and ok: "state = DispatchActive \<Longrightarrow> checkExternalDispatchBarrier (ed_OrgID d) (ed_EnvironmentUUID d) s = Inr ()"
  shows "delivers s s'"
  using ins
proof (cases rule: insert_dispatch_Inr)
  case 1
  let ?r = "\<lparr>di_intent = stored_dispatch d, di_state = state, di_completion = None\<rparr>"
  have place: "dispatch_place \<lparr>di_intent = stored_dispatch d, di_state = x, di_completion = None\<rparr> = (ed_OrgID d, ed_EnvironmentUUID d)" for x
    by (simp add: dispatch_place_def)
  have un: "unresolved s' = unresolved s" by (simp add: unresolved_def 1)
  have barrier: "guard_place g \<noteq> dispatch_place ?r" if "state = DispatchActive" "g \<in> unresolved s" for g
    using ok [OF that(1)] that by (auto simp: barrier_places place)
  have free: "\<not> violates active_dispatch_key ?r (dispatches s)"
    using ok by (auto simp: barrier_places place violates_def active_dispatch_key_def list_ex_iff)
  have "guard_place g \<noteq> dispatch_place r" if "g \<in> unresolved s" "r \<in> active s'" for g r
    using that barrier inv 1(1) by (auto simp: active_def delivery_inv_def exclusive_def)
  then have "exclusive s'" using inv free by (simp add: exclusive_def un 1(1,4) delivery_inv_def keys_unique_snoc)
  moreover have "admissions_inv s'" by (rule admissions_inv_mono [OF _ 1(4)]) (use inv 1(7) in \<open>simp_all add: delivery_inv_def\<close>)
  moreover have "distinct (map dispatch_key (dispatches s'))" using inv 1(2) by (simp add: delivery_inv_def 1(1) dispatch_key_def [of ?r])
  ultimately have "delivery_inv s'" using inv by (simp add: delivery_inv_def honoured_def un 1(3))
  moreover have "same_epochs s s'" by (simp add: same_epochs_def crossings_def 1 dispatch_place_def)
  ultimately show ?thesis by (simp add: delivers_def)
qed

lemma update_dispatch_delivery:
  assumes inv: "delivery_inv s" and f: "\<And>r. di_intent (f r) = di_intent r" "\<And>r. di_state (f r) \<noteq> DispatchActive"
  shows "delivers s (update_dispatch org plugin operation i f s)"
proof -
  let ?s' = "update_dispatch org plugin operation i f s"
  have s': "dispatches ?s' = upd_where (dispatch_at org plugin operation i) f (dispatches s)" by (simp add: update_dispatch_def)
  have same: "pins ?s' = pins s" "guards ?s' = guards s" "epochs ?s' = epochs s" by (simp_all add: update_dispatch_def)
  have key: "dispatch_key (f r) = dispatch_key r" "dispatch_place (f r) = dispatch_place r" for r
    by (simp_all add: dispatch_key_def dispatch_place_def f(1))
  have act: "active ?s' \<subseteq> active s" unfolding active_def s' using f(2) by (auto simp: in_upd_where)
  have un: "unresolved ?s' = unresolved s" by (simp add: unresolved_def same)
  have "keys_unique active_dispatch_key (dispatches ?s')" unfolding s'
    by (rule keys_unique_release) (use inv f(2) in \<open>simp_all add: active_dispatch_key_def [of "f _"] delivery_inv_def exclusive_def\<close>)
  then have "exclusive ?s'" using inv act by (auto simp: exclusive_def delivery_inv_def same un)
  moreover have "map dispatch_key (dispatches ?s') = map dispatch_key (dispatches s)" unfolding s' by (rule map_upd_where) (rule key)
  moreover have "admissions_inv ?s'"
    by (rule admissions_inv_mono [OF _ same(2)]) (use inv in \<open>simp_all add: delivery_inv_def same ReadEnvironmentAdmissionEpoch_def\<close>)
  ultimately have "delivery_inv ?s'" using inv by (simp add: delivery_inv_def honoured_def un same)
  moreover have "map dispatch_key (filter (\<lambda>r. dispatch_place r = k) (upd_where P f rows))
      = map dispatch_key (filter (\<lambda>r. dispatch_place r = k) rows)" for k P rows
    by (induction rows) (auto simp: key)
  then have "same_epochs s ?s'" by (simp add: same_epochs_def crossings_def same s' ReadEnvironmentAdmissionEpoch_def)
  ultimately show ?thesis by (simp add: delivers_def)
qed

lemma transaction_Inr:
  assumes "externalDispatchTransaction parse_uuid d create s = Inr s'"
  obtains grant r where "readExternalGrant (ed_OrgID d) (ed_PluginID d) (ed_OperationID d) s = Inr grant" "validateExternalDispatch grant d = None"
      "find (dispatch_at (ed_OrgID d) (ed_PluginID d) (ed_OperationID d) (ed_DispatchID d)) (dispatches s) = Some r"
      "di_state r = DispatchActive" "validateExternalDispatchPins parse_uuid grant (di_intent r) s = None" "s' = s"
      "create \<longrightarrow> same_dispatch (di_intent r) d"
  | grant where "create" "readExternalGrant (ed_OrgID d) (ed_PluginID d) (ed_OperationID d) s = Inr grant" "validateExternalDispatch grant d = None"
      "find (dispatch_at (ed_OrgID d) (ed_PluginID d) (ed_OperationID d) (ed_DispatchID d)) (dispatches s) = None"
      "checkExternalDispatchBarrier (ed_OrgID d) (ed_EnvironmentUUID d) s = Inr ()"
      "validateExternalDispatchPins parse_uuid grant d s = None" "insert_dispatch d DispatchActive s = Inr s'"
proof -
  obtain grant where g: "readExternalGrant (ed_OrgID d) (ed_PluginID d) (ed_OperationID d) s = Inr grant"
    using assms by (auto simp: externalDispatchTransaction_def)
  have v: "validateExternalDispatch grant d = None" using assms g by (auto simp: externalDispatchTransaction_def)
  note a = assms [unfolded externalDispatchTransaction_def g, simplified]
  show thesis
  proof (cases "find (dispatch_at (ed_OrgID d) (ed_PluginID d) (ed_OperationID d) (ed_DispatchID d)) (dispatches s)")
    case (Some r)
    show thesis by (rule that(1) [OF g v Some]) (use a Some in \<open>auto simp: Let_def\<close>)
  next
    case None
    show thesis by (rule that(2) [OF _ g v None]) (use a None in auto)
  qed
qed

lemma record_delivery:
  assumes "RecordExternalDispatch parse_uuid d s = Inr s'" "delivery_inv s"
  shows "delivers s s'"
  using assms(1) unfolding RecordExternalDispatch_def
proof (cases rule: transaction_Inr)
  case (1 grant r)
  then show ?thesis using delivers_refl [OF assms(2)] by simp
next
  case (2 grant)
  show ?thesis by (rule insert_dispatch_delivery [OF 2(7) assms(2)]) (rule 2(5))
qed

lemma recovery_delivery:
  assumes "updateExternalDispatchRecovery org plugin operation i evidence s = Inr s'" "delivery_inv s"
  shows "delivers s s'"
  using assms by (auto simp: updateExternalDispatchRecovery_def intro!: delivers_refl update_dispatch_delivery split: option.splits if_splits)

lemma recover_delivery:
  assumes "RecoverWithdrawnExternalDispatch parse_uuid d fence s = Inr s'" "delivery_inv s"
  shows "delivers s s'"
proof (cases "find (dispatch_at (ed_OrgID d) (ed_PluginID d) (ed_OperationID d) (ed_DispatchID d)) (dispatches s)")
  case (Some r)
  then show ?thesis using assms
    by (auto simp: RecoverWithdrawnExternalDispatch_def intro!: delivers_refl update_dispatch_delivery split: if_splits)
next
  case None
  then have "insert_dispatch d DispatchWithdrawn s = Inr s'" using assms(1) by (auto simp: RecoverWithdrawnExternalDispatch_def)
  then show ?thesis using assms(2) by (rule insert_dispatch_delivery) simp
qed
section \<open>Pins\<close>

lemma pins_delivery:
  assumes inv: "delivery_inv s" and only: "pins_only s s'" and ids: "distinct (map pn_ID (pins s'))"
    and protected: "\<And>q. q \<in> set (pins s') \<Longrightarrow> protects q \<Longrightarrow>
      checkExternalDispatchBarrier (pn_OrgID q) (pn_EnvironmentUUID q) s = Inr ()
      \<or> (\<exists>p \<in> set (pins s). protects p \<and> pn_OrgID p = pn_OrgID q \<and> pn_EnvironmentUUID p = pn_EnvironmentUUID q
           \<and> pn_ModuleUUID p = pn_ModuleUUID q \<and> pn_VersionUUID p = pn_VersionUUID q)"
  shows "delivers s s'"
proof -
  have same: "guards s' = guards s" "dispatches s' = dispatches s" "epochs s' = epochs s"
    using pins_only_same [OF only] by simp_all
  have un: "unresolved s' = unresolved s" "active s' = active s" by (simp_all add: unresolved_def active_def same)
  have "honours (ag_intent g) q" if g: "g \<in> unresolved s" and q: "q \<in> set (pins s')" for g q
  proof (cases "protects q \<and> pn_OrgID q = da_OrgID (ag_intent g) \<and> pn_EnvironmentUUID q = da_EnvironmentUUID (ag_intent g)")
    case True
    have "guard_ok s g" using inv g by (simp add: delivery_inv_def admissions_inv_def unresolved_def)
    then have "guard_place g = (pn_OrgID q, pn_EnvironmentUUID q)" using True by (simp add: guard_ok_def guard_place_def)
    then have "checkExternalDispatchBarrier (pn_OrgID q) (pn_EnvironmentUUID q) s \<noteq> Inr ()" using g by (auto simp: barrier_places)
    then obtain p where "p \<in> set (pins s)" "protects p" "pn_OrgID p = pn_OrgID q" "pn_EnvironmentUUID p = pn_EnvironmentUUID q"
      "pn_ModuleUUID p = pn_ModuleUUID q" "pn_VersionUUID p = pn_VersionUUID q" using protected [OF q] True by blast
    moreover from this have "honours (ag_intent g) p" using inv g by (simp add: delivery_inv_def honoured_def)
    ultimately show ?thesis by (auto simp: honours_def)
  qed (auto simp: honours_def)
  then have "honoured s'" by (simp add: honoured_def un)
  moreover have "exclusive s'" using inv by (simp add: exclusive_def delivery_inv_def un same)
  moreover have "admissions_inv s'"
    by (rule admissions_inv_mono [OF _ same(1)]) (use inv in \<open>simp_all add: delivery_inv_def same ReadEnvironmentAdmissionEpoch_def\<close>)
  ultimately have "delivery_inv s'" using inv ids by (simp add: delivery_inv_def same)
  then show ?thesis using same_epochs_refl [OF same] by (simp add: delivers_def)
qed

lemma create_pin_delivery:
  assumes "CreateEnvironmentModuleVersionPin org pu pid env eid m v actor atype reason bulk allow new ev now s = Inr (pin, s')" "delivery_inv s"
  shows "delivers s s'"
  using assms(1)
proof (cases rule: create_pin_Inr)
  case (1 event)
  show ?thesis by (rule pins_delivery [OF assms(2) 1(2)]) (use 1(1,3,4,6,7) assms(2) in \<open>auto simp: delivery_inv_def\<close>)
qed

lemma transition_pin_delivery:
  assumes "TransitionEnvironmentModuleVersionPin org i e target etype actor atype reason op tv dep ev now s = Inr (updated, s')" "delivery_inv s"
  shows "delivers s s'"
  using assms(1)
proof (cases rule: transition_pin_Inr)
  case (1 p)
  then show ?thesis using delivers_refl [OF assms(2)] by simp
next
  case (2 p f event)
  have p: "p \<in> set (pins s)" "pn_OrgID p = org" "pn_ID p = i" using find_in_set [OF 2(1)] by simp_all
  have dist: "distinct (map pn_ID (pins s))" using assms(2) by (simp add: delivery_inv_def)
  have ids: "map pn_ID (pins s') = map pn_ID (pins s)" unfolding 2(8) by (rule map_upd_where) (use 2(11) in simp)
  show ?thesis
  proof (rule pins_delivery [OF assms(2) 2(5)])
    show "distinct (map pn_ID (pins s'))" using dist ids by simp
  next
    fix q assume q: "q \<in> set (pins s')" "protects q"
    obtain x where x: "x \<in> set (pins s)" "q = (if pn_OrgID x = org \<and> pn_ID x = i then f x else x)"
      using q(1) unfolding 2(8) in_upd_where by blast
    show "checkExternalDispatchBarrier (pn_OrgID q) (pn_EnvironmentUUID q) s = Inr ()
      \<or> (\<exists>p \<in> set (pins s). protects p \<and> pn_OrgID p = pn_OrgID q \<and> pn_EnvironmentUUID p = pn_EnvironmentUUID q
           \<and> pn_ModuleUUID p = pn_ModuleUUID q \<and> pn_VersionUUID p = pn_VersionUUID q)"
    proof (cases "pn_OrgID x = org \<and> pn_ID x = i")
      case True
      then have fp: "x = p" "q = f p" using x(2) unique_key_eq [OF dist x(1) p(1)] p(3) by simp_all
      then have "target \<in> {PinActive, PinOverridePending}" using q(2) 2(11) by (simp add: protects_def)
      then have "protects p \<or> target = PinActive \<and> pn_Status p = PinOverridden"
        using 2(4) by (cases "pn_Status p") (auto simp: protects_def)
      then show ?thesis using 2(7,11) fp p by auto
    next
      case False
      then show ?thesis using x q(2) by auto
    qed
  qed
qed

lemma delivers_trans: "delivers s t \<Longrightarrow> delivers t u \<Longrightarrow> delivers s u"
  unfolding delivers_def using same_epochs_trans by blast

lemma remove_pins_delivery:
  assumes "RemoveEnvironmentModuleVersionPinsForDeletion org env actor atype fresh now s = Inr (removed, s')" "delivery_inv s"
  shows "delivers s s'"
  using assms(1)
proof (rule remove_pins_fold [where I = "delivers s"])
  show "delivers s s" by (rule delivers_refl [OF assms(2)])
next
  fix i e ev u t t'
  assume p: "delivers s t" and t: "TransitionEnvironmentModuleVersionPin org i e PinRemoved ''environment_deleted'' actor atype
    ''environment_deleted'' None None None ev now t = Inr (u, t')"
  show "delivers s t'" using delivers_trans [OF p transition_pin_delivery [OF t]] p by (simp add: delivers_def)
qed

section \<open>Running the operations\<close>

inductive delivery_step :: "(string \<Rightarrow> uuid option) \<Rightarrow> db \<Rightarrow> db \<Rightarrow> bool" for parse_uuid where
  step_authorize: "AuthorizeDeploymentAdmission parse_uuid request policies s = Inr (receipt, s') \<Longrightarrow> delivery_step parse_uuid s s'"
| step_settle: "SettleDeploymentAdmission org i project environment digest outcome s = Inr (receipt, s') \<Longrightarrow> delivery_step parse_uuid s s'"
| step_seal: "SealDeploymentAdmissionAbsence parse_uuid request s = Inr (receipt, s') \<Longrightarrow> delivery_step parse_uuid s s'"
| step_record: "RecordExternalDispatch parse_uuid d s = Inr s' \<Longrightarrow> delivery_step parse_uuid s s'"
| step_withdraw: "WithdrawExternalDispatch org plugin operation i s = Inr s' \<Longrightarrow> delivery_step parse_uuid s s'"
| step_recover: "RecoverWithdrawnExternalDispatch parse_uuid d fence s = Inr s' \<Longrightarrow> delivery_step parse_uuid s s'"
| step_complete: "CompleteExternalDispatch org plugin operation i evidence s = Inr s' \<Longrightarrow> delivery_step parse_uuid s s'"
| step_create_pin: "CreateEnvironmentModuleVersionPin org pu pid env eid m v actor atype reason bulk allow new ev now s = Inr (pin, s')
    \<Longrightarrow> delivery_step parse_uuid s s'"
| step_transition_pin: "TransitionEnvironmentModuleVersionPin org i e target etype actor atype reason op tv dep ev now s = Inr (pin, s')
    \<Longrightarrow> delivery_step parse_uuid s s'"
| step_remove_pins: "RemoveEnvironmentModuleVersionPinsForDeletion org env actor atype fresh now s = Inr (removed, s')
    \<Longrightarrow> delivery_step parse_uuid s s'"
| step_frame: "pins s' = pins s \<Longrightarrow> guards s' = guards s \<Longrightarrow> dispatches s' = dispatches s \<Longrightarrow> epochs s' = epochs s
    \<Longrightarrow> delivery_step parse_uuid s s'"

lemma frame_delivery:
  assumes "pins s' = pins s" "guards s' = guards s" "dispatches s' = dispatches s" "epochs s' = epochs s" "delivery_inv s"
  shows "delivers s s'"
proof -
  have "admissions_inv s'"
    by (rule admissions_inv_mono [OF _ assms(2)]) (use assms(4,5) in \<open>simp_all add: delivery_inv_def ReadEnvironmentAdmissionEpoch_def\<close>)
  then have "delivery_inv s'" using assms by (simp add: delivery_inv_def exclusive_def honoured_def unresolved_def active_def)
  then show ?thesis using same_epochs_refl [OF assms(2-4)] by (simp add: delivers_def)
qed

lemmas delivery_operations = authorize_delivery settle_delivery seal_delivery record_delivery recover_delivery create_pin_delivery
  transition_pin_delivery remove_pins_delivery frame_delivery

lemma delivery_step_delivers: "delivery_step parse_uuid s s' \<Longrightarrow> delivery_inv s \<Longrightarrow> delivers s s'"
  by (induction rule: delivery_step.induct)
    (auto simp: WithdrawExternalDispatch_def CompleteExternalDispatch_def intro: delivery_operations recovery_delivery)

lemma delivery_run_delivers:
  assumes "(delivery_step parse_uuid)\<^sup>*\<^sup>* s s'" "delivery_inv s"
  shows "delivers s s'"
  using assms(1)
proof (induction rule: rtranclp_induct)
  case base
  show ?case by (rule delivers_refl [OF assms(2)])
next
  case (step t u)
  then show ?case using delivers_trans [OF step.IH delivery_step_delivers [OF step.hyps(2)]] by (simp add: delivers_def)
qed
section \<open>The life of a dispatch\<close>

definition dispatch_follows :: "dispatch_row \<Rightarrow> dispatch_row \<Rightarrow> bool" where
  "dispatch_follows r r' \<longleftrightarrow> di_intent r' = di_intent r \<and> (di_state r = DispatchSettled \<longrightarrow> r' = r)
     \<and> (di_state r = DispatchWithdrawn \<longrightarrow> di_state r' \<noteq> DispatchActive)"

definition dispatches_follow :: "db \<Rightarrow> db \<Rightarrow> bool" where
  "dispatches_follow s s' \<longleftrightarrow> (\<forall>r \<in> set (dispatches s). \<exists>r' \<in> set (dispatches s'). dispatch_follows r r')"

lemma dispatch_follows_refl [simp]: "dispatch_follows r r"
  by (simp add: dispatch_follows_def)

lemma dispatch_follows_trans: "dispatch_follows a b \<Longrightarrow> dispatch_follows b c \<Longrightarrow> dispatch_follows a c"
  by (cases "di_state b") (auto simp: dispatch_follows_def)

lemma dispatches_follow_trans: "dispatches_follow s t \<Longrightarrow> dispatches_follow t u \<Longrightarrow> dispatches_follow s u"
  unfolding dispatches_follow_def using dispatch_follows_trans by meson

lemma dispatches_follow_more: "dispatches s' = dispatches s @ new \<Longrightarrow> dispatches_follow s s'"
  unfolding dispatches_follow_def by (metis UnCI dispatch_follows_refl set_append)

lemma dispatches_follow_same: "dispatches s' = dispatches s \<Longrightarrow> dispatches_follow s s'"
  by (rule dispatches_follow_more [where new = "[]"]) simp

lemma update_dispatch_follows:
  assumes "distinct (map dispatch_key (dispatches s))" "find (dispatch_at org plugin operation i) (dispatches s) = Some r" "dispatch_follows r (f r)"
  shows "dispatches_follow s (update_dispatch org plugin operation i f s)"
  unfolding dispatches_follow_def
proof
  fix x assume x: "x \<in> set (dispatches s)"
  have r: "r \<in> set (dispatches s)" "dispatch_key r = (org, plugin, operation, i)" using find_in_set [OF assms(2)] by (simp_all add: dispatch_at_key)
  have "dispatch_follows x (if dispatch_at org plugin operation i x then f x else x)"
    using unique_key_eq [OF assms(1) x r(1)] assms(3) r(2) by (auto simp: dispatch_at_key)
  then show "\<exists>r' \<in> set (dispatches (update_dispatch org plugin operation i f s)). dispatch_follows x r'"
    unfolding update_dispatch_def using upd_where_intro [OF x, of "dispatch_at org plugin operation i" f] by auto
qed

lemma recovery_follows:
  assumes "updateExternalDispatchRecovery org plugin operation i evidence s = Inr s'" "distinct (map dispatch_key (dispatches s))"
  shows "dispatches_follow s s'"
proof -
  obtain r where r: "find (dispatch_at org plugin operation i) (dispatches s) = Some r"
    using assms(1) by (auto simp: updateExternalDispatchRecovery_def)
  show ?thesis using assms(1) r
    by (cases evidence) (auto simp: updateExternalDispatchRecovery_def dispatch_follows_def dispatches_follow_same
        intro!: update_dispatch_follows [OF assms(2) r] split: if_splits)
qed

lemma recover_follows:
  assumes "RecoverWithdrawnExternalDispatch parse_uuid d fence s = Inr s'" "distinct (map dispatch_key (dispatches s))"
  shows "dispatches_follow s s'"
proof (cases "find (dispatch_at (ed_OrgID d) (ed_PluginID d) (ed_OperationID d) (ed_DispatchID d)) (dispatches s)")
  case (Some r)
  then show ?thesis using assms
    by (auto simp: RecoverWithdrawnExternalDispatch_def dispatches_follow_same dispatch_follows_def
        intro!: update_dispatch_follows split: if_splits)
next
  case None
  then have "insert_dispatch d DispatchWithdrawn s = Inr s'" using assms(1) by (auto simp: RecoverWithdrawnExternalDispatch_def)
  then show ?thesis by (rule insert_dispatch_Inr) (rule dispatches_follow_more)
qed

lemma record_follows: "RecordExternalDispatch parse_uuid d s = Inr s' \<Longrightarrow> dispatches_follow s s'"
  unfolding RecordExternalDispatch_def
  by (erule transaction_Inr) (auto intro: dispatches_follow_same dispatches_follow_more elim: insert_dispatch_Inr)

lemma pins_only_follow: "pins_only s s' \<Longrightarrow> dispatches_follow s s'"
  by (rule dispatches_follow_same) (simp add: pins_only_same)

lemma admissions_only_follow: "admissions_only s s' \<Longrightarrow> dispatches_follow s s'"
  by (rule dispatches_follow_same) (simp add: admissions_only_same)

lemma remove_pins_only:
  assumes "RemoveEnvironmentModuleVersionPinsForDeletion org env actor atype fresh now s = Inr (removed, s')"
  shows "pins_only s s'"
  using assms
proof (rule remove_pins_fold [where I = "pins_only s"])
  fix i e ev u t t'
  assume p: "pins_only s t" and t: "TransitionEnvironmentModuleVersionPin org i e PinRemoved ''environment_deleted'' actor atype
    ''environment_deleted'' None None None ev now t = Inr (u, t')"
  have "pins_only t t'" using t by (rule transition_pin_Inr) simp_all
  then show "pins_only s t'" by (rule pins_only_trans [OF p])
qed simp

lemma delivery_step_follows:
  assumes "delivery_step parse_uuid s s'" "delivery_inv s"
  shows "dispatches_follow s s'"
  using assms(1)
proof cases
  case (step_authorize request policies receipt)
  then show ?thesis by (rule authorize_Inr) (auto intro!: admissions_only_follow elim: insert_guard_Inr)
next
  case (step_settle org i project environment digest outcome receipt)
  then show ?thesis by (rule settle_Inr) (auto intro!: admissions_only_follow)
next
  case (step_seal request receipt)
  then show ?thesis by (rule seal_Inr) (auto intro!: admissions_only_follow elim: insert_guard_Inr)
next
  case (step_create_pin org pu pid env eid m v actor atype reason bulk allow new ev now pin)
  then show ?thesis by (rule create_pin_Inr) (rule pins_only_follow)
next
  case (step_transition_pin org i e target etype actor atype reason op tv dep ev now pin)
  then show ?thesis by (rule transition_pin_Inr) (auto intro: pins_only_follow)
next
  case step_frame
  show ?thesis by (rule dispatches_follow_same [OF step_frame(3)])
qed (use assms(2) in \<open>auto simp: delivery_inv_def WithdrawExternalDispatch_def CompleteExternalDispatch_def
    intro: record_follows recover_follows recovery_follows remove_pins_only pins_only_follow\<close>)

lemma delivery_run_follows:
  assumes "(delivery_step parse_uuid)\<^sup>*\<^sup>* s s'" "delivery_inv s"
  shows "dispatches_follow s s'"
  using assms(1)
proof (induction rule: rtranclp_induct)
  case base
  show ?case by (rule dispatches_follow_same) simp
next
  case (step t u)
  have "delivery_inv t" using delivery_run_delivers [OF step.hyps(1) assms(2)] by (simp add: delivers_def)
  then show ?case using dispatches_follow_trans [OF step.IH delivery_step_follows [OF step.hyps(2)]] by blast
qed
section \<open>An environment with a dispatch\<close>

definition example_dispatch :: dispatch_row where
  "example_dispatch = \<lparr>di_intent = \<lparr>ed_OrgID = ''acme'', ed_PluginID = ''com.acme'', ed_OperationID = ''op1'', ed_Fence = 2,
     ed_Action = ''external-deployment.admit'', ed_DispatchID = ''d1'', ed_ProjectUUID = ''pa'', ed_EnvironmentUUID = ''e1'',
     ed_RequestDigest = replicate 64 CHR ''a'', ed_ActorID = ''alice'', ed_TargetVersions = Some [(''m1'', ''h2'')],
     ed_ApprovedPins = None, ed_Approval = None\<rparr>, di_state = DispatchActive, di_completion = None\<rparr>"

definition example_dispatch_db :: db where
  "example_dispatch_db = example_admission_db\<lparr>dispatches := [example_dispatch]\<rparr>"

lemma example_tables:
  "guards example_admission_db = []" "dispatches example_admission_db = []" "epochs example_admission_db = []"
  "pins example_admission_db = [example_pin ''p1'' PinActive]"
  by (simp_all add: example_admission_db_def example_pins_db_def example_catalogue_db_def example_types_db_def empty_db_def)

lemma example_delivery_inv: "delivery_inv example_admission_db"
  using example_admissions_inv
  by (simp add: delivery_inv_def exclusive_def honoured_def unresolved_def active_def example_tables)

lemma example_dispatch_inv: "delivery_inv example_dispatch_db"
proof -
  have "admissions_inv example_dispatch_db"
    by (simp add: admissions_inv_def example_dispatch_db_def example_tables)
  then show ?thesis
    by (simp add: delivery_inv_def exclusive_def honoured_def unresolved_def active_def example_dispatch_db_def example_tables
        keys_unique_def)
qed

section \<open>Properties\<close>

text \<open>
  C5. One authority. Whatever admissions, settlements, dispatches, withdrawals, recoveries, completions and
  changes of pins run: at most one ordinary admission of an environment is unresolved, at most one external
  dispatch of it is active, and never both; and while an ordinary Deployment is unresolved, every version
  that is pinned in its environment is the version it deploys, so no pin can appear under its feet.
\<close>

theorem one_authority:
  assumes "(delivery_step parse_uuid)\<^sup>*\<^sup>* s s'" "delivery_inv s"
  shows "(\<forall>g \<in> unresolved s'. \<forall>g' \<in> unresolved s'. guard_place g = guard_place g' \<longrightarrow> g = g')
    \<and> (\<forall>r \<in> active s'. \<forall>r' \<in> active s'. dispatch_place r = dispatch_place r' \<longrightarrow> r = r')
    \<and> (\<forall>g \<in> unresolved s'. \<forall>r \<in> active s'. guard_place g \<noteq> dispatch_place r)
    \<and> (\<forall>g \<in> unresolved s'. \<forall>p \<in> set (pins s'). honours (ag_intent g) p)"
proof -
  have inv: "delivery_inv s'" using delivery_run_delivers [OF assms] by (simp add: delivers_def)
  then have k: "keys_unique active_guard_key (guards s')" "keys_unique active_dispatch_key (dispatches s')"
    by (simp_all add: delivery_inv_def exclusive_def)
  have "g = g'" if "g \<in> unresolved s'" "g' \<in> unresolved s'" "guard_place g = guard_place g'" for g g'
    using keys_uniqueD [OF k(1), of g g' "[ag_org_id g, ag_environment_uuid g]"] that
    by (simp add: unresolved_def active_guard_key_def guard_place_def)
  moreover have "r = r'" if "r \<in> active s'" "r' \<in> active s'" "dispatch_place r = dispatch_place r'" for r r'
    using keys_uniqueD [OF k(2), of r r' "dispatch_place r"] that by (simp add: active_def active_dispatch_key_def)
  ultimately show ?thesis using inv by (simp add: delivery_inv_def exclusive_def honoured_def)
qed

theorem one_authority_witness:
  "\<exists>receipt s'. AuthorizeDeploymentAdmission Some (example_request ''deploy'' ''h1'') [] example_admission_db = Inr (receipt, s')
     \<and> unresolved s' \<noteq> {} \<and> (\<forall>g \<in> unresolved s'. \<forall>p \<in> set (pins s'). honours (ag_intent g) p)"
proof -
  obtain receipt s' where a: "AuthorizeDeploymentAdmission Some (example_request ''deploy'' ''h1'') [] example_admission_db
    = Inr (receipt, s')" "map ag_outcome (guards s') = [None]" using example_authorize by metis
  have "(delivery_step Some)\<^sup>*\<^sup>* example_admission_db s'" using step_authorize [OF a(1)] by (rule r_into_rtranclp)
  note h = one_authority [OF this example_delivery_inv]
  obtain g where "guards s' = [g]" "ag_outcome g = None" using a(2) by (cases "guards s'") auto
  then have "unresolved s' \<noteq> {}" by (auto simp: unresolved_def)
  then show ?thesis using a(1) h by metis
qed

text \<open>
  C22. The epoch of an environment reveals admissions. If the epoch that was read before some sequence of
  operations still checks after it, then no admission and no dispatch has been recorded for the environment
  in between, not even one that has been settled since, and none is pending: every admission of the environment
  has an outcome, and every dispatch of it is settled, so that not even a withdrawn one, whose effect is not yet
  known, is left. Evidence that was inspected in between is current.
\<close>

theorem epoch_reveals_admissions:
  assumes "(delivery_step parse_uuid)\<^sup>*\<^sup>* s s'" "delivery_inv s"
    "CheckEnvironmentAdmissionEpoch org environment (ReadEnvironmentAdmissionEpoch org environment s) s' = Inr ()"
  shows "crossings org environment s' = crossings org environment s
    \<and> (\<forall>g \<in> set (guards s'). guard_place g = (org, environment) \<longrightarrow> ag_outcome g \<noteq> None)
    \<and> (\<forall>r \<in> set (dispatches s'). dispatch_place r = (org, environment) \<longrightarrow> di_state r = DispatchSettled)"
proof -
  have "same_epochs s s'" using delivery_run_delivers [OF assms(1,2)] by (simp add: delivers_def)
  moreover have "ReadEnvironmentAdmissionEpoch org environment s' = ReadEnvironmentAdmissionEpoch org environment s"
    "checkExternalDispatchBarrier org environment s' = Inr ()" using assms(3) by (auto simp: CheckEnvironmentAdmissionEpoch_def)
  ultimately show ?thesis by (auto simp: same_epochs_def barrier_places unresolved_def)
qed

theorem epoch_reveals_admissions_witness:
  "\<exists>p s'. TransitionEnvironmentModuleVersionPin ''acme'' ''p1'' 1 PinRemoved ''removed'' ''alice'' ''user'' ''ship'' None None None
       ''v2'' 7 example_admission_db = Inr (p, s')
     \<and> CheckEnvironmentAdmissionEpoch ''acme'' ''e1'' 0 s' = Inr ()
     \<and> crossings ''acme'' ''e1'' s' = ([], [])"
proof -
  have "\<exists>p s'. TransitionEnvironmentModuleVersionPin ''acme'' ''p1'' 1 PinRemoved ''removed'' ''alice'' ''user'' ''ship'' None None None
     ''v2'' 7 example_admission_db = Inr (p, s')"
    by (simp add: TransitionEnvironmentModuleVersionPin_def example_reason GetEnvironmentModuleVersionPin_def example_tables
      example_pin_def ValidatePinTransition_def override_complete_def transition_pin_def update_rows_def pins_constraints_def
      keys_unique_def protected_key_def protects_def insert_row.simps violates_def pin_events_constraints_def
      next_event_revision_def Let_def example_admission_db_def example_pins_db_def)
  then obtain p s' where t: "TransitionEnvironmentModuleVersionPin ''acme'' ''p1'' 1 PinRemoved ''removed'' ''alice'' ''user'' ''ship''
     None None None ''v2'' 7 example_admission_db = Inr (p, s')" by metis
  have only: "pins_only example_admission_db s'" using t by (rule transition_pin_Inr) simp_all
  have e: "ReadEnvironmentAdmissionEpoch ''acme'' ''e1'' example_admission_db = 0"
    by (simp add: ReadEnvironmentAdmissionEpoch_def example_tables)
  have "epochs s' = []" "guards s' = []" "dispatches s' = []" using pins_only_same [OF only] by (simp_all add: example_tables)
  then have c: "CheckEnvironmentAdmissionEpoch ''acme'' ''e1'' 0 s' = Inr ()"
    by (simp add: CheckEnvironmentAdmissionEpoch_def ReadEnvironmentAdmissionEpoch_def barrier_open_iff)
  have r: "(delivery_step Some)\<^sup>*\<^sup>* example_admission_db s'" using step_transition_pin [OF t] by (rule r_into_rtranclp)
  have "crossings ''acme'' ''e1'' example_admission_db = ([], [])" by (simp add: crossings_def example_tables)
  with epoch_reveals_admissions [OF r example_delivery_inv, of "''acme''" "''e1''"] c t show ?thesis unfolding e by metis
qed

text \<open>
  C33. The life of a dispatch. Its intent never changes; a withdrawn dispatch never gets its authority back;
  a settled one never changes; and every unsettled dispatch can be brought to an end: withdrawing it always
  succeeds, and then authoritative evidence of absence settles it.
\<close>

theorem dispatch_life:
  assumes "(delivery_step parse_uuid)\<^sup>*\<^sup>* s s'" "delivery_inv s" "r \<in> set (dispatches s)"
  shows "(\<exists>r' \<in> set (dispatches s'). di_intent r' = di_intent r \<and> (di_state r = DispatchSettled \<longrightarrow> r' = r)
      \<and> (di_state r = DispatchWithdrawn \<longrightarrow> di_state r' \<noteq> DispatchActive)
      \<and> (\<exists>t u. let d = di_intent r; evidence = \<lparr>co_DeploymentID = Nil_uuid, co_EnvironmentUUID = ed_EnvironmentUUID d,
             co_ProjectUUID = ed_ProjectUUID d, co_RequestDigest = ed_RequestDigest d, co_Status = '''', co_NoEffect = True\<rparr> in
           WithdrawExternalDispatch (ed_OrgID d) (ed_PluginID d) (ed_OperationID d) (ed_DispatchID d) s' = Inr t
           \<and> (di_state r' \<noteq> DispatchSettled \<longrightarrow>
                CompleteExternalDispatch (ed_OrgID d) (ed_PluginID d) (ed_OperationID d) (ed_DispatchID d) evidence t = Inr u
                \<and> r'\<lparr>di_state := DispatchSettled, di_completion := Some evidence\<rparr> \<in> set (dispatches u))))"
proof -
  obtain r' where r': "r' \<in> set (dispatches s')" "dispatch_follows r r'"
    using delivery_run_follows [OF assms(1,2)] assms(3) by (auto simp: dispatches_follow_def)
  have dist: "distinct (map dispatch_key (dispatches s'))"
    using delivery_run_delivers [OF assms(1,2)] by (simp add: delivers_def delivery_inv_def)
  let ?d = "di_intent r"
  let ?at = "dispatch_at (ed_OrgID ?d) (ed_PluginID ?d) (ed_OperationID ?d) (ed_DispatchID ?d)"
  let ?ev = "\<lparr>co_DeploymentID = Nil_uuid, co_EnvironmentUUID = ed_EnvironmentUUID ?d, co_ProjectUUID = ed_ProjectUUID ?d,
     co_RequestDigest = ed_RequestDigest ?d, co_Status = '''', co_NoEffect = True\<rparr>"
  have same: "di_intent r' = ?d" using r'(2) by (simp add: dispatch_follows_def)
  have f: "find ?at (dispatches s') = Some r'"
    using find_unique_key [OF dist r'(1)] by (simp add: dispatch_at_key dispatch_key_def [of r'] same)
  let ?w = "\<lambda>x. x\<lparr>di_state := DispatchWithdrawn\<rparr>" and ?c = "\<lambda>x. x\<lparr>di_state := DispatchSettled, di_completion := Some ?ev\<rparr>"
  define t where "t = (if di_state r' = DispatchActive
    then update_dispatch (ed_OrgID ?d) (ed_PluginID ?d) (ed_OperationID ?d) (ed_DispatchID ?d) ?w s' else s')"
  define q where "q = (if di_state r' = DispatchActive then ?w r' else r')"
  have q: "find ?at (dispatches t) = Some q"
    using f find_in_set [OF f] by (simp add: t_def q_def update_dispatch_def find_upd_where dispatch_at_def)
  have "WithdrawExternalDispatch (ed_OrgID ?d) (ed_PluginID ?d) (ed_OperationID ?d) (ed_DispatchID ?d) s' = Inr t"
    using f by (simp add: WithdrawExternalDispatch_def updateExternalDispatchRecovery_def t_def)
  moreover have "CompleteExternalDispatch (ed_OrgID ?d) (ed_PluginID ?d) (ed_OperationID ?d) (ed_DispatchID ?d) ?ev t
      = Inr (update_dispatch (ed_OrgID ?d) (ed_PluginID ?d) (ed_OperationID ?d) (ed_DispatchID ?d) ?c t)"
    if "di_state r' \<noteq> DispatchSettled"
    using q that same by (cases "di_state r'") (simp_all add: CompleteExternalDispatch_def updateExternalDispatchRecovery_def q_def completion_refused_def)
  moreover have "?c r' \<in> set (dispatches (update_dispatch (ed_OrgID ?d) (ed_PluginID ?d) (ed_OperationID ?d) (ed_DispatchID ?d) ?c t))"
    using upd_where_intro [of q "dispatches t" ?at ?c] find_in_set [OF q] by (simp add: update_dispatch_def q_def split: if_splits)
  ultimately show ?thesis using r' same unfolding Let_def dispatch_follows_def by (intro bexI [OF _ r'(1)]) blast
qed

theorem dispatch_life_witness:
  "\<exists>t. WithdrawExternalDispatch ''acme'' ''com.acme'' ''op1'' ''d1'' example_dispatch_db = Inr t
     \<and> (\<exists>r' \<in> set (dispatches t). di_intent r' = di_intent example_dispatch)"
proof -
  obtain t where t: "WithdrawExternalDispatch ''acme'' ''com.acme'' ''op1'' ''d1'' example_dispatch_db = Inr t"
    by (simp add: WithdrawExternalDispatch_def updateExternalDispatchRecovery_def example_dispatch_db_def dispatch_at_def example_dispatch_def)
  have r: "(delivery_step Some)\<^sup>*\<^sup>* example_dispatch_db t" using step_withdraw [OF t] by (rule r_into_rtranclp)
  have "example_dispatch \<in> set (dispatches example_dispatch_db)" by (simp add: example_dispatch_db_def)
  from dispatch_life [OF r example_dispatch_inv this] t show ?thesis by metis
qed

end
