(* ===== verification/ExternalPins.thy ===== *)
theory ExternalPins
  imports Delivery
begin

text \<open>
  Pin commands of delegated operations (\<^verbatim>\<open>internal/model/external_pin_operations.go\<close>): a plugin begins an
  override of pins, reconciles it with the outcome of its Deployment, cancels it, or restores the pins after
  a rollback. A command is atomic over its targets and bound to the current revision of the grant.

  The evidence about a Deployment is read by a trusted adapter, the parameter \<open>reader\<close> (\<open>None\<close> when there
  is none); the fingerprint of a command, a SHA-256 hash of its JSON encoding, is the parameter \<open>digest\<close>;
  the identifiers of the events are given by \<open>fresh\<close>.
\<close>

section \<open>Commands\<close>

record ExternalPinTarget =
  xp_PinID :: uuid
  xp_ExpectedResourceVersion :: int
  xp_TargetVersionUUID :: uuid
  xp_DeploymentID :: uuid

record ExternalPinCommand =
  xq_OrgID :: string
  xq_PluginID :: string
  xq_OperationID :: uuid
  xq_GrantFence :: int
  xq_ActorID :: uuid
  xq_RequestID :: string
  xq_Action :: string
  xq_Reason :: string
  xq_Targets :: "ExternalPinTarget list"

record ExternalPinEvidence =
  xe_OperationID :: uuid
  xe_EnvironmentUUID :: uuid
  xe_ProjectUUID :: uuid
  xe_DeploymentID :: uuid
  xe_Status :: string
  xe_Mode :: string
  xe_ModuleVersions :: "(uuid \<times> uuid) list"
  xe_EffectiveVersions :: "(uuid \<times> uuid) list"
  xe_AdmissionEpoch :: int

type_synonym evidence_reader = "ExternalOperationGrant \<Rightarrow> EnvironmentModuleVersionPin \<Rightarrow> uuid \<Rightarrow> db \<Rightarrow> ExternalPinEvidence result"

definition externalPinCommandScope :: "string \<Rightarrow> uuid \<Rightarrow> string" where
  "externalPinCommandScope plugin operation = ''plugin-pin:'' @ plugin @ '':'' @ operation"

definition has_line_break :: "string \<Rightarrow> bool" where
  "has_line_break t \<longleftrightarrow> list_ex (\<lambda>c. c = CHR 0x0D \<or> c = CHR 0x0A) t"

definition pin_in_scope :: "ExternalOperationGrant \<Rightarrow> EnvironmentModuleVersionPin \<Rightarrow> bool" where
  "pin_in_scope grant pin \<longleftrightarrow>
     List.member (oi_Environments (gr_Intent grant)) \<lparr>oe_ProjectID = pn_ProjectUUID pin, oe_EnvironmentID = pn_EnvironmentUUID pin\<rparr>
     \<and> map_at (Some (oi_TargetVersions (gr_Intent grant))) (pn_ModuleUUID pin) \<noteq> Nil_uuid"

section \<open>Reading a receipt\<close>

definition GetExternalPinReceipt ::
  "string \<Rightarrow> string \<Rightarrow> uuid \<Rightarrow> string \<Rightarrow> int \<Rightarrow> db \<Rightarrow> (ExternalPinReceipt option \<times> ExternalOperationGrant) result" where
  "GetExternalPinReceipt org plugin operation request fence s =
     fail_if (org = '''' \<or> \<not> externalPluginIdentity plugin \<or> operation = Nil_uuid \<or> request = '''' \<or> length request > 128
         \<or> has_line_break request \<or> fence \<le> 0)
       (NewErrBadRequest ''exact Pin receipt identity and current fence are required'')
    (try_then (readExternalGrant org plugin operation s) (\<lambda>grant.
     fail_if (gr_Revision grant \<noteq> fence) (NewErrConflict ''Pin receipt recovery requires the current operation fence'')
    (case GetModuleCoreCommand org (externalPinCommandScope plugin operation) request s of
       None \<Rightarrow> Inr (None, grant)
     | Some (_, prior) \<Rightarrow>
       (case prior of
          ResponsePins receipt \<Rightarrow>
            fail_if (pc_OperationID receipt \<noteq> operation \<or> pc_RequestID receipt \<noteq> request
                \<or> \<not> List.member [''begin'', ''reconcile'', ''restore'', ''cancel''] (pc_Action receipt)
                \<or> \<not> List.member (oi_Actions (gr_Intent grant)) (''pin.override.'' @ pc_Action receipt)
                \<or> pc_Pins receipt = [] \<or> length (pc_Pins receipt) > 1000)
              (NewErrConflict ''Pin receipt does not match the frozen operation'')
           (fail_if (list_ex (\<lambda>p. pn_ID p = Nil_uuid \<or> pn_OrgID p \<noteq> org \<or> \<not> pin_in_scope grant p) (pc_Pins receipt))
              (NewErrConflict ''Pin receipt is outside the frozen operation scope'')
           (Inr (Some receipt, grant)))
        | _ \<Rightarrow> Inl (NewErrConflict
            ''Pin receipt has no recoverable action metadata; explicit operator investigation is required'')))))"

section \<open>Decisions\<close>

definition dispatched :: "ExternalPinCommand \<Rightarrow> uuid \<Rightarrow> db \<Rightarrow> bool" where
  "dispatched c environment s \<longleftrightarrow>
     list_ex (\<lambda>r. ed_OrgID (di_intent r) = xq_OrgID c \<and> ed_PluginID (di_intent r) = xq_PluginID c
       \<and> ed_OperationID (di_intent r) = xq_OperationID c \<and> ed_EnvironmentUUID (di_intent r) = environment
       \<and> \<not> (di_state r = DispatchSettled \<and> (case di_completion r of None \<Rightarrow> False | Some ev \<Rightarrow> co_NoEffect ev))) (dispatches s)"

text \<open>The next status of the pin, the event, the target version and the Deployment of the transition.\<close>

type_synonym pin_decision = "PinStatus \<times> string \<times> uuid option \<times> uuid option"

definition begin_override :: "ExternalOperationGrant \<Rightarrow> ExternalPinCommand \<Rightarrow> EnvironmentModuleVersionPin \<Rightarrow> ExternalPinTarget \<Rightarrow> db \<Rightarrow> pin_decision result" where
  "begin_override grant c pin t s =
     fail_if (pn_Status pin \<noteq> PinActive
         \<or> xp_TargetVersionUUID t \<noteq> map_at (Some (oi_TargetVersions (gr_Intent grant))) (pn_ModuleUUID pin)
         \<or> xp_TargetVersionUUID t = pn_VersionUUID pin \<or> xp_DeploymentID t \<noteq> Nil_uuid)
       (NewErrConflict ''override requires an active Pin and the exact different operation target'')
    (try_then (GetModuleCatalogue (xq_OrgID c) (pn_ModuleUUID pin) s) (\<lambda>entry.
     try_then (GetCoreModuleVersion (xq_OrgID c) (pn_ModuleUUID pin) (xp_TargetVersionUUID t) s) (\<lambda>version.
     fail_if (mc_Status entry \<noteq> CatalogueActive
         \<or> cv_LifecycleStatus version \<noteq> LifecycleProposed \<and> cv_LifecycleStatus version \<noteq> LifecycleDefault)
       (NewErrConflict ''override target requires an active Module and Proposed or Default version'')
    (Inr (PinOverridePending, ''override_requested'', Some (xp_TargetVersionUUID t), None)))))"

definition cancel_override :: "ExternalPinCommand \<Rightarrow> EnvironmentModuleVersionPin \<Rightarrow> ExternalPinTarget \<Rightarrow> db \<Rightarrow> pin_decision result" where
  "cancel_override c pin t s =
     fail_if (pn_Status pin \<noteq> PinOverridePending \<or> xp_DeploymentID t \<noteq> Nil_uuid \<or> xp_TargetVersionUUID t \<noteq> Nil_uuid)
       (NewErrConflict ''only an unstarted pending override may be cancelled'')
    (fail_if (dispatched c (pn_EnvironmentUUID pin) s)
       (NewErrConflict ''dispatch was recorded; reconcile its authoritative outcome before changing Pin protection'')
    (Inr (PinActive, ''override_cancelled'', None, None)))"

definition settle_override :: "ExternalPinCommand \<Rightarrow> EnvironmentModuleVersionPin \<Rightarrow> ExternalPinTarget \<Rightarrow> ExternalPinEvidence \<Rightarrow> pin_decision result" where
  "settle_override c pin t ev =
     (let deployed = map_at (Some (xe_ModuleVersions ev)) (pn_ModuleUUID pin);
          effective = map_at (Some (xe_EffectiveVersions ev)) (pn_ModuleUUID pin) in
      if xq_Action c = ''restore''
      then fail_if (pn_Status pin \<noteq> PinOverridden \<or> xe_Status ev \<noteq> ''succeeded'' \<or> xe_Mode ev \<noteq> ''rollback''
            \<or> deployed \<noteq> pn_VersionUUID pin \<or> effective \<noteq> pn_VersionUUID pin)
          (NewErrConflict ''successful Rollback has not restored the exact pinned version'')
         (Inr (PinActive, ''restored_after_rollback'', None, Some (xp_DeploymentID t)))
      else
        fail_if (pn_Status pin \<noteq> PinOverridePending \<or> xe_Mode ev \<noteq> ''deploy'')
          (NewErrConflict ''only the owning forward Deployment can reconcile a pending override'')
       (if xe_Status ev = ''succeeded''
        then fail_if (pn_OverrideTargetVersionUUID pin \<noteq> Some deployed \<or> pn_OverrideTargetVersionUUID pin \<noteq> Some effective)
            (NewErrConflict ''successful Deployment has not activated the exact override target'')
           (Inr (PinOverridden, ''override_succeeded'', pn_OverrideTargetVersionUUID pin, Some (xp_DeploymentID t)))
        else if List.member [''failed'', ''cancelled'', ''terminated''] (xe_Status ev)
        then Inr (PinActive, ''override_failed'', None, Some (xp_DeploymentID t))
        else Inl (NewErrConflict ''Deployment outcome is not terminal'')))"

definition externalPinDecision ::
  "evidence_reader option \<Rightarrow> ExternalOperationGrant \<Rightarrow> ExternalPinCommand \<Rightarrow> EnvironmentModuleVersionPin \<Rightarrow> ExternalPinTarget \<Rightarrow> db
   \<Rightarrow> pin_decision result" where
  "externalPinDecision reader grant c pin t s =
     (if xq_Action c = ''begin'' then begin_override grant c pin t s
      else
      fail_if (pn_OverrideOperationID pin \<noteq> Some (xq_OperationID c) \<or> pn_Status pin = PinRemoved)
        (NewErrConflict ''Pin is not owned by this operation or was explicitly removed'')
     (if xq_Action c = ''cancel'' then cancel_override c pin t s
      else case reader of
        None \<Rightarrow> Inl (NewErrConflict ''authoritative Deployment evidence is required'')
      | Some read \<Rightarrow>
        fail_if (xp_DeploymentID t = Nil_uuid \<or> xp_TargetVersionUUID t \<noteq> Nil_uuid)
          (NewErrConflict ''authoritative Deployment evidence is required'')
       (try_then (read grant pin (xp_DeploymentID t) s) (\<lambda>ev.
        fail_if (xe_OperationID ev \<noteq> xq_OperationID c \<or> xe_DeploymentID ev \<noteq> xp_DeploymentID t
            \<or> xe_EnvironmentUUID ev \<noteq> pn_EnvironmentUUID pin \<or> xe_ProjectUUID ev \<noteq> pn_ProjectUUID pin)
          (NewErrConflict ''Deployment evidence belongs to another operation or Environment'')
       (try_then (if xe_Status ev = ''succeeded''
            then CheckEnvironmentAdmissionEpoch (xq_OrgID c) (pn_EnvironmentUUID pin) (xe_AdmissionEpoch ev) s else Inr ()) (\<lambda>_.
        settle_override c pin t ev))))))"

section \<open>The command\<close>

definition validate_pin_command :: "ExternalPinCommand \<Rightarrow> model_error option" where
  "validate_pin_command c =
     (if xq_OrgID c = '''' \<or> \<not> externalPluginIdentity (xq_PluginID c) \<or> xq_OperationID c = Nil_uuid \<or> xq_ActorID c = Nil_uuid
        \<or> xq_ActorID c = ''ffffffff-ffff-ffff-ffff-ffffffffffff'' \<or> xq_GrantFence c \<le> 0 \<or> xq_RequestID c = '''' \<or> length (xq_RequestID c) > 128
        \<or> has_line_break (xq_RequestID c) \<or> TrimSpace (xq_Reason c) = '''' \<or> xq_Targets c = [] \<or> length (xq_Targets c) > 1000
      then Some (NewErrBadRequest ''exact bounded Pin command identity and targets are required'')
      else if \<not> List.member [''begin'', ''reconcile'', ''restore'', ''cancel''] (xq_Action c)
      then Some (NewErrBadRequest ''unsupported operation-bound Pin action'')
      else None)"

definition check_pin_grant :: "ExternalPinCommand \<Rightarrow> ExternalOperationGrant \<Rightarrow> model_error option" where
  "check_pin_grant c grant =
     (if gr_Revision grant \<noteq> xq_GrantFence c \<or> \<not> List.member (oi_Actions (gr_Intent grant)) (''pin.override.'' @ xq_Action c)
      then Some (NewErrConflict ''Pin action is outside the current frozen operation grant'')
      else if (xq_Action c = ''begin'' \<or> xq_Action c = ''restore'') \<and> gr_State grant \<noteq> ''active''
      then Some (NewErrConflict ''Pin action requires an active operation'')
      else if xq_Action c \<noteq> ''begin'' \<and> xq_ActorID c \<noteq> gr_ActorID grant
      then Some (NewErrConflict ''Pin reconciliation requires the current controller'')
      else None)"

text \<open>The pins of the targets, in the order of their identifiers.\<close>

fun load_pins ::
  "string \<Rightarrow> ExternalOperationGrant \<Rightarrow> uuid option \<Rightarrow> ExternalPinTarget list \<Rightarrow> db
   \<Rightarrow> (ExternalPinTarget \<times> EnvironmentModuleVersionPin) list result" where
  "load_pins org grant previous [] s = Inr []"
| "load_pins org grant previous (t # ts) s =
     fail_if (xp_PinID t = Nil_uuid \<or> xp_ExpectedResourceVersion t \<le> 0 \<or> previous = Some (xp_PinID t))
       (NewErrBadRequest ''Pin targets must be distinct exact identities and revisions'')
    (try_then (GetEnvironmentModuleVersionPin org (xp_PinID t) s) (\<lambda>pin.
     fail_if (\<not> pin_in_scope grant pin) (NewErrConflict ''Pin is outside the frozen operation scope'')
    (try_then (load_pins org grant (Some (xp_PinID t)) ts s) (\<lambda>rest. Inr ((t, pin) # rest)))))"

definition apply_pin ::
  "evidence_reader option \<Rightarrow> (uuid \<Rightarrow> uuid) \<Rightarrow> timestamp \<Rightarrow> ExternalOperationGrant \<Rightarrow> ExternalPinCommand
   \<Rightarrow> ExternalPinTarget \<times> EnvironmentModuleVersionPin \<Rightarrow> EnvironmentModuleVersionPin list \<times> db
   \<Rightarrow> (EnvironmentModuleVersionPin list \<times> db) result" where
  "apply_pin reader fresh now grant c = (\<lambda>(t, pin) (done, s).
     try_then (externalPinDecision reader grant c pin t s) (\<lambda>(target, event, version, deployment).
     try_then (TransitionEnvironmentModuleVersionPin (xq_OrgID c) (pn_ID pin) (xp_ExpectedResourceVersion t) target event (xq_ActorID c)
         ''addon'' (xq_Reason c) (Some (xq_OperationID c)) version deployment (fresh (pn_ID pin)) now s) (\<lambda>(updated, s').
     Inr (done @ [updated], s'))))"

definition ApplyExternalPinCommand ::
  "(ExternalPinCommand \<Rightarrow> string) \<Rightarrow> evidence_reader option \<Rightarrow> (uuid \<Rightarrow> uuid) \<Rightarrow> timestamp \<Rightarrow> ExternalPinCommand \<Rightarrow> db
   \<Rightarrow> (EnvironmentModuleVersionPin list \<times> db) result" where
  "ApplyExternalPinCommand digest reader fresh now command s =
     fail_some (validate_pin_command command)
    (try_then (readExternalGrant (xq_OrgID command) (xq_PluginID command) (xq_OperationID command) s) (\<lambda>grant.
     fail_some (check_pin_grant command grant)
    (let c = command\<lparr>xq_Targets := sort_key xp_PinID (xq_Targets command)\<rparr> in
     try_then (load_pins (xq_OrgID c) grant None (xq_Targets c) s) (\<lambda>found.
     let scope = externalPinCommandScope (xq_PluginID c) (xq_OperationID c); fingerprint = digest c in
     case GetModuleCoreCommand (xq_OrgID c) scope (xq_RequestID c) s of
       Some (prior, response) \<Rightarrow>
         fail_if (fingerprint \<noteq> prior) (NewErrConflict ''Pin request identity was used by another command or actor'')
        (case response of
           ResponsePinArray result \<Rightarrow> Inr (result, s)
         | ResponsePins receipt \<Rightarrow> Inr (pc_Pins receipt, s)
         | ResponseJSON _ \<Rightarrow> Inl (ErrInternal ''json: cannot unmarshal''))
     | None \<Rightarrow>
         try_then (try_fold (apply_pin reader fresh now grant c) found ([], s)) (\<lambda>(result, s1).
         try_then (StoreModuleCoreCommand (xq_OrgID c) scope (xq_RequestID c) fingerprint (xq_ActorID c)
             (ResponsePins \<lparr>pc_OperationID = xq_OperationID c, pc_RequestID = xq_RequestID c, pc_Action = xq_Action c, pc_Pins = result\<rparr>) s1)
           (\<lambda>s2. Inr (result, s2)))))))"
section \<open>What a command does\<close>

text \<open>The move of a pin that each action makes.\<close>

definition pin_move :: "string \<Rightarrow> PinStatus \<Rightarrow> PinStatus \<Rightarrow> bool" where
  "pin_move action before after \<longleftrightarrow>
     (action, before, after) \<in> {(''begin'', PinActive, PinOverridePending), (''cancel'', PinOverridePending, PinActive),
       (''reconcile'', PinOverridePending, PinOverridden), (''reconcile'', PinOverridePending, PinActive), (''restore'', PinOverridden, PinActive)}"

lemma decision_moves:
  assumes "externalPinDecision reader grant c pin t s = Inr (target, event, version, deployment)"
    "xq_Action c \<in> {''begin'', ''reconcile'', ''restore'', ''cancel''}"
  shows "pin_move (xq_Action c) (pn_Status pin) target \<and> (xq_Action c = ''cancel'' \<longrightarrow> \<not> dispatched c (pn_EnvironmentUUID pin) s)
    \<and> (xq_Action c \<noteq> ''begin'' \<longrightarrow> pn_OverrideOperationID pin = Some (xq_OperationID c))"
proof -
  consider "xq_Action c = ''begin''" | "xq_Action c = ''cancel''" | "xq_Action c \<in> {''reconcile'', ''restore''}" using assms(2) by blast
  then show ?thesis
  proof cases
    case 1
    then show ?thesis using assms(1) by (auto simp: externalPinDecision_def begin_override_def pin_move_def)
  next
    case 2
    then show ?thesis using assms(1) by (auto simp: externalPinDecision_def cancel_override_def pin_move_def)
  next
    case 3
    then obtain ev where "settle_override c pin t ev = Inr (target, event, version, deployment)"
      "pn_OverrideOperationID pin = Some (xq_OperationID c)"
      using assms(1) by (auto simp: externalPinDecision_def split: option.splits)
    then show ?thesis using 3 by (auto simp: settle_override_def pin_move_def Let_def split: if_splits)
  qed
qed

definition pin_at :: "string \<Rightarrow> uuid \<Rightarrow> db \<Rightarrow> EnvironmentModuleVersionPin option" where
  "pin_at org i s = find (\<lambda>p. pn_OrgID p = org \<and> pn_ID p = i) (pins s)"

lemma transition_pin_at:
  assumes "TransitionEnvironmentModuleVersionPin org i e target etype actor atype reason op tv dep ev now s = Inr (updated, s')"
    "pin_at org i s = Some pin" "pn_Status pin \<noteq> target"
  shows "pn_ResourceVersion pin = e" "pins_only s s'" "j \<noteq> i \<Longrightarrow> pin_at org j s' = pin_at org j s"
    "\<exists>q. pin_at org i s' = Some q \<and> pn_Status q = target \<and> pn_ResourceVersion q = e + 1"
proof -
  obtain f where f: "pn_ResourceVersion pin = e" "pins_only s s'" "pins s' = upd_where (\<lambda>p. pn_OrgID p = org \<and> pn_ID p = i) f (pins s)"
    "\<forall>x. pn_ID (f x) = pn_ID x \<and> pn_OrgID (f x) = pn_OrgID x \<and> pn_Status (f x) = target \<and> pn_ResourceVersion (f x) = pn_ResourceVersion x + 1"
    using assms(1) by (rule transition_pin_Inr) (use assms(2,3) in \<open>auto simp: pin_at_def\<close>)
  show "pn_ResourceVersion pin = e" "pins_only s s'" by (rule f)+
  show "pin_at org j s' = pin_at org j s" if "j \<noteq> i"
  proof -
    have "find (\<lambda>p. pn_OrgID p = org \<and> pn_ID p = j) (upd_where (\<lambda>p. pn_OrgID p = org \<and> pn_ID p = i) f rows)
        = find (\<lambda>p. pn_OrgID p = org \<and> pn_ID p = j) rows" for rows
      using f(4) that by (induction rows) auto
    then show ?thesis by (simp add: pin_at_def f(3))
  qed
  have "pn_OrgID pin = org \<and> pn_ID pin = i" using assms(2) by (auto simp: pin_at_def dest: find_in_set)
  then have "pin_at org i s' = Some (f pin)" using assms(2) f(4) by (simp add: pin_at_def f(3) find_upd_where)
  then show "\<exists>q. pin_at org i s' = Some q \<and> pn_Status q = target \<and> pn_ResourceVersion q = e + 1" using f(1,4) by auto
qed

definition moved :: "ExternalPinCommand \<Rightarrow> ExternalPinTarget \<Rightarrow> EnvironmentModuleVersionPin \<Rightarrow> db \<Rightarrow> bool" where
  "moved c t pin s' \<longleftrightarrow> pn_ResourceVersion pin = xp_ExpectedResourceVersion t
     \<and> (\<exists>q. pin_at (xq_OrgID c) (pn_ID pin) s' = Some q \<and> pin_move (xq_Action c) (pn_Status pin) (pn_Status q)
          \<and> pn_ResourceVersion q = pn_ResourceVersion pin + 1)"

lemma pin_move_irrefl: "pin_move action a b \<Longrightarrow> a \<noteq> b"
  by (auto simp: pin_move_def)

lemma apply_pins_moved:
  assumes "try_fold (apply_pin reader fresh now grant c) found (acc, s) = Inr (result, s')"
    "xq_Action c \<in> {''begin'', ''reconcile'', ''restore'', ''cancel''}" "distinct (map (\<lambda>x. pn_ID (snd x)) found)"
    "\<forall>x \<in> set found. pin_at (xq_OrgID c) (pn_ID (snd x)) s = Some (snd x)"
  shows "pins_only s s' \<and> (\<forall>x \<in> set found. moved c (fst x) (snd x) s'
      \<and> (xq_Action c = ''cancel'' \<longrightarrow> \<not> dispatched c (pn_EnvironmentUUID (snd x)) s))
    \<and> (\<forall>j. j \<notin> (\<lambda>x. pn_ID (snd x)) ` set found \<longrightarrow> pin_at (xq_OrgID c) j s' = pin_at (xq_OrgID c) j s)"
  using assms(1,3,4)
proof (induction found arbitrary: acc s)
  case (Cons x found)
  obtain t pin where x: "x = (t, pin)" by (cases x)
  let ?org = "xq_OrgID c"
  have at: "pin_at ?org (pn_ID pin) s = Some pin" using Cons.prems(3) x by simp
  obtain target event version deployment updated s1 where
    d: "externalPinDecision reader grant c pin t s = Inr (target, event, version, deployment)"
    and tr: "TransitionEnvironmentModuleVersionPin ?org (pn_ID pin) (xp_ExpectedResourceVersion t) target event (xq_ActorID c)
         ''addon'' (xq_Reason c) (Some (xq_OperationID c)) version deployment (fresh (pn_ID pin)) now s = Inr (updated, s1)"
    and rest: "try_fold (apply_pin reader fresh now grant c) found (acc @ [updated], s1) = Inr (result, s')"
    using Cons.prems(1) by (auto simp: x apply_pin_def split: sum.splits)
  have move: "pin_move (xq_Action c) (pn_Status pin) target" "xq_Action c = ''cancel'' \<longrightarrow> \<not> dispatched c (pn_EnvironmentUUID pin) s"
    using decision_moves [OF d assms(2)] by simp_all
  note st = transition_pin_at [OF tr at pin_move_irrefl [OF move(1)]]
  have fresh_id: "pn_ID pin \<notin> (\<lambda>x. pn_ID (snd x)) ` set found" "distinct (map (\<lambda>x. pn_ID (snd x)) found)"
    using Cons.prems(2) by (simp_all add: x)
  have "pin_at ?org (pn_ID (snd y)) s1 = Some (snd y)" if y: "y \<in> set found" for y
  proof -
    have "pn_ID (snd y) \<noteq> pn_ID pin" using fresh_id(1) y by (metis imageI)
    then show ?thesis using st(3) Cons.prems(3) y by simp
  qed
  then have IH: "pins_only s1 s'" "\<forall>y \<in> set found. moved c (fst y) (snd y) s'
      \<and> (xq_Action c = ''cancel'' \<longrightarrow> \<not> dispatched c (pn_EnvironmentUUID (snd y)) s1)"
    "\<forall>j. j \<notin> (\<lambda>x. pn_ID (snd x)) ` set found \<longrightarrow> pin_at ?org j s' = pin_at ?org j s1"
    using Cons.IH [OF rest fresh_id(2)] by blast+
  have "dispatches s1 = dispatches s" using pins_only_same [OF st(2)] by simp
  then have disp: "dispatched c env s1 = dispatched c env s" for env by (simp add: dispatched_def)
  obtain q where "pin_at ?org (pn_ID pin) s1 = Some q" "pn_Status q = target" "pn_ResourceVersion q = xp_ExpectedResourceVersion t + 1"
    using st(4) by blast
  then have "moved c t pin s'" using IH(3) fresh_id(1) st(1) move(1) by (simp add: moved_def)
  then show ?case using IH move(2) st(3) pins_only_trans [OF st(2) IH(1)] by (auto simp: x disp)
qed simp

lemma load_pins_found:
  assumes "load_pins org grant previous ts s = Inr found"
  shows "map fst found = ts \<and> (\<forall>x \<in> set found. pin_at org (pn_ID (snd x)) s = Some (snd x) \<and> pn_ID (snd x) = xp_PinID (fst x)
    \<and> pin_in_scope grant (snd x))"
  using assms
proof (induction org grant previous ts s arbitrary: found rule: load_pins.induct)
  case (2 org grant previous t ts s)
  obtain pin rest where p: "GetEnvironmentModuleVersionPin org (xp_PinID t) s = Inr pin" "pin_in_scope grant pin"
    and ok: "\<not> (xp_PinID t = Nil_uuid \<or> xp_ExpectedResourceVersion t \<le> 0 \<or> previous = Some (xp_PinID t))"
    and r: "load_pins org grant (Some (xp_PinID t)) ts s = Inr rest" and found: "found = (t, pin) # rest"
    using 2(2) by auto
  have f: "pin_at org (xp_PinID t) s = Some pin" using p(1) by (simp add: GetEnvironmentModuleVersionPin_def pin_at_def)
  then have "pn_ID pin = xp_PinID t" by (auto simp: pin_at_def dest: find_in_set)
  moreover have "map fst rest = ts \<and> (\<forall>x \<in> set rest. pin_at org (pn_ID (snd x)) s = Some (snd x) \<and> pn_ID (snd x) = xp_PinID (fst x)
    \<and> pin_in_scope grant (snd x))" by (rule "2.IH" [OF p(1) r])
  ultimately show ?case using f p(2) by (auto simp: found)
qed simp

lemma load_pins_distinct:
  assumes "load_pins org grant previous ts s = Inr found" "sorted (map xp_PinID ts)"
  shows "distinct (map xp_PinID ts)"
  using assms
proof (induction ts arbitrary: previous found)
  case (Cons t ts)
  then obtain rest where r: "load_pins org grant (Some (xp_PinID t)) ts s = Inr rest" by auto
  have "xp_PinID t \<notin> set (map xp_PinID ts)"
  proof (cases ts)
    case (Cons u us)
    then have "xp_PinID t \<noteq> xp_PinID u" using r by auto
    then show ?thesis using Cons.prems(2) Cons by (auto simp: less_le)
  qed simp
  then show ?case using Cons.IH [OF r] Cons.prems(2) by simp
qed simp
lemma apply_pins_keep:
  assumes "try_fold (apply_pin reader fresh now grant c) found (acc, s) = Inr (result, s')" "delivery_inv s" "pins_inv s"
  shows "delivery_inv s' \<and> pins_inv s'"
proof -
  have "delivery_inv (snd (result, s')) \<and> pins_inv (snd (result, s'))"
  proof (rule try_fold_invariant [where I = "\<lambda>x. delivery_inv (snd x) \<and> pins_inv (snd x)", OF assms(1)])
    fix x and a b :: "EnvironmentModuleVersionPin list \<times> db"
    assume I: "delivery_inv (snd a) \<and> pins_inv (snd a)" and st: "apply_pin reader fresh now grant c x a = Inr b"
    obtain i e target event op version deployment ev updated where
      tr: "TransitionEnvironmentModuleVersionPin (xq_OrgID c) i e target event (xq_ActorID c) ''addon'' (xq_Reason c) op version deployment ev now
         (snd a) = Inr (updated, snd b)" using st by (cases a; cases x) (auto simp: apply_pin_def)
    show "delivery_inv (snd b) \<and> pins_inv (snd b)"
      using transition_pin_delivery [OF tr] transition_pin_progress [OF tr] I by (simp add: delivers_def pin_progress_def)
  qed (use assms(2,3) in simp)
  then show ?thesis by simp
qed

lemma store_frame:
  assumes "StoreModuleCoreCommand org scope k fp actor response s = Inr s'"
  shows "\<exists>rows. s' = s\<lparr>core_commands := rows\<rparr>"
  using assms by (auto simp: StoreModuleCoreCommand_def)

lemma apply_pin_command_Inr:
  assumes "ApplyExternalPinCommand digest reader fresh now c s = Inr (result, s')"
    "GetModuleCoreCommand (xq_OrgID c) (externalPinCommandScope (xq_PluginID c) (xq_OperationID c)) (xq_RequestID c) s = None"
  obtains grant found s1 rows where "validate_pin_command c = None" "check_pin_grant c grant = None"
    "load_pins (xq_OrgID c) grant None (sort_key xp_PinID (xq_Targets c)) s = Inr found"
    "try_fold (apply_pin reader fresh now grant (c\<lparr>xq_Targets := sort_key xp_PinID (xq_Targets c)\<rparr>)) found ([], s) = Inr (result, s1)"
    "s' = s1\<lparr>core_commands := rows\<rparr>"
proof -
  obtain grant where g: "validate_pin_command c = None" "readExternalGrant (xq_OrgID c) (xq_PluginID c) (xq_OperationID c) s = Inr grant"
    "check_pin_grant c grant = None" using assms(1) by (auto simp: ApplyExternalPinCommand_def)
  note a = assms(1) [unfolded ApplyExternalPinCommand_def g, simplified Let_def, simplified, unfolded assms(2), simplified]
  obtain found s1 where f: "load_pins (xq_OrgID c) grant None (sort_key xp_PinID (xq_Targets c)) s = Inr found"
    "try_fold (apply_pin reader fresh now grant (c\<lparr>xq_Targets := sort_key xp_PinID (xq_Targets c)\<rparr>)) found ([], s) = Inr (result, s1)"
    "\<exists>rows. s' = s1\<lparr>core_commands := rows\<rparr>"
    using a store_frame by (fastforce simp: assms(2) split: prod.splits)
  then show thesis using that g by blast
qed
section \<open>An override that begins\<close>

definition example_pin_command :: ExternalPinCommand where
  "example_pin_command = \<lparr>xq_OrgID = ''acme'', xq_PluginID = ''com.acme'', xq_OperationID = ''op1'', xq_GrantFence = 2, xq_ActorID = ''alice'',
     xq_RequestID = ''r1'', xq_Action = ''begin'', xq_Reason = ''ship'',
     xq_Targets = [\<lparr>xp_PinID = ''p1'', xp_ExpectedResourceVersion = 1, xp_TargetVersionUUID = ''h2'', xp_DeploymentID = Nil_uuid\<rparr>]\<rparr>"

definition example_grant :: ExternalOperationGrant where
  "example_grant = \<lparr>gr_OrgID = ''acme'', gr_PluginID = ''com.acme'', gr_OperationID = ''op1'', gr_ActorID = ''alice'',
     gr_SourceOperation = ''rollout'', gr_Intent = example_intent\<lparr>oi_Actions := [''pin.override.begin'']\<rparr>,
     gr_BaselineDefaults = [(''m1'', Some ''h1'')], gr_Revision = 2, gr_State = ''active'', gr_SafetyActivation = False\<rparr>"

definition example_override_db :: db where
  "example_override_db = example_admission_db\<lparr>grants := [example_grant]\<rparr>"

lemma example_override_inv: "delivery_inv example_override_db" "pins_inv example_override_db"
proof -
  show "delivery_inv example_override_db"
    by (rule frame_delivery [OF _ _ _ _ example_delivery_inv, unfolded delivers_def, THEN conjunct1]) (simp_all add: example_override_db_def)
  show "pins_inv example_override_db"
    using example_pins_inv by (simp add: pins_inv_def example_override_db_def example_admission_db_def)
qed

lemma example_override:
  "\<exists>r s'. ApplyExternalPinCommand xq_RequestID None (\<lambda>_. ''v2'') 7 example_pin_command example_override_db = Inr (r, s')"
  "GetModuleCoreCommand ''acme'' (externalPinCommandScope ''com.acme'' ''op1'') ''r1'' example_override_db = None"
proof -
  let ?c = "example_pin_command" and ?s = "example_override_db"
  let ?t = "\<lparr>xp_PinID = ''p1'', xp_ExpectedResourceVersion = 1, xp_TargetVersionUUID = ''h2'', xp_DeploymentID = Nil_uuid\<rparr>"
  have f: "core_commands ?s = []" "grant_commands ?s = []" "pins ?s = [example_pin ''p1'' PinActive]"
    by (simp_all add: example_override_db_def example_tables)
      (simp_all add: example_admission_db_def example_pins_db_def example_catalogue_db_def example_types_db_def empty_db_def)
  then show g: "GetModuleCoreCommand ''acme'' (externalPinCommandScope ''com.acme'' ''op1'') ''r1'' ?s = None"
    by (simp add: GetModuleCoreCommand_def)
  have v: "validate_pin_command ?c = None" using example_reason example_identity
    by (simp add: validate_pin_command_def example_pin_command_def Nil_uuid_def has_line_break_def)
  let ?g = "example_grant"
  have gs: "grants ?s = [?g]" by (simp add: example_override_db_def)
  have r: "readExternalGrant ''acme'' ''com.acme'' ''op1'' ?s = Inr ?g"
    by (simp add: readExternalGrant_def gs f grant_at_def Let_def example_grant_def)
  have cg: "check_pin_grant ?c ?g = None" by (simp add: check_pin_grant_def example_pin_command_def example_grant_def)
  have scope: "pin_in_scope ?g (example_pin ''p1'' PinActive)" and tv: "map_at (Some (oi_TargetVersions (gr_Intent ?g))) ''m1'' = ''h2''"
    by (simp_all add: pin_in_scope_def example_pin_def example_grant_def example_intent_def map_at_def map_entries_def Nil_uuid_def)
  have l: "load_pins ''acme'' ?g None [?t] ?s = Inr [(?t, example_pin ''p1'' PinActive)]"
    using scope by (simp add: GetEnvironmentModuleVersionPin_def f example_pin_def Nil_uuid_def)
  have d: "externalPinDecision None ?g ?c (example_pin ''p1'' PinActive) ?t ?s = Inr (PinOverridePending, ''override_requested'', Some ''h2'', None)"
    using tv by (simp add: externalPinDecision_def begin_override_def example_pin_command_def example_pin_def
        GetModuleCatalogue_def GetCoreModuleVersion_def module_matches_def version_matches_def in_module_def scanModuleCatalogue_def
        scanCoreModuleVersion_def example_override_db_def example_admission_db_def example_pins_db_def example_catalogue_db_def example_version_def)
  have "\<exists>p s'. TransitionEnvironmentModuleVersionPin ''acme'' ''p1'' 1 PinOverridePending ''override_requested'' ''alice'' ''addon'' ''ship'' (Some ''op1'')
     (Some ''h2'') None ''v2'' 7 ?s = Inr (p, s')"
    by (simp add: TransitionEnvironmentModuleVersionPin_def example_reason GetEnvironmentModuleVersionPin_def f
      example_pin_def ValidatePinTransition_def override_complete_def transition_pin_def update_rows_def pins_constraints_def
      keys_unique_def protected_key_def protects_def insert_row.simps violates_def pin_events_constraints_def
      next_event_revision_def Let_def coalesce_opt_def example_override_db_def example_admission_db_def example_pins_db_def)
  then obtain p s' where t: "TransitionEnvironmentModuleVersionPin ''acme'' ''p1'' 1 PinOverridePending ''override_requested'' ''alice'' ''addon'' ''ship''
     (Some ''op1'') (Some ''h2'') None ''v2'' 7 ?s = Inr (p, s')" by metis
  have core: "core_commands s' = []"
  proof -
    have "pins_only ?s s'" using t by (rule transition_pin_Inr) simp_all
    then show ?thesis using f(1) by (auto simp: pins_only_def)
  qed
  have eqs: "xq_OrgID ?c = ''acme''" "xq_PluginID ?c = ''com.acme''" "xq_OperationID ?c = ''op1''" "xq_RequestID ?c = ''r1''"
    "xq_ActorID ?c = ''alice''" "xq_Reason ?c = ''ship''" "xq_Targets ?c = [?t]" "?c\<lparr>xq_Targets := [?t]\<rparr> = ?c" "pn_ID (example_pin ''p1'' PinActive) = ''p1''"
    by (simp_all add: example_pin_command_def example_pin_def)
  show "\<exists>r s'. ApplyExternalPinCommand xq_RequestID None (\<lambda>_. ''v2'') 7 ?c ?s = Inr (r, s')"
    using d t by (simp add: ApplyExternalPinCommand_def v eqs r cg l g Let_def apply_pin_def StoreModuleCoreCommand_def insert_row.simps
        core_commands_constraints_def violates_def core del: load_pins.simps)
qed

section \<open>Properties\<close>

text \<open>
  C28. Pin commands of delegated operations are atomic. When such a command is applied for the first time, every
  target pin had the revision that the command names and makes exactly the move of its action: an active pin
  becomes override-pending, a pending one is cancelled, reconciled or, after a rollback, an overridden one is
  restored; a pending override is cancelled only when no dispatch of the operation can have had an effect in the
  environment; every other pin is left alone; and the invariants of pins, admissions and dispatches are kept.
\<close>

theorem external_pin_command_atomic:
  assumes "ApplyExternalPinCommand digest reader fresh now c s = Inr (result, s')"
    "GetModuleCoreCommand (xq_OrgID c) (externalPinCommandScope (xq_PluginID c) (xq_OperationID c)) (xq_RequestID c) s = None"
    "delivery_inv s" "pins_inv s"
  shows "(\<forall>t \<in> set (xq_Targets c). \<exists>pin. pin_at (xq_OrgID c) (xp_PinID t) s = Some pin \<and> moved c t pin s'
       \<and> (xq_Action c = ''cancel'' \<longrightarrow> \<not> dispatched c (pn_EnvironmentUUID pin) s))
    \<and> (\<forall>j. j \<notin> xp_PinID ` set (xq_Targets c) \<longrightarrow> pin_at (xq_OrgID c) j s' = pin_at (xq_OrgID c) j s)
    \<and> delivery_inv s' \<and> pins_inv s'"
  using assms(1,2)
proof (cases rule: apply_pin_command_Inr)
  case (1 grant found s1 rows)
  let ?ts = "sort_key xp_PinID (xq_Targets c)"
  let ?c = "c\<lparr>xq_Targets := ?ts\<rparr>"
  have act: "xq_Action ?c \<in> {''begin'', ''reconcile'', ''restore'', ''cancel''}"
    using 1(1) by (auto simp: validate_pin_command_def split: if_splits)
  have found: "map fst found = ?ts" "\<forall>x \<in> set found. pin_at (xq_OrgID c) (pn_ID (snd x)) s = Some (snd x) \<and> pn_ID (snd x) = xp_PinID (fst x)"
    using load_pins_found [OF 1(3)] by auto
  have ids: "map (\<lambda>x. pn_ID (snd x)) found = map xp_PinID ?ts"
    using found(2) by (simp add: found(1) [symmetric] del: map_map) (simp add: comp_def)
  then have dist: "distinct (map (\<lambda>x. pn_ID (snd x)) found)" using load_pins_distinct [OF 1(3)] by simp
  have "\<forall>x \<in> set found. pin_at (xq_OrgID ?c) (pn_ID (snd x)) s = Some (snd x)" using found(2) by auto
  note eff = apply_pins_moved [OF 1(4) act dist this]
  have m: "\<forall>x \<in> set found. moved ?c (fst x) (snd x) s1 \<and> (xq_Action c = ''cancel'' \<longrightarrow> \<not> dispatched ?c (pn_EnvironmentUUID (snd x)) s)"
    "\<forall>j. j \<notin> (\<lambda>x. pn_ID (snd x)) ` set found \<longrightarrow> pin_at (xq_OrgID c) j s1 = pin_at (xq_OrgID c) j s"
    using eff by simp_all
  have at: "pin_at org j s' = pin_at org j s1" for org j by (simp add: pin_at_def 1(5))
  have "\<exists>pin. pin_at (xq_OrgID c) (xp_PinID t) s = Some pin \<and> moved c t pin s'
       \<and> (xq_Action c = ''cancel'' \<longrightarrow> \<not> dispatched c (pn_EnvironmentUUID pin) s)" if t: "t \<in> set (xq_Targets c)" for t
  proof -
    have "t \<in> set (map fst found)" using t found(1) by simp
    then obtain x where x: "x \<in> set found" "t = fst x" by auto
    then show ?thesis using m(1) found(2) by (intro exI [of _ "snd x"]) (auto simp: moved_def dispatched_def at)
  qed
  moreover have "(\<lambda>x. pn_ID (snd x)) ` set found = xp_PinID ` set (xq_Targets c)"
    using arg_cong [OF ids, of set] by simp
  moreover have "delivery_inv s1" "pins_inv s1" using apply_pins_keep [OF 1(4) assms(3,4)] by simp_all
  then have "delivery_inv s'" "pins_inv s'"
    using frame_delivery [of s' s1] by (simp_all add: 1(5) delivers_def pins_inv_def)
  ultimately show ?thesis using m(2) at by simp
qed

theorem external_pin_command_atomic_witness:
  "\<exists>r s' pin. ApplyExternalPinCommand xq_RequestID None (\<lambda>_. ''v2'') 7 example_pin_command example_override_db = Inr (r, s')
     \<and> pin_at ''acme'' ''p1'' example_override_db = Some pin \<and> moved example_pin_command (hd (xq_Targets example_pin_command)) pin s'"
proof -
  have eqs: "xq_OrgID example_pin_command = ''acme''" "xq_PluginID example_pin_command = ''com.acme''"
    "xq_OperationID example_pin_command = ''op1''" "xq_RequestID example_pin_command = ''r1''"
    "hd (xq_Targets example_pin_command) \<in> set (xq_Targets example_pin_command)" "xp_PinID (hd (xq_Targets example_pin_command)) = ''p1''"
    by (simp_all add: example_pin_command_def)
  obtain r s' where a: "ApplyExternalPinCommand xq_RequestID None (\<lambda>_. ''v2'') 7 example_pin_command example_override_db = Inr (r, s')"
    using example_override(1) by metis
  have n: "GetModuleCoreCommand (xq_OrgID example_pin_command) (externalPinCommandScope (xq_PluginID example_pin_command)
      (xq_OperationID example_pin_command)) (xq_RequestID example_pin_command) example_override_db = None"
    unfolding eqs by (rule example_override(2))
  from external_pin_command_atomic [OF a n example_override_inv] a eqs(5) show ?thesis unfolding eqs(1) using eqs(6) by metis
qed

end
