(* ===== verification/PluginManifest.thy ===== *)
theory PluginManifest
  imports Grants
begin

text \<open>
  The registration manifest of a plugin package (\<^verbatim>\<open>internal/plugins/manifest.go\<close>, the types of
  \<^verbatim>\<open>installations.go\<close> and the entitlement declaration of \<^verbatim>\<open>entitlement.go\<close>) and everything the package
  alone decides about its validity.

  A manifest is the value that \<^verbatim>\<open>DecodeManifest\<close> reads: the decoding of the JSON text by the standard
  library is left out. A JSON object that is read as a Go map is an association list with distinct keys;
  the checks that iterate over such a map return the same error for every entry, so the order of the
  iteration does not matter. Regular expressions are predicates on texts. An error is its message,
  without the values that are formatted into it.

  The theorem of this theory is about the namespaces of capabilities: what one package may declare, grant
  or evaluate is never what a package of another plugin may.
\<close>

section \<open>The parts of a manifest\<close>

record Capability =
  ca_ID :: string
  ca_DisplayName :: string
  ca_Description :: string
  ca_Category :: string
  ca_Level :: string
  ca_Scopes :: "string list"

record HostOperation =
  ho_ID :: string
  ho_Method :: string
  ho_Mutating :: bool

record ContextualAction =
  cx_ID :: string
  cx_ResourceType :: string
  cx_Label :: string
  cx_RequiredOperationID :: string
  cx_RoutePath :: string
  cx_RouteQuery :: "(string \<times> string) list"
  cx_LifecycleStatus :: "string list"
  cx_SemanticVersionRequired :: bool
  cx_Primary :: bool

record UIContribution =
  ui_RequireOrgAdmin :: bool
  ui_SDKVersion :: string
  ui_Origin :: string
  ui_Entrypoint :: string
  ui_RoutePrefix :: string
  ui_NavigationLabel :: string
  ui_CoreOperations :: "HostOperation list"
  ui_ContextualActions :: "ContextualAction list"

record Operation =
  op_RequireOrgAdmin :: bool
  op_RequiredFeature :: string
  op_ID :: string
  op_Method :: string
  op_Path :: string
  op_QueryKeys :: "string list"
  op_Mutating :: bool
  op_Safety :: bool
  op_PathValues :: "(string \<times> string list) list"
  op_SafetyPathValues :: "(string \<times> string list) list"
  op_ServiceActions :: "string list"
  op_ServiceActionPathValues :: "(string \<times> (string \<times> string list) list) list"

record ServiceGrant =
  sg_RequiredFeature :: string
  sg_Action :: string
  sg_Permission :: string
  sg_Scope :: string

record AuthorizationPolicy =
  az_Permission :: string
  az_Scopes :: "string list"

record EntitlementDeclaration =
  el_Mode :: string
  el_Features :: "string list"
  el_Limits :: "string list"

record Manifest =
  mf_RequiredProtocols :: "string list"
  mf_ID :: string
  mf_DisplayName :: string
  mf_Version :: string
  mf_MigrationGeneration :: int
  mf_Capabilities :: "Capability list"
  mf_UI :: "UIContribution option"
  mf_Operations :: "Operation list"
  mf_ServiceGrants :: "ServiceGrant list"
  mf_AuthorizationPolicies :: "AuthorizationPolicy list"
  mf_Entitlement :: "EntitlementDeclaration option"

section \<open>Texts\<close>

text \<open>The first failure of two checks, and a check with one message.\<close>

fun and_then :: "'e option \<Rightarrow> 'e option \<Rightarrow> 'e option" where
  "and_then None k = k"
| "and_then (Some e) k = Some e"

definition refuse_if :: "bool \<Rightarrow> 'e \<Rightarrow> 'e option" where
  "refuse_if c e = (if c then Some e else None)"

lemma and_then_None_iff [simp]: "and_then c k = None \<longleftrightarrow> c = None \<and> k = None"
  by (cases c) auto

lemma refuse_if_None_iff [simp]: "refuse_if c e = None \<longleftrightarrow> \<not> c"
  by (simp add: refuse_if_def)

definition is_lower_char :: "char \<Rightarrow> bool" where
  "is_lower_char c \<longleftrightarrow> CHR ''a'' \<le> c \<and> c \<le> CHR ''z''"

definition is_slug_char :: "char \<Rightarrow> bool" where
  "is_slug_char c \<longleftrightarrow> is_lower_char c \<or> is_digit c"

definition contains_text :: "string \<Rightarrow> string \<Rightarrow> bool" where
  "contains_text s w = list_ex (\<lambda>n. has_prefix (drop n s) w) [0..<Suc (length s)]"

definition cut_prefix :: "string \<Rightarrow> string \<Rightarrow> string option" where
  "cut_prefix p s = (if has_prefix s p then Some (drop (length p) s) else None)"

lemma cut_prefix_Some_iff [simp]: "cut_prefix p s = Some t \<longleftrightarrow> s = p @ t"
  by (auto simp: cut_prefix_def has_prefix_iff dest: has_prefix_take)

definition protocolIdentifier :: "string \<Rightarrow> bool" where
  "protocolIdentifier t =
     (case split_on CHR ''/'' t of
        [c # p, v # d # ds] \<Rightarrow> is_lower_char c \<and> list_all (\<lambda>x. is_slug_char x \<or> x = CHR ''-'') p
          \<and> v = CHR ''v'' \<and> is_digit d \<and> d \<noteq> CHR ''0'' \<and> list_all is_digit ds
      | _ \<Rightarrow> False)"

definition operationIdentifier :: "string \<Rightarrow> bool" where
  "operationIdentifier t =
     (case t of [] \<Rightarrow> False
      | c # w \<Rightarrow> is_letter c \<and> length w \<le> 127
          \<and> list_all (\<lambda>x. is_letter x \<or> is_digit x \<or> List.member [CHR ''_'', CHR ''.'', CHR ''-''] x) w)"

definition localCapability :: "string \<Rightarrow> bool" where
  "localCapability t \<longleftrightarrow>
     t \<noteq> [] \<and> is_lower_char (hd t) \<and> list_all (\<lambda>x. is_slug_char x \<or> x = CHR ''-'') t \<and> is_slug_char (last t)"

definition consoleRoute :: "string \<Rightarrow> bool" where
  "consoleRoute t \<longleftrightarrow>
     t \<noteq> [] \<and> is_slug_char (hd t) \<and> is_slug_char (last t)
     \<and> list_all (\<lambda>x. is_slug_char x \<or> x = CHR ''/'' \<or> x = CHR ''-'') t"

definition contextualQueryKey :: "string \<Rightarrow> bool" where
  "contextualQueryKey t =
     (case t of [] \<Rightarrow> False
      | c # w \<Rightarrow> is_lower_char c \<and> length w \<le> 62 \<and> list_all (\<lambda>x. is_slug_char x \<or> x = CHR ''_'') w)"

definition featureSlug :: "string \<Rightarrow> bool" where
  "featureSlug t =
     (case t of [] \<Rightarrow> False
      | c # w \<Rightarrow> is_lower_char c \<and> length w \<le> 62 \<and> list_all (\<lambda>x. is_slug_char x \<or> x = CHR ''-'') w)"

definition validConsoleRoute :: "string \<Rightarrow> bool" where
  "validConsoleRoute route \<longleftrightarrow> consoleRoute route \<and> \<not> contains_text route ''//''"

definition validRoutePrefix :: "string \<Rightarrow> bool" where
  "validRoutePrefix p = (case cut_prefix ''/'' p of None \<Rightarrow> False | Some route \<Rightarrow> validConsoleRoute route)"

definition safePath :: "string \<Rightarrow> bool" where
  "safePath path \<longleftrightarrow>
     has_prefix path ''/'' \<and> \<not> contains_text path ''//''
     \<and> list_all (\<lambda>x. \<not> List.member [CHR 0x5C, CHR ''%'', CHR ''?'', CHR ''#'', CHR 0x0D, CHR 0x0A] x) path
     \<and> \<not> List.member (split_on CHR ''/'' path) ''..'' \<and> \<not> List.member (split_on CHR ''/'' path) ''.''"

definition reservedHostOperation :: "string \<Rightarrow> bool" where
  "reservedHostOperation i \<longleftrightarrow> has_prefix i ''core.'' \<or> has_prefix i ''iam.''"

text \<open>\<^verbatim>\<open>pathParameter.ReplaceAllString(path, "")\<close>: every \<^verbatim>\<open>{name}\<close> is removed.\<close>

definition parameter_char :: "char \<Rightarrow> bool" where
  "parameter_char c \<longleftrightarrow> is_letter c \<or> is_digit c \<or> c = CHR ''_''"

function remove_parameters :: "string \<Rightarrow> string" where
  "remove_parameters [] = []"
| "remove_parameters (c # s) =
     (case dropWhile parameter_char s of
        d # t \<Rightarrow>
          if c = CHR 0x7B \<and> d = CHR 0x7D \<and> takeWhile parameter_char s \<noteq> [] \<and> is_letter (hd s)
          then remove_parameters t else c # remove_parameters s
      | [] \<Rightarrow> c # remove_parameters s)"
  by pat_completeness auto

lemma dropWhile_shorter: "dropWhile P s = d # t \<Longrightarrow> length t < length s"
  using length_dropWhile_le [of P s] by simp

termination remove_parameters
  by (relation "measure length") (auto dest: dropWhile_shorter)

section \<open>Declarations\<close>

definition maxCapabilityID :: nat where "maxCapabilityID = 255"

definition capabilityLevels :: "string list" where
  "capabilityLevels = [''read'', ''write'', ''manage'']"

definition find_ServiceGrant :: "Manifest \<Rightarrow> string \<Rightarrow> ServiceGrant option" where
  "find_ServiceGrant m action = find (\<lambda>g. sg_Action g = action) (mf_ServiceGrants m)"

definition find_AuthorizationPolicy :: "Manifest \<Rightarrow> string \<Rightarrow> AuthorizationPolicy option" where
  "find_AuthorizationPolicy m permission = find (\<lambda>p. az_Permission p = permission) (mf_AuthorizationPolicies m)"

definition owns :: "Manifest \<Rightarrow> string \<Rightarrow> bool" where
  "owns m capability =
     (case cut_prefix (''plugin.'' @ mf_ID m @ ''.'') capability of None \<Rightarrow> False | Some local \<Rightarrow> localCapability local)"

definition validScopes :: "string list \<Rightarrow> bool" where
  "validScopes scopes \<longleftrightarrow>
     scopes \<noteq> [] \<and> distinct scopes \<and> list_all (List.member [''organization'', ''project'', ''environment'']) scopes"

fun check_capabilities :: "Manifest \<Rightarrow> string list \<Rightarrow> Capability list \<Rightarrow> string option" where
  "check_capabilities m seen [] = None"
| "check_capabilities m seen (c # cs) =
     and_then (refuse_if (List.member seen (ca_ID c) \<or> \<not> owns m (ca_ID c) \<or> length (ca_ID c) > maxCapabilityID)
         ''capabilities must be unique and in the plugin's own namespace'')
    (and_then (refuse_if (TrimSpace (ca_DisplayName c) = [] \<or> TrimSpace (ca_Description c) = [] \<or> TrimSpace (ca_Category c) = [])
         ''capability needs a display name, a description and a category'')
    (and_then (refuse_if (\<not> List.member capabilityLevels (ca_Level c)) ''capability needs the level read, write or manage'')
    (and_then (refuse_if (\<not> validScopes (ca_Scopes c)) ''capability needs unique scopes of organization, project and environment'')
    (check_capabilities m (ca_ID c # seen) cs))))"

definition validateCapabilities :: "Manifest \<Rightarrow> string option" where
  "validateCapabilities m = check_capabilities m [] (mf_Capabilities m)"

fun check_protocols :: "string list \<Rightarrow> string list \<Rightarrow> string option" where
  "check_protocols seen [] = None"
| "check_protocols seen (p # ps) =
     and_then (refuse_if (\<not> protocolIdentifier p \<or> List.member seen p \<or> length p > 128) ''invalid or duplicate protocol'')
    (check_protocols (p # seen) ps)"

fun check_host_operations :: "string list \<Rightarrow> HostOperation list \<Rightarrow> string option" where
  "check_host_operations seen [] = None"
| "check_host_operations seen (o1 # os) =
     and_then (refuse_if (\<not> operationIdentifier (ho_ID o1) \<or> \<not> reservedHostOperation (ho_ID o1) \<or> List.member seen (ho_ID o1)
           \<or> (ho_Method o1 \<noteq> ''GET'' \<and> ho_Method o1 \<noteq> ''POST'') \<or> ho_Method o1 = ''GET'' \<and> ho_Mutating o1)
         ''invalid or duplicate Core host operation'')
    (check_host_operations (ho_ID o1 # seen) os)"

definition validateUIContribution :: "UIContribution \<Rightarrow> string option" where
  "validateUIContribution ui =
     and_then (refuse_if (ui_SDKVersion ui \<noteq> ''1'' \<or> \<not> safePath (ui_Entrypoint ui) \<or> \<not> validRoutePrefix (ui_RoutePrefix ui)
           \<or> ui_NavigationLabel ui = '''') ''invalid plugin UI contribution'')
    (check_host_operations [] (ui_CoreOperations ui))"

definition check_action_constraints :: "Operation \<Rightarrow> string \<times> (string \<times> string list) list \<Rightarrow> string option" where
  "check_action_constraints o1 = (\<lambda>(action, constraints).
     and_then (refuse_if (\<not> List.member (op_ServiceActions o1) action \<or> constraints = [])
         ''service action constraints need a declared action'')
    (first_failure (\<lambda>(parameter, values). refuse_if (\<not> contains_text (op_Path o1) (CHR 0x7B # parameter @ [CHR 0x7D])
           \<or> parameter = ''orgId'' \<or> values = [])
         ''service action constraint must bind a real operation path parameter'') constraints))"

definition check_method :: "Operation \<Rightarrow> string option" where
  "check_method o1 =
     (if op_Method o1 = ''GET'' then refuse_if (op_Mutating o1) ''GET cannot mutate''
      else if op_Method o1 = ''POST'' then None
      else if List.member [''PUT'', ''PATCH'', ''DELETE''] (op_Method o1)
      then refuse_if (\<not> op_Mutating o1) ''write operation must be marked mutating''
      else Some ''unsupported plugin method'')"

fun check_operations :: "Manifest \<Rightarrow> string list \<Rightarrow> Operation list \<Rightarrow> string option" where
  "check_operations m seen [] = None"
| "check_operations m seen (o1 # os) =
     and_then (refuse_if (\<not> operationIdentifier (op_ID o1) \<or> reservedHostOperation (op_ID o1) \<or> List.member seen (op_ID o1)
           \<or> \<not> safePath (op_Path o1)) ''invalid or duplicate plugin operation'')
    (and_then (refuse_if (has_prefix (op_Path o1) ''/.well-known/'') ''plugin operations cannot use the reserved path prefix'')
    (and_then (first_failure (\<lambda>action. refuse_if (find_ServiceGrant m action = None)
         ''operation refers to undeclared service action'') (op_ServiceActions o1))
    (and_then (first_failure (check_action_constraints o1) (op_ServiceActionPathValues o1))
    (and_then (check_method o1)
    (and_then (refuse_if (List.member (remove_parameters (op_Path o1)) CHR 0x7B \<or> List.member (remove_parameters (op_Path o1)) CHR 0x7D)
         ''invalid path template'')
    (check_operations m (op_ID o1 # seen) os))))))"

definition validateOperations :: "Manifest \<Rightarrow> string option" where
  "validateOperations m = check_operations m [] (mf_Operations m)"

fun check_statuses :: "string list \<Rightarrow> string list \<Rightarrow> string option" where
  "check_statuses seen [] = None"
| "check_statuses seen (st # sts) =
     and_then (refuse_if (\<not> List.member [''proposed'', ''default'', ''deprecated'', ''defective''] st \<or> List.member seen st)
         ''invalid contextual lifecycle condition'')
    (check_statuses (st # seen) sts)"

fun check_contextual_actions :: "string list \<Rightarrow> string list \<Rightarrow> ContextualAction list \<Rightarrow> string option" where
  "check_contextual_actions operations seen [] = None"
| "check_contextual_actions operations seen (a # as) =
     and_then (refuse_if (\<not> operationIdentifier (cx_ID a) \<or> List.member seen (cx_ID a) \<or> cx_ResourceType a \<noteq> ''module_version''
           \<or> TrimSpace (cx_Label a) = [] \<or> length (cx_Label a) > 100 \<or> \<not> List.member operations (cx_RequiredOperationID a)
           \<or> \<not> validConsoleRoute (cx_RoutePath a) \<or> cx_LifecycleStatus a = [])
         ''invalid contextual action identity, route, condition or required plugin operation'')
    (and_then (check_statuses [] (cx_LifecycleStatus a))
    (and_then (first_failure (\<lambda>(key, placeholder). refuse_if (\<not> contextualQueryKey key
           \<or> \<not> List.member [''$module_id'', ''$semantic_version'', ''$version_uuid''] placeholder)
         ''invalid contextual query substitution'') (cx_RouteQuery a))
    (check_contextual_actions operations (cx_ID a # seen) as)))"

definition validateContextualActions :: "ContextualAction list \<Rightarrow> string list \<Rightarrow> string option" where
  "validateContextualActions actions operations =
     and_then (refuse_if (length actions > 100) ''too many contextual actions'')
    (check_contextual_actions operations [] actions)"

fun check_service_grants :: "Manifest \<Rightarrow> string list \<Rightarrow> ServiceGrant list \<Rightarrow> string option" where
  "check_service_grants m seen [] = None"
| "check_service_grants m seen (g # gs) =
     and_then (refuse_if (\<not> operationIdentifier (sg_Action g) \<or> List.member seen (sg_Action g) \<or> \<not> owns m (sg_Permission g)
           \<or> (sg_Scope g \<noteq> ''organization'' \<and> sg_Scope g \<noteq> ''environment''))
         ''service grants require unique actions, owned capabilities and exact scope'')
    (check_service_grants m (sg_Action g # seen) gs)"

fun check_policies :: "Manifest \<Rightarrow> string list \<Rightarrow> AuthorizationPolicy list \<Rightarrow> string option" where
  "check_policies m seen [] = None"
| "check_policies m seen (p # ps) =
     and_then (refuse_if (List.member seen (az_Permission p) \<or> \<not> owns m (az_Permission p) \<or> \<not> validScopes (az_Scopes p))
         ''authorization policies require unique owned capabilities and exact scopes'')
    (check_policies m (az_Permission p # seen) ps)"

definition check_authorization_check :: "Manifest \<Rightarrow> string option" where
  "check_authorization_check m =
     (if mf_AuthorizationPolicies m \<noteq> []
      then refuse_if (case find_ServiceGrant m ''authorization.check'' of None \<Rightarrow> True
          | Some g \<Rightarrow> (case find_AuthorizationPolicy m (sg_Permission g) of None \<Rightarrow> True
              | Some p \<Rightarrow> \<not> List.member (az_Scopes p) (sg_Scope g)))
        ''authorization policies require an authorization.check grant covered by policy''
      else refuse_if (find_ServiceGrant m ''authorization.check'' \<noteq> None)
        ''authorization.check requires explicit authorization policies'')"

definition validateServiceGrants :: "Manifest \<Rightarrow> string option" where
  "validateServiceGrants m =
     (if mf_ServiceGrants m = []
      then refuse_if (mf_AuthorizationPolicies m \<noteq> []) ''authorization policies require explicit service grants''
      else and_then (check_service_grants m [] (mf_ServiceGrants m))
          (and_then (check_policies m [] (mf_AuthorizationPolicies m))
          (check_authorization_check m)))"

definition ValidateApprovalPolicies :: "Manifest \<Rightarrow> (string \<times> string) list \<Rightarrow> string option" where
  "ValidateApprovalPolicies m policies =
     and_then (refuse_if (policies \<noteq> [] \<and> mf_ServiceGrants m = []) ''deployment approvals require explicit service grants'')
    (first_failure (\<lambda>(scope, permission).
       refuse_if (\<not> List.member [''environment'', ''project''] scope
           \<or> (case find_AuthorizationPolicy m permission of None \<Rightarrow> True | Some p \<Rightarrow> \<not> List.member (az_Scopes p) scope))
         ''deployment approvals require an owned authorization policy for the exact scope'') policies)"

definition EntitlementRequired :: string where "EntitlementRequired = ''required''"

fun sorted_slugs :: "string list \<Rightarrow> bool" where
  "sorted_slugs [] = True"
| "sorted_slugs [f] = featureSlug f"
| "sorted_slugs (f # f' # fs) = (featureSlug f \<and> f < f' \<and> sorted_slugs (f' # fs))"

definition validateEntitlementDeclaration :: "Manifest \<Rightarrow> string option" where
  "validateEntitlementDeclaration m =
     (if (case mf_Entitlement m of None \<Rightarrow> True | Some d \<Rightarrow> el_Mode d = ''none'')
      then and_then (refuse_if (case mf_Entitlement m of None \<Rightarrow> False | Some d \<Rightarrow> el_Features d \<noteq> [] \<or> el_Limits d \<noteq> [])
            ''unlicensed plugin cannot declare entitlement features or limits'')
          (and_then (refuse_if (list_ex (\<lambda>o1. op_RequiredFeature o1 \<noteq> '''') (mf_Operations m))
            ''operation requires an undeclared entitlement feature'')
          (refuse_if (list_ex (\<lambda>g. sg_RequiredFeature g \<noteq> '''') (mf_ServiceGrants m))
            ''service action requires an undeclared entitlement feature''))
      else (let d = the (mf_Entitlement m) in
           and_then (refuse_if (el_Mode d \<noteq> EntitlementRequired \<or> el_Features d = [] \<or> length (el_Features d) > 64 \<or> el_Limits d \<noteq> [])
             ''entitlement requires bounded declared features and no unsupported limits'')
          (and_then (refuse_if (\<not> sorted_slugs (el_Features d)) ''entitlement features must be sorted unique local slugs'')
          (and_then (refuse_if (list_ex (\<lambda>o1. \<not> List.member (el_Features d) (op_RequiredFeature o1)) (mf_Operations m))
             ''every licensed operation requires a declared feature'')
          (refuse_if (list_ex (\<lambda>g. \<not> List.member (el_Features d) (sg_RequiredFeature g)) (mf_ServiceGrants m))
             ''every licensed service action requires a declared feature'')))))"

definition Validate :: "Manifest \<Rightarrow> string option" where
  "Validate m =
     and_then (validateEntitlementDeclaration m)
    (and_then (refuse_if (\<not> externalPluginIdentity (mf_ID m) \<or> mf_DisplayName m = '''' \<or> semver_groups (mf_Version m) = None)
        ''invalid plugin identity'')
    (and_then (validateCapabilities m)
    (and_then (refuse_if (length (mf_RequiredProtocols m) > 16) ''too many required protocols'')
    (and_then (check_protocols [] (mf_RequiredProtocols m))
    (and_then (refuse_if (mf_MigrationGeneration m < 0) ''the migration generation must not be negative'')
    (and_then (case mf_UI m of None \<Rightarrow> None
        | Some ui \<Rightarrow> and_then (refuse_if (ui_Origin ui \<noteq> '''')
              ''the plugin UI origin is operator configuration, not part of the manifest'')
            (validateUIContribution ui))
    (and_then (validateServiceGrants m)
    (and_then (validateOperations m)
    (case mf_UI m of None \<Rightarrow> None
     | Some ui \<Rightarrow> validateContextualActions (ui_ContextualActions ui) (map op_ID (mf_Operations m)))))))))))"

section \<open>Registrations\<close>

text \<open>What a package contributes (\<^verbatim>\<open>pluginmanager/registrations.go\<close>), one row per contribution.\<close>

datatype registration_definition =
    RegisteredCapability Capability
  | RegisteredOperation Operation
  | RegisteredServiceGrant ServiceGrant
  | RegisteredPolicy AuthorizationPolicy
  | RegisteredUI UIContribution

record PluginRegistration =
  rg_Kind :: string
  rg_Key :: string
  rg_Definition :: registration_definition

definition registrations :: "Manifest \<Rightarrow> PluginRegistration list" where
  "registrations m =
     map (\<lambda>c. \<lparr>rg_Kind = ''capability'', rg_Key = ca_ID c, rg_Definition = RegisteredCapability c\<rparr>) (mf_Capabilities m)
     @ map (\<lambda>o1. \<lparr>rg_Kind = ''operation'', rg_Key = op_ID o1, rg_Definition = RegisteredOperation o1\<rparr>) (mf_Operations m)
     @ map (\<lambda>g. \<lparr>rg_Kind = ''service_grant'', rg_Key = sg_Action g, rg_Definition = RegisteredServiceGrant g\<rparr>) (mf_ServiceGrants m)
     @ map (\<lambda>p. \<lparr>rg_Kind = ''authorization_policy'', rg_Key = az_Permission p, rg_Definition = RegisteredPolicy p\<rparr>)
         (mf_AuthorizationPolicies m)
     @ (case mf_UI m of None \<Rightarrow> []
        | Some ui \<Rightarrow> [\<lparr>rg_Kind = ''ui'', rg_Key = ui_RoutePrefix ui, rg_Definition = RegisteredUI ui\<rparr>])"

section \<open>What a valid manifest guarantees\<close>

lemma cut_prefix_case:
  "(case cut_prefix p s of None \<Rightarrow> False | Some l \<Rightarrow> P l) \<longleftrightarrow> (\<exists>l. s = p @ l \<and> P l)"
proof (cases "cut_prefix p s")
  case None
  then have "s \<noteq> p @ l" for l by (auto simp: cut_prefix_def has_prefix_iff split: if_splits)
  with None show ?thesis by simp
next
  case (Some a)
  moreover from this have "s = p @ a" by simp
  moreover from this have "s = p @ l \<longleftrightarrow> l = a" for l by auto
  ultimately show ?thesis by (metis option.simps(5))
qed

lemma owns_iff:
  "owns m c \<longleftrightarrow> (\<exists>local. c = ''plugin.'' @ mf_ID m @ ''.'' @ local \<and> localCapability local)"
  unfolding owns_def cut_prefix_case by simp

lemma localCapability_no_dot: "localCapability t \<Longrightarrow> CHR ''.'' \<notin> set t"
  by (auto simp: localCapability_def list_all_iff is_slug_char_def is_lower_char_def is_digit_def less_eq_char_def)

lemma split_at_last:
  assumes "u @ x # v = u' @ x # v'" "x \<notin> set v" "x \<notin> set v'"
  shows "u = u' \<and> v = v'"
proof -
  have "takeWhile (\<lambda>y. y \<noteq> x) (rev v @ x # rev u) = rev v" "takeWhile (\<lambda>y. y \<noteq> x) (rev v' @ x # rev u') = rev v'"
    using assms(2,3) by (subst takeWhile_append2; fastforce)+
  moreover have "rev v @ x # rev u = rev v' @ x # rev u'" using arg_cong [OF assms(1), of rev] by simp
  ultimately have "v = v'" by simp
  then show ?thesis using assms(1) by simp
qed

lemma owns_same_plugin: "owns m c \<Longrightarrow> owns m' c \<Longrightarrow> mf_ID m = mf_ID m'"
  by (auto simp: owns_iff dest!: split_at_last localCapability_no_dot)

lemma check_capabilities_None:
  "check_capabilities m seen cs = None \<Longrightarrow>
     (\<forall>c \<in> set cs. owns m (ca_ID c)) \<and> distinct (map ca_ID cs) \<and> set seen \<inter> ca_ID ` set cs = {}"
  by (induction m seen cs rule: check_capabilities.induct) auto

lemma check_operations_None:
  "check_operations m seen os = None \<Longrightarrow>
     (\<forall>x \<in> set os. \<not> reservedHostOperation (op_ID x) \<and> \<not> has_prefix (op_Path x) ''/.well-known/''
        \<and> (op_Method x = ''GET'' \<longrightarrow> \<not> op_Mutating x)
        \<and> (\<forall>a \<in> set (op_ServiceActions x). find_ServiceGrant m a \<noteq> None))
     \<and> distinct (map op_ID os) \<and> set seen \<inter> op_ID ` set os = {}"
proof (induction m seen os rule: check_operations.induct)
  case (2 m seen x os)
  then show ?case by (auto simp: check_method_def split: if_splits)
qed simp

lemma check_service_grants_None:
  "check_service_grants m seen gs = None \<Longrightarrow>
     (\<forall>g \<in> set gs. owns m (sg_Permission g)) \<and> distinct (map sg_Action gs) \<and> set seen \<inter> sg_Action ` set gs = {}"
  by (induction m seen gs rule: check_service_grants.induct) auto

lemma check_policies_None:
  "check_policies m seen ps = None \<Longrightarrow>
     (\<forall>p \<in> set ps. owns m (az_Permission p)) \<and> distinct (map az_Permission ps) \<and> set seen \<inter> az_Permission ` set ps = {}"
  by (induction m seen ps rule: check_policies.induct) auto

lemma validateServiceGrants_None:
  assumes "validateServiceGrants m = None"
  shows "(\<forall>g \<in> set (mf_ServiceGrants m). owns m (sg_Permission g)) \<and> distinct (map sg_Action (mf_ServiceGrants m))
    \<and> (\<forall>p \<in> set (mf_AuthorizationPolicies m). owns m (az_Permission p)) \<and> distinct (map az_Permission (mf_AuthorizationPolicies m))"
  using assms by (auto simp: validateServiceGrants_def split: if_splits
      dest!: check_service_grants_None check_policies_None)

text \<open>
  The capabilities a package refers to: those it declares, those its service grants check and those its
  policies evaluate.
\<close>

definition named_capabilities :: "Manifest \<Rightarrow> string list" where
  "named_capabilities m =
     map ca_ID (mf_Capabilities m) @ map sg_Permission (mf_ServiceGrants m) @ map az_Permission (mf_AuthorizationPolicies m)"

lemma valid_owns: "Validate m = None \<Longrightarrow> c \<in> set (named_capabilities m) \<Longrightarrow> owns m c"
  by (auto simp: Validate_def validateCapabilities_def named_capabilities_def
      dest!: check_capabilities_None validateServiceGrants_None)

lemma approval_owned:
  assumes "Validate m = None" "ValidateApprovalPolicies m policies = None" "(scope, permission) \<in> set policies"
  shows "permission \<in> set (named_capabilities m)"
proof -
  obtain p where "find_AuthorizationPolicy m permission = Some p"
    using assms(2,3) by (fastforce simp: ValidateApprovalPolicies_def split: option.splits)
  then have "p \<in> set (mf_AuthorizationPolicies m)" "az_Permission p = permission"
    unfolding find_AuthorizationPolicy_def using find_in_set by force+
  then show ?thesis by (auto simp: named_capabilities_def)
qed

text \<open>The rows of a valid package have distinct keys, so they can be stored.\<close>

lemma registrations_distinct:
  assumes "Validate m = None"
  shows "distinct (map (\<lambda>r. (rg_Kind r, rg_Key r)) (registrations m))"
proof -
  have "distinct (map ca_ID (mf_Capabilities m))"
    using assms by (auto simp: Validate_def validateCapabilities_def dest!: check_capabilities_None)
  moreover have "distinct (map op_ID (mf_Operations m))"
    using assms by (auto simp: Validate_def validateOperations_def dest!: check_operations_None)
  moreover have "distinct (map sg_Action (mf_ServiceGrants m))" "distinct (map az_Permission (mf_AuthorizationPolicies m))"
    using assms by (auto simp: Validate_def dest!: validateServiceGrants_None)
  ultimately show ?thesis
    by (auto simp: registrations_def distinct_map inj_on_def comp_def split: option.splits)
qed

section \<open>An example\<close>

definition example_manifest :: "string \<Rightarrow> Manifest" where
  "example_manifest v =
     \<lparr>mf_RequiredProtocols = [], mf_ID = ''com.acme'', mf_DisplayName = ''Acme'', mf_Version = v, mf_MigrationGeneration = 0,
      mf_Capabilities = [], mf_UI = None, mf_Operations = [],
      mf_ServiceGrants = [\<lparr>sg_RequiredFeature = '''', sg_Action = ''resource-events.read'', sg_Permission = ''plugin.com.acme.read'',
        sg_Scope = ''organization''\<rparr>],
      mf_AuthorizationPolicies = [], mf_Entitlement = None\<rparr>"

lemma example_manifest_valid: "Validate (example_manifest ''1.0.0'') = None" "Validate (example_manifest ''1.1.0'') = None"
  by code_simp+

section \<open>Properties\<close>

text \<open>
  C37. The namespaces of capabilities. A capability that a valid package declares, checks before a service
  action, evaluates in a policy or requires for a deployment approval carries the identity of its plugin, so
  no capability is named by the packages of two different plugins, nor is any of Core's own. The rows that
  the package registers have distinct keys.
\<close>

theorem capability_namespaces:
  assumes "Validate m = None" "Validate m' = None" "mf_ID m \<noteq> mf_ID m'"
    "ValidateApprovalPolicies m policies = None"
  shows "set (named_capabilities m) \<inter> set (named_capabilities m') = {}
    \<and> snd ` set policies \<subseteq> set (named_capabilities m)
    \<and> (\<forall>c \<in> set (named_capabilities m). has_prefix c (''plugin.'' @ mf_ID m))
    \<and> distinct (map (\<lambda>r. (rg_Kind r, rg_Key r)) (registrations m))"
proof (intro conjI)
  show "set (named_capabilities m) \<inter> set (named_capabilities m') = {}"
    using valid_owns [OF assms(1)] valid_owns [OF assms(2)] owns_same_plugin assms(3) by blast
  show "snd ` set policies \<subseteq> set (named_capabilities m)" using approval_owned [OF assms(1,4)] by auto
  show "\<forall>c \<in> set (named_capabilities m). has_prefix c (''plugin.'' @ mf_ID m)"
    using valid_owns [OF assms(1)] by (fastforce simp: owns_iff has_prefix_iff)
qed (rule registrations_distinct [OF assms(1)])

theorem capability_namespaces_witness:
  "set (named_capabilities (example_manifest ''1.0.0''))
     \<inter> set (named_capabilities ((example_manifest ''1.0.0'')\<lparr>mf_ID := ''org.other'', mf_ServiceGrants := []\<rparr>)) = {}
   \<and> distinct (map (\<lambda>r. (rg_Kind r, rg_Key r)) (registrations (example_manifest ''1.0.0'')))"
proof -
  have v: "Validate ((example_manifest ''1.0.0'')\<lparr>mf_ID := ''org.other'', mf_ServiceGrants := []\<rparr>) = None"
    "ValidateApprovalPolicies (example_manifest ''1.0.0'') [] = None" by code_simp+
  have "mf_ID (example_manifest ''1.0.0'') \<noteq> mf_ID ((example_manifest ''1.0.0'')\<lparr>mf_ID := ''org.other'', mf_ServiceGrants := []\<rparr>)"
    by (simp add: example_manifest_def)
  from capability_namespaces [OF example_manifest_valid(1) v(1) this v(2)] show ?thesis by blast
qed

end
