(* ===== verification/HostTables.thy ===== *)
theory HostTables
  imports PluginManifest
begin

text \<open>
  The tables of the plugin host (migrations 37 to 48 under \<^verbatim>\<open>internal/model/migrations\<close>), beside the
  tables of Core, which are the field \<open>core\<close>: the journal of resource events, the Plugin Manager and the
  entitlements.

  A table with one row per key whose rows hold little else is an association list from keys to the rest of
  the row; a write of such a row is \<open>AList.update\<close>. The column \<^verbatim>\<open>updated_at\<close> of
  \<^verbatim>\<open>external_operation_grants\<close>, which only the retention of the journal reads, is no part of the model of
  the grants; it is an argument where it is read.
\<close>

section \<open>The journal of resource events\<close>

record ExtensionResourceEvent =
  ev_EventID :: uuid
  ev_Type :: string
  ev_OccurredAt :: timestamp
  ev_EnvironmentUUID :: "uuid option"
  ev_ProjectUUID :: "uuid option"
  ev_ModuleUUID :: "uuid option"
  ev_VersionUUID :: "uuid option"
  ev_PinID :: "uuid option"
  ev_ActivationEventID :: "uuid option"
  ev_OperationID :: "uuid option"
  ev_ActorID :: "uuid option"
  ev_FromStatus :: string
  ev_ToStatus :: string
  ev_Transition :: string
  ev_Reason :: string

record extensionResourceJournalEntry =
  jn_orgID :: string
  jn_event :: ExtensionResourceEvent

record resource_event_row =
  re_org_id :: string
  re_cursor :: int
  re_event :: ExtensionResourceEvent
  re_recorded_at :: timestamp

record journal_state =
  js_journaling :: bool
  js_gap_cursor :: int

record ExtensionPublishedEvent =
  xv_EventID :: uuid
  xv_GrantFence :: int
  xv_Type :: string
  xv_OccurredAt :: "timestamp option"
  xv_Data :: json_object

record published_event_row =
  pb_org_id :: string
  pb_plugin_id :: string
  pb_operation_id :: uuid
  pb_request :: ExtensionPublishedEvent

section \<open>The Plugin Manager\<close>

record PluginPackage =
  pp_ManifestSHA256 :: string
  pp_PluginID :: string
  pp_Version :: string
  pp_Manifest :: Manifest
  pp_CreatedAt :: timestamp
  pp_CreatedBy :: uuid

record PluginStatusObservation =
  so_ObservedAt :: timestamp
  so_Failure :: string
  so_Detail :: string
  so_InstallationID :: "uuid option"
  so_PackageSHA256 :: string
  so_MigrationGeneration :: "int option"

record installation_row =
  in_installation_uuid :: uuid
  in_plugin_id :: string
  in_package_sha256 :: string
  in_target_package_sha256 :: string
  in_state :: string
  in_backend_url :: string
  in_ui_origin :: string
  in_service_user_id :: string
  in_admission_checker_id :: string
  in_organization_mode :: string
  in_default_timezone :: string
  in_default_approval_policies :: "(string \<times> string) list"
  in_created_at :: timestamp
  in_created_by :: uuid
  in_updated_at :: timestamp
  in_updated_by :: uuid

record enablement_row =
  eb_plugin_id :: string
  eb_org_id :: string
  eb_installation_uuid :: uuid
  eb_state :: string
  eb_timezone :: string
  eb_approval_policies :: "(string \<times> string) list"
  eb_created_at :: timestamp
  eb_created_by :: uuid
  eb_updated_at :: timestamp
  eb_updated_by :: uuid

record registration_row =
  rr_installation_uuid :: uuid
  rr_package_sha256 :: string
  rr_registration :: PluginRegistration

record capability_registration_row =
  cg_plugin_id :: string
  cg_org_id :: string
  cg_package_sha256 :: string
  cg_reconciled_at :: timestamp
  cg_failure :: string

text \<open>The structs that the code reads these rows into.\<close>

record PluginCapabilityRegistration =
  cs_State :: string
  cs_PackageSHA256 :: string
  cs_ReconciledAt :: "timestamp option"
  cs_Detail :: string

record PluginEnablement =
  pl_OrgID :: string
  pl_State :: string
  pl_Timezone :: string
  pl_ApprovalPolicies :: "(string \<times> string) list"
  pl_CreatedAt :: timestamp
  pl_CreatedBy :: uuid
  pl_UpdatedAt :: timestamp
  pl_UpdatedBy :: uuid
  pl_CapabilityRegistration :: PluginCapabilityRegistration

record PluginInstallation =
  pi_InstallationID :: uuid
  pi_PluginID :: string
  pi_PackageSHA256 :: string
  pi_TargetPackageSHA256 :: string
  pi_State :: string
  pi_BackendURL :: string
  pi_UIOrigin :: string
  pi_ServiceUserID :: string
  pi_AdmissionCheckerID :: string
  pi_OrganizationMode :: string
  pi_DefaultTimezone :: string
  pi_DefaultApprovalPolicies :: "(string \<times> string) list"
  pi_Organizations :: "PluginEnablement list"
  pi_CreatedAt :: timestamp
  pi_CreatedBy :: uuid
  pi_UpdatedAt :: timestamp
  pi_UpdatedBy :: uuid
  pi_Observation :: "PluginStatusObservation option"

section \<open>The tables\<close>

record host =
  core :: db
  plugin_packages :: "PluginPackage list"
  plugin_installations :: "installation_row list"
  plugin_enablements :: "enablement_row list"
  plugin_registrations :: "registration_row list"
  status_observations :: "(uuid \<times> PluginStatusObservation) list"
  capability_registrations :: "capability_registration_row list"
  event_heads :: "(string \<times> int) list"
  resource_events :: "resource_event_row list"
  journal_states :: "(string \<times> journal_state) list"
  event_retention :: "(string \<times> int) list"
  event_consumers :: "((string \<times> string \<times> uuid) \<times> int) list"
  published_events :: "published_event_row list"

definition empty_host :: "db \<Rightarrow> host" where
  "empty_host s = \<lparr>core = s, plugin_packages = [], plugin_installations = [], plugin_enablements = [],
     plugin_registrations = [], status_observations = [], capability_registrations = [], event_heads = [],
     resource_events = [], journal_states = [], event_retention = [], event_consumers = [], published_events = []\<rparr>"

text \<open>\<open>COALESCE\<close> of a lookup with zero.\<close>

definition lookup_or_zero :: "('k \<times> int) list \<Rightarrow> 'k \<Rightarrow> int" where
  "lookup_or_zero m k = (case map_of m k of None \<Rightarrow> 0 | Some n \<Rightarrow> n)"

lemma lookup_or_zero_update [simp]:
  "lookup_or_zero (AList.update k n m) k' = (if k' = k then n else lookup_or_zero m k')"
  by (simp add: lookup_or_zero_def update_conv')

end
