(* ===== verification/Journal.thy ===== *)
theory Journal
  imports HostTables Conformance Retries
begin

text \<open>
  The journal of resource events that plugins read (\<^verbatim>\<open>internal/model/extension_events.go\<close>) and the commit of a
  transaction that writes it (\<^verbatim>\<open>journalTransaction\<close> of \<^verbatim>\<open>databaser.go\<close>).

  Every organisation has a journal whose entries carry the cursors 1, 2, 3, ... A transaction that has written
  messages to the outbox projects the ones about resources to entries, and just before it commits it appends
  them to the journals of the organisations that are journaled. An organisation is journaled while a plugin
  subscribes to its events; when the journal resumes after a pause, it takes one cursor for the gap. Retention
  removes a prefix of the entries. A consumer that presents a cursor acknowledges all entries up to it, and is
  told that the cursor has expired when entries after it are gone, by retention or in a gap.

  Locks are left out: the advisory locks make the commit of a writer, a change of subscriptions and a read
  atomic with respect to each other, which is what the steps below are. The theory shows that consumers lose
  nothing silently: two reads that follow each other return adjacent pieces of everything that was committed,
  whatever the writers, the subscriptions, restarts and retention do between them.
\<close>

section \<open>Projection of outbox messages\<close>

text \<open>
  The fields of a message as \<^verbatim>\<open>json.Unmarshal\<close> reads them: a missing field or \<open>null\<close> leaves the zero value.
  The fields that the projection overwrites (\<^verbatim>\<open>event_id\<close>, \<^verbatim>\<open>type\<close>, \<^verbatim>\<open>occurred_at\<close>) are not read; no message of
  Core has them. The time of the message is the time of its transaction.
\<close>

definition text_field :: "json_object \<Rightarrow> string \<Rightarrow> string result" where
  "text_field data k =
     (case map_of data k of
        None \<Rightarrow> Inr ''''
      | Some JNull \<Rightarrow> Inr ''''
      | Some (JStr t) \<Rightarrow> Inr t
      | Some _ \<Rightarrow> Inl (ErrInternal ''json: cannot unmarshal into a string''))"

definition uuid_field :: "(string \<Rightarrow> uuid option) \<Rightarrow> json_object \<Rightarrow> string \<Rightarrow> uuid option result" where
  "uuid_field parse_uuid data k =
     (case map_of data k of
        None \<Rightarrow> Inr None
      | Some JNull \<Rightarrow> Inr None
      | Some (JStr t) \<Rightarrow> (case parse_uuid t of None \<Rightarrow> Inl (ErrInternal ''invalid UUID'') | Some u \<Rightarrow> Inr (Some u))
      | Some _ \<Rightarrow> Inl (ErrInternal ''json: cannot unmarshal into a UUID''))"

definition environment_deleted :: string where
  "environment_deleted = ''io.platform-orchestrator.environment.deleted''"
definition catalogue_changed :: string where
  "catalogue_changed = ''io.platform-orchestrator.module.catalogue.changed''"
definition version_published :: string where
  "version_published = ''io.platform-orchestrator.module.version.published''"
definition version_lifecycle_changed :: string where
  "version_lifecycle_changed = ''io.platform-orchestrator.module.version.lifecycle-changed''"
definition pin_lifecycle_changed :: string where
  "pin_lifecycle_changed = ''io.platform-orchestrator.module.version.pin-lifecycle-changed''"

definition projectExtensionResourceEvent ::
  "(string \<Rightarrow> uuid option) \<Rightarrow> uuid \<Rightarrow> timestamp \<Rightarrow> outbox_event \<Rightarrow> extensionResourceJournalEntry option result" where
  "projectExtensionResourceEvent parse_uuid event_id time message =
     (if \<not> List.member [environment_deleted, catalogue_changed, version_published, version_lifecycle_changed, pin_lifecycle_changed]
           (ob_Type message)
      then Inr None
      else
       (let data = ob_Data message; u = uuid_field parse_uuid data; t = text_field data in
        try_then (t ''org_id'') (\<lambda>org.
        try_then (u ''env_uuid'') (\<lambda>env.
        try_then (u ''actor'') (\<lambda>actor.
        try_then (t ''event_type'') (\<lambda>transition.
        try_then (t ''catalogue_status'') (\<lambda>catalogue.
        try_then (t ''lifecycle_status'') (\<lambda>lifecycle.
        try_then (u ''environment_uuid'') (\<lambda>environment.
        try_then (u ''project_uuid'') (\<lambda>project.
        try_then (u ''module_uuid'') (\<lambda>module_uuid.
        try_then (u ''version_uuid'') (\<lambda>version.
        try_then (u ''pin_id'') (\<lambda>pin.
        try_then (u ''activation_event_id'') (\<lambda>activation.
        try_then (u ''operation_id'') (\<lambda>operation.
        try_then (t ''from_status'') (\<lambda>from_status.
        try_then (t ''to_status'') (\<lambda>to_status.
        try_then (t ''reason'') (\<lambda>reason.
        fail_if (org = '''') (NewErrBadRequest ''resource event requires an organization'')
       (Inr (Some \<lparr>jn_orgID = org, jn_event =
          \<lparr>ev_EventID = event_id, ev_Type = ob_Type message, ev_OccurredAt = time,
           ev_EnvironmentUUID = (if environment = None then env else environment), ev_ProjectUUID = project,
           ev_ModuleUUID = module_uuid, ev_VersionUUID = version, ev_PinID = pin, ev_ActivationEventID = activation,
           ev_OperationID = operation, ev_ActorID = actor, ev_FromStatus = from_status,
           ev_ToStatus = (if ob_Type message = catalogue_changed then catalogue
              else if ob_Type message = version_published then lifecycle else to_status),
           ev_Transition = transition, ev_Reason = reason\<rparr>\<rparr>))))))))))))))))))))"

text \<open>\<open>ids\<close> draws the event identifiers, one for each position.\<close>

fun extensionJournalEntries ::
  "(string \<Rightarrow> uuid option) \<Rightarrow> (nat \<Rightarrow> uuid) \<Rightarrow> timestamp \<Rightarrow> nat \<Rightarrow> outbox_event list \<Rightarrow> extensionResourceJournalEntry list result" where
  "extensionJournalEntries parse_uuid ids time n [] = Inr []"
| "extensionJournalEntries parse_uuid ids time n (m # ms) =
     try_then (projectExtensionResourceEvent parse_uuid (ids n) time m) (\<lambda>entry.
     try_then (extensionJournalEntries parse_uuid ids time (Suc n) ms) (\<lambda>entries.
     Inr (case entry of None \<Rightarrow> entries | Some e \<Rightarrow> e # entries)))"

section \<open>Writing the journal\<close>

fun group_organizations :: "extensionResourceJournalEntry list \<Rightarrow> (string \<times> extensionResourceJournalEntry list) list" where
  "group_organizations [] = []"
| "group_organizations (e # es) =
     (case group_organizations es of
        [] \<Rightarrow> [(jn_orgID e, [e])]
      | (org, g) # gs \<Rightarrow> if org = jn_orgID e then (org, e # g) # gs else (jn_orgID e, [e]) # (org, g) # gs)"

definition journalOrganizations :: "extensionResourceJournalEntry list \<Rightarrow> (string \<times> extensionResourceJournalEntry list) list" where
  "journalOrganizations entries = group_organizations (sort_key jn_orgID entries)"

definition advance_head :: "string \<Rightarrow> host \<Rightarrow> int \<times> host" where
  "advance_head org h =
     (let cursor = lookup_or_zero (event_heads h) org + 1 in (cursor, h\<lparr>event_heads := AList.update org cursor (event_heads h)\<rparr>))"

definition resource_events_constraints :: "(resource_event_row, (string \<times> int) + uuid) constraint list" where
  "resource_events_constraints =
     [(''extension_resource_events_pkey'', \<lambda>r. Some (Inl (re_org_id r, re_cursor r))),
      (''extension_resource_events_event_id_key'', \<lambda>r. Some (Inr (ev_EventID (re_event r))))]"

definition journalExtensionResourceEvent :: "timestamp \<Rightarrow> extensionResourceJournalEntry \<Rightarrow> host \<Rightarrow> host result" where
  "journalExtensionResourceEvent now entry h =
     (let (cursor, h1) = advance_head (jn_orgID entry) h in
      try_then (insert_row resource_events_constraints
          \<lparr>re_org_id = jn_orgID entry, re_cursor = cursor, re_event = jn_event entry, re_recorded_at = now\<rparr>
          (resource_events h1)) (\<lambda>rows.
      Inr (h1\<lparr>resource_events := rows\<rparr>)))"

definition journaling :: "string \<Rightarrow> host \<Rightarrow> bool" where
  "journaling org h = (case map_of (journal_states h) org of None \<Rightarrow> False | Some j \<Rightarrow> js_journaling j)"

definition flushExtensionJournal :: "timestamp \<Rightarrow> extensionResourceJournalEntry list \<Rightarrow> host \<Rightarrow> host result" where
  "flushExtensionJournal now entries h =
     try_fold (\<lambda>(org, es) h. if journaling org h then try_fold (journalExtensionResourceEvent now) es h else Inr h)
       (journalOrganizations entries) h"

text \<open>
  A transaction of Core that runs with the plugin host (\<open>journal\<close>): the messages it has added to the outbox are
  projected, which can refuse the transaction, and flushed at its commit.
\<close>

definition new_messages :: "db \<Rightarrow> db \<Rightarrow> outbox_event list" where
  "new_messages s s' = drop (length (outbox s)) (outbox s')"

definition commit_transaction ::
  "bool \<Rightarrow> (string \<Rightarrow> uuid option) \<Rightarrow> (nat \<Rightarrow> uuid) \<Rightarrow> timestamp \<Rightarrow> db \<Rightarrow> host \<Rightarrow> host result" where
  "commit_transaction journal parse_uuid ids now s' h =
     (if \<not> journal then Inr (h\<lparr>core := s'\<rparr>)
      else try_then (extensionJournalEntries parse_uuid ids now 0 (new_messages (core h) s')) (\<lambda>entries.
        flushExtensionJournal now entries (h\<lparr>core := s'\<rparr>)))"

section \<open>Subscriptions\<close>

definition extensionResourceEventsRead :: string where
  "extensionResourceEventsRead = ''resource-events.read''"

definition subscription :: "host \<Rightarrow> string \<Rightarrow> enablement_row \<Rightarrow> bool" where
  "subscription h org e \<longleftrightarrow>
     eb_org_id e = org
     \<and> list_ex (\<lambda>r. rr_installation_uuid r = eb_installation_uuid e \<and> rg_Kind (rr_registration r) = ''service_grant''
          \<and> rg_Key (rr_registration r) = extensionResourceEventsRead) (plugin_registrations h)"

definition pluginSubscribesToResourceEvents :: "string \<Rightarrow> string \<Rightarrow> host \<Rightarrow> bool" where
  "pluginSubscribesToResourceEvents org plugin h =
     list_ex (\<lambda>e. subscription h org e \<and> eb_plugin_id e = plugin) (plugin_enablements h)"

definition resourceEventSubscribers :: "string \<Rightarrow> host \<Rightarrow> string list" where
  "resourceEventSubscribers org h = sort (remdups (map eb_plugin_id (filter (subscription h org) (plugin_enablements h))))"

definition pauseExtensionResourceJournal :: "string \<Rightarrow> host \<Rightarrow> host" where
  "pauseExtensionResourceJournal org h =
     (case map_of (journal_states h) org of
        Some j \<Rightarrow> h\<lparr>journal_states := AList.update org (j\<lparr>js_journaling := False\<rparr>) (journal_states h)\<rparr>
      | None \<Rightarrow>
          if map_of (event_heads h) org = None then h
          else h\<lparr>journal_states := AList.update org \<lparr>js_journaling = False, js_gap_cursor = 0\<rparr> (journal_states h)\<rparr>)"

definition open_gap :: "string \<Rightarrow> host \<Rightarrow> host" where
  "open_gap org h =
     (let (gap, h1) = advance_head org h in
      h1\<lparr>journal_states := AList.update org \<lparr>js_journaling = True, js_gap_cursor = gap\<rparr> (journal_states h1)\<rparr>)"

definition startExtensionResourceJournal :: "string \<Rightarrow> host \<Rightarrow> host" where
  "startExtensionResourceJournal org h =
     (case map_of (journal_states h) org of
        None \<Rightarrow>
          if map_of (event_heads h) org = None
          then h\<lparr>journal_states := AList.update org \<lparr>js_journaling = True, js_gap_cursor = 0\<rparr> (journal_states h)\<rparr>
          else open_gap org
            (h\<lparr>journal_states := AList.update org \<lparr>js_journaling = False, js_gap_cursor = 0\<rparr> (journal_states h)\<rparr>)
      | Some j \<Rightarrow> if js_journaling j then h else open_gap org h)"

definition syncExtensionResourceJournal :: "string \<Rightarrow> host \<Rightarrow> host" where
  "syncExtensionResourceJournal org h =
     (if resourceEventSubscribers org h = [] then pauseExtensionResourceJournal org h
      else startExtensionResourceJournal org h)"

text \<open>
  The writes that change subscriptions (\<^verbatim>\<open>plugin_manager.go\<close>) resynchronise the journals of the organisations
  they concern. An enablement refers to its organisation and to its installation.
\<close>

definition plugin_enablement_row :: "PluginInstallation \<Rightarrow> PluginEnablement \<Rightarrow> uuid \<Rightarrow> timestamp \<Rightarrow> enablement_row" where
  "plugin_enablement_row installation enablement actor now =
     \<lparr>eb_plugin_id = pi_PluginID installation, eb_org_id = pl_OrgID enablement, eb_installation_uuid = pi_InstallationID installation,
      eb_state = pl_State enablement, eb_timezone = pl_Timezone enablement, eb_approval_policies = pl_ApprovalPolicies enablement,
      eb_created_at = now, eb_created_by = actor, eb_updated_at = now, eb_updated_by = actor\<rparr>"

definition enablement_at :: "string \<Rightarrow> string \<Rightarrow> enablement_row \<Rightarrow> bool" where
  "enablement_at plugin org e \<longleftrightarrow> eb_plugin_id e = plugin \<and> eb_org_id e = org"

definition PutPluginEnablement :: "PluginInstallation \<Rightarrow> PluginEnablement \<Rightarrow> uuid \<Rightarrow> timestamp \<Rightarrow> host \<Rightarrow> host result" where
  "PutPluginEnablement installation enablement actor now h =
     (let row = plugin_enablement_row installation enablement actor now;
          here = enablement_at (pi_PluginID installation) (pl_OrgID enablement) in
      fail_if (\<not> List.member [''enabled'', ''disabled''] (pl_State enablement)) (ErrConstraint ''plugin_enablements_state_check'')
     (fail_if (\<not> List.member (orgs (core h)) (pl_OrgID enablement)) (ErrConstraint ''plugin_enablements_org_id_fkey'')
     (fail_if (\<not> list_ex (\<lambda>i. in_installation_uuid i = pi_InstallationID installation \<and> in_plugin_id i = pi_PluginID installation)
          (plugin_installations h)) (ErrConstraint ''plugin_enablements_installation_uuid_plugin_id_fkey'')
     (Inr (syncExtensionResourceJournal (pl_OrgID enablement)
        (h\<lparr>plugin_enablements :=
           if list_ex here (plugin_enablements h)
           then upd_where here (\<lambda>e. row\<lparr>eb_created_at := eb_created_at e, eb_created_by := eb_created_by e\<rparr>) (plugin_enablements h)
           else plugin_enablements h @ [row]\<rparr>))))))"

definition DeletePluginEnablement :: "string \<Rightarrow> string \<Rightarrow> host \<Rightarrow> bool \<times> host" where
  "DeletePluginEnablement plugin org h =
     (if list_ex (enablement_at plugin org) (plugin_enablements h)
      then (True, syncExtensionResourceJournal org
        (h\<lparr>plugin_enablements := filter (\<lambda>e. \<not> enablement_at plugin org e) (plugin_enablements h)\<rparr>))
      else (False, h))"

definition plugin_registrations_constraints :: "(registration_row, string list) constraint list" where
  "plugin_registrations_constraints =
     [(''plugin_extension_registrations_pkey'',
        \<lambda>r. Some [rr_installation_uuid r, rg_Kind (rr_registration r), rg_Key (rr_registration r)]),
      (''plugin_extension_registrations_ui_route'',
        \<lambda>r. if rg_Kind (rr_registration r) = ''ui'' then Some [rg_Key (rr_registration r)] else None)]"

definition insert_registration :: "PluginInstallation \<Rightarrow> PluginRegistration \<Rightarrow> host \<Rightarrow> host result" where
  "insert_registration installation registration h =
     try_then (map_error (\<lambda>e. if isUniqueViolation e [''plugin_extension_registrations_ui_route'']
          then ErrConflict ''plugin_registration_conflict'' ''Another installation already serves the UI route prefix'' else e)
        (insert_row plugin_registrations_constraints
          \<lparr>rr_installation_uuid = pi_InstallationID installation, rr_package_sha256 = pi_PackageSHA256 installation,
           rr_registration = registration\<rparr> (plugin_registrations h))) (\<lambda>rows.
     Inr (h\<lparr>plugin_registrations := rows\<rparr>))"

definition ReplacePluginRegistrations :: "PluginInstallation \<Rightarrow> PluginRegistration list \<Rightarrow> host \<Rightarrow> host result" where
  "ReplacePluginRegistrations installation regs h =
     (let h1 = h\<lparr>plugin_registrations := filter (\<lambda>r. rr_installation_uuid r \<noteq> pi_InstallationID installation) (plugin_registrations h)\<rparr> in
      try_then (try_fold (insert_registration installation) regs h1) (\<lambda>h2.
      Inr (fold syncExtensionResourceJournal (map pl_OrgID (pi_Organizations installation)) h2)))"

definition reconcileExtensionResourceOrganization :: "bool \<Rightarrow> string \<Rightarrow> host \<Rightarrow> host" where
  "reconcileExtensionResourceOrganization hostEnabled org h =
     (if hostEnabled then syncExtensionResourceJournal org h else pauseExtensionResourceJournal org h)"

definition journal_organizations :: "host \<Rightarrow> string list" where
  "journal_organizations h =
     sort (remdups (map fst (event_heads h) @ map fst (journal_states h) @ map eb_org_id (plugin_enablements h)))"

definition ReconcileExtensionResourceJournal :: "bool \<Rightarrow> host \<Rightarrow> host" where
  "ReconcileExtensionResourceJournal hostEnabled h =
     fold (reconcileExtensionResourceOrganization hostEnabled) (journal_organizations h) h"

section \<open>Reading\<close>

definition ErrExtensionResourceCursorExpired :: model_error where
  "ErrExtensionResourceCursorExpired = ErrInternal ''resource event cursor precedes retained history''"

definition requireResourceEventSubscription :: "ExternalOperationGrant \<Rightarrow> host \<Rightarrow> unit result" where
  "requireResourceEventSubscription grant h =
     fail_if (\<not> pluginSubscribesToResourceEvents (gr_OrgID grant) (gr_PluginID grant) h)
       (ErrConflict ''plugin_not_installed'' ''The plugin no longer subscribes to this organization's resource events.'')
    (Inr ())"

definition consumer_key :: "ExternalOperationGrant \<Rightarrow> string \<times> string \<times> uuid" where
  "consumer_key grant = (gr_OrgID grant, gr_PluginID grant, gr_OperationID grant)"

text \<open>The acknowledgement refers to the operation's grant by a foreign key.\<close>

definition acknowledgeExtensionResourceCursor :: "ExternalOperationGrant \<Rightarrow> int \<Rightarrow> host \<Rightarrow> host result" where
  "acknowledgeExtensionResourceCursor grant cursor h =
     try_then (requireResourceEventSubscription grant h) (\<lambda>_.
     if cursor > lookup_or_zero (event_heads h) (gr_OrgID grant) then Inr h
     else (case map_of (event_consumers h) (consumer_key grant) of
         None \<Rightarrow>
           fail_if (\<not> list_ex (grant_at (gr_OrgID grant) (gr_PluginID grant) (gr_OperationID grant)) (grants (core h)))
             (ErrConstraint ''extension_resource_event_consumers_org_id_plugin_id_operation_id_fkey'')
          (Inr (h\<lparr>event_consumers := AList.update (consumer_key grant) cursor (event_consumers h)\<rparr>))
       | Some acknowledged \<Rightarrow>
           Inr (if acknowledged < cursor
             then h\<lparr>event_consumers := AList.update (consumer_key grant) cursor (event_consumers h)\<rparr> else h)))"

definition journal_gap :: "string \<Rightarrow> host \<Rightarrow> int" where
  "journal_gap org h = (case map_of (journal_states h) org of None \<Rightarrow> 0 | Some j \<Rightarrow> js_gap_cursor j)"

definition journal_horizon :: "string \<Rightarrow> host \<Rightarrow> int" where
  "journal_horizon org h = max (lookup_or_zero (event_retention h) org) (journal_gap org h)"

definition extensionResourceStart :: "int option \<Rightarrow> int \<Rightarrow> int \<Rightarrow> int result" where
  "extensionResourceStart after head horizon =
     (case after of
        None \<Rightarrow> Inr horizon
      | Some a \<Rightarrow>
          fail_if (a > head) (NewErrBadRequest ''resource event cursor is ahead of this journal'')
         (fail_if (a < horizon) ErrExtensionResourceCursorExpired
         (Inr a)))"

definition in_scope :: "ExternalOperationGrant \<Rightarrow> ExtensionResourceEvent \<Rightarrow> bool" where
  "in_scope grant e \<longleftrightarrow>
     (case ev_EnvironmentUUID e of None \<Rightarrow> True | Some u \<Rightarrow> List.member (map oe_EnvironmentID (oi_Environments (gr_Intent grant))) u)
     \<and> (case ev_ModuleUUID e of None \<Rightarrow> True | Some u \<Rightarrow> List.member (oi_Modules (gr_Intent grant)) u)
     \<and> (ev_EnvironmentUUID e \<noteq> None \<or> ev_ModuleUUID e \<noteq> None)"

definition read_page :: "ExternalOperationGrant \<Rightarrow> int option \<Rightarrow> int \<Rightarrow> host \<Rightarrow> (ExtensionResourceEvent list \<times> int) result" where
  "read_page grant after limit h =
     (let org = gr_OrgID grant; head = lookup_or_zero (event_heads h) org in
      try_then (requireResourceEventSubscription grant h) (\<lambda>_.
      try_then (extensionResourceStart after head (journal_horizon org h)) (\<lambda>start.
      let rows = take (nat limit) (sort_key re_cursor (filter (\<lambda>r. re_org_id r = org \<and> re_cursor r > start
            \<and> re_cursor r \<le> head \<and> in_scope grant (re_event r)) (resource_events h)))
      in Inr (map re_event rows, if int (length rows) = limit then re_cursor (last rows) else head))))"

text \<open>The acknowledgement is committed before the page is read, whatever the read returns.\<close>

definition ReadExtensionResourceEvents ::
  "ExternalOperationGrant \<Rightarrow> int option \<Rightarrow> int \<Rightarrow> host \<Rightarrow> (ExtensionResourceEvent list \<times> int) result \<times> host" where
  "ReadExtensionResourceEvents grant after limit h =
     (if (case after of None \<Rightarrow> False | Some a \<Rightarrow> a < 0) \<or> limit < 1 \<or> limit > 200
      then (Inl (NewErrBadRequest ''invalid resource event page''), h)
      else (case after of
          None \<Rightarrow> (read_page grant after limit h, h)
        | Some a \<Rightarrow>
            (case acknowledgeExtensionResourceCursor grant a h of
               Inl e \<Rightarrow> (Inl e, h)
             | Inr h1 \<Rightarrow> (read_page grant after limit h1, h1))))"

section \<open>Retention\<close>

text \<open>Durations are in nanoseconds.\<close>

definition Hour :: int where "Hour = 3600000000000"

record ExtensionResourceRetention =
  rt_Window :: int
  rt_Batch :: int

definition Validate_retention :: "ExtensionResourceRetention \<Rightarrow> unit result" where
  "Validate_retention p =
     fail_if (rt_Window p < Hour) (ErrInternal ''extension resource journal retention must be at least one hour'')
    (fail_if (rt_Batch p < 1 \<or> rt_Batch p > 100000)
       (ErrInternal ''extension resource journal retention batch must be between 1 and 100000'')
    (Inr ()))"

definition extensionJournalReleaseCutoff :: "timestamp \<Rightarrow> int \<Rightarrow> timestamp" where
  "extensionJournalReleaseCutoff now window = now - window"

definition externalOperationReconcilesAt :: "string \<Rightarrow> timestamp \<Rightarrow> timestamp \<Rightarrow> int \<Rightarrow> bool" where
  "externalOperationReconcilesAt state updated now window =
     (if List.member [''prepared'', ''active'', ''suspended''] state then True
      else if state = ''released'' then updated > extensionJournalReleaseCutoff now window else False)"

text \<open>\<open>updated_at\<close> is the column of that name of \<^verbatim>\<open>external_operation_grants\<close>.\<close>

definition ExternalOperationReconciles ::
  "(ExternalOperationGrant \<Rightarrow> timestamp) \<Rightarrow> ExternalOperationGrant \<Rightarrow> timestamp \<Rightarrow> int \<Rightarrow> host \<Rightarrow> bool result" where
  "ExternalOperationReconciles updated_at grant now window h =
     try_then (require_some ErrNoRows
       (find (grant_at (gr_OrgID grant) (gr_PluginID grant) (gr_OperationID grant)) (grants (core h)))) (\<lambda>g.
     Inr (externalOperationReconcilesAt (gr_State g) (updated_at g) now window))"

definition active_consumer ::
  "(ExternalOperationGrant \<Rightarrow> timestamp) \<Rightarrow> string \<Rightarrow> ExtensionResourceRetention \<Rightarrow> timestamp \<Rightarrow> host \<Rightarrow> ExternalOperationGrant \<Rightarrow> bool" where
  "active_consumer updated_at org policy now h g \<longleftrightarrow>
     gr_OrgID g = org \<and> List.member (resourceEventSubscribers org h) (gr_PluginID g)
     \<and> List.member (oi_Actions (gr_Intent g)) extensionResourceEventsRead
     \<and> (gr_State g \<noteq> ''released'' \<or> updated_at g > extensionJournalReleaseCutoff now (rt_Window policy))"

definition lowest_acknowledged ::
  "(ExternalOperationGrant \<Rightarrow> timestamp) \<Rightarrow> string \<Rightarrow> ExtensionResourceRetention \<Rightarrow> timestamp \<Rightarrow> host \<Rightarrow> int" where
  "lowest_acknowledged updated_at org policy now h =
     foldl min (2 ^ 63 - 1) (map (\<lambda>g. lookup_or_zero (event_consumers h) (consumer_key g))
       (filter (active_consumer updated_at org policy now h) (grants (core h))))"

definition prune_bound :: "string \<Rightarrow> ExtensionResourceRetention \<Rightarrow> timestamp \<Rightarrow> int \<Rightarrow> host \<Rightarrow> int" where
  "prune_bound org policy now below h =
     (let prunedThrough = lookup_or_zero (event_retention h) org;
          candidates = take (nat (rt_Batch policy))
            (sort_key re_cursor (filter (\<lambda>r. re_org_id r = org \<and> re_cursor r > prunedThrough) (resource_events h)));
          prefix = takeWhile (\<lambda>r. re_recorded_at r < now - rt_Window policy \<and> re_cursor r < below) candidates
      in if prefix = [] then prunedThrough else re_cursor (last prefix))"

definition pruneExtensionResourceOrganization ::
  "(ExternalOperationGrant \<Rightarrow> timestamp) \<Rightarrow> (string \<Rightarrow> bool) \<Rightarrow> ExtensionResourceRetention \<Rightarrow> timestamp \<Rightarrow> string \<Rightarrow> int \<times> host \<Rightarrow> int \<times> host" where
  "pruneExtensionResourceOrganization updated_at locked policy now org = (\<lambda>(pruned, h).
     if \<not> locked org then (pruned, h)
     else (let prunedThrough = lookup_or_zero (event_retention h) org;
               bound = prune_bound org policy now (lowest_acknowledged updated_at org policy now h) h;
               gone = (\<lambda>r. re_org_id r = org \<and> re_cursor r > prunedThrough \<and> re_cursor r \<le> bound)
           in if bound \<le> prunedThrough then (pruned, h)
              else (pruned + int (length (filter gone (resource_events h))),
                h\<lparr>resource_events := filter (\<lambda>r. \<not> gone r) (resource_events h),
                  event_retention := AList.update org (max prunedThrough bound) (event_retention h)\<rparr>)))"

text \<open>
  \<open>locked\<close> tells of which organisations this run gets the advisory lock; another replica may hold the others.
\<close>

definition PruneExtensionResourceJournal ::
  "(ExternalOperationGrant \<Rightarrow> timestamp) \<Rightarrow> (string \<Rightarrow> bool) \<Rightarrow> ExtensionResourceRetention \<Rightarrow> timestamp \<Rightarrow> host \<Rightarrow> (int \<times> host) result" where
  "PruneExtensionResourceJournal updated_at locked policy now h =
     try_then (Validate_retention policy) (\<lambda>_.
     Inr (fold (pruneExtensionResourceOrganization updated_at locked policy now) (sort (map fst (event_heads h))) (0, h)))"

section \<open>Events that plugins publish\<close>

definition ErrExtensionEventReused :: model_error where
  "ErrExtensionEventReused = ErrInternal ''event ID already identifies another publication''"
definition ErrExtensionEventFence :: model_error where
  "ErrExtensionEventFence = ErrInternal ''event publication grant fence changed''"

definition extensionEventSuffix :: "string \<Rightarrow> bool" where
  "extensionEventSuffix t =
     (case t of [] \<Rightarrow> False
      | c # w \<Rightarrow> is_letter c \<and> list_all (\<lambda>x. is_letter x \<or> is_digit x \<or> x = CHR ''_'' \<or> x = CHR ''-'') w)"

definition validExtensionEventType :: "string \<Rightarrow> string \<Rightarrow> bool" where
  "validExtensionEventType pluginID eventType \<longleftrightarrow>
     length eventType \<le> 200
     \<and> (case cut_prefix (''plugin.'' @ pluginID @ ''.'') eventType of None \<Rightarrow> False | Some t \<Rightarrow> extensionEventSuffix t)"

text \<open>Equality of two requests as JSON values.\<close>

definition same_publication :: "ExtensionPublishedEvent \<Rightarrow> ExtensionPublishedEvent \<Rightarrow> bool" where
  "same_publication a b \<longleftrightarrow>
     xv_EventID a = xv_EventID b \<and> xv_GrantFence a = xv_GrantFence b \<and> xv_Type a = xv_Type b
     \<and> xv_OccurredAt a = xv_OccurredAt b \<and> equalJSON (JObj (xv_Data a)) (JObj (xv_Data b))"

text \<open>\<open>json_size\<close> is the length of the JSON text of an event.\<close>

definition PublishExtensionEvent ::
  "(ExtensionPublishedEvent \<Rightarrow> int) \<Rightarrow> ExternalOperationGrant \<Rightarrow> ExtensionPublishedEvent \<Rightarrow> host \<Rightarrow> host result" where
  "PublishExtensionEvent json_size grant event h =
     fail_if (xv_EventID event = Nil_uuid \<or> xv_OccurredAt event = None \<or> \<not> validExtensionEventType (gr_PluginID grant) (xv_Type event))
       (NewErrBadRequest ''an immutable event ID, time and owned event type with one local name segment are required'')
    (fail_if (json_size event > 65536) (NewErrBadRequest ''plugin event exceeds 64 KiB'')
    (try_then (require_some ErrNoRows
       (find (grant_at (gr_OrgID grant) (gr_PluginID grant) (gr_OperationID grant)) (grants (core h)))) (\<lambda>current.
     case find (\<lambda>p. pb_org_id p = gr_OrgID grant \<and> pb_plugin_id p = gr_PluginID grant \<and> xv_EventID (pb_request p) = xv_EventID event)
         (published_events h) of
       Some p \<Rightarrow>
         fail_if (\<not> (same_publication (pb_request p) event \<and> pb_operation_id p = gr_OperationID grant)) ErrExtensionEventReused (Inr h)
     | None \<Rightarrow>
         fail_if (gr_Revision current \<noteq> xv_GrantFence event) ErrExtensionEventFence
        (Inr (h\<lparr>published_events := published_events h @
             [\<lparr>pb_org_id = gr_OrgID grant, pb_plugin_id = gr_PluginID grant, pb_operation_id = gr_OperationID grant, pb_request = event\<rparr>],
           core := (core h)\<lparr>outbox := outbox (core h) @ [\<lparr>ob_Type = xv_Type event,
             ob_Data = [(''org_id'', JStr (gr_OrgID grant)), (''operation_id'', JStr (gr_OperationID grant)), (''data'', JObj (xv_Data event))]\<rparr>]\<rparr>\<rparr>)))))"

section \<open>The entries of one organisation\<close>

abbreviation journal_head :: "string \<Rightarrow> host \<Rightarrow> int" where
  "journal_head org h \<equiv> lookup_or_zero (event_heads h) org"

definition org_rows :: "string \<Rightarrow> host \<Rightarrow> resource_event_row list" where
  "org_rows org h = filter (\<lambda>r. re_org_id r = org) (resource_events h)"

text \<open>\<open>es\<close> have been appended to the journal of \<open>org\<close>, with the next cursors.\<close>

definition journaled :: "string \<Rightarrow> extensionResourceJournalEntry list \<Rightarrow> host \<Rightarrow> host \<Rightarrow> bool" where
  "journaled org es h h' \<longleftrightarrow>
     (\<exists>new. org_rows org h' = org_rows org h @ new \<and> map re_event new = map jn_event es
        \<and> map re_cursor new = [journal_head org h + 1..journal_head org h'] \<and> journal_head org h \<le> journal_head org h')"

definition journal_only :: "host \<Rightarrow> host \<Rightarrow> bool" where
  "journal_only h h' \<longleftrightarrow> (\<exists>heads events. h' = h\<lparr>event_heads := heads, resource_events := events\<rparr>)"

abbreviation of_org :: "string \<Rightarrow> extensionResourceJournalEntry list \<Rightarrow> extensionResourceJournalEntry list" where
  "of_org org es \<equiv> filter (\<lambda>e. jn_orgID e = org) es"

lemma upto_append: "a \<le> b \<Longrightarrow> b \<le> c \<Longrightarrow> [a + 1..b] @ [b + 1..c] = [a + 1..c :: int]"
  by (cases "a = b") (auto simp: upto_split2 [of "a + 1" b c])

lemma journaled_refl [simp]: "journaled org [] h h"
  by (simp add: journaled_def)

lemma journaled_trans:
  assumes "journaled org es h h'" "journaled org es' h' h''"
  shows "journaled org (es @ es') h h''"
proof -
  obtain new where n: "org_rows org h' = org_rows org h @ new" "map re_event new = map jn_event es"
    "map re_cursor new = [journal_head org h + 1..journal_head org h']" "journal_head org h \<le> journal_head org h'"
    using assms(1) by (auto simp: journaled_def)
  obtain new' where n': "org_rows org h'' = org_rows org h' @ new'" "map re_event new' = map jn_event es'"
    "map re_cursor new' = [journal_head org h' + 1..journal_head org h'']" "journal_head org h' \<le> journal_head org h''"
    using assms(2) by (auto simp: journaled_def)
  show ?thesis unfolding journaled_def
    using n n' upto_append [OF n(4) n'(4)] by (intro exI [of _ "new @ new'"]) auto
qed

lemma journal_only_refl [simp]: "journal_only h h"
  unfolding journal_only_def by (intro exI [of _ "event_heads h"] exI [of _ "resource_events h"]) simp

lemma journal_only_trans: "journal_only h h' \<Longrightarrow> journal_only h' h'' \<Longrightarrow> journal_only h h''"
  unfolding journal_only_def by fastforce

lemma journal_only_same:
  assumes "journal_only h h'"
  shows "core h' = core h" "plugin_enablements h' = plugin_enablements h" "plugin_registrations h' = plugin_registrations h"
    "journal_states h' = journal_states h" "event_retention h' = event_retention h" "event_consumers h' = event_consumers h"
  using assms by (auto simp: journal_only_def)

lemma journal_entry_Inr:
  assumes "journalExtensionResourceEvent now e h = Inr h'"
  shows "journal_only h h'" "journaled org (of_org org [e]) h h'"
proof -
  let ?row = "\<lparr>re_org_id = jn_orgID e, re_cursor = journal_head (jn_orgID e) h + 1, re_event = jn_event e, re_recorded_at = now\<rparr>"
  have h': "h' = h\<lparr>event_heads := AList.update (jn_orgID e) (journal_head (jn_orgID e) h + 1) (event_heads h),
      resource_events := resource_events h @ [?row]\<rparr>"
    using assms by (auto simp: journalExtensionResourceEvent_def advance_head_def insert_row_Inr_iff Let_def)
  show "journal_only h h'" unfolding journal_only_def h' by blast
  show "journaled org (of_org org [e]) h h'"
  proof (cases "jn_orgID e = org")
    case True
    then show ?thesis unfolding journaled_def
      by (intro exI [of _ "[?row]"]) (simp add: h' org_rows_def)
  next
    case False
    then show ?thesis by (simp add: journaled_def h' org_rows_def)
  qed
qed

lemma journal_entries_Inr:
  "try_fold (journalExtensionResourceEvent now) es h = Inr h' \<Longrightarrow> journal_only h h' \<and> journaled org (of_org org es) h h'"
proof (induction es arbitrary: h)
  case (Cons e es)
  then obtain h1 where h1: "journalExtensionResourceEvent now e h = Inr h1" "try_fold (journalExtensionResourceEvent now) es h1 = Inr h'"
    by (auto split: sum.splits)
  note first = journal_entry_Inr [OF h1(1)] and rest = Cons.IH [OF h1(2)]
  have "journal_only h h'" using first(1) rest by (blast intro: journal_only_trans)
  moreover have "journaled org (of_org org [e] @ of_org org es) h h'" using first(2) rest by (blast intro: journaled_trans)
  ultimately show ?case by (simp split: if_splits)
qed simp

lemma group_organizations_concat:
  "concat (map snd (group_organizations es)) = es \<and> (\<forall>(org, g) \<in> set (group_organizations es). \<forall>e \<in> set g. jn_orgID e = org)"
proof (induction es)
  case (Cons e es)
  then show ?case by (cases "group_organizations es") auto
qed simp

lemma flush_groups:
  assumes "try_fold (\<lambda>(org, es) h. if journaling org h then try_fold (journalExtensionResourceEvent now) es h else Inr h) gs h = Inr h'"
    "\<forall>(org, g) \<in> set gs. \<forall>e \<in> set g. jn_orgID e = org"
  shows "journal_only h h' \<and> journaled org (if journaling org h then of_org org (concat (map snd gs)) else []) h h'"
  using assms
proof (induction gs arbitrary: h)
  case (Cons p gs)
  obtain o1 g where p: "p = (o1, g)" by (cases p)
  obtain h1 where h1: "(if journaling o1 h then try_fold (journalExtensionResourceEvent now) g h else Inr h) = Inr h1"
    "try_fold (\<lambda>(org, es) h. if journaling org h then try_fold (journalExtensionResourceEvent now) es h else Inr h) gs h1 = Inr h'"
    using Cons.prems(1) by (auto simp: p split: sum.splits)
  have g: "\<forall>e \<in> set g. jn_orgID e = o1" using Cons.prems(2) by (simp add: p)
  have one: "journal_only h h1 \<and> journaled org (if journaling org h then of_org org g else []) h h1"
  proof (cases "journaling o1 h")
    case True
    then have "journal_only h h1 \<and> journaled org (of_org org g) h h1" using journal_entries_Inr h1(1) by simp
    moreover have "of_org org g = [] \<or> o1 = org" using g by (cases "o1 = org") (auto intro: filter_False)
    ultimately show ?thesis using True by auto
  next
    case False
    then have "h1 = h" using h1(1) by simp
    moreover have "journaling org h \<Longrightarrow> of_org org g = []" using False g by (intro filter_False) auto
    ultimately show ?thesis by simp
  qed
  have same: "journaling org h1 = journaling org h" using one journal_only_same(4) by (auto simp: journaling_def)
  note rest = Cons.IH [OF h1(2)]
  have rest: "journal_only h1 h' \<and> journaled org (if journaling org h then of_org org (concat (map snd gs)) else []) h1 h'"
    using rest Cons.prems(2) same by auto
  have "journal_only h h'" using one rest by (blast intro: journal_only_trans)
  moreover have "journaled org ((if journaling org h then of_org org g else []) @ (if journaling org h then of_org org (concat (map snd gs)) else [])) h h'"
    using one rest by (blast intro: journaled_trans)
  ultimately show ?case by (simp add: p split: if_splits)
qed simp

lemma flush_Inr:
  assumes "flushExtensionJournal now es h = Inr h'"
  shows "journal_only h h'" "journaled org (if journaling org h then of_org org es else []) h h'"
proof -
  let ?s = "sort_key jn_orgID es"
  note g = group_organizations_concat [of ?s]
  have "journal_only h h' \<and> journaled org (if journaling org h then of_org org (concat (map snd (group_organizations ?s))) else []) h h'"
    using assms g by (intro flush_groups [of now]) (simp_all add: flushExtensionJournal_def journalOrganizations_def)
  moreover have "of_org org ?s = of_org org es" by (simp add: sort_key_stable)
  ultimately show "journal_only h h'" "journaled org (if journaling org h then of_org org es else []) h h'" using g by auto
qed

section \<open>What a consumer may rely on\<close>

text \<open>The entries after a cursor that a consumer has not seen yet, and the ones among \<open>es\<close> that concern it.\<close>

definition pending :: "ExternalOperationGrant \<Rightarrow> int \<Rightarrow> host \<Rightarrow> ExtensionResourceEvent list" where
  "pending g c h = map re_event (filter (\<lambda>r. re_cursor r > c \<and> in_scope g (re_event r)) (org_rows (gr_OrgID g) h))"

definition scoped :: "ExternalOperationGrant \<Rightarrow> extensionResourceJournalEntry list \<Rightarrow> ExtensionResourceEvent list" where
  "scoped g es = filter (in_scope g) (map jn_event (of_org (gr_OrgID g) es))"

definition journal_known :: "string \<Rightarrow> host \<Rightarrow> bool" where
  "journal_known org h \<longleftrightarrow> map_of (journal_states h) org \<noteq> None"

definition journal_inv :: "host \<Rightarrow> bool" where
  "journal_inv h \<longleftrightarrow> (\<forall>org. sorted_wrt (<) (map re_cursor (org_rows org h)) \<and> (\<forall>r \<in> set (org_rows org h). re_cursor r \<le> journal_head org h)
     \<and> journal_horizon org h \<le> journal_head org h)"

text \<open>An organisation is journaled exactly while the host serves plugins and one of them subscribes to it.\<close>

definition journal_follows :: "bool \<Rightarrow> host \<Rightarrow> bool" where
  "journal_follows b h \<longleftrightarrow> (\<forall>org. journaling org h \<longleftrightarrow> b \<and> resourceEventSubscribers org h \<noteq> [])"

text \<open>
  What happens between \<open>h\<close> and \<open>h'\<close>, while \<open>es\<close> are committed, is visible to every consumer that has read up to
  a cursor \<open>c\<close>: once the organisation is journaled, either that cursor has expired or exactly the committed
  entries have been added to the ones it still has to read.
\<close>

definition lossless :: "ExternalOperationGrant \<Rightarrow> extensionResourceJournalEntry list \<Rightarrow> host \<Rightarrow> host \<Rightarrow> bool" where
  "lossless g es h h' \<longleftrightarrow>
     (let org = gr_OrgID g in
      journal_head org h \<le> journal_head org h' \<and> journal_horizon org h \<le> journal_horizon org h'
      \<and> (journal_known org h \<longrightarrow> journal_known org h')
      \<and> (journal_known org h \<and> journaling org h' \<longrightarrow> (\<forall>c \<le> journal_head org h.
           c < journal_horizon org h' \<or> journaling org h \<and> pending g c h' = pending g c h @ scoped g es)))"

lemma journaling_known: "journaling org h \<Longrightarrow> journal_known org h"
  by (auto simp: journaling_def journal_known_def split: option.splits)

lemma losslessD:
  "lossless g es h h' \<Longrightarrow> journal_known (gr_OrgID g) h \<Longrightarrow> journaling (gr_OrgID g) h' \<Longrightarrow> c \<le> journal_head (gr_OrgID g) h \<Longrightarrow>
   \<not> c < journal_horizon (gr_OrgID g) h' \<Longrightarrow> journaling (gr_OrgID g) h \<and> pending g c h' = pending g c h @ scoped g es"
  by (auto simp: lossless_def Let_def)

lemma lossless_refl [simp]: "lossless g [] h h"
  by (simp add: lossless_def Let_def scoped_def)

lemma lossless_trans:
  assumes "lossless g es h h'" "lossless g es' h' h''"
  shows "lossless g (es @ es') h h''"
proof -
  let ?o = "gr_OrgID g"
  have m: "journal_head ?o h \<le> journal_head ?o h'" "journal_horizon ?o h' \<le> journal_horizon ?o h''"
    "journal_known ?o h \<Longrightarrow> journal_known ?o h'"
    using assms by (simp_all add: lossless_def Let_def)
  have "c < journal_horizon ?o h'' \<or> journaling ?o h \<and> pending g c h'' = pending g c h @ scoped g (es @ es')"
    if k: "journal_known ?o h" "journaling ?o h''" "c \<le> journal_head ?o h" for c
  proof (cases "c < journal_horizon ?o h''")
    case False
    then have 2: "journaling ?o h' \<and> pending g c h'' = pending g c h' @ scoped g es'"
      using losslessD [OF assms(2) m(3) [OF k(1)] k(2)] k(3) m(1) by simp
    then have "journaling ?o h \<and> pending g c h' = pending g c h @ scoped g es"
      using losslessD [OF assms(1) k(1) _ k(3)] False m(2) by simp
    with 2 show ?thesis by (simp add: scoped_def)
  qed simp
  then show ?thesis using assms by (auto simp: lossless_def Let_def)
qed

text \<open>A step that leaves the entries alone and only resumes a paused journal behind a gap.\<close>

lemma lossless_states:
  assumes "resource_events h' = resource_events h" "event_retention h' = event_retention h"
    "journal_head (gr_OrgID g) h \<le> journal_head (gr_OrgID g) h'" "journal_gap (gr_OrgID g) h \<le> journal_gap (gr_OrgID g) h'"
    "journal_known (gr_OrgID g) h \<Longrightarrow> journal_known (gr_OrgID g) h'"
    "journaling (gr_OrgID g) h' \<Longrightarrow> journal_known (gr_OrgID g) h \<Longrightarrow>
       journaling (gr_OrgID g) h \<or> journal_gap (gr_OrgID g) h' > journal_head (gr_OrgID g) h"
  shows "lossless g [] h h'"
  using assms by (auto simp: lossless_def Let_def journal_horizon_def pending_def org_rows_def scoped_def)

definition states_only :: "host \<Rightarrow> host \<Rightarrow> bool" where
  "states_only h h' \<longleftrightarrow> (\<exists>heads states. h' = h\<lparr>event_heads := heads, journal_states := states\<rparr>)"

lemma states_only_refl [simp]: "states_only h h"
  unfolding states_only_def by (intro exI [of _ "event_heads h"] exI [of _ "journal_states h"]) simp

lemma states_only_trans: "states_only h h' \<Longrightarrow> states_only h' h'' \<Longrightarrow> states_only h h''"
  unfolding states_only_def by fastforce

lemma states_only_same:
  assumes "states_only h h'"
  shows "resource_events h' = resource_events h" "event_retention h' = event_retention h" "org_rows org h' = org_rows org h"
    "resourceEventSubscribers org h' = resourceEventSubscribers org h" "core h' = core h" "event_consumers h' = event_consumers h"
    "plugin_enablements h' = plugin_enablements h"
    "pluginSubscribesToResourceEvents org p h' = pluginSubscribesToResourceEvents org p h"
proof -
  have "subscription h' = subscription h" using assms by (auto simp: states_only_def subscription_def fun_eq_iff)
  then show "resourceEventSubscribers org h' = resourceEventSubscribers org h"
    "pluginSubscribesToResourceEvents org p h' = pluginSubscribesToResourceEvents org p h"
    using assms by (auto simp: states_only_def resourceEventSubscribers_def pluginSubscribesToResourceEvents_def)
qed (use assms in \<open>auto simp: states_only_def org_rows_def\<close>)

text \<open>One change of the state of one journal: \<open>on\<close> tells whether it is journaled afterwards.\<close>

definition switched :: "string \<Rightarrow> bool \<Rightarrow> host \<Rightarrow> host \<Rightarrow> bool" where
  "switched org on h h' \<longleftrightarrow>
     states_only h h'
     \<and> (\<forall>o1. journaling o1 h' = (if o1 = org then on else journaling o1 h))
     \<and> (\<forall>o1. (journal_head o1 h' = journal_head o1 h \<and> journal_gap o1 h' = journal_gap o1 h
              \<and> (journaling o1 h' \<and> journal_known o1 h \<longrightarrow> journaling o1 h))
          \<or> (journal_head o1 h' = journal_head o1 h + 1 \<and> journal_gap o1 h' = journal_head o1 h'))
     \<and> (\<forall>o1. journal_known o1 h \<longrightarrow> journal_known o1 h')"

lemma states_only_updates [simp]:
  "states_only h (h\<lparr>journal_states := a\<rparr>)" "states_only h (h\<lparr>event_heads := b, journal_states := a\<rparr>)"
proof -
  have "h\<lparr>journal_states := a\<rparr> = h\<lparr>event_heads := event_heads h, journal_states := a\<rparr>" by simp
  then show "states_only h (h\<lparr>journal_states := a\<rparr>)" "states_only h (h\<lparr>event_heads := b, journal_states := a\<rparr>)"
    unfolding states_only_def by blast+
qed

lemma pause_switched: "switched org False h (pauseExtensionResourceJournal org h)"
proof (cases "map_of (journal_states h) org")
  case None
  then show ?thesis
    by (auto simp: switched_def pauseExtensionResourceJournal_def journaling_def journal_gap_def journal_known_def update_conv')
next
  case (Some j)
  then show ?thesis
    by (simp add: switched_def pauseExtensionResourceJournal_def journaling_def journal_gap_def journal_known_def update_conv')
qed

lemma open_gap_switched: "switched org True h (open_gap org h)"
  by (simp add: switched_def open_gap_def advance_head_def journaling_def journal_gap_def journal_known_def update_conv' Let_def)

lemma start_switched: "switched org True h (startExtensionResourceJournal org h)"
proof (cases "map_of (journal_states h) org")
  case None
  then show ?thesis
    by (simp add: switched_def startExtensionResourceJournal_def open_gap_def advance_head_def journaling_def
        journal_gap_def journal_known_def update_conv' Let_def)
next
  case (Some j)
  show ?thesis
  proof (cases "js_journaling j")
    case True
    with Some show ?thesis
      by (simp add: switched_def startExtensionResourceJournal_def journaling_def journal_gap_def journal_known_def)
  next
    case False
    with Some show ?thesis using open_gap_switched by (simp add: startExtensionResourceJournal_def)
  qed
qed

lemma sync_switched: "switched org (resourceEventSubscribers org h \<noteq> []) h (syncExtensionResourceJournal org h)"
  using pause_switched start_switched by (simp add: syncExtensionResourceJournal_def)

lemma switched_lossless:
  assumes "switched org on h h'" "journal_inv h"
  shows "journal_inv h'" "lossless g [] h h'"
proof -
  note same = states_only_same [of h h']
  have s: "states_only h h'" using assms(1) by (simp add: switched_def)
  have gap: "journal_gap o1 h \<le> journal_head o1 h" "lookup_or_zero (event_retention h) o1 \<le> journal_head o1 h" for o1
    using assms(2) by (auto simp: journal_inv_def journal_horizon_def)
  have c: "journal_head o1 h' = journal_head o1 h \<and> journal_gap o1 h' = journal_gap o1 h
        \<and> (journaling o1 h' \<and> journal_known o1 h \<longrightarrow> journaling o1 h)
      \<or> journal_head o1 h' = journal_head o1 h + 1 \<and> journal_gap o1 h' = journal_head o1 h'" for o1
    using assms(1) unfolding switched_def by blast
  have "journal_horizon o1 h' \<le> journal_head o1 h'" "journal_head o1 h \<le> journal_head o1 h'" for o1
    using c [of o1] gap [of o1] same(2) [OF s] by (auto simp: journal_horizon_def)
  then show "journal_inv h'" using assms(2) same(3) [OF s] unfolding journal_inv_def by (metis order_trans)
  show "lossless g [] h h'"
  proof (rule lossless_states)
    show "journal_known (gr_OrgID g) h \<Longrightarrow> journal_known (gr_OrgID g) h'" using assms(1) by (simp add: switched_def)
  qed (use c [of "gr_OrgID g"] gap [of "gr_OrgID g"] same(1,2) [OF s] in auto)
qed
text \<open>Steps that leave everything alone that subscriptions and journals consist of.\<close>

definition journal_same :: "host \<Rightarrow> host \<Rightarrow> bool" where
  "journal_same h h' \<longleftrightarrow>
     event_heads h' = event_heads h \<and> resource_events h' = resource_events h \<and> journal_states h' = journal_states h
     \<and> event_retention h' = event_retention h \<and> plugin_enablements h' = plugin_enablements h
     \<and> plugin_registrations h' = plugin_registrations h"

lemma subscribers_cong:
  assumes "filter (\<lambda>e. eb_org_id e = org) (plugin_enablements h') = filter (\<lambda>e. eb_org_id e = org) (plugin_enablements h)"
    "plugin_registrations h' = plugin_registrations h"
  shows "resourceEventSubscribers org h' = resourceEventSubscribers org h"
proof -
  have f: "filter (subscription k org) es = filter (subscription k org) (filter (\<lambda>e. eb_org_id e = org) es)" for k es
    by (auto simp: subscription_def intro!: filter_cong)
  have "subscription h' org = subscription h org" using assms(2) by (auto simp: subscription_def fun_eq_iff)
  then show ?thesis unfolding resourceEventSubscribers_def using assms(1) f by metis
qed

lemma journal_same_lossless:
  assumes "journal_same h h'"
  shows "journal_inv h' = journal_inv h" "journal_follows b h' = journal_follows b h" "lossless g [] h h'"
proof -
  have "resourceEventSubscribers org h' = resourceEventSubscribers org h" for org
    using assms by (intro subscribers_cong) (simp_all add: journal_same_def)
  then show "journal_follows b h' = journal_follows b h"
    using assms by (simp add: journal_follows_def journal_same_def journaling_def)
  show "journal_inv h' = journal_inv h"
    using assms by (simp add: journal_inv_def journal_same_def org_rows_def journal_horizon_def journal_gap_def)
  show "lossless g [] h h'"
    using assms by (intro lossless_states) (simp_all add: journal_same_def journal_gap_def journal_known_def journaling_def)
qed

lemma subscribes_iff:
  "pluginSubscribesToResourceEvents org plugin h \<longleftrightarrow> plugin \<in> set (resourceEventSubscribers org h)"
  by (auto simp: pluginSubscribesToResourceEvents_def resourceEventSubscribers_def list_ex_iff)

lemma flush_lossless:
  assumes flush: "flushExtensionJournal now es h = Inr h'" and inv: "journal_inv h"
  shows "journal_inv h'" "lossless g es h h'" "journal_follows b h' = journal_follows b h"
proof -
  note j = flush_Inr [OF flush]
  note same = journal_only_same [OF j(1)]
  have "resourceEventSubscribers org h' = resourceEventSubscribers org h" for org
    using same by (intro subscribers_cong) simp_all
  then show "journal_follows b h' = journal_follows b h" using same by (simp add: journal_follows_def journaling_def)
  have hor: "journal_horizon org h' = journal_horizon org h" for org
    using same by (simp add: journal_horizon_def journal_gap_def)
  have rows: "sorted_wrt (<) (map re_cursor (org_rows org h')) \<and> (\<forall>r \<in> set (org_rows org h'). re_cursor r \<le> journal_head org h')
      \<and> journal_horizon org h' \<le> journal_head org h'" for org
  proof -
    obtain new where n: "org_rows org h' = org_rows org h @ new" "map re_cursor new = [journal_head org h + 1..journal_head org h']"
      "journal_head org h \<le> journal_head org h'"
      using j(2) [of org] by (auto simp: journaled_def)
    have "\<forall>c \<in> set (map re_cursor new). journal_head org h < c \<and> c \<le> journal_head org h'" unfolding n(2) by simp
    then have "\<forall>r \<in> set new. journal_head org h < re_cursor r \<and> re_cursor r \<le> journal_head org h'" by simp
    moreover have "sorted_wrt (<) (map re_cursor (org_rows org h))" "\<forall>r \<in> set (org_rows org h). re_cursor r \<le> journal_head org h"
      "journal_horizon org h \<le> journal_head org h" using inv by (simp_all add: journal_inv_def)
    moreover have "sorted_wrt (<) (map re_cursor new)" unfolding n(2) by (rule sorted_wrt_upto)
    ultimately show ?thesis using n(1,3) hor [of org] by (fastforce simp: sorted_wrt_append)
  qed
  show "journal_inv h'" using rows by (simp add: journal_inv_def)
  let ?o = "gr_OrgID g"
  obtain new where n: "org_rows ?o h' = org_rows ?o h @ new"
    "map re_event new = map jn_event (if journaling ?o h then of_org ?o es else [])"
    "map re_cursor new = [journal_head ?o h + 1..journal_head ?o h']" "journal_head ?o h \<le> journal_head ?o h'"
    using j(2) [of ?o] by (auto simp: journaled_def)
  have "\<forall>c \<in> set (map re_cursor new). journal_head ?o h < c" unfolding n(3) by simp
  then have above: "\<forall>r \<in> set new. journal_head ?o h < re_cursor r" by simp
  have "pending g c h' = pending g c h @ scoped g es" if "c \<le> journal_head ?o h" "journaling ?o h" for c
  proof -
    have "filter (\<lambda>r. re_cursor r > c \<and> in_scope g (re_event r)) new = filter (in_scope g \<circ> re_event) new"
      using above that(1) by (intro filter_cong) auto
    then show ?thesis using n(1,2) that(2) by (simp add: pending_def scoped_def flip: filter_map)
  qed
  moreover have "journaling ?o h' = journaling ?o h" "journal_known ?o h' = journal_known ?o h"
    using same by (simp_all add: journaling_def journal_known_def)
  ultimately show "lossless g es h h'" using n(4) hor by (simp add: lossless_def Let_def)
qed
text \<open>A run over several organisations, each of which is switched on or off.\<close>

lemma switches:
  assumes step: "\<And>org h. switched org (on org h) h (f org h)" and stable: "\<And>org o1 h h'. states_only h h' \<Longrightarrow> on o1 h' = on o1 h"
  shows "states_only h (fold f os h) \<and> (\<forall>o1. journaling o1 (fold f os h) = (if o1 \<in> set os then on o1 h else journaling o1 h))"
proof (induction os arbitrary: h)
  case (Cons org os)
  have s: "switched org (on org h) h (f org h)" by (rule step)
  then have so: "states_only h (f org h)" by (simp add: switched_def)
  have "journaling o1 (f org h) = (if o1 = org then on org h else journaling o1 h)" for o1 using s by (simp add: switched_def)
  then show ?case using Cons [of "f org h"] so stable [OF so] states_only_trans by auto
qed simp

lemma switches_lossless:
  assumes step: "\<And>org h. switched org (on org h) h (f org h)" and inv: "journal_inv h"
  shows "journal_inv (fold f os h) \<and> lossless g [] h (fold f os h)"
  using inv
proof (induction os arbitrary: h)
  case (Cons org os)
  note s = switched_lossless [OF step [of org h] Cons.prems]
  have "journal_inv (fold f os (f org h)) \<and> lossless g [] (f org h) (fold f os (f org h))" using s(1) by (rule Cons.IH)
  then show ?case using lossless_trans [OF s(2) [of g], of "[]"] by simp
qed simp

lemma sync_fold:
  assumes "journal_inv h"
  shows "journal_inv (fold syncExtensionResourceJournal os h)" "lossless g [] h (fold syncExtensionResourceJournal os h)"
    "states_only h (fold syncExtensionResourceJournal os h)"
    "journaling o1 (fold syncExtensionResourceJournal os h) \<longleftrightarrow>
       (if o1 \<in> set os then resourceEventSubscribers o1 h \<noteq> [] else journaling o1 h)"
  using switches_lossless [OF sync_switched assms, where g = g and os = os]
    switches [OF sync_switched, where h = h and os = os] states_only_same(4) by auto

lemma reconcile_switched:
  "switched org (b \<and> resourceEventSubscribers org h \<noteq> []) h (reconcileExtensionResourceOrganization b org h)"
  using pause_switched sync_switched by (cases b) (simp_all add: reconcileExtensionResourceOrganization_def)

lemma reconcile_journal:
  assumes "journal_inv h"
  shows "journal_inv (ReconcileExtensionResourceJournal b h)" "lossless g [] h (ReconcileExtensionResourceJournal b h)"
    "journal_follows b (ReconcileExtensionResourceJournal b h)"
proof -
  let ?os = "journal_organizations h" and ?f = "reconcileExtensionResourceOrganization b"
  note s = switches [where on = "\<lambda>org h. b \<and> resourceEventSubscribers org h \<noteq> []", OF reconcile_switched, where h = h and os = ?os]
  have r: "states_only h (ReconcileExtensionResourceJournal b h)"
    "\<And>o1. journaling o1 (ReconcileExtensionResourceJournal b h) \<longleftrightarrow>
       (if o1 \<in> set ?os then b \<and> resourceEventSubscribers o1 h \<noteq> [] else journaling o1 h)"
    using s states_only_same(4) by (auto simp: ReconcileExtensionResourceJournal_def)
  have "\<not> journaling o1 h \<and> resourceEventSubscribers o1 h = []" if "o1 \<notin> set ?os" for o1
  proof -
    have "map_of (journal_states h) o1 = None" using that by (simp add: journal_organizations_def map_of_eq_None_iff)
    moreover have "filter (subscription h o1) (plugin_enablements h) = []"
      using that by (intro filter_False) (auto simp: subscription_def journal_organizations_def)
    ultimately show ?thesis by (simp add: journaling_def resourceEventSubscribers_def)
  qed
  then show "journal_follows b (ReconcileExtensionResourceJournal b h)"
    using r states_only_same(4) [OF r(1)] by (auto simp: journal_follows_def)
  show "journal_inv (ReconcileExtensionResourceJournal b h)" "lossless g [] h (ReconcileExtensionResourceJournal b h)"
    using switches_lossless [OF reconcile_switched assms] by (simp_all add: ReconcileExtensionResourceJournal_def)
qed

text \<open>
  A change of enablements or registrations that is followed by a resynchronisation of the organisations
  whose subscriptions it may have changed.
\<close>

lemma resync:
  assumes change: "h1 = h\<lparr>plugin_enablements := es, plugin_registrations := regs\<rparr>"
    and inv: "journal_inv h" and follows: "journal_follows True h"
    and others: "\<And>o1. o1 \<notin> set os \<Longrightarrow> resourceEventSubscribers o1 h1 = resourceEventSubscribers o1 h"
  shows "journal_inv (fold syncExtensionResourceJournal os h1)" "lossless g [] h (fold syncExtensionResourceJournal os h1)"
    "journal_follows True (fold syncExtensionResourceJournal os h1)"
proof -
  have inv1: "journal_inv h1"
    using inv by (simp add: change journal_inv_def org_rows_def journal_horizon_def journal_gap_def)
  note s = sync_fold [OF inv1, where os = os]
  show "journal_inv (fold syncExtensionResourceJournal os h1)" by (rule s(1))
  have "lossless g [] h h1"
    by (intro lossless_states) (simp_all add: change journal_gap_def journal_known_def journaling_def)
  then show "lossless g [] h (fold syncExtensionResourceJournal os h1)" using lossless_trans [OF _ s(2)] by fastforce
  have "journaling o1 h1 = journaling o1 h" for o1 by (simp add: change journaling_def)
  then show "journal_follows True (fold syncExtensionResourceJournal os h1)"
    using s(4) states_only_same(4) [OF s(3)] follows others unfolding journal_follows_def by auto
qed
section \<open>The operations keep what consumers rely on\<close>

lemma put_journal:
  assumes put: "PutPluginEnablement i e actor now h = Inr h'" and inv: "journal_inv h" and follows: "journal_follows True h"
  shows "journal_inv h'" "lossless g [] h h'" "journal_follows True h'"
proof -
  let ?here = "enablement_at (pi_PluginID i) (pl_OrgID e)"
  define es where "es = (if list_ex ?here (plugin_enablements h)
     then upd_where ?here (\<lambda>x. (plugin_enablement_row i e actor now)\<lparr>eb_created_at := eb_created_at x, eb_created_by := eb_created_by x\<rparr>) (plugin_enablements h)
     else plugin_enablements h @ [plugin_enablement_row i e actor now])"
  have h': "h' = fold syncExtensionResourceJournal [pl_OrgID e] (h\<lparr>plugin_enablements := es\<rparr>)"
    using put by (auto simp: PutPluginEnablement_def es_def Let_def split: if_splits)
  have "filter (\<lambda>x. eb_org_id x = o1) es = filter (\<lambda>x. eb_org_id x = o1) (plugin_enablements h)" if "o1 \<noteq> pl_OrgID e" for o1
  proof -
    have "filter (\<lambda>x. eb_org_id x = o1) (upd_where ?here (\<lambda>x. (plugin_enablement_row i e actor now)\<lparr>eb_created_at := eb_created_at x, eb_created_by := eb_created_by x\<rparr>) xs)
        = filter (\<lambda>x. eb_org_id x = o1) xs" for xs
      using that by (induction xs) (auto simp: upd_where_def enablement_at_def plugin_enablement_row_def)
    then show ?thesis using that by (simp add: es_def plugin_enablement_row_def)
  qed
  then have "resourceEventSubscribers o1 (h\<lparr>plugin_enablements := es\<rparr>) = resourceEventSubscribers o1 h" if "o1 \<notin> set [pl_OrgID e]" for o1
    using that by (intro subscribers_cong) simp_all
  note r = resync [where os = "[pl_OrgID e]" and h = h and ?h1.0 = "h\<lparr>plugin_enablements := es\<rparr>" and es = es and regs = "plugin_registrations h", OF _ inv follows this]
  then show "journal_inv h'" "lossless g [] h h'" "journal_follows True h'" by (simp_all add: h')
qed

lemma delete_journal:
  assumes h': "h' = snd (DeletePluginEnablement plugin org h)" and inv: "journal_inv h" and follows: "journal_follows True h"
  shows "journal_inv h'" "lossless g [] h h'" "journal_follows True h'"
proof -
  let ?es = "filter (\<lambda>e. \<not> enablement_at plugin org e) (plugin_enablements h)"
  have "filter (\<lambda>x. eb_org_id x = o1) ?es = filter (\<lambda>x. eb_org_id x = o1) (plugin_enablements h)" if "o1 \<noteq> org" for o1
    using that by (auto simp: enablement_at_def intro!: filter_cong)
  then have "resourceEventSubscribers o1 (h\<lparr>plugin_enablements := ?es\<rparr>) = resourceEventSubscribers o1 h" if "o1 \<notin> set [org]" for o1
    using that by (intro subscribers_cong) simp_all
  note r = resync [where os = "[org]" and h = h and ?h1.0 = "h\<lparr>plugin_enablements := ?es\<rparr>" and es = ?es and regs = "plugin_registrations h", OF _ inv follows this]
  then show "journal_inv h'" "lossless g [] h h'" "journal_follows True h'"
    using inv follows by (simp_all add: h' DeletePluginEnablement_def)
qed

text \<open>The installation has been read with all its enablements.\<close>

definition organizations_read :: "PluginInstallation \<Rightarrow> host \<Rightarrow> bool" where
  "organizations_read i h \<longleftrightarrow>
     (\<forall>e \<in> set (plugin_enablements h). eb_installation_uuid e = pi_InstallationID i \<longrightarrow> eb_org_id e \<in> pl_OrgID ` set (pi_Organizations i))"

lemma insert_registrations_Inr:
  "try_fold (insert_registration i) regs h = Inr h' \<Longrightarrow>
   \<exists>rs. h' = h\<lparr>plugin_registrations := rs\<rparr> \<and>
     filter (\<lambda>r. rr_installation_uuid r \<noteq> pi_InstallationID i) rs = filter (\<lambda>r. rr_installation_uuid r \<noteq> pi_InstallationID i) (plugin_registrations h)"
proof (induction regs arbitrary: h)
  case Nil
  then show ?case by (intro exI [of _ "plugin_registrations h"]) simp
next
  case (Cons r regs)
  then obtain h1 where h1: "insert_registration i r h = Inr h1" "try_fold (insert_registration i) regs h1 = Inr h'"
    by (auto split: sum.splits)
  show ?case using Cons.IH [OF h1(2)] h1(1)
    by (auto simp: insert_registration_def map_error_Inr_iff insert_row_Inr_iff)
qed

lemma replace_journal:
  assumes replace: "ReplacePluginRegistrations i regs h = Inr h'" and read: "organizations_read i h"
    and inv: "journal_inv h" and follows: "journal_follows True h"
  shows "journal_inv h'" "lossless g [] h h'" "journal_follows True h'"
proof -
  let ?os = "map pl_OrgID (pi_Organizations i)"
  obtain rs where rs: "h' = fold syncExtensionResourceJournal ?os (h\<lparr>plugin_registrations := rs\<rparr>)"
    "filter (\<lambda>r. rr_installation_uuid r \<noteq> pi_InstallationID i) rs = filter (\<lambda>r. rr_installation_uuid r \<noteq> pi_InstallationID i) (plugin_registrations h)"
    using replace by (auto simp: ReplacePluginRegistrations_def Let_def dest!: insert_registrations_Inr split: sum.splits)
  have mem: "x \<in> set rs \<longleftrightarrow> x \<in> set (plugin_registrations h)" if "rr_installation_uuid x \<noteq> pi_InstallationID i" for x
    using that arg_cong [OF rs(2), of set] by auto
  have "resourceEventSubscribers o1 (h\<lparr>plugin_registrations := rs\<rparr>) = resourceEventSubscribers o1 h" if "o1 \<notin> set ?os" for o1
  proof -
    have "filter (subscription (h\<lparr>plugin_registrations := rs\<rparr>) o1) (plugin_enablements h) = filter (subscription h o1) (plugin_enablements h)"
    proof (rule filter_cong [OF refl])
      fix e assume e: "e \<in> set (plugin_enablements h)"
      have "eb_org_id e = o1 \<Longrightarrow> eb_installation_uuid e \<noteq> pi_InstallationID i"
        using read e that by (auto simp: organizations_read_def)
      then show "subscription (h\<lparr>plugin_registrations := rs\<rparr>) o1 e = subscription h o1 e"
        using mem by (auto simp: subscription_def list_ex_iff)
    qed
    then show ?thesis by (simp add: resourceEventSubscribers_def)
  qed
  note r = resync [where os = "?os" and h = h and ?h1.0 = "h\<lparr>plugin_registrations := rs\<rparr>" and es = "plugin_enablements h" and regs = rs, OF _ inv follows this]
  then show "journal_inv h'" "lossless g [] h h'" "journal_follows True h'" by (simp_all add: rs(1))
qed

lemma consumers_refl [simp]: "\<exists>cs. h = h\<lparr>event_consumers := cs\<rparr>"
  by (intro exI [of _ "event_consumers h"]) simp

lemma acknowledge_Inr:
  "acknowledgeExtensionResourceCursor g c h = Inr h' \<Longrightarrow> \<exists>cs. h' = h\<lparr>event_consumers := cs\<rparr>"
  by (auto simp: acknowledgeExtensionResourceCursor_def split: if_splits sum.splits option.splits)

lemma read_consumers:
  "ReadExtensionResourceEvents g after limit h = (r, h') \<Longrightarrow> \<exists>cs. h' = h\<lparr>event_consumers := cs\<rparr>"
  using acknowledge_Inr [of g "the after" h h']
  by (auto simp: ReadExtensionResourceEvents_def split: if_splits sum.splits option.splits)

lemma read_same:
  assumes "ReadExtensionResourceEvents g after limit h = (r, h')"
  shows "journal_same h h'" "core h' = core h" "journal_same h' h"
  using read_consumers [OF assms] by (auto simp: journal_same_def)

lemma publish_same:
  assumes "PublishExtensionEvent json_size g e h = Inr h'"
  shows "journal_same h h'"
  using assms by (auto simp: PublishExtensionEvent_def journal_same_def split: option.splits)
section \<open>Pages\<close>

lemma sorted_after_take:
  fixes k :: "'a \<Rightarrow> int"
  assumes "sorted_wrt (<) (map k xs)" "0 < n" "n \<le> length xs"
  shows "filter (\<lambda>x. k x > k (last (take n xs))) xs = drop n xs"
proof -
  have "take n xs \<noteq> []" using assms(2,3) by auto
  then obtain a z where a: "take n xs = a @ [z]" by (metis rev_exhaust)
  define b where "b = drop n xs"
  have xs: "xs = a @ z # b" using a append_take_drop_id [of n xs] by (simp add: b_def)
  have "\<forall>x \<in> set a. k x < k z" "\<forall>x \<in> set b. k z < k x" using assms(1) by (auto simp: xs sorted_wrt_append)
  then have "filter (\<lambda>x. k x > k z) xs = b" unfolding xs by (auto intro!: filter_False filter_True simp: less_asym)
  then show ?thesis by (simp add: a b_def)
qed

lemma sorted_key_id:
  fixes k :: "'a \<Rightarrow> int"
  shows "sorted_wrt (<) (map k xs) \<Longrightarrow> sort_key k xs = xs"
  by (intro sort_key_id_if_sorted) (auto simp: strict_sorted_iff)

lemma sorted_filter_key:
  "sorted_wrt (<) (map k xs) \<Longrightarrow> sorted_wrt (<) (map (k :: 'a \<Rightarrow> int) (filter P xs))"
  by (induction xs) auto

text \<open>The rows that a page is cut from.\<close>

lemma page_rows:
  assumes "journal_inv h"
  shows "sort_key re_cursor (filter (\<lambda>r. re_org_id r = gr_OrgID g \<and> re_cursor r > c \<and> re_cursor r \<le> journal_head (gr_OrgID g) h
      \<and> in_scope g (re_event r)) (resource_events h))
    = filter (\<lambda>r. re_cursor r > c \<and> in_scope g (re_event r)) (org_rows (gr_OrgID g) h)"
proof -
  have "filter (\<lambda>r. re_org_id r = gr_OrgID g \<and> re_cursor r > c \<and> re_cursor r \<le> journal_head (gr_OrgID g) h
      \<and> in_scope g (re_event r)) (resource_events h)
    = filter (\<lambda>r. re_cursor r > c \<and> in_scope g (re_event r)) (org_rows (gr_OrgID g) h)"
    using assms by (auto simp: journal_inv_def org_rows_def intro!: filter_cong)
  then show ?thesis using assms by (simp add: journal_inv_def sorted_key_id sorted_filter_key)
qed

lemma start_Inr:
  "extensionResourceStart after head horizon = Inr s \<longleftrightarrow>
     (case after of None \<Rightarrow> s = horizon | Some a \<Rightarrow> s = a \<and> horizon \<le> a \<and> a \<le> head)"
  by (auto simp: extensionResourceStart_def split: option.splits)

lemma read_page_Inr:
  assumes page: "read_page g after limit h = Inr (items, next)" and limit: "1 \<le> limit" and inv: "journal_inv h"
  defines "start \<equiv> (case after of None \<Rightarrow> journal_horizon (gr_OrgID g) h | Some a \<Rightarrow> a)"
  shows "items = take (nat limit) (pending g start h)" "pending g next h = drop (length items) (pending g start h)"
    "journal_horizon (gr_OrgID g) h \<le> start" "start \<le> next" "next \<le> journal_head (gr_OrgID g) h"
    "pluginSubscribesToResourceEvents (gr_OrgID g) (gr_PluginID g) h"
proof -
  let ?o = "gr_OrgID g" and ?n = "nat limit"
  let ?L = "\<lambda>c. filter (\<lambda>r. re_cursor r > c \<and> in_scope g (re_event r)) (org_rows ?o h)"
  have known: "journal_horizon ?o h \<le> journal_head ?o h" "\<And>r. r \<in> set (org_rows ?o h) \<Longrightarrow> re_cursor r \<le> journal_head ?o h"
    "sorted_wrt (<) (map re_cursor (org_rows ?o h))"
    using inv by (auto simp: journal_inv_def)
  obtain s where s: "pluginSubscribesToResourceEvents ?o (gr_PluginID g) h"
    "extensionResourceStart after (journal_head ?o h) (journal_horizon ?o h) = Inr s"
    "items = map re_event (take ?n (?L s))"
    "next = (if int (length (take ?n (?L s))) = limit then re_cursor (last (take ?n (?L s))) else journal_head ?o h)"
    using page unfolding read_page_def Let_def page_rows [OF inv] requireResourceEventSubscription_def by auto
  have "s = start" "journal_horizon ?o h \<le> start" "start \<le> journal_head ?o h"
    using s(2) known(1) by (auto simp: start_Inr start_def split: option.splits)
  then have r: "pluginSubscribesToResourceEvents ?o (gr_PluginID g) h" "items = map re_event (take ?n (?L start))"
    "next = (if int (length (take ?n (?L start))) = limit then re_cursor (last (take ?n (?L start))) else journal_head ?o h)"
    "journal_horizon ?o h \<le> start" "start \<le> journal_head ?o h"
    using s by simp_all
  show "pluginSubscribesToResourceEvents ?o (gr_PluginID g) h" by (rule r(1))
  show "journal_horizon ?o h \<le> start" by (rule r(4))
  have p: "pending g c h = map re_event (?L c)" for c by (simp add: pending_def)
  show items: "items = take ?n (pending g start h)" by (simp add: r(2) p take_map)
  have sorted: "sorted_wrt (<) (map re_cursor (?L start))" using known(3) by (rule sorted_filter_key)
  have "pending g next h = drop (length items) (pending g start h) \<and> start \<le> next \<and> next \<le> journal_head ?o h"
  proof (cases "int (length (take ?n (?L start))) = limit")
    case True
    then have n: "next = re_cursor (last (take ?n (?L start)))" "?n \<le> length (?L start)" "length items = ?n" "0 < ?n"
      using r(2,3) limit by auto
    have "take ?n (?L start) \<noteq> []" using n(2,4) by auto
    then have "last (take ?n (?L start)) \<in> set (?L start)" by (meson in_set_takeD last_in_set)
    then have b: "start < next" "next \<le> journal_head ?o h" using n(1) known(2) by auto
    have "?L next = filter (\<lambda>r. re_cursor r > next) (?L start)" using b(1) by (auto intro!: filter_cong)
    also have "\<dots> = drop ?n (?L start)" using sorted_after_take [OF sorted n(4,2)] n(1) by simp
    finally show ?thesis using b n(3) by (simp add: p drop_map)
  next
    case False
    then have n: "next = journal_head ?o h" "length (?L start) \<le> length items" using r(2,3) limit by auto
    moreover have "?L next = []" using known(2) n(1) by (fastforce simp: filter_empty_conv)
    ultimately show ?thesis using r(5) by (simp add: p)
  qed
  then show "pending g next h = drop (length items) (pending g start h)" "start \<le> next" "next \<le> journal_head ?o h" by auto
qed

lemma Read_Inr:
  assumes "ReadExtensionResourceEvents g after limit h = (Inr p, h')"
  shows "read_page g after limit h' = Inr p" "1 \<le> limit"
  using assms by (auto simp: ReadExtensionResourceEvents_def split: if_splits option.splits sum.splits)
section \<open>Retention\<close>

lemma foldl_min_le: "foldl min a xs \<le> (a :: int) \<and> (\<forall>x \<in> set xs. foldl min a xs \<le> x)"
proof (induction xs arbitrary: a)
  case (Cons x xs)
  then show ?case using order_trans [OF conjunct1 [OF Cons [of "min a x"]]] by auto
qed simp

lemma lowest_acknowledged_le:
  "g \<in> set (grants (core h)) \<Longrightarrow> active_consumer updated_at org policy now h g \<Longrightarrow>
   lowest_acknowledged updated_at org policy now h \<le> lookup_or_zero (event_consumers h) (consumer_key g)"
  unfolding lowest_acknowledged_def using foldl_min_le by auto

lemma prune_bound_rows:
  assumes inv: "journal_inv h" and bound: "prune_bound org policy now below h > lookup_or_zero (event_retention h) org"
  shows "prune_bound org policy now below h \<in> re_cursor ` set (org_rows org h)"
    "\<And>r. r \<in> set (org_rows org h) \<Longrightarrow> lookup_or_zero (event_retention h) org < re_cursor r \<Longrightarrow>
       re_cursor r \<le> prune_bound org policy now below h \<Longrightarrow> re_recorded_at r < now - rt_Window policy \<and> re_cursor r < below"
proof -
  let ?L = "filter (\<lambda>r. re_cursor r > lookup_or_zero (event_retention h) org) (org_rows org h)"
  let ?pre = "takeWhile (\<lambda>r. re_recorded_at r < now - rt_Window policy \<and> re_cursor r < below) (take (nat (rt_Batch policy)) ?L)"
  have sorted: "sorted_wrt (<) (map re_cursor ?L)" using inv by (intro sorted_filter_key) (simp add: journal_inv_def)
  have cand: "sort_key re_cursor (filter (\<lambda>r. re_org_id r = org \<and> re_cursor r > lookup_or_zero (event_retention h) org) (resource_events h)) = ?L"
    using sorted by (simp add: sorted_key_id org_rows_def conj_commute)
  have b: "?pre \<noteq> []" "prune_bound org policy now below h = re_cursor (last ?pre)"
    using bound by (auto simp: prune_bound_def cand Let_def split: if_splits)
  define n where "n = length ?pre"
  have "n \<le> length (take (nat (rt_Batch policy)) ?L)" unfolding n_def by (rule length_takeWhile_le)
  then have le: "n \<le> length ?L" "n \<le> nat (rt_Batch policy)" by auto
  have "?pre = take n (take (nat (rt_Batch policy)) ?L)" unfolding n_def by (rule takeWhile_eq_take)
  then have pre: "?pre = take n ?L" using le(2) by simp
  have "last ?pre \<in> set ?pre" using b(1) by (rule last_in_set)
  then have "last ?pre \<in> set ?L" by (metis pre in_set_takeD)
  then show "prune_bound org policy now below h \<in> re_cursor ` set (org_rows org h)" by (auto simp: b(2))
  fix r assume r: "r \<in> set (org_rows org h)" "lookup_or_zero (event_retention h) org < re_cursor r" "re_cursor r \<le> prune_bound org policy now below h"
  have "filter (\<lambda>x. re_cursor x > re_cursor (last (take n ?L))) ?L = drop n ?L"
    using sorted le(1) b(1) by (intro sorted_after_take) (simp_all add: n_def)
  then have "set (drop n ?L) = {x \<in> set ?L. re_cursor x > re_cursor (last (take n ?L))}" by (metis set_filter)
  then have "r \<notin> set (drop n ?L)" using r(3) b(2) pre by auto
  moreover have "r \<in> set (take n ?L) \<union> set (drop n ?L)" unfolding set_append [symmetric] append_take_drop_id using r(1,2) by simp
  ultimately have "r \<in> set ?pre" by (simp add: pre)
  then show "re_recorded_at r < now - rt_Window policy \<and> re_cursor r < below" by (metis (mono_tags, lifting) set_takeWhileD)
qed
text \<open>What a run of retention may do to the journals.\<close>

abbreviation retained :: "string \<Rightarrow> host \<Rightarrow> int" where
  "retained org h \<equiv> lookup_or_zero (event_retention h) org"

definition prunes ::
  "(ExternalOperationGrant \<Rightarrow> timestamp) \<Rightarrow> ExtensionResourceRetention \<Rightarrow> timestamp \<Rightarrow> host \<Rightarrow> int \<Rightarrow> host \<Rightarrow> bool" where
  "prunes updated_at policy now h n h' \<longleftrightarrow>
     (\<exists>P ret. h' = h\<lparr>resource_events := filter P (resource_events h), event_retention := ret\<rparr>
        \<and> n = int (length (filter (\<lambda>r. \<not> P r) (resource_events h)))
        \<and> (\<forall>r \<in> set (resource_events h). \<not> P r \<longrightarrow> re_recorded_at r < now - rt_Window policy
             \<and> re_cursor r < lowest_acknowledged updated_at (re_org_id r) policy now h
             \<and> retained (re_org_id r) h < re_cursor r \<and> re_cursor r \<le> retained (re_org_id r) h'))
     \<and> (\<forall>org. retained org h \<le> retained org h' \<and> (retained org h < retained org h' \<longrightarrow>
          retained org h' < lowest_acknowledged updated_at org policy now h \<and> retained org h' \<le> journal_head org h))"

lemma prunes_refl [simp]: "prunes updated_at policy now h 0 h"
proof -
  have "h = h\<lparr>resource_events := filter (\<lambda>_. True) (resource_events h), event_retention := event_retention h\<rparr>" by simp
  then show ?thesis unfolding prunes_def by fastforce
qed

lemma lowest_acknowledged_same:
  assumes "h' = h\<lparr>resource_events := rows, event_retention := ret\<rparr>"
  shows "lowest_acknowledged updated_at org policy now h' = lowest_acknowledged updated_at org policy now h"
    "active_consumer updated_at org policy now h' = active_consumer updated_at org policy now h"
    "resourceEventSubscribers o1 h' = resourceEventSubscribers o1 h"
proof -
  show s: "resourceEventSubscribers o1 h' = resourceEventSubscribers o1 h" for o1
    by (intro subscribers_cong) (simp_all add: assms)
  then show "active_consumer updated_at org policy now h' = active_consumer updated_at org policy now h"
    by (simp add: fun_eq_iff active_consumer_def)
  then show "lowest_acknowledged updated_at org policy now h' = lowest_acknowledged updated_at org policy now h"
    by (simp add: lowest_acknowledged_def assms)
qed

lemma prunes_trans:
  assumes "prunes updated_at policy now h n h'" "prunes updated_at policy now h' m h''"
  shows "prunes updated_at policy now h (n + m) h''"
proof -
  obtain P ret where P: "h' = h\<lparr>resource_events := filter P (resource_events h), event_retention := ret\<rparr>"
    "n = int (length (filter (\<lambda>r. \<not> P r) (resource_events h)))"
    "\<And>r. r \<in> set (resource_events h) \<Longrightarrow> \<not> P r \<Longrightarrow> re_recorded_at r < now - rt_Window policy
      \<and> re_cursor r < lowest_acknowledged updated_at (re_org_id r) policy now h
      \<and> retained (re_org_id r) h < re_cursor r \<and> re_cursor r \<le> retained (re_org_id r) h'"
    using assms(1) by (auto simp: prunes_def)
  note low = lowest_acknowledged_same(1) [OF P(1)]
  obtain Q ret' where Q: "h'' = h'\<lparr>resource_events := filter Q (resource_events h'), event_retention := ret'\<rparr>"
    "m = int (length (filter (\<lambda>r. \<not> Q r) (resource_events h')))"
    "\<And>r. r \<in> set (resource_events h') \<Longrightarrow> \<not> Q r \<Longrightarrow> re_recorded_at r < now - rt_Window policy
      \<and> re_cursor r < lowest_acknowledged updated_at (re_org_id r) policy now h
      \<and> retained (re_org_id r) h' < re_cursor r \<and> re_cursor r \<le> retained (re_org_id r) h''"
    using assms(2) by (auto simp: prunes_def low)
  have mono: "retained org h' \<le> retained org h''" "retained org h \<le> retained org h'" for org using assms by (auto simp: prunes_def)
  let ?R = "\<lambda>r. P r \<and> Q r"
  have "length (filter (\<lambda>r. \<not> ?R r) xs) = length (filter (\<lambda>r. \<not> P r) xs) + length (filter (\<lambda>r. \<not> Q r) (filter P xs))" for xs
    by (induction xs) auto
  moreover have "h'' = h\<lparr>resource_events := filter ?R (resource_events h), event_retention := ret'\<rparr>"
    by (simp add: P(1) Q(1) conj_commute)
  moreover have "re_recorded_at r < now - rt_Window policy
      \<and> re_cursor r < lowest_acknowledged updated_at (re_org_id r) policy now h
      \<and> retained (re_org_id r) h < re_cursor r \<and> re_cursor r \<le> retained (re_org_id r) h''"
    if "r \<in> set (resource_events h)" "\<not> ?R r" for r
    using P(3) [of r] Q(3) [of r] that mono [of "re_org_id r"] by (cases "P r") (auto simp: P(1))
  moreover have "retained org h \<le> retained org h'' \<and> (retained org h < retained org h'' \<longrightarrow>
      retained org h'' < lowest_acknowledged updated_at org policy now h \<and> retained org h'' \<le> journal_head org h)" for org
  proof -
    have "retained org h < retained org h' \<longrightarrow> retained org h' < lowest_acknowledged updated_at org policy now h \<and> retained org h' \<le> journal_head org h"
      "retained org h' < retained org h'' \<longrightarrow> retained org h'' < lowest_acknowledged updated_at org policy now h \<and> retained org h'' \<le> journal_head org h'"
      using assms by (auto simp: prunes_def low)
    then show ?thesis using mono [of org] P(1) by auto
  qed
  ultimately show ?thesis unfolding prunes_def P(2) Q(2)
    by (intro conjI exI [of _ ?R] exI [of _ ret']) (auto simp: P(1))
qed

lemma prune_organization:
  assumes "pruneExtensionResourceOrganization updated_at locked policy now org (n, h) = (n', h')" "journal_inv h"
  shows "prunes updated_at policy now h (n' - n) h'"
proof -
  let ?bound = "prune_bound org policy now (lowest_acknowledged updated_at org policy now h) h"
  define gone :: "resource_event_row \<Rightarrow> bool" where "gone = (\<lambda>r. re_org_id r = org \<and> re_cursor r > retained org h \<and> re_cursor r \<le> ?bound)"
  show ?thesis
  proof (cases "locked org \<and> ?bound > retained org h")
    case False
    then show ?thesis using assms(1) by (auto simp: pruneExtensionResourceOrganization_def Let_def split: if_splits)
  next
    case True
    then have h': "h' = h\<lparr>resource_events := filter (\<lambda>r. \<not> gone r) (resource_events h),
        event_retention := AList.update org ?bound (event_retention h)\<rparr>"
      "n' - n = int (length (filter gone (resource_events h)))"
      using assms(1) by (auto simp: pruneExtensionResourceOrganization_def Let_def gone_def max_def split: if_splits)
    note rows = prune_bound_rows [OF assms(2)] True
    have "?bound < lowest_acknowledged updated_at org policy now h \<and> ?bound \<le> journal_head org h"
    proof -
      obtain r where "r \<in> set (org_rows org h)" "re_cursor r = ?bound" using rows by fastforce
      then show ?thesis using rows(2) [of org policy now _ r] rows(3) assms(2) unfolding journal_inv_def by (metis order_refl)
    qed
    moreover have "re_org_id r = org \<and> re_recorded_at r < now - rt_Window policy
        \<and> re_cursor r < lowest_acknowledged updated_at org policy now h \<and> retained org h < re_cursor r \<and> re_cursor r \<le> ?bound"
      if "r \<in> set (resource_events h)" "gone r" for r
      using that rows(2) [of org policy now _ r] rows(3) by (auto simp: gone_def org_rows_def)
    ultimately show ?thesis unfolding prunes_def h'
      using True by (intro conjI exI [of _ "\<lambda>r. \<not> gone r"] exI) auto
  qed
qed

lemma prunes_inv:
  assumes "prunes updated_at policy now h n h'" "journal_inv h"
  shows "journal_inv h'" "lossless g [] h h'" "journal_follows b h' = journal_follows b h"
    "journal_horizon (gr_OrgID g) h' \<le> c \<Longrightarrow> pending g c h' = pending g c h"
proof -
  obtain P ret where P: "h' = h\<lparr>resource_events := filter P (resource_events h), event_retention := ret\<rparr>"
    "\<And>r. r \<in> set (resource_events h) \<Longrightarrow> \<not> P r \<Longrightarrow> re_cursor r \<le> retained (re_org_id r) h'"
    using assms(1) by (auto simp: prunes_def)
  have mono: "retained org h \<le> retained org h'" "retained org h < retained org h' \<Longrightarrow> retained org h' \<le> journal_head org h" for org
    using assms(1) by (auto simp: prunes_def)
  have rows: "org_rows org h' = filter P (org_rows org h)" for org by (simp add: org_rows_def P(1) conj_commute)
  have hor: "journal_horizon org h \<le> journal_horizon org h'" "journal_horizon org h' \<le> journal_head org h" for org
  proof -
    have "journal_horizon org h \<le> journal_head org h" using assms(2) by (simp add: journal_inv_def)
    moreover have "journal_gap org h' = journal_gap org h" by (simp add: journal_gap_def P(1))
    ultimately show "journal_horizon org h \<le> journal_horizon org h'" "journal_horizon org h' \<le> journal_head org h"
      using mono [of org] by (cases "retained org h < retained org h'"; auto simp: journal_horizon_def)+
  qed
  have "event_heads h' = event_heads h" by (simp add: P(1))
  then show "journal_inv h'" using assms(2) hor(2) by (auto simp: journal_inv_def rows sorted_filter_key)
  show "journal_follows b h' = journal_follows b h"
    using lowest_acknowledged_same(3) [OF P(1)] by (simp add: journal_follows_def journaling_def P(1))
  have pending: "pending g c h' = pending g c h" if "journal_horizon (gr_OrgID g) h' \<le> c" for c
  proof -
    have "filter (\<lambda>r. re_cursor r > c \<and> in_scope g (re_event r)) (filter P (org_rows (gr_OrgID g) h))
      = filter (\<lambda>r. re_cursor r > c \<and> in_scope g (re_event r)) (org_rows (gr_OrgID g) h)"
      unfolding filter_filter using P(2) that by (fastforce simp: org_rows_def journal_horizon_def intro!: filter_cong)
    then show ?thesis by (simp add: pending_def rows)
  qed
  then show "journal_horizon (gr_OrgID g) h' \<le> c \<Longrightarrow> pending g c h' = pending g c h" .
  have "c < journal_horizon (gr_OrgID g) h' \<or> pending g c h' = pending g c h" for c
    using pending by (cases "c < journal_horizon (gr_OrgID g) h'") (simp_all add: not_less)
  moreover have "journaling org h' = journaling org h" "journal_known org h' = journal_known org h"
    "journal_head org h' = journal_head org h" for org by (simp_all add: journaling_def journal_known_def P(1))
  ultimately show "lossless g [] h h'" using hor(1) by (simp add: lossless_def Let_def scoped_def)
qed

lemma prune_fold:
  assumes "journal_inv h"
  shows "\<forall>n' h'. fold (pruneExtensionResourceOrganization updated_at locked policy now) os (n, h) = (n', h') \<longrightarrow>
    prunes updated_at policy now h (n' - n) h'"
  using assms
proof (induction os arbitrary: n h)
  case (Cons org os)
  obtain n1 h1 where s: "pruneExtensionResourceOrganization updated_at locked policy now org (n, h) = (n1, h1)" by fastforce
  note p = prune_organization [OF s Cons.prems]
  then have "\<forall>n' h'. fold (pruneExtensionResourceOrganization updated_at locked policy now) os (n1, h1) = (n', h') \<longrightarrow>
    prunes updated_at policy now h1 (n' - n1) h'" using prunes_inv(1) Cons by blast
  then show ?case using prunes_trans [OF p] s by fastforce
qed simp

lemma prune_Inr:
  "PruneExtensionResourceJournal updated_at locked policy now h = Inr (n, h') \<Longrightarrow> journal_inv h \<Longrightarrow> prunes updated_at policy now h n h'"
  using prune_fold [of h] by (fastforce simp: PruneExtensionResourceJournal_def)
section \<open>Steps and runs\<close>

text \<open>
  Everything that happens to the journal, labelled with the entries that it commits. The flag tells whether
  Core currently serves plugins. While it does not, transactions are committed without a journal and nothing
  changes subscriptions; a restart can change it. The other operations of the plugin host write tables that the
  journal does not read.
\<close>

definition committed_entries ::
  "(string \<Rightarrow> uuid option) \<Rightarrow> (nat \<Rightarrow> uuid) \<Rightarrow> timestamp \<Rightarrow> db \<Rightarrow> db \<Rightarrow> extensionResourceJournalEntry list" where
  "committed_entries parse_uuid ids now s s' =
     (case extensionJournalEntries parse_uuid ids now 0 (new_messages s s') of Inl e \<Rightarrow> [] | Inr es \<Rightarrow> es)"

inductive journal_step :: "host \<times> bool \<Rightarrow> extensionResourceJournalEntry list \<Rightarrow> host \<times> bool \<Rightarrow> bool" where
  commit: "commit_transaction b parse_uuid ids now s' h = Inr h' \<Longrightarrow>
     journal_step (h, b) (committed_entries parse_uuid ids now (core h) s') (h', b)"
| restart: "journal_step (h, b) [] (ReconcileExtensionResourceJournal b' h, b')"
| put: "PutPluginEnablement i e actor now h = Inr h' \<Longrightarrow> journal_step (h, True) [] (h', True)"
| delete: "h' = snd (DeletePluginEnablement plugin org h) \<Longrightarrow> journal_step (h, True) [] (h', True)"
| replace: "ReplacePluginRegistrations i regs h = Inr h' \<Longrightarrow> organizations_read i h \<Longrightarrow> journal_step (h, True) [] (h', True)"
| read: "ReadExtensionResourceEvents g after limit h = (r, h') \<Longrightarrow> journal_step (h, True) [] (h', True)"
| publish: "PublishExtensionEvent json_size g event h = Inr h' \<Longrightarrow> journal_step (h, True) [] (h', True)"
| prune: "PruneExtensionResourceJournal updated_at locked policy now h = Inr (n, h') \<Longrightarrow> journal_step (h, b) [] (h', b)"
| manage: "h' = h\<lparr>plugin_packages := packages, plugin_installations := installations, status_observations := observations,
     capability_registrations := capabilities\<rparr> \<Longrightarrow> journal_step (h, b) [] (h', b)"

inductive journal_run :: "host \<times> bool \<Rightarrow> extensionResourceJournalEntry list \<Rightarrow> host \<times> bool \<Rightarrow> bool" where
  idle: "journal_run s [] s"
| step: "journal_run s es t \<Longrightarrow> journal_step t es' u \<Longrightarrow> journal_run s (es @ es') u"

definition journal_ok :: "host \<times> bool \<Rightarrow> bool" where
  "journal_ok s \<longleftrightarrow> journal_inv (fst s) \<and> journal_follows (snd s) (fst s)"

lemma commit_ok:
  assumes commit: "commit_transaction b parse_uuid ids now s' h = Inr h'" and inv: "journal_inv h" and follows: "journal_follows b h"
  shows "journal_inv h'" "lossless g (committed_entries parse_uuid ids now (core h) s') h h'" "journal_follows b h'"
proof -
  let ?h = "h\<lparr>core := s'\<rparr>"
  have same: "journal_same h ?h" by (simp add: journal_same_def)
  note keep = journal_same_lossless [OF same]
  have "journal_inv h' \<and> lossless g (committed_entries parse_uuid ids now (core h) s') h h' \<and> journal_follows b h'"
  proof (cases b)
    case False
    then have h': "h' = ?h" using commit by (simp add: commit_transaction_def)
    have "lossless g (committed_entries parse_uuid ids now (core h) s') h h'"
      using keep(3) [of g] follows False by (auto simp: h' lossless_def Let_def journal_follows_def journaling_def)
    then show ?thesis using keep inv follows by (simp add: h')
  next
    case True
    then have flush: "flushExtensionJournal now (committed_entries parse_uuid ids now (core h) s') ?h = Inr h'"
      using commit by (auto simp: commit_transaction_def committed_entries_def)
    have inv': "journal_inv ?h" using keep(1) inv by simp
    note f = flush_lossless [OF flush inv']
    then show ?thesis using lossless_trans [OF keep(3) f(2)] keep follows by simp
  qed
  then show "journal_inv h'" "lossless g (committed_entries parse_uuid ids now (core h) s') h h'" "journal_follows b h'" by auto
qed

lemma journal_step_ok:
  assumes "journal_step s es t" "journal_ok s"
  shows "journal_ok t \<and> lossless g es (fst s) (fst t)"
  using assms
proof cases
  case (commit b parse_uuid ids now s' h h')
  then show ?thesis using commit_ok [OF commit(4)] assms(2) by (simp add: journal_ok_def)
next
  case (restart h b b')
  then show ?thesis using reconcile_journal assms(2) by (simp add: journal_ok_def)
next
  case (put i e actor now h h')
  then show ?thesis using put_journal [OF put(4)] assms(2) by (simp add: journal_ok_def)
next
  case (delete h' plugin org h)
  then show ?thesis using delete_journal [OF delete(4)] assms(2) by (simp add: journal_ok_def)
next
  case (replace i regs h h')
  then show ?thesis using replace_journal [OF replace(4,5)] assms(2) by (simp add: journal_ok_def)
next
  case (read g' after limit h r h')
  then show ?thesis using journal_same_lossless [OF read_same(1) [OF read(4)]] assms(2) by (simp add: journal_ok_def)
next
  case (publish json_size g' event h h')
  then show ?thesis using journal_same_lossless [OF publish_same [OF publish(4)]] assms(2) by (simp add: journal_ok_def)
next
  case (prune updated_at locked policy now h n h' b)
  then have inv: "journal_inv h" using assms(2) by (simp add: journal_ok_def)
  show ?thesis using prune prunes_inv [OF prune_Inr [OF prune(4) inv] inv] assms(2) by (simp add: journal_ok_def)
next
  case manage
  then have "journal_same (fst s) (fst t)" "snd t = snd s" "es = []" by (auto simp: journal_same_def)
  with journal_same_lossless [OF this(1)] show ?thesis using assms(2) by (simp add: journal_ok_def)
qed

lemma journal_run_ok:
  "journal_run s es t \<Longrightarrow> journal_ok s \<Longrightarrow> journal_ok t \<and> lossless g es (fst s) (fst t)"
proof (induction rule: journal_run.induct)
  case (step s es t es' u)
  then have "journal_ok t \<and> lossless g es (fst s) (fst t)" by blast
  then show ?case using journal_step_ok [OF step.hyps(2), of g] lossless_trans by blast
qed simp

lemma empty_host_ok: "journal_ok (empty_host s, b)"
  by (simp add: journal_ok_def journal_inv_def journal_follows_def empty_host_def org_rows_def journal_horizon_def journal_gap_def
      journaling_def resourceEventSubscribers_def lookup_or_zero_def)
section \<open>Properties\<close>

lemma pending_same: "journal_same h h' \<Longrightarrow> pending g c h' = pending g c h"
  by (simp add: pending_def journal_same_def org_rows_def)

lemma horizon_same: "journal_same h h' \<Longrightarrow> journal_horizon org h' = journal_horizon org h"
  by (simp add: journal_same_def journal_horizon_def journal_gap_def)

definition example_events_grant :: ExternalOperationGrant where
  "example_events_grant = \<lparr>gr_OrgID = ''acme'', gr_PluginID = ''com.acme'', gr_OperationID = ''op1'', gr_ActorID = ''alice'',
     gr_SourceOperation = ''rollout'', gr_Intent = example_intent\<lparr>oi_Actions := [extensionResourceEventsRead]\<rparr>,
     gr_BaselineDefaults = [], gr_Revision = 1, gr_State = ''active'', gr_SafetyActivation = False\<rparr>"

definition example_installation_row :: installation_row where
  "example_installation_row = \<lparr>in_installation_uuid = ''i1'', in_plugin_id = ''com.acme'', in_package_sha256 = ''p1'',
     in_target_package_sha256 = '''', in_state = ''active'', in_backend_url = '''', in_ui_origin = '''', in_service_user_id = '''',
     in_admission_checker_id = '''', in_organization_mode = ''selected'', in_default_timezone = ''UTC'',
     in_default_approval_policies = [], in_created_at = 0, in_created_by = ''alice'', in_updated_at = 0, in_updated_by = ''alice''\<rparr>"

definition example_enablement :: PluginEnablement where
  "example_enablement = \<lparr>pl_OrgID = ''acme'', pl_State = ''enabled'', pl_Timezone = ''UTC'', pl_ApprovalPolicies = [], pl_CreatedAt = 0,
     pl_CreatedBy = ''alice'', pl_UpdatedAt = 0, pl_UpdatedBy = ''alice'',
     pl_CapabilityRegistration = \<lparr>cs_State = ''pending'', cs_PackageSHA256 = '''', cs_ReconciledAt = None, cs_Detail = ''''\<rparr>\<rparr>"

definition example_installation :: PluginInstallation where
  "example_installation = \<lparr>pi_InstallationID = ''i1'', pi_PluginID = ''com.acme'', pi_PackageSHA256 = ''p1'', pi_TargetPackageSHA256 = '''',
     pi_State = ''active'', pi_BackendURL = '''', pi_UIOrigin = '''', pi_ServiceUserID = '''', pi_AdmissionCheckerID = '''',
     pi_OrganizationMode = ''selected'', pi_DefaultTimezone = ''UTC'', pi_DefaultApprovalPolicies = [],
     pi_Organizations = [example_enablement], pi_CreatedAt = 0, pi_CreatedBy = ''alice'', pi_UpdatedAt = 0, pi_UpdatedBy = ''alice'',
     pi_Observation = None\<rparr>"

definition example_journal_db :: db where
  "example_journal_db = empty_db\<lparr>orgs := [''acme''], grants := [example_events_grant]\<rparr>"

definition example_pin_message :: outbox_event where
  "example_pin_message = \<lparr>ob_Type = pin_lifecycle_changed, ob_Data = [(''org_id'', JStr ''acme''), (''environment_uuid'', JStr ''e1''),
     (''module_uuid'', JStr ''m1''), (''event_type'', JStr ''created''), (''to_status'', JStr ''active'')]\<rparr>"

lemma example_entries:
  "extensionJournalEntries Some (\<lambda>n. ''ev'') 5 0 [example_pin_message] =
     Inr [\<lparr>jn_orgID = ''acme'', jn_event = \<lparr>ev_EventID = ''ev'', ev_Type = pin_lifecycle_changed, ev_OccurredAt = 5,
       ev_EnvironmentUUID = Some ''e1'', ev_ProjectUUID = None, ev_ModuleUUID = Some ''m1'', ev_VersionUUID = None, ev_PinID = None,
       ev_ActivationEventID = None, ev_OperationID = None, ev_ActorID = None, ev_FromStatus = '''', ev_ToStatus = ''active'',
       ev_Transition = ''created'', ev_Reason = ''''\<rparr>\<rparr>]"
  by (simp add: projectExtensionResourceEvent_def example_pin_message_def text_field_def uuid_field_def Let_def
      environment_deleted_def catalogue_changed_def version_published_def version_lifecycle_changed_def pin_lifecycle_changed_def)

text \<open>An organisation whose plugin has just subscribed to its events, and one committed message.\<close>

definition example_journal_host :: host where
  "example_journal_host = (empty_host example_journal_db)\<lparr>plugin_installations := [example_installation_row],
     plugin_enablements := [plugin_enablement_row example_installation example_enablement ''alice'' 1],
     plugin_registrations := map (\<lambda>r. \<lparr>rr_installation_uuid = ''i1'', rr_package_sha256 = ''p1'', rr_registration = r\<rparr>)
       (registrations (example_manifest ''1.0.0'')),
     journal_states := [(''acme'', \<lparr>js_journaling = True, js_gap_cursor = 0\<rparr>)]\<rparr>"

lemma example_registrations:
  "registrations (example_manifest ''1.0.0'') = [\<lparr>rg_Kind = ''service_grant'', rg_Key = ''resource-events.read'',
     rg_Definition = RegisteredServiceGrant \<lparr>sg_RequiredFeature = '''', sg_Action = ''resource-events.read'',
       sg_Permission = ''plugin.com.acme.read'', sg_Scope = ''organization''\<rparr>\<rparr>]"
  by (simp add: registrations_def example_manifest_def)

lemma example_journal_run: "journal_run (empty_host example_journal_db, True) [] (example_journal_host, True)"
proof -
  define h1 where "h1 = (empty_host example_journal_db)\<lparr>plugin_installations := [example_installation_row]\<rparr>"
  define h2 where "h2 = h1\<lparr>plugin_enablements := [plugin_enablement_row example_installation example_enablement ''alice'' 1]\<rparr>"
  have "h1 = (empty_host example_journal_db)\<lparr>plugin_packages := [], plugin_installations := [example_installation_row],
      status_observations := [], capability_registrations := []\<rparr>"
    by (simp add: h1_def empty_host_def)
  then have 1: "journal_step (empty_host example_journal_db, True) [] (h1, True)" by (rule journal_step.manage)
  have "PutPluginEnablement example_installation example_enablement ''alice'' 1 h1 = Inr h2"
    by (simp add: PutPluginEnablement_def h1_def h2_def example_installation_def example_enablement_def Let_def empty_host_def
        example_journal_db_def empty_db_def example_installation_row_def enablement_at_def syncExtensionResourceJournal_def
        pauseExtensionResourceJournal_def resourceEventSubscribers_def subscription_def)
  then have 2: "journal_step (h1, True) [] (h2, True)" by (rule journal_step.put)
  define h3 where "h3 = h2\<lparr>plugin_registrations := map (\<lambda>r. \<lparr>rr_installation_uuid = ''i1'', rr_package_sha256 = ''p1'',
      rr_registration = r\<rparr>) (registrations (example_manifest ''1.0.0''))\<rparr>"
  have h2: "h2\<lparr>plugin_registrations := []\<rparr> = h2" "plugin_registrations h2 = []" by (simp_all add: h2_def h1_def empty_host_def)
  have "try_fold (insert_registration example_installation) (registrations (example_manifest ''1.0.0'')) h2 = Inr h3"
    by (simp add: example_registrations insert_registration_def insert_row.simps violates_def plugin_registrations_constraints_def
        h2(2) h3_def example_installation_def)
  then have "ReplacePluginRegistrations example_installation (registrations (example_manifest ''1.0.0'')) h2
      = Inr (syncExtensionResourceJournal ''acme'' h3)"
    by (simp add: ReplacePluginRegistrations_def h2 example_installation_def example_enablement_def)
  moreover have "subscription h3 ''acme'' (plugin_enablement_row example_installation example_enablement ''alice'' 1)"
    by (simp add: subscription_def h3_def example_registrations extensionResourceEventsRead_def plugin_enablement_row_def
        example_installation_def example_enablement_def)
  then have "syncExtensionResourceJournal ''acme'' h3 = example_journal_host"
    by (simp add: syncExtensionResourceJournal_def startExtensionResourceJournal_def resourceEventSubscribers_def
        h3_def h2_def h1_def empty_host_def example_journal_host_def)
  ultimately have "ReplacePluginRegistrations example_installation (registrations (example_manifest ''1.0.0'')) h2
      = Inr example_journal_host" by simp
  moreover have "organizations_read example_installation h2"
    by (simp add: organizations_read_def h2_def h1_def plugin_enablement_row_def example_installation_def example_enablement_def)
  ultimately have 3: "journal_step (h2, True) [] (example_journal_host, True)" by (rule journal_step.replace)
  show ?thesis using step [OF step [OF step [OF idle 1] 2] 3] by simp
qed
lemma two_reads:
  assumes ok: "journal_ok (h, True)"
    and first: "ReadExtensionResourceEvents g after limit h = (Inr (items, next), h1)"
    and run: "journal_run (h1, True) es (t, True)"
    and second: "ReadExtensionResourceEvents g (Some next) limit' t = (Inr (items', next'), t1)"
  defines "start \<equiv> (case after of None \<Rightarrow> journal_horizon (gr_OrgID g) h | Some a \<Rightarrow> a)"
  shows "items = take (nat limit) (pending g start h)"
    "items' = take (nat limit') (drop (length items) (pending g start h @ scoped g es))"
proof -
  let ?o = "gr_OrgID g"
  note same = read_same(1) [OF first] and same' = read_same(1) [OF second]
  have ok1: "journal_ok (h1, True)" using ok journal_same_lossless [OF same] by (simp add: journal_ok_def)
  have t: "journal_ok (t, True)" "lossless g es h1 t" using journal_run_ok [OF run ok1] by auto
  have inv1: "journal_inv h1" and inv2: "journal_inv t1" using ok1 t(1) journal_same_lossless(1) [OF same'] by (simp_all add: journal_ok_def)
  note p = read_page_Inr [OF Read_Inr [OF first] inv1, folded start_def, unfolded pending_same [OF same] horizon_same [OF same]]
  note q = read_page_Inr [OF Read_Inr [OF second] inv2, simplified, unfolded pending_same [OF same'] horizon_same [OF same']]
  show items: "items = take (nat limit) (pending g start h)" using p(1) by (simp add: start_def)
  have on: "journaling ?o k" if "journal_follows True k" "pluginSubscribesToResourceEvents ?o (gr_PluginID g) k" for k
  proof -
    have "gr_PluginID g \<in> set (resourceEventSubscribers ?o k)" using that(2) by (simp only: subscribes_iff)
    then have "resourceEventSubscribers ?o k \<noteq> []" by auto
    with that(1) show ?thesis unfolding journal_follows_def by blast
  qed
  have "journal_follows True h1" using ok1 by (simp add: journal_ok_def)
  then have "journaling ?o h1" by (rule on) (rule p(6))
  moreover have "journal_follows True t1" using t(1) journal_same_lossless(2) [OF same'] by (simp add: journal_ok_def)
  then have "journaling ?o t1" by (rule on) (rule q(6))
  ultimately have "journal_known ?o h1" "journaling ?o t" using journaling_known same' by (auto simp: journal_same_def journaling_def)
  then have "pending g next t = pending g next h1 @ scoped g es" using losslessD [OF t(2), of "next"] p(5) q(3) by auto
  then have "pending g next t = drop (length items) (pending g start h @ scoped g es)"
    using p(2) pending_same [OF same] items by (simp add: start_def)
  then show "items' = take (nat limit') (drop (length items) (pending g start h @ scoped g es))" using q(1) by simp
qed

text \<open>
  C23. Plugins lose no events silently. Take any history of the plugin host from the empty tables on: committed
  transactions, restarts with and without plugins, changes of subscriptions, reads and acknowledgements of any
  consumer, publications and retention. When a consumer reads a page, then any further history commits the entries
  \<open>es\<close>, and the consumer then reads on from the cursor of its page without an error, the two pages are adjacent
  pieces of one list: what was pending at the first read, followed by all committed entries in the consumer's
  scope, in order, each once.
\<close>

theorem consumers_lose_nothing:
  assumes "journal_run (empty_host s0, b0) es0 (h, True)"
    and "ReadExtensionResourceEvents g after limit h = (Inr (items, next), h1)"
    and "journal_run (h1, True) es (t, True)"
    and "ReadExtensionResourceEvents g (Some next) limit' t = (Inr (items', next'), t1)"
  shows "\<exists>start. (after = None \<or> after = Some start) \<and> items = take (nat limit) (pending g start h)
    \<and> items' = take (nat limit') (drop (length items) (pending g start h @ scoped g es))"
proof -
  have "journal_ok (h, True)" using journal_run_ok [OF assms(1) empty_host_ok] by simp
  from two_reads [OF this assms(2-4)] show ?thesis by (cases after) auto
qed

lemma example_first_read:
  "ReadExtensionResourceEvents example_events_grant None 10 example_journal_host = (Inr ([], 0), example_journal_host)"
  by (simp add: ReadExtensionResourceEvents_def read_page_def requireResourceEventSubscription_def pluginSubscribesToResourceEvents_def
      example_events_grant_def example_journal_host_def subscription_def example_registrations extensionResourceEventsRead_def
      plugin_enablement_row_def example_installation_def example_enablement_def extensionResourceStart_def journal_horizon_def
      journal_gap_def empty_host_def lookup_or_zero_def Let_def)

definition example_event :: ExtensionResourceEvent where
  "example_event = \<lparr>ev_EventID = ''ev'', ev_Type = pin_lifecycle_changed, ev_OccurredAt = 5,
     ev_EnvironmentUUID = Some ''e1'', ev_ProjectUUID = None, ev_ModuleUUID = Some ''m1'', ev_VersionUUID = None, ev_PinID = None,
     ev_ActivationEventID = None, ev_OperationID = None, ev_ActorID = None, ev_FromStatus = '''', ev_ToStatus = ''active'',
     ev_Transition = ''created'', ev_Reason = ''''\<rparr>"

definition example_written_host :: host where
  "example_written_host = example_journal_host\<lparr>core := example_journal_db\<lparr>outbox := [example_pin_message]\<rparr>,
     event_heads := [(''acme'', 1)], resource_events := [\<lparr>re_org_id = ''acme'', re_cursor = 1, re_event = example_event, re_recorded_at = 5\<rparr>]\<rparr>"

lemma example_commit:
  "journal_run (example_journal_host, True) [\<lparr>jn_orgID = ''acme'', jn_event = example_event\<rparr>] (example_written_host, True)"
proof -
  let ?s = "example_journal_db\<lparr>outbox := [example_pin_message]\<rparr>"
  have core: "core example_journal_host = example_journal_db" "outbox example_journal_db = []"
    by (simp_all add: example_journal_host_def empty_host_def example_journal_db_def empty_db_def)
  have es: "extensionJournalEntries Some (\<lambda>n. ''ev'') 5 0 (new_messages example_journal_db ?s)
      = Inr [\<lparr>jn_orgID = ''acme'', jn_event = example_event\<rparr>]"
    using example_entries by (simp add: new_messages_def core(2) example_event_def)
  have "flushExtensionJournal 5 [\<lparr>jn_orgID = ''acme'', jn_event = example_event\<rparr>] (example_journal_host\<lparr>core := ?s\<rparr>) = Inr example_written_host"
    by (simp add: flushExtensionJournal_def journalOrganizations_def journaling_def example_journal_host_def empty_host_def
        journalExtensionResourceEvent_def advance_head_def lookup_or_zero_def insert_row.simps violates_def
        resource_events_constraints_def example_written_host_def)
  then have "commit_transaction True Some (\<lambda>n. ''ev'') 5 ?s example_journal_host = Inr example_written_host"
    using es by (simp add: commit_transaction_def core(1))
  from journal_step.commit [OF this] show ?thesis
    using step [OF idle, of "(example_journal_host, True)"] es by (simp add: committed_entries_def core(1))
qed

lemma example_second_read:
  "\<exists>t. ReadExtensionResourceEvents example_events_grant (Some 0) 10 example_written_host = (Inr ([example_event], 1), t)"
  by (simp add: ReadExtensionResourceEvents_def acknowledgeExtensionResourceCursor_def read_page_def
      requireResourceEventSubscription_def pluginSubscribesToResourceEvents_def grant_at_def in_scope_def example_event_def
      example_events_grant_def example_journal_host_def subscription_def example_registrations extensionResourceEventsRead_def
      plugin_enablement_row_def example_installation_def example_enablement_def extensionResourceStart_def journal_horizon_def
      journal_gap_def empty_host_def lookup_or_zero_def Let_def example_written_host_def example_journal_db_def empty_db_def
      example_intent_def consumer_key_def)

theorem consumers_lose_nothing_witness:
  "\<exists>t start. ReadExtensionResourceEvents example_events_grant (Some 0) 10 example_written_host = (Inr ([example_event], 1), t)
    \<and> [example_event] = take 10 (pending example_events_grant start example_journal_host
         @ scoped example_events_grant [\<lparr>jn_orgID = ''acme'', jn_event = example_event\<rparr>])"
proof -
  obtain t where t: "ReadExtensionResourceEvents example_events_grant (Some 0) 10 example_written_host = (Inr ([example_event], 1), t)"
    using example_second_read by blast
  from consumers_lose_nothing [OF example_journal_run example_first_read example_commit t] t show ?thesis by auto
qed
abbreviation acknowledged :: "ExternalOperationGrant \<Rightarrow> host \<Rightarrow> int" where
  "acknowledged g h \<equiv> lookup_or_zero (event_consumers h) (consumer_key g)"

text \<open>The retention boundary of an organisation starts at 0 and only moves forward.\<close>

lemma states_only_retained: "states_only h h' \<Longrightarrow> event_retention h' = event_retention h"
  by (auto simp: states_only_def)

lemma fold_states_only: "(\<And>org h. states_only h (f org h)) \<Longrightarrow> states_only h (fold f os h)"
proof (induction os arbitrary: h)
  case (Cons org os)
  show ?case using states_only_trans [OF Cons.prems Cons.IH [OF Cons.prems]] by simp
qed simp

lemma switched_states_only: "switched org on h h' \<Longrightarrow> states_only h h'"
  by (simp add: switched_def)

lemma sync_retained [simp]:
  "event_retention (syncExtensionResourceJournal org h) = event_retention h"
  "event_retention (fold syncExtensionResourceJournal os h) = event_retention h"
  "event_retention (ReconcileExtensionResourceJournal b h) = event_retention h"
proof -
  note s = switched_states_only [OF sync_switched] and r = switched_states_only [OF reconcile_switched]
  show "event_retention (syncExtensionResourceJournal org h) = event_retention h" by (rule states_only_retained [OF s])
  show "event_retention (fold syncExtensionResourceJournal os h) = event_retention h"
    by (rule states_only_retained [OF fold_states_only [OF s]])
  show "event_retention (ReconcileExtensionResourceJournal b h) = event_retention h"
    unfolding ReconcileExtensionResourceJournal_def by (rule states_only_retained [OF fold_states_only [OF r]])
qed

lemma step_retained:
  assumes "journal_step s es t" "journal_ok s"
  shows "retained org (fst s) \<le> retained org (fst t)"
  using assms(1)
proof cases
  case (commit b parse_uuid ids now s' h h')
  have "event_retention h' = event_retention h" if "flushExtensionJournal now es (h\<lparr>core := s'\<rparr>) = Inr h'" for es
    using flush_Inr(1) [OF that] by (auto simp: journal_only_def)
  then show ?thesis using commit by (auto simp: commit_transaction_def split: if_splits)
next
  case (put i e actor now h h')
  then show ?thesis by (auto simp: PutPluginEnablement_def Let_def)
next
  case (delete h' plugin org h)
  then show ?thesis by (simp add: DeletePluginEnablement_def)
next
  case (replace i regs h h')
  then show ?thesis by (auto simp: ReplacePluginRegistrations_def Let_def dest!: insert_registrations_Inr)
next
  case (read g after limit h r h')
  then obtain cs where "h' = h\<lparr>event_consumers := cs\<rparr>" using read_consumers by blast
  then show ?thesis using read by simp
next
  case (publish json_size g event h h')
  then show ?thesis by (auto simp: PublishExtensionEvent_def split: option.splits)
next
  case (prune updated_at locked policy now h n h' b)
  then have "journal_inv h" using assms(2) by (simp add: journal_ok_def)
  from prune_Inr [OF prune(4) this] show ?thesis using prune by (simp add: prunes_def)
qed auto

lemma run_retained:
  "journal_run s es t \<Longrightarrow> journal_ok s \<Longrightarrow> retained org (fst s) \<le> retained org (fst t)"
proof (induction rule: journal_run.induct)
  case (step s es t es' u)
  then show ?case using step_retained [OF step.hyps(2)] journal_run_ok [OF step.hyps(1)] by (meson order_trans)
qed simp

lemma retention_safe:
  assumes inv: "journal_inv h" and prune: "prunes updated_at policy now h n h'"
  shows "r \<in> set (resource_events h) - set (resource_events h') \<Longrightarrow> re_recorded_at r < now - rt_Window policy"
    "r \<in> set (resource_events h) - set (resource_events h') \<Longrightarrow> retained (re_org_id r) h < re_cursor r"
    "g \<in> set (grants (core h)) \<Longrightarrow> active_consumer updated_at (gr_OrgID g) policy now h g \<Longrightarrow>
       r \<in> set (resource_events h) - set (resource_events h') \<Longrightarrow> re_org_id r = gr_OrgID g \<Longrightarrow> re_cursor r < acknowledged g h"
    "g \<in> set (grants (core h)) \<Longrightarrow> active_consumer updated_at (gr_OrgID g) policy now h g \<Longrightarrow>
       retained (gr_OrgID g) h' = retained (gr_OrgID g) h \<or> retained (gr_OrgID g) h' < acknowledged g h"
    "g \<in> set (grants (core h)) \<Longrightarrow> active_consumer updated_at (gr_OrgID g) policy now h g \<Longrightarrow>
       acknowledged g h \<le> c \<Longrightarrow> pending g c h' = pending g c h"
    "int (length (resource_events h)) = int (length (resource_events h')) + n"
proof -
  obtain P ret where P: "h' = h\<lparr>resource_events := filter P (resource_events h), event_retention := ret\<rparr>"
    "n = int (length (filter (\<lambda>r. \<not> P r) (resource_events h)))"
    "\<And>r. r \<in> set (resource_events h) \<Longrightarrow> \<not> P r \<Longrightarrow> re_recorded_at r < now - rt_Window policy
       \<and> re_cursor r < lowest_acknowledged updated_at (re_org_id r) policy now h \<and> retained (re_org_id r) h < re_cursor r"
    using prune by (auto simp: prunes_def)
  have gone: "r \<in> set (resource_events h) \<and> \<not> P r" if "r \<in> set (resource_events h) - set (resource_events h')"
    using that by (auto simp: P(1))
  show "r \<in> set (resource_events h) - set (resource_events h') \<Longrightarrow> re_recorded_at r < now - rt_Window policy"
    "r \<in> set (resource_events h) - set (resource_events h') \<Longrightarrow> retained (re_org_id r) h < re_cursor r"
    using P(3) gone by blast+
  show "int (length (resource_events h)) = int (length (resource_events h')) + n"
    using sum_length_filter_compl [of P "resource_events h"] by (simp add: P(1,2))
  assume g: "g \<in> set (grants (core h))" "active_consumer updated_at (gr_OrgID g) policy now h g"
  note low = lowest_acknowledged_le [OF g]
  have kept: "re_cursor r < acknowledged g h" if "r \<in> set (resource_events h)" "\<not> P r" "re_org_id r = gr_OrgID g" for r
    using P(3) [OF that(1,2)] that(3) low by auto
  show "re_cursor r < acknowledged g h" if "r \<in> set (resource_events h) - set (resource_events h')" "re_org_id r = gr_OrgID g"
    using kept gone [OF that(1)] that(2) by blast
  have "retained (gr_OrgID g) h \<le> retained (gr_OrgID g) h'"
    "retained (gr_OrgID g) h < retained (gr_OrgID g) h' \<longrightarrow> retained (gr_OrgID g) h' < lowest_acknowledged updated_at (gr_OrgID g) policy now h"
    using prune unfolding prunes_def by blast+
  then show "retained (gr_OrgID g) h' = retained (gr_OrgID g) h \<or> retained (gr_OrgID g) h' < acknowledged g h" using low by linarith
  assume c: "acknowledged g h \<le> c"
  have keep: "P r" if "r \<in> set (resource_events h)" "re_org_id r = gr_OrgID g" "c < re_cursor r" for r
    using kept [OF that(1) _ that(2)] that(3) c by (cases "P r") simp_all
  have "filter (\<lambda>r. re_cursor r > c \<and> in_scope g (re_event r)) (org_rows (gr_OrgID g) h')
    = filter (\<lambda>r. re_cursor r > c \<and> in_scope g (re_event r)) (org_rows (gr_OrgID g) h)"
    unfolding P(1) org_rows_def by (auto simp: filter_filter keep intro!: filter_cong)
  then show "pending g c h' = pending g c h" by (simp add: pending_def)
qed

text \<open>
  C27. Retention never overtakes a reader. In every history of the plugin host, a run of retention deletes only
  entries that are older than the window, and reports how many. It takes nothing from a consumer that still takes part
  (its operation has the read action and has not been released longer than the window ago, and its plugin subscribes),
  whatever its scope and whether or not its cursor has expired in a gap of the journal. Every deleted entry of its
  organization lies before the cursor that it has acknowledged, which is 0 until it presents one: a consumer that has
  never acknowledged holds the entire history of its organization, and the cursor where its history begins. Its cursor does
  not expire unless it already had, and from there on, as from every later cursor, it finds the same entries as before.
\<close>

theorem retention_keeps_acknowledged:
  assumes "journal_run (empty_host s0, b0) es (h, b)"
    and "PruneExtensionResourceJournal updated_at locked policy now h = Inr (n, h')"
  shows "(\<forall>r \<in> set (resource_events h) - set (resource_events h'). re_recorded_at r < now - rt_Window policy)
    \<and> (\<forall>g \<in> set (grants (core h)). active_consumer updated_at (gr_OrgID g) policy now h g \<longrightarrow>
        (\<forall>r \<in> set (resource_events h) - set (resource_events h'). re_org_id r = gr_OrgID g \<longrightarrow> re_cursor r < acknowledged g h)
        \<and> (map_of (event_consumers h) (consumer_key g) = None \<longrightarrow>
             {r \<in> set (resource_events h'). re_org_id r = gr_OrgID g} = {r \<in> set (resource_events h). re_org_id r = gr_OrgID g}
             \<and> journal_horizon (gr_OrgID g) h' = journal_horizon (gr_OrgID g) h)
        \<and> (journal_horizon (gr_OrgID g) h \<le> acknowledged g h \<longrightarrow> journal_horizon (gr_OrgID g) h' \<le> acknowledged g h)
        \<and> (\<forall>c \<ge> acknowledged g h. pending g c h' = pending g c h))
    \<and> int (length (resource_events h)) = int (length (resource_events h')) + n"
proof -
  have inv: "journal_inv h" using journal_run_ok [OF assms(1) empty_host_ok] by (simp add: journal_ok_def)
  have zero: "0 \<le> retained org h" for org
    using run_retained [OF assms(1) empty_host_ok, of org] by (simp add: empty_host_def lookup_or_zero_def)
  note prune = prune_Inr [OF assms(2) inv]
  note r = retention_safe [OF inv prune]
  have gap: "journal_gap org h' = journal_gap org h" and sub: "set (resource_events h') \<subseteq> set (resource_events h)" for org
    using prune by (auto simp: prunes_def journal_gap_def)
  have first: "{r \<in> set (resource_events h'). re_org_id r = gr_OrgID g} = {r \<in> set (resource_events h). re_org_id r = gr_OrgID g}
      \<and> journal_horizon (gr_OrgID g) h' = journal_horizon (gr_OrgID g) h"
    if g: "g \<in> set (grants (core h))" "active_consumer updated_at (gr_OrgID g) policy now h g"
      and none: "map_of (event_consumers h) (consumer_key g) = None" for g
  proof -
    have a: "acknowledged g h = 0" using none by (simp add: lookup_or_zero_def)
    have "x \<in> set (resource_events h')" if "x \<in> set (resource_events h)" "re_org_id x = gr_OrgID g" for x
      using r(2) [of x] r(3) [OF g, of x] zero [of "gr_OrgID g"] a that by fastforce
    moreover have "retained (gr_OrgID g) h' = retained (gr_OrgID g) h"
    proof -
      have "retained (gr_OrgID g) h \<le> retained (gr_OrgID g) h'" using prune by (simp add: prunes_def)
      then show ?thesis using r(4) [OF g] zero [of "gr_OrgID g"] a by linarith
    qed
    ultimately show ?thesis using sub by (auto simp: journal_horizon_def gap)
  qed
  have expiry: "journal_horizon (gr_OrgID g) h' \<le> acknowledged g h"
    if g: "g \<in> set (grants (core h))" "active_consumer updated_at (gr_OrgID g) policy now h g"
      and "journal_horizon (gr_OrgID g) h \<le> acknowledged g h" for g
    using r(4) [OF g] that(3) by (auto simp: journal_horizon_def gap)
  show ?thesis using r(1) r(3) first expiry r(5) r(6) by blast
qed

lemma journal_run_append: "journal_run s es t \<Longrightarrow> journal_run r es0 s \<Longrightarrow> journal_run r (es0 @ es) t"
proof (induction rule: journal_run.induct)
  case (step s es t es' u)
  then show ?case using journal_run.step by fastforce
qed simp

definition example_retention :: ExtensionResourceRetention where
  "example_retention = \<lparr>rt_Window = Hour, rt_Batch = 100\<rparr>"

lemma example_prune:
  "PruneExtensionResourceJournal (\<lambda>g. 0) (\<lambda>org. True) example_retention (2 * Hour) example_written_host = Inr (0, example_written_host)"
  "active_consumer (\<lambda>g. 0) ''acme'' example_retention (2 * Hour) example_written_host example_events_grant"
proof -
  show a: "active_consumer (\<lambda>g. 0) ''acme'' example_retention (2 * Hour) example_written_host example_events_grant"
    by (simp add: active_consumer_def example_events_grant_def example_written_host_def example_journal_host_def
        resourceEventSubscribers_def subscription_def example_registrations extensionResourceEventsRead_def plugin_enablement_row_def
        example_installation_def example_enablement_def empty_host_def)
  have "grants (core example_written_host) = [example_events_grant]" "lookup_or_zero (event_consumers example_written_host) k = 0" for k
    by (simp_all add: example_written_host_def example_journal_db_def example_journal_host_def empty_host_def lookup_or_zero_def)
  then have "lowest_acknowledged (\<lambda>g. 0) ''acme'' example_retention (2 * Hour) example_written_host = 0"
    using a by (simp add: lowest_acknowledged_def)
  moreover have t: "event_heads example_written_host = [(''acme'', 1)]" "event_retention example_written_host = []"
    "resource_events example_written_host = [\<lparr>re_org_id = ''acme'', re_cursor = 1, re_event = example_event, re_recorded_at = 5\<rparr>]"
    by (simp_all add: example_written_host_def example_journal_host_def empty_host_def)
  ultimately have "prune_bound ''acme'' example_retention (2 * Hour)
      (lowest_acknowledged (\<lambda>g. 0) ''acme'' example_retention (2 * Hour) example_written_host) example_written_host = 0"
    by (simp add: prune_bound_def t lookup_or_zero_def example_retention_def)
  then show "PruneExtensionResourceJournal (\<lambda>g. 0) (\<lambda>org. True) example_retention (2 * Hour) example_written_host = Inr (0, example_written_host)"
    by (simp add: PruneExtensionResourceJournal_def Validate_retention_def example_retention_def [THEN arg_cong, of rt_Window, simplified]
        example_retention_def [THEN arg_cong, of rt_Batch, simplified] Hour_def
        pruneExtensionResourceOrganization_def t lookup_or_zero_def)
qed

theorem retention_keeps_acknowledged_witness:
  "pending example_events_grant 0 example_written_host = [example_event]
   \<and> (\<exists>h'. PruneExtensionResourceJournal (\<lambda>g. 0) (\<lambda>org. True) example_retention (2 * Hour) example_written_host = Inr (0, h')
        \<and> journal_horizon ''acme'' h' \<le> 0 \<and> pending example_events_grant 0 h' = [example_event])"
proof -
  have run: "journal_run (empty_host example_journal_db, True) [\<lparr>jn_orgID = ''acme'', jn_event = example_event\<rparr>] (example_written_host, True)"
    using journal_run_append [OF example_commit example_journal_run] by simp
  have p: "pending example_events_grant 0 example_written_host = [example_event]"
    by (simp add: pending_def org_rows_def example_written_host_def in_scope_def example_event_def example_events_grant_def example_intent_def)
  have g: "gr_OrgID example_events_grant = ''acme''" "example_events_grant \<in> set (grants (core example_written_host))"
    "acknowledged example_events_grant example_written_host = 0" "journal_horizon ''acme'' example_written_host = 0"
    by (simp_all add: example_events_grant_def example_written_host_def example_journal_db_def example_journal_host_def empty_host_def
        lookup_or_zero_def journal_horizon_def journal_gap_def)
  have "journal_horizon ''acme'' example_written_host \<le> 0 \<and> pending example_events_grant 0 example_written_host
      = pending example_events_grant 0 example_written_host"
    using retention_keeps_acknowledged [OF run example_prune(1)] example_prune(2) g by auto
  then show ?thesis using p example_prune(1) by blast
qed

section \<open>Publications\<close>

definition publication_run ::
  "(ExtensionPublishedEvent \<Rightarrow> int) \<Rightarrow> ExternalOperationGrant \<times> ExtensionPublishedEvent \<Rightarrow> host \<times> bool \<Rightarrow> (unit \<times> (host \<times> bool)) option" where
  "publication_run json_size c s =
     (case PublishExtensionEvent json_size (fst c) (snd c) (fst s) of Inl e \<Rightarrow> None | Inr h \<Rightarrow> Some ((), (h, snd s)))"

definition publication_recorded :: "ExternalOperationGrant \<times> ExtensionPublishedEvent \<Rightarrow> unit \<Rightarrow> host \<times> bool \<Rightarrow> bool" where
  "publication_recorded c r s \<longleftrightarrow>
     find (\<lambda>p. pb_org_id p = gr_OrgID (fst c) \<and> pb_plugin_id p = gr_PluginID (fst c)
       \<and> xv_EventID (pb_request p) = xv_EventID (snd c)) (published_events (fst s)) \<noteq> None"

definition host_step :: "host \<times> bool \<Rightarrow> host \<times> bool \<Rightarrow> bool" where
  "host_step s t \<longleftrightarrow> (\<exists>es. journal_step s es t)"

text \<open>Every step leaves the publications alone or adds one.\<close>

lemma states_only_published: "states_only h h' \<Longrightarrow> published_events h' = published_events h"
  by (auto simp: states_only_def)

lemma sync_published [simp]:
  "published_events (syncExtensionResourceJournal org h) = published_events h"
  "published_events (fold syncExtensionResourceJournal os h) = published_events h"
  "published_events (ReconcileExtensionResourceJournal b h) = published_events h"
proof -
  note s = switched_states_only [OF sync_switched] and r = switched_states_only [OF reconcile_switched]
  show "published_events (syncExtensionResourceJournal org h) = published_events h" by (rule states_only_published [OF s])
  show "published_events (fold syncExtensionResourceJournal os h) = published_events h"
    by (rule states_only_published [OF fold_states_only [OF s]])
  show "published_events (ReconcileExtensionResourceJournal b h) = published_events h"
    unfolding ReconcileExtensionResourceJournal_def by (rule states_only_published [OF fold_states_only [OF r]])
qed

lemma step_published:
  assumes "journal_step s es t"
  shows "\<exists>new. published_events (fst t) = published_events (fst s) @ new"
proof -
  have "published_events (fst t) = published_events (fst s) \<or> (\<exists>new. published_events (fst t) = published_events (fst s) @ new)"
    using assms
  proof cases
    case (commit b parse_uuid ids now s' h h')
    have "published_events h' = published_events h" if "flushExtensionJournal now es (h\<lparr>core := s'\<rparr>) = Inr h'" for es
      using flush_Inr(1) [OF that] by (auto simp: journal_only_def)
    then show ?thesis using commit by (auto simp: commit_transaction_def split: if_splits)
  next
    case (restart h b b')
    then show ?thesis by simp
  next
    case (put i e actor now h h')
    then show ?thesis by (auto simp: PutPluginEnablement_def Let_def)
  next
    case (delete h' plugin org h)
    then show ?thesis by (simp add: DeletePluginEnablement_def)
  next
    case (replace i regs h h')
    then show ?thesis by (auto simp: ReplacePluginRegistrations_def Let_def dest!: insert_registrations_Inr)
  next
    case (read g after limit h r h')
    then obtain cs where "h' = h\<lparr>event_consumers := cs\<rparr>" using read_consumers by blast
    then show ?thesis using read by simp
  next
    case (publish json_size g event h h')
    then show ?thesis by (auto simp: PublishExtensionEvent_def split: option.splits)
  next
    case (prune updated_at locked policy now h n h' b)
    have "\<forall>n h. published_events (snd (fold (pruneExtensionResourceOrganization updated_at locked policy now) os (n, h))) = published_events h" for os
      by (induction os) (auto simp: pruneExtensionResourceOrganization_def Let_def)
    moreover have "fold (pruneExtensionResourceOrganization updated_at locked policy now) (sort (map fst (event_heads h))) (0, h) = (n, h')"
      using prune by (simp add: PruneExtensionResourceJournal_def)
    ultimately have "published_events h' = published_events h" by (metis snd_conv)
    then show ?thesis using prune by simp
  qed auto
  then show ?thesis by auto
qed

interpretation publication: at_most_once "publication_run json_size" publication_recorded host_step for json_size
proof
  show "publication_recorded c r s'" if "publication_run json_size c s = Some (r, s')" for c s r s'
  proof (cases "publication_recorded c r s")
    case True
    then show ?thesis using that
      by (auto simp: publication_run_def publication_recorded_def PublishExtensionEvent_def split: sum.splits option.splits)
  next
    case False
    then show ?thesis using that
      by (auto simp: publication_run_def publication_recorded_def PublishExtensionEvent_def find_append_None split: sum.splits)
  qed
  show "r' = r \<and> s' = s" if "publication_recorded c r s" "publication_run json_size c s = Some (r', s')" for c r s r' s'
    using that by (auto simp: publication_run_def publication_recorded_def PublishExtensionEvent_def split: sum.splits option.splits)
  show "publication_recorded c r s'" if "host_step s s'" "publication_recorded c r s" for c r s s'
  proof -
    have "\<exists>es. journal_step s es s'" using that(1) by (simp add: host_step_def)
    then obtain new where "published_events (fst s') = published_events (fst s) @ new" using step_published by blast
    then show ?thesis using that(2) by (auto simp: publication_recorded_def intro: find_append_Some)
  qed
qed

text \<open>
  An event is published at most once. Once a plugin has published an event, a later publication for the
  same plugin and organisation under the same event identifier changes nothing, whatever has happened on the host
  in between: it succeeds without effect or is refused.
\<close>

theorem published_once:
  assumes "PublishExtensionEvent json_size g event h = Inr h1"
    and "host_step\<^sup>*\<^sup>* (h1, b) (t, b')"
    and "gr_OrgID g' = gr_OrgID g" "gr_PluginID g' = gr_PluginID g" "xv_EventID event' = xv_EventID event"
    and "PublishExtensionEvent json_size g' event' t = Inr t1"
  shows "t1 = t"
proof -
  have "publication_recorded (g', event') = publication_recorded (g, event)" using assms(3-5) by (simp add: publication_recorded_def fun_eq_iff)
  moreover have "publication_run json_size (g, event) (h, b) = Some ((), (h1, b))"
    "publication_run json_size (g', event') (t, b') = Some ((), (t1, b'))"
    using assms(1,6) by (simp_all add: publication_run_def)
  ultimately show ?thesis using publication.once [OF _ assms(2)] by blast
qed

definition example_publication :: ExtensionPublishedEvent where
  "example_publication = \<lparr>xv_EventID = ''x1'', xv_GrantFence = 1, xv_Type = ''plugin.com.acme.shipped'', xv_OccurredAt = Some 7, xv_Data = []\<rparr>"

theorem published_once_witness:
  "\<exists>h1. PublishExtensionEvent (\<lambda>e. 10) example_events_grant example_publication example_journal_host = Inr h1
     \<and> length (published_events h1) = 1
     \<and> PublishExtensionEvent (\<lambda>e. 10) example_events_grant example_publication h1 = Inr h1"
proof -
  have type: "validExtensionEventType ''com.acme'' ''plugin.com.acme.shipped''" by code_simp
  have g: "gr_PluginID example_events_grant = ''com.acme''" "gr_OrgID example_events_grant = ''acme''"
    "gr_OperationID example_events_grant = ''op1''" "gr_Revision example_events_grant = 1" by (simp_all add: example_events_grant_def)
  have h: "grants (core example_journal_host) = [example_events_grant]" "published_events example_journal_host = []"
    by (simp_all add: example_journal_host_def example_journal_db_def empty_host_def)
  obtain h1 where p: "PublishExtensionEvent (\<lambda>e. 10) example_events_grant example_publication example_journal_host = Inr h1"
    "length (published_events h1) = 1"
    "\<exists>t1. PublishExtensionEvent (\<lambda>e. 10) example_events_grant example_publication h1 = Inr t1"
    using type by (simp add: PublishExtensionEvent_def example_publication_def g h grant_at_def Nil_uuid_def same_publication_def)
  then obtain t1 where t1: "PublishExtensionEvent (\<lambda>e. 10) example_events_grant example_publication h1 = Inr t1" by blast
  have "t1 = h1" by (rule published_once [OF p(1) _ refl refl refl t1]) (rule rtranclp.rtrancl_refl)
  with p(1,2) t1 show ?thesis by blast
qed

end
