(* ===== verification/PluginRegistry.thy ===== *)
theory PluginRegistry
  imports HostTables
begin

text \<open>
  What a replica of Core serves of the installed plugins (\<^verbatim>\<open>internal/plugins/installations.go\<close>, \<^verbatim>\<open>entitlement.go\<close>,
  \<^verbatim>\<open>registry.go\<close> and \<^verbatim>\<open>internal/pluginmanager/registrations.go\<close>): the complete view of an installation and its
  validation, the snapshot that discovery reads, what a descriptor allows, and the request path of a plugin operation.

  A Go map is an association list with distinct keys. The loops over maps in \<open>ValidateInstallation\<close> can fail with
  different messages, depending on the order of the iteration; the model takes the order of the list, and its callers
  only ask whether there is a failure. \<open>platform\<close> holds what the environment of Core decides: \<^verbatim>\<open>url.Parse\<close> and
  \<^verbatim>\<open>uuid.Parse\<close>, the time zone database behind \<^verbatim>\<open>time.LoadLocation\<close>, \<^verbatim>\<open>userid.IsServiceUser\<close> of IAM's library
  and the option that allows HTTP origins in development. \<^verbatim>\<open>detached\<close> copies a value, so it is the identity.
\<close>

section \<open>Installations\<close>

datatype AvailabilityState =
  StateAvailable | StateNotInstalled | StateNotEnabled | StateNotEntitled | StateIncompatible | StateUnavailable

datatype AccessMode = ModeFull | ModeReadOnly | ModeSafetyOnly | ModeHidden

record Installation =
  iv_RequiredProtocols :: "string list"
  iv_InstallationID :: string
  iv_ManifestSHA256 :: string
  iv_Entitlement :: "EntitlementDeclaration option"
  iv_OrganizationTimezones :: "(string \<times> string) list"
  iv_ID :: string
  iv_DisplayName :: string
  iv_Version :: string
  iv_Backend :: string
  iv_Organizations :: "(string \<times> AvailabilityState) list"
  iv_Capabilities :: "Capability list"
  iv_UI :: "UIContribution option"
  iv_Operations :: "Operation list"
  iv_ServiceUserID :: string
  iv_AdmissionCheckerID :: string
  iv_ServiceGrants :: "ServiceGrant list"
  iv_AuthorizationPolicies :: "AuthorizationPolicy list"
  iv_OrganizationApprovalPolicies :: "(string \<times> (string \<times> string) list) list"

record URL =
  ur_Scheme :: string
  ur_User :: bool
  ur_Hostname :: string
  ur_Path :: string
  ur_RawQuery :: string
  ur_Fragment :: string

record platform =
  pf_url :: "string \<Rightarrow> URL option"
  pf_uuid :: "string \<Rightarrow> uuid option"
  pf_location :: "string \<Rightarrow> bool"
  pf_service_user :: "uuid \<Rightarrow> bool"
  pf_development :: bool

text \<open>\<open>Manifest()\<close>: the declarations of the package. The migration generation is no part of the view.\<close>

definition installation_manifest :: "Installation \<Rightarrow> Manifest" where
  "installation_manifest item =
     \<lparr>mf_RequiredProtocols = iv_RequiredProtocols item, mf_ID = iv_ID item, mf_DisplayName = iv_DisplayName item,
      mf_Version = iv_Version item, mf_MigrationGeneration = 0, mf_Capabilities = iv_Capabilities item,
      mf_UI = map_option (\<lambda>ui. ui\<lparr>ui_Origin := ''''\<rparr>) (iv_UI item), mf_Operations = iv_Operations item,
      mf_ServiceGrants = iv_ServiceGrants item, mf_AuthorizationPolicies = iv_AuthorizationPolicies item,
      mf_Entitlement = iv_Entitlement item\<rparr>"

definition Licensed :: "Installation \<Rightarrow> bool" where
  "Licensed item \<longleftrightarrow> (case iv_Entitlement item of None \<Rightarrow> False | Some d \<Rightarrow> el_Mode d = EntitlementRequired)"

definition lower_hex_char :: "char \<Rightarrow> bool" where
  "lower_hex_char c \<longleftrightarrow> is_digit c \<or> CHR ''a'' \<le> c \<and> c \<le> CHR ''f''"

text \<open>The regular expression \<^verbatim>\<open>^[0-9a-f]{64}$\<close>, which is also what the decoded digest comes down to.\<close>

definition manifestDigest :: "string \<Rightarrow> bool" where
  "manifestDigest t \<longleftrightarrow> length t = 64 \<and> list_all lower_hex_char t"

definition validateEntitlementBinding :: "platform \<Rightarrow> Installation \<Rightarrow> string option" where
  "validateEntitlementBinding pf item =
     (if \<not> Licensed item then None
      else and_then (refuse_if (case pf_uuid pf (iv_InstallationID item) of None \<Rightarrow> True
               | Some u \<Rightarrow> u = Nil_uuid \<or> u \<noteq> iv_InstallationID item) ''entitlement requires an immutable installation UUID'')
          (refuse_if (\<not> manifestDigest (iv_ManifestSHA256 item)) ''entitlement requires the verified package manifest SHA-256''))"

definition validateOrigin :: "platform \<Rightarrow> string \<Rightarrow> string option" where
  "validateOrigin pf raw_origin =
     (case pf_url pf raw_origin of
        None \<Rightarrow> Some ''expected an origin without credentials, path or query''
      | Some u \<Rightarrow>
          and_then (refuse_if (ur_Hostname u = '''' \<or> ur_User u \<or> ur_RawQuery u \<noteq> '''' \<or> ur_Fragment u \<noteq> ''''
                \<or> ur_Path u \<noteq> '''' \<and> ur_Path u \<noteq> ''/'') ''expected an origin without credentials, path or query'')
            (refuse_if (ur_Scheme u \<noteq> ''https'' \<and> (\<not> pf_development pf \<or> ur_Scheme u \<noteq> ''http''))
              ''HTTPS required outside explicit development mode''))"

definition ValidateEndpoints :: "platform \<Rightarrow> Manifest \<Rightarrow> string \<Rightarrow> string \<Rightarrow> string option" where
  "ValidateEndpoints pf m backend uiOrigin =
     and_then (validateOrigin pf backend)
       (case mf_UI m of
          None \<Rightarrow> refuse_if (uiOrigin \<noteq> '''') ''a UI origin requires a package UI contribution''
        | Some ui \<Rightarrow> validateOrigin pf uiOrigin)"

definition ValidateServiceIdentities :: "platform \<Rightarrow> Manifest \<Rightarrow> string \<Rightarrow> string \<Rightarrow> string option" where
  "ValidateServiceIdentities pf m serviceUser admissionChecker =
     (if mf_ServiceGrants m = []
      then refuse_if (serviceUser \<noteq> '''' \<or> admissionChecker \<noteq> '''') ''service identities require explicit service grants''
      else and_then (first_failure (\<lambda>identity. refuse_if (case pf_uuid pf identity of None \<Rightarrow> True
               | Some u \<Rightarrow> identity \<noteq> u \<or> \<not> pf_service_user pf u)
             ''plugin service identities must be canonical IAM service-user UUIDs'') [serviceUser, admissionChecker])
           (refuse_if (serviceUser = admissionChecker) ''plugin and admission checker must have distinct identities''))"

definition NormalizeTimezone :: "platform \<Rightarrow> string \<Rightarrow> string + string" where
  "NormalizeTimezone pf zone =
     (let explicit = if zone = '''' then ''UTC'' else zone in
      if explicit = ''Local'' then Inl ''organization timezone must be an explicit IANA name''
      else if \<not> pf_location pf explicit then Inl ''invalid organization timezone'' else Inr explicit)"

definition check_organization :: "string \<times> AvailabilityState \<Rightarrow> string option" where
  "check_organization = (\<lambda>(org, state).
     and_then (refuse_if (org = '''' \<or> list_ex (\<lambda>c. c = CHR ''/'' \<or> c = CHR 0x5C) org) ''invalid plugin organization'')
       (refuse_if (state = StateNotInstalled) ''invalid plugin availability''))"

definition ValidateInstallation :: "platform \<Rightarrow> Installation \<Rightarrow> string option" where
  "ValidateInstallation pf item =
     (let m = installation_manifest item in
      and_then (Validate m)
     (and_then (validateEntitlementBinding pf item)
     (and_then (ValidateEndpoints pf m (iv_Backend item) (case iv_UI item of None \<Rightarrow> '''' | Some ui \<Rightarrow> ui_Origin ui))
     (and_then (ValidateServiceIdentities pf m (iv_ServiceUserID item) (iv_AdmissionCheckerID item))
     (and_then (first_failure (\<lambda>(org, policies).
          and_then (refuse_if (map_of (iv_Organizations item) org = None) ''approval policies must name an installed organization'')
            (ValidateApprovalPolicies m policies)) (iv_OrganizationApprovalPolicies item))
     (and_then (first_failure check_organization (iv_Organizations item))
     (first_failure (\<lambda>(org, zone).
          and_then (refuse_if (map_of (iv_Organizations item) org = None) ''timezone must name an installed organization'')
            (case NormalizeTimezone pf zone of Inl e \<Rightarrow> Some e | Inr z \<Rightarrow> None)) (iv_OrganizationTimezones item))))))))"

section \<open>The view of an installation\<close>

text \<open>
  \<^verbatim>\<open>registrations.go\<close>: the registry's view is put together from the installation, its enablements and its registered
  contributions. Availability is derived, never stored.
\<close>

definition enablement_availability :: "PluginInstallation \<Rightarrow> PluginEnablement \<Rightarrow> AvailabilityState" where
  "enablement_availability installation e =
     (if pi_State installation = ''active'' \<and> pl_State e = ''enabled'' then StateAvailable else StateNotEnabled)"

definition view :: "PluginInstallation \<Rightarrow> Manifest \<Rightarrow> Installation" where
  "view installation m =
     \<lparr>iv_RequiredProtocols = mf_RequiredProtocols m, iv_InstallationID = pi_InstallationID installation,
      iv_ManifestSHA256 = pi_PackageSHA256 installation, iv_Entitlement = mf_Entitlement m,
      iv_OrganizationTimezones = map (\<lambda>e. (pl_OrgID e, pl_Timezone e)) (pi_Organizations installation),
      iv_ID = pi_PluginID installation, iv_DisplayName = mf_DisplayName m, iv_Version = mf_Version m,
      iv_Backend = pi_BackendURL installation,
      iv_Organizations = map (\<lambda>e. (pl_OrgID e, enablement_availability installation e)) (pi_Organizations installation),
      iv_Capabilities = [], iv_UI = None, iv_Operations = [], iv_ServiceUserID = pi_ServiceUserID installation,
      iv_AdmissionCheckerID = pi_AdmissionCheckerID installation, iv_ServiceGrants = [], iv_AuthorizationPolicies = [],
      iv_OrganizationApprovalPolicies = map (\<lambda>e. (pl_OrgID e, pl_ApprovalPolicies e))
        (filter (\<lambda>e. pl_ApprovalPolicies e \<noteq> []) (pi_Organizations installation))\<rparr>"

text \<open>A definition carries its kind, so the row is read back by its constructor.\<close>

definition applyRegistration :: "PluginRegistration \<Rightarrow> Installation \<Rightarrow> Installation" where
  "applyRegistration r item =
     (case rg_Definition r of
        RegisteredCapability c \<Rightarrow> item\<lparr>iv_Capabilities := iv_Capabilities item @ [c]\<rparr>
      | RegisteredOperation o1 \<Rightarrow> item\<lparr>iv_Operations := iv_Operations item @ [o1]\<rparr>
      | RegisteredServiceGrant g \<Rightarrow> item\<lparr>iv_ServiceGrants := iv_ServiceGrants item @ [g]\<rparr>
      | RegisteredPolicy p \<Rightarrow> item\<lparr>iv_AuthorizationPolicies := iv_AuthorizationPolicies item @ [p]\<rparr>
      | RegisteredUI ui \<Rightarrow> item\<lparr>iv_UI := Some ui\<rparr>)"

record PluginSnapshotInstallation =
  ps_Installation :: PluginInstallation
  ps_Package :: PluginPackage
  ps_Registrations :: "PluginRegistration list"

record PluginManagerSnapshot =
  sn_Revision :: int
  sn_Installations :: "PluginSnapshotInstallation list"

definition servedInstallation :: "PluginSnapshotInstallation \<Rightarrow> Installation" where
  "servedInstallation served =
     (let item = fold applyRegistration (ps_Registrations served) (view (ps_Installation served) (pp_Manifest (ps_Package served)))
      in item\<lparr>iv_UI := map_option (\<lambda>ui. ui\<lparr>ui_Origin := pi_UIOrigin (ps_Installation served)\<rparr>) (iv_UI item)\<rparr>)"

definition servedInstallations :: "PluginManagerSnapshot \<Rightarrow> Installation list" where
  "servedInstallations snapshot = map servedInstallation (sn_Installations snapshot)"
section \<open>The snapshot\<close>

record installationSnapshot =
  is_revision :: int
  is_installations :: "(string \<times> Installation) list"

definition emptySnapshot :: installationSnapshot where
  "emptySnapshot = \<lparr>is_revision = 0, is_installations = []\<rparr>"

definition normalized_zones :: "platform \<Rightarrow> Installation \<Rightarrow> (string \<times> string) list" where
  "normalized_zones pf item =
     map (\<lambda>(org, state). (org, case NormalizeTimezone pf (case map_of (iv_OrganizationTimezones item) org of None \<Rightarrow> '''' | Some z \<Rightarrow> z)
       of Inl e \<Rightarrow> '''' | Inr z \<Rightarrow> z)) (iv_Organizations item)"

fun replace_items :: "platform \<Rightarrow> Installation list \<Rightarrow> (string \<times> Installation) list \<Rightarrow> (string \<times> Installation) list \<times> string list" where
  "replace_items pf [] served = (served, [])"
| "replace_items pf (item # items) served =
     (case ValidateInstallation pf item of
        Some e \<Rightarrow> (let (served', rejected) = replace_items pf items served in (served', e # rejected))
      | None \<Rightarrow>
          if map_of served (iv_ID item) \<noteq> None
          then (let (served', rejected) = replace_items pf items served in (served', ''duplicate plugin'' # rejected))
          else replace_items pf items
            (served @ [(iv_ID item, item\<lparr>iv_OrganizationTimezones := normalized_zones pf item\<rparr>)]))"

definition Replace :: "platform \<Rightarrow> int \<Rightarrow> Installation list \<Rightarrow> installationSnapshot \<times> string list" where
  "Replace pf revision items =
     (let (served, rejected) = replace_items pf items [] in
      (\<lparr>is_revision = revision, is_installations = served\<rparr>, rejected))"

definition NewInstallationRegistry :: "platform \<Rightarrow> Installation list \<Rightarrow> string list + installationSnapshot" where
  "NewInstallationRegistry pf items =
     (case Replace pf 0 items of (snapshot, []) \<Rightarrow> Inr snapshot | (snapshot, rejected) \<Rightarrow> Inl rejected)"

section \<open>Descriptors\<close>

record FeatureAccess =
  fa_State :: string
  fa_TrustClass :: string
  fa_Forward :: bool
  fa_Read :: bool
  fa_Safety :: bool
  fa_ExpiresAt :: "timestamp option"
  fa_GraceUntil :: "timestamp option"

record EntitlementWarning =
  gw_Code :: string
  gw_Message :: string
  gw_GraceUntil :: timestamp
  gw_Features :: "string list"

record EntitlementStatus =
  et_GrantScope :: string
  et_Features :: "(string \<times> FeatureAccess) list"
  et_Warning :: "EntitlementWarning option"

record Descriptor =
  ds_ID :: string
  ds_DisplayName :: string
  ds_Version :: string
  ds_Capabilities :: "string list"
  ds_State :: AvailabilityState
  ds_AdminAction :: string
  ds_Mode :: AccessMode
  ds_Entitlement :: "EntitlementStatus option"

definition no_access :: "string \<Rightarrow> FeatureAccess" where
  "no_access state = \<lparr>fa_State = state, fa_TrustClass = '''', fa_Forward = False, fa_Read = False, fa_Safety = False,
     fa_ExpiresAt = None, fa_GraceUntil = None\<rparr>"

text \<open>A missing key of a Go map reads as the zero value.\<close>

definition feature_access :: "EntitlementStatus \<Rightarrow> string \<Rightarrow> FeatureAccess" where
  "feature_access status feature = (case map_of (et_Features status) feature of None \<Rightarrow> no_access '''' | Some a \<Rightarrow> a)"

definition no_status :: EntitlementStatus where
  "no_status = \<lparr>et_GrantScope = '''', et_Features = [], et_Warning = None\<rparr>"

definition EntitlementGraceWarning :: string where
  "EntitlementGraceWarning = ''plugin_entitlement_grace''"

definition grace_message :: string where
  "grace_message = ''The signed plugin licence is in its grace period.''"

definition in_grace :: "EntitlementStatus \<Rightarrow> string \<Rightarrow> bool" where
  "in_grace status feature \<longleftrightarrow>
     fa_State (feature_access status feature) = ''grace'' \<and> fa_GraceUntil (feature_access status feature) \<noteq> None"

text \<open>The features are listed once each, in order; the message carries the earliest end of a grace period.\<close>

definition GraceWarning :: "EntitlementStatus \<Rightarrow> string list \<Rightarrow> EntitlementWarning option" where
  "GraceWarning status features =
     (case filter (in_grace status) features of
        [] \<Rightarrow> None
      | f # fs \<Rightarrow>
          let end_of = (\<lambda>g. the (fa_GraceUntil (feature_access status g))) in
          Some \<lparr>gw_Code = EntitlementGraceWarning, gw_Message = grace_message,
                gw_GraceUntil = fold (\<lambda>g t. if end_of g < t then end_of g else t) fs (end_of f),
                gw_Features = remdups_adj (sort (f # fs))\<rparr>)"

fun accessMode :: "AvailabilityState \<Rightarrow> AccessMode" where
  "accessMode StateAvailable = ModeFull"
| "accessMode StateNotEnabled = ModeSafetyOnly"
| "accessMode StateNotEntitled = ModeSafetyOnly"
| "accessMode _ = ModeHidden"

definition missing_access :: FeatureAccess where
  "missing_access = no_access ''missing''"

definition filtered_status :: "Installation \<Rightarrow> EntitlementStatus \<Rightarrow> EntitlementStatus" where
  "filtered_status item status =
     (let features = (case iv_Entitlement item of None \<Rightarrow> [] | Some d \<Rightarrow> el_Features d);
          filtered = \<lparr>et_GrantScope = et_GrantScope status,
            et_Features = map (\<lambda>f. (f, case map_of (et_Features status) f of None \<Rightarrow> missing_access | Some a \<Rightarrow> a)) features,
            et_Warning = None\<rparr>
      in filtered\<lparr>et_Warning := GraceWarning filtered features\<rparr>)"

definition projectEntitlement :: "Installation \<Rightarrow> Descriptor \<Rightarrow> EntitlementStatus \<Rightarrow> Descriptor" where
  "projectEntitlement item d status =
     (let filtered = filtered_status item status;
          forward = list_ex (\<lambda>(f, a). fa_Forward a) (et_Features filtered);
          retained = list_ex (\<lambda>(f, a). fa_Read a \<or> fa_Safety a) (et_Features filtered);
          d1 = d\<lparr>ds_Entitlement := Some filtered\<rparr>
      in if ds_State d1 = StateIncompatible \<or> ds_State d1 = StateUnavailable then d1
         else if ds_State d1 = StateAvailable \<and> forward
         then d1\<lparr>ds_Mode := ModeFull,
                 ds_AdminAction := (case et_Warning filtered of None \<Rightarrow> ds_AdminAction d1 | Some w \<Rightarrow> gw_Message w)\<rparr>
         else d1\<lparr>ds_State := (if ds_State d1 = StateAvailable then StateNotEntitled else ds_State d1),
                 ds_Mode := (if retained then ModeSafetyOnly else ModeHidden),
                 ds_AdminAction := ''Ask an administrator to install or renew a signed licence for this plugin and organization.''\<rparr>)"

text \<open>The resolver of the registry, if there is one.\<close>

type_synonym resolver = "(string \<Rightarrow> Installation \<Rightarrow> EntitlementStatus result) option"

definition applyEntitlement :: "resolver \<Rightarrow> string \<Rightarrow> Installation \<Rightarrow> Descriptor \<Rightarrow> Descriptor" where
  "applyEntitlement resolve org item d =
     (if (case iv_Entitlement item of None \<Rightarrow> True | Some e \<Rightarrow> el_Mode e = ''none'') then d
      else (case (case resolve of None \<Rightarrow> Inr no_status | Some r \<Rightarrow> r org item) of
          Inl e \<Rightarrow> d\<lparr>ds_State := StateUnavailable, ds_Mode := ModeHidden,
            ds_AdminAction := ''The plugin licence could not be evaluated. Ask an administrator to check the entitlement service.'',
            ds_Entitlement := Some no_status\<rparr>
        | Inr status \<Rightarrow> projectEntitlement item d status))"

definition EnvironmentObservationProtocol :: string where
  "EnvironmentObservationProtocol = ''environment-observation/v1''"
definition EnvironmentObservationRecoveryProtocol :: string where
  "EnvironmentObservationRecoveryProtocol = ''environment-observation-recovery/v1''"

type_synonym protocol_resolver = "(string \<Rightarrow> Installation \<Rightarrow> string \<Rightarrow> bool) option"

definition protocol_supported :: "protocol_resolver \<Rightarrow> string \<Rightarrow> Installation \<Rightarrow> string \<Rightarrow> bool" where
  "protocol_supported protocols org item protocol \<longleftrightarrow>
     (protocol = EnvironmentObservationProtocol \<or> protocol = EnvironmentObservationRecoveryProtocol)
     \<and> (case protocols of None \<Rightarrow> False | Some supports \<Rightarrow> supports org item protocol)"

definition get_descriptor :: "protocol_resolver \<Rightarrow> resolver \<Rightarrow> installationSnapshot \<Rightarrow> string \<Rightarrow> string \<Rightarrow> Descriptor option" where
  "get_descriptor protocols resolve snapshot org plugin =
     (case map_of (is_installations snapshot) plugin of
        None \<Rightarrow> None
      | Some item \<Rightarrow>
     (case map_of (iv_Organizations item) org of
        None \<Rightarrow> None
      | Some configured \<Rightarrow>
          let state = (if list_all (protocol_supported protocols org item) (iv_RequiredProtocols item) then configured
                       else StateIncompatible) in
          Some (applyEntitlement resolve org item
            \<lparr>ds_ID = iv_ID item, ds_DisplayName = iv_DisplayName item, ds_Version = iv_Version item,
             ds_Capabilities = map ca_ID (iv_Capabilities item), ds_State = state, ds_AdminAction = '''',
             ds_Mode = accessMode state, ds_Entitlement = None\<rparr>)))"

definition List_descriptors :: "protocol_resolver \<Rightarrow> resolver \<Rightarrow> installationSnapshot \<Rightarrow> string \<Rightarrow> Descriptor list" where
  "List_descriptors protocols resolve snapshot org =
     sort_key ds_ID (List.map_filter (\<lambda>(i, item). get_descriptor protocols resolve snapshot org i) (is_installations snapshot))"

definition get_installation :: "protocol_resolver \<Rightarrow> resolver \<Rightarrow> installationSnapshot \<Rightarrow> string \<Rightarrow> string
    \<Rightarrow> (Installation \<times> Descriptor) option" where
  "get_installation protocols resolve snapshot org plugin =
     (case get_descriptor protocols resolve snapshot org plugin of
        None \<Rightarrow> None
      | Some d \<Rightarrow> map_option (\<lambda>item. (item, d)) (map_of (is_installations snapshot) plugin))"

definition ConfiguredInstallation :: "installationSnapshot \<Rightarrow> string \<Rightarrow> string \<Rightarrow> Installation option" where
  "ConfiguredInstallation snapshot org plugin =
     (case map_of (is_installations snapshot) plugin of
        None \<Rightarrow> None
      | Some item \<Rightarrow> if map_of (iv_Organizations item) org = None then None else Some item)"

definition Allows :: "Descriptor \<Rightarrow> string \<Rightarrow> bool \<Rightarrow> bool \<Rightarrow> bool" where
  "Allows d feature mutating safety =
     (if ds_State d \<noteq> StateAvailable \<and> ds_State d \<noteq> StateNotEnabled \<and> ds_State d \<noteq> StateNotEntitled then False
      else case ds_Entitlement d of
        None \<Rightarrow> ds_State d = StateAvailable \<or> \<not> mutating \<or> safety
      | Some status \<Rightarrow>
          (case map_of (et_Features status) feature of
             None \<Rightarrow> False
           | Some access \<Rightarrow>
               if \<not> mutating then fa_Read access
               else if safety then fa_Safety access
               else ds_State d = StateAvailable \<and> fa_Forward access))"
section \<open>Requests\<close>

definition IsSafety :: "Operation \<Rightarrow> (string \<times> string) list \<Rightarrow> bool" where
  "IsSafety o1 parameters =
     (if op_Safety o1 then True
      else if op_SafetyPathValues o1 = [] then False
      else list_all (\<lambda>(key, values). List.member values (case map_of parameters key of None \<Rightarrow> '''' | Some v \<Rightarrow> v))
        (op_SafetyPathValues o1))"

text \<open>\<^verbatim>\<open>url.PathEscape\<close> and \<^verbatim>\<open>url.QueryEscape\<close>.\<close>

definition upper_hex :: "nat \<Rightarrow> char" where
  "upper_hex n = (if n < 10 then char_of (48 + n) else char_of (55 + n))"

definition percent_encoded :: "char \<Rightarrow> string" where
  "percent_encoded c = [CHR ''%'', upper_hex (of_char c div 16), upper_hex (of_char c mod 16)]"

definition unreserved :: "char \<Rightarrow> bool" where
  "unreserved c \<longleftrightarrow> is_letter c \<or> is_digit c \<or> List.member [CHR ''-'', CHR ''_'', CHR ''.'', CHR ''~''] c"

definition escape_path_char :: "char \<Rightarrow> string" where
  "escape_path_char c =
     (if unreserved c \<or> List.member [CHR ''$'', CHR ''&'', CHR ''+'', CHR '':'', CHR ''='', CHR ''@''] c then [c]
      else percent_encoded c)"

definition PathEscape :: "string \<Rightarrow> string" where
  "PathEscape t = concat (map escape_path_char t)"

definition QueryEscape :: "string \<Rightarrow> string" where
  "QueryEscape t = concat (map (\<lambda>c. if unreserved c then [c] else if c = CHR '' '' then ''+'' else percent_encoded c) t)"

text \<open>\<^verbatim>\<open>url.Values.Encode\<close>: the pairs in the order of the keys.\<close>

definition encode_query :: "(string \<times> string list) list \<Rightarrow> string" where
  "encode_query query =
     join_with CHR ''&'' (concat (map (\<lambda>(key, vs). map (\<lambda>v. QueryEscape key @ CHR ''='' # QueryEscape v) vs) (sort_key fst query)))"

text \<open>
  \<^verbatim>\<open>pathParameter.ReplaceAllStringFunc\<close>: the template as the characters that stay (\<open>Inl\<close>) and the names of its
  parameters (\<open>Inr\<close>).
\<close>

function template_tokens :: "string \<Rightarrow> (char + string) list" where
  "template_tokens [] = []"
| "template_tokens (c # s) =
     (case dropWhile parameter_char s of
        d # t \<Rightarrow>
          if c = CHR 0x7B \<and> d = CHR 0x7D \<and> takeWhile parameter_char s \<noteq> [] \<and> is_letter (hd s)
          then Inr (takeWhile parameter_char s) # template_tokens t else Inl c # template_tokens s
      | [] \<Rightarrow> Inl c # template_tokens s)"
  by pat_completeness auto

termination template_tokens
  by (relation "measure length") (auto dest: dropWhile_shorter)

definition orgPathParameter :: string where "orgPathParameter = ''orgId''"

text \<open>The value of a parameter and whether it may be put into the path.\<close>

definition parameter_value :: "string \<Rightarrow> (string \<times> string) list \<Rightarrow> string \<Rightarrow> string option" where
  "parameter_value org parameters key = (if key = orgPathParameter then Some org else map_of parameters key)"

definition segment_char :: "char \<Rightarrow> bool" where
  "segment_char c \<longleftrightarrow> \<not> List.member [CHR ''/'', CHR 0x5C, CHR ''%'', CHR ''?'', CHR ''#'', CHR 0x0D, CHR 0x0A] c"

definition segment_value :: "string \<Rightarrow> bool" where
  "segment_value v \<longleftrightarrow> v \<noteq> '''' \<and> v \<noteq> ''.'' \<and> v \<noteq> ''..'' \<and> list_all segment_char v"

definition parameter_valid :: "Operation \<Rightarrow> string \<Rightarrow> (string \<times> string) list \<Rightarrow> string \<Rightarrow> bool" where
  "parameter_valid o1 org parameters key \<longleftrightarrow>
     (case parameter_value org parameters key of
        None \<Rightarrow> False
      | Some v \<Rightarrow> segment_value v
          \<and> (case map_of (op_PathValues o1) key of None \<Rightarrow> True | Some choices \<Rightarrow> List.member choices v))"

definition token_keys :: "(char + string) list \<Rightarrow> string list" where
  "token_keys ts = concat (map (\<lambda>t. case t of Inl c \<Rightarrow> [] | Inr key \<Rightarrow> [key]) ts)"

definition render_token :: "string \<Rightarrow> (string \<times> string) list \<Rightarrow> char + string \<Rightarrow> string" where
  "render_token org parameters t =
     (case t of Inl c \<Rightarrow> [c]
      | Inr key \<Rightarrow> PathEscape (case parameter_value org parameters key of None \<Rightarrow> '''' | Some v \<Rightarrow> v))"

definition render_path :: "string \<Rightarrow> (string \<times> string) list \<Rightarrow> string \<Rightarrow> string" where
  "render_path org parameters path = concat (map (render_token org parameters) (template_tokens path))"

definition RequestPath ::
    "Operation \<Rightarrow> string \<Rightarrow> (string \<times> string) list \<Rightarrow> (string \<times> string list) list \<Rightarrow> string + string" where
  "RequestPath o1 org parameters query =
     (let keys = token_keys (template_tokens (op_Path o1)) in
      if \<not> list_all (parameter_valid o1 org parameters) keys
         \<or> list_ex (\<lambda>(key, v). key = orgPathParameter \<or> \<not> List.member keys key) parameters
      then Inl ''invalid plugin operation path parameters''
      else if list_ex (\<lambda>(key, vs). \<not> List.member (op_QueryKeys o1) key) query then Inl ''unregistered plugin query parameter''
      else (let encoded = encode_query query in
        Inr (render_path org parameters (op_Path o1) @ (if encoded \<noteq> '''' then CHR ''?'' # encoded else ''''))))"

section \<open>A request stays below its operation\<close>

lemma escape_path_char_not_Nil [simp]: "escape_path_char c \<noteq> []"
  by (simp add: escape_path_char_def percent_encoded_def)

lemma PathEscape_Nil [simp]: "PathEscape [] = []"
  by (simp add: PathEscape_def)

lemma PathEscape_Cons [simp]: "PathEscape (c # t) = escape_path_char c @ PathEscape t"
  by (simp add: PathEscape_def)

lemma PathEscape_eq_Nil [simp]: "PathEscape t = [] \<longleftrightarrow> t = []"
  by (cases t) auto

lemma upper_hex_range: "n < 16 \<Longrightarrow> is_digit (upper_hex n) \<or> is_letter (upper_hex n)"
  by (auto simp: upper_hex_def is_digit_def is_letter_def less_eq_char_def)

lemma escape_path_char_dot: "escape_path_char c = CHR ''.'' # t \<Longrightarrow> c = CHR ''.'' \<and> t = []"
  by (auto simp: escape_path_char_def percent_encoded_def split: if_splits)

lemma PathEscape_dot: "PathEscape v = ''.'' \<Longrightarrow> v = ''.''"
  by (cases v) (auto simp: append_eq_Cons_conv dest: escape_path_char_dot)

lemma PathEscape_dots: "PathEscape v = ''..'' \<Longrightarrow> v = ''..''"
  by (cases v) (auto simp: append_eq_Cons_conv dest: escape_path_char_dot PathEscape_dot)
lemma hex_chars:
  assumes "x \<in> set (percent_encoded c)"
  shows "x = CHR ''%'' \<or> is_digit x \<or> is_letter x"
proof -
  have "(of_char c :: nat) div 16 < 16" using less_mult_imp_div_less [of "of_char c" 16 16] by simp
  note high = upper_hex_range [OF this]
  have "(of_char c :: nat) mod 16 < 16" by simp
  note low = upper_hex_range [OF this]
  consider "x = CHR ''%''" | "x = upper_hex (of_char c div 16)" | "x = upper_hex (of_char c mod 16)"
    using assms unfolding percent_encoded_def by auto
  then show ?thesis using high low by cases simp_all
qed

text \<open>The characters that end a segment or the path, or that a proxy reads as such.\<close>

definition path_breaker :: "char \<Rightarrow> bool" where
  "path_breaker c \<longleftrightarrow> List.member [CHR ''/'', CHR 0x5C, CHR ''?'', CHR ''#'', CHR 0x0D, CHR 0x0A] c"

lemma escape_path_char_safe: "x \<in> set (escape_path_char c) \<Longrightarrow> \<not> path_breaker x"
  by (auto simp: escape_path_char_def unreserved_def path_breaker_def is_digit_def is_letter_def less_eq_char_def
      split: if_splits dest!: hex_chars)

lemma PathEscape_safe: "x \<in> set (PathEscape t) \<Longrightarrow> \<not> path_breaker x"
  by (induction t) (auto dest: escape_path_char_safe)

lemma dropWhile_all: "dropWhile P xs = [] \<Longrightarrow> dropWhile P (xs @ ys) = dropWhile P ys"
  by (simp add: dropWhile_eq_Nil_conv dropWhile_append2)

lemma dropWhile_some: "dropWhile P xs = d # t \<Longrightarrow> dropWhile P (xs @ ys) = d # t @ ys \<and> takeWhile P (xs @ ys) = takeWhile P xs"
  by (induction xs) (auto split: if_splits)

lemma dropWhile_in: "dropWhile P xs = d # t \<Longrightarrow> set t \<subseteq> set xs"
  by (metis set_dropWhileD set_subset_Cons subset_code(1) subset_trans)

definition opens :: "char \<Rightarrow> string \<Rightarrow> string \<Rightarrow> bool" where
  "opens c s t \<longleftrightarrow> c = CHR 0x7B \<and> dropWhile parameter_char s = CHR 0x7D # t \<and> takeWhile parameter_char s \<noteq> [] \<and> is_letter (hd s)"

lemma template_tokens_parameter:
  "opens c s t \<Longrightarrow> template_tokens (c # s) = Inr (takeWhile parameter_char s) # template_tokens t"
  by (simp add: opens_def)

lemma template_tokens_literal_char:
  assumes "\<And>t. \<not> opens c s t"
  shows "template_tokens (c # s) = Inl c # template_tokens s"
  using assms by (cases "dropWhile parameter_char s") (auto simp: opens_def simp del: dropWhile_eq_Nil_conv)

lemma opens_append:
  assumes "CHR ''/'' \<notin> set p"
  shows "opens c (p @ CHR ''/'' # s) t \<longleftrightarrow> (\<exists>u. opens c p u \<and> t = u @ CHR ''/'' # s)"
proof -
  have slash: "\<not> parameter_char CHR ''/''"
    by (simp add: parameter_char_def is_letter_def is_digit_def less_eq_char_def)
  show ?thesis
  proof (cases "dropWhile parameter_char p")
    case Nil
    then have "dropWhile parameter_char (p @ CHR ''/'' # s) = CHR ''/'' # s" using slash by (simp add: dropWhile_all)
    then show ?thesis unfolding opens_def Nil by simp
  next
    case (Cons d u)
    have "takeWhile parameter_char p \<noteq> [] \<Longrightarrow> hd (p @ CHR ''/'' # s) = hd p" by (cases p) auto
    then show ?thesis using Cons dropWhile_some [OF Cons, of "CHR ''/'' # s"] by (auto simp: opens_def)
  qed
qed

lemma opens_shorter: "opens c s t \<Longrightarrow> length t < length (c # s)"
  by (auto simp: opens_def dest: dropWhile_shorter)

lemma opens_subset: "opens c s t \<Longrightarrow> set t \<subseteq> set s"
  by (auto simp: opens_def dest!: dropWhile_in)

lemma template_induct [case_names Nil parameter literal]:
  assumes "P []" "\<And>c s t. opens c s t \<Longrightarrow> P t \<Longrightarrow> P (c # s)" "\<And>c s. (\<And>t. \<not> opens c s t) \<Longrightarrow> P s \<Longrightarrow> P (c # s)"
  shows "P p"
proof (induction "length p" arbitrary: p rule: less_induct)
  case less
  show ?case
  proof (cases p)
    case (Cons c s)
    show ?thesis
    proof (cases "\<exists>t. opens c s t")
      case True
      then show ?thesis using Cons less assms(2) opens_shorter by metis
    next
      case False
      then show ?thesis using Cons less assms(3) by simp
    qed
  qed (simp add: assms(1))
qed

lemma template_tokens_append:
  "CHR ''/'' \<notin> set p \<Longrightarrow> template_tokens (p @ CHR ''/'' # s) = template_tokens p @ Inl (CHR ''/'') # template_tokens s"
proof (induction p rule: template_induct)
  case Nil
  show ?case by (simp add: template_tokens_literal_char opens_def del: template_tokens.simps(2))
next
  case (parameter c p t)
  have "opens c (p @ CHR ''/'' # s) (t @ CHR ''/'' # s)" using parameter opens_append by auto
  then have "template_tokens (c # p @ CHR ''/'' # s)
      = Inr (takeWhile parameter_char (p @ CHR ''/'' # s)) # template_tokens (t @ CHR ''/'' # s)"
    by (rule template_tokens_parameter)
  moreover have "takeWhile parameter_char (p @ CHR ''/'' # s) = takeWhile parameter_char p"
    using parameter(1) dropWhile_some [of parameter_char p "CHR 0x7D" t "CHR ''/'' # s"] by (simp add: opens_def)
  moreover have "CHR ''/'' \<notin> set t" using opens_subset [OF parameter(1)] parameter(3) by auto
  ultimately show ?case using parameter(2) by (simp add: template_tokens_parameter [OF parameter(1)] del: template_tokens.simps)
next
  case (literal c p)
  have "\<not> opens c (p @ CHR ''/'' # s) t" for t using literal opens_append by auto
  then have "template_tokens (c # p @ CHR ''/'' # s) = Inl c # template_tokens (p @ CHR ''/'' # s)"
    by (rule template_tokens_literal_char)
  then show ?case using literal by (simp add: template_tokens_literal_char [OF literal(1)] del: template_tokens.simps)
qed

lemma render_path_append:
  "CHR ''/'' \<notin> set p \<Longrightarrow> render_path org ps (p @ CHR ''/'' # s) = render_path org ps p @ CHR ''/'' # render_path org ps s"
  by (simp add: render_path_def template_tokens_append render_token_def)

lemma render_join:
  "\<forall>p\<in>set segments. CHR ''/'' \<notin> set p \<Longrightarrow>
     render_path org ps (join_with CHR ''/'' segments) = join_with CHR ''/'' (map (render_path org ps) segments)"
proof (induction segments rule: induct_list012)
  case (3 p q qs)
  then show ?case by (simp add: render_path_append)
qed (simp_all add: render_path_def)

lemma literal_tokens: "Inl c \<in> set (template_tokens p) \<Longrightarrow> c \<in> set p"
proof (induction p rule: template_induct)
  case (parameter d p t)
  then show ?case using opens_subset [OF parameter(1)] by (auto simp: template_tokens_parameter [OF parameter(1)] simp del: template_tokens.simps)
next
  case (literal d p)
  then show ?case by (auto simp: template_tokens_literal_char [OF literal(1)] simp del: template_tokens.simps)
qed simp

lemma render_chars: "x \<in> set (render_path org ps p) \<Longrightarrow> x \<in> set p \<or> \<not> path_breaker x"
proof -
  assume "x \<in> set (render_path org ps p)"
  then obtain t where t: "t \<in> set (template_tokens p)" "x \<in> set (render_token org ps t)" by (auto simp: render_path_def)
  show ?thesis
  proof (cases t)
    case (Inl c)
    then show ?thesis using t literal_tokens by (simp add: render_token_def)
  next
    case (Inr key)
    then show ?thesis using t PathEscape_safe by (simp add: render_token_def)
  qed
qed

lemma render_split: "split_on CHR ''/'' (render_path org ps path) = map (render_path org ps) (split_on CHR ''/'' path)"
proof -
  let ?segments = "split_on CHR ''/'' path"
  have no: "\<forall>p\<in>set ?segments. CHR ''/'' \<notin> set p" using split_on_no_sep by blast
  have "render_path org ps path = join_with CHR ''/'' (map (render_path org ps) ?segments)"
    using render_join [OF no, of org ps] by simp
  moreover have "\<forall>p\<in>set (map (render_path org ps) ?segments). CHR ''/'' \<notin> set p"
    using no by (auto dest!: render_chars simp: path_breaker_def)
  ultimately show ?thesis by (simp add: split_join_with)
qed

text \<open>Every token is rendered to some text, and a value is rendered to a dot or two only if it is that.\<close>

definition valid_token :: "string \<Rightarrow> (string \<times> string) list \<Rightarrow> char + string \<Rightarrow> bool" where
  "valid_token org ps t \<longleftrightarrow>
     (case t of Inl c \<Rightarrow> True | Inr key \<Rightarrow> (case parameter_value org ps key of None \<Rightarrow> False | Some v \<Rightarrow> segment_value v))"

lemma render_token_dots:
  assumes "valid_token org ps t"
  shows "render_token org ps t \<noteq> [] \<and> (render_token org ps t = ''.'' \<longrightarrow> t = Inl (CHR ''.'')) \<and> render_token org ps t \<noteq> ''..''"
  using assms
  by (auto simp: valid_token_def render_token_def segment_value_def split: sum.splits option.splits
      dest: PathEscape_dot PathEscape_dots)

lemma template_tokens_literal: "list_all isl (template_tokens p) \<Longrightarrow> map projl (template_tokens p) = p"
proof (induction p rule: template_induct)
  case (parameter c p t)
  then show ?case by (simp add: template_tokens_parameter [OF parameter(1)] del: template_tokens.simps)
next
  case (literal c p)
  then show ?case by (simp add: template_tokens_literal_char [OF literal(1)] del: template_tokens.simps)
qed simp

lemma rendered_dots:
  assumes "\<forall>t\<in>set ts. valid_token org ps t" "concat (map (render_token org ps) ts) = dots" "dots = ''.'' \<or> dots = ''..''"
  shows "list_all isl ts \<and> map projl ts = dots"
proof (cases ts)
  case Nil
  then show ?thesis using assms by auto
next
  case (Cons t us)
  note r = render_token_dots [of org ps t] render_token_dots [of org ps "hd us"]
  show ?thesis
  proof (cases us)
    case Nil
    then show ?thesis using assms Cons r(1) by auto
  next
    case (Cons u ws)
    have ne: "\<forall>t\<in>set ws. render_token org ps t \<noteq> []" using assms(1) \<open>ts = t # us\<close> Cons render_token_dots by auto
    have "render_token org ps t \<noteq> []" "render_token org ps u \<noteq> []" using assms(1) \<open>ts = t # us\<close> Cons render_token_dots by auto
    then have "render_token org ps t = ''.''" "render_token org ps u = ''.''" "concat (map (render_token org ps) ws) = []" "dots = ''..''"
      using assms(2,3) \<open>ts = t # us\<close> Cons by (auto simp: append_eq_Cons_conv Cons_eq_append_conv)
    then show ?thesis using assms(1) \<open>ts = t # us\<close> Cons r ne by (cases ws) auto
  qed
qed
lemma operation_path_safe: "check_operations m seen os = None \<Longrightarrow> x \<in> set os \<Longrightarrow> safePath (op_Path x)"
  by (induction m seen os rule: check_operations.induct) auto

lemma valid_operation_path: "Validate m = None \<Longrightarrow> x \<in> set (mf_Operations m) \<Longrightarrow> safePath (op_Path x)"
  by (auto simp: Validate_def validateOperations_def dest: operation_path_safe)

lemma request_tokens:
  assumes "list_all (parameter_valid o1 org ps) (token_keys (template_tokens path))" "t \<in> set (template_tokens path)"
  shows "valid_token org ps t"
  using assms
  by (force simp: valid_token_def parameter_valid_def token_keys_def list_all_iff split: sum.splits option.splits)

text \<open>The tokens of a segment are tokens of the path.\<close>

lemma segment_tokens_join:
  "\<forall>p\<in>set segments. CHR ''/'' \<notin> set p \<Longrightarrow> p \<in> set segments \<Longrightarrow>
     set (template_tokens p) \<subseteq> set (template_tokens (join_with CHR ''/'' segments))"
proof (induction segments rule: induct_list012)
  case (3 q r qs)
  then show ?case by (auto simp: template_tokens_append)
qed simp_all

lemma segment_tokens: "p \<in> set (split_on CHR ''/'' path) \<Longrightarrow> set (template_tokens p) \<subseteq> set (template_tokens path)"
  using segment_tokens_join [of "split_on CHR ''/'' path" p] split_on_no_sep by fastforce

lemma rendered_segment:
  assumes "list_all (parameter_valid o1 org ps) (token_keys (template_tokens path))" "safePath path"
    "p \<in> set (split_on CHR ''/'' path)"
  shows "render_path org ps p \<noteq> ''.'' \<and> render_path org ps p \<noteq> ''..'' \<and> (render_path org ps p = '''' \<longleftrightarrow> p = '''')"
proof -
  have v: "\<forall>t\<in>set (template_tokens p). valid_token org ps t"
    using request_tokens [OF assms(1)] segment_tokens [OF assms(3)] by blast
  have "p \<noteq> ''.'' \<and> p \<noteq> ''..''" using assms(2,3) by (auto simp: safePath_def)
  then have "render_path org ps p \<noteq> ''.'' \<and> render_path org ps p \<noteq> ''..''"
    unfolding render_path_def using rendered_dots [OF v] template_tokens_literal by metis
  moreover have "render_path org ps p = '''' \<longleftrightarrow> p = ''''"
  proof
    assume "render_path org ps p = ''''"
    then have "template_tokens p = []"
      using v render_token_dots by (cases "template_tokens p") (auto simp: render_path_def)
    then show "p = ''''" by (cases p) (auto split: list.splits if_splits)
  qed (simp add: render_path_def)
  ultimately show ?thesis by simp
qed

lemma literal_segment: "list_all isl (template_tokens p) \<Longrightarrow> render_path org ps p = p"
proof -
  assume l: "list_all isl (template_tokens p)"
  then have m: "map (render_token org ps) (template_tokens p) = map (\<lambda>t. [projl t]) (template_tokens p)"
    by (auto simp: list_all_iff render_token_def split: sum.splits)
  have "render_path org ps p = map projl (template_tokens p)" unfolding render_path_def m by (rule concat_map_singleton)
  then show ?thesis using template_tokens_literal [OF l] by simp
qed

definition example_operation :: Operation where
  "example_operation =
     \<lparr>op_RequireOrgAdmin = False, op_RequiredFeature = '''', op_ID = ''getReport'', op_Method = ''GET'', op_Path = ''/v1/{orgId}/r.{id}'',
      op_QueryKeys = [], op_Mutating = False, op_Safety = False, op_PathValues = [], op_SafetyPathValues = [],
      op_ServiceActions = [], op_ServiceActionPathValues = []\<rparr>"

section \<open>Properties\<close>

text \<open>
  C15. A request stays below its operation. The path that \<open>RequestPath\<close> builds for an operation of a valid package
  has the segments of the operation's template: a segment without parameters is the same, no segment is empty,
  \<open>.\<close> or \<open>..\<close> unless the template's is empty, and nothing in it starts a query, a fragment or a new line. So no choice of
  the parameters reaches another operation of the plugin's backend or leaves the path of this one.
\<close>

theorem request_path_confined:
  assumes "Validate m = None" "o1 \<in> set (mf_Operations m)" "RequestPath o1 org parameters query = Inr request"
  shows "\<exists>path rest. request = path @ rest \<and> (rest = '''' \<or> hd rest = CHR ''?'')
    \<and> (\<forall>c\<in>set path. c = CHR ''/'' \<or> \<not> path_breaker c)
    \<and> list_all2 (\<lambda>template segment. (list_all isl (template_tokens template) \<longrightarrow> segment = template)
          \<and> segment \<noteq> ''.'' \<and> segment \<noteq> ''..'' \<and> (segment = '''' \<longleftrightarrow> template = ''''))
        (split_on CHR ''/'' (op_Path o1)) (split_on CHR ''/'' path)"
proof -
  let ?path = "render_path org parameters (op_Path o1)"
  have safe: "safePath (op_Path o1)" by (rule valid_operation_path [OF assms(1,2)])
  have keys: "list_all (parameter_valid o1 org parameters) (token_keys (template_tokens (op_Path o1)))"
    and request: "\<exists>rest. request = ?path @ rest \<and> (rest = '''' \<or> hd rest = CHR ''?'')"
    using assms(3) by (auto simp: RequestPath_def Let_def split: if_splits)
  have "\<forall>c\<in>set ?path. c = CHR ''/'' \<or> \<not> path_breaker c"
    using safe by (fastforce simp: safePath_def list_all_iff path_breaker_def dest!: render_chars)
  moreover have "list_all2 (\<lambda>template segment. (list_all isl (template_tokens template) \<longrightarrow> segment = template)
          \<and> segment \<noteq> ''.'' \<and> segment \<noteq> ''..'' \<and> (segment = '''' \<longleftrightarrow> template = ''''))
        (split_on CHR ''/'' (op_Path o1)) (split_on CHR ''/'' ?path)"
    unfolding render_split using rendered_segment [OF keys safe] literal_segment
    by (auto simp: list_all2_conv_all_nth)
  ultimately show ?thesis using request by blast
qed

theorem request_path_confined_witness:
  "RequestPath example_operation ''acme'' [(''id'', ''a b'')] [] = Inr ''/v1/acme/r.a%20b''
   \<and> (\<exists>path rest. ''/v1/acme/r.a%20b'' = path @ rest \<and> (\<forall>c\<in>set path. c = CHR ''/'' \<or> \<not> path_breaker c))"
proof -
  let ?m = "(example_manifest ''1.0.0'')\<lparr>mf_Operations := [example_operation]\<rparr>"
  have v: "Validate ?m = None" by code_simp
  have o1: "example_operation \<in> set (mf_Operations ?m)" by simp
  have r: "RequestPath example_operation ''acme'' [(''id'', ''a b'')] [] = Inr ''/v1/acme/r.a%20b''" by code_simp
  from request_path_confined [OF v o1 r] r show ?thesis by blast
qed

section \<open>What a descriptor allows\<close>

definition licence_required :: "Installation \<Rightarrow> bool" where
  "licence_required item \<longleftrightarrow> (case iv_Entitlement item of None \<Rightarrow> False | Some d \<Rightarrow> el_Mode d \<noteq> ''none'')"

text \<open>The access the resolver gives to a feature that the package declares.\<close>

definition resolved_access :: "resolver \<Rightarrow> string \<Rightarrow> Installation \<Rightarrow> string \<Rightarrow> FeatureAccess option" where
  "resolved_access resolve org item feature =
     (case resolve of None \<Rightarrow> None
      | Some r \<Rightarrow> (case r org item of Inl e \<Rightarrow> None
         | Inr status \<Rightarrow> if feature \<in> set (case iv_Entitlement item of None \<Rightarrow> [] | Some d \<Rightarrow> el_Features d)
             then map_of (et_Features status) feature else None))"

lemma filtered_features:
  "map_of (et_Features (filtered_status item status)) f =
     (if f \<in> set (case iv_Entitlement item of None \<Rightarrow> [] | Some d \<Rightarrow> el_Features d)
      then Some (case map_of (et_Features status) f of None \<Rightarrow> missing_access | Some a \<Rightarrow> a) else None)"
  by (simp add: filtered_status_def Let_def map_of_map_restrict restrict_map_def)

lemma no_status_features [simp]: "et_Features no_status = []"
  by (simp add: no_status_def)

lemma missing_access_simps [simp]:
  "\<not> fa_Forward missing_access" "\<not> fa_Read missing_access" "\<not> fa_Safety missing_access"
  by (simp_all add: missing_access_def no_access_def)

lemma projected:
  "ds_Entitlement (projectEntitlement item d status) = Some (filtered_status item status)"
  "ds_State (projectEntitlement item d status) =
     (if ds_State d = StateAvailable \<and> \<not> list_ex (\<lambda>(f, a). fa_Forward a) (et_Features (filtered_status item status))
      then StateNotEntitled else ds_State d)"
  by (auto simp: projectEntitlement_def Let_def)

lemma forward_feature:
  "map_of fs f = Some a \<Longrightarrow> fa_Forward a \<Longrightarrow> list_ex (\<lambda>(f, a). fa_Forward a) fs"
  by (auto simp: list_ex_iff dest!: map_of_SomeD)

definition serves :: "AvailabilityState \<Rightarrow> bool" where
  "serves state \<longleftrightarrow> state = StateAvailable \<or> state = StateNotEnabled \<or> state = StateNotEntitled"

lemma projected_allows:
  assumes "ds_Entitlement d = None"
  shows "Allows (projectEntitlement item d status) feature mutating safety \<longleftrightarrow>
    (case map_of (et_Features (filtered_status item status)) feature of None \<Rightarrow> False
     | Some a \<Rightarrow> serves (ds_State d) \<and> (if \<not> mutating then fa_Read a else if safety then fa_Safety a
         else ds_State d = StateAvailable \<and> fa_Forward a))"
  using forward_feature [of "et_Features (filtered_status item status)" feature]
  by (auto simp: Allows_def projected serves_def split: option.splits if_splits)

lemma applied_allows:
  assumes "ds_Entitlement d = None"
  shows "Allows (applyEntitlement resolve org item d) feature mutating safety \<longleftrightarrow> serves (ds_State d)
    \<and> (if licence_required item
       then (case resolved_access resolve org item feature of None \<Rightarrow> False
             | Some a \<Rightarrow> if \<not> mutating then fa_Read a else if safety then fa_Safety a
                 else ds_State d = StateAvailable \<and> fa_Forward a)
       else ds_State d = StateAvailable \<or> \<not> mutating \<or> safety)"
proof (cases "licence_required item")
  case False
  then show ?thesis using assms
    by (auto simp: applyEntitlement_def licence_required_def Allows_def serves_def split: option.splits)
next
  case True
  then have required: "\<not> (case iv_Entitlement item of None \<Rightarrow> True | Some e \<Rightarrow> el_Mode e = ''none'')"
    by (simp add: licence_required_def split: option.splits)
  consider "resolve = None" | r e where "resolve = Some r" "r org item = Inl e"
    | r status where "resolve = Some r" "r org item = Inr status"
    by (metis option.exhaust sum.exhaust)
  then show ?thesis
  proof cases
    case 1
    then show ?thesis using True assms required
      by (auto simp: applyEntitlement_def projected_allows filtered_features resolved_access_def)
  next
    case 2
    then show ?thesis using True required by (simp add: applyEntitlement_def Allows_def resolved_access_def)
  next
    case 3
    then show ?thesis using True assms required
      by (auto simp: applyEntitlement_def projected_allows filtered_features resolved_access_def split: option.splits)
  qed
qed

text \<open>
  C14. What discovery allows. A plugin's feature is open for forward work exactly if the snapshot serves the plugin for
  the organization as available, Core supports every protocol the package requires and, for a licensed package, the
  resolver gives forward access to the feature and the package declares it. An installation that is disabled stays
  open for reads and safety work, a licensed one only for what the licence keeps.
\<close>

theorem discovery_allows:
  "(case get_descriptor protocols resolve snapshot org plugin of None \<Rightarrow> False | Some d \<Rightarrow> Allows d feature mutating safety) \<longleftrightarrow>
   (\<exists>item state. map_of (is_installations snapshot) plugin = Some item \<and> map_of (iv_Organizations item) org = Some state
      \<and> serves state \<and> list_all (protocol_supported protocols org item) (iv_RequiredProtocols item)
      \<and> (if licence_required item
         then \<exists>a. resolved_access resolve org item feature = Some a
           \<and> (if \<not> mutating then fa_Read a else if safety then fa_Safety a else state = StateAvailable \<and> fa_Forward a)
         else if mutating \<and> \<not> safety then state = StateAvailable else True))"
  by (auto simp: get_descriptor_def Let_def applied_allows serves_def split: option.splits if_splits)

end
