(* ===== verification/PluginStore.thy ===== *)
theory PluginStore
  imports Journal PluginRegistry
begin

text \<open>
  The tables of the Plugin Manager as \<^verbatim>\<open>internal/model/plugin_manager.go\<close> reads and writes them: packages, installations
  with their enablements and observations, capability registrations, the counts of unsettled work, the snapshot that a
  replica loads and the check every effect of a plugin makes in its own transaction. The constraints are those of the
  migrations 41 to 47. Row locks are left out: an operation is one step of one transaction.

  A manifest is stored as the value that is decoded from it, and so are approval policies. Service identities are
  stored in UUID columns; the commands only write canonical UUIDs there.
\<close>

section \<open>Constraints\<close>

definition installation_states :: "string list" where
  "installation_states = [''installed'', ''active'', ''disabled'', ''uninstalled'', ''purged'']"

text \<open>The states in which Core serves the registrations of an installation.\<close>

definition served_state :: "string \<Rightarrow> bool" where
  "served_state state \<longleftrightarrow> state = ''active'' \<or> state = ''disabled''"

definition installation_checks :: "installation_row \<Rightarrow> bool" where
  "installation_checks i \<longleftrightarrow>
     List.member installation_states (in_state i)
     \<and> (in_service_user_id i = '''' \<longleftrightarrow> in_admission_checker_id i = '''')
     \<and> (in_service_user_id i \<noteq> in_admission_checker_id i \<or> in_service_user_id i = '''')
     \<and> in_target_package_sha256 i \<noteq> in_package_sha256 i
     \<and> List.member [''selected'', ''all''] (in_organization_mode i)
     \<and> (in_organization_mode i = ''selected'' \<or> served_state (in_state i))"

definition package_known :: "string \<Rightarrow> string \<Rightarrow> host \<Rightarrow> bool" where
  "package_known plugin digest h = list_ex (\<lambda>p. pp_PluginID p = plugin \<and> pp_ManifestSHA256 p = digest) (plugin_packages h)"

definition installations_one_per_plugin :: "installation_row \<Rightarrow> string option" where
  "installations_one_per_plugin i = (if in_state i = ''purged'' then None else Some (in_plugin_id i))"

definition plugin_installations_constraints :: "(installation_row, string) constraint list" where
  "plugin_installations_constraints =
     [(''plugin_installations_pkey'', \<lambda>i. Some (in_installation_uuid i)),
      (''plugin_installations_one_per_plugin'', installations_one_per_plugin)]"

definition plugin_packages_constraints :: "(PluginPackage, string list) constraint list" where
  "plugin_packages_constraints =
     [(''plugin_packages_pkey'', \<lambda>p. Some [pp_ManifestSHA256 p]),
      (''plugin_packages_plugin_id_version_key'', \<lambda>p. Some [pp_PluginID p, pp_Version p])]"

text \<open>\<^verbatim>\<open>length\<close> of a text column counts characters: the bytes that do not continue one.\<close>

definition continuation_byte :: "char \<Rightarrow> bool" where
  "continuation_byte c \<longleftrightarrow> (of_char c :: nat) div 64 = 2"

definition char_length :: "string \<Rightarrow> nat" where
  "char_length t = length (filter (\<lambda>c. \<not> continuation_byte c) t)"

definition observation_checks :: "PluginStatusObservation \<Rightarrow> bool" where
  "observation_checks o1 \<longleftrightarrow>
     (so_Failure o1 = '''' \<or> List.member [''plugin_status_unreachable'', ''plugin_status_invalid''] (so_Failure o1))
     \<and> (so_Detail o1 = '''' \<or> 1 \<le> char_length (so_Detail o1) \<and> char_length (so_Detail o1) \<le> 500)
     \<and> (so_PackageSHA256 o1 = '''' \<or> manifestDigest (so_PackageSHA256 o1))
     \<and> (case so_MigrationGeneration o1 of None \<Rightarrow> True | Some n \<Rightarrow> 0 \<le> n)
     \<and> (so_Failure o1 = '''' \<longleftrightarrow> so_Detail o1 = '''')
     \<and> (so_Failure o1 = '''' \<longleftrightarrow> so_InstallationID o1 \<noteq> None)
     \<and> (so_Failure o1 = '''' \<longleftrightarrow> so_PackageSHA256 o1 \<noteq> '''')
     \<and> (so_Failure o1 = '''' \<longleftrightarrow> so_MigrationGeneration o1 \<noteq> None)"

section \<open>Packages\<close>

definition GetPluginPackage :: "string \<Rightarrow> host \<Rightarrow> PluginPackage result" where
  "GetPluginPackage digest h =
     require_some (ErrNotFound ''The plugin package does not exist.'')
       (find (\<lambda>p. pp_ManifestSHA256 p = digest) (plugin_packages h))"

definition ListPluginPackages :: "host \<Rightarrow> PluginPackage list" where
  "ListPluginPackages h = sort_key (\<lambda>p. (pp_PluginID p, pp_CreatedAt p, pp_ManifestSHA256 p)) (plugin_packages h)"

definition InsertPluginPackage :: "PluginPackage \<Rightarrow> timestamp \<Rightarrow> host \<Rightarrow> host result" where
  "InsertPluginPackage item now h =
     fail_if (\<not> manifestDigest (pp_ManifestSHA256 item)) (ErrConstraint ''plugin_packages_manifest_sha256_check'')
    (try_then (map_error (\<lambda>e. if isUniqueViolation e [''plugin_packages_plugin_id_version_key'']
         then ErrConflict ''plugin_package_conflict'' ''This plugin version is already registered with a different manifest digest.''
         else e) (insert_row plugin_packages_constraints (item\<lparr>pp_CreatedAt := now\<rparr>) (plugin_packages h))) (\<lambda>rows.
     Inr (h\<lparr>plugin_packages := rows\<rparr>)))"

section \<open>Installations\<close>

definition scanPluginInstallation :: "host \<Rightarrow> installation_row \<Rightarrow> PluginInstallation" where
  "scanPluginInstallation h i =
     \<lparr>pi_InstallationID = in_installation_uuid i, pi_PluginID = in_plugin_id i, pi_PackageSHA256 = in_package_sha256 i,
      pi_TargetPackageSHA256 = in_target_package_sha256 i, pi_State = in_state i, pi_BackendURL = in_backend_url i,
      pi_UIOrigin = in_ui_origin i, pi_ServiceUserID = in_service_user_id i, pi_AdmissionCheckerID = in_admission_checker_id i,
      pi_OrganizationMode = in_organization_mode i, pi_DefaultTimezone = in_default_timezone i,
      pi_DefaultApprovalPolicies = in_default_approval_policies i, pi_Organizations = [],
      pi_CreatedAt = in_created_at i, pi_CreatedBy = in_created_by i, pi_UpdatedAt = in_updated_at i,
      pi_UpdatedBy = in_updated_by i, pi_Observation = map_of (status_observations h) (in_installation_uuid i)\<rparr>"

definition find_installation :: "uuid \<Rightarrow> host \<Rightarrow> installation_row option" where
  "find_installation u h = find (\<lambda>i. in_installation_uuid i = u) (plugin_installations h)"

text \<open>The state of a capability registration, from the row of the last reconciliation and the served package.\<close>

definition capability_registration :: "string \<Rightarrow> capability_registration_row option \<Rightarrow> PluginCapabilityRegistration" where
  "capability_registration served row =
     (let package = (case row of None \<Rightarrow> '''' | Some r \<Rightarrow> cg_package_sha256 r);
          failure = (case row of None \<Rightarrow> '''' | Some r \<Rightarrow> cg_failure r)
      in \<lparr>cs_State = (if package \<noteq> served then ''pending'' else if failure \<noteq> '''' then ''failed'' else ''registered''),
          cs_PackageSHA256 = package, cs_ReconciledAt = map_option cg_reconciled_at row,
          cs_Detail = (if package = served then failure else '''')\<rparr>)"

definition scan_enablement :: "host \<Rightarrow> installation_row \<Rightarrow> enablement_row \<Rightarrow> PluginEnablement" where
  "scan_enablement h i e =
     \<lparr>pl_OrgID = eb_org_id e, pl_State = eb_state e, pl_Timezone = eb_timezone e, pl_ApprovalPolicies = eb_approval_policies e,
      pl_CreatedAt = eb_created_at e, pl_CreatedBy = eb_created_by e, pl_UpdatedAt = eb_updated_at e, pl_UpdatedBy = eb_updated_by e,
      pl_CapabilityRegistration = capability_registration (in_package_sha256 i)
        (find (\<lambda>r. cg_plugin_id r = eb_plugin_id e \<and> cg_org_id r = eb_org_id e) (capability_registrations h))\<rparr>"

definition listPluginEnablements :: "uuid option \<Rightarrow> host \<Rightarrow> (uuid \<times> PluginEnablement) list" where
  "listPluginEnablements installation h =
     List.map_filter (\<lambda>e. map_option (\<lambda>i. (eb_installation_uuid e, scan_enablement h i e)) (find_installation (eb_installation_uuid e) h))
       (sort_key eb_org_id (filter (\<lambda>e. case installation of None \<Rightarrow> True | Some u \<Rightarrow> eb_installation_uuid e = u) (plugin_enablements h)))"

definition enablements_of :: "uuid \<Rightarrow> (uuid \<times> PluginEnablement) list \<Rightarrow> PluginEnablement list" where
  "enablements_of u rows = map snd (filter (\<lambda>(v, e). v = u) rows)"

definition GetPluginInstallation :: "uuid \<Rightarrow> host \<Rightarrow> PluginInstallation result" where
  "GetPluginInstallation u h =
     try_then (require_some (ErrNotFound ''The plugin installation does not exist.'') (find_installation u h)) (\<lambda>i.
     Inr ((scanPluginInstallation h i)\<lparr>pi_Organizations := enablements_of u (listPluginEnablements (Some u) h)\<rparr>))"

definition ListPluginInstallations :: "host \<Rightarrow> PluginInstallation list" where
  "ListPluginInstallations h =
     map (\<lambda>i. (scanPluginInstallation h i)\<lparr>pi_Organizations := enablements_of (in_installation_uuid i) (listPluginEnablements None h)\<rparr>)
       (sort_key (\<lambda>i. (in_plugin_id i, in_created_at i, in_installation_uuid i)) (plugin_installations h))"

definition new_installation_row :: "PluginInstallation \<Rightarrow> timestamp \<Rightarrow> installation_row" where
  "new_installation_row item now =
     \<lparr>in_installation_uuid = pi_InstallationID item, in_plugin_id = pi_PluginID item, in_package_sha256 = pi_PackageSHA256 item,
      in_target_package_sha256 = '''', in_state = pi_State item, in_backend_url = pi_BackendURL item, in_ui_origin = pi_UIOrigin item,
      in_service_user_id = '''', in_admission_checker_id = '''', in_organization_mode = ''selected'', in_default_timezone = ''UTC'',
      in_default_approval_policies = [], in_created_at = now, in_created_by = pi_CreatedBy item, in_updated_at = now,
      in_updated_by = pi_CreatedBy item\<rparr>"

definition InsertPluginInstallation :: "PluginInstallation \<Rightarrow> timestamp \<Rightarrow> host \<Rightarrow> host result" where
  "InsertPluginInstallation item now h =
     (let row = new_installation_row item now in
      fail_if (\<not> installation_checks row) (ErrConstraint ''plugin_installations_check'')
     (try_then (map_error (\<lambda>e.
          if isUniqueViolation e [''plugin_installations_one_per_plugin'']
          then ErrConflict ''plugin_installation_exists'' ''The plugin already has an installation. Resume, upgrade or reinstall that installation, or purge it first.''
          else if isUniqueViolation e [''plugin_installations_pkey'']
          then ErrConflict ''plugin_installation_exists'' ''The installation UUID is already assigned.'' else e)
        (insert_row plugin_installations_constraints row (plugin_installations h))) (\<lambda>rows.
      fail_if (\<not> package_known (pi_PluginID item) (pi_PackageSHA256 item) h) (ErrConstraint ''plugin_installations_plugin_id_package_sha256_fkey'')
     (Inr (h\<lparr>plugin_installations := rows\<rparr>)))))"

definition updated_installation_row :: "PluginInstallation \<Rightarrow> uuid \<Rightarrow> timestamp \<Rightarrow> installation_row \<Rightarrow> installation_row" where
  "updated_installation_row item actor now i =
     i\<lparr>in_state := pi_State item, in_package_sha256 := pi_PackageSHA256 item, in_target_package_sha256 := pi_TargetPackageSHA256 item,
       in_service_user_id := pi_ServiceUserID item, in_admission_checker_id := pi_AdmissionCheckerID item,
       in_organization_mode := pi_OrganizationMode item, in_default_timezone := pi_DefaultTimezone item,
       in_default_approval_policies := pi_DefaultApprovalPolicies item, in_updated_at := now, in_updated_by := actor\<rparr>"

text \<open>An update that matches no row changes nothing.\<close>

definition UpdatePluginInstallation :: "PluginInstallation \<Rightarrow> uuid \<Rightarrow> timestamp \<Rightarrow> host \<Rightarrow> host result" where
  "UpdatePluginInstallation item actor now h =
     (case find_installation (pi_InstallationID item) h of
        None \<Rightarrow> Inr h
      | Some i \<Rightarrow>
     (let row = updated_installation_row item actor now i in
      fail_if (\<not> installation_checks row) (ErrConstraint ''plugin_installations_check'')
     (fail_if (violates installations_one_per_plugin row
          (filter (\<lambda>j. in_installation_uuid j \<noteq> in_installation_uuid i) (plugin_installations h)))
        (ErrConstraint ''plugin_installations_one_per_plugin'')
     (fail_if (\<not> package_known (in_plugin_id row) (in_package_sha256 row) h) (ErrConstraint ''plugin_installations_plugin_id_package_sha256_fkey'')
     (fail_if (in_target_package_sha256 row \<noteq> '''' \<and> \<not> package_known (in_plugin_id row) (in_target_package_sha256 row) h)
        (ErrConstraint ''plugin_installations_target_package'')
     (Inr (h\<lparr>plugin_installations := upd_where (\<lambda>j. in_installation_uuid j = in_installation_uuid i) (\<lambda>_. row)
        (plugin_installations h)\<rparr>)))))))"

definition IsPluginInstallationServiceUser :: "uuid \<Rightarrow> host \<Rightarrow> bool" where
  "IsPluginInstallationServiceUser actor h \<longleftrightarrow> actor \<noteq> '''' \<and> list_ex (\<lambda>i. in_service_user_id i = actor) (plugin_installations h)"

definition PluginInstallationsServingAllOrganizations :: "host \<Rightarrow> uuid list" where
  "PluginInstallationsServingAllOrganizations h =
     sort (map in_installation_uuid (filter (\<lambda>i. in_organization_mode i = ''all'') (plugin_installations h)))"

definition PluginInstallationsEnabledFor :: "string \<Rightarrow> host \<Rightarrow> uuid list" where
  "PluginInstallationsEnabledFor org h =
     sort (map eb_installation_uuid (filter (\<lambda>e. eb_org_id e = org) (plugin_enablements h)))"

text \<open>The active organizations that have no enablement of the plugin. \<open>active\<close> lists the organizations of that status.\<close>

definition PluginOrganizationsWithoutEnablement :: "string list \<Rightarrow> string \<Rightarrow> host \<Rightarrow> string list" where
  "PluginOrganizationsWithoutEnablement active plugin h =
     sort (filter (\<lambda>org. \<not> list_ex (enablement_at plugin org) (plugin_enablements h)) active)"

section \<open>Observations\<close>

definition RecordPluginCapabilityReconciliation :: "capability_registration_row \<Rightarrow> host \<Rightarrow> host result" where
  "RecordPluginCapabilityReconciliation r h =
     (let here = (\<lambda>q. cg_plugin_id q = cg_plugin_id r \<and> cg_org_id q = cg_org_id r) in
      fail_if (cg_failure r \<noteq> '''' \<and> 500 < char_length (cg_failure r)) (ErrConstraint ''plugin_capability_registrations_failure_check'')
     (fail_if (\<not> List.member (orgs (core h)) (cg_org_id r)) (ErrConstraint ''plugin_capability_registrations_org_id_fkey'')
     (fail_if (\<not> package_known (cg_plugin_id r) (cg_package_sha256 r) h)
        (ErrConstraint ''plugin_capability_registrations_plugin_id_package_sha256_fkey'')
     (Inr (h\<lparr>capability_registrations :=
        (if list_ex here (capability_registrations h) then upd_where here (\<lambda>_. r) (capability_registrations h)
         else capability_registrations h @ [r])\<rparr>)))))"

definition RecordPluginStatusObservation :: "uuid \<Rightarrow> PluginStatusObservation \<Rightarrow> host \<Rightarrow> host result" where
  "RecordPluginStatusObservation u o1 h =
     fail_if (\<not> observation_checks o1) (ErrConstraint ''plugin_status_observations_check'')
    (fail_if (find_installation u h = None) (ErrConstraint ''plugin_status_observations_installation_uuid_fkey'')
    (Inr (h\<lparr>status_observations :=
       (case map_of (status_observations h) u of
          Some old \<Rightarrow> if so_ObservedAt old \<le> so_ObservedAt o1 then AList.update u o1 (status_observations h) else status_observations h
        | None \<Rightarrow> AList.update u o1 (status_observations h))\<rparr>)))"

section \<open>Unsettled work\<close>

record PluginWork =
  pw_Grants :: nat
  pw_Dispatches :: nat
  pw_Reservations :: nat

definition Settled :: "PluginWork \<Rightarrow> bool" where
  "Settled w \<longleftrightarrow> w = \<lparr>pw_Grants = 0, pw_Dispatches = 0, pw_Reservations = 0\<rparr>"

definition UnsettledPluginWork :: "string \<Rightarrow> host \<Rightarrow> PluginWork" where
  "UnsettledPluginWork plugin h =
     \<lparr>pw_Grants = length (filter (\<lambda>g. gr_PluginID g = plugin \<and> gr_State g \<noteq> ''released'') (grants (core h))),
      pw_Dispatches = length (filter (\<lambda>d. ed_PluginID (di_intent d) = plugin \<and> di_state d \<noteq> DispatchSettled) (dispatches (core h))),
      pw_Reservations = length (filter (\<lambda>r. eo_plugin_id r = plugin \<and> eo_state r = ''active'') (module_operations (core h)))\<rparr>"

section \<open>The snapshot of a replica\<close>

definition listPluginRegistrations :: "host \<Rightarrow> (uuid \<times> PluginRegistration) list" where
  "listPluginRegistrations h =
     map (\<lambda>r. (rr_installation_uuid r, rr_registration r))
       (sort_key (\<lambda>r. (rr_installation_uuid r, rg_Kind (rr_registration r), rg_Key (rr_registration r))) (plugin_registrations h))"

fun snapshot_installations :: "host \<Rightarrow> PluginInstallation list \<Rightarrow> PluginSnapshotInstallation list result" where
  "snapshot_installations h [] = Inr []"
| "snapshot_installations h (i # is) =
     (if pi_State i \<noteq> ''active'' \<and> pi_State i \<noteq> ''disabled'' then snapshot_installations h is
      else try_then (GetPluginPackage (pi_PackageSHA256 i) h) (\<lambda>package.
           try_then (snapshot_installations h is) (\<lambda>rest.
           Inr (\<lparr>ps_Installation = i, ps_Package = package,
             ps_Registrations = map snd (filter (\<lambda>(u, r). u = pi_InstallationID i) (listPluginRegistrations h))\<rparr> # rest))))"

definition LoadPluginManagerSnapshot :: "int \<Rightarrow> host \<Rightarrow> PluginManagerSnapshot result" where
  "LoadPluginManagerSnapshot revision h =
     try_then (snapshot_installations h (ListPluginInstallations h)) (\<lambda>items.
     Inr \<lparr>sn_Revision = revision, sn_Installations = items\<rparr>)"

section \<open>The check of an effect\<close>

record PluginUse =
  us_OrgID :: string
  us_PluginID :: string
  us_InstallationID :: string
  us_PackageSHA256 :: string
  us_Safety :: bool

definition use_enablement :: "PluginUse \<Rightarrow> host \<Rightarrow> (installation_row \<times> enablement_row) option" where
  "use_enablement use h =
     (case find (enablement_at (us_PluginID use) (us_OrgID use)) (plugin_enablements h) of
        None \<Rightarrow> None
      | Some e \<Rightarrow>
     (case find_installation (eb_installation_uuid e) h of
        None \<Rightarrow> None
      | Some i \<Rightarrow>
          if in_installation_uuid i = us_InstallationID use \<and> in_package_sha256 i = us_PackageSHA256 use \<and> served_state (in_state i)
          then Some (i, e) else None))"

definition RequirePluginEnablement :: "PluginUse \<Rightarrow> host \<Rightarrow> unit result" where
  "RequirePluginEnablement use h =
     (case use_enablement use h of
        None \<Rightarrow> Inl (ErrConflict ''plugin_not_installed'' ''The plugin installation is no longer installed and enabled for this organization.'')
      | Some (i, e) \<Rightarrow>
          fail_if (\<not> us_Safety use \<and> (in_state i \<noteq> ''active'' \<or> eb_state e \<noteq> ''enabled''))
            (ErrConflict ''plugin_not_enabled'' ''The plugin is not enabled for this organization.'') (Inr ()))"

lemma RequirePluginEnablement_Inr:
  "RequirePluginEnablement use h = Inr () \<longleftrightarrow> (\<exists>i e. use_enablement use h = Some (i, e)
     \<and> (us_Safety use \<or> in_state i = ''active'' \<and> eb_state e = ''enabled''))"
  by (auto simp: RequirePluginEnablement_def split: option.splits)

lemma use_enablement_Some:
  "use_enablement use h = Some (i, e) \<longleftrightarrow>
     find (enablement_at (us_PluginID use) (us_OrgID use)) (plugin_enablements h) = Some e
     \<and> find_installation (eb_installation_uuid e) h = Some i
     \<and> in_installation_uuid i = us_InstallationID use \<and> in_package_sha256 i = us_PackageSHA256 use \<and> served_state (in_state i)"
  by (auto simp: use_enablement_def split: option.splits)

end
