(* ===== verification/Verifier.thy ===== *)
theory Verifier
  imports PluginManifest
begin

text \<open>
  Offline verification of entitlement grants and revocation snapshots (\<^verbatim>\<open>internal/entitlements/verifier.go\<close>).
  A document is a COSE envelope around a CBOR claim map. The CBOR and COSE libraries, SHA-256 and the Ed25519
  check are parameters: one field of \<open>cose_library\<close> for each way in which the code calls them. Bytes are lists
  of characters.

  The theory shows what an accepted grant is: signed by exactly one pinned key of an issuer that is trusted for
  the plugin, of the class and the times that were asked for, for the binding that was asked for. It also shows
  that the encoding is unique: two accepted grants with the same claims, key and signature are the same bytes, so
  that the digest identifies the grant.
\<close>

section \<open>The library\<close>

text \<open>The values that the code encodes, and what it decodes bytes into.\<close>

datatype cbor =
    CInt int
  | CBytes string
  | CText string
  | CArray "cbor list"
  | CMap "(cbor \<times> cbor) list"
  | CTag nat cbor

record cose_library =
  co_marshal :: "cbor \<Rightarrow> string"
  co_parts :: "string \<Rightarrow> string list option"
  co_labels :: "string \<Rightarrow> (nat \<times> string) list option"
  co_uint :: "string \<Rightarrow> nat option"
  co_int :: "string \<Rightarrow> int option"
  co_bytes :: "string \<Rightarrow> string option"
  co_text :: "string \<Rightarrow> string option"
  co_texts :: "string \<Rightarrow> string list option"
  co_byte_strings :: "string \<Rightarrow> string list option"
  co_numbers :: "string \<Rightarrow> (string \<times> nat) list option"
  co_message :: "string \<Rightarrow> bool"
  co_verifier :: "string \<Rightarrow> bool"
  co_signed :: "string \<Rightarrow> string \<Rightarrow> bool"
  co_sha256 :: "string \<Rightarrow> string"

definition invalid_document :: "string \<Rightarrow> 'a result" where
  "invalid_document message = Inl (ErrInternal message)"

definition MaxEnvelopeBytes :: nat where "MaxEnvelopeBytes = 65536"
definition MaxInt64 :: nat where "MaxInt64 = 9223372036854775807"

definition decodeMajor :: "string \<Rightarrow> nat \<Rightarrow> (string \<Rightarrow> 'a option) \<Rightarrow> 'a result" where
  "decodeMajor bytes major unmarshal =
     (case bytes of
        [] \<Rightarrow> invalid_document ''unexpected CBOR type''
      | b # _ \<Rightarrow>
          if of_char b div 32 \<noteq> major then invalid_document ''unexpected CBOR type''
          else (case unmarshal bytes of None \<Rightarrow> invalid_document ''cbor'' | Some v \<Rightarrow> Inr v))"

section \<open>Documents and trust\<close>

definition Production :: string where "Production = ''production''"
definition Development :: string where "Development = ''development''"
definition GrantPurpose :: string where "GrantPurpose = ''grant''"
definition RevocationPurpose :: string where "RevocationPurpose = ''revocation''"
definition LimitOrganizations :: string where "LimitOrganizations = ''organizations''"

record Key =
  ky_ID :: string
  ky_PublicKey :: string
  ky_Purposes :: "string list"
  ky_ValidFrom :: int
  ky_ValidUntil :: int

record Issuer =
  is_ID :: string
  is_PluginIDs :: "string list"
  is_Keys :: "Key list"

record TrustStore =
  ts_Class :: string
  ts_Issuers :: "Issuer list"

record Binding =
  bi_PluginID :: string
  bi_InstallationID :: uuid
  bi_OrganizationID :: uuid
  bi_DeclaredFeatures :: "string list"

record Grant =
  gt_Envelope :: string
  gt_Issuer :: string
  gt_KeyID :: string
  gt_IssuanceID :: uuid
  gt_Sequence :: int
  gt_PluginID :: string
  gt_InstallationID :: uuid
  gt_OrganizationID :: uuid
  gt_Features :: "string list"
  gt_EffectiveFeatures :: "string list"
  gt_OrganizationLimit :: int
  gt_IssuedAt :: int
  gt_NotBefore :: int
  gt_ExpiresAt :: int
  gt_GraceUntil :: int
  gt_TrustClass :: string
  gt_Digest :: string

record Revocations =
  rv_Envelope :: string
  rv_Issuer :: string
  rv_KeyID :: string
  rv_Sequence :: int
  rv_IssuedAt :: int
  rv_IssuanceIDs :: "uuid list"
  rv_TrustClass :: string
  rv_Digest :: string

definition InstallationWide :: "Grant \<Rightarrow> bool" where
  "InstallationWide g \<longleftrightarrow> gt_OrganizationID g = Nil_uuid"

section \<open>Texts\<close>

definition plugin_segment :: "string \<Rightarrow> bool" where
  "plugin_segment t = (case t of [] \<Rightarrow> False | c # w \<Rightarrow> is_lower_char c \<and> list_all (\<lambda>x. is_slug_char x \<or> x = CHR ''-'') w)"

definition pluginID :: "string \<Rightarrow> bool" where
  "pluginID t \<longleftrightarrow> length (split_on CHR ''.'' t) \<ge> 2 \<and> list_all plugin_segment (split_on CHR ''.'' t)"

definition asciiIdentifier :: "string \<Rightarrow> bool" where
  "asciiIdentifier t \<longleftrightarrow> t \<noteq> [] \<and> length t \<le> 128 \<and> list_all (\<lambda>c. CHR ''!'' \<le> c \<and> c \<le> CHR ''~'') t"

text \<open>The text of a UUID of 16 bytes.\<close>

definition hex_digit :: "nat \<Rightarrow> char" where
  "hex_digit n = ''0123456789abcdef'' ! n"

definition hex_text :: "string \<Rightarrow> string" where
  "hex_text bs = concat (map (\<lambda>b. [hex_digit (of_char b div 16), hex_digit (of_char b mod 16)]) bs)"

definition uuid_text :: "string \<Rightarrow> uuid" where
  "uuid_text bs = hex_text (take 4 bs) @ ''-'' @ hex_text (take 2 (drop 4 bs)) @ ''-'' @ hex_text (take 2 (drop 6 bs)) @ ''-''
     @ hex_text (take 2 (drop 8 bs)) @ ''-'' @ hex_text (drop 10 bs)"

definition parseUUID :: "string \<Rightarrow> uuid result" where
  "parseUUID bytes =
     (if length bytes \<noteq> 16 then invalid_document ''UUID claim must be 16 bytes''
      else (let version = (of_char (bytes ! 6) :: nat) div 16; variant = (of_char (bytes ! 8) :: nat) div 64 in
        if uuid_text bytes = Nil_uuid \<or> variant \<noteq> 2 \<or> version = 0 \<or> version > 8 then invalid_document ''invalid canonical UUID''
        else Inr (uuid_text bytes)))"

section \<open>Envelopes\<close>

definition header_value :: "string \<Rightarrow> cbor" where
  "header_value kid = CMap [(CInt 1, CInt (- 8)), (CInt 4, CBytes kid)]"

definition envelope_value :: "string \<Rightarrow> string \<Rightarrow> string \<Rightarrow> cbor" where
  "envelope_value protected payload signature = CTag 18 (CArray [CBytes protected, CMap [], CBytes payload, CBytes signature])"

definition fail_unless :: "bool \<Rightarrow> string \<Rightarrow> 'a result \<Rightarrow> 'a result" where
  "fail_unless c message k = (if c then k else invalid_document message)"

lemma fail_unless_Inr_iff [simp, result_simps]: "fail_unless c message k = Inr y \<longleftrightarrow> c \<and> k = Inr y"
  by (simp add: fail_unless_def invalid_document_def)

lemma invalid_document_Inr [simp]: "invalid_document message \<noteq> Inr y"
  by (simp add: invalid_document_def)

definition label_value :: "(nat \<times> string) list \<Rightarrow> nat \<Rightarrow> string" where
  "label_value m k = (case map_of m k of None \<Rightarrow> [] | Some v \<Rightarrow> v)"

text \<open>The result is the key ID and the payload; the message that is verified later is determined by \<open>bytes\<close>.\<close>

definition decodeEnvelope :: "cose_library \<Rightarrow> string \<Rightarrow> (string \<times> string) result" where
  "decodeEnvelope lib bytes =
     fail_unless (bytes \<noteq> [] \<and> length bytes \<le> MaxEnvelopeBytes \<and> hd bytes = CHR 0xD2)
       ''entitlement requires bounded, minimally tagged COSE_Sign1''
    (case co_parts lib (tl bytes) of
       Some [p0, p1, p2, p3] \<Rightarrow>
         try_then (decodeMajor p0 2 (co_bytes lib)) (\<lambda>protected.
         fail_unless (p1 = [CHR 0xA0]) ''unprotected header must be empty''
        (try_then (decodeMajor p2 2 (co_bytes lib)) (\<lambda>payload.
         try_then (decodeMajor p3 2 (co_bytes lib)) (\<lambda>signature.
         fail_unless (length signature = 64) ''invalid Ed25519 signature length''
        (try_then (decodeMajor protected 5 (co_labels lib)) (\<lambda>header.
         fail_unless (length header = 2) ''protected header must contain only alg and kid''
        (try_then (decodeMajor (label_value header 1) 1 (co_int lib)) (\<lambda>algorithm.
         fail_unless (algorithm = - 8) ''protected algorithm must be EdDSA''
        (try_then (decodeMajor (label_value header 4) 2 (co_bytes lib)) (\<lambda>kid.
         fail_unless (1 \<le> length kid \<and> length kid \<le> 64) ''protected key ID must be 1..64 bytes''
        (fail_unless (protected = co_marshal lib (header_value kid)) ''non-deterministic protected header''
        (fail_unless (bytes = co_marshal lib (envelope_value protected payload signature)) ''non-deterministic COSE envelope''
        (fail_unless (co_message lib bytes) ''COSE decode''
        (Inr (kid, payload)))))))))))))))
     | _ \<Rightarrow> invalid_document ''invalid COSE_Sign1 array'')"

definition verify :: "cose_library \<Rightarrow> string \<Rightarrow> string \<Rightarrow> unit result" where
  "verify lib bytes key =
     fail_unless (co_verifier lib key) ''invalid issuer key''
    (fail_unless (co_signed lib bytes key) ''invalid entitlement signature''
    (Inr ()))"

section \<open>Claims\<close>

definition decodeMap :: "cose_library \<Rightarrow> string \<Rightarrow> nat \<Rightarrow> nat list \<Rightarrow> (nat \<times> string) list result" where
  "decodeMap lib bytes labels optional =
     try_then (decodeMajor bytes 5 (co_labels lib)) (\<lambda>claims.
     fail_unless (list_all (\<lambda>label. 1 \<le> label \<and> label \<le> labels) (map fst claims)) ''missing or unknown entitlement claim''
    (fail_unless (list_all (\<lambda>label. List.member (map fst claims) label \<or> List.member optional label) [1..<Suc labels])
       ''missing or unknown entitlement claim''
    (Inr claims)))"

definition claim :: "(nat \<times> string) list \<Rightarrow> nat \<Rightarrow> nat \<Rightarrow> (string \<Rightarrow> 'a option) \<Rightarrow> 'a result" where
  "claim claims label major unmarshal = decodeMajor (label_value claims label) major unmarshal"

definition sortedSlugs :: "string list \<Rightarrow> bool" where
  "sortedSlugs fs \<longleftrightarrow> sorted_slugs fs"

text \<open>\<open>asciiIdentifier (Issuer)\<close>, a sequence from 1 to \<^verbatim>\<open>MaxInt64\<close>, a second up to \<^verbatim>\<open>MaxInt64\<close>.\<close>

definition bounded_claim :: "cose_library \<Rightarrow> (nat \<times> string) list \<Rightarrow> nat \<Rightarrow> nat \<Rightarrow> string \<Rightarrow> nat result" where
  "bounded_claim lib claims label low message =
     (case claim claims label 0 (co_uint lib) of
        Inl e \<Rightarrow> invalid_document message
      | Inr v \<Rightarrow> fail_unless (low \<le> v \<and> v \<le> MaxInt64) message (Inr v))"

definition checked_claim :: "'a result \<Rightarrow> ('a \<Rightarrow> bool) \<Rightarrow> string \<Rightarrow> 'a result" where
  "checked_claim found ok message =
     (case found of Inl e \<Rightarrow> invalid_document message | Inr v \<Rightarrow> fail_unless (ok v) message (Inr v))"

lemma bounded_claim_Inr_iff [simp]:
  "bounded_claim lib claims label low message = Inr v
     \<longleftrightarrow> claim claims label 0 (co_uint lib) = Inr v \<and> low \<le> v \<and> v \<le> MaxInt64"
  by (auto simp: bounded_claim_def split: sum.splits)

lemma checked_claim_Inr_iff [simp]:
  "checked_claim found ok message = Inr v \<longleftrightarrow> found = Inr v \<and> ok v"
  by (auto simp: checked_claim_def split: sum.splits)

text \<open>The loop over the limits.\<close>

fun grant_limits :: "(string \<times> nat) list \<Rightarrow> int \<Rightarrow> int result" where
  "grant_limits [] limit = Inr limit"
| "grant_limits ((name, v) # rest) limit =
     fail_unless (name = LimitOrganizations \<and> v \<noteq> 0 \<and> v \<le> MaxInt64) ''unsupported grant limits'' (grant_limits rest (int v))"

definition grant_claims ::
    "string \<Rightarrow> string \<Rightarrow> nat \<Rightarrow> string \<Rightarrow> string \<Rightarrow> string option \<Rightarrow> string list \<Rightarrow> (string \<times> nat) list
       \<Rightarrow> nat \<Rightarrow> nat \<Rightarrow> nat \<Rightarrow> nat \<Rightarrow> string \<Rightarrow> cbor" where
  "grant_claims issuer issuance sequence plugin installation organization features limits issued notBefore expires graceUntil class =
     CMap ([(CInt 1, CInt 1), (CInt 2, CText ''grant''), (CInt 3, CText issuer), (CInt 4, CBytes issuance),
            (CInt 5, CInt (int sequence)), (CInt 6, CText plugin), (CInt 7, CBytes installation)]
       @ (case organization of None \<Rightarrow> [] | Some org \<Rightarrow> [(CInt 8, CBytes org)])
       @ [(CInt 9, CArray (map CText features)),
          (CInt 10, CMap (map (\<lambda>(name, v). (CText name, CInt (int v))) limits)),
          (CInt 11, CInt (int issued)), (CInt 12, CInt (int notBefore)), (CInt 13, CInt (int expires)),
          (CInt 14, CInt (int graceUntil)), (CInt 15, CText class)])"

definition optional_uuid :: "string option \<Rightarrow> uuid result" where
  "optional_uuid bs = (case bs of None \<Rightarrow> Inr Nil_uuid | Some b \<Rightarrow> parseUUID b)"

text \<open>Claim 8, the organization, is the only optional one.\<close>

definition decodeGrant :: "cose_library \<Rightarrow> string \<Rightarrow> Grant result" where
  "decodeGrant lib document =
     try_then (decodeMap lib document 15 [8]) (\<lambda>values.
     try_then (checked_claim (claim values 1 0 (co_uint lib)) (\<lambda>v. v = 1) ''unsupported grant schema'') (\<lambda>version.
     try_then (checked_claim (claim values 2 3 (co_text lib)) (\<lambda>k. k = ''grant'') ''wrong entitlement kind'') (\<lambda>kind.
     try_then (checked_claim (claim values 3 3 (co_text lib)) asciiIdentifier ''invalid issuer'') (\<lambda>issuer.
     try_then (claim values 4 2 (co_bytes lib)) (\<lambda>issuance.
     try_then (parseUUID issuance) (\<lambda>issuanceID.
     try_then (bounded_claim lib values 5 1 ''invalid grant sequence'') (\<lambda>sequence.
     try_then (checked_claim (claim values 6 3 (co_text lib)) (\<lambda>p. length p \<le> 255 \<and> pluginID p) ''invalid plugin ID'') (\<lambda>plugin.
     try_then (claim values 7 2 (co_bytes lib)) (\<lambda>installation.
     try_then (parseUUID installation) (\<lambda>installationID.
     try_then (if map_of values 8 = None then Inr None else map_sum id Some (claim values 8 2 (co_bytes lib))) (\<lambda>organization.
     try_then (optional_uuid organization) (\<lambda>organizationID.
     try_then (checked_claim (claim values 9 4 (co_texts lib)) (\<lambda>fs. 1 \<le> length fs \<and> length fs \<le> 64 \<and> sortedSlugs fs)
       ''invalid grant features'') (\<lambda>features.
     try_then (checked_claim (claim values 10 5 (co_numbers lib)) (\<lambda>_. True) ''unsupported grant limits'') (\<lambda>limits.
     try_then (grant_limits limits 0) (\<lambda>limit.
     fail_unless (\<not> (limit \<noteq> 0 \<and> organization \<noteq> None)) ''the organization limit belongs to installation-wide grants''
    (try_then (bounded_claim lib values 11 0 ''invalid issued_at'') (\<lambda>issued.
     try_then (bounded_claim lib values 12 0 ''invalid not_before'') (\<lambda>notBefore.
     try_then (bounded_claim lib values 13 0 ''invalid expires_at'') (\<lambda>expires.
     try_then (bounded_claim lib values 14 0 ''invalid grant time order'') (\<lambda>graceUntil.
     fail_unless (issued \<le> notBefore \<and> notBefore < expires \<and> expires \<le> graceUntil) ''invalid grant time order''
    (try_then (checked_claim (claim values 15 3 (co_text lib)) (\<lambda>c. c = Production \<or> c = Development)
       ''invalid signed grant trust class'') (\<lambda>class.
     fail_unless (document = co_marshal lib (grant_claims issuer issuance sequence plugin installation organization features limits
         issued notBefore expires graceUntil class)) ''non-deterministic grant payload''
    (Inr \<lparr>gt_Envelope = [], gt_Issuer = issuer, gt_KeyID = [], gt_IssuanceID = issuanceID, gt_Sequence = int sequence,
       gt_PluginID = plugin, gt_InstallationID = installationID, gt_OrganizationID = organizationID, gt_Features = features,
       gt_EffectiveFeatures = [], gt_OrganizationLimit = limit, gt_IssuedAt = int issued, gt_NotBefore = int notBefore,
       gt_ExpiresAt = int expires, gt_GraceUntil = int graceUntil, gt_TrustClass = class, gt_Digest = []\<rparr>)))))))))))))))))))))))"

text \<open>The loop over the revoked IDs: every ID is parsed and compared with the ID before it.\<close>

fun revoked_ids :: "string option \<Rightarrow> string list \<Rightarrow> uuid list result" where
  "revoked_ids previous [] = Inr []"
| "revoked_ids previous (b # bs) =
     try_then (parseUUID b) (\<lambda>parsed.
     fail_unless (case previous of None \<Rightarrow> True | Some p \<Rightarrow> p < b) ''revocation IDs must be sorted and unique''
    (try_then (revoked_ids (Some b) bs) (\<lambda>rest. Inr (parsed # rest))))"

definition revocation_claims :: "string \<Rightarrow> nat \<Rightarrow> nat \<Rightarrow> string list \<Rightarrow> string \<Rightarrow> cbor" where
  "revocation_claims issuer sequence issued ids class =
     CMap [(CInt 1, CInt 1), (CInt 2, CText ''revocations''), (CInt 3, CText issuer), (CInt 4, CInt (int sequence)),
       (CInt 5, CInt (int issued)), (CInt 6, CArray (map CBytes ids)), (CInt 7, CText class)]"

definition decodeRevocations :: "cose_library \<Rightarrow> string \<Rightarrow> Revocations result" where
  "decodeRevocations lib document =
     try_then (decodeMap lib document 7 []) (\<lambda>values.
     try_then (checked_claim (claim values 1 0 (co_uint lib)) (\<lambda>v. v = 1) ''unsupported revocation schema'') (\<lambda>version.
     try_then (checked_claim (claim values 2 3 (co_text lib)) (\<lambda>k. k = ''revocations'') ''wrong entitlement kind'') (\<lambda>kind.
     try_then (checked_claim (claim values 3 3 (co_text lib)) asciiIdentifier ''invalid issuer'') (\<lambda>issuer.
     try_then (bounded_claim lib values 4 1 ''invalid revocation sequence'') (\<lambda>sequence.
     try_then (bounded_claim lib values 5 0 ''invalid issued_at'') (\<lambda>issued.
     try_then (claim values 6 4 (co_byte_strings lib)) (\<lambda>ids.
     try_then (revoked_ids None ids) (\<lambda>issuances.
     try_then (checked_claim (claim values 7 3 (co_text lib)) (\<lambda>c. c = Production \<or> c = Development)
       ''invalid signed revocation trust class'') (\<lambda>class.
     fail_unless (document = co_marshal lib (revocation_claims issuer sequence issued ids class)) ''non-deterministic revocation payload''
    (Inr \<lparr>rv_Envelope = [], rv_Issuer = issuer, rv_KeyID = [], rv_Sequence = int sequence, rv_IssuedAt = int issued,
       rv_IssuanceIDs = issuances, rv_TrustClass = class, rv_Digest = []\<rparr>))))))))))"

section \<open>Verification\<close>

definition validateBinding :: "Binding \<Rightarrow> unit result" where
  "validateBinding b =
     fail_unless (length (bi_PluginID b) \<le> 255 \<and> pluginID (bi_PluginID b) \<and> bi_InstallationID b \<noteq> Nil_uuid)
       ''invalid expected entitlement binding''
    (fail_unless (sortedSlugs (bi_DeclaredFeatures b)) ''invalid declared features''
    (Inr ()))"

definition key_fits :: "string \<Rightarrow> int \<Rightarrow> Key \<Rightarrow> bool" where
  "key_fits purpose issuedAt k \<longleftrightarrow>
     length (ky_PublicKey k) = 32 \<and> List.member (ky_Purposes k) purpose \<and> 0 \<le> ky_ValidFrom k \<and> ky_ValidFrom k \<le> issuedAt
     \<and> (ky_ValidUntil k = 0 \<or> (ky_ValidFrom k < ky_ValidUntil k \<and> issuedAt < ky_ValidUntil k))"

text \<open>The two loops of \<^verbatim>\<open>selectKey\<close>.\<close>

fun select_keys :: "string \<Rightarrow> string \<Rightarrow> int \<Rightarrow> Key list \<Rightarrow> string option \<Rightarrow> string option result" where
  "select_keys kid purpose issuedAt [] found = Inr found"
| "select_keys kid purpose issuedAt (k # ks) found =
     (if ky_ID k \<noteq> kid then select_keys kid purpose issuedAt ks found
      else if found \<noteq> None then invalid_document ''ambiguous issuer key''
      else if \<not> key_fits purpose issuedAt k then invalid_document ''issuer key is invalid for document''
      else select_keys kid purpose issuedAt ks (Some (ky_PublicKey k)))"

fun select_issuers :: "string \<Rightarrow> string \<Rightarrow> string \<Rightarrow> string \<Rightarrow> int \<Rightarrow> Issuer list \<Rightarrow> string option \<Rightarrow> string option result" where
  "select_issuers issuer kid purpose plugin issuedAt [] found = Inr found"
| "select_issuers issuer kid purpose plugin issuedAt (i # is) found =
     (if is_ID i \<noteq> issuer then select_issuers issuer kid purpose plugin issuedAt is found
      else if plugin \<noteq> [] \<and> \<not> List.member (is_PluginIDs i) plugin then invalid_document ''issuer not authorized for plugin''
      else try_then (select_keys kid purpose issuedAt (is_Keys i) found)
        (select_issuers issuer kid purpose plugin issuedAt is))"

definition selectKey :: "TrustStore \<Rightarrow> string \<Rightarrow> string \<Rightarrow> string \<Rightarrow> string \<Rightarrow> string \<Rightarrow> int \<Rightarrow> string result" where
  "selectKey trust mode issuer kid purpose plugin issuedAt =
     fail_unless ((mode = Production \<or> mode = Development) \<and> ts_Class trust = mode) ''entitlement trust class mismatch''
    (try_then (select_issuers issuer kid purpose plugin issuedAt (ts_Issuers trust) None) (\<lambda>found.
     case found of None \<Rightarrow> invalid_document ''unknown entitlement issuer or key'' | Some key \<Rightarrow> Inr key))"

definition checkIssuedAt :: "int \<Rightarrow> int \<Rightarrow> unit result" where
  "checkIssuedAt issuedAt seconds =
     fail_unless (\<not> (seconds < 0 \<or> (issuedAt > seconds \<and> issuedAt - seconds > 30)))
       ''entitlement issued_at exceeds import clock skew'' (Inr ())"

definition VerifyGrant :: "cose_library \<Rightarrow> string \<Rightarrow> TrustStore \<Rightarrow> string \<Rightarrow> Binding \<Rightarrow> int \<Rightarrow> Grant result" where
  "VerifyGrant lib document trust mode b now =
     try_then (validateBinding b) (\<lambda>_.
     try_then (decodeEnvelope lib document) (\<lambda>(kid, payload).
     try_then (decodeGrant lib payload) (\<lambda>g.
     try_then (selectKey trust mode (gt_Issuer g) kid GrantPurpose (gt_PluginID g) (gt_IssuedAt g)) (\<lambda>key.
     try_then (verify lib document key) (\<lambda>_.
     fail_unless (gt_TrustClass g = mode) ''signed entitlement trust class does not match verifier mode''
    (fail_unless (gt_PluginID g = bi_PluginID b \<and> gt_InstallationID g = bi_InstallationID b
        \<and> (InstallationWide g \<or> gt_OrganizationID g = bi_OrganizationID b)) ''entitlement binding mismatch''
    (try_then (checkIssuedAt (gt_IssuedAt g) now) (\<lambda>_.
     Inr (g\<lparr>gt_KeyID := kid, gt_Envelope := document, gt_Digest := co_sha256 lib document,
            gt_EffectiveFeatures := filter (\<lambda>f. List.member (bi_DeclaredFeatures b) f) (gt_Features g)\<rparr>)))))))))"

definition VerifyRevocations :: "cose_library \<Rightarrow> string \<Rightarrow> TrustStore \<Rightarrow> string \<Rightarrow> int \<Rightarrow> Revocations result" where
  "VerifyRevocations lib document trust mode now =
     try_then (decodeEnvelope lib document) (\<lambda>(kid, payload).
     try_then (decodeRevocations lib payload) (\<lambda>r.
     try_then (selectKey trust mode (rv_Issuer r) kid RevocationPurpose [] (rv_IssuedAt r)) (\<lambda>key.
     try_then (verify lib document key) (\<lambda>_.
     fail_unless (rv_TrustClass r = mode) ''signed revocation trust class does not match verifier mode''
    (try_then (checkIssuedAt (rv_IssuedAt r) now) (\<lambda>_.
     Inr (r\<lparr>rv_KeyID := kid, rv_Envelope := document, rv_Digest := co_sha256 lib document\<rparr>)))))))"

datatype TimeState = NotYetValid | Valid | Grace | Expired

definition EvaluateTime :: "Grant \<Rightarrow> int \<Rightarrow> TimeState" where
  "EvaluateTime g effectiveNow =
     (if effectiveNow < gt_NotBefore g then NotYetValid
      else if effectiveNow < gt_ExpiresAt g then Valid
      else if effectiveNow < gt_GraceUntil g then Grace
      else Expired)"

section \<open>The key of a document\<close>

text \<open>The pinned keys with an ID, over all issuers of a name.\<close>

definition pinned_keys :: "TrustStore \<Rightarrow> string \<Rightarrow> string \<Rightarrow> Key list" where
  "pinned_keys trust issuer kid =
     filter (\<lambda>k. ky_ID k = kid) (concat (map is_Keys (filter (\<lambda>i. is_ID i = issuer) (ts_Issuers trust))))"

lemma invalid_document_Inl: "invalid_document message = Inl (ErrInternal message)"
  by (simp add: invalid_document_def)

lemma select_keys_Inr:
  "select_keys kid purpose issuedAt ks found = Inr found' \<Longrightarrow>
     (if found = None then filter (\<lambda>k. ky_ID k = kid) ks = [] \<and> found' = None
        \<or> (\<exists>k. filter (\<lambda>k. ky_ID k = kid) ks = [k] \<and> key_fits purpose issuedAt k \<and> found' = Some (ky_PublicKey k))
      else filter (\<lambda>k. ky_ID k = kid) ks = [] \<and> found' = found)"
  by (induction kid purpose issuedAt ks found rule: select_keys.induct) (auto split: if_splits)

lemma select_issuers_Inr:
  "select_issuers issuer kid purpose plugin issuedAt is found = Inr found' \<Longrightarrow>
     (let keys = filter (\<lambda>k. ky_ID k = kid) (concat (map is_Keys (filter (\<lambda>i. is_ID i = issuer) is))) in
      if found = None then keys = [] \<and> found' = None
        \<or> (\<exists>k. keys = [k] \<and> key_fits purpose issuedAt k \<and> found' = Some (ky_PublicKey k))
      else keys = [] \<and> found' = found)
     \<and> (plugin \<noteq> [] \<longrightarrow> (\<forall>i\<in>set is. is_ID i = issuer \<longrightarrow> plugin \<in> set (is_PluginIDs i)))"
proof (induction "is" arbitrary: found)
  case (Cons i "is")
  show ?case
  proof (cases "is_ID i = issuer")
    case True
    with Cons.prems obtain found1 where
      keys: "select_keys kid purpose issuedAt (is_Keys i) found = Inr found1" and
      rest: "select_issuers issuer kid purpose plugin issuedAt is found1 = Inr found'" and
      auth: "plugin = [] \<or> plugin \<in> set (is_PluginIDs i)"
      by (auto split: if_splits simp: try_then_Inr_iff)
    from select_keys_Inr [OF keys] Cons.IH [OF rest] auth True show ?thesis
      by (auto simp: Let_def split: if_splits)
  next
    case False
    with Cons show ?thesis by (auto simp: Let_def split: if_splits)
  qed
qed (auto simp: Let_def)

lemma selectKey_Inr:
  assumes "selectKey trust mode issuer kid purpose plugin issuedAt = Inr key"
  shows "ts_Class trust = mode" "mode = Production \<or> mode = Development"
    "\<exists>k. pinned_keys trust issuer kid = [k] \<and> key_fits purpose issuedAt k \<and> key = ky_PublicKey k"
    "plugin \<noteq> [] \<Longrightarrow> \<forall>i\<in>set (ts_Issuers trust). is_ID i = issuer \<longrightarrow> plugin \<in> set (is_PluginIDs i)"
  using assms
  by (auto simp: selectKey_def try_then_Inr_iff pinned_keys_def Let_def split: option.splits dest!: select_issuers_Inr)

lemma unit_Ex: "(\<exists>x::unit. P x) \<longleftrightarrow> P ()"
  by auto

lemma pluginID_not_empty: "pluginID p \<Longrightarrow> p \<noteq> []"
  by (auto simp: pluginID_def)

text \<open>What the decoder of a grant gives.\<close>

lemma decodeGrant_Inr:
  assumes "decodeGrant lib document = Inr g"
  shows "0 \<le> gt_IssuedAt g \<and> gt_IssuedAt g \<le> gt_NotBefore g \<and> gt_NotBefore g < gt_ExpiresAt g
           \<and> gt_ExpiresAt g \<le> gt_GraceUntil g \<and> gt_GraceUntil g \<le> int MaxInt64"
    and "0 < gt_Sequence g \<and> gt_Sequence g \<le> int MaxInt64"
    and "pluginID (gt_PluginID g)"
    and "sortedSlugs (gt_Features g)"
    and "gt_OrganizationLimit g \<noteq> 0 \<Longrightarrow> InstallationWide g"
  using assms
  by (auto simp: decodeGrant_def try_then_Inr_iff InstallationWide_def optional_uuid_def)

lemma VerifyGrant_Inr:
  assumes "VerifyGrant lib document trust mode b now = Inr g"
  obtains kid payload claims key where
    "decodeEnvelope lib document = Inr (kid, payload)" "decodeGrant lib payload = Inr claims"
    "selectKey trust mode (gt_Issuer claims) kid GrantPurpose (gt_PluginID claims) (gt_IssuedAt claims) = Inr key"
    "co_signed lib document key" "gt_TrustClass claims = mode"
    "gt_PluginID claims = bi_PluginID b" "gt_InstallationID claims = bi_InstallationID b"
    "InstallationWide claims \<or> gt_OrganizationID claims = bi_OrganizationID b"
    "0 \<le> now" "gt_IssuedAt claims \<le> now + 30"
    "g = claims\<lparr>gt_KeyID := kid, gt_Envelope := document, gt_Digest := co_sha256 lib document,
            gt_EffectiveFeatures := filter (\<lambda>f. List.member (bi_DeclaredFeatures b) f) (gt_Features claims)\<rparr>"
proof -
  from assms obtain kid payload claims key where
    *: "decodeEnvelope lib document = Inr (kid, payload)" "decodeGrant lib payload = Inr claims"
    "selectKey trust mode (gt_Issuer claims) kid GrantPurpose (gt_PluginID claims) (gt_IssuedAt claims) = Inr key"
    "verify lib document key = Inr ()" "gt_TrustClass claims = mode"
    "gt_PluginID claims = bi_PluginID b" "gt_InstallationID claims = bi_InstallationID b"
    "InstallationWide claims \<or> gt_OrganizationID claims = bi_OrganizationID b"
    "checkIssuedAt (gt_IssuedAt claims) now = Inr ()"
    "claims\<lparr>gt_KeyID := kid, gt_Envelope := document, gt_Digest := co_sha256 lib document,
        gt_EffectiveFeatures := filter (\<lambda>f. List.member (bi_DeclaredFeatures b) f) (gt_Features claims)\<rparr> = g"
    unfolding VerifyGrant_def try_then_Inr_iff fail_unless_Inr_iff split_paired_Ex prod.case sum.inject unit_Ex
    by blast
  show thesis
    by (rule that [OF *(1-3) _ *(5-8) _ _ *(10) [symmetric]]) (use *(4,9) in \<open>auto simp: verify_def checkIssuedAt_def\<close>)
qed

text \<open>
  C19. An accepted grant is authentic and fits what was asked for. Exactly one pinned key with its key ID belongs
  to the issuers of its name; this key is meant for grants, was valid when the grant was issued, and the document
  carries its signature. Every issuer of that name is authorized for the plugin, the trust class is the one of the
  trust store, and the grant is for the plugin, the installation and the organization that the caller named. Its
  times are in order and it was not issued more than 30 seconds after the clock; the effective features are the
  granted ones that the package declares.
\<close>

theorem accepted_grant:
  assumes "VerifyGrant lib document trust mode b now = Inr g"
  shows "(\<exists>k. pinned_keys trust (gt_Issuer g) (gt_KeyID g) = [k] \<and> key_fits GrantPurpose (gt_IssuedAt g) k
            \<and> co_signed lib document (ky_PublicKey k))
    \<and> (\<forall>i\<in>set (ts_Issuers trust). is_ID i = gt_Issuer g \<longrightarrow> gt_PluginID g \<in> set (is_PluginIDs i))
    \<and> ts_Class trust = mode \<and> gt_TrustClass g = mode \<and> (mode = Production \<or> mode = Development)
    \<and> gt_PluginID g = bi_PluginID b \<and> gt_InstallationID g = bi_InstallationID b
    \<and> (InstallationWide g \<or> gt_OrganizationID g = bi_OrganizationID b)
    \<and> gt_IssuedAt g \<le> gt_NotBefore g \<and> gt_NotBefore g < gt_ExpiresAt g \<and> gt_ExpiresAt g \<le> gt_GraceUntil g
    \<and> gt_IssuedAt g \<le> now + 30
    \<and> set (gt_EffectiveFeatures g) = set (gt_Features g) \<inter> set (bi_DeclaredFeatures b)
    \<and> gt_Envelope g = document \<and> gt_Digest g = co_sha256 lib document"
  using assms
proof (rule VerifyGrant_Inr)
  fix kid payload claims key
  assume d: "decodeGrant lib payload = Inr claims"
    and k: "selectKey trust mode (gt_Issuer claims) kid GrantPurpose (gt_PluginID claims) (gt_IssuedAt claims) = Inr key"
    and f: "co_signed lib document key" "gt_TrustClass claims = mode"
      "gt_PluginID claims = bi_PluginID b" "gt_InstallationID claims = bi_InstallationID b"
      "InstallationWide claims \<or> gt_OrganizationID claims = bi_OrganizationID b" "gt_IssuedAt claims \<le> now + 30"
    and g: "g = claims\<lparr>gt_KeyID := kid, gt_Envelope := document, gt_Digest := co_sha256 lib document,
            gt_EffectiveFeatures := filter (\<lambda>f. List.member (bi_DeclaredFeatures b) f) (gt_Features claims)\<rparr>"
  from decodeGrant_Inr [OF d] selectKey_Inr [OF k] pluginID_not_empty f g show ?thesis
    by (auto simp: InstallationWide_def)
qed

section \<open>The canonical encoding\<close>

text \<open>The bytes of a UUID, and the claims that a decoded document stands for.\<close>

definition hex_value :: "char \<Rightarrow> nat" where
  "hex_value c = (if is_digit c then of_char c - 48 else of_char c - 87)"

fun unhex :: "string \<Rightarrow> string" where
  "unhex (a # b # w) = char_of (16 * hex_value a + hex_value b) # unhex w"
| "unhex _ = []"

definition uuid_bytes :: "uuid \<Rightarrow> string" where
  "uuid_bytes u = unhex (filter (\<lambda>c. c \<noteq> CHR ''-'') u)"

lemma hex_digits: "\<forall>n\<in>set [0..<16]. hex_value (hex_digit n) = n \<and> hex_digit n \<noteq> CHR ''-''"
  by code_simp

lemma hex_digit_inverse [simp]: "n < 16 \<Longrightarrow> hex_value (hex_digit n) = n"
  and hex_digit_no_dash [simp]: "n < 16 \<Longrightarrow> hex_digit n \<noteq> CHR ''-''"
  using hex_digits by auto

lemma byte_digits [simp]: "(of_char (b :: char) :: nat) div 16 < 16"
  using nat_of_char_less_256 [of b] by linarith

lemma unhex_hex_text [simp]: "unhex (hex_text bs) = bs"
  by (induction bs) (simp_all add: hex_text_def mult.commute [of 16])

lemma hex_text_no_dash [simp]: "filter (\<lambda>c. c \<noteq> CHR ''-'') (hex_text bs) = hex_text bs"
  by (induction bs) (simp_all add: hex_text_def)

lemma hex_text_append: "hex_text (xs @ ys) = hex_text xs @ hex_text ys"
  by (simp add: hex_text_def)

lemma uuid_bytes_text [simp]: "uuid_bytes (uuid_text bs) = bs"
proof -
  have "bs = take 4 bs @ take 2 (drop 4 bs) @ take 2 (drop 6 bs) @ take 2 (drop 8 bs) @ drop 10 bs"
    by (simp add: append_take_drop_id drop_drop flip: append_assoc take_add)
  moreover have "filter (\<lambda>c. c \<noteq> CHR ''-'') (uuid_text bs)
      = hex_text (take 4 bs @ take 2 (drop 4 bs) @ take 2 (drop 6 bs) @ take 2 (drop 8 bs) @ drop 10 bs)"
    by (simp add: uuid_text_def hex_text_append)
  ultimately show ?thesis
    by (metis unhex_hex_text uuid_bytes_def)
qed

lemma parseUUID_Inr: "parseUUID bs = Inr u \<Longrightarrow> uuid_bytes u = bs \<and> u \<noteq> Nil_uuid"
  by (auto simp: parseUUID_def Let_def split: if_splits)

definition limit_claims :: "int \<Rightarrow> (string \<times> nat) list" where
  "limit_claims limit = (if limit = 0 then [] else [(LimitOrganizations, nat limit)])"

text \<open>The claims of a grant, and of a snapshot, as the code would encode them.\<close>

definition grant_value :: "Grant \<Rightarrow> cbor" where
  "grant_value g =
     grant_claims (gt_Issuer g) (uuid_bytes (gt_IssuanceID g)) (nat (gt_Sequence g)) (gt_PluginID g) (uuid_bytes (gt_InstallationID g))
       (if InstallationWide g then None else Some (uuid_bytes (gt_OrganizationID g))) (gt_Features g)
       (limit_claims (gt_OrganizationLimit g)) (nat (gt_IssuedAt g)) (nat (gt_NotBefore g)) (nat (gt_ExpiresAt g))
       (nat (gt_GraceUntil g)) (gt_TrustClass g)"

definition revocation_value :: "Revocations \<Rightarrow> cbor" where
  "revocation_value r =
     revocation_claims (rv_Issuer r) (nat (rv_Sequence r)) (nat (rv_IssuedAt r)) (map uuid_bytes (rv_IssuanceIDs r)) (rv_TrustClass r)"

text \<open>A decoded map has no key twice: the decoder of the code refuses duplicates.\<close>

definition number_maps :: "cose_library \<Rightarrow> bool" where
  "number_maps lib \<longleftrightarrow> (\<forall>x l. co_numbers lib x = Some l \<longrightarrow> distinct (map fst l))"

lemma grant_limits_names:
  "grant_limits l n = Inr m \<Longrightarrow> fst ` set l \<subseteq> {LimitOrganizations} \<and> (l = [] \<longrightarrow> m = n) \<and> (l \<noteq> [] \<longrightarrow> m = int (snd (last l)) \<and> m \<noteq> 0)"
  by (induction l n rule: grant_limits.induct) auto

lemma grant_limits_value:
  assumes "grant_limits l 0 = Inr m" and "distinct (map fst l)"
  shows "limit_claims m = l"
proof (cases l)
  case (Cons e t)
  have "t = []"
    using grant_limits_names [OF assms(1)] assms(2) Cons by (cases t) auto
  with assms Cons show ?thesis
    by (cases e) (auto simp: limit_claims_def)
qed (use assms in \<open>simp add: limit_claims_def\<close>)

lemma revoked_ids_bytes: "revoked_ids previous bs = Inr us \<Longrightarrow> map uuid_bytes us = bs"
  by (induction previous bs arbitrary: us rule: revoked_ids.induct) (auto dest: parseUUID_Inr)

lemma claim_Inr: "claim values label major f = Inr v \<Longrightarrow> f (label_value values label) = Some v"
  by (auto simp: claim_def decodeMajor_def split: list.splits if_splits option.splits)

lemma optional_uuid_Inr:
  "optional_uuid organization = Inr u \<Longrightarrow> (if u = Nil_uuid then None else Some (uuid_bytes u)) = organization"
  by (auto simp: optional_uuid_def dest: parseUUID_Inr split: option.splits)

text \<open>
  C31. A grant payload is the canonical encoding of the grant that it decodes to: encoding the decoded grant gives
  back the same bytes. So a grant has one payload, and nothing in the payload is outside the decoded grant.
\<close>

theorem grant_encoding:
  assumes "number_maps lib" and "decodeGrant lib payload = Inr g"
  shows "co_marshal lib (grant_value g) = payload"
  using assms
  by (auto simp: decodeGrant_def grant_value_def InstallationWide_def number_maps_def
      dest!: parseUUID_Inr optional_uuid_Inr claim_Inr dest: grant_limits_value)

text \<open>
  The same for revocation snapshots: the payload is the canonical encoding of the snapshot that it decodes to.
\<close>

theorem revocation_encoding:
  assumes "decodeRevocations lib payload = Inr r"
  shows "co_marshal lib (revocation_value r) = payload"
  using assms
  by (auto simp: decodeRevocations_def revocation_value_def dest: revoked_ids_bytes)

section \<open>Examples\<close>

text \<open>
  A library for one grant and one snapshot: short CBOR integers and texts are read as CBOR has them, the encoder and
  the maps are tables over the bytes of the example.
\<close>

definition example_uuid_bytes :: string where "example_uuid_bytes = [CHR 0x81, CHR 0x81, CHR 0x81, CHR 0x81, CHR 0x81, CHR 0x81, CHR 0x81, CHR 0x81, CHR 0x81, CHR 0x81, CHR 0x81, CHR 0x81, CHR 0x81, CHR 0x81, CHR 0x81, CHR 0x81]"
definition example_signature :: string where "example_signature = ''ssssssssssssssssssssssssssssssssssssssssssssssssssssssssssssssss''"
definition example_kid :: string where "example_kid = ''k1''"
definition example_grant_payload :: string where "example_grant_payload = [CHR 0xAE]"
definition example_snapshot_payload :: string where "example_snapshot_payload = [CHR 0xA7]"
definition example_protected :: string where "example_protected = [CHR 0xA2]"
definition example_document :: string where "example_document = [CHR 0xD2, CHR ''g'']"
definition example_snapshot_document :: string where "example_snapshot_document = [CHR 0xD2, CHR ''r'']"

definition example_bytes :: "string \<Rightarrow> string" where
  "example_bytes w = CHR 0x58 # w"

definition example_text_claim :: "string \<Rightarrow> string" where
  "example_text_claim w = CHR 0x78 # w"

definition example_labels :: "(string \<times> (nat \<times> string) list) list" where
  "example_labels =
     [(example_protected, [(1, [CHR 0x27]), (4, example_bytes example_kid)]),
      (example_grant_payload,
        [(1, [CHR 0x01]), (2, example_text_claim ''grant''), (3, example_text_claim ''acme''), (4, example_bytes example_uuid_bytes),
         (5, [CHR 0x03]), (6, example_text_claim ''acme.echo''), (7, example_bytes example_uuid_bytes),
         (9, [CHR 0x81]), (10, [CHR 0xA1]), (11, [CHR 0x01]), (12, [CHR 0x02]), (13, [CHR 0x05]), (14, [CHR 0x07]),
         (15, example_text_claim ''production'')]),
      (example_snapshot_payload,
        [(1, [CHR 0x01]), (2, example_text_claim ''revocations''), (3, example_text_claim ''acme''), (4, [CHR 0x02]),
         (5, [CHR 0x01]), (6, [CHR 0x81]), (7, example_text_claim ''production'')])]"

definition example_grant_value :: cbor where
  "example_grant_value =
     grant_claims ''acme'' example_uuid_bytes 3 ''acme.echo'' example_uuid_bytes None [''basic''] [(LimitOrganizations, 2)] 1 2 5 7
       ''production''"

definition example_snapshot_value :: cbor where
  "example_snapshot_value = revocation_claims ''acme'' 2 1 [example_uuid_bytes] ''production''"

definition example_cose :: cose_library where
  "example_cose =
     \<lparr>co_marshal = (\<lambda>v. if v = header_value example_kid then example_protected
        else if v = example_grant_value then example_grant_payload
        else if v = example_snapshot_value then example_snapshot_payload
        else if v = envelope_value example_protected example_grant_payload example_signature then example_document
        else if v = envelope_value example_protected example_snapshot_payload example_signature then example_snapshot_document else []),
      co_parts = (\<lambda>w. Some [example_bytes example_protected, [CHR 0xA0],
        example_bytes (if w = ''g'' then example_grant_payload else example_snapshot_payload), example_bytes example_signature]),
      co_labels = map_of example_labels,
      co_uint = (\<lambda>w. Some (of_char (hd w))), co_int = (\<lambda>w. Some (31 - int (of_char (hd w)))),
      co_bytes = (\<lambda>w. Some (tl w)), co_text = (\<lambda>w. Some (tl w)), co_texts = (\<lambda>w. Some [''basic'']),
      co_byte_strings = (\<lambda>w. Some [example_uuid_bytes]), co_numbers = (\<lambda>w. Some [(LimitOrganizations, 2)]),
      co_message = (\<lambda>w. True), co_verifier = (\<lambda>k. length k = 32),
      co_signed = (\<lambda>w k. k = ''pppppppppppppppppppppppppppppppp''), co_sha256 = (\<lambda>w. last w # ''1234567890123456789012345678901'')\<rparr>"

definition example_trust :: TrustStore where
  "example_trust =
     \<lparr>ts_Class = Production, ts_Issuers =
        [\<lparr>is_ID = ''acme'', is_PluginIDs = [''acme.echo''], is_Keys =
           [\<lparr>ky_ID = example_kid, ky_PublicKey = ''pppppppppppppppppppppppppppppppp'', ky_Purposes = [GrantPurpose, RevocationPurpose],
             ky_ValidFrom = 0, ky_ValidUntil = 0\<rparr>]\<rparr>]\<rparr>"

definition example_installation_uuid :: uuid where
  "example_installation_uuid = ''81818181-8181-8181-8181-818181818181''"

definition example_binding :: Binding where
  "example_binding =
     \<lparr>bi_PluginID = ''acme.echo'', bi_InstallationID = example_installation_uuid, bi_OrganizationID = Nil_uuid,
      bi_DeclaredFeatures = [''basic'', ''extra'']\<rparr>"

definition example_grant_claims :: Grant where
  "example_grant_claims =
     \<lparr>gt_Envelope = [], gt_Issuer = ''acme'', gt_KeyID = [], gt_IssuanceID = example_installation_uuid, gt_Sequence = 3,
      gt_PluginID = ''acme.echo'', gt_InstallationID = example_installation_uuid, gt_OrganizationID = Nil_uuid,
      gt_Features = [''basic''], gt_EffectiveFeatures = [], gt_OrganizationLimit = 2, gt_IssuedAt = 1, gt_NotBefore = 2,
      gt_ExpiresAt = 5, gt_GraceUntil = 7, gt_TrustClass = Production, gt_Digest = []\<rparr>"

definition example_verified_grant :: Grant where
  "example_verified_grant =
     example_grant_claims\<lparr>gt_Envelope := example_document, gt_KeyID := example_kid, gt_EffectiveFeatures := [''basic''],
       gt_Digest := ''g1234567890123456789012345678901''\<rparr>"

definition example_revocations :: Revocations where
  "example_revocations =
     \<lparr>rv_Envelope = [], rv_Issuer = ''acme'', rv_KeyID = [], rv_Sequence = 2, rv_IssuedAt = 1,
      rv_IssuanceIDs = [example_installation_uuid], rv_TrustClass = Production, rv_Digest = []\<rparr>"

lemmas example_bytes_defs = example_bytes_def example_text_claim_def example_uuid_bytes_def example_kid_def
  example_protected_def example_grant_payload_def example_snapshot_payload_def example_signature_def example_document_def
  example_snapshot_document_def

lemmas envelope_evals = decodeEnvelope_def decodeMap_def decodeMajor_def claim_def label_value_def fail_unless_def
  bounded_claim_def checked_claim_def MaxEnvelopeBytes_def MaxInt64_def

lemma example_parseUUID: "parseUUID example_uuid_bytes = Inr example_installation_uuid"
  by (simp add: parseUUID_def example_uuid_bytes_def uuid_text_def hex_text_def hex_digit_def example_installation_uuid_def
      Nil_uuid_def Let_def)

lemma example_marshal:
  "co_marshal example_cose (header_value example_kid) = example_protected"
  "co_marshal example_cose example_grant_value = example_grant_payload"
  "co_marshal example_cose example_snapshot_value = example_snapshot_payload"
  "co_marshal example_cose (envelope_value example_protected example_grant_payload example_signature) = example_document"
  by (simp_all add: example_cose_def header_value_def example_grant_value_def grant_claims_def example_snapshot_value_def
      revocation_claims_def envelope_value_def)

definition example_values :: "(nat \<times> string) list" where
  "example_values = snd (example_labels ! 1)"

definition example_snapshot_values :: "(nat \<times> string) list" where
  "example_snapshot_values = snd (example_labels ! 2)"

lemma example_decodeMap:
  "decodeMap example_cose example_grant_payload 15 [8] = Inr example_values"
  "decodeMap example_cose example_snapshot_payload 7 [] = Inr example_snapshot_values"
  by (simp_all add: envelope_evals example_cose_def example_labels_def example_values_def example_snapshot_values_def
      example_protected_def example_grant_payload_def example_snapshot_payload_def)
    code_simp+

lemma example_organization_claim: "map_of example_values 8 = None"
  by (simp add: example_values_def example_labels_def)

lemma example_claims:
  "claim example_values 1 0 (co_uint example_cose) = Inr 1"
  "claim example_values 2 3 (co_text example_cose) = Inr ''grant''"
  "claim example_values 3 3 (co_text example_cose) = Inr ''acme''"
  "claim example_values 4 2 (co_bytes example_cose) = Inr example_uuid_bytes"
  "claim example_values 5 0 (co_uint example_cose) = Inr 3"
  "claim example_values 6 3 (co_text example_cose) = Inr ''acme.echo''"
  "claim example_values 7 2 (co_bytes example_cose) = Inr example_uuid_bytes"
  "claim example_values 9 4 (co_texts example_cose) = Inr [''basic'']"
  "claim example_values 10 5 (co_numbers example_cose) = Inr [(LimitOrganizations, 2)]"
  "claim example_values 11 0 (co_uint example_cose) = Inr 1"
  "claim example_values 12 0 (co_uint example_cose) = Inr 2"
  "claim example_values 13 0 (co_uint example_cose) = Inr 5"
  "claim example_values 14 0 (co_uint example_cose) = Inr 7"
  "claim example_values 15 3 (co_text example_cose) = Inr ''production''"
  by (simp_all add: claim_def decodeMajor_def label_value_def example_values_def example_labels_def example_cose_def
      example_bytes_def example_text_claim_def)

lemma example_snapshot_claims:
  "claim example_snapshot_values 1 0 (co_uint example_cose) = Inr 1"
  "claim example_snapshot_values 2 3 (co_text example_cose) = Inr ''revocations''"
  "claim example_snapshot_values 3 3 (co_text example_cose) = Inr ''acme''"
  "claim example_snapshot_values 4 0 (co_uint example_cose) = Inr 2"
  "claim example_snapshot_values 5 0 (co_uint example_cose) = Inr 1"
  "claim example_snapshot_values 6 4 (co_byte_strings example_cose) = Inr [example_uuid_bytes]"
  "claim example_snapshot_values 7 3 (co_text example_cose) = Inr ''production''"
  by (simp_all add: claim_def decodeMajor_def label_value_def example_snapshot_values_def example_labels_def example_cose_def
      example_bytes_def example_text_claim_def)

lemma example_texts:
  "asciiIdentifier ''acme''" "pluginID ''acme.echo''" "sortedSlugs [''basic'']" "sortedSlugs [''basic'', ''extra'']"
  by code_simp+

lemma example_decodeGrant: "decodeGrant example_cose example_grant_payload = Inr example_grant_claims"
  using example_marshal(2)
  by (simp add: decodeGrant_def example_decodeMap example_claims example_organization_claim example_parseUUID example_texts
      MaxInt64_def Production_def optional_uuid_def example_grant_value_def example_grant_claims_def
      del: One_nat_def)

lemma example_decodeRevocations: "decodeRevocations example_cose example_snapshot_payload = Inr example_revocations"
  using example_marshal(3)
  by (simp add: decodeRevocations_def example_decodeMap example_snapshot_claims example_parseUUID example_texts
      MaxInt64_def Production_def example_snapshot_value_def example_revocations_def del: One_nat_def)

lemma example_number_maps: "number_maps example_cose"
  by (auto simp: number_maps_def example_cose_def)

lemma example_header:
  "decodeMajor (example_bytes example_protected) 2 (co_bytes example_cose) = Inr example_protected"
  "decodeMajor (example_bytes example_grant_payload) 2 (co_bytes example_cose) = Inr example_grant_payload"
  "decodeMajor (example_bytes example_signature) 2 (co_bytes example_cose) = Inr example_signature"
  "decodeMajor example_protected 5 (co_labels example_cose) = Inr [(1, [CHR 0x27]), (4, example_bytes example_kid)]"
  "decodeMajor [CHR 0x27] 1 (co_int example_cose) = Inr (- 8)"
  "decodeMajor (example_bytes example_kid) 2 (co_bytes example_cose) = Inr example_kid"
  by (simp_all add: decodeMajor_def example_bytes_def example_cose_def example_labels_def example_protected_def
      example_grant_payload_def)

lemma example_decodeEnvelope: "decodeEnvelope example_cose example_document = Inr (example_kid, example_grant_payload)"
proof -
  have parts: "co_parts example_cose (tl example_document)
      = Some [example_bytes example_protected, [CHR 0xA0], example_bytes example_grant_payload, example_bytes example_signature]"
    and message: "co_message example_cose example_document"
    by (simp_all add: example_cose_def example_document_def)
  show ?thesis
    unfolding decodeEnvelope_def parts
    using message example_marshal(1,4)
    by (simp add: example_header label_value_def MaxEnvelopeBytes_def)
      (simp add: example_document_def example_signature_def example_kid_def example_header(5) [unfolded One_nat_def])
qed

lemma example_selectKey:
  "selectKey example_trust Production ''acme'' example_kid GrantPurpose ''acme.echo'' 1 = Inr ''pppppppppppppppppppppppppppppppp''"
  by (simp add: selectKey_def fail_unless_def example_trust_def key_fits_def GrantPurpose_def RevocationPurpose_def)

lemma example_VerifyGrant:
  "VerifyGrant example_cose example_document example_trust Production example_binding 9 = Inr example_verified_grant"
  using example_selectKey
  by (simp add: VerifyGrant_def validateBinding_def example_binding_def example_texts example_decodeEnvelope example_decodeGrant
      example_grant_claims_def verify_def checkIssuedAt_def InstallationWide_def example_installation_uuid_def Nil_uuid_def
      example_verified_grant_def)
    (simp add: example_cose_def example_document_def)

theorem grant_encoding_witness: "co_marshal example_cose (grant_value example_grant_claims) = example_grant_payload"
  using grant_encoding [OF example_number_maps example_decodeGrant] .

theorem revocation_encoding_witness:
  "co_marshal example_cose (revocation_value example_revocations) = example_snapshot_payload"
  using revocation_encoding [OF example_decodeRevocations] .

theorem accepted_grant_witness:
  "set (gt_EffectiveFeatures example_verified_grant) = {''basic''}
     \<and> (\<exists>k. pinned_keys example_trust ''acme'' example_kid = [k] \<and> co_signed example_cose example_document (ky_PublicKey k))"
  using accepted_grant [OF example_VerifyGrant]
  by (auto simp: example_verified_grant_def example_grant_claims_def example_binding_def)

end
