(* ===== verification/Entitlements.thy ===== *)
theory Entitlements
  imports Verifier Database SemVer
begin

text \<open>
  Persisted plugin licences (\<^verbatim>\<open>internal/model/plugin_entitlements.go\<close>, \<^verbatim>\<open>plugin_entitlement_status.go\<close>): the tables,
  the imports of verified grants and revocation snapshots, the decision whether an organization may use a feature,
  the sweep that observes elapsed boundaries, and the operator's view.

  All stored instants are whole Unix seconds, and the code truncates its clock to seconds, or compares it with whole
  seconds only; so times are integers that count seconds. Advisory locks are left out: an operation runs in one
  transaction and is one step. Rows carry no random audit ID and no \<^verbatim>\<open>imported_at\<close>: nothing reads them.
\<close>

section \<open>Tables\<close>

text \<open>The part of an \<^verbatim>\<open>orgs\<close> row that licences refer to.\<close>

record org_ref =
  og_id :: string
  og_uuid :: uuid

record entitlement_grant =
  eg_issuer :: string
  eg_issuance_id :: uuid
  eg_grant_sequence :: int
  eg_installation_uuid :: uuid
  eg_plugin_id :: string
  eg_organization_uuid :: "uuid option"
  eg_cose :: string
  eg_digest :: string
  eg_key_id :: string
  eg_features :: "string list"
  eg_limits :: "(string \<times> int) list"
  eg_issued_at :: timestamp
  eg_not_before :: timestamp
  eg_expires_at :: timestamp
  eg_grace_until :: timestamp
  eg_trust_class :: string
  eg_importer :: string
  eg_source_digest :: string

record entitlement_binding =
  ew_installation_uuid :: uuid
  ew_plugin_id :: string
  ew_organization_uuid :: "uuid option"
  ew_issuer :: string
  ew_issuance_id :: uuid
  ew_grant_sequence :: int
  ew_evaluated_through :: "timestamp option"
  ew_observed_grace_at :: "timestamp option"
  ew_observed_expired_at :: "timestamp option"
  ew_revision :: int

record entitlement_snapshot =
  es_issuer :: string
  es_revocation_sequence :: int
  es_cose :: string
  es_digest :: string
  es_key_id :: string
  es_issued_at :: timestamp
  es_trust_class :: string
  es_importer :: string
  es_source_digest :: string

record entitlement_revocation =
  ev_issuer :: string
  ev_issuance_id :: uuid
  ev_first_snapshot_sequence :: int
  ev_revoked_at :: timestamp

record entitlement_activation =
  ea_installation_uuid :: uuid
  ea_plugin_id :: string
  ea_organization_uuid :: uuid
  ea_feature :: string
  ea_first_issuer :: string
  ea_first_issuance_id :: uuid
  ea_last_issuer :: string
  ea_last_issuance_id :: uuid
  ea_first_activated_at :: timestamp
  ea_last_activated_at :: timestamp

record entitlement_audit_event =
  eu_issuer :: string
  eu_installation_uuid :: "uuid option"
  eu_plugin_id :: "string option"
  eu_organization_uuid :: "uuid option"
  eu_kind :: string
  eu_sequence :: int
  eu_trust_class :: string
  eu_importer :: string
  eu_source_digest :: string

record licences =
  lc_orgs :: "org_ref list"
  lc_grants :: "entitlement_grant list"
  lc_bindings :: "entitlement_binding list"
  lc_snapshots :: "entitlement_snapshot list"
  lc_revocations :: "entitlement_revocation list"
  lc_activations :: "entitlement_activation list"
  lc_audit :: "entitlement_audit_event list"
  lc_outbox :: "outbox_event list"

text \<open>The constraints of migrations 38 and 48. A timestamp has the range of the database.\<close>

definition timestamp_range :: "timestamp \<Rightarrow> bool" where
  "timestamp_range t \<longleftrightarrow> - 210866803200 \<le> t \<and> t < 9224318016000"

definition check_row :: "bool \<Rightarrow> string \<Rightarrow> 'a result \<Rightarrow> 'a result" where
  "check_row ok name k = (if ok then k else Inl (ErrConstraint name))"

lemma check_row_Inr_iff [simp, result_simps]: "check_row ok name k = Inr y \<longleftrightarrow> ok \<and> k = Inr y"
  by (simp add: check_row_def)

definition trust_class_valid :: "string \<Rightarrow> bool" where
  "trust_class_valid c \<longleftrightarrow> c = Production \<or> c = Development"

definition evidence_row :: "string \<Rightarrow> string \<Rightarrow> string \<Rightarrow> string \<Rightarrow> string \<Rightarrow> bool" where
  "evidence_row cose digest key_id class source_digest \<longleftrightarrow>
     1 \<le> length cose \<and> length cose \<le> 65536 \<and> length digest = 32 \<and> 1 \<le> length key_id \<and> length key_id \<le> 64
     \<and> trust_class_valid class \<and> length source_digest = 32"

definition entitlement_grant_checks :: "entitlement_grant \<Rightarrow> bool" where
  "entitlement_grant_checks g \<longleftrightarrow>
     0 < eg_grant_sequence g \<and> evidence_row (eg_cose g) (eg_digest g) (eg_key_id g) (eg_trust_class g) (eg_source_digest g)
     \<and> timestamp_range (eg_issued_at g) \<and> timestamp_range (eg_not_before g) \<and> timestamp_range (eg_expires_at g)
     \<and> timestamp_range (eg_grace_until g)
     \<and> eg_issued_at g \<le> eg_not_before g \<and> eg_not_before g < eg_expires_at g \<and> eg_expires_at g \<le> eg_grace_until g
     \<and> 1 \<le> length (eg_features g) \<and> length (eg_features g) \<le> 64
     \<and> (eg_organization_uuid g = None \<or> eg_limits g = [])"

definition entitlement_grant_key :: "entitlement_grant \<Rightarrow> string \<times> uuid" where
  "entitlement_grant_key g = (eg_issuer g, eg_issuance_id g)"

definition grant_sequence_key :: "entitlement_grant \<Rightarrow> string \<times> uuid \<times> string \<times> uuid option \<times> int" where
  "grant_sequence_key g =
     (eg_issuer g, eg_installation_uuid g, eg_plugin_id g, eg_organization_uuid g, eg_grant_sequence g)"

definition entitlement_binding_key :: "entitlement_binding \<Rightarrow> uuid \<times> string \<times> uuid option" where
  "entitlement_binding_key w = (ew_installation_uuid w, ew_plugin_id w, ew_organization_uuid w)"

definition entitlement_snapshot_checks :: "entitlement_snapshot \<Rightarrow> bool" where
  "entitlement_snapshot_checks n \<longleftrightarrow>
     0 < es_revocation_sequence n
     \<and> evidence_row (es_cose n) (es_digest n) (es_key_id n) (es_trust_class n) (es_source_digest n)
     \<and> timestamp_range (es_issued_at n)"

definition snapshot_key :: "entitlement_snapshot \<Rightarrow> string \<times> int" where
  "snapshot_key n = (es_issuer n, es_revocation_sequence n)"

definition revocation_key :: "entitlement_revocation \<Rightarrow> string \<times> uuid" where
  "revocation_key v = (ev_issuer v, ev_issuance_id v)"

definition activation_key :: "entitlement_activation \<Rightarrow> uuid \<times> string \<times> uuid \<times> string" where
  "activation_key a = (ea_installation_uuid a, ea_plugin_id a, ea_organization_uuid a, ea_feature a)"

definition audit_kinds :: "string list" where
  "audit_kinds = [''grant_imported'', ''revocations_imported'', ''feature_activated'', ''grace_observed'', ''expiry_observed'']"

definition entitlement_audit_checks :: "entitlement_audit_event \<Rightarrow> bool" where
  "entitlement_audit_checks e \<longleftrightarrow>
     List.member audit_kinds (eu_kind e) \<and> 0 < eu_sequence e \<and> trust_class_valid (eu_trust_class e)
     \<and> length (eu_source_digest e) = 32"

definition organization_known :: "uuid option \<Rightarrow> licences \<Rightarrow> bool" where
  "organization_known org s = (case org of None \<Rightarrow> True | Some u \<Rightarrow> list_ex (\<lambda>o1. og_uuid o1 = u) (lc_orgs s))"

definition find_grant :: "string \<Rightarrow> uuid \<Rightarrow> licences \<Rightarrow> entitlement_grant option" where
  "find_grant issuer issuance s = find (\<lambda>g. entitlement_grant_key g = (issuer, issuance)) (lc_grants s)"

definition find_binding :: "uuid \<times> string \<times> uuid option \<Rightarrow> licences \<Rightarrow> entitlement_binding option" where
  "find_binding k s = find (\<lambda>w. entitlement_binding_key w = k) (lc_bindings s)"

definition find_activation :: "uuid \<times> string \<times> uuid \<times> string \<Rightarrow> licences \<Rightarrow> entitlement_activation option" where
  "find_activation k s = find (\<lambda>a. activation_key a = k) (lc_activations s)"

definition revoked :: "string \<Rightarrow> uuid \<Rightarrow> licences \<Rightarrow> bool" where
  "revoked issuer issuance s = list_ex (\<lambda>v. revocation_key v = (issuer, issuance)) (lc_revocations s)"

section \<open>Imports\<close>

definition organizationScope :: "uuid \<Rightarrow> uuid option" where
  "organizationScope org = (if org = Nil_uuid then None else Some org)"

definition scope_UUID :: "uuid option \<Rightarrow> uuid" where
  "scope_UUID scope = (case scope of None \<Rightarrow> Nil_uuid | Some u \<Rightarrow> u)"

definition entitlementEventSubject :: string where
  "entitlementEventSubject = ''io.platform-orchestrator.plugin-entitlement.changed''"

text \<open>One audit row and one pending message. A revocation import names no binding.\<close>

definition entitlementAudit ::
    "string \<Rightarrow> Binding option \<Rightarrow> string \<Rightarrow> int \<Rightarrow> string \<Rightarrow> string \<Rightarrow> string \<Rightarrow> licences \<Rightarrow> licences result" where
  "entitlementAudit issuer b kind sequence class importer sourceDigest s =
     (let installation = map_option bi_InstallationID b; plugin = map_option bi_PluginID b;
          org = Option.bind b (\<lambda>b. organizationScope (bi_OrganizationID b));
          row = \<lparr>eu_issuer = issuer, eu_installation_uuid = installation, eu_plugin_id = plugin, eu_organization_uuid = org,
            eu_kind = kind, eu_sequence = sequence, eu_trust_class = class, eu_importer = importer, eu_source_digest = sourceDigest\<rparr>
      in check_row (entitlement_audit_checks row) ''plugin_entitlement_audit_events''
        (Inr (s\<lparr>lc_audit := lc_audit s @ [row],
          lc_outbox := lc_outbox s @ [\<lparr>ob_Type = entitlementEventSubject, ob_Data =
            [(''kind'', JStr kind), (''trust_class'', JStr class), (''installation_uuid'', jopt installation),
             (''plugin_id'', jopt plugin), (''organization_uuid'', jopt org)]\<rparr>]\<rparr>)))"

definition zero_digest :: string where
  "zero_digest = replicate 32 (CHR 0x00)"

definition validEntitlementImport ::
    "(string \<Rightarrow> string) \<Rightarrow> string \<Rightarrow> string \<Rightarrow> string \<Rightarrow> string \<Rightarrow> string \<Rightarrow> string \<Rightarrow> unit result" where
  "validEntitlementImport sha256 envelope digest issuer importer sourceDigest class =
     fail_if (issuer = [] \<or> importer = [] \<or> (class \<noteq> Production \<and> class \<noteq> Development) \<or> envelope = []
         \<or> length envelope > MaxEnvelopeBytes \<or> sha256 envelope \<noteq> digest \<or> sourceDigest = zero_digest)
       (NewErrBadRequest ''verified entitlement evidence, importer and source digest are required'') (Inr ())"

definition grant_projection_invalid :: "Grant \<Rightarrow> bool" where
  "grant_projection_invalid g \<longleftrightarrow>
     gt_InstallationID g = Nil_uuid \<or> gt_IssuanceID g = Nil_uuid \<or> gt_PluginID g = [] \<or> gt_Sequence g \<le> 0 \<or> gt_Features g = []
     \<or> gt_KeyID g = [] \<or> length (gt_KeyID g) > 64 \<or> gt_OrganizationLimit g < 0
     \<or> (gt_OrganizationLimit g \<noteq> 0 \<and> \<not> InstallationWide g)
     \<or> gt_IssuedAt g > gt_NotBefore g \<or> gt_NotBefore g \<ge> gt_ExpiresAt g \<or> gt_ExpiresAt g > gt_GraceUntil g"

definition grant_binding :: "Grant \<Rightarrow> Binding" where
  "grant_binding g =
     \<lparr>bi_PluginID = gt_PluginID g, bi_InstallationID = gt_InstallationID g, bi_OrganizationID = gt_OrganizationID g,
      bi_DeclaredFeatures = []\<rparr>"

definition grant_scope :: "Grant \<Rightarrow> uuid \<times> string \<times> uuid option" where
  "grant_scope g = (gt_InstallationID g, gt_PluginID g, organizationScope (gt_OrganizationID g))"

definition grant_row :: "Grant \<Rightarrow> string \<Rightarrow> string \<Rightarrow> entitlement_grant" where
  "grant_row g importer sourceDigest =
     \<lparr>eg_issuer = gt_Issuer g, eg_issuance_id = gt_IssuanceID g, eg_grant_sequence = gt_Sequence g,
      eg_installation_uuid = gt_InstallationID g, eg_plugin_id = gt_PluginID g,
      eg_organization_uuid = organizationScope (gt_OrganizationID g), eg_cose = gt_Envelope g, eg_digest = gt_Digest g,
      eg_key_id = gt_KeyID g, eg_features = gt_Features g,
      eg_limits = (if gt_OrganizationLimit g \<noteq> 0 then [(LimitOrganizations, gt_OrganizationLimit g)] else []),
      eg_issued_at = gt_IssuedAt g, eg_not_before = gt_NotBefore g, eg_expires_at = gt_ExpiresAt g,
      eg_grace_until = gt_GraceUntil g, eg_trust_class = gt_TrustClass g, eg_importer = importer,
      eg_source_digest = sourceDigest\<rparr>"

definition insert_entitlement_grant :: "entitlement_grant \<Rightarrow> licences \<Rightarrow> licences result" where
  "insert_entitlement_grant g s =
     check_row (entitlement_grant_checks g) ''plugin_entitlement_grants''
    (check_row (entitlement_grant_key g \<notin> entitlement_grant_key ` set (lc_grants s)) ''plugin_entitlement_grants_pkey''
    (check_row (grant_sequence_key g \<notin> grant_sequence_key ` set (lc_grants s)) ''plugin_entitlement_grants_sequence_key''
    (check_row (organization_known (eg_organization_uuid g) s) ''plugin_entitlement_grants_organization_uuid_fkey''
    (Inr (s\<lparr>lc_grants := lc_grants s @ [g]\<rparr>)))))"

text \<open>The guards against the current grant of the binding. The value is whether the grant is new.\<close>

definition replaces_binding :: "Grant \<Rightarrow> licences \<Rightarrow> bool result" where
  "replaces_binding g s =
     (case find_binding (grant_scope g) s of
        None \<Rightarrow> Inr True
      | Some w \<Rightarrow>
          fail_if (ew_issuer w \<noteq> gt_Issuer g) (NewErrConflict ''entitlement issuer changed for an existing binding'')
         (fail_if (gt_Sequence g < ew_grant_sequence w) (NewErrConflict ''stale entitlement grant sequence'')
         (if gt_Sequence g = ew_grant_sequence w
          then (case find_grant (ew_issuer w) (ew_issuance_id w) s of
                  None \<Rightarrow> Inl ErrNoRows
                | Some old \<Rightarrow>
                    fail_if (ew_issuance_id w \<noteq> gt_IssuanceID g \<or> eg_digest old \<noteq> gt_Digest g)
                      (NewErrConflict ''changed entitlement at the same grant sequence'') (Inr False))
          else fail_if (ew_issuance_id w = gt_IssuanceID g) (NewErrConflict ''issuance ID cannot be reused at a higher sequence'')
            (Inr True))))"

definition put_binding :: "Grant \<Rightarrow> licences \<Rightarrow> licences" where
  "put_binding g s =
     (if find_binding (grant_scope g) s = None
      then s\<lparr>lc_bindings := lc_bindings s @
        [\<lparr>ew_installation_uuid = gt_InstallationID g, ew_plugin_id = gt_PluginID g,
          ew_organization_uuid = organizationScope (gt_OrganizationID g), ew_issuer = gt_Issuer g,
          ew_issuance_id = gt_IssuanceID g, ew_grant_sequence = gt_Sequence g, ew_evaluated_through = None,
          ew_observed_grace_at = None, ew_observed_expired_at = None, ew_revision = 1\<rparr>]\<rparr>
      else s\<lparr>lc_bindings := upd_where (\<lambda>w. entitlement_binding_key w = grant_scope g)
        (\<lambda>w. w\<lparr>ew_issuance_id := gt_IssuanceID g, ew_grant_sequence := gt_Sequence g, ew_observed_grace_at := None,
               ew_observed_expired_at := None, ew_revision := ew_revision w + 1\<rparr>) (lc_bindings s)\<rparr>)"

definition ImportPluginEntitlementGrant ::
    "(string \<Rightarrow> string) \<Rightarrow> Grant \<Rightarrow> string \<Rightarrow> string \<Rightarrow> licences \<Rightarrow> (bool \<times> licences) result" where
  "ImportPluginEntitlementGrant sha256 g importer sourceDigest s =
     try_then (validEntitlementImport sha256 (gt_Envelope g) (gt_Digest g) (gt_Issuer g) importer sourceDigest (gt_TrustClass g)) (\<lambda>_.
     fail_if (grant_projection_invalid g) (NewErrBadRequest ''invalid verified grant projection'')
    (try_then (replaces_binding g s) (\<lambda>new.
     if \<not> new then Inr (False, s)
     else try_then (insert_entitlement_grant (grant_row g importer sourceDigest) s) (\<lambda>s1.
          try_then (entitlementAudit (gt_Issuer g) (Some (grant_binding g)) ''grant_imported'' (gt_Sequence g) (gt_TrustClass g)
            importer sourceDigest (put_binding g s1)) (\<lambda>s2. Inr (True, s2))))))"

text \<open>The latest snapshot of an issuer.\<close>

definition latest_snapshot :: "string \<Rightarrow> licences \<Rightarrow> entitlement_snapshot option" where
  "latest_snapshot issuer s =
     (case filter (\<lambda>n. es_issuer n = issuer) (lc_snapshots s) of
        [] \<Rightarrow> None
      | n # ns \<Rightarrow> Some (fold (\<lambda>n m. if es_revocation_sequence m < es_revocation_sequence n then n else m) ns n))"

definition snapshot_row :: "Revocations \<Rightarrow> string \<Rightarrow> string \<Rightarrow> entitlement_snapshot" where
  "snapshot_row r importer sourceDigest =
     \<lparr>es_issuer = rv_Issuer r, es_revocation_sequence = rv_Sequence r, es_cose = rv_Envelope r, es_digest = rv_Digest r,
      es_key_id = rv_KeyID r, es_issued_at = rv_IssuedAt r, es_trust_class = rv_TrustClass r, es_importer = importer,
      es_source_digest = sourceDigest\<rparr>"

definition insert_snapshot :: "entitlement_snapshot \<Rightarrow> licences \<Rightarrow> licences result" where
  "insert_snapshot n s =
     check_row (entitlement_snapshot_checks n) ''plugin_entitlement_revocation_snapshots''
    (check_row (snapshot_key n \<notin> snapshot_key ` set (lc_snapshots s)) ''plugin_entitlement_revocation_snapshots_pkey''
    (Inr (s\<lparr>lc_snapshots := lc_snapshots s @ [n]\<rparr>)))"

text \<open>\<^verbatim>\<open>INSERT ... ON CONFLICT DO NOTHING RETURNING\<close>: the rows that are new, and their IDs.\<close>

definition revocation_row :: "Revocations \<Rightarrow> uuid \<Rightarrow> entitlement_revocation" where
  "revocation_row r u =
     \<lparr>ev_issuer = rv_Issuer r, ev_issuance_id = u, ev_first_snapshot_sequence = rv_Sequence r, ev_revoked_at = rv_IssuedAt r\<rparr>"

fun insert_revocations :: "Revocations \<Rightarrow> uuid list \<Rightarrow> licences \<Rightarrow> uuid list \<times> licences" where
  "insert_revocations r [] s = ([], s)"
| "insert_revocations r (u # us) s =
     (if revoked (rv_Issuer r) u s then insert_revocations r us s
      else let (new, s') = insert_revocations r us (s\<lparr>lc_revocations := lc_revocations s @ [revocation_row r u]\<rparr>)
           in (u # new, s'))"

definition bumped :: "entitlement_binding \<Rightarrow> entitlement_binding" where
  "bumped w = w\<lparr>ew_revision := ew_revision w + 1\<rparr>"

definition bump_bindings :: "string \<Rightarrow> uuid list \<Rightarrow> licences \<Rightarrow> licences" where
  "bump_bindings issuer new s =
     s\<lparr>lc_bindings := upd_where (\<lambda>w. ew_issuer w = issuer \<and> List.member new (ew_issuance_id w))
        bumped (lc_bindings s)\<rparr>"

definition ImportPluginEntitlementRevocations ::
    "(string \<Rightarrow> string) \<Rightarrow> Revocations \<Rightarrow> string \<Rightarrow> string \<Rightarrow> licences \<Rightarrow> (bool \<times> licences) result" where
  "ImportPluginEntitlementRevocations sha256 r importer sourceDigest s =
     try_then (validEntitlementImport sha256 (rv_Envelope r) (rv_Digest r) (rv_Issuer r) importer sourceDigest (rv_TrustClass r)) (\<lambda>_.
     fail_if (rv_Sequence r \<le> 0 \<or> rv_KeyID r = [] \<or> length (rv_KeyID r) > 64)
       (NewErrBadRequest ''invalid verified revocation projection'')
    (let prior = latest_snapshot (rv_Issuer r) s in
     fail_if (case prior of None \<Rightarrow> False | Some n \<Rightarrow> rv_Sequence r < es_revocation_sequence n
         \<or> rv_Sequence r = es_revocation_sequence n \<and> rv_Digest r \<noteq> es_digest n)
       (NewErrConflict ''stale or changed revocation sequence'')
    (if (case prior of None \<Rightarrow> False | Some n \<Rightarrow> rv_Sequence r = es_revocation_sequence n) then Inr (False, s)
     else
     fail_if (Nil_uuid \<in> set (rv_IssuanceIDs r) \<or> \<not> distinct (rv_IssuanceIDs r))
       (NewErrBadRequest ''revocation IDs must be unique canonical UUIDs'')
    (fail_if (\<exists>v\<in>set (lc_revocations s). ev_issuer v = rv_Issuer r \<and> ev_issuance_id v \<notin> set (rv_IssuanceIDs r))
       (NewErrConflict ''revocation snapshot must include all previously revoked issuances'')
    (try_then (insert_snapshot (snapshot_row r importer sourceDigest) s) (\<lambda>s1.
     let (new, s2) = insert_revocations r (rv_IssuanceIDs r) s1 in
     try_then (entitlementAudit (rv_Issuer r) None ''revocations_imported'' (rv_Sequence r) (rv_TrustClass r) importer sourceDigest
       (bump_bindings (rv_Issuer r) new s2)) (\<lambda>s3. Inr (True, s3))))))))"

section \<open>Decisions\<close>

definition PluginGrantScopeOrganization :: string where "PluginGrantScopeOrganization = ''organization''"
definition PluginGrantScopeInstallation :: string where "PluginGrantScopeInstallation = ''installation''"
definition pluginGrantRevoked :: string where "pluginGrantRevoked = ''revoked''"

fun TimeState_text :: "TimeState \<Rightarrow> string" where
  "TimeState_text NotYetValid = ''not_yet_valid''"
| "TimeState_text Valid = ''valid''"
| "TimeState_text Grace = ''grace''"
| "TimeState_text Expired = ''expired''"

record PluginEntitlementDecision =
  dc_Feature :: string
  dc_State :: string
  dc_Scope :: string
  dc_TrustClass :: string
  dc_Forward :: bool
  dc_Read :: bool
  dc_Safety :: bool
  dc_ExpiresAt :: "timestamp option"
  dc_GraceUntil :: "timestamp option"
  dc_Revision :: int

record PluginEntitlementAccess =
  ac_Enabled :: bool
  ac_Retained :: bool
  ac_Compatible :: bool
  ac_Activate :: bool

record storedGrant =
  so_covering :: Binding
  so_issuer :: string
  so_issuanceID :: uuid
  so_sequence :: int
  so_envelope :: string
  so_digest :: string
  so_trustClass :: string
  so_expiresAt :: timestamp
  so_graceUntil :: timestamp

definition trusts :: "storedGrant \<Rightarrow> Grant result \<Rightarrow> bool" where
  "trusts st verified =
     (case verified of
        Inl e \<Rightarrow> False
      | Inr g \<Rightarrow> gt_Issuer g = so_issuer st \<and> gt_IssuanceID g = so_issuanceID st \<and> gt_Sequence g = so_sequence st
          \<and> gt_InstallationID g = bi_InstallationID (so_covering st) \<and> gt_OrganizationID g = bi_OrganizationID (so_covering st)
          \<and> gt_PluginID g = bi_PluginID (so_covering st) \<and> gt_TrustClass g = so_trustClass st \<and> gt_Digest g = so_digest st
          \<and> gt_Envelope g = so_envelope st \<and> gt_ExpiresAt g = so_expiresAt st \<and> gt_GraceUntil g = so_graceUntil st)"

definition grantState :: "Grant result \<Rightarrow> bool \<Rightarrow> bool \<Rightarrow> timestamp \<Rightarrow> string" where
  "grantState verified trusted taken_back effectiveNow =
     (case verified of
        Inr g \<Rightarrow> if \<not> trusted then ''untrusted'' else if taken_back then pluginGrantRevoked else TimeState_text (EvaluateTime g effectiveNow)
      | Inl e \<Rightarrow> ''untrusted'')"

text \<open>The clock of a binding never runs backwards.\<close>

definition effective_now :: "entitlement_binding \<Rightarrow> timestamp \<Rightarrow> timestamp" where
  "effective_now w now = (case ew_evaluated_through w of Some t \<Rightarrow> if now < t then t else now | None \<Rightarrow> now)"

definition stored_grant :: "entitlement_binding \<Rightarrow> entitlement_grant \<Rightarrow> storedGrant" where
  "stored_grant w g =
     \<lparr>so_covering = \<lparr>bi_PluginID = ew_plugin_id w, bi_InstallationID = ew_installation_uuid w,
        bi_OrganizationID = scope_UUID (ew_organization_uuid w), bi_DeclaredFeatures = []\<rparr>,
      so_issuer = ew_issuer w, so_issuanceID = ew_issuance_id w, so_sequence = ew_grant_sequence w, so_envelope = eg_cose g,
      so_digest = eg_digest g, so_trustClass = eg_trust_class g, so_expiresAt = eg_expires_at g, so_graceUntil = eg_grace_until g\<rparr>"

definition not_entitled :: "string \<Rightarrow> PluginEntitlementDecision" where
  "not_entitled feature =
     \<lparr>dc_Feature = feature, dc_State = ''not_entitled'', dc_Scope = [], dc_TrustClass = [], dc_Forward = False, dc_Read = False,
      dc_Safety = False, dc_ExpiresAt = None, dc_GraceUntil = None, dc_Revision = 0\<rparr>"

definition put_activation ::
    "Binding \<Rightarrow> string \<Rightarrow> entitlement_binding \<Rightarrow> timestamp \<Rightarrow> licences \<Rightarrow> licences result" where
  "put_activation b feature w effectiveNow s =
     (let k = (bi_InstallationID b, bi_PluginID b, bi_OrganizationID b, feature) in
      if find_activation k s = None
      then check_row (organization_known (Some (bi_OrganizationID b)) s) ''plugin_entitlement_feature_activations_organization_uuid_fkey''
        (Inr (s\<lparr>lc_activations := lc_activations s @
          [\<lparr>ea_installation_uuid = bi_InstallationID b, ea_plugin_id = bi_PluginID b, ea_organization_uuid = bi_OrganizationID b,
            ea_feature = feature, ea_first_issuer = ew_issuer w, ea_first_issuance_id = ew_issuance_id w,
            ea_last_issuer = ew_issuer w, ea_last_issuance_id = ew_issuance_id w, ea_first_activated_at = effectiveNow,
            ea_last_activated_at = effectiveNow\<rparr>]\<rparr>))
      else Inr (s\<lparr>lc_activations := upd_where (\<lambda>a. activation_key a = k)
        (\<lambda>a. a\<lparr>ea_last_issuer := ew_issuer w, ea_last_issuance_id := ew_issuance_id w, ea_last_activated_at := effectiveNow\<rparr>)
        (lc_activations s)\<rparr>))"

text \<open>\<^verbatim>\<open>UPDATE plugin_entitlement_bindings SET evaluated_through ... WHERE ...\<close>: the marks that are set.\<close>

definition observe_binding ::
    "uuid \<times> string \<times> uuid option \<Rightarrow> timestamp \<Rightarrow> bool \<Rightarrow> bool \<Rightarrow> licences \<Rightarrow> licences" where
  "observe_binding k effectiveNow grace expiry s =
     s\<lparr>lc_bindings := upd_where (\<lambda>w. entitlement_binding_key w = k)
        (\<lambda>w. w\<lparr>ew_evaluated_through := Some effectiveNow,
               ew_observed_grace_at := (if grace then Some effectiveNow else ew_observed_grace_at w),
               ew_observed_expired_at := (if expiry then Some effectiveNow else ew_observed_expired_at w),
               ew_revision := ew_revision w + 1\<rparr>) (lc_bindings s)\<rparr>"

text \<open>The audit events of a decision: an event that is not active is skipped.\<close>

fun audit_events ::
    "entitlement_binding \<Rightarrow> entitlement_grant \<Rightarrow> (bool \<times> string \<times> Binding) list \<Rightarrow> licences \<Rightarrow> licences result" where
  "audit_events w g [] s = Inr s"
| "audit_events w g ((active, kind, b) # rest) s =
     try_then (if active then entitlementAudit (ew_issuer w) (Some b) kind (ew_grant_sequence w) (eg_trust_class g)
         (eg_importer g) (eg_source_digest g) s else Inr s) (audit_events w g rest)"

text \<open>What a stored grant gives a feature, before the activation that the decision may cause.\<close>

definition activated_under :: "Binding \<Rightarrow> string \<Rightarrow> licences \<Rightarrow> entitlement_activation option" where
  "activated_under b feature s = find_activation (bi_InstallationID b, bi_PluginID b, bi_OrganizationID b, feature) s"

definition evaluate_grant ::
    "(string \<Rightarrow> timestamp \<Rightarrow> Grant result) \<Rightarrow> Binding \<Rightarrow> string \<Rightarrow> PluginEntitlementAccess \<Rightarrow> timestamp
       \<Rightarrow> entitlement_binding \<Rightarrow> entitlement_grant \<Rightarrow> licences \<Rightarrow> PluginEntitlementDecision" where
  "evaluate_grant verifier b feature access now w g s =
     (let effectiveNow = effective_now w now;
          verified = verifier (eg_cose g) effectiveNow;
          trusted = trusts (stored_grant w g) verified;
          taken_back = revoked (ew_issuer w) (ew_issuance_id w) s;
          state = grantState verified trusted taken_back effectiveNow;
          reads = ac_Retained access \<and> ac_Compatible access \<and> activated_under b feature s \<noteq> None
      in \<lparr>dc_Feature = feature, dc_State = state,
          dc_Scope = (if ew_organization_uuid w = None then PluginGrantScopeInstallation else PluginGrantScopeOrganization),
          dc_TrustClass = eg_trust_class g,
          dc_Forward = ac_Enabled access \<and> ac_Compatible access \<and> trusted \<and> \<not> taken_back
            \<and> (state = TimeState_text Valid \<or> state = TimeState_text Grace)
            \<and> (case verified of Inr v \<Rightarrow> List.member (gt_EffectiveFeatures v) feature | Inl e \<Rightarrow> False),
          dc_Read = reads, dc_Safety = reads,
          dc_ExpiresAt = Some (eg_expires_at g), dc_GraceUntil = Some (eg_grace_until g), dc_Revision = ew_revision w\<rparr>)"

text \<open>\<^verbatim>\<open>activationChanged\<close>, \<^verbatim>\<open>graceObserved\<close>, \<^verbatim>\<open>expiryObserved\<close>, and whether the binding is updated at all.\<close>

definition activationChanged :: "Binding \<Rightarrow> string \<Rightarrow> PluginEntitlementAccess \<Rightarrow> entitlement_binding \<Rightarrow> licences \<Rightarrow> bool" where
  "activationChanged b feature access w s \<longleftrightarrow>
     ac_Activate access \<and> (case activated_under b feature s of None \<Rightarrow> True
       | Some a \<Rightarrow> ea_last_issuer a \<noteq> ew_issuer w \<or> ea_last_issuance_id a \<noteq> ew_issuance_id w)"

definition graceObserved :: "string \<Rightarrow> entitlement_binding \<Rightarrow> bool" where
  "graceObserved state w \<longleftrightarrow> state = TimeState_text Grace \<and> ew_observed_grace_at w = None"

definition expiryObserved :: "string \<Rightarrow> entitlement_binding \<Rightarrow> bool" where
  "expiryObserved state w \<longleftrightarrow> state = TimeState_text Expired \<and> ew_observed_expired_at w = None"

definition binding_observed :: "string \<Rightarrow> bool \<Rightarrow> timestamp \<Rightarrow> entitlement_binding \<Rightarrow> bool" where
  "binding_observed state changed effectiveNow w \<longleftrightarrow>
     (case ew_evaluated_through w of None \<Rightarrow> True | Some t \<Rightarrow> t < effectiveNow)
     \<or> graceObserved state w \<or> expiryObserved state w \<or> changed"

definition final_decision ::
    "PluginEntitlementAccess \<Rightarrow> bool \<Rightarrow> timestamp \<Rightarrow> entitlement_binding \<Rightarrow> PluginEntitlementDecision \<Rightarrow> PluginEntitlementDecision" where
  "final_decision access changed effectiveNow w d =
     d\<lparr>dc_Read := (if changed then ac_Retained access \<and> ac_Compatible access else dc_Read d),
       dc_Safety := (if changed then ac_Retained access \<and> ac_Compatible access else dc_Safety d),
       dc_Revision := (if binding_observed (dc_State d) changed effectiveNow w then ew_revision w + 1 else ew_revision w)\<rparr>"

definition decide_effects ::
    "Binding \<Rightarrow> uuid option \<Rightarrow> string \<Rightarrow> string \<Rightarrow> bool \<Rightarrow> timestamp \<Rightarrow> entitlement_binding \<Rightarrow> entitlement_grant
       \<Rightarrow> licences \<Rightarrow> licences result" where
  "decide_effects b scope feature state changed effectiveNow w g s =
     try_then (if changed then put_activation b feature w effectiveNow s else Inr s) (\<lambda>s1.
     audit_events w g [(changed, ''feature_activated'', b),
         (graceObserved state w, ''grace_observed'', b\<lparr>bi_OrganizationID := scope_UUID scope\<rparr>),
         (expiryObserved state w, ''expiry_observed'', b\<lparr>bi_OrganizationID := scope_UUID scope\<rparr>)]
       (if binding_observed state changed effectiveNow w
        then observe_binding (bi_InstallationID b, bi_PluginID b, scope) effectiveNow (graceObserved state w) (expiryObserved state w) s1
        else s1))"

definition decidePluginGrantTx ::
    "(string \<Rightarrow> timestamp \<Rightarrow> Grant result) \<Rightarrow> Binding \<Rightarrow> uuid option \<Rightarrow> string \<Rightarrow> PluginEntitlementAccess \<Rightarrow> timestamp
       \<Rightarrow> licences \<Rightarrow> (PluginEntitlementDecision \<times> licences) result" where
  "decidePluginGrantTx verifier b scope feature access now s =
     (case find_binding (bi_InstallationID b, bi_PluginID b, scope) s of
        None \<Rightarrow> Inr (not_entitled feature, s)
      | Some w \<Rightarrow>
     (case find_grant (ew_issuer w) (ew_issuance_id w) s of
        None \<Rightarrow> Inl ErrNoRows
      | Some g \<Rightarrow>
     (let effectiveNow = effective_now w now;
          decision = evaluate_grant verifier b feature access now w g s;
          changed = activationChanged b feature access w s
      in fail_if (ac_Activate access \<and> \<not> dc_Forward decision)
           (NewErrConflict ''feature cannot be activated without a current forward entitlement'')
        (try_then (decide_effects b scope feature (dc_State decision) changed effectiveNow w g s) (\<lambda>s'.
         Inr (final_decision access changed effectiveNow w decision, s'))))))"

definition PluginEntitlementFallback :: "string \<Rightarrow> string \<Rightarrow> bool" where
  "PluginEntitlementFallback organizationState installationState \<longleftrightarrow>
     (organizationState = TimeState_text Expired \<or> organizationState = pluginGrantRevoked)
     \<and> (installationState = TimeState_text Valid \<or> installationState = TimeState_text Grace)"

text \<open>The zero time of Go is the first second of year 1.\<close>

definition zero_time :: timestamp where
  "zero_time = - 62135596800"

text \<open>The organization grant, or the installation-wide one: the decision, the scope it comes from, and the state.\<close>

definition covering_decision ::
    "(string \<Rightarrow> timestamp \<Rightarrow> Grant result) \<Rightarrow> Binding \<Rightarrow> string \<Rightarrow> PluginEntitlementAccess \<Rightarrow> timestamp
       \<Rightarrow> licences \<Rightarrow> (PluginEntitlementDecision \<times> uuid option \<times> licences) result" where
  "covering_decision verifier b feature inspect now s =
     (let scope = organizationScope (bi_OrganizationID b) in
     try_then (decidePluginGrantTx verifier b scope feature inspect now s) (\<lambda>(decision, s1).
     if dc_Scope decision = [] \<or> dc_State decision = TimeState_text Expired \<or> dc_State decision = pluginGrantRevoked
     then try_then (decidePluginGrantTx verifier b None feature inspect now s1) (\<lambda>(wide, s2).
       if dc_Scope decision = [] \<or> PluginEntitlementFallback (dc_State decision) (dc_State wide)
       then Inr (wide, None, s2) else Inr (decision, scope, s2))
     else Inr (decision, scope, s1)))"

definition DecidePluginEntitlementTx ::
    "(string \<Rightarrow> timestamp \<Rightarrow> Grant result) \<Rightarrow> Binding \<Rightarrow> string \<Rightarrow> PluginEntitlementAccess \<Rightarrow> timestamp
       \<Rightarrow> licences \<Rightarrow> (PluginEntitlementDecision \<times> licences) result" where
  "DecidePluginEntitlementTx verifier b feature access now s =
     fail_if (bi_InstallationID b = Nil_uuid \<or> bi_OrganizationID b = Nil_uuid \<or> bi_PluginID b = [] \<or> feature = [] \<or> now = zero_time)
       (NewErrBadRequest ''exact entitlement decision inputs and caller transaction are required'')
    (try_then (covering_decision verifier b feature (access\<lparr>ac_Activate := False\<rparr>) now s) (\<lambda>(decision, scope, s2).
     if ac_Activate access
     then fail_if (\<not> dc_Forward decision) (NewErrConflict ''feature cannot be activated without a current forward entitlement'')
       (decidePluginGrantTx verifier b scope feature access now s2)
     else Inr (decision, s2)))"

section \<open>The sweep\<close>

text \<open>The bindings whose boundaries have passed and are not marked, in the order of the index, at most \<open>limit\<close> of them.\<close>

definition boundary_passed :: "timestamp \<Rightarrow> entitlement_binding \<Rightarrow> entitlement_grant \<Rightarrow> bool" where
  "boundary_passed now w g \<longleftrightarrow>
     (ew_observed_grace_at w = None \<and> eg_expires_at g \<le> effective_now w now \<and> effective_now w now < eg_grace_until g)
     \<or> (ew_observed_expired_at w = None \<and> eg_grace_until g \<le> effective_now w now)"

definition sweep_candidates :: "timestamp \<Rightarrow> licences \<Rightarrow> entitlement_binding list" where
  "sweep_candidates now s =
     sort_key (\<lambda>w. (ew_issuer w, ew_installation_uuid w, ew_plugin_id w, ew_organization_uuid w = None, scope_UUID (ew_organization_uuid w)))
       (filter (\<lambda>w. case find_grant (ew_issuer w) (ew_issuance_id w) s of None \<Rightarrow> False | Some g \<Rightarrow> boundary_passed now w g)
         (lc_bindings s))"

text \<open>One effect transaction. The value is whether it observed a boundary.\<close>

definition sweep_binding :: "timestamp \<Rightarrow> entitlement_binding \<Rightarrow> licences \<Rightarrow> (bool \<times> licences) result" where
  "sweep_binding now item s =
     (case find_binding (entitlement_binding_key item) s of
        None \<Rightarrow> Inl ErrNoRows
      | Some w \<Rightarrow>
     (case find_grant (ew_issuer w) (ew_issuance_id w) s of
        None \<Rightarrow> Inl ErrNoRows
      | Some g \<Rightarrow>
     fail_if (ew_issuer w \<noteq> ew_issuer item) (NewErrConflict ''entitlement issuer changed during sweep'')
    (let effectiveNow = effective_now w now;
         markExpired = ew_observed_expired_at w = None \<and> eg_grace_until g \<le> effectiveNow;
         markGrace = \<not> markExpired \<and> ew_observed_grace_at w = None \<and> eg_expires_at g \<le> effectiveNow \<and> effectiveNow < eg_grace_until g
     in if \<not> markGrace \<and> \<not> markExpired then Inr (False, s)
        else try_then (entitlementAudit (ew_issuer w)
               (Some \<lparr>bi_PluginID = ew_plugin_id item, bi_InstallationID = ew_installation_uuid item,
                  bi_OrganizationID = scope_UUID (ew_organization_uuid item), bi_DeclaredFeatures = []\<rparr>)
               (if markExpired then ''expiry_observed'' else ''grace_observed'') (ew_grant_sequence w) (eg_trust_class g)
               (eg_importer g) (eg_source_digest g)
               (observe_binding (entitlement_binding_key item) effectiveNow markGrace markExpired s)) (\<lambda>s1. Inr (True, s1)))))"

text \<open>
  The effects commit one by one: the result is how many were observed, the error that stopped the sweep, if any, and
  the state, which keeps the effects before the error.
\<close>

fun sweep_items :: "timestamp \<Rightarrow> entitlement_binding list \<Rightarrow> nat \<Rightarrow> licences \<Rightarrow> nat \<times> model_error option \<times> licences" where
  "sweep_items now [] observed s = (observed, None, s)"
| "sweep_items now (item # rest) observed s =
     (case sweep_binding now item s of
        Inl e \<Rightarrow> (observed, Some e, s)
      | Inr (marked, s1) \<Rightarrow> sweep_items now rest (if marked then Suc observed else observed) s1)"

definition SweepPluginEntitlementBoundaries :: "timestamp \<Rightarrow> int \<Rightarrow> licences \<Rightarrow> nat \<times> model_error option \<times> licences" where
  "SweepPluginEntitlementBoundaries now limit s =
     (if now = zero_time \<or> limit < 1 \<or> limit > 1000
      then (0, Some (NewErrBadRequest ''bounded entitlement sweep and Core clock are required''), s)
      else sweep_items now (take (nat limit) (sweep_candidates now s)) 0 s)"

section \<open>Reads\<close>

record PluginEntitlementGrantStatus =
  gs_Scope :: string
  gs_Issuer :: string
  gs_IssuanceID :: uuid
  gs_Sequence :: int
  gs_Features :: "string list"
  gs_OrganizationLimit :: int
  gs_TrustClass :: string
  gs_NotBefore :: timestamp
  gs_ExpiresAt :: timestamp
  gs_GraceUntil :: timestamp
  gs_State :: string

definition limit_of :: "entitlement_grant \<Rightarrow> int" where
  "limit_of g = (case map_of (eg_limits g) LimitOrganizations of None \<Rightarrow> 0 | Some n \<Rightarrow> n)"

text \<open>The organization of a binding, by \<open>LEFT JOIN orgs\<close>.\<close>

definition organization_of :: "entitlement_binding \<Rightarrow> licences \<Rightarrow> string" where
  "organization_of w s =
     (case find (\<lambda>o1. Some (og_uuid o1) = ew_organization_uuid w) (lc_orgs s) of None \<Rightarrow> [] | Some o1 \<Rightarrow> og_id o1)"

definition grant_status ::
    "(string \<Rightarrow> Binding \<Rightarrow> timestamp \<Rightarrow> Grant result) \<Rightarrow> timestamp \<Rightarrow> licences \<Rightarrow> entitlement_binding \<Rightarrow> entitlement_grant
       \<Rightarrow> PluginEntitlementGrantStatus" where
  "grant_status verifier now s w g =
     (let st = stored_grant w g; effectiveNow = effective_now w now; verified = verifier (so_envelope st) (so_covering st) effectiveNow
      in \<lparr>gs_Scope = (if ew_organization_uuid w = None then PluginGrantScopeInstallation else PluginGrantScopeOrganization),
          gs_Issuer = ew_issuer w, gs_IssuanceID = ew_issuance_id w, gs_Sequence = ew_grant_sequence w,
          gs_Features = eg_features g, gs_OrganizationLimit = limit_of g, gs_TrustClass = eg_trust_class g,
          gs_NotBefore = eg_not_before g, gs_ExpiresAt = eg_expires_at g, gs_GraceUntil = eg_grace_until g,
          gs_State = grantState verified (trusts st verified) (revoked (ew_issuer w) (ew_issuance_id w) s) effectiveNow\<rparr>)"

definition PluginEntitlementGrantStatuses ::
    "(string \<Rightarrow> Binding \<Rightarrow> timestamp \<Rightarrow> Grant result) \<Rightarrow> uuid \<Rightarrow> string \<Rightarrow> timestamp \<Rightarrow> licences
       \<Rightarrow> (string \<times> PluginEntitlementGrantStatus) list result" where
  "PluginEntitlementGrantStatuses verifier installation plugin now s =
     try_fold (\<lambda>w statuses.
         case find_grant (ew_issuer w) (ew_issuance_id w) s of
           None \<Rightarrow> Inr statuses
         | Some g \<Rightarrow>
             fail_if (ew_organization_uuid w \<noteq> None \<and> organization_of w s = [])
               (ErrInternal ''an entitlement binding names an organization that does not exist'')
               (Inr (AList.update (organization_of w s) (grant_status verifier now s w g) statuses)))
       (filter (\<lambda>w. ew_installation_uuid w = installation \<and> ew_plugin_id w = plugin) (lc_bindings s)) []"

definition PluginOrganizationLimit :: "uuid \<Rightarrow> string \<Rightarrow> licences \<Rightarrow> int" where
  "PluginOrganizationLimit installation plugin s =
     (case find_binding (installation, plugin, None) s of
        None \<Rightarrow> 0
      | Some w \<Rightarrow> (case find_grant (ew_issuer w) (ew_issuance_id w) s of None \<Rightarrow> 0 | Some g \<Rightarrow> limit_of g))"

end
