(* ===== verification/LicenceHistory.thy ===== *)
theory LicenceHistory
  imports Entitlements
begin

text \<open>
  What holds of persisted plugin licences over every history of imports, decisions, sweeps and changes of the
  organization table (\<open>licence_step\<close>, \<open>run\<close>): licences only advance, an expired or revoked licence stays so, the rule for
  forward work, replays of imports, the well-formedness of the tables, activations, and completeness of the sweep.
\<close>

section \<open>What an operation changes\<close>

lemma entitlementAudit_tables:
  assumes "entitlementAudit issuer b kind sequence class importer digest s = Inr s'"
  shows "lc_orgs s' = lc_orgs s" "lc_grants s' = lc_grants s" "lc_bindings s' = lc_bindings s"
    "lc_snapshots s' = lc_snapshots s" "lc_revocations s' = lc_revocations s" "lc_activations s' = lc_activations s"
    "\<forall>e\<in>set (lc_audit s'). e \<in> set (lc_audit s) \<or> entitlement_audit_checks e"
  using assms by (auto simp: entitlementAudit_def Let_def)

lemma audit_events_tables:
  assumes "audit_events w g events s = Inr s'"
  shows "lc_orgs s' = lc_orgs s \<and> lc_grants s' = lc_grants s \<and> lc_bindings s' = lc_bindings s
    \<and> lc_snapshots s' = lc_snapshots s \<and> lc_revocations s' = lc_revocations s \<and> lc_activations s' = lc_activations s
    \<and> (\<forall>e\<in>set (lc_audit s'). e \<in> set (lc_audit s) \<or> entitlement_audit_checks e)"
  using assms
proof (induction w g events s rule: audit_events.induct)
  case (2 w g active kind b rest s)
  then obtain s1 where
    1: "(if active then entitlementAudit (ew_issuer w) (Some b) kind (ew_grant_sequence w) (eg_trust_class g)
         (eg_importer g) (eg_source_digest g) s else Inr s) = Inr s1"
    and r: "audit_events w g rest s1 = Inr s'"
    by auto
  from "2.IH" [OF 1 r] 1 show ?case
    by (cases active) (auto dest: entitlementAudit_tables)
qed simp

lemma insert_revocations_tables:
  assumes "insert_revocations r us s = (new, s')"
  shows "lc_orgs s' = lc_orgs s \<and> lc_grants s' = lc_grants s \<and> lc_bindings s' = lc_bindings s
    \<and> lc_snapshots s' = lc_snapshots s \<and> lc_activations s' = lc_activations s \<and> lc_audit s' = lc_audit s"
  using assms
  by (induction r us s arbitrary: new s' rule: insert_revocations.induct) (auto simp: Let_def split: if_splits prod.splits)

lemma revoked_iff: "revoked issuer issuance s \<longleftrightarrow> (issuer, issuance) \<in> revocation_key ` set (lc_revocations s)"
  by (force simp: revoked_def list_ex_iff)

lemma revocation_row_key [simp]: "revocation_key (revocation_row r u) = (rv_Issuer r, u)"
  by (simp add: revocation_key_def revocation_row_def)

lemma insert_revocations_rows:
  assumes "insert_revocations r us s = (new, s')"
  shows "revocation_key ` set (lc_revocations s') = revocation_key ` set (lc_revocations s) \<union> (\<lambda>u. (rv_Issuer r, u)) ` set us
    \<and> (distinct (map revocation_key (lc_revocations s)) \<longrightarrow> distinct (map revocation_key (lc_revocations s')))
    \<and> set (lc_revocations s') \<subseteq> set (lc_revocations s) \<union> revocation_row r ` set us"
  using assms
proof (induction r us s arbitrary: new s' rule: insert_revocations.induct)
  case (2 r u us s)
  show ?case
  proof (cases "revoked (rv_Issuer r) u s")
    case True
    with "2.IH"(1) [OF True] "2.prems" show ?thesis by (auto simp: revoked_iff)
  next
    case False
    with "2.prems" obtain new1 where
      "insert_revocations r us (s\<lparr>lc_revocations := lc_revocations s @ [revocation_row r u]\<rparr>) = (new1, s')"
      by (auto simp: Let_def split: prod.splits)
    from "2.IH"(2) [OF False this] False show ?thesis by (auto simp: revoked_iff)
  qed
qed simp

lemma find_binding_upd:
  "(\<And>w. entitlement_binding_key (f w) = entitlement_binding_key w) \<Longrightarrow>
   find (\<lambda>w. entitlement_binding_key w = k) (upd_where P f ws)
     = map_option (\<lambda>w. if P w then f w else w) (find (\<lambda>w. entitlement_binding_key w = k) ws)"
  by (simp add: find_upd_where)

lemma find_append: "find P (xs @ ys) = (case find P xs of None \<Rightarrow> find P ys | Some x \<Rightarrow> Some x)"
  by (induction xs) auto

lemma find_Some_props: "find P xs = Some x \<Longrightarrow> P x \<and> x \<in> set xs"
  by (auto simp: find_Some_iff)

lemma find_binding_key: "find_binding k s = Some w \<Longrightarrow> entitlement_binding_key w = k \<and> w \<in> set (lc_bindings s)"
  by (auto simp: find_binding_def dest: find_Some_props)

lemma find_grant_key: "find_grant issuer issuance s = Some g \<Longrightarrow> entitlement_grant_key g = (issuer, issuance) \<and> g \<in> set (lc_grants s)"
  by (auto simp: find_grant_def dest: find_Some_props)

section \<open>Licences only advance\<close>

text \<open>
  The order of the history: grants are only added, a binding keeps its issuer and its sequence never falls, within a
  sequence its grant stays and its clock never runs backwards, revocations and activations stay.
\<close>

definition binding_advances :: "entitlement_binding \<Rightarrow> entitlement_binding \<Rightarrow> bool" where
  "binding_advances w w' \<longleftrightarrow>
     entitlement_binding_key w' = entitlement_binding_key w \<and> ew_issuer w' = ew_issuer w
     \<and> ew_grant_sequence w \<le> ew_grant_sequence w'
     \<and> (ew_grant_sequence w' = ew_grant_sequence w \<longrightarrow> ew_issuance_id w' = ew_issuance_id w)
     \<and> (case ew_evaluated_through w of None \<Rightarrow> True | Some t \<Rightarrow> (\<exists>t'. ew_evaluated_through w' = Some t' \<and> t \<le> t'))
     \<and> ew_revision w \<le> ew_revision w'"

definition advances :: "licences \<Rightarrow> licences \<Rightarrow> bool" where
  "advances s s' \<longleftrightarrow>
     (\<exists>gs. lc_grants s' = lc_grants s @ gs)
     \<and> (\<forall>k w. find_binding k s = Some w \<longrightarrow> (\<exists>w'. find_binding k s' = Some w' \<and> binding_advances w w'))
     \<and> (\<forall>issuer issuance. revoked issuer issuance s \<longrightarrow> revoked issuer issuance s')
     \<and> (\<forall>k. find_activation k s \<noteq> None \<longrightarrow> find_activation k s' \<noteq> None)"

lemma binding_advances_refl [simp]: "binding_advances w w"
  by (simp add: binding_advances_def split: option.splits)

lemma binding_advances_trans: "binding_advances a b \<Longrightarrow> binding_advances b c \<Longrightarrow> binding_advances a c"
  by (fastforce simp: binding_advances_def split: option.splits)

lemma advances_refl [simp]: "advances s s"
  by (auto simp: advances_def)

lemma advances_trans: "advances a b \<Longrightarrow> advances b c \<Longrightarrow> advances a c"
  by (fastforce simp: advances_def intro: binding_advances_trans)

lemma advancesI:
  assumes "lc_grants s' = lc_grants s @ gs"
    and "\<And>k w. find_binding k s = Some w \<Longrightarrow> \<exists>w'. find_binding k s' = Some w' \<and> binding_advances w w'"
    and "revocation_key ` set (lc_revocations s) \<subseteq> revocation_key ` set (lc_revocations s')"
    and "\<And>k. find_activation k s \<noteq> None \<Longrightarrow> find_activation k s' \<noteq> None"
  shows "advances s s'"
  using assms by (auto simp: advances_def revoked_iff)

lemma grant_import_Inr:
  assumes "ImportPluginEntitlementGrant sha256 g importer digest s = Inr (new, s')"
  shows "\<not> grant_projection_invalid g"
    and "validEntitlementImport sha256 (gt_Envelope g) (gt_Digest g) (gt_Issuer g) importer digest (gt_TrustClass g) = Inr ()"
    and "replaces_binding g s = Inr new"
    and "if new then \<exists>s1. insert_entitlement_grant (grant_row g importer digest) s = Inr s1
           \<and> entitlementAudit (gt_Issuer g) (Some (grant_binding g)) ''grant_imported'' (gt_Sequence g) (gt_TrustClass g)
               importer digest (put_binding g s1) = Inr s'
         else s' = s"
  using assms by (auto simp: ImportPluginEntitlementGrant_def split: if_splits)

lemma insert_entitlement_grant_Inr:
  "insert_entitlement_grant g s = Inr s1 \<longleftrightarrow>
     entitlement_grant_checks g \<and> entitlement_grant_key g \<notin> entitlement_grant_key ` set (lc_grants s)
     \<and> grant_sequence_key g \<notin> grant_sequence_key ` set (lc_grants s) \<and> organization_known (eg_organization_uuid g) s
     \<and> s1 = s\<lparr>lc_grants := lc_grants s @ [g]\<rparr>"
  by (auto simp: insert_entitlement_grant_def)

lemma replaces_binding_Inr:
  assumes "replaces_binding g s = Inr new" and "find_binding (grant_scope g) s = Some w"
  shows "ew_issuer w = gt_Issuer g"
    and "if new then ew_grant_sequence w < gt_Sequence g \<and> ew_issuance_id w \<noteq> gt_IssuanceID g
         else ew_grant_sequence w = gt_Sequence g \<and> ew_issuance_id w = gt_IssuanceID g"
  using assms by (auto simp: replaces_binding_def split: if_splits option.splits)

text \<open>The binding table after an import.\<close>

definition replaced_binding :: "Grant \<Rightarrow> entitlement_binding \<Rightarrow> entitlement_binding" where
  "replaced_binding g w =
     w\<lparr>ew_issuance_id := gt_IssuanceID g, ew_grant_sequence := gt_Sequence g, ew_observed_grace_at := None,
       ew_observed_expired_at := None, ew_revision := ew_revision w + 1\<rparr>"

definition new_binding :: "Grant \<Rightarrow> entitlement_binding" where
  "new_binding g =
     \<lparr>ew_installation_uuid = gt_InstallationID g, ew_plugin_id = gt_PluginID g,
      ew_organization_uuid = organizationScope (gt_OrganizationID g), ew_issuer = gt_Issuer g,
      ew_issuance_id = gt_IssuanceID g, ew_grant_sequence = gt_Sequence g, ew_evaluated_through = None,
      ew_observed_grace_at = None, ew_observed_expired_at = None, ew_revision = 1\<rparr>"

lemma replaced_binding_key [simp]: "entitlement_binding_key (replaced_binding g w) = entitlement_binding_key w"
  by (simp add: replaced_binding_def entitlement_binding_key_def)

lemma new_binding_key [simp]: "entitlement_binding_key (new_binding g) = grant_scope g"
  by (simp add: new_binding_def entitlement_binding_key_def grant_scope_def)

lemma put_binding_eq:
  "put_binding g s = s\<lparr>lc_bindings := (if find_binding (grant_scope g) s = None then lc_bindings s @ [new_binding g]
     else upd_where (\<lambda>w. entitlement_binding_key w = grant_scope g) (replaced_binding g) (lc_bindings s))\<rparr>"
  by (simp add: put_binding_def new_binding_def replaced_binding_def [abs_def])

lemma find_put_binding:
  "find_binding k (put_binding g s) =
     (if k = grant_scope g then Some (case find_binding k s of None \<Rightarrow> new_binding g | Some w \<Rightarrow> replaced_binding g w)
      else find_binding k s)"
proof (cases "find_binding (grant_scope g) s")
  case None
  then show ?thesis
    by (auto simp: put_binding_eq find_binding_def find_append split: option.splits)
next
  case (Some w)
  have "find_binding k (put_binding g s)
      = map_option (\<lambda>w. if entitlement_binding_key w = grant_scope g then replaced_binding g w else w) (find_binding k s)"
    using Some by (simp add: put_binding_eq find_binding_def find_binding_upd)
  with Some show ?thesis
    by (cases "find_binding k s") (auto dest: find_binding_key)
qed

lemma grant_import_advances:
  assumes "ImportPluginEntitlementGrant sha256 g importer digest s = Inr (new, s')"
  shows "advances s s'"
proof (cases new)
  case False
  with grant_import_Inr(4) [OF assms] show ?thesis by simp
next
  case True
  with grant_import_Inr(4) [OF assms] obtain s1 where
    i: "insert_entitlement_grant (grant_row g importer digest) s = Inr s1" and
    a: "entitlementAudit (gt_Issuer g) (Some (grant_binding g)) ''grant_imported'' (gt_Sequence g) (gt_TrustClass g)
          importer digest (put_binding g s1) = Inr s'"
    by auto
  have s1: "s1 = s\<lparr>lc_grants := lc_grants s @ [grant_row g importer digest]\<rparr>"
    using i by (simp add: insert_entitlement_grant_Inr)
  have b: "find_binding k s' = find_binding k (put_binding g s)" for k
    using entitlementAudit_tables(3) [OF a] by (simp add: find_binding_def put_binding_eq s1)
  show ?thesis
  proof (rule advancesI)
    show "lc_grants s' = lc_grants s @ [grant_row g importer digest]"
      using entitlementAudit_tables(2) [OF a] by (simp add: put_binding_eq s1)
    show "revocation_key ` set (lc_revocations s) \<subseteq> revocation_key ` set (lc_revocations s')"
      using entitlementAudit_tables(5) [OF a] by (simp add: put_binding_eq s1)
    show "find_activation k s \<noteq> None \<Longrightarrow> find_activation k s' \<noteq> None" for k
      using entitlementAudit_tables(6) [OF a] by (simp add: put_binding_eq s1 find_activation_def)
    fix k w assume w: "find_binding k s = Some w"
    have "binding_advances w (replaced_binding g w)" if "k = grant_scope g"
      using replaces_binding_Inr [OF grant_import_Inr(3) [OF assms]] w that True
      by (auto simp: binding_advances_def replaced_binding_def entitlement_binding_key_def split: option.splits)
    with w show "\<exists>w'. find_binding k s' = Some w' \<and> binding_advances w w'"
      by (auto simp: b find_put_binding)
  qed
qed

lemma bumped_key [simp]: "entitlement_binding_key (bumped w) = entitlement_binding_key w"
  by (simp add: bumped_def entitlement_binding_key_def)

lemma revocation_import_Inr:
  assumes "ImportPluginEntitlementRevocations sha256 r importer digest s = Inr (new, s')"
  shows "(\<not> new \<and> s' = s) \<or> (new \<and> (\<exists>ids s2.
      entitlement_snapshot_checks (snapshot_row r importer digest)
    \<and> snapshot_key (snapshot_row r importer digest) \<notin> snapshot_key ` set (lc_snapshots s)
    \<and> insert_revocations r (rv_IssuanceIDs r) (s\<lparr>lc_snapshots := lc_snapshots s @ [snapshot_row r importer digest]\<rparr>) = (ids, s2)
    \<and> entitlementAudit (rv_Issuer r) None ''revocations_imported'' (rv_Sequence r) (rv_TrustClass r) importer digest
        (bump_bindings (rv_Issuer r) ids s2) = Inr s'))"
  using assms
  by (auto simp: ImportPluginEntitlementRevocations_def Let_def insert_snapshot_def split: if_splits prod.splits)

lemma revocation_import_advances:
  assumes "ImportPluginEntitlementRevocations sha256 r importer digest s = Inr (new, s')"
  shows "advances s s'"
  using revocation_import_Inr [OF assms]
proof (elim disjE conjE exE)
  fix ids s2
  assume i: "insert_revocations r (rv_IssuanceIDs r) (s\<lparr>lc_snapshots := lc_snapshots s @ [snapshot_row r importer digest]\<rparr>) = (ids, s2)"
    and a: "entitlementAudit (rv_Issuer r) None ''revocations_imported'' (rv_Sequence r) (rv_TrustClass r) importer digest
        (bump_bindings (rv_Issuer r) ids s2) = Inr s'"
  note t = entitlementAudit_tables [OF a] insert_revocations_tables [OF i]
  have "binding_advances w (bumped w)" for w
    by (simp add: bumped_def binding_advances_def entitlement_binding_key_def split: option.splits)
  moreover have "find_binding k s' = map_option
      (\<lambda>w. if ew_issuer w = rv_Issuer r \<and> List.member ids (ew_issuance_id w) then bumped w else w) (find_binding k s)" for k
    using t by (simp add: find_binding_def bump_bindings_def find_binding_upd)
  ultimately show ?thesis
    using t insert_revocations_rows [OF i]
    by (intro advancesI [of _ _ "[]"]) (auto simp: bump_bindings_def find_activation_def)
qed simp

text \<open>A decision: what it returns, and how it changes the tables.\<close>

lemma put_activation_Inr:
  assumes "put_activation b feature w now s = Inr s'"
  shows "lc_orgs s' = lc_orgs s \<and> lc_grants s' = lc_grants s \<and> lc_bindings s' = lc_bindings s
    \<and> lc_snapshots s' = lc_snapshots s \<and> lc_revocations s' = lc_revocations s \<and> lc_audit s' = lc_audit s"
    and "find_activation k s \<noteq> None \<Longrightarrow> find_activation k s' \<noteq> None"
    and "find_activation k s' \<noteq> None \<Longrightarrow> find_activation k s = None \<Longrightarrow>
      k = (bi_InstallationID b, bi_PluginID b, bi_OrganizationID b, feature)"
proof -
  show "lc_orgs s' = lc_orgs s \<and> lc_grants s' = lc_grants s \<and> lc_bindings s' = lc_bindings s
    \<and> lc_snapshots s' = lc_snapshots s \<and> lc_revocations s' = lc_revocations s \<and> lc_audit s' = lc_audit s"
    using assms by (auto simp: put_activation_def Let_def split: if_splits)
  show "find_activation k s \<noteq> None \<Longrightarrow> find_activation k s' \<noteq> None"
    using assms
    by (auto simp: put_activation_def Let_def find_activation_def find_append find_upd_where activation_key_def split: if_splits)
  show "find_activation k s' \<noteq> None \<Longrightarrow> find_activation k s = None \<Longrightarrow>
      k = (bi_InstallationID b, bi_PluginID b, bi_OrganizationID b, feature)"
    using assms
    by (auto simp: put_activation_def Let_def find_activation_def find_append find_upd_where activation_key_def
        split: if_splits option.splits)
qed

definition observed_binding :: "timestamp \<Rightarrow> bool \<Rightarrow> bool \<Rightarrow> entitlement_binding \<Rightarrow> entitlement_binding" where
  "observed_binding t grace expiry w =
     w\<lparr>ew_evaluated_through := Some t,
       ew_observed_grace_at := (if grace then Some t else ew_observed_grace_at w),
       ew_observed_expired_at := (if expiry then Some t else ew_observed_expired_at w),
       ew_revision := ew_revision w + 1\<rparr>"

lemma observed_binding_key [simp]: "entitlement_binding_key (observed_binding t grace expiry w) = entitlement_binding_key w"
  by (simp add: observed_binding_def entitlement_binding_key_def)

lemma observe_binding_eq:
  "observe_binding k t grace expiry s =
     s\<lparr>lc_bindings := upd_where (\<lambda>w. entitlement_binding_key w = k) (observed_binding t grace expiry) (lc_bindings s)\<rparr>"
  by (simp add: observe_binding_def observed_binding_def [abs_def])

lemma find_observe_binding:
  "find_binding k' (observe_binding k t grace expiry s) =
     map_option (\<lambda>w. if k' = k then observed_binding t grace expiry w else w) (find_binding k' s)"
proof -
  have "find_binding k' (observe_binding k t grace expiry s) =
     map_option (\<lambda>w. if entitlement_binding_key w = k then observed_binding t grace expiry w else w) (find_binding k' s)"
    by (simp add: observe_binding_eq find_binding_def find_binding_upd)
  then show ?thesis
    by (cases "find_binding k' s") (auto dest: find_binding_key)
qed

lemma effective_now_ge: "now \<le> effective_now w now" "ew_evaluated_through w = Some t \<Longrightarrow> t \<le> effective_now w now"
  by (auto simp: effective_now_def split: option.splits)

lemma observed_binding_advances: "binding_advances w (observed_binding (effective_now w now) grace expiry w)"
  using effective_now_ge(2) [of w _ now]
  by (auto simp: binding_advances_def observed_binding_def entitlement_binding_key_def split: option.splits)

lemma decide_Inr:
  assumes "decidePluginGrantTx verifier b scope feature access now s = Inr (d, s')"
  shows "(find_binding (bi_InstallationID b, bi_PluginID b, scope) s = None \<and> d = not_entitled feature \<and> s' = s) \<or>
    (\<exists>w g. find_binding (bi_InstallationID b, bi_PluginID b, scope) s = Some w
     \<and> find_grant (ew_issuer w) (ew_issuance_id w) s = Some g
     \<and> d = final_decision access (activationChanged b feature access w s) (effective_now w now) w
         (evaluate_grant verifier b feature access now w g s)
     \<and> (ac_Activate access \<longrightarrow> dc_Forward d)
     \<and> decide_effects b scope feature (dc_State d) (activationChanged b feature access w s) (effective_now w now) w g s = Inr s')"
  using assms by (auto simp: decidePluginGrantTx_def Let_def final_decision_def split: option.splits)

lemma observe_binding_other [simp]:
  "lc_orgs (if c then observe_binding k t x y s else s) = lc_orgs s"
  "lc_grants (if c then observe_binding k t x y s else s) = lc_grants s"
  "lc_snapshots (if c then observe_binding k t x y s else s) = lc_snapshots s"
  "lc_revocations (if c then observe_binding k t x y s else s) = lc_revocations s"
  "lc_activations (if c then observe_binding k t x y s else s) = lc_activations s"
  "lc_audit (if c then observe_binding k t x y s else s) = lc_audit s"
  by (simp_all add: observe_binding_def)

lemma decide_effects_Inr:
  assumes "decide_effects b scope feature state changed t w g s = Inr s'"
  shows "lc_orgs s' = lc_orgs s \<and> lc_grants s' = lc_grants s \<and> lc_snapshots s' = lc_snapshots s \<and> lc_revocations s' = lc_revocations s"
    and "lc_bindings s' = lc_bindings (if binding_observed state changed t w
           then observe_binding (bi_InstallationID b, bi_PluginID b, scope) t (graceObserved state w) (expiryObserved state w) s else s)"
    and "if changed then \<exists>s1. put_activation b feature w t s = Inr s1 \<and> lc_activations s' = lc_activations s1
         else lc_activations s' = lc_activations s"
    and "\<forall>e\<in>set (lc_audit s'). e \<in> set (lc_audit s) \<or> entitlement_audit_checks e"
proof -
  from assms obtain s1 where
    p: "(if changed then put_activation b feature w t s else Inr s) = Inr s1" and
    a: "audit_events w g [(changed, ''feature_activated'', b),
         (graceObserved state w, ''grace_observed'', b\<lparr>bi_OrganizationID := scope_UUID scope\<rparr>),
         (expiryObserved state w, ''expiry_observed'', b\<lparr>bi_OrganizationID := scope_UUID scope\<rparr>)]
       (if binding_observed state changed t w
        then observe_binding (bi_InstallationID b, bi_PluginID b, scope) t (graceObserved state w) (expiryObserved state w) s1
        else s1) = Inr s'"
    by (auto simp: decide_effects_def)
  have "lc_orgs s1 = lc_orgs s \<and> lc_grants s1 = lc_grants s \<and> lc_bindings s1 = lc_bindings s
      \<and> lc_snapshots s1 = lc_snapshots s \<and> lc_revocations s1 = lc_revocations s \<and> lc_audit s1 = lc_audit s"
    using p by (auto split: if_splits dest: put_activation_Inr(1))
  with audit_events_tables [OF a]
  show "lc_orgs s' = lc_orgs s \<and> lc_grants s' = lc_grants s \<and> lc_snapshots s' = lc_snapshots s \<and> lc_revocations s' = lc_revocations s"
    and "lc_bindings s' = lc_bindings (if binding_observed state changed t w
           then observe_binding (bi_InstallationID b, bi_PluginID b, scope) t (graceObserved state w) (expiryObserved state w) s else s)"
    and "\<forall>e\<in>set (lc_audit s'). e \<in> set (lc_audit s) \<or> entitlement_audit_checks e"
    by (auto simp: observe_binding_def)
  from p audit_events_tables [OF a]
  show "if changed then \<exists>s1. put_activation b feature w t s = Inr s1 \<and> lc_activations s' = lc_activations s1
         else lc_activations s' = lc_activations s"
    by (simp split: if_splits)
qed

lemma decide_advances:
  assumes "decidePluginGrantTx verifier b scope feature access now s = Inr (d, s')"
  shows "advances s s'"
  using decide_Inr [OF assms]
proof (elim disjE conjE exE)
  fix w g
  assume w: "find_binding (bi_InstallationID b, bi_PluginID b, scope) s = Some w"
    and e: "decide_effects b scope feature (dc_State d) (activationChanged b feature access w s) (effective_now w now) w g s = Inr s'"
  note t = decide_effects_Inr [OF e]
  show ?thesis
  proof (rule advancesI [of _ _ "[]"])
    fix k v assume v: "find_binding k s = Some v"
    have "find_binding k s' = find_binding k (if binding_observed (dc_State d) (activationChanged b feature access w s) (effective_now w now) w
           then observe_binding (bi_InstallationID b, bi_PluginID b, scope) (effective_now w now)
             (graceObserved (dc_State d) w) (expiryObserved (dc_State d) w) s else s)"
      unfolding find_binding_def t(2) ..
    moreover have "v = w" if "k = (bi_InstallationID b, bi_PluginID b, scope)"
      using v w that by simp
    ultimately show "\<exists>w'. find_binding k s' = Some w' \<and> binding_advances v w'"
      using v by (auto simp: find_observe_binding observed_binding_advances)
  next
    fix k assume "find_activation k s \<noteq> None"
    then show "find_activation k s' \<noteq> None"
      using t(3) put_activation_Inr(2) [of b feature w "effective_now w now" s _ k]
      by (auto simp: find_activation_def split: if_splits)
  qed (use t(1) in auto)
qed simp

lemma covering_decision_Inr:
  assumes "covering_decision verifier b feature inspect now s = Inr (d, scope, s2)"
  shows "\<exists>d1 s1. decidePluginGrantTx verifier b (organizationScope (bi_OrganizationID b)) feature inspect now s = Inr (d1, s1)
    \<and> (if dc_Scope d1 = [] \<or> dc_State d1 = TimeState_text Expired \<or> dc_State d1 = pluginGrantRevoked
       then \<exists>wide. decidePluginGrantTx verifier b None feature inspect now s1 = Inr (wide, s2)
         \<and> (if dc_Scope d1 = [] \<or> PluginEntitlementFallback (dc_State d1) (dc_State wide)
            then d = wide \<and> scope = None else d = d1 \<and> scope = organizationScope (bi_OrganizationID b))
       else d = d1 \<and> scope = organizationScope (bi_OrganizationID b) \<and> s2 = s1)"
proof -
  from assms obtain d1 s1 where
    1: "decidePluginGrantTx verifier b (organizationScope (bi_OrganizationID b)) feature inspect now s = Inr (d1, s1)" and
    2: "(if dc_Scope d1 = [] \<or> dc_State d1 = TimeState_text Expired \<or> dc_State d1 = pluginGrantRevoked
     then try_then (decidePluginGrantTx verifier b None feature inspect now s1) (\<lambda>(wide, s2).
       if dc_Scope d1 = [] \<or> PluginEntitlementFallback (dc_State d1) (dc_State wide)
       then Inr (wide, None, s2) else Inr (d1, organizationScope (bi_OrganizationID b), s2))
     else Inr (d1, organizationScope (bi_OrganizationID b), s1)) = Inr (d, scope, s2)"
    by (auto simp: covering_decision_def Let_def simp del: TimeState_text.simps)
  show ?thesis
  proof (intro exI conjI)
    from 2 show "if dc_Scope d1 = [] \<or> dc_State d1 = TimeState_text Expired \<or> dc_State d1 = pluginGrantRevoked
       then \<exists>wide. decidePluginGrantTx verifier b None feature inspect now s1 = Inr (wide, s2)
         \<and> (if dc_Scope d1 = [] \<or> PluginEntitlementFallback (dc_State d1) (dc_State wide)
            then d = wide \<and> scope = None else d = d1 \<and> scope = organizationScope (bi_OrganizationID b))
       else d = d1 \<and> scope = organizationScope (bi_OrganizationID b) \<and> s2 = s1"
    proof (cases "dc_Scope d1 = [] \<or> dc_State d1 = TimeState_text Expired \<or> dc_State d1 = pluginGrantRevoked")
      case True
      from 2 obtain wide s3 where "decidePluginGrantTx verifier b None feature inspect now s1 = Inr (wide, s3)" and
        "(if dc_Scope d1 = [] \<or> PluginEntitlementFallback (dc_State d1) (dc_State wide)
          then Inr (wide, None, s3) else Inr (d1, organizationScope (bi_OrganizationID b), s3))
         = (Inr (d, scope, s2) :: (PluginEntitlementDecision \<times> uuid option \<times> licences) result)"
        unfolding if_P [OF True] try_then_Inr_iff split_paired_Ex prod.case by (elim exE conjE) (rule that)
      with True show ?thesis by (auto split: if_splits)
    qed simp
  qed (rule 1)
qed

lemma decision_Inr:
  assumes "DecidePluginEntitlementTx verifier b feature access now s = Inr (d, s')"
  shows "\<exists>d2 scope s2. covering_decision verifier b feature (access\<lparr>ac_Activate := False\<rparr>) now s = Inr (d2, scope, s2)
    \<and> (if ac_Activate access then dc_Forward d2 \<and> decidePluginGrantTx verifier b scope feature access now s2 = Inr (d, s')
       else d = d2 \<and> s' = s2)"
  using assms by (auto simp: DecidePluginEntitlementTx_def split: if_splits)

lemma covering_decision_advances:
  "covering_decision verifier b feature inspect now s = Inr (d, scope, s2) \<Longrightarrow> advances s s2"
  by (drule covering_decision_Inr) (auto split: if_splits dest!: decide_advances intro: advances_trans)

lemma decision_advances:
  "DecidePluginEntitlementTx verifier b feature access now s = Inr (d, s') \<Longrightarrow> advances s s'"
  by (drule decision_Inr)
    (auto split: if_splits dest!: decide_advances covering_decision_advances intro: advances_trans)

lemma sweep_binding_advances:
  assumes "sweep_binding now item s = Inr (marked, s')"
  shows "advances s s'"
proof -
  from assms obtain w g where
    w: "find_binding (entitlement_binding_key item) s = Some w" and
    g: "find_grant (ew_issuer w) (ew_issuance_id w) s = Some g"
    by (auto simp: sweep_binding_def split: option.splits)
  show ?thesis
  proof (cases marked)
    case False
    with assms w g show ?thesis by (auto simp: sweep_binding_def Let_def split: if_splits)
  next
    case True
    with assms w g obtain x y kind b where
      a: "entitlementAudit (ew_issuer w) (Some b) kind (ew_grant_sequence w) (eg_trust_class g) (eg_importer g) (eg_source_digest g)
        (observe_binding (entitlement_binding_key item) (effective_now w now) x y s) = Inr s'"
      by (auto simp: sweep_binding_def Let_def split: if_splits)
    have b: "find_binding k s' = find_binding k (observe_binding (entitlement_binding_key item) (effective_now w now) x y s)" for k
      unfolding find_binding_def entitlementAudit_tables(3) [OF a] ..
    show ?thesis
    proof (rule advancesI [of _ _ "[]"])
      fix k v assume v: "find_binding k s = Some v"
      then have "v = w" if "k = entitlement_binding_key item"
        using w that by simp
      with v show "\<exists>w'. find_binding k s' = Some w' \<and> binding_advances v w'"
        by (auto simp: b find_observe_binding observed_binding_advances)
    qed (use entitlementAudit_tables [OF a] in \<open>auto simp: observe_binding_def find_activation_def\<close>)
  qed
qed

lemma sweep_items_advances: "advances s (snd (snd (sweep_items now items n s)))"
proof (induction now items n s rule: sweep_items.induct)
  case (2 now item rest observed s)
  then show ?case
    by (auto split: sum.splits dest: sweep_binding_advances intro: advances_trans)
qed simp

lemma sweep_advances: "advances s (snd (snd (SweepPluginEntitlementBoundaries now limit s)))"
  by (simp add: SweepPluginEntitlementBoundaries_def sweep_items_advances)

section \<open>Histories\<close>

text \<open>A run of labelled steps.\<close>

primrec run :: "('s \<Rightarrow> 'a \<Rightarrow> 's \<Rightarrow> bool) \<Rightarrow> 's \<Rightarrow> 'a list \<Rightarrow> 's \<Rightarrow> bool" where
  "run step s [] s' \<longleftrightarrow> s' = s"
| "run step s (a # as) s' \<longleftrightarrow> (\<exists>s1. step s a s1 \<and> run step s1 as s')"

lemma run_invariant:
  "\<lbrakk>run step s as s'; I s; \<And>s a s'. step s a s' \<Longrightarrow> I s \<Longrightarrow> I s'\<rbrakk> \<Longrightarrow> I s'"
  by (induction as arbitrary: s) auto

text \<open>Steps along an order: a run goes along the order.\<close>

locale ordered_history =
  fixes step :: "'s \<Rightarrow> 'a \<Rightarrow> 's \<Rightarrow> bool" and le :: "'s \<Rightarrow> 's \<Rightarrow> bool"
  assumes le_refl: "le s s"
    and le_trans: "le s1 s2 \<Longrightarrow> le s2 s3 \<Longrightarrow> le s1 s3"
    and step_le: "step s a s' \<Longrightarrow> le s s'"
begin

lemma run_le: "run step s as s' \<Longrightarrow> le s s'"
  by (induction as arbitrary: s) (auto intro: le_refl le_trans step_le)

end

text \<open>
  What can happen to the licences of an installation: imports, decisions, sweeps, and changes of the organization
  table that keep the organizations that licences refer to. Every decision has its own clock, trust and inputs.
\<close>

datatype licence_event =
    GrantImported Grant bool
  | RevocationsImported Revocations bool
  | Decided Binding string PluginEntitlementAccess timestamp PluginEntitlementDecision
  | Swept
  | OrganizationsChanged

definition organizations_kept :: "licences \<Rightarrow> org_ref list \<Rightarrow> bool" where
  "organizations_kept s os \<longleftrightarrow>
     (\<forall>g\<in>set (lc_grants s). organization_known (eg_organization_uuid g) (s\<lparr>lc_orgs := os\<rparr>))
     \<and> (\<forall>a\<in>set (lc_activations s). organization_known (Some (ea_organization_uuid a)) (s\<lparr>lc_orgs := os\<rparr>))"

inductive licence_step :: "(string \<Rightarrow> string) \<Rightarrow> licences \<Rightarrow> licence_event \<Rightarrow> licences \<Rightarrow> bool" for sha256 where
  import_grant: "ImportPluginEntitlementGrant sha256 g importer digest s = Inr (new, s') \<Longrightarrow>
     licence_step sha256 s (GrantImported g new) s'"
| import_revocations: "ImportPluginEntitlementRevocations sha256 r importer digest s = Inr (new, s') \<Longrightarrow>
     licence_step sha256 s (RevocationsImported r new) s'"
| decide: "DecidePluginEntitlementTx verifier b feature access now s = Inr (d, s') \<Longrightarrow>
     licence_step sha256 s (Decided b feature access now d) s'"
| sweep: "SweepPluginEntitlementBoundaries now limit s = (n, failure, s') \<Longrightarrow> licence_step sha256 s Swept s'"
| organizations: "organizations_kept s os \<Longrightarrow> licence_step sha256 s OrganizationsChanged (s\<lparr>lc_orgs := os\<rparr>)"

inductive_cases licence_stepE: "licence_step sha256 s e s'"

lemma organizations_advances: "advances s (s\<lparr>lc_orgs := os\<rparr>)"
  by (rule advancesI [of _ _ "[]"]) (simp_all add: find_binding_def find_activation_def)

lemma licence_step_advances: "licence_step sha256 s e s' \<Longrightarrow> advances s s'"
proof (induction rule: licence_step.induct)
  case (sweep now limit s n failure s')
  with sweep_advances [of s now limit] show ?case by simp
qed (auto intro: grant_import_advances revocation_import_advances decision_advances organizations_advances)

interpretation licence_history: ordered_history "licence_step sha256" advances
  by unfold_locales (auto intro: advances_trans licence_step_advances)

lemma find_grant_advances:
  assumes "advances s s'" "find_grant issuer issuance s = Some g"
  shows "find_grant issuer issuance s' = Some g"
  using assms by (auto simp: advances_def find_grant_def find_append)

text \<open>
  C18. Over any history of imports, decisions and sweeps a binding keeps its issuer and its sequence never falls;
  within a sequence it keeps its grant and its clock never runs backwards. An issuance that was revoked stays
  revoked, and no grant is ever changed or lost.
\<close>

theorem licences_advance:
  assumes "run (licence_step sha256) s es s'"
  shows "(\<forall>k w. find_binding k s = Some w \<longrightarrow> (\<exists>w'. find_binding k s' = Some w' \<and> ew_issuer w' = ew_issuer w
        \<and> ew_grant_sequence w \<le> ew_grant_sequence w'
        \<and> (ew_grant_sequence w' = ew_grant_sequence w \<longrightarrow> ew_issuance_id w' = ew_issuance_id w)
        \<and> effective_now w now \<le> effective_now w' now))
    \<and> (\<forall>issuer issuance. revoked issuer issuance s \<longrightarrow> revoked issuer issuance s')
    \<and> (\<forall>issuer issuance g. find_grant issuer issuance s = Some g \<longrightarrow> find_grant issuer issuance s' = Some g)"
proof -
  from licence_history.run_le [OF assms] have a: "advances s s'" .
  have now: "effective_now w now \<le> effective_now w' now" if "binding_advances w w'" for w w'
    using that by (auto simp: binding_advances_def effective_now_def split: option.splits)
  have "\<exists>w'. find_binding k s' = Some w' \<and> ew_issuer w' = ew_issuer w \<and> ew_grant_sequence w \<le> ew_grant_sequence w'
        \<and> (ew_grant_sequence w' = ew_grant_sequence w \<longrightarrow> ew_issuance_id w' = ew_issuance_id w)
        \<and> effective_now w now \<le> effective_now w' now" if w: "find_binding k s = Some w" for k w
  proof -
    from a w obtain w' where "find_binding k s' = Some w'" "binding_advances w w'"
      unfolding advances_def by blast
    with now [of w w'] show ?thesis by (auto simp: binding_advances_def)
  qed
  with a find_grant_advances [OF a] show ?thesis
    by (simp add: advances_def)
qed

section \<open>What a decision rests on\<close>

lemma evaluate_forward:
  assumes "dc_Forward (evaluate_grant verifier b feature access now w g s)"
  shows "\<exists>v. verifier (eg_cose g) (effective_now w now) = Inr v \<and> trusts (stored_grant w g) (Inr v)
    \<and> \<not> revoked (ew_issuer w) (ew_issuance_id w) s
    \<and> gt_NotBefore v \<le> effective_now w now
    \<and> (effective_now w now < eg_expires_at g \<or> effective_now w now < eg_grace_until g)
    \<and> feature \<in> set (gt_EffectiveFeatures v) \<and> ac_Enabled access \<and> ac_Compatible access"
  using assms
  by (auto simp: evaluate_grant_def Let_def grantState_def EvaluateTime_def trusts_def stored_grant_def pluginGrantRevoked_def
      split: sum.splits if_splits)

lemma evaluate_state_Expired:
  assumes "dc_State (evaluate_grant verifier b feature access now w g s) = TimeState_text Expired"
  shows "eg_expires_at g \<le> effective_now w now \<and> eg_grace_until g \<le> effective_now w now"
  using assms
  by (auto simp: evaluate_grant_def Let_def grantState_def EvaluateTime_def trusts_def stored_grant_def pluginGrantRevoked_def
      split: sum.splits if_splits)

lemma evaluate_state_revoked:
  assumes "revoked (ew_issuer w) (ew_issuance_id w) s"
  shows "dc_State (evaluate_grant verifier b feature access now w g s) \<in> {''untrusted'', pluginGrantRevoked}"
  using assms by (auto simp: evaluate_grant_def Let_def grantState_def split: sum.splits)

lemma final_decision_simps [simp]:
  "dc_Forward (final_decision access changed t w d) = dc_Forward d"
  "dc_State (final_decision access changed t w d) = dc_State d"
  "dc_Scope (final_decision access changed t w d) = dc_Scope d"
  by (simp_all add: final_decision_def)

text \<open>The clock of a binding after a decision: no later decision of the binding is evaluated before this one.\<close>

lemma decide_clock:
  assumes "decidePluginGrantTx verifier b scope feature access now s = Inr (d, s')"
    and "find_binding (bi_InstallationID b, bi_PluginID b, scope) s = Some w"
  shows "\<exists>w'. find_binding (bi_InstallationID b, bi_PluginID b, scope) s' = Some w'
    \<and> ew_evaluated_through w' = Some (effective_now w now) \<and> ew_grant_sequence w' = ew_grant_sequence w
    \<and> ew_issuer w' = ew_issuer w \<and> ew_issuance_id w' = ew_issuance_id w"
proof -
  from decide_Inr [OF assms(1)] assms(2) obtain g where
    e: "decide_effects b scope feature (dc_State d) (activationChanged b feature access w s) (effective_now w now) w g s = Inr s'"
    by auto
  let ?o = "binding_observed (dc_State d) (activationChanged b feature access w s) (effective_now w now) w"
  have f: "find_binding (bi_InstallationID b, bi_PluginID b, scope) s'
      = Some (if ?o then observed_binding (effective_now w now) (graceObserved (dc_State d) w) (expiryObserved (dc_State d) w) w else w)"
    using assms(2) find_observe_binding unfolding find_binding_def decide_effects_Inr(2) [OF e]
    by (simp add: find_binding_def [symmetric])
  have "ew_evaluated_through w = Some (effective_now w now)" if "\<not> ?o"
    using that by (auto simp: binding_observed_def effective_now_def split: option.splits)
  with f show ?thesis by (auto simp: observed_binding_def)
qed

lemma grant_past_grace:
  assumes "eg_expires_at g \<le> effective_now w now" and "eg_grace_until g \<le> effective_now w now"
  shows "\<not> dc_Forward (evaluate_grant verifier b feature access now w g s)"
  using assms evaluate_forward by fastforce

text \<open>
  C16. A licence that a decision has found expired never comes back: whatever the clock, the trust store and the
  package say later, no decision on the same binding is a forward one until a grant with a higher sequence has been
  imported.
\<close>

theorem expired_stays_expired:
  assumes "decidePluginGrantTx v1 b scope f1 a1 now1 s = Inr (d1, s1)" and "dc_State d1 = TimeState_text Expired"
    and "run (licence_step sha256) s1 es s2"
    and "decidePluginGrantTx v2 b scope f2 a2 now2 s2 = Inr (d2, s3)"
    and "find_binding (bi_InstallationID b, bi_PluginID b, scope) s1 = Some w1"
    and "find_binding (bi_InstallationID b, bi_PluginID b, scope) s2 = Some w2"
    and "ew_grant_sequence w2 = ew_grant_sequence w1"
  shows "\<not> dc_Forward d2"
proof -
  let ?k = "(bi_InstallationID b, bi_PluginID b, scope)"
  from decide_Inr [OF assms(1)] assms(2) obtain w g where
    w: "find_binding ?k s = Some w" and g: "find_grant (ew_issuer w) (ew_issuance_id w) s = Some g" and
    d: "dc_State (evaluate_grant v1 b f1 a1 now1 w g s) = TimeState_text Expired"
    by (auto simp: not_entitled_def)
  from decide_clock [OF assms(1) w] assms(5) have
    w1: "ew_evaluated_through w1 = Some (effective_now w now1)" "ew_issuer w1 = ew_issuer w" "ew_issuance_id w1 = ew_issuance_id w"
    by auto
  from licence_history.run_le [OF assms(3)] have a: "advances s1 s2" .
  then obtain w3 where "find_binding ?k s2 = Some w3" "binding_advances w1 w3"
    using assms(5) unfolding advances_def by blast
  with assms(6) have "binding_advances w1 w2" by simp
  with assms(7) w1 obtain t where w2: "ew_issuer w2 = ew_issuer w" "ew_issuance_id w2 = ew_issuance_id w"
    and t: "ew_evaluated_through w2 = Some t" "effective_now w now1 \<le> t"
    by (auto simp: binding_advances_def)
  have "find_grant (ew_issuer w2) (ew_issuance_id w2) s2 = Some g"
    using find_grant_advances [OF a] find_grant_advances [OF decide_advances [OF assms(1)] g] w2 by auto
  moreover have "eg_expires_at g \<le> effective_now w2 now2" "eg_grace_until g \<le> effective_now w2 now2"
    using evaluate_state_Expired [OF d] t(2) effective_now_ge(2) [OF t(1), of now2] by linarith+
  ultimately show ?thesis
    using decide_Inr [OF assms(4)] assms(6) grant_past_grace by auto
qed

text \<open>
  C17. A revoked licence never comes back either: after the revocation of an issuance no decision that rests on it is
  a forward one, and its state is revoked or untrusted.
\<close>

theorem revoked_stays_revoked:
  assumes "revoked issuer issuance s" and "run (licence_step sha256) s es s1"
    and "decidePluginGrantTx verifier b scope feature access now s1 = Inr (d, s2)"
    and "find_binding (bi_InstallationID b, bi_PluginID b, scope) s1 = Some w"
    and "ew_issuer w = issuer" and "ew_issuance_id w = issuance"
  shows "\<not> dc_Forward d \<and> (dc_State d = pluginGrantRevoked \<or> dc_State d = ''untrusted'')"
proof -
  have r: "revoked issuer issuance s1"
    using licence_history.run_le [OF assms(2)] assms(1) by (simp add: advances_def)
  from decide_Inr [OF assms(3)] assms(4) obtain g where
    d: "dc_Forward d = dc_Forward (evaluate_grant verifier b feature access now w g s1)"
       "dc_State d = dc_State (evaluate_grant verifier b feature access now w g s1)"
    by auto
  from r assms(5,6) show ?thesis
    using evaluate_forward [of verifier b feature access now w g s1] evaluate_state_revoked [of w s1 verifier b feature access now g]
    unfolding d by auto
qed

section \<open>The rule for forward work\<close>

text \<open>The state of the licence of a scope, and whether it covers a feature.\<close>

definition scope_state ::
    "(string \<Rightarrow> timestamp \<Rightarrow> Grant result) \<Rightarrow> timestamp \<Rightarrow> entitlement_binding \<Rightarrow> entitlement_grant \<Rightarrow> licences \<Rightarrow> string" where
  "scope_state verifier now w g s =
     (let verified = verifier (eg_cose g) (effective_now w now) in
      grantState verified (trusts (stored_grant w g) verified) (revoked (ew_issuer w) (ew_issuance_id w) s) (effective_now w now))"

definition covers ::
    "(string \<Rightarrow> timestamp \<Rightarrow> Grant result) \<Rightarrow> Binding \<Rightarrow> uuid option \<Rightarrow> string \<Rightarrow> timestamp \<Rightarrow> licences \<Rightarrow> bool" where
  "covers verifier b scope feature now s \<longleftrightarrow>
     (case find_binding (bi_InstallationID b, bi_PluginID b, scope) s of
        None \<Rightarrow> False
      | Some w \<Rightarrow> (case find_grant (ew_issuer w) (ew_issuance_id w) s of
          None \<Rightarrow> False
        | Some g \<Rightarrow> scope_state verifier now w g s \<in> {TimeState_text Valid, TimeState_text Grace}
            \<and> (case verifier (eg_cose g) (effective_now w now) of Inl e \<Rightarrow> False | Inr v \<Rightarrow> feature \<in> set (gt_EffectiveFeatures v))))"

definition lapsed ::
    "(string \<Rightarrow> timestamp \<Rightarrow> Grant result) \<Rightarrow> Binding \<Rightarrow> uuid option \<Rightarrow> timestamp \<Rightarrow> licences \<Rightarrow> bool" where
  "lapsed verifier b scope now s \<longleftrightarrow>
     (case find_binding (bi_InstallationID b, bi_PluginID b, scope) s of
        None \<Rightarrow> True
      | Some w \<Rightarrow> (case find_grant (ew_issuer w) (ew_issuance_id w) s of
          None \<Rightarrow> False
        | Some g \<Rightarrow> scope_state verifier now w g s \<in> {TimeState_text Expired, pluginGrantRevoked}))"

lemma evaluate_simps:
  "dc_State (evaluate_grant verifier b feature access now w g s) = scope_state verifier now w g s"
  "dc_Scope (evaluate_grant verifier b feature access now w g s)
     = (if ew_organization_uuid w = None then PluginGrantScopeInstallation else PluginGrantScopeOrganization)"
  "dc_Forward (evaluate_grant verifier b feature access now w g s) \<longleftrightarrow>
     ac_Enabled access \<and> ac_Compatible access \<and> scope_state verifier now w g s \<in> {TimeState_text Valid, TimeState_text Grace}
     \<and> (case verifier (eg_cose g) (effective_now w now) of Inl e \<Rightarrow> False | Inr v \<Rightarrow> feature \<in> set (gt_EffectiveFeatures v))"
  by (auto simp: evaluate_grant_def scope_state_def Let_def grantState_def pluginGrantRevoked_def split: sum.splits if_splits)

text \<open>A decision keeps what a decision with the same clock rests on.\<close>

lemma decide_same:
  assumes "decidePluginGrantTx verifier b scope feature access now s = Inr (d, s')"
  shows "lc_grants s' = lc_grants s" "lc_revocations s' = lc_revocations s"
    "find_binding k s = None \<Longrightarrow> find_binding k s' = None"
    "find_binding k s = Some w \<Longrightarrow> \<exists>w'. find_binding k s' = Some w' \<and> ew_issuer w' = ew_issuer w
       \<and> ew_issuance_id w' = ew_issuance_id w \<and> effective_now w' now = effective_now w now
       \<and> stored_grant w' = stored_grant w"
proof -
  show "lc_grants s' = lc_grants s" "lc_revocations s' = lc_revocations s"
    using decide_Inr [OF assms] by (auto dest: decide_effects_Inr(1))
  have "lc_bindings s' = lc_bindings s \<or> (\<exists>w t x y. find_binding (bi_InstallationID b, bi_PluginID b, scope) s = Some w
      \<and> t = effective_now w now
      \<and> lc_bindings s' = lc_bindings (observe_binding (bi_InstallationID b, bi_PluginID b, scope) t x y s))"
    using decide_Inr [OF assms]
  proof (elim disjE conjE exE)
    fix w g
    assume w: "find_binding (bi_InstallationID b, bi_PluginID b, scope) s = Some w"
      and e: "decide_effects b scope feature (dc_State d) (activationChanged b feature access w s) (effective_now w now) w g s = Inr s'"
    from decide_effects_Inr(2) [OF e] w show ?thesis
      by (cases "binding_observed (dc_State d) (activationChanged b feature access w s) (effective_now w now) w") auto
  qed simp
  then consider "\<And>k. find_binding k s' = find_binding k s"
    | w t x y where "find_binding (bi_InstallationID b, bi_PluginID b, scope) s = Some w" "t = effective_now w now"
      "\<And>k. find_binding k s' = find_binding k (observe_binding (bi_InstallationID b, bi_PluginID b, scope) t x y s)"
    unfolding find_binding_def by metis
  note c = this
  show "find_binding k s' = None" if "find_binding k s = None"
    using c that by cases (auto simp: find_observe_binding)
  show "\<exists>w'. find_binding k s' = Some w' \<and> ew_issuer w' = ew_issuer w \<and> ew_issuance_id w' = ew_issuance_id w
       \<and> effective_now w' now = effective_now w now \<and> stored_grant w' = stored_grant w" if "find_binding k s = Some w"
    using c
  proof cases
    case (2 w0 t x y)
    have "effective_now (observed_binding (effective_now w now) x y w) now = effective_now w now"
      by (auto simp: observed_binding_def effective_now_def split: option.splits)
    moreover have "stored_grant (observed_binding t x y w) = stored_grant w"
      by (simp add: stored_grant_def observed_binding_def fun_eq_iff)
    ultimately show ?thesis
      using 2 that by (cases "k = (bi_InstallationID b, bi_PluginID b, scope)")
        (auto simp: find_observe_binding observed_binding_def)
  qed (use that in auto)
qed

lemma decide_keeps:
  assumes "decidePluginGrantTx verifier b scope feature access now s = Inr (d, s')"
  shows "covers v2 b2 scope2 feature2 now s' = covers v2 b2 scope2 feature2 now s"
    and "lapsed v2 b2 scope2 now s' = lapsed v2 b2 scope2 now s"
proof -
  let ?k = "(bi_InstallationID b2, bi_PluginID b2, scope2)"
  have f: "find_grant i u s' = find_grant i u s" "revoked i u s' = revoked i u s" for i u
    using decide_same(1,2) [OF assms] by (simp_all add: find_grant_def revoked_def)
  show "covers v2 b2 scope2 feature2 now s' = covers v2 b2 scope2 feature2 now s"
    using decide_same(3,4) [OF assms, of ?k] f
    by (cases "find_binding ?k s") (auto simp: covers_def scope_state_def Let_def split: option.splits)
  show "lapsed v2 b2 scope2 now s' = lapsed v2 b2 scope2 now s"
    using decide_same(3,4) [OF assms, of ?k] f
    by (cases "find_binding ?k s") (auto simp: lapsed_def scope_state_def Let_def split: option.splits)
qed

lemma state_texts:
  "TimeState_text t \<noteq> ''not_entitled''" "TimeState_text t \<noteq> pluginGrantRevoked" "pluginGrantRevoked \<noteq> ''not_entitled''"
  by (cases t; simp add: pluginGrantRevoked_def)+

lemma evaluate_scope_not_empty: "dc_Scope (evaluate_grant verifier b feature access now w g s) \<noteq> []"
  by (simp add: evaluate_simps PluginGrantScopeInstallation_def PluginGrantScopeOrganization_def)

lemma decide_forward_iff:
  assumes "decidePluginGrantTx verifier b scope feature access now s = Inr (d, s')"
  shows "dc_Forward d \<longleftrightarrow> ac_Enabled access \<and> ac_Compatible access \<and> covers verifier b scope feature now s"
    and "(dc_Scope d = [] \<or> dc_State d = TimeState_text Expired \<or> dc_State d = pluginGrantRevoked) \<longleftrightarrow> lapsed verifier b scope now s"
proof -
  consider "find_binding (bi_InstallationID b, bi_PluginID b, scope) s = None" "d = not_entitled feature"
    | w g where "find_binding (bi_InstallationID b, bi_PluginID b, scope) s = Some w"
        "find_grant (ew_issuer w) (ew_issuance_id w) s = Some g"
        "dc_Forward d = dc_Forward (evaluate_grant verifier b feature access now w g s)"
        "dc_State d = dc_State (evaluate_grant verifier b feature access now w g s)"
        "dc_Scope d = dc_Scope (evaluate_grant verifier b feature access now w g s)"
    using decide_Inr [OF assms] by fastforce
  note c = this
  show "dc_Forward d \<longleftrightarrow> ac_Enabled access \<and> ac_Compatible access \<and> covers verifier b scope feature now s"
    using c by cases (simp_all add: covers_def evaluate_simps not_entitled_def del: TimeState_text.simps)
  show "(dc_Scope d = [] \<or> dc_State d = TimeState_text Expired \<or> dc_State d = pluginGrantRevoked) \<longleftrightarrow> lapsed verifier b scope now s"
    using c
  proof cases
    case 2
    then show ?thesis using evaluate_scope_not_empty by (simp add: lapsed_def evaluate_simps(1) del: TimeState_text.simps)
  qed (simp add: lapsed_def not_entitled_def)
qed

lemma covers_not_lapsed: "covers verifier b scope feature now s \<Longrightarrow> \<not> lapsed verifier b scope now s"
  by (auto simp: covers_def lapsed_def pluginGrantRevoked_def split: option.splits)

lemma covers_state:
  assumes "decidePluginGrantTx verifier b scope feature access now s = Inr (d, s')" and "covers verifier b scope feature now s"
  shows "dc_State d = TimeState_text Valid \<or> dc_State d = TimeState_text Grace"
  using decide_Inr [OF assms(1)] assms(2)
  by (auto simp: covers_def evaluate_simps simp del: TimeState_text.simps)

lemma covering_forward_iff:
  assumes "covering_decision verifier b feature inspect now s = Inr (d, scope, s2)"
  shows "dc_Forward d \<longleftrightarrow> ac_Enabled inspect \<and> ac_Compatible inspect
    \<and> (covers verifier b (organizationScope (bi_OrganizationID b)) feature now s
       \<or> (lapsed verifier b (organizationScope (bi_OrganizationID b)) now s \<and> covers verifier b None feature now s))"
    and "dc_Forward d \<Longrightarrow> covers verifier b scope feature now s2"
proof -
  let ?scope = "organizationScope (bi_OrganizationID b)"
  from covering_decision_Inr [OF assms] obtain d1 s1 where
    1: "decidePluginGrantTx verifier b ?scope feature inspect now s = Inr (d1, s1)" and
    2: "if lapsed verifier b ?scope now s
       then \<exists>wide. decidePluginGrantTx verifier b None feature inspect now s1 = Inr (wide, s2)
         \<and> (if dc_Scope d1 = [] \<or> PluginEntitlementFallback (dc_State d1) (dc_State wide)
            then d = wide \<and> scope = None else d = d1 \<and> scope = ?scope)
       else d = d1 \<and> scope = ?scope \<and> s2 = s1"
    using decide_forward_iff(2) by metis
  note f1 = decide_forward_iff [OF 1]
  show *: "dc_Forward d \<longleftrightarrow> ac_Enabled inspect \<and> ac_Compatible inspect
    \<and> (covers verifier b ?scope feature now s \<or> (lapsed verifier b ?scope now s \<and> covers verifier b None feature now s))"
  proof (cases "lapsed verifier b ?scope now s")
    case True
    with 2 obtain wide where
      w: "decidePluginGrantTx verifier b None feature inspect now s1 = Inr (wide, s2)" and
      d: "if dc_Scope d1 = [] \<or> PluginEntitlementFallback (dc_State d1) (dc_State wide) then d = wide else d = d1"
      by (auto split: if_splits)
    have "\<not> covers verifier b ?scope feature now s" using True covers_not_lapsed by blast
    moreover have "covers verifier b None feature now s1 = covers verifier b None feature now s"
      by (rule decide_keeps [OF 1])
    moreover have "dc_Scope d1 = [] \<or> PluginEntitlementFallback (dc_State d1) (dc_State wide)"
      if "covers verifier b None feature now s1"
      using covers_state [OF w that] f1(2) True by (auto simp: PluginEntitlementFallback_def simp del: TimeState_text.simps)
    ultimately show ?thesis
      using d f1(1) decide_forward_iff(1) [OF w] True by (auto split: if_splits)
  next
    case False
    with 2 f1(1) show ?thesis by auto
  qed
  show "covers verifier b scope feature now s2" if "dc_Forward d"
  proof (cases "lapsed verifier b ?scope now s")
    case True
    with 2 obtain wide where
      w: "decidePluginGrantTx verifier b None feature inspect now s1 = Inr (wide, s2)" and
      d: "if dc_Scope d1 = [] \<or> PluginEntitlementFallback (dc_State d1) (dc_State wide)
            then d = wide \<and> scope = None else d = d1 \<and> scope = ?scope"
      by auto
    have "\<not> covers verifier b ?scope feature now s" using True covers_not_lapsed by blast
    with d that f1(1) have "d = wide" "scope = None" by (auto split: if_splits)
    with decide_forward_iff(1) [OF w] that decide_keeps(1) [OF w] show ?thesis by auto
  next
    case False
    with 2 that f1(1) decide_keeps(1) [OF 1] show ?thesis by auto
  qed
qed

text \<open>
  C12. Forward work: a decision allows it exactly if the plugin is enabled and compatible for the organization and
  the licence covers the feature: the organization's own grant does, or that grant is missing, expired or revoked
  and the installation-wide grant does. A grant that merely lacks the feature, is not yet valid or fails
  verification never falls back, and feature sets are never combined.
\<close>

theorem forward_decision:
  assumes "DecidePluginEntitlementTx verifier b feature access now s = Inr (d, s')"
  shows "dc_Forward d \<longleftrightarrow> ac_Enabled access \<and> ac_Compatible access
    \<and> (covers verifier b (Some (bi_OrganizationID b)) feature now s
       \<or> (lapsed verifier b (Some (bi_OrganizationID b)) now s \<and> covers verifier b None feature now s))"
proof -
  have "bi_OrganizationID b \<noteq> Nil_uuid"
    using assms by (auto simp: DecidePluginEntitlementTx_def)
  then have o1: "organizationScope (bi_OrganizationID b) = Some (bi_OrganizationID b)"
    by (simp add: organizationScope_def)
  from decision_Inr [OF assms] obtain d2 scope s2 where
    2: "covering_decision verifier b feature (access\<lparr>ac_Activate := False\<rparr>) now s = Inr (d2, scope, s2)" and
    3: "if ac_Activate access then dc_Forward d2 \<and> decidePluginGrantTx verifier b scope feature access now s2 = Inr (d, s')
       else d = d2 \<and> s' = s2"
    by blast
  have "dc_Forward d = dc_Forward d2"
  proof (cases "ac_Activate access")
    case True
    with 3 have "dc_Forward d2" "decidePluginGrantTx verifier b scope feature access now s2 = Inr (d, s')" by auto
    with covering_forward_iff [OF 2] decide_forward_iff(1) show ?thesis by auto
  qed (use 3 in simp)
  with covering_forward_iff(1) [OF 2] show ?thesis by (simp add: o1)
qed

section \<open>Replays\<close>

lemma find_none: "find P xs = None \<longleftrightarrow> (\<forall>x\<in>set xs. \<not> P x)"
  by (auto simp: find_None_iff)

lemma grant_row_key: "entitlement_grant_key (grant_row g importer digest) = (gt_Issuer g, gt_IssuanceID g)"
  by (simp add: entitlement_grant_key_def grant_row_def)

lemma find_inserted:
  "key r \<notin> key ` set rows \<Longrightarrow> find (\<lambda>x. key x = key r) (rows @ [r]) = Some r"
  by (induction rows) auto

lemma inserted_grant:
  assumes "insert_entitlement_grant (grant_row g importer digest) s = Inr s1" and "lc_grants s' = lc_grants s1"
  shows "find_grant (gt_Issuer g) (gt_IssuanceID g) s' = Some (grant_row g importer digest)"
  using assms find_inserted [of entitlement_grant_key "grant_row g importer digest" "lc_grants s"]
  by (simp add: find_grant_def insert_entitlement_grant_Inr grant_row_key)

lemma replayed_binding:
  assumes "find_binding (grant_scope g) s = Some w" and "ew_issuer w = gt_Issuer g"
    and "ew_grant_sequence w = gt_Sequence g" and "ew_issuance_id w = gt_IssuanceID g"
    and "find_grant (gt_Issuer g) (gt_IssuanceID g) s = Some g0" and "eg_digest g0 = gt_Digest g"
  shows "replaces_binding g s = Inr False"
  using assms by (simp add: replaces_binding_def)

text \<open>
  Importing a grant again changes nothing: after an import, by any importer and from any bundle, the same grant is
  accepted as already known, without a row, an audit event or a message.
\<close>

theorem grant_import_replay:
  assumes "ImportPluginEntitlementGrant sha256 g importer digest s = Inr (new, s')" and "importer2 \<noteq> []" and "digest2 \<noteq> zero_digest"
  shows "ImportPluginEntitlementGrant sha256 g importer2 digest2 s' = Inr (False, s')"
proof -
  note i = grant_import_Inr [OF assms(1)]
  have "validEntitlementImport sha256 (gt_Envelope g) (gt_Digest g) (gt_Issuer g) importer2 digest2 (gt_TrustClass g) = Inr ()"
    using i(2) assms(2,3) by (simp add: validEntitlementImport_def)
  moreover have "replaces_binding g s' = Inr False"
  proof (cases new)
    case False
    with i(3,4) show ?thesis by simp
  next
    case True
    with i(4) obtain s1 where
      1: "insert_entitlement_grant (grant_row g importer digest) s = Inr s1" and
      a: "entitlementAudit (gt_Issuer g) (Some (grant_binding g)) ''grant_imported'' (gt_Sequence g) (gt_TrustClass g)
               importer digest (put_binding g s1) = Inr s'" by auto
    from 1 have s1: "s1 = s\<lparr>lc_grants := lc_grants s @ [grant_row g importer digest]\<rparr>"
      by (simp add: insert_entitlement_grant_Inr)
    have "find_grant (gt_Issuer g) (gt_IssuanceID g) s' = Some (grant_row g importer digest)"
      by (rule inserted_grant [OF 1]) (simp add: entitlementAudit_tables(2) [OF a] put_binding_eq)
    moreover have b: "find_binding (grant_scope g) s'
        = Some (case find_binding (grant_scope g) s of None \<Rightarrow> new_binding g | Some w \<Rightarrow> replaced_binding g w)"
    proof -
      have "find_binding (grant_scope g) s' = find_binding (grant_scope g) (put_binding g s)"
        using entitlementAudit_tables(3) [OF a] by (simp add: find_binding_def put_binding_eq s1)
      then show ?thesis by (simp add: find_put_binding)
    qed
    moreover have "ew_issuer w = gt_Issuer g" if "find_binding (grant_scope g) s = Some w" for w
      using replaces_binding_Inr(1) [OF i(3) that] .
    ultimately show ?thesis
      by (cases "find_binding (grant_scope g) s")
        (auto intro!: replayed_binding simp: new_binding_def replaced_binding_def grant_row_def)
  qed
  ultimately show ?thesis
    using i(1) by (simp add: ImportPluginEntitlementGrant_def)
qed

section \<open>Well-formed licences\<close>

definition grant_ok :: "licences \<Rightarrow> entitlement_grant \<Rightarrow> bool" where
  "grant_ok s g \<longleftrightarrow> entitlement_grant_checks g \<and> organization_known (eg_organization_uuid g) s"

text \<open>A binding refers to a grant of its own plugin, installation, organization and sequence.\<close>

definition binding_ok :: "licences \<Rightarrow> entitlement_binding \<Rightarrow> bool" where
  "binding_ok s w \<longleftrightarrow> 0 < ew_revision w \<and>
     (\<exists>g. find_grant (ew_issuer w) (ew_issuance_id w) s = Some g
        \<and> grant_sequence_key g = (ew_issuer w, ew_installation_uuid w, ew_plugin_id w, ew_organization_uuid w, ew_grant_sequence w))"

definition revocation_ok :: "licences \<Rightarrow> entitlement_revocation \<Rightarrow> bool" where
  "revocation_ok s v \<longleftrightarrow> (\<exists>n\<in>set (lc_snapshots s). snapshot_key n = (ev_issuer v, ev_first_snapshot_sequence v))"

definition activation_ok :: "licences \<Rightarrow> entitlement_activation \<Rightarrow> bool" where
  "activation_ok s a \<longleftrightarrow> organization_known (Some (ea_organization_uuid a)) s
     \<and> find_grant (ea_first_issuer a) (ea_first_issuance_id a) s \<noteq> None
     \<and> find_grant (ea_last_issuer a) (ea_last_issuance_id a) s \<noteq> None"

definition licences_ok :: "licences \<Rightarrow> bool" where
  "licences_ok s \<longleftrightarrow>
     (\<forall>g\<in>set (lc_grants s). grant_ok s g) \<and> distinct (map entitlement_grant_key (lc_grants s)) \<and> distinct (map grant_sequence_key (lc_grants s))
     \<and> (\<forall>w\<in>set (lc_bindings s). binding_ok s w) \<and> distinct (map entitlement_binding_key (lc_bindings s))
     \<and> (\<forall>n\<in>set (lc_snapshots s). entitlement_snapshot_checks n) \<and> distinct (map snapshot_key (lc_snapshots s))
     \<and> (\<forall>v\<in>set (lc_revocations s). revocation_ok s v) \<and> distinct (map revocation_key (lc_revocations s))
     \<and> (\<forall>a\<in>set (lc_activations s). activation_ok s a) \<and> distinct (map activation_key (lc_activations s))
     \<and> (\<forall>e\<in>set (lc_audit s). entitlement_audit_checks e)"

lemma licences_okI:
  assumes "\<And>g. g \<in> set (lc_grants s) \<Longrightarrow> grant_ok s g" "distinct (map entitlement_grant_key (lc_grants s))"
    "distinct (map grant_sequence_key (lc_grants s))" "\<And>w. w \<in> set (lc_bindings s) \<Longrightarrow> binding_ok s w"
    "distinct (map entitlement_binding_key (lc_bindings s))" "\<And>n. n \<in> set (lc_snapshots s) \<Longrightarrow> entitlement_snapshot_checks n"
    "distinct (map snapshot_key (lc_snapshots s))" "\<And>v. v \<in> set (lc_revocations s) \<Longrightarrow> revocation_ok s v"
    "distinct (map revocation_key (lc_revocations s))" "\<And>a. a \<in> set (lc_activations s) \<Longrightarrow> activation_ok s a"
    "distinct (map activation_key (lc_activations s))" "\<And>e. e \<in> set (lc_audit s) \<Longrightarrow> entitlement_audit_checks e"
  shows "licences_ok s"
  using assms by (simp add: licences_ok_def)

lemma organization_known_cong: "lc_orgs s' = lc_orgs s \<Longrightarrow> organization_known u s' = organization_known u s"
  by (simp add: organization_known_def split: option.splits)

lemma find_grant_mono: "lc_grants s' = lc_grants s @ gs \<Longrightarrow> find_grant i u s = Some g \<Longrightarrow> find_grant i u s' = Some g"
  by (simp add: find_grant_def find_append)

lemma binding_ok_mono:
  "lc_grants s' = lc_grants s @ gs \<Longrightarrow> binding_ok s w \<Longrightarrow> binding_ok s' w"
  by (auto simp: binding_ok_def dest: find_grant_mono)

lemma activation_ok_mono:
  "lc_grants s' = lc_grants s @ gs \<Longrightarrow> lc_orgs s' = lc_orgs s \<Longrightarrow> activation_ok s a \<Longrightarrow> activation_ok s' a"
  using find_grant_mono [of s' s gs] organization_known_cong [of s' s] by (fastforce simp: activation_ok_def)

lemma grant_import_ok:
  assumes "licences_ok s" and "ImportPluginEntitlementGrant sha256 g importer digest s = Inr (new, s')"
  shows "licences_ok s'"
proof (cases new)
  case False
  with grant_import_Inr(4) [OF assms(2)] assms(1) show ?thesis by simp
next
  case True
  let ?g = "grant_row g importer digest"
  from True grant_import_Inr(4) [OF assms(2)] obtain s1 where
    1: "insert_entitlement_grant ?g s = Inr s1" and
    a: "entitlementAudit (gt_Issuer g) (Some (grant_binding g)) ''grant_imported'' (gt_Sequence g) (gt_TrustClass g)
          importer digest (put_binding g s1) = Inr s'"
    by auto
  from 1 have s1: "s1 = s\<lparr>lc_grants := lc_grants s @ [?g]\<rparr>" by (simp add: insert_entitlement_grant_Inr)
  note t = entitlementAudit_tables [OF a, unfolded put_binding_eq s1, simplified]
  have new: "find_grant (gt_Issuer g) (gt_IssuanceID g) s' = Some ?g"
    by (rule inserted_grant [OF 1]) (simp add: t(2) s1)
  have b: "set (lc_bindings s') \<subseteq> {w \<in> set (lc_bindings s). entitlement_binding_key w \<noteq> grant_scope g}
      \<union> {new_binding g} \<union> replaced_binding g ` {w \<in> set (lc_bindings s). find_binding (grant_scope g) s = Some w}"
  proof -
    have "find_binding (grant_scope g) s = Some w" if "w \<in> set (lc_bindings s)" "entitlement_binding_key w = grant_scope g" for w
      using that find_unique_key [of entitlement_binding_key "lc_bindings s" w] assms(1)
      by (simp add: find_binding_def licences_ok_def)
    moreover have "entitlement_binding_key w \<noteq> grant_scope g" if "w \<in> set (lc_bindings s)" "find_binding (grant_scope g) s = None" for w
      using that by (auto simp: find_binding_def find_none)
    ultimately show ?thesis
      unfolding t(3) by (auto simp: find_binding_def set_upd_where)
  qed
  show ?thesis
  proof (rule licences_okI)
    fix w assume "w \<in> set (lc_bindings s')"
    with b consider "w \<in> set (lc_bindings s)" | "w = new_binding g"
      | o1 where "w = replaced_binding g o1" "find_binding (grant_scope g) s = Some o1" "o1 \<in> set (lc_bindings s)" by auto
    then show "binding_ok s' w"
    proof cases
      case 1
      with assms(1) show ?thesis by (intro binding_ok_mono [OF t(2)]) (simp add: licences_ok_def)
    next
      case 2
      with new show ?thesis by (simp add: binding_ok_def new_binding_def grant_sequence_key_def grant_row_def)
    next
      case 3
      have o1: "ew_issuer o1 = gt_Issuer g"
        by (rule replaces_binding_Inr(1) [OF grant_import_Inr(3) [OF assms(2)] 3(2)])
      have "0 < ew_revision o1"
        using assms(1) 3(3) by (simp add: licences_ok_def binding_ok_def)
      with find_binding_key [OF 3(2)] new o1 show ?thesis
        by (simp add: 3(1) binding_ok_def replaced_binding_def grant_sequence_key_def grant_row_def
            entitlement_binding_key_def grant_scope_def)
    qed
  next
    show "distinct (map entitlement_binding_key (lc_bindings s'))"
      using assms(1) by (auto simp: t(3) licences_ok_def map_upd_where find_binding_def find_none)
  next
    have u: "organization_known u s' = organization_known u s" for u
      by (rule organization_known_cong [OF t(1)])
    show "grant_ok s' x" if "x \<in> set (lc_grants s')" for x
      using that assms(1) 1 by (auto simp: t(2) licences_ok_def insert_entitlement_grant_Inr grant_ok_def u)
    show "distinct (map entitlement_grant_key (lc_grants s'))" "distinct (map grant_sequence_key (lc_grants s'))"
      using assms(1) 1 by (simp_all add: t(2) licences_ok_def insert_entitlement_grant_Inr)
    show "activation_ok s' x" if "x \<in> set (lc_activations s')" for x
      using that assms(1) by (intro activation_ok_mono [OF t(2,1)]) (simp add: t(6) licences_ok_def)
    show "revocation_ok s' x" if "x \<in> set (lc_revocations s')" for x
      using that assms(1) by (simp add: t(4,5) licences_ok_def revocation_ok_def)
    show "entitlement_audit_checks x" if "x \<in> set (lc_audit s')" for x
      using that assms(1) t(7) by (auto simp: licences_ok_def)
  qed (use assms(1) in \<open>simp_all add: t licences_ok_def\<close>)
qed

lemma references_cong:
  assumes "lc_orgs s' = lc_orgs s" "lc_grants s' = lc_grants s"
  shows "grant_ok s' g = grant_ok s g" "binding_ok s' w = binding_ok s w" "activation_ok s' a = activation_ok s a"
  using assms by (simp_all add: grant_ok_def binding_ok_def activation_ok_def organization_known_cong [OF assms(1)] find_grant_def)

lemma revocation_ok_cong: "lc_snapshots s' = lc_snapshots s \<Longrightarrow> revocation_ok s' v = revocation_ok s v"
  by (simp add: revocation_ok_def)

text \<open>Changes of a binding that keep what it refers to.\<close>

definition same_reference :: "entitlement_binding \<Rightarrow> entitlement_binding \<Rightarrow> bool" where
  "same_reference w w' \<longleftrightarrow> entitlement_binding_key w' = entitlement_binding_key w \<and> ew_issuer w' = ew_issuer w
     \<and> ew_issuance_id w' = ew_issuance_id w \<and> ew_grant_sequence w' = ew_grant_sequence w \<and> ew_revision w \<le> ew_revision w'"

lemma same_reference_ok:
  "same_reference w w' \<Longrightarrow> binding_ok s w \<Longrightarrow> binding_ok s w'"
  by (auto simp: same_reference_def binding_ok_def entitlement_binding_key_def)

lemma same_reference_observed: "same_reference w (observed_binding t x y w)"
  by (simp add: same_reference_def observed_binding_def entitlement_binding_key_def)

lemma same_reference_bumped: "same_reference w (bumped w)"
  by (simp add: same_reference_def bumped_def entitlement_binding_key_def)

lemma updated_bindings_ok:
  assumes "\<forall>w\<in>set ws. binding_ok s w" and "distinct (map entitlement_binding_key ws)" and "\<And>w. same_reference w (f w)"
  shows "\<forall>w\<in>set (upd_where P f ws). binding_ok s w" and "distinct (map entitlement_binding_key (upd_where P f ws))"
proof -
  show "\<forall>w\<in>set (upd_where P f ws). binding_ok s w"
    using assms(1) same_reference_ok [OF assms(3)] by (auto simp: set_upd_where)
  have "entitlement_binding_key (f w) = entitlement_binding_key w" for w
    using assms(3) by (simp add: same_reference_def)
  with assms(2) show "distinct (map entitlement_binding_key (upd_where P f ws))"
    by (simp add: map_upd_where)
qed

lemma revocation_import_ok:
  assumes "licences_ok s" and "ImportPluginEntitlementRevocations sha256 r importer digest s = Inr (new, s')"
  shows "licences_ok s'"
  using revocation_import_Inr [OF assms(2)]
proof (elim disjE conjE exE)
  fix ids s2
  let ?n = "snapshot_row r importer digest"
  assume c: "entitlement_snapshot_checks ?n" "snapshot_key ?n \<notin> snapshot_key ` set (lc_snapshots s)"
    and i: "insert_revocations r (rv_IssuanceIDs r) (s\<lparr>lc_snapshots := lc_snapshots s @ [?n]\<rparr>) = (ids, s2)"
    and a: "entitlementAudit (rv_Issuer r) None ''revocations_imported'' (rv_Sequence r) (rv_TrustClass r) importer digest
        (bump_bindings (rv_Issuer r) ids s2) = Inr s'"
  note t = entitlementAudit_tables [OF a, unfolded bump_bindings_def, simplified]
  note u = insert_revocations_tables [OF i, simplified]
  note v = insert_revocations_rows [OF i, simplified]
  have ok: "grant_ok s' x = grant_ok s x" "binding_ok s' w = binding_ok s w" "activation_ok s' z = activation_ok s z" for x w z
    by (rule references_cong; use t u in simp)+
  have b: "\<forall>w\<in>set (lc_bindings s'). binding_ok s w" "distinct (map entitlement_binding_key (lc_bindings s'))"
    using updated_bindings_ok [OF _ _ same_reference_bumped, of "lc_bindings s" s] assms(1) t(3) u
    by (auto simp: licences_ok_def)
  show ?thesis
  proof (rule licences_okI)
    fix x assume "x \<in> set (lc_revocations s')"
    with t v have "x \<in> set (lc_revocations s) \<or> x \<in> revocation_row r ` set (rv_IssuanceIDs r)" by auto
    then show "revocation_ok s' x"
      using assms(1) t(4) u by (auto simp: licences_ok_def revocation_ok_def revocation_row_def snapshot_key_def snapshot_row_def)
  qed (use assms(1) b c t u v in \<open>auto simp: ok licences_ok_def\<close>)
qed (use assms(1) in simp)

lemma put_activation_ok:
  assumes "put_activation b feature w t s = Inr s'" and "licences_ok s" and "find_grant (ew_issuer w) (ew_issuance_id w) s \<noteq> None"
  shows "licences_ok s'"
proof -
  have ok: "grant_ok s' x = grant_ok s x" "binding_ok s' y = binding_ok s y" "revocation_ok s' v = revocation_ok s v"
    "activation_ok s' z = activation_ok s z" for x y v z
    using put_activation_Inr(1) [OF assms(1)] by (simp_all add: references_cong [of s' s] revocation_ok_cong [of s' s])
  let ?k = "(bi_InstallationID b, bi_PluginID b, bi_OrganizationID b, feature)"
  have "(\<forall>z\<in>set (lc_activations s'). activation_ok s z) \<and> distinct (map activation_key (lc_activations s'))"
  proof (cases "find_activation ?k s")
    case None
    with assms show ?thesis
      by (fastforce simp: put_activation_def Let_def licences_ok_def activation_ok_def find_activation_def find_none activation_key_def)
  next
    case (Some o1)
    have "activation_ok s (z\<lparr>ea_last_issuer := ew_issuer w, ea_last_issuance_id := ew_issuance_id w, ea_last_activated_at := t\<rparr>)"
      if "activation_ok s z" for z
      using that assms(3) by (simp add: activation_ok_def)
    with Some assms(1,2) show ?thesis
      by (auto simp: put_activation_def Let_def licences_ok_def set_upd_where map_upd_where activation_key_def)
  qed
  then show ?thesis
    using assms(2) put_activation_Inr(1) [OF assms(1)] by (auto simp: licences_ok_def ok)
qed

definition bindings_observed :: "entitlement_binding list \<Rightarrow> entitlement_binding list \<Rightarrow> bool" where
  "bindings_observed ws ws' \<longleftrightarrow> ws' = ws \<or> (\<exists>P t x y. ws' = upd_where P (observed_binding t x y) ws)"

lemma bindings_observed_upd [simp]: "bindings_observed ws (upd_where P (observed_binding t x y) ws)"
  unfolding bindings_observed_def by blast

lemma bindings_observed_refl [simp]: "bindings_observed ws ws"
  by (simp add: bindings_observed_def)

lemma observed_ok:
  assumes "licences_ok s"
    and "lc_orgs s' = lc_orgs s" "lc_grants s' = lc_grants s" "lc_snapshots s' = lc_snapshots s" "lc_revocations s' = lc_revocations s"
    and "lc_activations s' = lc_activations s"
    and "bindings_observed (lc_bindings s) (lc_bindings s')"
    and "\<forall>e\<in>set (lc_audit s'). e \<in> set (lc_audit s) \<or> entitlement_audit_checks e"
  shows "licences_ok s'"
proof -
  have ok: "grant_ok s' x = grant_ok s x" "binding_ok s' y = binding_ok s y" "revocation_ok s' v = revocation_ok s v"
    "activation_ok s' z = activation_ok s z" for x y v z
    using assms(2-4) by (simp_all add: references_cong [of s' s] revocation_ok_cong [of s' s])
  have "(\<forall>w\<in>set (lc_bindings s'). binding_ok s w) \<and> distinct (map entitlement_binding_key (lc_bindings s'))"
    using assms(1,7) updated_bindings_ok [OF _ _ same_reference_observed, of "lc_bindings s" s]
    by (auto simp: licences_ok_def bindings_observed_def)
  with assms show ?thesis by (auto simp: licences_ok_def ok)
qed

lemma decide_ok:
  assumes "licences_ok s" and "decidePluginGrantTx verifier b scope feature access now s = Inr (d, s')"
  shows "licences_ok s'"
  using decide_Inr [OF assms(2)]
proof (elim disjE conjE exE)
  fix w g
  assume g: "find_grant (ew_issuer w) (ew_issuance_id w) s = Some g"
    and e: "decide_effects b scope feature (dc_State d) (activationChanged b feature access w s) (effective_now w now) w g s = Inr s'"
  note t = decide_effects_Inr [OF e]
  obtain s1 where 1: "licences_ok s1" "lc_activations s' = lc_activations s1"
    and s1: "lc_orgs s1 = lc_orgs s" "lc_grants s1 = lc_grants s" "lc_bindings s1 = lc_bindings s"
      "lc_snapshots s1 = lc_snapshots s" "lc_revocations s1 = lc_revocations s" "lc_audit s1 = lc_audit s"
  proof (cases "activationChanged b feature access w s")
    case True
    with t(3) obtain s1 where p: "put_activation b feature w (effective_now w now) s = Inr s1" "lc_activations s' = lc_activations s1"
      by auto
    with that put_activation_ok [OF p(1) assms(1)] put_activation_Inr(1) [OF p(1)] g show ?thesis by simp
  next
    case False
    with that [of s] t(3) assms(1) show ?thesis by simp
  qed
  show ?thesis
  proof (rule observed_ok [OF 1(1)])
    show "bindings_observed (lc_bindings s1) (lc_bindings s')"
      unfolding t(2) s1 by (cases "binding_observed (dc_State d) (activationChanged b feature access w s) (effective_now w now) w")
        (auto simp: observe_binding_eq)
  qed (use 1(2) s1 t(1,4) in auto)
qed (use assms(1) in simp)

lemma decision_ok:
  assumes "licences_ok s" and "DecidePluginEntitlementTx verifier b feature access now s = Inr (d, s')"
  shows "licences_ok s'"
proof -
  from decision_Inr [OF assms(2)] obtain d2 scope s2 where
    2: "covering_decision verifier b feature (access\<lparr>ac_Activate := False\<rparr>) now s = Inr (d2, scope, s2)" and
    3: "if ac_Activate access then dc_Forward d2 \<and> decidePluginGrantTx verifier b scope feature access now s2 = Inr (d, s')
       else d = d2 \<and> s' = s2"
    by blast
  from covering_decision_Inr [OF 2] assms(1) have "licences_ok s2"
    by (auto split: if_splits dest: decide_ok)
  with 3 show ?thesis by (auto split: if_splits dest: decide_ok)
qed

lemma sweep_binding_Inr:
  assumes "sweep_binding now item s = Inr (marked, s')"
  shows "\<exists>w g. find_binding (entitlement_binding_key item) s = Some w \<and> find_grant (ew_issuer w) (ew_issuance_id w) s = Some g
    \<and> (let t = effective_now w now; expired = ew_observed_expired_at w = None \<and> eg_grace_until g \<le> t;
           grace = \<not> expired \<and> ew_observed_grace_at w = None \<and> eg_expires_at g \<le> t \<and> t < eg_grace_until g in
       (marked \<longleftrightarrow> grace \<or> expired)
       \<and> (if marked then lc_orgs s' = lc_orgs s \<and> lc_grants s' = lc_grants s \<and> lc_snapshots s' = lc_snapshots s
            \<and> lc_revocations s' = lc_revocations s \<and> lc_activations s' = lc_activations s
            \<and> lc_bindings s' = upd_where (\<lambda>x. entitlement_binding_key x = entitlement_binding_key item)
                 (observed_binding t grace expired) (lc_bindings s)
            \<and> (\<forall>e\<in>set (lc_audit s'). e \<in> set (lc_audit s) \<or> entitlement_audit_checks e)
          else s' = s))"
proof -
  from assms obtain w g where
    w: "find_binding (entitlement_binding_key item) s = Some w" and
    g: "find_grant (ew_issuer w) (ew_issuance_id w) s = Some g"
    by (auto simp: sweep_binding_def split: option.splits)
  let ?t = "effective_now w now"
  let ?expired = "ew_observed_expired_at w = None \<and> eg_grace_until g \<le> ?t"
  let ?grace = "\<not> ?expired \<and> ew_observed_grace_at w = None \<and> eg_expires_at g \<le> ?t \<and> ?t < eg_grace_until g"
  show ?thesis
  proof (cases "?grace \<or> ?expired")
    case True
    with assms w g obtain kind b where m: marked and
      a: "entitlementAudit (ew_issuer w) (Some b) kind (ew_grant_sequence w) (eg_trust_class g) (eg_importer g) (eg_source_digest g)
        (observe_binding (entitlement_binding_key item) ?t ?grace ?expired s) = Inr s'"
      by (auto simp: sweep_binding_def Let_def split: if_splits)
    show ?thesis
      using w g True m entitlementAudit_tables [OF a] by (simp add: Let_def observe_binding_eq)
  next
    case False
    with assms w g show ?thesis by (auto simp: sweep_binding_def Let_def split: if_splits)
  qed
qed

lemma sweep_binding_ok:
  assumes "licences_ok s" and "sweep_binding now item s = Inr (marked, s')"
  shows "licences_ok s'"
proof (cases marked)
  case True
  from sweep_binding_Inr [OF assms(2)] True show ?thesis
    unfolding Let_def by (intro observed_ok [OF assms(1)]) auto
next
  case False
  from sweep_binding_Inr [OF assms(2)] False assms(1) show ?thesis
    by (auto simp: Let_def)
qed

lemma sweep_items_ok: "licences_ok s \<Longrightarrow> licences_ok (snd (snd (sweep_items now items n s)))"
  by (induction now items n s rule: sweep_items.induct) (auto split: sum.splits dest: sweep_binding_ok)

lemma organizations_ok:
  "licences_ok s \<Longrightarrow> organizations_kept s os \<Longrightarrow> licences_ok (s\<lparr>lc_orgs := os\<rparr>)"
  by (auto simp: licences_ok_def organizations_kept_def grant_ok_def binding_ok_def revocation_ok_def activation_ok_def find_grant_def)

lemma licence_step_ok: "licence_step sha256 s e s' \<Longrightarrow> licences_ok s \<Longrightarrow> licences_ok s'"
proof (induction rule: licence_step.induct)
  case (sweep now limit s n failure s')
  with sweep_items_ok [of s now "take (nat limit) (sweep_candidates now s)" 0] show ?case
    by (auto simp: SweepPluginEntitlementBoundaries_def split: if_splits)
qed (auto intro: grant_import_ok revocation_import_ok decision_ok organizations_ok)

text \<open>
  C25. The licence tables stay well formed over every history: every row satisfies the checks of its table, keys are
  unique, every binding refers to a stored grant of its own plugin, installation, organization and sequence, every
  revocation to a snapshot, and every activation to known organizations and grants.
\<close>

theorem licences_well_formed:
  assumes "licences_ok s" and "run (licence_step sha256) s es s'"
  shows "licences_ok s'"
  using assms(2,1) by (rule run_invariant) (rule licence_step_ok)

section \<open>Activations\<close>

lemma decide_activations:
  assumes "decidePluginGrantTx verifier b scope feature access now s = Inr (d, s')"
    and "find_activation k s = None" and "find_activation k s' \<noteq> None"
  shows "k = (bi_InstallationID b, bi_PluginID b, bi_OrganizationID b, feature) \<and> ac_Activate access \<and> dc_Forward d"
  using decide_Inr [OF assms(1)]
proof (elim disjE conjE exE)
  fix w g
  assume f: "ac_Activate access \<longrightarrow> dc_Forward d"
    and e: "decide_effects b scope feature (dc_State d) (activationChanged b feature access w s) (effective_now w now) w g s = Inr s'"
  have c: "activationChanged b feature access w s"
    using decide_effects_Inr(3) [OF e] assms(2,3) by (auto simp: find_activation_def split: if_splits)
  with decide_effects_Inr(3) [OF e] obtain s1 where
    p: "put_activation b feature w (effective_now w now) s = Inr s1" "lc_activations s' = lc_activations s1" by auto
  from p(2) assms(3) have "find_activation k s1 \<noteq> None" by (simp add: find_activation_def)
  from put_activation_Inr(3) [OF p(1) this assms(2)] c f show ?thesis
    by (auto simp: activationChanged_def)
qed (use assms in simp)

lemma decide_inspects:
  assumes "decidePluginGrantTx verifier b scope feature access now s = Inr (d, s')" and "\<not> ac_Activate access"
  shows "find_activation k s' = find_activation k s"
  using decide_Inr [OF assms(1)]
proof (elim disjE conjE exE)
  fix w g
  assume e: "decide_effects b scope feature (dc_State d) (activationChanged b feature access w s) (effective_now w now) w g s = Inr s'"
  from decide_effects_Inr(3) [OF e] assms(2) show ?thesis
    by (simp add: activationChanged_def find_activation_def)
qed simp

lemma covering_cases:
  assumes "covering_decision verifier b feature inspect now s = Inr (d, scope, s2)"
  obtains (own) "decidePluginGrantTx verifier b (organizationScope (bi_OrganizationID b)) feature inspect now s = Inr (d, s2)"
    | (fallback) d1 s1 wide where
        "decidePluginGrantTx verifier b (organizationScope (bi_OrganizationID b)) feature inspect now s = Inr (d1, s1)"
        "decidePluginGrantTx verifier b None feature inspect now s1 = Inr (wide, s2)" "d = d1 \<or> d = wide"
proof -
  from covering_decision_Inr [OF assms] obtain d1 s1 where
    1: "decidePluginGrantTx verifier b (organizationScope (bi_OrganizationID b)) feature inspect now s = Inr (d1, s1)" and
    2: "if dc_Scope d1 = [] \<or> dc_State d1 = TimeState_text Expired \<or> dc_State d1 = pluginGrantRevoked
       then \<exists>wide. decidePluginGrantTx verifier b None feature inspect now s1 = Inr (wide, s2)
         \<and> (if dc_Scope d1 = [] \<or> PluginEntitlementFallback (dc_State d1) (dc_State wide)
            then d = wide \<and> scope = None else d = d1 \<and> scope = organizationScope (bi_OrganizationID b))
       else d = d1 \<and> scope = organizationScope (bi_OrganizationID b) \<and> s2 = s1"
    by blast
  show thesis
  proof (cases "dc_Scope d1 = [] \<or> dc_State d1 = TimeState_text Expired \<or> dc_State d1 = pluginGrantRevoked")
    case True
    with 2 obtain wide where "decidePluginGrantTx verifier b None feature inspect now s1 = Inr (wide, s2)" "d = d1 \<or> d = wide"
      by (auto simp del: TimeState_text.simps split: if_splits)
    then show thesis by (rule fallback [OF 1])
  next
    case False
    with 1 2 own show thesis by (simp del: TimeState_text.simps)
  qed
qed

lemma covering_inspects:
  assumes "covering_decision verifier b feature inspect now s = Inr (d, scope, s2)" and "\<not> ac_Activate inspect"
  shows "find_activation k s2 = find_activation k s"
  using assms(1)
proof (cases rule: covering_cases)
  case own
  then show ?thesis by (rule decide_inspects [OF _ assms(2)])
next
  case (fallback d1 s1 wide)
  with decide_inspects [OF fallback(1) assms(2)] decide_inspects [OF fallback(2) assms(2)] show ?thesis by simp
qed

lemma decision_activations:
  assumes "DecidePluginEntitlementTx verifier b feature access now s = Inr (d, s')"
    and "find_activation k s = None" and "find_activation k s' \<noteq> None"
  shows "k = (bi_InstallationID b, bi_PluginID b, bi_OrganizationID b, feature) \<and> ac_Activate access \<and> dc_Forward d"
proof -
  from decision_Inr [OF assms(1)] obtain d2 scope s2 where
    2: "covering_decision verifier b feature (access\<lparr>ac_Activate := False\<rparr>) now s = Inr (d2, scope, s2)" and
    3: "if ac_Activate access then dc_Forward d2 \<and> decidePluginGrantTx verifier b scope feature access now s2 = Inr (d, s')
       else d = d2 \<and> s' = s2"
    by blast
  have "find_activation k s2 = None" using covering_inspects [OF 2] assms(2) by simp
  with 3 assms(3) show ?thesis
    by (cases "ac_Activate access") (auto dest: decide_activations)
qed

lemma evaluate_read:
  "dc_Read (evaluate_grant verifier b feature access now w g s)
     \<longleftrightarrow> ac_Retained access \<and> ac_Compatible access \<and> activated_under b feature s \<noteq> None"
  by (simp add: evaluate_grant_def Let_def)

lemma decide_read:
  assumes "decidePluginGrantTx verifier b scope feature access now s = Inr (d, s')" and "dc_Read d"
  shows "ac_Retained access \<and> ac_Compatible access \<and> (activated_under b feature s \<noteq> None \<or> ac_Activate access \<and> dc_Forward d)"
  using decide_Inr [OF assms(1)]
proof (elim disjE conjE exE)
  fix w g
  assume f: "ac_Activate access \<longrightarrow> dc_Forward d"
    and d: "d = final_decision access (activationChanged b feature access w s) (effective_now w now) w
         (evaluate_grant verifier b feature access now w g s)"
  have a: "activationChanged b feature access w s \<Longrightarrow> ac_Activate access"
    by (simp add: activationChanged_def)
  from assms(2) have "if activationChanged b feature access w s then ac_Retained access \<and> ac_Compatible access
      else dc_Read (evaluate_grant verifier b feature access now w g s)"
    unfolding d final_decision_def by simp
  with f a show ?thesis
    by (cases "activationChanged b feature access w s") (simp_all add: evaluate_read)
qed (use assms(2) in \<open>simp add: not_entitled_def\<close>)

lemma decision_read:
  assumes "DecidePluginEntitlementTx verifier b feature access now s = Inr (d, s')" and "dc_Read d"
  shows "ac_Retained access \<and> ac_Compatible access \<and> (activated_under b feature s \<noteq> None \<or> ac_Activate access \<and> dc_Forward d)"
proof -
  let ?i = "access\<lparr>ac_Activate := False\<rparr>"
  from decision_Inr [OF assms(1)] obtain d2 scope s2 where
    2: "covering_decision verifier b feature ?i now s = Inr (d2, scope, s2)" and
    3: "if ac_Activate access then dc_Forward d2 \<and> decidePluginGrantTx verifier b scope feature access now s2 = Inr (d, s')
       else d = d2 \<and> s' = s2"
    by blast
  show ?thesis
  proof (cases "ac_Activate access")
    case True
    with 3 decide_read [of verifier b scope feature access now s2 d s'] assms(2) covering_inspects [OF 2] show ?thesis
      by (auto simp: activated_under_def)
  next
    case False
    with 3 assms(2) have r: "dc_Read d2" by simp
    from 2 show ?thesis
    proof (cases rule: covering_cases)
      case own
      from decide_read [OF own r] show ?thesis by simp
    next
      case (fallback d1 s1 wide)
      have "activated_under b feature s1 = activated_under b feature s"
        using decide_inspects [OF fallback(1)] by (simp add: activated_under_def)
      with fallback(3) r decide_read [OF fallback(1)] decide_read [OF fallback(2)] show ?thesis by auto
    qed
  qed
qed

text \<open>The decisions that activate a feature.\<close>

fun activates :: "uuid \<times> string \<times> uuid \<times> string \<Rightarrow> licence_event \<Rightarrow> bool" where
  "activates k (Decided b feature access now d) \<longleftrightarrow>
     k = (bi_InstallationID b, bi_PluginID b, bi_OrganizationID b, feature) \<and> ac_Activate access \<and> dc_Forward d"
| "activates k _ \<longleftrightarrow> False"

lemma sweep_activations: "lc_activations (snd (snd (sweep_items now items n s))) = lc_activations s"
proof (induction now items n s rule: sweep_items.induct)
  case (2 now item rest observed s)
  show ?case
  proof (cases "sweep_binding now item s")
    case (Inr r)
    obtain marked s1 where r: "r = (marked, s1)" by fastforce
    have "lc_activations s1 = lc_activations s"
      using sweep_binding_Inr [of now item s marked s1] Inr r by (cases marked) (auto simp: Let_def)
    with "2.IH" [OF Inr r [symmetric]] Inr r show ?thesis by simp
  qed simp
qed simp

lemma step_activations:
  assumes "licence_step sha256 s e s'" and "find_activation k s = None" and "find_activation k s' \<noteq> None"
  shows "activates k e"
  using assms
proof (cases rule: licence_step.cases)
  case (import_grant g importer digest new)
  with grant_import_Inr(4) [OF import_grant(2)] assms(2,3) show ?thesis
    by (auto simp: find_activation_def put_binding_eq insert_entitlement_grant_Inr dest!: entitlementAudit_tables(6) split: if_splits)
next
  case (import_revocations r importer digest new)
  with revocation_import_Inr [OF import_revocations(2)] assms(2,3) show ?thesis
    by (auto simp: find_activation_def bump_bindings_def dest!: entitlementAudit_tables(6) insert_revocations_tables)
next
  case (decide verifier b feature access now d)
  with decision_activations [OF decide(2) assms(2,3)] show ?thesis by simp
next
  case (sweep now limit n failure)
  have "lc_activations (snd (snd (SweepPluginEntitlementBoundaries now limit s))) = lc_activations s"
    by (simp add: SweepPluginEntitlementBoundaries_def sweep_activations)
  then have "lc_activations s' = lc_activations s" by (simp add: sweep(2))
  with assms(2,3) show ?thesis by (simp add: find_activation_def)
next
  case organizations
  with assms(2,3) show ?thesis by (auto simp: find_activation_def)
qed

lemma run_activations:
  assumes "run (licence_step sha256) s es s'" and "find_activation k s = None" and "find_activation k s' \<noteq> None"
  shows "\<exists>e\<in>set es. activates k e"
  using assms(1,2)
proof (induction es arbitrary: s)
  case (Cons e es)
  then obtain s1 where 1: "licence_step sha256 s e s1" "run (licence_step sha256) s1 es s'" by auto
  show ?case
  proof (cases "find_activation k s1 = None")
    case True
    with Cons.IH [OF 1(2)] show ?thesis by auto
  next
    case False
    with step_activations [OF 1(1) Cons.prems(2)] show ?thesis by auto
  qed
qed (use assms(3) in simp)

text \<open>
  Read and safety access come after forward work only: in a history that starts without activations a decision
  grants read access to a feature only if an earlier decision allowed forward work and activated the same feature of
  the same plugin for the same organization, or if the decision does so itself; and only for an installation that is
  retained and compatible.
\<close>

theorem read_after_forward:
  assumes "run (licence_step sha256) s0 es s" and "lc_activations s0 = []"
    and "DecidePluginEntitlementTx verifier b feature access now s = Inr (d, s')" and "dc_Read d"
  shows "ac_Retained access \<and> ac_Compatible access \<and>
    ((ac_Activate access \<and> dc_Forward d)
     \<or> (\<exists>e\<in>set es. activates (bi_InstallationID b, bi_PluginID b, bi_OrganizationID b, feature) e))"
proof -
  have "find_activation k s0 = None" for k by (simp add: find_activation_def assms(2))
  with run_activations [OF assms(1), of "(bi_InstallationID b, bi_PluginID b, bi_OrganizationID b, feature)"]
    decision_read [OF assms(3,4)]
  show ?thesis by (auto simp: activated_under_def)
qed

section \<open>Completeness of the sweep\<close>

lemma boundary_marked:
  assumes "t = effective_now w now"
    and "expired = (ew_observed_expired_at w = None \<and> eg_grace_until g \<le> t)"
    and "grace = (\<not> expired \<and> ew_observed_grace_at w = None \<and> eg_expires_at g \<le> t \<and> t < eg_grace_until g)"
  shows "\<not> boundary_passed now (observed_binding t grace expired w) g"
  using assms by (auto simp: boundary_passed_def observed_binding_def effective_now_def split: option.splits)

definition due :: "timestamp \<Rightarrow> licences \<Rightarrow> entitlement_binding \<Rightarrow> bool" where
  "due now s w \<longleftrightarrow> (case find_grant (ew_issuer w) (ew_issuance_id w) s of None \<Rightarrow> False | Some g \<Rightarrow> boundary_passed now w g)"

lemma set_sweep_candidates: "set (sweep_candidates now s) = {w \<in> set (lc_bindings s). due now s w}"
  by (auto simp: sweep_candidates_def due_def)

lemma find_binding_member:
  "licences_ok s \<Longrightarrow> w \<in> set (lc_bindings s) \<Longrightarrow> find_binding (entitlement_binding_key w) s = Some w"
  using find_unique_key [of entitlement_binding_key "lc_bindings s" w] by (simp add: find_binding_def licences_ok_def)

text \<open>One effect: the binding of the item is due no more, the others are as they were.\<close>

lemma sweep_binding_due:
  assumes "licences_ok s" and "sweep_binding now item s = Inr (marked, s')"
  shows "\<forall>w'\<in>set (lc_bindings s'). due now s' w' \<longrightarrow>
    (\<exists>w\<in>set (lc_bindings s). due now s w \<and> entitlement_binding_key w = entitlement_binding_key w'
       \<and> entitlement_binding_key w \<noteq> entitlement_binding_key item)"
proof -
  from sweep_binding_Inr [OF assms(2)] obtain w g where
    w: "find_binding (entitlement_binding_key item) s = Some w" and
    g: "find_grant (ew_issuer w) (ew_issuance_id w) s = Some g" and
    r: "let t = effective_now w now; expired = ew_observed_expired_at w = None \<and> eg_grace_until g \<le> t;
           grace = \<not> expired \<and> ew_observed_grace_at w = None \<and> eg_expires_at g \<le> t \<and> t < eg_grace_until g in
       (marked \<longleftrightarrow> grace \<or> expired)
       \<and> (if marked then lc_orgs s' = lc_orgs s \<and> lc_grants s' = lc_grants s \<and> lc_snapshots s' = lc_snapshots s
            \<and> lc_revocations s' = lc_revocations s \<and> lc_activations s' = lc_activations s
            \<and> lc_bindings s' = upd_where (\<lambda>x. entitlement_binding_key x = entitlement_binding_key item)
                 (observed_binding t grace expired) (lc_bindings s)
            \<and> (\<forall>e\<in>set (lc_audit s'). e \<in> set (lc_audit s) \<or> entitlement_audit_checks e)
          else s' = s)"
    by blast
  have only: "x = w" if "x \<in> set (lc_bindings s)" "entitlement_binding_key x = entitlement_binding_key item" for x
    using find_binding_member [OF assms(1) that(1)] w that(2) by simp
  show ?thesis
  proof (cases marked)
    case False
    with r have s': "s' = s" and "\<not> boundary_passed now w g" by (auto simp: Let_def boundary_passed_def)
    then have "\<not> due now s w" using g by (simp add: due_def)
    with only s' show ?thesis by auto
  next
    case True
    define t where "t = effective_now w now"
    define expired where "expired = (ew_observed_expired_at w = None \<and> eg_grace_until g \<le> t)"
    define grace where "grace = (\<not> expired \<and> ew_observed_grace_at w = None \<and> eg_expires_at g \<le> t \<and> t < eg_grace_until g)"
    from r True have b: "lc_bindings s' = upd_where (\<lambda>x. entitlement_binding_key x = entitlement_binding_key item)
                 (observed_binding t grace expired) (lc_bindings s)" and gs: "lc_grants s' = lc_grants s"
      unfolding Let_def t_def [symmetric] expired_def [symmetric] grace_def [symmetric] by simp_all
    have fg: "find_grant i u s' = find_grant i u s" for i u by (simp add: find_grant_def gs)
    have "\<not> due now s' (observed_binding t grace expired w)"
      using boundary_marked [OF t_def expired_def grace_def] g fg by (simp add: due_def observed_binding_def)
    with only b fg show ?thesis by (auto simp: set_upd_where due_def)
  qed
qed

lemma sweep_items_due:
  assumes "licences_ok s" and "sweep_items now items n s = (m, None, s')"
  shows "\<forall>w'\<in>set (lc_bindings s'). due now s' w' \<longrightarrow>
    (\<exists>w\<in>set (lc_bindings s). due now s w \<and> entitlement_binding_key w = entitlement_binding_key w'
       \<and> entitlement_binding_key w \<notin> entitlement_binding_key ` set items)"
  using assms
proof (induction items arbitrary: n s)
  case (Cons item items)
  then obtain marked s1 where 1: "sweep_binding now item s = Inr (marked, s1)"
    and 2: "sweep_items now items (if marked then Suc n else n) s1 = (m, None, s')"
    by (auto split: sum.splits)
  from Cons.IH [OF sweep_binding_ok [OF Cons.prems(1) 1] 2] sweep_binding_due [OF Cons.prems(1) 1] show ?case
    by (fastforce simp: image_iff)
qed auto

text \<open>
  C32. The sweep is complete: if it ends without an error and its limit covers the bindings whose boundary has
  passed, then no boundary that has passed is left unobserved at that time. A repeated sweep finds nothing to do.
\<close>

theorem sweep_complete:
  assumes "licences_ok s" and "SweepPluginEntitlementBoundaries now limit s = (n, None, s')"
    and "int (length (sweep_candidates now s)) \<le> limit"
  shows "sweep_candidates now s' = [] \<and> SweepPluginEntitlementBoundaries now limit s' = (0, None, s')"
proof -
  have ok: "\<not> (now = zero_time \<or> limit < 1 \<or> limit > 1000)" using assms(2) by (auto simp: SweepPluginEntitlementBoundaries_def)
  with assms(2,3) have "sweep_items now (sweep_candidates now s) 0 s = (n, None, s')"
    by (simp add: SweepPluginEntitlementBoundaries_def)
  from sweep_items_due [OF assms(1) this] have "set (sweep_candidates now s') = {}"
    by (auto simp: set_sweep_candidates)
  with ok show ?thesis by (simp add: SweepPluginEntitlementBoundaries_def)
qed

section \<open>Examples\<close>

definition example_organization :: uuid where "example_organization = ''82828282-8282-8282-8282-828282828282''"
definition example_source :: string where "example_source = ''s1234567890123456789012345678901''"

definition example_licences :: licences where
  "example_licences =
     \<lparr>lc_orgs = [\<lparr>og_id = ''acme'', og_uuid = example_organization\<rparr>], lc_grants = [], lc_bindings = [], lc_snapshots = [],
      lc_revocations = [], lc_activations = [], lc_audit = [], lc_outbox = []\<rparr>"

definition example_decision_binding :: Binding where
  "example_decision_binding = example_binding\<lparr>bi_OrganizationID := example_organization\<rparr>"

definition example_access :: "bool \<Rightarrow> PluginEntitlementAccess" where
  "example_access activate = \<lparr>ac_Enabled = True, ac_Retained = True, ac_Compatible = True, ac_Activate = activate\<rparr>"

text \<open>A verifier that accepts the example's document, and one that accepts nothing.\<close>

definition example_trusting :: "string \<Rightarrow> timestamp \<Rightarrow> Grant result" where
  "example_trusting document now = Inr example_verified_grant"

definition example_distrusting :: "string \<Rightarrow> timestamp \<Rightarrow> Grant result" where
  "example_distrusting document now = invalid_document ''unknown entitlement issuer or key''"

definition example_sha256 :: "string \<Rightarrow> string" where
  "example_sha256 document = last document # ''1234567890123456789012345678901''"

definition example_revocation :: Revocations where
  "example_revocation = example_revocations\<lparr>rv_Envelope := example_snapshot_document, rv_KeyID := example_kid,
     rv_Digest := ''r1234567890123456789012345678901''\<rparr>"

definition example_imported :: licences where
  "example_imported = snd (projr (ImportPluginEntitlementGrant example_sha256 example_verified_grant ''operator'' example_source example_licences))"

definition example_activated :: "PluginEntitlementDecision \<times> licences" where
  "example_activated = projr (DecidePluginEntitlementTx example_trusting example_decision_binding ''basic'' (example_access True) 3 example_imported)"

definition example_lapsed :: "PluginEntitlementDecision \<times> licences" where
  "example_lapsed = projr (decidePluginGrantTx example_trusting example_decision_binding None ''basic'' (example_access False) 9 example_imported)"

definition example_revoked :: licences where
  "example_revoked = snd (projr (ImportPluginEntitlementRevocations example_sha256 example_revocation ''operator'' example_source example_imported))"

lemmas example_licence_defs = example_licences_def example_decision_binding_def example_access_def example_sha256_def
  example_binding_def example_verified_grant_def example_grant_claims_def example_document_def example_installation_uuid_def
  example_organization_def example_kid_def Nil_uuid_def

lemmas import_evals = ImportPluginEntitlementGrant_def validEntitlementImport_def MaxEnvelopeBytes_def
  grant_projection_invalid_def InstallationWide_def replaces_binding_def find_binding_def insert_entitlement_grant_def
  check_row_def entitlement_grant_checks_def evidence_row_def trust_class_valid_def timestamp_range_def grant_row_def
  organization_known_def organizationScope_def entitlementAudit_def entitlement_audit_checks_def audit_kinds_def
  put_binding_def grant_scope_def grant_binding_def Production_def Development_def

lemma example_source_digest: "example_source \<noteq> zero_digest" "length example_source = 32"
proof -
  have "CHR ''s'' \<in> set example_source" "CHR ''s'' \<notin> set zero_digest"
    by (simp_all add: example_source_def zero_digest_def)
  then show "example_source \<noteq> zero_digest" by auto
  show "length example_source = 32" by (simp add: example_source_def)
qed

lemma example_import:
  "ImportPluginEntitlementGrant example_sha256 example_verified_grant ''operator'' example_source example_licences = Inr (True, example_imported)"
  unfolding example_imported_def
  by (simp add: import_evals example_licence_defs example_source_digest)

lemma example_imported:
  "lc_orgs example_imported = lc_orgs example_licences"
  "lc_grants example_imported = [grant_row example_verified_grant ''operator'' example_source]"
  "lc_bindings example_imported = [new_binding example_verified_grant]"
  "lc_snapshots example_imported = []" "lc_revocations example_imported = []" "lc_activations example_imported = []"
  unfolding example_imported_def
  by (simp_all add: import_evals example_licence_defs example_source_digest new_binding_def)

lemmas decision_evals = decidePluginGrantTx_def evaluate_grant_def decide_effects_def final_decision_def activationChanged_def
  graceObserved_def expiryObserved_def binding_observed_def effective_now_def put_activation_def observe_binding_def
  activated_under_def find_activation_def activation_key_def grantState_def trusts_def stored_grant_def EvaluateTime_def
  revoked_def find_binding_def find_grant_def entitlement_grant_key_def entitlement_binding_key_def scope_UUID_def
  not_entitled_def organization_known_def entitlementAudit_def entitlement_audit_checks_def audit_kinds_def check_row_def
  trust_class_valid_def Production_def Development_def organizationScope_def PluginGrantScopeInstallation_def
  PluginGrantScopeOrganization_def

lemmas example_row_defs = new_binding_def grant_row_def example_trusting_def

lemma example_lapses:
  "decidePluginGrantTx example_trusting example_decision_binding None ''basic'' (example_access False) 9 example_imported
     = Inr (fst example_lapsed, snd example_lapsed)" "dc_State (fst example_lapsed) = TimeState_text Expired"
  unfolding example_lapsed_def
  by (simp_all add: decision_evals example_imported example_row_defs example_licence_defs example_source_digest)

lemma example_activates:
  "DecidePluginEntitlementTx example_trusting example_decision_binding ''basic'' (example_access True) 3 example_imported
     = Inr (fst example_activated, snd example_activated)" "dc_Forward (fst example_activated)" "dc_Read (fst example_activated)"
  unfolding example_activated_def
  by (simp_all add: DecidePluginEntitlementTx_def covering_decision_def zero_time_def decision_evals example_imported example_row_defs
      example_licence_defs example_source_digest PluginEntitlementFallback_def pluginGrantRevoked_def)

text \<open>After the lapse the clock falls back from second 9 to second 3.\<close>

definition example_later :: "PluginEntitlementDecision \<times> licences" where
  "example_later = projr (decidePluginGrantTx example_trusting example_decision_binding None ''basic'' (example_access False) 3 (snd example_lapsed))"

definition example_lapsed_binding :: entitlement_binding where
  "example_lapsed_binding = observed_binding 9 False True (new_binding example_verified_grant)"

lemma example_lapsed_tables:
  "lc_grants (snd example_lapsed) = lc_grants example_imported" "lc_bindings (snd example_lapsed) = [example_lapsed_binding]"
  "lc_orgs (snd example_lapsed) = lc_orgs example_licences"
  "lc_revocations (snd example_lapsed) = []" "lc_activations (snd example_lapsed) = []"
  unfolding example_lapsed_def
  by (simp_all add: decision_evals example_imported example_row_defs example_licence_defs example_source_digest
      example_lapsed_binding_def observed_binding_def)

lemma example_lapsed_find:
  "find_binding (bi_InstallationID example_decision_binding, bi_PluginID example_decision_binding, None) (snd example_lapsed)
     = Some example_lapsed_binding"
  by (simp add: find_binding_def example_lapsed_tables entitlement_binding_key_def example_lapsed_binding_def observed_binding_def
      new_binding_def example_licence_defs organizationScope_def)

lemma example_later:
  "decidePluginGrantTx example_trusting example_decision_binding None ''basic'' (example_access False) 3 (snd example_lapsed)
     = Inr (fst example_later, snd example_later)"
  unfolding example_later_def
  by (simp add: decision_evals example_lapsed_tables example_lapsed_binding_def observed_binding_def example_imported example_row_defs
      example_licence_defs example_source_digest)

theorem expired_stays_expired_witness: "\<not> dc_Forward (fst example_later)"
  using expired_stays_expired [OF example_lapses(1) example_lapses(2) _ example_later
      example_lapsed_find example_lapsed_find refl, of undefined "[]"]
  by simp

text \<open>A revocation of the grant, and a decision after it.\<close>

definition example_refused :: "PluginEntitlementDecision \<times> licences" where
  "example_refused = projr (decidePluginGrantTx example_trusting example_decision_binding None ''basic'' (example_access False) 3 example_revoked)"

definition example_bumped_binding :: entitlement_binding where
  "example_bumped_binding = bumped (new_binding example_verified_grant)"

lemma example_revocation_import:
  "ImportPluginEntitlementRevocations example_sha256 example_revocation ''operator'' example_source example_imported
     = Inr (True, example_revoked)"
  "lc_grants example_revoked = lc_grants example_imported" "lc_bindings example_revoked = [example_bumped_binding]"
  "lc_revocations example_revoked = [revocation_row example_revocation example_installation_uuid]"
  "lc_activations example_revoked = []"
  unfolding example_revoked_def
  by (simp_all add: ImportPluginEntitlementRevocations_def validEntitlementImport_def latest_snapshot_def insert_snapshot_def
      snapshot_row_def entitlement_snapshot_checks_def evidence_row_def timestamp_range_def snapshot_key_def
      bump_bindings_def entitlementAudit_def entitlement_audit_checks_def audit_kinds_def check_row_def trust_class_valid_def
      Production_def Development_def MaxEnvelopeBytes_def revoked_def example_imported example_revocation_def example_revocations_def
      example_snapshot_document_def example_bumped_binding_def new_binding_def bumped_def example_licence_defs example_source_digest)

lemma example_refuses:
  "decidePluginGrantTx example_trusting example_decision_binding None ''basic'' (example_access False) 3 example_revoked
     = Inr (fst example_refused, snd example_refused)"
  unfolding example_refused_def
  by (simp add: decision_evals example_revocation_import(2-5) example_bumped_binding_def bumped_def example_imported example_row_defs
      example_licence_defs example_source_digest pluginGrantRevoked_def example_revocation_def example_revocations_def)

theorem revoked_stays_revoked_witness:
  "\<not> dc_Forward (fst example_refused) \<and> (dc_State (fst example_refused) = pluginGrantRevoked \<or> dc_State (fst example_refused) = ''untrusted'')"
proof (rule revoked_stays_revoked)
  show "revoked ''acme'' example_installation_uuid example_revoked"
    by (simp add: revoked_iff example_revocation_import(4) example_revocation_def example_revocations_def)
  show "run (licence_step example_sha256) example_revoked [] example_revoked" by simp
  show "find_binding (bi_InstallationID example_decision_binding, bi_PluginID example_decision_binding, None) example_revoked
      = Some example_bumped_binding"
    by (simp add: find_binding_def example_revocation_import(3) entitlement_binding_key_def example_bumped_binding_def bumped_def
        new_binding_def example_licence_defs organizationScope_def)
  show "decidePluginGrantTx example_trusting example_decision_binding None ''basic'' (example_access False) 3 example_revoked
      = Inr (fst example_refused, snd example_refused)" by (rule example_refuses)
qed (simp_all add: example_bumped_binding_def bumped_def new_binding_def example_verified_grant_def example_grant_claims_def)

theorem grant_import_replay_witness:
  "ImportPluginEntitlementGrant example_sha256 example_verified_grant ''operator'' example_source example_imported = Inr (False, example_imported)"
  using grant_import_replay [OF example_import _ example_source_digest(1), of "''operator''"] by simp

lemma example_history:
  "run (licence_step example_sha256) example_licences
     [GrantImported example_verified_grant True,
      Decided example_decision_binding ''basic'' (example_access True) 3 (fst example_activated)] (snd example_activated)"
  using licence_step.import_grant [OF example_import]
    licence_step.decide [OF example_activates(1)]
  by auto

lemma example_licences_ok: "licences_ok example_licences"
  by (simp add: licences_ok_def example_licences_def)

theorem licences_well_formed_witness: "licences_ok (snd example_activated)"
  using licences_well_formed [OF example_licences_ok example_history] .

lemma example_first_step:
  "run (licence_step example_sha256) example_licences [GrantImported example_verified_grant True] example_imported"
  using licence_step.import_grant [OF example_import] by auto

lemma example_second_step:
  "run (licence_step example_sha256) example_imported
     [Decided example_decision_binding ''basic'' (example_access True) 3 (fst example_activated)] (snd example_activated)"
  using licence_step.decide [OF example_activates(1)] by auto

lemma example_imported_find:
  "find_binding (bi_InstallationID example_decision_binding, bi_PluginID example_decision_binding, None) example_imported
     = Some (new_binding example_verified_grant)"
  by (simp add: find_binding_def example_imported entitlement_binding_key_def new_binding_def example_licence_defs organizationScope_def)

theorem licences_advance_witness:
  "\<exists>w'. find_binding (bi_InstallationID example_decision_binding, bi_PluginID example_decision_binding, None) (snd example_activated) = Some w'
     \<and> ew_issuer w' = ''acme'' \<and> 3 \<le> ew_grant_sequence w'"
  using conjunct1 [OF licences_advance [OF example_second_step, where now = 0]] example_imported_find
  by (fastforce simp: new_binding_def example_verified_grant_def example_grant_claims_def)

theorem forward_decision_witness:
  "covers example_trusting example_decision_binding (Some example_organization) ''basic'' 3 example_imported
     \<or> covers example_trusting example_decision_binding None ''basic'' 3 example_imported"
  using forward_decision [OF example_activates(1)] example_activates(2)
  by (auto simp: example_decision_binding_def)

theorem read_after_forward_witness:
  "ac_Retained (example_access True) \<and> dc_Forward (fst example_activated)"
  using read_after_forward [OF example_first_step _ example_activates(1,3)] example_activates(2)
  by (simp add: example_licences_def)

definition example_swept :: licences where
  "example_swept = snd (snd (SweepPluginEntitlementBoundaries 9 10 example_imported))"

lemma example_sweep:
  "SweepPluginEntitlementBoundaries 9 10 example_imported = (1, None, example_swept)"
  "length (sweep_candidates 9 example_imported) = 1"
proof -
  have c: "sweep_candidates 9 example_imported = [new_binding example_verified_grant]"
    by (simp add: sweep_candidates_def decision_evals example_imported example_row_defs boundary_passed_def example_licence_defs)
  then show "length (sweep_candidates 9 example_imported) = 1" by simp
  show "SweepPluginEntitlementBoundaries 9 10 example_imported = (1, None, example_swept)"
    unfolding example_swept_def SweepPluginEntitlementBoundaries_def c
    by (simp add: zero_time_def sweep_binding_def decision_evals example_imported example_row_defs example_licence_defs
        example_source_digest)
qed

theorem sweep_complete_witness: "sweep_candidates 9 example_swept = []"
  using sweep_complete [OF grant_import_ok [OF example_licences_ok example_import] example_sweep(1)] example_sweep(2) by simp

end
