(* ===== verification/Licensing.thy ===== *)
theory Licensing
  imports PluginStore LicenceHistory
begin

text \<open>
  The adapter between the operator's offline licence files, the stored licences and the availability of plugins
  (\<^verbatim>\<open>internal/pluginentitlements/adapter.go\<close> and the transport checks of \<^verbatim>\<open>bundle.go\<close>): the import of a bundle of
  signed documents, the resolution of a plugin's licence for discovery, and the guard that every licensed effect passes.

  A receiver that is nil is \<open>None\<close>. The reading of the bundle's JSON text and base64 are parameters, as is everything that
  \<^theory_text>\<open>Verifier\<close> takes from the COSE library. The documents of a bundle are sorted by a stable sort; the order of the code
  for documents that agree in all sort keys is not determined.

  The theory shows that nothing enters the stored licences without a signature of a pinned key, that a bundle is a
  sequence of independent imports, and that licensed work passes the guard only with a current, signed and unrevoked
  grant for the feature, for an installation that is available.
\<close>

section \<open>Bundles\<close>

record bundleDocument =
  bd_SchemaVersion :: int
  bd_Grants :: "string list"
  bd_Revocations :: "string list"

record Bundle =
  bn_Grants :: "string list"
  bn_Revocations :: "string list"
  bn_Digest :: string

record transport =
  tr_document :: "string \<Rightarrow> bundleDocument option"
  tr_base64_decode :: "string \<Rightarrow> string option"
  tr_base64_encode :: "string \<Rightarrow> string"

record adapter =
  ad_lib :: cose_library
  ad_transport :: transport
  ad_trust :: TrustStore
  ad_mode :: string

definition MaxBundleBytes :: nat where "MaxBundleBytes = 1048576"

definition decodeCOSE :: "transport \<Rightarrow> string \<Rightarrow> string result" where
  "decodeCOSE tr t =
     (case tr_base64_decode tr t of
        None \<Rightarrow> Inl (ErrInternal ''bundle COSE must be bounded unpadded base64url'')
      | Some raw_bytes \<Rightarrow>
          fail_if (raw_bytes = [] \<or> length raw_bytes > MaxEnvelopeBytes \<or> tr_base64_encode tr raw_bytes \<noteq> t)
            (ErrInternal ''bundle COSE must be bounded unpadded base64url'') (Inr raw_bytes))"

fun decode_documents :: "transport \<Rightarrow> string list \<Rightarrow> string list result" where
  "decode_documents tr [] = Inr []"
| "decode_documents tr (t # ts) =
     try_then (decodeCOSE tr t) (\<lambda>d. try_then (decode_documents tr ts) (\<lambda>ds. Inr (d # ds)))"

text \<open>\<open>tr_document\<close> stands for the checks of the JSON text up to the decoded document.\<close>

definition ParseBundleJSON :: "adapter \<Rightarrow> string \<Rightarrow> Bundle result" where
  "ParseBundleJSON a raw_bundle =
     fail_if (raw_bundle = [] \<or> length raw_bundle > MaxBundleBytes) (ErrInternal ''invalid entitlement bundle size or UTF-8'')
    (case tr_document (ad_transport a) raw_bundle of
       None \<Rightarrow> Inl (ErrInternal ''invalid entitlement bundle'')
     | Some doc \<Rightarrow>
    fail_if (bd_SchemaVersion doc \<noteq> 1 \<or> length (bd_Grants doc) > 64 \<or> length (bd_Revocations doc) > 64)
      (ErrInternal ''unsupported entitlement bundle schema or item count'')
    (try_then (decode_documents (ad_transport a) (bd_Grants doc)) (\<lambda>gs.
     try_then (decode_documents (ad_transport a) (bd_Revocations doc)) (\<lambda>rs.
     Inr \<lparr>bn_Grants = gs, bn_Revocations = rs, bn_Digest = co_sha256 (ad_lib a) raw_bundle\<rparr>))))"

record Diagnostic =
  dg_Code :: string
  dg_Detail :: string

definition DiagnosticBundleRejected :: string where
  "DiagnosticBundleRejected = ''plugin_entitlement_bundle_rejected''"
definition DiagnosticGrantRejected :: string where
  "DiagnosticGrantRejected = ''plugin_entitlement_grant_rejected''"
definition DiagnosticRevocationsRejected :: string where
  "DiagnosticRevocationsRejected = ''plugin_entitlement_revocations_rejected''"

record BundleImport =
  bm_Digest :: string
  bm_ImportedGrants :: nat
  bm_ImportedRevocations :: nat
  bm_Diagnostics :: "Diagnostic list"

definition maxCandidateBindings :: nat where "maxCandidateBindings = 4096"

definition find_organization :: "string \<Rightarrow> licences \<Rightarrow> org_ref option" where
  "find_organization org s = find (\<lambda>o1. og_id o1 = org) (lc_orgs s)"

definition organization_bindings :: "PluginInstallation \<Rightarrow> string list \<Rightarrow> licences \<Rightarrow> Binding list \<Rightarrow> Binding list result" where
  "organization_bindings installation features s candidates =
     try_fold (\<lambda>e candidates.
       case find_organization (pl_OrgID e) s of
         None \<Rightarrow> Inl (ErrNotFound ''organization not found'')
       | Some o1 \<Rightarrow>
           let candidates' = candidates @ [\<lparr>bi_PluginID = pi_PluginID installation, bi_InstallationID = pi_InstallationID installation,
                 bi_OrganizationID = og_uuid o1, bi_DeclaredFeatures = features\<rparr>]
           in fail_if (length candidates' > maxCandidateBindings) (ErrInternal ''too many installed entitlement bindings'') (Inr candidates'))
       (pi_Organizations installation) candidates"

definition required_features :: "Manifest \<Rightarrow> string list option" where
  "required_features m =
     (case mf_Entitlement m of None \<Rightarrow> None | Some d \<Rightarrow> if el_Mode d = EntitlementRequired then Some (el_Features d) else None)"

definition candidateBindings :: "host \<Rightarrow> licences \<Rightarrow> Binding list result" where
  "candidateBindings h s =
     try_fold (\<lambda>installation candidates.
       if \<not> List.member [''installed'', ''active'', ''disabled''] (pi_State installation) then Inr candidates
       else try_then (GetPluginPackage (pi_PackageSHA256 installation) h) (\<lambda>package.
         case required_features (pp_Manifest package) of
           None \<Rightarrow> Inr candidates
         | Some features \<Rightarrow>
             organization_bindings installation features s
               (candidates @ [\<lparr>bi_PluginID = pi_PluginID installation, bi_InstallationID = pi_InstallationID installation,
                  bi_OrganizationID = Nil_uuid, bi_DeclaredFeatures = features\<rparr>])))
       (ListPluginInstallations h) []"

fun matchGrant :: "adapter \<Rightarrow> string \<Rightarrow> Binding list \<Rightarrow> timestamp \<Rightarrow> Grant option" where
  "matchGrant a document [] now = None"
| "matchGrant a document (b # bs) now =
     (case VerifyGrant (ad_lib a) document (ad_trust a) (ad_mode a) b now of
        Inr g \<Rightarrow> Some g
      | Inl e \<Rightarrow> matchGrant a document bs now)"

definition grant_rejected :: Diagnostic where
  "grant_rejected = \<lparr>dg_Code = DiagnosticGrantRejected, dg_Detail = ''grant is invalid or has no exact installed binding''\<rparr>"

definition revocations_rejected :: Diagnostic where
  "revocations_rejected = \<lparr>dg_Code = DiagnosticRevocationsRejected, dg_Detail = ''revocation snapshot''\<rparr>"

definition grant_order :: "Grant \<Rightarrow> string \<times> string \<times> string \<times> string \<times> int" where
  "grant_order g = (gt_Issuer g, gt_InstallationID g, gt_PluginID g, gt_OrganizationID g, gt_Sequence g)"

definition verifyBundle :: "adapter \<Rightarrow> Bundle \<Rightarrow> Binding list \<Rightarrow> timestamp \<Rightarrow> Grant list \<times> Revocations list \<times> Diagnostic list" where
  "verifyBundle a bundle candidates now =
     (let grants = map (\<lambda>d. matchGrant a d candidates now) (bn_Grants bundle);
          snapshots = map (\<lambda>d. VerifyRevocations (ad_lib a) d (ad_trust a) (ad_mode a) now) (bn_Revocations bundle)
      in (sort_key grant_order (List.map_filter id grants),
          sort_key (\<lambda>r. (rv_Issuer r, rv_Sequence r)) (List.map_filter (case_sum (\<lambda>e. None) Some) snapshots),
          map (\<lambda>_. grant_rejected) (filter (\<lambda>g. g = None) grants)
            @ map (\<lambda>_. revocations_rejected) (filter isl snapshots)))"

definition isDocumentRejection :: "model_error \<Rightarrow> bool" where
  "isDocumentRejection e \<longleftrightarrow> IsErrConflict e \<or> IsErrBadRequest e"

text \<open>
  The documents one after the other: \<open>import_one\<close> runs in a savepoint, so a document that is refused leaves the state as
  it was. The value counts the new documents and lists the refusals.
\<close>

fun import_documents ::
    "('d \<Rightarrow> licences \<Rightarrow> (bool \<times> licences) result) \<Rightarrow> Diagnostic \<Rightarrow> 'd list \<Rightarrow> licences \<Rightarrow> (nat \<times> Diagnostic list \<times> licences) result" where
  "import_documents import_one refusal [] s = Inr (0, [], s)"
| "import_documents import_one refusal (d # ds) s =
     (case import_one d s of
        Inl e \<Rightarrow>
          if isDocumentRejection e
          then try_then (import_documents import_one refusal ds s) (\<lambda>(n, refused, s'). Inr (n, refusal # refused, s'))
          else Inl e
      | Inr (imported, s1) \<Rightarrow>
          try_then (import_documents import_one refusal ds s1) (\<lambda>(n, refused, s').
          Inr (if imported then Suc n else n, refused, s')))"

definition refused_bundle :: "string \<Rightarrow> string \<Rightarrow> BundleImport" where
  "refused_bundle digest detail =
     \<lparr>bm_Digest = digest, bm_ImportedGrants = 0, bm_ImportedRevocations = 0,
      bm_Diagnostics = [\<lparr>dg_Code = DiagnosticBundleRejected, dg_Detail = detail\<rparr>]\<rparr>"

definition ImportBundle ::
    "adapter option \<Rightarrow> (string \<Rightarrow> string) \<Rightarrow> string \<Rightarrow> string \<Rightarrow> timestamp \<Rightarrow> host \<Rightarrow> licences \<Rightarrow> (BundleImport \<times> licences) result" where
  "ImportBundle adapter sha256 raw_bundle importer now h s =
     (case adapter of
        None \<Rightarrow> Inr (refused_bundle (sha256 raw_bundle) ''the entitlement adapter is unavailable'', s)
      | Some a \<Rightarrow>
     if ts_Issuers (ad_trust a) = []
     then Inr (refused_bundle (sha256 raw_bundle) ''the bundle was not imported because no issuer trust is configured'', s)
     else case ParseBundleJSON a raw_bundle of
        Inl e \<Rightarrow> Inr (refused_bundle (sha256 raw_bundle) ''invalid bundle'', s)
      | Inr bundle \<Rightarrow>
     try_then (if bn_Grants bundle = [] then Inr [] else candidateBindings h s) (\<lambda>candidates.
     case verifyBundle a bundle candidates now of (accepted, snapshots, rejected) \<Rightarrow>
     try_then (import_documents (\<lambda>g. ImportPluginEntitlementGrant sha256 g importer (bn_Digest bundle)) grant_rejected accepted s)
       (\<lambda>(importedGrants, refusedGrants, s1).
     try_then (import_documents (\<lambda>r. ImportPluginEntitlementRevocations sha256 r importer (bn_Digest bundle)) revocations_rejected
         snapshots s1)
       (\<lambda>(importedRevocations, refusedSnapshots, s2).
     Inr (\<lparr>bm_Digest = sha256 raw_bundle, bm_ImportedGrants = importedGrants, bm_ImportedRevocations = importedRevocations,
           bm_Diagnostics = rejected @ refusedGrants @ refusedSnapshots\<rparr>, s2)))))"

section \<open>The licence of a plugin\<close>

definition errInstalledBinding :: model_error where
  "errInstalledBinding = ErrInternal ''installed entitlement binding is invalid''"

definition adapter_binding ::
    "adapter option \<Rightarrow> platform \<Rightarrow> string \<Rightarrow> Installation \<Rightarrow> licences \<Rightarrow> (Binding \<times> AvailabilityState) result" where
  "adapter_binding adapter pf org item s =
     fail_if (adapter = None \<or> \<not> Licensed item) errInstalledBinding
    (try_then (require_some errInstalledBinding (map_of (iv_Organizations item) org)) (\<lambda>state.
     case pf_uuid pf (iv_InstallationID item) of
       None \<Rightarrow> Inl errInstalledBinding
     | Some u \<Rightarrow>
     fail_if (u = Nil_uuid \<or> u \<noteq> iv_InstallationID item) errInstalledBinding
    (try_then (require_some (ErrNotFound ''organization not found'') (find_organization org s)) (\<lambda>o1.
     Inr (\<lparr>bi_PluginID = iv_ID item, bi_InstallationID = u, bi_OrganizationID = og_uuid o1,
           bi_DeclaredFeatures = (case iv_Entitlement item of None \<Rightarrow> [] | Some d \<Rightarrow> el_Features d)\<rparr>, state)))))"

definition adapter_verifier :: "adapter \<Rightarrow> Binding \<Rightarrow> string \<Rightarrow> timestamp \<Rightarrow> Grant result" where
  "adapter_verifier a b document effectiveNow = VerifyGrant (ad_lib a) document (ad_trust a) (ad_mode a) b effectiveNow"

definition GrantStatuses ::
    "adapter \<Rightarrow> uuid \<Rightarrow> string \<Rightarrow> string list \<Rightarrow> timestamp \<Rightarrow> licences \<Rightarrow> (string \<times> PluginEntitlementGrantStatus) list result" where
  "GrantStatuses a installation plugin declared now s =
     PluginEntitlementGrantStatuses (\<lambda>document b t. adapter_verifier a (b\<lparr>bi_DeclaredFeatures := declared\<rparr>) document t)
       installation plugin now s"

definition baseAccess :: "AvailabilityState \<Rightarrow> PluginEntitlementAccess" where
  "baseAccess state =
     \<lparr>ac_Enabled = (state = StateAvailable),
      ac_Retained = (state = StateAvailable \<or> state = StateNotEnabled \<or> state = StateNotEntitled),
      ac_Compatible = (state \<noteq> StateIncompatible \<and> state \<noteq> StateUnavailable), ac_Activate = False\<rparr>"

text \<open>Whether the installation is still active and enabled in the database.\<close>

definition adapter_enabled :: "string \<Rightarrow> Installation \<Rightarrow> host \<Rightarrow> bool" where
  "adapter_enabled org item h \<longleftrightarrow>
     RequirePluginEnablement \<lparr>us_OrgID = org, us_PluginID = iv_ID item, us_InstallationID = iv_InstallationID item,
       us_PackageSHA256 = iv_ManifestSHA256 item, us_Safety = False\<rparr> h = Inr ()"

definition decision_access :: "adapter \<Rightarrow> PluginEntitlementDecision \<Rightarrow> FeatureAccess" where
  "decision_access a d =
     \<lparr>fa_State = dc_State d, fa_TrustClass = (if dc_TrustClass d = '''' then ad_mode a else dc_TrustClass d),
      fa_Forward = dc_Forward d, fa_Read = dc_Read d, fa_Safety = dc_Safety d, fa_ExpiresAt = dc_ExpiresAt d,
      fa_GraceUntil = dc_GraceUntil d\<rparr>"

definition resolve_feature ::
    "adapter \<Rightarrow> string \<Rightarrow> Installation \<Rightarrow> host \<Rightarrow> Binding \<Rightarrow> AvailabilityState \<Rightarrow> timestamp \<Rightarrow> string \<Rightarrow> licences
       \<Rightarrow> (PluginEntitlementDecision \<times> licences) result" where
  "resolve_feature a org item h b state now feature s =
     try_then (DecidePluginEntitlementTx (adapter_verifier a b) b feature (baseAccess state) now s) (\<lambda>(decision, s1).
     if dc_Forward decision \<and> \<not> dc_Read decision \<and> adapter_enabled org item h
     then DecidePluginEntitlementTx (adapter_verifier a b) b feature ((baseAccess state)\<lparr>ac_Activate := True\<rparr>) now s1
     else Inr (decision, s1))"

definition ResolveEntitlement ::
    "adapter option \<Rightarrow> platform \<Rightarrow> string \<Rightarrow> Installation \<Rightarrow> timestamp \<Rightarrow> host \<Rightarrow> licences \<Rightarrow> (EntitlementStatus \<times> licences) result" where
  "ResolveEntitlement adapter pf org item now h s =
     (case adapter of
        None \<Rightarrow> Inl (ErrInternal ''entitlement adapter is unavailable'')
      | Some a \<Rightarrow>
     if \<not> Licensed item then Inr (no_status, s)
     else try_then (adapter_binding adapter pf org item s) (\<lambda>(b, state).
       try_fold (\<lambda>feature (status, s).
           try_then (resolve_feature a org item h b state now feature s) (\<lambda>(decision, s').
           Inr (status\<lparr>et_GrantScope := dc_Scope decision,
                       et_Features := AList.update feature (decision_access a decision) (et_Features status)\<rparr>, s')))
         (bi_DeclaredFeatures b) (no_status, s)))"

section \<open>The guard of an effect\<close>

text \<open>
  A refusal is the code of the 409 response; it does not fail the transaction, so what the decision observed is kept.
\<close>

definition boundary_state :: "string \<Rightarrow> bool" where
  "boundary_state state \<longleftrightarrow> state = TimeState_text Expired \<or> state = ''revoked'' \<or> state = ''untrusted''"

definition guard_refusal :: "AvailabilityState \<Rightarrow> PluginEntitlementDecision \<Rightarrow> bool \<Rightarrow> bool \<Rightarrow> string option" where
  "guard_refusal state decision mutating safety =
     (if mutating \<and> \<not> safety \<and> \<not> dc_Forward decision \<and> boundary_state (dc_State decision) then Some ''plugin_not_entitled''
      else if state = StateIncompatible then Some ''plugin_incompatible''
      else if state = StateUnavailable then Some ''plugin_unavailable''
      else if (if mutating \<and> \<not> safety then dc_Forward decision else if mutating \<and> safety then dc_Safety decision else dc_Read decision)
      then None
      else if state = StateNotEnabled \<and> (dc_State decision = TimeState_text Valid \<or> dc_State decision = TimeState_text Grace)
      then Some ''plugin_not_enabled'' else Some ''plugin_not_entitled'')"

definition Guard ::
    "adapter option \<Rightarrow> platform \<Rightarrow> string \<Rightarrow> Installation \<Rightarrow> string \<Rightarrow> bool \<Rightarrow> bool \<Rightarrow> timestamp \<Rightarrow> licences
       \<Rightarrow> (string option \<times> licences) result" where
  "Guard adapter pf org item feature mutating safety now s =
     (case adapter of
        None \<Rightarrow> Inr (Some ''plugin_not_entitled'', s)
      | Some a \<Rightarrow>
     if \<not> Licensed item then Inr (None, s)
     else case adapter_binding adapter pf org item s of
        Inl e \<Rightarrow> if IsErrNotFound e \<or> e = errInstalledBinding then Inr (Some ''plugin_not_entitled'', s) else Inl e
      | Inr (b, state) \<Rightarrow>
     if \<not> List.member (bi_DeclaredFeatures b) feature then Inr (Some ''plugin_not_entitled'', s)
     else try_then (DecidePluginEntitlementTx (adapter_verifier a b) b feature (baseAccess state) now s) (\<lambda>(decision, s1).
       case guard_refusal state decision mutating safety of
         Some code \<Rightarrow> Inr (Some code, s1)
       | None \<Rightarrow>
           if mutating \<and> \<not> safety
           then try_then (DecidePluginEntitlementTx (adapter_verifier a b) b feature ((baseAccess state)\<lparr>ac_Activate := True\<rparr>) now s1)
             (\<lambda>(d, s2). Inr (None, s2))
           else Inr (None, s1)))"

definition adapter_sweep :: "adapter option \<Rightarrow> int \<Rightarrow> timestamp \<Rightarrow> licences \<Rightarrow> nat \<times> model_error option \<times> licences" where
  "adapter_sweep adapter limit now s =
     (case adapter of
        None \<Rightarrow> (0, Some (ErrInternal ''entitlement adapter is unavailable''), s)
      | Some a \<Rightarrow> SweepPluginEntitlementBoundaries now limit s)"

section \<open>What the verifier gives\<close>

text \<open>
  A grant, or a snapshot of revocations, that is signed is the content of its document: the key ID and the claims are
  decoded from the document, and exactly one pinned key of the issuer, which fits the purpose, has signed the document. Only
  the effective features of a grant depend on the package too.
\<close>

definition grant_signed :: "adapter \<Rightarrow> Grant \<Rightarrow> string \<Rightarrow> bool" where
  "grant_signed a v document \<longleftrightarrow>
     (\<exists>kid payload claims. decodeEnvelope (ad_lib a) document = Inr (kid, payload) \<and> decodeGrant (ad_lib a) payload = Inr claims
        \<and> v = claims\<lparr>gt_KeyID := kid, gt_Envelope := document, gt_Digest := co_sha256 (ad_lib a) document,
            gt_EffectiveFeatures := gt_EffectiveFeatures v\<rparr>)
     \<and> (\<exists>k. pinned_keys (ad_trust a) (gt_Issuer v) (gt_KeyID v) = [k] \<and> key_fits GrantPurpose (gt_IssuedAt v) k
        \<and> co_signed (ad_lib a) document (ky_PublicKey k))"

definition snapshot_signed :: "adapter \<Rightarrow> Revocations \<Rightarrow> string \<Rightarrow> bool" where
  "snapshot_signed a r document \<longleftrightarrow>
     (\<exists>kid payload claims. decodeEnvelope (ad_lib a) document = Inr (kid, payload) \<and> decodeRevocations (ad_lib a) payload = Inr claims
        \<and> r = claims\<lparr>rv_KeyID := kid, rv_Envelope := document, rv_Digest := co_sha256 (ad_lib a) document\<rparr>)
     \<and> (\<exists>k. pinned_keys (ad_trust a) (rv_Issuer r) (rv_KeyID r) = [k] \<and> key_fits RevocationPurpose (rv_IssuedAt r) k
        \<and> co_signed (ad_lib a) document (ky_PublicKey k))"

lemma verified_grant:
  assumes "VerifyGrant (ad_lib a) document (ad_trust a) (ad_mode a) b now = Inr v"
  shows "grant_signed a v document \<and> gt_TrustClass v = ad_mode a \<and> gt_PluginID v = bi_PluginID b
    \<and> gt_InstallationID v = bi_InstallationID b \<and> (InstallationWide v \<or> gt_OrganizationID v = bi_OrganizationID b)
    \<and> gt_ExpiresAt v \<le> gt_GraceUntil v \<and> gt_Envelope v = document
    \<and> set (gt_EffectiveFeatures v) = set (gt_Features v) \<inter> set (bi_DeclaredFeatures b)"
  using assms
proof (rule VerifyGrant_Inr)
  fix kid payload claims key
  assume e: "decodeEnvelope (ad_lib a) document = Inr (kid, payload)" and d: "decodeGrant (ad_lib a) payload = Inr claims"
    and k: "selectKey (ad_trust a) (ad_mode a) (gt_Issuer claims) kid GrantPurpose (gt_PluginID claims) (gt_IssuedAt claims) = Inr key"
    and f: "co_signed (ad_lib a) document key" "gt_TrustClass claims = ad_mode a"
      "gt_PluginID claims = bi_PluginID b" "gt_InstallationID claims = bi_InstallationID b"
      "InstallationWide claims \<or> gt_OrganizationID claims = bi_OrganizationID b"
    and g: "v = claims\<lparr>gt_KeyID := kid, gt_Envelope := document, gt_Digest := co_sha256 (ad_lib a) document,
            gt_EffectiveFeatures := filter (\<lambda>f. List.member (bi_DeclaredFeatures b) f) (gt_Features claims)\<rparr>"
  have "\<exists>kid payload claims. decodeEnvelope (ad_lib a) document = Inr (kid, payload) \<and> decodeGrant (ad_lib a) payload = Inr claims
      \<and> v = claims\<lparr>gt_KeyID := kid, gt_Envelope := document, gt_Digest := co_sha256 (ad_lib a) document,
          gt_EffectiveFeatures := gt_EffectiveFeatures v\<rparr>"
    by (intro exI [of _ kid] exI [of _ payload] exI [of _ claims]) (simp add: e d g)
  with decodeGrant_Inr(1) [OF d] selectKey_Inr(3) [OF k] f g show ?thesis
    by (auto simp: InstallationWide_def grant_signed_def)
qed

lemma verified_snapshot:
  assumes "VerifyRevocations (ad_lib a) document (ad_trust a) (ad_mode a) now = Inr r"
  shows "snapshot_signed a r document \<and> rv_TrustClass r = ad_mode a \<and> rv_Envelope r = document"
proof -
  from assms obtain kid payload claims key where
    d: "decodeEnvelope (ad_lib a) document = Inr (kid, payload)" "decodeRevocations (ad_lib a) payload = Inr claims"
    and k: "selectKey (ad_trust a) (ad_mode a) (rv_Issuer claims) kid RevocationPurpose [] (rv_IssuedAt claims) = Inr key"
    and v: "verify (ad_lib a) document key = Inr ()" "rv_TrustClass claims = ad_mode a"
    and r: "r = claims\<lparr>rv_KeyID := kid, rv_Envelope := document, rv_Digest := co_sha256 (ad_lib a) document\<rparr>"
    unfolding VerifyRevocations_def try_then_Inr_iff fail_unless_Inr_iff split_paired_Ex prod.case sum.inject unit_Ex
    by metis
  from v(1) have "co_signed (ad_lib a) document key" by (auto simp: verify_def fail_unless_def split: if_splits)
  moreover have "\<exists>kid payload claims. decodeEnvelope (ad_lib a) document = Inr (kid, payload)
      \<and> decodeRevocations (ad_lib a) payload = Inr claims
      \<and> r = claims\<lparr>rv_KeyID := kid, rv_Envelope := document, rv_Digest := co_sha256 (ad_lib a) document\<rparr>"
    using d r by blast
  ultimately show ?thesis using selectKey_Inr(3) [OF k] v(2) r by (auto simp: snapshot_signed_def)
qed

lemma matchGrant_Some:
  "matchGrant a document bs now = Some v \<Longrightarrow>
     \<exists>b\<in>set bs. VerifyGrant (ad_lib a) document (ad_trust a) (ad_mode a) b now = Inr v"
  by (induction bs) (auto split: sum.splits)

section \<open>The import of a bundle is a history\<close>

lemma run_append: "run step s (as @ bs) s' \<longleftrightarrow> (\<exists>t. run step s as t \<and> run step t bs s')"
  by (induction as arbitrary: s) auto

lemma run_Cons: "step s a t \<Longrightarrow> run step t as s' \<Longrightarrow> run step s (a # as) s'"
  by auto

text \<open>Every new document is one step; the others change nothing.\<close>

lemma import_documents_run:
  assumes "import_documents import_one refusal ds s = Inr (n, refused, s')"
    and "\<And>d new s s'. import_one d s = Inr (new, s') \<Longrightarrow> step s (event d new) s'"
  shows "\<exists>es. run step s es s' \<and> set es \<subseteq> {event d new |d new. d \<in> set ds}"
  using assms(1)
proof (induction ds arbitrary: s n refused)
  case Nil
  then show ?case by (intro exI [of _ "[]"]) simp
next
  case (Cons d ds)
  show ?case
  proof (cases "import_one d s")
    case (Inl e)
    with Cons.prems obtain m r where "import_documents import_one refusal ds s = Inr (m, r, s')"
      by (auto split: if_splits)
    from Cons.IH [OF this] show ?thesis by fastforce
  next
    case (Inr r)
    obtain new s1 where r: "r = (new, s1)" by (cases r)
    with Cons.prems Inr obtain m q where "import_documents import_one refusal ds s1 = Inr (m, q, s')" by auto
    from Cons.IH [OF this] obtain es where "run step s1 es s'" "set es \<subseteq> {event d new |d new. d \<in> set ds}" by blast
    moreover have "step s (event d new) s1" using assms(2) Inr r by simp
    ultimately show ?thesis by (intro exI [of _ "event d new # es"]) fastforce
  qed
qed

text \<open>The number of new documents and of refusals is what the report says.\<close>

lemma import_documents_counts:
  "import_documents import_one refusal ds s = Inr (n, refused, s') \<Longrightarrow> n + length refused \<le> length ds \<and> set refused \<subseteq> {refusal}"
  by (induction import_one refusal ds s arbitrary: n refused rule: import_documents.induct)
    (fastforce split: sum.splits if_splits)+

definition bundle_grants :: "adapter \<Rightarrow> Bundle \<Rightarrow> Binding list \<Rightarrow> timestamp \<Rightarrow> Grant list" where
  "bundle_grants a bundle candidates now = fst (verifyBundle a bundle candidates now)"

lemma verifyBundle_grants:
  "v \<in> set (fst (verifyBundle a bundle candidates now)) \<longleftrightarrow>
     (\<exists>d\<in>set (bn_Grants bundle). matchGrant a d candidates now = Some v)"
  by (auto simp: verifyBundle_def Let_def map_filter_def image_iff)

lemma verifyBundle_snapshots:
  "r \<in> set (fst (snd (verifyBundle a bundle candidates now))) \<longleftrightarrow>
     (\<exists>d\<in>set (bn_Revocations bundle). VerifyRevocations (ad_lib a) d (ad_trust a) (ad_mode a) now = Inr r)"
proof -
  have f: "r \<in> set (List.map_filter (case_sum (\<lambda>e. None) Some) (map f ds)) \<longleftrightarrow> (\<exists>d\<in>set ds. f d = Inr r)"
    for f :: "string \<Rightarrow> Revocations result" and ds
    by (induction ds) (auto simp: map_filter_simps split: sum.splits option.splits)
  show ?thesis by (simp add: verifyBundle_def Let_def f)
qed

lemma ImportBundle_Inr:
  assumes "ImportBundle adapter sha256 raw_bundle importer now h s = Inr (report, s')"
  shows "s' = s \<and> bm_ImportedGrants report = 0 \<and> bm_ImportedRevocations report = 0 \<or>
    (\<exists>a bundle candidates s1 n1 n2 r1 r2. adapter = Some a \<and> ParseBundleJSON a raw_bundle = Inr bundle
       \<and> (bn_Grants bundle \<noteq> [] \<longrightarrow> candidateBindings h s = Inr candidates)
       \<and> import_documents (\<lambda>g. ImportPluginEntitlementGrant sha256 g importer (bn_Digest bundle)) grant_rejected
           (fst (verifyBundle a bundle candidates now)) s = Inr (n1, r1, s1)
       \<and> import_documents (\<lambda>r. ImportPluginEntitlementRevocations sha256 r importer (bn_Digest bundle)) revocations_rejected
           (fst (snd (verifyBundle a bundle candidates now))) s1 = Inr (n2, r2, s')
       \<and> bm_ImportedGrants report = n1 \<and> bm_ImportedRevocations report = n2)"
proof (cases adapter)
  case None
  then show ?thesis using assms by (auto simp: ImportBundle_def refused_bundle_def)
next
  case (Some a)
  consider "ts_Issuers (ad_trust a) = []" | e where "ParseBundleJSON a raw_bundle = Inl e"
    | parsed where "ts_Issuers (ad_trust a) \<noteq> []" "ParseBundleJSON a raw_bundle = Inr parsed"
    by (metis sum.exhaust)
  then show ?thesis
  proof cases
    case (3 parsed)
    from assms [unfolded ImportBundle_def] obtain candidates where
      c: "(if bn_Grants parsed = [] then Inr [] else candidateBindings h s) = Inr candidates"
      and i: "(case verifyBundle a parsed candidates now of (accepted, snapshots, rejected) \<Rightarrow>
     try_then (import_documents (\<lambda>g. ImportPluginEntitlementGrant sha256 g importer (bn_Digest parsed)) grant_rejected accepted s)
       (\<lambda>(importedGrants, refusedGrants, s1).
     try_then (import_documents (\<lambda>r. ImportPluginEntitlementRevocations sha256 r importer (bn_Digest parsed)) revocations_rejected
         snapshots s1)
       (\<lambda>(importedRevocations, refusedSnapshots, s2).
     Inr (\<lparr>bm_Digest = sha256 raw_bundle, bm_ImportedGrants = importedGrants, bm_ImportedRevocations = importedRevocations,
           bm_Diagnostics = rejected @ refusedGrants @ refusedSnapshots\<rparr>, s2)))) = Inr (report, s')"
      unfolding Some option.case if_not_P [OF 3(1)] 3(2) sum.case try_then_Inr_iff by blast
    obtain accepted snapshots rejected where v: "verifyBundle a parsed candidates now = (accepted, snapshots, rejected)"
      by (cases "verifyBundle a parsed candidates now")
    from i obtain n1 r1 s1 n2 r2 where
      "import_documents (\<lambda>g. ImportPluginEntitlementGrant sha256 g importer (bn_Digest parsed)) grant_rejected accepted s = Inr (n1, r1, s1)"
      "import_documents (\<lambda>r. ImportPluginEntitlementRevocations sha256 r importer (bn_Digest parsed)) revocations_rejected snapshots s1
         = Inr (n2, r2, s')" "bm_ImportedGrants report = n1" "bm_ImportedRevocations report = n2"
      unfolding v by auto
    then show ?thesis using c v 3(2) Some
      by (intro disjI2 exI [of _ a] exI [of _ parsed] exI [of _ candidates] exI [of _ s1] exI [of _ n1] exI [of _ n2] exI [of _ r1]
          exI [of _ r2]) auto
  qed (use assms Some in \<open>auto simp: ImportBundle_def refused_bundle_def split: if_splits sum.splits\<close>)
qed

lemma import_documents_invariant:
  assumes "import_documents import_one refusal ds s = Inr (n, refused, s')" "I s"
    and "\<And>d new s s'. d \<in> set ds \<Longrightarrow> import_one d s = Inr (new, s') \<Longrightarrow> I s \<Longrightarrow> I s'"
  shows "I s'"
  using assms
proof (induction import_one refusal ds s arbitrary: n refused rule: import_documents.induct)
  case (2 import_one refusal d ds s)
  show ?case
  proof (cases "import_one d s")
    case (Inl e)
    with 2(3) obtain m r where r: "isDocumentRejection e" "import_documents import_one refusal ds s = Inr (m, r, s')"
      by (auto split: if_splits)
    show ?thesis by (rule 2(1) [OF Inl r(1,2) 2(4)]) (use 2(5) in auto)
  next
    case (Inr q)
    obtain new s1 where q: "q = (new, s1)" by (cases q)
    with 2(3) Inr obtain m r where r: "import_documents import_one refusal ds s1 = Inr (m, r, s')" by auto
    have "I s1" using 2(5) [of d s new s1] Inr q 2(4) by auto
    then show ?thesis by (rule 2(2) [OF Inr q [symmetric] r]) (use 2(5) in auto)
  qed
qed simp

lemma grant_import_rows:
  assumes "ImportPluginEntitlementGrant sha256 g importer digest s = Inr (new, s')"
  shows "set (lc_grants s') \<subseteq> set (lc_grants s) \<union> {grant_row g importer digest}
    \<and> lc_snapshots s' = lc_snapshots s \<and> lc_revocations s' = lc_revocations s"
proof (cases new)
  case True
  with grant_import_Inr(4) [OF assms] obtain s1 where
    "insert_entitlement_grant (grant_row g importer digest) s = Inr s1"
    "entitlementAudit (gt_Issuer g) (Some (grant_binding g)) ''grant_imported'' (gt_Sequence g) (gt_TrustClass g)
               importer digest (put_binding g s1) = Inr s'" by auto
  then show ?thesis using entitlementAudit_tables by (auto simp: insert_entitlement_grant_Inr put_binding_def dest!: entitlementAudit_tables)
qed (use grant_import_Inr(4) [OF assms] in auto)

lemma revocation_import_rows:
  assumes "ImportPluginEntitlementRevocations sha256 r importer digest s = Inr (new, s')"
  shows "set (lc_snapshots s') \<subseteq> set (lc_snapshots s) \<union> {snapshot_row r importer digest}
    \<and> set (lc_revocations s') \<subseteq> set (lc_revocations s) \<union> revocation_row r ` set (rv_IssuanceIDs r)
    \<and> lc_grants s' = lc_grants s"
  using revocation_import_Inr [OF assms]
proof (elim disjE conjE exE)
  fix ids s2
  assume i: "insert_revocations r (rv_IssuanceIDs r) (s\<lparr>lc_snapshots := lc_snapshots s @ [snapshot_row r importer digest]\<rparr>) = (ids, s2)"
    and a: "entitlementAudit (rv_Issuer r) None ''revocations_imported'' (rv_Sequence r) (rv_TrustClass r) importer digest
        (bump_bindings (rv_Issuer r) ids s2) = Inr s'"
  show ?thesis
    using entitlementAudit_tables [OF a] insert_revocations_tables [OF i] insert_revocations_rows [OF i]
    by (auto simp: bump_bindings_def)
qed auto

text \<open>The candidates are bindings of installations that Core can serve and whose package requires a licence.\<close>

definition licensable :: "host \<Rightarrow> Binding \<Rightarrow> bool" where
  "licensable h b \<longleftrightarrow>
     (\<exists>i\<in>set (plugin_installations h). in_installation_uuid i = bi_InstallationID b \<and> in_plugin_id i = bi_PluginID b
        \<and> in_state i \<in> {''installed'', ''active'', ''disabled''}
        \<and> (\<exists>p\<in>set (plugin_packages h). pp_ManifestSHA256 p = in_package_sha256 i
             \<and> required_features (pp_Manifest p) = Some (bi_DeclaredFeatures b)))"

lemma listed_installation:
  "x \<in> set (ListPluginInstallations h) \<Longrightarrow> \<exists>i\<in>set (plugin_installations h). in_installation_uuid i = pi_InstallationID x
     \<and> in_plugin_id i = pi_PluginID x \<and> in_state i = pi_State x \<and> in_package_sha256 i = pi_PackageSHA256 x"
  by (auto simp: ListPluginInstallations_def scanPluginInstallation_def)

lemma organization_bindings_Inr:
  "organization_bindings x features s candidates = Inr candidates' \<Longrightarrow> b \<in> set candidates' \<Longrightarrow>
     b \<in> set candidates \<or> bi_InstallationID b = pi_InstallationID x \<and> bi_PluginID b = pi_PluginID x \<and> bi_DeclaredFeatures b = features"
  unfolding organization_bindings_def
  by (drule try_fold_invariant [where I = "\<lambda>c. \<forall>b\<in>set c. b \<in> set candidates \<or> bi_InstallationID b = pi_InstallationID x
        \<and> bi_PluginID b = pi_PluginID x \<and> bi_DeclaredFeatures b = features"])
    (auto simp: Let_def split: option.splits if_splits)

lemma candidates_licensable:
  assumes "candidateBindings h s = Inr candidates" "b \<in> set candidates"
  shows "licensable h b"
proof -
  have "\<forall>b\<in>set candidates. licensable h b"
    using assms(1) unfolding candidateBindings_def
  proof (rule try_fold_invariant)
    fix x c c'
    assume x: "x \<in> set (ListPluginInstallations h)" and c: "\<forall>b\<in>set c. licensable h b"
      and step: "(if \<not> List.member [''installed'', ''active'', ''disabled''] (pi_State x) then Inr c
       else try_then (GetPluginPackage (pi_PackageSHA256 x) h) (\<lambda>package.
         case required_features (pp_Manifest package) of
           None \<Rightarrow> Inr c
         | Some features \<Rightarrow>
             organization_bindings x features s
               (c @ [\<lparr>bi_PluginID = pi_PluginID x, bi_InstallationID = pi_InstallationID x,
                  bi_OrganizationID = Nil_uuid, bi_DeclaredFeatures = features\<rparr>]))) = Inr c'"
    show "\<forall>b\<in>set c'. licensable h b"
    proof
      fix b
      assume b: "b \<in> set c'"
      from listed_installation [OF x] obtain i where
        i: "i \<in> set (plugin_installations h)" "in_installation_uuid i = pi_InstallationID x"
        "in_plugin_id i = pi_PluginID x" "in_state i = pi_State x" "in_package_sha256 i = pi_PackageSHA256 x" by blast
      show "licensable h b"
      proof (cases "List.member [''installed'', ''active'', ''disabled''] (pi_State x)")
        case True
        with step obtain p where p: "GetPluginPackage (pi_PackageSHA256 x) h = Inr p"
          and s: "(case required_features (pp_Manifest p) of None \<Rightarrow> Inr c
            | Some features \<Rightarrow> organization_bindings x features s
               (c @ [\<lparr>bi_PluginID = pi_PluginID x, bi_InstallationID = pi_InstallationID x,
                  bi_OrganizationID = Nil_uuid, bi_DeclaredFeatures = features\<rparr>])) = Inr c'"
          by auto
        from p have pk: "p \<in> set (plugin_packages h)" "pp_ManifestSHA256 p = pi_PackageSHA256 x"
          by (auto simp: GetPluginPackage_def dest!: find_in_set)
        show ?thesis
        proof (cases "required_features (pp_Manifest p)")
          case None
          with s c b show ?thesis by simp
        next
          case (Some features)
          with s have "organization_bindings x features s
               (c @ [\<lparr>bi_PluginID = pi_PluginID x, bi_InstallationID = pi_InstallationID x,
                  bi_OrganizationID = Nil_uuid, bi_DeclaredFeatures = features\<rparr>]) = Inr c'" by simp
          from organization_bindings_Inr [OF this b] have
            "b \<in> set c \<or> bi_InstallationID b = pi_InstallationID x \<and> bi_PluginID b = pi_PluginID x \<and> bi_DeclaredFeatures b = features"
            by auto
          then show ?thesis
          proof
            assume "bi_InstallationID b = pi_InstallationID x \<and> bi_PluginID b = pi_PluginID x \<and> bi_DeclaredFeatures b = features"
            then show ?thesis unfolding licensable_def using i pk Some True
              by (intro bexI [of _ i] conjI bexI [of _ p]) auto
          qed (use c in blast)
        qed
      qed (use step c b in simp)
    qed
  qed simp
  then show ?thesis using assms(2) by blast
qed

lemma matchGrant_licensable:
  assumes "matchGrant a document candidates now = Some v" "candidateBindings h s = Inr candidates"
  shows "\<exists>b. licensable h b \<and> VerifyGrant (ad_lib a) document (ad_trust a) (ad_mode a) b now = Inr v"
  using matchGrant_Some [OF assms(1)] candidates_licensable [OF assms(2)] by blast

text \<open>
  Where new rows come from: a new row is the projection of what a signed document of this very bundle says, with the
  digest of the bundle as its source.
\<close>

definition bundle_of :: "adapter option \<Rightarrow> string \<Rightarrow> adapter \<Rightarrow> Bundle \<Rightarrow> bool" where
  "bundle_of adapter raw_bundle a bdl \<longleftrightarrow> adapter = Some a \<and> ParseBundleJSON a raw_bundle = Inr bdl"

definition evidenced_grant :: "adapter option \<Rightarrow> string \<Rightarrow> host \<Rightarrow> string \<Rightarrow> timestamp \<Rightarrow> entitlement_grant \<Rightarrow> bool" where
  "evidenced_grant adapter raw_bundle h importer now g \<longleftrightarrow>
     (\<exists>a bdl v b. bundle_of adapter raw_bundle a bdl \<and> eg_cose g \<in> set (bn_Grants bdl) \<and> grant_signed a v (eg_cose g)
        \<and> g = grant_row v importer (co_sha256 (ad_lib a) raw_bundle) \<and> gt_TrustClass v = ad_mode a \<and> gt_IssuedAt v \<le> now + 30
        \<and> licensable h b \<and> gt_InstallationID v = bi_InstallationID b \<and> gt_PluginID v = bi_PluginID b)"

definition evidenced_snapshot :: "adapter option \<Rightarrow> string \<Rightarrow> string \<Rightarrow> entitlement_snapshot \<Rightarrow> bool" where
  "evidenced_snapshot adapter raw_bundle importer n \<longleftrightarrow>
     (\<exists>a bdl r. bundle_of adapter raw_bundle a bdl \<and> es_cose n \<in> set (bn_Revocations bdl) \<and> snapshot_signed a r (es_cose n)
        \<and> n = snapshot_row r importer (co_sha256 (ad_lib a) raw_bundle) \<and> rv_TrustClass r = ad_mode a)"

definition evidenced_revocation :: "adapter option \<Rightarrow> string \<Rightarrow> entitlement_revocation \<Rightarrow> bool" where
  "evidenced_revocation adapter raw_bundle u \<longleftrightarrow>
     (\<exists>a bdl r. bundle_of adapter raw_bundle a bdl \<and> rv_Envelope r \<in> set (bn_Revocations bdl) \<and> snapshot_signed a r (rv_Envelope r)
        \<and> rv_TrustClass r = ad_mode a \<and> ev_issuance_id u \<in> set (rv_IssuanceIDs r) \<and> u = revocation_row r (ev_issuance_id u))"

lemma parsed_digest: "ParseBundleJSON a raw_bundle = Inr bdl \<Longrightarrow> bn_Digest bdl = co_sha256 (ad_lib a) raw_bundle"
  by (auto simp: ParseBundleJSON_def split: option.splits)

lemma evidenced_grantI:
  assumes "VerifyGrant (ad_lib a) d (ad_trust a) (ad_mode a) b now = Inr v" "licensable h b"
    "bundle_of adapter raw_bundle a bdl" "d \<in> set (bn_Grants bdl)"
  shows "evidenced_grant adapter raw_bundle h importer now (grant_row v importer (bn_Digest bdl))"
proof -
  from assms(1) have "gt_IssuedAt v \<le> now + 30" by (rule VerifyGrant_Inr) simp
  moreover have "bn_Digest bdl = co_sha256 (ad_lib a) raw_bundle" using assms(3) parsed_digest by (simp add: bundle_of_def)
  ultimately show ?thesis
    unfolding evidenced_grant_def using verified_grant [OF assms(1)] assms(2-4)
    by (intro exI [of _ a] exI [of _ bdl] exI [of _ v] exI [of _ b]) (simp add: grant_row_def)
qed

lemma evidenced_snapshotI:
  assumes "VerifyRevocations (ad_lib a) d (ad_trust a) (ad_mode a) now = Inr r"
    "bundle_of adapter raw_bundle a bdl" "d \<in> set (bn_Revocations bdl)"
  shows "evidenced_snapshot adapter raw_bundle importer (snapshot_row r importer (bn_Digest bdl))"
    "u \<in> revocation_row r ` set (rv_IssuanceIDs r) \<Longrightarrow> evidenced_revocation adapter raw_bundle u"
proof -
  note r = verified_snapshot [OF assms(1)]
  have "bn_Digest bdl = co_sha256 (ad_lib a) raw_bundle" using assms(2) parsed_digest by (simp add: bundle_of_def)
  then show "evidenced_snapshot adapter raw_bundle importer (snapshot_row r importer (bn_Digest bdl))"
    unfolding evidenced_snapshot_def using r assms(2,3)
    by (intro exI [of _ a] exI [of _ bdl] exI [of _ r]) (simp add: snapshot_row_def)
  assume "u \<in> revocation_row r ` set (rv_IssuanceIDs r)"
  then show "evidenced_revocation adapter raw_bundle u"
    unfolding evidenced_revocation_def using r assms(2,3)
    by (intro exI [of _ a] exI [of _ bdl] exI [of _ r]) (auto simp: revocation_row_def)
qed

section \<open>Properties of the import\<close>

text \<open>
  C13. A bundle brings in nothing but signed evidence. After the import of a bundle every stored grant that is new is, column
  by column, what a document of this bundle says that is decoded to it and that exactly one pinned key of its issuer with its
  key ID signed for grants; it is of the trust class of the adapter, was not issued more than 30 seconds after the clock, belongs
  to an installation that Core can serve and whose package requires a licence, and names the digest of the bundle as its source.
  Every new snapshot is in the same way what a signed revocation document of the bundle says, and every new revocation is of an
  issuance ID that such a document lists, with the issuer, the sequence and the time of that document. The import is a history
  of single imports, so that everything that holds over histories holds over it.
\<close>

theorem bundle_evidence:
  assumes "ImportBundle adapter sha256 raw_bundle importer now h s = Inr (report, s')"
  shows "(\<exists>es. run (licence_step sha256) s es s')
    \<and> set (lc_grants s') \<subseteq> set (lc_grants s) \<union> {g. evidenced_grant adapter raw_bundle h importer now g}
    \<and> set (lc_snapshots s') \<subseteq> set (lc_snapshots s) \<union> {n. evidenced_snapshot adapter raw_bundle importer n}
    \<and> set (lc_revocations s') \<subseteq> set (lc_revocations s) \<union> {u. evidenced_revocation adapter raw_bundle u}"
    (is "?run \<and> ?grants s' \<and> ?snapshots s' \<and> ?revocations s'")
  using ImportBundle_Inr [OF assms]
proof (elim disjE conjE exE)
  assume "s' = s"
  then show ?thesis by (auto intro: exI [of _ "[]"])
next
  fix a bdl candidates s1 n1 n2 r1 r2
  let ?v = "verifyBundle a bdl candidates now"
  assume a: "adapter = Some a" and p: "ParseBundleJSON a raw_bundle = Inr bdl"
    and c: "bn_Grants bdl \<noteq> [] \<longrightarrow> candidateBindings h s = Inr candidates"
    and 1: "import_documents (\<lambda>g. ImportPluginEntitlementGrant sha256 g importer (bn_Digest bdl)) grant_rejected (fst ?v) s = Inr (n1, r1, s1)"
    and 2: "import_documents (\<lambda>r. ImportPluginEntitlementRevocations sha256 r importer (bn_Digest bdl)) revocations_rejected
           (fst (snd ?v)) s1 = Inr (n2, r2, s')"
  have bdl: "bundle_of adapter raw_bundle a bdl" using a p by (simp add: bundle_of_def)
  obtain es where "run (licence_step sha256) s es s1"
    using import_documents_run [OF 1, of "licence_step sha256" GrantImported] licence_step.import_grant by blast
  moreover obtain es' where "run (licence_step sha256) s1 es' s'"
    using import_documents_run [OF 2, of "licence_step sha256" RevocationsImported] licence_step.import_revocations by blast
  ultimately have "run (licence_step sha256) s (es @ es') s'" by (auto simp: run_append)
  then have run: ?run by blast
  have g: "?grants s1 \<and> lc_snapshots s1 = lc_snapshots s \<and> lc_revocations s1 = lc_revocations s"
  proof (rule import_documents_invariant [OF 1])
    fix v new t t'
    assume v: "v \<in> set (fst ?v)" and i: "ImportPluginEntitlementGrant sha256 v importer (bn_Digest bdl) t = Inr (new, t')"
      and t: "?grants t \<and> lc_snapshots t = lc_snapshots s \<and> lc_revocations t = lc_revocations s"
    from v verifyBundle_grants obtain d where d: "d \<in> set (bn_Grants bdl)" "matchGrant a d candidates now = Some v" by blast
    with c have "candidateBindings h s = Inr candidates" by auto
    from matchGrant_licensable [OF d(2) this] obtain b where b: "licensable h b"
      "VerifyGrant (ad_lib a) d (ad_trust a) (ad_mode a) b now = Inr v" by blast
    from evidenced_grantI [OF b(2,1) bdl d(1)]
    have "evidenced_grant adapter raw_bundle h importer now (grant_row v importer (bn_Digest bdl))" .
    then show "?grants t' \<and> lc_snapshots t' = lc_snapshots s \<and> lc_revocations t' = lc_revocations s"
      using grant_import_rows [OF i] t by auto
  qed simp
  have "?snapshots s' \<and> ?revocations s' \<and> lc_grants s' = lc_grants s1"
  proof (rule import_documents_invariant [OF 2])
    fix r new t t'
    assume r: "r \<in> set (fst (snd ?v))" and i: "ImportPluginEntitlementRevocations sha256 r importer (bn_Digest bdl) t = Inr (new, t')"
      and t: "?snapshots t \<and> ?revocations t \<and> lc_grants t = lc_grants s1"
    from r verifyBundle_snapshots obtain d where d: "d \<in> set (bn_Revocations bdl)"
      "VerifyRevocations (ad_lib a) d (ad_trust a) (ad_mode a) now = Inr r" by blast
    from evidenced_snapshotI [OF d(2) bdl d(1)]
    show "?snapshots t' \<and> ?revocations t' \<and> lc_grants t' = lc_grants s1"
      using revocation_import_rows [OF i] t by auto
  qed (use g in simp)
  with run g show ?thesis by auto
qed

section \<open>Properties of the guard\<close>

lemma decision_covered:
  assumes "DecidePluginEntitlementTx verifier b feature access now s = Inr (d, s')" "\<not> ac_Activate access" "dc_Forward d"
  shows "ac_Enabled access \<and> (\<exists>scope\<in>{Some (bi_OrganizationID b), None}. covers verifier b scope feature now s)"
proof -
  have "bi_OrganizationID b \<noteq> Nil_uuid" using assms(1) by (auto simp: DecidePluginEntitlementTx_def)
  then have o1: "organizationScope (bi_OrganizationID b) = Some (bi_OrganizationID b)" by (simp add: organizationScope_def)
  from decision_Inr [OF assms(1)] assms(2) obtain scope where
    "covering_decision verifier b feature (access\<lparr>ac_Activate := False\<rparr>) now s = Inr (d, scope, s')" by auto
  from covering_forward_iff(1) [OF this] assms(3) o1 show ?thesis by auto
qed

text \<open>
  The grant behind a feature that is covered: the signed content of the stored document, which agrees with the columns of
  the stored grant and its binding.
\<close>

definition covering_grant :: "adapter \<Rightarrow> Binding \<Rightarrow> string \<Rightarrow> timestamp \<Rightarrow> licences \<Rightarrow> entitlement_binding \<Rightarrow> entitlement_grant \<Rightarrow> Grant \<Rightarrow> bool" where
  "covering_grant a b feature now s w g v \<longleftrightarrow>
     find_grant (ew_issuer w) (ew_issuance_id w) s = Some g
     \<and> ew_organization_uuid w \<in> {Some (bi_OrganizationID b), None}
     \<and> ew_installation_uuid w = bi_InstallationID b \<and> ew_plugin_id w = bi_PluginID b
     \<and> gt_InstallationID v = bi_InstallationID b \<and> gt_PluginID v = bi_PluginID b
     \<and> (InstallationWide v \<or> gt_OrganizationID v = bi_OrganizationID b)
     \<and> grant_signed a v (eg_cose g) \<and> gt_TrustClass v = ad_mode a \<and> trusts (stored_grant w g) (Inr v)
     \<and> feature \<in> set (gt_Features v) \<and> feature \<in> set (bi_DeclaredFeatures b)
     \<and> gt_NotBefore v \<le> effective_now w now \<and> effective_now w now < gt_GraceUntil v
     \<and> \<not> revoked (ew_issuer w) (ew_issuance_id w) s"

lemma covers_grant:
  assumes "covers (adapter_verifier a b) b scope feature now s" "scope \<in> {Some (bi_OrganizationID b), None}"
  shows "\<exists>w\<in>set (lc_bindings s). \<exists>g v. covering_grant a b feature now s w g v"
proof -
  from assms(1) obtain w g v where w: "find_binding (bi_InstallationID b, bi_PluginID b, scope) s = Some w"
    and g: "find_grant (ew_issuer w) (ew_issuance_id w) s = Some g"
    and st: "scope_state (adapter_verifier a b) now w g s \<in> {TimeState_text Valid, TimeState_text Grace}"
    and v: "adapter_verifier a b (eg_cose g) (effective_now w now) = Inr v" "feature \<in> set (gt_EffectiveFeatures v)"
    by (auto simp: covers_def split: option.splits sum.splits)
  from w have wk: "w \<in> set (lc_bindings s)" "entitlement_binding_key w = (bi_InstallationID b, bi_PluginID b, scope)"
    by (auto simp: find_binding_def dest!: find_in_set)
  note ok = verified_grant [OF v(1) [unfolded adapter_verifier_def]]
  from st v(1) have "\<not> revoked (ew_issuer w) (ew_issuance_id w) s" "trusts (stored_grant w g) (Inr v)"
    "TimeState_text (EvaluateTime v (effective_now w now)) \<in> {TimeState_text Valid, TimeState_text Grace}"
    by (auto simp: scope_state_def Let_def grantState_def pluginGrantRevoked_def split: if_splits)
  moreover from this(3) have "gt_NotBefore v \<le> effective_now w now \<and> effective_now w now < gt_GraceUntil v"
    using ok by (auto simp: EvaluateTime_def split: if_splits)
  ultimately have "covering_grant a b feature now s w g v"
    unfolding covering_grant_def using g wk assms(2) ok v(2) by (auto simp: entitlement_binding_key_def)
  with wk show ?thesis by blast
qed

lemma adapter_binding_Inr:
  assumes "adapter_binding adapter pf org item s = Inr (b, state)"
  shows "Licensed item \<and> map_of (iv_Organizations item) org = Some state \<and> bi_PluginID b = iv_ID item
    \<and> bi_InstallationID b = iv_InstallationID item \<and> bi_InstallationID b \<noteq> Nil_uuid
    \<and> (\<exists>o1\<in>set (lc_orgs s). og_id o1 = org \<and> og_uuid o1 = bi_OrganizationID b)
    \<and> Some (bi_DeclaredFeatures b) = map_option el_Features (iv_Entitlement item)"
  using assms
  by (fastforce simp: adapter_binding_def find_organization_def Licensed_def split: option.splits if_splits dest!: find_in_set)

lemma guard_refusal_forward:
  "guard_refusal state d True False = None \<Longrightarrow> dc_Forward d"
  by (auto simp: guard_refusal_def split: if_splits)

text \<open>
  Licensed work rests on a signed grant. When the guard lets new work of a licensed plugin pass, the snapshot of the
  caller shows the plugin as available for the organization, the package declares the feature, and the stored licences hold
  a grant for this installation and plugin, of the organization or installation-wide, whose document carries a signature
  of the only pinned key of its ID; what this document says agrees with the stored columns, names the feature, has begun and is
  not past its grace period by the clock of its binding; and the grant is not revoked.
\<close>

theorem guarded_work_is_licensed:
  assumes "Guard (Some a) pf org item feature True False now s = Inr (None, s')" "Licensed item"
  shows "map_of (iv_Organizations item) org = Some StateAvailable
    \<and> (\<exists>b. bi_PluginID b = iv_ID item \<and> bi_InstallationID b = iv_InstallationID item
         \<and> (\<exists>o1\<in>set (lc_orgs s). og_id o1 = org \<and> og_uuid o1 = bi_OrganizationID b)
         \<and> (\<exists>w\<in>set (lc_bindings s). \<exists>g v. covering_grant a b feature now s w g v))"
proof -
  from assms have "\<exists>b state. adapter_binding (Some a) pf org item s = Inr (b, state)"
    by (auto simp: Guard_def split: sum.splits if_splits)
  then obtain b state where b: "adapter_binding (Some a) pf org item s = Inr (b, state)" by blast
  from assms b obtain d s1 where
    d: "DecidePluginEntitlementTx (adapter_verifier a b) b feature (baseAccess state) now s = Inr (d, s1)"
    and r: "guard_refusal state d True False = None"
    by (auto simp: Guard_def split: if_splits option.splits)
  have "\<not> ac_Activate (baseAccess state)" by (simp add: baseAccess_def)
  from decision_covered [OF d this guard_refusal_forward [OF r]] obtain scope where
    "state = StateAvailable" "scope \<in> {Some (bi_OrganizationID b), None}"
    "covers (adapter_verifier a b) b scope feature now s" by (auto simp: baseAccess_def)
  with covers_grant adapter_binding_Inr [OF b] show ?thesis by blast
qed

lemma resolve_feature_activation:
  assumes "resolve_feature a org item h b state now feature s = Inr (d, s')"
    and "find_activation k s = None" "find_activation k s' \<noteq> None"
  shows "adapter_enabled org item h \<and> dc_Forward d \<and> k = (bi_InstallationID b, bi_PluginID b, bi_OrganizationID b, feature)"
proof -
  from assms(1) obtain d1 s1 where
    1: "DecidePluginEntitlementTx (adapter_verifier a b) b feature (baseAccess state) now s = Inr (d1, s1)" and
    2: "if dc_Forward d1 \<and> \<not> dc_Read d1 \<and> adapter_enabled org item h
       then DecidePluginEntitlementTx (adapter_verifier a b) b feature ((baseAccess state)\<lparr>ac_Activate := True\<rparr>) now s1 = Inr (d, s')
       else d = d1 \<and> s' = s1"
    by (auto simp: resolve_feature_def split: if_splits)
  have "find_activation k s1 = None"
  proof (rule ccontr)
    assume "find_activation k s1 \<noteq> None"
    from decision_activations [OF 1 assms(2) this] show False by (simp add: baseAccess_def)
  qed
  with 2 assms(3) decision_activations show ?thesis by (auto split: if_splits)
qed

text \<open>
  C20. Discovery never activates a licensed feature on the strength of a stale snapshot: if the resolution of a licence
  adds an activation, it is one of the item's own declared features for this organization, and the check that every effect
  of a plugin makes (the installation named by the snapshot is still the served one, active and enabled for the organization)
  holds in the same transaction.
\<close>

theorem resolve_activates_enabled:
  assumes "ResolveEntitlement adapter pf org item now h s = Inr (status, s')"
    and "find_activation k s = None" "find_activation k s' \<noteq> None"
  shows "adapter_enabled org item h
    \<and> (\<exists>b state feature. adapter_binding adapter pf org item s = Inr (b, state) \<and> feature \<in> set (bi_DeclaredFeatures b)
         \<and> k = (bi_InstallationID b, bi_PluginID b, bi_OrganizationID b, feature))"
proof -
  from assms have "s' \<noteq> s" by auto
  with assms(1) have "adapter \<noteq> None" "Licensed item"
    by (auto simp: ResolveEntitlement_def split: option.splits if_splits)
  then obtain a where a: "adapter = Some a" by blast
  with assms(1) \<open>Licensed item\<close> obtain b state where
    b: "adapter_binding adapter pf org item s = Inr (b, state)" and
    f: "try_fold (\<lambda>feature (status, s).
           try_then (resolve_feature a org item h b state now feature s) (\<lambda>(decision, s').
           Inr (status\<lparr>et_GrantScope := dc_Scope decision,
                       et_Features := AList.update feature (decision_access a decision) (et_Features status)\<rparr>, s')))
         (bi_DeclaredFeatures b) (no_status, s) = Inr (status, s')"
    by (auto simp: ResolveEntitlement_def)
  let ?ok = "\<lambda>k. adapter_enabled org item h
    \<and> (\<exists>feature\<in>set (bi_DeclaredFeatures b). k = (bi_InstallationID b, bi_PluginID b, bi_OrganizationID b, feature))"
  have "\<forall>k. find_activation k (snd (status, s')) \<noteq> None \<longrightarrow> find_activation k s \<noteq> None \<or> ?ok k"
    using f
  proof (rule try_fold_invariant)
    fix feature st st'
    assume i: "feature \<in> set (bi_DeclaredFeatures b)"
      and old: "\<forall>k. find_activation k (snd st) \<noteq> None \<longrightarrow> find_activation k s \<noteq> None \<or> ?ok k"
      and step: "(case st of (status, s) \<Rightarrow>
           try_then (resolve_feature a org item h b state now feature s) (\<lambda>(decision, s').
           Inr (status\<lparr>et_GrantScope := dc_Scope decision,
                       et_Features := AList.update feature (decision_access a decision) (et_Features status)\<rparr>, s'))) = Inr st'"
    then obtain d where r: "resolve_feature a org item h b state now feature (snd st) = Inr (d, snd st')"
      by (cases st) auto
    show "\<forall>k. find_activation k (snd st') \<noteq> None \<longrightarrow> find_activation k s \<noteq> None \<or> ?ok k"
    proof (intro allI impI)
      fix k
      assume k: "find_activation k (snd st') \<noteq> None"
      show "find_activation k s \<noteq> None \<or> ?ok k"
      proof (cases "find_activation k (snd st)")
        case None
        from resolve_feature_activation [OF r None k] i show ?thesis by blast
      next
        case (Some x)
        then show ?thesis using old [rule_format, of k] by simp
      qed
    qed
  qed simp
  from this [rule_format, of k] have "?ok k" using assms(2,3) by simp
  then show ?thesis using b by blast
qed

section \<open>Examples\<close>

definition example_transport :: transport where
  "example_transport =
     \<lparr>tr_document = (\<lambda>w. Some \<lparr>bd_SchemaVersion = 1, bd_Grants = [''0mc''], bd_Revocations = []\<rparr>),
      tr_base64_decode = (\<lambda>w. Some example_document), tr_base64_encode = (\<lambda>w. ''0mc'')\<rparr>"

definition example_adapter :: adapter where
  "example_adapter = \<lparr>ad_lib = example_cose, ad_transport = example_transport, ad_trust = example_trust, ad_mode = Production\<rparr>"

definition example_package_digest :: string where
  "example_package_digest = replicate 64 CHR ''a''"

definition example_licensed_manifest :: Manifest where
  "example_licensed_manifest =
     \<lparr>mf_RequiredProtocols = [], mf_ID = ''acme.echo'', mf_DisplayName = ''Echo'', mf_Version = ''1.0.0'', mf_MigrationGeneration = 0,
      mf_Capabilities = [], mf_UI = None, mf_Operations = [], mf_ServiceGrants = [], mf_AuthorizationPolicies = [],
      mf_Entitlement = Some \<lparr>el_Mode = EntitlementRequired, el_Features = [''basic'', ''extra''], el_Limits = []\<rparr>\<rparr>"

definition example_licensed_row :: installation_row where
  "example_licensed_row =
     \<lparr>in_installation_uuid = example_installation_uuid, in_plugin_id = ''acme.echo'', in_package_sha256 = example_package_digest,
      in_target_package_sha256 = '''', in_state = ''active'', in_backend_url = ''https://echo'', in_ui_origin = '''',
      in_service_user_id = '''', in_admission_checker_id = '''', in_organization_mode = ''selected'', in_default_timezone = ''UTC'',
      in_default_approval_policies = [], in_created_at = 0, in_created_by = ''u1'', in_updated_at = 0, in_updated_by = ''u1''\<rparr>"

definition example_enablement_row :: enablement_row where
  "example_enablement_row =
     \<lparr>eb_plugin_id = ''acme.echo'', eb_org_id = ''acme'', eb_installation_uuid = example_installation_uuid, eb_state = ''enabled'',
      eb_timezone = ''UTC'', eb_approval_policies = [], eb_created_at = 0, eb_created_by = ''u1'', eb_updated_at = 0,
      eb_updated_by = ''u1''\<rparr>"

definition example_licensed_host :: host where
  "example_licensed_host = (empty_host (empty_db\<lparr>orgs := [''acme'']\<rparr>))\<lparr>
     plugin_packages := [\<lparr>pp_ManifestSHA256 = example_package_digest, pp_PluginID = ''acme.echo'', pp_Version = ''1.0.0'',
       pp_Manifest = example_licensed_manifest, pp_CreatedAt = 0, pp_CreatedBy = ''u1''\<rparr>],
     plugin_installations := [example_licensed_row], plugin_enablements := [example_enablement_row]\<rparr>"

definition example_item :: Installation where
  "example_item =
     (view ((scanPluginInstallation example_licensed_host example_licensed_row)\<lparr>pi_Organizations :=
        [scan_enablement example_licensed_host example_licensed_row example_enablement_row]\<rparr>) example_licensed_manifest)"

definition example_platform :: platform where
  "example_platform =
     \<lparr>pf_url = (\<lambda>t. Some \<lparr>ur_Scheme = ''https'', ur_User = False, ur_Hostname = t, ur_Path = '''', ur_RawQuery = '''', ur_Fragment = ''''\<rparr>),
      pf_uuid = Some, pf_location = (\<lambda>z. z = ''UTC''), pf_service_user = (\<lambda>u. True), pf_development = False\<rparr>"

lemma example_VerifyGrant_at:
  "bi_PluginID b = ''acme.echo'' \<Longrightarrow> bi_InstallationID b = example_installation_uuid \<Longrightarrow> bi_DeclaredFeatures b = [''basic'', ''extra''] \<Longrightarrow>
   0 \<le> now \<Longrightarrow> VerifyGrant example_cose example_document example_trust Production b now = Inr example_verified_grant"
  using example_selectKey
  by (simp add: VerifyGrant_def validateBinding_def example_texts example_decodeEnvelope example_decodeGrant
      example_grant_claims_def verify_def checkIssuedAt_def InstallationWide_def example_installation_uuid_def Nil_uuid_def
      example_verified_grant_def)
    (simp add: example_cose_def example_document_def)

lemma example_candidates:
  "candidateBindings example_licensed_host example_licences = Inr [example_binding,
     example_decision_binding]"
  by (simp add: candidateBindings_def ListPluginInstallations_def scanPluginInstallation_def GetPluginPackage_def required_features_def
      organization_bindings_def find_organization_def enablements_of_def listPluginEnablements_def map_filter_simps find_installation_def
      scan_enablement_def example_licensed_host_def empty_host_def example_licensed_row_def example_enablement_row_def
      example_licensed_manifest_def example_licence_defs maxCandidateBindings_def)

lemma example_bundle:
  "ImportBundle (Some example_adapter) example_sha256 ''s'' ''operator'' 9 example_licensed_host example_licences
     = Inr (\<lparr>bm_Digest = example_source, bm_ImportedGrants = 1, bm_ImportedRevocations = 0, bm_Diagnostics = []\<rparr>, example_imported)"
proof -
  let ?b = "\<lparr>bn_Grants = [example_document], bn_Revocations = [], bn_Digest = example_source\<rparr>"
  have parse: "ParseBundleJSON example_adapter ''s'' = Inr ?b"
    by (simp add: ParseBundleJSON_def decodeCOSE_def example_adapter_def example_transport_def MaxBundleBytes_def MaxEnvelopeBytes_def
        example_document_def example_source_def example_cose_def)
  have "VerifyGrant example_cose example_document example_trust Production example_binding 9 = Inr example_verified_grant"
    by (rule example_VerifyGrant)
  then have verified: "verifyBundle example_adapter ?b [example_binding, example_decision_binding] 9 = ([example_verified_grant], [], [])"
    by (simp add: verifyBundle_def Let_def map_filter_simps example_adapter_def)
  show ?thesis
    using parse verified example_candidates example_import
    by (simp add: ImportBundle_def) (simp add: example_adapter_def example_trust_def example_sha256_def example_source_def)
qed

theorem bundle_evidence_witness:
  "evidenced_grant (Some example_adapter) ''s'' example_licensed_host ''operator'' 9 (grant_row example_verified_grant ''operator'' example_source)"
  using bundle_evidence [OF example_bundle] by (auto simp: example_imported(2) example_licences_def)

lemma example_adapter_binding:
  "adapter_binding (Some example_adapter) example_platform ''acme'' example_item example_imported = Inr (example_decision_binding, StateAvailable)"
  by (simp add: adapter_binding_def example_item_def view_def Licensed_def example_licensed_manifest_def example_platform_def
      scanPluginInstallation_def example_licensed_row_def example_enablement_row_def scan_enablement_def enablement_availability_def
      find_organization_def example_imported(1) example_licence_defs)

lemma example_guard:
  "\<exists>s'. Guard (Some example_adapter) example_platform ''acme'' example_item ''basic'' True False 3 example_imported = Inr (None, s')"
proof -
  let ?b = "example_decision_binding"
  have v: "adapter_verifier example_adapter ?b example_document 3 = Inr example_verified_grant"
    using example_VerifyGrant_at [of ?b 3]
    by (simp add: adapter_verifier_def example_adapter_def example_decision_binding_def example_binding_def)
  have licensed: "Licensed example_item"
    by (simp add: example_item_def view_def Licensed_def example_licensed_manifest_def)
  have "Guard (Some example_adapter) example_platform ''acme'' example_item ''basic'' True False 3 example_imported
     = Inr (None, snd (projr (Guard (Some example_adapter) example_platform ''acme'' example_item ''basic'' True False 3 example_imported)))"
    using v
    apply (simp add: Guard_def example_adapter_binding licensed baseAccess_def)
    apply (simp add: DecidePluginEntitlementTx_def covering_decision_def zero_time_def decision_evals example_imported example_row_defs
      example_licence_defs example_source_digest PluginEntitlementFallback_def pluginGrantRevoked_def guard_refusal_def boundary_state_def baseAccess_def)
    done
  then show ?thesis by blast
qed

theorem guarded_work_is_licensed_witness:
  "\<exists>b. \<exists>w\<in>set (lc_bindings example_imported). \<exists>g v. covering_grant example_adapter b ''basic'' 3 example_imported w g v"
proof -
  from example_guard obtain s' where "Guard (Some example_adapter) example_platform ''acme'' example_item ''basic'' True False 3 example_imported = Inr (None, s')"
    by blast
  moreover have "Licensed example_item"
    by (simp add: example_item_def view_def Licensed_def example_licensed_manifest_def)
  ultimately show ?thesis using guarded_work_is_licensed by blast
qed

lemma example_enabled: "adapter_enabled ''acme'' example_item example_licensed_host"
  by (simp add: adapter_enabled_def RequirePluginEnablement_def use_enablement_def enablement_at_def example_item_def view_def
      example_licensed_host_def example_enablement_row_def example_licensed_row_def find_installation_def scanPluginInstallation_def
      example_licensed_manifest_def served_state_def)

theorem resolve_activates_enabled_witness:
  "find_activation (example_installation_uuid, ''acme.echo'', example_organization, ''basic'')
       (snd (projr (ResolveEntitlement (Some example_adapter) example_platform ''acme'' example_item 3 example_licensed_host example_imported)))
     \<noteq> None \<and> adapter_enabled ''acme'' example_item example_licensed_host"
proof -
  let ?b = example_decision_binding
  let ?r = "ResolveEntitlement (Some example_adapter) example_platform ''acme'' example_item 3 example_licensed_host example_imported"
  let ?k = "(example_installation_uuid, ''acme.echo'', example_organization, ''basic'')"
  have v: "adapter_verifier example_adapter ?b example_document 3 = Inr example_verified_grant"
    using example_VerifyGrant_at [of ?b 3]
    by (simp add: adapter_verifier_def example_adapter_def example_decision_binding_def example_binding_def)
  have licensed: "Licensed example_item"
    by (simp add: example_item_def view_def Licensed_def example_licensed_manifest_def)
  have features: "bi_DeclaredFeatures ?b = [''basic'', ''extra'']" by (simp add: example_decision_binding_def example_binding_def)
  have "?r = Inr (fst (projr ?r), snd (projr ?r)) \<and> find_activation ?k (snd (projr ?r)) \<noteq> None"
    using v
    apply (simp add: ResolveEntitlement_def licensed example_adapter_binding features resolve_feature_def example_enabled baseAccess_def)
    apply (simp add: DecidePluginEntitlementTx_def covering_decision_def zero_time_def decision_evals example_imported example_row_defs
      example_licence_defs example_source_digest PluginEntitlementFallback_def pluginGrantRevoked_def baseAccess_def)
    done
  moreover have "find_activation ?k example_imported = None" by (simp add: find_activation_def example_imported(6))
  ultimately show ?thesis using resolve_activates_enabled by blast
qed

end
