(* ===== verification/PluginManager.thy ===== *)
theory PluginManager
  imports Licensing
begin

text \<open>
  The Plugin Manager (\<^verbatim>\<open>internal/pluginmanager\<close> and the command log of \<^verbatim>\<open>internal/model/plugin_manager.go\<close>): the
  audited, idempotent commands by which operators register packages and install, activate, upgrade, enable and remove
  plugins, and the changes Core makes on its own when organizations come and go.

  A command is one transaction under the Plugin Manager lock, so it is one step. \<open>manager\<close> holds what the environment
  decides: SHA-256, the digest of the JSON encoding of a request, the licence adapter, and IAM's identity of Core. New
  UUIDs, the clock and the status that a plugin reports are arguments. A stored response is the value its JSON text
  encodes. The maps of a manifest are listed in the order of their keys, so \<^verbatim>\<open>equalJSON\<close> is equality.
  The code of a bad request stands before its message.
\<close>

section \<open>State\<close>

record Command =
  kc_Actor :: uuid
  kc_IdempotencyKey :: string
  kc_ExpectedRevision :: int
  kc_Reason :: string
  kc_RequestID :: string

record PluginManagerCommand =
  km_Actor :: uuid
  km_IdempotencyKey :: string
  km_Fingerprint :: string
  km_ExpectedRevision :: int
  km_Reason :: string
  km_RequestID :: string

text \<open>What the audit shows of the state before and after a change.\<close>

datatype audit_value =
    AuditPackage PluginPackage
  | AuditInstallation PluginInstallation
  | AuditBundle string nat nat

record PluginManagerChange =
  kh_Action :: string
  kh_InstallationID :: uuid
  kh_OrgID :: string
  kh_Before :: "audit_value option"
  kh_After :: "audit_value option"

record PluginManagerAuditEvent =
  ka_ID :: int
  ka_Revision :: int
  ka_OccurredAt :: timestamp
  ka_Actor :: uuid
  ka_Action :: string
  ka_InstallationID :: "uuid option"
  ka_OrgID :: "string option"
  ka_Reason :: string
  ka_RequestID :: "string option"
  ka_IdempotencyKeyID :: string
  ka_Before :: "audit_value option"
  ka_After :: "audit_value option"

text \<open>The diagnostic of a running plugin that does not prove the package Core is to serve.\<close>

record StatusDiagnostic =
  kd_Code :: string
  kd_Message :: string

record InstallationEntitlement =
  ke_InstallationGrant :: "PluginEntitlementGrantStatus option"
  ke_EnabledOrganizations :: nat

text \<open>
  An installation with what Core derives from it. \<open>ki_Grants\<close> are the entries \<^verbatim>\<open>EntitlementGrant\<close> of its enablements,
  in their order.
\<close>

record ManagedInstallation =
  ki_Installation :: PluginInstallation
  ki_Availability :: AvailabilityState
  ki_Diagnostic :: "StatusDiagnostic option"
  ki_PendingOrganizations :: "string list"
  ki_Entitlement :: "InstallationEntitlement option"
  ki_Grants :: "PluginEntitlementGrantStatus option list"
  ki_Revision :: int

datatype command_response =
    PackageResponse PluginPackage int
  | InstallationResponse ManagedInstallation
  | BundleResponse BundleImport int

record plugin_manager_command_row =
  kr_idempotency_key :: string
  kr_fingerprint :: string
  kr_actor :: uuid
  kr_response :: command_response
  kr_created_at :: timestamp

text \<open>The table \<^verbatim>\<open>orgs\<close>, which the tables of Core and of the licences refer to.\<close>

record Org =
  oz_Id :: string
  oz_Uuid :: uuid
  oz_CreatedAt :: timestamp
  oz_CreatedBy :: uuid
  oz_UpdatedAt :: "timestamp option"
  oz_Status :: string
  oz_StatusMessage :: "string option"
  oz_Source :: string
  oz_Plan :: string

record control_plane =
  cpl_host :: host
  cpl_licences :: licences
  cpl_orgs :: "Org list"
  cpl_revision :: int
  cpl_commands :: "plugin_manager_command_row list"
  cpl_audit :: "PluginManagerAuditEvent list"

text \<open>The payload of a command, which its idempotency fingerprint covers.\<close>

datatype command_payload =
    PackagePayload string Manifest
  | CreatePayload string string string
  | InstallationPayload uuid
  | UpgradePayload uuid string
  | IdentityPayload uuid string string
  | EnablementPayload uuid string string string "(string \<times> string) list"
  | OrganizationModePayload uuid string string "(string \<times> string) list"
  | BundlePayload string

record manager =
  mg_platform :: platform
  mg_adapter :: adapter
  mg_sha256 :: "string \<Rightarrow> string"
  mg_payload_digest :: "command_payload \<Rightarrow> int \<Rightarrow> string \<Rightarrow> string"
  mg_system :: uuid

definition on_host :: "(host \<Rightarrow> host) \<Rightarrow> control_plane \<Rightarrow> control_plane" where
  "on_host f s = s\<lparr>cpl_host := f (cpl_host s)\<rparr>"

text \<open>A fallible write to the tables of the plugin host.\<close>

definition try_host :: "(host \<Rightarrow> host result) \<Rightarrow> control_plane \<Rightarrow> control_plane result" where
  "try_host f s = try_then (f (cpl_host s)) (\<lambda>h. Inr (s\<lparr>cpl_host := h\<rparr>))"

section \<open>The command log\<close>

text \<open>\<^verbatim>\<open>btrim\<close> removes blanks only.\<close>

definition btrim :: "string \<Rightarrow> string" where
  "btrim t = rev (dropWhile (\<lambda>c. c = CHR '' '') (rev (dropWhile (\<lambda>c. c = CHR '' '') t)))"

definition audit_checks :: "PluginManagerAuditEvent \<Rightarrow> bool" where
  "audit_checks a \<longleftrightarrow> 0 < ka_Revision a \<and> 1 \<le> char_length (btrim (ka_Reason a)) \<and> char_length (btrim (ka_Reason a)) \<le> 1000
     \<and> length (ka_IdempotencyKeyID a) = 32"

definition plugin_manager_audit_constraints :: "(PluginManagerAuditEvent, int) constraint list" where
  "plugin_manager_audit_constraints =
     [(''plugin_manager_audit_pkey'', \<lambda>a. Some (ka_ID a)), (''plugin_manager_audit_revision_key'', \<lambda>a. Some (ka_Revision a))]"

text \<open>The identity column; the numbers that a rolled back transaction skips are left out.\<close>

definition next_audit_id :: "PluginManagerAuditEvent list \<Rightarrow> int" where
  "next_audit_id rows = 1 + fold (\<lambda>a n. max (ka_ID a) n) rows 0"

definition recordPluginManagerChange ::
    "int \<Rightarrow> uuid \<Rightarrow> string \<Rightarrow> string \<Rightarrow> string \<Rightarrow> PluginManagerChange \<Rightarrow> timestamp \<Rightarrow> control_plane \<Rightarrow> control_plane result" where
  "recordPluginManagerChange revision actor requestID reason key change now s =
     (let row = \<lparr>ka_ID = next_audit_id (cpl_audit s), ka_Revision = revision, ka_OccurredAt = now, ka_Actor = actor,
            ka_Action = kh_Action change,
            ka_InstallationID = (if kh_InstallationID change = Nil_uuid then None else Some (kh_InstallationID change)),
            ka_OrgID = (if kh_OrgID change = '''' then None else Some (kh_OrgID change)), ka_Reason = reason,
            ka_RequestID = (if requestID = '''' then None else Some requestID), ka_IdempotencyKeyID = key,
            ka_Before = kh_Before change, ka_After = kh_After change\<rparr> in
      fail_if (\<not> audit_checks row) (ErrConstraint ''plugin_manager_audit_check'')
     (try_then (insert_row plugin_manager_audit_constraints row (cpl_audit s)) (\<lambda>rows.
      Inr (s\<lparr>cpl_revision := revision, cpl_audit := rows\<rparr>))))"

definition find_command :: "string \<Rightarrow> control_plane \<Rightarrow> plugin_manager_command_row option" where
  "find_command key s = find (\<lambda>r. kr_idempotency_key r = key) (cpl_commands s)"

text \<open>
  A change of \<open>mutate\<close> comes with a value that \<open>respond\<close> may use (the closures of the code share variables). A failure
  rolls the transaction back: there is no new state.
\<close>

definition ExecutePluginManagerCommand ::
    "(string \<Rightarrow> string) \<Rightarrow> PluginManagerCommand \<Rightarrow> timestamp
      \<Rightarrow> (control_plane \<Rightarrow> (PluginManagerChange option \<times> 'r \<times> control_plane) result)
      \<Rightarrow> ('r \<Rightarrow> int \<Rightarrow> control_plane \<Rightarrow> command_response result)
      \<Rightarrow> control_plane \<Rightarrow> (command_response \<times> control_plane) result" where
  "ExecutePluginManagerCommand sha256 c now mutate respond s =
     (let reason = TrimSpace (km_Reason c); key = sha256 (km_IdempotencyKey c) in
      fail_if (km_Actor c = Nil_uuid \<or> km_IdempotencyKey c = '''' \<or> km_Fingerprint c = '''' \<or> reason = ''''
          \<or> length reason > 1000 \<or> km_ExpectedRevision c < 0) (ErrBadRequest ''plugin_manager_request_invalid'')
     (case find_command key s of
        Some r \<Rightarrow>
          fail_if (kr_fingerprint r \<noteq> km_Fingerprint c)
            (ErrConflict ''plugin_manager_idempotency_conflict'' ''The idempotency key was already used for a different Plugin Manager command.'')
            (Inr (kr_response r, s))
      | None \<Rightarrow>
     fail_if (km_ExpectedRevision c \<noteq> cpl_revision s)
       (ErrConflict ''plugin_manager_revision_conflict'' ''Read the current state and retry.'')
    (try_then (mutate s) (\<lambda>(change, r, s1).
     try_then (case change of None \<Rightarrow> Inr s1
        | Some ch \<Rightarrow> recordPluginManagerChange (cpl_revision s + 1) (km_Actor c) (km_RequestID c) reason key ch now s1) (\<lambda>s2.
     try_then (respond r (case change of None \<Rightarrow> cpl_revision s | Some ch \<Rightarrow> cpl_revision s + 1) s2) (\<lambda>response.
     fail_if (length key \<noteq> 32) (ErrConstraint ''plugin_manager_commands_idempotency_key_sha256_check'')
    (Inr (response, s2\<lparr>cpl_commands := cpl_commands s2 @
       [\<lparr>kr_idempotency_key = key, kr_fingerprint = km_Fingerprint c, kr_actor = km_Actor c, kr_response = response,
         kr_created_at = now\<rparr>]\<rparr>))))))))"

text \<open>A change that Core makes on its own, under the lock at \<open>revision\<close>.\<close>

definition RecordPluginManagerSystemChange ::
    "(string \<Rightarrow> string) \<Rightarrow> int \<Rightarrow> uuid \<Rightarrow> string \<Rightarrow> string \<Rightarrow> PluginManagerChange \<Rightarrow> timestamp \<Rightarrow> control_plane
      \<Rightarrow> (int \<times> control_plane) result" where
  "RecordPluginManagerSystemChange sha256 revision actor cause reason change now s =
     try_then (recordPluginManagerChange (revision + 1) actor '''' reason (sha256 cause) change now s) (\<lambda>s'.
     Inr (revision + 1, s'))"

definition ListPluginManagerAudit :: "int \<Rightarrow> nat \<Rightarrow> control_plane \<Rightarrow> PluginManagerAuditEvent list" where
  "ListPluginManagerAudit after limit s = take limit (sort_key ka_ID (filter (\<lambda>a. ka_ID a > after) (cpl_audit s)))"

definition MaxAuditPage :: int where "MaxAuditPage = 200"

definition AuditEvents :: "int \<Rightarrow> int \<Rightarrow> control_plane \<Rightarrow> PluginManagerAuditEvent list result" where
  "AuditEvents after limit s =
     fail_if (after < 0 \<or> limit < 1 \<or> limit > MaxAuditPage) (ErrBadRequest ''plugin_manager_request_invalid'')
       (Inr (ListPluginManagerAudit after (nat limit) s))"

definition command_fingerprint :: "manager \<Rightarrow> string \<Rightarrow> command_payload \<Rightarrow> Command \<Rightarrow> string" where
  "command_fingerprint mg name payload c =
     name @ '':sha256:'' @ mg_payload_digest mg payload (kc_ExpectedRevision c) (kc_Reason c)"

definition execute ::
    "manager \<Rightarrow> Command \<Rightarrow> string \<Rightarrow> command_payload \<Rightarrow> timestamp
      \<Rightarrow> (control_plane \<Rightarrow> (PluginManagerChange option \<times> 'r \<times> control_plane) result)
      \<Rightarrow> ('r \<Rightarrow> int \<Rightarrow> control_plane \<Rightarrow> command_response result)
      \<Rightarrow> control_plane \<Rightarrow> (command_response \<times> control_plane) result" where
  "execute mg c name payload now mutate respond s =
     ExecutePluginManagerCommand (mg_sha256 mg)
       \<lparr>km_Actor = kc_Actor c, km_IdempotencyKey = kc_IdempotencyKey c, km_Fingerprint = command_fingerprint mg name payload c,
        km_ExpectedRevision = kc_ExpectedRevision c, km_Reason = kc_Reason c, km_RequestID = kc_RequestID c\<rparr>
       now mutate respond s"

section \<open>What Core derives of an installation\<close>

definition packageManifest :: "string \<Rightarrow> control_plane \<Rightarrow> Manifest result" where
  "packageManifest digest s = try_then (GetPluginPackage digest (cpl_host s)) (\<lambda>p. Inr (pp_Manifest p))"

definition active_organizations :: "control_plane \<Rightarrow> string list" where
  "active_organizations s = map oz_Id (filter (\<lambda>o1. oz_Status o1 = ''active'') (cpl_orgs s))"

definition pendingOrganizations :: "PluginInstallation \<Rightarrow> control_plane \<Rightarrow> string list" where
  "pendingOrganizations installation s =
     (if pi_OrganizationMode installation \<noteq> ''all'' then []
      else PluginOrganizationsWithoutEnablement (active_organizations s) (pi_PluginID installation) (cpl_host s))"

definition enabledOrganizations :: "PluginEnablement list \<Rightarrow> nat" where
  "enabledOrganizations enablements = length (filter (\<lambda>e. pl_State e = ''enabled'') enablements)"

definition DiagnosticStatusUnreachable :: string where "DiagnosticStatusUnreachable = ''plugin_status_unreachable''"
definition DiagnosticStatusInvalid :: string where "DiagnosticStatusInvalid = ''plugin_status_invalid''"
definition DiagnosticInstallationMismatch :: string where "DiagnosticInstallationMismatch = ''plugin_installation_mismatch''"
definition DiagnosticPackageMismatch :: string where "DiagnosticPackageMismatch = ''plugin_package_digest_mismatch''"
definition DiagnosticMigrationMismatch :: string where "DiagnosticMigrationMismatch = ''plugin_migration_generation_mismatch''"

text \<open>
  \<^verbatim>\<open>diagnose\<close> of an observation that is there. A report without failure has its three values; a missing one, which the
  constraints of the table exclude, counts as a mismatch.
\<close>

definition diagnose :: "PluginStatusObservation \<Rightarrow> uuid \<Rightarrow> string \<Rightarrow> int \<Rightarrow> StatusDiagnostic option" where
  "diagnose o1 installation digest generation =
     (if so_Failure o1 = DiagnosticStatusUnreachable
      then Some \<lparr>kd_Code = so_Failure o1, kd_Message = ''Core could not read the plugin status: '' @ so_Detail o1\<rparr>
      else if so_Failure o1 \<noteq> ''''
      then Some \<lparr>kd_Code = so_Failure o1, kd_Message = ''The plugin status is invalid: '' @ so_Detail o1\<rparr>
      else if so_InstallationID o1 \<noteq> Some installation
      then Some \<lparr>kd_Code = DiagnosticInstallationMismatch, kd_Message = ''Configure the plugin runtime with the installation UUID Core assigned.''\<rparr>
      else if so_PackageSHA256 o1 \<noteq> digest
      then Some \<lparr>kd_Code = DiagnosticPackageMismatch, kd_Message = ''Activate again once the plugin runtime runs the recorded package.''\<rparr>
      else if so_MigrationGeneration o1 \<noteq> Some generation
      then Some \<lparr>kd_Code = DiagnosticMigrationMismatch, kd_Message = ''Activate again once the migrations of the package ran.''\<rparr>
      else None)"

definition undescribed :: "PluginInstallation \<Rightarrow> AvailabilityState \<Rightarrow> int \<Rightarrow> ManagedInstallation" where
  "undescribed installation availability revision =
     \<lparr>ki_Installation = installation, ki_Availability = availability, ki_Diagnostic = None, ki_PendingOrganizations = [],
      ki_Entitlement = None, ki_Grants = map (\<lambda>e. None) (pi_Organizations installation), ki_Revision = revision\<rparr>"

text \<open>The grant that covers an enablement: the organization's own or else the installation-wide one.\<close>

definition covering_status ::
    "(string \<times> PluginEntitlementGrantStatus) list \<Rightarrow> PluginEnablement \<Rightarrow> PluginEntitlementGrantStatus option" where
  "covering_status statuses e =
     (case map_of statuses (pl_OrgID e) of
        None \<Rightarrow> map_of statuses ''''
      | Some g \<Rightarrow>
          if PluginEntitlementFallback (gs_State g) (case map_of statuses '''' of None \<Rightarrow> '''' | Some w \<Rightarrow> gs_State w)
          then map_of statuses '''' else Some g)"

definition describeEntitlement :: "manager \<Rightarrow> timestamp \<Rightarrow> ManagedInstallation \<Rightarrow> control_plane \<Rightarrow> ManagedInstallation result" where
  "describeEntitlement mg now item s =
     (let installation = ki_Installation item in
      try_then (packageManifest (pi_PackageSHA256 installation) s) (\<lambda>m.
      case required_features m of
        None \<Rightarrow> Inr item
      | Some features \<Rightarrow>
          try_then (GrantStatuses (mg_adapter mg) (pi_InstallationID installation) (pi_PluginID installation) features now (cpl_licences s))
            (\<lambda>statuses. Inr (item\<lparr>
               ki_Entitlement := Some \<lparr>ke_InstallationGrant = map_of statuses '''',
                 ke_EnabledOrganizations = enabledOrganizations (pi_Organizations installation)\<rparr>,
               ki_Grants := map (covering_status statuses) (pi_Organizations installation)\<rparr>))))"

definition describe :: "manager \<Rightarrow> timestamp \<Rightarrow> PluginInstallation \<Rightarrow> int \<Rightarrow> control_plane \<Rightarrow> ManagedInstallation result" where
  "describe mg now installation revision s =
     (if pi_State installation = ''purged'' then Inr (undescribed installation StateNotInstalled revision)
      else if pi_State installation = ''uninstalled''
      then describeEntitlement mg now (undescribed installation StateNotInstalled revision) s
      else
        try_then (describeEntitlement mg now (undescribed installation
            (if pi_State installation = ''active'' then StateAvailable
             else if pi_State installation = ''disabled'' then StateNotEnabled else StateUnavailable) revision) s) (\<lambda>item.
        let item1 = item\<lparr>ki_PendingOrganizations := pendingOrganizations installation s\<rparr> in
        case pi_Observation installation of
          None \<Rightarrow> Inr item1
        | Some o1 \<Rightarrow>
            try_then (GetPluginPackage (if pi_TargetPackageSHA256 installation \<noteq> '''' then pi_TargetPackageSHA256 installation
                else pi_PackageSHA256 installation) (cpl_host s)) (\<lambda>p.
            Inr (item1\<lparr>ki_Diagnostic := diagnose o1 (pi_InstallationID installation) (pp_ManifestSHA256 p)
              (mf_MigrationGeneration (pp_Manifest p))\<rparr>))))"

text \<open>The reads (\<^verbatim>\<open>reads.go\<close>): each in one repeatable-read transaction, with the revision it observes.\<close>

definition Packages :: "control_plane \<Rightarrow> int \<times> PluginPackage list" where
  "Packages s = (cpl_revision s, ListPluginPackages (cpl_host s))"

fun describe_all :: "manager \<Rightarrow> timestamp \<Rightarrow> PluginInstallation list \<Rightarrow> control_plane \<Rightarrow> ManagedInstallation list result" where
  "describe_all mg now [] s = Inr []"
| "describe_all mg now (i # is) s =
     try_then (describe mg now i (cpl_revision s) s) (\<lambda>item.
     try_then (describe_all mg now is s) (\<lambda>items. Inr (item # items)))"

definition Installations :: "manager \<Rightarrow> timestamp \<Rightarrow> control_plane \<Rightarrow> (int \<times> ManagedInstallation list) result" where
  "Installations mg now s =
     try_then (describe_all mg now (ListPluginInstallations (cpl_host s)) s) (\<lambda>items. Inr (cpl_revision s, items))"

definition read_installation :: "manager \<Rightarrow> timestamp \<Rightarrow> uuid \<Rightarrow> control_plane \<Rightarrow> ManagedInstallation result" where
  "read_installation mg now u s =
     try_then (GetPluginInstallation u (cpl_host s)) (\<lambda>installation. describe mg now installation (cpl_revision s) s)"

definition respondInstallation :: "manager \<Rightarrow> timestamp \<Rightarrow> uuid \<Rightarrow> 'r \<Rightarrow> int \<Rightarrow> control_plane \<Rightarrow> command_response result" where
  "respondInstallation mg now u r revision s =
     try_then (GetPluginInstallation u (cpl_host s)) (\<lambda>installation.
     try_then (describe mg now installation revision s) (\<lambda>item. Inr (InstallationResponse item)))"

section \<open>Rules of the commands\<close>

definition stateConflict :: "string \<Rightarrow> model_error" where
  "stateConflict message = ErrConflict ''plugin_installation_state'' message"

definition invalid_request :: "string \<Rightarrow> string \<Rightarrow> model_error" where
  "invalid_request code message = ErrBadRequest (code @ '': '' @ message)"

definition refuse_invalid :: "string \<Rightarrow> string option \<Rightarrow> 'a result \<Rightarrow> 'a result" where
  "refuse_invalid code failure k = (case failure of None \<Rightarrow> k | Some message \<Rightarrow> Inl (invalid_request code message))"

lemma refuse_invalid_Inr_iff [simp, result_simps]: "refuse_invalid code f k = Inr x \<longleftrightarrow> f = None \<and> k = Inr x"
  by (simp add: refuse_invalid_def split: option.splits)

lemma refuse_invalid_None [simp]: "refuse_invalid code None k = k"
  by (simp add: refuse_invalid_def)

definition maps_equal :: "(string \<times> string) list \<Rightarrow> (string \<times> string) list \<Rightarrow> bool" where
  "maps_equal m n \<longleftrightarrow> length m = length n \<and> list_all (\<lambda>(k, v). map_of n k = Some v) m"

text \<open>The limit is that of the installation-wide grant, zero without one.\<close>

definition checkOrganizationLimit :: "PluginInstallation \<Rightarrow> nat \<Rightarrow> control_plane \<Rightarrow> unit result" where
  "checkOrganizationLimit installation added s =
     (if added = 0 then Inr ()
      else let limit = PluginOrganizationLimit (pi_InstallationID installation) (pi_PluginID installation) (cpl_licences s) in
        if limit = 0 then Inr ()
        else if int (enabledOrganizations (pi_Organizations installation)) + int added \<le> limit then Inr ()
        else Inl (ErrConflict ''plugin_organization_limit'' ''Import a grant with a higher limit or disable an organization first.''))"

definition lockInstallation :: "uuid \<Rightarrow> control_plane \<Rightarrow> (PluginInstallation \<times> Manifest) result" where
  "lockInstallation u s =
     try_then (GetPluginInstallation u (cpl_host s)) (\<lambda>installation.
     try_then (packageManifest (pi_PackageSHA256 installation) s) (\<lambda>m. Inr (installation, m)))"

definition installationChange :: "string \<Rightarrow> PluginInstallation \<Rightarrow> string \<Rightarrow> control_plane \<Rightarrow> PluginManagerChange result" where
  "installationChange action before org s =
     try_then (GetPluginInstallation (pi_InstallationID before) (cpl_host s)) (\<lambda>after.
     Inr \<lparr>kh_Action = action, kh_InstallationID = pi_InstallationID before, kh_OrgID = org,
       kh_Before = Some (AuditInstallation before), kh_After = Some (AuditInstallation after)\<rparr>)"

text \<open>The result of a mutation that asked for what already holds, and of one that changed an installation.\<close>

definition no_change :: "control_plane \<Rightarrow> (PluginManagerChange option \<times> unit \<times> control_plane) result" where
  "no_change s = Inr (None, (), s)"

definition changed ::
    "string \<Rightarrow> PluginInstallation \<Rightarrow> string \<Rightarrow> control_plane result \<Rightarrow> (PluginManagerChange option \<times> unit \<times> control_plane) result" where
  "changed action before org write =
     try_then write (\<lambda>s. try_then (installationChange action before org s) (\<lambda>change. Inr (Some change, (), s)))"

definition served_view :: "PluginInstallation \<Rightarrow> Manifest \<Rightarrow> Installation" where
  "served_view installation m =
     (view installation m)\<lparr>iv_Capabilities := mf_Capabilities m, iv_Operations := mf_Operations m,
       iv_ServiceGrants := mf_ServiceGrants m, iv_AuthorizationPolicies := mf_AuthorizationPolicies m,
       iv_UI := map_option (\<lambda>ui. ui\<lparr>ui_Origin := pi_UIOrigin installation\<rparr>) (mf_UI m)\<rparr>"

definition validateServed :: "manager \<Rightarrow> PluginInstallation \<Rightarrow> Manifest \<Rightarrow> 'a result \<Rightarrow> 'a result" where
  "validateServed mg installation m k =
     fail_if (ValidateInstallation (mg_platform mg) (served_view installation m) \<noteq> None)
       (ErrConflict ''plugin_installation_incomplete'' ''The installation cannot be activated'')
    (fail_if (ValidateApprovalPolicies m (pi_DefaultApprovalPolicies installation) \<noteq> None)
       (ErrConflict ''plugin_installation_incomplete'' ''The installation cannot be activated: default approval policies'') k)"

definition awaitsProof :: "PluginInstallation \<Rightarrow> bool" where
  "awaitsProof installation \<longleftrightarrow>
     pi_State installation = ''installed'' \<or> served_state (pi_State installation) \<and> pi_TargetPackageSHA256 installation \<noteq> ''''"

section \<open>Commands\<close>

text \<open>
  Each command is its mutation, run by \<open>execute\<close>. \<^verbatim>\<open>PushPackage\<close> decodes and validates the manifest before it opens a
  transaction; the decoded manifest is an argument, \<open>None\<close> where the JSON text is refused.
\<close>

definition push_package_change ::
    "string \<Rightarrow> Manifest \<Rightarrow> uuid \<Rightarrow> timestamp \<Rightarrow> control_plane \<Rightarrow> (PluginManagerChange option \<times> unit \<times> control_plane) result" where
  "push_package_change digest m actor now s =
     (case GetPluginPackage digest (cpl_host s) of
        Inr existing \<Rightarrow>
          fail_if (pp_Manifest existing \<noteq> m)
            (ErrConflict ''plugin_package_conflict'' ''The manifest digest is already registered with a different manifest.'') (no_change s)
      | Inl e \<Rightarrow>
          fail_if (\<not> IsErrNotFound e) e
         (try_then (try_host (InsertPluginPackage \<lparr>pp_ManifestSHA256 = digest, pp_PluginID = mf_ID m, pp_Version = mf_Version m,
             pp_Manifest = m, pp_CreatedAt = now, pp_CreatedBy = actor\<rparr> now) s) (\<lambda>s1.
          try_then (GetPluginPackage digest (cpl_host s1)) (\<lambda>created.
          Inr (Some \<lparr>kh_Action = ''plugin_package.push'', kh_InstallationID = Nil_uuid, kh_OrgID = '''', kh_Before = None,
            kh_After = Some (AuditPackage created)\<rparr>, (), s1)))))"

definition PushPackage ::
    "manager \<Rightarrow> Command \<Rightarrow> string \<Rightarrow> Manifest option \<Rightarrow> timestamp \<Rightarrow> control_plane \<Rightarrow> (command_response \<times> control_plane) result" where
  "PushPackage mg c digest decoded now s =
     (case decoded of
        None \<Rightarrow> Inl (invalid_request ''plugin_manifest_invalid'' ''not a manifest'')
      | Some m \<Rightarrow>
     refuse_invalid ''plugin_manifest_invalid'' (Validate m)
    (fail_if (\<not> manifestDigest digest)
       (invalid_request ''plugin_manifest_invalid'' ''the manifest digest must be a lowercase SHA-256 hex string'')
    (execute mg c ''plugin_package.push'' (PackagePayload digest m) now (push_package_change digest m (kc_Actor c) now)
       (\<lambda>r revision s'. try_then (GetPluginPackage digest (cpl_host s')) (\<lambda>p. Inr (PackageResponse p revision))) s)))"

text \<open>The new installation UUID is an argument; a replay answers with the one of the first call.\<close>

definition create_installation_change ::
    "manager \<Rightarrow> uuid \<Rightarrow> string \<Rightarrow> string \<Rightarrow> string \<Rightarrow> uuid \<Rightarrow> timestamp \<Rightarrow> control_plane
       \<Rightarrow> (PluginManagerChange option \<times> unit \<times> control_plane) result" where
  "create_installation_change mg u packageDigest backend uiOrigin actor now s =
     try_then (GetPluginPackage packageDigest (cpl_host s)) (\<lambda>p.
     refuse_invalid ''plugin_installation_invalid'' (ValidateEndpoints (mg_platform mg) (pp_Manifest p) backend uiOrigin)
    (try_then (try_host (InsertPluginInstallation
         \<lparr>pi_InstallationID = u, pi_PluginID = pp_PluginID p, pi_PackageSHA256 = pp_ManifestSHA256 p, pi_TargetPackageSHA256 = '''',
          pi_State = ''installed'', pi_BackendURL = backend, pi_UIOrigin = uiOrigin, pi_ServiceUserID = '''',
          pi_AdmissionCheckerID = '''', pi_OrganizationMode = '''', pi_DefaultTimezone = '''', pi_DefaultApprovalPolicies = [],
          pi_Organizations = [], pi_CreatedAt = now, pi_CreatedBy = actor, pi_UpdatedAt = now, pi_UpdatedBy = actor,
          pi_Observation = None\<rparr> now) s) (\<lambda>s1.
     try_then (GetPluginInstallation u (cpl_host s1)) (\<lambda>created.
     Inr (Some \<lparr>kh_Action = ''plugin_installation.create'', kh_InstallationID = u, kh_OrgID = '''', kh_Before = None,
       kh_After = Some (AuditInstallation created)\<rparr>, (), s1)))))"

definition CreateInstallation ::
    "manager \<Rightarrow> Command \<Rightarrow> uuid \<Rightarrow> string \<Rightarrow> string \<Rightarrow> string \<Rightarrow> timestamp \<Rightarrow> control_plane
       \<Rightarrow> (command_response \<times> control_plane) result" where
  "CreateInstallation mg c u packageDigest backend uiOrigin now s =
     execute mg c ''plugin_installation.create'' (CreatePayload packageDigest backend uiOrigin) now
       (create_installation_change mg u packageDigest backend uiOrigin (kc_Actor c) now) (respondInstallation mg now u) s"

definition identity_change ::
    "manager \<Rightarrow> uuid \<Rightarrow> string \<Rightarrow> string \<Rightarrow> uuid \<Rightarrow> timestamp \<Rightarrow> control_plane
       \<Rightarrow> (PluginManagerChange option \<times> unit \<times> control_plane) result" where
  "identity_change mg u serviceUser admissionChecker actor now s =
     try_then (lockInstallation u s) (\<lambda>(before, m).
     refuse_invalid ''plugin_installation_invalid'' (ValidateServiceIdentities (mg_platform mg) m serviceUser admissionChecker)
    (if pi_ServiceUserID before = serviceUser \<and> pi_AdmissionCheckerID before = admissionChecker then no_change s
     else fail_if (pi_State before \<noteq> ''installed'') (stateConflict ''Service identities are recorded before activation.'')
    (changed ''plugin_installation.identity'' before ''''
       (try_host (UpdatePluginInstallation
          (before\<lparr>pi_ServiceUserID := serviceUser, pi_AdmissionCheckerID := admissionChecker\<rparr>) actor now) s))))"

definition SetIdentity ::
    "manager \<Rightarrow> Command \<Rightarrow> uuid \<Rightarrow> string \<Rightarrow> string \<Rightarrow> timestamp \<Rightarrow> control_plane \<Rightarrow> (command_response \<times> control_plane) result" where
  "SetIdentity mg c u serviceUser admissionChecker now s =
     execute mg c ''plugin_installation.identity'' (IdentityPayload u serviceUser admissionChecker) now
       (identity_change mg u serviceUser admissionChecker (kc_Actor c) now) (respondInstallation mg now u) s"

definition ActionActivate :: string where "ActionActivate = ''activate''"
definition ActionDisable :: string where "ActionDisable = ''disable''"
definition ActionEnable :: string where "ActionEnable = ''enable''"
definition ActionUninstall :: string where "ActionUninstall = ''uninstall''"
definition ActionReinstall :: string where "ActionReinstall = ''reinstall''"
definition ActionPurge :: string where "ActionPurge = ''purge''"

definition uninstall :: "PluginInstallation \<Rightarrow> host \<Rightarrow> (PluginInstallation \<times> host) result" where
  "uninstall installation h =
     fail_if (\<not> Settled (UnsettledPluginWork (pi_PluginID installation) h))
       (ErrConflict ''plugin_work_unsettled'' ''Let the plugin finish, cancel or roll them back, then uninstall.'')
    (let h1 = fold (\<lambda>e h. snd (DeletePluginEnablement (pi_PluginID installation) (pl_OrgID e) h)) (pi_Organizations installation) h;
         after = installation\<lparr>pi_Organizations := [], pi_OrganizationMode := ''selected''\<rparr>
     in try_then (ReplacePluginRegistrations after [] h1) (\<lambda>h2.
        Inr (after\<lparr>pi_State := ''uninstalled'', pi_TargetPackageSHA256 := ''''\<rparr>, h2)))"

text \<open>The state an action leads to, with its other effects; \<open>None\<close> if it already holds.\<close>

definition transition_target :: "string \<Rightarrow> PluginInstallation \<Rightarrow> host \<Rightarrow> (PluginInstallation \<times> host) option result" where
  "transition_target action before h =
     (if action = ActionDisable \<or> action = ActionEnable
      then let target = (if action = ActionDisable then ''disabled'' else ''active'') in
        if pi_State before = target then Inr None
        else fail_if (\<not> served_state (pi_State before)) (stateConflict ''Activate the installation first.'')
          (Inr (Some (before\<lparr>pi_State := target\<rparr>, h)))
      else if action = ActionUninstall
      then if pi_State before = ''uninstalled'' then Inr None
        else fail_if (pi_State before = ''purged'') (stateConflict ''The installation is purged.'')
          (try_then (uninstall before h) (\<lambda>r. Inr (Some r)))
      else if action = ActionReinstall
      then if pi_State before = ''installed'' then Inr None
        else fail_if (pi_State before \<noteq> ''uninstalled'') (stateConflict ''Only an uninstalled installation is reinstalled.'')
          (Inr (Some (before\<lparr>pi_State := ''installed''\<rparr>, h)))
      else if action = ActionPurge
      then if pi_State before = ''purged'' then Inr None
        else fail_if (pi_State before \<noteq> ''uninstalled'') (stateConflict ''Uninstall the installation before purging it.'')
          (Inr (Some (before\<lparr>pi_State := ''purged''\<rparr>, h)))
      else Inl (invalid_request ''plugin_manager_request_invalid'' ''unknown installation action''))"

definition transition_change ::
    "string \<Rightarrow> uuid \<Rightarrow> uuid \<Rightarrow> timestamp \<Rightarrow> control_plane \<Rightarrow> (PluginManagerChange option \<times> unit \<times> control_plane) result" where
  "transition_change action u actor now s =
     try_then (lockInstallation u s) (\<lambda>(before, m).
     try_then (transition_target action before (cpl_host s)) (\<lambda>target.
     case target of
       None \<Rightarrow> no_change s
     | Some (after, h) \<Rightarrow>
         changed (''plugin_installation.'' @ action) before ''''
           (try_host (UpdatePluginInstallation after actor now) (s\<lparr>cpl_host := h\<rparr>))))"

text \<open>Every action but the activation.\<close>

definition Transition ::
    "manager \<Rightarrow> Command \<Rightarrow> uuid \<Rightarrow> string \<Rightarrow> timestamp \<Rightarrow> control_plane \<Rightarrow> (command_response \<times> control_plane) result" where
  "Transition mg c u action now s =
     execute mg c (''plugin_installation.'' @ action) (InstallationPayload u) now (transition_change action u (kc_Actor c) now)
       (respondInstallation mg now u) s"

text \<open>
  The activation reads and records the status of the running plugin first, outside of the command, if the installation
  awaits a proof. Other commands may come between.
\<close>

definition observe_status ::
    "manager \<Rightarrow> uuid \<Rightarrow> PluginStatusObservation \<Rightarrow> timestamp \<Rightarrow> control_plane \<Rightarrow> (PluginStatusObservation option \<times> control_plane) result" where
  "observe_status mg u report now s =
     try_then (read_installation mg now u s) (\<lambda>current.
     if awaitsProof (ki_Installation current)
     then try_then (try_host (RecordPluginStatusObservation u report) s) (\<lambda>s1. Inr (Some report, s1))
     else Inr (None, s))"

definition activation_target :: "PluginInstallation \<Rightarrow> Manifest \<Rightarrow> control_plane \<Rightarrow> (PluginInstallation \<times> Manifest) result" where
  "activation_target before m s =
     (let after = (if pi_State before = ''installed'' then before\<lparr>pi_State := ''active''\<rparr> else before) in
      if pi_TargetPackageSHA256 before = '''' then Inr (after, m)
      else try_then (packageManifest (pi_TargetPackageSHA256 before) s) (\<lambda>target.
        Inr (after\<lparr>pi_PackageSHA256 := pi_TargetPackageSHA256 before, pi_TargetPackageSHA256 := ''''\<rparr>, target)))"

definition activate_change ::
    "manager \<Rightarrow> uuid \<Rightarrow> PluginStatusObservation option \<Rightarrow> uuid \<Rightarrow> timestamp \<Rightarrow> control_plane
       \<Rightarrow> (PluginManagerChange option \<times> unit \<times> control_plane) result" where
  "activate_change mg u observed actor now s =
     try_then (lockInstallation u s) (\<lambda>(before, m).
     if \<not> awaitsProof before
     then if pi_State before = ''active'' then no_change s
       else Inl (stateConflict ''Only an installed installation or a pending upgrade is activated; a disabled installation is enabled.'')
     else try_then (activation_target before m s) (\<lambda>(after, served).
     validateServed mg after served
    (case observed of
       None \<Rightarrow> Inl (stateConflict ''The installation changed while Core read the plugin status. Read it and activate again.'')
     | Some o1 \<Rightarrow>
    (case diagnose o1 u (pi_PackageSHA256 after) (mf_MigrationGeneration served) of
       Some d \<Rightarrow> Inl (ErrConflict (kd_Code d) (kd_Message d))
     | None \<Rightarrow>
         changed (''plugin_installation.'' @ ActionActivate) before ''''
           (try_then (try_host (ReplacePluginRegistrations after (registrations served)) s)
             (try_host (UpdatePluginInstallation after actor now)))))))"

definition activate_command ::
    "manager \<Rightarrow> Command \<Rightarrow> uuid \<Rightarrow> PluginStatusObservation option \<Rightarrow> timestamp \<Rightarrow> control_plane
       \<Rightarrow> (command_response \<times> control_plane) result" where
  "activate_command mg c u observed now s =
     execute mg c (''plugin_installation.'' @ ActionActivate) (InstallationPayload u) now
       (activate_change mg u observed (kc_Actor c) now) (respondInstallation mg now u) s"

text \<open>Both parts with nothing between them: what was observed stays, also if the command is refused.\<close>

definition activate ::
    "manager \<Rightarrow> Command \<Rightarrow> uuid \<Rightarrow> PluginStatusObservation \<Rightarrow> timestamp \<Rightarrow> control_plane \<Rightarrow> command_response result \<times> control_plane" where
  "activate mg c u report now s =
     (case observe_status mg u report now s of
        Inl e \<Rightarrow> (Inl e, s)
      | Inr (observed, s1) \<Rightarrow>
          (case activate_command mg c u observed now s1 of Inl e \<Rightarrow> (Inl e, s1) | Inr (response, s2) \<Rightarrow> (Inr response, s2)))"

definition parse_version :: "string \<Rightarrow> Version result" where
  "parse_version t = (case ParseVersion t of Inl e \<Rightarrow> Inl (ErrInternal e) | Inr v \<Rightarrow> Inr v)"

text \<open>The target must be a later version of the same plugin that Core can serve in place of the served one.\<close>

definition validateUpgrade ::
    "manager \<Rightarrow> PluginInstallation \<Rightarrow> Manifest \<Rightarrow> string \<Rightarrow> control_plane \<Rightarrow> unit result" where
  "validateUpgrade mg installation served digest s =
     try_then (GetPluginPackage digest (cpl_host s)) (\<lambda>p.
     fail_if (pp_PluginID p \<noteq> pi_PluginID installation)
       (invalid_request ''plugin_upgrade_invalid'' ''the package belongs to another plugin'')
    (try_then (parse_version (mf_Version served)) (\<lambda>from_version.
     try_then (parse_version (mf_Version (pp_Manifest p))) (\<lambda>to_version.
     fail_if (Version_Compare to_version from_version \<le> 0)
       (invalid_request ''plugin_upgrade_invalid'' ''downgrades are not supported'')
    (fail_if (mf_MigrationGeneration (pp_Manifest p) < mf_MigrationGeneration served)
       (invalid_request ''plugin_upgrade_invalid'' ''the migration generation precedes the served generation'')
    (validateServed mg (installation\<lparr>pi_PackageSHA256 := digest\<rparr>) (pp_Manifest p) (Inr ())))))))"

definition upgrade_target ::
    "manager \<Rightarrow> PluginInstallation \<Rightarrow> Manifest \<Rightarrow> string \<Rightarrow> control_plane \<Rightarrow> string option result" where
  "upgrade_target mg before served digest s =
     (if digest = pi_TargetPackageSHA256 before then Inr None
      else if digest = pi_PackageSHA256 before
      then (if pi_TargetPackageSHA256 before = '''' then Inr None else Inr (Some ''''))
      else try_then (validateUpgrade mg before served digest s) (\<lambda>_. Inr (Some digest)))"

definition upgrade_change ::
    "manager \<Rightarrow> uuid \<Rightarrow> string \<Rightarrow> uuid \<Rightarrow> timestamp \<Rightarrow> control_plane \<Rightarrow> (PluginManagerChange option \<times> unit \<times> control_plane) result" where
  "upgrade_change mg u digest actor now s =
     try_then (lockInstallation u s) (\<lambda>(before, served).
     fail_if (pi_State before \<noteq> ''installed'' \<and> \<not> served_state (pi_State before))
       (stateConflict ''Only an installed, active or disabled installation is upgraded.'')
    (try_then (upgrade_target mg before served digest s) (\<lambda>target.
     case target of
       None \<Rightarrow> no_change s
     | Some t \<Rightarrow>
         changed ''plugin_installation.upgrade'' before ''''
           (try_host (UpdatePluginInstallation (before\<lparr>pi_TargetPackageSHA256 := t\<rparr>) actor now) s))))"

definition Upgrade ::
    "manager \<Rightarrow> Command \<Rightarrow> uuid \<Rightarrow> string \<Rightarrow> timestamp \<Rightarrow> control_plane \<Rightarrow> (command_response \<times> control_plane) result" where
  "Upgrade mg c u digest now s =
     execute mg c ''plugin_installation.upgrade'' (UpgradePayload u digest) now (upgrade_change mg u digest (kc_Actor c) now)
       (respondInstallation mg now u) s"

definition normalized_timezone :: "manager \<Rightarrow> string \<Rightarrow> string result" where
  "normalized_timezone mg zone =
     (case NormalizeTimezone (mg_platform mg) zone of
        Inl e \<Rightarrow> Inl (invalid_request ''plugin_enablement_invalid'' e)
      | Inr z \<Rightarrow> Inr z)"

definition organization_known :: "string \<Rightarrow> control_plane \<Rightarrow> bool" where
  "organization_known org s \<longleftrightarrow> list_ex (\<lambda>o1. oz_Id o1 = org) (cpl_orgs s)"

definition enablement_for :: "string \<Rightarrow> string \<Rightarrow> string \<Rightarrow> (string \<times> string) list \<Rightarrow> PluginEnablement" where
  "enablement_for org state zone policies =
     \<lparr>pl_OrgID = org, pl_State = state, pl_Timezone = zone, pl_ApprovalPolicies = policies, pl_CreatedAt = 0, pl_CreatedBy = Nil_uuid,
      pl_UpdatedAt = 0, pl_UpdatedBy = Nil_uuid,
      pl_CapabilityRegistration = \<lparr>cs_State = '''', cs_PackageSHA256 = '''', cs_ReconciledAt = None, cs_Detail = ''''\<rparr>\<rparr>"

text \<open>The enablement of an organization: an installation has at most one per organization.\<close>

definition enablement_change ::
    "manager \<Rightarrow> uuid \<Rightarrow> string \<Rightarrow> string \<Rightarrow> string \<Rightarrow> (string \<times> string) list \<Rightarrow> uuid \<Rightarrow> timestamp \<Rightarrow> control_plane
       \<Rightarrow> (PluginManagerChange option \<times> unit \<times> control_plane) result" where
  "enablement_change mg u org state timezone approvalPolicies actor now s =
     try_then (lockInstallation u s) (\<lambda>(before, m).
     fail_if (state \<noteq> ''enabled'' \<and> state \<noteq> ''disabled'')
       (invalid_request ''plugin_enablement_invalid'' ''the enablement state must be enabled or disabled'')
    (try_then (normalized_timezone mg timezone) (\<lambda>zone.
     refuse_invalid ''plugin_enablement_invalid'' (ValidateApprovalPolicies m approvalPolicies)
    (fail_if (\<not> served_state (pi_State before)) (stateConflict ''Activate the installation before enabling an organization.'')
    (fail_if (\<not> organization_known org s) (ErrNotFound ''The organization does not exist.'')
    (let existing = find (\<lambda>e. pl_OrgID e = org) (pi_Organizations before) in
     if (case existing of None \<Rightarrow> False
         | Some e \<Rightarrow> pl_State e = state \<and> pl_Timezone e = zone \<and> maps_equal (pl_ApprovalPolicies e) approvalPolicies)
     then no_change s
     else
       let added = (if state = ''enabled'' \<and> \<not> (case existing of None \<Rightarrow> False | Some e \<Rightarrow> pl_State e = ''enabled'') then 1 else 0) in
       try_then (checkOrganizationLimit before added s) (\<lambda>_.
       changed ''plugin_enablement.put'' before org
         (try_host (PutPluginEnablement before (enablement_for org state zone approvalPolicies) actor now) s))))))))"

definition PutEnablement ::
    "manager \<Rightarrow> Command \<Rightarrow> uuid \<Rightarrow> string \<Rightarrow> string \<Rightarrow> string \<Rightarrow> (string \<times> string) list \<Rightarrow> timestamp \<Rightarrow> control_plane
       \<Rightarrow> (command_response \<times> control_plane) result" where
  "PutEnablement mg c u org state timezone approvalPolicies now s =
     execute mg c ''plugin_enablement.put'' (EnablementPayload u org state timezone approvalPolicies) now
       (enablement_change mg u org state timezone approvalPolicies (kc_Actor c) now) (respondInstallation mg now u) s"

definition remove_enablement_change ::
    "uuid \<Rightarrow> string \<Rightarrow> control_plane \<Rightarrow> (PluginManagerChange option \<times> unit \<times> control_plane) result" where
  "remove_enablement_change u org s =
     try_then (lockInstallation u s) (\<lambda>(before, m).
     fail_if (pi_OrganizationMode before = ''all'' \<and> list_ex (\<lambda>e. pl_OrgID e = org) (pi_Organizations before))
       (ErrConflict ''plugin_serves_all_organizations'' ''The installation serves all organizations.'')
    (case DeletePluginEnablement (pi_PluginID before) org (cpl_host s) of (deleted, h) \<Rightarrow>
     if \<not> deleted then no_change s
     else changed ''plugin_enablement.remove'' before org (Inr (s\<lparr>cpl_host := h\<rparr>))))"

definition RemoveEnablement ::
    "manager \<Rightarrow> Command \<Rightarrow> uuid \<Rightarrow> string \<Rightarrow> timestamp \<Rightarrow> control_plane \<Rightarrow> (command_response \<times> control_plane) result" where
  "RemoveEnablement mg c u org now s =
     execute mg c ''plugin_enablement.remove'' (EnablementPayload u org '''' '''' []) now (remove_enablement_change u org)
       (respondInstallation mg now u) s"

definition import_bundle_change ::
    "manager \<Rightarrow> string \<Rightarrow> uuid \<Rightarrow> timestamp \<Rightarrow> control_plane \<Rightarrow> (PluginManagerChange option \<times> BundleImport \<times> control_plane) result" where
  "import_bundle_change mg bundle_bytes actor now s =
     try_then (ImportBundle (Some (mg_adapter mg)) (mg_sha256 mg) bundle_bytes actor now (cpl_host s) (cpl_licences s)) (\<lambda>(report, l).
     Inr (if bm_ImportedGrants report + bm_ImportedRevocations report = 0 then None
       else Some \<lparr>kh_Action = ''plugin_entitlement_bundle.import'', kh_InstallationID = Nil_uuid, kh_OrgID = '''', kh_Before = None,
         kh_After = Some (AuditBundle (bm_Digest report) (bm_ImportedGrants report) (bm_ImportedRevocations report))\<rparr>,
       report, s\<lparr>cpl_licences := l\<rparr>))"

definition ImportEntitlementBundle ::
    "manager \<Rightarrow> Command \<Rightarrow> string \<Rightarrow> timestamp \<Rightarrow> control_plane \<Rightarrow> (command_response \<times> control_plane) result" where
  "ImportEntitlementBundle mg c bundle_bytes now s =
     execute mg c ''plugin_entitlement_bundle.import'' (BundlePayload (mg_sha256 mg bundle_bytes)) now
       (import_bundle_change mg bundle_bytes (kc_Actor c) now) (\<lambda>report revision s'. Inr (BundleResponse report revision)) s"

section \<open>Organizations that Core enables\<close>

definition defaultEnablement :: "PluginInstallation \<Rightarrow> string \<Rightarrow> PluginEnablement" where
  "defaultEnablement installation org =
     enablement_for org ''enabled'' (pi_DefaultTimezone installation) (pi_DefaultApprovalPolicies installation)"

definition put_defaults :: "PluginInstallation \<Rightarrow> uuid \<Rightarrow> timestamp \<Rightarrow> string list \<Rightarrow> host \<Rightarrow> host result" where
  "put_defaults installation actor now uncovered h =
     try_fold (\<lambda>org. PutPluginEnablement installation (defaultEnablement installation org) actor now) uncovered h"

definition organization_mode_change ::
    "manager \<Rightarrow> uuid \<Rightarrow> string \<Rightarrow> string \<Rightarrow> (string \<times> string) list \<Rightarrow> uuid \<Rightarrow> timestamp \<Rightarrow> control_plane
       \<Rightarrow> (PluginManagerChange option \<times> unit \<times> control_plane) result" where
  "organization_mode_change mg u mode timezone approvalPolicies actor now s =
     try_then (lockInstallation u s) (\<lambda>(before, m).
     fail_if (mode \<noteq> ''selected'' \<and> mode \<noteq> ''all'')
       (invalid_request ''plugin_manager_request_invalid'' ''the organization mode must be selected or all'')
    (try_then (normalized_timezone mg timezone) (\<lambda>zone.
     refuse_invalid ''plugin_enablement_invalid'' (ValidateApprovalPolicies m approvalPolicies)
    (fail_if (pi_State before = ''purged'') (stateConflict ''The installation is purged.'')
    (fail_if (mode = ''all'' \<and> \<not> served_state (pi_State before))
       (stateConflict ''Activate the installation before it serves all organizations.'')
    (let after = before\<lparr>pi_OrganizationMode := mode, pi_DefaultTimezone := zone, pi_DefaultApprovalPolicies := approvalPolicies\<rparr>;
         uncovered = (if mode = ''all''
           then PluginOrganizationsWithoutEnablement (active_organizations s) (pi_PluginID before) (cpl_host s) else []) in
     if pi_OrganizationMode before = mode \<and> pi_DefaultTimezone before = zone
       \<and> maps_equal (pi_DefaultApprovalPolicies before) approvalPolicies \<and> uncovered = []
     then no_change s
     else try_then (checkOrganizationLimit before (length uncovered) s) (\<lambda>_.
       changed ''plugin_installation.organization_mode'' before ''''
         (try_then (try_host (UpdatePluginInstallation after actor now) s) (try_host (put_defaults after actor now uncovered))))))))))"

definition SetOrganizationMode ::
    "manager \<Rightarrow> Command \<Rightarrow> uuid \<Rightarrow> string \<Rightarrow> string \<Rightarrow> (string \<times> string) list \<Rightarrow> timestamp \<Rightarrow> control_plane
       \<Rightarrow> (command_response \<times> control_plane) result" where
  "SetOrganizationMode mg c u mode timezone approvalPolicies now s =
     execute mg c ''plugin_installation.organization_mode'' (OrganizationModePayload u mode timezone approvalPolicies) now
       (organization_mode_change mg u mode timezone approvalPolicies (kc_Actor c) now) (respondInstallation mg now u) s"

text \<open>One change by Core for an installation: the write, its audit row and the next revision.\<close>

definition system_change ::
    "manager \<Rightarrow> string \<Rightarrow> PluginInstallation \<Rightarrow> string \<Rightarrow> string \<Rightarrow> string \<Rightarrow> timestamp \<Rightarrow> control_plane result \<Rightarrow> control_plane result" where
  "system_change mg action before org cause reason now write =
     try_then write (\<lambda>s. try_then (installationChange action before org s) (\<lambda>change.
     try_then (RecordPluginManagerSystemChange (mg_sha256 mg) (cpl_revision s) (mg_system mg) cause reason change now s) (\<lambda>(revision, s').
     Inr s')))"

definition enable_new_organization_for ::
    "manager \<Rightarrow> Org \<Rightarrow> timestamp \<Rightarrow> uuid \<Rightarrow> uuid list \<times> control_plane \<Rightarrow> (uuid list \<times> control_plane) result" where
  "enable_new_organization_for mg org now u = (\<lambda>(enabled, s).
     try_then (GetPluginInstallation u (cpl_host s)) (\<lambda>before.
     case checkOrganizationLimit before 1 s of
       Inl e \<Rightarrow> if IsErrConflict e then Inr (enabled, s) else Inl e
     | Inr _ \<Rightarrow>
         try_then (system_change mg ''plugin_enablement.put'' before (oz_Id org) (''organization-created:'' @ oz_Uuid org)
            (''Organization '' @ oz_Id org @ '' was created while installation '' @ u @ '' serves all organizations.'') now
            (try_host (PutPluginEnablement before (defaultEnablement before (oz_Id org)) (mg_system mg) now) s))
          (\<lambda>s'. Inr (enabled @ [u], s'))))"

text \<open>The revision is read under the lock, so it is the one of the state at every step.\<close>

definition EnableNewOrganization :: "manager \<Rightarrow> Org \<Rightarrow> timestamp \<Rightarrow> control_plane \<Rightarrow> (uuid list \<times> control_plane) result" where
  "EnableNewOrganization mg org now s =
     try_fold (enable_new_organization_for mg org now) (PluginInstallationsServingAllOrganizations (cpl_host s)) ([], s)"

definition discard_organization_for :: "manager \<Rightarrow> Org \<Rightarrow> timestamp \<Rightarrow> uuid \<Rightarrow> control_plane \<Rightarrow> control_plane result" where
  "discard_organization_for mg org now u s =
     try_then (GetPluginInstallation u (cpl_host s)) (\<lambda>before.
     system_change mg ''plugin_enablement.remove'' before (oz_Id org) (''organization-discarded:'' @ oz_Uuid org)
       (''Organization '' @ oz_Id org @ '' was removed because its creation failed.'') now
       (Inr (on_host (\<lambda>h. snd (DeletePluginEnablement (pi_PluginID before) (oz_Id org) h)) s)))"

definition DiscardOrganization :: "manager \<Rightarrow> Org \<Rightarrow> timestamp \<Rightarrow> control_plane \<Rightarrow> control_plane result" where
  "DiscardOrganization mg org now s =
     try_fold (discard_organization_for mg org now) (PluginInstallationsEnabledFor (oz_Id org) (cpl_host s)) s"

end
