(* ===== verification/ManagerTables.thy ===== *)
theory ManagerTables
  imports PluginManager
begin

text \<open>
  What the commands of the Plugin Manager do to the tables, one lemma per write and one per command, and the invariant
  that every command keeps: packages are valid and unique, a plugin has at most one installation that is not purged,
  enablements belong to installations that Core serves, and an installation has exactly the registrations of the package
  it serves.
\<close>

section \<open>Writes\<close>

lemma states_only_fields:
  assumes "states_only h h'"
  shows "plugin_packages h' = plugin_packages h" "plugin_installations h' = plugin_installations h"
    "plugin_enablements h' = plugin_enablements h" "plugin_registrations h' = plugin_registrations h"
    "status_observations h' = status_observations h" "capability_registrations h' = capability_registrations h" "core h' = core h"
  using assms by (auto simp: states_only_def)

lemma states_only_registrations:
  "states_only h h' \<Longrightarrow> states_only (h\<lparr>plugin_registrations := rs\<rparr>) (h'\<lparr>plugin_registrations := rs\<rparr>)"
  by (cases h) (auto simp: states_only_def)

lemma states_only_enablements:
  "states_only h h' \<Longrightarrow> states_only (h\<lparr>plugin_enablements := es\<rparr>) (h'\<lparr>plugin_enablements := es\<rparr>)"
  by (cases h) (auto simp: states_only_def)

lemma sync_states: "states_only h (syncExtensionResourceJournal org h)"
  using sync_switched [of org h] by (simp add: switched_def)

lemmas sync_fields [simp] = states_only_fields [OF sync_states]

lemma sync_fold_states: "states_only h (fold syncExtensionResourceJournal os h)"
  by (rule fold_states_only) (rule sync_states)

lemmas sync_fold_fields [simp] = states_only_fields [OF sync_fold_states]

definition put_row :: "PluginInstallation \<Rightarrow> PluginEnablement \<Rightarrow> uuid \<Rightarrow> timestamp \<Rightarrow> enablement_row list \<Rightarrow> enablement_row list" where
  "put_row installation e actor now rows =
     (let row = plugin_enablement_row installation e actor now;
          here = enablement_at (pi_PluginID installation) (pl_OrgID e)
      in if list_ex here rows
         then upd_where here (\<lambda>x. row\<lparr>eb_created_at := eb_created_at x, eb_created_by := eb_created_by x\<rparr>) rows
         else rows @ [row])"

lemma put_Inr:
  assumes "PutPluginEnablement installation e actor now h = Inr h'"
  shows "states_only (h\<lparr>plugin_enablements := put_row installation e actor now (plugin_enablements h)\<rparr>) h'"
    "pl_State e = ''enabled'' \<or> pl_State e = ''disabled''" "pl_OrgID e \<in> set (orgs (core h))"
    "\<exists>i\<in>set (plugin_installations h). in_installation_uuid i = pi_InstallationID installation \<and> in_plugin_id i = pi_PluginID installation"
  using assms sync_states
  by (auto simp: PutPluginEnablement_def put_row_def Let_def list_ex_iff split: if_splits)

lemma delete_states:
  "states_only (h\<lparr>plugin_enablements := filter (\<lambda>e. \<not> enablement_at plugin org e) (plugin_enablements h)\<rparr>)
     (snd (DeletePluginEnablement plugin org h))"
proof (cases "list_ex (enablement_at plugin org) (plugin_enablements h)")
  case False
  then have "filter (\<lambda>e. \<not> enablement_at plugin org e) (plugin_enablements h) = plugin_enablements h"
    by (auto simp: list_ex_iff filter_id_conv)
  with False show ?thesis by (simp add: DeletePluginEnablement_def)
qed (simp add: DeletePluginEnablement_def sync_states)

lemma delete_deleted: "fst (DeletePluginEnablement plugin org h) \<longleftrightarrow> list_ex (enablement_at plugin org) (plugin_enablements h)"
  by (simp add: DeletePluginEnablement_def)

text \<open>The rows that replace the registrations of an installation.\<close>

definition registration_rows :: "PluginInstallation \<Rightarrow> PluginRegistration list \<Rightarrow> registration_row list" where
  "registration_rows installation regs =
     map (\<lambda>r. \<lparr>rr_installation_uuid = pi_InstallationID installation, rr_package_sha256 = pi_PackageSHA256 installation,
       rr_registration = r\<rparr>) regs"

definition unique_registrations :: "registration_row list \<Rightarrow> bool" where
  "unique_registrations rows \<longleftrightarrow> list_all (\<lambda>(name, key). keys_unique key rows) plugin_registrations_constraints"

lemma insert_registrations_rows:
  "try_fold (insert_registration installation) regs h = Inr h' \<Longrightarrow> unique_registrations (plugin_registrations h) \<Longrightarrow>
   h' = h\<lparr>plugin_registrations := plugin_registrations h @ registration_rows installation regs\<rparr>
     \<and> unique_registrations (plugin_registrations h')"
proof (induction regs arbitrary: h)
  case (Cons r regs)
  then obtain h1 where h1: "insert_registration installation r h = Inr h1" "try_fold (insert_registration installation) regs h1 = Inr h'"
    by (auto split: sum.splits)
  have "h1 = h\<lparr>plugin_registrations := plugin_registrations h @ registration_rows installation [r]\<rparr>
    \<and> unique_registrations (plugin_registrations h1)"
    using h1(1) Cons.prems(2)
    by (auto simp: insert_registration_def insert_row_Inr_iff unique_registrations_def registration_rows_def list_all_iff
        keys_unique_snoc)
  with Cons.IH [OF h1(2)] show ?case by (auto simp: registration_rows_def)
qed (simp add: registration_rows_def)

lemma keys_unique_filter: "keys_unique key rows \<Longrightarrow> keys_unique key (filter P rows)"
  by (induction rows) (auto simp: keys_unique_Cons image_iff)

lemma replace_Inr:
  assumes "ReplacePluginRegistrations installation regs h = Inr h'" "unique_registrations (plugin_registrations h)"
  shows "states_only (h\<lparr>plugin_registrations :=
      filter (\<lambda>r. rr_installation_uuid r \<noteq> pi_InstallationID installation) (plugin_registrations h) @ registration_rows installation regs\<rparr>) h'"
    "unique_registrations (plugin_registrations h')"
proof -
  let ?h = "h\<lparr>plugin_registrations := filter (\<lambda>r. rr_installation_uuid r \<noteq> pi_InstallationID installation) (plugin_registrations h)\<rparr>"
  obtain h1 where h1: "try_fold (insert_registration installation) regs ?h = Inr h1"
    "h' = fold syncExtensionResourceJournal (map pl_OrgID (pi_Organizations installation)) h1"
    using assms(1) by (auto simp: ReplacePluginRegistrations_def Let_def)
  have "unique_registrations (plugin_registrations ?h)"
    using assms(2) by (auto simp: unique_registrations_def list_all_iff keys_unique_filter)
  from insert_registrations_rows [OF h1(1) this] h1(2) sync_fold_states
  show "states_only (h\<lparr>plugin_registrations :=
      filter (\<lambda>r. rr_installation_uuid r \<noteq> pi_InstallationID installation) (plugin_registrations h) @ registration_rows installation regs\<rparr>) h'"
    "unique_registrations (plugin_registrations h')" by auto
qed

lemma find_installation_Some:
  "find_installation u h = Some i \<Longrightarrow> i \<in> set (plugin_installations h) \<and> in_installation_uuid i = u"
  by (auto simp: find_installation_def dest!: find_in_set)

lemma update_installation_Inr:
  assumes "UpdatePluginInstallation b actor now h = Inr h'" "find_installation (pi_InstallationID b) h = Some i"
  shows "h' = h\<lparr>plugin_installations := upd_where (\<lambda>j. in_installation_uuid j = pi_InstallationID b)
      (\<lambda>_. updated_installation_row b actor now i) (plugin_installations h)\<rparr>"
    "installation_checks (updated_installation_row b actor now i)"
    "\<not> violates installations_one_per_plugin (updated_installation_row b actor now i)
      (filter (\<lambda>j. in_installation_uuid j \<noteq> pi_InstallationID b) (plugin_installations h))"
    "package_known (in_plugin_id i) (pi_PackageSHA256 b) h"
    "pi_TargetPackageSHA256 b \<noteq> '''' \<longrightarrow> package_known (in_plugin_id i) (pi_TargetPackageSHA256 b) h"
  using assms find_installation_Some [OF assms(2)]
  by (auto simp: UpdatePluginInstallation_def Let_def updated_installation_row_def)

section \<open>Reads\<close>

definition installation_of :: "host \<Rightarrow> installation_row \<Rightarrow> PluginInstallation" where
  "installation_of h i =
     (scanPluginInstallation h i)\<lparr>pi_Organizations := enablements_of (in_installation_uuid i) (listPluginEnablements (Some (in_installation_uuid i)) h)\<rparr>"

lemma get_Inr:
  "GetPluginInstallation u h = Inr b \<longleftrightarrow> (\<exists>i. find_installation u h = Some i \<and> b = installation_of h i)"
  using find_installation_Some by (fastforce simp: GetPluginInstallation_def installation_of_def)

lemma installation_of_simps [simp]:
  "pi_InstallationID (installation_of h i) = in_installation_uuid i" "pi_PluginID (installation_of h i) = in_plugin_id i"
  "pi_PackageSHA256 (installation_of h i) = in_package_sha256 i" "pi_TargetPackageSHA256 (installation_of h i) = in_target_package_sha256 i"
  "pi_State (installation_of h i) = in_state i" "pi_ServiceUserID (installation_of h i) = in_service_user_id i"
  "pi_AdmissionCheckerID (installation_of h i) = in_admission_checker_id i"
  "pi_OrganizationMode (installation_of h i) = in_organization_mode i" "pi_DefaultTimezone (installation_of h i) = in_default_timezone i"
  "pi_DefaultApprovalPolicies (installation_of h i) = in_default_approval_policies i"
  "pi_BackendURL (installation_of h i) = in_backend_url i" "pi_UIOrigin (installation_of h i) = in_ui_origin i"
  by (simp_all add: installation_of_def scanPluginInstallation_def)

text \<open>The enablements that are read with an installation are its own.\<close>

lemma enablements_read:
  assumes "find_installation u h = Some i"
  shows "pi_Organizations (installation_of h i) =
    map (scan_enablement h i) (sort_key eb_org_id (filter (\<lambda>e. eb_installation_uuid e = u) (plugin_enablements h)))"
proof -
  have u: "in_installation_uuid i = u" using find_installation_Some [OF assms] by simp
  have "enablements_of u (List.map_filter (\<lambda>e. map_option (\<lambda>j. (eb_installation_uuid e, scan_enablement h j e)) (find_installation (eb_installation_uuid e) h)) es)
      = map (scan_enablement h i) es" if "\<forall>e\<in>set es. eb_installation_uuid e = u" for es
    using that assms by (induction es) (auto simp: enablements_of_def map_filter_simps)
  then show ?thesis by (simp add: installation_of_def listPluginEnablements_def u)
qed

lemma scan_enablement_simps [simp]:
  "pl_OrgID (scan_enablement h i e) = eb_org_id e" "pl_State (scan_enablement h i e) = eb_state e"
  "pl_Timezone (scan_enablement h i e) = eb_timezone e" "pl_ApprovalPolicies (scan_enablement h i e) = eb_approval_policies e"
  by (simp_all add: scan_enablement_def)

lemma organizations_of:
  assumes "find_installation u h = Some i"
  shows "pl_OrgID ` set (pi_Organizations (installation_of h i)) = eb_org_id ` {e \<in> set (plugin_enablements h). eb_installation_uuid e = u}"
    "enabledOrganizations (pi_Organizations (installation_of h i))
       = length (filter (\<lambda>e. eb_installation_uuid e = u \<and> eb_state e = ''enabled'') (plugin_enablements h))"
proof -
  show "pl_OrgID ` set (pi_Organizations (installation_of h i)) = eb_org_id ` {e \<in> set (plugin_enablements h). eb_installation_uuid e = u}"
    by (auto simp: enablements_read [OF assms] image_iff)
  have "length (filter P (sort_key f xs)) = length (filter P xs)" for P :: "enablement_row \<Rightarrow> bool" and f :: "enablement_row \<Rightarrow> string" and xs
    by (simp add: filter_sort)
  then show "enabledOrganizations (pi_Organizations (installation_of h i))
       = length (filter (\<lambda>e. eb_installation_uuid e = u \<and> eb_state e = ''enabled'') (plugin_enablements h))"
    by (simp add: enabledOrganizations_def enablements_read [OF assms] filter_map comp_def conj_commute)
qed

lemma lock_Inr:
  "lockInstallation u s = Inr (b, m) \<longleftrightarrow> (\<exists>i. find_installation u (cpl_host s) = Some i \<and> b = installation_of (cpl_host s) i
     \<and> packageManifest (in_package_sha256 i) s = Inr m)"
  by (auto simp: lockInstallation_def get_Inr)

section \<open>The invariant\<close>

definition packages_ok :: "host \<Rightarrow> bool" where
  "packages_ok h \<longleftrightarrow>
     distinct (map pp_ManifestSHA256 (plugin_packages h))
     \<and> distinct (map (\<lambda>p. (pp_PluginID p, pp_Version p)) (plugin_packages h))
     \<and> (\<forall>p\<in>set (plugin_packages h). manifestDigest (pp_ManifestSHA256 p) \<and> Validate (pp_Manifest p) = None
          \<and> pp_PluginID p = mf_ID (pp_Manifest p) \<and> pp_Version p = mf_Version (pp_Manifest p))"

definition row_ok :: "host \<Rightarrow> installation_row \<Rightarrow> bool" where
  "row_ok h i \<longleftrightarrow> installation_checks i \<and> package_known (in_plugin_id i) (in_package_sha256 i) h
     \<and> (in_target_package_sha256 i \<noteq> '''' \<longrightarrow> package_known (in_plugin_id i) (in_target_package_sha256 i) h
          \<and> (in_state i = ''installed'' \<or> served_state (in_state i)))"

definition installations_ok :: "host \<Rightarrow> bool" where
  "installations_ok h \<longleftrightarrow>
     distinct (map in_installation_uuid (plugin_installations h))
     \<and> keys_unique installations_one_per_plugin (plugin_installations h)
     \<and> (\<forall>i\<in>set (plugin_installations h). row_ok h i)"

definition enablement_ok :: "host \<Rightarrow> enablement_row \<Rightarrow> bool" where
  "enablement_ok h e \<longleftrightarrow> (eb_state e = ''enabled'' \<or> eb_state e = ''disabled'')
     \<and> (\<exists>i\<in>set (plugin_installations h). in_installation_uuid i = eb_installation_uuid e \<and> in_plugin_id i = eb_plugin_id e
          \<and> served_state (in_state i))"

definition enablements_ok :: "host \<Rightarrow> bool" where
  "enablements_ok h \<longleftrightarrow>
     distinct (map (\<lambda>e. (eb_plugin_id e, eb_org_id e)) (plugin_enablements h))
     \<and> (\<forall>e\<in>set (plugin_enablements h). enablement_ok h e)"

definition manifest_of :: "host \<Rightarrow> string \<Rightarrow> Manifest option" where
  "manifest_of h digest = map_option pp_Manifest (find (\<lambda>p. pp_ManifestSHA256 p = digest) (plugin_packages h))"

text \<open>The rows an installation has in the table of registrations: all of one package, or none.\<close>

definition rows_of :: "host \<Rightarrow> uuid \<Rightarrow> (string \<times> PluginRegistration) list" where
  "rows_of h u = map (\<lambda>r. (rr_package_sha256 r, rr_registration r))
     (filter (\<lambda>r. rr_installation_uuid r = u) (plugin_registrations h))"

definition contributions_of :: "host \<Rightarrow> string \<Rightarrow> (string \<times> PluginRegistration) list" where
  "contributions_of h digest = (case manifest_of h digest of None \<Rightarrow> [] | Some m \<Rightarrow> map (Pair digest) (registrations m))"

definition registered :: "host \<Rightarrow> installation_row \<Rightarrow> bool" where
  "registered h i \<longleftrightarrow> rows_of h (in_installation_uuid i)
     = (if served_state (in_state i) then contributions_of h (in_package_sha256 i) else [])"

definition registrations_ok :: "host \<Rightarrow> bool" where
  "registrations_ok h \<longleftrightarrow> unique_registrations (plugin_registrations h)
     \<and> (\<forall>i\<in>set (plugin_installations h). registered h i)
     \<and> (\<forall>r\<in>set (plugin_registrations h). \<exists>i\<in>set (plugin_installations h). in_installation_uuid i = rr_installation_uuid r)"

definition plugins_ok :: "host \<Rightarrow> bool" where
  "plugins_ok h \<longleftrightarrow> packages_ok h \<and> installations_ok h \<and> enablements_ok h \<and> registrations_ok h"

lemma plugins_ok_cong:
  assumes "plugin_packages h' = plugin_packages h" "plugin_installations h' = plugin_installations h"
    "plugin_enablements h' = plugin_enablements h" "plugin_registrations h' = plugin_registrations h"
  shows "plugins_ok h' = plugins_ok h"
proof -
  have "package_known p d h' = package_known p d h" "rows_of h' u = rows_of h u" "contributions_of h' d = contributions_of h d" for p d u
    using assms by (simp_all add: package_known_def rows_of_def contributions_of_def manifest_of_def)
  then have "row_ok h' i = row_ok h i" "registered h' i = registered h i" "enablement_ok h' e = enablement_ok h e" for i e
    using assms by (simp_all add: row_ok_def registered_def enablement_ok_def)
  then show ?thesis using assms
    by (simp add: plugins_ok_def packages_ok_def installations_ok_def enablements_ok_def registrations_ok_def)
qed

lemma states_only_ok: "states_only h h' \<Longrightarrow> plugins_ok h' = plugins_ok h"
  by (rule plugins_ok_cong) (simp_all add: states_only_fields)

lemma installation_unique:
  assumes "installations_ok h" "i \<in> set (plugin_installations h)" "j \<in> set (plugin_installations h)"
    "in_installation_uuid i = in_installation_uuid j"
  shows "i = j"
  using assms unique_key_eq by (auto simp: installations_ok_def)

lemma find_installation_in:
  "installations_ok h \<Longrightarrow> i \<in> set (plugin_installations h) \<Longrightarrow> find_installation (in_installation_uuid i) h = Some i"
  by (auto simp: installations_ok_def find_installation_def find_unique_key)

text \<open>A plugin has one installation that is not purged.\<close>

lemma plugin_unique:
  assumes "installations_ok h" "i \<in> set (plugin_installations h)" "j \<in> set (plugin_installations h)"
    "in_plugin_id i = in_plugin_id j" "in_state i \<noteq> ''purged''" "in_state j \<noteq> ''purged''"
  shows "i = j"
  using assms keys_uniqueD [of installations_one_per_plugin "plugin_installations h" i j]
  by (auto simp: installations_ok_def installations_one_per_plugin_def)

lemma served_not_purged: "served_state t \<Longrightarrow> t \<noteq> ''purged''"
  by (auto simp: served_state_def)

lemma package_known_iff: "package_known plugin digest h \<longleftrightarrow> (\<exists>p\<in>set (plugin_packages h). pp_PluginID p = plugin \<and> pp_ManifestSHA256 p = digest)"
  by (auto simp: package_known_def list_ex_iff)

lemma find_package:
  assumes "packages_ok h" "p \<in> set (plugin_packages h)"
  shows "find (\<lambda>q. pp_ManifestSHA256 q = pp_ManifestSHA256 p) (plugin_packages h) = Some p"
  using assms by (auto simp: packages_ok_def find_unique_key)

lemma manifest_of_package:
  "packages_ok h \<Longrightarrow> p \<in> set (plugin_packages h) \<Longrightarrow> manifest_of h (pp_ManifestSHA256 p) = Some (pp_Manifest p)"
  by (simp add: manifest_of_def find_package)

lemma packageManifest_Inr: "packageManifest digest s = Inr m \<longleftrightarrow> manifest_of (cpl_host s) digest = Some m"
  by (auto simp: packageManifest_def GetPluginPackage_def manifest_of_def)

section \<open>The writes keep the invariant\<close>

lemma push_ok:
  assumes ok: "plugins_ok h" and push: "InsertPluginPackage p now h = Inr h'" and valid: "Validate (pp_Manifest p) = None"
    and ids: "pp_PluginID p = mf_ID (pp_Manifest p)" "pp_Version p = mf_Version (pp_Manifest p)"
  shows "plugins_ok h'"
proof -
  obtain rows where rows: "insert_row plugin_packages_constraints (p\<lparr>pp_CreatedAt := now\<rparr>) (plugin_packages h) = Inr rows"
    and h'1: "h' = h\<lparr>plugin_packages := rows\<rparr>" and digest: "manifestDigest (pp_ManifestSHA256 p)"
    using push by (auto simp: InsertPluginPackage_def)
  have rows': "rows = plugin_packages h @ [p\<lparr>pp_CreatedAt := now\<rparr>]" using rows by (simp add: insert_row_Inr_iff)
  then have h': "h' = h\<lparr>plugin_packages := plugin_packages h @ [p\<lparr>pp_CreatedAt := now\<rparr>]\<rparr>" by (simp add: h'1)
  have old: "distinct (map pp_ManifestSHA256 (plugin_packages h))" "distinct (map (\<lambda>p. (pp_PluginID p, pp_Version p)) (plugin_packages h))"
    using ok by (auto simp: plugins_ok_def packages_ok_def)
  have keys1: "distinct (map pp_ManifestSHA256 (plugin_packages h'))"
    using insert_row_distinct1 [OF rows _ old(1), of "''plugin_packages_pkey''"] by (simp add: h'1 plugin_packages_constraints_def)
  have "\<forall>q\<in>set (plugin_packages h). pp_PluginID q = pp_PluginID p \<longrightarrow> pp_Version q \<noteq> pp_Version p"
    using rows by (auto simp: insert_row_Inr_iff plugin_packages_constraints_def violates_def list_ex_iff)
  then have keys2: "distinct (map (\<lambda>p. (pp_PluginID p, pp_Version p)) (plugin_packages h'))"
    using old(2) unfolding h' by fastforce
  have f: "find (\<lambda>q. pp_ManifestSHA256 q = d) (plugin_packages h') = find (\<lambda>q. pp_ManifestSHA256 q = d) (plugin_packages h)"
    if "\<exists>q\<in>set (plugin_packages h). pp_ManifestSHA256 q = d" for d
    using that by (auto simp: h' find_append split: option.splits simp: find_None_iff)
  have c: "contributions_of h' d = contributions_of h d" if "package_known plugin d h" for plugin d
  proof -
    from that have "\<exists>q\<in>set (plugin_packages h). pp_ManifestSHA256 q = d" by (auto simp: package_known_iff)
    then show ?thesis by (simp add: contributions_of_def manifest_of_def f)
  qed
  have k: "package_known plugin d h \<Longrightarrow> package_known plugin d h'" for plugin d
    by (auto simp: package_known_iff h')
  have "registered h' i" if "row_ok h i" "registered h i" for i
    using that c by (auto simp: registered_def rows_of_def h' row_ok_def)
  moreover have "row_ok h' i" if "row_ok h i" for i using that k by (auto simp: row_ok_def)
  moreover have "enablement_ok h' e = enablement_ok h e" for e by (simp add: enablement_ok_def h')
  ultimately show ?thesis using ok keys1 keys2 valid ids digest
    by (auto simp: plugins_ok_def packages_ok_def installations_ok_def enablements_ok_def registrations_ok_def h')
qed

lemma create_ok:
  assumes ok: "plugins_ok h" and create: "InsertPluginInstallation b now h = Inr h'" and state: "pi_State b = ''installed''"
  shows "plugins_ok h'"
proof -
  let ?row = "new_installation_row b now"
  have h': "h' = h\<lparr>plugin_installations := plugin_installations h @ [?row]\<rparr>"
    and checks: "installation_checks ?row" and known: "package_known (pi_PluginID b) (pi_PackageSHA256 b) h"
    and keys: "\<not> violates (\<lambda>i. Some (in_installation_uuid i)) ?row (plugin_installations h)"
      "\<not> violates installations_one_per_plugin ?row (plugin_installations h)"
    using create by (auto simp: InsertPluginInstallation_def Let_def insert_row_Inr_iff plugin_installations_constraints_def)
  have fresh: "in_installation_uuid ?row \<notin> in_installation_uuid ` set (plugin_installations h)"
    using keys(1) by (auto simp: violates_def list_ex_iff)
  have row: "row_ok h' ?row" using checks known by (simp add: row_ok_def new_installation_row_def package_known_def h')
  have none: "rows_of h (in_installation_uuid ?row) = []"
    using ok fresh by (fastforce simp: plugins_ok_def registrations_ok_def rows_of_def filter_empty_conv image_iff)
  have "registered h' i = registered h i" for i by (simp add: registered_def rows_of_def contributions_of_def manifest_of_def h')
  moreover have "registered h ?row" using none state by (simp add: registered_def new_installation_row_def served_state_def)
  moreover have "row_ok h' i = row_ok h i" for i by (simp add: row_ok_def package_known_def h')
  ultimately show ?thesis using ok row fresh keys(2)
    by (auto simp: plugins_ok_def packages_ok_def installations_ok_def enablements_ok_def enablement_ok_def registrations_ok_def
        keys_unique_snoc h')
qed

text \<open>
  The update of one row. The conditions on the other tables are those of the new row: its enablements need it to be
  served, and it has the registrations that go with it.
\<close>

lemma update_ok:
  assumes packages: "packages_ok h" and installations: "installations_ok h"
    and found: "find_installation u h = Some i" and u: "pi_InstallationID b = u"
    and update: "UpdatePluginInstallation b actor now h = Inr h'"
    and target: "pi_TargetPackageSHA256 b \<noteq> '''' \<longrightarrow> pi_State b = ''installed'' \<or> served_state (pi_State b)"
    and enablements: "distinct (map (\<lambda>e. (eb_plugin_id e, eb_org_id e)) (plugin_enablements h))"
      "\<forall>e\<in>set (plugin_enablements h). if eb_installation_uuid e = u
         then (eb_state e = ''enabled'' \<or> eb_state e = ''disabled'') \<and> eb_plugin_id e = in_plugin_id i \<and> served_state (pi_State b)
         else enablement_ok h e"
    and regs: "unique_registrations (plugin_registrations h)"
      "\<forall>j\<in>set (plugin_installations h). in_installation_uuid j \<noteq> u \<longrightarrow> registered h j"
      "rows_of h u = (if served_state (pi_State b) then contributions_of h (pi_PackageSHA256 b) else [])"
      "\<forall>r\<in>set (plugin_registrations h). \<exists>j\<in>set (plugin_installations h). in_installation_uuid j = rr_installation_uuid r"
  shows "plugins_ok h'"
proof -
  let ?row = "updated_installation_row b actor now i"
  note up = update_installation_Inr [OF update, unfolded u, OF found]
  have i: "i \<in> set (plugin_installations h)" "in_installation_uuid i = u" using find_installation_Some [OF found] by auto
  have row_simps: "in_installation_uuid ?row = u" "in_plugin_id ?row = in_plugin_id i" "in_state ?row = pi_State b"
    "in_package_sha256 ?row = pi_PackageSHA256 b" "in_target_package_sha256 ?row = pi_TargetPackageSHA256 b"
    using i(2) by (simp_all add: updated_installation_row_def)
  have same: "plugin_packages h' = plugin_packages h" "plugin_enablements h' = plugin_enablements h"
    "plugin_registrations h' = plugin_registrations h" by (simp_all add: up(1))
  have other: "j \<in> set (plugin_installations h') \<longleftrightarrow> (j \<in> set (plugin_installations h) \<and> in_installation_uuid j \<noteq> u) \<or> j = ?row" for j
    using i by (auto simp: up(1) in_upd_where)
  have uuids: "map in_installation_uuid (plugin_installations h') = map in_installation_uuid (plugin_installations h)"
    unfolding up(1) using row_simps(1) by (simp add: upd_where_def)
  have "keys_unique installations_one_per_plugin (plugin_installations h')"
  proof -
    have "keys_unique installations_one_per_plugin (upd_where (\<lambda>j. in_installation_uuid j = u) (\<lambda>_. ?row) rows)"
      if "keys_unique installations_one_per_plugin rows" "distinct (map in_installation_uuid rows)"
        "\<not> violates installations_one_per_plugin ?row (filter (\<lambda>j. in_installation_uuid j \<noteq> u) rows)" for rows
      using that
    proof (induction rows)
      case (Cons a rows)
      have v: "\<not> violates installations_one_per_plugin ?row (filter (\<lambda>j. in_installation_uuid j \<noteq> u) rows)"
        using Cons.prems(3) by (auto simp: violates_def split: if_splits)
      have IH: "keys_unique installations_one_per_plugin (upd_where (\<lambda>j. in_installation_uuid j = u) (\<lambda>_. ?row) rows)"
        using Cons.IH Cons.prems(1,2) v by (simp add: keys_unique_Cons)
      show ?case
      proof (cases "in_installation_uuid a = u")
        case True
        then have n: "u \<notin> in_installation_uuid ` set rows" using Cons.prems(2) by auto
        then have rows: "upd_where (\<lambda>j. in_installation_uuid j = u) (\<lambda>_. ?row) rows = rows"
          by (auto simp: upd_where_def intro!: map_idI)
        have "filter (\<lambda>j. in_installation_uuid j \<noteq> u) rows = rows" using n by (auto simp: filter_id_conv image_iff)
        then show ?thesis using True IH rows v by (auto simp: keys_unique_Cons violates_def list_ex_iff)
      next
        case False
        then show ?thesis using IH Cons.prems(1,3)
          by (auto simp: keys_unique_Cons in_upd_where violates_def split: if_splits)
      qed
    qed simp
    then show ?thesis using installations up(3) by (simp add: up(1) installations_ok_def)
  qed
  moreover have "row_ok h' ?row"
    using up(2,4,5) target by (simp add: row_ok_def row_simps package_known_def same)
  moreover have "row_ok h' j = row_ok h j" for j by (simp add: row_ok_def package_known_def same)
  moreover have "registered h' j = registered h j" for j
    by (simp add: registered_def rows_of_def contributions_of_def manifest_of_def same)
  moreover have "registered h ?row" using regs(3) by (simp add: registered_def row_simps)
  moreover have "enablement_ok h' e" if "e \<in> set (plugin_enablements h)" for e
  proof (cases "eb_installation_uuid e = u")
    case True
    then have "(eb_state e = ''enabled'' \<or> eb_state e = ''disabled'') \<and> eb_plugin_id e = in_plugin_id i \<and> served_state (pi_State b)"
      using enablements(2) that by auto
    then show ?thesis unfolding enablement_ok_def using other True row_simps by auto
  next
    case False
    then have "enablement_ok h e" using enablements(2) that by auto
    then obtain j where "j \<in> set (plugin_installations h)" "in_installation_uuid j = eb_installation_uuid e" "in_plugin_id j = eb_plugin_id e"
      "served_state (in_state j)" "eb_state e = ''enabled'' \<or> eb_state e = ''disabled''" by (auto simp: enablement_ok_def)
    then show ?thesis unfolding enablement_ok_def using other False by metis
  qed
  moreover have "\<exists>j\<in>set (plugin_installations h'). in_installation_uuid j = rr_installation_uuid r" if "r \<in> set (plugin_registrations h)" for r
    using regs(4) that other row_simps(1) by metis
  ultimately show ?thesis using packages installations enablements(1) regs(1,2) uuids other row_simps
    unfolding plugins_ok_def packages_ok_def installations_ok_def enablements_ok_def registrations_ok_def same by auto
qed

lemma put_row_in:
  assumes "e' \<in> set (put_row b e actor now rows)"
  shows "e' \<in> set rows \<and> \<not> enablement_at (pi_PluginID b) (pl_OrgID e) e'
    \<or> enablement_at (pi_PluginID b) (pl_OrgID e) e' \<and> eb_installation_uuid e' = pi_InstallationID b \<and> eb_state e' = pl_State e
      \<and> eb_timezone e' = pl_Timezone e \<and> eb_approval_policies e' = pl_ApprovalPolicies e"
proof (cases "list_ex (enablement_at (pi_PluginID b) (pl_OrgID e)) rows")
  case False
  then have "e' \<in> set rows \<or> e' = plugin_enablement_row b e actor now" using assms by (auto simp: put_row_def Let_def)
  with False show ?thesis by (auto simp: plugin_enablement_row_def enablement_at_def list_ex_iff)
next
  case True
  let ?f = "\<lambda>x. (plugin_enablement_row b e actor now)\<lparr>eb_created_at := eb_created_at x, eb_created_by := eb_created_by x\<rparr>"
  have f: "enablement_at (pi_PluginID b) (pl_OrgID e) (?f x)" "eb_installation_uuid (?f x) = pi_InstallationID b"
    "eb_state (?f x) = pl_State e" "eb_timezone (?f x) = pl_Timezone e" "eb_approval_policies (?f x) = pl_ApprovalPolicies e" for x
    by (simp_all add: plugin_enablement_row_def enablement_at_def)
  obtain x where "x \<in> set rows" "e' = (if enablement_at (pi_PluginID b) (pl_OrgID e) x then ?f x else x)"
    using assms True by (auto simp: put_row_def Let_def in_upd_where)
  then show ?thesis using f [of x] by (cases "enablement_at (pi_PluginID b) (pl_OrgID e) x") simp_all
qed

lemma put_row_keys:
  "distinct (map (\<lambda>e. (eb_plugin_id e, eb_org_id e)) rows) \<Longrightarrow>
   distinct (map (\<lambda>e. (eb_plugin_id e, eb_org_id e)) (put_row b e actor now rows))"
proof -
  assume d: "distinct (map (\<lambda>e. (eb_plugin_id e, eb_org_id e)) rows)"
  have "map (\<lambda>e. (eb_plugin_id e, eb_org_id e)) (upd_where (enablement_at (pi_PluginID b) (pl_OrgID e))
      (\<lambda>x. (plugin_enablement_row b e actor now)\<lparr>eb_created_at := eb_created_at x, eb_created_by := eb_created_by x\<rparr>) rows)
    = map (\<lambda>e. (eb_plugin_id e, eb_org_id e)) rows"
    by (rule map_upd_where) (simp add: enablement_at_def plugin_enablement_row_def)
  with d show ?thesis
    by (auto simp: put_row_def Let_def plugin_enablement_row_def enablement_at_def list_ex_iff)
qed

lemma put_ok:
  assumes ok: "plugins_ok h" and put: "PutPluginEnablement b e actor now h = Inr h'"
    and i: "find_installation (pi_InstallationID b) h = Some i" "in_plugin_id i = pi_PluginID b" "served_state (in_state i)"
  shows "plugins_ok h'"
proof -
  let ?h = "h\<lparr>plugin_enablements := put_row b e actor now (plugin_enablements h)\<rparr>"
  note p = put_Inr [OF put] and f = find_installation_Some [OF i(1)]
  have "enablement_ok ?h e'" if e': "e' \<in> set (put_row b e actor now (plugin_enablements h))" for e'
    using put_row_in [OF e'] ok p(2) f i(2,3)
    by (auto simp: plugins_ok_def enablements_ok_def enablement_ok_def enablement_at_def)
  moreover have "row_ok ?h j = row_ok h j" "registered ?h j = registered h j" for j
    by (simp_all add: row_ok_def package_known_def registered_def rows_of_def contributions_of_def manifest_of_def)
  ultimately have "plugins_ok ?h" using ok put_row_keys
    by (auto simp: plugins_ok_def packages_ok_def installations_ok_def enablements_ok_def registrations_ok_def)
  then show ?thesis using states_only_ok [OF p(1)] by simp
qed

lemma filter_enablements_ok:
  assumes "plugins_ok h"
  shows "plugins_ok (h\<lparr>plugin_enablements := filter P (plugin_enablements h)\<rparr>)"
proof -
  let ?h = "h\<lparr>plugin_enablements := filter P (plugin_enablements h)\<rparr>"
  have "row_ok ?h j = row_ok h j" "registered ?h j = registered h j" "enablement_ok ?h e = enablement_ok h e" for j e
    by (simp_all add: row_ok_def package_known_def registered_def rows_of_def contributions_of_def manifest_of_def enablement_ok_def)
  then show ?thesis using assms
    by (auto simp: plugins_ok_def packages_ok_def installations_ok_def enablements_ok_def registrations_ok_def distinct_map_filter)
qed

lemma delete_ok: "plugins_ok h \<Longrightarrow> plugins_ok (snd (DeletePluginEnablement plugin org h))"
  using states_only_ok [OF delete_states] filter_enablements_ok by blast

lemma delete_fold_states:
  "states_only (h\<lparr>plugin_enablements := filter (\<lambda>e. \<not> (eb_plugin_id e = plugin \<and> eb_org_id e \<in> set os)) (plugin_enablements h)\<rparr>)
     (fold (\<lambda>org h. snd (DeletePluginEnablement plugin org h)) os h)"
proof (induction os arbitrary: h)
  case (Cons org os)
  let ?h1 = "snd (DeletePluginEnablement plugin org h)"
  have d: "states_only (h\<lparr>plugin_enablements := filter (\<lambda>e. \<not> enablement_at plugin org e) (plugin_enablements h)\<rparr>) ?h1"
    by (rule delete_states)
  let ?es = "filter (\<lambda>e. \<not> (eb_plugin_id e = plugin \<and> eb_org_id e \<in> set os)) (plugin_enablements ?h1)"
  have e: "?es = filter (\<lambda>e. \<not> (eb_plugin_id e = plugin \<and> eb_org_id e \<in> set (org # os))) (plugin_enablements h)"
    by (auto simp: states_only_fields(3) [OF d] enablement_at_def intro!: filter_cong)
  have "states_only (h\<lparr>plugin_enablements := ?es\<rparr>) (?h1\<lparr>plugin_enablements := ?es\<rparr>)"
    using states_only_enablements [OF d, of ?es] by simp
  then have "states_only (h\<lparr>plugin_enablements := filter (\<lambda>e. \<not> (eb_plugin_id e = plugin \<and> eb_org_id e \<in> set (org # os))) (plugin_enablements h)\<rparr>)
     (?h1\<lparr>plugin_enablements := ?es\<rparr>)" unfolding e .
  from states_only_trans [OF this Cons.IH] show ?case by simp
qed (simp add: filter_True)

text \<open>What the removal of an installation leaves: no enablement and no registration of it, and everything else.\<close>

lemma uninstall_Inr:
  assumes ok: "plugins_ok h" and found: "find_installation u h = Some i" and live: "in_state i \<noteq> ''purged''"
    and uninstall: "uninstall (installation_of h i) h = Inr (b, h')"
  shows "Settled (UnsettledPluginWork (in_plugin_id i) h)"
    "b = (installation_of h i)\<lparr>pi_Organizations := [], pi_OrganizationMode := ''selected'', pi_State := ''uninstalled'', pi_TargetPackageSHA256 := ''''\<rparr>"
    "states_only (h\<lparr>plugin_enablements := filter (\<lambda>e. eb_installation_uuid e \<noteq> u) (plugin_enablements h),
       plugin_registrations := filter (\<lambda>r. rr_installation_uuid r \<noteq> u) (plugin_registrations h)\<rparr>) h'"
    "unique_registrations (plugin_registrations h')"
proof -
  let ?os = "map pl_OrgID (pi_Organizations (installation_of h i))"
  let ?h1 = "fold (\<lambda>org h. snd (DeletePluginEnablement (in_plugin_id i) org h)) ?os h"
  let ?a = "(installation_of h i)\<lparr>pi_Organizations := [], pi_OrganizationMode := ''selected''\<rparr>"
  have u: "in_installation_uuid i = u" "i \<in> set (plugin_installations h)" using find_installation_Some [OF found] by auto
  have "fold (\<lambda>e h. snd (DeletePluginEnablement (in_plugin_id i) (pl_OrgID e) h)) (pi_Organizations (installation_of h i)) h = ?h1"
    by (simp add: fold_map comp_def)
  with uninstall show "Settled (UnsettledPluginWork (in_plugin_id i) h)"
    "b = (installation_of h i)\<lparr>pi_Organizations := [], pi_OrganizationMode := ''selected'', pi_State := ''uninstalled'', pi_TargetPackageSHA256 := ''''\<rparr>"
    by (auto simp: uninstall_def Let_def)
  from uninstall have r: "ReplacePluginRegistrations ?a [] ?h1 = Inr h'"
    using \<open>fold (\<lambda>e h. snd (DeletePluginEnablement (in_plugin_id i) (pl_OrgID e) h)) (pi_Organizations (installation_of h i)) h = ?h1\<close>
    by (auto simp: uninstall_def Let_def)
  have own: "(eb_plugin_id e = in_plugin_id i \<and> eb_org_id e \<in> set ?os) = (eb_installation_uuid e = u)" if "e \<in> set (plugin_enablements h)" for e
  proof
    assume "eb_installation_uuid e = u"
    moreover have "enablement_ok h e" using ok that by (auto simp: plugins_ok_def enablements_ok_def)
    then obtain j where "j \<in> set (plugin_installations h)" "in_installation_uuid j = eb_installation_uuid e" "in_plugin_id j = eb_plugin_id e"
      by (auto simp: enablement_ok_def)
    ultimately have "eb_plugin_id e = in_plugin_id i"
      using installation_unique [of h i j] ok u by (auto simp: plugins_ok_def)
    then show "eb_plugin_id e = in_plugin_id i \<and> eb_org_id e \<in> set ?os"
      using organizations_of(1) [OF found] that \<open>eb_installation_uuid e = u\<close> by auto
  next
    assume a: "eb_plugin_id e = in_plugin_id i \<and> eb_org_id e \<in> set ?os"
    have "enablement_ok h e" using ok that by (auto simp: plugins_ok_def enablements_ok_def)
    then obtain j where j: "j \<in> set (plugin_installations h)" "in_installation_uuid j = eb_installation_uuid e" "in_plugin_id j = eb_plugin_id e"
      "served_state (in_state j)" by (auto simp: enablement_ok_def)
    have "i = j" using plugin_unique [of h i j] ok u j a live served_not_purged by (auto simp: plugins_ok_def)
    then show "eb_installation_uuid e = u" using j u by simp
  qed
  have e: "filter (\<lambda>e. \<not> (eb_plugin_id e = in_plugin_id i \<and> eb_org_id e \<in> set ?os)) (plugin_enablements h)
      = filter (\<lambda>e. eb_installation_uuid e \<noteq> u) (plugin_enablements h)"
    by (rule filter_cong [OF refl]) (use own in blast)
  note d = delete_fold_states [where h = h and plugin = "in_plugin_id i" and os = ?os, unfolded e]
  have regs: "unique_registrations (plugin_registrations ?h1)"
    using ok states_only_fields(4) [OF d] by (simp add: plugins_ok_def registrations_ok_def)
  note rep = replace_Inr [OF r regs]
  have "states_only (h\<lparr>plugin_enablements := filter (\<lambda>e. eb_installation_uuid e \<noteq> u) (plugin_enablements h),
       plugin_registrations := filter (\<lambda>r. rr_installation_uuid r \<noteq> u) (plugin_registrations h)\<rparr>)
     (?h1\<lparr>plugin_registrations := filter (\<lambda>r. rr_installation_uuid r \<noteq> u) (plugin_registrations ?h1)\<rparr>)"
    using states_only_registrations [OF d] states_only_fields(4) [OF d] by simp
  moreover have "registration_rows ?a [] = []" by (simp add: registration_rows_def)
  ultimately show "states_only (h\<lparr>plugin_enablements := filter (\<lambda>e. eb_installation_uuid e \<noteq> u) (plugin_enablements h),
       plugin_registrations := filter (\<lambda>r. rr_installation_uuid r \<noteq> u) (plugin_registrations h)\<rparr>) h'"
    using states_only_trans rep(1) u(1) by auto
  show "unique_registrations (plugin_registrations h')" by (rule rep(2))
qed

text \<open>An update that keeps the served package and does not take the installation out of service.\<close>

lemma update_served_ok:
  assumes ok: "plugins_ok h" and found: "find_installation u h = Some i" and u: "pi_InstallationID b = u"
    and update: "UpdatePluginInstallation b actor now h = Inr h'"
    and served: "served_state (pi_State b) = served_state (in_state i)" "pi_PackageSHA256 b = in_package_sha256 i"
    and target: "pi_TargetPackageSHA256 b \<noteq> '''' \<longrightarrow> pi_State b = ''installed'' \<or> served_state (pi_State b)"
  shows "plugins_ok h'"
proof -
  have i: "i \<in> set (plugin_installations h)" "in_installation_uuid i = u" using find_installation_Some [OF found] by auto
  have "if eb_installation_uuid e = u
         then (eb_state e = ''enabled'' \<or> eb_state e = ''disabled'') \<and> eb_plugin_id e = in_plugin_id i \<and> served_state (pi_State b)
         else enablement_ok h e" if "e \<in> set (plugin_enablements h)" for e
  proof -
    have e: "enablement_ok h e" using ok that by (auto simp: plugins_ok_def enablements_ok_def)
    then obtain j where "j \<in> set (plugin_installations h)" "in_installation_uuid j = eb_installation_uuid e" "in_plugin_id j = eb_plugin_id e"
      "served_state (in_state j)" by (auto simp: enablement_ok_def)
    then show ?thesis using e installation_unique [of h i j] i ok served(1) by (auto simp: plugins_ok_def enablement_ok_def)
  qed
  then show ?thesis using ok i served
    by (intro update_ok [OF _ _ found u update target])
      (auto simp: plugins_ok_def enablements_ok_def registrations_ok_def registered_def)
qed

text \<open>The activation: the registrations of the package that is served from now on replace the old ones.\<close>

lemma rows_of_replaced:
  assumes "plugin_registrations h' = filter (\<lambda>r. rr_installation_uuid r \<noteq> pi_InstallationID b) (plugin_registrations h) @ registration_rows b regs"
  shows "rows_of h' (pi_InstallationID b) = map (Pair (pi_PackageSHA256 b)) regs"
    "u \<noteq> pi_InstallationID b \<Longrightarrow> rows_of h' u = rows_of h u"
proof -
  have "filter (\<lambda>r. rr_installation_uuid r = v) (registration_rows b regs)
      = (if v = pi_InstallationID b then registration_rows b regs else [])" for v
    by (induction regs) (auto simp: registration_rows_def)
  note own = this
  show "rows_of h' (pi_InstallationID b) = map (Pair (pi_PackageSHA256 b)) regs"
    unfolding rows_of_def assms filter_append own by (simp add: registration_rows_def comp_def)
  assume u: "u \<noteq> pi_InstallationID b"
  have "filter (\<lambda>r. rr_installation_uuid r = u) (filter (\<lambda>r. rr_installation_uuid r \<noteq> pi_InstallationID b) rows)
      = filter (\<lambda>r. rr_installation_uuid r = u) rows" for rows
    using u by (induction rows) auto
  note others = this
  show "rows_of h' u = rows_of h u" unfolding rows_of_def assms filter_append own others using u by simp
qed

lemma activate_ok:
  assumes ok: "plugins_ok h" and found: "find_installation u h = Some i" and b: "pi_InstallationID b = u" "served_state (pi_State b)"
    and m: "manifest_of h (pi_PackageSHA256 b) = Some m"
    and replace: "ReplacePluginRegistrations b (registrations m) h = Inr h1"
    and update: "UpdatePluginInstallation b actor now h1 = Inr h'"
  shows "plugins_ok h'"
proof -
  have i: "i \<in> set (plugin_installations h)" "in_installation_uuid i = u" using find_installation_Some [OF found] by auto
  have regs: "unique_registrations (plugin_registrations h)" using ok by (simp add: plugins_ok_def registrations_ok_def)
  note rep = replace_Inr [OF replace regs] and fields = states_only_fields [OF replace_Inr(1) [OF replace regs]]
  have same: "plugin_packages h1 = plugin_packages h" "plugin_installations h1 = plugin_installations h"
    "plugin_enablements h1 = plugin_enablements h" using fields by simp_all
  have rows: "plugin_registrations h1 = filter (\<lambda>r. rr_installation_uuid r \<noteq> pi_InstallationID b) (plugin_registrations h) @ registration_rows b (registrations m)"
    using fields by simp
  note r = rows_of_replaced [OF rows]
  have other: "registered h1 j" if "j \<in> set (plugin_installations h)" "in_installation_uuid j \<noteq> u" for j
    using ok that r(2) b by (auto simp: plugins_ok_def registrations_ok_def registered_def contributions_of_def manifest_of_def same)
  have e1: "enablement_ok h1 e = enablement_ok h e" for e by (simp add: enablement_ok_def same)
  have "if eb_installation_uuid e = u
         then (eb_state e = ''enabled'' \<or> eb_state e = ''disabled'') \<and> eb_plugin_id e = in_plugin_id i \<and> served_state (pi_State b)
         else enablement_ok h1 e" if "e \<in> set (plugin_enablements h)" for e
  proof -
    have e: "enablement_ok h e" using ok that by (auto simp: plugins_ok_def enablements_ok_def)
    then obtain j where "j \<in> set (plugin_installations h)" "in_installation_uuid j = eb_installation_uuid e" "in_plugin_id j = eb_plugin_id e"
      by (auto simp: enablement_ok_def)
    then have "eb_installation_uuid e = u \<Longrightarrow> eb_plugin_id e = in_plugin_id i"
      using installation_unique [of h i j] i ok by (auto simp: plugins_ok_def)
    then show ?thesis using e b(2) by (simp add: e1) (simp add: enablement_ok_def)
  qed
  moreover have "\<exists>j\<in>set (plugin_installations h1). in_installation_uuid j = rr_installation_uuid x" if "x \<in> set (plugin_registrations h1)" for x
    using that ok i b(1) by (auto simp: rows same plugins_ok_def registrations_ok_def registration_rows_def)
  moreover have "contributions_of h1 (pi_PackageSHA256 b) = map (Pair (pi_PackageSHA256 b)) (registrations m)"
    using m unfolding contributions_of_def manifest_of_def same by auto
  then have "rows_of h1 u = contributions_of h1 (pi_PackageSHA256 b)" using r(1) b(1) by simp
  moreover have "packages_ok h1" "installations_ok h1"
    using ok by (simp_all add: plugins_ok_def packages_ok_def installations_ok_def row_ok_def package_known_def same)
  moreover have "find_installation u h1 = Some i" using found by (simp add: find_installation_def same)
  ultimately show ?thesis using ok other rep(2) b
    by (intro update_ok [OF _ _ _ b(1) update, of i]) (auto simp: plugins_ok_def enablements_ok_def same)
qed

lemma uninstall_ok:
  assumes ok: "plugins_ok h" and found: "find_installation u h = Some i" and live: "in_state i \<noteq> ''purged''"
    and uninstall: "uninstall (installation_of h i) h = Inr (b, h1)"
    and update: "UpdatePluginInstallation b actor now h1 = Inr h'"
  shows "plugins_ok h'"
proof -
  note un = uninstall_Inr [OF ok found live uninstall] and fields = states_only_fields [OF uninstall_Inr(3) [OF ok found live uninstall]]
  have i: "i \<in> set (plugin_installations h)" "in_installation_uuid i = u" using find_installation_Some [OF found] by auto
  have same: "plugin_packages h1 = plugin_packages h" "plugin_installations h1 = plugin_installations h"
    "plugin_enablements h1 = filter (\<lambda>e. eb_installation_uuid e \<noteq> u) (plugin_enablements h)"
    "plugin_registrations h1 = filter (\<lambda>r. rr_installation_uuid r \<noteq> u) (plugin_registrations h)" using fields by simp_all
  have b: "pi_InstallationID b = u" "\<not> served_state (pi_State b)" "pi_TargetPackageSHA256 b = ''''"
    using i by (simp_all add: un(2) served_state_def)
  have "rows_of h1 v = (if v = u then [] else rows_of h v)" for v
    by (auto simp: rows_of_def same intro!: arg_cong [where f = "map _"] filter_cong simp: filter_empty_conv)
  then have "registered h1 j" if "j \<in> set (plugin_installations h)" "in_installation_uuid j \<noteq> u" for j
    using ok that by (auto simp: plugins_ok_def registrations_ok_def registered_def contributions_of_def manifest_of_def same)
  moreover have "enablement_ok h1 e = enablement_ok h e" for e by (simp add: enablement_ok_def same)
  moreover have "packages_ok h1" "installations_ok h1"
    using ok by (simp_all add: plugins_ok_def packages_ok_def installations_ok_def row_ok_def package_known_def same)
  moreover have "find_installation u h1 = Some i" using found by (simp add: find_installation_def same)
  moreover have "rows_of h1 u = []" by (auto simp: rows_of_def same filter_empty_conv)
  ultimately show ?thesis using ok un(4) b
    by (intro update_ok [OF _ _ _ b(1) update, of i])
      (auto simp: plugins_ok_def enablements_ok_def registrations_ok_def same distinct_map_filter)
qed

section \<open>The commands\<close>

definition updates :: "PluginInstallation \<Rightarrow> uuid \<Rightarrow> timestamp \<Rightarrow> control_plane \<Rightarrow> control_plane \<Rightarrow> bool" where
  "updates b actor now s s' \<longleftrightarrow> (\<exists>h. UpdatePluginInstallation b actor now (cpl_host s) = Inr h \<and> s' = s\<lparr>cpl_host := h\<rparr>)"

lemma try_host_Inr: "try_host f s = Inr s' \<longleftrightarrow> (\<exists>h. f (cpl_host s) = Inr h \<and> s' = s\<lparr>cpl_host := h\<rparr>)"
  by (auto simp: try_host_def)

lemma changed_Inr:
  "changed action before org write = Inr (ch, r, s') \<longleftrightarrow>
     write = Inr s' \<and> (\<exists>c. installationChange action before org s' = Inr c \<and> ch = Some c)"
  by (auto simp: changed_def)

lemma no_change_Inr: "no_change s = Inr (ch, r, s') \<longleftrightarrow> ch = None \<and> s' = s"
  by (auto simp: no_change_def)

text \<open>Every command on an installation reads it with the manifest of its package first.\<close>

lemma locked_Inr:
  "try_then (lockInstallation u s) (\<lambda>(b, m). f b m) = Inr x \<longleftrightarrow>
     (\<exists>i m. find_installation u (cpl_host s) = Some i \<and> manifest_of (cpl_host s) (in_package_sha256 i) = Some m
        \<and> f (installation_of (cpl_host s) i) m = Inr x)"
  unfolding try_then_Inr_iff split_paired_Ex prod.case lock_Inr packageManifest_Inr by blast

lemma validateServed_Inr:
  "validateServed mg b m k = Inr x \<longleftrightarrow> validateServed mg b m (Inr ()) = Inr () \<and> k = Inr x"
  by (auto simp: validateServed_def)

lemmas command_simps = lock_Inr packageManifest_Inr changed_Inr no_change_Inr try_host_Inr updates_def

lemma push_Inr:
  assumes "push_package_change digest m actor now s = Inr (ch, r, s')"
  shows "ch = None \<and> s' = s \<or> ch \<noteq> None \<and> GetPluginPackage digest (cpl_host s) = Inl (ErrNotFound ''The plugin package does not exist.'')
    \<and> (\<exists>h. InsertPluginPackage \<lparr>pp_ManifestSHA256 = digest, pp_PluginID = mf_ID m, pp_Version = mf_Version m,
             pp_Manifest = m, pp_CreatedAt = now, pp_CreatedBy = actor\<rparr> now (cpl_host s) = Inr h \<and> s' = s\<lparr>cpl_host := h\<rparr>)"
  using assms by (auto simp: push_package_change_def command_simps GetPluginPackage_def split: sum.splits)

lemma create_change_Inr:
  assumes "create_installation_change mg u digest backend uiOrigin actor now s = Inr (ch, r, s')"
  shows "\<exists>p b h. ch \<noteq> None \<and> GetPluginPackage digest (cpl_host s) = Inr p \<and> InsertPluginInstallation b now (cpl_host s) = Inr h
    \<and> s' = s\<lparr>cpl_host := h\<rparr> \<and> pi_InstallationID b = u \<and> pi_PluginID b = pp_PluginID p \<and> pi_PackageSHA256 b = pp_ManifestSHA256 p
    \<and> pi_State b = ''installed'' \<and> pi_BackendURL b = backend \<and> pi_UIOrigin b = uiOrigin
    \<and> ValidateEndpoints (mg_platform mg) (pp_Manifest p) backend uiOrigin = None"
  using assms unfolding create_installation_change_def
  by (clarsimp simp: command_simps simp del: split_paired_Ex) (fastforce simp: command_simps)

lemma identity_Inr:
  assumes "identity_change mg u serviceUser checker actor now s = Inr (ch, r, s')"
  shows "ch = None \<and> s' = s \<or> (\<exists>i m. ch \<noteq> None \<and> find_installation u (cpl_host s) = Some i \<and> in_state i = ''installed''
    \<and> manifest_of (cpl_host s) (in_package_sha256 i) = Some m
    \<and> ValidateServiceIdentities (mg_platform mg) m serviceUser checker = None
    \<and> updates ((installation_of (cpl_host s) i)\<lparr>pi_ServiceUserID := serviceUser, pi_AdmissionCheckerID := checker\<rparr>) actor now s s')"
  using assms by (auto simp: identity_change_def command_simps split: if_splits)

lemma transition_change_Inr:
  assumes "transition_change action u actor now s = Inr (ch, r, s')"
  shows "ch = None \<and> s' = s \<or> (\<exists>i b h1 h. ch \<noteq> None \<and> find_installation u (cpl_host s) = Some i
    \<and> UpdatePluginInstallation b actor now h1 = Inr h \<and> s' = s\<lparr>cpl_host := h\<rparr>
    \<and> ((\<exists>target. h1 = cpl_host s \<and> b = (installation_of (cpl_host s) i)\<lparr>pi_State := target\<rparr>
          \<and> (served_state (in_state i) \<and> served_state target
             \<or> in_state i = ''uninstalled'' \<and> (target = ''installed'' \<or> target = ''purged'')))
       \<or> in_state i \<noteq> ''uninstalled'' \<and> in_state i \<noteq> ''purged'' \<and> uninstall (installation_of (cpl_host s) i) (cpl_host s) = Inr (b, h1)))"
proof -
  from assms obtain i target where i: "find_installation u (cpl_host s) = Some i"
    and t: "transition_target action (installation_of (cpl_host s) i) (cpl_host s) = Inr target"
    and rest: "(case target of None \<Rightarrow> no_change s
     | Some (after, h) \<Rightarrow>
         changed (''plugin_installation.'' @ action) (installation_of (cpl_host s) i) ''''
           (try_host (UpdatePluginInstallation after actor now) (s\<lparr>cpl_host := h\<rparr>))) = Inr (ch, r, s')"
    unfolding transition_change_def try_then_Inr_iff split_paired_Ex prod.case lock_Inr by blast
  show ?thesis
  proof (cases target)
    case None
    then show ?thesis using rest by (simp add: command_simps)
  next
    case (Some q)
    obtain b h1 where q: "q = (b, h1)" by (cases q)
    with rest Some obtain h where h: "UpdatePluginInstallation b actor now h1 = Inr h" "s' = s\<lparr>cpl_host := h\<rparr>" "ch \<noteq> None"
      by (auto simp: command_simps)
    have "(\<exists>t. h1 = cpl_host s \<and> b = (installation_of (cpl_host s) i)\<lparr>pi_State := t\<rparr>
          \<and> (served_state (in_state i) \<and> served_state t \<or> in_state i = ''uninstalled'' \<and> (t = ''installed'' \<or> t = ''purged'')))
       \<or> in_state i \<noteq> ''uninstalled'' \<and> in_state i \<noteq> ''purged'' \<and> uninstall (installation_of (cpl_host s) i) (cpl_host s) = Inr (b, h1)"
      using t unfolding Some q transition_target_def Let_def
      by (auto simp: served_state_def split: if_splits)
    then show ?thesis using i h by blast
  qed
qed

lemma activation_target_Inr:
  assumes "activation_target (installation_of h i) m s = Inr (b, served)" "cpl_host s = h" "manifest_of h (in_package_sha256 i) = Some m"
  shows "manifest_of h (pi_PackageSHA256 b) = Some served
    \<and> pi_PackageSHA256 b = (if in_target_package_sha256 i = '''' then in_package_sha256 i else in_target_package_sha256 i)
    \<and> b = (installation_of h i)\<lparr>pi_State := (if in_state i = ''installed'' then ''active'' else in_state i),
        pi_PackageSHA256 := pi_PackageSHA256 b, pi_TargetPackageSHA256 := ''''\<rparr>"
  using assms by (auto simp: activation_target_def Let_def packageManifest_Inr split: if_splits)

lemma activate_Inr:
  assumes "activate_change mg u observed actor now s = Inr (ch, r, s')"
  shows "ch = None \<and> s' = s \<or> (\<exists>i b m o1 h1 h. ch \<noteq> None \<and> find_installation u (cpl_host s) = Some i
    \<and> (in_state i = ''installed'' \<or> served_state (in_state i) \<and> in_target_package_sha256 i \<noteq> '''')
    \<and> b = (installation_of (cpl_host s) i)\<lparr>pi_State := (if in_state i = ''installed'' then ''active'' else in_state i),
        pi_PackageSHA256 := (if in_target_package_sha256 i = '''' then in_package_sha256 i else in_target_package_sha256 i),
        pi_TargetPackageSHA256 := ''''\<rparr>
    \<and> manifest_of (cpl_host s) (pi_PackageSHA256 b) = Some m \<and> validateServed mg b m (Inr ()) = Inr ()
    \<and> observed = Some o1 \<and> diagnose o1 u (pi_PackageSHA256 b) (mf_MigrationGeneration m) = None
    \<and> ReplacePluginRegistrations b (registrations m) (cpl_host s) = Inr h1
    \<and> UpdatePluginInstallation b actor now h1 = Inr h \<and> s' = s\<lparr>cpl_host := h\<rparr>)"
proof -
  from assms obtain i m where i: "find_installation u (cpl_host s) = Some i" "manifest_of (cpl_host s) (in_package_sha256 i) = Some m"
    and rest: "(if \<not> awaitsProof (installation_of (cpl_host s) i)
     then if pi_State (installation_of (cpl_host s) i) = ''active'' then no_change s
       else Inl (stateConflict ''Only an installed installation or a pending upgrade is activated; a disabled installation is enabled.'')
     else try_then (activation_target (installation_of (cpl_host s) i) m s) (\<lambda>(after, served).
     validateServed mg after served
    (case observed of
       None \<Rightarrow> Inl (stateConflict ''The installation changed while Core read the plugin status. Read it and activate again.'')
     | Some o1 \<Rightarrow>
    (case diagnose o1 u (pi_PackageSHA256 after) (mf_MigrationGeneration served) of
       Some d \<Rightarrow> Inl (ErrConflict (kd_Code d) (kd_Message d))
     | None \<Rightarrow>
         changed (''plugin_installation.'' @ ActionActivate) (installation_of (cpl_host s) i) ''''
           (try_then (try_host (ReplacePluginRegistrations after (registrations served)) s)
             (try_host (UpdatePluginInstallation after actor now))))))) = Inr (ch, r, s')"
    unfolding activate_change_def try_then_Inr_iff split_paired_Ex prod.case lock_Inr packageManifest_Inr by blast
  show ?thesis
  proof (cases "awaitsProof (installation_of (cpl_host s) i)")
    case False
    then show ?thesis using rest by (auto simp: command_simps split: if_splits)
  next
    case True
    with rest have "try_then (activation_target (installation_of (cpl_host s) i) m s) (\<lambda>(after, served).
     validateServed mg after served
    (case observed of
       None \<Rightarrow> Inl (stateConflict ''The installation changed while Core read the plugin status. Read it and activate again.'')
     | Some o1 \<Rightarrow>
    (case diagnose o1 u (pi_PackageSHA256 after) (mf_MigrationGeneration served) of
       Some d \<Rightarrow> Inl (ErrConflict (kd_Code d) (kd_Message d))
     | None \<Rightarrow>
         changed (''plugin_installation.'' @ ActionActivate) (installation_of (cpl_host s) i) ''''
           (try_then (try_host (ReplacePluginRegistrations after (registrations served)) s)
             (try_host (UpdatePluginInstallation after actor now)))))) = Inr (ch, r, s')" by (simp only: not_not if_False simp_thms)
    then obtain b served where t: "activation_target (installation_of (cpl_host s) i) m s = Inr (b, served)"
      and k1: "validateServed mg b served (case observed of
       None \<Rightarrow> Inl (stateConflict ''The installation changed while Core read the plugin status. Read it and activate again.'')
     | Some o1 \<Rightarrow>
    (case diagnose o1 u (pi_PackageSHA256 b) (mf_MigrationGeneration served) of
       Some d \<Rightarrow> Inl (ErrConflict (kd_Code d) (kd_Message d))
     | None \<Rightarrow>
         changed (''plugin_installation.'' @ ActionActivate) (installation_of (cpl_host s) i) ''''
           (try_then (try_host (ReplacePluginRegistrations b (registrations served)) s)
             (try_host (UpdatePluginInstallation b actor now))))) = Inr (ch, r, s')"
      unfolding try_then_Inr_iff [of "activation_target _ _ _"] split_paired_Ex prod.case by blast
    note v1 = conjunct1 [OF iffD1 [OF validateServed_Inr k1]] and k = conjunct2 [OF iffD1 [OF validateServed_Inr k1]]
    obtain o1 where o1: "observed = Some o1" using k by (cases observed) auto
    have d: "diagnose o1 u (pi_PackageSHA256 b) (mf_MigrationGeneration served) = None" using k o1 by (simp split: option.splits)
    from k obtain h1 h where w: "ReplacePluginRegistrations b (registrations served) (cpl_host s) = Inr h1"
      "UpdatePluginInstallation b actor now h1 = Inr h" "s' = s\<lparr>cpl_host := h\<rparr>" "ch \<noteq> None"
      by (auto simp: o1 d command_simps)
    note v = v1 o1 d
    note act = activation_target_Inr [OF t refl i(2)]
    have a1: "manifest_of (cpl_host s) (pi_PackageSHA256 b) = Some served" using act by blast
    have package: "pi_PackageSHA256 b = (if in_target_package_sha256 i = '''' then in_package_sha256 i else in_target_package_sha256 i)"
      using act by blast
    have a2: "b = (installation_of (cpl_host s) i)\<lparr>pi_State := (if in_state i = ''installed'' then ''active'' else in_state i),
        pi_PackageSHA256 := (if in_target_package_sha256 i = '''' then in_package_sha256 i else in_target_package_sha256 i),
        pi_TargetPackageSHA256 := ''''\<rparr>"
      using conjunct2 [OF conjunct2 [OF act]] unfolding package .
    have st: "in_state i = ''installed'' \<or> served_state (in_state i) \<and> in_target_package_sha256 i \<noteq> ''''"
      using True by (auto simp: awaitsProof_def)
    show ?thesis using i(1) st a1 a2 v w by blast
  qed
qed

lemma upgrade_Inr:
  assumes "upgrade_change mg u digest actor now s = Inr (ch, r, s')"
  shows "ch = None \<and> s' = s \<or> (\<exists>i m t. ch \<noteq> None \<and> find_installation u (cpl_host s) = Some i
    \<and> (in_state i = ''installed'' \<or> served_state (in_state i)) \<and> manifest_of (cpl_host s) (in_package_sha256 i) = Some m
    \<and> (t = '''' \<or> t = digest \<and> validateUpgrade mg (installation_of (cpl_host s) i) m digest s = Inr ())
    \<and> updates ((installation_of (cpl_host s) i)\<lparr>pi_TargetPackageSHA256 := t\<rparr>) actor now s s')"
proof -
  from assms obtain i m target where i: "find_installation u (cpl_host s) = Some i" "manifest_of (cpl_host s) (in_package_sha256 i) = Some m"
    and st: "\<not> (in_state i \<noteq> ''installed'' \<and> \<not> served_state (in_state i))"
    and t: "upgrade_target mg (installation_of (cpl_host s) i) m digest s = Inr target"
    and rest: "(case target of
       None \<Rightarrow> no_change s
     | Some t \<Rightarrow>
         changed ''plugin_installation.upgrade'' (installation_of (cpl_host s) i) ''''
           (try_host (UpdatePluginInstallation ((installation_of (cpl_host s) i)\<lparr>pi_TargetPackageSHA256 := t\<rparr>) actor now) s)) = Inr (ch, r, s')"
    unfolding upgrade_change_def locked_Inr fail_if_Inr_iff try_then_Inr_iff [of "upgrade_target _ _ _ _ _"] installation_of_simps by blast
  show ?thesis
  proof (cases target)
    case None
    then show ?thesis using rest by (simp add: no_change_Inr)
  next
    case (Some t)
    then have "t = '''' \<or> t = digest \<and> validateUpgrade mg (installation_of (cpl_host s) i) m digest s = Inr ()"
      using t by (auto simp: upgrade_target_def split: if_splits)
    then show ?thesis using rest i st Some by (auto simp: changed_Inr try_host_Inr updates_def)
  qed
qed

lemma mode_Inr:
  assumes "organization_mode_change mg u mode timezone policies actor now s = Inr (ch, r, s')"
  shows "ch = None \<and> s' = s \<or> (\<exists>i m zone b h1 h. ch \<noteq> None \<and> find_installation u (cpl_host s) = Some i
    \<and> manifest_of (cpl_host s) (in_package_sha256 i) = Some m \<and> NormalizeTimezone (mg_platform mg) timezone = Inr zone
    \<and> ValidateApprovalPolicies m policies = None \<and> in_state i \<noteq> ''purged'' \<and> (mode = ''all'' \<longrightarrow> served_state (in_state i))
    \<and> b = (installation_of (cpl_host s) i)\<lparr>pi_OrganizationMode := mode, pi_DefaultTimezone := zone, pi_DefaultApprovalPolicies := policies\<rparr>
    \<and> checkOrganizationLimit (installation_of (cpl_host s) i) (if mode = ''all''
         then length (PluginOrganizationsWithoutEnablement (active_organizations s) (in_plugin_id i) (cpl_host s)) else 0) s = Inr ()
    \<and> UpdatePluginInstallation b actor now (cpl_host s) = Inr h1
    \<and> put_defaults b actor now (if mode = ''all'' then PluginOrganizationsWithoutEnablement (active_organizations s) (in_plugin_id i) (cpl_host s)
         else []) h1 = Inr h \<and> s' = s\<lparr>cpl_host := h\<rparr>)"
proof -
  from assms obtain i m zone where i: "find_installation u (cpl_host s) = Some i" "manifest_of (cpl_host s) (in_package_sha256 i) = Some m"
    and z: "normalized_timezone mg timezone = Inr zone" and v: "ValidateApprovalPolicies m policies = None"
    and st: "in_state i \<noteq> ''purged''" "\<not> (mode = ''all'' \<and> \<not> served_state (in_state i))"
    and rest: "(let after = (installation_of (cpl_host s) i)\<lparr>pi_OrganizationMode := mode, pi_DefaultTimezone := zone,
           pi_DefaultApprovalPolicies := policies\<rparr>;
         uncovered = (if mode = ''all''
           then PluginOrganizationsWithoutEnablement (active_organizations s) (in_plugin_id i) (cpl_host s) else []) in
     if in_organization_mode i = mode \<and> in_default_timezone i = zone
       \<and> maps_equal (in_default_approval_policies i) policies \<and> uncovered = []
     then no_change s
     else try_then (checkOrganizationLimit (installation_of (cpl_host s) i) (length uncovered) s) (\<lambda>_.
       changed ''plugin_installation.organization_mode'' (installation_of (cpl_host s) i) ''''
         (try_then (try_host (UpdatePluginInstallation after actor now) s) (try_host (put_defaults after actor now uncovered))))) = Inr (ch, r, s')"
    unfolding organization_mode_change_def locked_Inr fail_if_Inr_iff try_then_Inr_iff [of "normalized_timezone _ _"]
      refuse_invalid_Inr_iff installation_of_simps by blast
  have z: "NormalizeTimezone (mg_platform mg) timezone = Inr zone" using z by (auto simp: normalized_timezone_def split: sum.splits)
  define uncovered where "uncovered = (if mode = ''all''
           then PluginOrganizationsWithoutEnablement (active_organizations s) (in_plugin_id i) (cpl_host s) else [])"
  define b where "b = (installation_of (cpl_host s) i)\<lparr>pi_OrganizationMode := mode, pi_DefaultTimezone := zone,
           pi_DefaultApprovalPolicies := policies\<rparr>"
  have len: "length uncovered = (if mode = ''all''
         then length (PluginOrganizationsWithoutEnablement (active_organizations s) (in_plugin_id i) (cpl_host s)) else 0)"
    by (simp add: uncovered_def)
  from rest [unfolded Let_def, folded uncovered_def b_def]
  have "ch = None \<and> s' = s \<or> (checkOrganizationLimit (installation_of (cpl_host s) i) (length uncovered) s = Inr ()
      \<and> ch \<noteq> None \<and> (\<exists>h1 h. UpdatePluginInstallation b actor now (cpl_host s) = Inr h1 \<and> put_defaults b actor now uncovered h1 = Inr h
        \<and> s' = s\<lparr>cpl_host := h\<rparr>))"
    by (cases "in_organization_mode i = mode \<and> in_default_timezone i = zone \<and> maps_equal (in_default_approval_policies i) policies \<and> uncovered = []")
      (auto simp: no_change_Inr changed_Inr try_host_Inr)
  then show ?thesis unfolding len using i z v st b_def uncovered_def by blast
qed

lemma enablement_Inr:
  assumes "enablement_change mg u org state timezone policies actor now s = Inr (ch, r, s')"
  shows "ch = None \<and> s' = s \<or> (\<exists>i m zone h. ch \<noteq> None \<and> find_installation u (cpl_host s) = Some i
    \<and> manifest_of (cpl_host s) (in_package_sha256 i) = Some m \<and> NormalizeTimezone (mg_platform mg) timezone = Inr zone
    \<and> ValidateApprovalPolicies m policies = None \<and> served_state (in_state i) \<and> organization_known org s
    \<and> checkOrganizationLimit (installation_of (cpl_host s) i)
         (if state = ''enabled'' \<and> \<not> (case find (\<lambda>e. pl_OrgID e = org) (pi_Organizations (installation_of (cpl_host s) i)) of
            None \<Rightarrow> False | Some e \<Rightarrow> pl_State e = ''enabled'') then 1 else 0) s = Inr ()
    \<and> PutPluginEnablement (installation_of (cpl_host s) i) (enablement_for org state zone policies) actor now (cpl_host s) = Inr h
    \<and> s' = s\<lparr>cpl_host := h\<rparr>)"
proof -
  from assms obtain i m zone where i: "find_installation u (cpl_host s) = Some i" "manifest_of (cpl_host s) (in_package_sha256 i) = Some m"
    and z: "normalized_timezone mg timezone = Inr zone" and v: "ValidateApprovalPolicies m policies = None"
    and st: "served_state (in_state i)" "organization_known org s"
    and rest: "(let existing = find (\<lambda>e. pl_OrgID e = org) (pi_Organizations (installation_of (cpl_host s) i)) in
     if (case existing of None \<Rightarrow> False
         | Some e \<Rightarrow> pl_State e = state \<and> pl_Timezone e = zone \<and> maps_equal (pl_ApprovalPolicies e) policies)
     then no_change s
     else
       let added = (if state = ''enabled'' \<and> \<not> (case existing of None \<Rightarrow> False | Some e \<Rightarrow> pl_State e = ''enabled'') then 1 else 0) in
       try_then (checkOrganizationLimit (installation_of (cpl_host s) i) added s) (\<lambda>_.
       changed ''plugin_enablement.put'' (installation_of (cpl_host s) i) org
         (try_host (PutPluginEnablement (installation_of (cpl_host s) i) (enablement_for org state zone policies) actor now) s))) = Inr (ch, r, s')"
    unfolding enablement_change_def locked_Inr fail_if_Inr_iff try_then_Inr_iff [of "normalized_timezone _ _"]
      refuse_invalid_Inr_iff installation_of_simps not_not by blast
  have z: "NormalizeTimezone (mg_platform mg) timezone = Inr zone" using z by (auto simp: normalized_timezone_def split: sum.splits)
  define existing where "existing = find (\<lambda>e. pl_OrgID e = org) (pi_Organizations (installation_of (cpl_host s) i))"
  from rest [unfolded Let_def, folded existing_def]
  have "ch = None \<and> s' = s \<or> (checkOrganizationLimit (installation_of (cpl_host s) i)
         (if state = ''enabled'' \<and> \<not> (case existing of None \<Rightarrow> False | Some e \<Rightarrow> pl_State e = ''enabled'') then 1 else 0) s = Inr ()
      \<and> ch \<noteq> None \<and> (\<exists>h. PutPluginEnablement (installation_of (cpl_host s) i) (enablement_for org state zone policies) actor now (cpl_host s) = Inr h
        \<and> s' = s\<lparr>cpl_host := h\<rparr>))"
    by (cases "case existing of None \<Rightarrow> False
         | Some e \<Rightarrow> pl_State e = state \<and> pl_Timezone e = zone \<and> maps_equal (pl_ApprovalPolicies e) policies")
      (simp_all only: if_True if_False no_change_Inr try_then_Inr_iff changed_Inr try_host_Inr, auto)
  then show ?thesis using i z v st existing_def by blast
qed

lemma remove_Inr:
  assumes "remove_enablement_change u org s = Inr (ch, r, s')"
  shows "ch = None \<and> s' = s \<or> (\<exists>i. ch \<noteq> None \<and> find_installation u (cpl_host s) = Some i
    \<and> \<not> (in_organization_mode i = ''all'' \<and> list_ex (\<lambda>e. pl_OrgID e = org) (pi_Organizations (installation_of (cpl_host s) i)))
    \<and> s' = s\<lparr>cpl_host := snd (DeletePluginEnablement (in_plugin_id i) org (cpl_host s))\<rparr>)"
proof -
  from assms obtain i where i: "find_installation u (cpl_host s) = Some i"
    and rest: "fail_if (pi_OrganizationMode (installation_of (cpl_host s) i) = ''all''
         \<and> list_ex (\<lambda>e. pl_OrgID e = org) (pi_Organizations (installation_of (cpl_host s) i)))
       (ErrConflict ''plugin_serves_all_organizations'' ''The installation serves all organizations.'')
    (case DeletePluginEnablement (pi_PluginID (installation_of (cpl_host s) i)) org (cpl_host s) of (deleted, h) \<Rightarrow>
     if \<not> deleted then no_change s
     else changed ''plugin_enablement.remove'' (installation_of (cpl_host s) i) org (Inr (s\<lparr>cpl_host := h\<rparr>))) = Inr (ch, r, s')"
    unfolding remove_enablement_change_def try_then_Inr_iff split_paired_Ex prod.case lock_Inr by blast
  obtain deleted h where d: "DeletePluginEnablement (in_plugin_id i) org (cpl_host s) = (deleted, h)"
    by (cases "DeletePluginEnablement (in_plugin_id i) org (cpl_host s)")
  show ?thesis using rest i by (auto simp: d command_simps split: if_splits)
qed

end
