(* ===== verification/CommandLog.thy ===== *)
theory CommandLog
  imports ManagerTables
begin

text \<open>
  The command log: the revision counts the rows of the audit, which is only ever appended to, and a command either answers
  from the log, or runs at the revision its caller expects and leaves its response there.
\<close>

section \<open>The audit\<close>

definition audit_ok :: "control_plane \<Rightarrow> bool" where
  "audit_ok s \<longleftrightarrow> 0 \<le> cpl_revision s \<and> map ka_Revision (cpl_audit s) = [1..cpl_revision s]
     \<and> map ka_ID (cpl_audit s) = [1..cpl_revision s]"

text \<open>What a change by \<open>actor\<close> adds.\<close>

definition audit_row ::
    "uuid \<Rightarrow> string \<Rightarrow> string \<Rightarrow> string \<Rightarrow> PluginManagerChange \<Rightarrow> timestamp \<Rightarrow> int \<Rightarrow> PluginManagerAuditEvent" where
  "audit_row actor requestID reason key change now n =
     \<lparr>ka_ID = n, ka_Revision = n, ka_OccurredAt = now, ka_Actor = actor, ka_Action = kh_Action change,
      ka_InstallationID = (if kh_InstallationID change = Nil_uuid then None else Some (kh_InstallationID change)),
      ka_OrgID = (if kh_OrgID change = '''' then None else Some (kh_OrgID change)), ka_Reason = reason,
      ka_RequestID = (if requestID = '''' then None else Some requestID), ka_IdempotencyKeyID = key,
      ka_Before = kh_Before change, ka_After = kh_After change\<rparr>"

definition reason_ok :: "string \<Rightarrow> bool" where
  "reason_ok reason \<longleftrightarrow> 1 \<le> char_length (btrim reason) \<and> char_length (btrim reason) \<le> 1000"

lemma next_audit_id:
  assumes "audit_ok s"
  shows "next_audit_id (cpl_audit s) = cpl_revision s + 1"
proof -
  have "fold (\<lambda>a n. max (ka_ID a) n) (cpl_audit s) 0 = fold max (map ka_ID (cpl_audit s)) 0" by (simp add: fold_map comp_def)
  also have "\<dots> = Max (set (0 # [1..cpl_revision s]))" using assms Max.set_eq_fold [of 0 "[1..cpl_revision s]"] by (simp add: audit_ok_def)
  also have "set (0 # [1..cpl_revision s]) = {0..cpl_revision s}" using assms by (auto simp: audit_ok_def)
  also have "Max \<dots> = cpl_revision s" using assms by (intro Max_eqI) (auto simp: audit_ok_def)
  finally show ?thesis by (simp add: next_audit_id_def)
qed

lemma audit_fresh:
  assumes "audit_ok s" "a \<in> set (cpl_audit s)"
  shows "ka_ID a \<le> cpl_revision s" "ka_Revision a \<le> cpl_revision s"
proof -
  have "ka_ID a \<in> set (map ka_ID (cpl_audit s))" "ka_Revision a \<in> set (map ka_Revision (cpl_audit s))" using assms(2) by auto
  then show "ka_ID a \<le> cpl_revision s" "ka_Revision a \<le> cpl_revision s" using assms(1) unfolding audit_ok_def by auto
qed

text \<open>The one way the log grows.\<close>

definition extended :: "PluginManagerAuditEvent \<Rightarrow> control_plane \<Rightarrow> control_plane" where
  "extended row s = s\<lparr>cpl_revision := cpl_revision s + 1, cpl_audit := cpl_audit s @ [row]\<rparr>"

lemma extended_simps [simp]:
  "cpl_revision (extended row s) = cpl_revision s + 1" "cpl_audit (extended row s) = cpl_audit s @ [row]"
  "cpl_host (extended row s) = cpl_host s" "cpl_licences (extended row s) = cpl_licences s"
  "cpl_orgs (extended row s) = cpl_orgs s" "cpl_commands (extended row s) = cpl_commands s"
  by (simp_all add: extended_def)

lemma record_change:
  assumes "audit_ok s" "n = cpl_revision s + 1"
  shows "recordPluginManagerChange n actor requestID reason key change now s =
    (if reason_ok reason \<and> length key = 32 then Inr (extended (audit_row actor requestID reason key change now n) s)
     else Inl (ErrConstraint ''plugin_manager_audit_check''))"
proof -
  let ?row = "audit_row actor requestID reason key change now n"
  have row: "\<lparr>ka_ID = next_audit_id (cpl_audit s), ka_Revision = n, ka_OccurredAt = now, ka_Actor = actor,
            ka_Action = kh_Action change,
            ka_InstallationID = (if kh_InstallationID change = Nil_uuid then None else Some (kh_InstallationID change)),
            ka_OrgID = (if kh_OrgID change = '''' then None else Some (kh_OrgID change)), ka_Reason = reason,
            ka_RequestID = (if requestID = '''' then None else Some requestID), ka_IdempotencyKeyID = key,
            ka_Before = kh_Before change, ka_After = kh_After change\<rparr> = ?row"
    using assms by (simp add: audit_row_def next_audit_id)
  have checks: "audit_checks ?row \<longleftrightarrow> reason_ok reason \<and> length key = 32"
    using assms by (auto simp: audit_checks_def audit_row_def reason_ok_def audit_ok_def)
  have "\<not> violates (\<lambda>a. Some (ka_ID a)) ?row (cpl_audit s)" "\<not> violates (\<lambda>a. Some (ka_Revision a)) ?row (cpl_audit s)"
    using audit_fresh [OF assms(1)] assms(2) by (fastforce simp: violates_def list_ex_iff audit_row_def)+
  then have "insert_row plugin_manager_audit_constraints ?row (cpl_audit s) = Inr (cpl_audit s @ [?row])"
    by (simp add: insert_row_Inr_iff plugin_manager_audit_constraints_def)
  then show ?thesis unfolding recordPluginManagerChange_def Let_def row checks by (simp add: extended_def assms(2))
qed

lemma extended_ok:
  assumes "audit_ok s"
  shows "audit_ok (extended (audit_row actor requestID reason key change now (cpl_revision s + 1)) s)"
proof -
  have "[1..cpl_revision s + 1] = [1..cpl_revision s] @ [cpl_revision s + 1]" if "0 \<le> cpl_revision s"
    using that upto_rec2 [of 1 "cpl_revision s + 1"] by simp
  then show ?thesis using assms by (auto simp: audit_ok_def audit_row_def)
qed

lemma audit_ok_cong: "cpl_revision s' = cpl_revision s \<Longrightarrow> cpl_audit s' = cpl_audit s \<Longrightarrow> audit_ok s' = audit_ok s"
  by (simp add: audit_ok_def)

text \<open>Some rows further, with nothing else of the log changed.\<close>

definition audited :: "control_plane \<Rightarrow> control_plane \<Rightarrow> bool" where
  "audited s s' \<longleftrightarrow> (\<exists>rows. cpl_audit s' = cpl_audit s @ rows \<and> cpl_revision s' = cpl_revision s + int (length rows))"

lemma audited_refl [simp]: "cpl_audit s' = cpl_audit s \<Longrightarrow> cpl_revision s' = cpl_revision s \<Longrightarrow> audited s s'"
  by (simp add: audited_def)

lemma audited_trans: "audited s s' \<Longrightarrow> audited s' s'' \<Longrightarrow> audited s s''"
  by (fastforce simp: audited_def)

lemma audited_extended [simp]: "audited s (extended row s)"
  by (auto simp: audited_def)

section \<open>Commands\<close>

text \<open>
  A command that succeeds has answered from the log, or it has made its change, if there was one to make, at the expected
  revision, and has left the response.
\<close>

definition command_row :: "manager \<Rightarrow> Command \<Rightarrow> string \<Rightarrow> command_payload \<Rightarrow> timestamp \<Rightarrow> command_response \<Rightarrow> plugin_manager_command_row" where
  "command_row mg c name payload now response =
     \<lparr>kr_idempotency_key = mg_sha256 mg (kc_IdempotencyKey c), kr_fingerprint = command_fingerprint mg name payload c,
      kr_actor = kc_Actor c, kr_response = response, kr_created_at = now\<rparr>"

definition replayed :: "manager \<Rightarrow> Command \<Rightarrow> string \<Rightarrow> command_payload \<Rightarrow> command_response \<Rightarrow> control_plane \<Rightarrow> bool" where
  "replayed mg c name payload response s \<longleftrightarrow>
     (\<exists>r. find_command (mg_sha256 mg (kc_IdempotencyKey c)) s = Some r \<and> kr_fingerprint r = command_fingerprint mg name payload c
        \<and> kr_response r = response)"

definition logged :: "manager \<Rightarrow> Command \<Rightarrow> timestamp \<Rightarrow> PluginManagerChange option \<Rightarrow> control_plane \<Rightarrow> control_plane \<Rightarrow> bool" where
  "logged mg c now ch s s' \<longleftrightarrow>
     (case ch of None \<Rightarrow> s' = s
      | Some change \<Rightarrow> s' = extended (audit_row (kc_Actor c) (kc_RequestID c) (TrimSpace (kc_Reason c))
          (mg_sha256 mg (kc_IdempotencyKey c)) change now (cpl_revision s + 1)) s)"

lemma execute_Inr:
  assumes "execute mg c name payload now mutate respond s = Inr (response, s')" "audit_ok s"
    and frame: "\<And>ch r s1. mutate s = Inr (ch, r, s1) \<Longrightarrow> cpl_revision s1 = cpl_revision s \<and> cpl_audit s1 = cpl_audit s"
  shows "replayed mg c name payload response s \<and> s' = s
    \<or> find_command (mg_sha256 mg (kc_IdempotencyKey c)) s = None \<and> kc_ExpectedRevision c = cpl_revision s
      \<and> (\<exists>ch r s1 s2. mutate s = Inr (ch, r, s1) \<and> logged mg c now ch s1 s2 \<and> respond r (cpl_revision s2) s2 = Inr response
           \<and> s' = s2\<lparr>cpl_commands := cpl_commands s2 @ [command_row mg c name payload now response]\<rparr>)"
proof (cases "find_command (mg_sha256 mg (kc_IdempotencyKey c)) s")
  case (Some r)
  then show ?thesis using assms(1)
    by (auto simp: execute_def ExecutePluginManagerCommand_def Let_def replayed_def split: option.splits)
next
  case None
  from assms(1) None obtain ch r s1 s2 where rev: "kc_ExpectedRevision c = cpl_revision s" and m: "mutate s = Inr (ch, r, s1)"
    and rec: "(case ch of None \<Rightarrow> Inr s1 | Some change \<Rightarrow> recordPluginManagerChange (cpl_revision s + 1) (kc_Actor c) (kc_RequestID c)
        (TrimSpace (kc_Reason c)) (mg_sha256 mg (kc_IdempotencyKey c)) change now s1) = Inr s2"
    and resp: "respond r (case ch of None \<Rightarrow> cpl_revision s | Some change \<Rightarrow> cpl_revision s + 1) s2 = Inr response"
    and s': "s' = s2\<lparr>cpl_commands := cpl_commands s2 @ [command_row mg c name payload now response]\<rparr>"
    unfolding execute_def ExecutePluginManagerCommand_def Let_def PluginManagerCommand.simps by (auto simp: command_row_def)
  note same = frame [OF m]
  have ok: "audit_ok s1" using audit_ok_cong [of s1 s] same assms(2) by simp
  have "logged mg c now ch s1 s2"
    using rec same by (cases ch) (auto simp: logged_def record_change [OF ok] split: if_splits)
  moreover have "respond r (cpl_revision s2) s2 = Inr response"
    using resp rec same by (cases ch) (auto simp: record_change [OF ok] split: if_splits)
  ultimately show ?thesis using None rev m s' by blast
qed

lemma logged_fields:
  assumes "logged mg c now ch s s'"
  shows "cpl_host s' = cpl_host s" "cpl_licences s' = cpl_licences s" "cpl_orgs s' = cpl_orgs s" "cpl_commands s' = cpl_commands s"
    "audited s s'" "audit_ok s \<Longrightarrow> audit_ok s'" "ch \<noteq> None \<Longrightarrow> cpl_revision s' = cpl_revision s + 1"
  using assms extended_ok by (auto simp: logged_def split: option.splits)

section \<open>Changes by Core\<close>

lemma system_change_Inr:
  assumes "audit_ok s1"
  shows "system_change mg action before org cause reason now (Inr s1) = Inr s' \<longleftrightarrow>
    (\<exists>change. installationChange action before org s1 = Inr change \<and> reason_ok reason \<and> length (mg_sha256 mg cause) = 32
       \<and> s' = extended (audit_row (mg_system mg) '''' reason (mg_sha256 mg cause) change now (cpl_revision s1 + 1)) s1)"
  by (auto simp: system_change_def RecordPluginManagerSystemChange_def record_change [OF assms] split: if_splits)

lemma system_change_write:
  "system_change mg action before org cause reason now w = Inr s' \<longleftrightarrow>
     (\<exists>s1. w = Inr s1 \<and> system_change mg action before org cause reason now (Inr s1) = Inr s')"
  by (cases w) (simp_all add: system_change_def)
section \<open>An example\<close>

text \<open>One organization, and one plugin that is active for it and, with the mode \<^verbatim>\<open>all\<close>, for every organization to come.\<close>

definition example_manager :: manager where
  "example_manager = \<lparr>mg_platform = example_platform, mg_adapter = example_adapter, mg_sha256 = (\<lambda>t. take 32 (t @ replicate 32 CHR ''0'')),
     mg_payload_digest = (\<lambda>p r reason. ''d''), mg_system = ''core''\<rparr>"

lemma example_sha: "\<forall>t. length (mg_sha256 example_manager t) = 32"
  by (auto simp: example_manager_def)

lemma example_manifest_ids: "mf_ID (example_manifest v) = ''com.acme''" "mf_Version (example_manifest v) = v"
  by (simp_all add: example_manifest_def)

definition example_package :: PluginPackage where
  "example_package = \<lparr>pp_ManifestSHA256 = example_package_digest, pp_PluginID = ''com.acme'', pp_Version = ''1.0.0'',
     pp_Manifest = example_manifest ''1.0.0'', pp_CreatedAt = 0, pp_CreatedBy = ''alice''\<rparr>"

definition example_row :: "string \<Rightarrow> installation_row" where
  "example_row mode =
     \<lparr>in_installation_uuid = ''i1'', in_plugin_id = ''com.acme'', in_package_sha256 = example_package_digest,
      in_target_package_sha256 = '''', in_state = ''active'', in_backend_url = ''https://acme'', in_ui_origin = '''',
      in_service_user_id = ''s1'', in_admission_checker_id = ''s2'', in_organization_mode = mode, in_default_timezone = ''UTC'',
      in_default_approval_policies = [], in_created_at = 0, in_created_by = ''alice'', in_updated_at = 0, in_updated_by = ''alice''\<rparr>"

definition example_enabled_row :: "string \<Rightarrow> enablement_row" where
  "example_enabled_row org =
     \<lparr>eb_plugin_id = ''com.acme'', eb_org_id = org, eb_installation_uuid = ''i1'', eb_state = ''enabled'',
      eb_timezone = ''UTC'', eb_approval_policies = [], eb_created_at = 0, eb_created_by = ''alice'', eb_updated_at = 0,
      eb_updated_by = ''alice''\<rparr>"

definition example_plane_host :: "string \<Rightarrow> host" where
  "example_plane_host mode = (empty_host (empty_db\<lparr>orgs := [''acme'']\<rparr>))\<lparr>plugin_packages := [example_package],
     plugin_installations := [example_row mode], plugin_enablements := [example_enabled_row ''acme''],
     plugin_registrations := map (\<lambda>r. \<lparr>rr_installation_uuid = ''i1'', rr_package_sha256 = example_package_digest, rr_registration = r\<rparr>)
       (registrations (example_manifest ''1.0.0'')),
     journal_states := [(''acme'', \<lparr>js_journaling = True, js_gap_cursor = 0\<rparr>)]\<rparr>"

definition example_org :: "string \<Rightarrow> uuid \<Rightarrow> Org" where
  "example_org i u = \<lparr>oz_Id = i, oz_Uuid = u, oz_CreatedAt = 0, oz_CreatedBy = ''alice'', oz_UpdatedAt = None, oz_Status = ''active'',
     oz_StatusMessage = None, oz_Source = ''public'', oz_Plan = ''custom''\<rparr>"

definition example_plane :: "string \<Rightarrow> control_plane" where
  "example_plane mode = \<lparr>cpl_host = example_plane_host mode,
     cpl_licences = \<lparr>lc_orgs = [\<lparr>og_id = ''acme'', og_uuid = ''o1''\<rparr>], lc_grants = [], lc_bindings = [], lc_snapshots = [],
       lc_revocations = [], lc_activations = [], lc_audit = [], lc_outbox = []\<rparr>,
     cpl_orgs = [example_org ''acme'' ''o1''], cpl_revision = 0, cpl_commands = [], cpl_audit = []\<rparr>"

lemma example_audit_ok: "audit_ok (example_plane mode)"
  by (simp add: audit_ok_def example_plane_def)

lemma example_plugins_ok:
  assumes "mode = ''selected'' \<or> mode = ''all''"
  shows "plugins_ok (cpl_host (example_plane mode))"
proof -
  have "manifestDigest example_package_digest" by code_simp
  then have "packages_ok (example_plane_host mode)"
    by (simp add: packages_ok_def example_plane_host_def example_package_def example_manifest_valid example_manifest_ids)
  moreover have "installation_checks (example_row mode)"
    using assms by (auto simp: installation_checks_def example_row_def served_state_def installation_states_def example_package_digest_def)
  then have "installations_ok (example_plane_host mode)"
    by (simp add: installations_ok_def row_ok_def example_plane_host_def package_known_def example_package_def keys_unique_def)
      (simp add: example_row_def)
  moreover have "enablements_ok (example_plane_host mode)"
    by (simp add: enablements_ok_def enablement_ok_def example_plane_host_def example_enabled_row_def example_row_def served_state_def)
  moreover have "registrations_ok (example_plane_host mode)"
    by (simp add: registrations_ok_def registered_def unique_registrations_def plugin_registrations_constraints_def keys_unique_def
        rows_of_def contributions_of_def manifest_of_def example_plane_host_def example_row_def served_state_def example_package_def
        example_registrations)
  ultimately show ?thesis by (simp add: plugins_ok_def example_plane_def)
qed

end
