(* ===== verification/ManagerCommands.thy ===== *)
theory ManagerCommands
  imports CommandLog
begin

text \<open>
  Histories of the Plugin Manager: any sequence of operator commands, of changes that Core makes on its own, of status
  reports and capability reconciliations, and of whatever else Core does to its other tables in between.
\<close>

section \<open>Commands\<close>

datatype operator_command =
    OpPush string Manifest
  | OpCreate uuid string string string
  | OpIdentity uuid string string
  | OpTransition uuid string
  | OpActivate uuid "PluginStatusObservation option"
  | OpUpgrade uuid string
  | OpEnablement uuid string string string "(string \<times> string) list"
  | OpRemove uuid string
  | OpMode uuid string string "(string \<times> string) list"
  | OpImport string

fun operate :: "manager \<Rightarrow> Command \<Rightarrow> timestamp \<Rightarrow> operator_command \<Rightarrow> control_plane \<Rightarrow> (command_response \<times> control_plane) result" where
  "operate mg c now (OpPush digest m) s = PushPackage mg c digest (Some m) now s"
| "operate mg c now (OpCreate u digest backend uiOrigin) s = CreateInstallation mg c u digest backend uiOrigin now s"
| "operate mg c now (OpIdentity u serviceUser checker) s = SetIdentity mg c u serviceUser checker now s"
| "operate mg c now (OpTransition u action) s = Transition mg c u action now s"
| "operate mg c now (OpActivate u observed) s = activate_command mg c u observed now s"
| "operate mg c now (OpUpgrade u digest) s = Upgrade mg c u digest now s"
| "operate mg c now (OpEnablement u org state timezone policies) s = PutEnablement mg c u org state timezone policies now s"
| "operate mg c now (OpRemove u org) s = RemoveEnablement mg c u org now s"
| "operate mg c now (OpMode u mode timezone policies) s = SetOrganizationMode mg c u mode timezone policies now s"
| "operate mg c now (OpImport bundle_bytes) s = ImportEntitlementBundle mg c bundle_bytes now s"

text \<open>The change that a command makes when it does not answer from the log, and what identifies it there.\<close>

definition mutated :: "(PluginManagerChange option \<times> 'r \<times> control_plane) result \<Rightarrow> (PluginManagerChange option \<times> control_plane) result" where
  "mutated m = try_then m (\<lambda>(ch, r, s). Inr (ch, s))"

lemma mutated_Inr: "mutated m = Inr (ch, s) \<longleftrightarrow> (\<exists>r. m = Inr (ch, r, s))"
  by (auto simp: mutated_def)

fun change_of :: "manager \<Rightarrow> uuid \<Rightarrow> timestamp \<Rightarrow> operator_command \<Rightarrow> control_plane \<Rightarrow> (PluginManagerChange option \<times> control_plane) result" where
  "change_of mg actor now (OpPush digest m) s = mutated (push_package_change digest m actor now s)"
| "change_of mg actor now (OpCreate u digest backend uiOrigin) s = mutated (create_installation_change mg u digest backend uiOrigin actor now s)"
| "change_of mg actor now (OpIdentity u serviceUser checker) s = mutated (identity_change mg u serviceUser checker actor now s)"
| "change_of mg actor now (OpTransition u action) s = mutated (transition_change action u actor now s)"
| "change_of mg actor now (OpActivate u observed) s = mutated (activate_change mg u observed actor now s)"
| "change_of mg actor now (OpUpgrade u digest) s = mutated (upgrade_change mg u digest actor now s)"
| "change_of mg actor now (OpEnablement u org state timezone policies) s =
     mutated (enablement_change mg u org state timezone policies actor now s)"
| "change_of mg actor now (OpRemove u org) s = mutated (remove_enablement_change u org s)"
| "change_of mg actor now (OpMode u mode timezone policies) s = mutated (organization_mode_change mg u mode timezone policies actor now s)"
| "change_of mg actor now (OpImport bundle_bytes) s = mutated (import_bundle_change mg bundle_bytes actor now s)"

fun command_name :: "operator_command \<Rightarrow> string" where
  "command_name (OpPush digest m) = ''plugin_package.push''"
| "command_name (OpCreate u digest backend uiOrigin) = ''plugin_installation.create''"
| "command_name (OpIdentity u serviceUser checker) = ''plugin_installation.identity''"
| "command_name (OpTransition u action) = ''plugin_installation.'' @ action"
| "command_name (OpActivate u observed) = ''plugin_installation.'' @ ActionActivate"
| "command_name (OpUpgrade u digest) = ''plugin_installation.upgrade''"
| "command_name (OpEnablement u org state timezone policies) = ''plugin_enablement.put''"
| "command_name (OpRemove u org) = ''plugin_enablement.remove''"
| "command_name (OpMode u mode timezone policies) = ''plugin_installation.organization_mode''"
| "command_name (OpImport bundle_bytes) = ''plugin_entitlement_bundle.import''"

fun payload_of :: "manager \<Rightarrow> operator_command \<Rightarrow> command_payload" where
  "payload_of mg (OpPush digest m) = PackagePayload digest m"
| "payload_of mg (OpCreate u digest backend uiOrigin) = CreatePayload digest backend uiOrigin"
| "payload_of mg (OpIdentity u serviceUser checker) = IdentityPayload u serviceUser checker"
| "payload_of mg (OpTransition u action) = InstallationPayload u"
| "payload_of mg (OpActivate u observed) = InstallationPayload u"
| "payload_of mg (OpUpgrade u digest) = UpgradePayload u digest"
| "payload_of mg (OpEnablement u org state timezone policies) = EnablementPayload u org state timezone policies"
| "payload_of mg (OpRemove u org) = EnablementPayload u org '''' '''' []"
| "payload_of mg (OpMode u mode timezone policies) = OrganizationModePayload u mode timezone policies"
| "payload_of mg (OpImport bundle_bytes) = BundlePayload (mg_sha256 mg bundle_bytes)"

text \<open>A command changes nothing of the log itself, nor the organizations.\<close>

definition host_only :: "control_plane \<Rightarrow> control_plane \<Rightarrow> bool" where
  "host_only s s' \<longleftrightarrow> (\<exists>h l. s' = s\<lparr>cpl_host := h, cpl_licences := l\<rparr>)"

lemma host_only_refl [simp]: "host_only s s"
  unfolding host_only_def by (intro exI [of _ "cpl_host s"] exI [of _ "cpl_licences s"]) simp

lemma host_only_host [simp]: "host_only s (s\<lparr>cpl_host := h\<rparr>)"
  unfolding host_only_def by (intro exI [of _ h] exI [of _ "cpl_licences s"]) simp

lemma host_only_licences [simp]: "host_only s (s\<lparr>cpl_licences := l\<rparr>)"
  unfolding host_only_def by (intro exI [of _ "cpl_host s"] exI [of _ l]) simp

lemma host_only_fields:
  assumes "host_only s s'"
  shows "cpl_orgs s' = cpl_orgs s" "cpl_revision s' = cpl_revision s" "cpl_commands s' = cpl_commands s" "cpl_audit s' = cpl_audit s"
  using assms by (auto simp: host_only_def)

lemma updates_host_only: "updates b actor now s s' \<Longrightarrow> host_only s s'"
  by (auto simp: updates_def)

lemma import_Inr:
  assumes "import_bundle_change mg w actor now s = Inr (ch, report, s')"
  shows "\<exists>l. ImportBundle (Some (mg_adapter mg)) (mg_sha256 mg) w actor now (cpl_host s) (cpl_licences s) = Inr (report, l)
    \<and> s' = s\<lparr>cpl_licences := l\<rparr>"
  using assms by (auto simp: import_bundle_change_def)

lemma change_host_only:
  assumes "change_of mg actor now op s = Inr (ch, s')"
  shows "host_only s s'"
proof (cases op)
  case (OpPush digest m)
  then show ?thesis using assms by (auto simp: mutated_Inr simp del: split_paired_Ex dest!: push_Inr)
next
  case (OpCreate u digest backend uiOrigin)
  then obtain r where "create_installation_change mg u digest backend uiOrigin actor now s = Inr (ch, r, s')"
    using assms by (auto simp: mutated_Inr)
  from create_change_Inr [OF this] show ?thesis by auto
next
  case (OpIdentity u serviceUser checker)
  then show ?thesis using assms updates_host_only by (auto simp: mutated_Inr dest!: identity_Inr)
next
  case (OpTransition u action)
  then show ?thesis using assms by (auto simp: mutated_Inr dest!: transition_change_Inr)
next
  case (OpActivate u observed)
  then show ?thesis using assms by (auto simp: mutated_Inr dest!: activate_Inr)
next
  case (OpUpgrade u digest)
  then show ?thesis using assms updates_host_only by (auto simp: mutated_Inr dest!: upgrade_Inr)
next
  case (OpEnablement u org state timezone policies)
  then show ?thesis using assms by (auto simp: mutated_Inr dest!: enablement_Inr)
next
  case (OpRemove u org)
  then show ?thesis using assms by (auto simp: mutated_Inr dest!: remove_Inr)
next
  case (OpMode u mode timezone policies)
  then show ?thesis using assms by (auto simp: mutated_Inr dest!: mode_Inr)
next
  case (OpImport bundle_bytes)
  then show ?thesis using assms by (auto simp: mutated_Inr dest!: import_Inr)
qed

text \<open>
  A command that succeeds either answers from the log, or its change is made and logged with its response.
\<close>

definition committed ::
    "manager \<Rightarrow> Command \<Rightarrow> string \<Rightarrow> command_payload \<Rightarrow> timestamp \<Rightarrow> command_response
      \<Rightarrow> (PluginManagerChange option \<times> control_plane) result \<Rightarrow> control_plane \<Rightarrow> control_plane \<Rightarrow> bool" where
  "committed mg c name payload now response change s s' \<longleftrightarrow>
     replayed mg c name payload response s \<and> s' = s
     \<or> find_command (mg_sha256 mg (kc_IdempotencyKey c)) s = None \<and> kc_ExpectedRevision c = cpl_revision s
       \<and> (\<exists>ch s1 s2. change = Inr (ch, s1) \<and> logged mg c now ch s1 s2
            \<and> s' = s2\<lparr>cpl_commands := cpl_commands s2 @ [command_row mg c name payload now response]\<rparr>)"

lemma execute_committed:
  assumes "execute mg c name payload now mutate respond s = Inr (response, s')" "audit_ok s"
    and "\<And>ch s1. mutated (mutate s) = Inr (ch, s1) \<Longrightarrow> host_only s s1"
  shows "committed mg c name payload now response (mutated (mutate s)) s s'"
proof -
  have frame: "cpl_revision s1 = cpl_revision s \<and> cpl_audit s1 = cpl_audit s" if "mutate s = Inr (ch, r, s1)" for ch r s1
    using assms(3) [of ch s1] that host_only_fields by (auto simp: mutated_Inr)
  have "replayed mg c name payload response s \<and> s' = s
    \<or> find_command (mg_sha256 mg (kc_IdempotencyKey c)) s = None \<and> kc_ExpectedRevision c = cpl_revision s
      \<and> (\<exists>ch r s1 s2. mutate s = Inr (ch, r, s1) \<and> logged mg c now ch s1 s2 \<and> respond r (cpl_revision s2) s2 = Inr response
           \<and> s' = s2\<lparr>cpl_commands := cpl_commands s2 @ [command_row mg c name payload now response]\<rparr>)"
    by (rule execute_Inr [OF assms(1,2)]) (rule frame)
  then show ?thesis unfolding committed_def mutated_Inr by blast
qed

lemma operate_Inr:
  assumes "operate mg c now op s = Inr (response, s')" "audit_ok s"
  shows "committed mg c (command_name op) (payload_of mg op) now response (change_of mg (kc_Actor c) now op s) s s'"
proof -
  note frame = change_host_only [where mg = mg and actor = "kc_Actor c" and now = now and s = s]
  show ?thesis
  proof (cases op)
    case (OpPush digest m)
    have "execute mg c ''plugin_package.push'' (PackagePayload digest m) now (push_package_change digest m (kc_Actor c) now)
        (\<lambda>r revision s'. try_then (GetPluginPackage digest (cpl_host s')) (\<lambda>p. Inr (PackageResponse p revision))) s = Inr (response, s')"
      using assms(1) OpPush by (simp add: PushPackage_def)
    from execute_committed [OF this assms(2)] show ?thesis using frame [of op] OpPush by simp
  next
    case (OpCreate u digest backend uiOrigin)
    show ?thesis using execute_committed [OF assms(1) [unfolded OpCreate operate.simps CreateInstallation_def] assms(2)] frame [of op] OpCreate by simp
  next
    case (OpIdentity u serviceUser checker)
    show ?thesis using execute_committed [OF assms(1) [unfolded OpIdentity operate.simps SetIdentity_def] assms(2)] frame [of op] OpIdentity by simp
  next
    case (OpTransition u action)
    show ?thesis using execute_committed [OF assms(1) [unfolded OpTransition operate.simps Transition_def] assms(2)] frame [of op] OpTransition by simp
  next
    case (OpActivate u observed)
    show ?thesis using execute_committed [OF assms(1) [unfolded OpActivate operate.simps activate_command_def] assms(2)] frame [of op] OpActivate by simp
  next
    case (OpUpgrade u digest)
    show ?thesis using execute_committed [OF assms(1) [unfolded OpUpgrade operate.simps Upgrade_def] assms(2)] frame [of op] OpUpgrade by simp
  next
    case (OpEnablement u org state timezone policies)
    show ?thesis using execute_committed [OF assms(1) [unfolded OpEnablement operate.simps PutEnablement_def] assms(2)] frame [of op] OpEnablement by simp
  next
    case (OpRemove u org)
    show ?thesis using execute_committed [OF assms(1) [unfolded OpRemove operate.simps RemoveEnablement_def] assms(2)] frame [of op] OpRemove by simp
  next
    case (OpMode u mode timezone policies)
    show ?thesis using execute_committed [OF assms(1) [unfolded OpMode operate.simps SetOrganizationMode_def] assms(2)] frame [of op] OpMode by simp
  next
    case (OpImport bundle_bytes)
    show ?thesis using execute_committed [OF assms(1) [unfolded OpImport operate.simps ImportEntitlementBundle_def] assms(2)] frame [of op] OpImport by simp
  qed
qed

lemma push_valid: "operate mg c now (OpPush digest m) s = Inr x \<Longrightarrow> Validate m = None \<and> manifestDigest digest"
  by (simp add: PushPackage_def)
section \<open>What a command does to the tables\<close>

lemma put_fields:
  assumes "PutPluginEnablement b e actor now h = Inr h'"
  shows "plugin_packages h' = plugin_packages h" "plugin_installations h' = plugin_installations h"
    "plugin_registrations h' = plugin_registrations h" "core h' = core h"
  using states_only_fields [OF put_Inr(1) [OF assms]] by simp_all

lemma put_defaults_fields:
  assumes "put_defaults b actor now os h = Inr h'"
  shows "plugin_packages h' = plugin_packages h \<and> plugin_installations h' = plugin_installations h
    \<and> plugin_registrations h' = plugin_registrations h \<and> core h' = core h"
  using assms unfolding put_defaults_def
proof (induction os arbitrary: h)
  case (Cons org os)
  then show ?case using put_fields by (fastforce split: sum.splits)
qed simp

lemma put_defaults_ok:
  assumes "put_defaults b actor now os h = Inr h'" "plugins_ok h"
    and "find_installation (pi_InstallationID b) h = Some i" "in_plugin_id i = pi_PluginID b" "os \<noteq> [] \<longrightarrow> served_state (in_state i)"
  shows "plugins_ok h'"
  using assms unfolding put_defaults_def
proof (induction os arbitrary: h)
  case (Cons org os)
  then obtain h1 where h1: "PutPluginEnablement b (defaultEnablement b org) actor now h = Inr h1"
    "try_fold (\<lambda>org. PutPluginEnablement b (defaultEnablement b org) actor now) os h1 = Inr h'" by (auto split: sum.splits)
  have "plugins_ok h1" using put_ok [OF Cons.prems(2) h1(1)] Cons.prems(3-5) by simp
  moreover have "find_installation (pi_InstallationID b) h1 = Some i"
    using Cons.prems(3) put_fields(2) [OF h1(1)] by (simp add: find_installation_def)
  ultimately show ?case using Cons.IH [OF h1(2)] Cons.prems(4,5) by simp
qed simp

lemma row_of: "plugins_ok h \<Longrightarrow> find_installation u h = Some i \<Longrightarrow> row_ok h i \<and> in_installation_uuid i = u"
  using find_installation_Some by (auto simp: plugins_ok_def installations_ok_def)

text \<open>
  The updates of an installation: what the commands make of its row, one per way in which a row moves. \<open>later_package\<close> is
  the rule of upgrades.
\<close>

definition later_package :: "host \<Rightarrow> string \<Rightarrow> string \<Rightarrow> bool" where
  "later_package h old new \<longleftrightarrow>
     (case (manifest_of h old, manifest_of h new) of
        (Some m, Some m') \<Rightarrow>
          (case (ParseVersion (mf_Version m), ParseVersion (mf_Version m')) of
             (Inr v, Inr v') \<Rightarrow> Version_Compare v' v > 0 \<and> mf_MigrationGeneration m \<le> mf_MigrationGeneration m'
           | _ \<Rightarrow> False)
      | _ \<Rightarrow> False)"

definition state_moves :: "string \<Rightarrow> string \<Rightarrow> bool" where
  "state_moves t t' \<longleftrightarrow> t' = t \<or> served_state t \<and> served_state t' \<or> t = ''installed'' \<and> t' = ''active''
     \<or> t \<noteq> ''uninstalled'' \<and> t \<noteq> ''purged'' \<and> t' = ''uninstalled'' \<or> t = ''uninstalled'' \<and> (t' = ''installed'' \<or> t' = ''purged'')"

definition row_moves :: "host \<Rightarrow> installation_row \<Rightarrow> installation_row \<Rightarrow> bool" where
  "row_moves h i i' \<longleftrightarrow>
     in_installation_uuid i' = in_installation_uuid i \<and> in_plugin_id i' = in_plugin_id i
     \<and> in_backend_url i' = in_backend_url i \<and> in_ui_origin i' = in_ui_origin i
     \<and> state_moves (in_state i) (in_state i') \<and> (in_state i = ''purged'' \<longrightarrow> i' = i)
     \<and> (in_state i' = ''uninstalled'' \<and> in_state i \<noteq> ''uninstalled'' \<longrightarrow> Settled (UnsettledPluginWork (in_plugin_id i) h))
     \<and> ((in_service_user_id i' = in_service_user_id i \<and> in_admission_checker_id i' = in_admission_checker_id i)
        \<or> in_state i = ''installed'' \<and> in_state i' = ''installed'')
     \<and> (in_package_sha256 i' = in_package_sha256 i
           \<and> (in_target_package_sha256 i' = in_target_package_sha256 i \<or> in_target_package_sha256 i' = ''''
              \<or> later_package h (in_package_sha256 i) (in_target_package_sha256 i'))
        \<or> in_package_sha256 i' = in_target_package_sha256 i \<and> in_target_package_sha256 i \<noteq> '''' \<and> in_target_package_sha256 i' = ''''
          \<and> served_state (in_state i'))"

lemma row_moves_refl: "row_moves h i i"
  by (simp add: row_moves_def state_moves_def)

definition row_update :: "uuid \<Rightarrow> host \<Rightarrow> host \<Rightarrow> bool" where
  "row_update u h h' \<longleftrightarrow> (\<exists>i i'. find_installation u h = Some i \<and> row_moves h i i'
     \<and> plugin_installations h' = upd_where (\<lambda>j. in_installation_uuid j = u) (\<lambda>_. i') (plugin_installations h)
     \<and> plugin_packages h' = plugin_packages h)"

lemma row_updateI:
  assumes "find_installation u h = Some i" "pi_InstallationID b = u" "UpdatePluginInstallation b actor now h1 = Inr h'"
    "plugin_installations h1 = plugin_installations h" "plugin_packages h1 = plugin_packages h"
    "row_moves h i (updated_installation_row b actor now i)"
  shows "row_update u h h'"
proof -
  have "find_installation u h1 = Some i" using assms(1,4) by (simp add: find_installation_def)
  from update_installation_Inr(1) [OF assms(3), unfolded assms(2), OF this] have "h' = h1\<lparr>plugin_installations :=
    upd_where (\<lambda>j. in_installation_uuid j = u) (\<lambda>_. updated_installation_row b actor now i) (plugin_installations h)\<rparr>"
    by (simp add: assms(4))
  then show ?thesis using assms by (auto simp: row_update_def)
qed

lemmas updated_row = updated_installation_row_def

lemma identity_ok:
  assumes "identity_change mg u serviceUser checker actor now s = Inr (ch, r, s')" "plugins_ok (cpl_host s)"
  shows "plugins_ok (cpl_host s') \<and> (s' = s \<or> row_update u (cpl_host s) (cpl_host s'))"
proof (cases "ch = None \<and> s' = s")
  case False
  from identity_Inr [OF assms(1)] False obtain i where i: "find_installation u (cpl_host s) = Some i" "in_state i = ''installed''"
    and up: "updates ((installation_of (cpl_host s) i)\<lparr>pi_ServiceUserID := serviceUser, pi_AdmissionCheckerID := checker\<rparr>) actor now s s'"
    by blast
  then obtain h where h: "UpdatePluginInstallation ((installation_of (cpl_host s) i)\<lparr>pi_ServiceUserID := serviceUser,
      pi_AdmissionCheckerID := checker\<rparr>) actor now (cpl_host s) = Inr h" "s' = s\<lparr>cpl_host := h\<rparr>" by (auto simp: updates_def)
  have u: "in_installation_uuid i = u" using find_installation_Some [OF i(1)] by simp
  have "row_update u (cpl_host s) h"
    by (rule row_updateI [OF i(1) _ h(1)]) (simp_all add: u i(2) row_moves_def state_moves_def updated_row)
  then show ?thesis using update_served_ok [OF assms(2) i(1) _ h(1)] i(2) h(2) u by simp
qed (use assms in simp)

lemma transition_ok:
  assumes "transition_change action u actor now s = Inr (ch, r, s')" "plugins_ok (cpl_host s)"
  shows "plugins_ok (cpl_host s') \<and> (s' = s \<or> row_update u (cpl_host s) (cpl_host s'))"
proof (cases "ch = None \<and> s' = s")
  case False
  from transition_change_Inr [OF assms(1)] False obtain i b h1 h where i: "find_installation u (cpl_host s) = Some i"
    and up: "UpdatePluginInstallation b actor now h1 = Inr h" "s' = s\<lparr>cpl_host := h\<rparr>"
    and how: "(\<exists>target. h1 = cpl_host s \<and> b = (installation_of (cpl_host s) i)\<lparr>pi_State := target\<rparr>
          \<and> (served_state (in_state i) \<and> served_state target
             \<or> in_state i = ''uninstalled'' \<and> (target = ''installed'' \<or> target = ''purged'')))
       \<or> in_state i \<noteq> ''uninstalled'' \<and> in_state i \<noteq> ''purged'' \<and> uninstall (installation_of (cpl_host s) i) (cpl_host s) = Inr (b, h1)"
    by blast
  have row: "row_ok (cpl_host s) i" "in_installation_uuid i = u" using row_of [OF assms(2) i] by auto
  from how show ?thesis
  proof
    assume "\<exists>target. h1 = cpl_host s \<and> b = (installation_of (cpl_host s) i)\<lparr>pi_State := target\<rparr>
          \<and> (served_state (in_state i) \<and> served_state target
             \<or> in_state i = ''uninstalled'' \<and> (target = ''installed'' \<or> target = ''purged''))"
    then obtain target where b: "h1 = cpl_host s" "b = (installation_of (cpl_host s) i)\<lparr>pi_State := target\<rparr>"
      and st: "served_state (in_state i) \<and> served_state target
        \<or> in_state i = ''uninstalled'' \<and> (target = ''installed'' \<or> target = ''purged'')" by blast
    have "row_update u (cpl_host s) h"
      by (rule row_updateI [OF i _ up(1)]) (use st in \<open>auto simp: b row row_moves_def state_moves_def updated_row served_state_def\<close>)
    moreover have "in_state i = ''uninstalled'' \<longrightarrow> in_target_package_sha256 i = ''''"
      using row(1) by (auto simp: row_ok_def served_state_def)
    then have "plugins_ok h" using update_served_ok [OF assms(2) i _ up(1) [unfolded b(1)]] row st
      by (auto simp: b(2) row_ok_def served_state_def)
    ultimately show ?thesis using up(2) by simp
  next
    assume un: "in_state i \<noteq> ''uninstalled'' \<and> in_state i \<noteq> ''purged'' \<and> uninstall (installation_of (cpl_host s) i) (cpl_host s) = Inr (b, h1)"
    then have live: "in_state i \<noteq> ''uninstalled''" "in_state i \<noteq> ''purged''"
      and uninst: "uninstall (installation_of (cpl_host s) i) (cpl_host s) = Inr (b, h1)" by blast+
    note un' = uninstall_Inr [OF assms(2) i live(2) uninst]
    have fields: "plugin_installations h1 = plugin_installations (cpl_host s)" "plugin_packages h1 = plugin_packages (cpl_host s)"
      using states_only_fields [OF un'(3)] by simp_all
    have "row_moves (cpl_host s) i (updated_installation_row b actor now i)"
      using live un'(1) by (simp add: un'(2) row_moves_def state_moves_def updated_row)
    moreover have "pi_InstallationID b = u" using row by (simp add: un'(2))
    ultimately have "row_update u (cpl_host s) h" using row_updateI [OF i _ up(1) fields] by blast
    then show ?thesis using uninstall_ok [OF assms(2) i live(2) uninst up(1)] up(2) by simp
  qed
qed (use assms in simp)

lemma activation_ok:
  assumes "activate_change mg u observed actor now s = Inr (ch, r, s')" "plugins_ok (cpl_host s)"
  shows "plugins_ok (cpl_host s') \<and> (s' = s \<or> row_update u (cpl_host s) (cpl_host s'))"
proof (cases "ch = None \<and> s' = s")
  case False
  from activate_Inr [OF assms(1)] False obtain i b m h1 h where i: "find_installation u (cpl_host s) = Some i"
    and b: "b = (installation_of (cpl_host s) i)\<lparr>pi_State := (if in_state i = ''installed'' then ''active'' else in_state i),
        pi_PackageSHA256 := (if in_target_package_sha256 i = '''' then in_package_sha256 i else in_target_package_sha256 i),
        pi_TargetPackageSHA256 := ''''\<rparr>" and m: "manifest_of (cpl_host s) (pi_PackageSHA256 b) = Some m"
    and w: "ReplacePluginRegistrations b (registrations m) (cpl_host s) = Inr h1" "UpdatePluginInstallation b actor now h1 = Inr h"
      "s' = s\<lparr>cpl_host := h\<rparr>"
    and st: "in_state i = ''installed'' \<or> served_state (in_state i) \<and> in_target_package_sha256 i \<noteq> ''''" by blast
  have u: "in_installation_uuid i = u" using find_installation_Some [OF i] by simp
  have bu: "pi_InstallationID b = u" "served_state (pi_State b)" using u st by (auto simp: b served_state_def)
  have regs: "unique_registrations (plugin_registrations (cpl_host s))" using assms(2) by (simp add: plugins_ok_def registrations_ok_def)
  have fields: "plugin_installations h1 = plugin_installations (cpl_host s)" "plugin_packages h1 = plugin_packages (cpl_host s)"
    using states_only_fields [OF replace_Inr(1) [OF w(1) regs]] by simp_all
  have "row_moves (cpl_host s) i (updated_installation_row b actor now i)"
  proof (cases "in_state i = ''installed''")
    case True
    then show ?thesis by (simp add: b row_moves_def state_moves_def updated_row served_state_def)
  next
    case False
    then have "served_state (in_state i)" "in_target_package_sha256 i \<noteq> ''''" "in_state i \<noteq> ''purged''" using st served_not_purged by auto
    then show ?thesis using False by (simp add: b row_moves_def state_moves_def updated_row)
  qed
  then have "row_update u (cpl_host s) h" by (rule row_updateI [OF i bu(1) w(2) fields])
  then show ?thesis using activate_ok [OF assms(2) i bu m w(1,2)] w(3) by simp
qed (use assms in simp)
lemma validateUpgrade_later:
  assumes "validateUpgrade mg b served digest s = Inr ()" "manifest_of (cpl_host s) old = Some served"
  shows "later_package (cpl_host s) old digest" "validateServed mg (b\<lparr>pi_PackageSHA256 := digest\<rparr>) (the (manifest_of (cpl_host s) digest)) (Inr ()) = Inr ()"
proof -
  from assms(1) obtain p v v' where p: "GetPluginPackage digest (cpl_host s) = Inr p" and v: "parse_version (mf_Version served) = Inr v"
    "parse_version (mf_Version (pp_Manifest p)) = Inr v'" "\<not> Version_Compare v' v \<le> 0"
    "\<not> mf_MigrationGeneration (pp_Manifest p) < mf_MigrationGeneration served"
    and ok: "validateServed mg (b\<lparr>pi_PackageSHA256 := digest\<rparr>) (pp_Manifest p) (Inr ()) = Inr ()"
    unfolding validateUpgrade_def try_then_Inr_iff fail_if_Inr_iff by blast
  have m: "manifest_of (cpl_host s) digest = Some (pp_Manifest p)" using p by (auto simp: GetPluginPackage_def manifest_of_def)
  then show "later_package (cpl_host s) old digest" using v assms(2) by (auto simp: later_package_def parse_version_def split: sum.splits)
  show "validateServed mg (b\<lparr>pi_PackageSHA256 := digest\<rparr>) (the (manifest_of (cpl_host s) digest)) (Inr ()) = Inr ()" using ok m by simp
qed

lemma upgrade_ok:
  assumes "upgrade_change mg u digest actor now s = Inr (ch, r, s')" "plugins_ok (cpl_host s)"
  shows "plugins_ok (cpl_host s') \<and> (s' = s \<or> row_update u (cpl_host s) (cpl_host s'))"
proof (cases "ch = None \<and> s' = s")
  case False
  from upgrade_Inr [OF assms(1)] False obtain i m t where i: "find_installation u (cpl_host s) = Some i"
    and st: "in_state i = ''installed'' \<or> served_state (in_state i)" and m: "manifest_of (cpl_host s) (in_package_sha256 i) = Some m"
    and t: "t = '''' \<or> t = digest \<and> validateUpgrade mg (installation_of (cpl_host s) i) m digest s = Inr ()"
    and up: "updates ((installation_of (cpl_host s) i)\<lparr>pi_TargetPackageSHA256 := t\<rparr>) actor now s s'" by blast
  then obtain h where h: "UpdatePluginInstallation ((installation_of (cpl_host s) i)\<lparr>pi_TargetPackageSHA256 := t\<rparr>) actor now (cpl_host s) = Inr h"
    "s' = s\<lparr>cpl_host := h\<rparr>" by (auto simp: updates_def)
  have u: "in_installation_uuid i = u" using find_installation_Some [OF i] by simp
  have live: "in_state i \<noteq> ''purged''" using st served_not_purged by auto
  have "t = '''' \<or> later_package (cpl_host s) (in_package_sha256 i) t" using t validateUpgrade_later(1) m by blast
  then have "row_moves (cpl_host s) i (updated_installation_row ((installation_of (cpl_host s) i)\<lparr>pi_TargetPackageSHA256 := t\<rparr>) actor now i)"
    using live by (auto simp: row_moves_def state_moves_def updated_row)
  then have "row_update u (cpl_host s) h" using row_updateI [OF i _ h(1)] u by simp
  then show ?thesis using update_served_ok [OF assms(2) i _ h(1)] st h(2) u by simp
qed (use assms in simp)

lemma row_update_cong:
  "row_update u h h1 \<Longrightarrow> plugin_installations h' = plugin_installations h1 \<Longrightarrow> plugin_packages h' = plugin_packages h1 \<Longrightarrow> row_update u h h'"
  by (auto simp: row_update_def)

lemma mode_ok:
  assumes change: "organization_mode_change mg u mode timezone policies actor now s = Inr (ch, r, s')" and ok: "plugins_ok (cpl_host s)"
  shows "plugins_ok (cpl_host s') \<and> (s' = s \<or> row_update u (cpl_host s) (cpl_host s'))"
proof (cases "ch = None \<and> s' = s")
  case False
  define os where "os i = (if mode = ''all'' then PluginOrganizationsWithoutEnablement (active_organizations s) (in_plugin_id i) (cpl_host s)
    else [])" for i :: installation_row
  from mode_Inr [OF change] False
  obtain i zone b h1 h where i: "find_installation u (cpl_host s) = Some i" and st: "mode = ''all'' \<longrightarrow> served_state (in_state i)"
    and live: "in_state i \<noteq> ''purged''"
    and b: "b = (installation_of (cpl_host s) i)\<lparr>pi_OrganizationMode := mode, pi_DefaultTimezone := zone, pi_DefaultApprovalPolicies := policies\<rparr>"
    and up: "UpdatePluginInstallation b actor now (cpl_host s) = Inr h1" and put: "put_defaults b actor now (os i) h1 = Inr h"
    and s': "s' = s\<lparr>cpl_host := h\<rparr>"
    unfolding os_def by blast
  have row: "row_ok (cpl_host s) i" "in_installation_uuid i = u" using row_of [OF ok i] by auto
  have bu: "pi_InstallationID b = u" by (simp add: b row(2))
  have ok1: "plugins_ok h1" using update_served_ok [OF ok i bu up] row by (simp add: b row_ok_def)
  have "row_moves (cpl_host s) i (updated_installation_row b actor now i)"
    using live by (simp add: b row_moves_def state_moves_def updated_row)
  then have ru: "row_update u (cpl_host s) h1" by (rule row_updateI [OF i bu up refl refl])
  have "find_installation u h1 = Some (updated_installation_row b actor now i)"
    using update_installation_Inr(1) [OF up [folded s'], unfolded bu, OF i] i row(2)
    by (simp add: find_installation_def find_upd_where updated_row)
  then have "plugins_ok h" using put_defaults_ok [OF put ok1] row st by (simp add: b updated_row os_def)
  moreover have "row_update u (cpl_host s) h" using row_update_cong [OF ru] put_defaults_fields [OF put] by blast
  ultimately show ?thesis by (simp add: s')
qed (use assms in simp)

lemma enablement_change_ok:
  assumes "enablement_change mg u org state timezone policies actor now s = Inr (ch, r, s')" "plugins_ok (cpl_host s)"
  shows "plugins_ok (cpl_host s') \<and> plugin_installations (cpl_host s') = plugin_installations (cpl_host s)
    \<and> plugin_packages (cpl_host s') = plugin_packages (cpl_host s)"
proof (cases "ch = None \<and> s' = s")
  case False
  from enablement_Inr [OF assms(1)] False obtain i zone h where i: "find_installation u (cpl_host s) = Some i" "served_state (in_state i)"
    and put: "PutPluginEnablement (installation_of (cpl_host s) i) (enablement_for org state zone policies) actor now (cpl_host s) = Inr h"
    and s': "s' = s\<lparr>cpl_host := h\<rparr>" by blast
  show ?thesis using put_ok [OF assms(2) put] i find_installation_Some [OF i(1)] put_fields [OF put] s' by simp
qed (use assms in simp)

lemma remove_ok:
  assumes "remove_enablement_change u org s = Inr (ch, r, s')" "plugins_ok (cpl_host s)"
  shows "plugins_ok (cpl_host s') \<and> plugin_installations (cpl_host s') = plugin_installations (cpl_host s)
    \<and> plugin_packages (cpl_host s') = plugin_packages (cpl_host s)"
  using remove_Inr [OF assms(1)] assms(2) delete_ok states_only_fields [OF delete_states] by auto

text \<open>No command touches the tables of Core but those of plugins.\<close>

lemma update_core: "UpdatePluginInstallation b actor now h = Inr h' \<Longrightarrow> core h' = core h"
  by (auto simp: UpdatePluginInstallation_def Let_def split: option.splits)

lemma replace_core:
  "ReplacePluginRegistrations b regs h = Inr h' \<Longrightarrow> unique_registrations (plugin_registrations h) \<Longrightarrow> core h' = core h"
  using states_only_fields(7) [OF replace_Inr(1)] by simp

lemma transition_core:
  assumes "transition_change action u actor now s = Inr (ch, r, s')" "plugins_ok (cpl_host s)"
  shows "core (cpl_host s') = core (cpl_host s)"
proof (cases "ch = None \<and> s' = s")
  case False
  from transition_change_Inr [OF assms(1)] False obtain i b h1 h where i: "find_installation u (cpl_host s) = Some i"
    and up: "UpdatePluginInstallation b actor now h1 = Inr h" "s' = s\<lparr>cpl_host := h\<rparr>"
    and how: "h1 = cpl_host s \<or> in_state i \<noteq> ''purged'' \<and> uninstall (installation_of (cpl_host s) i) (cpl_host s) = Inr (b, h1)" by blast
  from how have "core h1 = core (cpl_host s)"
  proof
    assume un: "in_state i \<noteq> ''purged'' \<and> uninstall (installation_of (cpl_host s) i) (cpl_host s) = Inr (b, h1)"
    show ?thesis using states_only_fields(7) [OF uninstall_Inr(3) [OF assms(2) i conjunct1 [OF un] conjunct2 [OF un]]] by simp
  qed simp
  then show ?thesis using update_core [OF up(1)] up(2) by simp
qed (use assms in simp)

lemma change_core:
  assumes change: "change_of mg actor now op s = Inr (ch, s')" and ok: "plugins_ok (cpl_host s)"
  shows "core (cpl_host s') = core (cpl_host s)"
proof (cases op)
  case (OpPush digest m)
  then show ?thesis using change by (auto simp: mutated_Inr InsertPluginPackage_def dest!: push_Inr)
next
  case (OpCreate u digest backend uiOrigin)
  then obtain r where "create_installation_change mg u digest backend uiOrigin actor now s = Inr (ch, r, s')"
    using change by (auto simp: mutated_Inr)
  from create_change_Inr [OF this] show ?thesis by (auto simp: InsertPluginInstallation_def Let_def)
next
  case (OpIdentity u serviceUser checker)
  then show ?thesis using change by (auto simp: mutated_Inr updates_def dest!: identity_Inr update_core)
next
  case (OpTransition u action)
  then show ?thesis using change transition_core [OF _ ok] by (auto simp: mutated_Inr)
next
  case (OpActivate u observed)
  then show ?thesis using change replace_core ok
    by (fastforce simp: mutated_Inr plugins_ok_def registrations_ok_def dest!: activate_Inr update_core)
next
  case (OpUpgrade u digest)
  then show ?thesis using change by (auto simp: mutated_Inr updates_def dest!: upgrade_Inr update_core)
next
  case (OpEnablement u org state timezone policies)
  then show ?thesis using change put_fields(4) by (fastforce simp: mutated_Inr dest!: enablement_Inr)
next
  case (OpRemove u org)
  then show ?thesis using change states_only_fields(7) [OF delete_states] by (auto simp: mutated_Inr dest!: remove_Inr)
next
  case (OpMode u mode timezone policies)
  then show ?thesis using change put_defaults_fields by (fastforce simp: mutated_Inr dest!: mode_Inr update_core)
next
  case (OpImport bundle_bytes)
  then show ?thesis using change by (auto simp: mutated_Inr dest!: import_Inr)
qed

text \<open>What any command can do to the packages and to the rows of installations.\<close>

definition packages_grow :: "host \<Rightarrow> host \<Rightarrow> bool" where
  "packages_grow h h' \<longleftrightarrow> plugin_packages h' = plugin_packages h
     \<or> (\<exists>p. plugin_packages h' = plugin_packages h @ [p] \<and> manifest_of h (pp_ManifestSHA256 p) = None)"

definition rows_change :: "host \<Rightarrow> host \<Rightarrow> bool" where
  "rows_change h h' \<longleftrightarrow> plugin_installations h' = plugin_installations h
     \<or> (\<exists>row. plugin_installations h' = plugin_installations h @ [row] \<and> find_installation (in_installation_uuid row) h = None
          \<and> in_state row = ''installed'' \<and> in_target_package_sha256 row = '''')
     \<or> (\<exists>u. row_update u h h')"

lemma push_grows:
  assumes "push_package_change digest m actor now s = Inr (ch, r, s')" "plugins_ok (cpl_host s)" "Validate m = None"
  shows "plugins_ok (cpl_host s') \<and> packages_grow (cpl_host s) (cpl_host s') \<and> plugin_installations (cpl_host s') = plugin_installations (cpl_host s)"
proof (cases "ch = None \<and> s' = s")
  case False
  with push_Inr [OF assms(1)] obtain h where new: "GetPluginPackage digest (cpl_host s) = Inl (ErrNotFound ''The plugin package does not exist.'')"
    and h: "InsertPluginPackage \<lparr>pp_ManifestSHA256 = digest, pp_PluginID = mf_ID m, pp_Version = mf_Version m,
             pp_Manifest = m, pp_CreatedAt = now, pp_CreatedBy = actor\<rparr> now (cpl_host s) = Inr h" "s' = s\<lparr>cpl_host := h\<rparr>" by blast
  have "manifest_of (cpl_host s) digest = None" using new by (simp add: GetPluginPackage_def manifest_of_def)
  then have "packages_grow (cpl_host s) h \<and> plugin_installations h = plugin_installations (cpl_host s)"
    using h(1) by (auto simp: InsertPluginPackage_def insert_row_Inr_iff packages_grow_def)
  then show ?thesis using push_ok [OF assms(2) h(1)] assms(3) h(2) by simp
qed (use assms in \<open>simp add: packages_grow_def\<close>)

lemma create_grows:
  assumes "create_installation_change mg u digest backend uiOrigin actor now s = Inr (ch, r, s')" "plugins_ok (cpl_host s)"
  shows "plugins_ok (cpl_host s') \<and> rows_change (cpl_host s) (cpl_host s') \<and> plugin_packages (cpl_host s') = plugin_packages (cpl_host s)"
proof -
  from create_change_Inr [OF assms(1)] obtain b h where h: "InsertPluginInstallation b now (cpl_host s) = Inr h" "s' = s\<lparr>cpl_host := h\<rparr>"
    "pi_State b = ''installed''" by blast
  have "plugin_installations h = plugin_installations (cpl_host s) @ [new_installation_row b now] \<and> plugin_packages h = plugin_packages (cpl_host s)
      \<and> find_installation (in_installation_uuid (new_installation_row b now)) (cpl_host s) = None"
    using h(1) by (auto simp: InsertPluginInstallation_def Let_def insert_row_Inr_iff plugin_installations_constraints_def violates_def
        list_ex_iff find_installation_def find_None_iff)
  moreover have "in_state (new_installation_row b now) = ''installed''" "in_target_package_sha256 (new_installation_row b now) = ''''"
    by (simp_all add: new_installation_row_def h(3))
  ultimately have "rows_change (cpl_host s) h \<and> plugin_packages h = plugin_packages (cpl_host s)" unfolding rows_change_def by blast
  then show ?thesis using create_ok [OF assms(2) h(1,3)] h(2) by simp
qed

lemma change_effect:
  assumes change: "change_of mg actor now op s = Inr (ch, s')" and ok: "plugins_ok (cpl_host s)"
    and valid: "\<forall>digest m. op = OpPush digest m \<longrightarrow> Validate m = None"
  shows "plugins_ok (cpl_host s') \<and> packages_grow (cpl_host s) (cpl_host s') \<and> rows_change (cpl_host s) (cpl_host s')"
proof (cases op)
  case (OpPush digest m)
  then show ?thesis using change ok valid push_grows by (fastforce simp: mutated_Inr rows_change_def)
next
  case (OpCreate u digest backend uiOrigin)
  then show ?thesis using change ok create_grows by (fastforce simp: mutated_Inr packages_grow_def)
next
  case (OpIdentity u serviceUser checker)
  then show ?thesis using change ok identity_ok by (fastforce simp: mutated_Inr packages_grow_def rows_change_def row_update_def)
next
  case (OpTransition u action)
  then show ?thesis using change ok transition_ok by (fastforce simp: mutated_Inr packages_grow_def rows_change_def row_update_def)
next
  case (OpActivate u observed)
  then show ?thesis using change ok activation_ok by (fastforce simp: mutated_Inr packages_grow_def rows_change_def row_update_def)
next
  case (OpUpgrade u digest)
  then show ?thesis using change ok upgrade_ok by (fastforce simp: mutated_Inr packages_grow_def rows_change_def row_update_def)
next
  case (OpEnablement u org state timezone policies)
  then show ?thesis using change ok enablement_change_ok by (fastforce simp: mutated_Inr packages_grow_def rows_change_def)
next
  case (OpRemove u org)
  then show ?thesis using change ok remove_ok by (fastforce simp: mutated_Inr packages_grow_def rows_change_def)
next
  case (OpMode u mode timezone policies)
  then show ?thesis using change ok mode_ok by (fastforce simp: mutated_Inr packages_grow_def rows_change_def row_update_def)
next
  case (OpImport bundle_bytes)
  then show ?thesis using change ok by (auto simp: mutated_Inr packages_grow_def rows_change_def dest!: import_Inr)
qed

end
