(* ===== verification/Organizations.thy ===== *)
theory Organizations
  imports CommandLog Paging
begin

text \<open>
  Organizations: the table \<^verbatim>\<open>orgs\<close> (\<^verbatim>\<open>internal/model/orgs.go\<close>) and the creation of an organization
  (\<^verbatim>\<open>internal/api/orgs.go\<close>), which enables the plugins that serve all organizations and is taken back if IAM cannot make
  the caller its administrator.

  The tables of Core and of the licences know an organization by the columns they refer to, so a write keeps all three
  in step. New UUIDs, the clock, the random numbers of a name and the answer of IAM are arguments. The tables of
  environment observation, which are not modelled, are a predicate: whether they refer to an organization.
\<close>

section \<open>The table\<close>

definition OrgStatuses :: "string list" where
  "OrgStatuses = [''active'', ''deleting'', ''delete_failed'', ''deleted'']"

definition orgs_constraints :: "(Org, string) constraint list" where
  "orgs_constraints = [(''orgs_pkey'', \<lambda>o1. Some (oz_Id o1)), (''orgs_uuid_key'', \<lambda>o1. Some (oz_Uuid o1))]"

definition ListOrgs :: "string option \<Rightarrow> string \<Rightarrow> int \<Rightarrow> control_plane \<Rightarrow> (Org list \<times> string) result" where
  "ListOrgs byCreatedBy pageToken perPage s =
     Inr (tokened (\<lambda>k. k) (keyset_page oz_Id pageToken perPage
       (filter (\<lambda>o1. case byCreatedBy of None \<Rightarrow> True | Some u \<Rightarrow> oz_CreatedBy o1 = u) (cpl_orgs s))))"

definition GetOrg :: "string \<Rightarrow> control_plane \<Rightarrow> Org result" where
  "GetOrg i s = require_some (NewErrNotFound ''organization not found'') (find (\<lambda>o1. oz_Id o1 = i) (cpl_orgs s))"

definition CreateOrg :: "Org \<Rightarrow> uuid \<Rightarrow> control_plane \<Rightarrow> (Org \<times> control_plane) result" where
  "CreateOrg request new_uuid s =
     (let row = request\<lparr>oz_Uuid := new_uuid, oz_UpdatedAt := None, oz_Status := ''active'', oz_StatusMessage := None\<rparr> in
      fail_if (oz_Plan request \<noteq> ''custom'') (ErrConstraint ''invalid input value for enum org_plan'')
     (fail_if (\<not> List.member [''internal'', ''public''] (oz_Source request)) (ErrConstraint ''orgs_source_check'')
     (try_then (map_error (\<lambda>e. if isUniqueViolation e [''orgs_pkey'', ''orgs_uuid_key'']
          then NewErrConflict ''organization already exists'' else e)
        (insert_row orgs_constraints row (cpl_orgs s))) (\<lambda>rows.
      Inr (request\<lparr>oz_Uuid := new_uuid, oz_Status := ''active''\<rparr>,
        s\<lparr>cpl_orgs := rows, cpl_host := (cpl_host s)\<lparr>core := (core (cpl_host s))\<lparr>orgs := orgs (core (cpl_host s)) @ [oz_Id request]\<rparr>\<rparr>,
          cpl_licences := (cpl_licences s)\<lparr>lc_orgs := lc_orgs (cpl_licences s) @ [\<lparr>og_id = oz_Id request, og_uuid = new_uuid\<rparr>]\<rparr>\<rparr>)))))"

record UpdateOrgRequest =
  uo_CreatedBy :: "uuid option"
  uo_Plan :: "string option"
  uo_UpdatedAt :: "timestamp option"
  uo_Status :: "string option"
  uo_StatusMessage :: "string option"

definition updated_org :: "UpdateOrgRequest \<Rightarrow> Org \<Rightarrow> Org" where
  "updated_org r o1 =
     o1\<lparr>oz_CreatedBy := patched (uo_CreatedBy r) (oz_CreatedBy o1), oz_Plan := patched (uo_Plan r) (oz_Plan o1),
       oz_UpdatedAt := (if uo_UpdatedAt r = None then oz_UpdatedAt o1 else uo_UpdatedAt r),
       oz_Status := patched (uo_Status r) (oz_Status o1),
       oz_StatusMessage := (case uo_StatusMessage r of Some t \<Rightarrow> Some t
          | None \<Rightarrow> if uo_Status r = None then oz_StatusMessage o1 else Some '''')\<rparr>"

definition UpdateOrg :: "string \<Rightarrow> UpdateOrgRequest \<Rightarrow> control_plane \<Rightarrow> (Org \<times> control_plane) result" where
  "UpdateOrg i request s =
     (let hit = (\<lambda>o1. oz_Id o1 = i) in
      fail_if (\<not> List.member [None, Some ''custom''] (uo_Plan request)) (ErrConstraint ''invalid input value for enum org_plan'')
     (try_then (require_some (NewErrNotFound ''organization not found'') (find hit (cpl_orgs s))) (\<lambda>o1.
      fail_if (\<not> List.member OrgStatuses (oz_Status (updated_org request o1))) (ErrConstraint ''orgs_status_check'')
     (Inr (updated_org request o1, s\<lparr>cpl_orgs := upd_where hit (updated_org request) (cpl_orgs s)\<rparr>)))))"

text \<open>
  The rows that block the deletion of an organization: those of the tables that refer to it without \<^verbatim>\<open>ON DELETE CASCADE\<close>,
  and the pins that go with it but have events.
\<close>

definition org_referenced :: "(string \<Rightarrow> bool) \<Rightarrow> string \<Rightarrow> uuid \<Rightarrow> control_plane \<Rightarrow> bool" where
  "org_referenced observations i u s \<longleftrightarrow>
     (let h = cpl_host s; c = core h; l = cpl_licences s in
      list_ex (\<lambda>r. pr_OrgId r = i) (providers c) \<or> list_ex (\<lambda>r. rt_OrgId r = Some i) (resource_types c)
      \<or> list_ex (\<lambda>r. d_org_id r = i) (definitions c) \<or> list_ex (\<lambda>r. v_org_id r = i) (definition_versions c)
      \<or> list_ex (\<lambda>r. ru_OrgId r = i) (definition_rules c) \<or> list_ex (\<lambda>r. rr_OrgId r = i) (runner_rules c)
      \<or> list_ex (\<lambda>r. rn_OrgId r = i) (runners c) \<or> list_ex (\<lambda>r. pj_OrgId r = i) (projects c)
      \<or> list_ex (\<lambda>r. et_OrgId r = i) (env_types c) \<or> list_ex (\<lambda>r. en_OrgId r = i) (envs c)
      \<or> list_ex (\<lambda>r. md_OrgID r = i) (drafts c) \<or> list_ex (\<lambda>r. ds_OrgID r = i) (draft_snapshots c)
      \<or> list_ex (\<lambda>r. fst (fst r) = i) (epochs c) \<or> list_ex (\<lambda>r. ag_org_id r = i) (guards c)
      \<or> list_ex (\<lambda>r. gr_OrgID r = i) (grants c) \<or> list_ex (\<lambda>r. eo_org_id r = i) (module_operations c)
      \<or> list_ex (\<lambda>p. pn_OrgID p = i \<and> list_ex (\<lambda>e. pe_PinID e = pn_ID p) (pin_events c)) (pins c)
      \<or> list_ex (\<lambda>r. fst r = i) (event_heads h) \<or> list_ex (\<lambda>r. re_org_id r = i) (resource_events h)
      \<or> list_ex (\<lambda>r. fst r = i) (event_retention h)
      \<or> list_ex (\<lambda>r. eg_organization_uuid r = Some u) (lc_grants l) \<or> list_ex (\<lambda>r. ew_organization_uuid r = Some u) (lc_bindings l)
      \<or> list_ex (\<lambda>r. ea_organization_uuid r = u) (lc_activations l) \<or> observations i)"

definition cascade_host :: "string \<Rightarrow> host \<Rightarrow> host" where
  "cascade_host i h =
     h\<lparr>core := (core h)\<lparr>orgs := removeAll i (orgs (core h)),
          resource_type_events := filter (\<lambda>r. rte_OrgID r \<noteq> i) (resource_type_events (core h)),
          lifecycle_events := filter (\<lambda>r. le_OrgID r \<noteq> i) (lifecycle_events (core h)),
          catalogue_events := filter (\<lambda>r. ce_OrgID r \<noteq> i) (catalogue_events (core h)),
          core_commands := filter (\<lambda>r. cc_OrgID r \<noteq> i) (core_commands (core h)),
          pins := filter (\<lambda>r. pn_OrgID r \<noteq> i) (pins (core h)),
          reservations := filter (\<lambda>r. mr_OrgID r \<noteq> i) (reservations (core h)),
          contributions := filter (\<lambda>r. ec_OrgID r \<noteq> i) (contributions (core h))\<rparr>,
       capability_registrations := filter (\<lambda>r. cg_org_id r \<noteq> i) (capability_registrations h)\<rparr>"

text \<open>The journal state of an organization without journal head goes with it; otherwise it blocks, as the enablements do.\<close>

definition DeleteOrg :: "(string \<Rightarrow> bool) \<Rightarrow> string \<Rightarrow> control_plane \<Rightarrow> control_plane result" where
  "DeleteOrg observations i s =
     (let h = cpl_host s;
          h1 = (if map_of (event_heads h) i = None then h\<lparr>journal_states := AList.delete i (journal_states h)\<rparr> else h) in
      case find (\<lambda>o1. oz_Id o1 = i) (cpl_orgs s) of
        None \<Rightarrow> Inl (NewErrNotFound ''organization not found'')
      | Some o1 \<Rightarrow>
          fail_if (org_referenced observations i (oz_Uuid o1) s \<or> list_ex (\<lambda>r. fst r = i) (journal_states h1)
              \<or> list_ex (\<lambda>r. eb_org_id r = i) (plugin_enablements h1)) (ErrConstraint ''orgs_id_fkey'')
         (Inr (s\<lparr>cpl_host := cascade_host i h1, cpl_orgs := filter (\<lambda>o1. oz_Id o1 \<noteq> i) (cpl_orgs s),
            cpl_licences := (cpl_licences s)\<lparr>lc_orgs := filter (\<lambda>o1. og_id o1 \<noteq> i) (lc_orgs (cpl_licences s))\<rparr>\<rparr>)))"

section \<open>Creation\<close>

definition organization_created :: string where
  "organization_created = ''io.platform-orchestrator.organization.created''"

definition default_org :: "timestamp \<Rightarrow> Org \<Rightarrow> Org" where
  "default_org now req =
     req\<lparr>oz_CreatedAt := (if oz_CreatedAt req = 0 then now else oz_CreatedAt req),
       oz_Source := (if oz_Source req = '''' then ''public'' else oz_Source req),
       oz_Plan := (if oz_Plan req = '''' then ''custom'' else oz_Plan req)\<rparr>"

text \<open>The transaction that creates it. Without a Plugin Manager no plugin is enabled. A zero time is 0.\<close>

definition create_organization ::
    "manager option \<Rightarrow> uuid \<Rightarrow> timestamp \<Rightarrow> Org \<Rightarrow> control_plane \<Rightarrow> (Org \<times> uuid list \<times> control_plane) result" where
  "create_organization pm new_uuid now req s =
     try_then (CreateOrg (default_org now req) new_uuid s) (\<lambda>(org, s1).
     try_then (case pm of None \<Rightarrow> Inr ([], s1) | Some mg \<Rightarrow> EnableNewOrganization mg org now s1) (\<lambda>(enabled, s2).
     Inr (org, enabled, on_host (\<lambda>h. h\<lparr>core := appendModuleCoreOutboxEvent organization_created
        [(''org_id'', JStr (oz_Id org)), (''org_uuid'', JStr (oz_Uuid org))] (core h)\<rparr>) s2)))"

definition discardOrganization :: "manager option \<Rightarrow> (string \<Rightarrow> bool) \<Rightarrow> Org \<Rightarrow> timestamp \<Rightarrow> control_plane \<Rightarrow> control_plane result" where
  "discardOrganization pm observations org now s =
     (case pm of
        None \<Rightarrow> DeleteOrg observations (oz_Id org) s
      | Some mg \<Rightarrow> try_then (DiscardOrganization mg org now s) (DeleteOrg observations (oz_Id org)))"

text \<open>
  \<open>admin\<close> is the user who shall administrate the organization, \<open>membership\<close> the failure that IAM answers with, if any.
  The steps are run with nothing between them; a discard that fails leaves the committed organization.
\<close>

definition createOrganizationCore ::
    "manager option \<Rightarrow> (string \<Rightarrow> bool) \<Rightarrow> (string \<Rightarrow> uuid \<Rightarrow> model_error option) \<Rightarrow> uuid \<Rightarrow> timestamp \<Rightarrow> Org \<Rightarrow> uuid option
       \<Rightarrow> control_plane \<Rightarrow> Org result \<times> control_plane" where
  "createOrganizationCore pm observations membership new_uuid now req admin s =
     (case create_organization pm new_uuid now req s of
        Inl e \<Rightarrow> (Inl e, s)
      | Inr (org, enabled, s1) \<Rightarrow>
          (case (case admin of None \<Rightarrow> None | Some user \<Rightarrow> membership (oz_Id org) user) of
             None \<Rightarrow> (Inr org, s1)
           | Some e \<Rightarrow> (Inl e, case discardOrganization pm observations org now s1 of Inl _ \<Rightarrow> s1 | Inr s2 \<Rightarrow> s2)))"

section \<open>Generated names\<close>

definition orgNameAdjectives :: "string list" where
  "orgNameAdjectives =
     [''accomplished'', ''acoustic'', ''active'', ''adaptable'', ''adorable'', ''advanced'', ''adventurous'',
      ''aerodynamic'', ''agile'', ''alert'', ''amazing'', ''amber'', ''ancient'', ''arctic'', ''artistic'',
      ''astute'', ''atomic'', ''authentic'', ''automated'', ''azure'', ''balanced'', ''balmy'', ''beautiful'',
      ''big'', ''binary'', ''blazing'', ''blissful'', ''blooming'', ''bold'', ''bouncy'', ''brave'', ''breezy'',
      ''bright'', ''brilliant'', ''brisk'', ''bronze'', ''bubbly'', ''calm'', ''caring'', ''celestial'',
      ''charming'', ''cheerful'', ''chiming'', ''circular'', ''classic'', ''clean'', ''clear'', ''clever'',
      ''close'', ''coastal'', ''colossal'', ''colorful'', ''comfortable'', ''compact'', ''complete'',
      ''confident'', ''cool'', ''copper'', ''coral'', ''cosmic'', ''cozy'', ''crafty'', ''creative'', ''crimson'',
      ''crisp'', ''crystalline'', ''curious'', ''curved'', ''cushy'', ''cyber'', ''dancing'', ''daring'',
      ''dazzling'', ''deep'', ''delicate'', ''delightful'', ''dense'', ''determined'', ''dewy'', ''diamond'',
      ''digital'', ''diplomatic'', ''distant'', ''dynamic'', ''eager'', ''echoing'', ''electric'', ''elegant'',
      ''elite'', ''emerald'', ''enchanted'', ''energetic'', ''enormous'', ''enthusiastic'', ''eternal'',
      ''ethereal'', ''excellent'', ''exceptional'', ''excited'', ''expert'', ''expressive'', ''extraordinary'',
      ''fabulous'', ''fair'', ''familiar'', ''fantastic'', ''fast'', ''fearless'', ''fierce'', ''fine'',
      ''flexible'', ''flowing'', ''fluffy'', ''fluid'', ''focused'', ''foggy'', ''free'', ''fresh'', ''friendly'',
      ''funky'', ''futuristic'', ''fuzzy'', ''gentle'', ''giant'', ''gifted'', ''gigantic'', ''gleaming'',
      ''glowing'', ''golden'', ''graceful'', ''grand'', ''great'', ''green'', ''groovy'', ''happy'', ''hard'',
      ''harmonic'', ''harmonious'', ''hazy'', ''healthy'', ''heavy'', ''heroic'', ''high'', ''honest'', ''huge'',
      ''hyper'', ''ideal'', ''imaginative'', ''immense'', ''incredible'', ''independent'', ''infinite'',
      ''ingenious'', ''innovative'', ''inspired'', ''instant'', ''intelligent'', ''intense'', ''inventive'',
      ''inviting'', ''jazzy'', ''jeweled'', ''joyful'', ''joyous'', ''keen'', ''kind'', ''large'', ''leafy'',
      ''light'', ''lively'', ''logical'', ''loving'', ''loyal'', ''lucky'', ''luminous'', ''lunar'', ''magical'',
      ''magnetic'', ''magnificent'', ''majestic'', ''marvelous'', ''massive'', ''masterful'', ''mega'',
      ''melodic'', ''merry'', ''micro'', ''mighty'', ''mild'', ''mini'', ''misty'', ''modern'', ''musical'',
      ''mystical'', ''nano'', ''natural'', ''neat'', ''new'', ''nifty'', ''nimble'', ''noble'', ''oceanic'',
      ''open'', ''optimistic'', ''organic'', ''original'', ''outstanding'', ''panoramic'', ''passionate'',
      ''peaceful'', ''peppy'', ''perfect'', ''petite'', ''pioneering'', ''playful'', ''pleasant'', ''pleased'',
      ''plush'', ''polar'', ''polished'', ''positive'', ''powerful'', ''precious'', ''premium'', ''pretty'',
      ''prime'', ''pristine'', ''progressive'', ''pure'', ''quantum'', ''quick'', ''quiet'', ''radiant'',
      ''rapid'', ''rare'', ''rational'', ''reasonable'', ''refined'', ''reliable'', ''remarkable'', ''resonant'',
      ''revolutionary'', ''rhythmic'', ''rich'', ''robust'', ''round'', ''savvy'', ''seamless'', ''secure'',
      ''serene'', ''sharp'', ''shimmering'', ''shiny'', ''silent'', ''silky'', ''silver'', ''simple'', ''singing'',
      ''skillful'', ''sleek'', ''small'', ''smart'', ''smooth'', ''snappy'', ''snazzy'', ''soft'', ''solar'',
      ''solid'', ''sonic'', ''sparkling'', ''special'', ''spectacular'', ''speedy'', ''spiffy'', ''spirited'',
      ''splendid'', ''spunky'', ''square'', ''stable'', ''starry'', ''steady'', ''stellar'', ''stormy'',
      ''streamlined'', ''strong'', ''stunning'', ''sturdy'', ''successful'', ''sunny'', ''super'', ''superb'',
      ''supple'', ''supreme'', ''swift'', ''talented'', ''tall'', ''tender'', ''thick'', ''thunderous'',
      ''timeless'', ''tiny'', ''top'', ''tough'', ''towering'', ''transparent'', ''tropical'', ''triumphant'',
      ''true'', ''turbo'', ''ultra'', ''unique'', ''universal'', ''upbeat'', ''vast'', ''velvet'', ''versatile'',
      ''vibrant'', ''victorious'', ''vintage'', ''visionary'', ''vivid'', ''warm'', ''wide'', ''wild'',
      ''winning'', ''wireless'', ''wise'', ''witty'', ''wonderful'', ''zesty'', ''zippy'']"

definition orgNameNouns :: "string list" where
  "orgNameNouns =
     [''albatross'', ''alligator'', ''alpaca'', ''anchovy'', ''angelfish'', ''ant'', ''anteater'', ''antelope'',
      ''ape'', ''armadillo'', ''barracuda'', ''bass'', ''bat'', ''bear'', ''beaver'', ''bee'', ''beetle'',
      ''bison'', ''blackbird'', ''bluebird'', ''bobcat'', ''buffalo'', ''bull'', ''bulldog'', ''butterfly'',
      ''buzzard'', ''camel'', ''canary'', ''cardinal'', ''caribou'', ''carp'', ''cat'', ''caterpillar'',
      ''catfish'', ''cheetah'', ''chicken'', ''chipmunk'', ''clam'', ''cobra'', ''cod'', ''condor'', ''coot'',
      ''coral'', ''coyote'', ''crab'', ''crane'', ''cricket'', ''crocodile'', ''crow'', ''deer'', ''dingo'',
      ''dog'', ''dolphin'', ''donkey'', ''dove'', ''dragonfly'', ''duck'', ''eagle'', ''eel'', ''elephant'',
      ''elk'', ''emu'', ''falcon'', ''ferret'', ''finch'', ''fish'', ''flamingo'', ''flounder'', ''fly'', ''fox'',
      ''frog'', ''gazelle'', ''gecko'', ''giraffe'', ''goat'', ''goose'', ''gopher'', ''gorilla'', ''grasshopper'',
      ''grouper'', ''grouse'', ''gull'', ''hamster'', ''hare'', ''hawk'', ''hedgehog'', ''heron'', ''hippo'',
      ''horse'', ''hummingbird'', ''hyena'', ''ibis'', ''iguana'', ''impala'', ''jackal'', ''jaguar'', ''jay'',
      ''jellyfish'', ''kangaroo'', ''kingfisher'', ''koala'', ''ladybug'', ''lamb'', ''leopard'', ''lion'',
      ''lizard'', ''llama'', ''lobster'', ''lynx'', ''macaw'', ''mackerel'', ''magpie'', ''manta'', ''marlin'',
      ''meerkat'', ''mole'', ''mongoose'', ''monkey'', ''moose'', ''moth'', ''mouse'', ''mule'', ''newt'',
      ''nightingale'', ''octopus'', ''orca'', ''otter'', ''owl'', ''ox'', ''oyster'', ''panda'', ''panther'',
      ''parrot'', ''peacock'', ''pelican'', ''penguin'', ''perch'', ''pig'', ''pigeon'', ''pike'', ''platypus'',
      ''porcupine'', ''porpoise'', ''puma'', ''quail'', ''rabbit'', ''raccoon'', ''ram'', ''rat'', ''raven'',
      ''ray'', ''rhino'', ''robin'', ''salamander'', ''salmon'', ''sardine'', ''scorpion'', ''seal'', ''shark'',
      ''sheep'', ''shrimp'', ''skunk'', ''sloth'', ''snail'', ''snake'', ''snapper'', ''sparrow'', ''spider'',
      ''squid'', ''squirrel'', ''starfish'', ''stingray'', ''stork'', ''swan'', ''swordfish'', ''tiger'', ''toad'',
      ''tortoise'', ''toucan'', ''trout'', ''tuna'', ''turkey'', ''turtle'', ''viper'', ''walrus'', ''wasp'',
      ''whale'', ''wolf'', ''woodpecker'', ''worm'', ''wren'', ''yak'', ''zebra'']"

text \<open>\<^verbatim>\<open>%04d\<close> of a number below 10000.\<close>

definition four_digits :: "nat \<Rightarrow> string" where
  "four_digits n = replicate (4 - length (show_nat n)) CHR ''0'' @ show_nat n"

text \<open>\<open>rf k n\<close> is the \<open>k\<close>-th random number, below \<open>n\<close>. The loop ends when a name is short enough; \<open>None\<close> is a loop that has
  used up \<open>fuel\<close>.\<close>

definition name_attempt :: "(nat \<Rightarrow> nat \<Rightarrow> nat) \<Rightarrow> nat \<Rightarrow> string \<Rightarrow> string" where
  "name_attempt rf k prefix =
     prefix @ ''-'' @ orgNameAdjectives ! rf k (length orgNameAdjectives) @ ''-''
       @ orgNameNouns ! rf (k + 1) (length orgNameNouns) @ ''-'' @ four_digits (rf (k + 2) 10000)"

fun name_loop :: "nat \<Rightarrow> (nat \<Rightarrow> nat \<Rightarrow> nat) \<Rightarrow> nat \<Rightarrow> string \<Rightarrow> string option" where
  "name_loop 0 rf k prefix = None"
| "name_loop (Suc fuel) rf k prefix =
     (let name = name_attempt rf k prefix in
      if name = '''' \<or> length name > 50 then name_loop fuel rf (k + 3) prefix else Some name)"

definition generateRandomOrgNameAndSuffix :: "nat \<Rightarrow> (nat \<Rightarrow> nat \<Rightarrow> nat) \<Rightarrow> string \<Rightarrow> string option" where
  "generateRandomOrgNameAndSuffix fuel rf prefix =
     (if prefix = '''' then name_loop fuel rf 1 (orgNameAdjectives ! rf 0 (length orgNameAdjectives))
      else name_loop fuel rf 0 prefix)"
section \<open>Lemmas\<close>

lemma name_word_lengths:
  "w \<in> set orgNameAdjectives \<Longrightarrow> 3 \<le> length w \<and> length w \<le> 13"
  "w \<in> set orgNameNouns \<Longrightarrow> 2 \<le> length w \<and> length w \<le> 11"
proof -
  have "list_all (\<lambda>w. 3 \<le> length w \<and> length w \<le> 13) orgNameAdjectives" by (simp add: orgNameAdjectives_def)
  moreover have "list_all (\<lambda>w. 2 \<le> length w \<and> length w \<le> 11) orgNameNouns" by (simp add: orgNameNouns_def)
  ultimately show "w \<in> set orgNameAdjectives \<Longrightarrow> 3 \<le> length w \<and> length w \<le> 13"
    "w \<in> set orgNameNouns \<Longrightarrow> 2 \<le> length w \<and> length w \<le> 11" by (auto simp: list_all_iff)
qed

lemma name_words_nonempty: "orgNameAdjectives \<noteq> []" "orgNameNouns \<noteq> []"
  by (simp_all add: orgNameAdjectives_def orgNameNouns_def)

lemma four_digits_length: "n < 10000 \<Longrightarrow> length (four_digits n) = 4"
proof -
  assume n: "n < 10000"
  have "length (show_nat m) \<le> Suc k" if "m < 10 ^ Suc k" for m k
    using that by (induction k arbitrary: m) (auto simp: show_nat.simps less_mult_imp_div_less mult.commute)
  from this [of n 3] n show ?thesis by (simp add: four_digits_def)
qed

lemma name_attempt_length:
  assumes "\<forall>k n. 0 < n \<longrightarrow> rf k n < n"
  shows "length prefix + 12 \<le> length (name_attempt rf k prefix)" "length (name_attempt rf k prefix) \<le> length prefix + 31"
proof -
  have "orgNameAdjectives ! rf k (length orgNameAdjectives) \<in> set orgNameAdjectives"
    "orgNameNouns ! rf (k + 1) (length orgNameNouns) \<in> set orgNameNouns" "rf (k + 2) 10000 < 10000"
    using assms name_words_nonempty by auto
  then show "length prefix + 12 \<le> length (name_attempt rf k prefix)" "length (name_attempt rf k prefix) \<le> length prefix + 31"
    using name_word_lengths four_digits_length unfolding name_attempt_def by fastforce+
qed

lemma name_loop_first:
  assumes "\<forall>k n. 0 < n \<longrightarrow> rf k n < n" "length prefix \<le> 19"
  shows "name_loop (Suc fuel) rf k prefix = Some (name_attempt rf k prefix)"
  using name_attempt_length [OF assms(1), where prefix = prefix and k = k] assms(2) by (auto simp: Let_def)

lemma name_loop_endless:
  assumes "\<forall>k n. 0 < n \<longrightarrow> rf k n < n" "38 < length prefix"
  shows "name_loop fuel rf k prefix = None"
proof (induction fuel arbitrary: k)
  case (Suc fuel)
  then show ?case using name_attempt_length(1) [OF assms(1), where prefix = prefix and k = k] assms(2) by (simp add: Let_def)
qed simp

text \<open>The listing of all organizations is an instance of the paging contract.\<close>

interpretation org_pages: keyset_listing "ListOrgs None" cpl_orgs oz_Id "\<lambda>k. k" "[]" "\<lambda>s. listed_by_id (map oz_Id (cpl_orgs s))"
  by (rule keyset_listing_by_id) (auto simp: ListOrgs_def)

section \<open>Creation and discard\<close>

lemma subscribers_none:
  "resourceEventSubscribers org h = [] \<longleftrightarrow> (\<forall>e\<in>set (plugin_enablements h). \<not> subscription h org e)"
proof -
  have "resourceEventSubscribers org h = [] \<longleftrightarrow> set (resourceEventSubscribers org h) = {}" by simp
  then show ?thesis by (auto simp: resourceEventSubscribers_def)
qed

text \<open>
  A new organization has no journal head: its journal starts without a gap with the first subscriber, and stops with the
  last. So the journal of one that is discarded never gets a head.
\<close>

definition journal_opening :: "string \<Rightarrow> host \<Rightarrow> bool" where
  "journal_opening org h \<longleftrightarrow> map_of (event_heads h) org = None
     \<and> (map_of (journal_states h) org = None \<and> resourceEventSubscribers org h = [] \<or> journaling org h \<and> resourceEventSubscribers org h \<noteq> [])"

definition journal_closing :: "string \<Rightarrow> host \<Rightarrow> bool" where
  "journal_closing org h \<longleftrightarrow> map_of (event_heads h) org = None \<and> (resourceEventSubscribers org h \<noteq> [] \<longrightarrow> journaling org h)"

lemma journal_opening_closing: "journal_opening org h \<Longrightarrow> journal_closing org h"
  by (auto simp: journal_opening_def journal_closing_def)

lemma sync_opening:
  assumes "map_of (event_heads h) org = None"
    "map_of (journal_states h) org = None \<or> journaling org h \<and> resourceEventSubscribers org h \<noteq> []"
  shows "event_heads (syncExtensionResourceJournal org h) = event_heads h" "journal_opening org (syncExtensionResourceJournal org h)"
proof -
  have subs: "resourceEventSubscribers org (syncExtensionResourceJournal org h) = resourceEventSubscribers org h"
    by (rule states_only_same(4)) (rule sync_states)
  show heads: "event_heads (syncExtensionResourceJournal org h) = event_heads h"
    using assms by (auto simp: syncExtensionResourceJournal_def pauseExtensionResourceJournal_def startExtensionResourceJournal_def
        journaling_def split: option.splits)
  show "journal_opening org (syncExtensionResourceJournal org h)" unfolding journal_opening_def subs heads
    using assms by (auto simp: syncExtensionResourceJournal_def pauseExtensionResourceJournal_def startExtensionResourceJournal_def
        journaling_def update_conv' split: option.splits)
qed

lemma sync_closing:
  assumes "journal_closing org h"
  shows "event_heads (syncExtensionResourceJournal org h) = event_heads h" "journal_closing org (syncExtensionResourceJournal org h)"
proof -
  have subs: "resourceEventSubscribers org (syncExtensionResourceJournal org h) = resourceEventSubscribers org h"
    by (rule states_only_same(4)) (rule sync_states)
  show heads: "event_heads (syncExtensionResourceJournal org h) = event_heads h"
    using assms by (auto simp: journal_closing_def syncExtensionResourceJournal_def pauseExtensionResourceJournal_def
        startExtensionResourceJournal_def journaling_def split: option.splits)
  show "journal_closing org (syncExtensionResourceJournal org h)" unfolding journal_closing_def subs heads
    using assms by (auto simp: journal_closing_def syncExtensionResourceJournal_def pauseExtensionResourceJournal_def
        startExtensionResourceJournal_def journaling_def update_conv' split: option.splits)
qed

lemma put_opening:
  assumes "PutPluginEnablement b e actor now h = Inr h'" "journal_opening (pl_OrgID e) h"
    "\<not> list_ex (enablement_at (pi_PluginID b) (pl_OrgID e)) (plugin_enablements h)"
  shows "plugin_enablements h' = plugin_enablements h @ [plugin_enablement_row b e actor now]" "event_heads h' = event_heads h"
    "journal_opening (pl_OrgID e) h'"
proof -
  let ?h = "h\<lparr>plugin_enablements := plugin_enablements h @ [plugin_enablement_row b e actor now]\<rparr>"
  have h': "h' = syncExtensionResourceJournal (pl_OrgID e) ?h"
    using assms(1,3) by (auto simp: PutPluginEnablement_def Let_def)
  have "subscription ?h (pl_OrgID e) = subscription h (pl_OrgID e)" by (simp add: subscription_def fun_eq_iff)
  then have "map_of (event_heads ?h) (pl_OrgID e) = None"
    "map_of (journal_states ?h) (pl_OrgID e) = None \<or> journaling (pl_OrgID e) ?h \<and> resourceEventSubscribers (pl_OrgID e) ?h \<noteq> []"
    using assms(2) by (auto simp: journal_opening_def journaling_def subscribers_none)
  from sync_opening [OF this] show "event_heads h' = event_heads h" "journal_opening (pl_OrgID e) h'" by (simp_all add: h')
  show "plugin_enablements h' = plugin_enablements h @ [plugin_enablement_row b e actor now]" by (simp add: h')
qed

lemma delete_closing:
  assumes "journal_closing org h"
  shows "event_heads (snd (DeletePluginEnablement plugin org h)) = event_heads h" "journal_closing org (snd (DeletePluginEnablement plugin org h))"
proof -
  let ?h = "h\<lparr>plugin_enablements := filter (\<lambda>e. \<not> enablement_at plugin org e) (plugin_enablements h)\<rparr>"
  have "subscription ?h org = subscription h org" by (simp add: subscription_def fun_eq_iff)
  then have "journal_closing org ?h" using assms by (auto simp: journal_closing_def journaling_def subscribers_none)
  from sync_closing [OF this] show "event_heads (snd (DeletePluginEnablement plugin org h)) = event_heads h"
    "journal_closing org (snd (DeletePluginEnablement plugin org h))" using assms by (auto simp: DeletePluginEnablement_def)
qed

text \<open>The reasons that the audit gives.\<close>

definition creation_reason :: "string \<Rightarrow> uuid \<Rightarrow> string" where
  "creation_reason org u = ''Organization '' @ org @ '' was created while installation '' @ u @ '' serves all organizations.''"

definition discard_reason :: "string \<Rightarrow> string" where
  "discard_reason org = ''Organization '' @ org @ '' was removed because its creation failed.''"

lemma btrim_sentence: "btrim (CHR ''O'' # t @ ''.'') = CHR ''O'' # t @ ''.''"
  by (simp add: btrim_def)

lemma char_length_append: "char_length (t @ t') = char_length t + char_length t'"
  by (simp add: char_length_def)

lemma char_length_ascii: "list_all (\<lambda>c. \<not> continuation_byte c) t \<Longrightarrow> char_length t = length t"
  by (induction t) (auto simp: char_length_def)

lemma reason_lengths:
  "char_length (discard_reason org) = char_length org + 54"
  "char_length (creation_reason org u) = char_length org + char_length u + 71"
proof -
  have "char_length ''Organization '' = 13" "char_length '' was removed because its creation failed.'' = 41"
    "char_length '' was created while installation '' = 32" "char_length '' serves all organizations.'' = 26"
    by (subst char_length_ascii, code_simp, simp)+
  then show "char_length (discard_reason org) = char_length org + 54"
    "char_length (creation_reason org u) = char_length org + char_length u + 71"
    unfolding discard_reason_def creation_reason_def char_length_append by simp_all
qed

lemma discard_reason_ok: "reason_ok (creation_reason org u) \<Longrightarrow> reason_ok (discard_reason org)"
proof -
  assume "reason_ok (creation_reason org u)"
  then have "char_length (btrim (creation_reason org u)) \<le> 1000" by (simp add: reason_ok_def)
  moreover have "btrim (creation_reason org u) = creation_reason org u"
    using btrim_sentence [of "''rganization '' @ org @ '' was created while installation '' @ u @ '' serves all organizations''"]
    by (simp add: creation_reason_def)
  moreover have "btrim (discard_reason org) = discard_reason org"
    using btrim_sentence [of "''rganization '' @ org @ '' was removed because its creation failed''"] by (simp add: discard_reason_def)
  ultimately show ?thesis by (simp add: reason_ok_def reason_lengths)
qed

text \<open>What the audit says of an enablement that Core has made or removed for an organization.\<close>

definition system_recorded ::
    "manager \<Rightarrow> string \<Rightarrow> string \<Rightarrow> string \<Rightarrow> string \<Rightarrow> timestamp \<Rightarrow> uuid \<Rightarrow> PluginManagerAuditEvent \<Rightarrow> bool" where
  "system_recorded mg action org cause reason now u a \<longleftrightarrow>
     ka_Action a = action \<and> ka_InstallationID a = (if u = Nil_uuid then None else Some u)
     \<and> ka_OrgID a = (if org = '''' then None else Some org) \<and> ka_Actor a = mg_system mg \<and> ka_OccurredAt a = now
     \<and> ka_Reason a = reason \<and> ka_RequestID a = None \<and> ka_IdempotencyKeyID a = mg_sha256 mg cause
     \<and> (\<exists>before after. ka_Before a = Some (AuditInstallation before) \<and> ka_After a = Some (AuditInstallation after)
          \<and> pi_InstallationID before = u)"

definition creation_recorded :: "manager \<Rightarrow> Org \<Rightarrow> timestamp \<Rightarrow> uuid \<Rightarrow> PluginManagerAuditEvent \<Rightarrow> bool" where
  "creation_recorded mg org now u =
     system_recorded mg ''plugin_enablement.put'' (oz_Id org) (''organization-created:'' @ oz_Uuid org) (creation_reason (oz_Id org) u) now u"

definition discard_recorded :: "manager \<Rightarrow> Org \<Rightarrow> timestamp \<Rightarrow> uuid \<Rightarrow> PluginManagerAuditEvent \<Rightarrow> bool" where
  "discard_recorded mg org now =
     system_recorded mg ''plugin_enablement.remove'' (oz_Id org) (''organization-discarded:'' @ oz_Uuid org) (discard_reason (oz_Id org)) now"

lemma system_change_recorded:
  assumes "system_change mg action before org cause reason now (Inr s) = Inr s'" "audit_ok s"
  shows "\<exists>row. s' = extended row s \<and> system_recorded mg action org cause reason now (pi_InstallationID before) row \<and> audit_ok s'"
proof -
  from assms(1) obtain change where c: "installationChange action before org s = Inr change"
    and s': "s' = extended (audit_row (mg_system mg) '''' reason (mg_sha256 mg cause) change now (cpl_revision s + 1)) s"
    unfolding system_change_Inr [OF assms(2)] by blast
  from c have "system_recorded mg action org cause reason now (pi_InstallationID before)
      (audit_row (mg_system mg) '''' reason (mg_sha256 mg cause) change now (cpl_revision s + 1))"
    by (auto simp: installationChange_def system_recorded_def audit_row_def)
  then show ?thesis using s' extended_ok [OF assms(2)] by blast
qed

lemma enable_for_Inr:
  assumes "enable_new_organization_for mg org now u (enabled, s) = Inr (enabled', s')" "audit_ok s"
  shows "enabled' = enabled \<and> s' = s \<or> (\<exists>i h row. find_installation u (cpl_host s) = Some i
    \<and> checkOrganizationLimit (installation_of (cpl_host s) i) 1 s = Inr ()
    \<and> PutPluginEnablement (installation_of (cpl_host s) i) (defaultEnablement (installation_of (cpl_host s) i) (oz_Id org))
        (mg_system mg) now (cpl_host s) = Inr h
    \<and> reason_ok (creation_reason (oz_Id org) u) \<and> enabled' = enabled @ [u] \<and> s' = extended row (s\<lparr>cpl_host := h\<rparr>) \<and> audit_ok s'
    \<and> creation_recorded mg org now u row)"
proof -
  from assms(1) obtain i where i: "find_installation u (cpl_host s) = Some i"
    and rest: "(case checkOrganizationLimit (installation_of (cpl_host s) i) 1 s of
       Inl e \<Rightarrow> if IsErrConflict e then Inr (enabled, s) else Inl e
     | Inr _ \<Rightarrow>
         try_then (system_change mg ''plugin_enablement.put'' (installation_of (cpl_host s) i) (oz_Id org) (''organization-created:'' @ oz_Uuid org)
            (creation_reason (oz_Id org) u) now
            (try_host (PutPluginEnablement (installation_of (cpl_host s) i) (defaultEnablement (installation_of (cpl_host s) i) (oz_Id org))
               (mg_system mg) now) s))
          (\<lambda>s'. Inr (enabled @ [u], s'))) = Inr (enabled', s')"
    unfolding enable_new_organization_for_def prod.case try_then_Inr_iff get_Inr creation_reason_def by blast
  show ?thesis
  proof (cases "checkOrganizationLimit (installation_of (cpl_host s) i) 1 s")
    case (Inl e)
    then show ?thesis using rest by (auto split: if_splits)
  next
    case (Inr v)
    from rest [unfolded Inr sum.case] obtain t where t: "system_change mg ''plugin_enablement.put'' (installation_of (cpl_host s) i)
        (oz_Id org) (''organization-created:'' @ oz_Uuid org) (creation_reason (oz_Id org) u) now
        (try_host (PutPluginEnablement (installation_of (cpl_host s) i) (defaultEnablement (installation_of (cpl_host s) i) (oz_Id org))
               (mg_system mg) now) s) = Inr t" "enabled' = enabled @ [u]" "s' = t" by auto
    obtain s1 where s1: "try_host (PutPluginEnablement (installation_of (cpl_host s) i)
        (defaultEnablement (installation_of (cpl_host s) i) (oz_Id org)) (mg_system mg) now) s = Inr s1"
      "system_change mg ''plugin_enablement.put'' (installation_of (cpl_host s) i) (oz_Id org) (''organization-created:'' @ oz_Uuid org)
            (creation_reason (oz_Id org) u) now (Inr s1) = Inr s'" "enabled' = enabled @ [u]"
      using iffD1 [OF system_change_write t(1)] t(2,3) by blast
    then obtain h where h: "PutPluginEnablement (installation_of (cpl_host s) i)
        (defaultEnablement (installation_of (cpl_host s) i) (oz_Id org)) (mg_system mg) now (cpl_host s) = Inr h" "s1 = s\<lparr>cpl_host := h\<rparr>"
      by (auto simp: try_host_Inr)
    have ok: "audit_ok s1" using audit_ok_cong [of s1 s] assms(2) h by simp
    have limit: "checkOrganizationLimit (installation_of (cpl_host s) i) 1 s = Inr ()" using Inr by simp
    have "pi_InstallationID (installation_of (cpl_host s) i) = u" using find_installation_Some [OF i] by simp
    with system_change_recorded [OF s1(2) ok] obtain row where "s' = extended row s1" "audit_ok s'" "creation_recorded mg org now u row"
      unfolding creation_recorded_def by auto
    moreover have "reason_ok (creation_reason (oz_Id org) u)" using s1(2) unfolding system_change_Inr [OF ok] by blast
    ultimately show ?thesis using s1(3) h limit i by blast
  qed
qed

lemma discard_for:
  assumes "find_installation u (cpl_host s) = Some i" "audit_ok s" "reason_ok (discard_reason (oz_Id org))"
    "\<forall>t. length (mg_sha256 mg t) = 32"
  shows "\<exists>row. discard_organization_for mg org now u s
      = Inr (extended row (on_host (\<lambda>h. snd (DeletePluginEnablement (in_plugin_id i) (oz_Id org) h)) s))
    \<and> audit_ok (extended row (on_host (\<lambda>h. snd (DeletePluginEnablement (in_plugin_id i) (oz_Id org) h)) s))"
proof -
  let ?s = "on_host (\<lambda>h. snd (DeletePluginEnablement (in_plugin_id i) (oz_Id org) h)) s"
  let ?b = "installation_of (cpl_host s) i"
  have u: "in_installation_uuid i = u" using find_installation_Some [OF assms(1)] by simp
  have ok: "audit_ok ?s" using audit_ok_cong [of ?s s] assms(2) by (simp add: on_host_def)
  have "plugin_installations (cpl_host ?s) = plugin_installations (cpl_host s)"
    using states_only_fields(2) [OF delete_states] by (simp add: on_host_def)
  then have "find_installation u (cpl_host ?s) = Some i" using assms(1) by (simp add: find_installation_def)
  then obtain change where "installationChange ''plugin_enablement.remove'' ?b (oz_Id org) ?s = Inr change"
    using get_Inr [of u "cpl_host ?s"] by (auto simp: installationChange_def u)
  then have "system_change mg ''plugin_enablement.remove'' ?b (oz_Id org) (''organization-discarded:'' @ oz_Uuid org)
      (discard_reason (oz_Id org)) now (Inr ?s) = Inr (extended (audit_row (mg_system mg) '''' (discard_reason (oz_Id org))
        (mg_sha256 mg (''organization-discarded:'' @ oz_Uuid org)) change now (cpl_revision ?s + 1)) ?s)"
    using assms(3,4) by (intro iffD2 [OF system_change_Inr [OF ok]]) blast
  moreover have get: "GetPluginInstallation u (cpl_host s) = Inr ?b" using assms(1) by (simp only: get_Inr) blast
  have "discard_organization_for mg org now u s = system_change mg ''plugin_enablement.remove'' ?b (oz_Id org)
      (''organization-discarded:'' @ oz_Uuid org) (discard_reason (oz_Id org)) now (Inr ?s)"
    unfolding discard_organization_for_def get try_then.simps discard_reason_def installation_of_simps ..
  ultimately show ?thesis using extended_ok [OF ok] by metis
qed

text \<open>A discard that succeeds has left its record, whatever it found.\<close>

lemma discard_for_recorded:
  assumes "discard_organization_for mg org now u s = Inr s'" "audit_ok s"
  shows "\<exists>row. cpl_audit s' = cpl_audit s @ [row] \<and> discard_recorded mg org now u row \<and> audit_ok s'"
proof -
  from assms(1) obtain b where b: "GetPluginInstallation u (cpl_host s) = Inr b"
    and c: "system_change mg ''plugin_enablement.remove'' b (oz_Id org) (''organization-discarded:'' @ oz_Uuid org) (discard_reason (oz_Id org)) now
      (Inr (on_host (\<lambda>h. snd (DeletePluginEnablement (pi_PluginID b) (oz_Id org) h)) s)) = Inr s'"
    unfolding discard_organization_for_def discard_reason_def by auto
  let ?s = "on_host (\<lambda>h. snd (DeletePluginEnablement (pi_PluginID b) (oz_Id org) h)) s"
  have "audit_ok ?s" using audit_ok_cong [of ?s s] assms(2) by (simp add: on_host_def)
  from system_change_recorded [OF c this] obtain row where row: "s' = extended row ?s" "audit_ok s'"
    "system_recorded mg ''plugin_enablement.remove'' (oz_Id org) (''organization-discarded:'' @ oz_Uuid org) (discard_reason (oz_Id org)) now
       (pi_InstallationID b) row" by blast
  have "pi_InstallationID b = u" using b unfolding get_Inr by (auto dest!: find_installation_Some)
  with row show ?thesis by (auto simp: discard_recorded_def on_host_def)
qed

lemma discards_recorded:
  assumes "try_fold (discard_organization_for mg org now) us s = Inr s'" "audit_ok s"
  shows "\<exists>rows. cpl_audit s' = cpl_audit s @ rows \<and> list_all2 (discard_recorded mg org now) us rows"
  using assms
proof (induction us arbitrary: s)
  case (Cons u us)
  then obtain s1 where s1: "discard_organization_for mg org now u s = Inr s1" "try_fold (discard_organization_for mg org now) us s1 = Inr s'"
    by (auto split: sum.splits)
  from discard_for_recorded [OF s1(1) Cons.prems(2)] obtain row where row: "cpl_audit s1 = cpl_audit s @ [row]"
    "discard_recorded mg org now u row" "audit_ok s1" by blast
  from Cons.IH [OF s1(2) row(3)] obtain rows where "cpl_audit s' = cpl_audit s1 @ rows" "list_all2 (discard_recorded mg org now) us rows"
    by blast
  with row show ?case by (intro exI [of _ "row # rows"]) simp
qed simp

text \<open>Everything stays as it is but the enablements of the organization, its journal state and the audit.\<close>

definition host_beside :: "string \<Rightarrow> host \<Rightarrow> host \<Rightarrow> bool" where
  "host_beside org h h' \<longleftrightarrow> (\<exists>es states. h' = h\<lparr>plugin_enablements := es, journal_states := states\<rparr>
     \<and> filter (\<lambda>e. eb_org_id e \<noteq> org) es = filter (\<lambda>e. eb_org_id e \<noteq> org) (plugin_enablements h)
     \<and> AList.delete org states = AList.delete org (journal_states h))"

definition beside :: "string \<Rightarrow> control_plane \<Rightarrow> control_plane \<Rightarrow> bool" where
  "beside org s s' \<longleftrightarrow> cpl_orgs s' = cpl_orgs s \<and> cpl_licences s' = cpl_licences s \<and> cpl_commands s' = cpl_commands s
     \<and> audited s s' \<and> host_beside org (cpl_host s) (cpl_host s')"

lemma host_beside_refl: "host_beside org h h"
  unfolding host_beside_def by (intro exI [of _ "plugin_enablements h"] exI [of _ "journal_states h"]) simp

lemma host_beside_trans: "host_beside org h h' \<Longrightarrow> host_beside org h' h'' \<Longrightarrow> host_beside org h h''"
  unfolding host_beside_def by fastforce

lemma beside_refl: "beside org s s"
  by (simp add: beside_def host_beside_refl)

lemma beside_trans: "beside org s s' \<Longrightarrow> beside org s' s'' \<Longrightarrow> beside org s s''"
  unfolding beside_def using audited_trans host_beside_trans by metis

lemma host_beside_fields:
  assumes "host_beside org h h'"
  shows "core h' = core h" "plugin_packages h' = plugin_packages h" "plugin_installations h' = plugin_installations h"
    "plugin_registrations h' = plugin_registrations h" "event_heads h' = event_heads h" "resource_events h' = resource_events h"
    "event_retention h' = event_retention h"
  using assms by (auto simp: host_beside_def)

lemma find_installation_cong: "plugin_installations h' = plugin_installations h \<Longrightarrow> find_installation u h' = find_installation u h"
  by (simp add: find_installation_def)

lemma sync_states_delete: "AList.delete org (journal_states (syncExtensionResourceJournal org h)) = AList.delete org (journal_states h)"
  by (auto simp: syncExtensionResourceJournal_def pauseExtensionResourceJournal_def startExtensionResourceJournal_def open_gap_def
      advance_head_def Let_def delete_update_same split: option.splits)

lemma sync_beside:
  assumes "event_heads (syncExtensionResourceJournal org (h\<lparr>plugin_enablements := es\<rparr>)) = event_heads h"
    "filter (\<lambda>e. eb_org_id e \<noteq> org) es = filter (\<lambda>e. eb_org_id e \<noteq> org) (plugin_enablements h)"
  shows "host_beside org h (syncExtensionResourceJournal org (h\<lparr>plugin_enablements := es\<rparr>))"
proof -
  let ?h = "h\<lparr>plugin_enablements := es\<rparr>"
  obtain heads states where sync: "syncExtensionResourceJournal org ?h = ?h\<lparr>event_heads := heads, journal_states := states\<rparr>"
    using sync_states [of ?h org] unfolding states_only_def by blast
  then have "heads = event_heads h" using assms(1) by simp
  then have "syncExtensionResourceJournal org ?h = h\<lparr>plugin_enablements := es, journal_states := states\<rparr>" unfolding sync by (cases h) simp
  moreover have "AList.delete org states = AList.delete org (journal_states h)"
    using sync_states_delete [of org ?h] by (simp add: sync)
  ultimately show ?thesis using assms(2) unfolding host_beside_def by blast
qed

lemma put_beside:
  assumes "PutPluginEnablement b e actor now h = Inr h'" "journal_opening (pl_OrgID e) h"
    "\<not> list_ex (enablement_at (pi_PluginID b) (pl_OrgID e)) (plugin_enablements h)"
  shows "host_beside (pl_OrgID e) h h'"
proof -
  let ?es = "plugin_enablements h @ [plugin_enablement_row b e actor now]"
  have h': "h' = syncExtensionResourceJournal (pl_OrgID e) (h\<lparr>plugin_enablements := ?es\<rparr>)"
    using assms(1,3) by (auto simp: PutPluginEnablement_def Let_def)
  have "event_heads (syncExtensionResourceJournal (pl_OrgID e) (h\<lparr>plugin_enablements := ?es\<rparr>)) = event_heads h"
    using put_opening(2) [OF assms] unfolding h' .
  then show ?thesis unfolding h' by (rule sync_beside) (simp add: plugin_enablement_row_def)
qed

lemma delete_beside:
  assumes "journal_closing org h"
  shows "host_beside org h (snd (DeletePluginEnablement plugin org h))"
proof (cases "list_ex (enablement_at plugin org) (plugin_enablements h)")
  case True
  let ?es = "filter (\<lambda>e. \<not> enablement_at plugin org e) (plugin_enablements h)"
  have del: "snd (DeletePluginEnablement plugin org h) = syncExtensionResourceJournal org (h\<lparr>plugin_enablements := ?es\<rparr>)"
    using True by (simp add: DeletePluginEnablement_def)
  have "filter (\<lambda>e. eb_org_id e \<noteq> org) ?es = filter (\<lambda>e. eb_org_id e \<noteq> org) (plugin_enablements h)"
    by (auto simp: enablement_at_def intro!: filter_cong)
  with delete_closing(1) [OF assms, of plugin, unfolded del] show ?thesis unfolding del by (intro sync_beside)
next
  case False
  then show ?thesis by (simp add: DeletePluginEnablement_def host_beside_refl)
qed

text \<open>The installations that an organization uses, in the order of the enablements.\<close>

definition enabled_for :: "string \<Rightarrow> host \<Rightarrow> uuid list" where
  "enabled_for org h = map eb_installation_uuid (filter (\<lambda>e. eb_org_id e = org) (plugin_enablements h))"

lemma enable_fold:
  assumes "try_fold (enable_new_organization_for mg org now) us (enabled, s) = Inr (enabled', s')"
    and "audit_ok s" "plugins_ok (cpl_host s)" "journal_opening (oz_Id org) (cpl_host s)"
    and "\<forall>e\<in>set (plugin_enablements (cpl_host s)). eb_org_id e = oz_Id org \<longrightarrow>
           eb_installation_uuid e \<in> set enabled \<and> reason_ok (discard_reason (oz_Id org))"
    and "distinct us" "set us \<inter> set enabled = {}"
    and "\<forall>u\<in>set us. \<exists>i. find_installation u (cpl_host s) = Some i \<and> served_state (in_state i)"
  shows "audit_ok s' \<and> plugins_ok (cpl_host s') \<and> journal_opening (oz_Id org) (cpl_host s') \<and> beside (oz_Id org) s s'
    \<and> (\<forall>e\<in>set (plugin_enablements (cpl_host s')). eb_org_id e = oz_Id org \<longrightarrow> reason_ok (discard_reason (oz_Id org)))
    \<and> (\<exists>new rows. enabled' = enabled @ new \<and> cpl_audit s' = cpl_audit s @ rows \<and> list_all2 (creation_recorded mg org now) new rows
         \<and> enabled_for (oz_Id org) (cpl_host s') = enabled_for (oz_Id org) (cpl_host s) @ new)"
  using assms
proof (induction us arbitrary: enabled s)
  case Nil
  then show ?case by (auto simp: beside_refl)
next
  case (Cons u us)
  then obtain en1 s1 where step: "enable_new_organization_for mg org now u (enabled, s) = Inr (en1, s1)"
    and rest: "try_fold (enable_new_organization_for mg org now) us (en1, s1) = Inr (enabled', s')"
    by (auto split: sum.splits)
  note d = Cons.prems(6,7)
  from enable_for_Inr [OF step Cons.prems(2)] show ?case
  proof (elim disjE exE conjE)
    assume same: "en1 = enabled" "s1 = s"
    show ?thesis using Cons.IH [OF rest [unfolded same]] Cons.prems by auto
  next
    fix i h row
    assume i: "find_installation u (cpl_host s) = Some i"
      and put: "PutPluginEnablement (installation_of (cpl_host s) i) (defaultEnablement (installation_of (cpl_host s) i) (oz_Id org))
        (mg_system mg) now (cpl_host s) = Inr h"
      and reason: "reason_ok (creation_reason (oz_Id org) u)" and en1: "en1 = enabled @ [u]"
      and s1: "s1 = extended row (s\<lparr>cpl_host := h\<rparr>)" and ok: "audit_ok s1" and recorded: "creation_recorded mg org now u row"
    let ?e = "defaultEnablement (installation_of (cpl_host s) i) (oz_Id org)"
    let ?b = "installation_of (cpl_host s) i"
    have org: "pl_OrgID ?e = oz_Id org" by (simp add: defaultEnablement_def enablement_for_def)
    have ii: "i \<in> set (plugin_installations (cpl_host s))" "in_installation_uuid i = u" using find_installation_Some [OF i] by auto
    have served: "served_state (in_state i)" using Cons.prems(8) i by auto
    have inst: "installations_ok (cpl_host s)" using Cons.prems(3) by (simp add: plugins_ok_def)
    have none: "\<not> list_ex (enablement_at (pi_PluginID ?b) (pl_OrgID ?e)) (plugin_enablements (cpl_host s))"
    proof
      assume "list_ex (enablement_at (pi_PluginID ?b) (pl_OrgID ?e)) (plugin_enablements (cpl_host s))"
      then obtain e where e: "e \<in> set (plugin_enablements (cpl_host s))" "eb_plugin_id e = in_plugin_id i" "eb_org_id e = oz_Id org"
        by (auto simp: list_ex_iff enablement_at_def org)
      then obtain j where j: "j \<in> set (plugin_installations (cpl_host s))" "in_installation_uuid j = eb_installation_uuid e"
        "in_plugin_id j = in_plugin_id i" "served_state (in_state j)"
        using Cons.prems(3) by (auto simp: plugins_ok_def enablements_ok_def enablement_ok_def)
      then have "j = i" using plugin_unique [OF inst j(1) ii(1)] served served_not_purged by auto
      then show False using e j Cons.prems(5) d ii by auto
    qed
    have opn: "journal_opening (pl_OrgID ?e) (cpl_host s)" using Cons.prems(4) org by simp
    note p = put_opening [OF put opn none, unfolded org] and hb = put_beside [OF put opn none, unfolded org]
    have pok: "plugins_ok h" using put_ok [OF Cons.prems(3) put] i served ii by simp
    have reasons: "reason_ok (discard_reason (oz_Id org))" using discard_reason_ok reason by blast
    have row_org: "eb_org_id (plugin_enablement_row ?b ?e (mg_system mg) now) = oz_Id org"
      "eb_installation_uuid (plugin_enablement_row ?b ?e (mg_system mg) now) = u" using ii org by (simp_all add: plugin_enablement_row_def)
    have b: "beside (oz_Id org) s s1" using hb by (auto simp: beside_def s1 audited_def)
    have *: "audit_ok s' \<and> plugins_ok (cpl_host s') \<and> journal_opening (oz_Id org) (cpl_host s') \<and> beside (oz_Id org) s1 s'
      \<and> (\<forall>e\<in>set (plugin_enablements (cpl_host s')). eb_org_id e = oz_Id org \<longrightarrow> reason_ok (discard_reason (oz_Id org)))
      \<and> (\<exists>new rows. enabled' = en1 @ new \<and> cpl_audit s' = cpl_audit s1 @ rows \<and> list_all2 (creation_recorded mg org now) new rows
           \<and> enabled_for (oz_Id org) (cpl_host s') = enabled_for (oz_Id org) (cpl_host s1) @ new)"
    proof (rule Cons.IH [OF rest ok])
      show "plugins_ok (cpl_host s1)" "journal_opening (oz_Id org) (cpl_host s1)" using pok p(3) by (simp_all add: s1)
      show "\<forall>e\<in>set (plugin_enablements (cpl_host s1)). eb_org_id e = oz_Id org \<longrightarrow>
           eb_installation_uuid e \<in> set en1 \<and> reason_ok (discard_reason (oz_Id org))"
        using p(1) Cons.prems(5) row_org reasons by (auto simp: s1 en1)
      show "distinct us" "set us \<inter> set en1 = {}" using d by (auto simp: en1)
      show "\<forall>u\<in>set us. \<exists>i. find_installation u (cpl_host s1) = Some i \<and> served_state (in_state i)"
        using Cons.prems(8) find_installation_cong [OF host_beside_fields(3) [OF hb]] by (simp add: s1)
    qed
    then obtain new rows where "enabled' = en1 @ new" "cpl_audit s' = cpl_audit s1 @ rows" "list_all2 (creation_recorded mg org now) new rows"
      "enabled_for (oz_Id org) (cpl_host s') = enabled_for (oz_Id org) (cpl_host s1) @ new" by blast
    moreover have "enabled_for (oz_Id org) (cpl_host s1) = enabled_for (oz_Id org) (cpl_host s) @ [u]"
      using p(1) row_org by (simp add: s1 enabled_for_def)
    ultimately have "enabled' = enabled @ u # new \<and> cpl_audit s' = cpl_audit s @ row # rows
        \<and> list_all2 (creation_recorded mg org now) (u # new) (row # rows)
        \<and> enabled_for (oz_Id org) (cpl_host s') = enabled_for (oz_Id org) (cpl_host s) @ u # new"
      using recorded en1 by (simp add: s1)
    then show ?thesis using * beside_trans [OF b] by blast
  qed
qed

lemma discard_fold:
  assumes "audit_ok s" "plugins_ok (cpl_host s)" "journal_closing (oz_Id org) (cpl_host s)"
    "us \<noteq> [] \<longrightarrow> reason_ok (discard_reason (oz_Id org))" "\<forall>t. length (mg_sha256 mg t) = 32"
    "\<forall>u\<in>set us. \<exists>i. find_installation u (cpl_host s) = Some i"
  shows "\<exists>s'. try_fold (discard_organization_for mg org now) us s = Inr s' \<and> plugins_ok (cpl_host s')
    \<and> beside (oz_Id org) s s' \<and> journal_closing (oz_Id org) (cpl_host s') \<and> audit_ok s'
    \<and> (\<forall>e\<in>set (plugin_enablements (cpl_host s')). e \<in> set (plugin_enablements (cpl_host s))
         \<and> (eb_org_id e = oz_Id org \<longrightarrow> eb_installation_uuid e \<notin> set us))"
  using assms
proof (induction us arbitrary: s)
  case Nil
  then show ?case by (auto simp: beside_refl)
next
  case (Cons u us)
  then obtain i where i: "find_installation u (cpl_host s) = Some i" by auto
  have ii: "i \<in> set (plugin_installations (cpl_host s))" "in_installation_uuid i = u" using find_installation_Some [OF i] by auto
  let ?h = "snd (DeletePluginEnablement (in_plugin_id i) (oz_Id org) (cpl_host s))"
  let ?s1 = "on_host (\<lambda>h. snd (DeletePluginEnablement (in_plugin_id i) (oz_Id org) h)) s"
  obtain row where step: "discard_organization_for mg org now u s = Inr (extended row ?s1)" and ok: "audit_ok (extended row ?s1)"
    using discard_for [OF i Cons.prems(1) _ Cons.prems(5)] Cons.prems(4) by auto
  have host: "cpl_host (extended row ?s1) = ?h" by (simp add: on_host_def)
  have hb: "host_beside (oz_Id org) (cpl_host s) ?h" by (rule delete_beside) (rule Cons.prems(3))
  have b: "beside (oz_Id org) s (extended row ?s1)" using hb by (auto simp: beside_def audited_def on_host_def)
  have es: "plugin_enablements ?h = filter (\<lambda>e. \<not> enablement_at (in_plugin_id i) (oz_Id org) e) (plugin_enablements (cpl_host s))"
    using states_only_fields(3) [OF delete_states] by simp
  have gone: "eb_installation_uuid e \<noteq> u" if e: "e \<in> set (plugin_enablements ?h)" "eb_org_id e = oz_Id org" for e
  proof
    assume u: "eb_installation_uuid e = u"
    have "e \<in> set (plugin_enablements (cpl_host s))" using e(1) es by simp
    then obtain j where j: "j \<in> set (plugin_installations (cpl_host s))" "in_installation_uuid j = eb_installation_uuid e"
        "in_plugin_id j = eb_plugin_id e"
      using Cons.prems(2) by (auto simp: plugins_ok_def enablements_ok_def enablement_ok_def)
    moreover have "installations_ok (cpl_host s)" using Cons.prems(2) by (simp add: plugins_ok_def)
    ultimately have "j = i" using installation_unique ii u by auto
    then show False using e es j by (auto simp: enablement_at_def)
  qed
  have "\<exists>s'. try_fold (discard_organization_for mg org now) us (extended row ?s1) = Inr s' \<and> plugins_ok (cpl_host s')
    \<and> beside (oz_Id org) (extended row ?s1) s' \<and> journal_closing (oz_Id org) (cpl_host s') \<and> audit_ok s'
    \<and> (\<forall>e\<in>set (plugin_enablements (cpl_host s')). e \<in> set (plugin_enablements (cpl_host (extended row ?s1)))
         \<and> (eb_org_id e = oz_Id org \<longrightarrow> eb_installation_uuid e \<notin> set us))"
  proof (rule Cons.IH [OF ok])
    show "plugins_ok (cpl_host (extended row ?s1))" unfolding host by (rule delete_ok) (rule Cons.prems(2))
    show "journal_closing (oz_Id org) (cpl_host (extended row ?s1))" unfolding host by (rule delete_closing(2)) (rule Cons.prems(3))
    show "us \<noteq> [] \<longrightarrow> reason_ok (discard_reason (oz_Id org))" "\<forall>t. length (mg_sha256 mg t) = 32" using Cons.prems(4,5) by auto
    show "\<forall>u\<in>set us. \<exists>i. find_installation u (cpl_host (extended row ?s1)) = Some i"
      using Cons.prems(6) find_installation_cong [OF host_beside_fields(3) [OF hb]] unfolding host by simp
  qed
  then obtain s' where s': "try_fold (discard_organization_for mg org now) us (extended row ?s1) = Inr s'" "plugins_ok (cpl_host s')"
    "beside (oz_Id org) (extended row ?s1) s'" "journal_closing (oz_Id org) (cpl_host s')" "audit_ok s'"
    "\<forall>e\<in>set (plugin_enablements (cpl_host s')). e \<in> set (plugin_enablements ?h)
         \<and> (eb_org_id e = oz_Id org \<longrightarrow> eb_installation_uuid e \<notin> set us)" unfolding host by blast
  then have "\<forall>e\<in>set (plugin_enablements (cpl_host s')). e \<in> set (plugin_enablements (cpl_host s))
         \<and> (eb_org_id e = oz_Id org \<longrightarrow> eb_installation_uuid e \<notin> set (u # us))" using gone es by auto
  then show ?case using s' step beside_trans [OF b s'(3)] by auto
qed

text \<open>
  An identifier that no row refers to, as the foreign keys guarantee for an organization that does not exist.
\<close>

definition org_absent :: "(string \<Rightarrow> bool) \<Rightarrow> string \<Rightarrow> uuid \<Rightarrow> control_plane \<Rightarrow> bool" where
  "org_absent observations i u s \<longleftrightarrow>
     \<not> org_referenced observations i u s \<and> cascade_host i (cpl_host s) = cpl_host s
     \<and> \<not> list_ex (\<lambda>r. fst r = i) (journal_states (cpl_host s)) \<and> \<not> list_ex (\<lambda>e. eb_org_id e = i) (plugin_enablements (cpl_host s))
     \<and> \<not> list_ex (\<lambda>o1. og_id o1 = i) (lc_orgs (cpl_licences s))"

definition with_org :: "Org \<Rightarrow> Org \<Rightarrow> control_plane \<Rightarrow> control_plane" where
  "with_org org row s =
     s\<lparr>cpl_orgs := cpl_orgs s @ [row], cpl_host := (cpl_host s)\<lparr>core := (core (cpl_host s))\<lparr>orgs := orgs (core (cpl_host s)) @ [oz_Id org]\<rparr>\<rparr>,
       cpl_licences := (cpl_licences s)\<lparr>lc_orgs := lc_orgs (cpl_licences s) @ [\<lparr>og_id = oz_Id org, og_uuid = oz_Uuid org\<rparr>]\<rparr>\<rparr>"

lemma CreateOrg_Inr:
  assumes "CreateOrg request u s = Inr (org, s')"
  shows "\<exists>row. oz_Id org = oz_Id request \<and> oz_Uuid org = u \<and> oz_Id row = oz_Id request \<and> oz_Uuid row = u \<and> s' = with_org org row s
    \<and> oz_Id request \<notin> oz_Id ` set (cpl_orgs s) \<and> oz_CreatedAt org = oz_CreatedAt request"
  using assms unfolding CreateOrg_def with_org_def
  by (intro exI [of _ "request\<lparr>oz_Uuid := u, oz_UpdatedAt := None, oz_Status := ''active'', oz_StatusMessage := None\<rparr>"])
    (auto simp: Let_def insert_row_Inr_iff orgs_constraints_def violates_def list_ex_iff)

lemma organization_event: "plugins_ok (h\<lparr>core := c\<rparr>) = plugins_ok h" "journal_closing i (h\<lparr>core := c\<rparr>) = journal_closing i h"
    "journal_opening i (h\<lparr>core := c\<rparr>) = journal_opening i h"
proof -
  have "subscription (h\<lparr>core := c\<rparr>) org = subscription h org" for org by (simp add: subscription_def fun_eq_iff)
  then show "journal_closing i (h\<lparr>core := c\<rparr>) = journal_closing i h" "journal_opening i (h\<lparr>core := c\<rparr>) = journal_opening i h"
    by (simp_all add: journal_closing_def journal_opening_def journaling_def resourceEventSubscribers_def)
qed (rule plugins_ok_cong; simp)

lemma absent_opening: "org_absent obs i u s \<Longrightarrow> journal_opening i (cpl_host s)"
proof -
  assume absent: "org_absent obs i u s"
  then have "\<not> list_ex (\<lambda>r. fst r = i) (event_heads (cpl_host s))" by (simp add: org_absent_def org_referenced_def Let_def)
  then have "map_of (event_heads (cpl_host s)) i = None" "map_of (journal_states (cpl_host s)) i = None"
    using absent by (auto simp: org_absent_def list_ex_iff map_of_eq_None_iff)
  moreover have "resourceEventSubscribers i (cpl_host s) = []"
    using absent by (auto simp: subscribers_none subscription_def org_absent_def list_ex_iff)
  ultimately show ?thesis by (simp add: journal_opening_def)
qed

lemma serving_all:
  assumes "plugins_ok h"
  shows "distinct (PluginInstallationsServingAllOrganizations h)"
    "u \<in> set (PluginInstallationsServingAllOrganizations h) \<Longrightarrow> \<exists>i. find_installation u h = Some i \<and> served_state (in_state i)"
proof -
  have ok: "installations_ok h" using assms by (simp add: plugins_ok_def)
  then show "distinct (PluginInstallationsServingAllOrganizations h)"
    by (simp add: PluginInstallationsServingAllOrganizations_def installations_ok_def distinct_map_filter)
  assume "u \<in> set (PluginInstallationsServingAllOrganizations h)"
  then obtain i where i: "i \<in> set (plugin_installations h)" "in_installation_uuid i = u" "in_organization_mode i = ''all''"
    by (auto simp: PluginInstallationsServingAllOrganizations_def)
  moreover have "served_state (in_state i)" using ok i by (auto simp: installations_ok_def row_ok_def installation_checks_def)
  ultimately show "\<exists>i. find_installation u h = Some i \<and> served_state (in_state i)" using find_installation_in [OF ok] by blast
qed

lemma cascade_none:
  "cascade_host i h = h \<Longrightarrow> cascade_host i (h\<lparr>core := appendModuleCoreOutboxEvent ty d ((core h)\<lparr>orgs := orgs (core h) @ [i]\<rparr>)\<rparr>)
     = h\<lparr>core := appendModuleCoreOutboxEvent ty d (core h)\<rparr>"
  by (cases h; cases "core h") (simp add: cascade_host_def appendModuleCoreOutboxEvent_def)


text \<open>The organization can be deleted once its enablements are gone.\<close>

lemma delete_created:
  assumes absent: "org_absent obs (oz_Id org) (oz_Uuid org) s" and fresh: "oz_Id org \<notin> oz_Id ` set (cpl_orgs s)"
    and row: "oz_Id row = oz_Id org" "oz_Uuid row = oz_Uuid org"
    and t: "cpl_orgs t = cpl_orgs (with_org org row s)" "cpl_licences t = cpl_licences (with_org org row s)"
      "cpl_host t = (cpl_host (with_org org row s))\<lparr>core := appendModuleCoreOutboxEvent ty d (core (cpl_host (with_org org row s))),
         plugin_enablements := plugin_enablements (cpl_host s), journal_states := states\<rparr>"
      "AList.delete (oz_Id org) states = AList.delete (oz_Id org) (journal_states (cpl_host s))"
  shows "DeleteOrg obs (oz_Id org) t = Inr (t\<lparr>cpl_orgs := cpl_orgs s, cpl_licences := cpl_licences s,
    cpl_host := (cpl_host s)\<lparr>core := appendModuleCoreOutboxEvent ty d (core (cpl_host s))\<rparr>\<rparr>)"
proof -
  let ?i = "oz_Id org" and ?h = "cpl_host s"
  let ?h1 = "(cpl_host t)\<lparr>journal_states := AList.delete ?i (journal_states (cpl_host t))\<rparr>"
  have "\<not> list_ex (\<lambda>r. fst r = ?i) (event_heads ?h)" using absent by (simp add: org_absent_def org_referenced_def Let_def)
  then have heads: "map_of (event_heads (cpl_host t)) ?i = None"
    by (auto simp: t with_org_def list_ex_iff map_of_eq_None_iff)
  have found: "find (\<lambda>o1. oz_Id o1 = ?i) (cpl_orgs t) = Some row"
    using fresh by (auto simp: t with_org_def find_append find_None_iff row image_iff split: option.splits dest!: find_in_set)
  have states: "AList.delete ?i (journal_states ?h) = journal_states ?h"
    using absent by (intro AList.delete_id) (fastforce simp: org_absent_def list_ex_iff)
  have ref: "\<not> org_referenced obs ?i (oz_Uuid row) t"
    using absent by (simp add: row org_absent_def org_referenced_def Let_def t with_org_def appendModuleCoreOutboxEvent_def)
  have rest: "\<not> list_ex (\<lambda>r. fst r = ?i) (journal_states ?h1)" "\<not> list_ex (\<lambda>r. eb_org_id r = ?i) (plugin_enablements ?h1)"
    using absent by (simp_all add: t states org_absent_def)
  have h1: "?h1 = ?h\<lparr>core := appendModuleCoreOutboxEvent ty d ((core ?h)\<lparr>orgs := orgs (core ?h) @ [?i]\<rparr>)\<rparr>"
    unfolding t(3) by (simp add: t(4) states with_org_def)
  have "cascade_host ?i ?h1 = ?h\<lparr>core := appendModuleCoreOutboxEvent ty d (core ?h)\<rparr>"
    unfolding h1 by (rule cascade_none) (use absent in \<open>simp add: org_absent_def\<close>)
  moreover have "filter (\<lambda>o1. oz_Id o1 \<noteq> ?i) (cpl_orgs t) = cpl_orgs s" using fresh by (auto simp: t with_org_def row filter_id_conv image_iff)
  moreover have "filter (\<lambda>o1. og_id o1 \<noteq> ?i) (lc_orgs (cpl_licences t)) = lc_orgs (cpl_licences s)"
    using absent by (auto simp: t with_org_def org_absent_def list_ex_iff filter_id_conv)
  ultimately show ?thesis using ref rest by (simp add: DeleteOrg_def Let_def heads found) (simp add: t with_org_def)
qed

lemma control_plane_merge:
  fixes s s' :: control_plane
  shows "cpl_audit s' = a \<Longrightarrow> cpl_revision s' = r \<Longrightarrow> cpl_commands s' = cpl_commands s \<Longrightarrow>
   s'\<lparr>cpl_orgs := cpl_orgs s, cpl_licences := cpl_licences s, cpl_host := h\<rparr> = s\<lparr>cpl_revision := r, cpl_audit := a, cpl_host := h\<rparr>"
  by (cases s'; cases s) simp


text \<open>What a creation that commits has done, as far as its discard needs it.\<close>

definition announced :: "Org \<Rightarrow> db \<Rightarrow> db" where
  "announced org = appendModuleCoreOutboxEvent organization_created [(''org_id'', JStr (oz_Id org)), (''org_uuid'', JStr (oz_Uuid org))]"

lemma created:
  assumes created: "create_organization (Some mg) u now req s = Inr (org, enabled, t)"
    and ok: "plugins_ok (cpl_host s)" "audit_ok s" and absent: "org_absent obs (oz_Id req) u s"
  shows "\<exists>row es states. oz_Id org = oz_Id req \<and> oz_Uuid org = u \<and> oz_Id row = oz_Id org \<and> oz_Uuid row = oz_Uuid org
    \<and> oz_Id org \<notin> oz_Id ` set (cpl_orgs s) \<and> audit_ok t \<and> plugins_ok (cpl_host t) \<and> journal_closing (oz_Id org) (cpl_host t)
    \<and> (\<forall>e\<in>set (plugin_enablements (cpl_host t)). eb_org_id e = oz_Id org \<longrightarrow> reason_ok (discard_reason (oz_Id org)))
    \<and> cpl_orgs t = cpl_orgs (with_org org row s) \<and> cpl_licences t = cpl_licences (with_org org row s) \<and> cpl_commands t = cpl_commands s
    \<and> audited s t \<and> cpl_host t = (cpl_host (with_org org row s))\<lparr>core := announced org (core (cpl_host (with_org org row s))),
         plugin_enablements := es, journal_states := states\<rparr>
    \<and> filter (\<lambda>e. eb_org_id e \<noteq> oz_Id org) es = plugin_enablements (cpl_host s)
    \<and> AList.delete (oz_Id org) states = AList.delete (oz_Id org) (journal_states (cpl_host s))
    \<and> enabled_for (oz_Id org) (cpl_host t) = enabled
    \<and> (\<exists>rows. cpl_audit t = cpl_audit s @ rows \<and> list_all2 (creation_recorded mg org now) enabled rows)"
proof -
  from created obtain s1 s2 where c1: "CreateOrg (default_org now req) u s = Inr (org, s1)"
    and c2: "EnableNewOrganization mg org now s1 = Inr (enabled, s2)"
    and t: "t = on_host (\<lambda>h. h\<lparr>core := announced org (core h)\<rparr>) s2"
    unfolding create_organization_def announced_def by auto
  from CreateOrg_Inr [OF c1] obtain row where org: "oz_Id org = oz_Id req" "oz_Uuid org = u" and row: "oz_Id row = oz_Id org" "oz_Uuid row = oz_Uuid org"
    and s1: "s1 = with_org org row s" and fresh: "oz_Id org \<notin> oz_Id ` set (cpl_orgs s)" by (auto simp: default_org_def)
  have host1: "cpl_host s1 = (cpl_host s)\<lparr>core := core (cpl_host s1)\<rparr>" by (simp add: s1 with_org_def)
  have p1: "plugins_ok (cpl_host s1)" using ok(1) organization_event(1) host1 by metis
  have o1: "journal_opening (oz_Id org) (cpl_host s1)" using absent_opening [OF absent] organization_event(3) host1 org(1) by metis
  have a1: "audit_ok s1" using audit_ok_cong [of s1 s] ok(2) by (simp add: s1 with_org_def)
  have none: "\<forall>e\<in>set (plugin_enablements (cpl_host s)). eb_org_id e \<noteq> oz_Id org" using absent org by (simp add: org_absent_def list_ex_iff)
  have es1: "plugin_enablements (cpl_host s1) = plugin_enablements (cpl_host s)" by (subst host1) simp
  note en = enable_fold [OF c2 [unfolded EnableNewOrganization_def] a1 p1 o1 _ serving_all(1) [OF p1]]
  have fold1: "audit_ok s2 \<and> plugins_ok (cpl_host s2) \<and> journal_opening (oz_Id org) (cpl_host s2) \<and> beside (oz_Id org) s1 s2
    \<and> (\<forall>e\<in>set (plugin_enablements (cpl_host s2)). eb_org_id e = oz_Id org \<longrightarrow> reason_ok (discard_reason (oz_Id org)))
    \<and> (\<exists>new rows. enabled = [] @ new \<and> cpl_audit s2 = cpl_audit s1 @ rows \<and> list_all2 (creation_recorded mg org now) new rows
         \<and> enabled_for (oz_Id org) (cpl_host s2) = enabled_for (oz_Id org) (cpl_host s1) @ new)"
    by (rule en) (use none es1 serving_all(2) [OF p1] in auto)
  then have b12: "beside (oz_Id org) s1 s2" by simp
  obtain es states where h2: "cpl_host s2 = (cpl_host s1)\<lparr>plugin_enablements := es, journal_states := states\<rparr>"
    "filter (\<lambda>e. eb_org_id e \<noteq> oz_Id org) es = filter (\<lambda>e. eb_org_id e \<noteq> oz_Id org) (plugin_enablements (cpl_host s1))"
    "AList.delete (oz_Id org) states = AList.delete (oz_Id org) (journal_states (cpl_host s1))"
    using b12 unfolding beside_def host_beside_def by blast
  have ht: "cpl_host t = (cpl_host s2)\<lparr>core := core (cpl_host t)\<rparr>" by (simp add: t on_host_def)
  have "audit_ok t" "plugins_ok (cpl_host t)" "journal_closing (oz_Id org) (cpl_host t)"
    using fold1 organization_event(1,2) journal_opening_closing ht audit_ok_cong [of t s2] by (simp add: t on_host_def, metis+)
  moreover have "\<forall>e\<in>set (plugin_enablements (cpl_host t)). eb_org_id e = oz_Id org \<longrightarrow> reason_ok (discard_reason (oz_Id org))"
    using fold1 by (simp add: t on_host_def)
  moreover have "cpl_orgs t = cpl_orgs (with_org org row s) \<and> cpl_licences t = cpl_licences (with_org org row s)
      \<and> cpl_commands t = cpl_commands s \<and> audited s t"
    using b12 by (auto simp: beside_def t on_host_def s1 with_org_def audited_def)
  moreover have "cpl_host t = (cpl_host (with_org org row s))\<lparr>core := announced org (core (cpl_host (with_org org row s))),
         plugin_enablements := es, journal_states := states\<rparr>"
    by (simp add: t on_host_def h2(1) s1)
  moreover have "filter (\<lambda>e. eb_org_id e \<noteq> oz_Id org) es = plugin_enablements (cpl_host s)"
    using h2(2) none es1 by (simp add: filter_id_conv)
  moreover have "AList.delete (oz_Id org) states = AList.delete (oz_Id org) (journal_states (cpl_host s))"
    using h2(3) by (simp add: s1 with_org_def)
  moreover have "enabled_for (oz_Id org) (cpl_host s1) = []" using none by (simp add: enabled_for_def es1 filter_empty_conv)
  then have "enabled_for (oz_Id org) (cpl_host t) = enabled" using fold1 by (auto simp: t on_host_def enabled_for_def)
  moreover have "\<exists>rows. cpl_audit t = cpl_audit s @ rows \<and> list_all2 (creation_recorded mg org now) enabled rows"
    using fold1 by (auto simp: t on_host_def s1 with_org_def)
  ultimately show ?thesis using org row fresh by blast
qed

text \<open>The discard removes every enablement of the organization.\<close>

lemma discarded:
  assumes "plugins_ok (cpl_host t)" "audit_ok t" "journal_closing (oz_Id org) (cpl_host t)" "\<forall>t. length (mg_sha256 mg t) = 32"
    and reasons: "\<forall>e\<in>set (plugin_enablements (cpl_host t)). eb_org_id e = oz_Id org \<longrightarrow> reason_ok (discard_reason (oz_Id org))"
  shows "\<exists>s'. DiscardOrganization mg org now t = Inr s' \<and> beside (oz_Id org) t s'
    \<and> (\<forall>e\<in>set (plugin_enablements (cpl_host s')). eb_org_id e \<noteq> oz_Id org)"
proof -
  let ?us = "PluginInstallationsEnabledFor (oz_Id org) (cpl_host t)"
  have us: "set ?us = eb_installation_uuid ` {e \<in> set (plugin_enablements (cpl_host t)). eb_org_id e = oz_Id org}"
    by (auto simp: PluginInstallationsEnabledFor_def)
  have "?us \<noteq> [] \<longrightarrow> reason_ok (discard_reason (oz_Id org))"
  proof
    assume "?us \<noteq> []"
    then obtain v where "v \<in> set ?us" by (cases ?us) auto
    then show "reason_ok (discard_reason (oz_Id org))" using reasons unfolding us by auto
  qed
  moreover have "\<forall>v\<in>set ?us. \<exists>i. find_installation v (cpl_host t) = Some i"
    using assms(1) find_installation_in unfolding us plugins_ok_def enablements_ok_def enablement_ok_def by fastforce
  ultimately obtain s' where "try_fold (discard_organization_for mg org now) ?us t = Inr s'" "beside (oz_Id org) t s'"
    "\<forall>e\<in>set (plugin_enablements (cpl_host s')). e \<in> set (plugin_enablements (cpl_host t))
         \<and> (eb_org_id e = oz_Id org \<longrightarrow> eb_installation_uuid e \<notin> set ?us)"
    using discard_fold [OF assms(2,1,3) _ assms(4)] by blast
  then show ?thesis unfolding DiscardOrganization_def us by blast
qed

section \<open>Properties\<close>

text \<open>
  The name of a new organization is found at the first attempt and has at most 50 characters if the prefix has at most
  19, as it has without a prefix and with any that the API accepts (15); with a prefix longer than 38 the loop never ends.
\<close>

theorem generated_name:
  assumes "\<forall>k n. 0 < n \<longrightarrow> rf k n < n"
  shows "(length prefix \<le> 19 \<longrightarrow> (\<exists>name. (\<forall>fuel. generateRandomOrgNameAndSuffix (Suc fuel) rf prefix = Some name)
      \<and> length name \<le> 50 \<and> name \<noteq> ''''))
    \<and> (38 < length prefix \<longrightarrow> (\<forall>fuel. generateRandomOrgNameAndSuffix fuel rf prefix = None))"
proof -
  define first where "first = (if prefix = '''' then orgNameAdjectives ! rf 0 (length orgNameAdjectives) else prefix)"
  define k where "k = (if prefix = '''' then 1 else 0 :: nat)"
  have gen: "generateRandomOrgNameAndSuffix fuel rf prefix = name_loop fuel rf k first" for fuel
    by (simp add: generateRandomOrgNameAndSuffix_def first_def k_def)
  have "orgNameAdjectives ! rf 0 (length orgNameAdjectives) \<in> set orgNameAdjectives" using assms name_words_nonempty by auto
  then have "length first \<le> 19" if "length prefix \<le> 19" using that name_word_lengths(1) by (fastforce simp: first_def)
  then have "length prefix \<le> 19 \<Longrightarrow> (\<forall>fuel. name_loop (Suc fuel) rf k first = Some (name_attempt rf k first))
      \<and> length (name_attempt rf k first) \<le> 50 \<and> name_attempt rf k first \<noteq> ''''"
    using name_loop_first [OF assms] name_attempt_length [OF assms, where prefix = first and k = k] by fastforce
  moreover have "38 < length prefix \<Longrightarrow> name_loop fuel rf k first = None" for fuel
    using name_loop_endless [OF assms] by (auto simp: first_def)
  ultimately show ?thesis unfolding gen by blast
qed

theorem generated_name_witness:
  "\<exists>name. (\<forall>fuel. generateRandomOrgNameAndSuffix (Suc fuel) (\<lambda>k n. k mod n) ''workshop'' = Some name) \<and> length name \<le> 50 \<and> name \<noteq> ''''"
  using generated_name [of "\<lambda>k n. k mod n" "''workshop''"] by simp

text \<open>
  C21. A creation that fails leaves no organization. If the organization cannot be created, nothing changes. If it was
  created, with the plugins \<open>us\<close> enabled, and IAM refuses the administrator, everything is as it was before, enablements
  and journal included, but for the event that announced the organization and for the audit, which has exactly one record of
  each enablement that Core made, in their order, and then one of each that it removed again, with the actor, the cause and
  the reason of both; the revision counts these records.
\<close>

theorem failed_creation_leaves_nothing:
  assumes ok: "plugins_ok (cpl_host s)" "audit_ok s" and absent: "org_absent obs (oz_Id req) u s"
    and sha: "\<forall>t. length (mg_sha256 mg t) = 32"
    and failed: "createOrganizationCore (Some mg) obs membership u now req admin s = (Inl e, s')"
  shows "create_organization (Some mg) u now req s = Inl e \<and> s' = s
    \<or> (\<exists>org us t made removed. create_organization (Some mg) u now req s = Inr (org, us, t) \<and> oz_Id org = oz_Id req \<and> oz_Uuid org = u
         \<and> list_all2 (creation_recorded mg org now) us made \<and> list_all2 (discard_recorded mg org now) (sort us) removed
         \<and> s' = s\<lparr>cpl_revision := cpl_revision s + int (length made + length removed), cpl_audit := cpl_audit s @ made @ removed,
             cpl_host := (cpl_host s)\<lparr>core := appendModuleCoreOutboxEvent organization_created
               [(''org_id'', JStr (oz_Id req)), (''org_uuid'', JStr u)] (core (cpl_host s))\<rparr>\<rparr>)"
proof (cases "create_organization (Some mg) u now req s")
  case (Inl e')
  then show ?thesis using failed by (simp add: createOrganizationCore_def)
next
  case (Inr r)
  then obtain org enabled t where c: "create_organization (Some mg) u now req s = Inr (org, enabled, t)" by (metis prod_cases3)
  from created [OF c ok absent] obtain row es states where org: "oz_Id org = oz_Id req" "oz_Uuid org = u"
    and row: "oz_Id row = oz_Id org" "oz_Uuid row = oz_Uuid org" and fresh: "oz_Id org \<notin> oz_Id ` set (cpl_orgs s)"
    and t_ok: "plugins_ok (cpl_host t)" "audit_ok t" "journal_closing (oz_Id org) (cpl_host t)"
    and reasons: "\<forall>e\<in>set (plugin_enablements (cpl_host t)). eb_org_id e = oz_Id org \<longrightarrow> reason_ok (discard_reason (oz_Id org))"
    and t: "cpl_orgs t = cpl_orgs (with_org org row s)" "cpl_licences t = cpl_licences (with_org org row s)"
      "cpl_commands t = cpl_commands s" "audited s t"
      "cpl_host t = (cpl_host (with_org org row s))\<lparr>core := announced org (core (cpl_host (with_org org row s))),
         plugin_enablements := es, journal_states := states\<rparr>"
    and es: "filter (\<lambda>e. eb_org_id e \<noteq> oz_Id org) es = plugin_enablements (cpl_host s)"
    and states: "AList.delete (oz_Id org) states = AList.delete (oz_Id org) (journal_states (cpl_host s))"
    and enabled: "enabled_for (oz_Id org) (cpl_host t) = enabled"
    and made: "\<exists>rows. cpl_audit t = cpl_audit s @ rows \<and> list_all2 (creation_recorded mg org now) enabled rows" by metis
  from discarded [OF t_ok sha reasons] obtain s3 where d: "DiscardOrganization mg org now t = Inr s3" "beside (oz_Id org) t s3"
    "\<forall>e\<in>set (plugin_enablements (cpl_host s3)). eb_org_id e \<noteq> oz_Id org" by blast
  obtain es3 st3 where h3: "cpl_host s3 = (cpl_host t)\<lparr>plugin_enablements := es3, journal_states := st3\<rparr>"
    "filter (\<lambda>e. eb_org_id e \<noteq> oz_Id org) es3 = filter (\<lambda>e. eb_org_id e \<noteq> oz_Id org) (plugin_enablements (cpl_host t))"
    "AList.delete (oz_Id org) st3 = AList.delete (oz_Id org) (journal_states (cpl_host t))"
    using d(2) unfolding beside_def host_beside_def by blast
  have "filter (\<lambda>e. eb_org_id e \<noteq> oz_Id org) es3 = es3" using d(3) by (auto simp: h3(1) filter_id_conv)
  then have es3: "es3 = plugin_enablements (cpl_host s)" using h3(2) es by (simp add: t(5))
  have host3: "cpl_host s3 = (cpl_host (with_org org row s))\<lparr>core := announced org (core (cpl_host (with_org org row s))),
      plugin_enablements := plugin_enablements (cpl_host s), journal_states := st3\<rparr>"
    unfolding h3(1) t(5) es3 by simp
  have st3: "AList.delete (oz_Id org) st3 = AList.delete (oz_Id org) (journal_states (cpl_host s))"
    using h3(3) states by (simp add: t(5))
  have others: "cpl_orgs s3 = cpl_orgs (with_org org row s)" "cpl_licences s3 = cpl_licences (with_org org row s)"
    "cpl_commands s3 = cpl_commands s" "audited s s3" using d(2) t audited_trans by (auto simp: beside_def)
  note del = delete_created [OF absent [folded org] fresh row others(1,2) host3 [unfolded announced_def] st3]
  have "discardOrganization (Some mg) obs org now t = DeleteOrg obs (oz_Id org) s3" by (simp add: discardOrganization_def d(1))
  then have s': "s' = s3\<lparr>cpl_orgs := cpl_orgs s, cpl_licences := cpl_licences s,
      cpl_host := (cpl_host s)\<lparr>core := appendModuleCoreOutboxEvent organization_created
        [(''org_id'', JStr (oz_Id org)), (''org_uuid'', JStr (oz_Uuid org))] (core (cpl_host s))\<rparr>\<rparr>"
    using failed del by (simp add: createOrganizationCore_def c split: option.splits)
  have "try_fold (discard_organization_for mg org now) (sort enabled) t = Inr s3"
    using d(1) by (simp add: DiscardOrganization_def PluginInstallationsEnabledFor_def enabled [unfolded enabled_for_def])
  from discards_recorded [OF this t_ok(2)] made obtain made removed where
    rows: "list_all2 (creation_recorded mg org now) enabled made" "list_all2 (discard_recorded mg org now) (sort enabled) removed"
      "cpl_audit s3 = cpl_audit s @ made @ removed" by auto
  then have "cpl_revision s3 = cpl_revision s + int (length made + length removed)" using others(4) by (auto simp: audited_def)
  from control_plane_merge [OF rows(3) this others(3)] show ?thesis using rows(1,2) org c unfolding s' by auto
qed

text \<open>A second organization, served by the plugin from the start, whose creator IAM does not know.\<close>

definition example_failed_creation :: "Org result \<times> control_plane" where
  "example_failed_creation = createOrganizationCore (Some example_manager) (\<lambda>i. False) (\<lambda>i user. Some (NewErrNotFound ''user not found''))
     ''o2'' 5 (example_org ''beta'' '''') (Some ''bob'') (example_plane ''all'')"

theorem failed_creation_leaves_nothing_witness:
  "cpl_revision (snd example_failed_creation) = 2
   \<and> (\<exists>made removed. map ka_Action made = [''plugin_enablement.put''] \<and> map ka_Action removed = [''plugin_enablement.remove'']
        \<and> snd example_failed_creation = (example_plane ''all'')\<lparr>cpl_revision := cpl_revision (example_plane ''all'') + 2,
        cpl_audit := cpl_audit (example_plane ''all'') @ made @ removed,
        cpl_host := (cpl_host (example_plane ''all''))\<lparr>core := appendModuleCoreOutboxEvent organization_created
          [(''org_id'', JStr ''beta''), (''org_uuid'', JStr ''o2'')] (core (cpl_host (example_plane ''all'')))\<rparr>\<rparr>)"
proof -
  have result: "fst example_failed_creation = Inl (NewErrNotFound ''user not found'') \<and> cpl_revision (snd example_failed_creation) = 2"
    by code_simp
  then have failed: "createOrganizationCore (Some example_manager) (\<lambda>i. False) (\<lambda>i user. Some (NewErrNotFound ''user not found'')) ''o2'' 5
      (example_org ''beta'' '''') (Some ''bob'') (example_plane ''all'') = (Inl (NewErrNotFound ''user not found''), snd example_failed_creation)"
    by (metis example_failed_creation_def prod.collapse)
  have "org_absent (\<lambda>i. False) (oz_Id (example_org ''beta'' '''')) ''o2'' (example_plane ''all'')" by code_simp
  from failed_creation_leaves_nothing [OF example_plugins_ok example_audit_ok this example_sha failed]
  obtain org us t made removed where rows: "list_all2 (creation_recorded example_manager org 5) us made"
    "list_all2 (discard_recorded example_manager org 5) (sort us) removed"
    and s': "snd example_failed_creation = (example_plane ''all'')\<lparr>cpl_revision := cpl_revision (example_plane ''all'')
        + int (length made + length removed), cpl_audit := cpl_audit (example_plane ''all'') @ made @ removed,
      cpl_host := (cpl_host (example_plane ''all''))\<lparr>core := appendModuleCoreOutboxEvent organization_created
          [(''org_id'', JStr ''beta''), (''org_uuid'', JStr ''o2'')] (core (cpl_host (example_plane ''all'')))\<rparr>\<rparr>"
    using result by (auto simp: example_plane_def example_org_def)
  have "cpl_revision (example_plane ''all'') = 0" by (simp add: example_plane_def)
  then have two: "length made + length removed = 2" using result arg_cong [OF s', of cpl_revision] by simp
  have "length made = length us" "length removed = length us" using rows by (auto dest: list_all2_lengthD)
  with two obtain u where us: "us = [u]" by (cases us; cases "tl us") auto
  with rows obtain a b where "made = [a]" "removed = [b]" "creation_recorded example_manager org 5 u a"
    "discard_recorded example_manager org 5 u b" by (auto simp: list_all2_Cons1)
  then have "map ka_Action made = [''plugin_enablement.put''] \<and> map ka_Action removed = [''plugin_enablement.remove'']"
    by (simp add: creation_recorded_def discard_recorded_def system_recorded_def)
  moreover have "int (length made + length removed) = 2" using two by simp
  ultimately show ?thesis using result s' by metis
qed

end
