(* ===== verification/PluginEffects.thy ===== *)
theory PluginEffects
  imports ManagerTables
begin

text \<open>
  Effects of plugins in Core (\<^verbatim>\<open>internal/api/plugin_entitlements.go\<close>): every command of a plugin that changes
  Core runs in a transaction which first verifies, in the database, that the plugin is still installed and enabled and that
  its licence covers the feature. What the caller read before is only a preflight. The HTTP errors of the API are errors of
  the model with the same code.
\<close>

section \<open>The preflight\<close>

fun availability_text :: "AvailabilityState \<Rightarrow> string" where
  "availability_text StateAvailable = ''available''"
| "availability_text StateNotInstalled = ''not_installed''"
| "availability_text StateNotEnabled = ''not_enabled''"
| "availability_text StateNotEntitled = ''not_entitled''"
| "availability_text StateIncompatible = ''incompatible''"
| "availability_text StateUnavailable = ''unavailable''"

definition service_policy :: "Installation \<Rightarrow> string \<Rightarrow> ServiceGrant option" where
  "service_policy item action = find (\<lambda>g. sg_Action g = action) (iv_ServiceGrants item)"

definition pluginFeatureAllowed :: "Descriptor \<Rightarrow> string \<Rightarrow> bool \<Rightarrow> bool \<Rightarrow> unit result" where
  "pluginFeatureAllowed descriptor feature mutating safety =
     (if Allows descriptor feature mutating safety then Inr ()
      else let state = (if ds_State descriptor = StateAvailable then StateNotEntitled else ds_State descriptor) in
        Inl (ErrConflict (''plugin_'' @ availability_text state) ''The plugin cannot perform this action.''))"

definition pluginServiceAllowed :: "Installation \<Rightarrow> Descriptor \<Rightarrow> string \<Rightarrow> bool \<Rightarrow> bool \<Rightarrow> unit result" where
  "pluginServiceAllowed item descriptor action mutating safety =
     (case service_policy item action of
        None \<Rightarrow> Inl (ErrInternal ''plugin_service_forbidden'')
      | Some policy \<Rightarrow> pluginFeatureAllowed descriptor (sg_RequiredFeature policy) mutating safety)"

definition pluginServiceWarning :: "Installation \<Rightarrow> Descriptor \<Rightarrow> string \<Rightarrow> EntitlementWarning option" where
  "pluginServiceWarning item descriptor action =
     (case (service_policy item action, ds_Entitlement descriptor) of
        (Some policy, Some status) \<Rightarrow> GraceWarning status [sg_RequiredFeature policy]
      | _ \<Rightarrow> None)"

section \<open>The transaction of an effect\<close>

text \<open>
  A transaction is opened, or refused with the state that stays: a refusal for the licence commits what the decision has
  observed. \<open>writable\<close> is whether the caller asks for a writable transaction of the isolation level \<^verbatim>\<open>READ COMMITTED\<close>.
\<close>

datatype effect_transaction = Opened control_plane | Refused model_error control_plane

definition plugin_use :: "string \<Rightarrow> Installation \<Rightarrow> bool \<Rightarrow> PluginUse" where
  "plugin_use org item safety =
     \<lparr>us_OrgID = org, us_PluginID = iv_ID item, us_InstallationID = iv_InstallationID item,
      us_PackageSHA256 = iv_ManifestSHA256 item, us_Safety = safety\<rparr>"

definition not_entitled :: model_error where
  "not_entitled = ErrConflict ''plugin_not_entitled'' ''The plugin requires a verified signed licence before this operation can proceed.''"

definition observation_kept :: "string \<Rightarrow> bool" where
  "observation_kept code \<longleftrightarrow> code = ''plugin_not_entitled'' \<or> code = ''plugin_not_enabled''"

definition BeginTx ::
    "adapter option \<Rightarrow> platform \<Rightarrow> string \<Rightarrow> Installation \<Rightarrow> string \<Rightarrow> bool \<Rightarrow> bool \<Rightarrow> timestamp \<Rightarrow> control_plane \<Rightarrow> effect_transaction" where
  "BeginTx guard pf org item action safety writable now s =
     (let licensed = Licensed item;
          feature = (case service_policy item action of None \<Rightarrow> '''' | Some policy \<Rightarrow> sg_RequiredFeature policy) in
      if licensed \<and> (feature = '''' \<or> guard = None) then Refused not_entitled s
      else if \<not> writable then Refused (ErrInternal ''plugin_effect_transaction_invalid'') s
      else case RequirePluginEnablement (plugin_use org item safety) (cpl_host s) of
        Inl e \<Rightarrow> Refused e s
      | Inr _ \<Rightarrow>
          if \<not> licensed then Opened s
          else case Guard guard pf org item feature True safety now (cpl_licences s) of
            Inl e \<Rightarrow> Refused e s
          | Inr (None, l) \<Rightarrow> Opened (s\<lparr>cpl_licences := l\<rparr>)
          | Inr (Some code, l) \<Rightarrow>
              Refused (ErrConflict code '''') (if observation_kept code then s\<lparr>cpl_licences := l\<rparr> else s))"

text \<open>An effect \<open>f\<close> in such a transaction. If it fails, everything is rolled back.\<close>

definition plugin_effect ::
    "adapter option \<Rightarrow> platform \<Rightarrow> string \<Rightarrow> Installation \<Rightarrow> string \<Rightarrow> bool \<Rightarrow> timestamp \<Rightarrow> (host \<Rightarrow> ('r \<times> host) result)
       \<Rightarrow> control_plane \<Rightarrow> 'r result \<times> control_plane" where
  "plugin_effect guard pf org item action safety now f s =
     (case BeginTx guard pf org item action safety True now s of
        Refused e s1 \<Rightarrow> (Inl e, s1)
      | Opened s1 \<Rightarrow> (case f (cpl_host s1) of Inl e \<Rightarrow> (Inl e, s) | Inr (r, h) \<Rightarrow> (Inr r, s1\<lparr>cpl_host := h\<rparr>)))"

section \<open>Lemmas\<close>

lemma Opened_enabled:
  assumes "BeginTx guard pf org item action safety writable now s = Opened s1"
  shows "RequirePluginEnablement (plugin_use org item safety) (cpl_host s) = Inr ()" "\<exists>l. s1 = s\<lparr>cpl_licences := l\<rparr>"
proof -
  show "RequirePluginEnablement (plugin_use org item safety) (cpl_host s) = Inr ()"
    using assms by (auto simp: BeginTx_def Let_def split: if_splits sum.splits)
  have "s1 = s \<or> (\<exists>l. s1 = s\<lparr>cpl_licences := l\<rparr>)"
    using assms by (auto simp: BeginTx_def Let_def split: if_splits sum.splits option.splits)
  moreover have "s = s\<lparr>cpl_licences := cpl_licences s\<rparr>" by simp
  ultimately show "\<exists>l. s1 = s\<lparr>cpl_licences := l\<rparr>" by metis
qed

lemma Refused_licences:
  assumes "BeginTx guard pf org item action safety writable now s = Refused e s1"
  shows "\<exists>l. s1 = s\<lparr>cpl_licences := l\<rparr>"
proof -
  have "s1 = s \<or> (\<exists>l. s1 = s\<lparr>cpl_licences := l\<rparr>)"
    using assms by (auto simp: BeginTx_def Let_def split: if_splits sum.splits option.splits)
  moreover have "s = s\<lparr>cpl_licences := cpl_licences s\<rparr>" by simp
  ultimately show ?thesis by metis
qed

lemma Opened_guarded:
  assumes "BeginTx guard pf org item action safety writable now s = Opened s1" "Licensed item"
  shows "\<exists>a policy l. guard = Some a \<and> service_policy item action = Some policy
    \<and> Guard (Some a) pf org item (sg_RequiredFeature policy) True safety now (cpl_licences s) = Inr (None, l)"
  using assms by (auto simp: BeginTx_def Let_def split: if_splits sum.splits option.splits)

lemma plugin_effect_Inr:
  "plugin_effect guard pf org item action safety now f s = (Inr r, s') \<longleftrightarrow>
     (\<exists>s1 h. BeginTx guard pf org item action safety True now s = Opened s1 \<and> f (cpl_host s1) = Inr (r, h) \<and> s' = s1\<lparr>cpl_host := h\<rparr>)"
  by (auto simp: plugin_effect_def split: effect_transaction.splits sum.splits)

lemma plugin_effect_Inl:
  assumes "plugin_effect guard pf org item action safety now f s = (Inl e, s')"
  shows "\<exists>l. s' = s\<lparr>cpl_licences := l\<rparr>"
proof -
  have "s' = s \<or> BeginTx guard pf org item action safety True now s = Refused e s'"
    using assms by (auto simp: plugin_effect_def split: effect_transaction.splits sum.splits)
  moreover have "s = s\<lparr>cpl_licences := cpl_licences s\<rparr>" by simp
  ultimately show ?thesis using Refused_licences by metis
qed

section \<open>Properties\<close>


text \<open>The example plugin of Licensing, whose package lets it promote modules with the feature \<^verbatim>\<open>basic\<close>.\<close>

definition example_effect_item :: Installation where
  "example_effect_item = example_item\<lparr>iv_ServiceGrants :=
     [\<lparr>sg_RequiredFeature = ''basic'', sg_Action = ''module.promote'', sg_Permission = '''', sg_Scope = ''org''\<rparr>]\<rparr>"

definition example_effect_plane :: control_plane where
  "example_effect_plane = \<lparr>cpl_host = example_licensed_host, cpl_licences = example_imported, cpl_orgs = [], cpl_revision = 0,
     cpl_commands = [], cpl_audit = []\<rparr>"

definition example_effect :: "host \<Rightarrow> (nat \<times> host) result" where
  "example_effect h = Inr (1, h\<lparr>core := appendModuleCoreOutboxEvent ''promoted'' [] (core h)\<rparr>)"

lemma Guard_service_grants: "Guard guard pf org (item\<lparr>iv_ServiceGrants := gs\<rparr>) = Guard guard pf org item"
proof -
  have licensed: "Licensed (item\<lparr>iv_ServiceGrants := gs\<rparr>) = Licensed item" by (simp add: Licensed_def)
  have same: "iv_ID (item\<lparr>iv_ServiceGrants := gs\<rparr>) = iv_ID item"
    "iv_InstallationID (item\<lparr>iv_ServiceGrants := gs\<rparr>) = iv_InstallationID item"
    "iv_Entitlement (item\<lparr>iv_ServiceGrants := gs\<rparr>) = iv_Entitlement item"
    "iv_Organizations (item\<lparr>iv_ServiceGrants := gs\<rparr>) = iv_Organizations item" by simp_all
  have b: "adapter_binding guard pf org (item\<lparr>iv_ServiceGrants := gs\<rparr>) l = adapter_binding guard pf org item l" for l
    unfolding adapter_binding_def licensed same ..
  show ?thesis unfolding Guard_def licensed b ..
qed

lemma example_effect_opened: "\<exists>s1. BeginTx (Some example_adapter) example_platform ''acme'' example_effect_item ''module.promote'' False True 3
    example_effect_plane = Opened s1 \<and> cpl_host s1 = example_licensed_host"
proof -
  have "Licensed example_effect_item"
    by (simp add: example_effect_item_def example_item_def view_def Licensed_def example_licensed_manifest_def)
  moreover have "plugin_use ''acme'' example_effect_item False = plugin_use ''acme'' example_item False"
    by (simp add: plugin_use_def example_effect_item_def)
  then have "RequirePluginEnablement (plugin_use ''acme'' example_effect_item False) (cpl_host example_effect_plane) = Inr ()"
    using example_enabled by (simp add: adapter_enabled_def plugin_use_def example_effect_plane_def)
  moreover have "service_policy example_effect_item ''module.promote''
      = Some \<lparr>sg_RequiredFeature = ''basic'', sg_Action = ''module.promote'', sg_Permission = '''', sg_Scope = ''org''\<rparr>"
    by (simp add: service_policy_def example_effect_item_def)
  moreover obtain l where "Guard (Some example_adapter) example_platform ''acme'' example_effect_item ''basic'' True False 3
      (cpl_licences example_effect_plane) = Inr (None, l)"
    using example_guard by (auto simp: example_effect_item_def Guard_service_grants example_effect_plane_def)
  ultimately show ?thesis by (simp add: BeginTx_def example_effect_plane_def)
qed


end
