(* ===== verification/ManagerHistory.thy ===== *)
theory ManagerHistory
  imports ManagerCommands Organizations PluginEffects Retries
begin

text \<open>
  Histories of the Plugin Manager: any sequence of operator commands, of changes that Core makes on its own when
  organizations come and go, of status reports and capability reconciliations, of effects of plugins, and of whatever else
  Core does to its other tables in between.
\<close>

section \<open>Steps\<close>

text \<open>
  \<open>same_plugins\<close>: the tables of the Plugin Manager are left alone. What a plugin does in Core runs as a
  \<open>plugin_effect\<close> and adds unsettled work for that plugin only; the rest of Core adds none.
\<close>

definition same_plugins :: "host \<Rightarrow> host \<Rightarrow> bool" where
  "same_plugins h h' \<longleftrightarrow> plugin_packages h' = plugin_packages h \<and> plugin_installations h' = plugin_installations h
     \<and> plugin_enablements h' = plugin_enablements h \<and> plugin_registrations h' = plugin_registrations h"

definition unsettled :: "string \<Rightarrow> host \<Rightarrow> bool" where
  "unsettled plugin h \<longleftrightarrow> \<not> Settled (UnsettledPluginWork plugin h)"

inductive manager_step :: "manager \<Rightarrow> (string \<Rightarrow> bool) \<Rightarrow> control_plane \<Rightarrow> control_plane \<Rightarrow> bool"
  for mg :: manager and obs :: "string \<Rightarrow> bool" where
  command: "operate mg c now op s = Inr (response, s') \<Longrightarrow> manager_step mg obs s s'"
| status: "observe_status mg u report now s = Inr (observed, s') \<Longrightarrow> manager_step mg obs s s'"
| reconciled: "try_host (RecordPluginCapabilityReconciliation r) s = Inr s' \<Longrightarrow> manager_step mg obs s s'"
| created: "create_organization (Some mg) u now req s = Inr (org, enabled, s') \<Longrightarrow> manager_step mg obs s s'"
| discarded: "discardOrganization (Some mg) obs org now s = Inr s' \<Longrightarrow> manager_step mg obs s s'"
| updated: "UpdateOrg i request s = Inr (org, s') \<Longrightarrow> manager_step mg obs s s'"
| effect: "plugin_effect guard pf org item action safety now f s = (result :: unit result, s') \<Longrightarrow>
    (\<forall>h r h'. f h = Inr (r, h') \<longrightarrow> same_plugins h h' \<and> (\<forall>p. unsettled p h' \<longrightarrow> unsettled p h \<or> p = iv_ID item)) \<Longrightarrow>
    manager_step mg obs s s'"
| core_work: "same_plugins (cpl_host s) h \<Longrightarrow> \<forall>p. unsettled p h \<longrightarrow> unsettled p (cpl_host s) \<Longrightarrow>
    manager_step mg obs s (s\<lparr>cpl_host := h, cpl_licences := l\<rparr>)"

inductive_cases manager_stepE: "manager_step mg obs s s'"

abbreviation manager_run :: "manager \<Rightarrow> (string \<Rightarrow> bool) \<Rightarrow> control_plane \<Rightarrow> control_plane \<Rightarrow> bool" where
  "manager_run mg obs \<equiv> (manager_step mg obs)\<^sup>*\<^sup>*"

section \<open>The log\<close>

text \<open>A command that Core accepts, whatever the state.\<close>

definition command_valid :: "Command \<Rightarrow> bool" where
  "command_valid c \<longleftrightarrow> kc_Actor c \<noteq> Nil_uuid \<and> kc_IdempotencyKey c \<noteq> '''' \<and> TrimSpace (kc_Reason c) \<noteq> ''''
     \<and> length (TrimSpace (kc_Reason c)) \<le> 1000 \<and> 0 \<le> kc_ExpectedRevision c"

definition payload_valid :: "command_payload \<Rightarrow> bool" where
  "payload_valid payload \<longleftrightarrow> (\<forall>digest m. payload = PackagePayload digest m \<longrightarrow> Validate m = None \<and> manifestDigest digest)"

definition recorded_command :: "manager \<Rightarrow> Command \<Rightarrow> string \<Rightarrow> command_payload \<Rightarrow> command_response \<Rightarrow> control_plane \<Rightarrow> bool" where
  "recorded_command mg c name payload r s \<longleftrightarrow> command_valid c \<and> payload_valid payload \<and> replayed mg c name payload r s"

definition log_grows :: "control_plane \<Rightarrow> control_plane \<Rightarrow> bool" where
  "log_grows s s' \<longleftrightarrow> (\<exists>rows. cpl_commands s' = cpl_commands s @ rows)"

lemma log_grows_refl [simp]: "cpl_commands s' = cpl_commands s \<Longrightarrow> log_grows s s'"
  by (simp add: log_grows_def)

lemma log_grows_trans: "log_grows s s' \<Longrightarrow> log_grows s' s'' \<Longrightarrow> log_grows s s''"
  by (fastforce simp: log_grows_def)

lemma log_grows_find: "log_grows s s' \<Longrightarrow> find_command k s = Some r \<Longrightarrow> find_command k s' = Some r"
  by (auto simp: log_grows_def find_command_def find_append)

lemma replayed_grows: "log_grows s s' \<Longrightarrow> replayed mg c name payload r s \<Longrightarrow> replayed mg c name payload r s'"
  using log_grows_find by (fastforce simp: replayed_def)

lemma record_fields:
  assumes "recordPluginManagerChange n actor requestID reason key change now s = Inr s'"
  shows "cpl_host s' = cpl_host s" "cpl_licences s' = cpl_licences s" "cpl_orgs s' = cpl_orgs s" "cpl_commands s' = cpl_commands s"
  using assms by (auto simp: recordPluginManagerChange_def Let_def)

lemma execute_records:
  assumes run: "execute mg c name payload now mutate respond s = Inr (r, s')"
    and frame: "\<And>ch s1. mutated (mutate s) = Inr (ch, s1) \<Longrightarrow> host_only s s1"
  shows "command_valid c \<and> replayed mg c name payload r s' \<and> log_grows s s'"
proof -
  have keep: "cpl_commands s1 = cpl_commands s" if "mutate s = Inr (ch, x, s1)" for ch x s1
    using frame [of ch s1] that host_only_fields by (auto simp: mutated_Inr)
  have valid: "command_valid c"
    using run by (auto simp: execute_def ExecutePluginManagerCommand_def Let_def command_valid_def)
  show ?thesis
  proof (cases "find_command (mg_sha256 mg (kc_IdempotencyKey c)) s")
    case (Some q)
    then show ?thesis using run valid
      by (auto simp: execute_def ExecutePluginManagerCommand_def Let_def replayed_def)
  next
    case None
    from run None obtain ch x s1 s2 where m: "mutate s = Inr (ch, x, s1)"
      and rec: "(case ch of None \<Rightarrow> Inr s1 | Some change \<Rightarrow> recordPluginManagerChange (cpl_revision s + 1) (kc_Actor c) (kc_RequestID c)
        (TrimSpace (kc_Reason c)) (mg_sha256 mg (kc_IdempotencyKey c)) change now s1) = Inr s2"
      and s': "s' = s2\<lparr>cpl_commands := cpl_commands s2 @ [command_row mg c name payload now r]\<rparr>"
      unfolding execute_def ExecutePluginManagerCommand_def Let_def PluginManagerCommand.simps by (auto simp: command_row_def)
    have "cpl_commands s2 = cpl_commands s" using rec keep [OF m] record_fields(4) by (auto split: option.splits)
    then show ?thesis using valid None by (simp add: s' replayed_def find_command_def find_append log_grows_def command_row_def)
  qed
qed

lemma execute_replays:
  assumes "command_valid c" "replayed mg c name payload r s"
  shows "execute mg c name payload now mutate respond s = Inr (r, s)"
  using assms by (auto simp: execute_def ExecutePluginManagerCommand_def Let_def command_valid_def replayed_def command_fingerprint_def)

lemma operate_records:
  assumes "operate mg c now op s = Inr (r, s')"
  shows "recorded_command mg c (command_name op) (payload_of mg op) r s' \<and> log_grows s s'"
proof -
  note frame = change_host_only [where mg = mg and actor = "kc_Actor c" and now = now and s = s]
  show ?thesis
  proof (cases op)
    case (OpPush digest m)
    have "execute mg c ''plugin_package.push'' (PackagePayload digest m) now (push_package_change digest m (kc_Actor c) now)
        (\<lambda>r revision s'. try_then (GetPluginPackage digest (cpl_host s')) (\<lambda>p. Inr (PackageResponse p revision))) s = Inr (r, s')"
      using assms OpPush by (simp add: PushPackage_def)
    from execute_records [OF this] show ?thesis
      using frame [of op] OpPush push_valid assms by (auto simp: recorded_command_def payload_valid_def)
  next
    case (OpCreate u digest backend uiOrigin)
    show ?thesis using execute_records [OF assms [unfolded OpCreate operate.simps CreateInstallation_def]] frame [of op] OpCreate
      by (simp add: recorded_command_def payload_valid_def)
  next
    case (OpIdentity u serviceUser checker)
    show ?thesis using execute_records [OF assms [unfolded OpIdentity operate.simps SetIdentity_def]] frame [of op] OpIdentity
      by (simp add: recorded_command_def payload_valid_def)
  next
    case (OpTransition u action)
    show ?thesis using execute_records [OF assms [unfolded OpTransition operate.simps Transition_def]] frame [of op] OpTransition
      by (simp add: recorded_command_def payload_valid_def)
  next
    case (OpActivate u observed)
    show ?thesis using execute_records [OF assms [unfolded OpActivate operate.simps activate_command_def]] frame [of op] OpActivate
      by (simp add: recorded_command_def payload_valid_def)
  next
    case (OpUpgrade u digest)
    show ?thesis using execute_records [OF assms [unfolded OpUpgrade operate.simps Upgrade_def]] frame [of op] OpUpgrade
      by (simp add: recorded_command_def payload_valid_def)
  next
    case (OpEnablement u org state timezone policies)
    show ?thesis using execute_records [OF assms [unfolded OpEnablement operate.simps PutEnablement_def]] frame [of op] OpEnablement
      by (simp add: recorded_command_def payload_valid_def)
  next
    case (OpRemove u org)
    show ?thesis using execute_records [OF assms [unfolded OpRemove operate.simps RemoveEnablement_def]] frame [of op] OpRemove
      by (simp add: recorded_command_def payload_valid_def)
  next
    case (OpMode u mode timezone policies)
    show ?thesis using execute_records [OF assms [unfolded OpMode operate.simps SetOrganizationMode_def]] frame [of op] OpMode
      by (simp add: recorded_command_def payload_valid_def)
  next
    case (OpImport bundle_bytes)
    show ?thesis using execute_records [OF assms [unfolded OpImport operate.simps ImportEntitlementBundle_def]] frame [of op] OpImport
      by (simp add: recorded_command_def payload_valid_def)
  qed
qed

lemma operate_replays:
  assumes "recorded_command mg c (command_name op) (payload_of mg op) r s"
  shows "operate mg c now op s = Inr (r, s)"
  using assms
  by (cases op) (auto intro!: execute_replays simp: recorded_command_def payload_valid_def PushPackage_def CreateInstallation_def SetIdentity_def Transition_def
    activate_command_def Upgrade_def PutEnablement_def RemoveEnablement_def SetOrganizationMode_def ImportEntitlementBundle_def)
section \<open>Changes by Core\<close>

lemma unsettled_core: "core h' = core h \<Longrightarrow> unsettled p h' = unsettled p h"
  by (simp add: unsettled_def UnsettledPluginWork_def)

text \<open>
  What every step does to the tables of plugins: packages are only added, rows of installations move as commands move them,
  and unsettled work comes only to plugins that Core serves.
\<close>

definition serves :: "string \<Rightarrow> host \<Rightarrow> bool" where
  "serves p h \<longleftrightarrow> (\<exists>i\<in>set (plugin_installations h). in_plugin_id i = p \<and> served_state (in_state i))"

definition tables_step :: "host \<Rightarrow> host \<Rightarrow> bool" where
  "tables_step h h' \<longleftrightarrow> packages_grow h h'
     \<and> (rows_change h h' \<and> (\<forall>p. unsettled p h' \<longrightarrow> unsettled p h)
        \<or> plugin_installations h' = plugin_installations h \<and> (\<forall>p. unsettled p h' \<longrightarrow> unsettled p h \<or> serves p h))"

text \<open>Steps that leave the packages and the rows of installations alone.\<close>

definition quiet :: "host \<Rightarrow> host \<Rightarrow> bool" where
  "quiet h h' \<longleftrightarrow> plugin_packages h' = plugin_packages h \<and> plugin_installations h' = plugin_installations h
     \<and> (\<forall>p. unsettled p h' \<longrightarrow> unsettled p h \<or> serves p h)"

lemma quietI:
  "plugin_packages h' = plugin_packages h \<Longrightarrow> plugin_installations h' = plugin_installations h \<Longrightarrow> core h' = core h \<Longrightarrow> quiet h h'"
  by (simp add: quiet_def unsettled_core [of h' h])

lemma quiet_refl: "quiet h h"
  by (simp add: quiet_def)

lemma quiet_trans: "quiet h h' \<Longrightarrow> quiet h' h'' \<Longrightarrow> quiet h h''"
  unfolding quiet_def serves_def by metis

lemma quiet_step: "quiet h h' \<Longrightarrow> tables_step h h'"
  by (simp add: quiet_def tables_step_def packages_grow_def rows_change_def)

lemma quiet_find: "quiet h h' \<Longrightarrow> find_installation u h' = find_installation u h"
  by (simp add: quiet_def find_installation_def)

text \<open>A step of the whole: well-formed tables and log stay so, the log grows, and the tables take a step.\<close>

definition keeps :: "control_plane \<Rightarrow> control_plane \<Rightarrow> bool" where
  "keeps s s' \<longleftrightarrow> plugins_ok (cpl_host s') \<and> audit_ok s' \<and> audited s s' \<and> log_grows s s'"

lemma keeps_trans: "keeps s s' \<Longrightarrow> keeps s' s'' \<Longrightarrow> keeps s s''"
  using audited_trans log_grows_trans by (fastforce simp: keeps_def)

lemma keeps_host:
  "plugins_ok h \<Longrightarrow> audit_ok s \<Longrightarrow> keeps s (s\<lparr>cpl_host := h, cpl_licences := l\<rparr>)"
  by (auto simp: keeps_def audit_ok_def)

lemma enable_for_keeps:
  assumes step: "enable_new_organization_for mg org now u (enabled, s) = Inr (enabled', s')"
    and ok: "plugins_ok (cpl_host s)" "audit_ok s"
    and served: "\<exists>i. find_installation u (cpl_host s) = Some i \<and> served_state (in_state i)"
  shows "keeps s s' \<and> quiet (cpl_host s) (cpl_host s')"
proof (cases "s' = s")
  case True
  then show ?thesis using ok by (simp add: keeps_def quiet_refl)
next
  case False
  with enable_for_Inr [OF step ok(2)] obtain i h row where i: "find_installation u (cpl_host s) = Some i"
    and put: "PutPluginEnablement (installation_of (cpl_host s) i) (defaultEnablement (installation_of (cpl_host s) i) (oz_Id org))
        (mg_system mg) now (cpl_host s) = Inr h" and s': "s' = extended row (s\<lparr>cpl_host := h\<rparr>)" "audit_ok s'" by blast
  have u: "in_installation_uuid i = u" using find_installation_Some [OF i] by simp
  have "plugins_ok h" using put_ok [OF ok(1) put, of i] i served u by simp
  moreover have "audited s s'" by (auto simp: s'(1) audited_def)
  moreover have "quiet (cpl_host s) h" using put_fields [OF put] by (simp add: quietI)
  ultimately show ?thesis using s' by (simp add: keeps_def)
qed

lemma enable_fold_keeps:
  assumes "try_fold (enable_new_organization_for mg org now) us (enabled, s) = Inr (enabled', s')"
    and "plugins_ok (cpl_host s)" "audit_ok s"
    and "\<forall>u\<in>set us. \<exists>i. find_installation u (cpl_host s) = Some i \<and> served_state (in_state i)"
  shows "keeps s s' \<and> quiet (cpl_host s) (cpl_host s')"
  using assms
proof (induction us arbitrary: enabled s)
  case Nil
  then show ?case by (simp add: keeps_def quiet_refl)
next
  case (Cons u us)
  then obtain en1 s1 where step: "enable_new_organization_for mg org now u (enabled, s) = Inr (en1, s1)"
    and rest: "try_fold (enable_new_organization_for mg org now) us (en1, s1) = Inr (enabled', s')" by (auto split: sum.splits)
  have k: "keeps s s1" "quiet (cpl_host s) (cpl_host s1)" using enable_for_keeps [OF step] Cons.prems by auto
  have "keeps s1 s' \<and> quiet (cpl_host s1) (cpl_host s')"
    using Cons.IH [OF rest] k(1) Cons.prems(4) quiet_find [OF k(2)] by (simp add: keeps_def)
  then show ?case using keeps_trans quiet_trans k by blast
qed

lemma discard_for_keeps:
  assumes step: "discard_organization_for mg org now u s = Inr s'" and ok: "plugins_ok (cpl_host s)" "audit_ok s"
  shows "keeps s s' \<and> quiet (cpl_host s) (cpl_host s')"
proof -
  from step obtain b where "system_change mg ''plugin_enablement.remove'' b (oz_Id org) (''organization-discarded:'' @ oz_Uuid org)
       (''Organization '' @ oz_Id org @ '' was removed because its creation failed.'') now
       (Inr (on_host (\<lambda>h. snd (DeletePluginEnablement (pi_PluginID b) (oz_Id org) h)) s)) = Inr s'"
    unfolding discard_organization_for_def try_then_Inr_iff by blast
  moreover have a: "audit_ok (on_host (\<lambda>h. snd (DeletePluginEnablement (pi_PluginID b) (oz_Id org) h)) s)"
    using ok(2) by (simp add: on_host_def audit_ok_def)
  ultimately obtain row where s': "s' = extended row (on_host (\<lambda>h. snd (DeletePluginEnablement (pi_PluginID b) (oz_Id org) h)) s)" "audit_ok s'"
    unfolding system_change_Inr [OF a] using extended_ok [OF a] by blast
  note d = states_only_fields [OF delete_states [where h = "cpl_host s" and org = "oz_Id org" and plugin = "pi_PluginID b"]]
  have "quiet (cpl_host s) (cpl_host s')" using d by (simp add: quietI s'(1) on_host_def)
  moreover have "audited s s'" by (auto simp: s'(1) audited_def on_host_def)
  ultimately show ?thesis using s' delete_ok [OF ok(1)] by (simp add: keeps_def on_host_def)
qed

lemma discard_fold_keeps:
  assumes "try_fold (discard_organization_for mg org now) us s = Inr s'" "plugins_ok (cpl_host s)" "audit_ok s"
  shows "keeps s s' \<and> quiet (cpl_host s) (cpl_host s')"
  using assms
proof (induction us arbitrary: s)
  case Nil
  then show ?case by (simp add: keeps_def quiet_refl)
next
  case (Cons u us)
  then obtain s1 where step: "discard_organization_for mg org now u s = Inr s1"
    and rest: "try_fold (discard_organization_for mg org now) us s1 = Inr s'" by (auto split: sum.splits)
  have k: "keeps s s1" "quiet (cpl_host s) (cpl_host s1)" using discard_for_keeps [OF step] Cons.prems by auto
  have "keeps s1 s' \<and> quiet (cpl_host s1) (cpl_host s')" using Cons.IH [OF rest] k(1) by (simp add: keeps_def)
  then show ?case using keeps_trans quiet_trans k by blast
qed
lemma created_keeps:
  assumes step: "create_organization (Some mg) u now req s = Inr (org, enabled, s')" and ok: "plugins_ok (cpl_host s)" "audit_ok s"
  shows "keeps s s' \<and> quiet (cpl_host s) (cpl_host s')"
proof -
  from step obtain s1 s2 where c: "CreateOrg (default_org now req) u s = Inr (org, s1)"
    and e: "EnableNewOrganization mg org now s1 = Inr (enabled, s2)"
    and s': "s' = on_host (\<lambda>h. h\<lparr>core := appendModuleCoreOutboxEvent organization_created
        [(''org_id'', JStr (oz_Id org)), (''org_uuid'', JStr (oz_Uuid org))] (core h)\<rparr>) s2"
    by (auto simp: create_organization_def)
  from CreateOrg_Inr [OF c] obtain row where s1: "s1 = with_org org row s" by blast
  have work: "unsettled p (h\<lparr>core := (core h)\<lparr>orgs := x\<rparr>\<rparr>) = unsettled p h"
      "unsettled p (h\<lparr>core := appendModuleCoreOutboxEvent t d (core h)\<rparr>) = unsettled p h" for p h x t d
    by (simp_all add: unsettled_def UnsettledPluginWork_def appendModuleCoreOutboxEvent_def)
  have "plugins_ok (cpl_host s1) = plugins_ok (cpl_host s)" by (rule plugins_ok_cong) (simp_all add: s1 with_org_def)
  then have k1: "keeps s s1" using ok by (simp add: keeps_def s1 with_org_def audit_ok_def)
  have q1: "quiet (cpl_host s) (cpl_host s1)" by (simp add: quiet_def s1 with_org_def work)
  have ok1: "plugins_ok (cpl_host s1)" "audit_ok s1" using k1 by (simp_all add: keeps_def)
  have "keeps s1 s2 \<and> quiet (cpl_host s1) (cpl_host s2)"
    by (rule enable_fold_keeps [OF e [unfolded EnableNewOrganization_def] ok1]) (use serving_all(2) [OF ok1(1)] in blast)
  then have k2: "keeps s1 s2" "quiet (cpl_host s1) (cpl_host s2)" by blast+
  have "plugins_ok (cpl_host s') = plugins_ok (cpl_host s2)" by (simp add: s' on_host_def organization_event)
  then have "keeps s2 s'" "quiet (cpl_host s2) (cpl_host s')"
    using k2 by (simp_all add: keeps_def quiet_def s' on_host_def audit_ok_def work)
  then show ?thesis using keeps_trans quiet_trans k1 q1 k2 by blast
qed

lemma delete_org_keeps:
  assumes del: "DeleteOrg obs i s = Inr s'" and ok: "plugins_ok (cpl_host s)" "audit_ok s"
  shows "keeps s s' \<and> quiet (cpl_host s) (cpl_host s')"
proof -
  let ?h = "cpl_host s"
  obtain states os l where s': "s' = s\<lparr>cpl_host := cascade_host i (?h\<lparr>journal_states := states\<rparr>), cpl_orgs := os, cpl_licences := l\<rparr>"
  proof (cases "map_of (event_heads ?h) i = None")
    case True
    then show ?thesis using del that [where states = "AList.delete i (journal_states ?h)"]
      by (auto simp: DeleteOrg_def Let_def split: option.splits)
  next
    case False
    then have "?h = ?h\<lparr>journal_states := journal_states ?h\<rparr>" by simp
    with False show ?thesis using del that [where states = "journal_states ?h"]
      by (auto simp: DeleteOrg_def Let_def split: option.splits)
  qed
  have "plugins_ok (cpl_host s') = plugins_ok ?h" by (rule plugins_ok_cong) (simp_all add: s' cascade_host_def)
  then show ?thesis using ok
    by (simp add: keeps_def quiet_def s' cascade_host_def audit_ok_def unsettled_def UnsettledPluginWork_def)
qed

lemma discarded_keeps:
  assumes step: "discardOrganization (Some mg) obs org now s = Inr s'" and ok: "plugins_ok (cpl_host s)" "audit_ok s"
  shows "keeps s s' \<and> quiet (cpl_host s) (cpl_host s')"
proof -
  from step obtain s1 where s1: "DiscardOrganization mg org now s = Inr s1" "DeleteOrg obs (oz_Id org) s1 = Inr s'"
    by (auto simp: discardOrganization_def)
  have k: "keeps s s1" "quiet (cpl_host s) (cpl_host s1)"
    using discard_fold_keeps [OF s1(1) [unfolded DiscardOrganization_def] ok] by blast+
  then have "keeps s1 s' \<and> quiet (cpl_host s1) (cpl_host s')" using delete_org_keeps [OF s1(2)] by (simp add: keeps_def)
  then show ?thesis using keeps_trans quiet_trans k by blast
qed

lemma effect_keeps:
  assumes step: "plugin_effect guard pf org item action safety now f s = (result :: unit result, s')"
    and frame: "\<forall>h r h'. f h = Inr (r, h') \<longrightarrow> same_plugins h h' \<and> (\<forall>p. unsettled p h' \<longrightarrow> unsettled p h \<or> p = iv_ID item)"
    and ok: "plugins_ok (cpl_host s)" "audit_ok s"
  shows "keeps s s' \<and> quiet (cpl_host s) (cpl_host s')"
proof (cases result)
  case (Inl e)
  from plugin_effect_Inl [OF step [unfolded Inl]] obtain l where "s' = s\<lparr>cpl_licences := l\<rparr>" by blast
  then show ?thesis using ok by (simp add: keeps_def quiet_refl audit_ok_def)
next
  case (Inr r)
  from step [unfolded Inr plugin_effect_Inr] obtain s1 h where b: "BeginTx guard pf org item action safety True now s = Opened s1" and f: "f (cpl_host s1) = Inr (r, h)"
    and s': "s' = s1\<lparr>cpl_host := h\<rparr>" by blast
  note enabled = Opened_enabled [OF b]
  obtain l where s1: "s1 = s\<lparr>cpl_licences := l\<rparr>" using enabled(2) by blast
  obtain i e where u: "use_enablement (plugin_use org item safety) (cpl_host s) = Some (i, e)"
    using enabled(1) by (auto simp: RequirePluginEnablement_Inr)
  then have e: "e \<in> set (plugin_enablements (cpl_host s))" "eb_plugin_id e = iv_ID item"
    by (auto simp: use_enablement_Some enablement_at_def plugin_use_def find_Some_iff)
  then have "serves (iv_ID item) (cpl_host s)"
    using ok(1) by (fastforce simp: plugins_ok_def enablements_ok_def enablement_ok_def serves_def)
  moreover have same: "same_plugins (cpl_host s) h" "\<forall>p. unsettled p h \<longrightarrow> unsettled p (cpl_host s) \<or> p = iv_ID item"
    using frame f by (auto simp: s1)
  ultimately have "quiet (cpl_host s) h" by (auto simp: quiet_def same_plugins_def)
  moreover have "plugins_ok h = plugins_ok (cpl_host s)" by (rule plugins_ok_cong) (use same in \<open>simp_all add: same_plugins_def\<close>)
  ultimately show ?thesis using ok by (simp add: keeps_def s' s1 audit_ok_def)
qed

lemma command_keeps:
  assumes step: "operate mg c now op s = Inr (response, s')" and ok: "plugins_ok (cpl_host s)" "audit_ok s"
  shows "keeps s s' \<and> tables_step (cpl_host s) (cpl_host s')"
proof (cases "s' = s")
  case True
  then show ?thesis using ok by (simp add: keeps_def quiet_refl quiet_step)
next
  case False
  with operate_Inr [OF step ok(2)] obtain ch s1 s2 where ch: "change_of mg (kc_Actor c) now op s = Inr (ch, s1)"
    and log: "logged mg c now ch s1 s2"
    and s': "s' = s2\<lparr>cpl_commands := cpl_commands s2 @ [command_row mg c (command_name op) (payload_of mg op) now response]\<rparr>"
    unfolding committed_def by blast
  note same = host_only_fields [OF change_host_only [OF ch]] and l = logged_fields [OF log]
  have valid: "\<forall>digest m. op = OpPush digest m \<longrightarrow> Validate m = None" using push_valid step by blast
  note e = change_effect [OF ch ok(1) valid]
  have a1: "audit_ok s1" using ok(2) by (simp add: audit_ok_def same)
  have "audited s s1" by (simp add: same)
  then have "audited s s2" using l(5) audited_trans by blast
  then have a: "audited s s'" "audit_ok s'" using l(6) [OF a1] by (simp_all add: s' audited_def audit_ok_def)
  have h: "cpl_host s' = cpl_host s1" using l(1) by (simp add: s')
  have "unsettled p (cpl_host s1) = unsettled p (cpl_host s)" for p by (rule unsettled_core) (rule change_core [OF ch ok(1)])
  then show ?thesis using e a conjunct2 [OF operate_records [OF step]] unfolding keeps_def tables_step_def h by blast
qed

text \<open>Every step keeps the tables and the log and takes a step on the tables.\<close>

lemma manager_step_keeps:
  assumes "manager_step mg obs s s'" "plugins_ok (cpl_host s)" "audit_ok s"
  shows "keeps s s' \<and> tables_step (cpl_host s) (cpl_host s')"
  using assms(1)
proof cases
  case (status u report now observed)
  then have "s' = s \<or> (\<exists>h. s' = s\<lparr>cpl_host := h\<rparr> \<and> (\<exists>x. h = (cpl_host s)\<lparr>status_observations := x\<rparr>))"
    by (auto simp: observe_status_def RecordPluginStatusObservation_def try_host_Inr split: if_splits)
  moreover have "plugins_ok (h\<lparr>status_observations := x\<rparr>) = plugins_ok h" for h x by (rule plugins_ok_cong) simp_all
  moreover have "quiet h (h\<lparr>status_observations := x\<rparr>)" for h x by (simp add: quietI)
  ultimately show ?thesis using assms(2,3) quiet_refl quiet_step by (auto simp: keeps_def audit_ok_def)
next
  case (reconciled r)
  then obtain x where "s' = s\<lparr>cpl_host := (cpl_host s)\<lparr>capability_registrations := x\<rparr>\<rparr>"
    by (auto simp: RecordPluginCapabilityReconciliation_def try_host_Inr Let_def)
  moreover have "plugins_ok (h\<lparr>capability_registrations := x\<rparr>) = plugins_ok h" for h by (rule plugins_ok_cong) simp_all
  moreover have "quiet h (h\<lparr>capability_registrations := x\<rparr>)" for h by (simp add: quietI)
  ultimately show ?thesis using assms(2,3) quiet_step by (auto simp: keeps_def audit_ok_def)
next
  case (updated i request org)
  then have "\<exists>os. s' = s\<lparr>cpl_orgs := os\<rparr>" by (auto simp: UpdateOrg_def Let_def)
  then show ?thesis using assms(2,3) quiet_refl quiet_step by (auto simp: keeps_def audit_ok_def)
next
  case (core_work h l)
  then have "quiet (cpl_host s) h" by (auto simp: quiet_def same_plugins_def)
  moreover have "plugins_ok h = plugins_ok (cpl_host s)" by (rule plugins_ok_cong) (use core_work in \<open>simp_all add: same_plugins_def\<close>)
  ultimately show ?thesis using assms(2,3) core_work(1) quiet_step by (auto simp: keeps_def audit_ok_def)
next
  case created
  then show ?thesis using created_keeps [OF created assms(2,3)] quiet_step by blast
next
  case discarded
  then show ?thesis using discarded_keeps [OF discarded assms(2,3)] quiet_step by blast
next
  case effect
  then show ?thesis using effect_keeps [OF effect assms(2,3)] quiet_step by blast
qed (use assms(2,3) command_keeps in blast)
section \<open>Installations over time\<close>

lemma manifest_kept: "packages_grow h h' \<Longrightarrow> manifest_of h d = Some m \<Longrightarrow> manifest_of h' d = Some m"
  by (auto simp: packages_grow_def manifest_of_def find_append)

lemma later_package_iff:
  "later_package h old new \<longleftrightarrow> (\<exists>m m' v v'. manifest_of h old = Some m \<and> manifest_of h new = Some m'
     \<and> ParseVersion (mf_Version m) = Inr v \<and> ParseVersion (mf_Version m') = Inr v' \<and> Version_Compare v' v > 0
     \<and> mf_MigrationGeneration m \<le> mf_MigrationGeneration m')"
  by (auto simp: later_package_def split: option.splits sum.splits)

definition manifests_kept :: "host \<Rightarrow> host \<Rightarrow> bool" where
  "manifests_kept h h' \<longleftrightarrow> (\<forall>d m. manifest_of h d = Some m \<longrightarrow> manifest_of h' d = Some m)"

lemma later_package_kept: "manifests_kept h h' \<Longrightarrow> later_package h old new \<Longrightarrow> later_package h' old new"
  unfolding later_package_iff manifests_kept_def by blast

lemma later_package_trans:
  assumes "later_package h d1 d2" "later_package h d2 d3"
  shows "later_package h d1 d3"
proof -
  from assms(1) obtain m1 m2 v1 v2 where 1: "manifest_of h d1 = Some m1" "manifest_of h d2 = Some m2"
    "ParseVersion (mf_Version m1) = Inr v1" "ParseVersion (mf_Version m2) = Inr v2" "Version_Compare v2 v1 > 0"
    "mf_MigrationGeneration m1 \<le> mf_MigrationGeneration m2" unfolding later_package_iff by blast
  from assms(2) 1(2,4) obtain m3 v3 where 2: "manifest_of h d3 = Some m3" "ParseVersion (mf_Version m3) = Inr v3"
    "Version_Compare v3 v2 > 0" "mf_MigrationGeneration m2 \<le> mf_MigrationGeneration m3" unfolding later_package_iff by auto
  have "Version_Compare v1 v2 < 0" "Version_Compare v2 v3 \<le> 0"
    using 1(5) 2(3) precedence.cmp_swap [of v1 v2] precedence.cmp_swap [of v2 v3] by simp_all
  then have "Version_Compare v1 v3 < 0" by (rule precedence.cmp_less_le_trans)
  then have "Version_Compare v3 v1 > 0" using precedence.cmp_swap [of v1 v3] by simp
  then show ?thesis using 1 2 unfolding later_package_iff by (meson order_trans)
qed

text \<open>
  What an installation keeps for good, and how its package moves: a purged one never changes again, any other serves the
  same package or a later version of it. \<open>targets_ok\<close>: a pending upgrade leads to a later version.
\<close>

definition row_history :: "host \<Rightarrow> installation_row \<Rightarrow> installation_row \<Rightarrow> bool" where
  "row_history h i i' \<longleftrightarrow>
     in_installation_uuid i' = in_installation_uuid i \<and> in_plugin_id i' = in_plugin_id i
     \<and> in_backend_url i' = in_backend_url i \<and> in_ui_origin i' = in_ui_origin i \<and> (in_state i = ''purged'' \<longrightarrow> i' = i)
     \<and> (in_package_sha256 i' = in_package_sha256 i \<or> later_package h (in_package_sha256 i) (in_package_sha256 i'))"

definition targets_ok :: "host \<Rightarrow> bool" where
  "targets_ok h \<longleftrightarrow> (\<forall>i\<in>set (plugin_installations h). in_target_package_sha256 i \<noteq> '''' \<longrightarrow>
     later_package h (in_package_sha256 i) (in_target_package_sha256 i))"

definition work_ok :: "host \<Rightarrow> bool" where
  "work_ok h \<longleftrightarrow> (\<forall>p. unsettled p h \<longrightarrow> serves p h)"

definition installations_advance :: "host \<Rightarrow> host \<Rightarrow> bool" where
  "installations_advance h h' \<longleftrightarrow> manifests_kept h h'
     \<and> (\<forall>i\<in>set (plugin_installations h). \<exists>i'\<in>set (plugin_installations h'). row_history h' i i')"

lemma row_history_refl: "row_history h i i"
  by (simp add: row_history_def)

lemma row_history_trans:
  assumes "row_history h i i'" "row_history h' i' i''" "manifests_kept h h'"
  shows "row_history h' i i''"
proof -
  have "in_package_sha256 i'' = in_package_sha256 i \<or> later_package h' (in_package_sha256 i) (in_package_sha256 i'')"
    using assms later_package_kept [OF assms(3)] later_package_trans unfolding row_history_def by metis
  then show ?thesis using assms(1,2) unfolding row_history_def by auto
qed

lemma installations_advance_refl: "installations_advance h h"
  using row_history_refl by (auto simp: installations_advance_def manifests_kept_def)

lemma installations_advance_trans:
  assumes "installations_advance h h'" "installations_advance h' h''"
  shows "installations_advance h h''"
proof -
  have kept: "manifests_kept h' h''" "manifests_kept h h''" using assms by (auto simp: installations_advance_def manifests_kept_def)
  then show ?thesis using assms row_history_trans [OF _ _ kept(1)] unfolding installations_advance_def by meson
qed

text \<open>One row moves.\<close>

lemma moved_rows:
  assumes "row_update u h h'" "plugins_ok h"
  obtains i i' where "i \<in> set (plugin_installations h)" "in_installation_uuid i = u" "row_moves h i i'"
    "set (plugin_installations h') = insert i' (set (plugin_installations h) - {i})"
proof -
  from assms(1) obtain i i' where i: "find_installation u h = Some i" "row_moves h i i'"
    and rows: "plugin_installations h' = upd_where (\<lambda>j. in_installation_uuid j = u) (\<lambda>_. i') (plugin_installations h)"
    unfolding row_update_def by blast
  have ii: "i \<in> set (plugin_installations h)" "in_installation_uuid i = u" using find_installation_Some [OF i(1)] by auto
  have "in_installation_uuid j = u \<longleftrightarrow> j = i" if "j \<in> set (plugin_installations h)" for j
    using installation_unique [of h j i] that ii assms(2) by (auto simp: plugins_ok_def)
  then have "set (plugin_installations h') = (\<lambda>j. if j = i then i' else j) ` set (plugin_installations h)"
    by (simp add: rows set_upd_where cong: image_cong)
  then have "set (plugin_installations h') = insert i' (set (plugin_installations h) - {i})" using ii(1) by auto
  then show ?thesis using that ii i(2) by blast
qed

lemma row_moves_history:
  assumes "row_moves h i i'" "targets_ok h" "i \<in> set (plugin_installations h)" "manifests_kept h h'"
  shows "row_history h' i i'"
proof -
  have "in_package_sha256 i' = in_package_sha256 i \<or> later_package h (in_package_sha256 i) (in_package_sha256 i')"
    using assms(1-3) by (auto simp: row_moves_def targets_ok_def)
  then show ?thesis using assms(1) later_package_kept [OF assms(4)] by (auto simp: row_moves_def row_history_def)
qed

lemma row_moves_target:
  assumes "row_moves h i i'" "targets_ok h" "i \<in> set (plugin_installations h)" "manifests_kept h h'" "in_target_package_sha256 i' \<noteq> ''''"
  shows "later_package h' (in_package_sha256 i') (in_target_package_sha256 i')"
proof -
  have "later_package h (in_package_sha256 i') (in_target_package_sha256 i')"
    using assms(1-3,5) unfolding row_moves_def targets_ok_def by metis
  then show ?thesis by (rule later_package_kept [OF assms(4)])
qed

lemma row_moves_served:
  assumes "row_moves h i i'" "served_state (in_state i)" "unsettled (in_plugin_id i) h"
  shows "served_state (in_state i') \<and> in_plugin_id i' = in_plugin_id i"
proof -
  have moves: "state_moves (in_state i) (in_state i')" "in_plugin_id i' = in_plugin_id i"
    using assms(1) unfolding row_moves_def by blast+
  have settled: "in_state i' = ''uninstalled'' \<and> in_state i \<noteq> ''uninstalled'' \<longrightarrow> Settled (UnsettledPluginWork (in_plugin_id i) h)"
    using assms(1) unfolding row_moves_def by blast
  have "in_state i \<noteq> ''uninstalled''" "in_state i \<noteq> ''installed''" using assms(2) by (auto simp: served_state_def)
  then show ?thesis using moves settled assms(2,3) unfolding state_moves_def unsettled_def by metis
qed

text \<open>The unsettled work of a plugin keeps one of its installations served.\<close>

lemma tables_advance:
  assumes step: "tables_step h h'" and ok: "plugins_ok h" "targets_ok h" "work_ok h"
  shows "targets_ok h' \<and> work_ok h' \<and> installations_advance h h'"
proof -
  have kept: "manifests_kept h h'" using step manifest_kept by (auto simp: tables_step_def manifests_kept_def)
  note later = later_package_kept [OF kept]
  have work: "serves p h" if "unsettled p h'" for p using step ok(3) that by (auto simp: tables_step_def work_ok_def)
  have same: ?thesis if rows: "set (plugin_installations h) \<subseteq> set (plugin_installations h')"
    "\<forall>i\<in>set (plugin_installations h') - set (plugin_installations h). in_target_package_sha256 i = ''''"
  proof (intro conjI)
    show "targets_ok h'" using rows ok(2) later unfolding targets_ok_def by blast
    show "work_ok h'" using rows(1) work unfolding work_ok_def serves_def by blast
    show "installations_advance h h'" using rows(1) row_history_refl kept unfolding installations_advance_def by blast
  qed
  from step consider "plugin_installations h' = plugin_installations h"
    | row where "plugin_installations h' = plugin_installations h @ [row]" "in_target_package_sha256 row = ''''"
    | u where "row_update u h h'" "\<forall>p. unsettled p h' \<longrightarrow> unsettled p h" unfolding tables_step_def rows_change_def by blast
  then show ?thesis
  proof cases
    case (3 u)
    from moved_rows [OF 3(1) ok(1)] obtain i i' where i: "i \<in> set (plugin_installations h)" and m: "row_moves h i i'"
      and rows: "set (plugin_installations h') = insert i' (set (plugin_installations h) - {i})" by metis
    have "targets_ok h'" using ok(2) later row_moves_target [OF m ok(2) i kept] by (auto simp: targets_ok_def rows)
    moreover have "installations_advance h h'"
      using row_moves_history [OF m ok(2) i kept] row_history_refl kept unfolding installations_advance_def rows by blast
    moreover have "serves p h'" if un: "unsettled p h'" for p
    proof -
      obtain j where j: "j \<in> set (plugin_installations h)" "in_plugin_id j = p" "served_state (in_state j)"
        using work [OF un] by (auto simp: serves_def)
      show ?thesis
      proof (cases "j = i")
        case True
        with j row_moves_served [OF m] 3(2) un show ?thesis by (auto simp: serves_def rows)
      qed (use j in \<open>auto simp: serves_def rows\<close>)
    qed
    ultimately show ?thesis by (auto simp: work_ok_def)
  qed (use same in auto)
qed
section \<open>Every history\<close>

definition manager_inv :: "control_plane \<Rightarrow> bool" where
  "manager_inv s \<longleftrightarrow> plugins_ok (cpl_host s) \<and> audit_ok s \<and> targets_ok (cpl_host s) \<and> work_ok (cpl_host s)"

definition manager_advances :: "control_plane \<Rightarrow> control_plane \<Rightarrow> bool" where
  "manager_advances s s' \<longleftrightarrow> audited s s' \<and> log_grows s s' \<and> installations_advance (cpl_host s) (cpl_host s')"

text \<open>Histories whose steps keep an invariant and, where it holds, move forward in some order.\<close>

locale invariant_history =
  fixes step :: "'s \<Rightarrow> 's \<Rightarrow> bool" and inv :: "'s \<Rightarrow> bool" and le :: "'s \<Rightarrow> 's \<Rightarrow> bool"
  assumes le_refl: "le s s"
    and le_trans: "le s1 s2 \<Longrightarrow> le s2 s3 \<Longrightarrow> le s1 s3"
    and step_inv: "step s s' \<Longrightarrow> inv s \<Longrightarrow> inv s' \<and> le s s'"
begin

lemma run_inv: "step\<^sup>*\<^sup>* s s' \<Longrightarrow> inv s \<Longrightarrow> inv s' \<and> le s s'"
  by (induction rule: rtranclp_induct) (use le_refl le_trans step_inv in blast)+

end

interpretation manager_history: invariant_history "manager_step mg obs" manager_inv manager_advances for mg obs
proof
  show "manager_advances s s" for s
    by (simp add: manager_advances_def installations_advance_refl)
  show "manager_advances s1 s3" if "manager_advances s1 s2" "manager_advances s2 s3" for s1 s2 s3
    using that audited_trans log_grows_trans installations_advance_trans unfolding manager_advances_def by blast
  show "manager_inv s' \<and> manager_advances s s'" if "manager_step mg obs s s'" "manager_inv s" for s s'
    using manager_step_keeps [OF that(1)] tables_advance [of "cpl_host s" "cpl_host s'"] that(2)
    unfolding manager_inv_def manager_advances_def keeps_def by blast
qed

text \<open>The log of commands grows whatever the state is.\<close>

lemma system_commands:
  assumes "system_change mg action before org cause reason now w = Inr s'"
  shows "\<exists>s1. w = Inr s1 \<and> cpl_commands s' = cpl_commands s1"
proof -
  from iffD1 [OF system_change_write assms] obtain s1 where w: "w = Inr s1"
    and "system_change mg action before org cause reason now (Inr s1) = Inr s'" by blast
  then have "cpl_commands s' = cpl_commands s1"
    using record_fields(4) unfolding system_change_def RecordPluginManagerSystemChange_def by fastforce
  with w show ?thesis by blast
qed

lemma enable_for_commands:
  assumes "enable_new_organization_for mg org now u (enabled, s) = Inr (enabled', s')"
  shows "cpl_commands s' = cpl_commands s"
proof -
  from assms obtain b where rest: "(case checkOrganizationLimit b 1 s of
       Inl e \<Rightarrow> if IsErrConflict e then Inr (enabled, s) else Inl e
     | Inr _ \<Rightarrow>
         try_then (system_change mg ''plugin_enablement.put'' b (oz_Id org) (''organization-created:'' @ oz_Uuid org)
            (''Organization '' @ oz_Id org @ '' was created while installation '' @ u @ '' serves all organizations.'') now
            (try_host (PutPluginEnablement b (defaultEnablement b (oz_Id org)) (mg_system mg) now) s))
          (\<lambda>s'. Inr (enabled @ [u], s'))) = Inr (enabled', s')"
    unfolding enable_new_organization_for_def prod.case try_then_Inr_iff by blast
  show ?thesis
  proof (cases "checkOrganizationLimit b 1 s")
    case (Inl e)
    then show ?thesis using rest by (auto split: if_splits)
  next
    case (Inr v)
    then obtain t where t: "system_change mg ''plugin_enablement.put'' b (oz_Id org) (''organization-created:'' @ oz_Uuid org)
            (''Organization '' @ oz_Id org @ '' was created while installation '' @ u @ '' serves all organizations.'') now
            (try_host (PutPluginEnablement b (defaultEnablement b (oz_Id org)) (mg_system mg) now) s) = Inr t" "s' = t"
      using rest unfolding Inr sum.case try_then_Inr_iff by blast
    from system_commands [OF t(1)] show ?thesis by (auto simp: t(2) try_host_Inr)
  qed
qed

lemma enable_fold_commands:
  "try_fold (enable_new_organization_for mg org now) us (enabled, s) = Inr (enabled', s') \<Longrightarrow> cpl_commands s' = cpl_commands s"
proof (induction us arbitrary: enabled s)
  case (Cons u us)
  then obtain en1 s1 where "enable_new_organization_for mg org now u (enabled, s) = Inr (en1, s1)"
    "try_fold (enable_new_organization_for mg org now) us (en1, s1) = Inr (enabled', s')" by (auto split: sum.splits)
  then show ?case using Cons.IH enable_for_commands by metis
qed simp

lemma discard_for_commands:
  assumes "discard_organization_for mg org now u s = Inr s'"
  shows "cpl_commands s' = cpl_commands s"
proof -
  from assms obtain b where "system_change mg ''plugin_enablement.remove'' b (oz_Id org) (''organization-discarded:'' @ oz_Uuid org)
       (''Organization '' @ oz_Id org @ '' was removed because its creation failed.'') now
       (Inr (on_host (\<lambda>h. snd (DeletePluginEnablement (pi_PluginID b) (oz_Id org) h)) s)) = Inr s'"
    unfolding discard_organization_for_def try_then_Inr_iff by blast
  from system_commands [OF this] show ?thesis by (auto simp: on_host_def)
qed

lemma discard_fold_commands: "try_fold (discard_organization_for mg org now) us s = Inr s' \<Longrightarrow> cpl_commands s' = cpl_commands s"
proof (induction us arbitrary: s)
  case (Cons u us)
  then obtain s1 where "discard_organization_for mg org now u s = Inr s1" "try_fold (discard_organization_for mg org now) us s1 = Inr s'"
    by (auto split: sum.splits)
  then show ?case using Cons.IH discard_for_commands by metis
qed simp

lemma manager_step_log:
  assumes "manager_step mg obs s s'"
  shows "log_grows s s'"
  using assms
proof cases
  case command
  then show ?thesis using operate_records by blast
next
  case (created u now req org enabled)
  then obtain row s2 where "EnableNewOrganization mg org now (with_org org row s) = Inr (enabled, s2)" "cpl_commands s' = cpl_commands s2"
    using CreateOrg_Inr by (fastforce simp: create_organization_def on_host_def)
  from enable_fold_commands [OF this(1) [unfolded EnableNewOrganization_def]] this(2) show ?thesis by (simp add: with_org_def)
next
  case (discarded org now)
  then obtain s1 where "DiscardOrganization mg org now s = Inr s1" "DeleteOrg obs (oz_Id org) s1 = Inr s'" by (auto simp: discardOrganization_def)
  then have "cpl_commands s1 = cpl_commands s" "cpl_commands s' = cpl_commands s1"
    using discard_fold_commands by (auto simp: DiscardOrganization_def DeleteOrg_def Let_def split: option.splits)
  then show ?thesis by simp
next
  case (effect guard pf org item action safety now f result)
  then have "cpl_commands s' = cpl_commands s"
    using plugin_effect_Inl Opened_enabled(2) by (cases result) (fastforce simp: plugin_effect_Inr)+
  then show ?thesis by simp
qed (auto simp: observe_status_def try_host_Inr UpdateOrg_def Let_def split: if_splits)

section \<open>Commands that are sent again\<close>

text \<open>A request, and its answer in the log.\<close>

definition request_run :: "manager \<Rightarrow> Command \<times> timestamp \<times> operator_command \<Rightarrow> control_plane \<Rightarrow> (command_response \<times> control_plane) option" where
  "request_run mg q s = (case q of (c, now, op) \<Rightarrow> completed (operate mg c now op s))"

definition request_recorded :: "manager \<Rightarrow> Command \<times> timestamp \<times> operator_command \<Rightarrow> command_response \<Rightarrow> control_plane \<Rightarrow> bool" where
  "request_recorded mg q r s = (case q of (c, now, op) \<Rightarrow> recorded_command mg c (command_name op) (payload_of mg op) r s)"

interpretation operator: receipts "request_run mg" "request_recorded mg" "manager_step mg obs" for mg obs
proof
  show "request_recorded mg q r s'" if "request_run mg q s = Some (r, s')" for q s r s'
    using that operate_records by (auto simp: request_run_def request_recorded_def split: prod.splits)
  show answers: "request_run mg q s = Some (r, s)" if "request_recorded mg q r s" for q r s
    using that operate_replays by (auto simp: request_run_def request_recorded_def split: prod.splits)
  show "r' = r \<and> s' = s" if "request_recorded mg q r s" "request_run mg q s = Some (r', s')" for q r s r' s'
    using answers [OF that(1)] that(2) by simp
  show "request_recorded mg q r s'" if "manager_step mg obs s s'" "request_recorded mg q r s" for s s' q r
    using that replayed_grows [OF manager_step_log [OF that(1)]]
    by (auto simp: request_recorded_def recorded_command_def split: prod.splits)
qed

end
