(* ===== verification/ManagerProperties.thy ===== *)
theory ManagerProperties
  imports ManagerHistory
begin

text \<open>
  What the Plugin Manager promises over every history: unsettled work keeps its plugin served, the audit shows every change,
  a command takes effect once, installations keep their identity and move to later packages only, and a package is served
  only after the running plugin has proved it.
\<close>

section \<open>Lemmas\<close>

text \<open>A command without a change leaves the tables as they are.\<close>

lemma change_none:
  assumes "change_of mg actor now op s = Inr (None, s')"
  shows "cpl_host s' = cpl_host s"
proof (cases op)
  case (OpPush digest m)
  then show ?thesis using assms by (auto simp: mutated_Inr dest!: push_Inr)
next
  case (OpCreate u digest backend uiOrigin)
  then show ?thesis using assms by (auto simp: mutated_Inr simp del: split_paired_Ex dest!: create_change_Inr)
next
  case (OpIdentity u serviceUser checker)
  then show ?thesis using assms by (auto simp: mutated_Inr dest!: identity_Inr)
next
  case (OpTransition u action)
  then show ?thesis using assms by (auto simp: mutated_Inr dest!: transition_change_Inr)
next
  case (OpActivate u observed)
  then show ?thesis using assms by (auto simp: mutated_Inr dest!: activate_Inr)
next
  case (OpUpgrade u digest)
  then show ?thesis using assms by (auto simp: mutated_Inr dest!: upgrade_Inr)
next
  case (OpEnablement u org state timezone policies)
  then show ?thesis using assms by (auto simp: mutated_Inr dest!: enablement_Inr)
next
  case (OpRemove u org)
  then show ?thesis using assms by (auto simp: mutated_Inr dest!: remove_Inr)
next
  case (OpMode u mode timezone policies)
  then show ?thesis using assms by (auto simp: mutated_Inr dest!: mode_Inr)
next
  case (OpImport bundle_bytes)
  then show ?thesis using assms by (auto simp: mutated_Inr dest!: import_Inr)
qed

text \<open>What an installation serves was served by it before.\<close>

definition served_before :: "host \<Rightarrow> installation_row \<Rightarrow> bool" where
  "served_before h i' \<longleftrightarrow> (\<exists>i\<in>set (plugin_installations h). in_installation_uuid i = in_installation_uuid i'
     \<and> in_package_sha256 i = in_package_sha256 i' \<and> served_state (in_state i))"

definition serves_no_more :: "host \<Rightarrow> host \<Rightarrow> bool" where
  "serves_no_more h h' \<longleftrightarrow> (\<forall>i'\<in>set (plugin_installations h'). served_state (in_state i') \<longrightarrow> served_before h i')"

lemma same_rows_serve: "plugin_installations h' = plugin_installations h \<Longrightarrow> serves_no_more h h'"
  by (auto simp: serves_no_more_def served_before_def)

lemma update_serves_no_more:
  assumes up: "UpdatePluginInstallation b actor now h1 = Inr h'" and rows: "plugin_installations h1 = plugin_installations h"
    and i: "find_installation (pi_InstallationID b) h = Some i"
    and b: "pi_PackageSHA256 b = in_package_sha256 i" "served_state (pi_State b) \<longrightarrow> served_state (in_state i)"
  shows "serves_no_more h h'"
proof -
  have i1: "find_installation (pi_InstallationID b) h1 = Some i" using i rows by (simp add: find_installation_def)
  have ii: "i \<in> set (plugin_installations h)" "in_installation_uuid i = pi_InstallationID b" using find_installation_Some [OF i] by auto
  have "plugin_installations h' = upd_where (\<lambda>j. in_installation_uuid j = pi_InstallationID b)
      (\<lambda>_. updated_installation_row b actor now i) (plugin_installations h)"
    using update_installation_Inr(1) [OF up i1] rows by simp
  moreover have "served_before h (updated_installation_row b actor now i)" if "served_state (pi_State b)"
    using that ii(1) b unfolding served_before_def updated_installation_row_def by (intro bexI [of _ i]) simp_all
  moreover have "served_before h j" if "j \<in> set (plugin_installations h)" "served_state (in_state j)" for j
    using that by (auto simp: served_before_def)
  moreover have "in_state (updated_installation_row b actor now i) = pi_State b" by (simp add: updated_installation_row_def)
  ultimately show ?thesis by (auto simp: serves_no_more_def in_upd_where split: if_splits)
qed

lemma serves_no_more_rows: "serves_no_more h h1 \<Longrightarrow> plugin_installations h2 = plugin_installations h1 \<Longrightarrow> serves_no_more h h2"
  by (simp add: serves_no_more_def)

lemma transition_serves_no_more:
  assumes "transition_change action u actor now s = Inr (ch, r, s')" "plugins_ok (cpl_host s)"
  shows "serves_no_more (cpl_host s) (cpl_host s')"
proof (cases "ch = None \<and> s' = s")
  case False
  from transition_change_Inr [OF assms(1)] False obtain i b h1 h where i: "find_installation u (cpl_host s) = Some i"
    and up: "UpdatePluginInstallation b actor now h1 = Inr h" "s' = s\<lparr>cpl_host := h\<rparr>"
    and how: "(\<exists>target. h1 = cpl_host s \<and> b = (installation_of (cpl_host s) i)\<lparr>pi_State := target\<rparr>
          \<and> (served_state (in_state i) \<and> served_state target
             \<or> in_state i = ''uninstalled'' \<and> (target = ''installed'' \<or> target = ''purged'')))
       \<or> in_state i \<noteq> ''uninstalled'' \<and> in_state i \<noteq> ''purged'' \<and> uninstall (installation_of (cpl_host s) i) (cpl_host s) = Inr (b, h1)"
    by blast
  have u: "in_installation_uuid i = u" using find_installation_Some [OF i] by simp
  from how show ?thesis
  proof
    assume "\<exists>target. h1 = cpl_host s \<and> b = (installation_of (cpl_host s) i)\<lparr>pi_State := target\<rparr>
          \<and> (served_state (in_state i) \<and> served_state target
             \<or> in_state i = ''uninstalled'' \<and> (target = ''installed'' \<or> target = ''purged''))"
    then have "h1 = cpl_host s" "pi_PackageSHA256 b = in_package_sha256 i" "pi_InstallationID b = u"
      "served_state (pi_State b) \<longrightarrow> served_state (in_state i)" using u by (auto simp: served_state_def)
    then show ?thesis using update_serves_no_more [OF up(1)] i up(2) by simp
  next
    assume un: "in_state i \<noteq> ''uninstalled'' \<and> in_state i \<noteq> ''purged'' \<and> uninstall (installation_of (cpl_host s) i) (cpl_host s) = Inr (b, h1)"
    note un' = uninstall_Inr [OF assms(2) i conjunct1 [OF conjunct2 [OF un]] conjunct2 [OF conjunct2 [OF un]]]
    have "plugin_installations h1 = plugin_installations (cpl_host s)" using states_only_fields(2) [OF un'(3)] by simp
    moreover have "pi_PackageSHA256 b = in_package_sha256 i" "pi_InstallationID b = u" "\<not> served_state (pi_State b)"
      using u by (simp_all add: un'(2) served_state_def)
    ultimately show ?thesis using update_serves_no_more [OF up(1)] i up(2) by simp
  qed
qed (use assms in \<open>simp add: same_rows_serve\<close>)

lemma other_commands_serve_no_more:
  assumes change: "change_of mg actor now op s = Inr (ch, s')" and ok: "plugins_ok (cpl_host s)"
    and other: "\<forall>u observed. op \<noteq> OpActivate u observed"
  shows "serves_no_more (cpl_host s) (cpl_host s')"
proof (cases op)
  case (OpPush digest m)
  then show ?thesis using change by (auto simp: mutated_Inr InsertPluginPackage_def same_rows_serve dest!: push_Inr)
next
  case (OpCreate u digest backend uiOrigin)
  then obtain r where "create_installation_change mg u digest backend uiOrigin actor now s = Inr (ch, r, s')"
    using change by (auto simp: mutated_Inr)
  from create_change_Inr [OF this] obtain b h where h: "InsertPluginInstallation b now (cpl_host s) = Inr h" "s' = s\<lparr>cpl_host := h\<rparr>"
    "pi_State b = ''installed''" by blast
  then have "plugin_installations h = plugin_installations (cpl_host s) @ [new_installation_row b now]"
    by (auto simp: InsertPluginInstallation_def Let_def insert_row_Inr_iff)
  moreover have "\<not> served_state (in_state (new_installation_row b now))" using h(3) by (simp add: new_installation_row_def served_state_def)
  ultimately show ?thesis using h(2) by (auto simp: serves_no_more_def served_before_def)
next
  case (OpIdentity u serviceUser checker)
  then obtain r where "identity_change mg u serviceUser checker actor now s = Inr (ch, r, s')" using change by (auto simp: mutated_Inr)
  from identity_Inr [OF this] show ?thesis
  proof
    assume "\<exists>i m. ch \<noteq> None \<and> find_installation u (cpl_host s) = Some i \<and> in_state i = ''installed''
      \<and> manifest_of (cpl_host s) (in_package_sha256 i) = Some m
      \<and> ValidateServiceIdentities (mg_platform mg) m serviceUser checker = None
      \<and> updates ((installation_of (cpl_host s) i)\<lparr>pi_ServiceUserID := serviceUser, pi_AdmissionCheckerID := checker\<rparr>) actor now s s'"
    then obtain i h where i: "find_installation u (cpl_host s) = Some i" and s': "s' = s\<lparr>cpl_host := h\<rparr>"
      and up: "UpdatePluginInstallation ((installation_of (cpl_host s) i)\<lparr>pi_ServiceUserID := serviceUser, pi_AdmissionCheckerID := checker\<rparr>)
        actor now (cpl_host s) = Inr h" unfolding updates_def by blast
    show ?thesis using update_serves_no_more [OF up refl] i find_installation_Some [OF i] by (simp add: s')
  qed (simp add: same_rows_serve)
next
  case (OpTransition u action)
  then show ?thesis using change transition_serves_no_more [OF _ ok] by (auto simp: mutated_Inr)
next
  case (OpUpgrade u digest)
  then obtain r where "upgrade_change mg u digest actor now s = Inr (ch, r, s')" using change by (auto simp: mutated_Inr)
  from upgrade_Inr [OF this] show ?thesis
  proof
    assume "\<exists>i m t. ch \<noteq> None \<and> find_installation u (cpl_host s) = Some i
      \<and> (in_state i = ''installed'' \<or> served_state (in_state i)) \<and> manifest_of (cpl_host s) (in_package_sha256 i) = Some m
      \<and> (t = '''' \<or> t = digest \<and> validateUpgrade mg (installation_of (cpl_host s) i) m digest s = Inr ())
      \<and> updates ((installation_of (cpl_host s) i)\<lparr>pi_TargetPackageSHA256 := t\<rparr>) actor now s s'"
    then obtain i t h where i: "find_installation u (cpl_host s) = Some i" and s': "s' = s\<lparr>cpl_host := h\<rparr>"
      and up: "UpdatePluginInstallation ((installation_of (cpl_host s) i)\<lparr>pi_TargetPackageSHA256 := t\<rparr>) actor now (cpl_host s) = Inr h"
      unfolding updates_def by blast
    show ?thesis using update_serves_no_more [OF up refl] i find_installation_Some [OF i] by (simp add: s')
  qed (simp add: same_rows_serve)
next
  case (OpEnablement u org state timezone policies)
  then show ?thesis using change put_fields(2) by (fastforce simp: mutated_Inr same_rows_serve dest!: enablement_Inr)
next
  case (OpRemove u org)
  then show ?thesis using change states_only_fields(2) [OF delete_states] by (auto simp: mutated_Inr same_rows_serve dest!: remove_Inr)
next
  case (OpMode u mode timezone policies)
  then obtain r where m: "organization_mode_change mg u mode timezone policies actor now s = Inr (ch, r, s')" using change by (auto simp: mutated_Inr)
  show ?thesis
  proof (cases "ch = None \<and> s' = s")
    case False
    with mode_Inr [OF m] obtain i b zone os h1 h where i: "find_installation u (cpl_host s) = Some i"
      and b: "b = (installation_of (cpl_host s) i)\<lparr>pi_OrganizationMode := mode, pi_DefaultTimezone := zone, pi_DefaultApprovalPolicies := policies\<rparr>"
      and up: "UpdatePluginInstallation b actor now (cpl_host s) = Inr h1"
      and put: "put_defaults b actor now os h1 = Inr h" "s' = s\<lparr>cpl_host := h\<rparr>" by blast
    have "serves_no_more (cpl_host s) h1" using update_serves_no_more [OF up refl] i find_installation_Some [OF i] by (simp add: b)
    then show ?thesis using serves_no_more_rows put_defaults_fields [OF put(1)] put(2) by simp
  qed (simp add: same_rows_serve)
next
  case (OpImport bundle_bytes)
  then show ?thesis using change by (auto simp: mutated_Inr same_rows_serve dest!: import_Inr)
qed (use other in blast)
lemma diagnose_None:
  assumes "diagnose o1 u digest generation = None"
  shows "so_Failure o1 = '''' \<and> so_InstallationID o1 = Some u \<and> so_PackageSHA256 o1 = digest \<and> so_MigrationGeneration o1 = Some generation"
  using assms by (auto simp: diagnose_def split: if_splits)

lemma activation_proof:
  assumes change: "activate_change mg u observed actor now s = Inr (ch, r, s')" and ok: "plugins_ok (cpl_host s)"
    and i': "i' \<in> set (plugin_installations (cpl_host s'))" "served_state (in_state i')" "\<not> served_before (cpl_host s) i'"
  shows "in_installation_uuid i' = u \<and> (\<exists>o1 m. observed = Some o1 \<and> manifest_of (cpl_host s') (in_package_sha256 i') = Some m
    \<and> diagnose o1 u (in_package_sha256 i') (mf_MigrationGeneration m) = None)"
proof -
  have "\<not> (ch = None \<and> s' = s)" using i' by (auto simp: served_before_def)
  with activate_Inr [OF change] obtain i b m o1 h1 h where i: "find_installation u (cpl_host s) = Some i"
    and beq: "b = (installation_of (cpl_host s) i)\<lparr>pi_State := (if in_state i = ''installed'' then ''active'' else in_state i),
        pi_PackageSHA256 := (if in_target_package_sha256 i = '''' then in_package_sha256 i else in_target_package_sha256 i),
        pi_TargetPackageSHA256 := ''''\<rparr>" and m: "manifest_of (cpl_host s) (pi_PackageSHA256 b) = Some m"
    and o1: "observed = Some o1" "diagnose o1 u (pi_PackageSHA256 b) (mf_MigrationGeneration m) = None"
    and w: "ReplacePluginRegistrations b (registrations m) (cpl_host s) = Inr h1" "UpdatePluginInstallation b actor now h1 = Inr h"
      "s' = s\<lparr>cpl_host := h\<rparr>" by blast
  have b: "pi_InstallationID b = in_installation_uuid i" by (simp add: beq)
  have u: "in_installation_uuid i = u" using find_installation_Some [OF i] by simp
  have "unique_registrations (plugin_registrations (cpl_host s))" using ok by (simp add: plugins_ok_def registrations_ok_def)
  note f = states_only_fields [OF replace_Inr(1) [OF w(1) this]]
  have i1: "find_installation (pi_InstallationID b) h1 = Some i" using i f(2) by (simp add: find_installation_def b u)
  note row = update_installation_Inr(1) [OF w(2) i1]
  have rows: "plugin_installations h = upd_where (\<lambda>j. in_installation_uuid j = u) (\<lambda>_. updated_installation_row b actor now i)
      (plugin_installations (cpl_host s))" using row f(2) by (simp add: b u)
  have packages: "manifest_of h d = manifest_of (cpl_host s) d" for d using row f(1) by (simp add: manifest_of_def)
  have "i' = updated_installation_row b actor now i"
    using i' by (auto simp: w(3) rows in_upd_where served_before_def split: if_splits)
  then show ?thesis using o1 m u by (simp add: w(3) packages updated_installation_row_def)
qed

section \<open>Properties\<close>

text \<open>
  C6. Work of a plugin is never left without the plugin. As long as Core holds a grant that is not released, a dispatch that
  is not settled or an active reservation of a plugin, the plugin has an installation that is active or disabled, with
  exactly the registrations of the package it serves, whatever commands ran and whatever organizations came and went. The
  tables of plugins and the audit stay well-formed.
\<close>

theorem work_keeps_plugins:
  assumes "manager_run mg obs s s'" "manager_inv s"
  shows "manager_inv s' \<and> (\<forall>p. Settled (UnsettledPluginWork p (cpl_host s'))
    \<or> (\<exists>i\<in>set (plugin_installations (cpl_host s')). \<exists>m. in_plugin_id i = p \<and> served_state (in_state i)
         \<and> manifest_of (cpl_host s') (in_package_sha256 i) = Some m
         \<and> rows_of (cpl_host s') (in_installation_uuid i) = map (Pair (in_package_sha256 i)) (registrations m)))"
proof -
  have inv: "manager_inv s'" using manager_history.run_inv [OF assms] by blast
  let ?h = "cpl_host s'"
  have "\<exists>i\<in>set (plugin_installations ?h). \<exists>m. in_plugin_id i = p \<and> served_state (in_state i)
      \<and> manifest_of ?h (in_package_sha256 i) = Some m \<and> rows_of ?h (in_installation_uuid i) = map (Pair (in_package_sha256 i)) (registrations m)"
    if "\<not> Settled (UnsettledPluginWork p ?h)" for p
  proof -
    have "serves p ?h" using inv that by (simp add: manager_inv_def work_ok_def unsettled_def)
    then obtain i where i: "i \<in> set (plugin_installations ?h)" "in_plugin_id i = p" "served_state (in_state i)" by (auto simp: serves_def)
    have ok: "packages_ok ?h" "row_ok ?h i" "registered ?h i"
      using inv i(1) by (simp_all add: manager_inv_def plugins_ok_def installations_ok_def registrations_ok_def)
    then obtain m where "manifest_of ?h (in_package_sha256 i) = Some m"
      using manifest_of_package unfolding row_ok_def package_known_iff by metis
    with ok(3) i show ?thesis by (auto simp: registered_def contributions_of_def)
  qed
  with inv show ?thesis by blast
qed


text \<open>
  C10. A command takes effect once. Sent again at any later time, with the same content but for what Core itself chooses (the
  time, a new UUID, what it observed), it gets the first answer and changes nothing; another command under its key is refused.
\<close>

theorem commands_take_effect_once:
  assumes "operate mg c now op s = Inr (r, s')" "manager_run mg obs s' t"
  shows "(\<forall>now' op'. command_name op' = command_name op \<and> payload_of mg op' = payload_of mg op \<longrightarrow> operate mg c now' op' t = Inr (r, t))
    \<and> (\<forall>c' now' op' x. kc_IdempotencyKey c' = kc_IdempotencyKey c
         \<and> command_fingerprint mg (command_name op') (payload_of mg op') c' \<noteq> command_fingerprint mg (command_name op) (payload_of mg op) c
         \<longrightarrow> operate mg c' now' op' t \<noteq> Inr x)"
proof -
  have "request_run mg (c, now, op) s = Some (r, s')" using assms(1) by (simp add: request_run_def)
  then have "request_recorded mg (c, now, op) r t" using operator.steps_keep [OF assms(2)] operator.run_records by blast
  then have rec: "recorded_command mg c (command_name op) (payload_of mg op) r t" by (simp add: request_recorded_def)
  have refused: False if k: "kc_IdempotencyKey c' = kc_IdempotencyKey c"
      "command_fingerprint mg (command_name op') (payload_of mg op') c' \<noteq> command_fingerprint mg (command_name op) (payload_of mg op) c"
      and run: "operate mg c' now' op' t = Inr (r', t')" for c' now' op' r' t'
  proof -
    from operate_records [OF run] have "replayed mg c' (command_name op') (payload_of mg op') r' t'" "log_grows t t'"
      by (simp_all add: recorded_command_def)
    then show False using rec k log_grows_find by (fastforce simp: recorded_command_def replayed_def)
  qed
  show ?thesis using rec operate_replays refused by (metis prod.exhaust)
qed

text \<open>
  C9. Installations last. Over any history an installation keeps its UUID, its plugin and its addresses; one that is purged
  never changes again; and one that serves another package than before serves a later version, in the precedence of Semantic
  Versioning, of a migration generation that is not lower.
\<close>

theorem installations_last:
  assumes "manager_run mg obs s s'" "manager_inv s" "i \<in> set (plugin_installations (cpl_host s))"
  shows "\<exists>i'\<in>set (plugin_installations (cpl_host s')). in_installation_uuid i' = in_installation_uuid i \<and> in_plugin_id i' = in_plugin_id i
    \<and> in_backend_url i' = in_backend_url i \<and> in_ui_origin i' = in_ui_origin i \<and> (in_state i = ''purged'' \<longrightarrow> i' = i)
    \<and> (in_package_sha256 i' = in_package_sha256 i
       \<or> (\<exists>m m' v v'. manifest_of (cpl_host s') (in_package_sha256 i) = Some m \<and> manifest_of (cpl_host s') (in_package_sha256 i') = Some m'
            \<and> ParseVersion (mf_Version m) = Inr v \<and> ParseVersion (mf_Version m') = Inr v' \<and> Version_Compare v' v > 0
            \<and> mf_MigrationGeneration m \<le> mf_MigrationGeneration m'))"
proof -
  have "installations_advance (cpl_host s) (cpl_host s')"
    using manager_history.run_inv [OF assms(1,2)] by (simp add: manager_advances_def)
  then obtain i' where "i' \<in> set (plugin_installations (cpl_host s'))" "row_history (cpl_host s') i i'"
    using assms(3) unfolding installations_advance_def by blast
  then show ?thesis unfolding row_history_def later_package_iff by blast
qed

text \<open>
  C8. A package is served only after proof. If a command makes an installation serve a package that it did not serve before,
  it is an activation, and the running plugin has reported exactly this installation, this package and the migration
  generation of its manifest; the registrations that Core serves are then exactly those of the package.
\<close>

theorem served_packages_are_proven:
  assumes "operate mg c now op s = Inr (r, s')" "plugins_ok (cpl_host s)" "audit_ok s"
    and "i' \<in> set (plugin_installations (cpl_host s'))" "served_state (in_state i')" "\<not> served_before (cpl_host s) i'"
  shows "\<exists>o1 m. op = OpActivate (in_installation_uuid i') (Some o1) \<and> manifest_of (cpl_host s') (in_package_sha256 i') = Some m
    \<and> so_Failure o1 = '''' \<and> so_InstallationID o1 = Some (in_installation_uuid i') \<and> so_PackageSHA256 o1 = in_package_sha256 i'
    \<and> so_MigrationGeneration o1 = Some (mf_MigrationGeneration m)
    \<and> rows_of (cpl_host s') (in_installation_uuid i') = map (Pair (in_package_sha256 i')) (registrations m)"
proof -
  have "s' \<noteq> s" using assms(4-6) by (auto simp: served_before_def)
  with operate_Inr [OF assms(1,3)] obtain ch s1 s2 where ch: "change_of mg (kc_Actor c) now op s = Inr (ch, s1)"
    and log: "logged mg c now ch s1 s2"
    and s': "s' = s2\<lparr>cpl_commands := cpl_commands s2 @ [command_row mg c (command_name op) (payload_of mg op) now r]\<rparr>"
    unfolding committed_def by blast
  have h: "cpl_host s' = cpl_host s1" using logged_fields(1) [OF log] by (simp add: s')
  have "\<not> serves_no_more (cpl_host s) (cpl_host s1)" using assms(4-6) h by (auto simp: serves_no_more_def)
  with other_commands_serve_no_more [OF ch assms(2)] obtain u observed where op: "op = OpActivate u observed" by blast
  then obtain x where "activate_change mg u observed (kc_Actor c) now s = Inr (ch, x, s1)" using ch by (auto simp: mutated_Inr)
  from activation_proof [OF this assms(2) _ assms(5,6)] assms(4) obtain o1 m where u: "in_installation_uuid i' = u" "observed = Some o1"
    and m: "manifest_of (cpl_host s') (in_package_sha256 i') = Some m"
    and d: "diagnose o1 u (in_package_sha256 i') (mf_MigrationGeneration m) = None" unfolding h by blast
  have "registered (cpl_host s') i'" using command_keeps [OF assms(1-3)] assms(4) by (simp add: keeps_def plugins_ok_def registrations_ok_def)
  then have "rows_of (cpl_host s') (in_installation_uuid i') = map (Pair (in_package_sha256 i')) (registrations m)"
    using assms(5) m by (simp add: registered_def contributions_of_def)
  then show ?thesis using op u m diagnose_None [OF d] by blast
qed
section \<open>An example\<close>

text \<open>The example plugin is uninstalled, installed again and activated again.\<close>

definition example_command :: "string \<Rightarrow> int \<Rightarrow> Command" where
  "example_command k n = \<lparr>kc_Actor = ''bob'', kc_IdempotencyKey = k, kc_ExpectedRevision = n, kc_Reason = ''because'', kc_RequestID = ''''\<rparr>"

definition example_report :: PluginStatusObservation where
  "example_report = \<lparr>so_ObservedAt = 7, so_Failure = '''', so_Detail = '''', so_InstallationID = Some ''i1'',
     so_PackageSHA256 = example_package_digest, so_MigrationGeneration = Some 0\<rparr>"

definition example_uninstall :: "(command_response \<times> control_plane) result" where
  "example_uninstall = operate example_manager (example_command ''k1'' 0) 5 (OpTransition ''i1'' ''uninstall'') (example_plane ''selected'')"

definition example_reinstall :: "(command_response \<times> control_plane) result" where
  "example_reinstall = operate example_manager (example_command ''k2'' 1) 6 (OpTransition ''i1'' ''reinstall'') (snd (projr example_uninstall))"

definition example_activate :: "(command_response \<times> control_plane) result" where
  "example_activate = operate example_manager (example_command ''k3'' 2) 7 (OpActivate ''i1'' (Some example_report)) (snd (projr example_reinstall))"

lemma example_commands: "\<not> isl example_uninstall" "\<not> isl example_reinstall" "\<not> isl example_activate"
  by code_simp+

lemma not_isl: "\<not> isl x \<Longrightarrow> x = Inr (fst (projr x), snd (projr x))"
  by (cases x) simp_all

lemma example_operations:
  "operate example_manager (example_command ''k1'' 0) 5 (OpTransition ''i1'' ''uninstall'') (example_plane ''selected'')
     = Inr (fst (projr example_uninstall), snd (projr example_uninstall))"
  "operate example_manager (example_command ''k2'' 1) 6 (OpTransition ''i1'' ''reinstall'') (snd (projr example_uninstall))
     = Inr (fst (projr example_reinstall), snd (projr example_reinstall))"
  "operate example_manager (example_command ''k3'' 2) 7 (OpActivate ''i1'' (Some example_report)) (snd (projr example_reinstall))
     = Inr (fst (projr example_activate), snd (projr example_activate))"
  using example_commands [THEN not_isl] by (simp_all add: example_uninstall_def example_reinstall_def example_activate_def)

lemmas example_steps = example_operations [THEN manager_step.command]

lemma example_runs:
  "manager_run example_manager obs (example_plane ''selected'') (snd (projr example_uninstall))"
  "manager_run example_manager obs (snd (projr example_uninstall)) (snd (projr example_reinstall))"
  "manager_run example_manager obs (snd (projr example_reinstall)) (snd (projr example_activate))"
  by (intro r_into_rtranclp example_steps)+

lemma example_inv: "manager_inv (example_plane ''selected'')"
  using example_plugins_ok [of "''selected''"] example_audit_ok
  by (simp add: manager_inv_def targets_ok_def work_ok_def unsettled_def Settled_def UnsettledPluginWork_def example_plane_def
      example_plane_host_def example_row_def empty_host_def empty_db_def)

theorem work_keeps_plugins_witness:
  "manager_inv (snd (projr example_activate)) \<and> (\<exists>i\<in>set (plugin_installations (cpl_host (snd (projr example_activate)))). served_state (in_state i))"
proof
  show "manager_inv (snd (projr example_activate))"
    using work_keeps_plugins [OF rtranclp_trans [OF example_runs(1) rtranclp_trans [OF example_runs(2,3)]] example_inv] by blast
  show "\<exists>i\<in>set (plugin_installations (cpl_host (snd (projr example_activate)))). served_state (in_state i)" by code_simp
qed


theorem commands_take_effect_once_witness:
  "operate example_manager (example_command ''k1'' 0) 9 (OpTransition ''i1'' ''uninstall'') (snd (projr example_reinstall))
     = Inr (fst (projr example_uninstall), snd (projr example_reinstall))"
  using commands_take_effect_once [OF example_operations(1) example_runs(2)] by blast

theorem installations_last_witness:
  "\<exists>i'\<in>set (plugin_installations (cpl_host (snd (projr example_reinstall)))). in_installation_uuid i' = ''i1'' \<and> in_plugin_id i' = ''com.acme''
     \<and> in_backend_url i' = ''https://acme''"
proof -
  have "example_row ''selected'' \<in> set (plugin_installations (cpl_host (example_plane ''selected'')))"
    by (simp add: example_plane_def example_plane_host_def)
  from installations_last [OF rtranclp_trans [OF example_runs(1,2)] example_inv this] show ?thesis by (auto simp: example_row_def)
qed

theorem served_packages_are_proven_witness:
  "\<exists>i'\<in>set (plugin_installations (cpl_host (snd (projr example_activate)))). served_state (in_state i')
     \<and> so_PackageSHA256 example_report = in_package_sha256 i' \<and> so_InstallationID example_report = Some (in_installation_uuid i')"
proof -
  have "\<exists>i'\<in>set (plugin_installations (cpl_host (snd (projr example_activate)))). served_state (in_state i')
      \<and> \<not> served_before (cpl_host (snd (projr example_reinstall))) i'" by code_simp
  then obtain i' where i': "i' \<in> set (plugin_installations (cpl_host (snd (projr example_activate))))" "served_state (in_state i')"
    "\<not> served_before (cpl_host (snd (projr example_reinstall))) i'" by blast
  have "manager_inv (snd (projr example_reinstall))"
    using manager_history.run_inv [OF rtranclp_trans [OF example_runs(1,2)] example_inv] by blast
  then have ok: "plugins_ok (cpl_host (snd (projr example_reinstall)))" "audit_ok (snd (projr example_reinstall))"
    by (simp_all add: manager_inv_def)
  show ?thesis using served_packages_are_proven [OF example_operations(3) ok i'] i' by auto
qed

end
