(* ===== verification/Spec2Isabelle.thy ===== *)
theory Spec2Isabelle
  imports Providers RuleSelection ExternalModules ExternalPins Journal ManagerProperties
begin

text \<open>
  The control plane of the platform orchestrator: what \<^verbatim>\<open>internal/model\<close> and the packages beside it
  (\<^verbatim>\<open>moduleversions\<close>, \<^verbatim>\<open>moduleconformance\<close>, \<^verbatim>\<open>entitlements\<close>,
  \<^verbatim>\<open>pluginentitlements\<close>, \<^verbatim>\<open>plugins\<close>, \<^verbatim>\<open>pluginmanager\<close>, \<^verbatim>\<open>pagination\<close>)
  do to the database and what they decide from it. All paths below are relative to \<^verbatim>\<open>src/internal\<close>.

  The program. A platform team publishes modules with semantic versions; versions move through a lifecycle and a module has
  at most one default. Rules say which module serves a resource request in an environment, and a Deployment into an
  environment is admitted only if the versions it selects respect the lifecycle and the pins of the environment. Plugins
  extend the platform. Core installs their packages, licenses them offline, delegates operations to them under grants and
  dispatches, and gives them a journal of resource events to read. The API is a thin layer over these operations; the
  database is PostgreSQL, and every operation runs in a transaction of its own.

  How the model reads. A table is a list of rows, a row is a record with the columns of the migration, and a constraint is
  a named key function or predicate that each insert and update checks, so that a violation is the error that the driver
  reports. The tables of modules, environments, pins, admissions and delegated operations are the record \<open>db\<close>
  (Database); \<open>host\<close> (HostTables) adds those of plugins and their journal, \<open>licences\<close> (Entitlements) are
  the stored licences, and \<open>control_plane\<close> (PluginManager) has all of them with the organizations and the command
  log. An operation is a function from its arguments and the state to \<open>error + (result * state)\<close>, under the name of
  the Go function. It is one atomic step: where the code takes advisory or row locks, these serialise it with every operation
  on the same rows, so a history is a sequence of steps, and each history below is an \<open>inductive\<close> relation closed
  under every operation on its tables. An error leaves the state of the caller, as the rollback does. Integers that are 64
  bit wide are \<open>int\<close> where they count rows and words where they can wrap (SemVer); text is a list of bytes, as in Go,
  so lengths are lengths in bytes, and \<open>char_length\<close> is that of PostgreSQL. Times are integers. Arguments of the
  definitions stand for what is no source of the program: hashes, signatures, CBOR, COSE, OpenAPI and URL libraries, the time
  zone database, random numbers, new identifiers, and what the runtime of a plugin or IAM answers.

  The theories, in the order of their imports, with the code they model.

  \<^item> Prelude: results, fallible folds, rows and keys, trimming and splitting of text; the collections of rewrite rules.
  \<^item> SemVer (\<^verbatim>\<open>moduleversions/semver.go\<close>): parsing, printing, precedence; the hand-written pattern is
    equivalent to the regular expression, and \<^verbatim>\<open>Compare\<close> is the precedence of Semantic Versioning below
    \<open>2 ^ 64\<close>. Lifecycle (\<^verbatim>\<open>domain.go\<close>): which states of versions and pins follow each other.
  \<^item> Database, Paging (\<^verbatim>\<open>pagination\<close>): tables, constraints, outbox; the contract of keyset listings with the
    walk over all pages, a locale that each listing interprets.
  \<^item> Scopes, Environments (\<^verbatim>\<open>model/projects.go\<close>, \<^verbatim>\<open>env_types.go\<close>, \<^verbatim>\<open>runners.go\<close>,
    \<^verbatim>\<open>envs.go\<close>): the places that deployments go to, their references and the latch of force deletions.
  \<^item> Conformance (\<^verbatim>\<open>moduleconformance\<close>), ResourceTypes, TypeBinding (\<^verbatim>\<open>model/resource_types.go\<close>,
    \<^verbatim>\<open>resource_type_versions.go\<close>): interfaces of resource types, bounds of contracts, stable meaning of names.
  \<^item> Catalogue, VersionHistory (\<^verbatim>\<open>model/module_version_management.go\<close>, \<^verbatim>\<open>modules.go\<close>): publication
    and lifecycle of versions; one default and one proposed version, an append-only history. Concurrency: the locale of
    commands that compare a resource version. Drafts (\<^verbatim>\<open>module_drafts.go\<close>). Providers, Rules, RuleSelection
    (\<^verbatim>\<open>providers.go\<close>, \<^verbatim>\<open>module_rules.go\<close>, \<^verbatim>\<open>api/catalogue.go\<close>).
  \<^item> Extensions (\<^verbatim>\<open>module_extensions.go\<close>): reservations and contributions. Retries: the locales of commands
    that are delivered at least once. Grants, ExternalModules, ExternalPins
    (\<^verbatim>\<open>external_operation_grants.go\<close>, \<^verbatim>\<open>external_module_operations.go\<close>,
    \<^verbatim>\<open>external_pin_operations.go\<close>): what a plugin may do to modules and pins, with receipts.
  \<^item> Pins, Admission, Dispatch, Delivery (\<^verbatim>\<open>module_version_pins.go\<close>, \<^verbatim>\<open>environment_admission.go\<close>,
    \<^verbatim>\<open>external_operation_dispatch.go\<close>, \<^verbatim>\<open>external_dispatch_recovery.go\<close>): who may change an
    environment. Delivery interleaves all of them: one authority at a time, and an epoch that reveals every admission.
  \<^item> PluginManifest, HostTables, Journal (\<^verbatim>\<open>plugins/manifest.go\<close>, \<^verbatim>\<open>extension_events.go\<close>): the
    checks of a package, and the journal of events with its consumers. A consumer reads adjacent pieces of what was committed
    in its scope; retention keeps what is not acknowledged.
  \<^item> Verifier (\<^verbatim>\<open>entitlements/verifier.go\<close>), Entitlements, LicenceHistory
    (\<^verbatim>\<open>model/plugin_entitlements.go\<close>): offline licences, decisions under a clock that never runs back, and what
    holds over every history of them.
  \<^item> PluginRegistry (\<^verbatim>\<open>plugins/installations.go\<close>, \<^verbatim>\<open>plugins/entitlement.go\<close>,
    \<^verbatim>\<open>pluginmanager/registrations.go\<close>), PluginStore (\<^verbatim>\<open>model/plugin_manager.go\<close>), Licensing
    (\<^verbatim>\<open>pluginentitlements\<close>): what a replica serves, discovery and the guard of plugin work.
  \<^item> PluginManager (\<^verbatim>\<open>pluginmanager/commands.go\<close>, \<^verbatim>\<open>organizations.go\<close>, \<^verbatim>\<open>status.go\<close>,
    \<^verbatim>\<open>reads.go\<close>): the operator commands. ManagerTables: what each does to the tables and their invariant.
    CommandLog: revision, audit and replay. ManagerCommands: all commands as one type, with the effect of each.
    Organizations (\<^verbatim>\<open>model/orgs.go\<close>, \<^verbatim>\<open>api/orgs.go\<close>): creation with its compensation.
  \<^item> PluginEffects (\<^verbatim>\<open>api/plugin_entitlements.go\<close>): the transaction in which a plugin changes Core.
    ManagerHistory: all steps that can touch plugins, interleaved; ManagerProperties: what holds over every history of them.
  What the groups of lemmas show. Per operation: an equation \<open>..._Inr\<close> that says when it succeeds and what it writes.
  Per component: an invariant over its tables and that each operation keeps it. Per history: the invariants of all
  reachable states by rule induction, and what is monotone along it. The properties combine these; those with hypotheses
  have a witness that evaluates the model at a concrete state.

  Fuel and bounds. Recursion is structural or has a measure, but for the loop that makes names of organizations, which may
  never end: it takes fuel, one attempt is enough for every prefix that the API accepts, and no fuel is enough beyond 38
  characters. Page sizes are positive. Nothing else is bounded by the model that is not bounded by the code.

  What is not modelled. Generated servers, clients and mocks; the HTTP handlers, which decode requests, authorise them and
  call the operations; logging, configuration, the vault, the start of the server and the background loops that call the
  operations periodically; the HTTP transport to the runtimes of plugins and of the data plane; Draft tests, which need a
  model of URL parsing; the calls to IAM. JSON text is decoded by parameters. The manifest names these parts one by one.
\<close>

end
